(* ===== verification/Prelude.thy ===== *)
theory Prelude
  imports Main "HOL-Library.Signed_Division"
begin

text \<open>
  What every component of the development shares: the types the TypeScript code uses everywhere
  (timestamps, results that carry a machine-readable refusal code), the SQL statements of the
  PostgreSQL back ends as list operations (a table is a list of rows with distinct keys), the
  transaction discipline of the code (\<open>BEGIN\<close> .. \<open>COMMIT\<close>, \<open>ROLLBACK\<close> in the catch branch), and
  the lemmas about them that carry the component proofs.

  Conventions.
  \<^item> A \<open>bigint\<close> is an \<open>int\<close>. BigInt division truncates towards zero: \<open>a sdiv b\<close>.
  \<^item> A valid \<open>Date\<close> is the number of milliseconds since the epoch, an \<open>int\<close>; where the code tests
    for an invalid date, the type is \<open>ms option\<close> and \<open>None\<close> is \<open>Invalid Date\<close>.
  \<^item> \<open>randomUUID()\<close> and the clocks are inputs of the operation that reads them.
  \<^item> A result \<open>{ok: false, code, reason}\<close> is \<open>Refused code\<close>: the code is what callers branch on, the
    human-readable reason is not modelled.
\<close>

section \<open>Types shared by the components\<close>

type_synonym ms = int

type_synonym uuid = string

text \<open>The shape \<open>{ok: true, ...} | {ok: false, code, reason}\<close> of almost every operation.\<close>

datatype 'a outcome = Ok 'a | Refused string

fun is_ok :: "'a outcome \<Rightarrow> bool" where
  "is_ok (Ok _) = True"
| "is_ok (Refused _) = False"

text \<open>JavaScript truthiness of a string that may be \<open>undefined\<close>: neither missing nor empty.\<close>

fun truthy :: "string option \<Rightarrow> bool" where
  "truthy None = False"
| "truthy (Some s) = (s \<noteq> [])"

section \<open>Proof hint collections\<close>

named_theorems table_simps \<open>rewriting of SELECT and UPDATE on tables\<close>
named_theorems gate_defs \<open>definitions of the pure decision gates\<close>
named_theorems money_defs \<open>definitions of the money operations\<close>

section \<open>SQL tables as lists of rows\<close>

text \<open>\<open>SELECT ... WHERE key = k\<close> on a primary key, and \<open>UPDATE ... SET f WHERE key = k AND p\<close>.\<close>

definition row_of :: "('r \<Rightarrow> 'k) \<Rightarrow> 'k \<Rightarrow> 'r list \<Rightarrow> 'r option" where
  "row_of key k t = find (\<lambda>r. key r = k) t"

definition upd_row :: "('r \<Rightarrow> 'k) \<Rightarrow> 'k \<Rightarrow> ('r \<Rightarrow> 'r) \<Rightarrow> 'r list \<Rightarrow> 'r list" where
  "upd_row key k f t = map (\<lambda>r. if key r = k then f r else r) t"

definition keys_ok :: "('r \<Rightarrow> 'k) \<Rightarrow> 'r list \<Rightarrow> bool" where
  "keys_ok key t \<longleftrightarrow> distinct (map key t)"

lemma row_of_None: "row_of key k t = None \<longleftrightarrow> k \<notin> key ` set t"
  by (auto simp: row_of_def find_None_iff)

lemma row_of_Some: "row_of key k t = Some r \<Longrightarrow> r \<in> set t \<and> key r = k"
  by (auto simp: row_of_def find_Some_iff)

lemma row_of_Nil [simp]: "row_of key k [] = None"
  by (simp add: row_of_def)

lemma row_of_Cons [simp]:
  "row_of key k (r # t) = (if key r = k then Some r else row_of key k t)"
  by (simp add: row_of_def)

lemma upd_row_Nil [simp]: "upd_row key k f [] = []"
  by (simp add: upd_row_def)

lemma upd_row_Cons [simp]:
  "upd_row key k f (r # t) = (if key r = k then f r else r) # upd_row key k f t"
  by (simp add: upd_row_def)

lemma row_of_append:
  "row_of key k (t @ u) = (case row_of key k t of None \<Rightarrow> row_of key k u | Some r \<Rightarrow> Some r)"
  by (induction t) auto

lemma upd_row_fresh [table_simps]: "k \<notin> key ` set t \<Longrightarrow> upd_row key k f t = t"
  by (induction t) auto

lemma keys_upd_row [table_simps]:
  assumes "\<And>r. key (f r) = key r"
  shows "map key (upd_row key k f t) = map key t"
  by (induction t) (auto simp: assms)

lemma keys_ok_upd_row:
  assumes "\<And>r. key (f r) = key r" and "keys_ok key t"
  shows "keys_ok key (upd_row key k f t)"
  using assms by (simp add: keys_ok_def keys_upd_row)

lemma row_of_upd_row [table_simps]:
  assumes "\<And>r. key (f r) = key r"
  shows "row_of key k' (upd_row key k f t)
    = (if k' = k then map_option f (row_of key k t) else row_of key k' t)"
  by (induction t) (auto simp: assms)

lemma keys_ok_row_of:
  "keys_ok key t \<Longrightarrow> r \<in> set t \<Longrightarrow> row_of key (key r) t = Some r"
  by (induction t) (auto simp: keys_ok_def image_iff)

lemma set_upd_row:
  assumes "keys_ok key t" and "row_of key k t = Some r0"
  shows "set (upd_row key k f t) = insert (f r0) (set t - {r0})"
  using assms
proof (induction t)
  case Nil
  then show ?case by simp
next
  case (Cons r t)
  show ?case
  proof (cases "key r = k")
    case True
    with Cons.prems have "k \<notin> key ` set t" and "r0 = r"
      by (auto simp: keys_ok_def)
    then show ?thesis
      using True by (auto simp: upd_row_fresh)
  next
    case False
    with Cons.prems have "keys_ok key t" and r0: "row_of key k t = Some r0"
      by (auto simp: keys_ok_def)
    moreover from r0 False have "r \<noteq> r0"
      by (auto dest: row_of_Some)
    ultimately show ?thesis
      using False Cons.IH by auto
  qed
qed

text \<open>
  A sum over a table after one row changed: what the money invariant needs. \<open>g\<close> is the column
  expression that is summed.
\<close>

lemma sum_upd_row [table_simps]:
  fixes g :: "'r \<Rightarrow> int"
  assumes "keys_ok key t" and "row_of key k t = Some r0"
  shows "(\<Sum>r\<leftarrow>upd_row key k f t. g r) = (\<Sum>r\<leftarrow>t. g r) - g r0 + g (f r0)"
  using assms
proof (induction t)
  case Nil
  then show ?case by simp
next
  case (Cons r t)
  show ?case
  proof (cases "key r = k")
    case True
    with Cons.prems have "k \<notin> key ` set t" and "r0 = r"
      by (auto simp: keys_ok_def)
    then show ?thesis
      using True by (simp add: upd_row_fresh)
  next
    case False
    with Cons.prems have "keys_ok key t" and "row_of key k t = Some r0"
      by (auto simp: keys_ok_def)
    with False Cons.IH show ?thesis by simp
  qed
qed

lemma sum_list_nonneg_int:
  fixes g :: "'r \<Rightarrow> int"
  assumes "\<And>r. r \<in> set t \<Longrightarrow> 0 \<le> g r"
  shows "0 \<le> (\<Sum>r\<leftarrow>t. g r)"
  using assms by (induction t) auto

lemma member_le_sum_list_int:
  fixes g :: "'r \<Rightarrow> int"
  assumes "\<And>r. r \<in> set t \<Longrightarrow> 0 \<le> g r" and "r \<in> set t"
  shows "g r \<le> (\<Sum>r\<leftarrow>t. g r)"
  using assms
proof (induction t)
  case Nil
  then show ?case by simp
next
  case (Cons x t)
  have rest: "0 \<le> (\<Sum>r\<leftarrow>t. g r)"
    using Cons.prems(1) by (intro sum_list_nonneg_int) auto
  show ?case
  proof (cases "r = x")
    case True
    with rest show ?thesis by simp
  next
    case False
    with Cons.prems have "g r \<le> (\<Sum>r\<leftarrow>t. g r)"
      by (intro Cons.IH) auto
    moreover have "0 \<le> g x" using Cons.prems(1) by simp
    ultimately show ?thesis by simp
  qed
qed

section \<open>Transactions\<close>

text \<open>
  Every money operation of the PostgreSQL back ends has the shape
  \<^verbatim>\<open>BEGIN ... COMMIT\<close> inside a \<open>try\<close>, with \<open>ROLLBACK\<close> and a typed refusal in the \<open>catch\<close>. The
  body either finishes with a result and a database (for an early return the unchanged one, after
  \<open>ROLLBACK\<close>) or hits a constraint and raises an SQLSTATE.

  \<open>fault\<close> is what the environment does to the connection during the transaction: nothing, an
  error before the commit takes effect (lost connection, serialization conflict, deadlock), or a
  commit that takes effect on the server while the client sees an error.
\<close>

record pg_error =
  pg_code :: string
  pg_text :: string

datatype fault = NoFault | Aborted pg_error | CommitLost pg_error

fun with_txn ::
  "fault \<Rightarrow> (pg_error \<Rightarrow> 'a) \<Rightarrow> ('d \<Rightarrow> pg_error + ('a \<times> 'd)) \<Rightarrow> 'd \<Rightarrow> 'a \<times> 'd" where
  "with_txn NoFault catch body d =
     (case body d of Inl e \<Rightarrow> (catch e, d) | Inr (x, d') \<Rightarrow> (x, d'))"
| "with_txn (Aborted e) catch body d = (catch e, d)"
| "with_txn (CommitLost e) catch body d =
     (case body d of Inl e' \<Rightarrow> (catch e', d) | Inr (x, d') \<Rightarrow> (catch e, d'))"

lemma with_txn_cases:
  assumes "with_txn f catch body d = (x, d')"
  obtains (unchanged) "d' = d"
  | (committed) y where "body d = Inr (y, d')"
  using assms by (cases f) (auto split: sum.splits prod.splits)

lemma with_txn_invariant:
  assumes "\<And>y d'. body d = Inr (y, d') \<Longrightarrow> P d'" and "P d"
  shows "P (snd (with_txn f catch body d))"
proof -
  obtain x d' where r: "with_txn f catch body d = (x, d')" by fastforce
  have "P d'"
    using r by (rule with_txn_cases) (use assms in auto)
  with r show ?thesis by simp
qed

lemma with_txn_ok:
  assumes "with_txn f catch body d = (Ok y, d')" and "\<And>e z. catch e \<noteq> Ok z"
  shows "f = NoFault \<and> body d = Inr (Ok y, d')"
  using assms by (cases f) (auto split: sum.splits prod.splits)

text \<open>\<open>INSERT ... ON CONFLICT (key) DO UPDATE\<close>, and \<open>Map.set\<close>: an existing key keeps its place.\<close>

definition put_row :: "('r \<Rightarrow> 'k) \<Rightarrow> 'r \<Rightarrow> 'r list \<Rightarrow> 'r list" where
  "put_row key r t = (case row_of key (key r) t of
       None \<Rightarrow> t @ [r] | Some _ \<Rightarrow> upd_row key (key r) (\<lambda>_. r) t)"

lemma row_of_const_upd:
  "row_of key (key r) t \<noteq> None \<Longrightarrow> row_of key (key r) (upd_row key (key r) (\<lambda>_. r) t) = Some r"
  by (induction t) auto

lemma row_of_const_upd_other:
  "k \<noteq> key r \<Longrightarrow> row_of key k (upd_row key (key r) (\<lambda>_. r) t) = row_of key k t"
  by (induction t) auto

lemma keys_const_upd: "map key (upd_row key (key r) (\<lambda>_. r) t) = map key t"
  by (induction t) auto

lemma keys_ok_put_row: "keys_ok key t \<Longrightarrow> keys_ok key (put_row key r t)"
  by (auto simp: keys_ok_def put_row_def keys_const_upd row_of_None split: option.splits)

lemma row_of_put_row [table_simps]:
  "row_of key k (put_row key r t) = (if k = key r then Some r else row_of key k t)"
  by (auto simp: put_row_def row_of_append row_of_const_upd row_of_const_upd_other split: option.splits)

section \<open>Operations that may throw\<close>

text \<open>
  An asynchronous operation on a state \<open>'w\<close>: it returns a value or throws (\<open>Inl\<close>, the error's
  message), and the state changes made before a throw stay. \<open>bind_eff\<close> is \<open>await\<close> in sequence,
  \<open>attempt_eff\<close> is \<open>try .. catch\<close>, \<open>finally_eff\<close> is \<open>try .. finally\<close> whose final operation swallows
  its own error.
\<close>

type_synonym ('w, 'a) eff = "'w \<Rightarrow> (string + 'a) \<times> 'w"

definition return_eff :: "'a \<Rightarrow> ('w, 'a) eff" where
  "return_eff x w = (Inr x, w)"

definition throw_eff :: "string \<Rightarrow> ('w, 'a) eff" where
  "throw_eff e w = (Inl e, w)"

definition bind_eff :: "('w, 'a) eff \<Rightarrow> ('a \<Rightarrow> ('w, 'b) eff) \<Rightarrow> ('w, 'b) eff" where
  "bind_eff m f w = (case m w of (Inl e, w') \<Rightarrow> (Inl e, w') | (Inr x, w') \<Rightarrow> f x w')"

definition attempt_eff :: "('w, 'a) eff \<Rightarrow> (string \<Rightarrow> ('w, 'a) eff) \<Rightarrow> ('w, 'a) eff" where
  "attempt_eff m handler w = (case m w of (Inl e, w') \<Rightarrow> handler e w' | (Inr x, w') \<Rightarrow> (Inr x, w'))"

definition finally_eff :: "('w, 'a) eff \<Rightarrow> ('w, 'b) eff \<Rightarrow> ('w, 'a) eff" where
  "finally_eff m after w = (case m w of (r, w') \<Rightarrow> (r, snd (after w')))"

text \<open>A loop over a list whose body's errors are caught and logged: the \<open>.catch(...)\<close> pattern.\<close>

fun each_caught :: "('a \<Rightarrow> ('w, 'b) eff) \<Rightarrow> 'a list \<Rightarrow> ('w, unit) eff" where
  "each_caught body [] w = (Inr (), w)"
| "each_caught body (x # xs) w = each_caught body xs (snd (body x w))"

lemmas eff_defs = return_eff_def throw_eff_def bind_eff_def attempt_eff_def finally_eff_def

text \<open>
  What an operation may do to the state, whether it returns or throws: every run is a step of \<open>R\<close>,
  for a reflexive and transitive \<open>R\<close>. The last two rules compose two relations, a quiet one before
  or after one that says more.
\<close>

definition preorder_on_states :: "('w \<Rightarrow> 'w \<Rightarrow> bool) \<Rightarrow> bool" where
  "preorder_on_states R \<longleftrightarrow> (\<forall>w. R w w) \<and> (\<forall>u v w. R u v \<longrightarrow> R v w \<longrightarrow> R u w)"

definition steps_eff :: "('w \<Rightarrow> 'w \<Rightarrow> bool) \<Rightarrow> ('w, 'a) eff \<Rightarrow> bool" where
  "steps_eff R m \<longleftrightarrow> (\<forall>w. R w (snd (m w)))"

lemma steps_effD: "steps_eff R m \<Longrightarrow> m w = (x, w') \<Longrightarrow> R w w'"
  by (auto simp: steps_eff_def dest: spec [of _ w])

lemma steps_return: "preorder_on_states R \<Longrightarrow> steps_eff R (return_eff x)"
  by (simp add: steps_eff_def return_eff_def preorder_on_states_def)

lemma steps_throw: "preorder_on_states R \<Longrightarrow> steps_eff R (throw_eff e)"
  by (simp add: steps_eff_def throw_eff_def preorder_on_states_def)

lemma steps_bind:
  assumes "preorder_on_states R" and "steps_eff R m" and "\<And>x. steps_eff R (f x)"
  shows "steps_eff R (bind_eff m f)"
proof -
  have "R w (snd (bind_eff m f w))" for w
  proof (cases "m w")
    case (Pair x w1)
    have "R w w1" using assms(2) Pair by (rule steps_effD)
    moreover have "R w1 (snd (f y w1))" for y using assms(3) [of y] by (simp add: steps_eff_def)
    ultimately show ?thesis
      using assms(1) Pair unfolding preorder_on_states_def by (cases x) (auto simp: bind_eff_def)
  qed
  then show ?thesis by (simp add: steps_eff_def)
qed

lemma steps_attempt:
  assumes "preorder_on_states R" and "steps_eff R m" and "\<And>e. steps_eff R (h e)"
  shows "steps_eff R (attempt_eff m h)"
proof -
  have "R w (snd (attempt_eff m h w))" for w
  proof (cases "m w")
    case (Pair x w1)
    have "R w w1" using assms(2) Pair by (rule steps_effD)
    moreover have "R w1 (snd (h e w1))" for e using assms(3) [of e] by (simp add: steps_eff_def)
    ultimately show ?thesis
      using assms(1) Pair unfolding preorder_on_states_def by (cases x) (auto simp: attempt_eff_def)
  qed
  then show ?thesis by (simp add: steps_eff_def)
qed

lemma steps_each:
  assumes "preorder_on_states R" and "\<And>x. steps_eff R (body x)"
  shows "steps_eff R (each_caught body xs)"
proof -
  have "R w (snd (each_caught body xs w))" for w
    using assms unfolding steps_eff_def preorder_on_states_def
    by (induction xs arbitrary: w) (simp, metis each_caught.simps(2))
  then show ?thesis by (simp add: steps_eff_def)
qed

lemma steps_if: "steps_eff R m \<Longrightarrow> steps_eff R n \<Longrightarrow> steps_eff R (if b then m else n)"
  by simp

lemma steps_before:
  assumes "steps_eff R m" and "\<And>x. steps_eff S (f x)"
    and "\<And>u v. R u v \<Longrightarrow> S u v" and "\<And>u v w. R u v \<Longrightarrow> S v w \<Longrightarrow> S u w"
  shows "steps_eff S (bind_eff m f)"
proof -
  have "S w (snd (bind_eff m f w))" for w
  proof (cases "m w")
    case (Pair x w1)
    have "R w w1" using assms(1) Pair by (rule steps_effD)
    moreover have "S w1 (snd (f y w1))" for y using assms(2) [of y] by (simp add: steps_eff_def)
    ultimately show ?thesis using assms(3,4) Pair by (cases x) (auto simp: bind_eff_def)
  qed
  then show ?thesis by (simp add: steps_eff_def)
qed

lemma steps_finally:
  assumes "steps_eff S m" and "steps_eff R after" and "\<And>u v w. S u v \<Longrightarrow> R v w \<Longrightarrow> S u w"
  shows "steps_eff S (finally_eff m after)"
proof -
  have "S w (snd (finally_eff m after w))" for w
  proof (cases "m w")
    case (Pair x w1)
    have "S w w1" using assms(1) Pair by (rule steps_effD)
    moreover have "R w1 (snd (after w1))" using assms(2) by (simp add: steps_eff_def)
    ultimately show ?thesis using assms(3) Pair by (auto simp: finally_eff_def)
  qed
  then show ?thesis by (simp add: steps_eff_def)
qed

section \<open>BigInt division\<close>

text \<open>Truncating division by a positive divisor, on the amounts the money code divides.\<close>

lemma sdiv_nonneg: "0 \<le> a \<Longrightarrow> 0 < b \<Longrightarrow> a sdiv b = a div (b :: int)"
  by (cases "a = 0") (simp_all add: signed_divide_int_def sgn_mult)

lemma sdiv_le_self:
  fixes a b :: int
  assumes "0 \<le> a" and "0 < b"
  shows "a sdiv b * b \<le> a"
proof -
  have "a div b * b = a - a mod b" and "0 \<le> a mod b"
    using assms(2) by (simp_all add: minus_mod_eq_div_mult)
  then show ?thesis using assms by (simp add: sdiv_nonneg)
qed

section \<open>Insertion-ordered maps\<close>

text \<open>A \<open>Map\<close> keeps insertion order; \<open>set\<close> of a known key replaces in place, \<open>get\<close> is \<open>map_of\<close>.\<close>

fun map_set :: "'k \<Rightarrow> 'v \<Rightarrow> ('k \<times> 'v) list \<Rightarrow> ('k \<times> 'v) list" where
  "map_set k v [] = [(k, v)]"
| "map_set k v ((k', v') # kvs) = (if k' = k then (k, v) # kvs else (k', v') # map_set k v kvs)"

lemma map_of_map_set: "map_of (map_set k v kvs) = (map_of kvs)(k \<mapsto> v)"
  by (induction kvs) auto

lemma keys_map_set: "map fst (map_set k v kvs) = (if k \<in> set (map fst kvs) then map fst kvs else map fst kvs @ [k])"
  by (induction kvs) force+

lemma distinct_map_set: "distinct (map fst m) \<Longrightarrow> distinct (map fst (map_set k v m))"
  by (simp add: keys_map_set)

lemma map_set_fresh: "k \<notin> fst ` set kvs \<Longrightarrow> map_set k v kvs = kvs @ [(k, v)]"
  by (induction kvs) auto

end
