(* ===== verification/JsNumber.thy ===== *)
theory JsNumber
  imports Complex_Main Prelude
begin

text \<open>
  The JavaScript \<open>number\<close> type and the conversions the money code uses.

  A \<open>number\<close> is \<open>NaN\<close>, an infinity or a finite double, held as its exact rational value (\<open>-0\<close> is
  identified with \<open>0\<close>, which no modelled operation distinguishes). \<open>fl\<close> is IEEE-754 rounding to
  binary64, ties to even, with gradual underflow and overflow to infinity; arithmetic computes the
  exact rational and rounds it once. \<open>num_to_string\<close> is \<open>Number::toString\<close> of ECMA-262 (shortest
  digits that read back to the same double) and \<open>parse_bigint\<close> is \<open>BigInt(string)\<close>.
\<close>

section \<open>Rounding to binary64\<close>

datatype jsnum = NaN | PosInf | NegInf | Fin rat

definition pow2 :: "int \<Rightarrow> rat" where
  "pow2 e = (if 0 \<le> e then 2 ^ nat e else 1 / 2 ^ nat (- e))"

text \<open>The number of base-\<open>b\<close> digits of a positive integer.\<close>

function dlen :: "int \<Rightarrow> int \<Rightarrow> int" where
  "dlen b a = (if a \<le> 0 \<or> b \<le> 1 then 0 else 1 + dlen b (a div b))"
  by pat_completeness auto
termination
  by (relation "measure (\<lambda>(b, a). nat a)") (auto simp: int_div_less_self)

declare dlen.simps [simp del]

text \<open>\<open>ilog2 q\<close> is the exponent \<open>e\<close> with \<open>2^e \<le> q < 2^(e+1)\<close>, for \<open>q > 0\<close>.\<close>

definition ilog2 :: "rat \<Rightarrow> int" where
  "ilog2 q = (if 1 \<le> q then dlen 2 \<lfloor>q\<rfloor> - 1 else - dlen 2 (\<lceil>1 / q\<rceil> - 1))"

definition round_half_even :: "rat \<Rightarrow> int" where
  "round_half_even x = (let f = \<lfloor>x\<rfloor>; d = x - of_int f
     in if d < 1 / 2 then f else if 1 / 2 < d then f + 1 else if even f then f else f + 1)"

definition fl :: "rat \<Rightarrow> jsnum" where
  "fl q = (if q = 0 then Fin 0
     else let e = max (ilog2 \<bar>q\<bar> - 52) (-1074);
              r = of_int (round_half_even (q / pow2 e)) * pow2 e
          in if pow2 1024 \<le> \<bar>r\<bar> then (if 0 < q then PosInf else NegInf) else Fin r)"

section \<open>Comparison, classification, arithmetic\<close>

fun num_lt :: "jsnum \<Rightarrow> jsnum \<Rightarrow> bool" where
  "num_lt NaN _ = False"
| "num_lt _ NaN = False"
| "num_lt (Fin a) (Fin b) = (a < b)"
| "num_lt NegInf y = (y \<noteq> NegInf)"
| "num_lt PosInf _ = False"
| "num_lt (Fin _) y = (y = PosInf)"

fun num_eq :: "jsnum \<Rightarrow> jsnum \<Rightarrow> bool" where
  "num_eq NaN _ = False"
| "num_eq x y = (x = y)"

definition num_le :: "jsnum \<Rightarrow> jsnum \<Rightarrow> bool" where
  "num_le x y \<longleftrightarrow> num_lt x y \<or> num_eq x y"

fun is_finite_num :: "jsnum \<Rightarrow> bool" where
  "is_finite_num (Fin _) = True"
| "is_finite_num _ = False"

definition rat_is_int :: "rat \<Rightarrow> bool" where
  "rat_is_int q \<longleftrightarrow> of_int \<lfloor>q\<rfloor> = q"

fun is_integer_num :: "jsnum \<Rightarrow> bool" where
  "is_integer_num (Fin q) = rat_is_int q"
| "is_integer_num _ = False"

fun num_neg :: "jsnum \<Rightarrow> jsnum" where
  "num_neg (Fin q) = Fin (- q)"
| "num_neg PosInf = NegInf"
| "num_neg NegInf = PosInf"
| "num_neg NaN = NaN"

fun num_add :: "jsnum \<Rightarrow> jsnum \<Rightarrow> jsnum" where
  "num_add (Fin a) (Fin b) = fl (a + b)"
| "num_add NaN _ = NaN"
| "num_add _ NaN = NaN"
| "num_add PosInf NegInf = NaN"
| "num_add NegInf PosInf = NaN"
| "num_add PosInf _ = PosInf"
| "num_add _ PosInf = PosInf"
| "num_add NegInf _ = NegInf"
| "num_add _ NegInf = NegInf"

definition num_sub :: "jsnum \<Rightarrow> jsnum \<Rightarrow> jsnum" where
  "num_sub x y = num_add x (num_neg y)"

fun num_sgn :: "jsnum \<Rightarrow> rat" where
  "num_sgn (Fin q) = sgn q"
| "num_sgn PosInf = 1"
| "num_sgn NegInf = -1"
| "num_sgn NaN = 0"

definition inf_of_sign :: "rat \<Rightarrow> jsnum" where
  "inf_of_sign s = (if 0 < s then PosInf else if s < 0 then NegInf else NaN)"

fun num_mul :: "jsnum \<Rightarrow> jsnum \<Rightarrow> jsnum" where
  "num_mul (Fin a) (Fin b) = fl (a * b)"
| "num_mul NaN _ = NaN"
| "num_mul _ NaN = NaN"
| "num_mul x y = inf_of_sign (num_sgn x * num_sgn y)"

text \<open>Division; a zero divisor counts as \<open>+0\<close>.\<close>

fun num_div :: "jsnum \<Rightarrow> jsnum \<Rightarrow> jsnum" where
  "num_div (Fin a) (Fin b) = (if b = 0 then inf_of_sign (sgn a) else fl (a / b))"
| "num_div NaN _ = NaN"
| "num_div _ NaN = NaN"
| "num_div (Fin _) _ = Fin 0"
| "num_div x (Fin b) = inf_of_sign (num_sgn x * (if b < 0 then -1 else 1))"
| "num_div _ _ = NaN"

text \<open>\<open>Math.floor\<close> and \<open>Math.round\<close> (ties towards plus infinity) are exact on doubles.\<close>

fun math_floor :: "jsnum \<Rightarrow> jsnum" where
  "math_floor (Fin q) = Fin (of_int \<lfloor>q\<rfloor>)"
| "math_floor x = x"

fun math_round :: "jsnum \<Rightarrow> jsnum" where
  "math_round (Fin q) = Fin (of_int \<lfloor>q + 1 / 2\<rfloor>)"
| "math_round x = x"

text \<open>\<open>Number(b)\<close> of a bigint, and \<open>BigInt(x)\<close> of a number: a \<open>RangeError\<close> unless integral.\<close>

definition num_of_bigint :: "int \<Rightarrow> jsnum" where
  "num_of_bigint b = fl (of_int b)"

datatype js_error = RangeError | SyntaxError | PrecisionLoss

fun bigint_of_num :: "jsnum \<Rightarrow> js_error + int" where
  "bigint_of_num (Fin q) = (if rat_is_int q then Inr \<lfloor>q\<rfloor> else Inl RangeError)"
| "bigint_of_num _ = Inl RangeError"

section \<open>Decimal digits\<close>

definition digit_char :: "int \<Rightarrow> char" where
  "digit_char d = ''0123456789'' ! nat d"

function digits_str :: "int \<Rightarrow> string" where
  "digits_str n = (if n < 10 then [digit_char n] else digits_str (n div 10) @ [digit_char (n mod 10)])"
  by pat_completeness auto
termination
  by (relation "measure nat") auto

declare digits_str.simps [simp del]

definition int_str :: "int \<Rightarrow> string" where
  "int_str i = (if i < 0 then ''-'' else '''') @ digits_str \<bar>i\<bar>"

definition digit_val :: "int \<Rightarrow> char \<Rightarrow> int option" where
  "digit_val base c = (let k = (of_char c :: int);
       d = (if 48 \<le> k \<and> k \<le> 57 then k - 48
            else if 97 \<le> k \<and> k \<le> 122 then k - 87
            else if 65 \<le> k \<and> k \<le> 90 then k - 55 else base)
     in if d < base then Some d else None)"

fun parse_digits :: "int \<Rightarrow> int \<Rightarrow> string \<Rightarrow> int option" where
  "parse_digits base acc [] = Some acc"
| "parse_digits base acc (c # cs) =
     (case digit_val base c of None \<Rightarrow> None | Some d \<Rightarrow> parse_digits base (acc * base + d) cs)"

definition parse_nonempty :: "int \<Rightarrow> string \<Rightarrow> int option" where
  "parse_nonempty base s = (if s = [] then None else parse_digits base 0 s)"

definition is_space :: "char \<Rightarrow> bool" where
  "is_space c \<longleftrightarrow> (of_char c :: int) \<in> {9, 10, 11, 12, 13, 32, 160}"

definition trim_str :: "string \<Rightarrow> string" where
  "trim_str s = rev (dropWhile is_space (rev (dropWhile is_space s)))"

text \<open>
  \<open>BigInt(s)\<close>: white space is stripped, the empty string is \<open>0n\<close>, a sign is allowed on decimals only
  and \<open>0x\<close>, \<open>0o\<close>, \<open>0b\<close> select another base. \<open>None\<close> is the \<open>SyntaxError\<close>.
\<close>

definition parse_bigint :: "string \<Rightarrow> int option" where
  "parse_bigint s = (let t = trim_str s in
     if t = [] then Some 0
     else if hd t = CHR ''-'' then map_option uminus (parse_nonempty 10 (tl t))
     else if hd t = CHR ''+'' then parse_nonempty 10 (tl t)
     else if hd t = CHR ''0'' \<and> tl t \<noteq> [] \<and> hd (tl t) \<in> {CHR ''x'', CHR ''X''}
       then parse_nonempty 16 (tl (tl t))
     else if hd t = CHR ''0'' \<and> tl t \<noteq> [] \<and> hd (tl t) \<in> {CHR ''o'', CHR ''O''}
       then parse_nonempty 8 (tl (tl t))
     else if hd t = CHR ''0'' \<and> tl t \<noteq> [] \<and> hd (tl t) \<in> {CHR ''b'', CHR ''B''}
       then parse_nonempty 2 (tl (tl t))
     else parse_nonempty 10 t)"

section \<open>\<open>Number::toString\<close>\<close>

definition pow10 :: "int \<Rightarrow> rat" where
  "pow10 e = (if 0 \<le> e then 10 ^ nat e else 1 / 10 ^ nat (- e))"

text \<open>\<open>dec_exp q\<close> is the \<open>n\<close> with \<open>10^(n-1) \<le> q < 10^n\<close>, for \<open>q > 0\<close>.\<close>

definition dec_exp :: "rat \<Rightarrow> int" where
  "dec_exp q = (if 1 \<le> q then dlen 10 \<lfloor>q\<rfloor>
                else 1 - dlen 10 (\<lceil>1 / q\<rceil> - 1))"

definition reads_back :: "rat \<Rightarrow> int \<Rightarrow> int \<Rightarrow> bool" where
  "reads_back q s e \<longleftrightarrow> 0 < s \<and> fl (of_int s * pow10 e) = Fin q"

text \<open>
  The shortest digits: \<open>Some (s, k, n)\<close> with \<open>10^(k-1) \<le> s < 10^k\<close>, \<open>s * 10^(n-k)\<close> reading back to
  \<open>q\<close>, \<open>k\<close> as small as possible and \<open>s\<close> the closest candidate. 17 digits always suffice for a double.
\<close>

fun shortest_from :: "nat \<Rightarrow> nat \<Rightarrow> rat \<Rightarrow> (int \<times> nat \<times> int) option" where
  "shortest_from 0 k q = None"
| "shortest_from (Suc fuel) k q =
     (let n = dec_exp q; x = q / pow10 (n - int k);
          near = round_half_even x; other = (if near = \<lfloor>x\<rfloor> then near + 1 else \<lfloor>x\<rfloor>);
          pick = (if reads_back q near (n - int k) then near
                  else if reads_back q other (n - int k) then other else 0)
      in if pick = 0 then shortest_from fuel (Suc k) q
         else if pick = 10 ^ k then Some (pick div 10, k, n + 1)
         else Some (pick, k, n))"

definition shortest :: "rat \<Rightarrow> (int \<times> nat \<times> int) option" where
  "shortest q = shortest_from 17 1 q"

definition zeros :: "int \<Rightarrow> string" where
  "zeros n = replicate (nat n) CHR ''0''"

definition layout_digits :: "int \<Rightarrow> nat \<Rightarrow> int \<Rightarrow> string" where
  "layout_digits s k n = (let ds = digits_str s in
     if int k \<le> n \<and> n \<le> 21 then ds @ zeros (n - int k)
     else if 0 < n \<and> n \<le> 21 then take (nat n) ds @ ''.'' @ drop (nat n) ds
     else if -6 < n \<and> n \<le> 0 then ''0.'' @ zeros (- n) @ ds
     else let ex = (if n - 1 < 0 then ''e-'' else ''e+'') @ digits_str \<bar>n - 1\<bar>
          in if k = 1 then ds @ ex else take 1 ds @ ''.'' @ drop 1 ds @ ex)"

definition pos_to_string :: "rat \<Rightarrow> string" where
  "pos_to_string q = (case shortest q of None \<Rightarrow> ''?'' | Some (s, k, n) \<Rightarrow> layout_digits s k n)"

fun num_to_string :: "jsnum \<Rightarrow> string" where
  "num_to_string NaN = ''NaN''"
| "num_to_string PosInf = ''Infinity''"
| "num_to_string NegInf = ''-Infinity''"
| "num_to_string (Fin q) =
     (if q = 0 then ''0'' else if q < 0 then ''-'' @ pos_to_string (- q) else pos_to_string q)"

section \<open>Evaluation\<close>

text \<open>
  The floor of a numeral fraction, and the bundle that evaluates closed number terms with the
  simplifier: witnesses about doubles are computed with it, inside the kernel.
\<close>

lemma floor_rat_frac [simp]:
  "\<lfloor>numeral a / numeral b :: rat\<rfloor> = numeral a div numeral b"
  "\<lfloor>1 / numeral b :: rat\<rfloor> = 1 div numeral b"
  "\<lfloor>- (numeral a / numeral b) :: rat\<rfloor> = (- numeral a) div numeral b"
  "\<lfloor>- (1 / numeral b) :: rat\<rfloor> = (- 1) div numeral b"
  using floor_divide_of_int_eq [of "numeral a" "numeral b", where ?'a = rat]
    floor_divide_of_int_eq [of 1 "numeral b", where ?'a = rat]
    floor_divide_of_int_eq [of "- numeral a" "numeral b", where ?'a = rat]
    floor_divide_of_int_eq [of "- 1" "numeral b", where ?'a = rat]
  by simp_all

lemma ceiling_rat_frac [simp]:
  "\<lceil>numeral a / numeral b :: rat\<rceil> = - ((- numeral a) div numeral b)"
  "\<lceil>1 / numeral b :: rat\<rceil> = - ((- 1) div numeral b)"
  by (simp_all add: ceiling_def)

lemma shortest_from_numeral:
  "shortest_from (numeral v) k q =
     (let n = dec_exp q; x = q / pow10 (n - int k);
          near = round_half_even x; other = (if near = \<lfloor>x\<rfloor> then near + 1 else \<lfloor>x\<rfloor>);
          pick = (if reads_back q near (n - int k) then near
                  else if reads_back q other (n - int k) then other else 0)
      in if pick = 0 then shortest_from (pred_numeral v) (Suc k) q
         else if pick = 10 ^ k then Some (pick div 10, k, n + 1)
         else Some (pick, k, n))"
  by (simp only: numeral_eq_Suc shortest_from.simps)

lemma replicate_numeral: "replicate (numeral v) x = x # replicate (pred_numeral v) x"
  by (simp add: numeral_eq_Suc)

lemmas num_eval =
  fl_def ilog2_def dlen.simps pow2_def round_half_even_def Let_def
  pos_to_string_def shortest_def shortest_from_numeral replicate_numeral reads_back_def dec_exp_def pow10_def zeros_def
  layout_digits_def digits_str.simps digit_char_def int_str_def rat_is_int_def
  num_of_bigint_def num_le_def num_sub_def

section \<open>Round trip of decimal integers\<close>

lemma digit_cases:
  assumes "0 \<le> d" and "d < 10"
  shows "d \<in> {0, 1, 2, 3, 4, 5, 6, 7, 8, 9 :: int}"
proof -
  have "d = 0 \<or> d = 1 \<or> d = 2 \<or> d = 3 \<or> d = 4 \<or> d = 5 \<or> d = 6 \<or> d = 7 \<or> d = 8 \<or> d = 9"
    using assms by presburger
  then show ?thesis by simp
qed

definition is_digit :: "char \<Rightarrow> bool" where
  "is_digit c \<longleftrightarrow> c \<in> set ''0123456789''"

lemma is_digit_digit_char [simp]: "0 \<le> d \<Longrightarrow> d < 10 \<Longrightarrow> is_digit (digit_char d)"
  by (drule (1) digit_cases) (auto simp: is_digit_def digit_char_def)

lemma digit_val_digit_char [simp]: "0 \<le> d \<Longrightarrow> d < 10 \<Longrightarrow> digit_val 10 (digit_char d) = Some d"
  by (drule (1) digit_cases) (auto simp: digit_val_def digit_char_def)

lemma is_digit_not_space: "is_digit c \<Longrightarrow> \<not> is_space c"
  by (auto simp: is_digit_def is_space_def)

lemma is_digit_val: "is_digit c \<Longrightarrow> \<exists>d. digit_val 10 c = Some d \<and> 0 \<le> d \<and> d < 10"
  by (auto simp: is_digit_def digit_val_def)

lemma digits_str_nonempty [simp]: "digits_str n \<noteq> []"
  by (subst digits_str.simps) simp

lemma digits_str_digits: "0 \<le> n \<Longrightarrow> \<forall>c \<in> set (digits_str n). is_digit c"
proof (induction n rule: digits_str.induct)
  case (1 n)
  then show ?case
    by (subst digits_str.simps) auto
qed

lemma parse_digits_append:
  "parse_digits b acc (xs @ ys) = Option.bind (parse_digits b acc xs) (\<lambda>a. parse_digits b a ys)"
  by (induction xs arbitrary: acc) (auto split: option.splits)

lemma parse_digits_str:
  "0 \<le> n \<Longrightarrow> parse_digits 10 acc (digits_str n) = Some (acc * 10 ^ length (digits_str n) + n)"
proof (induction n arbitrary: acc rule: digits_str.induct)
  case (1 n)
  show ?case
  proof (cases "n < 10")
    case True
    with 1 show ?thesis by (simp add: digits_str.simps [of n])
  next
    case False
    then have "parse_digits 10 acc (digits_str (n div 10))
        = Some (acc * 10 ^ length (digits_str (n div 10)) + n div 10)"
      by (intro 1) auto
    moreover have "digits_str n = digits_str (n div 10) @ [digit_char (n mod 10)]"
      using False by (simp add: digits_str.simps [of n])
    ultimately show ?thesis
      by (simp add: parse_digits_append algebra_simps)
  qed
qed

lemma dropWhile_space_digits: "s \<noteq> [] \<Longrightarrow> is_digit (hd s) \<Longrightarrow> dropWhile is_space s = s"
  by (cases s) (auto dest: is_digit_not_space)

lemma trim_str_ends:
  assumes "s \<noteq> []" and "\<not> is_space (hd s)" and "\<not> is_space (last s)"
  shows "trim_str s = s"
proof -
  have "dropWhile is_space s = s" using assms by (cases s) auto
  moreover have "dropWhile is_space (rev s) = rev s"
    using assms by (cases s rule: rev_cases) auto
  ultimately show ?thesis by (simp add: trim_str_def)
qed

lemma parse_bigint_digits:
  assumes "s \<noteq> []" and "\<forall>c \<in> set s. is_digit c"
  shows "parse_bigint s = parse_digits 10 0 s"
proof -
  have t: "trim_str s = s"
    using assms by (intro trim_str_ends) (auto dest: is_digit_not_space)
  have no: "\<not> is_digit CHR ''-''" "\<not> is_digit CHR ''+''" "\<not> is_digit CHR ''x''" "\<not> is_digit CHR ''X''"
    "\<not> is_digit CHR ''o''" "\<not> is_digit CHR ''O''" "\<not> is_digit CHR ''b''" "\<not> is_digit CHR ''B''"
    by (simp_all add: is_digit_def)
  have "is_digit (hd s)" using assms by (cases s) auto
  with no have 1: "hd s \<noteq> CHR ''-''" "hd s \<noteq> CHR ''+''" by metis+
  have "is_digit (hd (tl s))" if "tl s \<noteq> []"
    using assms that by (cases s; cases "tl s") auto
  with no have 2: "tl s \<noteq> [] \<Longrightarrow> hd (tl s) \<notin> {CHR ''x'', CHR ''X'', CHR ''o'', CHR ''O'', CHR ''b'', CHR ''B''}"
    by (metis empty_iff insert_iff)
  show ?thesis
    unfolding parse_bigint_def Let_def t parse_nonempty_def
    using assms(1) 1 2 by (cases "tl s = []") simp_all
qed

lemma parse_bigint_digits_str [simp]: "0 \<le> n \<Longrightarrow> parse_bigint (digits_str n) = Some n"
  by (simp add: parse_bigint_digits digits_str_digits parse_digits_str)

end
