(* ===== verification/Domain.thy ===== *)
theory Domain
  imports JsNumber
begin

text \<open>
  The canonical contracts of \<open>src/pm/domain/src/index.ts\<close> that the modelled components exchange: the
  state axes and lifecycle enumerations as datatypes (constructors carry the enumeration's name as a
  prefix, because several enumerations share words such as \<open>NORMAL\<close> or \<open>LIVE\<close>), the permit, order,
  result, intent, decision and policy objects as records, and the validity predicates the zod schemas
  impose on them. Zod itself is third-party: what it decides about a string being a UUID is the
  parameter \<open>is_uuid\<close>; \<open>min(1)\<close>, \<open>int()\<close>, \<open>nonnegative()\<close>, \<open>positive()\<close>, \<open>min(0).max(1)\<close> are written out.
  A \<open>Date\<close> field of a parsed object is a valid date.

  The records hold the fields the modelled code reads or a schema constrains; the optional
  "backwards-compatible alias" fields of the schemas, which nothing modelled reads, are absent.
\<close>

section \<open>State axes and lifecycle states\<close>

datatype operation_mode = Mode_RESEARCH | Mode_LIVE

datatype runtime_state = Run_STOPPED | Run_BOOTSTRAPPING | Run_RECOVERING | Run_ACTIVE
  | Run_DEGRADED | Run_PROTECTIVE_PAUSE | Run_ACCESS_BLOCKED | Run_EMERGENCY_HALT

datatype venue_mode = Venue_NORMAL | Venue_POST_ONLY | Venue_CANCEL_ONLY | Venue_READ_ONLY
  | Venue_UNAVAILABLE | Venue_UNKNOWN

fun venue_name :: "venue_mode \<Rightarrow> string" where
  "venue_name Venue_NORMAL = ''NORMAL''"
| "venue_name Venue_POST_ONLY = ''POST_ONLY''"
| "venue_name Venue_CANCEL_ONLY = ''CANCEL_ONLY''"
| "venue_name Venue_READ_ONLY = ''READ_ONLY''"
| "venue_name Venue_UNAVAILABLE = ''UNAVAILABLE''"
| "venue_name Venue_UNKNOWN = ''UNKNOWN''"

definition all_venue_modes :: "venue_mode list" where
  "all_venue_modes = [Venue_NORMAL, Venue_POST_ONLY, Venue_CANCEL_ONLY, Venue_READ_ONLY,
     Venue_UNAVAILABLE, Venue_UNKNOWN]"

text \<open>\<open>VenueModeSchema.safeParse\<close> of an untyped string.\<close>

definition VenueModeSchema :: "string \<Rightarrow> venue_mode option" where
  "VenueModeSchema s = find (\<lambda>m. venue_name m = s) all_venue_modes"

lemma VenueModeSchema_name [simp]: "VenueModeSchema (venue_name m) = Some m"
  by (cases m) (simp_all add: VenueModeSchema_def all_venue_modes_def)

datatype account_mode = Account_ACTIVE | Account_CLOSE_ONLY | Account_RESTRICTED
  | Account_SUSPENDED | Account_ACCESS_BLOCKED

datatype risk_tier = Tier_NORMAL | Tier_CAUTIOUS | Tier_PROTECTIVE

datatype submit_status = Submit_SUBMITTING | Submit_ACKNOWLEDGED | Submit_SUBMISSION_UNKNOWN
  | Submit_DEFINITIVE_REJECT

datatype order_status = Order_LIVE | Order_PARTIAL | Order_MATCHED | Order_CANCELED
  | Order_EXPIRED | Order_REJECTED | Order_UNKNOWN

datatype lifecycle = NOT_SEEN | SUBMITTING | ACKNOWLEDGED | SUBMISSION_UNKNOWN
  | DEFINITIVE_REJECT | CANCEL_UNKNOWN | CANCEL_CERTAIN

datatype intent_purpose = Purpose_ENTRY | Purpose_REDUCE | Purpose_EXIT | Purpose_REBALANCE

datatype intent_status = Intent_CREATED | Intent_VALIDATED | Intent_RESERVED | Intent_DISPATCHED
  | Intent_REJECTED | Intent_EXPIRED

datatype wallet_type = Wallet_DEPOSIT_WALLET | Wallet_EOA | Wallet_POLY_PROXY | Wallet_GNOSIS_SAFE
  | Wallet_POLY_1271 | Wallet_LEGACY_PROXY | Wallet_SAFE | Wallet_UNKNOWN

datatype order_side = BUY | SELL

datatype outcome_side = YES | NO

text \<open>A trade intent's side is one of the four words.\<close>

datatype intent_side = Outcome outcome_side | Direction order_side

datatype order_style = Style_LIMIT | Style_POST_ONLY | Style_FOK | Style_IOC

fun style_name :: "order_style \<Rightarrow> string" where
  "style_name Style_LIMIT = ''LIMIT''"
| "style_name Style_POST_ONLY = ''POST_ONLY''"
| "style_name Style_FOK = ''FOK''"
| "style_name Style_IOC = ''IOC''"

section \<open>Wallet, policy, intent\<close>

record wallet_identity =
  w_wallet_id :: uuid
  w_wallet_type :: wallet_type
  w_signer_address :: string
  w_account_wallet :: string
  w_funder :: string
  w_chain_id :: jsnum

record risk_policy =
  policy_version :: string
  execution_mode :: operation_mode
  capital_usd_cap :: "jsnum option"
  max_order_pct :: jsnum
  max_market_pct :: jsnum
  max_event_group_pct :: jsnum
  max_portfolio_pct :: jsnum
  daily_loss_stop_pct :: jsnum
  drawdown_stop_pct :: jsnum
  max_open_orders :: jsnum
  min_edge_after_cost :: jsnum
  book_max_age_ms :: jsnum
  metadata_max_age_s :: jsnum
  forecast_max_age_s :: jsnum
  clock_skew_max_ms :: jsnum
  max_slippage_abs :: jsnum
  intent_ttl_s :: jsnum
  risk_permit_ttl_ms :: jsnum
  reconcile_interval_s :: jsnum
  min_edge_per_share :: "jsnum option"

record trade_intent =
  ti_intent_id :: uuid
  ti_dedupe_key :: string
  ti_purpose :: intent_purpose
  ti_market_id :: string
  ti_side :: intent_side
  ti_desired_qty :: "jsnum option"
  ti_desired_notional :: "jsnum option"
  ti_limit_price :: "jsnum option"
  ti_price :: "jsnum option"
  ti_expiration_sec :: "jsnum option"
  ti_order_type :: "order_style option"
  ti_status :: intent_status

section \<open>Decision, permit, order, result\<close>

record risk_decision =
  rd_decision_id :: uuid
  rd_intent_id :: uuid
  rd_status :: string
  rd_reservation_ids :: "uuid list"
  rd_reservation_id :: "uuid option"
  rd_max_qty :: "jsnum option"
  rd_max_cash :: "jsnum option"
  rd_allowed_order_style :: "string list"
  rd_venue_mode :: "venue_mode option"
  rd_ledger_version :: "string option"
  rd_policy_version :: "string option"
  rd_decided_at :: ms

record execution_permit =
  permit_id :: uuid
  p_decision_id :: uuid
  p_intent_id :: uuid
  p_ledger_version :: string
  p_policy_version :: string
  p_policy_hash :: string
  p_quote_id :: string
  p_lease_epoch :: jsnum
  p_reservation_ids :: "uuid list"
  max_qty :: jsnum
  max_cash :: jsnum
  max_qty_base :: "int option"
  max_cash_base :: "int option"
  p_market_id :: "string option"
  p_side :: "order_side option"
  price_min_base :: "int option"
  price_max_base :: "int option"
  allowed_order_style :: "string list"
  p_venue_mode :: venue_mode
  issued_at :: ms
  expires_at :: ms
  single_use :: bool
  used_at :: "ms option"

record signed_order =
  order_id :: uuid
  o_market_id :: string
  o_side :: order_side
  o_price :: jsnum
  o_size :: jsnum
  o_permit_id :: "string option"
  o_order_type :: "order_style option"

record order_result =
  res_success :: bool
  res_submit_status :: "submit_status option"
  res_order_status :: "order_status option"
  res_order_id :: "string option"
  res_filled_size :: "jsnum option"
  res_average_price :: "jsnum option"

section \<open>Schema validity\<close>

text \<open>\<open>z.number()\<close> refuses \<open>NaN\<close>; \<open>.min(0).max(1)\<close>, \<open>.nonnegative()\<close>, \<open>.positive()\<close> compare.\<close>

definition z_nonneg :: "jsnum \<Rightarrow> bool" where
  "z_nonneg x \<longleftrightarrow> num_le (Fin 0) x"

definition z_positive :: "jsnum \<Rightarrow> bool" where
  "z_positive x \<longleftrightarrow> num_lt (Fin 0) x"

definition z_unit :: "jsnum \<Rightarrow> bool" where
  "z_unit x \<longleftrightarrow> num_le (Fin 0) x \<and> num_le x (Fin 1)"

fun z_opt :: "('a \<Rightarrow> bool) \<Rightarrow> 'a option \<Rightarrow> bool" where
  "z_opt p None = True"
| "z_opt p (Some x) = p x"

definition z_min1 :: "string \<Rightarrow> bool" where
  "z_min1 s \<longleftrightarrow> s \<noteq> []"

definition ExecutionPermitSchema :: "(string \<Rightarrow> bool) \<Rightarrow> execution_permit \<Rightarrow> bool" where
  "ExecutionPermitSchema is_uuid p \<longleftrightarrow>
     is_uuid (permit_id p) \<and> is_uuid (p_decision_id p) \<and> is_uuid (p_intent_id p) \<and>
     z_min1 (p_ledger_version p) \<and> z_min1 (p_policy_version p) \<and> z_min1 (p_policy_hash p) \<and>
     z_min1 (p_quote_id p) \<and> is_integer_num (p_lease_epoch p) \<and> z_nonneg (p_lease_epoch p) \<and>
     list_all z_min1 (p_reservation_ids p) \<and> z_nonneg (max_qty p) \<and> z_nonneg (max_cash p) \<and>
     z_opt (\<lambda>b. 0 \<le> b) (max_qty_base p) \<and> z_opt (\<lambda>b. 0 \<le> b) (max_cash_base p) \<and>
     z_opt z_min1 (p_market_id p) \<and>
     z_opt (\<lambda>b. 0 \<le> b) (price_min_base p) \<and> z_opt (\<lambda>b. 0 \<le> b) (price_max_base p) \<and>
     list_all z_min1 (allowed_order_style p)"

definition TradeIntentSchema :: "(string \<Rightarrow> bool) \<Rightarrow> trade_intent \<Rightarrow> bool" where
  "TradeIntentSchema is_uuid i \<longleftrightarrow>
     is_uuid (ti_intent_id i) \<and> z_min1 (ti_dedupe_key i) \<and> z_min1 (ti_market_id i) \<and>
     z_opt z_positive (ti_desired_qty i) \<and> z_opt z_positive (ti_desired_notional i) \<and>
     z_opt z_unit (ti_limit_price i) \<and> z_opt z_unit (ti_price i) \<and>
     z_opt z_positive (ti_expiration_sec i)"

definition RiskPolicySchema :: "risk_policy \<Rightarrow> bool" where
  "RiskPolicySchema p \<longleftrightarrow>
     z_min1 (policy_version p) \<and> z_opt z_positive (capital_usd_cap p) \<and>
     z_unit (max_order_pct p) \<and> z_unit (max_market_pct p) \<and> z_unit (max_event_group_pct p) \<and>
     z_unit (max_portfolio_pct p) \<and> z_unit (daily_loss_stop_pct p) \<and> z_unit (drawdown_stop_pct p) \<and>
     is_integer_num (max_open_orders p) \<and> z_positive (max_open_orders p) \<and>
     z_nonneg (min_edge_after_cost p) \<and> z_nonneg (max_slippage_abs p) \<and>
     list_all (\<lambda>x. is_integer_num x \<and> z_positive x)
       [book_max_age_ms p, metadata_max_age_s p, forecast_max_age_s p, clock_skew_max_ms p,
        intent_ttl_s p, risk_permit_ttl_ms p, reconcile_interval_s p] \<and>
     z_opt z_nonneg (min_edge_per_share p)"

definition RiskDecisionSchema :: "(string \<Rightarrow> bool) \<Rightarrow> risk_decision \<Rightarrow> bool" where
  "RiskDecisionSchema is_uuid d \<longleftrightarrow>
     is_uuid (rd_decision_id d) \<and> is_uuid (rd_intent_id d) \<and>
     rd_status d \<in> {''ACCEPTED'', ''REJECTED'', ''MODIFIED''} \<and>
     z_opt z_nonneg (rd_max_qty d) \<and> z_opt z_nonneg (rd_max_cash d) \<and>
     z_opt z_min1 (rd_ledger_version d) \<and> z_opt z_min1 (rd_policy_version d)"

end
