(* ===== verification/Database.thy ===== *)
theory Database
  imports Domain
begin

text \<open>
  The PostgreSQL state the money and execution components share (\<open>migrations/*.sql\<close>): one record
  field per table, a table with a primary key as a list of rows, \<open>balance_entries\<close> as a map from its
  key (account, asset). Amount columns that the code writes from bigints are \<open>int\<close> base units
  (1e6 per unit); \<open>NUMERIC(18,8)\<close> columns have ten integer digits, which \<open>numeric_18_8\<close> checks.
\<close>

section \<open>Rows\<close>

record bal =
  available_base :: int
  committed_base :: int

datatype reservation_status = R_ACTIVE | R_PARTIALLY_CONSUMED | R_CONSUMED | R_RELEASED | R_EXPIRED

record reservation_row =
  r_id :: uuid
  r_decision_id :: uuid
  r_intent_id :: uuid
  r_account :: string
  r_asset :: string
  r_amount :: int
  r_consumed :: int
  r_released :: int
  r_currency :: string
  r_status :: reservation_status
  r_created_at :: ms
  r_expires_at :: ms
  r_consumed_at :: "ms option"
  r_released_at :: "ms option"
  r_expired_at :: "ms option"
  r_permit_id :: uuid

record intent_row =
  it_id :: uuid
  it_market_id :: string
  it_side :: outcome_side
  it_price :: rat
  it_size :: rat
  it_order_type :: order_style
  it_expiration_sec :: int
  it_strategy :: string

record decision_row =
  d_id :: uuid
  d_intent_id :: uuid
  d_reservation_ids :: "uuid list"
  d_max_qty :: int
  d_max_cash :: int
  d_allowed_order_style :: "string list"
  d_venue_mode :: string
  d_ledger_version :: string
  d_policy_version :: string
  d_schema_version :: string

record permit_row =
  pr_permit_id :: uuid
  pr_decision_id :: uuid
  pr_intent_id :: uuid
  pr_ledger_version :: string
  pr_policy_version :: string
  pr_policy_hash :: string
  pr_quote_id :: string
  pr_lease_epoch :: int
  pr_reservation_ids :: "uuid list"
  pr_max_qty :: rat
  pr_max_cash :: rat
  pr_allowed_order_style :: "string list"
  pr_venue_mode :: string
  pr_expires_at :: ms
  pr_single_use :: bool
  pr_used_at :: "ms option"
  pr_claimed_order_id :: "uuid option"
  pr_payload_hash :: "string option"

record recovery_row =
  rc_order_id :: uuid
  rc_venue_order_id :: "string option"
  rc_permit_id :: "uuid option"
  rc_state :: lifecycle
  rc_submitted_at :: "ms option"
  rc_acknowledged_at :: "ms option"
  rc_resolved :: bool
  rc_resolved_at :: "ms option"
  rc_resolved_state :: "lifecycle option"
  rc_fill_shares :: string
  rc_fill_cash :: string
  rc_created_at :: ms
  rc_updated_at :: ms

record kernel_event =
  ev_topic :: string
  ev_aggregate_id :: uuid
  ev_cash :: int

section \<open>The database\<close>

record db =
  balances :: "string \<times> string \<Rightarrow> bal option"
  reservations :: "reservation_row list"
  intents :: "intent_row list"
  decisions :: "decision_row list"
  permits :: "permit_row list"
  recovery :: "recovery_row list"
  kernel_events :: "kernel_event list"

definition empty_db :: db where
  "empty_db = \<lparr>balances = (\<lambda>_. None), reservations = [], intents = [], decisions = [],
     permits = [], recovery = [], kernel_events = []\<rparr>"

text \<open>\<open>UPDATE balance_entries SET f WHERE account = .. AND asset = .. AND p\<close>: no row, or a row that
  fails \<open>p\<close>, is left alone and no error is raised; \<open>balance_hit\<close> is the row count being 1.\<close>

definition balance_hit :: "string \<times> string \<Rightarrow> (bal \<Rightarrow> bool) \<Rightarrow> db \<Rightarrow> bool" where
  "balance_hit k p d = (case balances d k of None \<Rightarrow> False | Some b \<Rightarrow> p b)"

definition upd_balance :: "string \<times> string \<Rightarrow> (bal \<Rightarrow> bool) \<Rightarrow> (bal \<Rightarrow> bal) \<Rightarrow> db \<Rightarrow> db" where
  "upd_balance k p f d = (case balances d k of
       None \<Rightarrow> d
     | Some b \<Rightarrow> if p b then d\<lparr>balances := (balances d)(k \<mapsto> f b)\<rparr> else d)"

lemma upd_balance_frame [simp]:
  "reservations (upd_balance k p f d) = reservations d"
  "intents (upd_balance k p f d) = intents d"
  "decisions (upd_balance k p f d) = decisions d"
  "permits (upd_balance k p f d) = permits d"
  "recovery (upd_balance k p f d) = recovery d"
  "kernel_events (upd_balance k p f d) = kernel_events d"
  by (simp_all add: upd_balance_def split: option.split)

lemma upd_balance_hit:
  "balances d k = Some b \<Longrightarrow> p b \<Longrightarrow> balances (upd_balance k p f d) = (balances d)(k \<mapsto> f b)"
  by (simp add: upd_balance_def)

lemma upd_balance_miss: "\<not> balance_hit k p d \<Longrightarrow> upd_balance k p f d = d"
  by (auto simp: upd_balance_def balance_hit_def split: option.splits)

lemma upd_balance_other: "k' \<noteq> k \<Longrightarrow> balances (upd_balance k p f d) k' = balances d k'"
  by (auto simp: upd_balance_def split: option.splits)

text \<open>The value ranges the column types and checks of the reservations and permits tables allow.\<close>

definition numeric_18_8 :: "int \<Rightarrow> bool" where
  "numeric_18_8 n \<longleftrightarrow> \<bar>n\<bar> < 10 ^ 10"

definition unique_violation :: pg_error where
  "unique_violation = \<lparr>pg_code = ''23505'', pg_text = ''duplicate key value violates unique constraint''\<rparr>"

definition fk_violation :: pg_error where
  "fk_violation = \<lparr>pg_code = ''23503'', pg_text = ''violates foreign key constraint''\<rparr>"

definition check_violation :: pg_error where
  "check_violation = \<lparr>pg_code = ''23514'', pg_text = ''violates check constraint''\<rparr>"

definition numeric_overflow :: pg_error where
  "numeric_overflow = \<lparr>pg_code = ''22003'', pg_text = ''numeric field overflow''\<rparr>"

end
