(* ===== verification/Reservations.thy ===== *)
theory Reservations
  imports Database
begin

text \<open>
  \<open>src/pm/risk/src/reservation-manager.ts\<close> and the balance statements of
  \<open>src/pm/risk/src/money-kernel-pg.ts\<close>: the lifecycle of a capital reservation.

  \<^item> \<open>toBaseUnits\<close> reads a \<open>NUMERIC\<close> column; \<open>reserveFunds\<close>, \<open>releaseFunds\<close>, \<open>consumeFunds\<close>,
    \<open>getOpenCount\<close> are the balance store.
  \<^item> \<open>consume\<close>, \<open>release\<close>, \<open>expire\<close>, \<open>expireOverdue\<close>, \<open>isReservationValid\<close> are the manager's
    operations, each a transaction of \<open>Prelude\<close> on the database.
  \<^item> \<open>money_inv\<close> is the accounting invariant: each row's consumed and released parts fit its amount
    and its status, and a balance's committed part is exactly what its live reservations still hold.
  \<^item> \<open>funds\<close> is the conserved quantity: available, committed and consumed money of one account.
\<close>

section \<open>Reading base units\<close>

text \<open>\<open>s.slice(0, dot)\<close> at the first dot, then \<open>BigInt\<close>; \<open>None\<close> is the \<open>SyntaxError\<close>.\<close>

definition toBaseUnits :: "string \<Rightarrow> int option" where
  "toBaseUnits value = (let s = trim_str value in parse_bigint (takeWhile (\<lambda>c. c \<noteq> CHR ''.'') s))"

text \<open>How PostgreSQL renders a non-negative integral \<open>NUMERIC(18,8)\<close> value.\<close>

definition pg_numeric :: "int \<Rightarrow> string" where
  "pg_numeric n = digits_str n @ ''.00000000''"

lemma takeWhile_digits:
  "\<forall>c \<in> set xs. is_digit c \<Longrightarrow> takeWhile (\<lambda>c. c \<noteq> CHR ''.'') (xs @ CHR ''.'' # ys) = xs"
  by (induction xs) (auto simp: is_digit_def)

lemma toBaseUnits_pg_numeric_raw:
  assumes "0 \<le> n"
  shows "toBaseUnits (pg_numeric n) = Some n"
proof -
  have d: "\<forall>c \<in> set (digits_str n). is_digit c" using assms by (rule digits_str_digits)
  have "is_digit (hd (pg_numeric n))"
    using d by (simp add: pg_numeric_def)
  moreover have "last (pg_numeric n) = CHR ''0''" and "is_digit CHR ''0''"
    by (simp_all add: pg_numeric_def is_digit_def)
  ultimately have "trim_str (pg_numeric n) = pg_numeric n"
    by (intro trim_str_ends) (simp_all add: pg_numeric_def is_digit_not_space)
  then show ?thesis
    using d assms by (simp add: toBaseUnits_def pg_numeric_def takeWhile_digits)
qed

section \<open>The balance store\<close>

definition reserveFunds :: "string \<times> string \<Rightarrow> int \<Rightarrow> db \<Rightarrow> unit outcome \<times> db" where
  "reserveFunds k amount d =
     (let p = (\<lambda>b. amount \<le> available_base b)
      in if balance_hit k p d
         then (Ok (), upd_balance k p (\<lambda>b. b\<lparr>available_base := available_base b - amount,
                committed_base := committed_base b + amount\<rparr>) d)
         else (Refused ''INSUFFICIENT_AVAILABLE'', d))"

definition releaseFunds :: "string \<times> string \<Rightarrow> int \<Rightarrow> db \<Rightarrow> unit outcome \<times> db" where
  "releaseFunds k amount d =
     (let p = (\<lambda>b. amount \<le> committed_base b)
      in if balance_hit k p d
         then (Ok (), upd_balance k p (\<lambda>b. b\<lparr>available_base := available_base b + amount,
                committed_base := committed_base b - amount\<rparr>) d)
         else (Refused ''INSUFFICIENT_COMMITTED'', d))"

definition consumeFunds :: "string \<times> string \<Rightarrow> int \<Rightarrow> db \<Rightarrow> unit outcome \<times> db" where
  "consumeFunds k amount d =
     (let p = (\<lambda>b. amount \<le> committed_base b)
      in if balance_hit k p d
         then (Ok (), upd_balance k p (\<lambda>b. b\<lparr>committed_base := committed_base b - amount\<rparr>) d)
         else (Refused ''INSUFFICIENT_COMMITTED_FOR_CONSUME'', d))"

definition res_key :: "reservation_row \<Rightarrow> string \<times> string" where
  "res_key r = (r_account r, r_asset r)"

definition getOpenCount :: "string \<times> string \<Rightarrow> db \<Rightarrow> nat" where
  "getOpenCount k d = length (filter (\<lambda>r. res_key r = k \<and> r_status r = R_ACTIVE) (reservations d))"

section \<open>The reservation manager\<close>

datatype release_reason = Rel_CANCELLED | Rel_EXPIRED | Rel_REJECTED

definition live :: "reservation_row \<Rightarrow> bool" where
  "live r \<longleftrightarrow> r_status r = R_ACTIVE \<or> r_status r = R_PARTIALLY_CONSUMED"

definition conservation_check :: "reservation_row \<Rightarrow> bool" where
  "conservation_check r \<longleftrightarrow> r_consumed r + r_released r \<le> r_amount r"

text \<open>\<open>UPDATE reservations\<close> of one row: the table's CHECK constraint can refuse the new row.\<close>

definition upd_reservation ::
  "uuid \<Rightarrow> (reservation_row \<Rightarrow> reservation_row) \<Rightarrow> db \<Rightarrow> pg_error + db" where
  "upd_reservation rid f d =
     (let t = upd_row r_id rid f (reservations d)
      in if list_all conservation_check t then Inr (d\<lparr>reservations := t\<rparr>) else Inl check_violation)"

definition consume_body ::
  "ms \<Rightarrow> ms \<Rightarrow> uuid \<Rightarrow> int \<Rightarrow> db \<Rightarrow> pg_error + (unit outcome \<times> db)" where
  "consume_body app_now db_now rid filled d =
    (case row_of r_id rid (reservations d) of
       None \<Rightarrow> Inr (Refused ''RESERVATION_NOT_FOUND'', d)
     | Some row \<Rightarrow>
        if r_expires_at row < app_now then Inr (Refused ''PERMIT_EXPIRED'', d)
        else if \<not> live row then Inr (Refused ''RESERVATION_NOT_ACTIVE'', d)
        else
          let newConsumed = r_consumed row + filled
          in if r_amount row < newConsumed then Inr (Refused ''OVER_CONSUME'', d)
             else
               let full = (newConsumed = r_amount row);
                   d1 = upd_balance (res_key row) (\<lambda>b. filled \<le> committed_base b)
                          (\<lambda>b. b\<lparr>committed_base := committed_base b - filled\<rparr>) d
               in (case upd_reservation rid
                          (\<lambda>r. r\<lparr>r_consumed := newConsumed,
                                 r_consumed_at := (if full then Some db_now else r_consumed_at r),
                                 r_status := (if full then R_CONSUMED else R_PARTIALLY_CONSUMED)\<rparr>) d1
                   of Inl e \<Rightarrow> Inl e | Inr d2 \<Rightarrow> Inr (Ok (), d2)))"

definition consume ::
  "bool \<Rightarrow> fault \<Rightarrow> ms \<Rightarrow> ms \<Rightarrow> uuid \<Rightarrow> int \<Rightarrow> db \<Rightarrow> unit outcome \<times> db" where
  "consume has_pool fault app_now db_now rid filled d =
    (if \<not> has_pool then (Ok (), d)
     else if filled \<le> 0 then (Refused ''INVALID_AMOUNT'', d)
     else with_txn fault (\<lambda>_. Refused ''CONSUME_FAILED'') (consume_body app_now db_now rid filled) d)"

definition release_body ::
  "ms \<Rightarrow> uuid \<Rightarrow> release_reason \<Rightarrow> db \<Rightarrow> pg_error + (unit outcome \<times> db)" where
  "release_body db_now rid reason d =
    (case row_of r_id rid (reservations d) of
       None \<Rightarrow> Inr (Refused ''RESERVATION_NOT_FOUND'', d)
     | Some row \<Rightarrow>
        if \<not> live row then Inr (Refused ''RESERVATION_NOT_ACTIVE'', d)
        else
          let remaining = r_amount row - r_consumed row - r_released row
          in if remaining < 0 then Inr (Refused ''ACCOUNTING_INVARIANT_VIOLATED'', d)
             else
               let d1 = (if 0 < remaining
                         then upd_balance (res_key row) (\<lambda>b. remaining \<le> committed_base b)
                           (\<lambda>b. b\<lparr>available_base := available_base b + remaining,
                                  committed_base := committed_base b - remaining\<rparr>) d
                         else d)
               in (case upd_reservation rid
                          (\<lambda>r. r\<lparr>r_released := r_released row + remaining,
                                 r_released_at :=
                                   (if reason = Rel_EXPIRED then r_released_at r else Some db_now),
                                 r_expired_at :=
                                   (if reason = Rel_EXPIRED then Some db_now else r_expired_at r),
                                 r_status :=
                                   (if reason = Rel_EXPIRED then R_EXPIRED else R_RELEASED)\<rparr>) d1
                   of Inl e \<Rightarrow> Inl e | Inr d2 \<Rightarrow> Inr (Ok (), d2)))"

definition release ::
  "bool \<Rightarrow> fault \<Rightarrow> ms \<Rightarrow> uuid \<Rightarrow> release_reason \<Rightarrow> db \<Rightarrow> unit outcome \<times> db" where
  "release has_pool fault db_now rid reason d =
    (if \<not> has_pool then (Ok (), d)
     else with_txn fault (\<lambda>_. Refused ''RELEASE_FAILED'') (release_body db_now rid reason) d)"

definition expire :: "bool \<Rightarrow> fault \<Rightarrow> ms \<Rightarrow> uuid \<Rightarrow> db \<Rightarrow> unit outcome \<times> db" where
  "expire has_pool fault db_now rid d = release has_pool fault db_now rid Rel_EXPIRED d"

text \<open>The loop of \<open>expireOverdue\<close>: one transaction per selected row, counting the successes.\<close>

fun expire_each :: "(uuid \<Rightarrow> fault) \<Rightarrow> ms \<Rightarrow> uuid list \<Rightarrow> db \<Rightarrow> nat \<times> db" where
  "expire_each faults db_now [] d = (0, d)"
| "expire_each faults db_now (rid # rids) d =
     (let (res, d1) = expire True (faults rid) db_now rid d;
          (n, d2) = expire_each faults db_now rids d1
      in (if is_ok res then Suc n else n, d2))"

definition overdue :: "ms \<Rightarrow> db \<Rightarrow> uuid list" where
  "overdue now d = map r_id (filter (\<lambda>r. live r \<and> r_expires_at r \<le> now) (reservations d))"

definition expireOverdue :: "bool \<Rightarrow> (uuid \<Rightarrow> fault) \<Rightarrow> ms \<Rightarrow> ms \<Rightarrow> db \<Rightarrow> nat \<times> db" where
  "expireOverdue has_pool faults now db_now d =
    (if \<not> has_pool then (0, d) else expire_each faults db_now (overdue now d) d)"

text \<open>\<open>isReservationValid\<close>: status still ACTIVE, unused, not past its deadline.\<close>

definition isReservationValid :: "reservation_status \<Rightarrow> ms option \<Rightarrow> ms \<Rightarrow> ms \<Rightarrow> bool" where
  "isReservationValid status used expires now =
     (if status \<noteq> R_ACTIVE then False
      else if used \<noteq> None then False
      else if expires < now then False
      else True)"

lemmas manager_defs [money_defs] = consume_def release_def expire_def

section \<open>The accounting invariant\<close>

text \<open>What a row still holds, and the part of a row a status allows.\<close>

definition held :: "reservation_row \<Rightarrow> int" where
  "held r = (if live r then r_amount r - r_consumed r - r_released r else 0)"

definition row_ok :: "reservation_row \<Rightarrow> bool" where
  "row_ok r \<longleftrightarrow> 0 \<le> r_amount r \<and> 0 \<le> r_consumed r \<and> 0 \<le> r_released r \<and>
     (case r_status r of
        R_ACTIVE \<Rightarrow> r_consumed r = 0 \<and> r_released r = 0
      | R_PARTIALLY_CONSUMED \<Rightarrow> 0 < r_consumed r \<and> r_consumed r < r_amount r \<and> r_released r = 0
      | R_CONSUMED \<Rightarrow> r_consumed r = r_amount r \<and> r_released r = 0
      | _ \<Rightarrow> r_consumed r + r_released r = r_amount r)"

definition held_sum :: "string \<times> string \<Rightarrow> db \<Rightarrow> int" where
  "held_sum k d = (\<Sum>r\<leftarrow>reservations d. if res_key r = k then held r else 0)"

definition consumed_sum :: "string \<times> string \<Rightarrow> db \<Rightarrow> int" where
  "consumed_sum k d = (\<Sum>r\<leftarrow>reservations d. if res_key r = k then r_consumed r else 0)"

definition balance_ok :: "string \<times> string \<Rightarrow> db \<Rightarrow> bool" where
  "balance_ok k d = (case balances d k of
       None \<Rightarrow> \<forall>r \<in> set (reservations d). res_key r \<noteq> k
     | Some b \<Rightarrow> 0 \<le> available_base b \<and> committed_base b = held_sum k d)"

definition money_inv :: "db \<Rightarrow> bool" where
  "money_inv d \<longleftrightarrow> keys_ok r_id (reservations d) \<and> (\<forall>r \<in> set (reservations d). row_ok r) \<and>
     (\<forall>k. balance_ok k d)"

text \<open>All money of one account and asset: free, reserved, spent.\<close>

definition funds :: "string \<times> string \<Rightarrow> db \<Rightarrow> int" where
  "funds k d = (case balances d k of None \<Rightarrow> 0 | Some b \<Rightarrow> available_base b + committed_base b)
     + consumed_sum k d"

lemma money_inv_balance: "money_inv d \<Longrightarrow> balance_ok k d"
  unfolding money_inv_def by blast

lemma held_nonneg: "row_ok r \<Longrightarrow> 0 \<le> held r"
  by (auto simp: row_ok_def held_def live_def split: reservation_status.splits)

lemma row_ok_check: "row_ok r \<Longrightarrow> conservation_check r"
  by (auto simp: row_ok_def conservation_check_def split: reservation_status.splits)

lemma money_inv_row: "money_inv d \<Longrightarrow> row_of r_id rid (reservations d) = Some r \<Longrightarrow> row_ok r"
  by (auto simp: money_inv_def dest: row_of_Some)

text \<open>A live reservation's account has a balance row whose committed part covers what it holds.\<close>

lemma money_inv_covers:
  assumes "money_inv d" and "row_of r_id rid (reservations d) = Some r"
  obtains b where "balances d (res_key r) = Some b" and "0 \<le> available_base b"
    and "held r \<le> committed_base b"
proof -
  have r: "r \<in> set (reservations d)" using assms(2) by (auto dest: row_of_Some)
  have bo: "balance_ok (res_key r) d" using assms(1) by (rule money_inv_balance)
  with r obtain b where b: "balances d (res_key r) = Some b"
    by (cases "balances d (res_key r)") (auto simp: balance_ok_def)
  let ?g = "\<lambda>x. if res_key x = res_key r then held x else 0"
  have "?g r \<le> (\<Sum>x\<leftarrow>reservations d. ?g x)"
    using assms(1) r by (intro member_le_sum_list_int) (auto simp: money_inv_def held_nonneg)
  with bo b that show ?thesis by (simp add: balance_ok_def held_sum_def)
qed

text \<open>
  One transaction that rewrites the row \<open>rid\<close> to \<open>f r\<close> and the balance of its account to \<open>g b\<close>
  keeps the invariant when the balance moves by exactly what the row's holding moves by.
\<close>

lemma money_inv_rewrite:
  assumes inv: "money_inv d" and row: "row_of r_id rid (reservations d) = Some r"
    and key: "\<And>x. r_id (f x) = r_id x" "res_key (f r) = res_key r"
    and ok: "row_ok (f r)"
    and res: "reservations d' = upd_row r_id rid f (reservations d)"
    and bals: "balances d' = (balances d)(res_key r \<mapsto> b')"
    and b: "balances d (res_key r) = Some b" and b': "0 \<le> available_base b'"
      "committed_base b' - committed_base b = held (f r) - held r"
  shows "money_inv d'"
proof -
  have keys: "keys_ok r_id (reservations d)" using inv by (simp add: money_inv_def)
  have set': "set (reservations d') = insert (f r) (set (reservations d) - {r})"
    unfolding res by (rule set_upd_row [OF keys row])
  have "keys_ok r_id (reservations d')"
    unfolding res by (rule keys_ok_upd_row [OF key(1) keys])
  moreover have "\<forall>x \<in> set (reservations d'). row_ok x"
    using inv ok by (auto simp: set' money_inv_def)
  moreover have "balance_ok k d'" for k
  proof -
    have hs: "held_sum k d' = held_sum k d
        - (if res_key r = k then held r else 0) + (if res_key (f r) = k then held (f r) else 0)"
      unfolding held_sum_def res by (rule sum_upd_row [OF keys row])
    have bo: "balance_ok k d" using inv by (rule money_inv_balance)
    show ?thesis
    proof (cases "k = res_key r")
      case True
      with bo hs b b' key show ?thesis by (simp add: balance_ok_def bals)
    next
      case False
      with bo hs key show ?thesis
        by (auto simp: balance_ok_def bals set' split: option.splits)
    qed
  qed
  ultimately show ?thesis by (simp add: money_inv_def)
qed

text \<open>The same rewrite conserves \<open>funds\<close> when consumption accounts for what leaves the balance.\<close>

lemma funds_rewrite:
  assumes keys: "keys_ok r_id (reservations d)" and row: "row_of r_id rid (reservations d) = Some r"
    and key: "res_key (f r) = res_key r"
    and res: "reservations d' = upd_row r_id rid f (reservations d)"
    and bals: "balances d' = (balances d)(res_key r \<mapsto> b')"
    and b: "balances d (res_key r) = Some b"
    and bal: "available_base b' + committed_base b' + r_consumed (f r)
      = available_base b + committed_base b + r_consumed r"
  shows "funds k d' = funds k d"
proof -
  have "consumed_sum k d' = consumed_sum k d
      - (if res_key r = k then r_consumed r else 0) + (if res_key (f r) = k then r_consumed (f r) else 0)"
    unfolding consumed_sum_def res by (rule sum_upd_row [OF keys row])
  with key b bal show ?thesis by (auto simp: funds_def bals)
qed

section \<open>Every operation keeps the books\<close>

text \<open>
  \<open>books k\<close> bundles what a transition keeps: the invariant and the money of account \<open>k\<close>. The UPDATE
  of the balance never misses its row, because the committed part covers every live holding.
\<close>

definition keeps_books :: "db \<Rightarrow> db \<Rightarrow> bool" where
  "keeps_books d d' \<longleftrightarrow> money_inv d' \<and> (\<forall>k. funds k d' = funds k d)"

lemma keeps_books_refl: "money_inv d \<Longrightarrow> keeps_books d d"
  by (simp add: keeps_books_def)

lemma keeps_books_trans: "keeps_books d d' \<Longrightarrow> keeps_books d' d'' \<Longrightarrow> keeps_books d d''"
  by (simp add: keeps_books_def)

lemma keeps_books_rewrite:
  assumes "money_inv d" and "row_of r_id rid (reservations d) = Some r"
    and "\<And>x. r_id (f x) = r_id x" "res_key (f r) = res_key r" "row_ok (f r)"
    and "reservations d' = upd_row r_id rid f (reservations d)"
    and "balances d' = (balances d)(res_key r \<mapsto> b')"
    and "balances d (res_key r) = Some b" and "0 \<le> available_base b'"
    and "committed_base b' - committed_base b = held (f r) - held r"
    and "available_base b' + committed_base b' + r_consumed (f r)
      = available_base b + committed_base b + r_consumed r"
  shows "keeps_books d d'"
  unfolding keeps_books_def
  using money_inv_rewrite [OF assms(1-10)] funds_rewrite [OF _ assms(2,4,6,7,8,11)] assms(1)
  by (simp add: money_inv_def)

lemma consume_body_books:
  assumes inv: "money_inv d" and pos: "0 < filled"
    and run: "consume_body app_now db_now rid filled d = Inr (x, d')"
  shows "keeps_books d d'"
proof (cases "is_ok x")
  case False
  with run have "d' = d"
    by (auto simp: consume_body_def Let_def split: option.splits if_splits sum.splits)
  with inv show ?thesis by (simp add: keeps_books_refl)
next
  case True
  with run obtain r where row: "row_of r_id rid (reservations d) = Some r" and lv: "live r"
    and fit: "r_consumed r + filled \<le> r_amount r"
    by (auto simp: consume_body_def Let_def split: option.splits if_splits sum.splits)
  obtain b where b: "balances d (res_key r) = Some b" "0 \<le> available_base b" "held r \<le> committed_base b"
    using inv row by (rule money_inv_covers)
  have ok: "row_ok r" using inv row by (rule money_inv_row)
  have rel: "r_released r = 0" using ok lv by (auto simp: row_ok_def live_def)
  define full where "full = (r_consumed r + filled = r_amount r)"
  define f where "f = (\<lambda>x :: reservation_row. x\<lparr>r_consumed := r_consumed r + filled,
       r_consumed_at := (if full then Some db_now else r_consumed_at x),
       r_status := (if full then R_CONSUMED else R_PARTIALLY_CONSUMED)\<rparr>)"
  have "filled \<le> committed_base b"
    using b(3) fit rel lv by (simp add: held_def)
  then have d': "reservations d' = upd_row r_id rid f (reservations d)"
    "balances d' = (balances d)(res_key r \<mapsto> b\<lparr>committed_base := committed_base b - filled\<rparr>)"
    using run True row lv b(1)
    by (auto simp: consume_body_def Let_def upd_reservation_def full_def f_def upd_balance_hit
        split: if_splits sum.splits)
  show ?thesis
  proof (rule keeps_books_rewrite [OF inv row _ _ _ d' b(1)])
    show "row_ok (f r)"
      using ok lv fit pos rel by (auto simp: row_ok_def live_def f_def full_def)
    show "committed_base (b\<lparr>committed_base := committed_base b - filled\<rparr>) - committed_base b
        = held (f r) - held r"
      using lv rel by (auto simp: held_def live_def f_def full_def)
  qed (use b in \<open>simp_all add: f_def res_key_def\<close>)
qed

lemma release_body_books:
  assumes inv: "money_inv d" and run: "release_body db_now rid reason d = Inr (x, d')"
  shows "keeps_books d d'"
proof (cases "is_ok x")
  case False
  with run have "d' = d"
    by (auto simp: release_body_def Let_def split: option.splits if_splits sum.splits)
  with inv show ?thesis by (simp add: keeps_books_refl)
next
  case True
  with run obtain r where row: "row_of r_id rid (reservations d) = Some r" and lv: "live r"
    by (auto simp: release_body_def Let_def split: option.splits if_splits sum.splits)
  obtain b where b: "balances d (res_key r) = Some b" "0 \<le> available_base b" "held r \<le> committed_base b"
    using inv row by (rule money_inv_covers)
  have ok: "row_ok r" using inv row by (rule money_inv_row)
  define rem where "rem = held r"
  have rem: "rem = r_amount r - r_consumed r - r_released r" "0 \<le> rem" "rem \<le> committed_base b"
    using lv b(3) held_nonneg [OF ok] by (simp_all add: rem_def held_def)
  define f where "f = (\<lambda>x :: reservation_row. x\<lparr>r_released := r_released r + rem,
       r_released_at := (if reason = Rel_EXPIRED then r_released_at x else Some db_now),
       r_expired_at := (if reason = Rel_EXPIRED then Some db_now else r_expired_at x),
       r_status := (if reason = Rel_EXPIRED then R_EXPIRED else R_RELEASED)\<rparr>)"
  define b' where "b' = b\<lparr>available_base := available_base b + rem,
       committed_base := committed_base b - rem\<rparr>"
  have d': "reservations d' = upd_row r_id rid f (reservations d)"
    "balances d' = (balances d)(res_key r \<mapsto> b')"
    using run True row lv b(1) rem(2,3)
    by (auto simp: release_body_def Let_def upd_reservation_def f_def b'_def upd_balance_hit
        rem(1) [symmetric] fun_upd_idem split: if_splits sum.splits)
  show ?thesis
  proof (rule keeps_books_rewrite [OF inv row _ _ _ d' b(1)])
    show "row_ok (f r)"
      using ok rem by (auto simp: row_ok_def f_def split: reservation_status.splits)
    show "committed_base b' - committed_base b = held (f r) - held r"
    proof -
      have "held (f r) = 0" by (simp add: held_def live_def f_def)
      with rem_def show ?thesis by (simp add: b'_def)
    qed
  qed (use b rem in \<open>simp_all add: f_def b'_def res_key_def\<close>)
qed

lemma with_txn_books:
  assumes "money_inv d" and "\<And>x d'. body d = Inr (x, d') \<Longrightarrow> keeps_books d d'"
  shows "keeps_books d (snd (with_txn fault catch body d))"
proof (rule with_txn_invariant [where P = "keeps_books d"])
  show "keeps_books d d" using assms(1) by (rule keeps_books_refl)
qed (rule assms(2))

lemma consume_books: "money_inv d \<Longrightarrow> keeps_books d (snd (consume pl fault an dn rid filled d))"
  unfolding consume_def
  by (auto intro!: with_txn_books keeps_books_refl consume_body_books [where filled = filled])

lemma release_books: "money_inv d \<Longrightarrow> keeps_books d (snd (release pl fault dn rid reason d))"
  by (cases pl) (simp_all add: release_def with_txn_books release_body_books keeps_books_refl)

lemma expire_each_books: "money_inv d \<Longrightarrow> keeps_books d (snd (expire_each faults dn rids d))"
proof (induction rids arbitrary: d)
  case Nil
  then show ?case by (simp add: keeps_books_refl)
next
  case (Cons rid rids)
  let ?d1 = "snd (expire True (faults rid) dn rid d)"
  have 1: "keeps_books d ?d1"
    unfolding expire_def by (rule release_books [OF Cons.prems])
  then have "keeps_books ?d1 (snd (expire_each faults dn rids ?d1))"
    by (intro Cons.IH) (simp add: keeps_books_def)
  with 1 have "keeps_books d (snd (expire_each faults dn rids ?d1))"
    by (rule keeps_books_trans)
  then show ?case by (simp add: Let_def case_prod_beta)
qed

lemma expireOverdue_books:
  "money_inv d \<Longrightarrow> keeps_books d (snd (expireOverdue pl faults now dn d))"
  by (simp add: expireOverdue_def expire_each_books keeps_books_refl)

section \<open>What the operations do to the row and the balance\<close>

text \<open>A consume that returns ok, taken apart.\<close>

lemma consume_effect:
  assumes "money_inv d" and "consume True NoFault app_now db_now rid filled d = (Ok (), d')"
  obtains r b where "row_of r_id rid (reservations d) = Some r" and "live r"
    and "app_now \<le> r_expires_at r" and "0 < filled" and "filled \<le> held r"
    and "balances d (res_key r) = Some b"
    and "balances d' = (balances d)(res_key r \<mapsto> b\<lparr>committed_base := committed_base b - filled\<rparr>)"
    and "map_option r_consumed (row_of r_id rid (reservations d')) = Some (r_consumed r + filled)"
    and "map_option r_status (row_of r_id rid (reservations d')) =
      Some (if filled = held r then R_CONSUMED else R_PARTIALLY_CONSUMED)"
proof -
  have f: "0 < filled" and run: "consume_body app_now db_now rid filled d = Inr (Ok (), d')"
    using assms(2) by (auto simp: consume_def split: if_splits sum.splits prod.splits)
  from run obtain r where row: "row_of r_id rid (reservations d) = Some r" and lv: "live r"
    and nexp: "app_now \<le> r_expires_at r" and room: "r_consumed r + filled \<le> r_amount r"
    by (auto simp: consume_body_def Let_def split: option.splits if_splits)
  have ok: "row_ok r" using assms(1) row by (rule money_inv_row)
  have h: "held r = r_amount r - r_consumed r"
    using ok lv by (auto simp: row_ok_def held_def live_def split: reservation_status.splits)
  obtain b where b: "balances d (res_key r) = Some b" "0 \<le> available_base b" "held r \<le> committed_base b"
    using assms(1) row by (rule money_inv_covers)
  have hit: "filled \<le> committed_base b" using room h b(3) by simp
  show thesis
    by (rule that [OF row lv nexp f _ b(1)])
      (use run row lv nexp room h b(1) hit in \<open>auto simp: consume_body_def Let_def upd_reservation_def
        upd_balance_hit table_simps split: if_splits\<close>)
qed

text \<open>A release that returns ok, taken apart.\<close>

lemma release_effect:
  assumes "money_inv d" and "release True NoFault db_now rid reason d = (Ok (), d')"
  obtains r b where "row_of r_id rid (reservations d) = Some r" and "live r"
    and "balances d (res_key r) = Some b"
    and "balances d' = (balances d)(res_key r \<mapsto> b\<lparr>available_base := available_base b + held r,
          committed_base := committed_base b - held r\<rparr>)"
    and "map_option r_status (row_of r_id rid (reservations d')) =
      Some (if reason = Rel_EXPIRED then R_EXPIRED else R_RELEASED)"
    and "\<And>k. k \<noteq> rid \<Longrightarrow> row_of r_id k (reservations d') = row_of r_id k (reservations d)"
proof -
  have run: "release_body db_now rid reason d = Inr (Ok (), d')"
    using assms(2) by (auto simp: release_def split: sum.splits prod.splits)
  from run obtain r where row: "row_of r_id rid (reservations d) = Some r" and lv: "live r"
    by (auto simp: release_body_def Let_def split: option.splits if_splits)
  obtain b where b: "balances d (res_key r) = Some b" "0 \<le> available_base b" "held r \<le> committed_base b"
    using assms(1) row by (rule money_inv_covers)
  have ok: "row_ok r" using assms(1) row by (rule money_inv_row)
  have h: "r_amount r - r_consumed r - r_released r = held r" using lv by (simp add: held_def)
  show thesis
    by (rule that [OF row lv b(1)])
      (use run row lv b(1,3) held_nonneg [OF ok] in \<open>auto simp: release_body_def Let_def h
        upd_reservation_def upd_balance_hit table_simps fun_upd_idem split: if_splits\<close>)
qed

text \<open>Without a fault the manager's release of a live row of a sound table cannot fail.\<close>

lemma release_live_ok:
  assumes inv: "money_inv d" and row: "row_of r_id rid (reservations d) = Some r" and lv: "live r"
  shows "fst (release True NoFault db_now rid reason d) = Ok ()"
proof -
  let ?rem = "r_amount r - r_consumed r - r_released r"
  have ok: "row_ok r" using inv row by (rule money_inv_row)
  have rem: "0 \<le> ?rem" using held_nonneg [OF ok] lv by (simp add: held_def)
  have keys: "keys_ok r_id (reservations d)" using inv by (simp add: money_inv_def)
  have "conservation_check x" if "x \<in> set (upd_row r_id rid f (reservations d))"
    and "conservation_check (f r)" for f x
    using that inv by (auto simp: set_upd_row [OF keys row] money_inv_def row_ok_check)
  then have "list_all conservation_check (upd_row r_id rid f (reservations d))"
    if "conservation_check (f r)" for f
    using that by (auto simp: list_all_iff)
  with row lv rem show ?thesis
    by (auto simp: release_def release_body_def Let_def upd_reservation_def conservation_check_def
        split: if_splits)
qed


text \<open>The sweep releases every row it selected.\<close>

lemma expire_each_all:
  assumes "money_inv d" and "distinct rids"
    and "\<And>rid. rid \<in> set rids \<Longrightarrow> \<exists>r. row_of r_id rid (reservations d) = Some r \<and> live r"
    and "expire_each (\<lambda>_. NoFault) db_now rids d = (n, d')"
  shows "n = length rids \<and>
    (\<forall>k \<in> set rids. map_option r_status (row_of r_id k (reservations d')) = Some R_EXPIRED) \<and>
    (\<forall>k. k \<notin> set rids \<longrightarrow> row_of r_id k (reservations d') = row_of r_id k (reservations d))"
  using assms
proof (induction rids arbitrary: d n)
  case Nil
  then show ?case by simp
next
  case (Cons rid rids)
  obtain r where r: "row_of r_id rid (reservations d) = Some r" "live r"
    using Cons.prems(3) [of rid] by auto
  define d1 where "d1 = snd (expire True NoFault db_now rid d)"
  have e: "release True NoFault db_now rid Rel_EXPIRED d = (Ok (), d1)"
    using release_live_ok [OF Cons.prems(1) r, of db_now Rel_EXPIRED]
    by (simp add: d1_def expire_def prod_eq_iff)
  have st: "map_option r_status (row_of r_id rid (reservations d1)) = Some R_EXPIRED"
    and other: "\<And>k. k \<noteq> rid \<Longrightarrow> row_of r_id k (reservations d1) = row_of r_id k (reservations d)"
    using Cons.prems(1) e by (auto elim!: release_effect)
  obtain m where m: "n = Suc m" "expire_each (\<lambda>_. NoFault) db_now rids d1 = (m, d')"
    using Cons.prems(4) e by (auto simp: expire_def split: prod.splits)
  have "m = length rids \<and>
    (\<forall>k \<in> set rids. map_option r_status (row_of r_id k (reservations d')) = Some R_EXPIRED) \<and>
    (\<forall>k. k \<notin> set rids \<longrightarrow> row_of r_id k (reservations d') = row_of r_id k (reservations d1))"
  proof (rule Cons.IH)
    show "money_inv d1"
      using release_books [OF Cons.prems(1), of True NoFault db_now rid Rel_EXPIRED] e
      by (simp add: keeps_books_def)
    show "\<exists>r. row_of r_id k (reservations d1) = Some r \<and> live r" if "k \<in> set rids" for k
    proof -
      have "k \<noteq> rid" using that Cons.prems(2) by auto
      with that Cons.prems(3) [of k] show ?thesis by (auto simp: other)
    qed
  qed (use Cons.prems(2) m(2) in simp_all)
  with st other Cons.prems(2) m(1) show ?case by auto
qed

lemma overdue_rows:
  assumes "keys_ok r_id (reservations d)"
  shows "distinct (overdue now d)"
    and "rid \<in> set (overdue now d) \<longleftrightarrow>
      (\<exists>r. row_of r_id rid (reservations d) = Some r \<and> live r \<and> r_expires_at r \<le> now)"
  using assms keys_ok_row_of [OF assms]
  by (auto simp: overdue_def keys_ok_def distinct_map intro: inj_on_subset dest!: row_of_Some)

section \<open>Sample data\<close>

definition sample_row :: reservation_row where
  "sample_row = \<lparr>r_id = ''r1'', r_decision_id = ''d1'', r_intent_id = ''i1'', r_account = ''acct'',
     r_asset = ''pUSD'', r_amount = 5000000, r_consumed = 2000000, r_released = 0,
     r_currency = ''pUSD'', r_status = R_PARTIALLY_CONSUMED, r_created_at = 0,
     r_expires_at = 60000, r_consumed_at = None, r_released_at = None, r_expired_at = None,
     r_permit_id = ''p1''\<rparr>"

definition sample_db :: db where
  "sample_db = empty_db\<lparr>reservations := [sample_row],
     balances := [(''acct'', ''pUSD'') \<mapsto> \<lparr>available_base = 7000000, committed_base = 3000000\<rparr>]\<rparr>"

lemma sample_inv: "money_inv sample_db"
  by (auto simp: money_inv_def sample_db_def sample_row_def empty_db_def keys_ok_def row_ok_def
      balance_ok_def held_sum_def held_def live_def res_key_def)

section \<open>Properties\<close>

text \<open>\<open>toBaseUnits\<close> reads back exactly the integer amount that a \<open>NUMERIC(18,8)\<close> column holds:
  the rendering with eight fractional zeros round-trips.\<close>

theorem toBaseUnits_pg_numeric:
  assumes "0 \<le> n"
  shows "toBaseUnits (pg_numeric n) = Some n"
  using assms by (rule toBaseUnits_pg_numeric_raw)

theorem toBaseUnits_pg_numeric_witness: "toBaseUnits (pg_numeric 1500000) = Some 1500000"
  using toBaseUnits_pg_numeric [of 1500000] by simp

text \<open>A successful \<open>consume\<close> settles exactly the filled amount: the row was live, not past its
  deadline and still held at least that much; the committed balance of its account drops by exactly
  the fill, the row's consumed part grows by it, and the row is CONSUMED just when nothing is left.\<close>

theorem consume_posts_exactly:
  assumes "money_inv d" and "consume True NoFault app_now db_now rid filled d = (Ok (), d')"
  shows "\<exists>r b. row_of r_id rid (reservations d) = Some r \<and> live r \<and> app_now \<le> r_expires_at r \<and>
    0 < filled \<and> filled \<le> held r \<and> balances d (res_key r) = Some b \<and>
    balances d' = (balances d)(res_key r \<mapsto> b\<lparr>committed_base := committed_base b - filled\<rparr>) \<and>
    map_option r_consumed (row_of r_id rid (reservations d')) = Some (r_consumed r + filled) \<and>
    map_option r_status (row_of r_id rid (reservations d')) =
      Some (if filled = held r then R_CONSUMED else R_PARTIALLY_CONSUMED)"
  using assms by (rule consume_effect) blast

theorem consume_posts_exactly_witness:
  "\<exists>d'. consume True NoFault 1000 1000 ''r1'' 3000000 sample_db = (Ok (), d') \<and>
    map_option r_status (row_of r_id ''r1'' (reservations d')) = Some R_CONSUMED"
proof -
  let ?d' = "snd (consume True NoFault 1000 1000 ''r1'' 3000000 sample_db)"
  have run: "consume True NoFault 1000 1000 ''r1'' 3000000 sample_db = (Ok (), ?d')"
    by (simp add: consume_def consume_body_def sample_db_def sample_row_def live_def
        upd_reservation_def conservation_check_def upd_balance_def Let_def empty_db_def res_key_def)
  have "held sample_row = 3000000" by (simp add: held_def live_def sample_row_def)
  with consume_posts_exactly [OF sample_inv run] run show ?thesis
    by (auto simp: sample_db_def sample_row_def)
qed

text \<open>C20. \<open>release\<close> gives back exactly what a row still holds, and gives it back once: the account's
  available balance grows by the holding and its committed balance drops by it, and a second release
  of the same reservation is refused as not active and changes nothing.\<close>

theorem release_returns_once:
  assumes "money_inv d" and "release True NoFault db_now rid reason d = (Ok (), d')"
  shows "(\<exists>r b. row_of r_id rid (reservations d) = Some r \<and> live r \<and>
      balances d (res_key r) = Some b \<and>
      balances d' = (balances d)(res_key r \<mapsto> b\<lparr>available_base := available_base b + held r,
          committed_base := committed_base b - held r\<rparr>)) \<and>
    release True NoFault t rid reason' d' = (Refused ''RESERVATION_NOT_ACTIVE'', d')"
proof -
  obtain r b where e: "row_of r_id rid (reservations d) = Some r" "live r"
    "balances d (res_key r) = Some b"
    "balances d' = (balances d)(res_key r \<mapsto> b\<lparr>available_base := available_base b + held r,
          committed_base := committed_base b - held r\<rparr>)"
    and st: "map_option r_status (row_of r_id rid (reservations d')) =
      Some (if reason = Rel_EXPIRED then R_EXPIRED else R_RELEASED)"
    using assms by (rule release_effect) blast
  from st have "release True NoFault t rid reason' d' = (Refused ''RESERVATION_NOT_ACTIVE'', d')"
    by (auto simp: release_def release_body_def live_def split: if_splits)
  with e show ?thesis by blast
qed

theorem release_returns_once_witness:
  "\<exists>d'. release True NoFault 2000 ''r1'' Rel_CANCELLED sample_db = (Ok (), d') \<and>
    balances d' (''acct'', ''pUSD'') = Some \<lparr>available_base = 10000000, committed_base = 0\<rparr> \<and>
    release True NoFault 2001 ''r1'' Rel_EXPIRED d' = (Refused ''RESERVATION_NOT_ACTIVE'', d')"
proof -
  let ?d' = "snd (release True NoFault 2000 ''r1'' Rel_CANCELLED sample_db)"
  have run: "release True NoFault 2000 ''r1'' Rel_CANCELLED sample_db = (Ok (), ?d')"
    by (simp add: release_def release_body_def sample_db_def sample_row_def live_def
        upd_reservation_def conservation_check_def upd_balance_def Let_def empty_db_def res_key_def)
  have "held sample_row = 3000000" by (simp add: held_def live_def sample_row_def)
  with release_returns_once [OF sample_inv run, of 2001 Rel_EXPIRED] run show ?thesis
    by (auto simp: sample_db_def sample_row_def res_key_def)
qed

text \<open>C21. Without connection faults one run of \<open>expireOverdue\<close> leaves no overdue live reservation
  behind, and it reports exactly the number of reservations that were overdue; the accounting
  invariant and the money of every account are kept.\<close>

theorem expireOverdue_sweeps_all:
  assumes "money_inv d" and "expireOverdue True (\<lambda>_. NoFault) now db_now d = (n, d')"
  shows "n = length (overdue now d) \<and> overdue now d' = [] \<and> keeps_books d d'"
proof -
  have keys: "keys_ok r_id (reservations d)" using assms(1) by (simp add: money_inv_def)
  have run: "expire_each (\<lambda>_. NoFault) db_now (overdue now d) d = (n, d')"
    using assms(2) by (simp add: expireOverdue_def)
  have books: "keeps_books d d'"
    using expireOverdue_books [OF assms(1), of True "\<lambda>_. NoFault" now db_now] assms(2) by simp
  then have keys': "keys_ok r_id (reservations d')" by (simp add: keeps_books_def money_inv_def)
  have live_all: "\<exists>r. row_of r_id rid (reservations d) = Some r \<and> live r"
    if "rid \<in> set (overdue now d)" for rid
    using that overdue_rows(2) [OF keys] by blast
  have all: "n = length (overdue now d) \<and>
    (\<forall>k \<in> set (overdue now d). map_option r_status (row_of r_id k (reservations d')) = Some R_EXPIRED) \<and>
    (\<forall>k. k \<notin> set (overdue now d) \<longrightarrow> row_of r_id k (reservations d') = row_of r_id k (reservations d))"
    by (rule expire_each_all [OF assms(1) overdue_rows(1) [OF keys] _ run]) (rule live_all)
  have "k \<notin> set (overdue now d')" for k
  proof
    assume k: "k \<in> set (overdue now d')"
    then obtain r where r: "row_of r_id k (reservations d') = Some r" "live r" "r_expires_at r \<le> now"
      using overdue_rows(2) [OF keys'] by auto
    then have k': "k \<notin> set (overdue now d)"
      using all [THEN conjunct2, THEN conjunct1, THEN bspec, of k] by (auto simp: live_def)
    then have "row_of r_id k (reservations d) = Some r"
      using all [THEN conjunct2, THEN conjunct2] r(1) by simp
    with r k' show False using overdue_rows(2) [OF keys] by blast
  qed
  then have "overdue now d' = []" by (metis list.set_intros(1) neq_Nil_conv)
  with all books show ?thesis by simp
qed

theorem expireOverdue_sweeps_all_witness:
  "fst (expireOverdue True (\<lambda>_. NoFault) 60000 60001 sample_db) = 1"
proof -
  obtain n d' where run: "expireOverdue True (\<lambda>_. NoFault) 60000 60001 sample_db = (n, d')"
    by fastforce
  have "length (overdue 60000 sample_db) = 1"
    by (simp add: overdue_def sample_db_def sample_row_def live_def)
  with expireOverdue_sweeps_all [OF sample_inv run] run show ?thesis by simp
qed

end
