(* ===== verification/MoneyAuthority.thy ===== *)
theory MoneyAuthority
  imports Reservations
begin

text \<open>
  \<open>PgMoneyAuthority.reserve\<close> of \<open>src/pm/risk/src/money-kernel-pg.ts\<close>: the single transaction that
  locks the balance, moves cash from available to committed and inserts the intent, the risk
  decision, the reservation, the execution permit and the audit event. The statements are the steps
  of \<open>authority_body\<close>, in order, with the constraint each insert can violate; \<open>catch_reserve\<close> is the
  catch branch that maps an SQLSTATE to a refusal code.

  Inputs that the code draws inside: the two fresh UUIDs and the connection's \<open>fault\<close>.
\<close>

section \<open>Arguments\<close>

record risk_cols =
  rk_schema_version :: string
  rk_policy_version :: string
  rk_ledger_version :: string
  rk_allowed_order_style :: "string list"
  rk_venue_mode :: string

record intent_ref =
  ir_market_id :: string
  ir_outcome_side :: outcome_side
  ir_price_base :: int
  ir_size_base :: int
  ir_order_type :: order_style
  ir_expiration_sec :: jsnum
  ir_strategy :: string

record reserve_args =
  a_account :: string
  a_asset :: string
  a_cash :: int
  a_decision_id :: uuid
  a_intent_id :: uuid
  a_lease_epoch :: jsnum
  a_now :: ms
  a_shares :: "int option"
  a_policy_hash :: "string option"
  a_quote_id :: "string option"
  a_risk :: "risk_cols option"
  a_intent_ref :: "intent_ref option"

abbreviation a_key :: "reserve_args \<Rightarrow> string \<times> string" where
  "a_key a \<equiv> (a_account a, a_asset a)"

record reserved_ids =
  ri_reservation :: uuid
  ri_permit :: uuid

definition maxOpenReservations :: nat where
  "maxOpenReservations = 16"

section \<open>Parameters as the SQL columns take them\<close>

definition invalid_text :: pg_error where
  "invalid_text = \<lparr>pg_code = ''22P02'', pg_text = ''invalid input syntax''\<rparr>"

text \<open>\<open>x.toFixed(4)\<close> of a non-negative number, and a number rounded to a \<open>NUMERIC(18,8)\<close> column.\<close>

fun to_fixed :: "nat \<Rightarrow> jsnum \<Rightarrow> pg_error + rat" where
  "to_fixed p (Fin q) =
     (let m = of_int \<lfloor>\<bar>q\<bar> * 10 ^ p + 1 / 2\<rfloor> / 10 ^ p in Inr (if q < 0 then - m else m))"
| "to_fixed p _ = Inl invalid_text"

fun int_column :: "jsnum \<Rightarrow> pg_error + int" where
  "int_column (Fin q) = (let n = max 1 \<lfloor>q\<rfloor> in if n < 2 ^ 31 then Inr n else Inl numeric_overflow)"
| "int_column NegInf = Inr 1"
| "int_column _ = Inl invalid_text"

definition units :: "int \<Rightarrow> jsnum" where
  "units b = num_div (num_of_bigint b) (Fin 1000000)"

definition intent_row_of :: "uuid \<Rightarrow> intent_ref \<Rightarrow> pg_error + intent_row" where
  "intent_row_of iid r =
     (case to_fixed 4 (units (ir_price_base r)) of Inl e \<Rightarrow> Inl e | Inr price \<Rightarrow>
      (case to_fixed 8 (units (ir_size_base r)) of Inl e \<Rightarrow> Inl e | Inr sz \<Rightarrow>
      (case int_column (ir_expiration_sec r) of Inl e \<Rightarrow> Inl e | Inr exp_s \<Rightarrow>
        if 10 ^ 10 \<le> \<bar>sz\<bar> \<or> 10 \<le> \<bar>price\<bar> then Inl numeric_overflow
        else if \<not> (0 \<le> price \<and> price \<le> 1 \<and> 0 < sz) then Inl check_violation
        else Inr \<lparr>it_id = iid, it_market_id = ir_market_id r, it_side = ir_outcome_side r,
               it_price = price, it_size = sz, it_order_type = ir_order_type r,
               it_expiration_sec = exp_s, it_strategy = ir_strategy r\<rparr>)))"

section \<open>The inserts\<close>

text \<open>3b. \<open>INSERT INTO trade_intents ... ON CONFLICT (id) DO NOTHING\<close>.\<close>

definition insert_intent :: "reserve_args \<Rightarrow> db \<Rightarrow> pg_error + db" where
  "insert_intent a d =
     (case a_intent_ref a of None \<Rightarrow> Inr d
      | Some r \<Rightarrow> (case intent_row_of (a_intent_id a) r of Inl e \<Rightarrow> Inl e
         | Inr row \<Rightarrow> if row_of it_id (a_intent_id a) (intents d) \<noteq> None then Inr d
                     else Inr (d\<lparr>intents := intents d @ [row]\<rparr>)))"

definition max_qty_of :: "reserve_args \<Rightarrow> int" where
  "max_qty_of a = (case a_shares a of Some s \<Rightarrow> s | None \<Rightarrow> a_cash a)"

text \<open>4. The risk decision: primary key, then the foreign key to its intent.\<close>

definition decision_of :: "reserve_args \<Rightarrow> uuid \<Rightarrow> decision_row" where
  "decision_of a rid = (let rk = a_risk a in
     \<lparr>d_id = a_decision_id a, d_intent_id = a_intent_id a, d_reservation_ids = [rid],
      d_max_qty = max_qty_of a, d_max_cash = a_cash a,
      d_allowed_order_style = (case rk of Some c \<Rightarrow> rk_allowed_order_style c | None \<Rightarrow> [''LIMIT'', ''POST_ONLY'']),
      d_venue_mode = (case rk of Some c \<Rightarrow> rk_venue_mode c | None \<Rightarrow> ''NORMAL''),
      d_ledger_version = (case rk of Some c \<Rightarrow> rk_ledger_version c | None \<Rightarrow> ''0003''),
      d_policy_version = (case rk of Some c \<Rightarrow> rk_policy_version c | None \<Rightarrow> ''v0-bootstrap''),
      d_schema_version = (case rk of Some c \<Rightarrow> rk_schema_version c | None \<Rightarrow> ''1.1'')\<rparr>)"

definition insert_decision :: "reserve_args \<Rightarrow> uuid \<Rightarrow> db \<Rightarrow> pg_error + db" where
  "insert_decision a rid d =
     (if \<not> (numeric_18_8 (max_qty_of a) \<and> numeric_18_8 (a_cash a)) then Inl numeric_overflow
      else if row_of d_id (a_decision_id a) (decisions d) \<noteq> None then Inl unique_violation
      else if row_of it_id (a_intent_id a) (intents d) = None then Inl fk_violation
      else Inr (d\<lparr>decisions := decisions d @ [decision_of a rid]\<rparr>))"

text \<open>5. The reservation: amount check, primary key, one ACTIVE row per intent, foreign key.\<close>

definition reservation_of :: "reserve_args \<Rightarrow> ms \<Rightarrow> uuid \<Rightarrow> uuid \<Rightarrow> reservation_row" where
  "reservation_of a db_now rid pid =
     \<lparr>r_id = rid, r_decision_id = a_decision_id a, r_intent_id = a_intent_id a,
      r_account = a_account a, r_asset = a_asset a, r_amount = a_cash a, r_consumed = 0,
      r_released = 0, r_currency = ''pUSD'', r_status = R_ACTIVE, r_created_at = db_now,
      r_expires_at = a_now a + 60000, r_consumed_at = None, r_released_at = None,
      r_expired_at = None, r_permit_id = pid\<rparr>"

definition insert_reservation :: "reservation_row \<Rightarrow> db \<Rightarrow> pg_error + db" where
  "insert_reservation r d =
     (if \<not> numeric_18_8 (r_amount r) then Inl numeric_overflow
      else if r_amount r < 0 then Inl check_violation
      else if row_of r_id (r_id r) (reservations d) \<noteq> None then Inl unique_violation
      else if list_ex (\<lambda>x. r_status x = R_ACTIVE \<and> r_intent_id x = r_intent_id r) (reservations d)
        then Inl unique_violation
      else if row_of it_id (r_intent_id r) (intents d) = None then Inl fk_violation
      else Inr (d\<lparr>reservations := reservations d @ [r]\<rparr>))"

text \<open>7. The permit, with the columns read back from the risk decision.\<close>

definition permit_of :: "reserve_args \<Rightarrow> decision_row \<Rightarrow> uuid \<Rightarrow> uuid \<Rightarrow> permit_row" where
  "permit_of a dr rid pid =
     \<lparr>pr_permit_id = pid, pr_decision_id = a_decision_id a, pr_intent_id = a_intent_id a,
      pr_ledger_version = d_ledger_version dr, pr_policy_version = d_policy_version dr,
      pr_policy_hash = (case a_policy_hash a of Some h \<Rightarrow> h | None \<Rightarrow> ''''),
      pr_quote_id = (case a_quote_id a of Some q \<Rightarrow> q | None \<Rightarrow> ''''),
      pr_lease_epoch = (case a_lease_epoch a of Fin q \<Rightarrow> \<lfloor>q\<rfloor> | _ \<Rightarrow> 0),
      pr_reservation_ids = [rid],
      pr_max_qty = of_int (max_qty_of a), pr_max_cash = of_int (a_cash a),
      pr_allowed_order_style = d_allowed_order_style dr, pr_venue_mode = d_venue_mode dr,
      pr_expires_at = a_now a + 60000, pr_single_use = True, pr_used_at = None,
      pr_claimed_order_id = None, pr_payload_hash = None\<rparr>"

definition insert_permit :: "permit_row \<Rightarrow> db \<Rightarrow> pg_error + db" where
  "insert_permit p d =
     (if pr_max_qty p < 0 \<or> pr_max_cash p < 0 then Inl check_violation
      else if row_of pr_permit_id (pr_permit_id p) (permits d) \<noteq> None then Inl unique_violation
      else Inr (d\<lparr>permits := permits d @ [p]\<rparr>))"

definition append_event :: "string \<Rightarrow> uuid \<Rightarrow> int \<Rightarrow> db \<Rightarrow> db" where
  "append_event topic aggregate cash d =
     d\<lparr>kernel_events := kernel_events d @
       [\<lparr>ev_topic = topic, ev_aggregate_id = aggregate, ev_cash = cash\<rparr>]\<rparr>"

section \<open>The transaction\<close>

definition duplicate_intent :: "reserve_args \<Rightarrow> db \<Rightarrow> bool" where
  "duplicate_intent a d \<longleftrightarrow> list_ex (\<lambda>r. r_intent_id r = a_intent_id a \<and> res_key r = a_key a \<and>
      r_status r = R_ACTIVE) (reservations d)"

definition move_to_committed :: "reserve_args \<Rightarrow> db \<Rightarrow> db" where
  "move_to_committed a d = upd_balance (a_key a) (\<lambda>b. a_cash a \<le> available_base b)
     (\<lambda>b. b\<lparr>available_base := available_base b - a_cash a,
            committed_base := committed_base b + a_cash a\<rparr>) d"

text \<open>Statements 3 to 9, once the guards have passed.\<close>

definition authority_writes ::
  "reserve_args \<Rightarrow> ms \<Rightarrow> uuid \<Rightarrow> uuid \<Rightarrow> db \<Rightarrow> pg_error + (reserved_ids outcome \<times> db)" where
  "authority_writes a db_now rid pid d =
     (case insert_intent a (move_to_committed a d) of Inl e \<Rightarrow> Inl e | Inr d1 \<Rightarrow>
      (case insert_decision a rid d1 of Inl e \<Rightarrow> Inl e | Inr d2 \<Rightarrow>
      (case insert_reservation (reservation_of a db_now rid pid) d2 of Inl e \<Rightarrow> Inl e | Inr d3 \<Rightarrow>
      (case row_of d_id (a_decision_id a) (decisions d3) of
         None \<Rightarrow> Inr (Refused ''RISK_DECISION_NOT_FOUND'', d)
       | Some dr \<Rightarrow>
      (case insert_permit (permit_of a dr rid pid) d3 of Inl e \<Rightarrow> Inl e | Inr d4 \<Rightarrow>
         Inr (Ok \<lparr>ri_reservation = rid, ri_permit = pid\<rparr>,
              append_event ''RESERVATION_CREATED'' pid (a_cash a) d4))))))"

definition authority_body ::
  "reserve_args \<Rightarrow> ms \<Rightarrow> uuid \<Rightarrow> uuid \<Rightarrow> db \<Rightarrow> pg_error + (reserved_ids outcome \<times> db)" where
  "authority_body a db_now rid pid d =
     (if duplicate_intent a d then Inr (Refused ''DUPLICATE_INTENT'', d)
      else case balances d (a_key a) of
        None \<Rightarrow> Inr (Refused ''BALANCE_ROW_MISSING'', d)
      | Some b \<Rightarrow>
          if available_base b < a_cash a then Inr (Refused ''INSUFFICIENT_AVAILABLE_BALANCE'', d)
          else if maxOpenReservations \<le> getOpenCount (a_key a) d
            then Inr (Refused ''RESERVATION_LIMIT_EXCEEDED'', d)
          else authority_writes a db_now rid pid d)"

text \<open>The catch branch. \<open>/serializ|deadlock/i\<close> is a case-insensitive substring test.\<close>

definition lower :: "char \<Rightarrow> char" where
  "lower c = (let k = (of_char c :: nat) in if 65 \<le> k \<and> k \<le> 90 then char_of (k + 32) else c)"

definition starts_with :: "string \<Rightarrow> string \<Rightarrow> bool" where
  "starts_with p s \<longleftrightarrow> take (length p) s = p"

fun occurs_in :: "string \<Rightarrow> string \<Rightarrow> bool" where
  "occurs_in p [] = (p = [])"
| "occurs_in p (c # cs) = (starts_with p (c # cs) \<or> occurs_in p cs)"

definition catch_reserve :: "pg_error \<Rightarrow> reserved_ids outcome" where
  "catch_reserve e =
     (if pg_code e = ''23505'' then Refused ''DUPLICATE_INTENT''
      else if pg_code e = ''40001'' \<or> pg_code e = ''40P01'' \<or>
          occurs_in ''serializ'' (map lower (pg_text e)) \<or> occurs_in ''deadlock'' (map lower (pg_text e))
        then Refused ''SERIALIZATION_CONFLICT''
      else Refused ''MONEY_AUTHORITY_FAILED'')"

definition authority_reserve ::
  "fault \<Rightarrow> ms \<Rightarrow> uuid \<Rightarrow> uuid \<Rightarrow> reserve_args \<Rightarrow> db \<Rightarrow> reserved_ids outcome \<times> db" where
  "authority_reserve fault db_now rid pid a d =
     (if \<not> truthy (a_policy_hash a) then (Refused ''POLICY_HASH_REQUIRED'', d)
      else if \<not> truthy (a_quote_id a) then (Refused ''QUOTE_ID_REQUIRED'', d)
      else if \<not> is_integer_num (a_lease_epoch a) \<or> num_le (a_lease_epoch a) (Fin 0)
        then (Refused ''LEASE_EPOCH_MISMATCH'', d)
      else with_txn fault catch_reserve (authority_body a db_now rid pid) d)"

section \<open>What the transaction writes\<close>

lemma catch_reserve_refuses: "catch_reserve e \<noteq> Ok x"
  by (simp add: catch_reserve_def)

lemma insert_intent_frame:
  "insert_intent a d = Inr d' \<Longrightarrow> balances d' = balances d \<and> reservations d' = reservations d
     \<and> decisions d' = decisions d \<and> permits d' = permits d \<and> recovery d' = recovery d
     \<and> kernel_events d' = kernel_events d"
  by (auto simp: insert_intent_def split: option.splits sum.splits if_splits)

text \<open>The whole effect of a transaction that reaches its end.\<close>

lemma authority_writes_effect:
  assumes run: "authority_writes a db_now rid pid d = Inr (x, d')"
    and b: "balances d (a_key a) = Some b" "a_cash a \<le> available_base b"
  shows "x = Ok \<lparr>ri_reservation = rid, ri_permit = pid\<rparr>"
    and "balances d' = (balances d)(a_key a \<mapsto> b\<lparr>available_base := available_base b - a_cash a,
            committed_base := committed_base b + a_cash a\<rparr>)"
    and "reservations d' = reservations d @ [reservation_of a db_now rid pid]"
    and "permits d' = permits d @ [permit_of a (decision_of a rid) rid pid]"
    and "decisions d' = decisions d @ [decision_of a rid]"
    and "recovery d' = recovery d"
    and "kernel_events d' = kernel_events d @
       [\<lparr>ev_topic = ''RESERVATION_CREATED'', ev_aggregate_id = pid, ev_cash = a_cash a\<rparr>]"
    and "0 \<le> a_cash a" and "rid \<notin> r_id ` set (reservations d)"
    and "\<forall>r \<in> set (reservations d). r_status r = R_ACTIVE \<longrightarrow> r_intent_id r \<noteq> a_intent_id a"
proof -
  obtain d1 where d1: "insert_intent a (move_to_committed a d) = Inr d1"
    using run by (auto simp: authority_writes_def split: sum.splits)
  obtain d2 where d2: "insert_decision a rid d1 = Inr d2"
    using run d1 by (auto simp: authority_writes_def split: sum.splits)
  obtain d3 where d3: "insert_reservation (reservation_of a db_now rid pid) d2 = Inr d3"
    using run d1 d2 by (auto simp: authority_writes_def split: sum.splits)
  have m: "balances (move_to_committed a d) = (balances d)(a_key a \<mapsto>
      b\<lparr>available_base := available_base b - a_cash a, committed_base := committed_base b + a_cash a\<rparr>)"
    unfolding move_to_committed_def using b by (intro upd_balance_hit) simp_all
  note f1 = insert_intent_frame [OF d1]
  have f2: "d2 = d1\<lparr>decisions := decisions d1 @ [decision_of a rid]\<rparr>"
    and new: "row_of d_id (a_decision_id a) (decisions d1) = None"
    using d2 by (auto simp: insert_decision_def split: if_splits)
  have f3: "d3 = d2\<lparr>reservations := reservations d2 @ [reservation_of a db_now rid pid]\<rparr>"
    and g3: "0 \<le> a_cash a" "row_of r_id rid (reservations d2) = None"
      "\<not> list_ex (\<lambda>x. r_status x = R_ACTIVE \<and> r_intent_id x = a_intent_id a) (reservations d2)"
    using d3 by (auto simp: insert_reservation_def reservation_of_def split: if_splits)
  have dr: "row_of d_id (a_decision_id a) (decisions d3) = Some (decision_of a rid)"
    using new by (simp add: f2 f3 row_of_append decision_of_def Let_def)
  obtain d4 where d4: "insert_permit (permit_of a (decision_of a rid) rid pid) d3 = Inr d4"
    and x: "x = Ok \<lparr>ri_reservation = rid, ri_permit = pid\<rparr>"
    and d': "d' = append_event ''RESERVATION_CREATED'' pid (a_cash a) d4"
    using run d1 d2 d3 dr by (auto simp: authority_writes_def split: sum.splits)
  have f4: "d4 = d3\<lparr>permits := permits d3 @ [permit_of a (decision_of a rid) rid pid]\<rparr>"
    using d4 by (auto simp: insert_permit_def split: if_splits)
  note all = d' append_event_def f4 f3 f2 f1 m move_to_committed_def
  show "x = Ok \<lparr>ri_reservation = rid, ri_permit = pid\<rparr>" by (fact x)
  show "balances d' = (balances d)(a_key a \<mapsto> b\<lparr>available_base := available_base b - a_cash a,
            committed_base := committed_base b + a_cash a\<rparr>)" by (simp add: all(1-6) m)
  show "reservations d' = reservations d @ [reservation_of a db_now rid pid]" by (simp add: all)
  show "permits d' = permits d @ [permit_of a (decision_of a rid) rid pid]" by (simp add: all)
  show "decisions d' = decisions d @ [decision_of a rid]" by (simp add: all)
  show "recovery d' = recovery d" by (simp add: all)
  show "kernel_events d' = kernel_events d @
       [\<lparr>ev_topic = ''RESERVATION_CREATED'', ev_aggregate_id = pid, ev_cash = a_cash a\<rparr>]"
    by (simp add: all)
  show "0 \<le> a_cash a" by (fact g3)
  show "rid \<notin> r_id ` set (reservations d)"
    using g3(2) by (simp add: row_of_None f2 f1 move_to_committed_def)
  show "\<forall>r \<in> set (reservations d). r_status r = R_ACTIVE \<longrightarrow> r_intent_id r \<noteq> a_intent_id a"
    using g3(3) by (auto simp: list_ex_iff f2 f1 move_to_committed_def)
qed

lemma authority_body_cases:
  assumes "authority_body a db_now rid pid d = Inr (x, d')"
  obtains (refused) "d' = d" and "\<And>y. x \<noteq> Ok y"
  | (written) b where "balances d (a_key a) = Some b" and "a_cash a \<le> available_base b"
      and "getOpenCount (a_key a) d < maxOpenReservations"
      and "authority_writes a db_now rid pid d = Inr (x, d')"
  using assms by (auto simp: authority_body_def split: if_splits option.splits)

text \<open>Appending a fresh ACTIVE reservation together with its committed cash keeps the books.\<close>

lemma keeps_books_append:
  assumes inv: "money_inv d" and r: "row_ok r" "r_consumed r = 0" "r_id r \<notin> r_id ` set (reservations d)"
    and b: "balances d (res_key r) = Some b" "held r \<le> available_base b"
    and bals: "balances d' = (balances d)(res_key r \<mapsto>
        b\<lparr>available_base := available_base b - held r, committed_base := committed_base b + held r\<rparr>)"
    and res: "reservations d' = reservations d @ [r]"
  shows "keeps_books d d'"
proof -
  have "balance_ok k d'" for k
    using money_inv_balance [OF inv, of k] b r
    by (auto simp: balance_ok_def held_sum_def bals res split: option.splits)
  moreover have "keys_ok r_id (reservations d')" "\<forall>x \<in> set (reservations d'). row_ok x"
    using inv r by (auto simp: money_inv_def keys_ok_def res)
  moreover have "funds k d' = funds k d" for k
    using b r by (auto simp: funds_def consumed_sum_def bals res)
  ultimately show ?thesis unfolding keeps_books_def money_inv_def by blast
qed

lemma authority_body_books:
  assumes inv: "money_inv d" and run: "authority_body a db_now rid pid d = Inr (x, d')"
  shows "keeps_books d d'"
  using run
proof (cases rule: authority_body_cases)
  case refused
  with inv show ?thesis by (simp add: keeps_books_refl)
next
  case (written b)
  note e = authority_writes_effect [OF written(4,1,2)]
  let ?r = "reservation_of a db_now rid pid"
  show ?thesis
  proof (rule keeps_books_append [where r = ?r, OF inv])
    show "row_ok ?r" using e(8) by (simp add: row_ok_def reservation_of_def)
    show "r_id ?r \<notin> r_id ` set (reservations d)" using e(9) by (simp add: reservation_of_def)
  qed (use e written in \<open>simp_all add: reservation_of_def held_def live_def res_key_def\<close>)
qed

lemma authority_reserve_books:
  "money_inv d \<Longrightarrow> keeps_books d (snd (authority_reserve fault db_now rid pid a d))"
  by (simp add: authority_reserve_def with_txn_books authority_body_books keeps_books_refl)

section \<open>One attempt: all or nothing\<close>

text \<open>What one attempt of the transaction can do: nothing, or commit the whole set of rows.\<close>

lemma authority_reserve_cases:
  assumes "authority_reserve fault db_now rid pid a d = (x, d')"
  obtains (unchanged) "d' = d" and "\<And>y. x \<noteq> Ok y"
  | (committed) b where "balances d (a_key a) = Some b" and "a_cash a \<le> available_base b"
      and "getOpenCount (a_key a) d < maxOpenReservations"
      and "authority_writes a db_now rid pid d = Inr (Ok \<lparr>ri_reservation = rid, ri_permit = pid\<rparr>, d')"
      and "\<not> duplicate_intent a d"
      and "x = Ok \<lparr>ri_reservation = rid, ri_permit = pid\<rparr> \<or> (\<exists>e. fault = CommitLost e \<and> x = catch_reserve e)"
proof (cases "d' = d \<and> (\<forall>y. x \<noteq> Ok y)")
  case True
  then show thesis by (intro unchanged) auto
next
  case False
  then obtain y where body: "authority_body a db_now rid pid d = Inr (y, d')"
    and x: "x = y \<or> (\<exists>e. fault = CommitLost e \<and> x = catch_reserve e)"
    using assms catch_reserve_refuses
    by (cases fault) (auto simp: authority_reserve_def split: if_splits sum.splits prod.splits)
  from body show thesis
  proof (cases rule: authority_body_cases)
    case refused
    with x False show thesis by (auto dest: sym simp: catch_reserve_refuses)
  next
    case (written b)
    note y = authority_writes_effect(1) [OF written(4,1,2)]
    have "\<not> duplicate_intent a d"
    proof
      assume "duplicate_intent a d"
      with body written(4) y show False by (simp add: authority_body_def)
    qed
    with written x y show thesis by (intro committed) auto
  qed
qed

lemma committed_duplicate:
  assumes "balances d (a_key a) = Some b" and "a_cash a \<le> available_base b"
    and "authority_writes a db_now rid pid d = Inr (x, d')"
  shows "duplicate_intent a d'"
  using authority_writes_effect(3) [OF assms(3,1,2)]
  by (auto simp: duplicate_intent_def reservation_of_def res_key_def)

text \<open>A duplicate is refused whatever the environment does.\<close>

lemma authority_duplicate:
  assumes "duplicate_intent a d" and "authority_reserve fault db_now rid pid a d = (x, d')"
  shows "d' = d"
  using assms(2) by (rule authority_reserve_cases) (use assms(1) in auto)

section \<open>Sample data\<close>

definition sample_intent_ref :: intent_ref where
  "sample_intent_ref = \<lparr>ir_market_id = ''m1'', ir_outcome_side = YES, ir_price_base = 500000,
     ir_size_base = 10000000, ir_order_type = Style_LIMIT, ir_expiration_sec = Fin 30,
     ir_strategy = ''s''\<rparr>"

definition sample_args :: reserve_args where
  "sample_args = \<lparr>a_account = ''acct'', a_asset = ''pUSD'', a_cash = 5000000,
     a_decision_id = ''d1'', a_intent_id = ''i1'', a_lease_epoch = Fin 1, a_now = 1000,
     a_shares = Some 10000000, a_policy_hash = Some ''ph'', a_quote_id = Some ''q1'',
     a_risk = None, a_intent_ref = Some sample_intent_ref\<rparr>"

definition funded_db :: db where
  "funded_db = empty_db\<lparr>balances := [(''acct'', ''pUSD'') \<mapsto>
     \<lparr>available_base = 100000000, committed_base = 0\<rparr>]\<rparr>"

lemma sample_intent_row: "intent_row_of iid sample_intent_ref =
  Inr \<lparr>it_id = iid, it_market_id = ''m1'', it_side = YES, it_price = 1 / 2, it_size = 10,
     it_order_type = Style_LIMIT, it_expiration_sec = 30, it_strategy = ''s''\<rparr>"
  by (simp add: intent_row_of_def sample_intent_ref_def units_def num_eval)

definition reserved_db :: "ms \<Rightarrow> uuid \<Rightarrow> uuid \<Rightarrow> db" where
  "reserved_db t rid pid = empty_db\<lparr>
     balances := [(''acct'', ''pUSD'') \<mapsto> \<lparr>available_base = 95000000, committed_base = 5000000\<rparr>],
     intents := [\<lparr>it_id = ''i1'', it_market_id = ''m1'', it_side = YES, it_price = 1 / 2, it_size = 10,
       it_order_type = Style_LIMIT, it_expiration_sec = 30, it_strategy = ''s''\<rparr>],
     decisions := [decision_of sample_args rid],
     reservations := [reservation_of sample_args t rid pid],
     permits := [permit_of sample_args (decision_of sample_args rid) rid pid],
     kernel_events := [\<lparr>ev_topic = ''RESERVATION_CREATED'', ev_aggregate_id = pid, ev_cash = 5000000\<rparr>]\<rparr>"

lemma sample_body:
  "authority_body sample_args t rid pid funded_db =
     Inr (Ok \<lparr>ri_reservation = rid, ri_permit = pid\<rparr>, reserved_db t rid pid)"
proof -
  have args: "a_key sample_args = (''acct'', ''pUSD'')" "a_cash sample_args = 5000000"
    "a_intent_ref sample_args = Some sample_intent_ref" "a_intent_id sample_args = ''i1''"
    "a_decision_id sample_args = ''d1''" "max_qty_of sample_args = 10000000"
    by (simp_all add: sample_args_def max_qty_of_def)
  have cols: "d_id (decision_of sample_args rid) = ''d1''"
    "pr_max_qty (permit_of sample_args (decision_of sample_args rid) rid pid) = 10000000"
    "pr_max_cash (permit_of sample_args (decision_of sample_args rid) rid pid) = 5000000"
    "r_id (reservation_of sample_args t rid pid) = rid"
    "r_amount (reservation_of sample_args t rid pid) = 5000000"
    "r_intent_id (reservation_of sample_args t rid pid) = ''i1''"
    by (simp_all add: decision_of_def permit_of_def reservation_of_def args Let_def)
  show ?thesis
    by (simp add: authority_body_def authority_writes_def duplicate_intent_def getOpenCount_def
        maxOpenReservations_def insert_intent_def sample_intent_row move_to_committed_def
        upd_balance_def insert_decision_def numeric_18_8_def insert_reservation_def insert_permit_def
        append_event_def reserved_db_def funded_db_def empty_db_def args cols)
qed

lemma sample_reserve:
  "authority_reserve f t rid pid sample_args funded_db = with_txn f catch_reserve
     (authority_body sample_args t rid pid) funded_db"
  by (simp add: authority_reserve_def sample_args_def num_eval)


section \<open>Properties\<close>

text \<open>C17. The money authority is atomic: whatever the connection does, one call of \<open>reserve\<close> either
  leaves the whole database as it was and does not report success, or it commits everything at once:
  the cash moves from available to committed and one reservation, one permit bound to it, one
  decision and one audit event appear. Success is reported only for a commit.\<close>

theorem reserve_all_or_nothing:
  assumes "authority_reserve fault db_now rid pid a d = (x, d')"
  shows "d' = d \<and> \<not> is_ok x \<or>
    (\<exists>b. balances d (a_key a) = Some b \<and> 0 \<le> a_cash a \<and> a_cash a \<le> available_base b \<and>
       balances d' = (balances d)(a_key a \<mapsto> b\<lparr>available_base := available_base b - a_cash a,
         committed_base := committed_base b + a_cash a\<rparr>) \<and>
       reservations d' = reservations d @ [reservation_of a db_now rid pid] \<and>
       permits d' = permits d @ [permit_of a (decision_of a rid) rid pid] \<and>
       decisions d' = decisions d @ [decision_of a rid] \<and>
       kernel_events d' = kernel_events d @
         [\<lparr>ev_topic = ''RESERVATION_CREATED'', ev_aggregate_id = pid, ev_cash = a_cash a\<rparr>] \<and>
       (x = Ok \<lparr>ri_reservation = rid, ri_permit = pid\<rparr> \<or> (\<exists>e. fault = CommitLost e)))"
  using assms
proof (cases rule: authority_reserve_cases)
  case unchanged
  then show ?thesis by (cases x) auto
next
  case (committed b)
  with authority_writes_effect [OF committed(4,1,2)] show ?thesis by auto
qed

theorem reserve_all_or_nothing_witness:
  "reservations (snd (authority_reserve NoFault 1000 ''r1'' ''p1'' sample_args funded_db))
     = [reservation_of sample_args 1000 ''r1'' ''p1'']"
proof -
  have run: "authority_reserve NoFault 1000 ''r1'' ''p1'' sample_args funded_db
      = (Ok \<lparr>ri_reservation = ''r1'', ri_permit = ''p1''\<rparr>, reserved_db 1000 ''r1'' ''p1'')"
    by (simp add: sample_reserve sample_body)
  have "reservations funded_db = []" by (simp add: funded_db_def empty_db_def)
  with reserve_all_or_nothing [OF run] run show ?thesis by auto
qed

end
