(* ===== verification/MoneyKernel.thy ===== *)
theory MoneyKernel
  imports MoneyAuthority
begin

text \<open>
  \<open>src/pm/risk/src/money-kernel.ts\<close>: \<open>validatePermit\<close>, and the kernel that checks a request against
  the hard caps, asks the money authority for the atomic reservation (with its bounded retry on a
  serialization conflict) and builds the execution permit.

  The authority and the balance store are what the kernel is given, so \<open>kernel_reserve\<close> takes the
  authority as a function of the attempt number; the locale \<open>money_authority\<close> is its contract, and
  the interpretation \<open>pg\<close> discharges it for \<open>authority_reserve\<close>. A call that throws is \<open>Inl\<close>.
\<close>

section \<open>Permit validation\<close>

text \<open>\<open>expires_at\<close> is a date or a string that is parsed as one; \<open>None\<close> is an invalid date.\<close>

definition validatePermit ::
  "ms option \<Rightarrow> string \<Rightarrow> jsnum \<Rightarrow> string \<Rightarrow> jsnum \<Rightarrow> ms \<Rightarrow> unit outcome" where
  "validatePermit expiresAt policy_hash lease_epoch expected_hash expected_epoch now =
     (if (case expiresAt of None \<Rightarrow> True | Some t \<Rightarrow> t < now) then Refused ''PERMIT_EXPIRED''
      else if policy_hash = [] \<or> policy_hash \<noteq> expected_hash then Refused ''POLICY_HASH_MISMATCH''
      else if \<not> is_integer_num lease_epoch \<or> \<not> is_integer_num expected_epoch
          \<or> \<not> num_eq lease_epoch expected_epoch then Refused ''LEASE_EPOCH_MISMATCH''
      else Ok ())"

section \<open>The kernel\<close>

text \<open>Cash for a share quantity: an exact product, then truncation.\<close>

definition cashNeededFor :: "int \<Rightarrow> int \<Rightarrow> int" where
  "cashNeededFor shares price = (shares * price) sdiv 1000000"

record kernel_opts =
  permitTtlMs :: int
  hardMaxShares :: int
  hardMaxCash :: int
  k_maxOpenReservations :: int

definition MAX_SAFE_INTEGER :: int where
  "MAX_SAFE_INTEGER = 2 ^ 53 - 1"

text \<open>The constructor: defaults for the options that are not given.\<close>

definition mk_kernel :: "int option \<Rightarrow> int option \<Rightarrow> int option \<Rightarrow> int option \<Rightarrow> kernel_opts" where
  "mk_kernel ttl shares cash open_max =
     \<lparr>permitTtlMs = (case ttl of Some t \<Rightarrow> t | None \<Rightarrow> 60000),
      hardMaxShares = (case shares of Some s \<Rightarrow> s | None \<Rightarrow> MAX_SAFE_INTEGER),
      hardMaxCash = (case cash of Some c \<Rightarrow> c | None \<Rightarrow> MAX_SAFE_INTEGER),
      k_maxOpenReservations = (case open_max of Some n \<Rightarrow> n | None \<Rightarrow> 16)\<rparr>"

record reserve_request =
  rq_decision_id :: uuid
  rq_intent_id :: uuid
  rq_account :: string
  rq_asset :: string
  rq_shares :: int
  rq_max_cash :: int
  rq_price :: int
  rq_policy_version :: string
  rq_policy_hash :: string
  rq_venue_mode :: string
  rq_lease_epoch :: jsnum
  rq_now :: ms
  rq_market_id :: "string option"
  rq_side :: "order_side option"
  rq_risk :: "risk_cols option"
  rq_intent_ref :: "intent_ref option"

abbreviation rq_key :: "reserve_request \<Rightarrow> string \<times> string" where
  "rq_key q \<equiv> (rq_account q, rq_asset q)"

definition rq_cash :: "reserve_request \<Rightarrow> int" where
  "rq_cash q = cashNeededFor (rq_shares q) (rq_price q)"

definition args_of :: "reserve_request \<Rightarrow> string \<Rightarrow> reserve_args" where
  "args_of q quote =
     \<lparr>a_account = rq_account q, a_asset = rq_asset q, a_cash = rq_cash q,
      a_decision_id = rq_decision_id q, a_intent_id = rq_intent_id q,
      a_lease_epoch = rq_lease_epoch q, a_now = rq_now q, a_shares = Some (rq_shares q),
      a_policy_hash = Some (rq_policy_hash q), a_quote_id = Some quote, a_risk = rq_risk q,
      a_intent_ref = rq_intent_ref q\<rparr>"

definition permit_for :: "kernel_opts \<Rightarrow> reserve_request \<Rightarrow> string \<Rightarrow> venue_mode \<Rightarrow> reserved_ids \<Rightarrow> execution_permit" where
  "permit_for k q quote vm ids =
     \<lparr>permit_id = ri_permit ids, p_decision_id = rq_decision_id q, p_intent_id = rq_intent_id q,
      p_ledger_version = ''0003'', p_policy_version = rq_policy_version q,
      p_policy_hash = rq_policy_hash q, p_quote_id = quote, p_lease_epoch = rq_lease_epoch q,
      p_reservation_ids = [ri_reservation ids],
      max_qty = units (rq_shares q), max_cash = units (rq_max_cash q),
      max_qty_base = Some (rq_shares q), max_cash_base = Some (rq_max_cash q),
      p_market_id = rq_market_id q, p_side = rq_side q,
      price_min_base = Some (rq_price q), price_max_base = Some (rq_price q),
      allowed_order_style = [''LIMIT'', ''POST_ONLY''], p_venue_mode = vm,
      issued_at = rq_now q, expires_at = rq_now q + permitTtlMs k, single_use = True,
      used_at = None\<rparr>"

text \<open>The bounded retry: attempt \<open>i\<close>, with \<open>n\<close> attempts left after it.\<close>

fun try_reserve ::
  "nat \<Rightarrow> nat \<Rightarrow> (nat \<Rightarrow> db \<Rightarrow> reserved_ids outcome \<times> db) \<Rightarrow> db \<Rightarrow> reserved_ids outcome \<times> db" where
  "try_reserve 0 i authority d = authority i d"
| "try_reserve (Suc n) i authority d =
     (case authority i d of (res, d') \<Rightarrow>
        if res = Refused ''SERIALIZATION_CONFLICT'' then try_reserve n (Suc i) authority d'
        else (res, d'))"

definition MAX_SERIALIZATION_RETRIES :: nat where
  "MAX_SERIALIZATION_RETRIES = 2"

text \<open>The checks of \<open>reserve\<close> before any money moves, in the order of the code.\<close>

definition kernel_guard :: "kernel_opts \<Rightarrow> reserve_request \<Rightarrow> db \<Rightarrow> string + unit outcome" where
  "kernel_guard k q d =
     (if rq_shares q \<le> 0 \<or> hardMaxShares k < rq_shares q then Inr (Refused ''CAP_SHARES'')
      else if rq_max_cash q \<le> 0 \<or> hardMaxCash k < rq_max_cash q then Inr (Refused ''CAP_CASH'')
      else if rq_price q \<le> 0 \<or> 1000000 < rq_price q then Inr (Refused ''PRICE_RANGE'')
      else if VenueModeSchema (rq_venue_mode q) = None then Inr (Refused ''VENUE_MODE'')
      else if rq_policy_hash q = [] then Inr (Refused ''POLICY_HASH'')
      else if k_maxOpenReservations k \<le> int (getOpenCount (rq_key q) d)
        then Inr (Refused ''RESERVATION_LIMIT'')
      else if permitTtlMs k \<le> 0 then Inr (Refused ''PERMIT_TTL'')
      else case balances d (rq_key q) of
        None \<Rightarrow> Inl ''BALANCE_ROW_MISSING''
      | Some b \<Rightarrow>
          if rq_max_cash q < rq_cash q then Inr (Refused ''CASH_OVER_BUDGET'')
          else if available_base b < rq_cash q then Inr (Refused ''INSUFFICIENT_FUNDS'')
          else Inr (Ok ()))"

definition kernel_reserve ::
  "(string \<Rightarrow> bool) \<Rightarrow> kernel_opts \<Rightarrow> (nat \<Rightarrow> reserve_args \<Rightarrow> db \<Rightarrow> reserved_ids outcome \<times> db) \<Rightarrow>
     string \<Rightarrow> reserve_request \<Rightarrow> db \<Rightarrow> (string + execution_permit outcome) \<times> db" where
  "kernel_reserve is_uuid k authority quote q d =
     (case kernel_guard k q d of
        Inl e \<Rightarrow> (Inl e, d)
      | Inr (Refused c) \<Rightarrow> (Inr (Refused c), d)
      | Inr (Ok _) \<Rightarrow>
          (case try_reserve MAX_SERIALIZATION_RETRIES 0 (\<lambda>i. authority i (args_of q quote)) d of
             (Refused c, d') \<Rightarrow> (Inr (Refused c), d')
           | (Ok ids, d') \<Rightarrow>
               (case VenueModeSchema (rq_venue_mode q) of
                  None \<Rightarrow> (Inr (Refused ''PERMIT_INVALID''), d')
                | Some vm \<Rightarrow>
                    let permit = permit_for k q quote vm ids
                    in if ExecutionPermitSchema is_uuid permit then (Inr (Ok permit), d')
                       else (Inr (Refused ''PERMIT_INVALID''), d'))))"

text \<open>
  \<open>release\<close> and \<open>consume\<close> of the kernel: the balance statement, then the audit event. Neither
  touches a reservation row.
\<close>

definition kernel_release :: "string \<times> string \<Rightarrow> int \<Rightarrow> db \<Rightarrow> (string + unit) \<times> db" where
  "kernel_release k cash d =
     (if cash < 0 then (Inr (), d)
      else case releaseFunds k cash d of
        (Refused c, d') \<Rightarrow> (Inl c, d')
      | (Ok _, d') \<Rightarrow> (Inr (), append_event ''RESERVATION_RELEASED'' '''' cash d'))"

definition kernel_consume :: "string \<times> string \<Rightarrow> int \<Rightarrow> db \<Rightarrow> (string + unit) \<times> db" where
  "kernel_consume k cash d =
     (if cash < 0 then (Inr (), d)
      else case consumeFunds k cash d of
        (Refused c, d') \<Rightarrow> (Inl c, d')
      | (Ok _, d') \<Rightarrow> (Inr (), append_event ''RESERVATION_CONSUMED'' '''' cash d'))"

section \<open>The contract between kernel and authority\<close>

text \<open>
  One active reservation per intent, and a permit behind every reservation: the two facts about the
  tables that the money authority keeps besides the books.
\<close>

definition active_unique :: "db \<Rightarrow> bool" where
  "active_unique d \<longleftrightarrow>
     distinct (map r_intent_id (filter (\<lambda>r. r_status r = R_ACTIVE) (reservations d)))"

definition permitted :: "db \<Rightarrow> bool" where
  "permitted d \<longleftrightarrow> (\<forall>r \<in> set (reservations d). \<exists>p \<in> set (permits d).
      pr_permit_id p = r_permit_id r \<and> r_id r \<in> set (pr_reservation_ids p) \<and>
      pr_intent_id p = r_intent_id r)"

definition sound :: "db \<Rightarrow> bool" where
  "sound d \<longleftrightarrow> money_inv d \<and> active_unique d \<and> permitted d"

locale money_authority =
  fixes authority :: "'e \<Rightarrow> reserve_args \<Rightarrow> db \<Rightarrow> reserved_ids outcome \<times> db"
  assumes keeps: "sound d \<Longrightarrow> authority e a d = (x, d') \<Longrightarrow> sound d' \<and> keeps_books d d'"
    and grants: "authority e a d = (Ok ids, d') \<Longrightarrow>
      \<exists>r \<in> set (reservations d'). r_id r = ri_reservation ids \<and> r_permit_id r = ri_permit ids \<and>
        r_status r = R_ACTIVE \<and> r_intent_id r = a_intent_id a \<and> r_amount r = a_cash a \<and>
        res_key r = a_key a"
begin

lemma try_reserve_keeps:
  "sound d \<Longrightarrow> try_reserve n i (\<lambda>j. authority (env j) a) d = (x, d') \<Longrightarrow>
     sound d' \<and> keeps_books d d'"
proof (induction n arbitrary: i d)
  case 0
  then show ?case by (simp add: keeps)
next
  case (Suc n)
  obtain y d1 where 1: "authority (env i) a d = (y, d1)" by fastforce
  with Suc.prems have k: "sound d1" "keeps_books d d1" by (auto dest: keeps)
  show ?case
  proof (cases "y = Refused ''SERIALIZATION_CONFLICT''")
    case True
    with Suc.prems 1 have "try_reserve n (Suc i) (\<lambda>j. authority (env j) a) d1 = (x, d')" by simp
    with Suc.IH [OF k(1)] k show ?thesis by (auto intro: keeps_books_trans)
  next
    case False
    with Suc.prems 1 k show ?thesis by simp
  qed
qed

lemma try_reserve_grants:
  "try_reserve n i (\<lambda>j. authority (env j) a) d = (Ok ids, d') \<Longrightarrow>
      \<exists>r \<in> set (reservations d'). r_id r = ri_reservation ids \<and> r_permit_id r = ri_permit ids \<and>
        r_status r = R_ACTIVE \<and> r_intent_id r = a_intent_id a \<and> r_amount r = a_cash a \<and>
        res_key r = a_key a"
  by (induction n arbitrary: i d) (auto dest: grants split: prod.splits if_splits)

lemma kernel_reserve_keeps:
  assumes "sound d" and "kernel_reserve is_uuid k (\<lambda>i. authority (env i)) quote q d = (x, d')"
  shows "sound d' \<and> keeps_books d d'"
proof (cases "d' = d")
  case True
  with assms(1) show ?thesis by (simp add: keeps_books_refl sound_def)
next
  case False
  with assms(2) obtain y where
    "try_reserve MAX_SERIALIZATION_RETRIES 0 (\<lambda>i. authority (env i) (args_of q quote)) d = (y, d')"
    by (auto simp: kernel_reserve_def Let_def split: sum.splits outcome.splits prod.splits
        option.splits if_splits)
  with assms(1) show ?thesis by (rule try_reserve_keeps)
qed

lemma kernel_reserve_grants:
  assumes "kernel_reserve is_uuid k (\<lambda>i. authority (env i)) quote q d = (Inr (Ok p), d')"
  shows "kernel_guard k q d = Inr (Ok ())"
    and "\<exists>vm ids. p = permit_for k q quote vm ids \<and>
      (\<exists>r \<in> set (reservations d'). r_id r = ri_reservation ids \<and> r_permit_id r = ri_permit ids \<and>
        r_status r = R_ACTIVE \<and> r_intent_id r = rq_intent_id q \<and> r_amount r = rq_cash q \<and>
        res_key r = rq_key q)"
proof -
  obtain vm ids where g: "kernel_guard k q d = Inr (Ok ())"
    and t: "try_reserve MAX_SERIALIZATION_RETRIES 0 (\<lambda>i. authority (env i) (args_of q quote)) d
        = (Ok ids, d')"
    and p: "p = permit_for k q quote vm ids"
    using assms by (auto simp: kernel_reserve_def Let_def split: sum.splits outcome.splits
        prod.splits option.splits if_splits)
  show "kernel_guard k q d = Inr (Ok ())" by (fact g)
  show "\<exists>vm ids. p = permit_for k q quote vm ids \<and>
      (\<exists>r \<in> set (reservations d'). r_id r = ri_reservation ids \<and> r_permit_id r = ri_permit ids \<and>
        r_status r = R_ACTIVE \<and> r_intent_id r = rq_intent_id q \<and> r_amount r = rq_cash q \<and>
        res_key r = rq_key q)"
    using try_reserve_grants [OF t] p unfolding args_of_def by auto
qed

end

section \<open>The PostgreSQL authority keeps the contract\<close>

text \<open>What one attempt draws from its environment: connection fault, clock and two fresh UUIDs.\<close>

record attempt =
  at_fault :: fault
  at_now :: ms
  at_reservation :: uuid
  at_permit :: uuid

definition pg_authority :: "attempt \<Rightarrow> reserve_args \<Rightarrow> db \<Rightarrow> reserved_ids outcome \<times> db" where
  "pg_authority e = authority_reserve (at_fault e) (at_now e) (at_reservation e) (at_permit e)"

lemma authority_body_sound:
  assumes s: "sound d" and run: "authority_body a db_now rid pid d = Inr (x, d')"
  shows "sound d'"
  using run
proof (cases rule: authority_body_cases)
  case refused
  with s show ?thesis by simp
next
  case (written b)
  note e = authority_writes_effect [OF written(4,1,2)]
  have "money_inv d'"
    using authority_body_books [OF _ run] s by (simp add: sound_def keeps_books_def)
  moreover have "active_unique d'"
    using s e(10) by (auto simp: sound_def active_unique_def e(3) reservation_of_def)
  moreover have "permitted d'"
    using s by (auto simp: sound_def permitted_def e(3,4) reservation_of_def permit_of_def)
  ultimately show ?thesis by (simp add: sound_def)
qed

lemma pg_authority_keeps:
  assumes "sound d" and "pg_authority e a d = (x, d')"
  shows "sound d' \<and> keeps_books d d'"
proof -
  have "keeps_books d (snd (pg_authority e a d))"
    unfolding pg_authority_def using assms(1) by (intro authority_reserve_books) (simp add: sound_def)
  moreover have "sound (snd (pg_authority e a d))"
    unfolding pg_authority_def authority_reserve_def
    using assms(1) authority_body_sound [OF assms(1)]
    by (auto intro!: with_txn_invariant [where P = sound])
  ultimately show ?thesis using assms(2) by simp
qed

lemma pg_authority_grants:
  assumes "pg_authority e a d = (Ok ids, d')"
  shows "authority_body a (at_now e) (at_reservation e) (at_permit e) d = Inr (Ok ids, d')"
    and "at_fault e = NoFault"
  using assms with_txn_ok [of "at_fault e" catch_reserve _ d ids d']
  by (auto simp: pg_authority_def authority_reserve_def catch_reserve_refuses split: if_splits)

interpretation pg: money_authority pg_authority
proof unfold_locales
  fix d e a x d'
  assume "sound d" and "pg_authority e a d = (x, d')"
  then show "sound d' \<and> keeps_books d d'" by (rule pg_authority_keeps)
next
  fix e a d ids d'
  assume g: "pg_authority e a d = (Ok ids, d')"
  from pg_authority_grants(1) [OF g] obtain b where
    w: "balances d (a_key a) = Some b" "a_cash a \<le> available_base b"
      "authority_writes a (at_now e) (at_reservation e) (at_permit e) d = Inr (Ok ids, d')"
    by (rule authority_body_cases) auto
  note eff = authority_writes_effect [OF w(3,1,2)]
  show "\<exists>r \<in> set (reservations d'). r_id r = ri_reservation ids \<and> r_permit_id r = ri_permit ids \<and>
        r_status r = R_ACTIVE \<and> r_intent_id r = a_intent_id a \<and> r_amount r = a_cash a \<and>
        res_key r = a_key a"
    using eff(1,3) by (auto simp: reservation_of_def res_key_def)
qed

section \<open>The retry\<close>

lemma try_reserve_duplicate:
  "duplicate_intent a d \<Longrightarrow> try_reserve n i (\<lambda>j. pg_authority (env j) a) d = (x, d') \<Longrightarrow> d' = d"
proof (induction n arbitrary: i)
  case 0
  then show ?case by (auto simp: pg_authority_def dest: authority_duplicate)
next
  case (Suc n)
  obtain y d1 where 1: "pg_authority (env i) a d = (y, d1)" by fastforce
  with Suc.prems(1) have "d1 = d" by (auto simp: pg_authority_def dest: authority_duplicate)
  with Suc 1 show ?case by (auto split: if_splits)
qed


lemma try_reserve_once:
  "try_reserve n i (\<lambda>j. pg_authority (env j) a) d = (x, d') \<Longrightarrow>
     d' = d \<or> duplicate_intent a d' \<and>
       (\<exists>j. reservations d' = reservations d @
          [reservation_of a (at_now (env j)) (at_reservation (env j)) (at_permit (env j))])"
proof (induction n arbitrary: i)
  case 0
  then have "pg_authority (env i) a d = (x, d')" by simp
  then show ?case unfolding pg_authority_def
    by (rule authority_reserve_cases) (auto dest: committed_duplicate authority_writes_effect(3))
next
  case (Suc n)
  obtain y d1 where 1: "pg_authority (env i) a d = (y, d1)" by fastforce
  from 1 [unfolded pg_authority_def] show ?case
  proof (cases rule: authority_reserve_cases)
    case unchanged
    with Suc 1 show ?thesis by (auto split: if_splits)
  next
    case (committed b)
    have dup: "duplicate_intent a d1" using committed(1,2,4) by (rule committed_duplicate)
    have "d' = d1"
      using Suc.prems 1 try_reserve_duplicate [OF dup, of n "Suc i" env x d']
      by (auto split: if_splits)
    with dup authority_writes_effect(3) [OF committed(4,1,2)] show ?thesis by blast
  qed
qed

section \<open>Properties\<close>

text \<open>The kernel's retry never reserves twice: however many attempts it makes and whatever
  connection faults they meet (an abort, or a commit that took effect while the client saw a
  serialization error), at most one reservation row is added, and if one was, then every further
  attempt for the intent is a no-op.\<close>

theorem retry_reserves_at_most_once:
  "let d' = snd (try_reserve n i (\<lambda>j. pg_authority (env j) a) d)
   in reservations d' = reservations d \<or>
      (\<exists>j. reservations d' = reservations d @
         [reservation_of a (at_now (env j)) (at_reservation (env j)) (at_permit (env j))]) \<and>
      (\<forall>m env'. snd (try_reserve m 0 (\<lambda>j. pg_authority (env' j) a) d') = d')"
proof -
  obtain x d' where run: "try_reserve n i (\<lambda>j. pg_authority (env j) a) d = (x, d')" by fastforce
  have again: "snd (try_reserve m 0 (\<lambda>j. pg_authority (env' j) a) d') = d'"
    if "duplicate_intent a d'" for m env'
    using try_reserve_duplicate [OF that, of m 0 env'] by (metis prod.collapse)
  from try_reserve_once [OF run] again show ?thesis by (auto simp: run)
qed

text \<open>More shares or a higher price never need less cash.\<close>

lemma cashNeededFor_mono:
  assumes "0 \<le> s" "s \<le> s'" "0 \<le> p" "p \<le> p'"
  shows "cashNeededFor s p \<le> cashNeededFor s' p'"
proof -
  have "s * p \<le> s' * p'" using assms by (intro mult_mono) auto
  moreover have "0 \<le> s * p" "0 \<le> s' * p'" using assms by simp_all
  ultimately show ?thesis by (simp add: cashNeededFor_def sdiv_nonneg zdiv_mono1)
qed

lemma kernel_guard_ok:
  assumes "kernel_guard k q d = Inr (Ok ())"
  shows "0 < rq_shares q" and "rq_shares q \<le> hardMaxShares k"
    and "0 < rq_max_cash q" and "rq_max_cash q \<le> hardMaxCash k"
    and "0 < rq_price q" and "rq_price q \<le> 1000000" and "rq_policy_hash q \<noteq> []"
    and "0 < permitTtlMs k" and "rq_cash q \<le> rq_max_cash q"
    and "\<exists>b. balances d (rq_key q) = Some b \<and> rq_cash q \<le> available_base b"
  using assms by (auto simp: kernel_guard_def split: if_splits option.splits)

lemma kernel_reserve_schema:
  "kernel_reserve is_uuid k authority quote q d = (Inr (Ok p), d') \<Longrightarrow> ExecutionPermitSchema is_uuid p"
  by (auto simp: kernel_reserve_def Let_def split: sum.splits outcome.splits prod.splits
      option.splits if_splits)

definition sample_request :: reserve_request where
  "sample_request = \<lparr>rq_decision_id = ''d1'', rq_intent_id = ''i1'', rq_account = ''acct'',
     rq_asset = ''pUSD'', rq_shares = 10000000, rq_max_cash = 6000000, rq_price = 500000,
     rq_policy_version = ''v1'', rq_policy_hash = ''ph'', rq_venue_mode = ''NORMAL'',
     rq_lease_epoch = Fin 1, rq_now = 1000, rq_market_id = Some ''m1'', rq_side = Some BUY,
     rq_risk = None, rq_intent_ref = Some sample_intent_ref\<rparr>"

definition sample_attempt :: attempt where
  "sample_attempt = \<lparr>at_fault = NoFault, at_now = 1000, at_reservation = ''r1'', at_permit = ''p1''\<rparr>"

lemma sample_grant:
  "kernel_reserve (\<lambda>_. True) (mk_kernel None None None None) (\<lambda>_. pg_authority sample_attempt)
     ''q1'' sample_request funded_db
   = (Inr (Ok (permit_for (mk_kernel None None None None) sample_request ''q1'' Venue_NORMAL
        \<lparr>ri_reservation = ''r1'', ri_permit = ''p1''\<rparr>)), reserved_db 1000 ''r1'' ''p1'')"
proof -
  have "args_of sample_request ''q1'' = sample_args"
    by (simp add: args_of_def sample_request_def sample_args_def rq_cash_def cashNeededFor_def
        signed_divide_int_def)
  then have t: "try_reserve MAX_SERIALIZATION_RETRIES 0
      (\<lambda>i. pg_authority sample_attempt (args_of sample_request ''q1'')) funded_db
      = (Ok \<lparr>ri_reservation = ''r1'', ri_permit = ''p1''\<rparr>, reserved_db 1000 ''r1'' ''p1'')"
    by (simp add: MAX_SERIALIZATION_RETRIES_def numeral_2_eq_2 pg_authority_def sample_attempt_def
        sample_reserve sample_body)
  have g: "kernel_guard (mk_kernel None None None None) sample_request funded_db = Inr (Ok ())"
    by (simp add: kernel_guard_def mk_kernel_def MAX_SAFE_INTEGER_def sample_request_def rq_cash_def
        cashNeededFor_def signed_divide_int_def funded_db_def empty_db_def getOpenCount_def
        VenueModeSchema_def all_venue_modes_def)
  have v: "VenueModeSchema (rq_venue_mode sample_request) = Some Venue_NORMAL"
    by (simp add: sample_request_def VenueModeSchema_def all_venue_modes_def)
  have "ExecutionPermitSchema (\<lambda>_. True) (permit_for (mk_kernel None None None None) sample_request
      ''q1'' Venue_NORMAL \<lparr>ri_reservation = ''r1'', ri_permit = ''p1''\<rparr>)"
    by (simp add: ExecutionPermitSchema_def permit_for_def sample_request_def z_min1_def units_def
        z_nonneg_def num_eval)
  with g t v show ?thesis by (simp add: kernel_reserve_def)
qed

lemma sample_sound: "sound funded_db"
  by (auto simp: funded_db_def empty_db_def sound_def money_inv_def keys_ok_def balance_ok_def
      held_sum_def active_unique_def permitted_def)

section \<open>Properties\<close>

text \<open>What a granted permit means. If the kernel grants a request on a sound database, the
  request was within every hard cap, its price was in (0, 1], the cash was within both the request's
  budget and the available balance, the permit is schema-valid, single use and unused, carries the
  request's policy hash and expires one permit lifetime after the request, and it is backed by an
  ACTIVE reservation of exactly that cash for exactly that intent; the books are kept.\<close>

theorem granted_permit_is_backed:
  assumes "sound d"
    and "kernel_reserve is_uuid k (\<lambda>i. pg_authority (env i)) quote q d = (Inr (Ok p), d')"
  shows "rq_shares q \<in> {1..hardMaxShares k} \<and> rq_max_cash q \<in> {1..hardMaxCash k} \<and>
    rq_price q \<in> {1..1000000} \<and> rq_cash q \<le> rq_max_cash q \<and>
    (\<exists>b. balances d (rq_key q) = Some b \<and> rq_cash q \<le> available_base b) \<and>
    ExecutionPermitSchema is_uuid p \<and> single_use p \<and> used_at p = None \<and>
    p_policy_hash p = rq_policy_hash q \<and> expires_at p = rq_now q + permitTtlMs k \<and>
    (\<exists>r \<in> set (reservations d'). r_permit_id r = permit_id p \<and> p_reservation_ids p = [r_id r] \<and>
       r_status r = R_ACTIVE \<and> r_intent_id r = p_intent_id p \<and> r_amount r = rq_cash q \<and>
       res_key r = rq_key q) \<and>
    sound d' \<and> keeps_books d d'"
proof -
  note g = pg.kernel_reserve_grants [OF assms(2)]
  note caps = kernel_guard_ok [OF g(1)]
  have keep: "sound d' \<and> keeps_books d d'" using assms by (rule pg.kernel_reserve_keeps)
  from g(2) obtain vm ids r where p: "p = permit_for k q quote vm ids"
    and r: "r \<in> set (reservations d')" "r_id r = ri_reservation ids" "r_permit_id r = ri_permit ids"
      "r_status r = R_ACTIVE" "r_intent_id r = rq_intent_id q" "r_amount r = rq_cash q"
      "res_key r = rq_key q" by blast
  have "\<exists>r \<in> set (reservations d'). r_permit_id r = permit_id p \<and> p_reservation_ids p = [r_id r] \<and>
       r_status r = R_ACTIVE \<and> r_intent_id r = p_intent_id p \<and> r_amount r = rq_cash q \<and>
       res_key r = rq_key q"
    using r by (intro bexI [of _ r]) (simp_all add: p permit_for_def)
  with caps keep kernel_reserve_schema [OF assms(2)] show ?thesis by (simp add: p permit_for_def)
qed

theorem granted_permit_is_backed_witness:
  "\<exists>r \<in> set (reservations (reserved_db 1000 ''r1'' ''p1'')).
     r_permit_id r = ''p1'' \<and> r_amount r = rq_cash sample_request"
proof -
  have "sound funded_db" by (rule sample_sound)
  from granted_permit_is_backed [OF this, of "\<lambda>_. True" "mk_kernel None None None None"
      "\<lambda>_. sample_attempt", OF sample_grant]
  show ?thesis by (auto simp: permit_for_def)
qed

text \<open>A permit never authorises more than was reserved: any order inside the permit's integer
  bounds (at most its shares, at most its price) needs at most the cash the reservation holds, with
  the kernel's own truncating arithmetic.\<close>

theorem permit_bounds_are_reserved:
  assumes "sound d"
    and "kernel_reserve is_uuid k (\<lambda>i. pg_authority (env i)) quote q d = (Inr (Ok p), d')"
    and "max_qty_base p = Some qty" and "price_max_base p = Some price_max"
    and "0 \<le> shares" and "shares \<le> qty" and "0 \<le> price" and "price \<le> price_max"
  shows "\<exists>r \<in> set (reservations d'). r_id r \<in> set (p_reservation_ids p) \<and>
    cashNeededFor shares price \<le> held r"
proof -
  from pg.kernel_reserve_grants(2) [OF assms(2)] obtain vm ids r
    where p: "p = permit_for k q quote vm ids"
    and r: "r \<in> set (reservations d')" "r_id r = ri_reservation ids" "r_amount r = rq_cash q"
      "r_status r = R_ACTIVE" by blast
  have "cashNeededFor shares price \<le> rq_cash q"
    using assms(3-8) by (simp add: rq_cash_def p permit_for_def cashNeededFor_mono)
  moreover have "sound d'" using pg.kernel_reserve_keeps [OF assms(1,2)] by simp
  then have "row_ok r" using r(1) by (simp add: sound_def money_inv_def)
  then have "held r = r_amount r" using r(4) by (simp add: row_ok_def held_def live_def)
  ultimately show ?thesis using r p by (intro bexI [of _ r]) (simp_all add: permit_for_def)
qed

theorem permit_bounds_are_reserved_witness:
  "\<exists>r \<in> set (reservations (reserved_db 1000 ''r1'' ''p1'')). cashNeededFor 9999999 499999 \<le> held r"
proof -
  have "sound funded_db" by (rule sample_sound)
  from permit_bounds_are_reserved [OF this, of "\<lambda>_. True" "mk_kernel None None None None"
      "\<lambda>_. sample_attempt", OF sample_grant, of 10000000 500000 9999999 499999]
  show ?thesis by (auto simp: permit_for_def sample_request_def)
qed

text \<open>\<open>validatePermit\<close> accepts exactly a permit that is not past a valid expiry date, whose
  policy hash is present and equal to the current one, and whose lease epoch is the expected integer;
  so a permit the kernel granted stays valid until its expiry under the same policy and lease, and
  not a millisecond longer.\<close>

theorem validatePermit_iff:
  "validatePermit expiry hash epoch expected_hash expected_epoch now = Ok () \<longleftrightarrow>
     (\<exists>t. expiry = Some t \<and> now \<le> t) \<and> hash \<noteq> [] \<and> hash = expected_hash \<and>
     (\<exists>n :: int. epoch = Fin (of_int n) \<and> expected_epoch = Fin (of_int n))"
proof -
  have "is_integer_num epoch \<and> is_integer_num expected_epoch \<and> num_eq epoch expected_epoch \<longleftrightarrow>
      (\<exists>n :: int. epoch = Fin (of_int n) \<and> expected_epoch = Fin (of_int n))"
    by (cases epoch; cases expected_epoch) (auto simp: rat_is_int_def intro: sym)
  then show ?thesis
    by (auto simp: validatePermit_def split: option.splits)
qed

end
