(* ===== verification/MoneySystem.thy ===== *)
theory MoneySystem
  imports MoneyKernel
begin

text \<open>
  The money path as a transition system: the kernel's reservation, and the reservation manager's
  consume, release and expiry sweep, interleaved in any order, with any connection faults, from a
  database in which nothing is reserved yet. The last section is about the two ways into the tables
  that are not steps of it, because they do not keep the books: \<open>createFromPermit\<close>, which inserts a
  reservation without moving money, and the kernel's \<open>release\<close>, which moves money without touching
  the reservation.
\<close>

section \<open>The other tables under the manager's operations\<close>

text \<open>What a manager operation may do to the reservations: rewrite rows, never back to ACTIVE.\<close>

definition row_advance :: "reservation_row \<Rightarrow> reservation_row \<Rightarrow> bool" where
  "row_advance r r' \<longleftrightarrow> r_id r' = r_id r \<and> r_intent_id r' = r_intent_id r \<and>
     r_permit_id r' = r_permit_id r \<and> (r_status r' = R_ACTIVE \<longrightarrow> r_status r = R_ACTIVE)"

definition rows_advance :: "db \<Rightarrow> db \<Rightarrow> bool" where
  "rows_advance d d' \<longleftrightarrow> permits d' = permits d \<and>
     list_all2 row_advance (reservations d) (reservations d')"

lemma row_advance_refl [simp]: "row_advance r r"
  by (simp add: row_advance_def)

lemma row_advance_trans: "row_advance r s \<Longrightarrow> row_advance s t \<Longrightarrow> row_advance r t"
  by (simp add: row_advance_def)

lemma rows_advance_refl: "rows_advance d d"
  by (simp add: rows_advance_def list_all2_refl)

lemma rows_advance_trans:
  assumes "rows_advance d e" and "rows_advance e f"
  shows "rows_advance d f"
  unfolding rows_advance_def
proof
  show "permits f = permits d" using assms by (simp add: rows_advance_def)
  show "list_all2 row_advance (reservations d) (reservations f)"
    using row_advance_trans assms [unfolded rows_advance_def, THEN conjunct2] by (rule list_all2_trans)
qed

lemma list_all2_upd_row:
  assumes "\<And>r. P r r" and "\<And>r. r \<in> set t \<Longrightarrow> key r = k \<Longrightarrow> P r (f r)"
  shows "list_all2 P t (upd_row key k f t)"
  using assms(2) by (induction t) (auto simp: assms(1))

lemma consume_body_advance:
  "consume_body an dn rid filled d = Inr (x, d') \<Longrightarrow> rows_advance d d'"
  by (auto simp: consume_body_def upd_reservation_def Let_def rows_advance_def row_advance_def list_all2_refl
      intro!: list_all2_upd_row split: option.splits if_splits sum.splits)

lemma release_body_advance:
  "release_body dn rid reason d = Inr (x, d') \<Longrightarrow> rows_advance d d'"
  by (auto simp: release_body_def upd_reservation_def Let_def rows_advance_def row_advance_def list_all2_refl
      intro!: list_all2_upd_row split: option.splits if_splits sum.splits)

lemma consume_advance: "rows_advance d (snd (consume pl fault an dn rid filled d))"
  unfolding consume_def
  by (auto intro!: with_txn_invariant [where P = "rows_advance d"] rows_advance_refl
      elim: consume_body_advance)

lemma release_advance: "rows_advance d (snd (release pl fault dn rid reason d))"
  unfolding release_def
  by (auto intro!: with_txn_invariant [where P = "rows_advance d"] rows_advance_refl
      elim: release_body_advance)

lemma expire_each_advance: "rows_advance d (snd (expire_each faults dn rids d))"
proof (induction rids arbitrary: d)
  case Nil
  then show ?case by (simp add: rows_advance_refl)
next
  case (Cons rid rids)
  show ?case
    using rows_advance_trans [OF release_advance Cons.IH]
    by (simp add: Let_def case_prod_beta expire_def)
qed

lemma expireOverdue_advance: "rows_advance d (snd (expireOverdue pl faults now dn d))"
  by (simp add: expireOverdue_def expire_each_advance rows_advance_refl)

lemma active_ids_advance:
  "list_all2 row_advance t t' \<Longrightarrow>
     set (map r_intent_id (filter (\<lambda>r. r_status r = R_ACTIVE) t'))
       \<subseteq> set (map r_intent_id (filter (\<lambda>r. r_status r = R_ACTIVE) t))"
  by (induction rule: list_all2_induct) (auto simp: row_advance_def)

lemma active_distinct_advance:
  "list_all2 row_advance t t' \<Longrightarrow>
     distinct (map r_intent_id (filter (\<lambda>r. r_status r = R_ACTIVE) t)) \<Longrightarrow>
     distinct (map r_intent_id (filter (\<lambda>r. r_status r = R_ACTIVE) t'))"
proof (induction rule: list_all2_induct)
  case Nil
  then show ?case by simp
next
  case (Cons x xs y ys)
  then show ?case
    using active_ids_advance [OF Cons.hyps(2)] by (auto simp: row_advance_def split: if_splits)
qed

lemma advance_active_unique: "rows_advance d d' \<Longrightarrow> active_unique d \<Longrightarrow> active_unique d'"
  unfolding rows_advance_def active_unique_def using active_distinct_advance by blast

lemma list_all2_origin:
  "list_all2 P t t' \<Longrightarrow> y \<in> set t' \<Longrightarrow> \<exists>x \<in> set t. P x y"
  by (induction rule: list_all2_induct) auto

lemma advance_permitted:
  assumes "rows_advance d d'" and "permitted d"
  shows "permitted d'"
  unfolding permitted_def
proof
  fix r' assume "r' \<in> set (reservations d')"
  with assms(1) obtain r where "r \<in> set (reservations d)" "row_advance r r'"
    by (auto simp: rows_advance_def dest: list_all2_origin)
  with assms show "\<exists>p \<in> set (permits d'). pr_permit_id p = r_permit_id r' \<and>
      r_id r' \<in> set (pr_reservation_ids p) \<and> pr_intent_id p = r_intent_id r'"
    by (auto simp: permitted_def rows_advance_def row_advance_def)
qed

lemma advance_sound: "sound d \<Longrightarrow> keeps_books d d' \<Longrightarrow> rows_advance d d' \<Longrightarrow> sound d'"
  by (simp add: sound_def keeps_books_def advance_active_unique advance_permitted)

section \<open>The transition system\<close>

inductive money_step :: "(string \<Rightarrow> bool) \<Rightarrow> kernel_opts \<Rightarrow> db \<Rightarrow> db \<Rightarrow> bool"
  for is_uuid :: "string \<Rightarrow> bool" and k :: kernel_opts where
  reserve: "kernel_reserve is_uuid k (\<lambda>i. pg_authority (env i)) quote q d = (res, d') \<Longrightarrow>
      money_step is_uuid k d d'"
| consume: "consume pl fault app_now db_now rid filled d = (res, d') \<Longrightarrow> money_step is_uuid k d d'"
| release: "release pl fault db_now rid reason d = (res, d') \<Longrightarrow> money_step is_uuid k d d'"
| sweep: "expireOverdue pl faults now db_now d = (n, d') \<Longrightarrow> money_step is_uuid k d d'"

inductive_cases money_stepE: "money_step is_uuid k d d'"

inductive reachable :: "(string \<Rightarrow> bool) \<Rightarrow> kernel_opts \<Rightarrow> db \<Rightarrow> db \<Rightarrow> bool"
  for is_uuid :: "string \<Rightarrow> bool" and k :: kernel_opts and d0 :: db where
  start: "reachable is_uuid k d0 d0"
| step: "reachable is_uuid k d0 d \<Longrightarrow> money_step is_uuid k d d' \<Longrightarrow> reachable is_uuid k d0 d'"

text \<open>A database into which deposits have been credited and nothing has been reserved.\<close>

definition fresh_db :: "db \<Rightarrow> bool" where
  "fresh_db d \<longleftrightarrow> reservations d = [] \<and>
     (\<forall>k. case balances d k of None \<Rightarrow> True | Some b \<Rightarrow> 0 \<le> available_base b \<and> committed_base b = 0)"

lemma fresh_db_sound: "fresh_db d \<Longrightarrow> sound d"
  by (auto simp: fresh_db_def sound_def money_inv_def keys_ok_def balance_ok_def held_sum_def
      active_unique_def permitted_def split: option.splits)

lemma sound_books: "sound d \<Longrightarrow> money_inv d"
  by (simp add: sound_def)

lemma money_step_keeps:
  assumes "money_step is_uuid k d d'" and s: "sound d"
  shows "sound d' \<and> keeps_books d d'"
  using assms(1)
proof cases
  case reserve
  from s this show ?thesis by (rule pg.kernel_reserve_keeps)
next
  case (consume pl fault app_now db_now rid filled res)
  then have "d' = snd (Reservations.consume pl fault app_now db_now rid filled d)" by simp
  with s show ?thesis
    using advance_sound consume_advance consume_books sound_books by blast
next
  case (release pl fault db_now rid reason res)
  then have "d' = snd (Reservations.release pl fault db_now rid reason d)" by simp
  with s show ?thesis
    using advance_sound release_advance release_books sound_books by blast
next
  case (sweep pl faults now db_now n)
  then have "d' = snd (expireOverdue pl faults now db_now d)" by simp
  with s show ?thesis
    using advance_sound expireOverdue_advance expireOverdue_books sound_books by blast
qed

lemma reachable_keeps:
  "reachable is_uuid k d0 d \<Longrightarrow> sound d0 \<Longrightarrow> sound d \<and> keeps_books d0 d"
proof (induction rule: reachable.induct)
  case start
  then show ?case by (simp add: keeps_books_refl sound_books)
next
  case (step d d')
  then show ?case using money_step_keeps keeps_books_trans by blast
qed

section \<open>Writes outside the books\<close>

text \<open>
  \<open>ReservationManager.createFromPermit\<close>: the INSERT of an ACTIVE reservation, with no balance
  statement. Without a pool it only returns a fresh id.
\<close>

definition createFromPermit ::
  "bool \<Rightarrow> fault \<Rightarrow> ms \<Rightarrow> uuid \<Rightarrow> uuid \<Rightarrow> uuid \<Rightarrow> uuid \<Rightarrow> string \<Rightarrow> string \<Rightarrow> int \<Rightarrow> ms \<Rightarrow> string option \<Rightarrow>
     db \<Rightarrow> uuid outcome \<times> db" where
  "createFromPermit has_pool fault db_now rid pid iid did account asset amount expires currency d =
     (let row = \<lparr>r_id = rid, r_decision_id = did, r_intent_id = iid, r_account = account,
            r_asset = asset, r_amount = amount, r_consumed = 0, r_released = 0,
            r_currency = (case currency of Some c \<Rightarrow> c | None \<Rightarrow> ''pUSD''), r_status = R_ACTIVE,
            r_created_at = db_now, r_expires_at = expires, r_consumed_at = None,
            r_released_at = None, r_expired_at = None, r_permit_id = pid\<rparr>
      in if \<not> has_pool then (Ok rid, d)
         else with_txn fault (\<lambda>_. Refused ''RESERVATION_CREATE_FAILED'')
           (\<lambda>d. if row_of r_id rid (reservations d) \<noteq> None then Inr (Ok rid, d)
                else case insert_reservation row d of Inl e \<Rightarrow> Inl e | Inr d' \<Rightarrow> Inr (Ok rid, d')) d)"

lemma createFromPermit_row:
  assumes "row_of r_id rid (reservations d) = None"
    and "createFromPermit True NoFault db_now rid pid iid did account asset amount expires currency d
      = (Ok x, d')"
  shows "balances d' = balances d \<and> (\<exists>r. reservations d' = reservations d @ [r] \<and>
    res_key r = (account, asset) \<and> held r = amount)"
  using assms by (auto simp: createFromPermit_def insert_reservation_def Let_def res_key_def held_def
      live_def split: if_splits)

text \<open>A balance that moves while its reservations stand, or the converse, contradicts the invariant.\<close>

lemma committed_is_held:
  "money_inv d \<Longrightarrow> balances d k = Some b \<Longrightarrow> committed_base b = held_sum k d"
  using money_inv_balance [of d k] by (simp add: balance_ok_def)

lemma keeps_books_funds: "keeps_books d d' \<Longrightarrow> funds k d' = funds k d"
  unfolding keeps_books_def by blast

lemma createFromPermit_unbalances:
  assumes inv: "money_inv d" and "0 < amount" and "row_of r_id rid (reservations d) = None"
    and "createFromPermit True NoFault db_now rid pid iid did account asset amount expires currency d
      = (Ok x, d')"
  shows "\<not> money_inv d'"
proof
  assume inv': "money_inv d'"
  obtain r where b: "balances d' = balances d" and r: "reservations d' = reservations d @ [r]"
    "res_key r = (account, asset)" "held r = amount"
    using createFromPermit_row [OF assms(3,4)] by blast
  have h: "held_sum (account, asset) d' = held_sum (account, asset) d + amount"
    by (simp add: held_sum_def r)
  show False
  proof (cases "balances d (account, asset)")
    case None
    then show False
      using money_inv_balance [OF inv', of "(account, asset)"] r by (simp add: balance_ok_def b)
  next
    case (Some x)
    then show False
      using committed_is_held [OF inv Some] committed_is_held [OF inv', of "(account, asset)"] h assms(2)
      by (simp add: b)
  qed
qed

section \<open>Properties\<close>

text \<open>C3. The money path as a whole: in every database reachable from one with nothing reserved,
  by kernel reservations, consumes, releases and expiry sweeps in any order and under any connection
  faults, the accounting invariant holds, no intent has two active reservations, every reservation
  is covered by a permit, and each account's free, reserved and spent money add up to what it
  started with.\<close>

theorem reachable_sound:
  assumes "reachable is_uuid k d0 d" and "fresh_db d0"
  shows "sound d \<and> funds acct d = funds acct d0"
  using reachable_keeps [OF assms(1) fresh_db_sound [OF assms(2)]] keeps_books_funds by blast

theorem reachable_sound_witness:
  "funds (''acct'', ''pUSD'') (reserved_db 1000 ''r1'' ''p1'') = 100000000"
proof -
  have f: "fresh_db funded_db" by (auto simp: fresh_db_def funded_db_def empty_db_def)
  have "reachable (\<lambda>_. True) (mk_kernel None None None None) funded_db (reserved_db 1000 ''r1'' ''p1'')"
    using sample_grant by (intro reachable.step [OF reachable.start] money_step.reserve)
  from reachable_sound [OF this f, of "(''acct'', ''pUSD'')"] show ?thesis
    by (simp add: funds_def funded_db_def empty_db_def consumed_sum_def)
qed

text \<open>C4. No account ever overspends: in every reachable database what the account's open reservations still hold and what its
  reservations have consumed, together, never exceed the money that was credited to it at the start, each is non-negative, and
  what is left of that money is exactly the available balance; so nothing is reserved twice, lost or made up.\<close>

theorem never_overspends:
  assumes "reachable is_uuid k d0 d" and "fresh_db d0" and "balances d0 acct = Some b0" and "balances d acct = Some b"
  shows "0 \<le> held_sum acct d \<and> 0 \<le> consumed_sum acct d \<and> 0 \<le> available_base b \<and>
    held_sum acct d + consumed_sum acct d \<le> available_base b0 \<and>
    available_base b = available_base b0 - (held_sum acct d + consumed_sum acct d)"
proof -
  have s: "money_inv d" "funds acct d = funds acct d0"
    using reachable_keeps [OF assms(1) fresh_db_sound [OF assms(2)]] keeps_books_funds sound_books
    by blast+
  have rows: "\<forall>r \<in> set (reservations d). row_ok r" using s(1) by (simp add: money_inv_def)
  have "0 \<le> held_sum acct d"
    unfolding held_sum_def using rows by (intro sum_list_nonneg_int) (simp add: held_nonneg)
  moreover have "0 \<le> consumed_sum acct d"
    unfolding consumed_sum_def using rows by (intro sum_list_nonneg_int) (simp add: row_ok_def)
  moreover have "0 \<le> available_base b" "committed_base b = held_sum acct d"
    using money_inv_balance [OF s(1), of acct] assms(4) by (simp_all add: balance_ok_def)
  moreover have "funds acct d0 = available_base b0"
    using assms(2) [unfolded fresh_db_def, THEN conjunct2, rule_format, of acct] assms(2,3)
    by (simp add: funds_def fresh_db_def consumed_sum_def)
  ultimately show ?thesis using s(2) assms(4) by (simp add: funds_def)
qed

theorem never_overspends_witness:
  "0 < held_sum (''acct'', ''pUSD'') (reserved_db 1000 ''r1'' ''p1'') \<and>
   held_sum (''acct'', ''pUSD'') (reserved_db 1000 ''r1'' ''p1'') + consumed_sum (''acct'', ''pUSD'') (reserved_db 1000 ''r1'' ''p1'') \<le> 100000000"
proof -
  have f: "fresh_db funded_db" by (auto simp: fresh_db_def funded_db_def empty_db_def)
  have run: "reachable (\<lambda>_. True) (mk_kernel None None None None) funded_db (reserved_db 1000 ''r1'' ''p1'')"
    using sample_grant by (intro reachable.step [OF reachable.start] money_step.reserve)
  have b: "balances funded_db (''acct'', ''pUSD'') = Some \<lparr>available_base = 100000000, committed_base = 0\<rparr>"
    by (simp add: funded_db_def empty_db_def)
  obtain b' where "balances (reserved_db 1000 ''r1'' ''p1'') (''acct'', ''pUSD'') = Some b'"
    by (simp add: reserved_db_def)
  from never_overspends [OF run f b this] show ?thesis
    by (simp add: held_sum_def held_def live_def reserved_db_def reservation_of_def sample_args_def res_key_def)
qed

text \<open>The two writes outside the books break them: on a database that balances, a kernel
  \<open>release\<close> of a positive amount that succeeds leaves a committed balance below what the
  reservations hold, and so does a kernel \<open>consume\<close>.\<close>

theorem kernel_release_unbalances:
  assumes "money_inv d" and "0 < cash"
    and "kernel_release acct cash d = (Inr (), d') \<or> kernel_consume acct cash d = (Inr (), d')"
  shows "\<exists>b. balances d' acct = Some b \<and> committed_base b = held_sum acct d' - cash \<and> \<not> money_inv d'"
proof -
  obtain b where b: "balances d acct = Some b"
    and d': "\<exists>b'. balances d' acct = Some b' \<and> committed_base b' = committed_base b - cash"
    and same: "reservations d' = reservations d"
    using assms(2,3)
    by (auto simp: kernel_release_def kernel_consume_def releaseFunds_def consumeFunds_def Let_def
        balance_hit_def append_event_def upd_balance_def split: if_splits option.splits)
  have h: "held_sum acct d' = held_sum acct d" by (simp add: held_sum_def same)
  with committed_is_held [OF assms(1) b] d' have
    c: "\<exists>b'. balances d' acct = Some b' \<and> committed_base b' = held_sum acct d' - cash" by auto
  have "\<not> money_inv d'"
  proof
    assume "money_inv d'"
    with c assms(2) show False using committed_is_held [of d' acct] by auto
  qed
  with c show ?thesis by blast
qed


theorem kernel_release_unbalances_witness:
  "\<not> money_inv (snd (kernel_release (''acct'', ''pUSD'') 1000000 sample_db))"
proof -
  let ?d = "snd (kernel_release (''acct'', ''pUSD'') 1000000 sample_db)"
  have "kernel_release (''acct'', ''pUSD'') 1000000 sample_db = (Inr (), ?d)"
    by (simp add: kernel_release_def releaseFunds_def balance_hit_def sample_db_def empty_db_def)
  with kernel_release_unbalances [OF sample_inv, of 1000000 "(''acct'', ''pUSD'')" ?d]
  show ?thesis by auto
qed

end
