(* ===== verification/VenuePolicy.thy ===== *)
theory VenuePolicy
  imports MoneyAuthority
begin

text \<open>
  \<open>src/pm/venue/src/policy.ts\<close> and \<open>capability.ts\<close>: the venue-mode gate, the intersection of gates
  that admits an action, the error taxonomy, the client-side rate governor, the in-memory ledger of
  in-flight orders and the capability gate for live routing. All of it is pure; the governor and the
  ledger carry explicit state, and the clock they read is an argument.

  The venue's error codes are ASCII, so the case-insensitive regular expressions of the source are
  substring tests on lower-case text (\<open>mentions\<close>). Clock readings and delays are whole milliseconds.
\<close>

section \<open>The venue-mode gate\<close>

datatype venue_action = ORDER_SUBMIT | ORDER_CANCEL | READ

fun MODE_MATRIX :: "venue_mode \<Rightarrow> venue_action \<Rightarrow> bool" where
  "MODE_MATRIX Venue_NORMAL _ = True"
| "MODE_MATRIX Venue_POST_ONLY _ = True"
| "MODE_MATRIX Venue_CANCEL_ONLY a = (a \<noteq> ORDER_SUBMIT)"
| "MODE_MATRIX Venue_READ_ONLY a = (a = READ)"
| "MODE_MATRIX Venue_UNAVAILABLE a = (a = READ)"
| "MODE_MATRIX Venue_UNKNOWN _ = False"

definition venueActionGate :: "venue_mode \<Rightarrow> venue_action \<Rightarrow> unit outcome" where
  [gate_defs]: "venueActionGate mode a = (if MODE_MATRIX mode a then Ok () else Refused ''MODE_FORBIDS'')"

section \<open>Capability intersection\<close>

datatype required_style = Req_LIMIT | Req_POST_ONLY | Req_FOK | Req_IOC | Req_REDUCE_ONLY

record venue_capability =
  supports_reduce_only :: bool

record intersection_input =
  ii_venueMode :: venue_mode
  ii_accountMode :: account_mode
  ii_capability :: "venue_capability option"
  mandateAllows :: bool
  fresh :: bool
  riskOpen :: bool
  requiredStyle :: "required_style option"

definition has_reduce_only :: "venue_capability option \<Rightarrow> bool" where
  "has_reduce_only c = (case c of None \<Rightarrow> False | Some v \<Rightarrow> supports_reduce_only v)"

text \<open>Each early return of the source is one branch, in its order.\<close>

definition capabilityIntersection :: "venue_action \<Rightarrow> intersection_input \<Rightarrow> unit outcome" where
  [gate_defs]: "capabilityIntersection a i =
     (if \<not> is_ok (venueActionGate (ii_venueMode i) a) then Refused ''VENUE_MODE''
      else if \<not> is_ok (venueActionGate (ii_venueMode i) READ) then Refused ''VENUE_MODE''
      else if ii_accountMode i = Account_ACCESS_BLOCKED \<or> ii_accountMode i = Account_SUSPENDED
        then Refused ''ACCOUNT_BLOCKED''
      else if a = ORDER_SUBMIT \<and> ii_accountMode i = Account_CLOSE_ONLY then
        (if requiredStyle i \<noteq> Some Req_REDUCE_ONLY then Refused ''ACCOUNT_CLOSE_ONLY'' else Ok ())
      else if a = ORDER_SUBMIT \<and> requiredStyle i = Some Req_REDUCE_ONLY
          \<and> \<not> has_reduce_only (ii_capability i) then Refused ''NO_REDUCE_ONLY_CAP''
      else if a = ORDER_CANCEL then Ok ()
      else if \<not> mandateAllows i then Refused ''MANDATE_BLOCK''
      else if \<not> fresh i then Refused ''STALE_DATA''
      else if \<not> riskOpen i then Refused ''RISK_CLOSED''
      else Ok ())"

section \<open>Error taxonomy\<close>

datatype venue_error_kind = RETRYABLE | RECONCILE_REQUIRED | POLICY_BLOCK | VENUE_MODE
  | PERMANENT_REJECT | AUTH_FAILURE | BALANCE_FAILURE | STALE_DATA | UNKNOWN_ERROR

record raw_venue_error =
  raw_status :: "int option"
  raw_code :: "string option"
  serverBusyHeaders :: bool
  queuedDelayMs :: "int option"

record normalized_error =
  ne_kind :: venue_error_kind
  actionable :: bool
  retryable :: bool
  reconcileFirst :: bool

definition mentions :: "string list \<Rightarrow> string \<Rightarrow> bool" where
  "mentions words code = list_ex (\<lambda>w. occurs_in (map lower w) (map lower code)) words"

definition normalizeVenueError ::
  "raw_venue_error \<Rightarrow> bool \<Rightarrow> order_style option \<Rightarrow> normalized_error" where
  "normalizeVenueError err arrivedPendingStore orderType =
     (let status = raw_status err;
          code = (case raw_code err of None \<Rightarrow> '''' | Some c \<Rightarrow> c);
          verdict = (\<lambda>k a r f. \<lparr>ne_kind = k, actionable = a, retryable = r, reconcileFirst = f\<rparr>)
      in if arrivedPendingStore then verdict RECONCILE_REQUIRED True False True
         else if (orderType = Some Style_FOK \<or> orderType = Some Style_IOC) \<and>
             mentions [''NO_MATCH'', ''NO_FILL'', ''FOK_NOT_FILLED'', ''NOT_FILLED'', ''EXPIRED'',
               ''EXPIRED_BOOK''] code
           then verdict PERMANENT_REJECT False False False
         else if status = Some 401 \<or> status = Some 403 \<or>
             mentions [''AUTH'', ''UNAUTHORIZED'', ''FORBIDDEN'', ''INVALID_KEY''] code
           then verdict AUTH_FAILURE True False True
         else if mentions [''INSUFFICIENT'', ''BALANCE'', ''FUNDS'', ''NEGATIVE_AVAILABLE''] code
           then verdict BALANCE_FAILURE True False True
         else if mentions [''POLICY'', ''MANDATE'', ''RISK'', ''RESTRICTED'', ''INVALID_STATE'',
             ''READ_ONLY'', ''CANCEL_ONLY''] code
           then verdict POLICY_BLOCK True False False
         else if mentions [''STALE'', ''EXPIRED_DATA'', ''PRICE_EXPIRED'', ''BOOK_EXPIRED'',
             ''TIMEOUT_UNSUBSCRIBE''] code
           then verdict STALE_DATA True True False
         else if status = Some 429 \<or> serverBusyHeaders err \<or>
             (case queuedDelayMs err of None \<Rightarrow> False | Some q \<Rightarrow> 0 < q)
           then verdict RETRYABLE True True False
         else if (case status of None \<Rightarrow> False | Some st \<Rightarrow> 500 \<le> st)
           then verdict RECONCILE_REQUIRED True False True
         else if status = Some 400 \<or> status = Some 422 \<or> mentions [''INVALID'', ''REJECT''] code
           then verdict PERMANENT_REJECT False False False
         else verdict UNKNOWN_ERROR True False True)"

section \<open>The rate governor\<close>

datatype rate_class = Rate_submit | Rate_cancel | Rate_read | Rate_heartbeat

record rate_bucket =
  rb_limit :: nat
  rb_windowMs :: int

fun DEFAULT_CLASSES :: "rate_class \<Rightarrow> rate_bucket" where
  "DEFAULT_CLASSES Rate_submit = \<lparr>rb_limit = 20, rb_windowMs = 60000\<rparr>"
| "DEFAULT_CLASSES Rate_cancel = \<lparr>rb_limit = 40, rb_windowMs = 60000\<rparr>"
| "DEFAULT_CLASSES Rate_read = \<lparr>rb_limit = 120, rb_windowMs = 60000\<rparr>"
| "DEFAULT_CLASSES Rate_heartbeat = \<lparr>rb_limit = 120, rb_windowMs = 60000\<rparr>"

record governor =
  gv_classes :: "rate_class \<Rightarrow> rate_bucket"
  gv_stamps :: "rate_class \<Rightarrow> int list"
  gv_serverDelay :: "rate_class \<Rightarrow> int option"

definition new_governor :: "(rate_class \<Rightarrow> rate_bucket option) \<Rightarrow> governor" where
  "new_governor classes = \<lparr>gv_classes = (\<lambda>c. case classes c of Some b \<Rightarrow> b | None \<Rightarrow> DEFAULT_CLASSES c),
     gv_stamps = (\<lambda>_. []), gv_serverDelay = (\<lambda>_. None)\<rparr>"

definition ingestServerHint :: "rate_class \<Rightarrow> int \<Rightarrow> governor \<Rightarrow> governor" where
  "ingestServerHint kind delay g = g\<lparr>gv_serverDelay := (gv_serverDelay g)(kind \<mapsto> delay)\<rparr>"

definition prune :: "rate_class \<Rightarrow> int \<Rightarrow> governor \<Rightarrow> governor" where
  "prune kind now g = g\<lparr>gv_stamps := (gv_stamps g)(kind :=
     dropWhile (\<lambda>x. rb_windowMs (gv_classes g kind) < now - x) (gv_stamps g kind))\<rparr>"

record rate_answer =
  ra_code :: string
  ra_afterMs :: int

definition rate_ok :: "rate_answer \<Rightarrow> bool" where
  "rate_ok a \<longleftrightarrow> ra_code a = ''OK''"

definition governor_acquire ::
  "rate_class \<Rightarrow> int option \<Rightarrow> int option \<Rightarrow> int \<Rightarrow> governor \<Rightarrow> rate_answer \<times> governor" where
  "governor_acquire kind deadline queued now g0 =
     (let g = prune kind now g0; cfg = gv_classes g kind; stamps = gv_stamps g kind
      in if rb_limit cfg \<le> length stamps
         then (\<lparr>ra_code = ''RATE_EXCEEDED'', ra_afterMs = rb_windowMs cfg -
                 (now - (case stamps of [] \<Rightarrow> now | x # _ \<Rightarrow> x))\<rparr>, g)
         else
           let g1 = (case queued of None \<Rightarrow> g | Some q \<Rightarrow> if q \<noteq> 0 then ingestServerHint kind q g else g);
               delay = max (case gv_serverDelay g1 kind of Some x \<Rightarrow> x | None \<Rightarrow> 0)
                           (case queued of Some x \<Rightarrow> x | None \<Rightarrow> 0);
               late = (case deadline of None \<Rightarrow> None | Some t \<Rightarrow> if t < now + delay then Some t else None)
           in (case late of
                 Some t \<Rightarrow> (\<lparr>ra_code = ''INTENT_EXPIRED'', ra_afterMs = t - now\<rparr>, g1)
               | None \<Rightarrow> (\<lparr>ra_code = ''OK'', ra_afterMs = 0\<rparr>,
                          g1\<lparr>gv_stamps := (gv_stamps g1)(kind := gv_stamps g1 kind @ [now])\<rparr>)))"

definition canCancel :: "int \<Rightarrow> governor \<Rightarrow> bool \<times> governor" where
  "canCancel now g0 = (let g = prune Rate_cancel now g0
     in (length (gv_stamps g Rate_cancel) < rb_limit (gv_classes g Rate_cancel), g))"

text \<open>A sequence of calls, each at its clock reading: the times of the admissions of one class.\<close>

fun admissions ::
  "rate_class \<Rightarrow> (int \<times> rate_class \<times> int option \<times> int option) list \<Rightarrow> governor \<Rightarrow> int list" where
  "admissions kind [] g = []"
| "admissions kind ((now, k, deadline, queued) # calls) g =
     (case governor_acquire k deadline queued now g of (a, g') \<Rightarrow>
        (if k = kind \<and> rate_ok a then now # admissions kind calls g' else admissions kind calls g'))"

section \<open>Orders in flight\<close>

datatype in_flight_state = IF_SUBMITTED_UNKNOWN | IF_CANCEL_UNKNOWN | IF_CANCEL_CERTAIN
  | IF_ACKNOWLEDGED | IF_DEFINITIVE_REJECT

record in_flight =
  if_orderId :: uuid
  if_venueOrderId :: "string option"
  if_state :: in_flight_state
  if_pendingSince :: int
  if_resolved :: bool

definition if_addSubmittedUnknown :: "int \<Rightarrow> uuid \<Rightarrow> string option \<Rightarrow> in_flight list \<Rightarrow> in_flight list" where
  "if_addSubmittedUnknown now oid v t = put_row if_orderId
     \<lparr>if_orderId = oid, if_venueOrderId = v, if_state = IF_SUBMITTED_UNKNOWN, if_pendingSince = now,
      if_resolved = False\<rparr> t"

definition if_recordCancelRequested :: "uuid \<Rightarrow> in_flight list \<Rightarrow> in_flight list" where
  "if_recordCancelRequested oid t = upd_row if_orderId oid
     (\<lambda>x :: in_flight. if \<not> if_resolved x then x\<lparr>if_state := IF_CANCEL_UNKNOWN\<rparr> else x) t"

definition if_resolve :: "uuid \<Rightarrow> bool \<Rightarrow> order_result option \<Rightarrow> in_flight list \<Rightarrow> in_flight list" where
  "if_resolve oid fromVenue result t =
     (if \<not> fromVenue then t
      else upd_row if_orderId oid
        (\<lambda>x :: in_flight. x\<lparr>if_resolved := True, if_state :=
           (case result of None \<Rightarrow> IF_DEFINITIVE_REJECT
            | Some res \<Rightarrow>
                if res_order_status res \<in> {Some Order_LIVE, Some Order_PARTIAL, Some Order_MATCHED} \<or>
                   res_submit_status res = Some Submit_ACKNOWLEDGED
                then IF_ACKNOWLEDGED else IF_DEFINITIVE_REJECT)\<rparr>) t)"

definition if_needsReconcile :: "uuid \<Rightarrow> in_flight list \<Rightarrow> bool" where
  "if_needsReconcile oid t =
     (case row_of if_orderId oid t of None \<Rightarrow> False | Some x \<Rightarrow> \<not> if_resolved x)"

definition if_certainCancels :: "in_flight list \<Rightarrow> uuid list" where
  "if_certainCancels t =
     map if_orderId (filter (\<lambda>x. if_resolved x \<and> if_state x = IF_CANCEL_CERTAIN) t)"

section \<open>The capability gate for live routing\<close>

definition VENUE_CAPABILITIES :: "string list" where
  "VENUE_CAPABILITIES = [''market_data'', ''order_submit'', ''order_cancel'', ''order_lookup'',
     ''fills'', ''balances'', ''heartbeat'', ''settlement'', ''venue_mode'']"

definition isRegisteredCapability :: "string \<Rightarrow> bool" where
  "isRegisteredCapability name \<longleftrightarrow> List.member VENUE_CAPABILITIES name"

fun required_capabilities :: "(string \<Rightarrow> bool) \<Rightarrow> string list \<Rightarrow> unit outcome" where
  "required_capabilities supports [] = Ok ()"
| "required_capabilities supports (req # reqs) =
     (if \<not> isRegisteredCapability req then Refused ''UNREGISTERED_CAPABILITY''
      else if \<not> supports req then Refused ''UNSUPPORTED_CAPABILITY''
      else required_capabilities supports reqs)"

definition capabilityAllows ::
  "string \<Rightarrow> string list \<Rightarrow> (string \<Rightarrow> bool) \<Rightarrow> bool \<Rightarrow> unit outcome" where
  "capabilityAllows action requires supports requiresVenueGate =
     (let cap = map lower action
      in if \<not> isRegisteredCapability cap then Refused ''UNREGISTERED_CAPABILITY''
         else if requiresVenueGate \<and> \<not> supports ''venue_gate'' then Refused ''VENUE_GATE_MISSING''
         else case required_capabilities supports requires of
           Refused c \<Rightarrow> Refused c
         | Ok _ \<Rightarrow> if supports cap then Ok () else Refused ''UNSUPPORTED_CAPABILITY'')"

definition isFullyCompliant :: "(string \<Rightarrow> bool) \<Rightarrow> bool" where
  "isFullyCompliant supports = list_all supports VENUE_CAPABILITIES"

section \<open>The governor admits at most its limit per window\<close>

lemma governor_acquire_effect:
  assumes "governor_acquire k deadline queued now g = (a, g')"
  defines "kept \<equiv> dropWhile (\<lambda>x. rb_windowMs (gv_classes g k) < now - x) (gv_stamps g k)"
  shows "gv_classes g' = gv_classes g"
    and "c \<noteq> k \<Longrightarrow> gv_stamps g' c = gv_stamps g c"
    and "gv_stamps g' k = (if rate_ok a then kept @ [now] else kept)"
    and "rate_ok a \<Longrightarrow> length kept < rb_limit (gv_classes g k)"
  using assms(1) unfolding kept_def
  by (auto simp: governor_acquire_def prune_def ingestServerHint_def rate_ok_def Let_def
      split: if_splits option.splits)

text \<open>
  \<open>past\<close> are all admissions so far, of which the stamps are a suffix; what was pruned is older than
  a window.
\<close>

definition governed :: "rate_class \<Rightarrow> int \<Rightarrow> int list \<Rightarrow> governor \<Rightarrow> bool" where
  "governed kind now past g \<longleftrightarrow> (\<exists>old. past = old @ gv_stamps g kind \<and>
     (\<forall>x \<in> set old. rb_windowMs (gv_classes g kind) < now - x))"

definition in_window :: "int \<Rightarrow> int \<Rightarrow> int list \<Rightarrow> nat" where
  "in_window t w xs = length (filter (\<lambda>x. t \<le> x \<and> x \<le> t + w) xs)"

lemma in_window_append: "in_window t w (xs @ ys) = in_window t w xs + in_window t w ys"
  by (simp add: in_window_def)

lemma governed_prune:
  assumes "governed kind now past g" and "now \<le> now'" and "gv_classes g' = gv_classes g"
    and "gv_stamps g' kind = dropWhile (\<lambda>x. rb_windowMs (gv_classes g kind) < now' - x) (gv_stamps g kind)"
  shows "governed kind now' past g'"
proof -
  let ?p = "\<lambda>x. rb_windowMs (gv_classes g kind) < now' - x"
  from assms(1) obtain old where past: "past = old @ gv_stamps g kind"
    and old: "\<forall>x \<in> set old. rb_windowMs (gv_classes g kind) < now - x"
    by (auto simp: governed_def)
  have "past = (old @ takeWhile ?p (gv_stamps g kind)) @ gv_stamps g' kind"
    by (simp add: past assms(4))
  moreover have "\<forall>x \<in> set (old @ takeWhile ?p (gv_stamps g kind)). ?p x"
    using old assms(2) by (fastforce dest: set_takeWhileD)
  ultimately show ?thesis unfolding governed_def assms(3) by blast
qed

lemma admissions_window:
  assumes "governed kind now past g" and "sorted (now # map fst calls)"
    and "gv_classes g kind = cfg" and "\<forall>t. in_window t (rb_windowMs cfg) past \<le> rb_limit cfg"
  shows "in_window t (rb_windowMs cfg) (past @ admissions kind calls g) \<le> rb_limit cfg"
  using assms
proof (induction calls arbitrary: now past g)
  case Nil
  then show ?case by simp
next
  case (Cons call calls)
  obtain now' k deadline queued where call: "call = (now', k, deadline, queued)" by (cases call)
  obtain a g' where acq: "governor_acquire k deadline queued now' g = (a, g')" by fastforce
  note eff = governor_acquire_effect [OF acq]
  have times: "now \<le> now'" "sorted (now' # map fst calls)" using Cons.prems(2) by (auto simp: call)
  have cls: "gv_classes g' kind = cfg" using Cons.prems(3) eff(1) by simp
  show ?case
  proof (cases "k = kind \<and> rate_ok a")
    case False
    have "governed kind now' past g'"
    proof (cases "k = kind")
      case True
      with False eff(1,3) Cons.prems(1) times show ?thesis by (auto intro: governed_prune)
    next
      case False
      with Cons.prems(1) eff(1,2) times show ?thesis by (fastforce simp: governed_def)
    qed
    from Cons.IH [OF this times(2) cls Cons.prems(4)] False acq show ?thesis by (auto simp: call)
  next
    case True
    let ?kept = "dropWhile (\<lambda>x. rb_windowMs (gv_classes g kind) < now' - x) (gv_stamps g kind)"
    let ?g = "g\<lparr>gv_stamps := (gv_stamps g)(kind := ?kept)\<rparr>"
    have "governed kind now' past ?g" using Cons.prems(1) times by (auto intro: governed_prune)
    then obtain old where past: "past = old @ ?kept" and old: "\<forall>x \<in> set old. rb_windowMs cfg < now' - x"
      using Cons.prems(3) by (auto simp: governed_def)
    have st: "gv_stamps g' kind = ?kept @ [now']" and len: "length ?kept < rb_limit cfg"
      using True eff(3,4) Cons.prems(3) by auto
    have gov: "governed kind now' (past @ [now']) g'"
      using old cls st by (auto simp: governed_def past)
    have win: "in_window u (rb_windowMs cfg) (past @ [now']) \<le> rb_limit cfg" for u
    proof (cases "now' \<le> u + rb_windowMs cfg")
      case True
      have "in_window u (rb_windowMs cfg) old = 0"
        using old True by (fastforce simp: in_window_def filter_empty_conv)
      moreover have "in_window u (rb_windowMs cfg) (?kept @ [now']) \<le> length (?kept @ [now'])"
        unfolding in_window_def by (rule length_filter_le)
      ultimately show ?thesis using len by (simp add: past in_window_append)
    next
      case False
      then show ?thesis
        using Cons.prems(4) by (simp add: in_window_append) (simp add: in_window_def)
    qed
    from Cons.IH [OF gov times(2) cls] win True acq show ?thesis by (simp add: call)
  qed
qed

section \<open>Properties\<close>

text \<open>Which submissions and cancels the intersection admits, exactly. A submission needs a venue
  mode that allows submitting and an account that is neither blocked nor suspended, and then either a
  close-only account with an explicit reduce-only style, or the mandate, fresh data, an open risk
  state and, for a reduce-only style, a venue that supports it. A cancel needs only the venue mode and
  the account.\<close>

theorem capabilityIntersection_iff:
  "(capabilityIntersection ORDER_SUBMIT i = Ok () \<longleftrightarrow>
      ii_venueMode i \<in> {Venue_NORMAL, Venue_POST_ONLY} \<and>
      ii_accountMode i \<notin> {Account_ACCESS_BLOCKED, Account_SUSPENDED} \<and>
      (if ii_accountMode i = Account_CLOSE_ONLY then requiredStyle i = Some Req_REDUCE_ONLY
       else mandateAllows i \<and> fresh i \<and> riskOpen i \<and>
         (if requiredStyle i = Some Req_REDUCE_ONLY then has_reduce_only (ii_capability i) else True))) \<and>
   (capabilityIntersection ORDER_CANCEL i = Ok () \<longleftrightarrow>
      ii_venueMode i \<in> {Venue_NORMAL, Venue_POST_ONLY, Venue_CANCEL_ONLY} \<and>
      ii_accountMode i \<notin> {Account_ACCESS_BLOCKED, Account_SUSPENDED})"
  by (cases "ii_venueMode i") (auto simp: gate_defs)

text \<open>C23. The rate governor keeps its promise over any window: whatever calls it receives, at
  non-decreasing clock readings, with any deadlines and queue delays, the calls it admits for a class
  never number more than the class's limit within any interval of one window length.\<close>

theorem governor_limits_every_window:
  assumes "sorted (map fst calls)"
  shows "in_window t (rb_windowMs (gv_classes (new_governor classes) kind))
      (admissions kind calls (new_governor classes))
    \<le> rb_limit (gv_classes (new_governor classes) kind)"
proof -
  define now where "now = (case calls of [] \<Rightarrow> 0 | c # _ \<Rightarrow> fst c)"
  have "sorted (now # map fst calls)" using assms by (cases calls) (auto simp: now_def)
  moreover have "governed kind now [] (new_governor classes)"
    by (simp add: governed_def new_governor_def)
  ultimately show ?thesis
    using admissions_window [of kind now "[]" "new_governor classes" calls, OF _ _ refl]
    by (simp add: in_window_def)
qed

theorem governor_limits_every_window_witness:
  "in_window 0 60000 (admissions Rate_submit
     (map (\<lambda>n. (int n, Rate_submit, None, None)) [0..<100]) (new_governor (\<lambda>_. None))) \<le> 20"
proof -
  let ?calls = "map (\<lambda>n. (int n, Rate_submit, None :: int option, None :: int option)) [0..<100]"
  have "sorted (map fst ?calls)"
    by (simp add: o_def sorted_map_mono mono_on_def)
  from governor_limits_every_window [OF this, of 0 "\<lambda>_. None" Rate_submit] show ?thesis
    by (simp add: new_governor_def)
qed

text \<open>The error taxonomy never calls for a blind retry: an error is marked retryable only when
  the order had not reached the venue and the venue said so by stale data or throttling, never
  together with a reconciliation, and never for an authentication failure; once the order may have
  arrived, the verdict is always to reconcile first and not retry.\<close>

theorem no_blind_retry:
  "(retryable (normalizeVenueError err pending_store style) \<longrightarrow>
      \<not> pending_store \<and> \<not> reconcileFirst (normalizeVenueError err pending_store style) \<and>
      ne_kind (normalizeVenueError err pending_store style) \<in> {RETRYABLE, STALE_DATA} \<and>
      raw_status err \<notin> {Some 401, Some 403}) \<and>
   (pending_store \<longrightarrow> ne_kind (normalizeVenueError err pending_store style) = RECONCILE_REQUIRED \<and>
      reconcileFirst (normalizeVenueError err pending_store style))"
  by (auto simp: normalizeVenueError_def Let_def split: if_splits)

theorem no_blind_retry_witness:
  "retryable (normalizeVenueError \<lparr>raw_status = Some 429, raw_code = None, serverBusyHeaders = False,
      queuedDelayMs = None\<rparr> False None) \<and>
   \<not> reconcileFirst (normalizeVenueError \<lparr>raw_status = Some 429, raw_code = None,
      serverBusyHeaders = False, queuedDelayMs = None\<rparr> False None)"
proof -
  have "retryable (normalizeVenueError \<lparr>raw_status = Some 429, raw_code = None,
      serverBusyHeaders = False, queuedDelayMs = None\<rparr> False None)"
    by (simp add: normalizeVenueError_def mentions_def starts_with_def)
  then show ?thesis using no_blind_retry by blast
qed

end
