(* ===== verification/ExecutionSafety.thy ===== *)
theory ExecutionSafety
  imports VenuePolicy
begin

text \<open>
  \<open>src/pm/venue/src/execution-safety.ts\<close>: the fail-closed guards for a degrading venue. Heartbeat
  reconciliation, the engine-restart directive, fee revalidation, the post-only check, order expiry
  and tick revalidation, the last in the arithmetic of doubles.
\<close>

section \<open>Heartbeat reconciliation\<close>

record heartbeat_record =
  hb_id :: string
  hb_writer :: string
  hb_sequence :: int
  hb_at :: "ms option"
  expectedCancelled :: "uuid list"

record heartbeat_observation =
  ho_id :: string
  ho_writer :: string
  ho_sequence :: int
  observedCancelled :: "uuid list"

record heartbeat_verdict =
  reconciled :: "uuid list"
  stillUnknown :: "uuid list"

definition reconcileHeartbeat ::
  "heartbeat_record \<Rightarrow> heartbeat_observation \<Rightarrow> int option \<Rightarrow> int option \<Rightarrow> ms \<Rightarrow> heartbeat_verdict outcome" where
  "reconcileHeartbeat rcd obs maxAge maxSkew now =
     (let maxAgeMs = (case maxAge of Some m \<Rightarrow> m | None \<Rightarrow> 60000);
          skew = (case maxSkew of Some m \<Rightarrow> m | None \<Rightarrow> 5000)
      in if hb_id rcd \<noteq> ho_id obs then Refused ''HEARTBEAT_STALE''
         else if hb_writer rcd \<noteq> ho_writer obs then Refused ''HEARTBEAT_CONFLICT''
         else if ho_sequence obs < hb_sequence rcd then Refused ''HEARTBEAT_STALE''
         else case hb_at rcd of
           None \<Rightarrow> Refused ''HEARTBEAT_STALE''
         | Some recordAt \<Rightarrow>
             if maxAgeMs < now - recordAt then Refused ''HEARTBEAT_STALE''
             else if skew < recordAt - now then Refused ''HEARTBEAT_STALE''
             else Ok \<lparr>reconciled = filter (\<lambda>x. x \<in> set (observedCancelled obs)) (expectedCancelled rcd),
                      stillUnknown = filter (\<lambda>x. x \<notin> set (observedCancelled obs)) (expectedCancelled rcd)\<rparr>)"

section \<open>Engine restart\<close>

record restart_directive =
  rd_mode :: string
  newOrders :: string
  cancel_mode :: string
  reconcileWhenReachable :: bool

definition onEngineRestarting :: restart_directive where
  "onEngineRestarting = \<lparr>rd_mode = ''STOP_NEW'', newOrders = ''BLOCKED'',
     cancel_mode = ''BEST_EFFORT'', reconcileWhenReachable = True\<rparr>"

section \<open>Fee revalidation\<close>

text \<open>The verdict and the fee the ledger retains.\<close>

definition revalidateFee :: "jsnum \<Rightarrow> jsnum \<Rightarrow> unit outcome \<times> jsnum" where
  "revalidateFee quoted observed =
     (if \<not> is_finite_num quoted \<or> \<not> is_finite_num observed
        then (Refused ''FEE_BOUND_EXCEEDED'', if is_finite_num observed then observed else Fin 0)
      else if num_lt quoted (Fin 0) \<or> num_lt observed (Fin 0)
        then (Refused ''FEE_BOUND_EXCEEDED'', if num_lt observed (Fin 0) then Fin 0 else observed)
      else if num_le observed quoted then (Ok (), observed)
      else (Refused ''FEE_BOUND_EXCEEDED'', observed))"

section \<open>Post-only orders\<close>

definition valid_quote :: "jsnum \<Rightarrow> bool" where
  "valid_quote v \<longleftrightarrow> \<not> (\<not> is_finite_num v \<or> num_le v (Fin 0) \<or> num_le (Fin 1) v)"

definition checkPostOnly :: "order_side \<Rightarrow> jsnum \<Rightarrow> jsnum \<Rightarrow> jsnum \<Rightarrow> unit outcome" where
  "checkPostOnly side price bestBid bestAsk =
     (if \<not> list_all valid_quote [price, bestBid, bestAsk] then Refused ''POST_ONLY_CROSSING''
      else if side = BUY \<and> num_le bestAsk price then Refused ''POST_ONLY_CROSSING''
      else if side = SELL \<and> num_le price bestBid then Refused ''POST_ONLY_CROSSING''
      else Ok ())"

section \<open>Order expiry\<close>

datatype time_in_force = GTC | GTD | FOK | FAK

text \<open>\<open>expires\<close>: missing, or a date that may be invalid.\<close>

definition validateOrderExpiry ::
  "time_in_force \<Rightarrow> ms option option \<Rightarrow> ms \<Rightarrow> int option \<Rightarrow> unit outcome" where
  "validateOrderExpiry tif expires now minFuture =
     (if tif = GTC \<or> tif = FOK \<or> tif = FAK then Ok ()
      else case expires of
        None \<Rightarrow> Refused ''ORDER_EXPIRED''
      | Some None \<Rightarrow> Refused ''ORDER_EXPIRED''
      | Some (Some t) \<Rightarrow>
          if t \<le> now then Refused ''ORDER_EXPIRED''
          else if t - now < (case minFuture of Some m \<Rightarrow> m | None \<Rightarrow> 180000) then Refused ''GTD_TOO_SOON''
          else Ok ())"

section \<open>Tick revalidation\<close>

record tick_rule =
  tickSize :: jsnum
  minSize :: jsnum

definition snap :: "jsnum \<Rightarrow> jsnum \<Rightarrow> jsnum" where
  "snap x unit_size = num_mul (math_floor (num_div x unit_size)) unit_size"

definition revalidateTick :: "jsnum \<Rightarrow> jsnum \<Rightarrow> tick_rule \<Rightarrow> jsnum \<Rightarrow> (jsnum \<times> jsnum) outcome" where
  "revalidateTick price sz rule cap =
     (if \<not> is_finite_num price \<or> \<not> is_finite_num sz \<or> \<not> num_lt (Fin 0) (tickSize rule) \<or>
         \<not> num_lt (Fin 0) (minSize rule) \<or> \<not> num_lt (Fin 0) cap
      then Refused ''TICK_REVALIDATED''
      else
        let safePrice = snap price (tickSize rule); safeSize = snap sz (minSize rule)
        in if num_le safePrice (Fin 0) \<or> num_le safeSize (Fin 0) then Refused ''TICK_REVALIDATED''
           else if num_lt price safePrice \<or> num_lt sz safeSize then Refused ''TICK_REVALIDATED''
           else if num_lt cap (num_mul safePrice safeSize) then Refused ''TICK_REVALIDATED''
           else Ok (safePrice, safeSize))"

text \<open>A product of two finite doubles overflows but is never \<open>NaN\<close>.\<close>

lemma fl_notNaN: "fl q \<noteq> NaN"
  by (auto simp: fl_def Let_def split: if_splits)

lemma snap_not_NaN:
  assumes "is_finite_num u" and "num_lt (Fin 0) u"
  shows "snap (Fin a) u \<noteq> NaN"
proof -
  obtain b where u: "u = Fin b" "0 < b" using assms by (cases u) auto
  show ?thesis
    using fl_notNaN [of "a / b"] u
    by (cases "fl (a / b)") (auto simp: snap_def fl_notNaN inf_of_sign_def)
qed

section \<open>Properties\<close>

text \<open>Heartbeat reconciliation never fabricates a cancel: an accepted reconciliation is for the
  same heartbeat and writer, not older than the record and from a record that is neither expired nor
  dated beyond the clock skew; it splits the expected cancels into those observed and those still
  unknown, and reports nothing as cancelled that was not both expected and observed.\<close>

theorem heartbeat_never_fabricates:
  assumes "reconcileHeartbeat rcd obs maxAge maxSkew now = Ok v"
  shows "hb_id rcd = ho_id obs \<and> hb_writer rcd = ho_writer obs \<and> hb_sequence rcd \<le> ho_sequence obs \<and>
    set (reconciled v) = set (expectedCancelled rcd) \<inter> set (observedCancelled obs) \<and>
    set (stillUnknown v) = set (expectedCancelled rcd) - set (observedCancelled obs) \<and>
    length (reconciled v) + length (stillUnknown v) = length (expectedCancelled rcd) \<and>
    (\<exists>t. hb_at rcd = Some t \<and> now - t \<le> (case maxAge of Some m \<Rightarrow> m | None \<Rightarrow> 60000) \<and>
       t - now \<le> (case maxSkew of Some m \<Rightarrow> m | None \<Rightarrow> 5000))"
proof -
  from assms have v: "v = \<lparr>reconciled = filter (\<lambda>x. x \<in> set (observedCancelled obs)) (expectedCancelled rcd),
      stillUnknown = filter (\<lambda>x. x \<notin> set (observedCancelled obs)) (expectedCancelled rcd)\<rparr>"
    by (simp add: reconcileHeartbeat_def Let_def split: if_splits option.splits)
  have "length (reconciled v) + length (stillUnknown v) = length (expectedCancelled rcd)"
    by (simp add: v sum_length_filter_compl)
  moreover have "hb_id rcd = ho_id obs \<and> hb_writer rcd = ho_writer obs \<and>
    hb_sequence rcd \<le> ho_sequence obs \<and> (\<exists>t. hb_at rcd = Some t \<and>
      now - t \<le> (case maxAge of Some m \<Rightarrow> m | None \<Rightarrow> 60000) \<and>
      t - now \<le> (case maxSkew of Some m \<Rightarrow> m | None \<Rightarrow> 5000))"
    using assms by (simp add: reconcileHeartbeat_def Let_def split: if_splits option.splits)
  ultimately show ?thesis by (auto simp: v)
qed

theorem heartbeat_never_fabricates_witness:
  "\<exists>v. reconcileHeartbeat \<lparr>hb_id = ''h'', hb_writer = ''w'', hb_sequence = 3, hb_at = Some 1000,
      expectedCancelled = [''a'', ''b'']\<rparr> \<lparr>ho_id = ''h'', ho_writer = ''w'', ho_sequence = 3,
      observedCancelled = [''b'', ''c'']\<rparr> None None 2000 = Ok v \<and> set (stillUnknown v) = {''a''}"
proof -
  let ?r = "\<lparr>hb_id = ''h'', hb_writer = ''w'', hb_sequence = 3, hb_at = Some 1000,
      expectedCancelled = [''a'', ''b'']\<rparr>"
  let ?o = "\<lparr>ho_id = ''h'', ho_writer = ''w'', ho_sequence = 3, observedCancelled = [''b'', ''c'']\<rparr>"
  obtain v where run: "reconcileHeartbeat ?r ?o None None 2000 = Ok v"
    by (simp add: reconcileHeartbeat_def Let_def)
  from heartbeat_never_fabricates [OF run] run show ?thesis by auto
qed

text \<open>Tick revalidation never enlarges an order: for a finite tick and minimum size, whatever
  doubles come in, an accepted order has a positive price and size, neither above what was asked for,
  and a notional that does not exceed the authorised cap.\<close>

theorem revalidateTick_never_enlarges:
  assumes "revalidateTick price sz rule cap = Ok (p, s)"
    and "is_finite_num (tickSize rule)" and "is_finite_num (minSize rule)"
  shows "\<exists>qp qs qprice qsz. p = Fin qp \<and> s = Fin qs \<and> price = Fin qprice \<and> sz = Fin qsz \<and>
    0 < qp \<and> qp \<le> qprice \<and> 0 < qs \<and> qs \<le> qsz \<and> \<not> num_lt cap (num_mul p s)"
proof -
  have pos: "\<not> num_le x (Fin 0) \<Longrightarrow> \<not> num_lt (Fin b) x \<Longrightarrow> x \<noteq> NaN \<Longrightarrow> \<exists>a. x = Fin a \<and> 0 < a \<and> a \<le> b"
    for x b by (cases x) (auto simp: num_le_def)
  from assms(1) obtain a b where ab: "price = Fin a" "sz = Fin b"
    by (cases price; cases sz) (auto simp: revalidateTick_def Let_def)
  from assms(1) have g: "num_lt (Fin 0) (tickSize rule)" "num_lt (Fin 0) (minSize rule)"
    "p = snap (Fin a) (tickSize rule)" "s = snap (Fin b) (minSize rule)"
    "\<not> num_le p (Fin 0)" "\<not> num_le s (Fin 0)" "\<not> num_lt (Fin a) p" "\<not> num_lt (Fin b) s"
    "\<not> num_lt cap (num_mul p s)"
    by (auto simp: ab revalidateTick_def Let_def split: if_splits)
  have "p \<noteq> NaN" "s \<noteq> NaN"
    using snap_not_NaN [OF assms(2) g(1), of a] snap_not_NaN [OF assms(3) g(2), of b]
    by (simp_all add: g(3,4))
  with pos [OF g(5,7)] pos [OF g(6,8)] g(9) ab show ?thesis by auto
qed

theorem revalidateTick_never_enlarges_witness:
  "\<exists>p s. revalidateTick (Fin (5 / 8)) (Fin 10) \<lparr>tickSize = Fin (1 / 4), minSize = Fin 4\<rparr> (Fin 100) = Ok (p, s) \<and>
    \<not> num_lt (Fin (5 / 8)) p"
proof -
  let ?r = "\<lparr>tickSize = Fin (1 / 4), minSize = Fin 4\<rparr>"
  have run: "revalidateTick (Fin (5 / 8)) (Fin 10) ?r (Fin 100) = Ok (Fin (1 / 2), Fin 8)"
    by (simp add: revalidateTick_def snap_def num_eval)
  from revalidateTick_never_enlarges [OF run] run show ?thesis by auto
qed

section \<open>Where the rounding surprises\<close>

text \<open>An infinite tick passes the checks and comes back as a price that is not a number.\<close>

lemma revalidateTick_infinite_tick:
  "revalidateTick (Fin (1 / 2)) (Fin 8) \<lparr>tickSize = PosInf, minSize = Fin 4\<rparr> (Fin 100) = Ok (NaN, Fin 8)"
  by (simp add: revalidateTick_def snap_def num_eval inf_of_sign_def)

text \<open>The double next to 0.3 is on a tick of 0.1 and still loses a whole tick.\<close>

lemma revalidateTick_loses_tick:
  "revalidateTick (fl (3 / 10)) (Fin 8) \<lparr>tickSize = fl (1 / 10), minSize = Fin 4\<rparr> (Fin 100)
    = Ok (fl (1 / 5), Fin 8)"
proof -
  have d: "fl (3 / 10) = Fin (5404319552844595 / 18014398509481984)"
    "fl (1 / 10) = Fin (3602879701896397 / 36028797018963968)"
    "fl (1 / 5) = Fin (3602879701896397 / 18014398509481984)"
    by (simp_all add: num_eval)
  have "snap (fl (3 / 10)) (fl (1 / 10)) = fl (1 / 5)"
    unfolding d by (simp add: snap_def num_eval)
  moreover have "snap (Fin 8) (Fin 4) = Fin 8" by (simp add: snap_def num_eval)
  moreover have "num_mul (fl (1 / 5)) (Fin 8) = Fin (3602879701896397 / 2251799813685248)"
    unfolding d by (simp add: num_eval)
  ultimately show ?thesis by (simp add: revalidateTick_def d num_le_def)
qed

end
