(* ===== verification/Settlement.thy ===== *)
theory Settlement
  imports JsNumber
begin

text \<open>
  \<open>src/pm/ledger/src/settlement.ts\<close> and \<open>incentives.ts\<close>: the settlement state machine with its
  journal, the reorg correction, receipts applied once per identity, reward estimates kept apart from
  confirmed money, builder attribution and confirmed incentives. A delivery sequence is folded with the
  code's own functions (\<open>settle\<close>, \<open>deliver_receipts\<close>); a refused event leaves the state alone.
\<close>

section \<open>The settlement state machine\<close>

datatype settlement_status = Set_OPEN | Set_MATCHED | Set_MINED | Set_RETRYING | Set_CONFIRMED | Set_FAILED

record settlement_state =
  st_status :: settlement_status
  journal :: "string list"
  spendable :: bool

fun VALID_TRANSITIONS :: "settlement_status \<Rightarrow> settlement_status list" where
  "VALID_TRANSITIONS Set_OPEN = [Set_MATCHED]"
| "VALID_TRANSITIONS Set_MATCHED = [Set_MINED, Set_CONFIRMED, Set_FAILED]"
| "VALID_TRANSITIONS Set_MINED = [Set_CONFIRMED, Set_FAILED, Set_RETRYING]"
| "VALID_TRANSITIONS Set_RETRYING = [Set_MINED, Set_CONFIRMED, Set_FAILED]"
| "VALID_TRANSITIONS Set_CONFIRMED = []"
| "VALID_TRANSITIONS Set_FAILED = []"

datatype settlement_kind = Ev_MATCH | Ev_MINE | Ev_RETRY | Ev_CONFIRM | Ev_FAIL

fun target_of :: "settlement_kind \<Rightarrow> settlement_status" where
  "target_of Ev_MATCH = Set_MATCHED"
| "target_of Ev_MINE = Set_MINED"
| "target_of Ev_RETRY = Set_RETRYING"
| "target_of Ev_CONFIRM = Set_CONFIRMED"
| "target_of Ev_FAIL = Set_FAILED"

definition applySettlementEvent ::
  "settlement_state \<Rightarrow> settlement_kind \<Rightarrow> string \<Rightarrow> settlement_state outcome" where
  "applySettlementEvent s kind entry =
     (let target = target_of kind
      in if target \<notin> set (VALID_TRANSITIONS (st_status s)) then Refused ''SETTLEMENT_INVALID_TRANSITION''
         else Ok \<lparr>st_status = target,
           journal = (if target = Set_FAILED then journal s @ [entry, ''COMPENSATE:'' @ entry]
                      else journal s @ [entry]),
           spendable = (target = Set_CONFIRMED)\<rparr>)"

definition applyReorgCorrection :: "settlement_state \<Rightarrow> string \<Rightarrow> settlement_state outcome" where
  "applyReorgCorrection s entry =
     (if st_status s \<noteq> Set_CONFIRMED then Refused ''SETTLEMENT_INVALID_TRANSITION''
      else Ok \<lparr>st_status = Set_FAILED, journal = journal s @ [entry, ''REORG_CORRECT:'' @ entry],
        spendable = False\<rparr>)"

definition initialSettlement :: settlement_state where
  "initialSettlement = \<lparr>st_status = Set_OPEN, journal = [], spendable = False\<rparr>"

section \<open>Receipts\<close>

record receipt_ledger =
  postedIds :: "string set"
  postingCount :: nat

definition applyReceiptOnce :: "receipt_ledger \<Rightarrow> string \<Rightarrow> unit outcome \<times> receipt_ledger" where
  "applyReceiptOnce led receipt =
     (if receipt \<in> postedIds led then (Refused ''DUPLICATE_SUPPRESSED'', led)
      else (Ok (), led\<lparr>postedIds := insert receipt (postedIds led), postingCount := postingCount led + 1\<rparr>))"

section \<open>Reward books and incentives\<close>

record reward_books =
  estimateTotal :: jsnum
  confirmedTotal :: jsnum
  cashReserved :: jsnum

definition reviseRewardEstimate :: "reward_books \<Rightarrow> jsnum \<Rightarrow> string + reward_books" where
  "reviseRewardEstimate books revised =
     (if \<not> is_finite_num revised \<or> num_lt revised (Fin 0)
      then Inl ''estimate must be a finite non-negative number''
      else Inr (books\<lparr>estimateTotal := revised\<rparr>))"

record attributed_order =
  ao_orderId :: string
  ao_cashBase :: int
  ao_feeBase :: int
  ao_builderCode :: "string option"

record builder_attribution =
  ba_orderId :: string
  ba_builderCode :: string
  ba_cashBase :: int
  ba_feeBase :: int

definition attributeBuilder :: "attributed_order \<Rightarrow> string \<Rightarrow> builder_attribution outcome" where
  "attributeBuilder order code =
     (if code = [] then Refused ''BUILDER_CODE_MISSING''
      else Ok \<lparr>ba_orderId = ao_orderId order, ba_builderCode = code, ba_cashBase = ao_cashBase order,
        ba_feeBase = ao_feeBase order\<rparr>)"

datatype incentive_category = MAKER_REBATE | LP_REWARD | TAKER_INCENTIVE

datatype payout_state = Pay_EXPECTED | Pay_CONFIRMED_PAID

record incentive_posting =
  ip_category :: incentive_category
  ip_amountBase :: int
  ip_asset :: string
  ip_state :: payout_state
  ip_provenance :: string

definition postConfirmedIncentive :: "incentive_posting \<Rightarrow> string \<Rightarrow> int \<Rightarrow> int outcome" where
  "postConfirmedIncentive p asset paid =
     (if ip_state p \<noteq> Pay_CONFIRMED_PAID then Refused ''UNCONFIRMED_INCENTIVE''
      else if ip_asset p \<noteq> asset then Refused ''UNCONFIRMED_INCENTIVE''
      else if ip_amountBase p < 0 then Refused ''UNCONFIRMED_INCENTIVE''
      else Ok (paid + ip_amountBase p))"

section \<open>Sequences of events\<close>

datatype settlement_event = Event settlement_kind string | Reorg string

fun settle_one :: "settlement_state \<Rightarrow> settlement_event \<Rightarrow> settlement_state outcome" where
  "settle_one s (Event kind entry) = applySettlementEvent s kind entry"
| "settle_one s (Reorg entry) = applyReorgCorrection s entry"

fun settle :: "settlement_event list \<Rightarrow> settlement_state \<Rightarrow> settlement_state" where
  "settle [] s = s"
| "settle (ev # evs) s = settle evs (case settle_one s ev of Ok s' \<Rightarrow> s' | Refused _ \<Rightarrow> s)"

lemma settle_append: "settle (es @ fs) s = settle fs (settle es s)"
  by (induction es arbitrary: s) simp_all

lemmas settle_defs = applySettlementEvent_def applyReorgCorrection_def initialSettlement_def

text \<open>What the status says of journal and spendability in every reachable state.\<close>

definition reversed_last :: "string list \<Rightarrow> bool" where
  "reversed_last js \<longleftrightarrow> (\<exists>ks entry tag. js = ks @ [entry, tag @ entry] \<and> tag \<in> {''COMPENSATE:'', ''REORG_CORRECT:''})"

definition settlement_ok :: "settlement_state \<Rightarrow> bool" where
  "settlement_ok s \<longleftrightarrow> (spendable s \<longleftrightarrow> st_status s = Set_CONFIRMED) \<and>
     (st_status s = Set_OPEN \<longleftrightarrow> journal s = []) \<and>
     (st_status s = Set_FAILED \<longrightarrow> reversed_last (journal s))"

lemma settle_one_ok:
  assumes "settle_one s ev = Ok s'"
  shows "settlement_ok s'"
proof (cases ev)
  case (Event kind entry)
  with assms show ?thesis
    by (cases kind)
      (auto simp: settle_defs Let_def settlement_ok_def reversed_last_def split: if_splits)
next
  case (Reorg entry)
  with assms show ?thesis
    by (auto simp: settle_defs settlement_ok_def reversed_last_def split: if_splits)
qed

lemma settle_ok: "settlement_ok s \<Longrightarrow> settlement_ok (settle evs s)"
proof (induction evs arbitrary: s)
  case (Cons ev evs)
  have "settlement_ok (case settle_one s ev of Ok s' \<Rightarrow> s' | Refused _ \<Rightarrow> s)"
    using Cons.prems by (auto dest: settle_one_ok split: outcome.split)
  with Cons.IH show ?case by simp
qed simp

text \<open>The end states: nothing leaves FAILED, and only a reorg leaves CONFIRMED.\<close>

lemma failed_is_final: "st_status s = Set_FAILED \<Longrightarrow> settle evs s = s"
  by (induction evs) (auto simp: settle_defs Let_def elim!: settle_one.elims split: outcome.split)

lemma confirmed_stays:
  "st_status s = Set_CONFIRMED \<Longrightarrow> (\<forall>entry. Reorg entry \<notin> set evs) \<Longrightarrow> settle evs s = s"
proof (induction evs)
  case (Cons ev evs)
  then show ?case
    by (cases ev) (auto simp: settle_defs Let_def)
qed simp

lemma receipts_count:
  "finite (postedIds led) \<Longrightarrow> postingCount led = card (postedIds led) \<Longrightarrow>
     (let led' = fold (\<lambda>rid led. snd (applyReceiptOnce led rid)) rids led
      in postedIds led' = postedIds led \<union> set rids \<and> postingCount led' = card (postedIds led'))"
  by (induction rids arbitrary: led) (auto simp: applyReceiptOnce_def Let_def)

section \<open>Properties\<close>

text \<open>Settlement discipline, over every sequence of settlement events and reorgs, legal or not:
  holdings are spendable exactly in CONFIRMED; a settlement that FAILED ends its journal with an entry
  and its reversal and never changes again; and a CONFIRMED one stays as it is until a reorg.\<close>

theorem settlement_discipline:
  assumes "s = settle evs initialSettlement"
  shows "(spendable s \<longleftrightarrow> st_status s = Set_CONFIRMED) \<and>
    (st_status s = Set_FAILED \<longrightarrow> reversed_last (journal s) \<and> settle later s = s) \<and>
    (st_status s = Set_CONFIRMED \<and> (\<forall>entry. Reorg entry \<notin> set later) \<longrightarrow> settle later s = s)"
proof -
  have "settlement_ok initialSettlement" by (simp add: settlement_ok_def initialSettlement_def)
  then have "settlement_ok s" unfolding assms by (rule settle_ok)
  then show ?thesis by (simp add: settlement_ok_def failed_is_final confirmed_stays)
qed

theorem settlement_discipline_witness:
  "spendable (settle [Event Ev_MATCH ''m'', Event Ev_MINE ''n'', Event Ev_CONFIRM ''c''] initialSettlement) \<and>
   \<not> spendable (settle [Event Ev_MATCH ''m'', Event Ev_CONFIRM ''c'', Reorg ''x''] initialSettlement)"
  using settlement_discipline [OF refl, of "[Event Ev_MATCH ''m'', Event Ev_MINE ''n'', Event Ev_CONFIRM ''c'']" "[]"]
    settlement_discipline [OF refl, of "[Event Ev_MATCH ''m'', Event Ev_CONFIRM ''c'', Reorg ''x'']" "[]"]
  by (simp add: settle_defs)

text \<open>A receipt stream posts each identity once, however often it delivers it.\<close>

lemma receipts_post_once:
  "postingCount (fold (\<lambda>rid led. snd (applyReceiptOnce led rid)) rids \<lparr>postedIds = {}, postingCount = 0\<rparr>)
     = card (set rids)"
  using receipts_count [of "\<lparr>postedIds = {}, postingCount = 0\<rparr>" rids] by (simp add: Let_def)

text \<open>A failure reverses its own entry: the provisional MATCH entry is never compensated.\<close>

lemma failure_leaves_match:
  "journal (settle [Event Ev_MATCH ''match'', Event Ev_FAIL ''fail''] initialSettlement)
     = [''match'', ''fail'', ''COMPENSATE:fail'']"
  by (simp add: settle_defs)

end
