(* ===== verification/KillSwitch.thy ===== *)
theory KillSwitch
  imports Prelude
begin

text \<open>
  \<open>src/pm/risk/src/kill-switch.ts\<close> and \<open>key-compromise.ts\<close>: the kill-level lattice (an instance of
  \<open>linorder\<close>), the entry block, the cancel plan with its observed outcomes, the flatten plan, the shares
  a SELL may use, the compromise response plan and the revocation tracker. \<open>Error\<close> results of
  \<open>validateKillLevel\<close> are refusals.
\<close>

section \<open>Levels\<close>

datatype kill_level = Kill_NONE | PAUSE_ENTRIES | CANCEL_OPEN | FLATTEN

fun kill_name :: "kill_level \<Rightarrow> string" where
  "kill_name Kill_NONE = ''NONE''"
| "kill_name PAUSE_ENTRIES = ''PAUSE_ENTRIES''"
| "kill_name CANCEL_OPEN = ''CANCEL_OPEN''"
| "kill_name FLATTEN = ''FLATTEN''"

definition KILL_LEVELS :: "kill_level list" where
  "KILL_LEVELS = [Kill_NONE, PAUSE_ENTRIES, CANCEL_OPEN, FLATTEN]"

definition validateKillLevel :: "string \<Rightarrow> kill_level outcome" where
  "validateKillLevel s = (case find (\<lambda>l. kill_name l = s) KILL_LEVELS of
     Some l \<Rightarrow> Ok l | None \<Rightarrow> Refused ''INVALID_KILL_LEVEL'')"

text \<open>\<open>KILL_LEVELS.indexOf\<close>, and the order it gives.\<close>

fun index_of :: "'a \<Rightarrow> 'a list \<Rightarrow> int" where
  "index_of x [] = - 1"
| "index_of x (y # ys) = (if y = x then 0 else if index_of x ys = - 1 then - 1 else 1 + index_of x ys)"

definition levelAtLeast :: "kill_level \<Rightarrow> kill_level \<Rightarrow> bool" where
  "levelAtLeast a b \<longleftrightarrow> index_of b KILL_LEVELS \<le> index_of a KILL_LEVELS"

instantiation kill_level :: linorder
begin

definition less_eq_kill_level :: "kill_level \<Rightarrow> kill_level \<Rightarrow> bool" where
  "less_eq_kill_level a b \<longleftrightarrow> levelAtLeast b a"

definition less_kill_level :: "kill_level \<Rightarrow> kill_level \<Rightarrow> bool" where
  "less_kill_level a b \<longleftrightarrow> levelAtLeast b a \<and> a \<noteq> b"

instance
proof
  fix x y z :: kill_level
  note defs = less_eq_kill_level_def less_kill_level_def levelAtLeast_def KILL_LEVELS_def
  show "x < y \<longleftrightarrow> x \<le> y \<and> \<not> y \<le> x" by (cases x; cases y) (simp_all add: defs)
  show "x \<le> x" by (cases x) (simp_all add: defs)
  show "x \<le> y \<Longrightarrow> y \<le> z \<Longrightarrow> x \<le> z" by (simp add: defs)
  show "x \<le> y \<Longrightarrow> y \<le> x \<Longrightarrow> x = y" by (cases x; cases y) (simp_all add: defs)
  show "x \<le> y \<or> y \<le> x" by (auto simp: defs)
qed

end

lemma levelAtLeast_iff [simp]: "levelAtLeast a b \<longleftrightarrow> b \<le> a"
  by (simp add: less_eq_kill_level_def)

lemma kill_level_bounds [simp]: "Kill_NONE \<le> l" "l \<le> FLATTEN"
  by (cases l; simp add: less_eq_kill_level_def levelAtLeast_def KILL_LEVELS_def
      del: levelAtLeast_iff)+

lemma PAUSE_ENTRIES_le: "PAUSE_ENTRIES \<le> l \<longleftrightarrow> l \<noteq> Kill_NONE"
  by (cases l) (simp_all add: less_eq_kill_level_def levelAtLeast_def KILL_LEVELS_def
      del: levelAtLeast_iff)

lemma validateKillLevel_name: "validateKillLevel (kill_name l) = Ok l"
  by (cases l) (simp_all add: validateKillLevel_def KILL_LEVELS_def)

text \<open>\<open>blockNewEntry\<close>: whether a queued intent is blocked.\<close>

definition blockNewEntry :: "kill_level \<Rightarrow> bool" where
  "blockNewEntry level \<longleftrightarrow> levelAtLeast level PAUSE_ENTRIES"

section \<open>Cancelling what is open\<close>

datatype cancel_outcome = Cancelled uuid | Cancel_Unknown uuid | Cancel_Failed uuid | Not_Cancelled uuid

fun outcome_order :: "cancel_outcome \<Rightarrow> uuid" where
  "outcome_order (Cancelled oid) = oid"
| "outcome_order (Cancel_Unknown oid) = oid"
| "outcome_order (Cancel_Failed oid) = oid"
| "outcome_order (Not_Cancelled oid) = oid"

fun is_cancelled :: "cancel_outcome \<Rightarrow> bool" where
  "is_cancelled (Cancelled _) = True"
| "is_cancelled _ = False"

record cancel_plan =
  cp_level :: kill_level
  cp_orders :: "uuid list"
  cp_plan :: "cancel_outcome list"
  allCanceled :: bool

definition planCancelOpen :: "kill_level \<Rightarrow> uuid list \<Rightarrow> cancel_plan" where
  "planCancelOpen level orders =
     (let plan = map Cancel_Unknown orders
      in \<lparr>cp_level = level, cp_orders = orders, cp_plan = plan, allCanceled = list_all is_cancelled plan\<rparr>)"

definition recordCancelOutcome :: "cancel_plan \<Rightarrow> cancel_outcome \<Rightarrow> cancel_plan" where
  "recordCancelOutcome p out =
     (let plan = map (\<lambda>c. if outcome_order c = outcome_order out then out else c) (cp_plan p)
      in \<lparr>cp_level = cp_level p, cp_orders = cp_orders p, cp_plan = plan,
          allCanceled = list_all is_cancelled plan\<rparr>)"

section \<open>Flattening and reducing\<close>

datatype position_side = Pos_YES | Pos_NO

record verified_position =
  vp_market :: string
  vp_side :: position_side
  vp_qty :: int
  vp_avg_price :: int

record reduce_order =
  ro_market :: string
  ro_side :: position_side
  ro_qty :: int
  ro_limit :: int

text \<open>The loop of \<open>planFlatten\<close>: the reduce orders and the markets skipped.\<close>

fun planFlatten :: "verified_position list \<Rightarrow> int \<Rightarrow> reduce_order list \<times> string list" where
  "planFlatten [] cap = ([], [])"
| "planFlatten (p # ps) cap =
     (let (orders, skipped) = planFlatten ps cap in
      if vp_qty p \<le> 0 then (orders, skipped)
      else if cap \<le> 0 \<or> 1000000 < cap then (orders, vp_market p # skipped)
      else if cap < vp_avg_price p then (orders, vp_market p # skipped)
      else (\<lparr>ro_market = vp_market p, ro_side = vp_side p, ro_qty = vp_qty p, ro_limit = cap\<rparr> # orders, skipped))"

definition sellableShares :: "int \<Rightarrow> int \<Rightarrow> int \<Rightarrow> int" where
  "sellableShares verified cancelled pending =
     (let base = verified + cancelled in if base < 0 then 0 else base)"

definition checkReduceAllowed :: "int \<Rightarrow> int \<Rightarrow> int \<Rightarrow> int \<Rightarrow> int outcome" where
  "checkReduceAllowed request verified cancelled pending =
     (if request \<le> 0 then Refused ''REDUCE_SIZE''
      else let free = sellableShares verified cancelled pending
           in if free < request then Refused ''REDUCE_OVERDRAWN'' else Ok request)"

section \<open>Key compromise\<close>

datatype compromise_class = L1_SIGNER | L2_API | RELAYER | OWNER_SESSION | Class_UNKNOWN

datatype response_action = Act_KILL_SIGNING | Act_FREEZE_ENTRIES | Act_RECONCILE | Act_CANCEL_OPEN
  | Act_REVOKE_L2 | Act_REVOKE_OWNER_SESSION | Act_ROTATE_L1 | Act_OWNER_ASSET_RESCUE

fun class_actions :: "compromise_class \<Rightarrow> response_action list" where
  "class_actions L1_SIGNER = [Act_ROTATE_L1]"
| "class_actions L2_API = [Act_REVOKE_L2]"
| "class_actions RELAYER = [Act_REVOKE_L2]"
| "class_actions OWNER_SESSION = [Act_REVOKE_OWNER_SESSION]"
| "class_actions Class_UNKNOWN = []"

text \<open>The order of the plan: \<open>appendOrder\<close> adds one action at a time.\<close>

definition planCompromiseResponse :: "compromise_class \<Rightarrow> bool \<Rightarrow> bool \<Rightarrow> response_action list" where
  "planCompromiseResponse c freezeEntries cancelPossible =
     [Act_KILL_SIGNING] @ (if freezeEntries then [Act_FREEZE_ENTRIES] else []) @ [Act_RECONCILE] @
     (if cancelPossible then [Act_CANCEL_OPEN] else []) @ class_actions c @ [Act_OWNER_ASSET_RESCUE]"

datatype revocation_domain = Dom_api | Dom_session | Dom_approval

datatype revocation_state = Rev_PENDING | Rev_REVOKED | Rev_FAILED

record revocation_tracker =
  domains :: "revocation_domain \<Rightarrow> revocation_state"
  rt_openOrders :: "uuid list"

definition initRevocationTracker :: "uuid list \<Rightarrow> revocation_tracker" where
  "initRevocationTracker orders = \<lparr>domains = (\<lambda>_. Rev_PENDING), rt_openOrders = orders\<rparr>"

definition domain_of :: "string \<Rightarrow> revocation_domain option" where
  "domain_of s = (if s = ''api'' then Some Dom_api else if s = ''session'' then Some Dom_session
     else if s = ''approval'' then Some Dom_approval else None)"

definition markRevoked :: "revocation_tracker \<Rightarrow> string \<Rightarrow> bool \<Rightarrow> revocation_tracker outcome" where
  "markRevoked t s revoked =
     (case domain_of s of None \<Rightarrow> Refused ''UNKNOWN_DOMAIN''
      | Some d \<Rightarrow> Ok (t\<lparr>domains := (domains t)(d := if revoked then Rev_REVOKED else Rev_FAILED)\<rparr>))"

definition isFullyRevoked :: "revocation_tracker \<Rightarrow> bool" where
  "isFullyRevoked t \<longleftrightarrow> domains t Dom_api = Rev_REVOKED \<and> domains t Dom_session = Rev_REVOKED \<and>
     domains t Dom_approval = Rev_REVOKED"

section \<open>Lemmas\<close>

text \<open>The plan after any outcomes: per order the last one reported, else still unknown.\<close>

fun last_outcome :: "uuid \<Rightarrow> cancel_outcome list \<Rightarrow> cancel_outcome" where
  "last_outcome oid [] = Cancel_Unknown oid"
| "last_outcome oid (out # outs) =
     (if outcome_order out = oid \<and> (\<forall>c \<in> set outs. outcome_order c \<noteq> oid) then out
      else last_outcome oid outs)"

lemma last_outcome_order: "outcome_order (last_outcome oid outs) = oid"
  by (induction outs) auto

lemma last_outcome_snoc:
  "last_outcome oid (outs @ [out]) = (if outcome_order out = oid then out else last_outcome oid outs)"
  by (induction outs) auto

lemma recorded_plan:
  "cp_plan (fold (\<lambda>out p. recordCancelOutcome p out) outs (planCancelOpen level orders))
     = map (\<lambda>oid. last_outcome oid outs) orders \<and>
   allCanceled (fold (\<lambda>out p. recordCancelOutcome p out) outs (planCancelOpen level orders))
     = list_all is_cancelled (map (\<lambda>oid. last_outcome oid outs) orders)"
proof (induction outs rule: rev_induct)
  case Nil
  then show ?case by (simp add: planCancelOpen_def Let_def)
next
  case (snoc out outs)
  then show ?case
    by (auto simp: recordCancelOutcome_def Let_def last_outcome_order last_outcome_snoc list.pred_map
        comp_def intro!: list.pred_cong)
qed

lemma is_cancelled_iff: "is_cancelled c \<longleftrightarrow> c = Cancelled (outcome_order c)"
  by (cases c) simp_all

text \<open>Flattening: each order is the whole of a verified position of its market, at the cap.\<close>

lemma planFlatten_orders:
  "o' \<in> set (fst (planFlatten ps cap)) \<Longrightarrow> \<exists>p \<in> set ps. ro_market o' = vp_market p \<and>
     ro_side o' = vp_side p \<and> ro_qty o' = vp_qty p \<and> 0 < vp_qty p \<and> ro_limit o' = cap \<and>
     vp_avg_price p \<le> cap \<and> 0 < cap \<and> cap \<le> 1000000"
  by (induction ps) (auto simp: Let_def split: if_splits prod.splits)

lemma planFlatten_complete:
  "length (fst (planFlatten ps cap)) + length (snd (planFlatten ps cap)) =
     length (filter (\<lambda>p. 0 < vp_qty p) ps)"
  by (induction ps) (auto simp: Let_def split: prod.split)

lemma compromise_plan_ends:
  "hd (planCompromiseResponse c f k) = Act_KILL_SIGNING"
  "last (planCompromiseResponse c f k) = Act_OWNER_ASSET_RESCUE"
  "Act_RECONCILE \<in> set (planCompromiseResponse c f k)"
  by (simp_all add: planCompromiseResponse_def)

lemma fully_revoked_iff: "isFullyRevoked t \<longleftrightarrow> (\<forall>d. domains t d = Rev_REVOKED)"
  unfolding isFullyRevoked_def by (metis revocation_domain.exhaust)

text \<open>A receipt that failed does not stay failed: a later one overwrites it, and the other way round.\<close>

lemma revocation_overwritten:
  "\<exists>t. markRevoked (initRevocationTracker []) ''api'' True = Ok t \<and>
     (\<exists>t'. markRevoked t ''api'' False = Ok t' \<and> domains t' Dom_api = Rev_FAILED)"
  by (simp add: markRevoked_def domain_of_def)

section \<open>Properties\<close>

text \<open>The kill switch never claims a cancel it did not observe: after any sequence of recorded
  outcomes the plan reports, for every open order, the last outcome reported for it, or unknown if
  there was none, and says that everything is cancelled exactly when each open order's last outcome
  is a definitive cancel.\<close>

theorem all_cancelled_iff_observed:
  "cp_plan (fold (\<lambda>out p. recordCancelOutcome p out) outs (planCancelOpen level orders))
     = map (\<lambda>oid. last_outcome oid outs) orders \<and>
   (allCanceled (fold (\<lambda>out p. recordCancelOutcome p out) outs (planCancelOpen level orders))
     \<longleftrightarrow> set orders \<subseteq> {oid. last_outcome oid outs = Cancelled oid})"
  unfolding recorded_plan [THEN conjunct1] recorded_plan [THEN conjunct2]
  by (auto simp: list_all_iff is_cancelled_iff last_outcome_order)

text \<open>A SELL that is allowed never exceeds verified plus definitively released shares, and shares of
  a pending cancel never count.\<close>

lemma reduce_never_oversells:
  "checkReduceAllowed request verified cancelled pending = Ok n \<longleftrightarrow>
     n = request \<and> 0 < request \<and> request \<le> verified + cancelled"
  by (auto simp: checkReduceAllowed_def sellableShares_def Let_def)

end
