(* ===== verification/LeaseStore.thy ===== *)
theory LeaseStore
  imports Database
begin

text \<open>
  \<open>src/pm/venue/src/lease-store.ts\<close>: the per-wallet executor lease with epoch fencing, in memory
  (\<open>MemLeaseStore\<close>) and in PostgreSQL (\<open>PgLeaseStore\<close> with the functions of
  \<open>migrations/0007_permit_order_binding.sql\<close> on the table \<open>executor_leases\<close>). A lease table is a map
  from wallet to lease. The TTL is in whole seconds (the callers pass the literal 30).

  The locale \<open>lease_store\<close> is the contract a fenced executor relies on; \<open>mem_lease\<close> and \<open>pg_lease\<close>
  discharge it.
\<close>

section \<open>State and operations\<close>

record lease =
  ls_epoch :: jsnum
  ls_holder :: string
  ls_expires :: ms

type_synonym leases = "string \<Rightarrow> lease option"

subsection \<open>MemLeaseStore\<close>

definition mem_acquireExecutorLease ::
  "unit \<Rightarrow> ms \<Rightarrow> string \<Rightarrow> string \<Rightarrow> jsnum \<Rightarrow> int \<Rightarrow> (leases, bool) eff" where
  "mem_acquireExecutorLease _ now walletId holder leaseEpoch ttlSeconds ls =
     (let existing = ls walletId;
          shouldAcquire = (case existing of None \<Rightarrow> True
            | Some l \<Rightarrow> num_lt (ls_epoch l) leaseEpoch \<or> ls_expires l < now)
      in if shouldAcquire
         then (Inr True, ls(walletId \<mapsto> \<lparr>ls_epoch = leaseEpoch, ls_holder = holder,
                 ls_expires = now + ttlSeconds * 1000\<rparr>))
         else (Inr False, ls))"

definition mem_releaseExecutorLease :: "unit \<Rightarrow> string \<Rightarrow> string \<Rightarrow> (leases, bool) eff" where
  "mem_releaseExecutorLease _ walletId holder ls =
     (case ls walletId of
        Some l \<Rightarrow> if ls_holder l = holder then (Inr True, ls(walletId := None)) else (Inr False, ls)
      | None \<Rightarrow> (Inr False, ls))"

subsection \<open>PgLeaseStore\<close>

text \<open>What a statement meets: the connection, and the \<open>wallets\<close> table its foreign key refers to.\<close>

record lease_env =
  le_fault :: fault
  le_wallet_known :: "string \<Rightarrow> bool"

definition pg_stmt :: "fault \<Rightarrow> ('d \<Rightarrow> pg_error + ('a \<times> 'd)) \<Rightarrow> ('d, 'a) eff" where
  "pg_stmt fault body = with_txn fault (\<lambda>e. Inl (pg_text e))
     (\<lambda>d. case body d of Inl e \<Rightarrow> Inl e | Inr (x, d') \<Rightarrow> Inr (Inr x, d'))"

fun bigint_column :: "jsnum \<Rightarrow> pg_error + int" where
  "bigint_column (Fin q) =
     (if \<not> rat_is_int q then Inl \<lparr>pg_code = ''22P02'', pg_text = ''invalid input syntax''\<rparr>
      else if \<lfloor>q\<rfloor> < - (2 ^ 63) \<or> 2 ^ 63 \<le> \<lfloor>q\<rfloor> then Inl numeric_overflow else Inr \<lfloor>q\<rfloor>)"
| "bigint_column _ = Inl \<lparr>pg_code = ''22P02'', pg_text = ''invalid input syntax''\<rparr>"

text \<open>The SQL functions: insert, or update under the fencing condition; \<open>FOUND\<close> is the result.\<close>

definition acquire_executor_lease ::
  "(string \<Rightarrow> bool) \<Rightarrow> ms \<Rightarrow> string \<Rightarrow> string \<Rightarrow> int \<Rightarrow> int \<Rightarrow> leases \<Rightarrow> pg_error + (bool \<times> leases)" where
  "acquire_executor_lease wallet_known now wallet holder epoch ttl ls =
     (let row = \<lparr>ls_epoch = Fin (of_int epoch), ls_holder = holder, ls_expires = now + ttl * 1000\<rparr>
      in case ls wallet of
        None \<Rightarrow> if wallet_known wallet then Inr (True, ls(wallet \<mapsto> row)) else Inl fk_violation
      | Some l \<Rightarrow> if num_lt (ls_epoch l) (ls_epoch row) \<or> ls_expires l < now
                  then Inr (True, ls(wallet \<mapsto> row)) else Inr (False, ls))"

definition release_executor_lease :: "string \<Rightarrow> string \<Rightarrow> leases \<Rightarrow> pg_error + (bool \<times> leases)" where
  "release_executor_lease wallet holder ls =
     (case ls wallet of
        Some l \<Rightarrow> if ls_holder l = holder then Inr (True, ls(wallet := None)) else Inr (False, ls)
      | None \<Rightarrow> Inr (False, ls))"

definition pg_acquireExecutorLease ::
  "lease_env \<Rightarrow> ms \<Rightarrow> string \<Rightarrow> string \<Rightarrow> jsnum \<Rightarrow> int \<Rightarrow> (leases, bool) eff" where
  "pg_acquireExecutorLease e now wallet holder epoch ttl = pg_stmt (le_fault e)
     (\<lambda>ls. case bigint_column epoch of Inl err \<Rightarrow> Inl err
        | Inr n \<Rightarrow> acquire_executor_lease (le_wallet_known e) now wallet holder n ttl ls)"

definition pg_releaseExecutorLease :: "lease_env \<Rightarrow> string \<Rightarrow> string \<Rightarrow> (leases, bool) eff" where
  "pg_releaseExecutorLease e wallet holder =
     pg_stmt (le_fault e) (release_executor_lease wallet holder)"

section \<open>The contract\<close>

locale lease_store =
  fixes acquire :: "'e \<Rightarrow> ms \<Rightarrow> string \<Rightarrow> string \<Rightarrow> jsnum \<Rightarrow> int \<Rightarrow> ('s, bool) eff"
    and release :: "'e \<Rightarrow> string \<Rightarrow> string \<Rightarrow> ('s, bool) eff"
    and lookup :: "string \<Rightarrow> 's \<Rightarrow> lease option"
  assumes granted: "acquire e now w h ep ttl s = (Inr True, s') \<Longrightarrow>
      lookup w s' = Some \<lparr>ls_epoch = ep, ls_holder = h, ls_expires = now + ttl * 1000\<rparr> \<and>
      (\<forall>l. lookup w s = Some l \<longrightarrow> num_lt (ls_epoch l) ep \<or> ls_expires l < now)"
    and fenced: "lookup w s = Some l \<Longrightarrow> \<not> num_lt (ls_epoch l) ep \<Longrightarrow> now \<le> ls_expires l \<Longrightarrow>
      acquire e now w h ep ttl s = (x, s') \<Longrightarrow> x \<noteq> Inr True \<and> lookup w s' = Some l"
    and released: "lookup w s = Some l \<Longrightarrow> h \<noteq> ls_holder l \<Longrightarrow> release e w h s = (x, s') \<Longrightarrow>
      x \<noteq> Inr True \<and> lookup w s' = Some l"
begin

text \<open>Only a higher epoch takes over a lease in its time.\<close>

lemma takeover:
  "acquire e now w h ep ttl s = (Inr True, s') \<Longrightarrow> lookup w s = Some l \<Longrightarrow> now \<le> ls_expires l \<Longrightarrow>
     num_lt (ls_epoch l) ep"
  using granted by fastforce

end

text \<open>A sequence of calls on one wallet by executors, each with its environment.\<close>

datatype 'e lease_call = Acquire 'e ms string jsnum int | Release 'e string

fun caller :: "'e lease_call \<Rightarrow> string" where
  "caller (Acquire e now h ep ttl) = h"
| "caller (Release e h) = h"

fun lease_calls ::
  "('e \<Rightarrow> ms \<Rightarrow> string \<Rightarrow> string \<Rightarrow> jsnum \<Rightarrow> int \<Rightarrow> ('s, bool) eff) \<Rightarrow> ('e \<Rightarrow> string \<Rightarrow> string \<Rightarrow> ('s, bool) eff) \<Rightarrow>
     string \<Rightarrow> 'e lease_call list \<Rightarrow> 's \<Rightarrow> (string + bool) list \<times> 's" where
  "lease_calls acquire release w [] s = ([], s)"
| "lease_calls acquire release w (c # cs) s =
     (case (case c of Acquire e now h ep ttl \<Rightarrow> acquire e now w h ep ttl s
            | Release e h \<Rightarrow> release e w h s) of
        (x, s1) \<Rightarrow> (case lease_calls acquire release w cs s1 of (xs, s2) \<Rightarrow> (x # xs, s2)))"

text \<open>A call that cannot displace lease \<open>l\<close>: an acquisition by anyone, not above its epoch and in its time, or a release
  by another holder.\<close>

fun below :: "lease \<Rightarrow> 'e lease_call \<Rightarrow> bool" where
  "below l (Acquire e now h ep ttl) = (\<not> num_lt (ls_epoch l) ep \<and> now \<le> ls_expires l)"
| "below l (Release e h) = (h \<noteq> ls_holder l)"

context lease_store begin

lemma fenced_calls:
  "lookup w s = Some l \<Longrightarrow> list_all (below l) cs \<Longrightarrow> lease_calls acquire release w cs s = (xs, s') \<Longrightarrow>
     lookup w s' = Some l \<and> Inr True \<notin> set xs"
proof (induction cs arbitrary: s xs)
  case Nil
  then show ?case by simp
next
  case (Cons c cs)
  obtain x s1 ys where step: "(case c of Acquire e now h ep ttl \<Rightarrow> acquire e now w h ep ttl s
      | Release e h \<Rightarrow> release e w h s) = (x, s1)"
    and rest: "lease_calls acquire release w cs s1 = (ys, s')" and xs: "xs = x # ys"
    using Cons.prems(3) by (auto split: prod.splits)
  have "x \<noteq> Inr True \<and> lookup w s1 = Some l"
    using step Cons.prems(1,2) by (cases c) (auto dest: fenced released)
  with Cons.IH [OF _ _ rest] Cons.prems(2) xs show ?case by auto
qed

end

section \<open>Both stores keep the contract\<close>

abbreviation lease_of :: "string \<Rightarrow> leases \<Rightarrow> lease option" where
  "lease_of w ls \<equiv> ls w"

interpretation mem_lease: lease_store mem_acquireExecutorLease mem_releaseExecutorLease lease_of
  by unfold_locales
    (auto simp: mem_acquireExecutorLease_def mem_releaseExecutorLease_def Let_def
      split: option.splits if_splits)

lemma pg_stmt_cases:
  assumes "pg_stmt fault body d = (x, d')"
  obtains (same) "d' = d" and "\<And>y. x \<noteq> Inr y"
  | (ran) y where "body d = Inr (y, d')" and "x = Inr y \<or> (\<exists>e. x = Inl e)"
  using assms by (cases fault) (auto simp: pg_stmt_def split: sum.splits prod.splits)

lemma bigint_column_value: "bigint_column ep = Inr n \<Longrightarrow> Fin (of_int n) = ep"
  by (cases ep) (auto simp: rat_is_int_def split: if_splits)

lemmas pg_lease_defs = pg_acquireExecutorLease_def pg_releaseExecutorLease_def
  acquire_executor_lease_def release_executor_lease_def

interpretation pg_lease: lease_store pg_acquireExecutorLease pg_releaseExecutorLease lease_of
proof unfold_locales
  fix e now w h ep ttl s s'
  assume "pg_acquireExecutorLease e now w h ep ttl s = (Inr True, s')"
  then show "lease_of w s' = Some \<lparr>ls_epoch = ep, ls_holder = h, ls_expires = now + ttl * 1000\<rparr> \<and>
      (\<forall>l. lease_of w s = Some l \<longrightarrow> num_lt (ls_epoch l) ep \<or> ls_expires l < now)"
    unfolding pg_lease_defs
    by (rule pg_stmt_cases)
      (auto simp: Let_def dest!: bigint_column_value split: sum.splits option.splits if_splits)
next
  fix w s l ep now e h ttl x s'
  assume "lease_of w s = Some l" "\<not> num_lt (ls_epoch l) ep" "now \<le> ls_expires l"
    "pg_acquireExecutorLease e now w h ep ttl s = (x, s')"
  from this(4,1,2,3) show "x \<noteq> Inr True \<and> lease_of w s' = Some l"
    unfolding pg_lease_defs
    by (auto elim!: pg_stmt_cases simp: Let_def dest!: bigint_column_value split: sum.splits if_splits)
next
  fix w s l h e x s'
  assume "lease_of w s = Some l" "h \<noteq> ls_holder l" "pg_releaseExecutorLease e w h s = (x, s')"
  from this(3,1,2) show "x \<noteq> Inr True \<and> lease_of w s' = Some l"
    unfolding pg_lease_defs by (auto elim!: pg_stmt_cases split: if_splits)
qed

section \<open>Properties\<close>

text \<open>C22. Epoch fencing, in PostgreSQL and in memory: while a lease is live, no sequence of acquire calls at its epoch or
  below - by any caller, one that uses the lease's own holder name included - and of release calls under other holder
  names is granted or moves the lease, whatever connection faults the calls meet.\<close>

theorem stale_executors_are_fenced:
  assumes "ls w = Some l" and "list_all (below l) cs" and "list_all (below l) ms"
    and "lease_calls pg_acquireExecutorLease pg_releaseExecutorLease w cs ls = (xs, ls')"
    and "lease_calls mem_acquireExecutorLease mem_releaseExecutorLease w ms ls = (ys, ls'')"
  shows "ls' w = Some l \<and> Inr True \<notin> set xs \<and> ls'' w = Some l \<and> Inr True \<notin> set ys"
  using pg_lease.fenced_calls [OF assms(1,2,4)] mem_lease.fenced_calls [OF assms(1,3,5)] by blast

theorem stale_executors_are_fenced_witness:
  "\<exists>e l xs ls' ys ls''. ls_epoch l = Fin 5 \<and> lease_calls pg_acquireExecutorLease pg_releaseExecutorLease ''w''
      [Acquire e 1000 ''a'' (Fin 5) 30, Release e ''b'', Acquire e 29999 ''c'' (Fin 4) 30]
      [''w'' \<mapsto> l] = (xs, ls') \<and> ls' ''w'' = Some l \<and> Inr True \<notin> set xs \<and>
     lease_calls mem_acquireExecutorLease mem_releaseExecutorLease ''w''
      [Acquire () 1000 ''a'' (Fin 4) 30, Release () ''b''] [''w'' \<mapsto> l] = (ys, ls'') \<and> ls'' ''w'' = Some l"
proof -
  define e where "e = \<lparr>le_fault = NoFault, le_wallet_known = (\<lambda>_ :: string. True)\<rparr>"
  define l where "l = \<lparr>ls_epoch = Fin 5, ls_holder = ''a'', ls_expires = 30000\<rparr>"
  define cs where "cs = [Acquire e 1000 ''a'' (Fin 5) 30, Release e ''b'', Acquire e 29999 ''c'' (Fin 4) 30]"
  define ms where "ms = [Acquire () 1000 ''a'' (Fin 4) 30, Release () ''b'']"
  obtain xs ls' where run: "lease_calls pg_acquireExecutorLease pg_releaseExecutorLease ''w'' cs
      [''w'' \<mapsto> l] = (xs, ls')" by fastforce
  obtain ys ls'' where mrun: "lease_calls mem_acquireExecutorLease mem_releaseExecutorLease ''w'' ms
      [''w'' \<mapsto> l] = (ys, ls'')" by fastforce
  have "list_all (below l) cs" "list_all (below l) ms" by (simp_all add: cs_def ms_def l_def)
  from stale_executors_are_fenced [OF _ this run mrun]
  have "ls' ''w'' = Some l \<and> Inr True \<notin> set xs \<and> ls'' ''w'' = Some l" by simp
  moreover have "ls_epoch l = Fin 5" by (simp add: l_def)
  ultimately show ?thesis using run mrun unfolding cs_def ms_def by blast
qed

text \<open>The holder's name is all that a release checks: a stale executor that uses the same name, as every process of
  \<open>main.ts\<close> does, gives the live lease of its successor back, and a third one then acquires it at any epoch.\<close>

lemma same_name_unfences:
  assumes "ls w = Some l" and "le_fault e = NoFault" and "le_wallet_known e w" and "bigint_column ep = Inr n"
  shows "\<exists>ls'. pg_releaseExecutorLease e w (ls_holder l) ls = (Inr True, ls') \<and>
    (\<exists>ls''. pg_acquireExecutorLease e now w h ep ttl ls' = (Inr True, ls''))"
  using assms by (simp add: pg_lease_defs pg_stmt_def)

text \<open>A live lease is only ever taken over by a strictly higher epoch: if \<open>PgLeaseStore\<close> grants
  a lease while another one on the wallet has not expired, the new epoch is above the old one, and
  the table then holds exactly the new lease.\<close>

theorem lease_takeover_raises_epoch:
  assumes "pg_acquireExecutorLease e now w h ep ttl ls = (Inr True, ls')"
    and "ls w = Some l" and "now \<le> ls_expires l"
  shows "num_lt (ls_epoch l) ep \<and>
    ls' w = Some \<lparr>ls_epoch = ep, ls_holder = h, ls_expires = now + ttl * 1000\<rparr>"
  using pg_lease.takeover [OF assms] pg_lease.granted [OF assms(1)] by blast

theorem lease_takeover_raises_epoch_witness:
  "\<exists>ls'. pg_acquireExecutorLease \<lparr>le_fault = NoFault, le_wallet_known = (\<lambda>_. True)\<rparr> 1000 ''w'' ''b''
      (Fin 6) 30 [''w'' \<mapsto> \<lparr>ls_epoch = Fin 5, ls_holder = ''a'', ls_expires = 30000\<rparr>] = (Inr True, ls') \<and>
    ls' ''w'' = Some \<lparr>ls_epoch = Fin 6, ls_holder = ''b'', ls_expires = 31000\<rparr>"
proof -
  let ?ls = "[''w'' \<mapsto> \<lparr>ls_epoch = Fin 5, ls_holder = ''a'', ls_expires = 30000\<rparr>]"
  let ?r = "pg_acquireExecutorLease \<lparr>le_fault = NoFault, le_wallet_known = (\<lambda>_. True)\<rparr> 1000 ''w'' ''b''
      (Fin 6) 30 ?ls"
  have run: "?r = (Inr True, snd ?r)"
    by (simp add: pg_lease_defs pg_stmt_def rat_is_int_def)
  from lease_takeover_raises_epoch [OF run] run show ?thesis by fastforce
qed

end
