(* ===== verification/EventLog.thy ===== *)
theory EventLog
  imports LeaseStore
begin

text \<open>
  The append-only event log of \<open>src/pm/ledger/src\<close>: \<open>InMemoryEventStore\<close> (\<open>event-store.ts\<close>) and
  \<open>PgEventStore\<close> (\<open>pg-event-store.ts\<close>) over the \<open>kernel_events\<close> table. A payload is opaque here.

  The locale \<open>event_log\<close> is the \<open>EventStore\<close> port; both stores are interpretations. \<open>numbered_log\<close>
  extends it for a store whose replay carries the sequence numbers, which only the PostgreSQL one does.
\<close>

section \<open>Events\<close>

datatype ledger_event_type = INTENT_PROPOSED | RISK_DECISION | RESERVATION_CREATED | RESERVATION_CONSUMED
  | RESERVATION_RELEASED | ORDER_SIGNED | ORDER_SUBMITTED | ORDER_FILLED | ORDER_PARTIAL
  | ORDER_CANCELLED | ORDER_REJECTED | ORDER_EXPIRED | FUNDS_TRANSFERRED | POSITION_UPDATED
  | PNL_REALIZED | CORRECTION | EXTERNAL_ACTIVITY | SETTLEMENT | REDEEM

record 'p ledger_event =
  ev_id :: uuid
  ev_type :: ledger_event_type
  ev_aggregate :: string
  ev_payload :: 'p
  ev_seq_hint :: "int option"

definition LedgerEventSchema :: "(string \<Rightarrow> bool) \<Rightarrow> 'p ledger_event \<Rightarrow> bool" where
  "LedgerEventSchema is_uuid ev \<longleftrightarrow> is_uuid (ev_id ev) \<and> ev_aggregate ev \<noteq> []"

record append_result =
  ar_sequence :: "int option"
  created :: bool

definition invalid_event :: string where
  "invalid_event = ''invalid LedgerEvent''"

text \<open>The filter \<open>cursor.aggregateId\<close>: only a non-empty string filters.\<close>

definition of_aggregate :: "string option \<Rightarrow> 'p ledger_event \<Rightarrow> bool" where
  "of_aggregate agg ev \<longleftrightarrow> \<not> truthy agg \<or> agg = Some (ev_aggregate ev)"

section \<open>InMemoryEventStore\<close>

record 'p mem_log =
  ml_events :: "(uuid \<times> 'p ledger_event) list"
  bySequence :: "(int \<times> uuid) list"
  nextSeq :: int

definition mem_log_empty :: "'p mem_log" where
  "mem_log_empty = \<lparr>ml_events = [], bySequence = [], nextSeq = 1\<rparr>"

definition findSequence :: "uuid \<Rightarrow> 'p mem_log \<Rightarrow> int option" where
  "findSequence i s = map_option fst (find (\<lambda>(q, j). j = i) (bySequence s))"

definition mem_append ::
  "(string \<Rightarrow> bool) \<Rightarrow> unit \<Rightarrow> 'p ledger_event \<Rightarrow> 'p mem_log \<Rightarrow> (string + append_result) \<times> 'p mem_log" where
  "mem_append is_uuid _ ev s =
     (if \<not> LedgerEventSchema is_uuid ev then (Inl invalid_event, s)
      else case map_of (ml_events s) (ev_id ev) of
        Some _ \<Rightarrow> (Inr \<lparr>ar_sequence = findSequence (ev_id ev) s, created = False\<rparr>, s)
      | None \<Rightarrow>
          (let q = (case ev_seq_hint ev of Some h \<Rightarrow> if nextSeq s \<le> h then h else nextSeq s | None \<Rightarrow> nextSeq s)
           in (Inr \<lparr>ar_sequence = Some q, created = True\<rparr>,
               \<lparr>ml_events = map_set (ev_id ev) ev (ml_events s), bySequence = map_set q (ev_id ev) (bySequence s),
                nextSeq = (if nextSeq s \<le> q then q + 1 else nextSeq s)\<rparr>)))"

text \<open>One append after another; the first invalid event throws, what came before it stays.\<close>

fun mem_appendMany ::
  "(string \<Rightarrow> bool) \<Rightarrow> 'p ledger_event list \<Rightarrow> 'p mem_log \<Rightarrow> (string + append_result list) \<times> 'p mem_log" where
  "mem_appendMany is_uuid [] s = (Inr [], s)"
| "mem_appendMany is_uuid (ev # evs) s =
     (case mem_append is_uuid () ev s of
        (Inl err, s1) \<Rightarrow> (Inl err, s1)
      | (Inr r, s1) \<Rightarrow> (case mem_appendMany is_uuid evs s1 of
          (Inl err, s2) \<Rightarrow> (Inl err, s2) | (Inr rs, s2) \<Rightarrow> (Inr (r # rs), s2)))"

definition mem_getEvent :: "uuid \<Rightarrow> 'p mem_log \<Rightarrow> 'p ledger_event option" where
  "mem_getEvent i s = map_of (ml_events s) i"

text \<open>\<open>replay\<close>: a missing or zero limit takes all. The events carry no sequence.\<close>

definition mem_replay ::
  "nat option \<Rightarrow> int \<Rightarrow> string option \<Rightarrow> 'p mem_log \<Rightarrow> (int option \<times> 'p ledger_event) list" where
  "mem_replay limit start agg s =
     (let ids = map snd (filter (\<lambda>(q, i). start \<le> q \<and>
            (\<not> truthy agg \<or> (case map_of (ml_events s) i of None \<Rightarrow> False | Some ev \<Rightarrow> agg = Some (ev_aggregate ev))))
          (bySequence s));
          ordered = sort_key (\<lambda>i. the (findSequence i s)) ids;
          sliced = (case limit of Some n \<Rightarrow> if n = 0 then ordered else take n ordered | None \<Rightarrow> ordered)
      in map (\<lambda>i. (None, the (map_of (ml_events s) i))) sliced)"

definition mem_lastSequence :: "'p mem_log \<Rightarrow> int" where
  "mem_lastSequence s = nextSeq s - 1"

definition mem_count :: "'p mem_log \<Rightarrow> nat" where
  "mem_count s = length (ml_events s)"

section \<open>PgEventStore\<close>

text \<open>The table, and the sequence \<open>kernel_events_seq\<close>, which a conflicting or aborted insert also advances.\<close>

record 'p pg_log =
  ke_rows :: "(int \<times> 'p ledger_event) list"
  ke_next :: int

definition pg_find :: "uuid \<Rightarrow> 'p pg_log \<Rightarrow> int option" where
  "pg_find i s = map_option fst (find (\<lambda>(q, ev). ev_id ev = i) (ke_rows s))"

definition insert_event :: "'p ledger_event \<Rightarrow> 'p pg_log \<Rightarrow> append_result \<times> 'p pg_log" where
  "insert_event ev s =
     (let q = ke_next s in
      case pg_find (ev_id ev) s of
        Some q0 \<Rightarrow> (\<lparr>ar_sequence = Some q0, created = False\<rparr>, s\<lparr>ke_next := q + 1\<rparr>)
      | None \<Rightarrow> (\<lparr>ar_sequence = Some q, created = True\<rparr>,
                 \<lparr>ke_rows = ke_rows s @ [(q, ev)], ke_next = q + 1\<rparr>))"

definition pg_append ::
  "(string \<Rightarrow> bool) \<Rightarrow> fault \<Rightarrow> 'p ledger_event \<Rightarrow> 'p pg_log \<Rightarrow> (string + append_result) \<times> 'p pg_log" where
  "pg_append is_uuid fault ev s =
     (if \<not> LedgerEventSchema is_uuid ev then (Inl invalid_event, s)
      else case fault of
        NoFault \<Rightarrow> (case insert_event ev s of (r, s') \<Rightarrow> (Inr r, s'))
      | Aborted err \<Rightarrow> (Inl (pg_text err), s\<lparr>ke_next := ke_next s + 1\<rparr>)
      | CommitLost err \<Rightarrow> (Inl (pg_text err), snd (insert_event ev s)))"

text \<open>
  \<open>appendMany\<close>: one transaction. An invalid event, or the failure of the statement numbered
  \<open>fails_at\<close>, throws and leaves the rows as they were; the numbers drawn stay drawn.
\<close>

fun insert_batch ::
  "(string \<Rightarrow> bool) \<Rightarrow> nat option \<Rightarrow> 'p ledger_event list \<Rightarrow> 'p pg_log \<Rightarrow>
     (string + append_result list) \<times> 'p pg_log" where
  "insert_batch is_uuid fails_at [] s =
     (if fails_at = Some 0 then (Inl ''commit failed'', s) else (Inr [], s))"
| "insert_batch is_uuid fails_at (ev # evs) s =
     (if \<not> LedgerEventSchema is_uuid ev then (Inl invalid_event, s)
      else if fails_at = Some 0 then (Inl ''statement failed'', s)
      else case insert_event ev s of (r, s1) \<Rightarrow>
        (case insert_batch is_uuid (map_option (\<lambda>k. k - 1) fails_at) evs s1 of
           (Inl err, s2) \<Rightarrow> (Inl err, s2) | (Inr rs, s2) \<Rightarrow> (Inr (r # rs), s2)))"

definition pg_appendMany ::
  "(string \<Rightarrow> bool) \<Rightarrow> nat option \<Rightarrow> 'p ledger_event list \<Rightarrow> 'p pg_log \<Rightarrow>
     (string + append_result list) \<times> 'p pg_log" where
  "pg_appendMany is_uuid fails_at evs s =
     (case insert_batch is_uuid fails_at evs s of
        (Inl err, s') \<Rightarrow> (Inl err, s'\<lparr>ke_rows := ke_rows s\<rparr>)
      | (Inr rs, s') \<Rightarrow> (Inr rs, s'))"

definition pg_getEvent :: "uuid \<Rightarrow> 'p pg_log \<Rightarrow> 'p ledger_event option" where
  "pg_getEvent i s = map_option snd (find (\<lambda>(q, ev). ev_id ev = i) (ke_rows s))"

text \<open>\<open>replay\<close> reads the rows in sequence order; the limit of the cursor is not used.\<close>

definition pg_replay ::
  "nat option \<Rightarrow> int \<Rightarrow> string option \<Rightarrow> 'p pg_log \<Rightarrow> (int option \<times> 'p ledger_event) list" where
  "pg_replay limit start agg s =
     map (\<lambda>(q, ev). (Some q, ev))
       (sort_key fst (filter (\<lambda>(q, ev). start \<le> q \<and> of_aggregate agg ev) (ke_rows s)))"

definition pg_lastSequence :: "'p pg_log \<Rightarrow> int" where
  "pg_lastSequence s = fold max (map fst (ke_rows s)) 0"

definition pg_count :: "'p pg_log \<Rightarrow> nat" where
  "pg_count s = length (ke_rows s)"

section \<open>The EventStore port\<close>

text \<open>The history of a log: its events with their numbers, oldest first.\<close>

definition well_numbered :: "(int \<times> 'p ledger_event) list \<Rightarrow> bool" where
  "well_numbered h \<longleftrightarrow> sorted_wrt (<) (map fst h) \<and> distinct (map (ev_id \<circ> snd) h)"

fun appends :: "('x \<Rightarrow> 'p ledger_event \<Rightarrow> 's \<Rightarrow> (string + append_result) \<times> 's) \<Rightarrow>
    ('x \<times> 'p ledger_event) list \<Rightarrow> 's \<Rightarrow> (string + append_result) list \<times> 's" where
  "appends add_ev [] s = ([], s)"
| "appends add_ev ((x, ev) # calls) s =
     (case add_ev x ev s of (r, s1) \<Rightarrow> (case appends add_ev calls s1 of (rs, s2) \<Rightarrow> (r # rs, s2)))"

definition acknowledged :: "(int \<times> 'p ledger_event) list \<Rightarrow> 'x \<times> 'p ledger_event \<Rightarrow> string + append_result \<Rightarrow> bool" where
  "acknowledged h call r \<longleftrightarrow> (\<forall>a. r = Inr a \<longrightarrow>
     (\<exists>q ev0. ar_sequence a = Some q \<and> (q, ev0) \<in> set h \<and> ev_id ev0 = ev_id (snd call)))"

lemma acknowledged_mono: "acknowledged h call r \<Longrightarrow> set h \<subseteq> set h' \<Longrightarrow> acknowledged h' call r"
  unfolding acknowledged_def by blast

locale event_log =
  fixes log_ok :: "'s \<Rightarrow> bool"
    and history :: "'s \<Rightarrow> (int \<times> 'p ledger_event) list"
    and add_ev :: "'x \<Rightarrow> 'p ledger_event \<Rightarrow> 's \<Rightarrow> (string + append_result) \<times> 's"
    and replay :: "int \<Rightarrow> string option \<Rightarrow> 's \<Rightarrow> (int option \<times> 'p ledger_event) list"
  assumes numbered: "log_ok s \<Longrightarrow> well_numbered (history s)"
    and from_one: "log_ok s \<Longrightarrow> (q, ev) \<in> set (history s) \<Longrightarrow> 1 \<le> q"
    and append_keeps: "log_ok s \<Longrightarrow> add_ev x ev s = (r, s') \<Longrightarrow> log_ok s'"
    and append_history: "log_ok s \<Longrightarrow> add_ev x ev s = (r, s') \<Longrightarrow>
      history s' = history s \<or> (\<exists>q. history s' = history s @ [(q, ev)])"
    and append_answer: "log_ok s \<Longrightarrow> add_ev x ev s = (Inr a, s') \<Longrightarrow>
      (created a \<longleftrightarrow> history s' \<noteq> history s) \<and>
      (\<exists>q ev0. ar_sequence a = Some q \<and> (q, ev0) \<in> set (history s') \<and> ev_id ev0 = ev_id ev)"
    and replay_history: "log_ok s \<Longrightarrow>
      map snd (replay start agg s) = map snd (filter (\<lambda>(q, ev). start \<le> q \<and> of_aggregate agg ev) (history s))"
begin

text \<open>Over any sequence of appends the history only grows, and every acknowledged event is in it.\<close>

lemma appends_history:
  "log_ok s \<Longrightarrow> appends add_ev calls s = (rs, s') \<Longrightarrow>
     log_ok s' \<and> (\<exists>new. history s' = history s @ new \<and> set (map snd new) \<subseteq> set (map snd calls)) \<and>
     list_all2 (acknowledged (history s')) calls rs"
proof (induction calls arbitrary: s rs)
  case Nil
  then show ?case by simp
next
  case (Cons call calls)
  obtain x ev where call: "call = (x, ev)" by (cases call)
  obtain r s1 rs1 where 1: "add_ev x ev s = (r, s1)" and 2: "appends add_ev calls s1 = (rs1, s')"
    and rs: "rs = r # rs1"
    using Cons.prems(2) by (auto simp: call split: prod.splits)
  have ok: "log_ok s1" by (rule append_keeps [OF Cons.prems(1) 1])
  from Cons.IH [OF ok 2] obtain new where ih: "log_ok s'" "history s' = history s1 @ new"
    "set (map snd new) \<subseteq> set (map snd calls)"
    "list_all2 (acknowledged (history s')) calls rs1"
    by blast
  from append_history [OF Cons.prems(1) 1] have
    "\<exists>new'. history s' = history s @ new' \<and> set (map snd new') \<subseteq> set (map snd (call # calls))"
    using ih(2,3) by (fastforce simp: call)
  moreover have "acknowledged (history s1) call r"
    using append_answer [OF Cons.prems(1)] 1 by (auto simp: acknowledged_def call)
  then have "acknowledged (history s') call r" by (rule acknowledged_mono) (simp add: ih(2))
  ultimately show ?case using ih(1,4) by (simp add: rs)
qed

text \<open>Appending an event again, under an id the log has, is answered with its number and changes nothing.\<close>

lemma appended_again:
  assumes ok: "log_ok s" and old: "(q, ev0) \<in> set (history s)" "ev_id ev0 = ev_id ev"
    and run: "add_ev x ev s = (Inr a, s')"
  shows "a = \<lparr>ar_sequence = Some q, created = False\<rparr> \<and> history s' = history s"
proof -
  have wn: "well_numbered (history s')" by (rule numbered [OF append_keeps [OF ok run]])
  have "ev_id ev \<in> (ev_id \<circ> snd) ` set (history s)" using old by force
  then have "\<not> well_numbered (history s @ [(q', ev)])" for q' by (simp add: well_numbered_def)
  then have same: "history s' = history s" using append_history [OF ok run] wn by metis
  from append_answer [OF ok run] same obtain q1 ev1 where a: "\<not> created a" "ar_sequence a = Some q1"
    "(q1, ev1) \<in> set (history s)" "ev_id ev1 = ev_id ev" by auto
  have "inj_on (ev_id \<circ> snd) (set (history s))" using wn same by (simp add: well_numbered_def distinct_map)
  from inj_onD [OF this _ a(3) old(1)] a(4) old(2) have "(q1, ev1) = (q, ev0)" by simp
  with a same show ?thesis by simp
qed

text \<open>Reading from a number on: what is below it has been read before.\<close>

lemma replay_all: "log_ok s \<Longrightarrow> map snd (replay 1 None s) = map snd (history s)"
  by (subst replay_history)
    (auto simp: of_aggregate_def from_one intro!: arg_cong [where f = "map snd"] filter_True)

end

locale numbered_log = event_log +
  assumes replay_numbers: "log_ok s \<Longrightarrow>
    replay start agg s = map (\<lambda>(q, ev). (Some q, ev)) (filter (\<lambda>(q, ev). start \<le> q \<and> of_aggregate agg ev) (history s))"

section \<open>Both stores are event logs\<close>

definition mem_history :: "'p mem_log \<Rightarrow> (int \<times> 'p ledger_event) list" where
  "mem_history s = map (\<lambda>(q, i). (q, the (map_of (ml_events s) i))) (bySequence s)"

definition mem_log_ok :: "'p mem_log \<Rightarrow> bool" where
  "mem_log_ok s \<longleftrightarrow> map snd (bySequence s) = map fst (ml_events s) \<and> distinct (map fst (ml_events s)) \<and>
     sorted_wrt (<) (map fst (bySequence s)) \<and> (\<forall>q \<in> fst ` set (bySequence s). 1 \<le> q \<and> q < nextSeq s) \<and>
     (\<forall>(i, ev) \<in> set (ml_events s). ev_id ev = i) \<and> 1 \<le> nextSeq s"

definition pg_log_ok :: "'p pg_log \<Rightarrow> bool" where
  "pg_log_ok s \<longleftrightarrow> well_numbered (ke_rows s) \<and> (\<forall>q \<in> fst ` set (ke_rows s). 1 \<le> q \<and> q < ke_next s) \<and> 1 \<le> ke_next s"

lemma find_pair:
  "distinct (map snd xs) \<Longrightarrow> (q, i) \<in> set xs \<Longrightarrow> find (\<lambda>(q, j). j = i) xs = Some (q, i)"
  by (induction xs) (auto simp: image_iff split: prod.splits)

lemma find_snd_None: "i \<notin> snd ` set xs \<Longrightarrow> find (\<lambda>(q, j). j = i) xs = None"
  by (induction xs) auto

lemma sorted_wrt_less_snoc:
  "sorted_wrt (<) xs \<Longrightarrow> (\<forall>x \<in> set xs. x < (q :: int)) \<Longrightarrow> sorted_wrt (<) (xs @ [q])"
  by (simp add: sorted_wrt_append)

lemma mem_history_fst: "map fst (mem_history s) = map fst (bySequence s)"
  by (simp add: mem_history_def comp_def case_prod_unfold)

lemma mem_ids: "mem_log_ok s \<Longrightarrow> map (ev_id \<circ> snd) (mem_history s) = map snd (bySequence s)"
proof -
  assume ok: "mem_log_ok s"
  have "ev_id (the (map_of (ml_events s) i)) = i" if "(q, i) \<in> set (bySequence s)" for q i
  proof -
    have "i \<in> set (map fst (ml_events s))" using ok that by (metis mem_log_ok_def imageI set_map snd_conv)
    then obtain ev where "map_of (ml_events s) i = Some ev" by (metis map_of_eq_None_iff not_None_eq set_map)
    with ok show ?thesis by (auto simp: mem_log_ok_def dest: map_of_SomeD)
  qed
  then show ?thesis by (auto simp: mem_history_def)
qed

lemma mem_numbered: "mem_log_ok s \<Longrightarrow> well_numbered (mem_history s)"
  using mem_ids [of s] by (simp add: well_numbered_def mem_history_fst mem_log_ok_def)

text \<open>An append either changes nothing or adds one event under a number above all others.\<close>

lemma mem_append_cases:
  assumes ok: "mem_log_ok s" and run: "mem_append is_uuid x ev s = (r, s')"
  obtains (unchanged) "s' = s" "(\<exists>e. r = Inl e) \<or> (\<exists>ev0. map_of (ml_events s) (ev_id ev) = Some ev0 \<and>
      r = Inr \<lparr>ar_sequence = findSequence (ev_id ev) s, created = False\<rparr>)"
  | (added) q where "ev_id ev \<notin> fst ` set (ml_events s)" "nextSeq s \<le> q"
      "r = Inr \<lparr>ar_sequence = Some q, created = True\<rparr>"
      "s' = \<lparr>ml_events = ml_events s @ [(ev_id ev, ev)], bySequence = bySequence s @ [(q, ev_id ev)],
        nextSeq = q + 1\<rparr>"
proof (cases "LedgerEventSchema is_uuid ev \<and> map_of (ml_events s) (ev_id ev) = None")
  case False
  with run show ?thesis by (intro unchanged) (auto simp: mem_append_def split: if_splits option.splits)
next
  case True
  then have fresh: "ev_id ev \<notin> fst ` set (ml_events s)" by (simp add: map_of_eq_None_iff)
  define q where "q = (case ev_seq_hint ev of Some h \<Rightarrow> if nextSeq s \<le> h then h else nextSeq s | None \<Rightarrow> nextSeq s)"
  have q: "nextSeq s \<le> q" by (simp add: q_def split: option.split)
  have "q \<notin> fst ` set (bySequence s)" using ok q by (fastforce simp: mem_log_ok_def)
  with run True fresh q show ?thesis
    by (intro added [of q]) (auto simp: mem_append_def Let_def q_def [symmetric] map_set_fresh)
qed

lemma mem_history_added:
  assumes ok: "mem_log_ok s" and "ev_id ev \<notin> fst ` set (ml_events s)"
  shows "mem_history \<lparr>ml_events = ml_events s @ [(ev_id ev, ev)], bySequence = bySequence s @ [(q, ev_id ev)],
    nextSeq = n\<rparr> = mem_history s @ [(q, ev)]"
proof -
  have "map_of (ml_events s @ [(ev_id ev, ev)]) i = map_of (ml_events s) i" if "(p, i) \<in> set (bySequence s)" for p i
  proof -
    have "i \<in> set (map fst (ml_events s))" using ok that by (metis mem_log_ok_def imageI set_map snd_conv)
    then obtain ev0 where "map_of (ml_events s) i = Some ev0" by (metis map_of_eq_None_iff not_None_eq set_map)
    then show ?thesis by (simp add: map_add_def)
  qed
  moreover have "map_of (ml_events s) (ev_id ev) = None" using assms(2) by (simp add: map_of_eq_None_iff)
  ultimately show ?thesis by (auto simp: mem_history_def map_add_def)
qed

lemma mem_replay_history:
  assumes ok: "mem_log_ok s"
  shows "map snd (mem_replay None start agg s) =
    map snd (filter (\<lambda>(q, ev). start \<le> q \<and> of_aggregate agg ev) (mem_history s))"
proof -
  let ?P = "\<lambda>(q, i). start \<le> q \<and> (\<not> truthy agg \<or>
     (case map_of (ml_events s) i of None \<Rightarrow> False | Some ev \<Rightarrow> agg = Some (ev_aggregate ev)))"
  have dist: "distinct (map snd (bySequence s))" and sorted: "sorted_wrt (<) (map fst (bySequence s))"
    using ok by (auto simp: mem_log_ok_def)
  have known: "\<exists>ev. map_of (ml_events s) i = Some ev" if "(q, i) \<in> set (bySequence s)" for q i
  proof -
    have "i \<in> set (map fst (ml_events s))" using ok that by (metis mem_log_ok_def imageI set_map snd_conv)
    then show ?thesis by (metis map_of_eq_None_iff not_None_eq set_map)
  qed
  have seq: "the (findSequence i s) = q" if "(q, i) \<in> set (bySequence s)" for q i
    using find_pair [OF dist that] by (simp add: findSequence_def)
  have "map (\<lambda>i. the (findSequence i s)) (map snd (filter ?P (bySequence s))) = map fst (filter ?P (bySequence s))"
    using seq by (auto simp: case_prod_unfold)
  moreover have "sorted (map fst (filter ?P (bySequence s)))"
    using sorted by (intro sorted_filter strict_sorted_imp_sorted) (simp add: strict_sorted_iff)
  ultimately have "sorted (map (\<lambda>i. the (findSequence i s)) (map snd (filter ?P (bySequence s))))"
    by (simp only:)
  then have "sort_key (\<lambda>i. the (findSequence i s)) (map snd (filter ?P (bySequence s)))
      = map snd (filter ?P (bySequence s))"
    by (rule sort_key_id_if_sorted)
  then have "map snd (mem_replay None start agg s)
      = map (\<lambda>i. the (map_of (ml_events s) i)) (map snd (filter ?P (bySequence s)))"
    by (simp add: mem_replay_def Let_def comp_def)
  moreover have "filter ?P (bySequence s) = filter ((\<lambda>(q, ev). start \<le> q \<and> of_aggregate agg ev) \<circ>
      (\<lambda>(q, i). (q, the (map_of (ml_events s) i)))) (bySequence s)"
    using known by (intro filter_cong) (fastforce simp: of_aggregate_def)+
  ultimately show ?thesis by (simp add: mem_history_def filter_map case_prod_unfold comp_def)
qed

lemma findSequence_mem:
  assumes ok: "mem_log_ok s" and ev: "map_of (ml_events s) i = Some ev"
  shows "\<exists>q ev0. findSequence i s = Some q \<and> (q, ev0) \<in> set (mem_history s) \<and> ev_id ev0 = i"
proof -
  have "i \<in> set (map snd (bySequence s))"
    using ok ev by (auto simp: mem_log_ok_def intro: rev_image_eqI dest!: map_of_SomeD)
  then obtain q where q: "(q, i) \<in> set (bySequence s)" by auto
  moreover have "findSequence i s = Some q"
    using find_pair [OF _ q] ok by (simp add: findSequence_def mem_log_ok_def)
  moreover have "ev_id ev = i" using ok ev by (auto simp: mem_log_ok_def dest!: map_of_SomeD)
  ultimately show ?thesis using ev by (force simp: mem_history_def)
qed

lemma mem_added_ok:
  assumes "mem_log_ok s" and "ev_id ev \<notin> fst ` set (ml_events s)" and "nextSeq s \<le> q"
  shows "mem_log_ok \<lparr>ml_events = ml_events s @ [(ev_id ev, ev)], bySequence = bySequence s @ [(q, ev_id ev)],
    nextSeq = q + 1\<rparr>"
  using assms by (fastforce simp: mem_log_ok_def sorted_wrt_append)

interpretation mem_log: event_log mem_log_ok mem_history "mem_append is_uuid" "mem_replay None" for is_uuid
proof unfold_locales
  fix s :: "'a mem_log" and x ev r s'
  assume ok: "mem_log_ok s" and run: "mem_append is_uuid x ev s = (r, s')"
  from ok run show "mem_log_ok s'"
    by (cases rule: mem_append_cases) (auto simp: ok intro: mem_added_ok [OF ok])
  from ok run show "mem_history s' = mem_history s \<or> (\<exists>q. mem_history s' = mem_history s @ [(q, ev)])"
    by (cases rule: mem_append_cases) (auto simp: ok mem_history_added)
next
  fix s :: "'a mem_log" and x ev a s'
  assume ok: "mem_log_ok s" and run: "mem_append is_uuid x ev s = (Inr a, s')"
  from ok run show "(created a \<longleftrightarrow> mem_history s' \<noteq> mem_history s) \<and>
      (\<exists>q ev0. ar_sequence a = Some q \<and> (q, ev0) \<in> set (mem_history s') \<and> ev_id ev0 = ev_id ev)"
    by (cases rule: mem_append_cases) (use findSequence_mem [OF ok] in \<open>auto simp: ok mem_history_added\<close>)
qed (simp_all add: mem_numbered mem_replay_history, auto simp: mem_history_def mem_log_ok_def)

text \<open>The table.\<close>

lemma pg_find_Some: "pg_find i s = Some q \<Longrightarrow> \<exists>ev. (q, ev) \<in> set (ke_rows s) \<and> ev_id ev = i"
  by (auto simp: pg_find_def find_Some_iff) (metis nth_mem)

lemma pg_find_None: "pg_find i s = None \<longleftrightarrow> (\<forall>(q, ev) \<in> set (ke_rows s). ev_id ev \<noteq> i)"
  by (auto simp: pg_find_def find_None_iff)

lemma insert_event_cases:
  assumes ok: "pg_log_ok s" and run: "insert_event ev s = (a, s')"
  shows "pg_log_ok s'" and "ke_rows s' = ke_rows s \<or> ke_rows s' = ke_rows s @ [(ke_next s, ev)]"
    and "created a \<longleftrightarrow> ke_rows s' \<noteq> ke_rows s"
    and "\<exists>q ev0. ar_sequence a = Some q \<and> (q, ev0) \<in> set (ke_rows s') \<and> ev_id ev0 = ev_id ev"
proof -
  have "pg_log_ok s' \<and> (ke_rows s' = ke_rows s \<or> ke_rows s' = ke_rows s @ [(ke_next s, ev)]) \<and>
      (created a \<longleftrightarrow> ke_rows s' \<noteq> ke_rows s) \<and>
      (\<exists>q ev0. ar_sequence a = Some q \<and> (q, ev0) \<in> set (ke_rows s') \<and> ev_id ev0 = ev_id ev)"
  proof (cases "pg_find (ev_id ev) s")
    case None
    then have "ev_id ev \<notin> set (map (ev_id \<circ> snd) (ke_rows s))" by (auto simp: pg_find_None)
    with ok run None show ?thesis
      by (fastforce simp: insert_event_def Let_def pg_log_ok_def well_numbered_def sorted_wrt_append)
  next
    case (Some q)
    with ok run pg_find_Some [OF this] show ?thesis
      by (fastforce simp: insert_event_def Let_def pg_log_ok_def)
  qed
  then show "pg_log_ok s'" and "ke_rows s' = ke_rows s \<or> ke_rows s' = ke_rows s @ [(ke_next s, ev)]"
    and "created a \<longleftrightarrow> ke_rows s' \<noteq> ke_rows s"
    and "\<exists>q ev0. ar_sequence a = Some q \<and> (q, ev0) \<in> set (ke_rows s') \<and> ev_id ev0 = ev_id ev"
    by blast+
qed

lemma pg_replay_rows:
  assumes "pg_log_ok s"
  shows "pg_replay limit start agg s =
    map (\<lambda>(q, ev). (Some q, ev)) (filter (\<lambda>(q, ev). start \<le> q \<and> of_aggregate agg ev) (ke_rows s))"
proof -
  have "sorted (map fst (filter (\<lambda>(q, ev). start \<le> q \<and> of_aggregate agg ev) (ke_rows s)))"
    using assms by (intro sorted_filter strict_sorted_imp_sorted)
      (simp add: pg_log_ok_def well_numbered_def strict_sorted_iff)
  then show ?thesis by (simp add: pg_replay_def sort_key_id_if_sorted)
qed

interpretation pg_log: numbered_log pg_log_ok ke_rows "pg_append is_uuid" "pg_replay None" for is_uuid
proof unfold_locales
  fix s :: "'a pg_log" and x ev r s'
  assume ok: "pg_log_ok s" and run: "pg_append is_uuid x ev s = (r, s')"
  have next_ok: "pg_log_ok (s\<lparr>ke_next := ke_next s + 1\<rparr>)" using ok by (fastforce simp: pg_log_ok_def)
  obtain a s1 where i: "insert_event ev s = (a, s1)" by fastforce
  note ins = insert_event_cases [OF ok i]
  from run i ins next_ok ok show "pg_log_ok s'"
    by (auto simp: pg_append_def split: if_splits fault.splits)
  from run i ins show "ke_rows s' = ke_rows s \<or> (\<exists>q. ke_rows s' = ke_rows s @ [(q, ev)])"
    by (auto simp: pg_append_def split: if_splits fault.splits)
next
  fix s :: "'a pg_log" and x ev a s'
  assume ok: "pg_log_ok s" and run: "pg_append is_uuid x ev s = (Inr a, s')"
  obtain a1 s1 where i: "insert_event ev s = (a1, s1)" by fastforce
  from run i insert_event_cases [OF ok i] show "(created a \<longleftrightarrow> ke_rows s' \<noteq> ke_rows s) \<and>
      (\<exists>q ev0. ar_sequence a = Some q \<and> (q, ev0) \<in> set (ke_rows s') \<and> ev_id ev0 = ev_id ev)"
    by (auto simp: pg_append_def split: if_splits fault.splits)
next
  fix s :: "'a pg_log" and start agg
  assume "pg_log_ok s"
  then show "map snd (pg_replay None start agg s)
      = map snd (filter (\<lambda>(q, ev). start \<le> q \<and> of_aggregate agg ev) (ke_rows s))"
    by (simp add: pg_replay_rows case_prod_unfold comp_def)
qed (auto simp: pg_replay_rows pg_log_ok_def)

section \<open>The log only grows\<close>

text \<open>A valid event appended without a failure is answered.\<close>

lemma pg_append_answers:
  "LedgerEventSchema is_uuid ev \<Longrightarrow> \<exists>a. fst (pg_append is_uuid NoFault ev s) = Inr a"
  by (simp add: pg_append_def split: prod.split)

text \<open>C27. The event log of PostgreSQL is append-only and idempotent: whatever is appended, with whatever failures,
  the log keeps what it had and adds only events that were offered, its numbers increase and its ids are
  distinct, every acknowledged event is in it under the number answered, and appending an event under an
  id it has answers that number and changes nothing.\<close>

theorem event_log_append_only:
  assumes ok: "pg_log_ok s" and run: "appends (pg_append is_uuid) calls s = (rs, s')"
  shows "(\<exists>new. ke_rows s' = ke_rows s @ new \<and> set (map snd new) \<subseteq> set (map snd calls)) \<and>
    well_numbered (ke_rows s') \<and> list_all2 (acknowledged (ke_rows s')) calls rs \<and>
    (\<forall>(q, ev0) \<in> set (ke_rows s'). \<forall>ev. ev_id ev = ev_id ev0 \<and> LedgerEventSchema is_uuid ev \<longrightarrow>
       fst (pg_append is_uuid NoFault ev s') = Inr \<lparr>ar_sequence = Some q, created = False\<rparr> \<and>
       ke_rows (snd (pg_append is_uuid NoFault ev s')) = ke_rows s')"
proof -
  note grown = pg_log.appends_history [OF ok run]
  have ok': "pg_log_ok s'" using grown by blast
  have "fst (pg_append is_uuid NoFault ev s') = Inr \<lparr>ar_sequence = Some q, created = False\<rparr> \<and>
       ke_rows (snd (pg_append is_uuid NoFault ev s')) = ke_rows s'"
    if row: "(q, ev0) \<in> set (ke_rows s')" and same: "ev_id ev = ev_id ev0" and valid: "LedgerEventSchema is_uuid ev" for q ev0 ev
  proof -
    obtain a s2 where a: "pg_append is_uuid NoFault ev s' = (Inr a, s2)"
      using pg_append_answers [OF valid, of s'] by (metis prod.collapse)
    from pg_log.appended_again [OF ok' row same [symmetric] a] a show ?thesis by simp
  qed
  with grown pg_log.numbered [OF ok'] show ?thesis by fast
qed

text \<open>Two events, one of them offered again after its first append lost its answer.\<close>

definition sample_event :: "string \<Rightarrow> unit ledger_event" where
  "sample_event i = \<lparr>ev_id = i, ev_type = ORDER_FILLED, ev_aggregate = ''intent-1'', ev_payload = (), ev_seq_hint = None\<rparr>"

lemma sample_appends:
  "appends (pg_append (\<lambda>_. True)) [(CommitLost \<lparr>pg_code = ''08006'', pg_text = ''lost''\<rparr>, sample_event ''e1''), (NoFault, sample_event ''e1''),
      (NoFault, sample_event ''e2'')] \<lparr>ke_rows = [], ke_next = 1\<rparr> =
   ([Inl ''lost'', Inr \<lparr>ar_sequence = Some 1, created = False\<rparr>, Inr \<lparr>ar_sequence = Some 3, created = True\<rparr>],
    \<lparr>ke_rows = [(1, sample_event ''e1''), (3, sample_event ''e2'')], ke_next = 4\<rparr>)"
  by code_simp

theorem event_log_append_only_witness:
  "pg_log_ok \<lparr>ke_rows = [] :: (int \<times> unit ledger_event) list, ke_next = 1\<rparr> \<and>
   ke_rows (snd (pg_append (\<lambda>_. True) NoFault (sample_event ''e1'')
     \<lparr>ke_rows = [(1, sample_event ''e1''), (3, sample_event ''e2'')], ke_next = 4\<rparr>)) =
   [(1, sample_event ''e1''), (3, sample_event ''e2'')]"
proof -
  have ok: "pg_log_ok \<lparr>ke_rows = [] :: (int \<times> unit ledger_event) list, ke_next = 1\<rparr>"
    by (simp add: pg_log_ok_def well_numbered_def)
  from event_log_append_only [OF ok sample_appends] ok show ?thesis
    by (simp add: LedgerEventSchema_def sample_event_def)
qed

text \<open>The in-memory store keeps the same promises.\<close>

lemma mem_log_append_only:
  assumes "mem_log_ok s" and "appends (mem_append is_uuid) calls s = (rs, s')"
  shows "(\<exists>new. mem_history s' = mem_history s @ new \<and> set (map snd new) \<subseteq> set (map snd calls)) \<and>
    well_numbered (mem_history s') \<and> list_all2 (acknowledged (mem_history s')) calls rs"
  using mem_log.appends_history [OF assms] mem_log.numbered by blast

lemma mem_appended_again:
  assumes "mem_log_ok s" and "(q, ev0) \<in> set (mem_history s)" and "ev_id ev0 = ev_id ev"
    and "LedgerEventSchema is_uuid ev"
  shows "fst (mem_append is_uuid () ev s) = Inr \<lparr>ar_sequence = Some q, created = False\<rparr>"
proof -
  have "\<exists>a s2. mem_append is_uuid () ev s = (Inr a, s2)"
    using assms(4) by (auto simp: mem_append_def Let_def split: option.splits)
  then obtain a s2 where a: "mem_append is_uuid () ev s = (Inr a, s2)" by blast
  from mem_log.appended_again [OF assms(1-3) a] a show ?thesis by simp
qed

text \<open>A batch: all of it or none of it.\<close>

lemma insert_batch_ok:
  "pg_log_ok s \<Longrightarrow> insert_batch is_uuid fails_at evs s = (r, s') \<Longrightarrow>
     pg_log_ok s' \<and> (\<exists>new. ke_rows s' = ke_rows s @ new \<and> set (map snd new) \<subseteq> set evs)"
proof (induction is_uuid fails_at evs s arbitrary: r s' rule: insert_batch.induct)
  case (1 is_uuid fails_at s)
  then show ?case by (simp split: if_splits)
next
  case (2 is_uuid fails_at ev evs s)
  show ?case
  proof (cases "LedgerEventSchema is_uuid ev \<and> fails_at \<noteq> Some 0")
    case False
    with 2(2,3) show ?thesis by (auto split: if_splits)
  next
    case True
    obtain a s1 where i: "insert_event ev s = (a, s1)" by fastforce
    obtain r1 s2 where b: "insert_batch is_uuid (map_option (\<lambda>k. k - 1) fails_at) evs s1 = (r1, s2)" by fastforce
    note ins = insert_event_cases [OF 2(2) i]
    have "s' = s2" using 2(3) True i b by (auto split: sum.splits)
    from 2(1) [OF _ _ i [symmetric] ins(1) b] True
    have "pg_log_ok s2 \<and> (\<exists>new. ke_rows s2 = ke_rows s1 @ new \<and> set (map snd new) \<subseteq> set evs)" by auto
    with ins(2) \<open>s' = s2\<close> show ?thesis by fastforce
  qed
qed

theorem pg_appendMany_atomic:
  assumes ok: "pg_log_ok s" and run: "pg_appendMany is_uuid fails_at evs s = (r, s')"
  shows "(\<forall>e. r = Inl e \<longrightarrow> ke_rows s' = ke_rows s) \<and>
    (\<exists>new. ke_rows s' = ke_rows s @ new \<and> set (map snd new) \<subseteq> set evs)"
  using insert_batch_ok [OF ok] run by (fastforce simp: pg_appendMany_def split: prod.splits sum.splits)

end
