(* ===== verification/Outbox.thy ===== *)
theory Outbox
  imports EventLog
begin

text \<open>
  \<open>PgOutboxProcessor\<close> (\<open>src/pm/ledger/src/pg-outbox-processor.ts\<close>): the outbox is the event log itself,
  read over the \<open>EventStore\<close> port, with one row of \<open>outbox_checkpoints\<close> that names the last event
  handed on. The handler and the \<open>UPDATE\<close> after it may fail at any job of a drain.
\<close>

section \<open>The processor\<close>

record 'p outbox_job =
  job_event :: uuid
  job_topic :: ledger_event_type
  job_payload :: 'p
  job_sequence :: int

definition job_of :: "'p ledger_event \<Rightarrow> 'p outbox_job" where
  "job_of ev = \<lparr>job_event = ev_id ev, job_topic = ev_type ev, job_payload = ev_payload ev,
     job_sequence = (case ev_seq_hint ev of Some q \<Rightarrow> q | None \<Rightarrow> 0)\<rparr>"

text \<open>The checkpoint row: absent, NULL, or an event id.\<close>

type_synonym checkpoint_row = "uuid option option"

definition getCheckpoint :: "checkpoint_row \<Rightarrow> uuid option" where
  "getCheckpoint row = (case row of None \<Rightarrow> None | Some i \<Rightarrow> i)"

definition resetCheckpoint :: "checkpoint_row \<Rightarrow> checkpoint_row" where
  "resetCheckpoint row = map_option (\<lambda>_. None) row"

text \<open>An \<open>UPDATE\<close>: it changes the row when there is one.\<close>

definition advance :: "uuid \<Rightarrow> checkpoint_row \<Rightarrow> checkpoint_row" where
  "advance i row = map_option (\<lambda>_. Some i) row"

text \<open>How one job goes: handled and checkpointed, refused by the handler, or handled with the
  \<open>UPDATE\<close> failing, before or after the database applied it.\<close>

datatype dispatch = Handled | HandlerThrows | UpdateThrows (applied: bool)

fun dispatch_all ::
  "dispatch list \<Rightarrow> 'p ledger_event list \<Rightarrow> checkpoint_row \<Rightarrow> 'p outbox_job list \<times> string option \<times> checkpoint_row" where
  "dispatch_all script [] row = ([], None, row)"
| "dispatch_all script (ev # evs) row =
     (case (case script of [] \<Rightarrow> Handled | d # _ \<Rightarrow> d) of
        HandlerThrows \<Rightarrow> ([], Some ''handler failed'', row)
      | UpdateThrows was_applied \<Rightarrow>
          ([job_of ev], Some ''checkpoint failed'', if was_applied then advance (ev_id ev) row else row)
      | Handled \<Rightarrow> (case dispatch_all (tl script) evs (advance (ev_id ev) row) of
          (jobs, err, row') \<Rightarrow> (job_of ev # jobs, err, row')))"

text \<open>\<open>findIndex\<close> and \<open>slice\<close>: what follows the checkpointed event, or everything when it is not there.\<close>

definition after_checkpoint :: "uuid option \<Rightarrow> 'p ledger_event list \<Rightarrow> 'p ledger_event list" where
  "after_checkpoint checkpoint events =
     (case checkpoint of None \<Rightarrow> events
      | Some i \<Rightarrow> (if i = [] then events else
          case dropWhile (\<lambda>ev. ev_id ev \<noteq> i) events of [] \<Rightarrow> events | _ # rest \<Rightarrow> rest))"

definition drain ::
  "(int \<Rightarrow> string option \<Rightarrow> 's \<Rightarrow> (int option \<times> 'p ledger_event) list) \<Rightarrow> dispatch list \<Rightarrow> 's \<Rightarrow> checkpoint_row \<Rightarrow>
     (string + nat \<times> int) \<times> 'p outbox_job list \<times> checkpoint_row" where
  "drain replay script s row =
     (let events = map snd (replay 1 None s); batch = after_checkpoint (getCheckpoint row) events in
      case dispatch_all script batch row of (jobs, err, row') \<Rightarrow>
        (case err of Some e \<Rightarrow> Inl e
           | None \<Rightarrow> Inr (length jobs, if jobs = [] then 0 else job_sequence (last jobs)), jobs, row'))"

section \<open>Runs of appends and drains\<close>

datatype ('x, 'p) outbox_step = Append_Event 'x "'p ledger_event" | Drain "dispatch list" | Reset

fun outbox_run ::
  "('x \<Rightarrow> 'p ledger_event \<Rightarrow> 's \<Rightarrow> (string + append_result) \<times> 's) \<Rightarrow>
   (int \<Rightarrow> string option \<Rightarrow> 's \<Rightarrow> (int option \<times> 'p ledger_event) list) \<Rightarrow>
   ('x, 'p) outbox_step list \<Rightarrow> 's \<times> checkpoint_row \<Rightarrow> 'p outbox_job list \<times> 's \<times> checkpoint_row" where
  "outbox_run add_ev replay [] (s, row) = ([], s, row)"
| "outbox_run add_ev replay (Append_Event x ev # steps) (s, row) =
     outbox_run add_ev replay steps (snd (add_ev x ev s), row)"
| "outbox_run add_ev replay (Drain script # steps) (s, row) =
     (case drain replay script s row of (_, jobs, row') \<Rightarrow>
        (case outbox_run add_ev replay steps (s, row') of (more_jobs, st) \<Rightarrow> (jobs @ more_jobs, st)))"
| "outbox_run add_ev replay (Reset # steps) (s, row) =
     outbox_run add_ev replay steps (s, resetCheckpoint row)"

section \<open>At least once, without gaps\<close>

text \<open>A batch is handed on in order, and the checkpoint names an event of it that was.\<close>

lemma dispatch_all_prefix:
  "dispatch_all script evs row = (jobs, err, row') \<Longrightarrow>
     \<exists>n \<le> length evs. jobs = map job_of (take n evs) \<and> (err = None \<longrightarrow> n = length evs) \<and>
       (row' = row \<or> (\<exists>k < n. row' = Some (Some (ev_id (evs ! k)))))"
proof (induction script evs row arbitrary: jobs err row' rule: dispatch_all.induct)
  case (1 script row)
  then show ?case by simp
next
  case (2 script ev evs row)
  show ?case
  proof (cases "case script of [] \<Rightarrow> Handled | d # _ \<Rightarrow> d")
    case Handled
    obtain jobs1 err1 row1 where d: "dispatch_all (tl script) evs (advance (ev_id ev) row) = (jobs1, err1, row1)"
      by (metis prod_cases3)
    from 2(1) [OF Handled d] obtain n where n: "n \<le> length evs" "jobs1 = map job_of (take n evs)"
      "err1 = None \<longrightarrow> n = length evs"
      "row1 = advance (ev_id ev) row \<or> (\<exists>k < n. row1 = Some (Some (ev_id (evs ! k))))"
      by blast
    have "row1 = row \<or> (\<exists>k < Suc n. row1 = Some (Some (ev_id ((ev # evs) ! k))))"
      using n(4) by (cases row) (force simp: advance_def)+
    with n 2(2) Handled d show ?thesis by (intro exI [of _ "Suc n"]) auto
  next
    case HandlerThrows
    with 2(2) show ?thesis by (intro exI [of _ 0]) auto
  next
    case (UpdateThrows was)
    with 2(2) show ?thesis by (intro exI [of _ 1]) (cases row; auto simp: advance_def)
  qed
qed

lemma dispatch_all_done:
  "dispatch_all script evs (Some i) = (jobs, None, row') \<Longrightarrow>
     row' = (if evs = [] then Some i else Some (Some (ev_id (last evs))))"
proof (induction script evs "Some i" arbitrary: i jobs rule: dispatch_all.induct)
  case (2 script ev evs i)
  then show ?case by (auto simp: advance_def split: dispatch.splits list.splits prod.splits if_splits)
qed simp

lemma dispatch_all_clean:
  "set script \<subseteq> {Handled} \<Longrightarrow> fst (snd (dispatch_all script evs row)) = None"
proof (induction script evs row rule: dispatch_all.induct)
  case (2 script ev evs row)
  then show ?case by (cases script) (auto split: prod.splits)
qed simp

lemma dropWhile_to_nth:
  "distinct (map f xs) \<Longrightarrow> k < length xs \<Longrightarrow> dropWhile (\<lambda>x. f x \<noteq> f (xs ! k)) xs = drop k xs"
proof (induction xs arbitrary: k)
  case (Cons x xs)
  then show ?case by (cases k) auto
qed simp

lemma after_checkpoint_at:
  assumes "distinct (map ev_id evs)" and "k < length evs" and "i = ev_id (evs ! k)" and "i \<noteq> []"
  shows "after_checkpoint (Some i) evs = drop (Suc k) evs"
  using assms dropWhile_to_nth [OF assms(1,2)] Cons_nth_drop_Suc [OF assms(2), symmetric]
  by (simp add: after_checkpoint_def)

text \<open>
  The invariant: the events delivered so far are the first \<open>n\<close> of the history, and the event at
  the checkpoint is one of them.
\<close>

definition delivered_upto :: "(int \<times> 'p ledger_event) list \<Rightarrow> uuid set \<Rightarrow> checkpoint_row \<Rightarrow> nat \<Rightarrow> bool" where
  "delivered_upto h done_ids row n \<longleftrightarrow> n \<le> length h \<and> done_ids = (ev_id \<circ> snd) ` set (take n h) \<and>
     (\<forall>i. row = Some (Some i) \<longrightarrow> (\<exists>k < n. i = ev_id (snd (h ! k))))"

lemma delivered_upto_append: "delivered_upto h ids row n \<Longrightarrow> delivered_upto (h @ new) ids row n"
proof -
  assume inv: "delivered_upto h ids row n"
  then have n: "n \<le> length h" by (simp add: delivered_upto_def)
  then have "(h @ new) ! k = h ! k" if "k < n" for k using that by (simp add: nth_append)
  with inv n show ?thesis by (simp add: delivered_upto_def) metis
qed

lemma delivered_upto_reset: "delivered_upto h ids row n \<Longrightarrow> delivered_upto h ids (resetCheckpoint row) n"
  by (auto simp: delivered_upto_def resetCheckpoint_def)

lemma set_take_drop_prefix:
  assumes "k \<le> n"
  shows "set (take n xs) \<union> set (take m (drop k xs)) = set (take (max n (k + m)) xs)"
proof (cases "k + m \<le> n")
  case True
  have "set (take m (drop k xs)) \<subseteq> set (take n xs)"
    using True by (metis take_drop set_drop_subset set_take_subset_set_take subset_trans add.commute)
  with True show ?thesis by (simp add: max_def sup.absorb1)
next
  case False
  have "take (k + m) xs = take k xs @ take m (drop k xs)" by (rule take_add)
  moreover have "set (take k xs) \<subseteq> set (take n xs)" by (rule set_take_subset_set_take [OF assms])
  moreover have "set (take n xs) \<subseteq> set (take (k + m) xs)"
    using False by (intro set_take_subset_set_take) simp
  ultimately show ?thesis using False by (auto simp: max_def)
qed

lemma dispatch_upto:
  assumes inv: "delivered_upto h ids row n" and k: "k \<le> n"
    and run: "dispatch_all script (drop k (map snd h)) row = (jobs, err, row')"
  shows "\<exists>n' \<ge> n. delivered_upto h (ids \<union> job_event ` set jobs) row' n' \<and> (err = None \<longrightarrow> n' = length h)"
proof -
  obtain m where m: "m \<le> length h - k" and jobs: "jobs = map job_of (take m (drop k (map snd h)))"
    and err: "err = None \<longrightarrow> m = length h - k"
    and row: "row' = row \<or> (\<exists>j < m. row' = Some (Some (ev_id (drop k (map snd h) ! j))))"
    using dispatch_all_prefix [OF run] by auto
  have n: "n \<le> length h" and ids: "ids = (ev_id \<circ> snd) ` set (take n h)" using inv by (auto simp: delivered_upto_def)
  let ?n' = "max n (k + m)"
  have "job_event ` set jobs = (ev_id \<circ> snd) ` set (take m (drop k h))"
    by (simp add: jobs drop_map take_map job_of_def image_image)
  then have "ids \<union> job_event ` set jobs = (ev_id \<circ> snd) ` set (take ?n' h)"
    by (simp only: ids set_take_drop_prefix [OF k, symmetric] image_Un)
  moreover have "\<exists>j < ?n'. i = ev_id (snd (h ! j))" if row_i: "row' = Some (Some i)" for i
    using row
  proof
    assume "row' = row"
    with row_i inv obtain j where "j < n" "i = ev_id (snd (h ! j))" by (auto simp: delivered_upto_def)
    then show ?thesis by (intro exI [of _ j]) simp
  next
    assume "\<exists>j < m. row' = Some (Some (ev_id (drop k (map snd h) ! j)))"
    then obtain j where j: "j < m" "i = ev_id (drop k (map snd h) ! j)" using row_i by auto
    with m k n have "i = ev_id (snd (h ! (k + j)))" by simp
    with j show ?thesis by (intro exI [of _ "k + j"]) simp
  qed
  ultimately have "delivered_upto h (ids \<union> job_event ` set jobs) row' ?n'"
    using m k n by (auto simp: delivered_upto_def)
  moreover have "err = None \<longrightarrow> ?n' = length h" using err k n by auto
  ultimately show ?thesis by (intro exI [of _ ?n']) simp
qed

lemma resume_point:
  assumes wn: "well_numbered h" and inv: "delivered_upto h ids row n"
  shows "\<exists>k \<le> n. after_checkpoint (getCheckpoint row) (map snd h) = drop k (map snd h)"
proof (cases "\<exists>i. row = Some (Some i) \<and> i \<noteq> []")
  case False
  then have "after_checkpoint (getCheckpoint row) (map snd h) = map snd h"
    by (auto simp: after_checkpoint_def getCheckpoint_def split: option.splits)
  then show ?thesis by (intro exI [of _ 0]) simp
next
  case True
  then obtain i k where row: "row = Some (Some i)" "i \<noteq> []" and k: "k < n" "i = ev_id (snd (h ! k))"
    using inv by (auto simp: delivered_upto_def)
  have "n \<le> length h" using inv by (simp add: delivered_upto_def)
  with k row wn have "after_checkpoint (Some i) (map snd h) = drop (Suc k) (map snd h)"
    by (intro after_checkpoint_at) (simp_all add: well_numbered_def comp_def)
  then show ?thesis using k row by (intro exI [of _ "Suc k"]) (simp add: getCheckpoint_def)
qed

context event_log
begin

lemma drain_upto:
  assumes ok: "log_ok s" and inv: "delivered_upto (history s) ids row n"
    and run: "drain replay script s row = (res, jobs, row')"
  shows "\<exists>n' \<ge> n. delivered_upto (history s) (ids \<union> job_event ` set jobs) row' n' \<and>
    (\<forall>r. res = Inr r \<longrightarrow> n' = length (history s))"
proof -
  obtain k where k: "k \<le> n" "after_checkpoint (getCheckpoint row) (map snd (history s)) = drop k (map snd (history s))"
    using resume_point [OF numbered [OF ok] inv] by blast
  obtain err where d: "dispatch_all script (drop k (map snd (history s))) row = (jobs, err, row')"
    and res: "res = (case err of Some e \<Rightarrow> Inl e
      | None \<Rightarrow> Inr (length jobs, if jobs = [] then 0 else job_sequence (last jobs)))"
    using run by (auto simp: drain_def Let_def replay_all [OF ok] k(2) split: prod.splits)
  from dispatch_upto [OF inv k(1) d] show ?thesis using res by (auto split: option.splits)
qed

lemma outbox_run_upto:
  "log_ok s \<Longrightarrow> delivered_upto (history s) ids row n \<Longrightarrow> outbox_run add_ev replay steps (s, row) = (jobs, s', row') \<Longrightarrow>
     log_ok s' \<and> (\<exists>n' \<ge> n. delivered_upto (history s') (ids \<union> job_event ` set jobs) row' n')"
proof (induction steps arbitrary: s row ids n jobs)
  case Nil
  then show ?case by auto
next
  case (Cons step steps)
  show ?case
  proof (cases step)
    case (Append_Event x ev)
    obtain r s1 where a: "add_ev x ev s = (r, s1)" by fastforce
    have "delivered_upto (history s1) ids row n"
      using append_history [OF Cons.prems(1) a] Cons.prems(2) by (auto intro: delivered_upto_append)
    then show ?thesis
      using Cons.IH [OF append_keeps [OF Cons.prems(1) a]] Cons.prems(3) by (simp add: Append_Event a)
  next
    case (Drain script)
    obtain res jobs1 row1 where d: "drain replay script s row = (res, jobs1, row1)" by (metis prod_cases3)
    obtain jobs2 where rest: "outbox_run add_ev replay steps (s, row1) = (jobs2, s', row')"
      and jobs: "jobs = jobs1 @ jobs2"
      using Cons.prems(3) by (auto simp: Drain d split: prod.splits)
    obtain n1 where n1: "n \<le> n1" "delivered_upto (history s) (ids \<union> job_event ` set jobs1) row1 n1"
      using drain_upto [OF Cons.prems(1,2) d] by blast
    from Cons.IH [OF Cons.prems(1) n1(2) rest] n1(1) show ?thesis
      by (auto simp: jobs image_Un Un_assoc intro: order_trans)
  next
    case Reset
    with Cons.IH [OF Cons.prems(1) delivered_upto_reset [OF Cons.prems(2)]] Cons.prems(3)
    show ?thesis by simp
  qed
qed

text \<open>No gaps at any moment, and nothing left out once a drain has succeeded.\<close>

theorem outbox_no_gaps:
  assumes ok: "log_ok s" and row: "getCheckpoint row = None"
    and run: "outbox_run add_ev replay steps (s, row) = (jobs, s', row')"
    and drained: "drain replay script s' row' = (res, jobs', row'')"
  shows "(\<exists>n. job_event ` set jobs = (ev_id \<circ> snd) ` set (take n (history s'))) \<and>
    (\<forall>r. res = Inr r \<longrightarrow> job_event ` set (jobs @ jobs') = (ev_id \<circ> snd) ` set (history s'))"
proof -
  have "delivered_upto (history s) {} row 0"
    using row by (auto simp: delivered_upto_def getCheckpoint_def)
  from outbox_run_upto [OF ok this run] obtain n where ok': "log_ok s'"
    and n: "delivered_upto (history s') (job_event ` set jobs) row' n" by auto
  from drain_upto [OF ok' n drained] obtain n' where
    "delivered_upto (history s') (job_event ` set jobs \<union> job_event ` set jobs') row'' n'"
    "\<forall>r. res = Inr r \<longrightarrow> n' = length (history s')" by blast
  then show ?thesis using n by (auto simp: delivered_upto_def image_Un)
qed

text \<open>Where there is a row, a drain that went through leaves nothing for the next one.\<close>

lemma drained_twice:
  assumes ok: "log_ok s" and inv: "delivered_upto (history s) ids (Some i) n"
    and ids: "\<forall>(q, ev) \<in> set (history s). ev_id ev \<noteq> []"
    and run: "drain replay script s (Some i) = (Inr r, jobs, row')"
  shows "drain replay script' s row' = (Inr (0, 0), [], row')"
proof -
  let ?evs = "map snd (history s)"
  obtain k where k: "after_checkpoint (getCheckpoint (Some i)) ?evs = drop k ?evs"
    using resume_point [OF numbered [OF ok] inv] by blast
  have d: "dispatch_all script (drop k ?evs) (Some i) = (jobs, None, row')"
    using run by (auto simp: drain_def Let_def replay_all [OF ok] k split: prod.splits option.splits)
  have "after_checkpoint (getCheckpoint row') ?evs = []"
  proof (cases "drop k ?evs = []")
    case True
    then show ?thesis using dispatch_all_done [OF d] k by simp
  next
    case False
    then have len: "0 < length ?evs" by (cases "history s") simp_all
    with False have last: "last (drop k ?evs) = ?evs ! (length ?evs - 1)"
      by (simp add: last_drop last_conv_nth)
    have "ev_id (?evs ! (length ?evs - 1)) \<noteq> []"
      using ids len nth_mem [of "length ?evs - 1" "history s"] by fastforce
    moreover have "distinct (map ev_id ?evs)" using numbered [OF ok] by (simp add: well_numbered_def)
    ultimately have "after_checkpoint (Some (ev_id (?evs ! (length ?evs - 1)))) ?evs = drop (Suc (length ?evs - 1)) ?evs"
      using len by (intro after_checkpoint_at) simp_all
    then show ?thesis using False dispatch_all_done [OF d] last len by (simp add: getCheckpoint_def)
  qed
  then show ?thesis by (simp add: drain_def Let_def replay_all [OF ok])
qed

end

text \<open>C26. The outbox delivers at least once and without gaps: whatever appends, drains with failing handlers
  and failing checkpoint updates, and resets went before, the events handed on so far are a prefix of the
  log, and once a drain reports success every event of the log has been handed on.\<close>

theorem outbox_delivers_all:
  assumes "pg_log_ok s" and "getCheckpoint row = None"
    and "outbox_run (pg_append is_uuid) (pg_replay None) steps (s, row) = (jobs, s', row')"
    and "drain (pg_replay None) script s' row' = (res, jobs', row'')"
  shows "(\<exists>n. job_event ` set jobs = (ev_id \<circ> snd) ` set (take n (ke_rows s'))) \<and>
    (\<forall>r. res = Inr r \<longrightarrow> job_event ` set (jobs @ jobs') = (ev_id \<circ> snd) ` set (ke_rows s'))"
  using assms by (rule pg_log.outbox_no_gaps)

text \<open>
  The migrations create the table of checkpoints but no row for \<open>ledger-outbox\<close>, and nothing else
  inserts one: the \<open>UPDATE\<close> changes nothing and every drain hands on the whole log again.
\<close>

lemma dispatch_all_no_row: "snd (snd (dispatch_all script evs None)) = None"
  by (induction script evs "None :: checkpoint_row" rule: dispatch_all.induct)
    (auto simp: advance_def split: prod.splits dispatch.splits)

theorem outbox_without_row:
  assumes "pg_log_ok s"
  shows "drain (pg_replay None) [] s None =
    (Inr (length (ke_rows s), if ke_rows s = [] then 0 else job_sequence (last (map (job_of \<circ> snd) (ke_rows s)))),
     map (job_of \<circ> snd) (ke_rows s), None)"
proof -
  have "dispatch_all [] evs None = (map job_of evs, None, None)" for evs :: "'a ledger_event list"
    by (induction evs) (simp_all add: advance_def)
  then show ?thesis by (simp add: drain_def Let_def pg_log.replay_all [OF assms] getCheckpoint_def after_checkpoint_def)
qed

text \<open>A log of two events, a drain that stops at the second, and one that finishes.\<close>

definition sample_steps :: "(fault, unit) outbox_step list" where
  "sample_steps = [Append_Event NoFault (sample_event ''e1''), Append_Event NoFault (sample_event ''e2''),
     Drain [Handled, UpdateThrows False]]"

definition sample_log :: "unit pg_log" where
  "sample_log = \<lparr>ke_rows = [(1, sample_event ''e1''), (2, sample_event ''e2'')], ke_next = 3\<rparr>"

lemma sample_run:
  "outbox_run (pg_append (\<lambda>_. True)) (pg_replay None) sample_steps (\<lparr>ke_rows = [], ke_next = 1\<rparr>, Some None) =
     ([job_of (sample_event ''e1''), job_of (sample_event ''e2'')], sample_log, Some (Some ''e1''))"
  by code_simp

lemma sample_drained:
  "drain (pg_replay None) [] sample_log (Some (Some ''e1'')) =
     (Inr (1, 0), [job_of (sample_event ''e2'')], Some (Some ''e2''))"
  by code_simp

theorem outbox_delivers_all_witness:
  "pg_log_ok \<lparr>ke_rows = [] :: (int \<times> unit ledger_event) list, ke_next = 1\<rparr> \<and>
   job_event ` set ([job_of (sample_event ''e1''), job_of (sample_event ''e2'')] @ [job_of (sample_event ''e2'')])
     = (ev_id \<circ> snd) ` set (ke_rows sample_log)"
proof -
  have ok: "pg_log_ok \<lparr>ke_rows = [] :: (int \<times> unit ledger_event) list, ke_next = 1\<rparr>"
    by (simp add: pg_log_ok_def well_numbered_def)
  from outbox_delivers_all [OF ok _ sample_run sample_drained] ok show ?thesis
    by (simp add: getCheckpoint_def)
qed

end
