(* ===== verification/Projection.thy ===== *)
theory Projection
  imports EventLog Database
begin

text \<open>
  \<open>PgProjectionEngine\<close> (\<open>src/pm/ledger/src/pg-projection-engine.ts\<close>): events of the log folded into
  \<open>balance_projections\<close> and \<open>balance_entries\<close>, with a checkpoint per projection name. The engine reads
  the log over the \<open>EventStore\<close> port; the theorem on it is proved for any \<open>numbered_log\<close>.
\<close>

section \<open>Payloads and deltas\<close>

text \<open>
  \<open>KernelEventPayload\<close>: each field may be missing, an amount is whatever string is there.
  \<open>pl_reversalType\<close> is unchecked: \<open>Some None\<close> is a string that names no event type.
\<close>

datatype payload = Payload
  (pl_account: "string option") (pl_asset: "string option") (pl_cash: "string option") (pl_fee: "string option")
  (pl_rebate: "string option") (pl_amount: "string option") (pl_pnl: "string option") (pl_isGain: "bool option")
  (pl_reversal: "payload option") (pl_reversalType: "ledger_event_type option option")

record delta =
  dl_account :: "string option"
  dl_asset :: "string option"
  dl_available :: int
  dl_committed :: int

definition js_throw :: "string \<Rightarrow> pg_error" where
  "js_throw m = \<lparr>pg_code = [], pg_text = m\<rparr>"

text \<open>\<open>BigInt(x)\<close> of a field, and of \<open>x ?? "0"\<close>.\<close>

definition field_big :: "string option \<Rightarrow> pg_error + int" where
  "field_big x = (case x of None \<Rightarrow> Inl (js_throw ''TypeError'')
     | Some s \<Rightarrow> (case parse_bigint s of None \<Rightarrow> Inl (js_throw ''SyntaxError'') | Some n \<Rightarrow> Inr n))"

definition field_big0 :: "string option \<Rightarrow> pg_error + int" where
  "field_big0 x = (case x of None \<Rightarrow> Inr 0 | Some s \<Rightarrow> field_big (Some s))"

definition map_amount :: "(int \<Rightarrow> delta) \<Rightarrow> pg_error + int \<Rightarrow> pg_error + delta option" where
  "map_amount f r = (case r of Inl e \<Rightarrow> Inl e | Inr n \<Rightarrow> Inr (Some (f n)))"

definition fill_delta :: "payload \<Rightarrow> pg_error + delta option" where
  "fill_delta p =
     (case field_big (pl_cash p) of Inl e \<Rightarrow> Inl e | Inr cash \<Rightarrow>
     (case field_big0 (pl_fee p) of Inl e \<Rightarrow> Inl e | Inr fee \<Rightarrow>
     (case field_big0 (pl_rebate p) of Inl e \<Rightarrow> Inl e | Inr rebate \<Rightarrow>
        Inr (Some \<lparr>dl_account = pl_account p, dl_asset = pl_asset p, dl_available = 0,
                  dl_committed = - (cash + fee - rebate)\<rparr>))))"

fun projectEvent :: "ledger_event_type option \<Rightarrow> payload \<Rightarrow> pg_error + delta option" where
  "projectEvent ty (Payload acc ass cash fee rebate amount pnl gain reversal rtype) =
     (let p = Payload acc ass cash fee rebate amount pnl gain reversal rtype in
      case ty of
        Some RESERVATION_CREATED \<Rightarrow> map_amount (\<lambda>c. \<lparr>dl_account = acc, dl_asset = ass, dl_available = - c,
                                       dl_committed = c\<rparr>) (field_big cash)
      | Some RESERVATION_CONSUMED \<Rightarrow> map_amount (\<lambda>c. \<lparr>dl_account = acc, dl_asset = ass, dl_available = 0,
                                       dl_committed = - c\<rparr>) (field_big cash)
      | Some RESERVATION_RELEASED \<Rightarrow> map_amount (\<lambda>c. \<lparr>dl_account = acc, dl_asset = ass, dl_available = c,
                                       dl_committed = - c\<rparr>) (field_big cash)
      | Some ORDER_FILLED \<Rightarrow> fill_delta p
      | Some ORDER_PARTIAL \<Rightarrow> fill_delta p
      | Some PNL_REALIZED \<Rightarrow> map_amount (\<lambda>c. \<lparr>dl_account = acc, dl_asset = ass, dl_available = c,
                                       dl_committed = 0\<rparr>) (field_big pnl)
      | Some CORRECTION \<Rightarrow> (case reversal of
            Some r \<Rightarrow> projectEvent (case rtype of Some t \<Rightarrow> t | None \<Rightarrow> Some CORRECTION) r
          | None \<Rightarrow> Inr None)
      | Some SETTLEMENT \<Rightarrow> map_amount (\<lambda>c. \<lparr>dl_account = acc, dl_asset = ass,
                                       dl_available = (if gain = Some False then - c else c), dl_committed = 0\<rparr>)
                             (field_big amount)
      | Some REDEEM \<Rightarrow> map_amount (\<lambda>c. \<lparr>dl_account = acc, dl_asset = ass, dl_available = c,
                                       dl_committed = 0\<rparr>) (field_big amount)
      | _ \<Rightarrow> Inr None)"

section \<open>The tables\<close>

record projection_row =
  pj_available :: int
  pj_committed :: int
  pj_last_seq :: int

record projection_db =
  balance_projections :: "string \<times> string \<Rightarrow> projection_row option"
  balance_entries :: "string \<times> string \<Rightarrow> bal option"
  checkpoints :: "string \<Rightarrow> int option"

definition not_null_violation :: pg_error where
  "not_null_violation = \<lparr>pg_code = ''23502'', pg_text = ''null value violates not-null constraint''\<rparr>"

definition numeric_38 :: "int \<Rightarrow> bool" where
  "numeric_38 n \<longleftrightarrow> \<bar>n\<bar> < 10 ^ 38"

definition projection_checkpoint :: "string \<Rightarrow> projection_db \<Rightarrow> int" where
  "projection_checkpoint name st = (case checkpoints st name of None \<Rightarrow> 0 | Some q \<Rightarrow> q)"

definition updateCheckpoint :: "string \<Rightarrow> int \<Rightarrow> projection_db \<Rightarrow> projection_db" where
  "updateCheckpoint name q st = st\<lparr>checkpoints := (checkpoints st)(name \<mapsto>
     (case checkpoints st name of None \<Rightarrow> q | Some q0 \<Rightarrow> if q \<le> q0 then q0 else q))\<rparr>"

definition upsert_projection :: "string \<times> string \<Rightarrow> int \<Rightarrow> int \<Rightarrow> int \<Rightarrow> projection_db \<Rightarrow> pg_error + projection_db" where
  "upsert_projection k av co q st =
     (let r = (case balance_projections st k of
          None \<Rightarrow> \<lparr>pj_available = av, pj_committed = co, pj_last_seq = q\<rparr>
        | Some r \<Rightarrow> \<lparr>pj_available = pj_available r + av, pj_committed = pj_committed r + co,
                     pj_last_seq = max (pj_last_seq r) q\<rparr>)
      in if numeric_38 (pj_available r) \<and> numeric_38 (pj_committed r)
         then Inr (st\<lparr>balance_projections := (balance_projections st)(k \<mapsto> r)\<rparr>) else Inl numeric_overflow)"

definition upsert_entry :: "string \<times> string \<Rightarrow> int \<Rightarrow> int \<Rightarrow> projection_db \<Rightarrow> pg_error + projection_db" where
  "upsert_entry k av co st =
     (let b = (case balance_entries st k of
          None \<Rightarrow> \<lparr>available_base = av, committed_base = co\<rparr>
        | Some b \<Rightarrow> \<lparr>available_base = available_base b + av, committed_base = committed_base b + co\<rparr>)
      in if numeric_38 (available_base b) \<and> numeric_38 (committed_base b)
         then Inr (st\<lparr>balance_entries := (balance_entries st)(k \<mapsto> b)\<rparr>) else Inl numeric_overflow)"

section \<open>process and rebuild\<close>

record projection_result =
  pr_account :: string
  pr_asset :: string
  pr_available :: int
  pr_committed :: int
  pr_last_seq :: int

text \<open>One row of the batch: the projection, the entry only for a non-zero available delta, the checkpoint.\<close>

definition apply_row ::
  "string \<Rightarrow> int \<Rightarrow> payload option ledger_event \<Rightarrow> projection_db \<Rightarrow>
     pg_error + (projection_result option \<times> projection_db)" where
  "apply_row name q ev st =
     (case (case ev_payload ev of None \<Rightarrow> Inr None | Some p \<Rightarrow> projectEvent (Some (ev_type ev)) p) of
        Inl e \<Rightarrow> Inl e
      | Inr None \<Rightarrow> Inr (None, updateCheckpoint name q st)
      | Inr (Some d) \<Rightarrow>
          (case (dl_account d, dl_asset d) of
             (Some acc, Some ass) \<Rightarrow>
               (case upsert_projection (acc, ass) (dl_available d) (dl_committed d) q st of Inl e \<Rightarrow> Inl e | Inr st1 \<Rightarrow>
               (case (if dl_available d \<noteq> 0 then upsert_entry (acc, ass) (dl_available d) (dl_committed d) st1
                      else Inr st1) of Inl e \<Rightarrow> Inl e | Inr st2 \<Rightarrow>
                  Inr (Some \<lparr>pr_account = acc, pr_asset = ass, pr_available = dl_available d,
                          pr_committed = dl_committed d, pr_last_seq = q\<rparr>, updateCheckpoint name q st2)))
           | _ \<Rightarrow> Inl not_null_violation))"

fun apply_rows ::
  "string \<Rightarrow> int option \<Rightarrow> (int \<times> payload option ledger_event) list \<Rightarrow> projection_db \<Rightarrow>
     pg_error + (projection_result list \<times> projection_db)" where
  "apply_rows name to [] st = Inr ([], st)"
| "apply_rows name to ((q, ev) # rows) st =
     (if (case to of None \<Rightarrow> False | Some t \<Rightarrow> t \<noteq> 0 \<and> t < q) then Inr ([], st)
      else case apply_row name q ev st of Inl e \<Rightarrow> Inl e | Inr (r, st1) \<Rightarrow>
        (case apply_rows name to rows st1 of Inl e \<Rightarrow> Inl e
         | Inr (rs, st2) \<Rightarrow> Inr ((case r of None \<Rightarrow> rs | Some x \<Rightarrow> x # rs), st2)))"

text \<open>Reading a batch is not part of the transaction that applies it.\<close>

definition read_batch ::
  "(int \<Rightarrow> string option \<Rightarrow> 's \<Rightarrow> (int option \<times> payload option ledger_event) list) \<Rightarrow> string \<Rightarrow> int \<Rightarrow> 's \<Rightarrow>
     projection_db \<Rightarrow> (int \<times> payload option ledger_event) list" where
  "read_batch replay name from ls st =
     (let cp = projection_checkpoint name st; start = (if from \<le> cp then cp + 1 else from)
      in map (\<lambda>(q, ev). (case q of None \<Rightarrow> 0 | Some n \<Rightarrow> n, ev)) (replay start None ls))"

definition apply_batch ::
  "string \<Rightarrow> int option \<Rightarrow> fault \<Rightarrow> (int \<times> payload option ledger_event) list \<Rightarrow> projection_db \<Rightarrow>
     (string + projection_result list) \<times> projection_db" where
  "apply_batch name to fault rows st =
     (if rows = [] then (Inr [], st)
      else with_txn fault (\<lambda>e. Inl (pg_text e))
        (\<lambda>st. case apply_rows name to rows st of Inl e \<Rightarrow> Inl e | Inr (rs, st') \<Rightarrow> Inr (Inr rs, st')) st)"

definition process_events ::
  "(int \<Rightarrow> string option \<Rightarrow> 's \<Rightarrow> (int option \<times> payload option ledger_event) list) \<Rightarrow> string \<Rightarrow> int \<Rightarrow>
     int option \<Rightarrow> fault \<Rightarrow> 's \<Rightarrow> projection_db \<Rightarrow> (string + projection_result list) \<times> projection_db" where
  "process_events replay name from to fault ls st = apply_batch name to fault (read_batch replay name from ls st) st"

text \<open>
  \<open>rebuild\<close>: two \<open>TRUNCATE\<close>s and the reset of the checkpoint, each committed on its own, then
  \<open>process\<close> from 1. \<open>stops = Some n\<close>: the statement numbered \<open>n\<close> fails and the rest is not reached.
\<close>

definition rebuild ::
  "(int \<Rightarrow> string option \<Rightarrow> 's \<Rightarrow> (int option \<times> payload option ledger_event) list) \<Rightarrow> string \<Rightarrow> int option \<Rightarrow>
     nat option \<Rightarrow> fault \<Rightarrow> 's \<Rightarrow> projection_db \<Rightarrow> (string + projection_result list) \<times> projection_db" where
  "rebuild replay name to stops fault ls st =
     (if stops = Some 0 then (Inl ''truncate failed'', st)
      else let st1 = st\<lparr>balance_projections := (\<lambda>_. None)\<rparr> in
      if stops = Some 1 then (Inl ''truncate failed'', st1)
      else let st2 = st1\<lparr>balance_entries := (\<lambda>_. None)\<rparr> in
      if stops = Some 2 then (Inl ''reset failed'', st2)
      else let st3 = st2\<lparr>checkpoints := (checkpoints st2)(name \<mapsto> 0)\<rparr> in
      process_events replay name 1 to fault ls st3)"

section \<open>The abstract balance\<close>

text \<open>What one event does to a key, and the sum over a history.\<close>

definition effect_of :: "string \<times> string \<Rightarrow> payload option ledger_event \<Rightarrow> int \<times> int" where
  "effect_of k ev = (case ev_payload ev of None \<Rightarrow> (0, 0) | Some p \<Rightarrow>
     (case projectEvent (Some (ev_type ev)) p of
        Inr (Some d) \<Rightarrow> if dl_account d = Some (fst k) \<and> dl_asset d = Some (snd k)
                       then (dl_available d, dl_committed d) else (0, 0)
      | _ \<Rightarrow> (0, 0)))"

definition net_of :: "string \<times> string \<Rightarrow> (int \<times> payload option ledger_event) list \<Rightarrow> int \<times> int" where
  "net_of k h = (\<Sum>(q, ev) \<leftarrow> h. fst (effect_of k ev), \<Sum>(q, ev) \<leftarrow> h. snd (effect_of k ev))"

definition projected :: "projection_db \<Rightarrow> string \<times> string \<Rightarrow> int \<times> int" where
  "projected st k = (case balance_projections st k of None \<Rightarrow> (0, 0) | Some r \<Rightarrow> (pj_available r, pj_committed r))"

lemma net_of_simps [simp]:
  "net_of k [] = (0, 0)"
  "net_of k ((q, ev) # h) = (fst (effect_of k ev) + fst (net_of k h), snd (effect_of k ev) + snd (net_of k h))"
  by (simp_all add: net_of_def)

lemma net_of_append: "net_of k (h @ h') = (fst (net_of k h) + fst (net_of k h'), snd (net_of k h) + snd (net_of k h'))"
  by (simp add: net_of_def)

section \<open>A batch adds what its events say\<close>

lemma updateCheckpoint_frame [simp]:
  "projected (updateCheckpoint name q st) k = projected st k"
  "projection_checkpoint name (updateCheckpoint name q st) =
     (case checkpoints st name of None \<Rightarrow> q | Some q0 \<Rightarrow> max q0 q)"
  by (auto simp: projected_def updateCheckpoint_def projection_checkpoint_def split: option.split)

lemma checkpoints_updateCheckpoint:
  "0 \<le> q \<Longrightarrow> projection_checkpoint name st \<le> q \<Longrightarrow> projection_checkpoint name (updateCheckpoint name q st) = q"
  by (auto simp: projection_checkpoint_def updateCheckpoint_def split: option.splits)

lemma upsert_projection_projected:
  "upsert_projection k' av co q st = Inr st' \<Longrightarrow>
     projected st' k = (if k = k' then (fst (projected st k) + av, snd (projected st k) + co) else projected st k)
     \<and> checkpoints st' = checkpoints st \<and> balance_entries st' = balance_entries st"
  by (auto simp: upsert_projection_def Let_def projected_def split: if_splits option.splits)

lemma upsert_entry_frame:
  "upsert_entry k' av co st = Inr st' \<Longrightarrow>
     projected st' k = projected st k \<and> checkpoints st' = checkpoints st"
  by (auto simp: upsert_entry_def Let_def projected_def split: if_splits)

lemma apply_row_effect:
  assumes run: "apply_row name q ev st = Inr (r, st')"
  shows "projected st' k = (fst (projected st k) + fst (effect_of k ev), snd (projected st k) + snd (effect_of k ev))
    \<and> projection_checkpoint name st' = projection_checkpoint name (updateCheckpoint name q st)"
proof (cases "\<exists>p d. ev_payload ev = Some p \<and> projectEvent (Some (ev_type ev)) p = Inr (Some d)")
  case False
  then have "effect_of k ev = (0, 0)" by (auto simp: effect_of_def split: option.splits sum.splits)
  moreover have "st' = updateCheckpoint name q st"
    using run False by (auto simp: apply_row_def split: option.splits sum.splits)
  ultimately show ?thesis by simp
next
  case True
  then obtain p d where p: "ev_payload ev = Some p" "projectEvent (Some (ev_type ev)) p = Inr (Some d)" by blast
  with run obtain acc ass st1 st2 where d: "dl_account d = Some acc" "dl_asset d = Some ass"
    and 1: "upsert_projection (acc, ass) (dl_available d) (dl_committed d) q st = Inr st1"
    and 2: "(if dl_available d \<noteq> 0 then upsert_entry (acc, ass) (dl_available d) (dl_committed d) st1 else Inr st1) = Inr st2"
    and st': "st' = updateCheckpoint name q st2"
    by (auto simp: apply_row_def split: option.splits sum.splits)
  have "projected st2 k = projected st1 k \<and> checkpoints st2 = checkpoints st1"
    using 2 upsert_entry_frame by (auto split: if_splits)
  with upsert_projection_projected [OF 1, of k] show ?thesis
    by (cases k) (auto simp: st' effect_of_def p d)
qed

lemma apply_rows_effect:
  "apply_rows name to rows st = Inr (rs, st') \<Longrightarrow> sorted_wrt (<) (map fst rows) \<Longrightarrow>
     (\<forall>q \<in> fst ` set rows. 0 \<le> q \<and> projection_checkpoint name st \<le> q) \<Longrightarrow>
     \<exists>n \<le> length rows. (\<forall>k. projected st' k = (fst (projected st k) + fst (net_of k (take n rows)),
          snd (projected st k) + snd (net_of k (take n rows)))) \<and>
       projection_checkpoint name st' = (if n = 0 then projection_checkpoint name st else fst (rows ! (n - 1))) \<and>
       (to = None \<longrightarrow> n = length rows)"
proof (induction name to rows st arbitrary: rs st' rule: apply_rows.induct)
  case (1 name to st)
  then show ?case by simp
next
  case (2 name to q ev rows st)
  show ?case
  proof (cases "case to of None \<Rightarrow> False | Some t \<Rightarrow> t \<noteq> 0 \<and> t < q")
    case True
    with 2(2) show ?thesis by (intro exI [of _ 0]) (auto split: option.splits)
  next
    case False
    obtain r st1 rs1 where 1: "apply_row name q ev st = Inr (r, st1)"
      and rest: "apply_rows name to rows st1 = Inr (rs1, st')"
      using 2(2) False by (auto split: sum.splits)
    have cp: "projection_checkpoint name st1 = q"
      using apply_row_effect [OF 1] checkpoints_updateCheckpoint [of q name st] 2(4) by simp
    obtain n where n: "n \<le> length rows" "\<forall>k. projected st' k = (fst (projected st1 k) + fst (net_of k (take n rows)),
          snd (projected st1 k) + snd (net_of k (take n rows)))"
       "projection_checkpoint name st' = (if n = 0 then q else fst (rows ! (n - 1)))" "to = None \<longrightarrow> n = length rows"
      using 2(1) [OF False 1 _ rest] 2(3,4) cp by fastforce
    have "projected st' k = (fst (projected st k) + fst (net_of k (take (Suc n) ((q, ev) # rows))),
          snd (projected st k) + snd (net_of k (take (Suc n) ((q, ev) # rows))))" for k
      using n(2) [rule_format, of k] conjunct1 [OF apply_row_effect [OF 1, of k]] by (simp only: net_of_simps take_Suc_Cons) simp
    with n show ?thesis by (intro exI [of _ "Suc n"]) (simp split: if_splits)
  qed
qed

section \<open>Runs\<close>

text \<open>A prefix of the rows above a checkpoint moves the checkpoint over exactly these rows.\<close>

lemma take_sorted_filter:
  "sorted_wrt (<) (map fst rows) \<Longrightarrow> 0 < n \<Longrightarrow> n \<le> length rows \<Longrightarrow>
     filter (\<lambda>(q, x). q \<le> (fst (rows ! (n - 1)) :: int)) rows = take n rows"
proof (induction rows arbitrary: n)
  case (Cons r rows)
  obtain q x where r: "r = (q, x)" by (cases r)
  show ?case
  proof (cases "n = 1")
    case True
    have "filter (\<lambda>(q', x). q' \<le> q) rows = []" using Cons.prems(1) by (force simp: r filter_empty_conv)
    then show ?thesis by (simp add: r True)
  next
    case False
    with Cons.prems have n: "0 < n - 1" "n - 1 \<le> length rows" "sorted_wrt (<) (map fst rows)" by auto
    have "(r # rows) ! (n - 1) = rows ! (n - 1 - 1)" using n(1) by (simp add: nth_Cons')
    moreover have "q < fst (rows ! (n - 1 - 1))"
      using Cons.prems(1) n(1,2) by (auto simp: r)
    ultimately show ?thesis using Cons.IH [OF n(3,1,2)] n(1) by (cases n) (auto simp: r)
  qed
qed simp

lemma sorted_split:
  "sorted_wrt (<) (map fst h) \<Longrightarrow> h = filter (\<lambda>(q, ev). q \<le> cp) h @ filter (\<lambda>(q, ev). cp + 1 \<le> (q :: int)) h"
proof (induction h)
  case (Cons x h)
  then have "filter (\<lambda>(q, ev). q \<le> cp) h = []" if "cp < fst x" using that by (force simp: filter_empty_conv)
  with Cons show ?case by (cases x) (auto simp: not_le)
qed simp

lemma sorted_last: "sorted_wrt (<) (map fst h) \<Longrightarrow> x \<in> set h \<Longrightarrow> (fst x :: int) \<le> fst (last h)"
  by (induction h rule: rev_induct) (auto simp: sorted_wrt_append)

lemma checkpoint_moves:
  assumes h: "sorted_wrt (<) (map fst h)" and rows: "rows = filter (\<lambda>(q, ev). cp + 1 \<le> (q :: int)) h" and n: "n \<le> length rows"
  defines "cp' \<equiv> (if n = 0 then cp else fst (rows ! (n - 1)))"
  shows "filter (\<lambda>(q, ev). q \<le> cp') h = filter (\<lambda>(q, ev). q \<le> cp) h @ take n rows"
proof (cases "n = 0")
  case True
  then show ?thesis by (simp add: cp'_def)
next
  case False
  have split: "h = filter (\<lambda>(q, ev). q \<le> cp) h @ rows" unfolding rows by (rule sorted_split [OF h])
  have srows: "sorted_wrt (<) (map fst rows)"
    using h unfolding rows by (simp add: sorted_wrt_map sorted_wrt_filter)
  have "rows ! (n - 1) \<in> set rows" using n False by (intro nth_mem) simp
  then have "cp < cp'" using False by (auto simp: cp'_def rows)
  then have "filter (\<lambda>(q, ev). q \<le> cp') (filter (\<lambda>(q, ev). q \<le> cp) h) = filter (\<lambda>(q, ev). q \<le> cp) h"
    by (intro filter_True) auto
  moreover have "filter (\<lambda>(q, ev). q \<le> cp') rows = take n rows"
    using take_sorted_filter [OF srows _ n] False by (simp add: cp'_def)
  ultimately show ?thesis by (subst split) (simp only: filter_append)
qed

definition projection_exact ::
  "string \<Rightarrow> (int \<times> payload option ledger_event) list \<Rightarrow> projection_db \<Rightarrow> bool" where
  "projection_exact name h st \<longleftrightarrow> 0 \<le> projection_checkpoint name st \<and>
     (\<forall>q \<in> fst ` set h. 1 \<le> q) \<and>
     (h = [] \<longrightarrow> projection_checkpoint name st = 0) \<and>
     (h \<noteq> [] \<longrightarrow> projection_checkpoint name st \<le> fst (last h)) \<and>
     (\<forall>k. projected st k = net_of k (filter (\<lambda>(q, ev). q \<le> projection_checkpoint name st) h))"

datatype 'x projection_step =
  Log_Append 'x "payload option ledger_event"
| Process "int option" fault
| Rebuild "int option" fault

fun projection_run ::
  "('x \<Rightarrow> payload option ledger_event \<Rightarrow> 's \<Rightarrow> (string + append_result) \<times> 's) \<Rightarrow>
   (int \<Rightarrow> string option \<Rightarrow> 's \<Rightarrow> (int option \<times> payload option ledger_event) list) \<Rightarrow> string \<Rightarrow>
   'x projection_step list \<Rightarrow> 's \<times> projection_db \<Rightarrow> 's \<times> projection_db" where
  "projection_run add_ev replay name [] w = w"
| "projection_run add_ev replay name (Log_Append x ev # steps) (ls, st) =
     projection_run add_ev replay name steps (snd (add_ev x ev ls), st)"
| "projection_run add_ev replay name (Process to fault # steps) (ls, st) =
     projection_run add_ev replay name steps (ls, snd (process_events replay name 1 to fault ls st))"
| "projection_run add_ev replay name (Rebuild to fault # steps) (ls, st) =
     projection_run add_ev replay name steps (ls, snd (rebuild replay name to None fault ls st))"

lemma projection_exact_append:
  assumes "projection_exact name h st" and "well_numbered (h @ [(q, ev)])" and "1 \<le> q"
  shows "projection_exact name (h @ [(q, ev)]) st"
proof -
  have "projection_checkpoint name st < q"
  proof (cases h rule: rev_cases)
    case Nil
    with assms show ?thesis by (simp add: projection_exact_def)
  next
    case (snoc h0 x)
    with assms show ?thesis by (auto simp: projection_exact_def well_numbered_def sorted_wrt_append)
  qed
  with assms(1,3) show ?thesis by (auto simp: projection_exact_def)
qed

lemma with_txn_results:
  "with_txn f catch body d = (x, d') \<Longrightarrow> (\<And>e. \<exists>m. catch e = Inl m) \<Longrightarrow>
     (\<exists>y. body d = Inr (y, d') \<and> ((\<exists>m. x = Inl m) \<or> y = x)) \<or> (d' = d \<and> (\<exists>m. x = Inl m))"
  by (cases f) (auto split: sum.splits)

text \<open>One batch, committed or not, keeps the projection exact; a successful unbounded one completes it.\<close>

lemma apply_batch_exact:
  assumes h: "sorted_wrt (<) (map fst h)" and inv: "projection_exact name h st"
    and rows: "rows = filter (\<lambda>(q, ev). projection_checkpoint name st + 1 \<le> q) h"
    and run: "apply_batch name to fault rows st = (r, st')"
  shows "projection_exact name h st' \<and>
    (\<forall>rs. r = Inr rs \<and> to = None \<longrightarrow> (\<forall>k. projected st' k = net_of k h))"
proof -
  let ?cp = "projection_checkpoint name st"
  have cp: "0 \<le> ?cp" using inv by (simp add: projection_exact_def)
  have all: "filter (\<lambda>(q, ev). q \<le> ?cp) h = h" if "rows = []"
    using that by (force simp: rows filter_empty_conv filter_id_conv)
  show ?thesis
  proof (cases "rows = []")
    case True
    with run all inv show ?thesis by (auto simp: apply_batch_def projection_exact_def)
  next
    case False
    from run False have txn: "with_txn fault (\<lambda>e. Inl (pg_text e))
        (\<lambda>st. case apply_rows name to rows st of Inl e \<Rightarrow> Inl e | Inr (rs, st') \<Rightarrow> Inr (Inr rs, st')) st = (r, st')"
      by (simp add: apply_batch_def)
    from with_txn_results [OF txn] consider (same) "st' = st" "\<exists>m. r = Inl m"
      | (applied) rs where "apply_rows name to rows st = Inr (rs, st')"
      by (auto split: sum.splits prod.splits)
    then show ?thesis
    proof cases
      case same
      with inv show ?thesis by auto
    next
      case (applied rs)
      have srows: "sorted_wrt (<) (map fst rows)" using h by (simp add: rows sorted_wrt_map sorted_wrt_filter)
      have "\<forall>q \<in> fst ` set rows. 0 \<le> q \<and> ?cp \<le> q" using cp by (auto simp: rows)
      from apply_rows_effect [OF applied srows this] obtain n where n: "n \<le> length rows"
        and eff: "\<And>k. projected st' k = (fst (projected st k) + fst (net_of k (take n rows)),
            snd (projected st k) + snd (net_of k (take n rows)))"
        and cp': "projection_checkpoint name st' = (if n = 0 then ?cp else fst (rows ! (n - 1)))"
        and full: "to = None \<longrightarrow> n = length rows" by blast
      note moves = checkpoint_moves [OF h rows n, folded cp']
      have exact: "projected st' k = net_of k (filter (\<lambda>(q, ev). q \<le> projection_checkpoint name st') h)" for k
        using inv by (cases k) (simp add: moves net_of_append eff projection_exact_def)
      have "h \<noteq> []" using False by (auto simp: rows)
      have bound: "0 \<le> projection_checkpoint name st' \<and> projection_checkpoint name st' \<le> fst (last h)"
      proof (cases "n = 0")
        case True
        with inv \<open>h \<noteq> []\<close> cp' show ?thesis by (simp add: projection_exact_def)
      next
        case n0: False
        then have "rows ! (n - 1) \<in> set h" using n nth_mem [of "n - 1" rows] by (simp add: rows)
        with inv sorted_last [OF h this] n0 show ?thesis by (fastforce simp: cp' projection_exact_def)
      qed
      with exact inv \<open>h \<noteq> []\<close> have "projection_exact name h st'" by (simp add: projection_exact_def)
      moreover have "projected st' k = net_of k h" if "to = None" for k
      proof -
        have "take n rows = rows" using full that by simp
        then have "filter (\<lambda>(q, ev). q \<le> projection_checkpoint name st') h = h"
          using moves sorted_split [OF h, of ?cp] rows by simp
        with exact show ?thesis by simp
      qed
      ultimately show ?thesis by blast
    qed
  qed
qed

lemma truncated_exact:
  "\<forall>q \<in> fst ` set h. 1 \<le> q \<Longrightarrow> checkpoints st name = Some 0 \<Longrightarrow> balance_projections st = (\<lambda>_. None) \<Longrightarrow>
     projection_exact name h st"
proof -
  assume pos: "\<forall>q \<in> fst ` set h. 1 \<le> q" and cp: "checkpoints st name = Some 0" and none: "balance_projections st = (\<lambda>_. None)"
  have "filter (\<lambda>(q, ev). q \<le> 0) h = []" using pos by (force simp: filter_empty_conv)
  moreover have "h \<noteq> [] \<Longrightarrow> 0 \<le> fst (last h)" using pos last_in_set by fastforce
  ultimately show ?thesis
    using pos cp none by (simp add: projection_exact_def projection_checkpoint_def projected_def)
qed

text \<open>The log the engine reads: numbered, and with the kernel's payloads.\<close>

locale payload_log = numbered_log log_ok history add_ev replay
  for log_ok :: "'s \<Rightarrow> bool"
    and history :: "'s \<Rightarrow> (int \<times> payload option ledger_event) list"
    and add_ev :: "'x \<Rightarrow> payload option ledger_event \<Rightarrow> 's \<Rightarrow> (string + append_result) \<times> 's"
    and replay :: "int \<Rightarrow> string option \<Rightarrow> 's \<Rightarrow> (int option \<times> payload option ledger_event) list"
begin

lemma read_batch_rows:
  assumes "log_ok s" and "0 \<le> projection_checkpoint name st"
  shows "read_batch replay name 1 s st = filter (\<lambda>(q, ev). projection_checkpoint name st + 1 \<le> q) (history s)"
proof -
  have start: "(if 1 \<le> projection_checkpoint name st then projection_checkpoint name st + 1 else 1)
      = projection_checkpoint name st + 1" using assms(2) by auto
  show ?thesis
    by (simp add: read_batch_def Let_def start replay_numbers [OF assms(1)] of_aggregate_def comp_def case_prod_unfold)
qed

lemma process_exact:
  assumes ok: "log_ok s" and inv: "projection_exact name (history s) st"
    and run: "process_events replay name 1 to fault s st = (r, st')"
  shows "projection_exact name (history s) st' \<and>
    (\<forall>rs. r = Inr rs \<and> to = None \<longrightarrow> (\<forall>k. projected st' k = net_of k (history s)))"
proof (rule apply_batch_exact [OF _ inv read_batch_rows [OF ok, of name st]])
  show "sorted_wrt (<) (map fst (history s))" using numbered [OF ok] by (simp add: well_numbered_def)
  show "0 \<le> projection_checkpoint name st" using inv by (simp add: projection_exact_def)
  show "apply_batch name to fault (read_batch replay name 1 s st) st = (r, st')"
    using run by (simp add: process_events_def)
qed

lemma rebuild_exact:
  assumes ok: "log_ok s" and run: "rebuild replay name to None fault s st = (r, st')"
  shows "projection_exact name (history s) st' \<and>
    (\<forall>rs. r = Inr rs \<and> to = None \<longrightarrow> (\<forall>k. projected st' k = net_of k (history s)))"
proof (rule process_exact [OF ok])
  show "process_events replay name 1 to fault s (st\<lparr>balance_projections := (\<lambda>_. None), balance_entries := (\<lambda>_. None),
      checkpoints := (checkpoints st)(name \<mapsto> 0)\<rparr>) = (r, st')"
    using run by (simp add: rebuild_def Let_def)
  show "projection_exact name (history s) (st\<lparr>balance_projections := (\<lambda>_. None), balance_entries := (\<lambda>_. None),
      checkpoints := (checkpoints st)(name \<mapsto> 0)\<rparr>)"
    by (rule truncated_exact) (use from_one [OF ok] in auto)
qed

lemma projection_run_exact:
  "log_ok s \<Longrightarrow> projection_exact name (history s) st \<Longrightarrow> projection_run add_ev replay name steps (s, st) = (s', st') \<Longrightarrow>
     log_ok s' \<and> projection_exact name (history s') st'"
proof (induction steps arbitrary: s st)
  case (Cons step steps)
  show ?case
  proof (cases step)
    case (Log_Append x ev)
    obtain r s1 where a: "add_ev x ev s = (r, s1)" by fastforce
    note ok = append_keeps [OF Cons.prems(1) a]
    have "projection_exact name (history s1) st"
      using append_history [OF Cons.prems(1) a] numbered [OF ok] from_one [OF ok] Cons.prems(2)
      by (fastforce intro: projection_exact_append)
    with Cons.IH [OF ok] Cons.prems(3) show ?thesis by (simp add: Log_Append a)
  next
    case (Process to fault)
    obtain r st1 where p: "process_events replay name 1 to fault s st = (r, st1)" by fastforce
    from Cons.IH [OF Cons.prems(1) conjunct1 [OF process_exact [OF Cons.prems(1,2) p]]] Cons.prems(3)
    show ?thesis by (simp add: Process p)
  next
    case (Rebuild to fault)
    obtain r st1 where p: "rebuild replay name to None fault s st = (r, st1)" by fastforce
    from Cons.IH [OF Cons.prems(1) conjunct1 [OF rebuild_exact [OF Cons.prems(1) p]]] Cons.prems(3)
    show ?thesis by (simp add: Rebuild p)
  qed
qed simp

end

interpretation pg_payloads: payload_log pg_log_ok ke_rows "pg_append is_uuid" "pg_replay None" for is_uuid
  by unfold_locales

text \<open>C25. Each event of the log counts exactly once: after any run of appends, batches (bounded or not, with
  connections lost before or after the commit) and full rebuilds, the projected balance of every key is
  the sum of the effects of the events up to the checkpoint; a batch without an upper bound that
  succeeds makes it the sum over the whole log, and a rebuild then gives the same balances.\<close>

theorem projection_exactly_once:
  assumes ok: "pg_log_ok s" and start: "balance_projections st = (\<lambda>_. None)" "checkpoints st name = Some 0"
    and run: "projection_run (pg_append is_uuid) (pg_replay limit) name steps (s, st) = (s', st')"
    and last: "process_events (pg_replay limit) name 1 None fault s' st' = (r, st2)"
  shows "(\<forall>k. projected st' k = net_of k (filter (\<lambda>(q, ev). q \<le> projection_checkpoint name st') (ke_rows s'))) \<and>
    (\<forall>rs. r = Inr rs \<longrightarrow> (\<forall>k. projected st2 k = net_of k (ke_rows s'))) \<and>
    (\<forall>rs rs' st3. r = Inr rs \<and> rebuild (pg_replay limit) name None None NoFault s' st2 = (Inr rs', st3) \<longrightarrow>
       projected st3 = projected st2)"
proof -
  have rp: "pg_replay limit = pg_replay None" by (simp add: fun_eq_iff pg_replay_def)
  have "projection_exact name (ke_rows s) st"
    by (rule truncated_exact) (use ok start in \<open>auto simp: pg_log_ok_def\<close>)
  from pg_payloads.projection_run_exact [OF ok this run [unfolded rp]]
  have ok': "pg_log_ok s'" and ex: "projection_exact name (ke_rows s') st'" by simp_all
  note p = pg_payloads.process_exact [OF ok' ex last [unfolded rp]]
  have "projected st3 = projected st2"
    if "r = Inr rs" "rebuild (pg_replay limit) name None None NoFault s' st2 = (Inr rs', st3)" for rs rs' st3
    using p pg_payloads.rebuild_exact [OF ok' that(2) [unfolded rp]] that(1) by (simp add: fun_eq_iff)
  with p ex show ?thesis by (auto simp: projection_exact_def)
qed

text \<open>A log with a reservation and its consumption.\<close>

definition cash_payload :: "string \<Rightarrow> payload" where
  "cash_payload n = Payload (Some ''funder'') (Some ''pUSD'') (Some n) None None None None None None None"

definition sample_created :: "payload option ledger_event" where
  "sample_created = \<lparr>ev_id = ''e1'', ev_type = RESERVATION_CREATED, ev_aggregate = ''p1'',
     ev_payload = Some (cash_payload ''100''), ev_seq_hint = None\<rparr>"

definition sample_consumed :: "payload option ledger_event" where
  "sample_consumed = \<lparr>ev_id = ''e2'', ev_type = RESERVATION_CONSUMED, ev_aggregate = ''p1'',
     ev_payload = Some (cash_payload ''100''), ev_seq_hint = None\<rparr>"

definition fresh_projection :: projection_db where
  "fresh_projection = \<lparr>balance_projections = (\<lambda>_. None), balance_entries = (\<lambda>_. None),
     checkpoints = [''balances'' \<mapsto> 0]\<rparr>"

definition sample_rows :: "payload option pg_log" where
  "sample_rows = \<lparr>ke_rows = [(1, sample_created), (2, sample_consumed)], ke_next = 3\<rparr>"

lemma sample_rows_ok: "pg_log_ok sample_rows"
  by (simp add: pg_log_ok_def well_numbered_def sample_rows_def sample_created_def sample_consumed_def)

lemma sample_amount: "parse_bigint ''100'' = Some 100"
  by code_simp

lemmas sample_projection_defs = process_events_def read_batch_def apply_batch_def apply_row_def
  upsert_projection_def upsert_entry_def updateCheckpoint_def projection_checkpoint_def projected_def
  pg_replay_def of_aggregate_def map_amount_def field_big_def numeric_38_def sample_amount
  sample_rows_def sample_created_def sample_consumed_def cash_payload_def fresh_projection_def

lemma sample_processed:
  "\<exists>rs st'. process_events (pg_replay None) ''balances'' 1 None NoFault sample_rows fresh_projection = (Inr rs, st') \<and>
     projected st' (''funder'', ''pUSD'') = (-100, 0) \<and>
     balance_entries st' (''funder'', ''pUSD'') = Some \<lparr>available_base = -100, committed_base = 100\<rparr>"
  by (simp add: sample_projection_defs Let_def)

definition sample_projection_steps :: "fault projection_step list" where
  "sample_projection_steps = [Log_Append NoFault sample_created, Process None (CommitLost (js_throw ''lost'')),
     Log_Append NoFault sample_consumed, Process (Some 1) NoFault]"

theorem projection_exactly_once_witness:
  "case projection_run (pg_append (\<lambda>_. True)) (pg_replay None) ''balances'' sample_projection_steps
       (\<lparr>ke_rows = [], ke_next = 1\<rparr>, fresh_projection) of
     (s', st') \<Rightarrow> projected st' (''funder'', ''pUSD'')
       = net_of (''funder'', ''pUSD'') (filter (\<lambda>(q, ev). q \<le> projection_checkpoint ''balances'' st') (ke_rows s'))"
proof -
  have ok: "pg_log_ok (\<lparr>ke_rows = [], ke_next = 1\<rparr> :: payload option pg_log)"
    by (simp add: pg_log_ok_def well_numbered_def)
  have start: "balance_projections fresh_projection = (\<lambda>_. None)" "checkpoints fresh_projection ''balances'' = Some 0"
    by (simp_all add: fresh_projection_def)
  obtain s' st' where run: "projection_run (pg_append (\<lambda>_. True)) (pg_replay None) ''balances'' sample_projection_steps
       (\<lparr>ke_rows = [], ke_next = 1\<rparr>, fresh_projection) = (s', st')" by fastforce
  obtain r st2 where p: "process_events (pg_replay None) ''balances'' 1 None NoFault s' st' = (r, st2)" by fastforce
  from projection_exactly_once [OF ok start run p] show ?thesis by (simp add: run)
qed

text \<open>
  The durable entries do not follow the projection: a delta without an available part is not written to
  them, so the funds of a consumed reservation stay committed there.
\<close>

theorem entries_keep_consumed_funds:
  "\<exists>rs st'. process_events (pg_replay None) ''balances'' 1 None NoFault sample_rows fresh_projection = (Inr rs, st') \<and>
     snd (projected st' (''funder'', ''pUSD'')) = 0 \<and>
     map_option committed_base (balance_entries st' (''funder'', ''pUSD'')) = Some 100"
  using sample_processed by fastforce

text \<open>
  The batch is read before the transaction that applies it: two engines that read the same checkpoint
  both apply the batch, and every event of it counts twice.
\<close>

theorem overlapping_batches_count_twice:
  "let rows = read_batch (pg_replay None) ''balances'' 1 sample_rows fresh_projection;
       st1 = snd (apply_batch ''balances'' None NoFault rows fresh_projection);
       st2 = snd (apply_batch ''balances'' None NoFault rows st1)
   in projected st1 (''funder'', ''pUSD'') = (-100, 0) \<and> projected st2 (''funder'', ''pUSD'') = (-200, 0)"
  by (simp add: sample_projection_defs Let_def)

text \<open>
  A rebuild that stops between a \<open>TRUNCATE\<close> and the reset of the checkpoint leaves the events below the
  checkpoint out for good: the next batch finds nothing to do.
\<close>

theorem interrupted_rebuild_loses_events:
  "let st1 = snd (process_events (pg_replay None) ''balances'' 1 None NoFault sample_rows fresh_projection);
       st2 = snd (rebuild (pg_replay None) ''balances'' None (Some 2) NoFault sample_rows st1)
   in process_events (pg_replay None) ''balances'' 1 None NoFault sample_rows st2 = (Inr [], st2) \<and>
      projected st2 (''funder'', ''pUSD'') = (0, 0) \<and>
      net_of (''funder'', ''pUSD'') (ke_rows sample_rows) = (-100, 0)"
  by (simp add: sample_projection_defs rebuild_def Let_def net_of_def effect_of_def)

end
