(* ===== verification/DecimalBase.thy ===== *)
theory DecimalBase
  imports JsNumber
begin

text \<open>
  \<open>decimalToBase\<close> of \<open>src/pm/signer/src/index.ts\<close>: a decimal number to integer base units, by way of
  its string form. The lemmas show that \<open>Number::toString\<close> yields the digits of a decimal that reads
  back to the same double, so that an accepted conversion is exact in that sense: the base units,
  divided by the scale and rounded to a double, are the number that came in.
\<close>

section \<open>The conversion\<close>

definition int_part :: "string \<Rightarrow> string" where
  "int_part s = takeWhile (\<lambda>c. c \<noteq> CHR ''.'') s"

definition frac_part :: "string \<Rightarrow> string" where
  "frac_part s = takeWhile (\<lambda>c. c \<noteq> CHR ''.'') (tl (dropWhile (\<lambda>c. c \<noteq> CHR ''.'') s))"

definition decimalToBase :: "jsnum \<Rightarrow> nat \<Rightarrow> js_error + int" where
  "decimalToBase value decimals =
     (if \<not> is_finite_num value \<or> num_lt value (Fin 0) then Inr 0
      else
        let ip = int_part (num_to_string value); fracRaw = frac_part (num_to_string value)
        in if decimals < length fracRaw then Inl PrecisionLoss
           else
             let fracPadded = take decimals (fracRaw @ replicate (decimals - length fracRaw) CHR ''0'')
             in case parse_bigint (ip @ fracPadded) of
                  None \<Rightarrow> Inl SyntaxError
                | Some base \<Rightarrow> Inr (base * (if take 1 ip = ''-'' then -1 else 1)))"

text \<open>The default of six decimals.\<close>

abbreviation toBase6 :: "jsnum \<Rightarrow> js_error + int" where
  "toBase6 x \<equiv> decimalToBase x 6"

section \<open>The number of digits\<close>

lemma dlen_range:
  fixes b m :: int
  assumes "2 \<le> b" and "1 \<le> m"
  shows "1 \<le> dlen b m \<and> b ^ nat (dlen b m - 1) \<le> m \<and> m < b ^ nat (dlen b m)"
  using assms
proof (induction b m rule: dlen.induct)
  case (1 b m)
  have pos: "2 \<le> b" "1 \<le> m" using 1(2,3) by simp_all
  have step: "dlen b m = 1 + dlen b (m div b)" using pos by (simp add: dlen.simps [of b m])
  have md: "m = b * (m div b) + m mod b" "0 \<le> m mod b" "m mod b < b" using pos by simp_all
  show ?case
  proof (cases "m div b \<le> 0")
    case True
    then have "dlen b (m div b) = 0" by (subst dlen.simps) simp
    moreover have "m div b = 0" using True pos pos_imp_zdiv_nonneg_iff [of b m] by simp
    then have "m < b" using md by simp
    ultimately show ?thesis using pos by (simp add: step)
  next
    case False
    then have ih: "1 \<le> dlen b (m div b)" "b ^ nat (dlen b (m div b) - 1) \<le> m div b"
      "m div b < b ^ nat (dlen b (m div b))"
      using 1 pos by auto
    define l where "l = nat (dlen b (m div b) - 1)"
    have l: "nat (dlen b (m div b)) = Suc l" using ih(1) by (simp add: l_def)
    have d: "nat (dlen b m - 1) = Suc l" "nat (dlen b m) = Suc (Suc l)"
      using ih(1) l by (simp_all add: step)
    have "b * b ^ l \<le> b * (m div b)" using ih(2) pos by (simp add: l_def)
    then have lo: "b ^ Suc l \<le> m" using md(1,2) unfolding power_Suc by linarith
    have "m div b + 1 \<le> b ^ Suc l" using ih(3) l by simp
    then have "b * (m div b + 1) \<le> b * b ^ Suc l" using pos by simp
    then have hi: "m < b ^ Suc (Suc l)" using md(1,3) unfolding power_Suc distrib_left by linarith
    show ?thesis using lo hi d ih(1) step by simp
  qed
qed

lemma dlen_bounds:
  fixes b m :: int
  assumes "2 \<le> b" and "1 \<le> m"
  shows "1 \<le> dlen b m" and "b ^ nat (dlen b m - 1) \<le> m" and "m < b ^ nat (dlen b m)"
  using dlen_range [OF assms] by simp_all

lemma pow10_pos [simp]: "0 < pow10 e"
  by (simp add: pow10_def)

lemma pow10_powi: "pow10 e = 10 powi e"
  by (simp add: pow10_def power_int_def power_one_over)

lemma pow10_add: "pow10 (a + b) = pow10 a * pow10 b"
  by (simp add: pow10_powi power_int_add)

lemma int_pow10_le: "10 ^ k \<le> m \<Longrightarrow> (10 :: rat) ^ k \<le> of_int m"
  using of_int_le_iff [of "10 ^ k" m, where ?'a = rat] by simp

lemma int_pow10_less: "m < 10 ^ k \<Longrightarrow> (of_int m :: rat) + 1 \<le> 10 ^ k"
  using of_int_le_iff [of "m + 1" "10 ^ k", where ?'a = rat] by simp

lemma pow10_nat: "pow10 (int n) = 10 ^ n"
  by (simp add: pow10_def)

lemma dec_exp_bounds:
  assumes "0 < q"
  shows "pow10 (dec_exp q - 1) \<le> q" and "q < pow10 (dec_exp q)"
proof -
  have "pow10 (dec_exp q - 1) \<le> q \<and> q < pow10 (dec_exp q)"
  proof (cases "1 \<le> q")
    case True
    define m where "m = \<lfloor>q\<rfloor>"
    have m: "1 \<le> m" "of_int m \<le> q" "q < of_int m + 1" using True by (simp_all add: m_def le_floor_iff) linarith+
    note b = dlen_bounds [of 10 m, OF _ m(1)]
    have e: "dec_exp q = dlen 10 m" using True by (simp add: dec_exp_def m_def)
    have "pow10 (dec_exp q - 1) \<le> q"
      using order_trans [OF int_pow10_le [OF b(2)] m(2)] b(1) by (simp add: e pow10_def)
    moreover have "q < pow10 (dec_exp q)"
      using less_le_trans [OF m(3) int_pow10_less [OF b(3)]] b(1) by (simp add: e pow10_def)
    ultimately show ?thesis ..
  next
    case False
    define m where "m = \<lceil>1 / q\<rceil> - 1"
    have i: "1 < 1 / q" using False assms by simp
    have m: "1 \<le> m" "of_int m < 1 / q" "1 / q \<le> of_int m + 1"
      using i by (simp_all add: m_def) linarith+
    note b = dlen_bounds [of 10 m, OF _ m(1)]
    define l where "l = nat (dlen 10 m - 1)"
    have l: "dlen 10 m = int l + 1" using b(1) by (simp add: l_def)
    have e: "dec_exp q = - int l" using False l by (simp add: dec_exp_def m_def)
    have "10 ^ l < 1 / q"
      using le_less_trans [OF int_pow10_le [OF b(2)] m(2)] by (simp add: l_def)
    then have hi: "q < 1 / 10 ^ l" using assms by (simp add: field_simps)
    have "1 / q \<le> 10 ^ Suc l"
      using order_trans [OF m(3) int_pow10_less [OF b(3)]] by (simp add: l nat_add_distrib)
    then have lo: "1 / 10 ^ Suc l \<le> q" using assms by (simp add: field_simps)
    show ?thesis using lo hi by (auto simp: e pow10_def nat_add_distrib)
  qed
  then show "pow10 (dec_exp q - 1) \<le> q" and "q < pow10 (dec_exp q)" by simp_all
qed

section \<open>The shortest digits read back\<close>

lemma round_half_even_range: "\<lfloor>x\<rfloor> \<le> round_half_even x" "round_half_even x \<le> \<lfloor>x\<rfloor> + 1"
  by (simp_all add: round_half_even_def Let_def)

text \<open>\<open>s\<close> has \<open>k\<close> digits and \<open>s * 10^(n-k)\<close> rounds to the double \<open>q\<close>.\<close>

definition digits_of :: "rat \<Rightarrow> int \<Rightarrow> nat \<Rightarrow> int \<Rightarrow> bool" where
  "digits_of q s k n \<longleftrightarrow> 1 \<le> k \<and> 10 ^ (k - 1) \<le> s \<and> s < 10 ^ k \<and>
     fl (of_int s * pow10 (n - int k)) = Fin q"

lemma scaled_bounds:
  assumes "0 < q" and "1 \<le> k"
  defines "x \<equiv> q / pow10 (dec_exp q - int k)"
  shows "10 ^ (k - 1) \<le> \<lfloor>x\<rfloor>" and "\<lfloor>x\<rfloor> < 10 ^ k"
proof -
  let ?p = "pow10 (dec_exp q - int k)"
  have "?p * 10 ^ (k - 1) = pow10 (dec_exp q - 1)"
    using assms(2) by (simp add: pow10_nat [symmetric] pow10_add [symmetric] of_nat_diff)
  with dec_exp_bounds(1) [OF assms(1)] have "10 ^ (k - 1) \<le> x"
    by (simp add: x_def pos_le_divide_eq mult.commute)
  then show "10 ^ (k - 1) \<le> \<lfloor>x\<rfloor>" by (simp add: le_floor_iff)
  have "?p * 10 ^ k = pow10 (dec_exp q)"
    by (simp add: pow10_nat [symmetric] pow10_add [symmetric])
  with dec_exp_bounds(2) [OF assms(1)] have "x < 10 ^ k"
    by (simp add: x_def pos_divide_less_eq mult.commute)
  then show "\<lfloor>x\<rfloor> < 10 ^ k" by (simp add: floor_less_iff)
qed

lemma shortest_from_digits:
  "0 < q \<Longrightarrow> 1 \<le> k \<Longrightarrow> shortest_from fuel k q = Some (s, k', n) \<Longrightarrow> digits_of q s k' n"
proof (induction fuel arbitrary: k)
  case 0
  then show ?case by simp
next
  case (Suc fuel)
  define n0 where "n0 = dec_exp q"
  define x where "x = q / pow10 (n0 - int k)"
  define near where "near = round_half_even x"
  define other where "other = (if near = \<lfloor>x\<rfloor> then near + 1 else \<lfloor>x\<rfloor>)"
  define pick where "pick = (if reads_back q near (n0 - int k) then near
      else if reads_back q other (n0 - int k) then other else 0)"
  have run: "(if pick = 0 then shortest_from fuel (Suc k) q
      else if pick = 10 ^ k then Some (pick div 10, k, n0 + 1) else Some (pick, k, n0)) = Some (s, k', n)"
    using Suc.prems(3)
    by (simp only: shortest_from.simps Let_def n0_def x_def near_def other_def pick_def)
  have fl_x: "10 ^ (k - 1) \<le> \<lfloor>x\<rfloor>" "\<lfloor>x\<rfloor> < 10 ^ k"
    using scaled_bounds [OF Suc.prems(1,2)] by (simp_all add: x_def n0_def)
  have rng: "10 ^ (k - 1) \<le> pick" "pick \<le> 10 ^ k" if "pick \<noteq> 0"
    using that fl_x round_half_even_range [of x]
    by (auto simp: pick_def other_def near_def split: if_splits)
  have rb: "fl (of_int pick * pow10 (n0 - int k)) = Fin q" if "pick \<noteq> 0"
    using that by (auto simp: pick_def reads_back_def split: if_splits)
  consider "pick = 0" | "pick \<noteq> 0" "pick = 10 ^ k" | "pick \<noteq> 0" "pick \<noteq> 10 ^ k" by blast
  then show ?case
  proof cases
    case 1
    with run Suc.IH [of "Suc k"] Suc.prems(1) show ?thesis by simp
  next
    case 2
    obtain j where k: "k = Suc j" using Suc.prems(2) by (cases k) auto
    have sk: "s = 10 ^ j" "k' = k" "n = n0 + 1" using run 2 by (auto simp: k)
    have "(of_int s :: rat) * pow10 (n - int k') = of_int pick * pow10 (n0 - int k)"
      using pow10_add [of 1 "n0 - int k"] by (simp add: sk 2(2) k pow10_def [of 1] algebra_simps)
    with rb [OF 2(1)] show ?thesis by (simp add: digits_of_def sk k)
  next
    case 3
    with run have sk: "s = pick" "k' = k" "n = n0" by auto
    with rng [OF 3(1)] rb [OF 3(1)] 3 Suc.prems(2) show ?thesis by (simp add: digits_of_def)
  qed
qed

section \<open>Reading the layout back\<close>

lemma length_digits_str:
  "1 \<le> k \<Longrightarrow> 10 ^ (k - 1) \<le> s \<Longrightarrow> s < 10 ^ k \<Longrightarrow> length (digits_str s) = k"
proof (induction k arbitrary: s)
  case 0
  then show ?case by simp
next
  case (Suc k)
  show ?case
  proof (cases k)
    case 0
    with Suc.prems show ?thesis by (subst digits_str.simps) simp
  next
    case (Suc j)
    have "1 \<le> (10 :: int) ^ j" by simp
    moreover have "10 * 10 ^ j \<le> s" using Suc.prems(2) \<open>k = Suc j\<close> by simp
    ultimately have big: "10 \<le> s" by linarith
    have "length (digits_str (s div 10)) = k"
      using Suc.IH Suc.prems \<open>k = Suc j\<close> by (intro Suc.IH) (simp_all add: zdiv_mono1 zless_imp_add1_zle)
    with big show ?thesis by (subst digits_str.simps) simp
  qed
qed

lemma parse_digits_zeros: "parse_digits 10 acc (replicate m CHR ''0'') = Some (acc * 10 ^ m)"
  by (induction m arbitrary: acc) (simp_all add: digit_val_def)

lemma int_part_nodot: "\<forall>c \<in> set xs. c \<noteq> CHR ''.'' \<Longrightarrow> int_part xs = xs"
  unfolding int_part_def by (induction xs) simp_all

lemma frac_part_nodot: "\<forall>c \<in> set xs. c \<noteq> CHR ''.'' \<Longrightarrow> frac_part xs = []"
  unfolding frac_part_def by (induction xs) simp_all

lemma parts_dot:
  assumes "\<forall>c \<in> set xs. c \<noteq> CHR ''.''" and "\<forall>c \<in> set ys. c \<noteq> CHR ''.''"
  shows "int_part (xs @ CHR ''.'' # ys) = xs" and "frac_part (xs @ CHR ''.'' # ys) = ys"
proof -
  show "int_part (xs @ CHR ''.'' # ys) = xs"
    using assms(1) by (induction xs) (simp_all add: int_part_def)
  have "takeWhile (\<lambda>c. c \<noteq> CHR ''.'') ys = ys" using assms(2) by (simp add: takeWhile_eq_all_conv)
  then show "frac_part (xs @ CHR ''.'' # ys) = ys"
    using assms(1) by (induction xs) (simp_all add: frac_part_def)
qed

lemma digit_no_dot: "is_digit c \<Longrightarrow> c \<noteq> CHR ''.''"
  by (auto simp: is_digit_def)

text \<open>A string whose first letter is an exponent mark is not a bigint.\<close>

lemma parse_bigint_exponent:
  assumes "ds \<noteq> []" and "\<forall>c \<in> set ds. is_digit c" and "zs \<noteq> []" and "is_digit (last zs)"
  shows "parse_bigint (ds @ CHR ''e'' # zs) = None"
proof -
  let ?t = "ds @ CHR ''e'' # zs"
  have hd: "is_digit (hd ?t)" using assms by (cases ds) auto
  have trim: "trim_str ?t = ?t"
    using assms hd by (intro trim_str_ends) (auto dest: is_digit_not_space)
  have second: "is_digit (hd (tl ?t)) \<or> hd (tl ?t) = CHR ''e''"
    using assms by (cases ds; cases "tl ds") auto
  have e: "digit_val 10 CHR ''e'' = None" by (simp add: digit_val_def)
  have "parse_digits 10 0 ?t = None"
    by (cases "parse_digits 10 0 ds") (simp_all add: parse_digits_append e)
  moreover have "hd ?t \<notin> set ''-+''" using hd by (auto simp: is_digit_def)
  moreover have "hd (tl ?t) \<notin> set ''xXoObB''" using second by (auto simp: is_digit_def)
  ultimately show ?thesis
    unfolding parse_bigint_def Let_def trim parse_nonempty_def by simp
qed

text \<open>The base units a layout is read as: \<open>pad\<close> is the padded fraction.\<close>

definition joined :: "string \<Rightarrow> nat \<Rightarrow> string" where
  "joined t d = int_part t @ take d (frac_part t @ replicate (d - length (frac_part t)) CHR ''0'')"

lemma joined_pad:
  "length (frac_part t) \<le> d \<Longrightarrow>
     joined t d = int_part t @ frac_part t @ replicate (d - length (frac_part t)) CHR ''0''"
  by (simp add: joined_def)

lemma parse_digits_then_zeros:
  assumes "0 \<le> s"
  shows "parse_bigint (digits_str s @ replicate m CHR ''0'') = Some (s * 10 ^ m)"
    and "parse_bigint (replicate z CHR ''0'' @ digits_str s @ replicate m CHR ''0'') = Some (s * 10 ^ m)"
proof -
  have z: "is_digit CHR ''0''" by (simp add: is_digit_def)
  have d: "\<forall>c \<in> set (digits_str s). is_digit c" using assms by (rule digits_str_digits)
  show "parse_bigint (digits_str s @ replicate m CHR ''0'') = Some (s * 10 ^ m)"
    using d z assms
    by (subst parse_bigint_digits) (auto simp: parse_digits_append parse_digits_str parse_digits_zeros)
  show "parse_bigint (replicate z CHR ''0'' @ digits_str s @ replicate m CHR ''0'') = Some (s * 10 ^ m)"
    using d z assms
    by (subst parse_bigint_digits) (auto simp: parse_digits_append parse_digits_str parse_digits_zeros)
qed

text \<open>Without an exponent, the layout is read as its digits, zeros around them.\<close>

lemma layout_joined:
  assumes s: "1 \<le> k" "10 ^ (k - 1) \<le> s" "s < 10 ^ k"
    and t: "t = layout_digits s k n" and n: "-6 < n" "n \<le> 21"
  shows "length (frac_part t) = nat (int k - n)"
    and "nat (int k - n) \<le> d \<Longrightarrow> \<exists>z. joined t d =
      replicate z CHR ''0'' @ digits_str s @ replicate (nat (n - int k + int d)) CHR ''0''"
proof -
  define ds where "ds = digits_str s"
  have s0: "0 \<le> s" using s(2) order_trans [of 0 "10 ^ (k - 1) :: int" s] by simp
  have dig: "\<forall>c \<in> set ds. is_digit c" using s0 by (simp add: ds_def digits_str_digits)
  have lds: "length ds = k" using s by (simp add: ds_def length_digits_str)
  have nodot: "\<forall>c \<in> set ds. c \<noteq> CHR ''.''" using dig digit_no_dot by blast
  have zeros_nodot: "\<forall>c \<in> set (zeros j). c \<noteq> CHR ''.''" for j by (simp add: zeros_def)
  have sub: "\<forall>c \<in> set (take j ds). c \<noteq> CHR ''.''" "\<forall>c \<in> set (drop j ds). c \<noteq> CHR ''.''" for j
    using nodot set_take_subset [of j ds] set_drop_subset [of j ds] by blast+
  consider (whole) "int k \<le> n" | (mid) "0 < n" "n < int k" | (small) "n \<le> 0" using s(1) by linarith
  then have "length (frac_part t) = nat (int k - n) \<and> (nat (int k - n) \<le> d \<longrightarrow> (\<exists>z. joined t d =
      replicate z CHR ''0'' @ ds @ replicate (nat (n - int k + int d)) CHR ''0''))"
  proof cases
    case whole
    have tt: "t = ds @ zeros (n - int k)" using whole n(2) by (simp add: t layout_digits_def ds_def Let_def)
    have nd: "\<forall>c \<in> set t. c \<noteq> CHR ''.''" using nodot zeros_nodot by (auto simp: tt)
    have l: "length (frac_part t) = 0" by (simp add: frac_part_nodot [OF nd])
    have "joined t d = ds @ replicate (nat (n - int k) + d) CHR ''0''"
      using l by (simp add: joined_pad int_part_nodot [OF nd] frac_part_nodot [OF nd])
        (simp add: tt zeros_def replicate_add)
    also have "nat (n - int k) + d = nat (n - int k + int d)" using whole by simp
    finally show ?thesis using whole l by (auto intro: exI [of _ 0])
  next
    case mid
    have tt: "t = take (nat n) ds @ CHR ''.'' # drop (nat n) ds"
      using mid n by (simp add: t layout_digits_def ds_def Let_def)
    have p: "int_part t = take (nat n) ds" "frac_part t = drop (nat n) ds"
      unfolding tt by (rule parts_dot; use sub in simp)+
    have l: "length (frac_part t) = nat (int k - n)" using mid by (simp add: p lds nat_diff_distrib)
    have "joined t d = ds @ replicate (nat (n - int k + int d)) CHR ''0''" if "nat (int k - n) \<le> d"
    proof -
      have "d - nat (int k - n) = nat (n - int k + int d)" using mid that by linarith
      then show ?thesis
        using that l by (simp add: joined_pad p(1)) (simp add: p(2))
    qed
    with l show ?thesis by (auto intro: exI [of _ 0])
  next
    case small
    have tt: "t = ''0'' @ CHR ''.'' # (zeros (- n) @ ds)"
      using small n s(1) by (simp add: t layout_digits_def ds_def Let_def)
    have p: "int_part t = ''0''" "frac_part t = zeros (- n) @ ds"
      unfolding tt by (rule parts_dot; use nodot zeros_nodot in auto)+
    have l: "length (frac_part t) = nat (int k - n)" using small by (simp add: p lds zeros_def nat_diff_distrib)
    have "joined t d = replicate (Suc (nat (- n))) CHR ''0'' @ ds @ replicate (nat (n - int k + int d)) CHR ''0''"
      if "nat (int k - n) \<le> d"
    proof -
      have "d - nat (int k - n) = nat (n - int k + int d)" using small that by linarith
      then show ?thesis
        using that l by (simp add: joined_pad p(1)) (simp add: p(2) zeros_def)
    qed
    with l show ?thesis by blast
  qed
  then show "length (frac_part t) = nat (int k - n)"
    and "nat (int k - n) \<le> d \<Longrightarrow> \<exists>z. joined t d =
      replicate z CHR ''0'' @ digits_str s @ replicate (nat (n - int k + int d)) CHR ''0''"
    by (simp_all add: ds_def)
qed

text \<open>An exponent makes the layout unreadable.\<close>

lemma layout_exponent:
  assumes s: "1 \<le> k" "10 ^ (k - 1) \<le> s" "s < 10 ^ k"
    and t: "t = layout_digits s k n" and n: "21 < n \<or> n \<le> -6" and len: "length (frac_part t) \<le> d"
  shows "parse_bigint (joined t d) = None"
proof -
  define ds where "ds = digits_str s"
  have s0: "0 \<le> s" using s(2) order_trans [of 0 "10 ^ (k - 1) :: int" s] by simp
  have dig: "\<forall>c \<in> set ds. is_digit c" using s0 by (simp add: ds_def digits_str_digits)
  have nodot: "\<forall>c \<in> set ds. c \<noteq> CHR ''.''" using dig digit_no_dot by blast
  define es where "es = digits_str \<bar>n - 1\<bar>"
  have es: "es \<noteq> []" "\<forall>c \<in> set es. is_digit c"
    using digits_str_digits [of "\<bar>n - 1\<bar>"] by (simp_all add: es_def)
  define zs where "zs = (if n - 1 < 0 then CHR ''-'' else CHR ''+'') # es"
  have zs: "(if n - 1 < 0 then ''e-'' else ''e+'') @ es = CHR ''e'' # zs" "zs \<noteq> []"
    by (simp_all add: zs_def)
  have zs_nodot: "\<forall>c \<in> set zs. c \<noteq> CHR ''.''" using es(2) digit_no_dot by (simp add: zs_def)
  have zs_last: "is_digit (last zs)" using es by (simp add: zs_def)
  note pad = joined_pad [OF len]
  have sub: "\<forall>c \<in> set (take j ds). c \<noteq> CHR ''.''" "\<forall>c \<in> set (drop j ds). c \<noteq> CHR ''.''" for j
    using nodot set_take_subset [of j ds] set_drop_subset [of j ds] by blast+
  have c: "\<not> (int k \<le> n \<and> n \<le> 21)" "\<not> (0 < n \<and> n \<le> 21)" "\<not> (-6 < n \<and> n \<le> 0)"
    using n s(1) by auto
  have lay: "t = (if k = 1 then ds @ CHR ''e'' # zs else take 1 ds @ ''.'' @ drop 1 ds @ CHR ''e'' # zs)"
    unfolding t layout_digits_def Let_def ds_def [symmetric] es_def [symmetric] zs(1)
    by (simp only: c if_False)
  have "\<exists>ys. joined t d = ds @ CHR ''e'' # ys \<and> ys \<noteq> [] \<and> is_digit (last ys)"
  proof (cases "k = 1")
    case True
    have tt: "t = ds @ CHR ''e'' # zs"
      using True by (simp add: lay)
    have nd: "\<forall>c \<in> set t. c \<noteq> CHR ''.''" using nodot zs_nodot by (auto simp: tt)
    have "joined t d = ds @ CHR ''e'' # (zs @ replicate d CHR ''0'')"
      unfolding pad int_part_nodot [OF nd] frac_part_nodot [OF nd] by (simp add: tt)
    then show ?thesis
      using zs(2) zs_last by (intro exI [of _ "zs @ replicate d CHR ''0''"])
        (auto simp: last_append is_digit_def last_replicate)
  next
    case False
    have tt: "t = take 1 ds @ CHR ''.'' # (drop 1 ds @ CHR ''e'' # zs)"
      using False by (simp add: lay)
    have rest: "\<forall>c \<in> set (drop 1 ds @ CHR ''e'' # zs). c \<noteq> CHR ''.''"
      using sub(2) [of 1] zs_nodot by (simp add: ball_Un)
    have p: "int_part t = take 1 ds" "frac_part t = drop 1 ds @ CHR ''e'' # zs"
      unfolding tt by (rule parts_dot [OF sub(1) rest])+
    have "joined t d = take 1 ds @ drop 1 ds @ CHR ''e'' # (zs @
        replicate (d - length (frac_part t)) CHR ''0'')"
      unfolding pad p(1) by (simp add: p(2))
    then have "joined t d = ds @ CHR ''e'' # (zs @ replicate (d - length (frac_part t)) CHR ''0'')"
      by (metis append.assoc append_take_drop_id)
    then show ?thesis
      using zs(2) zs_last by (intro exI [of _ "zs @ replicate (d - length (frac_part t)) CHR ''0''"])
        (auto simp: last_append is_digit_def last_replicate)
  qed
  then obtain ys where "joined t d = ds @ CHR ''e'' # ys" "ys \<noteq> []" "is_digit (last ys)" by blast
  with parse_bigint_exponent [OF _ dig, of ys] show ?thesis by (simp add: ds_def)
qed

lemma layout_reads:
  assumes s: "1 \<le> k" "10 ^ (k - 1) \<le> s" "s < 10 ^ k"
    and t: "t = layout_digits s k n" and len: "length (frac_part t) \<le> d"
    and b: "parse_bigint (joined t d) = Some b"
  shows "of_int b = of_int s * pow10 (n - int k + int d)"
proof -
  have s0: "0 \<le> s" using s(2) order_trans [of 0 "10 ^ (k - 1) :: int" s] by simp
  have "\<not> (21 < n \<or> n \<le> -6)" using layout_exponent [OF s t _ len] b by auto
  then have n: "-6 < n" "n \<le> 21" by auto
  note lay = layout_joined [OF s t n]
  have le: "nat (int k - n) \<le> d" using len lay(1) by simp
  from lay(2) [OF this] b have "b = s * 10 ^ nat (n - int k + int d)"
    using parse_digits_then_zeros(2) [OF s0] by auto
  moreover have "0 \<le> n - int k + int d" using le by linarith
  ultimately show ?thesis by (simp add: pow10_def)
qed

text \<open>A layout never starts with a sign.\<close>

lemma layout_head:
  assumes "0 \<le> s" and "t = layout_digits s k n"
  shows "take 1 (int_part t) \<noteq> ''-''"
proof -
  have d: "is_digit (hd (digits_str s))" using assms(1) digits_str_digits by simp
  have hd: "t \<noteq> [] \<and> is_digit (hd t)"
    using d by (cases "digits_str s") (auto simp: assms(2) layout_digits_def Let_def is_digit_def
        take_Cons' split: if_splits)
  have "take 1 (int_part t) = take 1 t \<or> int_part t = []"
    by (cases t) (simp_all add: int_part_def)
  with hd show ?thesis by (cases t) (auto simp: is_digit_def)
qed

lemma toBase6_0: "decimalToBase (Fin 0) decimals = Inr 0"
proof -
  let ?z = "replicate decimals CHR ''0''"
  have "int_part ''0'' = ''0''" "frac_part ''0'' = ''''" by (simp_all add: int_part_def frac_part_def)
  moreover have "digits_str 0 = ''0''" by (subst digits_str.simps) (simp add: digit_char_def)
  moreover have "parse_bigint (''0'' @ ?z) = Some 0"
    using parse_digits_then_zeros(1) [of 0 decimals] \<open>digits_str 0 = ''0''\<close> by simp
  ultimately show ?thesis by (simp add: decimalToBase_def Let_def)
qed

text \<open>An accepted positive number: its base units are its shortest digits, scaled.\<close>

lemma decimalToBase_digits:
  assumes "decimalToBase (Fin q) decimals = Inr b" and q: "0 < q"
  obtains s k n where "digits_of q s k n" and "of_int b / 10 ^ decimals = of_int s * pow10 (n - int k)"
proof -
  define t where "t = pos_to_string q"
  have "num_to_string (Fin q) = t" using q by (simp add: t_def)
  with assms(1) q have len: "length (frac_part t) \<le> decimals"
    and pb: "case parse_bigint (joined t decimals) of None \<Rightarrow> False
      | Some base \<Rightarrow> b = base * (if take 1 (int_part t) = ''-'' then -1 else 1)"
    by (auto simp: decimalToBase_def Let_def joined_def split: if_splits option.splits)
  show thesis
  proof (cases "shortest q")
    case None
    then have t: "t = ''?''" by (simp add: t_def pos_to_string_def)
    let ?z = "replicate decimals CHR ''0''"
    have "trim_str (''?'' @ ?z) = ''?'' @ ?z"
      by (rule trim_str_ends) (cases decimals; simp add: is_space_def last_replicate)+
    then have "parse_bigint (''?'' @ ?z) = None"
      by (simp add: parse_bigint_def parse_nonempty_def digit_val_def)
    moreover have "joined t decimals = ''?'' @ ?z" by (simp add: joined_def t int_part_def frac_part_def)
    ultimately show ?thesis using pb by simp
  next
    case (Some skn)
    obtain s k n where skn: "skn = (s, k, n)" by (cases skn)
    have dg: "digits_of q s k n"
      using Some skn q by (auto simp: shortest_def intro: shortest_from_digits)
    then have d: "1 \<le> k" "10 ^ (k - 1) \<le> s" "s < 10 ^ k" by (simp_all add: digits_of_def)
    have t: "t = layout_digits s k n" using Some skn by (simp add: t_def pos_to_string_def)
    obtain base where base: "parse_bigint (joined t decimals) = Some base"
      and b: "b = base * (if take 1 (int_part t) = ''-'' then -1 else 1)"
      using pb by (auto split: option.splits)
    have sp: "0 \<le> s" using d(2) order_trans [of 0 "10 ^ (k - 1) :: int" s] by simp
    have "take 1 (int_part t) \<noteq> ''-''"
      using layout_head [OF sp t] by auto
    with b layout_reads [OF d(1-3) t len base]
    have "of_int b / 10 ^ decimals = of_int s * pow10 (n - int k)"
      by (simp add: pow10_add pow10_nat)
    with dg show ?thesis by (rule that)
  qed
qed

lemma decimalToBase_nonneg: "decimalToBase x decimals = Inr b \<Longrightarrow> 0 \<le> b"
proof (cases "\<exists>q. x = Fin q \<and> 0 < q")
  case True
  assume a: "decimalToBase x decimals = Inr b"
  from True obtain q where q: "x = Fin q" "0 < q" by blast
  obtain s k n where d: "digits_of q s k n" "of_int b / 10 ^ decimals = of_int s * pow10 (n - int k)"
    by (rule decimalToBase_digits [OF a [unfolded q(1)] q(2)])
  have "0 \<le> s" using d(1) order_trans [of 0 "10 ^ (k - 1) :: int" s] by (simp add: digits_of_def)
  then have "(0 :: rat) \<le> of_int b / 10 ^ decimals" unfolding d(2) by (simp add: pow10_def)
  moreover have "(0 :: rat) < 10 ^ decimals" by simp
  ultimately show ?thesis by (simp add: zero_le_divide_iff not_le)
next
  case False
  assume a: "decimalToBase x decimals = Inr b"
  show ?thesis
  proof (cases x)
    case (Fin q)
    with False have "q = 0 \<or> q < 0" by auto
    then show ?thesis
    proof
      assume "q = 0"
      with a Fin show ?thesis by (simp add: toBase6_0)
    next
      assume "q < 0"
      with a Fin show ?thesis by (simp add: decimalToBase_def)
    qed
  qed (use a in \<open>simp_all add: decimalToBase_def\<close>)
qed

section \<open>Properties\<close>

text \<open>The conversion of a number to base units is exact or refused: when \<open>decimalToBase\<close> accepts
  a non-negative finite number, the base units it returns, divided by the scale and rounded to a
  double, are that very number. No drift in the last place can enlarge an order.\<close>

theorem decimalToBase_exact:
  assumes "decimalToBase (Fin q) decimals = Inr b" and "0 \<le> q"
  shows "fl (of_int b / 10 ^ decimals) = Fin q"
proof (cases "q = 0")
  case True
  with assms(1) show ?thesis by (simp add: toBase6_0 fl_def)
next
  case False
  with assms(2) have "0 < q" by simp
  with assms(1) obtain s k n where "digits_of q s k n" "of_int b / 10 ^ decimals = of_int s * pow10 (n - int k)"
    by (rule decimalToBase_digits)
  then show ?thesis by (simp add: digits_of_def)
qed

lemma toBase6_one: "toBase6 (Fin 1) = Inr 1000000"
proof -
  have "num_to_string (Fin 1) = ''1''" by (simp add: num_eval)
  then show ?thesis
    by (simp add: decimalToBase_def int_part_def frac_part_def replicate_numeral parse_bigint_def
        trim_str_def is_space_def parse_nonempty_def digit_val_def)
qed

lemma toBase6_zero: "toBase6 (Fin 0) = Inr 0"
  by (rule toBase6_0)

lemma decimalToBase_half: "decimalToBase (Fin (1 / 2)) 6 = Inr 500000"
proof -
  have "num_to_string (Fin (1 / 2)) = ''0.5''" by (simp add: num_eval)
  then show ?thesis
    by (simp add: decimalToBase_def int_part_def frac_part_def replicate_numeral parse_bigint_def
        trim_str_def is_space_def parse_nonempty_def digit_val_def)
qed

theorem decimalToBase_exact_witness: "fl (of_int 500000 / 10 ^ 6) = Fin (1 / 2)"
  using decimalToBase_exact [OF decimalToBase_half] by simp

text \<open>A number in exponent form is not refused for its precision: the conversion throws.\<close>

lemma decimalToBase_exponent_throws: "decimalToBase (Fin (10 ^ 21)) 6 = Inl SyntaxError"
proof -
  have "num_to_string (Fin (10 ^ 21)) = ''1e+21''" by (simp add: num_eval)
  then show ?thesis
    by (simp add: decimalToBase_def int_part_def frac_part_def replicate_numeral parse_bigint_def
        trim_str_def is_space_def parse_nonempty_def digit_val_def)
qed

end
