(* ===== verification/JsString.thy ===== *)
theory JsString
  imports JsNumber Prelude
begin

text \<open>
  Strings the code builds: \<open>join\<close>, decimal integers, \<open>toISOString\<close> and the lower-case letters of ASCII, with the facts
  that make them readable again.
\<close>

section \<open>Joined strings\<close>

text \<open>\<open>xs.join(sep)\<close>.\<close>

fun join_with :: "string \<Rightarrow> string list \<Rightarrow> string" where
  "join_with sep [] = []"
| "join_with sep [x] = x"
| "join_with sep (x # y # xs) = x @ sep @ join_with sep (y # xs)"

text \<open>The separator splits the payload back into its fields, unless a field contains it.\<close>

lemma split_at_first:
  "c \<notin> set x \<Longrightarrow> c \<notin> set y \<Longrightarrow> x @ c # r = y @ c # s \<Longrightarrow> x = y \<and> r = s"
proof (induction x arbitrary: y)
  case Nil
  then show ?case by (cases y) auto
next
  case (Cons a x)
  then show ?case by (cases y) auto
qed

lemma join_with_inj:
  "length xs = length ys \<Longrightarrow> \<forall>f \<in> set xs \<union> set ys. c \<notin> set f \<Longrightarrow> join_with [c] xs = join_with [c] ys \<Longrightarrow> xs = ys"
proof (induction xs ys rule: list_induct2)
  case (Cons x xs y ys)
  show ?case
  proof (cases xs)
    case Nil
    with Cons show ?thesis by (cases ys) simp_all
  next
    case (Cons x2 xs2)
    then obtain y2 ys2 where ys: "ys = y2 # ys2" using Cons.hyps by (cases ys) auto
    have "x @ c # join_with [c] xs = y @ c # join_with [c] ys" using Cons.prems(2) Cons ys by simp
    with Cons.prems(1) split_at_first [of c x y] Cons.IH show ?thesis by auto
  qed
qed simp

lemma digits_str_inj: "0 \<le> m \<Longrightarrow> 0 \<le> n \<Longrightarrow> digits_str m = digits_str n \<Longrightarrow> m = n"
  by (metis parse_bigint_digits_str option.inject)

lemma int_str_inj: "int_str m = int_str n \<Longrightarrow> m = n"
proof -
  assume eq: "int_str m = int_str n"
  have no_minus: "digits_str \<bar>k\<bar> \<noteq> CHR ''-'' # s" for k s
  proof
    assume "digits_str \<bar>k\<bar> = CHR ''-'' # s"
    then have "is_digit (CHR ''-'')" using digits_str_digits [of "\<bar>k\<bar>"] by simp
    then show False by (simp add: is_digit_def)
  qed
  show ?thesis
  proof (cases "m < 0 \<longleftrightarrow> n < 0")
    case True
    with eq have "digits_str \<bar>m\<bar> = digits_str \<bar>n\<bar>" by (simp add: int_str_def split: if_splits)
    then have "\<bar>m\<bar> = \<bar>n\<bar>" by (intro digits_str_inj) simp_all
    with True show ?thesis by auto
  next
    case False
    with eq no_minus [of m] no_minus [of n] show ?thesis by (auto simp: int_str_def split: if_splits dest: sym)
  qed
qed

section \<open>Decimal integers\<close>

lemma digit_sign: "is_digit c \<Longrightarrow> c \<noteq> CHR ''-''"
  by (auto simp: is_digit_def)

lemma parse_bigint_int_str [simp]: "parse_bigint (int_str n) = Some n"
proof (cases "n < 0")
  case True
  have ends: "trim_str (int_str n) = int_str n"
  proof (rule trim_str_ends)
    have "last (digits_str \<bar>n\<bar>) \<in> set (digits_str \<bar>n\<bar>)" by simp
    then show "\<not> is_space (last (int_str n))" using True digits_str_digits [of "\<bar>n\<bar>"] is_digit_not_space by (auto simp: int_str_def)
  qed (use True in \<open>simp_all add: int_str_def is_space_def\<close>)
  with True parse_digits_str [of "- n" 0] show ?thesis
    by (simp add: parse_bigint_def Let_def) (simp add: int_str_def parse_nonempty_def)
qed (simp add: int_str_def)

lemma trim_int_str [simp]: "trim_str (int_str n) = int_str n"
proof (rule trim_str_ends)
  have "last (digits_str \<bar>n\<bar>) \<in> set (digits_str \<bar>n\<bar>)" "hd (digits_str \<bar>n\<bar>) \<in> set (digits_str \<bar>n\<bar>)" by simp_all
  then show "\<not> is_space (last (int_str n))" "\<not> is_space (hd (int_str n))"
    using digits_str_digits [of "\<bar>n\<bar>"] is_digit_not_space by (auto simp: int_str_def is_space_def)
qed (simp add: int_str_def)

text \<open>The pattern \<open>-?\d+\<close> over the whole string, and \<open>BigInt\<close> of such a string.\<close>

definition int_literal :: "string \<Rightarrow> bool" where
  "int_literal s = (let t = (if s \<noteq> [] \<and> hd s = CHR ''-'' then tl s else s) in t \<noteq> [] \<and> list_all is_digit t)"

lemma int_literal_int_str: "int_literal (int_str n)"
proof (cases "n < 0")
  case False
  have "hd (digits_str n) \<in> set (digits_str n)" by simp
  with False digits_str_digits [of n] digit_sign have "hd (digits_str n) \<noteq> CHR ''-''" by fastforce
  with False digits_str_digits [of n] show ?thesis by (simp add: int_literal_def int_str_def list_all_iff)
qed (use digits_str_digits [of "- n"] in \<open>simp add: int_literal_def int_str_def list_all_iff\<close>)

lemma length_digits_str_le: "0 \<le> s \<Longrightarrow> s < 10 ^ k \<Longrightarrow> 1 \<le> k \<Longrightarrow> length (digits_str s) \<le> k"
proof (induction k arbitrary: s)
  case (Suc k)
  show ?case
  proof (cases "s < 10")
    case False
    with Suc.prems have "k \<noteq> 0" by (cases k) simp_all
    moreover have "s div 10 < 10 ^ k" using Suc.prems(2) by (simp add: div_less_iff_less_mult)
    ultimately have "length (digits_str (s div 10)) \<le> k" using Suc.prems by (intro Suc.IH) simp_all
    with False show ?thesis by (subst digits_str.simps) simp
  qed (subst digits_str.simps, simp)
qed simp

section \<open>Dates as strings\<close>

text \<open>\<open>toISOString\<close>: the proleptic Gregorian date of a day number, then the time of day.\<close>

definition civil_of_days :: "int \<Rightarrow> int \<times> int \<times> int" where
  "civil_of_days day =
     (let z = day + 719468; era = z div 146097; doe = z mod 146097;
          yoe = (doe - doe div 1460 + doe div 36524 - doe div 146096) div 365;
          doy = doe - (365 * yoe + yoe div 4 - yoe div 100);
          mp = (5 * doy + 2) div 153;
          d = doy - (153 * mp + 2) div 5 + 1;
          m = (if mp < 10 then mp + 3 else mp - 9)
      in (yoe + era * 400 + (if m \<le> 2 then 1 else 0), m, d))"

definition pad_to :: "nat \<Rightarrow> int \<Rightarrow> string" where
  "pad_to w n = replicate (w - length (digits_str n)) CHR ''0'' @ digits_str n"

definition iso_year :: "int \<Rightarrow> string" where
  "iso_year y = (if 0 \<le> y \<and> y \<le> 9999 then pad_to 4 y
     else (if y < 0 then ''-'' else ''+'') @ pad_to 6 \<bar>y\<bar>)"

definition toISOString :: "ms \<Rightarrow> string" where
  "toISOString t =
     (let day = t div 86400000; r = t mod 86400000 in
      case civil_of_days day of (y, m, d) \<Rightarrow>
        iso_year y @ ''-'' @ pad_to 2 m @ ''-'' @ pad_to 2 d @ ''T'' @
        pad_to 2 (r div 3600000) @ '':'' @ pad_to 2 (r div 60000 mod 60) @ '':'' @
        pad_to 2 (r div 1000 mod 60) @ ''.'' @ pad_to 3 (r mod 1000) @ ''Z'')"

end
