(* ===== verification/SignerVault.thy ===== *)
theory SignerVault
  imports MoneyKernel DecimalBase JsString
begin

text \<open>
  The signer vault (\<open>src/pm/signer/src/index.ts\<close>): the canonical payload of a sign request
  (\<open>payload-hash.ts\<close>), the deterministic guard \<open>checkAllowed\<close> and \<open>sign\<close>. SHA-256 and the
  low-level signer are parameters. Then the session scopes (\<open>session-scope.ts\<close>), the wallet mapping
  (\<open>wallet-mapping.ts\<close>) and the credential checks (\<open>credential-auth.ts\<close>).
\<close>

section \<open>The sign request and its payload\<close>

fun wallet_type_name :: "wallet_type \<Rightarrow> string" where
  "wallet_type_name Wallet_DEPOSIT_WALLET = ''DEPOSIT_WALLET''"
| "wallet_type_name Wallet_EOA = ''EOA''"
| "wallet_type_name Wallet_POLY_PROXY = ''POLY_PROXY''"
| "wallet_type_name Wallet_GNOSIS_SAFE = ''GNOSIS_SAFE''"
| "wallet_type_name Wallet_POLY_1271 = ''POLY_1271''"
| "wallet_type_name Wallet_LEGACY_PROXY = ''LEGACY_PROXY''"
| "wallet_type_name Wallet_SAFE = ''SAFE''"
| "wallet_type_name Wallet_UNKNOWN = ''UNKNOWN''"

fun side_name :: "order_side \<Rightarrow> string" where
  "side_name BUY = ''BUY''"
| "side_name SELL = ''SELL''"

definition SIGNER_ALLOWED_ACTIONS :: "string list" where
  "SIGNER_ALLOWED_ACTIONS = [''ORDER_SUBMIT'', ''ORDER_CANCEL'', ''POSITION_REDEEM'', ''POSITION_MERGE'']"

record sign_request =
  sr_schema_version :: string
  sr_action :: string
  sr_permit :: execution_permit
  sr_wallet :: wallet_identity
  sr_verified_at :: ms
  sr_amount :: int
  sr_action_id :: string
  sr_intent_id :: string
  sr_market :: string
  sr_venue_mode :: venue_mode
  sr_now :: ms
  sr_side :: order_side
  sr_price :: int
  sr_payload_hash :: string
  sr_policy_hash :: string
  sr_quote_id :: string
  sr_chain_id :: jsnum
  sr_lease_epoch :: jsnum

definition payload_fields :: "sign_request \<Rightarrow> string list" where
  "payload_fields r =
     (let p = sr_permit r; w = sr_wallet r in
      [sr_schema_version r, sr_action r, permit_id p, p_decision_id p, p_intent_id p, p_ledger_version p,
       p_policy_version p, p_policy_hash p, p_quote_id p, num_to_string (p_lease_epoch p),
       join_with '','' (p_reservation_ids p), num_to_string (max_qty p), num_to_string (max_cash p),
       join_with '','' (allowed_order_style p), venue_name (p_venue_mode p), toISOString (issued_at p),
       toISOString (expires_at p), (if single_use p then ''true'' else ''false''),
       (case used_at p of Some t \<Rightarrow> toISOString t | None \<Rightarrow> ''null''),
       w_wallet_id w, wallet_type_name (w_wallet_type w), w_signer_address w, w_account_wallet w, w_funder w,
       num_to_string (w_chain_id w), toISOString (sr_verified_at r),
       int_str (sr_amount r), sr_action_id r, sr_intent_id r, sr_market r, venue_name (sr_venue_mode r),
       toISOString (sr_now r), sr_policy_hash r, sr_quote_id r, num_to_string (sr_chain_id r),
       num_to_string (sr_lease_epoch r), side_name (sr_side r), int_str (sr_price r)])"

definition computePayloadHash :: "(string \<Rightarrow> string) \<Rightarrow> sign_request \<Rightarrow> string" where
  "computePayloadHash sha256 r = sha256 (join_with ''|'' (payload_fields r))"

section \<open>The vault\<close>

record vault =
  maxClockSkewMs :: int
  expectedChainId :: jsnum

definition mk_vault :: "int option \<Rightarrow> jsnum \<Rightarrow> vault" where
  "mk_vault skew chain = \<lparr>maxClockSkewMs = (case skew of Some s \<Rightarrow> s | None \<Rightarrow> 5000), expectedChainId = chain\<rparr>"

text \<open>\<open>checkAllowed\<close>, in the order of the code; the checks it repeats at its end are repeated.\<close>

definition checkAllowed :: "(string \<Rightarrow> bool) \<Rightarrow> vault \<Rightarrow> sign_request \<Rightarrow> js_error + unit outcome" where
  "checkAllowed is_uuid v r =
     (let p = sr_permit r; w = sr_wallet r in
      if \<not> ExecutionPermitSchema is_uuid p then Inr (Refused ''PERMIT_INVALID'')
      else if \<not> List.member SIGNER_ALLOWED_ACTIONS (sr_action r) then Inr (Refused ''ACTION_NOT_ALLOWED'')
      else if maxClockSkewMs v < \<bar>sr_now r - issued_at p\<bar> \<and> sr_now r < issued_at p
        then Inr (Refused ''CLOCK_SKEW'')
      else if expires_at p < sr_now r then Inr (Refused ''PERMIT_EXPIRED'')
      else if single_use p \<and> used_at p \<noteq> None then Inr (Refused ''PERMIT_REUSED'')
      else if w_signer_address w = w_funder w then Inr (Refused ''IDENTITY_CONFLICT'')
      else if w_signer_address w = w_account_wallet w then Inr (Refused ''IDENTITY_CONFLICT'')
      else if w_account_wallet w = w_funder w then Inr (Refused ''IDENTITY_CONFLICT'')
      else if \<not> num_eq (w_chain_id w) (expectedChainId v) then Inr (Refused ''CHAIN_MISMATCH'')
      else if p_intent_id p \<noteq> sr_intent_id r then Inr (Refused ''INTENT_MISMATCH'')
      else if p_policy_hash p \<noteq> sr_policy_hash r then Inr (Refused ''POLICY_HASH_MISMATCH'')
      else if p_quote_id p \<noteq> sr_quote_id r then Inr (Refused ''QUOTE_MISMATCH'')
      else if p_venue_mode p \<noteq> sr_venue_mode r then Inr (Refused ''VENUE_MODE_MISMATCH'')
      else if \<not> num_eq (p_lease_epoch p) (sr_lease_epoch r) then Inr (Refused ''LEASE_EPOCH_MISMATCH'')
      else case toBase6 (max_qty p) of Inl e \<Rightarrow> Inl e | Inr maxQty \<Rightarrow>
        if maxQty < sr_amount r then Inr (Refused ''AMOUNT_EXCEEDS_PERMIT'')
        else (case toBase6 (max_cash p) of Inl e \<Rightarrow> Inl e | Inr maxCash \<Rightarrow>
          if maxCash < (sr_amount r * sr_price r) sdiv 1000000 then Inr (Refused ''CASH_EXCEEDS_PERMIT'')
          else if \<not> num_eq (p_lease_epoch p) (sr_lease_epoch r) then Inr (Refused ''LEASE_EPOCH_MISMATCH'')
          else if expires_at p < sr_now r then Inr (Refused ''PERMIT_EXPIRED'')
          else if single_use p \<and> used_at p \<noteq> None then Inr (Refused ''PERMIT_REUSED'')
          else if \<not> List.member SIGNER_ALLOWED_ACTIONS (sr_action r) then Inr (Refused ''ACTION_NOT_ALLOWED'')
          else Inr (Ok ())))"

text \<open>\<open>sign\<close>: an error of the low-level signer is a refusal, an error of the conversion a throw.\<close>

definition vault_sign ::
  "(string \<Rightarrow> string) \<Rightarrow> (string \<Rightarrow> bool) \<Rightarrow> (sign_request \<Rightarrow> string + string) \<Rightarrow> vault \<Rightarrow> sign_request \<Rightarrow>
     js_error + (string \<times> ms) outcome" where
  "vault_sign sha256 is_uuid crypto v r =
     (if sr_payload_hash r \<noteq> computePayloadHash sha256 r then Inr (Refused ''PAYLOAD_HASH_MISMATCH'')
      else case checkAllowed is_uuid v r of
        Inl e \<Rightarrow> Inl e
      | Inr (Refused c) \<Rightarrow> Inr (Refused c)
      | Inr (Ok _) \<Rightarrow> (case crypto r of Inl _ \<Rightarrow> Inr (Refused ''SIGN_ENGINE_ERROR'')
                      | Inr signature \<Rightarrow> Inr (Ok (signature, sr_now r))))"

section \<open>What a signature says\<close>

text \<open>C16. The vault signs exactly the requests that keep every pre-sign invariant: the recorded hash is
  the hash of the payload, the permit is well-formed, issued, unexpired and not used, the action is
  allowlisted, signer, account and funder are three addresses on the expected chain, the permit is for
  this intent, policy, quote, venue mode and lease epoch, and the shares and the cash of the order are
  within its quotas.\<close>

theorem vault_signs_iff:
  "vault_sign sha256 is_uuid crypto v r = Inr (Ok (sig, signed)) \<longleftrightarrow>
     sr_payload_hash r = computePayloadHash sha256 r \<and> ExecutionPermitSchema is_uuid (sr_permit r) \<and>
     sr_action r \<in> set SIGNER_ALLOWED_ACTIONS \<and>
     (issued_at (sr_permit r) \<le> sr_now r \<or> issued_at (sr_permit r) - sr_now r \<le> maxClockSkewMs v) \<and>
     sr_now r \<le> expires_at (sr_permit r) \<and> (if single_use (sr_permit r) then used_at (sr_permit r) = None else True) \<and>
     distinct [w_signer_address (sr_wallet r), w_account_wallet (sr_wallet r), w_funder (sr_wallet r)] \<and>
     num_eq (w_chain_id (sr_wallet r)) (expectedChainId v) \<and> p_intent_id (sr_permit r) = sr_intent_id r \<and>
     p_policy_hash (sr_permit r) = sr_policy_hash r \<and> p_quote_id (sr_permit r) = sr_quote_id r \<and>
     p_venue_mode (sr_permit r) = sr_venue_mode r \<and> num_eq (p_lease_epoch (sr_permit r)) (sr_lease_epoch r) \<and>
     (\<exists>qty cash. toBase6 (max_qty (sr_permit r)) = Inr qty \<and> toBase6 (max_cash (sr_permit r)) = Inr cash \<and>
        sr_amount r \<le> qty \<and> cashNeededFor (sr_amount r) (sr_price r) \<le> cash) \<and>
     crypto r = Inr sig \<and> signed = sr_now r"
  (is "?L \<longleftrightarrow> ?R")
proof -
  have "checkAllowed is_uuid v r = Inr (Ok ()) \<longleftrightarrow> ExecutionPermitSchema is_uuid (sr_permit r) \<and>
     sr_action r \<in> set SIGNER_ALLOWED_ACTIONS \<and>
     (issued_at (sr_permit r) \<le> sr_now r \<or> issued_at (sr_permit r) - sr_now r \<le> maxClockSkewMs v) \<and>
     sr_now r \<le> expires_at (sr_permit r) \<and> (if single_use (sr_permit r) then used_at (sr_permit r) = None else True) \<and>
     distinct [w_signer_address (sr_wallet r), w_account_wallet (sr_wallet r), w_funder (sr_wallet r)] \<and>
     num_eq (w_chain_id (sr_wallet r)) (expectedChainId v) \<and> p_intent_id (sr_permit r) = sr_intent_id r \<and>
     p_policy_hash (sr_permit r) = sr_policy_hash r \<and> p_quote_id (sr_permit r) = sr_quote_id r \<and>
     p_venue_mode (sr_permit r) = sr_venue_mode r \<and> num_eq (p_lease_epoch (sr_permit r)) (sr_lease_epoch r) \<and>
     (\<exists>qty cash. toBase6 (max_qty (sr_permit r)) = Inr qty \<and> toBase6 (max_cash (sr_permit r)) = Inr cash \<and>
        sr_amount r \<le> qty \<and> cashNeededFor (sr_amount r) (sr_price r) \<le> cash)"
    by (auto simp: checkAllowed_def Let_def cashNeededFor_def not_less split: if_splits sum.splits)
  then show ?thesis
    by (auto simp: vault_sign_def split: sum.splits outcome.splits)
qed

definition payload :: "sign_request \<Rightarrow> string" where
  "payload r = join_with ''|'' (payload_fields r)"

text \<open>The payload hash binds what is signed: if SHA-256 does not collide on two payloads and none of
  their fields contains the separator, two requests with the same hash are for the same permit, intent,
  action, market, side, amount, price, account and funder.\<close>

theorem payload_hash_binds:
  assumes hash: "computePayloadHash sha256 r = computePayloadHash sha256 r'"
    and no_collision: "inj_on sha256 {payload r, payload r'}"
    and clean: "\<forall>f \<in> set (payload_fields r) \<union> set (payload_fields r'). CHR ''|'' \<notin> set f"
  shows "permit_id (sr_permit r) = permit_id (sr_permit r') \<and> sr_intent_id r = sr_intent_id r' \<and>
    sr_action r = sr_action r' \<and> sr_action_id r = sr_action_id r' \<and> sr_market r = sr_market r' \<and>
    sr_side r = sr_side r' \<and> sr_amount r = sr_amount r' \<and> sr_price r = sr_price r' \<and>
    w_account_wallet (sr_wallet r) = w_account_wallet (sr_wallet r') \<and>
    w_funder (sr_wallet r) = w_funder (sr_wallet r')"
proof -
  have "sha256 (payload r) = sha256 (payload r')"
    using hash unfolding computePayloadHash_def payload_def .
  from inj_onD [OF no_collision this] have "payload r = payload r'" by blast
  moreover have "length (payload_fields r) = length (payload_fields r')" by (simp add: payload_fields_def Let_def)
  ultimately have same: "payload_fields r = payload_fields r'"
    using join_with_inj [OF _ clean] by (simp only: payload_def)
  have side: "side_name a = side_name b \<Longrightarrow> a = b" for a b by (cases a; cases b) simp_all
  from same have "permit_id (sr_permit r) = permit_id (sr_permit r') \<and> sr_intent_id r = sr_intent_id r' \<and>
    sr_action r = sr_action r' \<and> sr_action_id r = sr_action_id r' \<and> sr_market r = sr_market r' \<and>
    side_name (sr_side r) = side_name (sr_side r') \<and> int_str (sr_amount r) = int_str (sr_amount r') \<and>
    int_str (sr_price r) = int_str (sr_price r') \<and>
    w_account_wallet (sr_wallet r) = w_account_wallet (sr_wallet r') \<and>
    w_funder (sr_wallet r) = w_funder (sr_wallet r')"
    by (simp add: payload_fields_def Let_def)
  then show ?thesis using int_str_inj side by blast
qed

text \<open>
  The integer bounds, the side and the market of the permit and its price range are not part of the
  payload, and the separator is not escaped.
\<close>

lemma payload_omits_bounds:
  "payload_fields (r\<lparr>sr_permit := (sr_permit r)\<lparr>max_qty_base := q, max_cash_base := c, p_market_id := m, p_side := s,
      price_min_base := lo, price_max_base := hi\<rparr>\<rparr>) = payload_fields r"
  by (simp add: payload_fields_def Let_def)

lemma payload_not_escaped:
  "payload (r\<lparr>sr_action_id := ''a|b'', sr_intent_id := ''c'', sr_market := ''m''\<rparr>)
     = payload (r\<lparr>sr_action_id := ''a'', sr_intent_id := ''b'', sr_market := ''c|m''\<rparr>)"
  by (simp add: payload_def payload_fields_def Let_def)

text \<open>A request of one share at a half, hashed by the identity.\<close>

definition vault_request :: sign_request where
  "vault_request = \<lparr>sr_schema_version = ''1.1'', sr_action = ''ORDER_SUBMIT'',
     sr_permit = permit_for (mk_kernel None None None None) sample_request ''q1'' Venue_NORMAL
       \<lparr>ri_reservation = ''r1'', ri_permit = ''p1''\<rparr>,
     sr_wallet = \<lparr>w_wallet_id = ''w1'', w_wallet_type = Wallet_EOA, w_signer_address = ''s'', w_account_wallet = ''a'',
       w_funder = ''acct'', w_chain_id = Fin 137\<rparr>,
     sr_verified_at = 0, sr_amount = 1000000, sr_action_id = ''o1'', sr_intent_id = ''i1'', sr_market = ''m1'',
     sr_venue_mode = Venue_NORMAL, sr_now = 1000, sr_side = BUY, sr_price = 500000, sr_payload_hash = [],
     sr_policy_hash = ''ph'', sr_quote_id = ''q1'', sr_chain_id = Fin 137, sr_lease_epoch = Fin 1\<rparr>"

lemma vault_request_clean: "\<forall>f \<in> set (payload_fields vault_request). CHR ''|'' \<notin> set f"
proof -
  have n: "num_to_string (Fin 1) = ''1''" "num_to_string (Fin 137) = ''137''" "num_to_string (Fin 10) = ''10''"
    "num_to_string (Fin 6) = ''6''" by (simp_all add: num_eval)
  have u: "units 10000000 = Fin 10" "units 6000000 = Fin 6" by (simp_all add: units_def num_eval)
  have t: "toISOString 0 = ''1970-01-01T00:00:00.000Z''" "toISOString 1000 = ''1970-01-01T00:00:01.000Z''"
    "toISOString 61000 = ''1970-01-01T00:01:01.000Z''" by (code_simp, code_simp, code_simp)
  have i: "int_str 1000000 = ''1000000''" "int_str 500000 = ''500000''" by (code_simp, code_simp)
  show ?thesis
    by (simp add: payload_fields_def Let_def vault_request_def permit_for_def sample_request_def mk_kernel_def n t i u del: num_to_string.simps)
qed

theorem payload_hash_binds_witness:
  "sr_amount vault_request = sr_amount (vault_request\<lparr>sr_payload_hash := ''other''\<rparr>)"
proof -
  have "payload_fields (vault_request\<lparr>sr_payload_hash := ''other''\<rparr>) = payload_fields vault_request"
    by (simp add: payload_fields_def Let_def)
  with vault_request_clean show ?thesis
    using payload_hash_binds [of id vault_request "vault_request\<lparr>sr_payload_hash := ''other''\<rparr>"]
    by (simp add: computePayloadHash_def)
qed

section \<open>Session scopes\<close>

definition ALLOWED_SCOPES :: "string list" where
  "ALLOWED_SCOPES = [''SIGN_ORDERS'', ''READ'', ''CANCEL_ORDERS'']"

definition MAX_SESSION_LIFETIME_MS :: int where
  "MAX_SESSION_LIFETIME_MS = 3600000"

text \<open>\<open>new Date(x)\<close> drops a fraction of a millisecond.\<close>

fun date_after :: "ms \<Rightarrow> jsnum \<Rightarrow> ms" where
  "date_after now (Fin q) = now + \<lfloor>q\<rfloor>"
| "date_after now _ = now"

definition grantSessionScope :: "string list \<Rightarrow> jsnum \<Rightarrow> ms \<Rightarrow> (string list \<times> ms) outcome" where
  "grantSessionScope scopes lifetime now =
     (if list_ex (\<lambda>s. \<not> List.member ALLOWED_SCOPES s) scopes then Refused ''SCOPE_NOT_ALLOWED''
      else if \<not> is_finite_num lifetime \<or> num_le lifetime (Fin 0)
          \<or> num_lt (Fin (of_int MAX_SESSION_LIFETIME_MS)) lifetime
        then Refused ''LIFETIME_ASSUMPTION_REJECTED''
      else Ok (scopes, date_after now lifetime))"

definition checkRevocationFinality :: "string option \<Rightarrow> unit outcome" where
  "checkRevocationFinality receipt = (if truthy receipt then Ok () else Refused ''REVOCATION_NOT_FINAL'')"

lemma session_is_bounded:
  assumes "grantSessionScope scopes lifetime now = Ok (granted, expiry)"
  shows "granted = scopes \<and> set granted \<subseteq> set ALLOWED_SCOPES \<and> now \<le> expiry \<and>
    expiry \<le> now + MAX_SESSION_LIFETIME_MS"
proof -
  obtain q where q: "lifetime = Fin q" "0 < q" "q \<le> of_int MAX_SESSION_LIFETIME_MS"
    using assms by (cases lifetime) (auto simp: grantSessionScope_def num_le_def split: if_splits)
  then have "\<lfloor>q\<rfloor> \<le> MAX_SESSION_LIFETIME_MS" by linarith
  with assms q show ?thesis
    by (auto simp: grantSessionScope_def list_ex_iff MAX_SESSION_LIFETIME_MS_def split: if_splits)
qed

section \<open>Wallet mapping\<close>

definition distinct_wallet :: "wallet_identity \<Rightarrow> bool" where
  "distinct_wallet w \<longleftrightarrow>
     (let s = w_signer_address w; a = w_account_wallet w; f = w_funder w in
      \<not> (s = [] \<or> a = [] \<or> f = []) \<and> \<not> (s = a \<or> s = f \<or> a = f))"

definition validateWalletMapping :: "wallet_identity \<Rightarrow> bool \<Rightarrow> unit outcome" where
  "validateWalletMapping w supports1271 =
     (if \<not> distinct_wallet w then Refused ''WALLET_NOT_DISTINCT''
      else case w_wallet_type w of
        Wallet_EOA \<Rightarrow> Ok ()
      | Wallet_POLY_PROXY \<Rightarrow> Ok ()
      | Wallet_GNOSIS_SAFE \<Rightarrow> Ok ()
      | Wallet_POLY_1271 \<Rightarrow> if supports1271 then Ok () else Refused ''POLY_1271_UNSUPPORTED''
      | _ \<Rightarrow> Refused ''WALLET_NOT_DISTINCT'')"

section \<open>Credentials\<close>

record rate_bucket =
  rb_tokens :: int
  rb_lastRefill :: ms

definition RATE_LIMIT_CAPACITY :: int where "RATE_LIMIT_CAPACITY = 60"

definition RATE_LIMIT_WINDOW_MS :: int where "RATE_LIMIT_WINDOW_MS = 60000"

text \<open>One bucket per key; the empty key is not limited.\<close>

definition checkRateLimit :: "string \<Rightarrow> ms \<Rightarrow> (string \<Rightarrow> rate_bucket option) \<Rightarrow> bool \<times> (string \<Rightarrow> rate_bucket option)" where
  "checkRateLimit key now bs =
     (if key = [] then (True, bs)
      else
        let b0 = (case bs key of Some b \<Rightarrow> b | None \<Rightarrow> \<lparr>rb_tokens = RATE_LIMIT_CAPACITY, rb_lastRefill = now\<rparr>);
            b = (if RATE_LIMIT_WINDOW_MS < now - rb_lastRefill b0
                 then \<lparr>rb_tokens = RATE_LIMIT_CAPACITY, rb_lastRefill = now\<rparr> else b0)
        in if rb_tokens b \<le> 0 then (False, bs(key \<mapsto> b))
           else (True, bs(key \<mapsto> b\<lparr>rb_tokens := rb_tokens b - 1\<rparr>)))"

text \<open>\<open>Buffer.from(s, "hex")\<close>: the pairs up to the first that is not hexadecimal.\<close>

fun from_hex :: "string \<Rightarrow> int list" where
  "from_hex (a # b # s) = (case (digit_val 16 a, digit_val 16 b) of
      (Some x, Some y) \<Rightarrow> (16 * x + y) # from_hex s | _ \<Rightarrow> [])"
| "from_hex _ = []"

definition verifyBodyHmac ::
  "(string \<Rightarrow> string \<Rightarrow> int list) \<Rightarrow> string \<Rightarrow> string \<Rightarrow> string \<Rightarrow> string option \<Rightarrow> ms \<Rightarrow>
     (string \<Rightarrow> rate_bucket option) \<Rightarrow> unit outcome \<times> (string \<Rightarrow> rate_bucket option)" where
  "verifyBodyHmac hmac secret body presentedHex limit_key now bs =
     (if secret = [] \<or> body = [] \<or> presentedHex = [] then (Refused ''HMAC_MISMATCH'', bs)
      else case (if truthy limit_key then checkRateLimit (the limit_key) now bs else (True, bs)) of
        (False, bs') \<Rightarrow> (Refused ''RATE_LIMIT_EXCEEDED'', bs')
      | (True, bs') \<Rightarrow>
          (if from_hex presentedHex = hmac secret body then Ok () else Refused ''HMAC_MISMATCH'', bs'))"

definition lower_char :: "char \<Rightarrow> char" where
  "lower_char c = (let k = (of_char c :: int) in
     if 65 \<le> k \<and> k \<le> 90 \<or> 192 \<le> k \<and> k \<le> 222 \<and> k \<noteq> 215 then char_of (k + 32) else c)"

definition checkCredentialBinding ::
  "string \<Rightarrow> string \<Rightarrow> string \<Rightarrow> string option \<Rightarrow> ms \<Rightarrow> (string \<Rightarrow> rate_bucket option) \<Rightarrow>
     unit outcome \<times> (string \<Rightarrow> rate_bucket option)" where
  "checkCredentialBinding credentialId boundSigner requestSigner limit_key now bs =
     (if credentialId = [] \<or> boundSigner = [] then (Refused ''SIGNER_NOT_BOUND'', bs)
      else case (if truthy limit_key then checkRateLimit (the limit_key) now bs else (True, bs)) of
        (False, bs') \<Rightarrow> (Refused ''RATE_LIMIT_EXCEEDED'', bs')
      | (True, bs') \<Rightarrow>
          (if map lower_char boundSigner \<noteq> map lower_char requestSigner then Refused ''SIGNER_NOT_BOUND'' else Ok (), bs'))"

text \<open>Within one window of its bucket a key is admitted at most its capacity.\<close>

fun admitted :: "string \<Rightarrow> ms list \<Rightarrow> (string \<Rightarrow> rate_bucket option) \<Rightarrow> nat" where
  "admitted key [] bs = 0"
| "admitted key (t # ts) bs = (case checkRateLimit key t bs of (ok, bs') \<Rightarrow>
     (if ok then 1 else 0) + admitted key ts bs')"

lemma admitted_in_window:
  "key \<noteq> [] \<Longrightarrow> bs key = Some b \<Longrightarrow> 0 \<le> rb_tokens b \<Longrightarrow>
     \<forall>t \<in> set ts. t \<le> rb_lastRefill b + RATE_LIMIT_WINDOW_MS \<Longrightarrow> int (admitted key ts bs) \<le> rb_tokens b"
proof (induction ts arbitrary: bs b)
  case (Cons t ts)
  show ?case
  proof (cases "rb_tokens b \<le> 0")
    case True
    have "bs(key \<mapsto> b) = bs" using Cons.prems(2) by (simp add: fun_upd_idem)
    with True Cons.prems Cons.IH [of bs b] show ?thesis by (simp add: checkRateLimit_def Let_def)
  next
    case False
    with Cons.prems Cons.IH [of "bs(key \<mapsto> b\<lparr>rb_tokens := rb_tokens b - 1\<rparr>)" "b\<lparr>rb_tokens := rb_tokens b - 1\<rparr>"]
    show ?thesis by (simp add: checkRateLimit_def Let_def fun_upd_def)
  qed
qed simp

end
