(* ===== verification/RiskGate.thy ===== *)
theory RiskGate
  imports MoneyKernel DecimalBase
begin

text \<open>
  \<open>validateAndReserve\<close> (\<open>src/pm/control/src/risk-gate.ts\<close>): the percentage limits of the policy in exact
  base units, then the money kernel's reservation, then the risk decision. The kernel's authority,
  the quote id and the decision id are drawn from the environment.
\<close>

section \<open>The gate\<close>

record gate_input =
  g_intent :: trade_intent
  g_policy :: risk_policy
  g_wallet :: wallet_identity
  g_venue_mode :: venue_mode
  g_lease_epoch :: jsnum
  g_now :: ms
  g_policy_hash :: string
  g_market_exposure :: "jsnum option"
  g_portfolio_exposure :: "jsnum option"
  g_capital_basis :: "jsnum option"

text \<open>\<open>a ?? b\<close>.\<close>

fun coalesce :: "'a option \<Rightarrow> 'a option \<Rightarrow> 'a option" where
  "coalesce (Some x) _ = Some x"
| "coalesce None y = y"

text \<open>\<open>BigInt(Math.round(pct * 10_000))\<close>, and the cap of that many basis points.\<close>

definition pct_bps :: "jsnum \<Rightarrow> js_error + int" where
  "pct_bps pct = bigint_of_num (math_round (num_mul pct (Fin 10000)))"

definition cap_of :: "int \<Rightarrow> int \<Rightarrow> int" where
  "cap_of capital bps = (capital * bps) sdiv 10000"

text \<open>The size of the order: the quantity, else the notional over the price.\<close>

definition order_size :: "trade_intent \<Rightarrow> jsnum \<Rightarrow> jsnum option" where
  "order_size i price = coalesce (ti_desired_qty i) (map_option (\<lambda>n. num_div n price) (ti_desired_notional i))"

definition gate_expiration :: "jsnum option \<Rightarrow> jsnum" where
  "gate_expiration e = (case e of
       Some x \<Rightarrow> if is_finite_num x \<and> num_lt (Fin 0) x then math_floor x else Fin 300
     | None \<Rightarrow> Fin 300)"

text \<open>One limit: exposure already there plus the order, against the cap.\<close>

definition exceeds_cap :: "int \<Rightarrow> jsnum option \<Rightarrow> jsnum \<Rightarrow> int \<Rightarrow> js_error + bool" where
  "exceeds_cap capital current pct order =
     (case toBase6 (case current of Some x \<Rightarrow> x | None \<Rightarrow> Fin 0) of Inl e \<Rightarrow> Inl e | Inr base \<Rightarrow>
     (case pct_bps pct of Inl e \<Rightarrow> Inl e | Inr bps \<Rightarrow> Inr (cap_of capital bps < base + order)))"

definition gate_request :: "gate_input \<Rightarrow> uuid \<Rightarrow> int \<Rightarrow> int \<Rightarrow> reserve_request" where
  "gate_request g decision sizeBase priceBase =
     (let i = g_intent g; p = g_policy g; sell = (ti_side i = Direction SELL) in
      \<lparr>rq_decision_id = decision, rq_intent_id = ti_intent_id i, rq_account = w_funder (g_wallet g),
       rq_asset = ''pUSD'', rq_shares = sizeBase, rq_max_cash = cashNeededFor sizeBase priceBase,
       rq_price = priceBase, rq_policy_version = policy_version p, rq_policy_hash = g_policy_hash g,
       rq_venue_mode = venue_name (g_venue_mode g), rq_lease_epoch = g_lease_epoch g, rq_now = g_now g,
       rq_market_id = Some (ti_market_id i), rq_side = Some (if sell then SELL else BUY),
       rq_risk = Some \<lparr>rk_schema_version = ''1.1'', rk_policy_version = policy_version p,
                      rk_ledger_version = ''1.0.0'', rk_allowed_order_style = [''LIMIT'', ''POST_ONLY''],
                      rk_venue_mode = venue_name (g_venue_mode g)\<rparr>,
       rq_intent_ref = Some \<lparr>ir_market_id = ti_market_id i, ir_outcome_side = (if sell then NO else YES),
                      ir_price_base = priceBase, ir_size_base = sizeBase, ir_order_type = Style_LIMIT,
                      ir_expiration_sec = gate_expiration (ti_expiration_sec i),
                      ir_strategy = policy_version p\<rparr>\<rparr>)"

definition decision_for :: "gate_input \<Rightarrow> uuid \<Rightarrow> execution_permit \<Rightarrow> risk_decision" where
  "decision_for g decision p =
     \<lparr>rd_decision_id = decision, rd_intent_id = ti_intent_id (g_intent g), rd_status = ''ACCEPTED'',
      rd_reservation_ids = p_reservation_ids p,
      rd_reservation_id = (case p_reservation_ids p of [] \<Rightarrow> None | r # _ \<Rightarrow> Some r),
      rd_max_qty = Some (max_qty p), rd_max_cash = Some (max_cash p),
      rd_allowed_order_style = allowed_order_style p, rd_venue_mode = Some (g_venue_mode g),
      rd_ledger_version = Some (p_ledger_version p), rd_policy_version = Some (p_policy_version p),
      rd_decided_at = g_now g\<rparr>"

text \<open>
  The checks before any money moves: the order in base units, or a refusal, or a throw.
\<close>

definition gate_order :: "(string \<Rightarrow> bool) \<Rightarrow> gate_input \<Rightarrow> js_error + (int \<times> int) outcome" where
  "gate_order is_uuid g =
     (let p = g_policy g; i = g_intent g in
      if \<not> RiskPolicySchema p then Inr (Refused ''POLICY_INVALID'')
      else if \<not> TradeIntentSchema is_uuid i then Inr (Refused ''INTENT_INVALID'')
      else case coalesce (capital_usd_cap p) (g_capital_basis g) of
        None \<Rightarrow> Inr (Refused ''NO_CAPITAL_BASIS'')
      | Some capitalUsd \<Rightarrow>
      (case coalesce (ti_limit_price i) (ti_price i) of
        None \<Rightarrow> Inr (Refused ''PRICE_REQUIRED'')
      | Some price \<Rightarrow>
      (case order_size i price of
        None \<Rightarrow> Inr (Refused ''SIZE_REQUIRED'')
      | Some sz \<Rightarrow>
      (case toBase6 sz of Inl e \<Rightarrow> Inl e | Inr sizeBase \<Rightarrow>
      (case toBase6 price of Inl e \<Rightarrow> Inl e | Inr priceBase \<Rightarrow>
      (case toBase6 capitalUsd of Inl e \<Rightarrow> Inl e | Inr capital \<Rightarrow>
      (case pct_bps (max_order_pct p) of Inl e \<Rightarrow> Inl e | Inr bps \<Rightarrow>
         let order = cashNeededFor sizeBase priceBase in
         if cap_of capital bps < order then Inr (Refused ''ORDER_PCT_EXCEEDED'')
         else case exceeds_cap capital (g_market_exposure g) (max_market_pct p) order of
           Inl e \<Rightarrow> Inl e
         | Inr True \<Rightarrow> Inr (Refused ''MARKET_PCT_EXCEEDED'')
         | Inr False \<Rightarrow>
         (case exceeds_cap capital (g_portfolio_exposure g) (max_portfolio_pct p) order of
           Inl e \<Rightarrow> Inl e
         | Inr True \<Rightarrow> Inr (Refused ''PORTFOLIO_PCT_EXCEEDED'')
         | Inr False \<Rightarrow> Inr (Ok (sizeBase, priceBase))))))))))"

text \<open>An error of the conversion or of the kernel rejects the promise: \<open>Inl\<close>.\<close>

definition js_message :: "js_error \<Rightarrow> string" where
  "js_message e = (case e of RangeError \<Rightarrow> ''RangeError'' | SyntaxError \<Rightarrow> ''SyntaxError''
     | PrecisionLoss \<Rightarrow> ''REJECT_PRECISION_LOSS'')"

definition validateAndReserve ::
  "(string \<Rightarrow> bool) \<Rightarrow> kernel_opts \<Rightarrow> (nat \<Rightarrow> reserve_args \<Rightarrow> db \<Rightarrow> reserved_ids outcome \<times> db) \<Rightarrow>
     string \<Rightarrow> uuid \<Rightarrow> gate_input \<Rightarrow> db \<Rightarrow> (string + (risk_decision \<times> execution_permit) outcome) \<times> db" where
  "validateAndReserve is_uuid k authority quote decision g d =
     (case gate_order is_uuid g of
        Inl e \<Rightarrow> (Inl (js_message e), d)
      | Inr (Refused c) \<Rightarrow> (Inr (Refused c), d)
      | Inr (Ok (sizeBase, priceBase)) \<Rightarrow>
          (case kernel_reserve is_uuid k authority quote (gate_request g decision sizeBase priceBase) d of
             (Inl e, d') \<Rightarrow> (Inl e, d')
           | (Inr (Refused c), d') \<Rightarrow> (Inr (Refused c), d')
           | (Inr (Ok p), d') \<Rightarrow>
               if RiskDecisionSchema is_uuid (decision_for g decision p)
               then (Inr (Ok (decision_for g decision p, p)), d')
               else (case kernel_release (w_funder (g_wallet g), ''pUSD'')
                       (cashNeededFor sizeBase priceBase) d' of
                       (Inl e, d2) \<Rightarrow> (Inl e, d2)
                     | (Inr _, d2) \<Rightarrow> (Inr (Refused ''DECISION_INVALID''), d2))))"

section \<open>What a granted request satisfies\<close>

definition within_cap :: "int \<Rightarrow> jsnum option \<Rightarrow> jsnum \<Rightarrow> int \<Rightarrow> bool" where
  "within_cap capital current pct order \<longleftrightarrow>
     (\<exists>base bps. toBase6 (case current of Some x \<Rightarrow> x | None \<Rightarrow> Fin 0) = Inr base \<and> pct_bps pct = Inr bps \<and>
        base + order \<le> cap_of capital bps)"

lemma exceeds_cap_False: "exceeds_cap capital current pct order = Inr False \<longleftrightarrow> within_cap capital current pct order"
  by (auto simp: exceeds_cap_def within_cap_def not_less split: sum.splits)

lemma gate_order_ok:
  assumes "gate_order is_uuid g = Inr (Ok (sizeBase, priceBase))"
  shows "RiskPolicySchema (g_policy g) \<and> TradeIntentSchema is_uuid (g_intent g) \<and>
    (\<exists>capitalUsd price sz capital bps.
      coalesce (capital_usd_cap (g_policy g)) (g_capital_basis g) = Some capitalUsd \<and> toBase6 capitalUsd = Inr capital \<and>
      coalesce (ti_limit_price (g_intent g)) (ti_price (g_intent g)) = Some price \<and> toBase6 price = Inr priceBase \<and>
      order_size (g_intent g) price = Some sz \<and> toBase6 sz = Inr sizeBase \<and>
      pct_bps (max_order_pct (g_policy g)) = Inr bps \<and>
      cashNeededFor sizeBase priceBase \<le> cap_of capital bps \<and>
      within_cap capital (g_market_exposure g) (max_market_pct (g_policy g)) (cashNeededFor sizeBase priceBase) \<and>
      within_cap capital (g_portfolio_exposure g) (max_portfolio_pct (g_policy g)) (cashNeededFor sizeBase priceBase))"
  using assms
  by (auto simp: gate_order_def Let_def exceeds_cap_False [symmetric] not_less
      split: if_splits option.splits sum.splits bool.splits)

lemma validateAndReserve_ok:
  assumes "validateAndReserve is_uuid k authority quote dec g d = (Inr (Ok (decision, p)), d')"
  obtains sizeBase priceBase where "gate_order is_uuid g = Inr (Ok (sizeBase, priceBase))"
    and "kernel_reserve is_uuid k authority quote (gate_request g dec sizeBase priceBase) d = (Inr (Ok p), d')"
    and "decision = decision_for g dec p"
  using assms
  by (auto simp: validateAndReserve_def split: sum.splits outcome.splits prod.splits if_splits)

text \<open>The decision built from a granted permit is always valid: \<open>DECISION_INVALID\<close> does not occur.\<close>

lemma granted_decision_valid:
  assumes gate: "gate_order is_uuid g = Inr (Ok (sizeBase, priceBase))"
    and grant: "kernel_reserve is_uuid k (\<lambda>i. pg_authority (env i)) quote (gate_request g dec sizeBase priceBase) d
      = (Inr (Ok p), d')"
    and dec: "is_uuid dec"
  shows "RiskDecisionSchema is_uuid (decision_for g dec p)"
proof -
  have "ExecutionPermitSchema is_uuid p" by (rule kernel_reserve_schema [OF grant])
  then show ?thesis
    using dec gate_order_ok [OF gate]
    by (auto simp: RiskDecisionSchema_def decision_for_def ExecutionPermitSchema_def TradeIntentSchema_def)
qed

text \<open>An order of this cash is within the order, market and portfolio caps of the commissioned capital.\<close>

definition caps_respected :: "gate_input \<Rightarrow> int \<Rightarrow> bool" where
  "caps_respected g order \<longleftrightarrow>
     (\<exists>capital bps. map_option toBase6 (coalesce (capital_usd_cap (g_policy g)) (g_capital_basis g)) = Some (Inr capital) \<and>
        pct_bps (max_order_pct (g_policy g)) = Inr bps \<and> order \<le> cap_of capital bps \<and>
        within_cap capital (g_market_exposure g) (max_market_pct (g_policy g)) order \<and>
        within_cap capital (g_portfolio_exposure g) (max_portfolio_pct (g_policy g)) order)"

lemma gate_order_caps:
  "gate_order is_uuid g = Inr (Ok (sizeBase, priceBase)) \<Longrightarrow> caps_respected g (cashNeededFor sizeBase priceBase)"
  using gate_order_ok [of is_uuid g sizeBase priceBase] by (force simp: caps_respected_def)

text \<open>The funder's account holds an ACTIVE reservation of exactly this cash for exactly this intent.\<close>

definition permit_backed :: "gate_input \<Rightarrow> execution_permit \<Rightarrow> int \<Rightarrow> db \<Rightarrow> bool" where
  "permit_backed g p order d \<longleftrightarrow>
     (\<exists>r \<in> set (reservations d). r_permit_id r = permit_id p \<and> p_reservation_ids p = [r_id r] \<and>
        r_status r = R_ACTIVE \<and> r_amount r = order \<and> r_intent_id r = ti_intent_id (g_intent g) \<and>
        res_key r = (w_funder (g_wallet g), ''pUSD''))"

lemma grant_backed:
  assumes "kernel_reserve is_uuid k (\<lambda>i. pg_authority (env i)) quote (gate_request g dec sizeBase priceBase) d
      = (Inr (Ok p), d')"
  shows "permit_backed g p (cashNeededFor sizeBase priceBase) d' \<and> max_qty_base p = Some sizeBase \<and>
    price_max_base p = Some priceBase \<and> max_cash_base p = Some (cashNeededFor sizeBase priceBase)"
proof -
  have rq: "rq_cash (gate_request g dec sizeBase priceBase) = cashNeededFor sizeBase priceBase"
    "rq_intent_id (gate_request g dec sizeBase priceBase) = ti_intent_id (g_intent g)"
    "rq_key (gate_request g dec sizeBase priceBase) = (w_funder (g_wallet g), ''pUSD'')"
    by (simp_all add: gate_request_def rq_cash_def Let_def)
  from pg.kernel_reserve_grants(2) [OF assms] obtain vm ids r
    where p: "p = permit_for k (gate_request g dec sizeBase priceBase) quote vm ids"
    and r: "r \<in> set (reservations d')" "r_id r = ri_reservation ids" "r_permit_id r = ri_permit ids"
      "r_status r = R_ACTIVE" "r_intent_id r = ti_intent_id (g_intent g)"
      "r_amount r = cashNeededFor sizeBase priceBase"
      "res_key r = (w_funder (g_wallet g), ''pUSD'')" unfolding rq by blast
  have "permit_backed g p (cashNeededFor sizeBase priceBase) d'"
    using r unfolding permit_backed_def by (intro bexI [of _ r]) (simp_all add: p permit_for_def)
  then show ?thesis by (simp add: p permit_for_def gate_request_def Let_def)
qed

text \<open>C13. The risk gate lets no order past the commissioned limits: a granted request's cash is within the
  order cap, and with the exposure already there within the market cap and the portfolio cap, each that
  percentage of the capital basis in exact base units; the permit carries that order, the funder's
  account holds an ACTIVE reservation of exactly its cash for exactly that intent, and the books are
  kept.\<close>

theorem risk_gate_respects_caps:
  assumes sound: "sound d"
    and run: "validateAndReserve is_uuid k (\<lambda>i. pg_authority (env i)) quote dec g d = (Inr (Ok (decision, p)), d')"
  shows "\<exists>order. order = cashNeededFor (the (max_qty_base p)) (the (price_max_base p)) \<and>
      max_cash_base p = Some order \<and> caps_respected g order \<and> permit_backed g p order d' \<and>
      rd_reservation_ids decision = p_reservation_ids p \<and> sound d' \<and> keeps_books d d'"
proof -
  obtain sizeBase priceBase where gate: "gate_order is_uuid g = Inr (Ok (sizeBase, priceBase))"
    and grant: "kernel_reserve is_uuid k (\<lambda>i. pg_authority (env i)) quote (gate_request g dec sizeBase priceBase) d
      = (Inr (Ok p), d')"
    and decision: "decision = decision_for g dec p"
    by (rule validateAndReserve_ok [OF run])
  show ?thesis
    using grant_backed [OF grant] gate_order_caps [OF gate] pg.kernel_reserve_keeps [OF sound grant]
    by (simp add: decision decision_for_def)
qed

definition sample_policy :: risk_policy where
  "sample_policy = \<lparr>policy_version = ''v1'', execution_mode = Mode_LIVE, capital_usd_cap = Some (Fin 1),
     max_order_pct = Fin 1, max_market_pct = Fin 1, max_event_group_pct = Fin 1, max_portfolio_pct = Fin 1,
     daily_loss_stop_pct = Fin 1, drawdown_stop_pct = Fin 1, max_open_orders = Fin 1, min_edge_after_cost = Fin 0,
     book_max_age_ms = Fin 1, metadata_max_age_s = Fin 1, forecast_max_age_s = Fin 1, clock_skew_max_ms = Fin 1,
     max_slippage_abs = Fin 0, intent_ttl_s = Fin 1, risk_permit_ttl_ms = Fin 1, reconcile_interval_s = Fin 1,
     min_edge_per_share = None\<rparr>"

definition sample_intent :: trade_intent where
  "sample_intent = \<lparr>ti_intent_id = ''i1'', ti_dedupe_key = ''k1'', ti_purpose = Purpose_ENTRY, ti_market_id = ''m1'',
     ti_side = Direction BUY, ti_desired_qty = Some (Fin 1), ti_desired_notional = None,
     ti_limit_price = Some (Fin (1 / 2)), ti_price = None, ti_expiration_sec = None,
     ti_order_type = None, ti_status = Intent_VALIDATED\<rparr>"

definition sample_gate :: gate_input where
  "sample_gate = \<lparr>g_intent = sample_intent, g_policy = sample_policy,
     g_wallet = \<lparr>w_wallet_id = ''w1'', w_wallet_type = Wallet_EOA, w_signer_address = ''s'', w_account_wallet = ''a'',
       w_funder = ''acct'', w_chain_id = Fin 137\<rparr>,
     g_venue_mode = Venue_NORMAL, g_lease_epoch = Fin 1, g_now = 1000, g_policy_hash = ''ph'',
     g_market_exposure = None, g_portfolio_exposure = None, g_capital_basis = None\<rparr>"


lemma sample_gate_order: "gate_order is_u sample_gate = (if is_u ''i1'' then Inr (Ok (1000000, 500000)) else Inr (Refused ''INTENT_INVALID''))"
  by (simp add: gate_order_def Let_def sample_gate_def sample_policy_def sample_intent_def RiskPolicySchema_def TradeIntentSchema_def
     z_min1_def z_unit_def z_nonneg_def z_positive_def order_size_def toBase6_zero decimalToBase_half toBase6_one pct_bps_def exceeds_cap_def
     cap_of_def cashNeededFor_def num_eval signed_divide_int_def)

definition gate_permit :: execution_permit where
  "gate_permit = permit_for (mk_kernel None None None None) (gate_request sample_gate ''d1'' 1000000 500000) ''q1'' Venue_NORMAL
     \<lparr>ri_reservation = ''r1'', ri_permit = ''p1''\<rparr>"

lemma sample_gate_grant:
  "\<exists>d'. kernel_reserve (\<lambda>_. True) (mk_kernel None None None None) (\<lambda>_. pg_authority sample_attempt)
    ''q1'' (gate_request sample_gate ''d1'' 1000000 500000) funded_db = (Inr (Ok gate_permit), d')"
  by (simp add: gate_permit_def kernel_reserve_def kernel_guard_def mk_kernel_def MAX_SAFE_INTEGER_def gate_request_def sample_gate_def sample_intent_def
     sample_policy_def rq_cash_def cashNeededFor_def signed_divide_int_def funded_db_def empty_db_def getOpenCount_def
     MAX_SERIALIZATION_RETRIES_def numeral_2_eq_2 pg_authority_def sample_attempt_def authority_reserve_def args_of_def num_eval
     authority_body_def authority_writes_def duplicate_intent_def maxOpenReservations_def insert_intent_def move_to_committed_def
     upd_balance_def insert_decision_def numeric_18_8_def insert_reservation_def insert_permit_def append_event_def
     decision_of_def permit_of_def reservation_of_def max_qty_of_def intent_row_of_def units_def gate_expiration_def
     ExecutionPermitSchema_def permit_for_def z_min1_def z_nonneg_def Let_def VenueModeSchema_def all_venue_modes_def)

lemma sample_gate_run:
  "\<exists>d'. validateAndReserve (\<lambda>_. True) (mk_kernel None None None None) (\<lambda>_. pg_authority sample_attempt)
      ''q1'' ''d1'' sample_gate funded_db = (Inr (Ok (decision_for sample_gate ''d1'' gate_permit, gate_permit)), d')"
proof -
  have gate: "gate_order (\<lambda>_. True) sample_gate = Inr (Ok (1000000, 500000))" by (simp add: sample_gate_order)
  from sample_gate_grant obtain d' where grant: "kernel_reserve (\<lambda>_. True) (mk_kernel None None None None)
      (\<lambda>_. pg_authority sample_attempt) ''q1'' (gate_request sample_gate ''d1'' 1000000 500000) funded_db
      = (Inr (Ok gate_permit), d')" by blast
  then show ?thesis
    using granted_decision_valid [OF gate grant] by (simp add: validateAndReserve_def gate)
qed

theorem risk_gate_respects_caps_witness:
  "\<exists>decision p d'. validateAndReserve (\<lambda>_. True) (mk_kernel None None None None) (\<lambda>_. pg_authority sample_attempt)
      ''q1'' ''d1'' sample_gate funded_db = (Inr (Ok (decision, p)), d') \<and>
    (\<exists>r \<in> set (reservations d'). r_permit_id r = permit_id p \<and> r_status r = R_ACTIVE \<and>
       res_key r = (''acct'', ''pUSD''))"
proof -
  from sample_gate_run obtain d' where run: "validateAndReserve (\<lambda>_. True) (mk_kernel None None None None)
      (\<lambda>_. pg_authority sample_attempt) ''q1'' ''d1'' sample_gate funded_db
      = (Inr (Ok (decision_for sample_gate ''d1'' gate_permit, gate_permit)), d')" by blast
  from risk_gate_respects_caps [OF sample_sound, where env = "\<lambda>_. sample_attempt", OF run] run show ?thesis
    by (force simp: sample_gate_def permit_backed_def)
qed

text \<open>C14. The risk gate's answers are well-formed and no grant is lost to its own check: whenever the kernel grants a permit for
  the order, the gate returns it with its decision and leaves the kernel's books (the hand-back of DECISION_INVALID is
  never taken), and every granted decision and permit satisfies its schema, for an intent and a policy that satisfy theirs.\<close>

theorem risk_gate_typed:
  assumes dec: "is_uuid dec" and run: "validateAndReserve is_uuid k (\<lambda>i. pg_authority (env i)) quote dec g d = (r, d')"
  shows "(\<forall>sizeBase priceBase p d1. gate_order is_uuid g = Inr (Ok (sizeBase, priceBase)) \<longrightarrow>
      kernel_reserve is_uuid k (\<lambda>i. pg_authority (env i)) quote (gate_request g dec sizeBase priceBase) d = (Inr (Ok p), d1) \<longrightarrow>
      r = Inr (Ok (decision_for g dec p, p)) \<and> d' = d1) \<and>
    (\<forall>decision p. r = Inr (Ok (decision, p)) \<longrightarrow> RiskDecisionSchema is_uuid decision \<and> ExecutionPermitSchema is_uuid p \<and>
      TradeIntentSchema is_uuid (g_intent g) \<and> RiskPolicySchema (g_policy g))"
proof (intro conjI allI impI)
  fix sizeBase priceBase p d1
  assume gate: "gate_order is_uuid g = Inr (Ok (sizeBase, priceBase))"
    and grant: "kernel_reserve is_uuid k (\<lambda>i. pg_authority (env i)) quote (gate_request g dec sizeBase priceBase) d = (Inr (Ok p), d1)"
  from run gate grant granted_decision_valid [OF gate grant dec]
  show "r = Inr (Ok (decision_for g dec p, p))" "d' = d1" by (simp_all add: validateAndReserve_def)
next
  fix decision p assume "r = Inr (Ok (decision, p))"
  with run have ok: "validateAndReserve is_uuid k (\<lambda>i. pg_authority (env i)) quote dec g d = (Inr (Ok (decision, p)), d')" by simp
  obtain sizeBase priceBase where gate: "gate_order is_uuid g = Inr (Ok (sizeBase, priceBase))"
    and grant: "kernel_reserve is_uuid k (\<lambda>i. pg_authority (env i)) quote (gate_request g dec sizeBase priceBase) d = (Inr (Ok p), d')"
    and decision: "decision = decision_for g dec p" by (rule validateAndReserve_ok [OF ok])
  from granted_decision_valid [OF gate grant dec] kernel_reserve_schema [OF grant] gate_order_ok [OF gate]
  show "RiskDecisionSchema is_uuid decision" "ExecutionPermitSchema is_uuid p" "TradeIntentSchema is_uuid (g_intent g)"
    "RiskPolicySchema (g_policy g)" by (simp_all add: decision)
qed

theorem risk_gate_typed_witness:
  "RiskDecisionSchema (\<lambda>_. True) (decision_for sample_gate ''d1'' gate_permit) \<and> ExecutionPermitSchema (\<lambda>_. True) gate_permit"
proof -
  from sample_gate_run obtain d' where run: "validateAndReserve (\<lambda>_. True) (mk_kernel None None None None)
      (\<lambda>_. pg_authority sample_attempt) ''q1'' ''d1'' sample_gate funded_db
      = (Inr (Ok (decision_for sample_gate ''d1'' gate_permit, gate_permit)), d')" by blast
  from risk_gate_typed [where env = "\<lambda>_. sample_attempt", OF _ run] show ?thesis by simp
qed

text \<open>
  An exposure that is not a number, infinite or negative counts as none: the caps then bound the order
  alone.
\<close>

lemma unknown_exposure_counts_as_none:
  "x \<in> {NaN, PosInf, NegInf} \<Longrightarrow> exceeds_cap capital (Some x) pct order = exceeds_cap capital None pct order"
proof -
  assume "x \<in> {NaN, PosInf, NegInf}"
  then have "toBase6 x = Inr 0" by (auto simp: decimalToBase_def)
  then show ?thesis by (simp add: exceeds_cap_def toBase6_zero)
qed

text \<open>An intent on the side NO is reserved as a BUY and recorded with the outcome YES.\<close>

lemma no_side_recorded_as_yes:
  "ti_side (g_intent g) = Outcome NO \<Longrightarrow>
     rq_side (gate_request g decision sizeBase priceBase) = Some BUY \<and>
     map_option ir_outcome_side (rq_intent_ref (gate_request g decision sizeBase priceBase)) = Some YES"
  by (simp add: gate_request_def Let_def)

end
