(* ===== verification/OrderBuilder.thy ===== *)
theory OrderBuilder
  imports SignerVault RiskGate
begin

text \<open>
  \<open>buildSignedOrder\<close> (\<open>src/pm/control/src/order-builder.ts\<close>): the order of an intent, clamped inside its
  permit in base units, signed by the vault and checked against \<open>SignedOrderSchema\<close>.
\<close>

section \<open>The builder\<close>

record build_input =
  b_intent :: trade_intent
  b_permit :: execution_permit
  b_wallet :: wallet_identity
  b_verified_at :: ms
  b_venue_mode :: venue_mode
  b_now :: ms

definition SignedOrderSchema :: "(string \<Rightarrow> bool) \<Rightarrow> signed_order \<Rightarrow> string \<Rightarrow> string \<Rightarrow> uuid \<Rightarrow> bool" where
  "SignedOrderSchema is_uuid ord signature signer decision \<longleftrightarrow>
     is_uuid (order_id ord) \<and> z_min1 (o_market_id ord) \<and> z_unit (o_price ord) \<and> z_positive (o_size ord) \<and>
     z_min1 signature \<and> z_min1 signer \<and> z_min1 decision \<and> z_opt z_min1 (o_permit_id ord)"

definition intent_order_side :: "trade_intent \<Rightarrow> order_side" where
  "intent_order_side i = (if ti_side i = Direction SELL then SELL else BUY)"

text \<open>Shares to fit the quota, then the cash ceiling.\<close>

definition clamp_size :: "int \<Rightarrow> int \<Rightarrow> int \<Rightarrow> int \<Rightarrow> int" where
  "clamp_size sizeBase priceBase maxQty maxCash =
     (let s = (if maxQty < sizeBase then maxQty else sizeBase)
      in if maxCash < cashNeededFor s priceBase then (maxCash * 1000000) sdiv priceBase else s)"

text \<open>The checks and the clamp: side, price, size and style of the order, a refusal or a throw.\<close>

definition build_order :: "build_input \<Rightarrow> js_error + (int \<times> int \<times> order_style) outcome" where
  "build_order b =
     (let i = b_intent b; p = b_permit b in
      case coalesce (ti_limit_price i) (ti_price i) of
        None \<Rightarrow> Inr (Refused ''PRICE_REQUIRED'')
      | Some price \<Rightarrow>
      (case order_size i price of
        None \<Rightarrow> Inr (Refused ''SIZE_REQUIRED'')
      | Some sz \<Rightarrow>
      if p_side p \<noteq> None \<and> p_side p \<noteq> Some (intent_order_side i) then Inr (Refused ''SIDE_MISMATCH'')
      else case toBase6 price of Inl e \<Rightarrow> Inl e | Inr priceBase \<Rightarrow>
      if (case price_min_base p of None \<Rightarrow> False | Some lo \<Rightarrow> priceBase < lo)
          \<or> (case price_max_base p of None \<Rightarrow> False | Some hi \<Rightarrow> hi < priceBase)
        then Inr (Refused ''PRICE_OUT_OF_BOUNDS'')
      else if truthy (p_market_id p) \<and> p_market_id p \<noteq> Some (ti_market_id i) then Inr (Refused ''MARKET_MISMATCH'')
      else let style = (case ti_order_type i of Some t \<Rightarrow> t | None \<Rightarrow> Style_LIMIT) in
      if allowed_order_style p \<noteq> [] \<and> \<not> List.member (allowed_order_style p) (style_name style)
        then Inr (Refused ''STYLE_NOT_ALLOWED'')
      else case toBase6 sz of Inl e \<Rightarrow> Inl e | Inr sizeBase \<Rightarrow>
      (case toBase6 (max_qty p) of Inl e \<Rightarrow> Inl e | Inr maxQty \<Rightarrow>
      (case toBase6 (max_cash p) of Inl e \<Rightarrow> Inl e | Inr maxCash \<Rightarrow>
        let s = clamp_size sizeBase priceBase maxQty maxCash in
        if s \<le> 0 then Inr (Refused ''SIZE_ZERO'') else Inr (Ok (s, priceBase, style))))))"

definition build_request :: "(string \<Rightarrow> string) \<Rightarrow> build_input \<Rightarrow> uuid \<Rightarrow> int \<Rightarrow> int \<Rightarrow> sign_request" where
  "build_request sha256 b oid sizeBase priceBase =
     (let p = b_permit b; w = b_wallet b;
          r = \<lparr>sr_schema_version = ''1.1'', sr_action = ''ORDER_SUBMIT'', sr_permit = p, sr_wallet = w,
             sr_verified_at = b_verified_at b, sr_amount = sizeBase, sr_action_id = oid,
             sr_intent_id = p_intent_id p, sr_market = ti_market_id (b_intent b), sr_venue_mode = b_venue_mode b,
             sr_now = b_now b, sr_side = intent_order_side (b_intent b), sr_price = priceBase,
             sr_payload_hash = [], sr_policy_hash = p_policy_hash p, sr_quote_id = p_quote_id p,
             sr_chain_id = w_chain_id w, sr_lease_epoch = p_lease_epoch p\<rparr>
      in r\<lparr>sr_payload_hash := computePayloadHash sha256 r\<rparr>)"

definition built_order :: "build_input \<Rightarrow> uuid \<Rightarrow> int \<Rightarrow> int \<Rightarrow> order_style \<Rightarrow> signed_order" where
  "built_order b oid sizeBase priceBase style =
     \<lparr>order_id = oid, o_market_id = ti_market_id (b_intent b), o_side = intent_order_side (b_intent b),
      o_price = units priceBase, o_size = units sizeBase, o_permit_id = Some (permit_id (b_permit b)),
      o_order_type = Some style\<rparr>"

definition buildSignedOrder ::
  "(string \<Rightarrow> string) \<Rightarrow> (string \<Rightarrow> bool) \<Rightarrow> (sign_request \<Rightarrow> string + string) \<Rightarrow> vault \<Rightarrow> build_input \<Rightarrow> uuid \<Rightarrow>
     js_error + (signed_order \<times> string) outcome" where
  "buildSignedOrder sha256 is_uuid crypto v b oid =
     (case build_order b of Inl e \<Rightarrow> Inl e
      | Inr (Refused c) \<Rightarrow> Inr (Refused c)
      | Inr (Ok (sizeBase, priceBase, style)) \<Rightarrow>
          (case vault_sign sha256 is_uuid crypto v (build_request sha256 b oid sizeBase priceBase) of
             Inl e \<Rightarrow> Inl e
           | Inr (Refused c) \<Rightarrow> Inr (Refused c)
           | Inr (Ok (signature, _)) \<Rightarrow>
               let order = built_order b oid sizeBase priceBase style
               in if SignedOrderSchema is_uuid order signature (w_signer_address (b_wallet b)) (p_decision_id (b_permit b))
                  then Inr (Ok (order, signature)) else Inr (Refused ''ORDER_INVALID'')))"

section \<open>The clamp\<close>

lemma div_mult_le_int: "0 < b \<Longrightarrow> a div b * b \<le> (a :: int)"
proof -
  assume b: "0 < b"
  have "a - a mod b = a div b * b" by (rule minus_mod_eq_div_mult)
  moreover have "0 \<le> a mod b" using b by simp
  ultimately show ?thesis by linarith
qed

lemma cashNeededFor_nonneg: "0 \<le> s \<Longrightarrow> 0 \<le> p \<Longrightarrow> 0 \<le> cashNeededFor s p"
  by (simp add: cashNeededFor_def sdiv_nonneg pos_imp_zdiv_nonneg_iff)

text \<open>The clamped size is within both ceilings, and the division is only reached with a positive price.\<close>

lemma clamp_size_within:
  assumes p: "0 \<le> priceBase" and c: "0 \<le> maxCash" and s: "0 \<le> sizeBase" "0 \<le> maxQty"
  shows "clamp_size sizeBase priceBase maxQty maxCash \<le> min sizeBase maxQty \<and>
    0 \<le> clamp_size sizeBase priceBase maxQty maxCash \<and>
    cashNeededFor (clamp_size sizeBase priceBase maxQty maxCash) priceBase \<le> maxCash"
proof -
  define m where "m = (if maxQty < sizeBase then maxQty else sizeBase)"
  have m: "m = min sizeBase maxQty" "0 \<le> m" using s by (auto simp: m_def)
  show ?thesis
  proof (cases "maxCash < cashNeededFor m priceBase")
    case False
    with m show ?thesis by (simp add: clamp_size_def Let_def m_def [symmetric])
  next
    case True
    have cash: "cashNeededFor m priceBase = m * priceBase div 1000000"
      using m p by (simp add: cashNeededFor_def sdiv_nonneg)
    have pos: "0 < priceBase" using True [unfolded cash] c p by (cases "priceBase = 0") simp_all
    have r: "clamp_size sizeBase priceBase maxQty maxCash = maxCash * 1000000 div priceBase"
      using True c pos by (simp add: clamp_size_def Let_def m_def [symmetric] sdiv_nonneg)
    let ?s = "maxCash * 1000000 div priceBase"
    have s0: "0 \<le> ?s" using c pos by (simp add: pos_imp_zdiv_nonneg_iff)
    have "maxCash + 1 \<le> m * priceBase div 1000000" using True cash by simp
    then have "(maxCash + 1) * 1000000 \<le> m * priceBase div 1000000 * 1000000" by (rule mult_right_mono) simp
    also have "m * priceBase div 1000000 * 1000000 \<le> m * priceBase" by (rule div_mult_le_int) simp
    finally have "(maxCash + 1) * 1000000 \<le> m * priceBase" .
    then have "?s \<le> m * priceBase div priceBase" using pos by (intro zdiv_mono1) auto
    then have "?s \<le> m" using pos by simp
    moreover have "?s * priceBase \<le> maxCash * 1000000" using pos by (rule div_mult_le_int)
    then have "cashNeededFor ?s priceBase \<le> maxCash"
      using s0 p by (simp add: cashNeededFor_def sdiv_nonneg)
    ultimately show ?thesis using s0 m by (simp add: r)
  qed
qed

section \<open>Built orders stay inside their permit\<close>

lemma build_order_ok:
  assumes "build_order b = Inr (Ok (sizeBase, priceBase, style))"
  shows "p_side (b_permit b) \<in> {None, Some (intent_order_side (b_intent b))} \<and>
    (truthy (p_market_id (b_permit b)) \<longrightarrow> p_market_id (b_permit b) = Some (ti_market_id (b_intent b))) \<and>
    (allowed_order_style (b_permit b) = [] \<or> style_name style \<in> set (allowed_order_style (b_permit b))) \<and>
    (\<exists>price sz wanted maxQty maxCash.
      coalesce (ti_limit_price (b_intent b)) (ti_price (b_intent b)) = Some price \<and> toBase6 price = Inr priceBase \<and>
      order_size (b_intent b) price = Some sz \<and> toBase6 sz = Inr wanted \<and>
      toBase6 (max_qty (b_permit b)) = Inr maxQty \<and> toBase6 (max_cash (b_permit b)) = Inr maxCash \<and>
      sizeBase = clamp_size wanted priceBase maxQty maxCash \<and> 0 < sizeBase) \<and>
    price_min_base (b_permit b) \<in> {None} \<union> Some ` {..priceBase} \<and>
    price_max_base (b_permit b) \<in> {None} \<union> Some ` {priceBase..}"
  using assms
  by (auto simp: build_order_def Let_def not_less not_le
      split: option.splits if_splits sum.splits)

lemma buildSignedOrder_ok:
  assumes "buildSignedOrder sha256 is_uuid crypto v b oid = Inr (Ok (ord, signature))"
  obtains sizeBase priceBase style signed where "build_order b = Inr (Ok (sizeBase, priceBase, style))"
    and "vault_sign sha256 is_uuid crypto v (build_request sha256 b oid sizeBase priceBase) = Inr (Ok (signature, signed))"
    and "ord = built_order b oid sizeBase priceBase style"
  using assms
  by (auto simp: buildSignedOrder_def Let_def split: sum.splits outcome.splits prod.splits if_splits)

text \<open>A positive number of shares within the quota, the cash ceiling and the price bounds of the permit.\<close>

definition inside_permit :: "execution_permit \<Rightarrow> int \<Rightarrow> int \<Rightarrow> bool" where
  "inside_permit p shares price \<longleftrightarrow>
     (\<exists>maxQty maxCash. toBase6 (max_qty p) = Inr maxQty \<and> toBase6 (max_cash p) = Inr maxCash \<and>
        0 < shares \<and> shares \<le> maxQty \<and> cashNeededFor shares price \<le> maxCash) \<and>
     price_min_base p \<in> {None} \<union> Some ` {..price} \<and> price_max_base p \<in> {None} \<union> Some ` {price..}"

lemma build_order_inside:
  assumes built: "build_order b = Inr (Ok (shares, price, style))"
  shows "inside_permit (b_permit b) shares price \<and>
    (\<exists>p sz wanted. coalesce (ti_limit_price (b_intent b)) (ti_price (b_intent b)) = Some p \<and> toBase6 p = Inr price \<and>
       order_size (b_intent b) p = Some sz \<and> toBase6 sz = Inr wanted \<and> shares \<le> wanted)"
proof -
  from build_order_ok [OF built] obtain p sz wanted maxQty maxCash where
    conv: "coalesce (ti_limit_price (b_intent b)) (ti_price (b_intent b)) = Some p" "toBase6 p = Inr price"
      "order_size (b_intent b) p = Some sz" "toBase6 sz = Inr wanted"
      "toBase6 (max_qty (b_permit b)) = Inr maxQty" "toBase6 (max_cash (b_permit b)) = Inr maxCash"
    and size: "shares = clamp_size wanted price maxQty maxCash" "0 < shares" by blast
  have "shares \<le> min wanted maxQty \<and> cashNeededFor shares price \<le> maxCash"
    using clamp_size_within [of price maxCash wanted maxQty] conv(2,4-6)
    by (simp add: size(1) decimalToBase_nonneg)
  with conv size(2) build_order_ok [OF built] show ?thesis by (simp add: inside_permit_def)
qed

text \<open>C15. A built order never leaves its permit: it is on the permit's side and market, in an allowed style,
  at a price within the permit's bounds, for a positive number of shares that is at most what the
  intent asks for and at most the permit's quota, and its cash is within the permit's ceiling.\<close>

theorem built_order_stays_in_permit:
  assumes run: "buildSignedOrder sha256 is_uuid crypto v b oid = Inr (Ok (ord, signature))"
  shows "\<exists>shares price. ord = built_order b oid shares price (the (o_order_type ord)) \<and>
    o_size ord = units shares \<and> o_price ord = units price \<and> inside_permit (b_permit b) shares price \<and>
    (\<exists>p sz wanted. coalesce (ti_limit_price (b_intent b)) (ti_price (b_intent b)) = Some p \<and> toBase6 p = Inr price \<and>
       order_size (b_intent b) p = Some sz \<and> toBase6 sz = Inr wanted \<and> shares \<le> wanted) \<and>
    p_side (b_permit b) \<in> {None, Some (o_side ord)} \<and>
    (truthy (p_market_id (b_permit b)) \<longrightarrow> p_market_id (b_permit b) = Some (o_market_id ord)) \<and>
    (allowed_order_style (b_permit b) = [] \<or>
       style_name (the (o_order_type ord)) \<in> set (allowed_order_style (b_permit b)))"
proof -
  obtain shares price style signed where built: "build_order b = Inr (Ok (shares, price, style))"
    and ord: "ord = built_order b oid shares price style"
    by (rule buildSignedOrder_ok [OF run])
  show ?thesis
    using build_order_inside [OF built] build_order_ok [OF built] by (auto simp: ord built_order_def)
qed

text \<open>One share at a half, under a permit for ten.\<close>

definition sample_build :: build_input where
  "sample_build = \<lparr>b_intent = sample_intent, b_permit = sr_permit vault_request, b_wallet = sr_wallet vault_request,
     b_verified_at = 0, b_venue_mode = Venue_NORMAL, b_now = 1000\<rparr>"

lemma toBase6_samples: "toBase6 (Fin 10) = Inr 10000000" "toBase6 (Fin 6) = Inr 6000000"
proof -
  have n: "num_to_string (Fin 10) = ''10''" "num_to_string (Fin 6) = ''6''" by (simp_all add: num_eval)
  then show "toBase6 (Fin 10) = Inr 10000000" "toBase6 (Fin 6) = Inr 6000000"
    by (simp_all add: decimalToBase_def int_part_def frac_part_def replicate_numeral parse_bigint_def
        trim_str_def is_space_def parse_nonempty_def digit_val_def)
qed

lemma sample_built: "\<exists>ord. buildSignedOrder id (\<lambda>_. True) (\<lambda>_. Inr ''sig'') (mk_vault None (Fin 137)) sample_build ''o1''
    = Inr (Ok (ord, ''sig''))"
proof -
  have u: "units 10000000 = Fin 10" "units 6000000 = Fin 6" "units 1000000 = Fin 1" "units 500000 = Fin (1 / 2)"
    by (simp_all add: units_def num_eval)
  have order: "build_order sample_build = Inr (Ok (1000000, 500000, Style_LIMIT))"
    by (simp add: build_order_def Let_def sample_build_def sample_intent_def order_size_def vault_request_def permit_for_def
        sample_request_def intent_order_side_def decimalToBase_half toBase6_one toBase6_samples u clamp_size_def
        cashNeededFor_def signed_divide_int_def)
  have "checkAllowed (\<lambda>_. True) (mk_vault None (Fin 137)) (build_request id sample_build ''o1'' 1000000 500000) = Inr (Ok ())"
    by (simp add: checkAllowed_def Let_def build_request_def sample_build_def vault_request_def permit_for_def sample_request_def
        mk_kernel_def mk_vault_def ExecutionPermitSchema_def z_min1_def z_nonneg_def SIGNER_ALLOWED_ACTIONS_def u toBase6_samples
        signed_divide_int_def num_eval)
  then have "vault_sign id (\<lambda>_. True) (\<lambda>_. Inr ''sig'') (mk_vault None (Fin 137))
      (build_request id sample_build ''o1'' 1000000 500000) = Inr (Ok (''sig'', 1000))"
    by (simp add: vault_sign_def) (simp add: build_request_def Let_def computePayloadHash_def payload_fields_def sample_build_def)
  with order show ?thesis
    by (simp add: buildSignedOrder_def SignedOrderSchema_def built_order_def Let_def sample_build_def sample_intent_def
        vault_request_def permit_for_def sample_request_def z_min1_def z_unit_def z_positive_def u num_eval)
qed

theorem built_order_stays_in_permit_witness:
  "\<exists>ord shares price. buildSignedOrder id (\<lambda>_. True) (\<lambda>_. Inr ''sig'') (mk_vault None (Fin 137)) sample_build ''o1''
    = Inr (Ok (ord, ''sig'')) \<and> o_size ord = units shares \<and> o_price ord = units price \<and> 0 < shares \<and>
    cashNeededFor shares price \<le> 6000000"
proof -
  from sample_built obtain ord where run: "buildSignedOrder id (\<lambda>_. True) (\<lambda>_. Inr ''sig'') (mk_vault None (Fin 137))
      sample_build ''o1'' = Inr (Ok (ord, ''sig''))" by blast
  have u: "units 6000000 = Fin 6" by (simp add: units_def num_eval)
  have "toBase6 (max_cash (b_permit sample_build)) = Inr 6000000"
    by (simp add: sample_build_def vault_request_def permit_for_def sample_request_def u toBase6_samples)
  with built_order_stays_in_permit [OF run] run show ?thesis by (force simp: inside_permit_def)
qed

text \<open>
  The vault's bindings to the active policy, the quote, the intent and the lease compare the permit with
  itself: the builder fills the expected values in from the permit.
\<close>

lemma builder_bindings_are_the_permits:
  "sr_policy_hash (build_request sha256 b oid s p) = p_policy_hash (b_permit b) \<and>
   sr_quote_id (build_request sha256 b oid s p) = p_quote_id (b_permit b) \<and>
   sr_intent_id (build_request sha256 b oid s p) = p_intent_id (b_permit b) \<and>
   sr_lease_epoch (build_request sha256 b oid s p) = p_lease_epoch (b_permit b)"
  by (simp add: build_request_def Let_def)

end
