(* ===== verification/JsOrder.thy ===== *)
theory JsOrder
  imports JsNumber
begin

text \<open>
  Order and sign of ECMAScript numbers: \<open><\<close> and \<open><=\<close> are transitive (NaN is related to nothing), \<open>Math.abs\<close>,
  \<open>Math.min\<close> and \<open>Math.max\<close>, and arithmetic that stays non-negative. Shared by the components that compare
  numbers without converting them to base units.
\<close>

lemma num_le_not_lt: "is_finite_num a \<Longrightarrow> is_finite_num b \<Longrightarrow> num_le a b \<longleftrightarrow> \<not> num_lt b a"
  by (cases a; cases b) (auto simp: num_le_def)

lemma num_lt_trans: "num_lt a b \<Longrightarrow> num_lt b c \<Longrightarrow> num_lt a c"
  by (cases a; cases b; cases c) auto

lemma num_le_lt_trans: "num_le a b \<Longrightarrow> num_lt b c \<Longrightarrow> num_lt a c"
  by (cases a; cases b; cases c) (auto simp: num_le_def)

lemma num_lt_le_trans: "num_lt a b \<Longrightarrow> num_le b c \<Longrightarrow> num_lt a c"
  by (cases a; cases b; cases c) (auto simp: num_le_def)

lemma num_le_trans: "num_le a b \<Longrightarrow> num_le b c \<Longrightarrow> num_le a c"
  by (cases a; cases b; cases c) (auto simp: num_le_def)

lemma num_le_Fin [simp]: "num_le (Fin a) (Fin b) \<longleftrightarrow> a \<le> b"
  by (auto simp: num_le_def)

lemma num_le_inf [simp]:
  "num_le x PosInf \<longleftrightarrow> x \<noteq> NaN" "num_le NegInf x \<longleftrightarrow> x \<noteq> NaN"
  "\<not> num_le PosInf (Fin a)" "\<not> num_le (Fin a) NegInf" "\<not> num_le PosInf NegInf"
  by (cases x; simp add: num_le_def)+

lemma num_le_refl: "x \<noteq> NaN \<Longrightarrow> num_le x x"
  by (cases x) (simp_all add: num_le_def)

lemma num_lt_imp_le: "num_lt a b \<Longrightarrow> num_le a b"
  by (simp add: num_le_def)

lemma num_not_lt_NaN [simp]: "\<not> num_lt NaN x" "\<not> num_lt x NaN" "\<not> num_le NaN x" "\<not> num_le x NaN"
  by (cases x; simp add: num_le_def)+

lemma num_le_linear: "x \<noteq> NaN \<Longrightarrow> y \<noteq> NaN \<Longrightarrow> \<not> num_le x y \<Longrightarrow> num_lt y x"
  by (cases x; cases y) (auto simp: num_le_def)

definition num_abs :: "jsnum \<Rightarrow> jsnum" where
  "num_abs n = (if num_lt n (Fin 0) then num_neg n else n)"

definition num_max :: "jsnum \<Rightarrow> jsnum \<Rightarrow> jsnum" where
  "num_max x y = (if x = NaN \<or> y = NaN then NaN else if num_le x y then y else x)"

definition num_min :: "jsnum \<Rightarrow> jsnum \<Rightarrow> jsnum" where
  "num_min x y = (if x = NaN \<or> y = NaN then NaN else if num_le x y then x else y)"

lemma num_max_ge: "x \<noteq> NaN \<Longrightarrow> y \<noteq> NaN \<Longrightarrow> num_le x (num_max x y) \<and> num_le y (num_max x y)"
  by (simp add: num_max_def num_le_refl num_le_linear num_lt_imp_le)

lemma num_min_le: "x \<noteq> NaN \<Longrightarrow> y \<noteq> NaN \<Longrightarrow> num_le (num_min x y) x \<and> num_le (num_min x y) y"
  by (simp add: num_min_def num_le_refl num_le_linear num_lt_imp_le)

lemma num_min_le_of:
  "num_le x (num_min a b) \<Longrightarrow> num_le x a \<and> num_le x b"
  by (cases "a = NaN \<or> b = NaN") (auto simp: num_min_def split: if_splits intro: num_le_trans num_lt_imp_le num_le_linear)

lemma num_max_not_NaN [simp]: "num_max x y = NaN \<longleftrightarrow> x = NaN \<or> y = NaN"
  by (auto simp: num_max_def)

lemma num_min_not_NaN [simp]: "num_min x y = NaN \<longleftrightarrow> x = NaN \<or> y = NaN"
  by (auto simp: num_min_def)

lemma num_max_mono: "num_le x y \<Longrightarrow> z \<noteq> NaN \<Longrightarrow> num_le (num_max x z) (num_max y z)"
  by (cases x; cases y; cases z) (auto simp: num_max_def num_le_def)

lemma num_min_mono: "num_le x y \<Longrightarrow> z \<noteq> NaN \<Longrightarrow> num_le (num_min x z) (num_min y z)"
  by (cases x; cases y; cases z) (auto simp: num_min_def num_le_def)

text \<open>Clamping into \<open>[0, 1]\<close>, \<open>Math.min(Math.max(v, 0), 1)\<close>.\<close>

definition num_clamp01 :: "jsnum \<Rightarrow> jsnum" where
  "num_clamp01 v = num_min (num_max v (Fin 0)) (Fin 1)"

lemma num_clamp01_mono: "num_le x y \<Longrightarrow> num_le (num_clamp01 x) (num_clamp01 y)"
  by (simp add: num_clamp01_def num_max_mono num_min_mono)

lemma num_clamp01_range: "v \<noteq> NaN \<Longrightarrow> num_le (Fin 0) (num_clamp01 v) \<and> num_le (num_clamp01 v) (Fin 1)"
  by (cases v) (auto simp: num_clamp01_def num_max_def num_min_def num_le_def)

text \<open>Rounding keeps the sign, so non-negative arithmetic has no NaN.\<close>

lemma pow2_nonneg [simp]: "0 \<le> pow2 e"
  by (simp add: pow2_def)

lemma round_half_even_nonneg: "0 \<le> q \<Longrightarrow> 0 \<le> round_half_even q"
  unfolding round_half_even_def Let_def by (auto simp: algebra_simps)

lemma fl_nonneg: "0 \<le> q \<Longrightarrow> num_le (Fin 0) (fl q)"
proof -
  assume "0 \<le> q"
  define e where "e = max (ilog2 q - 52) (-1074)"
  have "0 \<le> of_int (round_half_even (q / pow2 e)) * pow2 e"
    using \<open>0 \<le> q\<close> by (simp add: round_half_even_nonneg)
  with \<open>0 \<le> q\<close> show ?thesis by (simp add: fl_def Let_def flip: e_def)
qed

lemma num_add_nonneg: "num_le (Fin 0) x \<Longrightarrow> num_le (Fin 0) y \<Longrightarrow> num_le (Fin 0) (num_add x y)"
  by (cases x; cases y) (simp_all add: fl_nonneg)

lemma num_div_nonneg: "num_le (Fin 0) x \<Longrightarrow> 0 < n \<Longrightarrow> num_le (Fin 0) (num_div x (Fin n))"
  by (cases x) (simp_all add: fl_nonneg inf_of_sign_def)

end
