(* ===== verification/Signal.thy ===== *)
theory Signal
  imports Domain JsOrder
begin

text \<open>
  The edge of a forecast against a book (\<open>src/pm/control/src/signal.ts\<close>), in doubles, and the taker fee
  formula it may use. A probability or price that is missing is \<open>None\<close>.
\<close>

section \<open>The edge\<close>

record forecast =
  f_calibrated :: "jsnum option"
  f_raw :: "jsnum option"
  f_yes :: "jsnum option"

record book_prices =
  bk_yes :: "jsnum option"
  bk_no :: "jsnum option"
  bk_fee_bps :: "jsnum option"

record signal_opts =
  so_minEdge :: jsnum
  so_takerFeeBps :: "jsnum option"
  so_feeTheta :: "jsnum option"

record edge_result =
  er_trade :: bool
  er_side :: "outcome_side option"
  er_edge :: jsnum
  er_after :: jsnum
  er_probability :: "jsnum option"
  er_price :: "jsnum option"
  er_code :: string

definition clobTakerFeePerShare :: "jsnum \<Rightarrow> jsnum \<Rightarrow> jsnum" where
  "clobTakerFeePerShare price theta =
     (if \<not> is_finite_num price \<or> \<not> is_finite_num theta then Fin 0
      else let p = num_min (num_max price (Fin 0)) (Fin 1); t = num_max theta (Fin 0)
           in num_mul (num_mul t p) (num_sub (Fin 1) p))"

fun first_some :: "'a option list \<Rightarrow> 'a option" where
  "first_some [] = None"
| "first_some (Some x # _) = Some x"
| "first_some (None # xs) = first_some xs"

text \<open>A candidate: side, gross edge, price and fee.\<close>

record candidate =
  cd_side :: outcome_side
  cd_gross :: jsnum
  cd_price :: jsnum
  cd_fee :: jsnum

definition candidates :: "jsnum \<Rightarrow> book_prices \<Rightarrow> signal_opts \<Rightarrow> candidate list" where
  "candidates p b opts =
     (let takerBps = (case first_some [so_takerFeeBps opts, bk_fee_bps b] of Some x \<Rightarrow> x | None \<Rightarrow> Fin 0);
          flat = num_div takerBps (Fin 10000);
          fee = (\<lambda>price. case (so_takerFeeBps opts, so_feeTheta opts) of
                   (None, Some theta) \<Rightarrow> clobTakerFeePerShare price theta | _ \<Rightarrow> flat)
      in (case bk_yes b of None \<Rightarrow> []
          | Some y \<Rightarrow> [\<lparr>cd_side = YES, cd_gross = num_sub p y, cd_price = y, cd_fee = fee y\<rparr>]) @
         (case bk_no b of None \<Rightarrow> []
          | Some n \<Rightarrow> [\<lparr>cd_side = NO, cd_gross = num_sub (num_sub (Fin 1) p) n, cd_price = n, cd_fee = fee n\<rparr>]))"

text \<open>The head of the candidates sorted by gross edge, descending; equal or unordered ones keep their order.\<close>

fun best_candidate :: "candidate list \<Rightarrow> candidate option" where
  "best_candidate [] = None"
| "best_candidate [c] = Some c"
| "best_candidate (c # d # _) =
     (if num_lt (num_sub (cd_gross c) (cd_gross d)) (Fin 0) then Some d else Some c)"

definition evaluateEdge :: "forecast \<Rightarrow> book_prices \<Rightarrow> signal_opts \<Rightarrow> edge_result" where
  "evaluateEdge f b opts =
     (case first_some [f_calibrated f, f_raw f, f_yes f] of
        None \<Rightarrow> \<lparr>er_trade = False, er_side = None, er_edge = Fin 0, er_after = Fin 0, er_probability = None,
                 er_price = None, er_code = ''NO_PROBABILITY''\<rparr>
      | Some p \<Rightarrow>
          (case best_candidate (candidates p b opts) of
             None \<Rightarrow> \<lparr>er_trade = False, er_side = None, er_edge = Fin 0, er_after = Fin 0,
                      er_probability = Some p, er_price = None, er_code = ''NO_BOOK''\<rparr>
           | Some c \<Rightarrow>
               (let after_fees = num_sub (cd_gross c) (cd_fee c);
                    result = (\<lambda>trade code. \<lparr>er_trade = trade, er_side = Some (cd_side c), er_edge = cd_gross c,
                       er_after = after_fees, er_probability = Some p, er_price = Some (cd_price c),
                       er_code = code\<rparr>)
                in if num_le after_fees (Fin 0) then result False ''NEGATIVE_EDGE''
                   else if num_lt after_fees (so_minEdge opts) then result False ''MIN_EDGE_UNMET''
                   else result True ''OK'')))"

section \<open>What a trade signal means\<close>

lemma best_candidate_in: "best_candidate cs = Some c \<Longrightarrow> c \<in> set cs"
  by (induction cs rule: best_candidate.induct) (auto split: if_splits)

lemma evaluateEdge_trade:
  assumes "er_trade (evaluateEdge f b opts)"
  obtains p c where "first_some [f_calibrated f, f_raw f, f_yes f] = Some p"
    and "best_candidate (candidates p b opts) = Some c" and "c \<in> set (candidates p b opts)"
    and "er_side (evaluateEdge f b opts) = Some (cd_side c)" and "er_price (evaluateEdge f b opts) = Some (cd_price c)"
    and "\<not> num_le (num_sub (cd_gross c) (cd_fee c)) (Fin 0)"
    and "\<not> num_lt (num_sub (cd_gross c) (cd_fee c)) (so_minEdge opts)"
  using assms best_candidate_in
  by (auto simp: evaluateEdge_def Let_def split: option.splits if_splits)

text \<open>
  The choice is by gross edge although the documentation says net: with a fee that depends on the price
  the side with the larger net edge can lose, and the trade is then refused as negative.
\<close>

lemma gross_edge_hides_net_edge:
  "let b = \<lparr>bk_yes = Some (Fin (1 / 2)), bk_no = Some (Fin (1 / 8)), bk_fee_bps = None\<rparr>;
       f = \<lparr>f_calibrated = Some (Fin (3 / 4)), f_raw = None, f_yes = None\<rparr>
   in er_code (evaluateEdge f b \<lparr>so_minEdge = Fin 0, so_takerFeeBps = None, so_feeTheta = Some (Fin 1)\<rparr>)
        = ''NEGATIVE_EDGE'' \<and>
      num_lt (Fin 0) (num_sub (num_sub (num_sub (Fin 1) (Fin (3 / 4))) (Fin (1 / 8)))
        (clobTakerFeePerShare (Fin (1 / 8)) (Fin 1)))"
  by (simp add: evaluateEdge_def candidates_def clobTakerFeePerShare_def num_min_def num_max_def Let_def num_eval)

text \<open>A probability that is not a number passes both tests.\<close>

lemma nan_probability_trades:
  "er_trade (evaluateEdge \<lparr>f_calibrated = Some NaN, f_raw = None, f_yes = None\<rparr>
     \<lparr>bk_yes = Some (Fin (1 / 2)), bk_no = None, bk_fee_bps = None\<rparr>
     \<lparr>so_minEdge = Fin 0, so_takerFeeBps = None, so_feeTheta = None\<rparr>)"
  by (simp add: evaluateEdge_def candidates_def Let_def num_eval num_le_def)

end
