(* ===== verification/RecoveryLedger.thy ===== *)
theory RecoveryLedger
  imports LeaseStore
begin

text \<open>
  \<open>src/pm/venue/src/recovery-ledger.ts\<close> and \<open>seen-store.ts\<close>: the durable record of orders whose
  outcome at the venue is open, in memory (\<open>MemRecoveryLedger\<close>) and in PostgreSQL
  (\<open>PgRecoveryLedger\<close> on the table \<open>recovery_ledger\<close>, migrations 0005 and 0026), and the idempotency
  log with its write-through mirror.

  An \<open>InFlightOrder\<close> and a table row are the same record \<open>recovery_row\<close>; the columns
  \<open>last_reconcile_at\<close> and \<open>reconcile_count\<close>, which no code writes, are left out. The locale
  \<open>fill_ledger\<close> is the contract of \<open>consumeFill\<close> that keeps fills from being settled twice.
\<close>

section \<open>Shared by both ledgers\<close>

text \<open>The state an explicit venue result resolves to: an order-level terminal status beats the ACK.\<close>

definition resolved_state_of :: "order_result option \<Rightarrow> lifecycle" where
  "resolved_state_of result =
     (case result of None \<Rightarrow> DEFINITIVE_REJECT
      | Some res \<Rightarrow>
          if res_order_status res \<in> {Some Order_CANCELED, Some Order_REJECTED, Some Order_EXPIRED}
            then DEFINITIVE_REJECT
          else if res_order_status res = Some Order_MATCHED \<or> res_submit_status res = Some Submit_ACKNOWLEDGED
            then ACKNOWLEDGED
          else DEFINITIVE_REJECT)"

definition resting :: "order_result option \<Rightarrow> bool" where
  "resting result = (case result of None \<Rightarrow> False
     | Some res \<Rightarrow> res_order_status res \<in> {Some Order_LIVE, Some Order_PARTIAL})"

text \<open>\<open>toBig\<close>: the base-unit counter strings, with 0 for what \<open>BigInt\<close> rejects.\<close>

definition to_big :: "string \<Rightarrow> int" where
  "to_big v = (case parse_bigint v of Some n \<Rightarrow> n | None \<Rightarrow> 0)"

definition raised :: "string \<Rightarrow> string \<Rightarrow> int" where
  "raised prev rep = (if to_big prev < to_big rep then to_big rep else to_big prev)"

definition submitting_row :: "ms option \<Rightarrow> ms \<Rightarrow> uuid \<Rightarrow> string option \<Rightarrow> uuid option \<Rightarrow> recovery_row" where
  "submitting_row submitted now oid venue_order permit =
     \<lparr>rc_order_id = oid, rc_venue_order_id = venue_order, rc_permit_id = permit,
      rc_state = SUBMITTING, rc_submitted_at = submitted, rc_acknowledged_at = None,
      rc_resolved = False, rc_resolved_at = None, rc_resolved_state = None,
      rc_fill_shares = ''0'', rc_fill_cash = ''0'', rc_created_at = now, rc_updated_at = now\<rparr>"

definition set_fills :: "ms \<Rightarrow> string \<Rightarrow> string \<Rightarrow> recovery_row \<Rightarrow> recovery_row" where
  "set_fills now shares cash r =
     r\<lparr>rc_fill_shares := int_str (raised (rc_fill_shares r) shares),
       rc_fill_cash := int_str (raised (rc_fill_cash r) cash), rc_updated_at := now\<rparr>"

definition fill_delta :: "string \<Rightarrow> recovery_row \<Rightarrow> string" where
  "fill_delta cash r = int_str (raised (rc_fill_cash r) cash - to_big (rc_fill_cash r))"

section \<open>MemRecoveryLedger\<close>

type_synonym ledger = "recovery_row list"

definition mem_addSubmittedUnknown ::
  "ms \<Rightarrow> uuid \<Rightarrow> string option \<Rightarrow> uuid option \<Rightarrow> ledger \<Rightarrow> ledger" where
  "mem_addSubmittedUnknown now oid venue_order permit led =
     put_row rc_order_id (submitting_row None now oid venue_order permit) led"

definition mem_claimPermitAndRecordSubmission ::
  "ms \<Rightarrow> uuid \<Rightarrow> uuid \<Rightarrow> string option \<Rightarrow> ledger \<Rightarrow> uuid outcome \<times> ledger" where
  "mem_claimPermitAndRecordSubmission now permit oid venue_order led =
     (Ok permit, put_row rc_order_id (submitting_row None now oid venue_order (Some permit)) led)"

definition mem_recordCancelRequested :: "ms \<Rightarrow> uuid \<Rightarrow> ledger \<Rightarrow> ledger" where
  "mem_recordCancelRequested now oid led = upd_row rc_order_id oid
     (\<lambda>x :: recovery_row. if \<not> rc_resolved x
        then x\<lparr>rc_state := CANCEL_UNKNOWN, rc_updated_at := now\<rparr> else x) led"

definition mem_resolve :: "ms \<Rightarrow> uuid \<Rightarrow> bool \<Rightarrow> order_result option \<Rightarrow> ledger \<Rightarrow> ledger" where
  "mem_resolve now oid fromVenue result led =
     (if \<not> fromVenue then led
      else upd_row rc_order_id oid
        (\<lambda>x :: recovery_row.
          if resting result \<and> \<not> rc_resolved x
          then x\<lparr>rc_state := ACKNOWLEDGED, rc_acknowledged_at := Some now, rc_updated_at := now\<rparr>
          else let st = resolved_state_of result
               in x\<lparr>rc_resolved := True, rc_resolved_state := Some st, rc_resolved_at := Some now,
                    rc_updated_at := now, rc_state := st,
                    rc_acknowledged_at :=
                      (if st = ACKNOWLEDGED then Some now else rc_acknowledged_at x)\<rparr>) led)"

definition mem_needsReconcile :: "uuid \<Rightarrow> ledger \<Rightarrow> bool" where
  "mem_needsReconcile oid led = (case row_of rc_order_id oid led of None \<Rightarrow> False | Some x \<Rightarrow> \<not> rc_resolved x)"

definition mem_getUnresolved :: "ledger \<Rightarrow> recovery_row list" where
  "mem_getUnresolved led = filter (\<lambda>x. \<not> rc_resolved x) led"

definition mem_consumeFill :: "ms \<Rightarrow> uuid \<Rightarrow> string \<Rightarrow> string \<Rightarrow> ledger \<Rightarrow> string \<times> ledger" where
  "mem_consumeFill now oid shares cash led =
     (case row_of rc_order_id oid led of
        None \<Rightarrow> (''0'', led)
      | Some x \<Rightarrow> (fill_delta cash x, upd_row rc_order_id oid (set_fills now shares cash) led))"

definition mem_updateState :: "ms \<Rightarrow> uuid \<Rightarrow> lifecycle \<Rightarrow> string option \<Rightarrow> ledger \<Rightarrow> ledger" where
  "mem_updateState now oid st venue_order led = upd_row rc_order_id oid
     (\<lambda>x :: recovery_row. x\<lparr>rc_state := st, rc_venue_order_id :=
        (if truthy venue_order then venue_order else rc_venue_order_id x), rc_updated_at := now\<rparr>) led"

definition certainCancels :: "ledger \<Rightarrow> uuid list" where
  "certainCancels led =
     map rc_order_id (filter (\<lambda>x. rc_resolved x \<and> rc_state x = CANCEL_CERTAIN) led)"

section \<open>PgRecoveryLedger\<close>

text \<open>What a statement meets: the connection, and the \<open>orders\<close> table its foreign key refers to.\<close>

record ledger_env =
  lg_fault :: fault
  lg_order_known :: "uuid \<Rightarrow> bool"

definition permit_known :: "uuid option \<Rightarrow> db \<Rightarrow> bool" where
  "permit_known p d = (case p of None \<Rightarrow> True | Some pid \<Rightarrow> row_of pr_permit_id pid (permits d) \<noteq> None)"

text \<open>The upsert that records SUBMITTING, shared with the permit claim.\<close>

definition upsert_submitting ::
  "(uuid \<Rightarrow> bool) \<Rightarrow> ms \<Rightarrow> uuid \<Rightarrow> string option \<Rightarrow> uuid option \<Rightarrow> db \<Rightarrow> pg_error + db" where
  "upsert_submitting order_known now oid venue_order permit d =
     (if \<not> permit_known permit d then Inl fk_violation
      else case row_of rc_order_id oid (recovery d) of
        None \<Rightarrow> if order_known oid
                then Inr (d\<lparr>recovery := recovery d @ [submitting_row (Some now) now oid venue_order permit]\<rparr>)
                else Inl fk_violation
      | Some _ \<Rightarrow> Inr (d\<lparr>recovery := upd_row rc_order_id oid
          (\<lambda>x :: recovery_row. x\<lparr>rc_venue_order_id := venue_order, rc_permit_id := permit,
             rc_state := SUBMITTING, rc_submitted_at := Some now, rc_updated_at := now\<rparr>) (recovery d)\<rparr>))"

definition pg_addSubmittedUnknown ::
  "ledger_env \<Rightarrow> ms \<Rightarrow> uuid \<Rightarrow> string option \<Rightarrow> uuid option \<Rightarrow> (db, unit) eff" where
  "pg_addSubmittedUnknown e now oid venue_order permit = pg_stmt (lg_fault e)
     (\<lambda>d. case upsert_submitting (lg_order_known e) now oid venue_order permit d of
        Inl err \<Rightarrow> Inl err | Inr d' \<Rightarrow> Inr ((), d'))"

text \<open>An UPDATE of \<open>recovery_ledger\<close>: the CHECK on \<open>state\<close> admits five of the seven states.\<close>

definition state_check :: "recovery_row \<Rightarrow> bool" where
  "state_check x \<longleftrightarrow> rc_state x \<noteq> CANCEL_UNKNOWN \<and> rc_state x \<noteq> CANCEL_CERTAIN"

definition upd_recovery :: "uuid \<Rightarrow> (recovery_row \<Rightarrow> recovery_row) \<Rightarrow> db \<Rightarrow> pg_error + (unit \<times> db)" where
  "upd_recovery oid f d =
     (let t = upd_row rc_order_id oid f (recovery d)
      in if list_all state_check t then Inr ((), d\<lparr>recovery := t\<rparr>) else Inl check_violation)"

definition pg_recordCancelRequested :: "ledger_env \<Rightarrow> ms \<Rightarrow> uuid \<Rightarrow> (db, unit) eff" where
  "pg_recordCancelRequested e now oid = pg_stmt (lg_fault e) (upd_recovery oid
     (\<lambda>x :: recovery_row. if \<not> rc_resolved x
        then x\<lparr>rc_state := CANCEL_UNKNOWN, rc_updated_at := now\<rparr> else x))"

definition pg_resolve :: "ledger_env \<Rightarrow> ms \<Rightarrow> uuid \<Rightarrow> bool \<Rightarrow> order_result option \<Rightarrow> (db, unit) eff" where
  "pg_resolve e now oid fromVenue result =
     (if \<not> fromVenue then return_eff ()
      else if resting result then pg_stmt (lg_fault e) (upd_recovery oid
        (\<lambda>x :: recovery_row. if \<not> rc_resolved x
           then x\<lparr>rc_state := ACKNOWLEDGED, rc_acknowledged_at := Some now, rc_updated_at := now\<rparr>
           else x))
      else let st = resolved_state_of result in pg_stmt (lg_fault e) (upd_recovery oid
        (\<lambda>x :: recovery_row. x\<lparr>rc_state := st, rc_resolved := True, rc_resolved_state := Some st,
           rc_resolved_at := Some now, rc_updated_at := now\<rparr>)))"

definition pg_needsReconcile :: "uuid \<Rightarrow> db \<Rightarrow> bool" where
  "pg_needsReconcile oid d =
     (case row_of rc_order_id oid (recovery d) of None \<Rightarrow> False | Some x \<Rightarrow> \<not> rc_resolved x)"

definition pg_getUnresolved :: "db \<Rightarrow> recovery_row list" where
  "pg_getUnresolved d =
     sort_key (\<lambda>x. - rc_created_at x) (filter (\<lambda>x. \<not> rc_resolved x) (recovery d))"

definition pg_updateState :: "ledger_env \<Rightarrow> ms \<Rightarrow> uuid \<Rightarrow> lifecycle \<Rightarrow> string option \<Rightarrow> (db, unit) eff" where
  "pg_updateState e now oid st venue_order = pg_stmt (lg_fault e) (upd_recovery oid
     (\<lambda>x :: recovery_row. x\<lparr>rc_state := st, rc_venue_order_id :=
        (case venue_order of None \<Rightarrow> rc_venue_order_id x | Some v \<Rightarrow> Some v), rc_updated_at := now\<rparr>))"

text \<open>The fill counters under a row lock; any error, and a missing row, answer \<open>0\<close>.\<close>

definition pg_consumeFill :: "ledger_env \<Rightarrow> ms \<Rightarrow> uuid \<Rightarrow> string \<Rightarrow> string \<Rightarrow> db \<Rightarrow> string \<times> db" where
  "pg_consumeFill e now oid shares cash = with_txn (lg_fault e) (\<lambda>_. ''0'')
     (\<lambda>d. case row_of rc_order_id oid (recovery d) of
        None \<Rightarrow> Inr (''0'', d)
      | Some x \<Rightarrow> (case upd_recovery oid (set_fills now shares cash) d of
          Inl err \<Rightarrow> Inl err | Inr (_, d') \<Rightarrow> Inr (fill_delta cash x, d')))"

section \<open>The contract of the fill counters\<close>

definition fill_rows_ok :: "ledger \<Rightarrow> bool" where
  "fill_rows_ok led \<longleftrightarrow> (\<forall>x \<in> set led. 0 \<le> to_big (rc_fill_cash x))"

definition fill_cash :: "uuid \<Rightarrow> ledger \<Rightarrow> int" where
  "fill_cash oid led = (case row_of rc_order_id oid led of None \<Rightarrow> 0 | Some x \<Rightarrow> to_big (rc_fill_cash x))"

text \<open>A sequence of polls: each reports an order's cumulative fill; the deltas are settled.\<close>

fun polls ::
  "('e \<Rightarrow> uuid \<Rightarrow> string \<Rightarrow> string \<Rightarrow> 's \<Rightarrow> string \<times> 's) \<Rightarrow> ('e \<times> uuid \<times> string \<times> string) list \<Rightarrow> 's \<Rightarrow>
     (uuid \<times> int) list \<times> 's" where
  "polls consume_fill [] s = ([], s)"
| "polls consume_fill ((e, oid, shares, cash) # ps) s =
     (case consume_fill e oid shares cash s of (delta, s1) \<Rightarrow>
      (case polls consume_fill ps s1 of (ds, s2) \<Rightarrow> ((oid, to_big delta) # ds, s2)))"

fun top_report :: "uuid \<Rightarrow> ('e \<times> uuid \<times> string \<times> string) list \<Rightarrow> int \<Rightarrow> int" where
  "top_report oid [] m = m"
| "top_report oid ((e, k, shares, cash) # ps) m =
     top_report oid ps (if k = oid then max m (to_big cash) else m)"

definition settled :: "uuid \<Rightarrow> (uuid \<times> int) list \<Rightarrow> int" where
  "settled oid ds = (\<Sum>(k, delta)\<leftarrow>ds. if k = oid then delta else 0)"

locale fill_ledger =
  fixes ledger_ok :: "'s \<Rightarrow> bool"
    and counter :: "uuid \<Rightarrow> 's \<Rightarrow> int"
    and consume_fill :: "'e \<Rightarrow> uuid \<Rightarrow> string \<Rightarrow> string \<Rightarrow> 's \<Rightarrow> string \<times> 's"
  assumes keeps: "ledger_ok s \<Longrightarrow> consume_fill e oid sh c s = (delta, s') \<Longrightarrow> ledger_ok s'"
    and others: "consume_fill e oid sh c s = (delta, s') \<Longrightarrow> k \<noteq> oid \<Longrightarrow> counter k s' = counter k s"
    and delta: "ledger_ok s \<Longrightarrow> consume_fill e oid sh c s = (delta, s') \<Longrightarrow>
      0 \<le> to_big delta \<and> counter oid s + to_big delta \<le> counter oid s' \<and>
      counter oid s' \<le> max (counter oid s) (to_big c)"
begin

lemma polls_settle:
  "ledger_ok s \<Longrightarrow> polls consume_fill ps s = (ds, s') \<Longrightarrow> counter oid s \<le> m \<Longrightarrow>
     ledger_ok s' \<and> 0 \<le> settled oid ds \<and> counter oid s + settled oid ds \<le> counter oid s' \<and>
     counter oid s' \<le> top_report oid ps m"
proof (induction ps arbitrary: s ds m)
  case Nil
  then show ?case by (simp add: settled_def)
next
  case (Cons p ps)
  obtain e k sh c where p: "p = (e, k, sh, c)" by (cases p)
  obtain d1 s1 ds1 where 1: "consume_fill e k sh c s = (d1, s1)"
    and 2: "polls consume_fill ps s1 = (ds1, s')" and ds: "ds = (k, to_big d1) # ds1"
    using Cons.prems(2) by (auto simp: p split: prod.splits)
  have ok: "ledger_ok s1" using Cons.prems(1) 1 by (rule keeps)
  let ?m = "if k = oid then max m (to_big c) else m"
  have "counter oid s1 \<le> ?m"
    using delta [OF Cons.prems(1) 1] others [OF 1, of oid] Cons.prems(3) by auto
  from Cons.IH [OF ok 2 this] have
    ih: "ledger_ok s' \<and> 0 \<le> settled oid ds1 \<and> counter oid s1 + settled oid ds1 \<le> counter oid s' \<and>
      counter oid s' \<le> top_report oid ps ?m" .
  have "settled oid ds = (if k = oid then to_big d1 else 0) + settled oid ds1"
    by (simp add: settled_def ds)
  with ih delta [OF Cons.prems(1) 1] others [OF 1, of oid] show ?case by (auto simp: p)
qed

end

text \<open>Both ledgers keep it.\<close>

lemma to_big_int_str [simp]: "0 \<le> n \<Longrightarrow> to_big (int_str n) = n"
  by (simp add: to_big_def int_str_def)

lemma raised_max: "raised prev rep = max (to_big prev) (to_big rep)"
  by (simp add: raised_def max_def)

lemma rc_order_id_set_fills [simp]: "rc_order_id (set_fills now sh c x) = rc_order_id x"
  by (simp add: set_fills_def)

lemma set_fills_upd:
  assumes "fill_rows_ok led" and x: "row_of rc_order_id oid led = Some x"
    and led': "led' = upd_row rc_order_id oid (set_fills now sh c) led"
  shows "fill_rows_ok led'" and "fill_cash oid led' = max (fill_cash oid led) (to_big c)"
    and "to_big (fill_delta c x) = fill_cash oid led' - fill_cash oid led"
    and "0 \<le> to_big (fill_delta c x)" and "k \<noteq> oid \<Longrightarrow> fill_cash k led' = fill_cash k led"
proof -
  have pos: "0 \<le> to_big (rc_fill_cash x)"
    using assms(1) x by (auto simp: fill_rows_ok_def dest: row_of_Some)
  have "0 \<le> to_big (rc_fill_cash y)" if "y \<in> set led'" for y
    using that assms(1) by (auto simp: led' upd_row_def fill_rows_ok_def set_fills_def raised_max
        max_def le_max_iff_disj)
  then show "fill_rows_ok led'" by (simp add: fill_rows_ok_def)
  show c: "fill_cash oid led' = max (fill_cash oid led) (to_big c)"
    using pos by (simp add: led' fill_cash_def row_of_upd_row x set_fills_def raised_max max_def)
  show "to_big (fill_delta c x) = fill_cash oid led' - fill_cash oid led" "0 \<le> to_big (fill_delta c x)"
    using pos unfolding c by (simp_all add: fill_delta_def raised_max fill_cash_def x max_def)
  show "fill_cash k led' = fill_cash k led" if "k \<noteq> oid"
    using that by (simp add: led' fill_cash_def row_of_upd_row)
qed

interpretation mem_fills: fill_ledger fill_rows_ok fill_cash mem_consumeFill
proof unfold_locales
  fix s e oid sh c d s'
  assume ok: "fill_rows_ok s" and run: "mem_consumeFill e oid sh c s = (d, s')"
  show "fill_rows_ok s'"
    using run ok set_fills_upd(1) [OF ok] by (auto simp: mem_consumeFill_def split: option.splits)
  show "0 \<le> to_big d \<and> fill_cash oid s + to_big d \<le> fill_cash oid s' \<and>
      fill_cash oid s' \<le> max (fill_cash oid s) (to_big c)"
    using run set_fills_upd(2,3,4) [OF ok, of oid _ s' e sh c] to_big_int_str [of 0]
    by (auto simp: mem_consumeFill_def int_str_def num_eval split: option.splits)
next
  fix e oid sh c s d s' k
  assume "mem_consumeFill e oid sh c s = (d, s')" "k \<noteq> oid"
  then show "fill_cash k s' = fill_cash k s"
    by (auto simp: mem_consumeFill_def fill_cash_def row_of_upd_row split: option.splits)
qed

definition pg_fill_ok :: "db \<Rightarrow> bool" where
  "pg_fill_ok d \<longleftrightarrow> fill_rows_ok (recovery d)"

definition pg_fill_cash :: "uuid \<Rightarrow> db \<Rightarrow> int" where
  "pg_fill_cash oid d = fill_cash oid (recovery d)"

lemma upd_recovery_ok:
  "upd_recovery oid f d = Inr (u, d') \<Longrightarrow> recovery d' = upd_row rc_order_id oid f (recovery d)"
  by (auto simp: upd_recovery_def Let_def split: if_splits)

lemma with_txn_value:
  assumes "with_txn fault catch body d = (x, d')"
  obtains (caught) e where "d' = d" and "x = catch e"
  | (ran) y where "body d = Inr (y, d')" and "x = y \<or> (\<exists>e. x = catch e)"
  using assms by (cases fault) (auto split: sum.splits prod.splits)

lemma pg_consumeFill_cases:
  assumes "pg_consumeFill e now oid sh c d = (delta, d')"
  obtains (same) "d' = d" and "delta = ''0''"
  | (counted) x where "row_of rc_order_id oid (recovery d) = Some x"
      and "recovery d' = upd_row rc_order_id oid (set_fills now sh c) (recovery d)"
      and "delta = fill_delta c x \<or> delta = ''0''"
  using assms [unfolded pg_consumeFill_def]
proof (cases rule: with_txn_value)
  case (caught e)
  then show thesis by (intro same) simp_all
next
  case (ran y)
  show thesis
  proof (cases "row_of rc_order_id oid (recovery d)")
    case None
    with ran show thesis by (intro same) auto
  next
    case (Some x)
    with ran obtain u where "upd_recovery oid (set_fills now sh c) d = Inr (u, d')" and "y = fill_delta c x"
      by (auto split: sum.splits)
    with Some ran(2) show thesis by (intro counted [of x]) (auto dest: upd_recovery_ok)
  qed
qed

lemma to_big_zero [simp]: "to_big ''0'' = 0"
  using to_big_int_str [of 0] by (simp add: int_str_def num_eval)

interpretation pg_fills: fill_ledger pg_fill_ok pg_fill_cash "\<lambda>(e, now). pg_consumeFill e now"
proof unfold_locales
  fix s e oid sh c d s'
  assume ok: "pg_fill_ok s" and "(case e of (e, now) \<Rightarrow> pg_consumeFill e now) oid sh c s = (d, s')"
  then obtain e1 now where run: "pg_consumeFill e1 now oid sh c s = (d, s')" by (cases e) auto
  have ok: "fill_rows_ok (recovery s)" using ok by (simp add: pg_fill_ok_def)
  from run show "pg_fill_ok s'"
    by (cases rule: pg_consumeFill_cases) (auto simp: pg_fill_ok_def ok dest: set_fills_upd(1) [OF ok])
  from run show "0 \<le> to_big d \<and> pg_fill_cash oid s + to_big d \<le> pg_fill_cash oid s' \<and>
      pg_fill_cash oid s' \<le> max (pg_fill_cash oid s) (to_big c)"
  proof (cases rule: pg_consumeFill_cases)
    case same
    then show ?thesis by simp
  next
    case (counted x)
    with set_fills_upd(2-4) [OF ok counted(1,2)] show ?thesis by (auto simp: pg_fill_cash_def)
  qed
next
  fix e oid sh c s d s' k
  assume "(case e of (e, now) \<Rightarrow> pg_consumeFill e now) oid sh c s = (d, s')" "k \<noteq> oid"
  then show "pg_fill_cash k s' = pg_fill_cash k s"
    by (cases e) (auto simp: pg_fill_cash_def fill_cash_def row_of_upd_row elim!: pg_consumeFill_cases)
qed

section \<open>Resolution is final in PostgreSQL\<close>

text \<open>The operations of \<open>PgRecoveryLedger\<close> on one database, under any faults.\<close>

inductive ledger_step :: "db \<Rightarrow> db \<Rightarrow> bool" where
  add: "pg_addSubmittedUnknown e now oid v p d = (x, d') \<Longrightarrow> ledger_step d d'"
| cancel: "pg_recordCancelRequested e now oid d = (x, d') \<Longrightarrow> ledger_step d d'"
| resolve: "pg_resolve e now oid fromVenue result d = (x, d') \<Longrightarrow> ledger_step d d'"
| update: "pg_updateState e now oid st v d = (x, d') \<Longrightarrow> ledger_step d d'"
| fill: "pg_consumeFill e now oid sh c d = (delta, d') \<Longrightarrow> ledger_step d d'"

inductive_cases ledger_stepE: "ledger_step d d'"

definition resolved_in :: "uuid \<Rightarrow> db \<Rightarrow> bool" where
  "resolved_in oid d \<longleftrightarrow> (\<exists>x. row_of rc_order_id oid (recovery d) = Some x \<and> rc_resolved x)"

lemma resolved_upd:
  assumes "resolved_in oid d" and "\<And>x. rc_order_id (f x) = rc_order_id x"
    and "\<And>x. rc_resolved x \<Longrightarrow> rc_resolved (f x)" and "recovery d' = upd_row rc_order_id k f (recovery d)"
  shows "resolved_in oid d'"
  using assms by (auto simp: resolved_in_def row_of_upd_row)

lemma resolved_upd_stmt:
  assumes "pg_stmt fault (upd_recovery k f) d = (x, d')" and "resolved_in oid d"
    and "\<And>x. rc_order_id (f x) = rc_order_id x" and "\<And>x. rc_resolved x \<Longrightarrow> rc_resolved (f x)"
  shows "resolved_in oid d'"
  using assms(1)
proof (cases rule: pg_stmt_cases)
  case same
  with assms(2) show ?thesis by simp
next
  case (ran y)
  then have "recovery d' = upd_row rc_order_id k f (recovery d)"
    by (auto simp: upd_recovery_def Let_def split: if_splits)
  with assms show ?thesis by (auto intro: resolved_upd)
qed

lemma resolved_submitting:
  assumes "upsert_submitting known now k v p d = Inr d'" and "resolved_in oid d"
  shows "resolved_in oid d'"
  using assms
  by (auto simp: upsert_submitting_def resolved_in_def row_of_append row_of_upd_row
      split: if_splits option.splits)

lemma ledger_step_resolved:
  assumes "ledger_step d d'" and "resolved_in oid d"
  shows "resolved_in oid d'"
  using assms(1)
proof cases
  case (add e now k v p x)
  with assms(2) show ?thesis
    unfolding pg_addSubmittedUnknown_def
    by (elim pg_stmt_cases) (auto split: sum.splits intro: resolved_submitting)
next
  case (cancel e now k x)
  with assms(2) show ?thesis
    unfolding pg_recordCancelRequested_def by (elim resolved_upd_stmt) auto
next
  case (resolve e now k fromVenue result x)
  then show ?thesis
    using assms(2) unfolding pg_resolve_def Let_def
    by (auto simp: return_eff_def elim!: resolved_upd_stmt split: if_splits)
next
  case (update e now k st v x)
  with assms(2) show ?thesis unfolding pg_updateState_def by (elim resolved_upd_stmt) auto
next
  case (fill e now k sh c delta)
  with assms(2) show ?thesis
    by (elim pg_consumeFill_cases)
      (auto intro: resolved_upd [where f = "set_fills now sh c" and k = k] simp: set_fills_def)
qed

section \<open>PgSeenStore\<close>

text \<open>
  The idempotency log: \<open>mirror\<close> answers the executor, \<open>pending\<close> is what \<open>flush\<close> still has to write
  (in insertion order), \<open>table\<close> is \<open>seen_orders\<close>. A restart keeps only the table.
\<close>

record seen_store =
  mirror :: "uuid \<Rightarrow> lifecycle option"
  pending :: "(uuid \<times> lifecycle) list"
  table :: "uuid \<Rightarrow> lifecycle option"

definition seen_boot :: "(uuid \<Rightarrow> lifecycle option) \<Rightarrow> seen_store" where
  "seen_boot t = \<lparr>mirror = (\<lambda>_. None), pending = [], table = t\<rparr>"

definition hydrate :: "(uuid \<times> lifecycle) list \<Rightarrow> seen_store \<Rightarrow> seen_store" where
  "hydrate unresolved s = s\<lparr>mirror :=
     foldl (\<lambda>m (k, st). m(k \<mapsto> st))
       (\<lambda>k. case table s k of Some st \<Rightarrow> Some st | None \<Rightarrow> mirror s k) unresolved\<rparr>"

definition seen_has :: "uuid \<Rightarrow> seen_store \<Rightarrow> bool" where
  "seen_has oid s \<longleftrightarrow> mirror s oid \<noteq> None"

definition seen_get :: "uuid \<Rightarrow> seen_store \<Rightarrow> lifecycle option" where
  "seen_get oid s = mirror s oid"

definition seen_set :: "uuid \<Rightarrow> lifecycle \<Rightarrow> seen_store \<Rightarrow> seen_store" where
  "seen_set oid st s = s\<lparr>mirror := (mirror s)(oid \<mapsto> st), pending := put_row fst (oid, st) (pending s)\<rparr>"

text \<open>\<open>flush\<close>: one upsert per pending entry, stopping at the first that throws.\<close>

definition seen_write :: "fault \<Rightarrow> uuid \<times> lifecycle \<Rightarrow> (seen_store, unit) eff" where
  "seen_write fault kv = pg_stmt fault (\<lambda>s. Inr ((), s\<lparr>table := (table s)(fst kv \<mapsto> snd kv)\<rparr>))"

fun flush_each :: "(uuid \<Rightarrow> fault) \<Rightarrow> (uuid \<times> lifecycle) list \<Rightarrow> (seen_store, unit) eff" where
  "flush_each faults [] s = (Inr (), s)"
| "flush_each faults (kv # kvs) s =
     (case seen_write (faults (fst kv)) kv s of
        (Inl e, s') \<Rightarrow> (Inl e, s')
      | (Inr _, s') \<Rightarrow> flush_each faults kvs
          (s'\<lparr>pending := filter (\<lambda>p. fst p \<noteq> fst kv) (pending s')\<rparr>))"

definition seen_flush :: "(uuid \<Rightarrow> fault) \<Rightarrow> (seen_store, unit) eff" where
  "seen_flush faults s = flush_each faults (pending s) s"

lemma flush_each_ok:
  "flush_each faults kvs s = (Inr (), s') \<Longrightarrow> distinct (map fst kvs) \<Longrightarrow>
     table s' k = (case map_of kvs k of Some st \<Rightarrow> Some st | None \<Rightarrow> table s k)"
proof (induction kvs arbitrary: s)
  case Nil
  then show ?case by simp
next
  case (Cons kv kvs)
  obtain u s1 where w: "seen_write (faults (fst kv)) kv s = (Inr u, s1)"
    and rest: "flush_each faults kvs (s1\<lparr>pending := filter (\<lambda>p. fst p \<noteq> fst kv) (pending s1)\<rparr>) = (Inr (), s')"
    using Cons.prems(1) by (auto split: prod.splits sum.splits)
  from w have "table s1 = (table s)(fst kv \<mapsto> snd kv)"
    unfolding seen_write_def by (cases rule: pg_stmt_cases) auto
  moreover have "map_of kvs (fst kv) = None"
    using Cons.prems(2) by (simp add: map_of_eq_None_iff)
  ultimately show ?case
    using Cons.IH [OF rest] Cons.prems(2) by (cases kv) (auto split: option.splits)
qed

lemma foldl_upd_has:
  "m k \<noteq> None \<or> k \<in> fst ` set u \<Longrightarrow> foldl (\<lambda>m (k, st). m(k \<mapsto> st)) m u k \<noteq> None"
  by (induction u arbitrary: m) auto

lemma mirror_hydrate:
  "mirror (hydrate u s) = foldl (\<lambda>m (k, st). m(k \<mapsto> st))
     (\<lambda>k. case table s k of Some st \<Rightarrow> Some st | None \<Rightarrow> mirror s k) u"
  by (simp add: hydrate_def)

lemma hydrate_has:
  assumes "table s k \<noteq> None \<or> k \<in> fst ` set unresolved"
  shows "seen_has k (hydrate unresolved s)"
  unfolding seen_has_def mirror_hydrate
  using assms by (intro foldl_upd_has) (auto split: option.splits)

text \<open>What the store keeps between flushes: an entry not pending is the table's.\<close>

lemma map_of_row_of: "map_of t k = map_option snd (row_of fst k t)"
  by (induction t) auto

lemma map_of_put_row: "map_of (put_row fst (k, st) t) k' = (if k' = k then Some st else map_of t k')"
  by (simp add: map_of_row_of row_of_put_row)

definition pending_ok :: "seen_store \<Rightarrow> bool" where
  "pending_ok s \<longleftrightarrow> keys_ok fst (pending s) \<and>
     (\<forall>k st. mirror s k = Some st \<longrightarrow>
        (case map_of (pending s) k of Some st' \<Rightarrow> st' = st | None \<Rightarrow> table s k = Some st))"

lemma pending_ok_boot: "pending_ok (hydrate [] (seen_boot t))"
  by (simp add: pending_ok_def hydrate_def seen_boot_def keys_ok_def split: option.splits)

lemma pending_ok_set: "pending_ok s \<Longrightarrow> pending_ok (seen_set k st s)"
  by (auto simp: pending_ok_def seen_set_def keys_ok_put_row map_of_put_row cong: option.case_cong)

section \<open>Properties\<close>

text \<open>C19. No fill is settled twice: over any sequence of polls of any orders, with replayed, stale
  or unparsable reports and connection faults, the cash deltas that \<open>PgRecoveryLedger.consumeFill\<close>
  hands out for an order are non-negative and add up to at most the highest cumulative amount ever
  reported for it, less what was already counted; and so do those of the in-memory ledger.\<close>

theorem fills_settled_at_most_once:
  assumes "pg_fill_ok d" and "polls (\<lambda>(e, now). pg_consumeFill e now) ps d = (ds, d')"
    and "fill_rows_ok led" and "polls mem_consumeFill ms led = (es, led')"
  shows "0 \<le> settled oid ds \<and> settled oid ds \<le> top_report oid ps (pg_fill_cash oid d) - pg_fill_cash oid d \<and>
    0 \<le> settled oid es \<and> settled oid es \<le> top_report oid ms (fill_cash oid led) - fill_cash oid led"
  using pg_fills.polls_settle [OF assms(1,2), of oid "pg_fill_cash oid d"]
    mem_fills.polls_settle [OF assms(3,4), of oid "fill_cash oid led"] by simp

text \<open>Polls of one submitted order: a report, its replay, a stale one and a higher one settle exactly the highest.\<close>

definition sample_polls :: "'e \<Rightarrow> ('e \<times> uuid \<times> string \<times> string) list" where
  "sample_polls e = [(e, ''o1'', ''1'', ''250''), (e, ''o1'', ''1'', ''250''), (e, ''o1'', ''0'', ''100''), (e, ''o1'', ''2'', ''400'')]"

theorem fills_settled_at_most_once_witness:
  "\<exists>ds d' es led'. polls (\<lambda>(e, now). pg_consumeFill e now)
        (sample_polls (\<lparr>lg_fault = NoFault, lg_order_known = (\<lambda>_. True)\<rparr>, 0)) (empty_db\<lparr>recovery := [submitting_row None 0 ''o1'' None None]\<rparr>) = (ds, d') \<and>
     polls mem_consumeFill (sample_polls 0) [submitting_row None 0 ''o1'' None None] = (es, led') \<and>
     settled ''o1'' ds = 400 \<and> settled ''o1'' es = 400"
proof -
  let ?e = "(\<lparr>lg_fault = NoFault, lg_order_known = (\<lambda>_. True)\<rparr>, 0 :: ms)"
  let ?led = "[submitting_row None 0 ''o1'' None None]"
  let ?d = "empty_db\<lparr>recovery := ?led\<rparr>"
  have n: "to_big ''250'' = 250" "to_big ''400'' = 400" "to_big ''100'' = 100" "to_big ''150'' = 150" "to_big ''0'' = 0"
      "to_big ''1'' = 1" "to_big ''2'' = 2"
    using to_big_int_str [of 250] to_big_int_str [of 400] to_big_int_str [of 100] to_big_int_str [of 150]
      to_big_int_str [of 0] to_big_int_str [of 1] to_big_int_str [of 2] by (simp_all add: num_eval)
  obtain ds d' where run: "polls (\<lambda>(e, now). pg_consumeFill e now) (sample_polls ?e) ?d = (ds, d')" by fastforce
  obtain es led' where mrun: "polls mem_consumeFill (sample_polls 0) ?led = (es, led')" by fastforce
  have ok: "pg_fill_ok ?d" "fill_rows_ok ?led" by (simp_all add: pg_fill_ok_def fill_rows_ok_def submitting_row_def n)
  have "settled ''o1'' ds \<le> 400" "settled ''o1'' es \<le> 400"
    using fills_settled_at_most_once [OF ok(1) run ok(2) mrun, of "''o1''"]
    by (simp_all add: sample_polls_def pg_fill_cash_def fill_cash_def submitting_row_def n)
  moreover have "400 \<le> settled ''o1'' ds"
    using run by (auto simp: sample_polls_def settled_def pg_consumeFill_def upd_recovery_def upd_row_def state_check_def
        set_fills_def fill_delta_def raised_def submitting_row_def n num_eval)
  moreover have "400 \<le> settled ''o1'' es"
    using mrun by (auto simp: sample_polls_def settled_def mem_consumeFill_def upd_row_def
        set_fills_def fill_delta_def raised_def submitting_row_def n num_eval)
  ultimately show ?thesis using run mrun by auto
qed

text \<open>In PostgreSQL the resolution of an order is final: no operation of the ledger, under any
  fault, makes a resolved order unresolved, so reconciliation never polls it again.\<close>

theorem resolution_is_final:
  assumes "ledger_step\<^sup>*\<^sup>* d d'" and "row_of rc_order_id oid (recovery d) = Some x" and "rc_resolved x"
  shows "\<exists>y. row_of rc_order_id oid (recovery d') = Some y \<and> rc_resolved y \<and> \<not> pg_needsReconcile oid d'"
proof -
  have "resolved_in oid d'"
    using assms(1) by (induction rule: rtranclp_induct)
      (use assms(2,3) in \<open>auto simp: resolved_in_def [of oid d] intro: ledger_step_resolved\<close>)
  then show ?thesis by (auto simp: resolved_in_def pg_needsReconcile_def)
qed

theorem resolution_is_final_witness:
  "\<exists>x e d'. rc_resolved x \<and>
     pg_addSubmittedUnknown e 5 ''o1'' None None (empty_db\<lparr>recovery := [x]\<rparr>) = (Inr (), d') \<and>
     \<not> pg_needsReconcile ''o1'' d'"
proof -
  define x where "x = (submitting_row None 0 ''o1'' None None)\<lparr>rc_resolved := True\<rparr>"
  define e where "e = \<lparr>lg_fault = NoFault, lg_order_known = (\<lambda>_ :: uuid. True)\<rparr>"
  let ?d = "empty_db\<lparr>recovery := [x]\<rparr>"
  have x: "rc_order_id x = ''o1''" "rc_resolved x" by (simp_all add: x_def submitting_row_def)
  obtain d' where run: "pg_addSubmittedUnknown e 5 ''o1'' None None ?d = (Inr (), d')"
    by (simp add: pg_addSubmittedUnknown_def pg_stmt_def upsert_submitting_def permit_known_def e_def
        x empty_db_def)
  have "\<not> pg_needsReconcile ''o1'' d'"
    using resolution_is_final [of ?d d' "''o1''" x] ledger_step.add [OF run] x by auto
  with x run show ?thesis by blast
qed

text \<open>The idempotency log survives a restart: once \<open>flush\<close> has returned, a process that starts
  over from the table answers every order the old one knew, and with the same state unless the
  recovery ledger overrides it.\<close>

theorem seen_survives_restart:
  assumes "pending_ok s" and "seen_flush faults s = (Inr (), s')" and "seen_get k s = Some st"
  shows "seen_get k (hydrate [] (seen_boot (table s'))) = Some st \<and>
    seen_has k (hydrate unresolved (seen_boot (table s')))"
proof -
  have "distinct (map fst (pending s))" using assms(1) by (simp add: pending_ok_def keys_ok_def)
  note flush_each_ok [OF assms(2) [unfolded seen_flush_def] this, of k]
  moreover have "case map_of (pending s) k of Some st' \<Rightarrow> st' = st | None \<Rightarrow> table s k = Some st"
    using assms(1,3) unfolding pending_ok_def seen_get_def by blast
  ultimately have "table s' k = Some st" by (auto split: option.splits)
  then have "seen_get k (hydrate [] (seen_boot (table s'))) = Some st"
    by (simp add: seen_get_def hydrate_def seen_boot_def)
  moreover have "seen_has k (hydrate unresolved (seen_boot (table s')))"
    using \<open>table s' k = Some st\<close> by (intro hydrate_has) (simp add: seen_boot_def)
  ultimately show ?thesis ..
qed

theorem seen_survives_restart_witness:
  "\<exists>s'. seen_flush (\<lambda>_. NoFault) (seen_set ''o1'' SUBMITTING (hydrate [] (seen_boot (\<lambda>_. None)))) = (Inr (), s') \<and>
     seen_get ''o1'' (hydrate [] (seen_boot (table s'))) = Some SUBMITTING"
proof -
  define s where "s = seen_set ''o1'' SUBMITTING (hydrate [] (seen_boot (\<lambda>_. None)))"
  have ok: "pending_ok s" unfolding s_def by (intro pending_ok_set pending_ok_boot)
  obtain s' where run: "seen_flush (\<lambda>_. NoFault) s = (Inr (), s')"
    by (simp add: seen_flush_def s_def seen_set_def hydrate_def seen_boot_def put_row_def seen_write_def
        pg_stmt_def)
  have "seen_get ''o1'' s = Some SUBMITTING" by (simp add: s_def seen_set_def seen_get_def)
  from seen_survives_restart [OF ok run this] run show ?thesis unfolding s_def by blast
qed

text \<open>\<open>PgRecoveryLedger.recordCancelRequested\<close> on an order that still needs reconciliation
  always throws and changes nothing, because the table's CHECK does not admit CANCEL_UNKNOWN: a
  cancel routed through this ledger stops before the venue is asked.\<close>

theorem pg_cancel_request_always_throws:
  assumes "pg_needsReconcile oid d"
  shows "\<exists>err. pg_recordCancelRequested e now oid d = (Inl err, d)"
proof -
  obtain x where x: "row_of rc_order_id oid (recovery d) = Some x" "\<not> rc_resolved x"
    using assms by (auto simp: pg_needsReconcile_def split: option.splits)
  let ?f = "\<lambda>x :: recovery_row. if \<not> rc_resolved x
      then x\<lparr>rc_state := CANCEL_UNKNOWN, rc_updated_at := now\<rparr> else x"
  have "?f x \<in> set (upd_row rc_order_id oid ?f (recovery d))"
    using row_of_Some [OF x(1)] by (force simp: upd_row_def)
  moreover have "\<not> state_check (?f x)" using x(2) by (simp add: state_check_def)
  ultimately have "upd_recovery oid ?f d = Inl check_violation"
    by (auto simp: upd_recovery_def Let_def list_all_iff)
  then show ?thesis
    by (cases "lg_fault e") (simp_all add: pg_recordCancelRequested_def pg_stmt_def)
qed

theorem pg_cancel_request_always_throws_witness:
  "\<exists>err. pg_recordCancelRequested \<lparr>lg_fault = NoFault, lg_order_known = (\<lambda>_. True)\<rparr> 7 ''o1''
     (empty_db\<lparr>recovery := [submitting_row None 0 ''o1'' None None]\<rparr>)
   = (Inl err, empty_db\<lparr>recovery := [submitting_row None 0 ''o1'' None None]\<rparr>)"
  by (rule pg_cancel_request_always_throws) (simp add: pg_needsReconcile_def submitting_row_def)

section \<open>Where the two ledgers differ\<close>

text \<open>A stale LIVE report on a resolved order: PostgreSQL leaves the row, memory resolves it again.\<close>

lemma stale_live_pg:
  assumes "resting result" and "\<And>x. x \<in> set (recovery d) \<Longrightarrow> rc_resolved x \<and> state_check x"
  shows "snd (pg_resolve e now oid True result d) = d"
proof -
  have same: "upd_row rc_order_id oid (\<lambda>x :: recovery_row. if \<not> rc_resolved x
      then x\<lparr>rc_state := ACKNOWLEDGED, rc_acknowledged_at := Some now, rc_updated_at := now\<rparr> else x)
      (recovery d) = recovery d"
    using assms(2) by (auto simp: upd_row_def intro!: map_idI)
  have "list_all state_check (recovery d)" using assms(2) by (simp add: list_all_iff)
  then have "upd_recovery oid (\<lambda>x :: recovery_row. if \<not> rc_resolved x
      then x\<lparr>rc_state := ACKNOWLEDGED, rc_acknowledged_at := Some now, rc_updated_at := now\<rparr> else x) d
      = Inr ((), d)"
    by (simp add: upd_recovery_def same)
  with assms(1) show ?thesis by (cases "lg_fault e") (simp_all add: pg_resolve_def pg_stmt_def)
qed

lemma stale_live_mem:
  assumes "resting (Some res)" and "res_submit_status res = Some Submit_ACKNOWLEDGED" and "rc_resolved x"
    and "rc_order_id x = oid"
  shows "map rc_state (mem_resolve now oid True (Some res) [x]) = [ACKNOWLEDGED]"
  using assms by (auto simp: mem_resolve_def Let_def resolved_state_of_def resting_def)

end
