(* ===== verification/PermitStore.thy ===== *)
theory PermitStore
  imports RecoveryLedger MoneySystem
begin

text \<open>
  \<open>src/pm/venue/src/permit-store.ts\<close> and the claim of \<open>recovery-ledger.ts\<close>: permits and their atomic
  single-use claim, in memory (\<open>MemPermitStore\<close>) and in PostgreSQL (\<open>PgPermitStore\<close> and
  \<open>PgRecoveryLedger.claimPermitAndRecordSubmission\<close> on \<open>execution_permits\<close>). The locale
  \<open>permit_store\<close> is the contract of the claim; \<open>mem_permits\<close>, \<open>pg_permits\<close> and \<open>pg_ledger_permits\<close>
  discharge it.
\<close>

section \<open>MemPermitStore\<close>

record mem_permit =
  mp_permit :: execution_permit
  mp_claimed :: bool
  mp_order :: "uuid option"

type_synonym mem_permits = "uuid \<Rightarrow> mem_permit option"

text \<open>\<open>save\<close> overwrites the permit, keeps whether it was claimed and forgets for which order.\<close>

definition mem_save :: "execution_permit \<Rightarrow> mem_permits \<Rightarrow> mem_permits" where
  "mem_save p s = s(permit_id p \<mapsto> \<lparr>mp_permit = p,
     mp_claimed = (case s (permit_id p) of Some m \<Rightarrow> mp_claimed m | None \<Rightarrow> False), mp_order = None\<rparr>)"

definition mem_claim :: "ms \<Rightarrow> uuid \<Rightarrow> uuid \<Rightarrow> mem_permits \<Rightarrow> bool \<times> mem_permits" where
  "mem_claim now pid oid s =
     (case s pid of None \<Rightarrow> (False, s)
      | Some m \<Rightarrow>
          if mp_claimed m then (False, s)
          else if expires_at (mp_permit m) < now then (False, s)
          else (True, s(pid \<mapsto> m\<lparr>mp_claimed := True, mp_order := Some oid\<rparr>)))"

definition mem_claimAndRecord :: "ms \<Rightarrow> uuid \<Rightarrow> uuid \<Rightarrow> mem_permits \<Rightarrow> uuid outcome \<times> mem_permits" where
  "mem_claimAndRecord now pid oid s =
     (case s pid of None \<Rightarrow> (Refused ''PERMIT_NOT_FOUND'', s)
      | Some m \<Rightarrow>
          if mp_claimed m then (Refused ''PERMIT_USED'', s)
          else if expires_at (mp_permit m) < now then (Refused ''PERMIT_EXPIRED'', s)
          else (Ok pid, s(pid \<mapsto> m\<lparr>mp_claimed := True, mp_order := Some oid\<rparr>)))"

definition mem_isClaimed :: "uuid \<Rightarrow> mem_permits \<Rightarrow> bool" where
  "mem_isClaimed pid s = (case s pid of None \<Rightarrow> False | Some m \<Rightarrow> mp_claimed m)"

definition mem_get :: "uuid \<Rightarrow> mem_permits \<Rightarrow> execution_permit option" where
  "mem_get pid s = map_option mp_permit (s pid)"

definition mem_validatePermit :: "uuid \<Rightarrow> jsnum \<Rightarrow> mem_permits \<Rightarrow> bool" where
  "mem_validatePermit pid expected s =
     (case s pid of None \<Rightarrow> False | Some m \<Rightarrow> num_eq (p_lease_epoch (mp_permit m)) expected)"

section \<open>PgPermitStore\<close>

text \<open>\<open>save\<close>: \<open>INSERT ... ON CONFLICT DO NOTHING\<close>, the parameters as the columns take them.\<close>

fun numeric_column :: "jsnum \<Rightarrow> pg_error + rat" where
  "numeric_column (Fin q) = (let m = of_int \<lfloor>q * 10 ^ 8 + 1 / 2\<rfloor> / 10 ^ 8
     in if 10 ^ 10 \<le> \<bar>m\<bar> then Inl numeric_overflow else if m < 0 then Inl check_violation else Inr m)"
| "numeric_column _ = Inl numeric_overflow"

definition permit_row_of :: "execution_permit \<Rightarrow> pg_error + permit_row" where
  "permit_row_of p =
     (case bigint_column (p_lease_epoch p) of Inl e \<Rightarrow> Inl e | Inr epoch \<Rightarrow>
      (case numeric_column (max_qty p) of Inl e \<Rightarrow> Inl e | Inr qty \<Rightarrow>
      (case numeric_column (max_cash p) of Inl e \<Rightarrow> Inl e | Inr cash \<Rightarrow>
        Inr \<lparr>pr_permit_id = permit_id p, pr_decision_id = p_decision_id p, pr_intent_id = p_intent_id p,
             pr_ledger_version = p_ledger_version p, pr_policy_version = p_policy_version p,
             pr_policy_hash = p_policy_hash p, pr_quote_id = p_quote_id p, pr_lease_epoch = epoch,
             pr_reservation_ids = p_reservation_ids p, pr_max_qty = qty, pr_max_cash = cash,
             pr_allowed_order_style = allowed_order_style p, pr_venue_mode = venue_name (p_venue_mode p),
             pr_expires_at = expires_at p, pr_single_use = single_use p, pr_used_at = used_at p,
             pr_claimed_order_id = None, pr_payload_hash = None\<rparr>)))"

definition pg_save :: "fault \<Rightarrow> execution_permit \<Rightarrow> (db, unit) eff" where
  "pg_save fault p = pg_stmt fault
     (\<lambda>d. case permit_row_of p of Inl e \<Rightarrow> Inl e
        | Inr row \<Rightarrow>
            if row_of pr_permit_id (permit_id p) (permits d) \<noteq> None then Inr ((), d)
            else if row_of d_id (p_decision_id p) (decisions d) = None \<or>
                row_of it_id (p_intent_id p) (intents d) = None then Inl fk_violation
            else Inr ((), d\<lparr>permits := permits d @ [row]\<rparr>))"

text \<open>The claim: \<open>UPDATE ... WHERE used_at IS NULL AND expires_at > now()\<close>, then the recovery upsert.\<close>

definition claimable :: "ms \<Rightarrow> uuid \<Rightarrow> db \<Rightarrow> bool" where
  "claimable now pid d = (case row_of pr_permit_id pid (permits d) of
     None \<Rightarrow> False | Some p \<Rightarrow> pr_used_at p = None \<and> now < pr_expires_at p)"

definition claim_body ::
  "string \<Rightarrow> (uuid \<Rightarrow> bool) \<Rightarrow> ms \<Rightarrow> uuid \<Rightarrow> uuid \<Rightarrow> string option \<Rightarrow> string option \<Rightarrow> db \<Rightarrow>
     pg_error + (uuid outcome \<times> db)" where
  "claim_body refusal order_known now pid oid venue_order payload_hash d =
     (if \<not> claimable now pid d then Inr (Refused refusal, d)
      else let d1 = d\<lparr>permits := upd_row pr_permit_id pid
             (\<lambda>p :: permit_row. p\<lparr>pr_used_at := Some now, pr_claimed_order_id := Some oid,
                pr_payload_hash := (case payload_hash of None \<Rightarrow> pr_payload_hash p | Some h \<Rightarrow> Some h)\<rparr>)
             (permits d)\<rparr>
           in case upsert_submitting order_known now oid venue_order (Some pid) d1 of
                Inl e \<Rightarrow> Inl e | Inr d2 \<Rightarrow> Inr (Ok pid, d2))"

definition claim_failed :: "pg_error \<Rightarrow> uuid outcome" where
  "claim_failed e = Refused ''ATOMIC_CLAIM_FAILED''"

definition pg_claimAndRecord ::
  "ledger_env \<Rightarrow> ms \<Rightarrow> uuid \<Rightarrow> uuid \<Rightarrow> string option \<Rightarrow> string option \<Rightarrow> db \<Rightarrow> uuid outcome \<times> db" where
  "pg_claimAndRecord e now pid oid venue_order payload_hash = with_txn (lg_fault e) claim_failed
     (claim_body ''PERMIT_USED'' (lg_order_known e) now pid oid venue_order payload_hash)"

definition pg_claim :: "ledger_env \<Rightarrow> ms \<Rightarrow> uuid \<Rightarrow> uuid \<Rightarrow> db \<Rightarrow> bool \<times> db" where
  "pg_claim e now pid oid d = (case pg_claimAndRecord e now pid oid None None d of (x, d') \<Rightarrow> (is_ok x, d'))"

text \<open>The same claim on the recovery ledger's own class, with its refusal code and no payload hash.\<close>

definition pg_ledger_claimAndRecord ::
  "ledger_env \<Rightarrow> ms \<Rightarrow> uuid \<Rightarrow> uuid \<Rightarrow> string option \<Rightarrow> db \<Rightarrow> uuid outcome \<times> db" where
  "pg_ledger_claimAndRecord e now pid oid venue_order = with_txn (lg_fault e) claim_failed
     (claim_body ''PERMIT_INVALID'' (lg_order_known e) now pid oid venue_order None)"

definition pg_isClaimed :: "uuid \<Rightarrow> db \<Rightarrow> bool" where
  "pg_isClaimed pid d = (case row_of pr_permit_id pid (permits d) of
     None \<Rightarrow> False | Some p \<Rightarrow> pr_used_at p \<noteq> None)"

text \<open>
  \<open>rows[0].lease_epoch === expectedLeaseEpoch\<close>: what the driver delivers for a \<open>BIGINT\<close> column is
  its documented choice, the parameter \<open>read_int8\<close>.
\<close>

datatype js_value = JsNumber jsnum | JsString string

fun strict_eq :: "js_value \<Rightarrow> jsnum \<Rightarrow> bool" where
  "strict_eq (JsNumber x) y = num_eq x y"
| "strict_eq (JsString s) y = False"

definition pg_validatePermit :: "(int \<Rightarrow> js_value) \<Rightarrow> uuid \<Rightarrow> jsnum \<Rightarrow> db \<Rightarrow> bool" where
  "pg_validatePermit read_int8 pid expected d =
     (case row_of pr_permit_id pid (permits d) of None \<Rightarrow> False
      | Some p \<Rightarrow> strict_eq (read_int8 (pr_lease_epoch p)) expected)"

section \<open>The contract of the claim\<close>

text \<open>A sequence of claims, each with its environment, permit and order: the results in order.\<close>

fun claims ::
  "('e \<Rightarrow> uuid \<Rightarrow> uuid \<Rightarrow> 's \<Rightarrow> uuid outcome \<times> 's) \<Rightarrow> ('e \<times> uuid \<times> uuid) list \<Rightarrow> 's \<Rightarrow>
     (uuid \<times> bool) list \<times> 's" where
  "claims claim [] s = ([], s)"
| "claims claim ((e, pid, oid) # cs) s =
     (case claim e pid oid s of (x, s1) \<Rightarrow>
      (case claims claim cs s1 of (xs, s2) \<Rightarrow> ((pid, is_ok x) # xs, s2)))"

definition wins :: "uuid \<Rightarrow> (uuid \<times> bool) list \<Rightarrow> nat" where
  "wins pid xs = length (filter (\<lambda>x. x = (pid, True)) xs)"

locale permit_store =
  fixes claim :: "'e \<Rightarrow> uuid \<Rightarrow> uuid \<Rightarrow> 's \<Rightarrow> uuid outcome \<times> 's"
    and claimed :: "uuid \<Rightarrow> 's \<Rightarrow> bool"
  assumes marks: "claim e pid oid s = (Ok x, s') \<Longrightarrow> \<not> claimed pid s \<and> claimed pid s'"
    and stays: "claim e pid oid s = (y, s') \<Longrightarrow> claimed q s \<Longrightarrow> claimed q s'"
begin

lemma claimed_never_wins:
  "claimed pid s \<Longrightarrow> claims claim cs s = (xs, s') \<Longrightarrow> wins pid xs = 0 \<and> claimed pid s'"
proof (induction cs arbitrary: s xs)
  case Nil
  then show ?case by (simp add: wins_def)
next
  case (Cons c cs)
  obtain e k oid where c: "c = (e, k, oid)" by (cases c)
  obtain x s1 ys where 1: "claim e k oid s = (x, s1)" and 2: "claims claim cs s1 = (ys, s')"
    and xs: "xs = (k, is_ok x) # ys"
    using Cons.prems(2) by (auto simp: c split: prod.splits)
  have "\<not> (k = pid \<and> is_ok x)" using 1 Cons.prems(1) by (cases x) (auto dest: marks)
  with Cons.IH [OF stays [OF 1 Cons.prems(1)] 2] show ?case by (auto simp: xs wins_def)
qed

lemma single_use: "claims claim cs s = (xs, s') \<Longrightarrow> wins pid xs \<le> 1"
proof (induction cs arbitrary: s xs)
  case Nil
  then show ?case by (simp add: wins_def)
next
  case (Cons c cs)
  obtain e k oid where c: "c = (e, k, oid)" by (cases c)
  obtain x s1 ys where 1: "claim e k oid s = (x, s1)" and 2: "claims claim cs s1 = (ys, s')"
    and xs: "xs = (k, is_ok x) # ys"
    using Cons.prems by (auto simp: c split: prod.splits)
  show ?case
  proof (cases "k = pid \<and> is_ok x")
    case True
    then obtain u where "x = Ok u" by (cases x) auto
    with 1 True have "claimed pid s1" by (auto dest: marks)
    with 2 have "wins pid ys = 0" by (auto dest: claimed_never_wins)
    with True show ?thesis by (simp add: xs wins_def)
  next
    case False
    with Cons.IH [OF 2] show ?thesis by (auto simp: xs wins_def)
  qed
qed

end

interpretation mem_permits: permit_store mem_claimAndRecord mem_isClaimed
  by unfold_locales
    (auto simp: mem_claimAndRecord_def mem_isClaimed_def split: option.splits if_splits)

lemma upsert_submitting_permits:
  "upsert_submitting known now oid v p d = Inr d' \<Longrightarrow> permits d' = permits d"
  by (auto simp: upsert_submitting_def split: if_splits option.splits)

lemma claim_body_effect:
  assumes "claim_body code known now pid oid v h d = Inr (x, d')"
  obtains (refused) "d' = d" and "x = Refused code"
  | (claimed) "claimable now pid d" and "x = Ok pid" and "pg_isClaimed pid d'"
      and "\<And>q. pg_isClaimed q d \<Longrightarrow> pg_isClaimed q d'"
proof (cases "claimable now pid d")
  case False
  with assms show thesis by (intro refused) (auto simp: claim_body_def)
next
  case True
  with assms have "x = Ok pid" and "\<exists>h'. permits d' = upd_row pr_permit_id pid
      (\<lambda>p :: permit_row. p\<lparr>pr_used_at := Some now, pr_claimed_order_id := Some oid,
         pr_payload_hash := h' p\<rparr>) (permits d)"
    by (auto simp: claim_body_def Let_def dest!: upsert_submitting_permits split: sum.splits)
  with True show thesis
    by (intro claimed) (auto simp: pg_isClaimed_def claimable_def row_of_upd_row split: option.splits)
qed

lemma claimable_not_claimed: "claimable now pid d \<Longrightarrow> \<not> pg_isClaimed pid d"
  by (auto simp: claimable_def pg_isClaimed_def split: option.splits)

lemma claim_txn_laws:
  assumes "with_txn fault claim_failed (claim_body code known now pid oid v h) d = (x, d')"
  shows "x = Ok y \<Longrightarrow> \<not> pg_isClaimed pid d \<and> pg_isClaimed pid d'"
    and "pg_isClaimed q d \<Longrightarrow> pg_isClaimed q d'"
  using assms
  by (auto elim!: with_txn_value claim_body_effect dest: claimable_not_claimed simp: claim_failed_def)

interpretation pg_permits: permit_store
  "\<lambda>(e, now, v, h) pid oid. pg_claimAndRecord e now pid oid v h" pg_isClaimed
  by unfold_locales (auto simp: pg_claimAndRecord_def dest: claim_txn_laws)

interpretation pg_ledger_permits: permit_store
  "\<lambda>(e, now, v) pid oid. pg_ledger_claimAndRecord e now pid oid v" pg_isClaimed
  by unfold_locales (auto simp: pg_ledger_claimAndRecord_def dest: claim_txn_laws)

section \<open>Properties\<close>

text \<open>C18. A permit is used at most once: whatever sequence of claims \<open>PgPermitStore\<close>, the claim of \<open>PgRecoveryLedger\<close> or
  \<open>MemPermitStore\<close> receives, from any executors, for any orders, at any times and, in PostgreSQL, under any
  connection faults, at most one claim of a permit succeeds.\<close>

theorem permit_claimed_at_most_once:
  "wins pid (fst (claims (\<lambda>(e, now, v, h) pid oid. pg_claimAndRecord e now pid oid v h) cs d)) \<le> 1 \<and>
   wins pid (fst (claims (\<lambda>(e, now, v) pid oid. pg_ledger_claimAndRecord e now pid oid v) ls d)) \<le> 1 \<and>
   wins pid (fst (claims mem_claimAndRecord ms s)) \<le> 1"
  by (intro conjI pg_permits.single_use pg_ledger_permits.single_use mem_permits.single_use) (rule prod.collapse [symmetric])+

text \<open>A successful claim binds the permit and the order in one transaction: the permit was unused
  and unexpired, it is now used by exactly this order with the given payload hash, and the recovery
  ledger has the order as SUBMITTING under this permit; a claim that does not succeed and does not
  lose its commit leaves both tables as they were.\<close>

theorem claim_binds_order:
  assumes "pg_claimAndRecord e now pid oid v (Some h) d = (x, d')"
  shows "(x = Ok pid \<longrightarrow> claimable now pid d \<and>
      (\<exists>p. row_of pr_permit_id pid (permits d') = Some p \<and> pr_used_at p = Some now \<and>
         pr_claimed_order_id p = Some oid \<and> pr_payload_hash p = Some h) \<and>
      (\<exists>r. row_of rc_order_id oid (recovery d') = Some r \<and> rc_state r = SUBMITTING \<and>
         rc_permit_id r = Some pid)) \<and>
    (\<not> is_ok x \<longrightarrow> d' = d \<or> (\<exists>err. lg_fault e = CommitLost err))"
proof -
  have bound: "claimable now pid d \<and>
      (\<exists>p. row_of pr_permit_id pid (permits d') = Some p \<and> pr_used_at p = Some now \<and>
         pr_claimed_order_id p = Some oid \<and> pr_payload_hash p = Some h) \<and>
      (\<exists>r. row_of rc_order_id oid (recovery d') = Some r \<and> rc_state r = SUBMITTING \<and>
         rc_permit_id r = Some pid)"
    if "claim_body ''PERMIT_USED'' (lg_order_known e) now pid oid v (Some h) d = Inr (Ok pid, d')"
    using that
    by (auto simp: claim_body_def claimable_def Let_def upsert_submitting_def row_of_upd_row
        row_of_append submitting_row_def split: if_splits sum.splits option.splits)
  show ?thesis
    using assms bound unfolding pg_claimAndRecord_def
    by (cases "lg_fault e")
      (auto simp: claim_failed_def elim!: claim_body_effect split: sum.splits prod.splits)
qed

theorem claim_binds_order_witness:
  "\<exists>e d'. pg_claimAndRecord e 2000 ''p1'' ''o1'' None (Some ''hash'') (reserved_db 1000 ''r1'' ''p1'')
      = (Ok ''p1'', d') \<and>
    (\<exists>r. row_of rc_order_id ''o1'' (recovery d') = Some r \<and> rc_state r = SUBMITTING)"
proof -
  define e where "e = \<lparr>lg_fault = NoFault, lg_order_known = (\<lambda>_ :: uuid. True)\<rparr>"
  have p: "row_of pr_permit_id ''p1'' (permits (reserved_db 1000 ''r1'' ''p1''))
      = Some (permit_of sample_args (decision_of sample_args ''r1'') ''r1'' ''p1'')"
    "pr_used_at (permit_of sample_args (decision_of sample_args ''r1'') ''r1'' ''p1'') = None"
    "pr_expires_at (permit_of sample_args (decision_of sample_args ''r1'') ''r1'' ''p1'') = 61000"
    by (simp_all add: reserved_db_def permit_of_def sample_args_def Let_def)
  have "recovery (reserved_db 1000 ''r1'' ''p1'') = []" by (simp add: reserved_db_def empty_db_def)
  then obtain d' where run: "pg_claimAndRecord e 2000 ''p1'' ''o1'' None (Some ''hash'')
      (reserved_db 1000 ''r1'' ''p1'') = (Ok ''p1'', d')"
    by (auto simp: pg_claimAndRecord_def claim_body_def claimable_def p e_def upsert_submitting_def
        permit_known_def row_of_upd_row)
  from claim_binds_order [OF run] run show ?thesis by blast
qed

lemma pg_refuses:
  assumes "\<And>n. \<exists>s. read_int8 n = JsString s"
  shows "\<not> pg_validatePermit read_int8 pid expected d"
proof -
  have "\<not> strict_eq (read_int8 n) expected" for n using assms [of n] by auto
  then show ?thesis by (simp add: pg_validatePermit_def split: option.splits)
qed

text \<open>With a driver that delivers BIGINT columns as strings, \<open>PgPermitStore.validatePermit\<close>
  refuses every permit: the strict comparison of the lease epoch is between a string and a
  number.\<close>

lemma pg_validatePermit_refuses_all:
  "(\<And>n. \<exists>s. read_int8 n = JsString s) \<Longrightarrow> \<not> pg_validatePermit read_int8 pid expected d"
  by (rule pg_refuses)

end
