(* ===== verification/Executor.thy ===== *)
theory Executor
  imports PermitStore VenuePolicy DecimalBase
begin

text \<open>
  \<open>src/pm/executor/src/index.ts\<close>: the executor. \<open>deps\<close> is the record of operations it is given
  (\<open>ExecutorDeps\<close>), over a state \<open>'w\<close> that holds every store and the venue; an operation may throw.
  \<open>submit\<close>, \<open>cancel\<close> and \<open>reconcile\<close> follow the source statement by statement; a part of
  \<open>submitInner\<close> that the source sets off with a comment is a definition of its own.

  The locale \<open>executor_ops\<close> is what the executor needs of its operations for its safety property: only
  the venue places orders, only the claim uses permits, and a permit once claimed stays claimed. It is
  interpreted on the modelled stores in \<open>ExecutorWiring\<close>.
\<close>

section \<open>Dependencies and results\<close>

datatype submit_outcome = Sub_Ok order_result | Sub_Fail string string

record 'w deps =
  d_mode :: venue_mode
  d_now :: ms
  d_sha256 :: "string \<Rightarrow> string"
  d_leaseEpoch :: jsnum
  d_acquire :: "('w, bool) eff"
  d_releaseLease :: "('w, bool) eff"
  d_seen_get :: "uuid \<Rightarrow> 'w \<Rightarrow> lifecycle option"
  d_seen_add :: "uuid \<Rightarrow> lifecycle \<Rightarrow> 'w \<Rightarrow> 'w"
  d_isClaimed :: "uuid \<Rightarrow> ('w, bool) eff"
  d_save :: "execution_permit \<Rightarrow> ('w, unit) eff"
  d_validatePermit :: "uuid \<Rightarrow> jsnum \<Rightarrow> ('w, bool) eff"
  d_claim :: "uuid \<Rightarrow> uuid \<Rightarrow> string \<Rightarrow> ('w, uuid outcome) eff"
  d_getPermit :: "uuid \<Rightarrow> ('w, uuid list option) eff"
  d_addSubmittedUnknown :: "uuid \<Rightarrow> uuid \<Rightarrow> ('w, unit) eff"
  d_updateState :: "uuid \<Rightarrow> lifecycle \<Rightarrow> string option \<Rightarrow> ('w, unit) eff"
  d_resolve :: "uuid \<Rightarrow> order_result \<Rightarrow> ('w, unit) eff"
  d_recordCancel :: "uuid \<Rightarrow> ('w, unit) eff"
  d_needsReconcile :: "uuid \<Rightarrow> ('w, bool) eff"
  d_ledgerPermit :: "uuid \<Rightarrow> ('w, uuid option) eff"
  d_consumeFill :: "uuid \<Rightarrow> string \<Rightarrow> string \<Rightarrow> ('w, string) eff"
  d_hasReservations :: bool
  d_rmRelease :: "uuid \<Rightarrow> release_reason \<Rightarrow> ('w, unit outcome) eff"
  d_rmConsume :: "uuid \<Rightarrow> int \<Rightarrow> ('w, unit outcome) eff"
  d_placeOrder :: "signed_order \<Rightarrow> ('w, submit_outcome) eff"
  d_cancelOrder :: "uuid \<Rightarrow> ('w, submit_outcome) eff"
  d_getOrderStatus :: "uuid \<Rightarrow> ('w, order_result option) eff"

datatype try_submit = Submitted order_result lifecycle | Duplicate string | Permit_Invalid string
  | Mode_Forbids string | Needs_Reconciliation signed_order execution_permit

section \<open>The lifecycle\<close>

text \<open>A reason that proves the connection never opened, and never also names a timeout or a reset.\<close>

definition provedNothingSent :: "string option \<Rightarrow> bool" where
  "provedNothingSent reason =
     (case reason of None \<Rightarrow> False
      | Some r \<Rightarrow>
          if r = [] then False
          else if mentions [''ETIMEDOUT'', ''ECONNRESET'', ''timeout''] r then False
          else mentions [''ENOTFOUND'', ''ECONNREFUSED''] r)"

fun orderLifecycleNext :: "lifecycle \<Rightarrow> submit_status \<Rightarrow> lifecycle \<times> string" where
  "orderLifecycleNext current Submit_ACKNOWLEDGED = (ACKNOWLEDGED, ''ACK'')"
| "orderLifecycleNext current Submit_SUBMITTING = (SUBMITTING, ''IN_FLIGHT'')"
| "orderLifecycleNext current Submit_SUBMISSION_UNKNOWN = (SUBMISSION_UNKNOWN, ''UNKNOWN'')"
| "orderLifecycleNext current Submit_DEFINITIVE_REJECT = (DEFINITIVE_REJECT, ''REJECTED'')"

section \<open>What the order must satisfy\<close>

definition permitCoversOrder :: "signed_order \<Rightarrow> execution_permit \<Rightarrow> js_error + bool" where
  "permitCoversOrder order permit =
     (case toBase6 (o_size order) of Inl e \<Rightarrow> Inl e | Inr sizeBase \<Rightarrow>
      (case toBase6 (max_qty permit) of Inl e \<Rightarrow> Inl e | Inr maxQty \<Rightarrow>
        if maxQty < sizeBase then Inr False
        else (case toBase6 (o_price order) of Inl e \<Rightarrow> Inl e | Inr priceBase \<Rightarrow>
             (case toBase6 (max_cash permit) of Inl e \<Rightarrow> Inl e | Inr maxCash \<Rightarrow>
               Inr (\<not> maxCash < cashNeededFor sizeBase priceBase)))))"

definition price_bound :: "(int \<Rightarrow> int \<Rightarrow> bool) \<Rightarrow> string \<Rightarrow> int option \<Rightarrow> signed_order \<Rightarrow> js_error + string option" where
  "price_bound breaks code bound order =
     (case bound of None \<Rightarrow> Inr None
      | Some b \<Rightarrow> (case toBase6 (o_price order) of Inl e \<Rightarrow> Inl e
          | Inr priceBase \<Rightarrow> Inr (if breaks priceBase b then Some code else None)))"

text \<open>Steps 3b to 4b: the refusal code, if any; \<open>Inl\<close> when a conversion throws.\<close>

definition order_refusal :: "signed_order \<Rightarrow> execution_permit \<Rightarrow> js_error + string option" where
  "order_refusal order permit =
     (if p_side permit \<noteq> None \<and> p_side permit \<noteq> Some (o_side order) then Inr (Some ''SIDE_MISMATCH'')
      else if truthy (p_market_id permit) \<and> p_market_id permit \<noteq> Some (o_market_id order)
        then Inr (Some ''MARKET_MISMATCH'')
      else if (case o_order_type order of None \<Rightarrow> False
               | Some ty \<Rightarrow> allowed_order_style permit \<noteq> [] \<and>
                   \<not> List.member (allowed_order_style permit) (style_name ty))
        then Inr (Some ''STYLE_NOT_ALLOWED'')
      else case permitCoversOrder order permit of
        Inl e \<Rightarrow> Inl e
      | Inr False \<Rightarrow> Inr (Some ''AMOUNT_EXCEEDS_PERMIT'')
      | Inr True \<Rightarrow>
          (case price_bound (<) ''PRICE_BELOW_MIN'' (price_min_base permit) order of
             Inl e \<Rightarrow> Inl e
           | Inr (Some c) \<Rightarrow> Inr (Some c)
           | Inr None \<Rightarrow> price_bound (\<lambda>p b. b < p) ''PRICE_ABOVE_MAX'' (price_max_base permit) order))"

fun js_error_name :: "js_error \<Rightarrow> string" where
  "js_error_name RangeError = ''RangeError''"
| "js_error_name SyntaxError = ''SyntaxError''"
| "js_error_name PrecisionLoss = ''REJECT_PRECISION_LOSS''"

definition lift_js :: "js_error + 'a \<Rightarrow> ('w, 'a) eff" where
  "lift_js r = (case r of Inl e \<Rightarrow> throw_eff (js_error_name e) | Inr x \<Rightarrow> return_eff x)"

lemma order_refusal_none:
  assumes "order_refusal ord permit = Inr None"
  shows "p_side permit \<in> {None, Some (o_side ord)}"
    and "truthy (p_market_id permit) \<Longrightarrow> p_market_id permit = Some (o_market_id ord)"
    and "o_order_type ord = Some ty \<Longrightarrow> allowed_order_style permit \<noteq> [] \<Longrightarrow>
      style_name ty \<in> set (allowed_order_style permit)"
    and "\<exists>shares qty price cash. toBase6 (o_size ord) = Inr shares \<and> toBase6 (max_qty permit) = Inr qty \<and>
      toBase6 (o_price ord) = Inr price \<and> toBase6 (max_cash permit) = Inr cash \<and>
      shares \<le> qty \<and> cashNeededFor shares price \<le> cash \<and>
      price_min_base permit \<in> {None} \<union> Some ` {..price} \<and> price_max_base permit \<in> {None} \<union> Some ` {price..}"
proof -
  note d = assms [unfolded order_refusal_def]
  show "p_side permit \<in> {None, Some (o_side ord)}" using d by (auto split: if_splits)
  show "truthy (p_market_id permit) \<Longrightarrow> p_market_id permit = Some (o_market_id ord)"
    using d by (auto split: if_splits)
  show "o_order_type ord = Some ty \<Longrightarrow> allowed_order_style permit \<noteq> [] \<Longrightarrow>
      style_name ty \<in> set (allowed_order_style permit)"
    using d by (auto split: if_splits)
  have cov: "permitCoversOrder ord permit = Inr True"
    using d by (auto split: if_splits sum.splits bool.splits)
  then obtain shares qty price cash where num: "toBase6 (o_size ord) = Inr shares"
    "toBase6 (max_qty permit) = Inr qty" "toBase6 (o_price ord) = Inr price"
    "toBase6 (max_cash permit) = Inr cash" "shares \<le> qty" "cashNeededFor shares price \<le> cash"
    by (auto simp: permitCoversOrder_def split: sum.splits if_splits)
  have "price_bound (<) ''PRICE_BELOW_MIN'' (price_min_base permit) ord = Inr None"
    "price_bound (\<lambda>p b. b < p) ''PRICE_ABOVE_MAX'' (price_max_base permit) ord = Inr None"
    using d by (auto simp: cov split: if_splits sum.splits option.splits)
  then have "price_min_base permit \<in> {None} \<union> Some ` {..price}" "price_max_base permit \<in> {None} \<union> Some ` {price..}"
    using num(3) by (auto simp: price_bound_def split: option.splits if_splits)
  with num show "\<exists>shares qty price cash. toBase6 (o_size ord) = Inr shares \<and> toBase6 (max_qty permit) = Inr qty \<and>
      toBase6 (o_price ord) = Inr price \<and> toBase6 (max_cash permit) = Inr cash \<and>
      shares \<le> qty \<and> cashNeededFor shares price \<le> cash \<and>
      price_min_base permit \<in> {None} \<union> Some ` {..price} \<and> price_max_base permit \<in> {None} \<union> Some ` {price..}"
    by blast
qed

section \<open>Submit\<close>

text \<open>The lease is given back and the outcome returned.\<close>

definition leave :: "'w deps \<Rightarrow> 'a \<Rightarrow> ('w, 'a) eff" where
  "leave D outcome = bind_eff (d_releaseLease D) (\<lambda>_. return_eff outcome)"

definition mark_seen :: "'w deps \<Rightarrow> uuid \<Rightarrow> lifecycle \<Rightarrow> ('w, unit) eff" where
  "mark_seen D oid st w = (Inr (), d_seen_add D oid st w)"

definition release_all :: "'w deps \<Rightarrow> uuid list \<Rightarrow> release_reason \<Rightarrow> ('w, unit) eff" where
  "release_all D ids reason =
     (if d_hasReservations D then each_caught (\<lambda>rid. d_rmRelease D rid reason) ids else return_eff ())"

definition rejected_result :: "uuid \<Rightarrow> order_result" where
  "rejected_result oid = \<lparr>res_success = False, res_submit_status = None,
     res_order_status = Some Order_REJECTED, res_order_id = Some oid, res_filled_size = None,
     res_average_price = None\<rparr>"

definition after_failure ::
  "'w deps \<Rightarrow> signed_order \<Rightarrow> execution_permit \<Rightarrow> string \<Rightarrow> string \<Rightarrow> ('w, try_submit) eff" where
  "after_failure D order permit code reason =
     (let oid = order_id order in
      if code = ''DEFINITELY_NOT_SENT'' \<and> provedNothingSent (Some reason) then
        (let rejected = fst (orderLifecycleNext SUBMITTING Submit_DEFINITIVE_REJECT) in
         bind_eff (mark_seen D oid rejected) (\<lambda>_.
         bind_eff (d_updateState D oid rejected None) (\<lambda>_.
         bind_eff (d_resolve D oid (rejected_result oid)) (\<lambda>_.
         bind_eff (release_all D (p_reservation_ids permit) Rel_REJECTED) (\<lambda>_.
         leave D (Permit_Invalid ''NOT_SENT''))))))
      else if code = ''DEFINITELY_NOT_SENT'' then leave D (Needs_Reconciliation order permit)
      else if code = ''SUBMISSION_UNKNOWN'' then
        bind_eff (mark_seen D oid SUBMISSION_UNKNOWN) (\<lambda>_.
        bind_eff (d_updateState D oid SUBMISSION_UNKNOWN None) (\<lambda>_.
        leave D (Needs_Reconciliation order permit)))
      else
        bind_eff (d_updateState D oid (fst (orderLifecycleNext SUBMITTING Submit_DEFINITIVE_REJECT)) None) (\<lambda>_.
        bind_eff (leave D ()) (\<lambda>_.
        bind_eff (release_all D (p_reservation_ids permit) Rel_REJECTED) (\<lambda>_.
        return_eff (Permit_Invalid code)))))"

text \<open>The cash of a fill, and its settlement against every reservation of the permit.\<close>

definition fill_cost :: "jsnum \<Rightarrow> jsnum \<Rightarrow> ('w, int \<times> int) eff" where
  "fill_cost filled price =
     bind_eff (lift_js (toBase6 filled)) (\<lambda>shares.
     bind_eff (lift_js (toBase6 price)) (\<lambda>p. return_eff (shares, cashNeededFor shares p)))"

definition settle_fill ::
  "'w deps \<Rightarrow> signed_order \<Rightarrow> execution_permit \<Rightarrow> order_result \<Rightarrow> ('w, unit) eff" where
  "settle_fill D order permit res =
     (case res_filled_size res of
        None \<Rightarrow> return_eff ()
      | Some filled \<Rightarrow>
          if d_hasReservations D \<and> num_lt (Fin 0) filled then
            bind_eff (fill_cost filled
              (case res_average_price res of Some p \<Rightarrow> p | None \<Rightarrow> o_price order)) (\<lambda>(shares, cash).
            bind_eff (each_caught (\<lambda>rid. d_rmConsume D rid cash) (p_reservation_ids permit)) (\<lambda>_.
            attempt_eff
              (bind_eff (d_consumeFill D (order_id order) (int_str shares) (int_str cash))
                (\<lambda>_. return_eff ()))
              (\<lambda>_. return_eff ())))
          else return_eff ())"

definition after_ack ::
  "'w deps \<Rightarrow> signed_order \<Rightarrow> execution_permit \<Rightarrow> order_result \<Rightarrow> ('w, try_submit) eff" where
  "after_ack D order permit res =
     (let oid = order_id order;
          st = fst (orderLifecycleNext SUBMITTING
            (case res_submit_status res of Some x \<Rightarrow> x | None \<Rightarrow> Submit_SUBMITTING)) in
      bind_eff (d_updateState D oid st (res_order_id res)) (\<lambda>_.
      bind_eff (mark_seen D oid st) (\<lambda>_.
      bind_eff (leave D ()) (\<lambda>_.
      bind_eff (d_resolve D oid res) (\<lambda>_.
      bind_eff (settle_fill D order permit res) (\<lambda>_.
      return_eff (Submitted res st)))))))"

text \<open>Steps 6 to 10: save, claim, record, place, and what follows the venue's answer.\<close>

definition place :: "'w deps \<Rightarrow> signed_order \<Rightarrow> execution_permit \<Rightarrow> ('w, try_submit) eff" where
  "place D order permit =
     bind_eff (mark_seen D (order_id order) SUBMITTING) (\<lambda>_.
     bind_eff (d_addSubmittedUnknown D (order_id order) (permit_id permit)) (\<lambda>_.
     bind_eff (d_placeOrder D order) (\<lambda>res.
       case res of
         Sub_Fail code reason \<Rightarrow> after_failure D order permit code reason
       | Sub_Ok result \<Rightarrow> after_ack D order permit result)))"

definition claim_and_place :: "'w deps \<Rightarrow> signed_order \<Rightarrow> execution_permit \<Rightarrow> ('w, try_submit) eff" where
  "claim_and_place D order permit =
     bind_eff (d_claim D (permit_id permit) (order_id order)
        (d_sha256 D (permit_id permit @ ''|'' @ order_id order))) (\<lambda>claimed.
       case claimed of
         Refused code \<Rightarrow> leave D (Permit_Invalid code)
       | Ok _ \<Rightarrow> place D order permit)"

text \<open>The check of step 0b, made twice: a single-use permit that is already claimed.\<close>

definition unless_reused :: "'w deps \<Rightarrow> execution_permit \<Rightarrow> ('w, try_submit) eff \<Rightarrow> ('w, try_submit) eff" where
  "unless_reused D permit continue =
     (if single_use permit then
        bind_eff (d_isClaimed D (permit_id permit)) (\<lambda>c.
          if c then return_eff (Permit_Invalid ''PERMIT_REUSED'') else continue)
      else continue)"

text \<open>Steps 2 to 5, all of them pure; then the claim.\<close>

definition checked_submit ::
  "(string \<Rightarrow> bool) \<Rightarrow> 'w deps \<Rightarrow> signed_order \<Rightarrow> execution_permit \<Rightarrow> ('w, try_submit) eff" where
  "checked_submit is_uuid D order permit =
     (if \<not> ExecutionPermitSchema is_uuid permit then return_eff (Permit_Invalid ''PERMIT_INVALID'')
      else if expires_at permit < d_now D then return_eff (Permit_Invalid ''PERMIT_EXPIRED'')
      else if truthy (o_permit_id order) \<and> o_permit_id order \<noteq> Some (permit_id permit)
        then leave D (Permit_Invalid ''PERMIT_MISMATCH'')
      else bind_eff (lift_js (order_refusal order permit)) (\<lambda>refusal.
        case refusal of
          Some code \<Rightarrow> return_eff (Permit_Invalid code)
        | None \<Rightarrow>
            (case venueActionGate (d_mode D) ORDER_SUBMIT of
               Refused code \<Rightarrow> leave D (Mode_Forbids code)
             | Ok _ \<Rightarrow> bind_eff (d_save D permit) (\<lambda>_. claim_and_place D order permit))))"

definition fresh_submit ::
  "(string \<Rightarrow> bool) \<Rightarrow> 'w deps \<Rightarrow> signed_order \<Rightarrow> execution_permit \<Rightarrow> ('w, try_submit) eff" where
  "fresh_submit is_uuid D order permit =
     unless_reused D permit
       (bind_eff (d_save D permit) (\<lambda>_.
        bind_eff (d_validatePermit D (permit_id permit) (d_leaseEpoch D)) (\<lambda>valid.
          if \<not> valid then leave D (Permit_Invalid ''LEASE_EPOCH_MISMATCH'')
          else unless_reused D permit (checked_submit is_uuid D order permit))))"

definition submitInner ::
  "(string \<Rightarrow> bool) \<Rightarrow> 'w deps \<Rightarrow> signed_order \<Rightarrow> execution_permit \<Rightarrow> ('w, try_submit) eff" where
  "submitInner is_uuid D order permit w =
     (case d_seen_get D (order_id order) w of
        Some st \<Rightarrow>
          if st \<noteq> DEFINITIVE_REJECT then leave D (Duplicate ''ALREADY_SEEN'') w
          else fresh_submit is_uuid D order permit w
      | None \<Rightarrow> fresh_submit is_uuid D order permit w)"

definition submit ::
  "(string \<Rightarrow> bool) \<Rightarrow> 'w deps \<Rightarrow> signed_order \<Rightarrow> execution_permit \<Rightarrow> ('w, try_submit) eff" where
  "submit is_uuid D order permit =
     bind_eff (d_acquire D) (\<lambda>got.
       if \<not> got then return_eff (Permit_Invalid ''LEASE_NOT_ACQUIRED'')
       else finally_eff (submitInner is_uuid D order permit) (d_releaseLease D))"

section \<open>Cancel\<close>

definition canceled_result :: "uuid \<Rightarrow> order_result" where
  "canceled_result oid = \<lparr>res_success = True, res_submit_status = None,
     res_order_status = Some Order_CANCELED, res_order_id = Some oid, res_filled_size = None,
     res_average_price = None\<rparr>"

text \<open>What is done for every reservation of the permit the ledger binds to an order.\<close>

definition with_bound_reservations ::
  "'w deps \<Rightarrow> uuid \<Rightarrow> (uuid \<Rightarrow> ('w, unit outcome) eff) \<Rightarrow> ('w, unit) eff" where
  "with_bound_reservations D oid body =
     bind_eff (d_ledgerPermit D oid) (\<lambda>bound.
       if \<not> truthy bound then return_eff ()
       else bind_eff (d_getPermit D (the bound)) (\<lambda>ids.
         case ids of None \<Rightarrow> return_eff () | Some rids \<Rightarrow> each_caught body rids))"

definition release_bound :: "'w deps \<Rightarrow> uuid \<Rightarrow> release_reason \<Rightarrow> ('w, unit) eff" where
  "release_bound D oid reason =
     (if d_hasReservations D then with_bound_reservations D oid (\<lambda>rid. d_rmRelease D rid reason)
      else return_eff ())"

definition cancel :: "'w deps \<Rightarrow> uuid \<Rightarrow> ('w, submit_outcome) eff" where
  "cancel D oid =
     bind_eff (d_acquire D) (\<lambda>got.
       if \<not> got then return_eff (Sub_Fail ''LEASE_NOT_ACQUIRED'' '''')
       else case venueActionGate (d_mode D) ORDER_CANCEL of
         Refused code \<Rightarrow> leave D (Sub_Fail code '''')
       | Ok _ \<Rightarrow>
           bind_eff (d_recordCancel D oid) (\<lambda>_.
           bind_eff (d_cancelOrder D oid) (\<lambda>res.
           bind_eff
             (case res of
                Sub_Fail _ _ \<Rightarrow> return_eff ()
              | Sub_Ok _ \<Rightarrow> attempt_eff
                  (bind_eff (d_resolve D oid (canceled_result oid)) (\<lambda>_.
                     release_bound D oid Rel_CANCELLED))
                  (\<lambda>_. return_eff ())) (\<lambda>_.
           leave D res))))"

section \<open>Reconcile\<close>

text \<open>The lease is given back only if it was acquired; reconciliation goes on either way.\<close>

definition leave_if :: "'w deps \<Rightarrow> bool \<Rightarrow> 'a \<Rightarrow> ('w, 'a) eff" where
  "leave_if D got outcome = (if got then leave D outcome else return_eff outcome)"

definition positive_finite :: "jsnum option \<Rightarrow> jsnum" where
  "positive_finite x = (case x of None \<Rightarrow> Fin 0
     | Some v \<Rightarrow> if is_finite_num v \<and> num_lt (Fin 0) v then v else Fin 0)"

definition account_fills :: "'w deps \<Rightarrow> uuid \<Rightarrow> order_result \<Rightarrow> ('w, unit) eff" where
  "account_fills D oid result =
     (let filled = positive_finite (res_filled_size result);
          price = positive_finite (res_average_price result)
      in if num_lt (Fin 0) filled \<and> num_lt (Fin 0) price \<and> d_hasReservations D then
           bind_eff (fill_cost filled price) (\<lambda>(shares, cash).
           bind_eff (d_consumeFill D oid (int_str shares) (int_str cash)) (\<lambda>deltaBase.
             case parse_bigint deltaBase of
               None \<Rightarrow> throw_eff ''SyntaxError''
             | Some delta \<Rightarrow>
                 if 0 < delta then with_bound_reservations D oid (\<lambda>rid. d_rmConsume D rid delta)
                 else return_eff ()))
         else return_eff ())"

definition reconcile_result ::
  "'w deps \<Rightarrow> bool \<Rightarrow> lifecycle \<Rightarrow> uuid \<Rightarrow> order_result option \<Rightarrow> ('w, lifecycle) eff" where
  "reconcile_result D got current oid answer =
     (case answer of
        None \<Rightarrow> leave_if D got current
      | Some result \<Rightarrow>
          if res_order_status result \<in> {Some Order_CANCELED, Some Order_REJECTED, Some Order_EXPIRED} then
            bind_eff (mark_seen D oid DEFINITIVE_REJECT) (\<lambda>_.
            bind_eff (d_resolve D oid result) (\<lambda>_.
            bind_eff (release_bound D oid
              (if res_order_status result = Some Order_CANCELED then Rel_CANCELLED else Rel_REJECTED)) (\<lambda>_.
            leave_if D got DEFINITIVE_REJECT)))
          else if res_submit_status result = Some Submit_ACKNOWLEDGED then
            bind_eff (mark_seen D oid ACKNOWLEDGED) (\<lambda>_.
            bind_eff (attempt_eff (account_fills D oid result) (\<lambda>_. return_eff ())) (\<lambda>_.
            bind_eff (d_resolve D oid result) (\<lambda>_.
            leave_if D got ACKNOWLEDGED)))
          else leave_if D got SUBMISSION_UNKNOWN)"

definition reconcile :: "'w deps \<Rightarrow> uuid \<Rightarrow> ('w, lifecycle) eff" where
  "reconcile D oid =
     bind_eff (d_acquire D) (\<lambda>got w.
       (let current = (case d_seen_get D oid w of Some st \<Rightarrow> st | None \<Rightarrow> NOT_SEEN) in
        bind_eff (attempt_eff (d_needsReconcile D oid) (\<lambda>_. return_eff False)) (\<lambda>ledgerNeedsIt.
          if current \<noteq> SUBMISSION_UNKNOWN \<and> \<not> ledgerNeedsIt then leave_if D got current
          else
            bind_eff (if ledgerNeedsIt then return_eff True
                      else attempt_eff (d_needsReconcile D oid) (\<lambda>_. return_eff False)) (\<lambda>needs.
              if \<not> needs then leave_if D got current
              else attempt_eff
                (bind_eff (d_getOrderStatus D oid) (reconcile_result D got current oid))
                (\<lambda>_. leave_if D got SUBMISSION_UNKNOWN))) w))"

text \<open>The pure conditions that every placed order satisfies.\<close>

definition submit_allowed :: "(string \<Rightarrow> bool) \<Rightarrow> 'w deps \<Rightarrow> signed_order \<Rightarrow> execution_permit \<Rightarrow> bool" where
  "submit_allowed is_uuid D ord permit \<longleftrightarrow>
     ExecutionPermitSchema is_uuid permit \<and> d_now D \<le> expires_at permit \<and>
     (truthy (o_permit_id ord) \<longrightarrow> o_permit_id ord = Some (permit_id permit)) \<and>
     order_refusal ord permit = Inr None \<and> venueActionGate (d_mode D) ORDER_SUBMIT = Ok ()"

section \<open>A rule for submit\<close>

text \<open>
  Around the claim, \<open>submit\<close> calls five operations. What they all do (\<open>Q\<close>) and what the claim
  with everything after it does (\<open>S\<close>) give what \<open>submit\<close> does.
\<close>

definition submit_frame :: "('w \<Rightarrow> 'w \<Rightarrow> bool) \<Rightarrow> 'w deps \<Rightarrow> bool" where
  "submit_frame Q D \<longleftrightarrow> preorder_on_states Q \<and> steps_eff Q (d_acquire D) \<and> steps_eff Q (d_releaseLease D) \<and>
     (\<forall>pid. steps_eff Q (d_isClaimed D pid)) \<and> (\<forall>p. steps_eff Q (d_save D p)) \<and>
     (\<forall>pid n. steps_eff Q (d_validatePermit D pid n))"

definition framed_by :: "('w \<Rightarrow> 'w \<Rightarrow> bool) \<Rightarrow> ('w \<Rightarrow> 'w \<Rightarrow> bool) \<Rightarrow> bool" where
  "framed_by Q S \<longleftrightarrow> (\<forall>u v. Q u v \<longrightarrow> S u v) \<and> (\<forall>u v w. Q u v \<longrightarrow> S v w \<longrightarrow> S u w) \<and>
     (\<forall>u v w. S u v \<longrightarrow> Q v w \<longrightarrow> S u w)"

lemma framed_by_self: "preorder_on_states Q \<Longrightarrow> framed_by Q Q"
  by (auto simp: framed_by_def preorder_on_states_def)

lemma framed_before:
  "framed_by Q S \<Longrightarrow> steps_eff Q m \<Longrightarrow> (\<And>x. steps_eff S (f x)) \<Longrightarrow> steps_eff S (bind_eff m f)"
  unfolding framed_by_def by (rule steps_before [where R = Q]) auto

lemma framed_only: "framed_by Q S \<Longrightarrow> steps_eff Q m \<Longrightarrow> steps_eff S m"
  by (auto simp: framed_by_def steps_eff_def)

lemma framed_leave: "submit_frame Q D \<Longrightarrow> framed_by Q S \<Longrightarrow> steps_eff S (leave D x)"
  unfolding leave_def submit_frame_def
  by (rule framed_only [where Q = Q], simp, intro steps_bind steps_return) auto

lemma framed_return: "submit_frame Q D \<Longrightarrow> framed_by Q S \<Longrightarrow> steps_eff S (return_eff x)"
  unfolding submit_frame_def by (rule framed_only [where Q = Q]) (auto intro: steps_return)

lemma framed_lift: "submit_frame Q D \<Longrightarrow> steps_eff Q (lift_js r)"
  unfolding submit_frame_def by (cases r) (auto simp: lift_js_def intro: steps_return steps_throw)

lemma framed_reused:
  assumes "submit_frame Q D" and "framed_by Q S" and "steps_eff S m"
  shows "steps_eff S (unless_reused D permit m)"
  unfolding unless_reused_def using assms(1,3)
  by (intro steps_if framed_before [OF assms(2)] framed_return [OF assms(1,2)])
    (auto simp: submit_frame_def)

lemma framed_checked:
  assumes frame: "submit_frame Q D" "framed_by Q S"
    and body: "order_refusal ord permit = Inr None \<Longrightarrow> venueActionGate (d_mode D) ORDER_SUBMIT = Ok () \<Longrightarrow>
      ExecutionPermitSchema is_uuid permit \<Longrightarrow> d_now D \<le> expires_at permit \<Longrightarrow>
      (truthy (o_permit_id ord) \<Longrightarrow> o_permit_id ord = Some (permit_id permit)) \<Longrightarrow>
      steps_eff S (claim_and_place D ord permit)"
  shows "steps_eff S (checked_submit is_uuid D ord permit)"
proof (cases "ExecutionPermitSchema is_uuid permit \<and> d_now D \<le> expires_at permit \<and>
      (truthy (o_permit_id ord) \<longrightarrow> o_permit_id ord = Some (permit_id permit)) \<and>
      venueActionGate (d_mode D) ORDER_SUBMIT = Ok ()")
  case True
  note leaves = framed_leave [OF frame] framed_return [OF frame]
  have save: "steps_eff Q (d_save D permit)" using frame(1) by (simp add: submit_frame_def)
  show ?thesis
  proof (cases "order_refusal ord permit")
    case (Inl e)
    have "steps_eff S (throw_eff (js_error_name e))"
      using frame by (auto simp: submit_frame_def intro: framed_only steps_throw)
    with True Inl show ?thesis
      by (auto simp: checked_submit_def lift_js_def bind_eff_def throw_eff_def steps_eff_def)
  next
    case (Inr refusal)
    show ?thesis
    proof (cases refusal)
      case None
      with True Inr have "steps_eff S (claim_and_place D ord permit)" by (intro body) auto
      then have "steps_eff S (bind_eff (d_save D permit) (\<lambda>_. claim_and_place D ord permit))"
        by (rule framed_before [OF frame(2) save])
      with True Inr None show ?thesis
        by (auto simp: checked_submit_def lift_js_def bind_eff_def return_eff_def steps_eff_def)
    next
      case (Some c)
      have "steps_eff S (return_eff (Permit_Invalid c))" by (rule leaves)
      with True Inr Some show ?thesis
        by (auto simp: checked_submit_def lift_js_def bind_eff_def return_eff_def steps_eff_def)
    qed
  qed
next
  case False
  have "steps_eff S (case refusal of Some code \<Rightarrow> return_eff (Permit_Invalid code)
      | None \<Rightarrow> leave D (Mode_Forbids c))" for refusal c
    by (auto intro: framed_leave [OF frame] framed_return [OF frame] split: option.split)
  with False show ?thesis
    unfolding checked_submit_def
    by (cases "venueActionGate (d_mode D) ORDER_SUBMIT")
      (auto intro!: framed_leave [OF frame] framed_return [OF frame] framed_before [OF frame(2)]
        framed_lift [OF frame(1)])
qed

lemma submit_lift:
  assumes frame: "submit_frame Q D" "framed_by Q S"
    and body: "submit_allowed is_uuid D ord permit \<Longrightarrow> steps_eff S (claim_and_place D ord permit)"
  shows "steps_eff S (submit is_uuid D ord permit)"
proof -
  note leaves = framed_leave [OF frame] framed_return [OF frame]
  note before = framed_before [OF frame(2)]
  have checked: "steps_eff S (checked_submit is_uuid D ord permit)"
    by (rule framed_checked [OF frame], rule body) (simp add: submit_allowed_def)
  have "steps_eff S (fresh_submit is_uuid D ord permit)"
    unfolding fresh_submit_def using frame(1)
    by (intro framed_reused [OF frame] before steps_if leaves checked) (auto simp: submit_frame_def)
  then have inner: "steps_eff S (submitInner is_uuid D ord permit)"
    using leaves(1) [of "Duplicate ''ALREADY_SEEN''"]
    by (auto simp: steps_eff_def submitInner_def split: option.split)
  show ?thesis
    unfolding submit_def using frame
    by (intro before steps_if leaves steps_finally [OF inner, where R = Q])
      (auto simp: submit_frame_def framed_by_def)
qed

section \<open>What the executor relies on\<close>

text \<open>A quiet step places no order and forgets no claim.\<close>

definition quiet_step :: "('w \<Rightarrow> signed_order list) \<Rightarrow> (uuid \<Rightarrow> 'w \<Rightarrow> bool) \<Rightarrow> 'w \<Rightarrow> 'w \<Rightarrow> bool" where
  "quiet_step placed claimed u v \<longleftrightarrow> placed v = placed u \<and> (\<forall>q. claimed q u \<longrightarrow> claimed q v)"

text \<open>A submit step is quiet, or places one order and uses up an unused permit for it.\<close>

definition submit_step ::
  "('w \<Rightarrow> signed_order list) \<Rightarrow> (uuid \<Rightarrow> 'w \<Rightarrow> bool) \<Rightarrow> uuid \<Rightarrow> signed_order \<Rightarrow> 'w \<Rightarrow> 'w \<Rightarrow> bool" where
  "submit_step placed claimed pid ord u v \<longleftrightarrow> quiet_step placed claimed u v \<or>
     placed v = placed u @ [ord] \<and> \<not> claimed pid u \<and> claimed pid v \<and> (\<forall>q. claimed q u \<longrightarrow> claimed q v)"

lemma quiet_preorder: "preorder_on_states (quiet_step placed claimed)"
  by (auto simp: preorder_on_states_def quiet_step_def)

lemma quiet_submit: "quiet_step placed claimed u v \<Longrightarrow> submit_step placed claimed pid ord u v"
  by (simp add: submit_step_def)

lemma quiet_then_submit:
  "quiet_step placed claimed u v \<Longrightarrow> submit_step placed claimed pid ord v w \<Longrightarrow>
     submit_step placed claimed pid ord u w"
  by (auto simp: submit_step_def quiet_step_def)

lemma submit_then_quiet:
  "submit_step placed claimed pid ord u v \<Longrightarrow> quiet_step placed claimed v w \<Longrightarrow>
     submit_step placed claimed pid ord u w"
  by (auto simp: submit_step_def quiet_step_def)

locale executor_ops =
  fixes D :: "'w deps"
    and placed :: "'w \<Rightarrow> signed_order list"
    and claimed :: "uuid \<Rightarrow> 'w \<Rightarrow> bool"
  assumes quiet_seen: "quiet_step placed claimed w (d_seen_add D oid st w)"
    and quiet_lease: "steps_eff (quiet_step placed claimed) (d_acquire D)"
      "steps_eff (quiet_step placed claimed) (d_releaseLease D)"
    and quiet_permits: "steps_eff (quiet_step placed claimed) (d_isClaimed D pid)"
      "steps_eff (quiet_step placed claimed) (d_save D p)"
      "steps_eff (quiet_step placed claimed) (d_validatePermit D pid epoch)"
      "steps_eff (quiet_step placed claimed) (d_claim D pid oid h)"
      "steps_eff (quiet_step placed claimed) (d_getPermit D pid)"
    and quiet_ledger: "steps_eff (quiet_step placed claimed) (d_addSubmittedUnknown D oid pid)"
      "steps_eff (quiet_step placed claimed) (d_updateState D oid st v)"
      "steps_eff (quiet_step placed claimed) (d_resolve D oid res)"
      "steps_eff (quiet_step placed claimed) (d_recordCancel D oid)"
      "steps_eff (quiet_step placed claimed) (d_needsReconcile D oid)"
      "steps_eff (quiet_step placed claimed) (d_ledgerPermit D oid)"
      "steps_eff (quiet_step placed claimed) (d_consumeFill D oid sh c)"
    and quiet_money: "steps_eff (quiet_step placed claimed) (d_rmRelease D rid reason)"
      "steps_eff (quiet_step placed claimed) (d_rmConsume D rid n)"
    and quiet_venue: "steps_eff (quiet_step placed claimed) (d_cancelOrder D oid)"
      "steps_eff (quiet_step placed claimed) (d_getOrderStatus D oid)"
    and claims: "d_claim D pid oid h w = (Inr (Ok x), w') \<Longrightarrow> \<not> claimed pid w \<and> claimed pid w'"
    and places: "d_placeOrder D ord w = (r, w') \<Longrightarrow>
      placed w' = placed w @ [ord] \<and> (\<forall>q. claimed q w \<longrightarrow> claimed q w')"
begin

abbreviation quiet :: "('w, 'a) eff \<Rightarrow> bool" where
  "quiet \<equiv> steps_eff (quiet_step placed claimed)"

lemmas quiet_ops = quiet_lease quiet_permits quiet_ledger quiet_money quiet_venue

lemmas quiet_rules = steps_return [OF quiet_preorder] steps_throw [OF quiet_preorder]
  steps_bind [OF quiet_preorder] steps_attempt [OF quiet_preorder] steps_each [OF quiet_preorder]

lemma quiet_leave: "quiet (leave D x)"
  unfolding leave_def by (intro quiet_rules quiet_ops)

lemma quiet_mark: "quiet (mark_seen D oid st)"
  by (simp add: steps_eff_def mark_seen_def quiet_seen)

lemma quiet_lift: "quiet (lift_js r)"
  by (cases r) (simp_all add: lift_js_def quiet_rules)

lemma quiet_release_all: "quiet (release_all D ids reason)"
  unfolding release_all_def by (intro steps_if quiet_rules quiet_ops)

lemma quiet_fill_cost: "quiet (fill_cost filled price)"
  unfolding fill_cost_def by (intro quiet_rules quiet_lift)

lemmas quiet_parts = quiet_leave quiet_mark quiet_lift quiet_release_all quiet_fill_cost quiet_ops

lemma quiet_after_failure: "quiet (after_failure D ord permit code reason)"
  unfolding after_failure_def Let_def by (intro steps_if quiet_rules quiet_parts)

lemma quiet_settle_fill: "quiet (settle_fill D ord permit res)"
  unfolding settle_fill_def
  by (auto intro!: quiet_rules quiet_parts split: option.split prod.split)

lemma quiet_after_ack: "quiet (after_ack D ord permit res)"
  unfolding after_ack_def Let_def by (intro quiet_rules quiet_parts quiet_settle_fill)

lemma place_step:
  assumes "claimed (permit_id permit) w" and "\<not> claimed (permit_id permit) w0"
    and "quiet_step placed claimed w0 w"
  shows "submit_step placed claimed (permit_id permit) ord w0 (snd (place D ord permit w))"
proof -
  let ?S = "\<lambda>u v. claimed (permit_id permit) u \<longrightarrow> placed v = placed u \<and> (\<forall>q. claimed q u \<longrightarrow> claimed q v) \<or>
      placed v = placed u @ [ord] \<and> (\<forall>q. claimed q u \<longrightarrow> claimed q v)"
  have quietS: "quiet_step placed claimed u v \<Longrightarrow> ?S u v" for u v by (simp add: quiet_step_def)
  have comp: "quiet_step placed claimed u v \<Longrightarrow> ?S v x \<Longrightarrow> ?S u x" for u v x
    by (auto simp: quiet_step_def)
  have answer: "steps_eff ?S (bind_eff (d_placeOrder D ord) (\<lambda>res. case res of
      Sub_Fail code reason \<Rightarrow> after_failure D ord permit code reason
    | Sub_Ok result \<Rightarrow> after_ack D ord permit result))" (is "steps_eff ?S (bind_eff _ ?f)")
  proof -
    have q: "quiet (?f res)" for res
      by (cases res) (simp_all add: quiet_after_failure quiet_after_ack)
    have "?S u (snd (bind_eff (d_placeOrder D ord) ?f u))" for u
    proof (cases "d_placeOrder D ord u")
      case (Pair r u1)
      from places [OF Pair] show ?thesis
        using q by (cases r) (auto simp: bind_eff_def Pair steps_eff_def quiet_step_def)
    qed
    then show ?thesis by (simp add: steps_eff_def)
  qed
  have "steps_eff ?S (place D ord permit)"
    unfolding place_def
    by (rule steps_before [OF quiet_mark _ quietS comp],
        rule steps_before [OF quiet_ledger(1) _ quietS comp], rule answer)
  then have "?S w (snd (place D ord permit w))" by (simp add: steps_eff_def)
  with assms show ?thesis by (auto simp: submit_step_def quiet_step_def)
qed

lemma claim_and_place_step:
  "steps_eff (submit_step placed claimed (permit_id permit) ord) (claim_and_place D ord permit)"
proof -
  let ?S = "submit_step placed claimed (permit_id permit) ord"
  have "?S w (snd (claim_and_place D ord permit w))" for w
  proof (cases "d_claim D (permit_id permit) (order_id ord)
      (d_sha256 D (permit_id permit @ ''|'' @ order_id ord)) w")
    case (Pair r w1)
    have q: "quiet_step placed claimed w w1" using quiet_permits(4) Pair by (rule steps_effD)
    show ?thesis
    proof (cases r)
      case (Inl e)
      with q Pair show ?thesis by (simp add: claim_and_place_def bind_eff_def quiet_submit)
    next
      case (Inr out)
      show ?thesis
      proof (cases out)
        case (Ok x)
        with Pair Inr have c: "\<not> claimed (permit_id permit) w \<and> claimed (permit_id permit) w1"
          using claims by blast
        have "?S w (snd (place D ord permit w1))"
          by (rule place_step) (use c q in simp_all)
        with Pair Inr Ok show ?thesis by (simp add: claim_and_place_def bind_eff_def)
      next
        case (Refused code)
        have "quiet_step placed claimed w1 (snd (leave D (Permit_Invalid code) w1))"
          using quiet_leave [of "Permit_Invalid code"] by (simp add: steps_eff_def)
        with q have "quiet_step placed claimed w (snd (leave D (Permit_Invalid code) w1))"
          by (auto simp: quiet_step_def)
        with Pair Inr Refused show ?thesis
          by (simp add: claim_and_place_def bind_eff_def quiet_submit)
      qed
    qed
  qed
  then show ?thesis by (simp add: steps_eff_def)
qed

lemma quiet_frame: "submit_frame (quiet_step placed claimed) D"
  using quiet_lease quiet_permits by (simp add: submit_frame_def quiet_preorder)

lemma submit_places_once:
  "steps_eff (submit_step placed claimed (permit_id permit) ord) (submit is_uuid D ord permit)"
  by (rule submit_lift [OF quiet_frame])
    (auto simp: framed_by_def intro: quiet_submit quiet_then_submit submit_then_quiet claim_and_place_step)

text \<open>Nothing is placed unless every pure check passes.\<close>

lemma quiet_unless_allowed:
  "\<not> submit_allowed is_uuid D ord permit \<Longrightarrow> quiet (submit is_uuid D ord permit)"
  by (rule submit_lift [OF quiet_frame framed_by_self [OF quiet_preorder]]) simp

lemma quiet_unless_valid:
  assumes "\<And>w. fst (d_validatePermit D (permit_id permit) (d_leaseEpoch D) w) \<noteq> Inr True"
  shows "quiet (submit is_uuid D ord permit)"
proof -
  have reuse: "quiet m \<Longrightarrow> quiet (unless_reused D permit m)" for m
    unfolding unless_reused_def by (intro steps_if quiet_rules quiet_permits)
  have "quiet (bind_eff (d_validatePermit D (permit_id permit) (d_leaseEpoch D)) (\<lambda>valid.
          if \<not> valid then leave D (Permit_Invalid ''LEASE_EPOCH_MISMATCH'')
          else unless_reused D permit (checked_submit is_uuid D ord permit)))" (is "quiet (bind_eff ?v ?f)")
  proof -
    have "quiet_step placed claimed w (snd (bind_eff ?v ?f w))" for w
    proof (cases "?v w")
      case (Pair r w1)
      have 1: "quiet_step placed claimed w w1" using quiet_permits(3) Pair by (rule steps_effD)
      have 2: "quiet_step placed claimed w1 (snd (leave D (Permit_Invalid ''LEASE_EPOCH_MISMATCH'') w1))"
        using quiet_leave [of "Permit_Invalid ''LEASE_EPOCH_MISMATCH''"] by (simp add: steps_eff_def)
      show ?thesis
        using assms [of w] 1 2 by (cases r) (auto simp: bind_eff_def Pair quiet_step_def)
    qed
    then show ?thesis by (simp add: steps_eff_def)
  qed
  note validated = this
  have "quiet (fresh_submit is_uuid D ord permit)"
    unfolding fresh_submit_def
    by (rule reuse, rule steps_bind [OF quiet_preorder quiet_permits(2)], rule validated)
  then have "quiet (submitInner is_uuid D ord permit)"
    using quiet_leave [of "Duplicate ''ALREADY_SEEN''"]
    by (auto simp: steps_eff_def submitInner_def split: option.split)
  then show ?thesis
    unfolding submit_def
    by (intro quiet_rules quiet_lease steps_if steps_finally [OF _ quiet_lease(2)])
      (auto simp: quiet_step_def)
qed

lemma quiet_with_bound: "(\<And>rid. quiet (body rid)) \<Longrightarrow> quiet (with_bound_reservations D oid body)"
  unfolding with_bound_reservations_def
  by (intro quiet_rules quiet_ops steps_if) (auto intro!: quiet_rules split: option.split)

lemma quiet_cancel: "quiet (cancel D oid)"
  unfolding cancel_def release_bound_def
  by (intro quiet_rules quiet_ops steps_if)
    (auto intro!: quiet_rules quiet_ops quiet_leave quiet_with_bound steps_if
      split: outcome.split submit_outcome.split)

lemma quiet_leave_if: "quiet (leave_if D got x)"
  unfolding leave_if_def by (intro steps_if quiet_leave quiet_rules)

lemma quiet_account_fills: "quiet (account_fills D oid result)"
  unfolding account_fills_def Let_def
  by (auto intro!: steps_if quiet_rules quiet_fill_cost quiet_ops quiet_with_bound
      split: option.split prod.split)

lemma quiet_reconcile_result: "quiet (reconcile_result D got current oid answer)"
  unfolding reconcile_result_def release_bound_def
  by (auto intro!: steps_if quiet_rules quiet_mark quiet_ops quiet_leave_if quiet_with_bound
      quiet_account_fills split: option.split)

text \<open>Reconciliation never places an order.\<close>

lemma quiet_reconcile: "quiet (reconcile D oid)"
proof -
  have "quiet (bind_eff (attempt_eff (d_needsReconcile D oid) (\<lambda>_. return_eff False)) (\<lambda>ledgerNeedsIt.
          if current \<noteq> SUBMISSION_UNKNOWN \<and> \<not> ledgerNeedsIt then leave_if D got current
          else
            bind_eff (if ledgerNeedsIt then return_eff True
                      else attempt_eff (d_needsReconcile D oid) (\<lambda>_. return_eff False)) (\<lambda>needs.
              if \<not> needs then leave_if D got current
              else attempt_eff
                (bind_eff (d_getOrderStatus D oid) (reconcile_result D got current oid))
                (\<lambda>_. leave_if D got SUBMISSION_UNKNOWN))))" for current got
    by (intro quiet_rules steps_if quiet_leave_if quiet_ops quiet_reconcile_result)
  then have "quiet (\<lambda>w. (let current = (case d_seen_get D oid w of Some st \<Rightarrow> st | None \<Rightarrow> NOT_SEEN) in
        bind_eff (attempt_eff (d_needsReconcile D oid) (\<lambda>_. return_eff False)) (\<lambda>ledgerNeedsIt.
          if current \<noteq> SUBMISSION_UNKNOWN \<and> \<not> ledgerNeedsIt then leave_if D got current
          else
            bind_eff (if ledgerNeedsIt then return_eff True
                      else attempt_eff (d_needsReconcile D oid) (\<lambda>_. return_eff False)) (\<lambda>needs.
              if \<not> needs then leave_if D got current
              else attempt_eff
                (bind_eff (d_getOrderStatus D oid) (reconcile_result D got current oid))
                (\<lambda>_. leave_if D got SUBMISSION_UNKNOWN))) w))" for got
    by (simp add: steps_eff_def Let_def)
  then show ?thesis unfolding reconcile_def by (intro quiet_rules quiet_lease)
qed

end

section \<open>Sequences of submissions\<close>

text \<open>The permits for which an order went out, in the order of the submissions.\<close>

fun placements ::
  "(string \<Rightarrow> bool) \<Rightarrow> ('e \<Rightarrow> 'w deps) \<Rightarrow> ('w \<Rightarrow> signed_order list) \<Rightarrow>
     ('e \<times> signed_order \<times> execution_permit) list \<Rightarrow> 'w \<Rightarrow> uuid list \<times> 'w" where
  "placements is_uuid deps_of placed [] w = ([], w)"
| "placements is_uuid deps_of placed ((e, ord, permit) # rest) w =
     (let w1 = snd (submit is_uuid (deps_of e) ord permit w);
          (ps, w2) = placements is_uuid deps_of placed rest w1
      in ((if placed w1 = placed w then ps else permit_id permit # ps), w2))"

lemma placements_distinct:
  assumes ops: "\<And>e. executor_ops (deps_of e) placed claimed"
  shows "placements is_uuid deps_of placed calls w = (ps, w') \<Longrightarrow>
    distinct ps \<and> (\<forall>p \<in> set ps. \<not> claimed p w) \<and> (\<forall>q. claimed q w \<longrightarrow> claimed q w') \<and>
    length (placed w') = length (placed w) + length ps"
proof (induction calls arbitrary: w ps)
  case Nil
  then show ?case by simp
next
  case (Cons call calls)
  obtain e ord permit where call: "call = (e, ord, permit)" by (cases call)
  define w1 where "w1 = snd (submit is_uuid (deps_of e) ord permit w)"
  obtain qs where rest: "placements is_uuid deps_of placed calls w1 = (qs, w')"
    and ps: "ps = (if placed w1 = placed w then qs else permit_id permit # qs)"
    using Cons.prems by (auto simp: call w1_def Let_def split: prod.splits)
  have step: "submit_step placed claimed (permit_id permit) ord w w1"
    using executor_ops.submit_places_once [OF ops, of permit ord is_uuid e]
    by (simp add: steps_eff_def w1_def)
  note ih = Cons.IH [OF rest]
  show ?case
  proof (cases "placed w1 = placed w")
    case True
    with step have "\<forall>q. claimed q w \<longrightarrow> claimed q w1" by (auto simp: submit_step_def quiet_step_def)
    with ih True show ?thesis by (auto simp: ps)
  next
    case False
    with step have "placed w1 = placed w @ [ord]" "\<not> claimed (permit_id permit) w"
      "claimed (permit_id permit) w1" "\<forall>q. claimed q w \<longrightarrow> claimed q w1"
      by (auto simp: submit_step_def quiet_step_def)
    with ih False show ?thesis by (auto simp: ps)
  qed
qed

end
