(* ===== verification/ExecutorWiring.thy ===== *)
theory ExecutorWiring
  imports Executor
begin

text \<open>
  The executor on the modelled stores. \<open>world\<close> is the state of a process and its database: the lease
  table, the in-memory permits and ledger, the seen log, the database and, as the record of what
  reached the venue, the orders placed so far, each as it was handed over. \<open>mem_deps\<close> wires the in-memory stores, \<open>pg_deps\<close> the
  PostgreSQL ones (\<open>src/pm/runtime/src/main.ts\<close>, \<open>src/pm/control/src/orchestrator-pg.ts\<close>); \<open>run_env\<close>
  is what one call draws from outside: clock, identity, venue mode, the venue's answers and the
  connection's faults.
\<close>

section \<open>State and environment\<close>

record world =
  wo_leases :: leases
  wo_permits :: mem_permits
  wo_ledger :: ledger
  wo_seen :: "uuid \<Rightarrow> lifecycle option"
  wo_db :: db
  wo_placed :: "signed_order list"

record run_env =
  en_mode :: venue_mode
  en_now :: ms
  en_wallet :: string
  en_holder :: string
  en_epoch :: jsnum
  en_sha256 :: "string \<Rightarrow> string"
  en_place :: "signed_order \<Rightarrow> submit_outcome"
  en_cancel :: "uuid \<Rightarrow> submit_outcome"
  en_status :: "uuid \<Rightarrow> order_result option"
  en_manager :: bool
  en_fault :: "string \<Rightarrow> fault"
  en_order_known :: "uuid \<Rightarrow> bool"
  en_wallet_known :: "string \<Rightarrow> bool"

text \<open>How often an order id has reached the venue.\<close>

definition placed_count :: "uuid \<Rightarrow> world \<Rightarrow> nat" where
  "placed_count q w = count_list (map order_id (wo_placed w)) q"

definition on_part :: "('w \<Rightarrow> 's) \<Rightarrow> ('s \<Rightarrow> 'w \<Rightarrow> 'w) \<Rightarrow> ('s, 'a) eff \<Rightarrow> ('w, 'a) eff" where
  "on_part get put m w = (case m (get w) of (x, s) \<Rightarrow> (x, put s w))"

abbreviation on_leases :: "(leases, 'a) eff \<Rightarrow> (world, 'a) eff" where
  "on_leases \<equiv> on_part wo_leases (\<lambda>s w. w\<lparr>wo_leases := s\<rparr>)"

abbreviation on_db :: "(db, 'a) eff \<Rightarrow> (world, 'a) eff" where
  "on_db \<equiv> on_part wo_db (\<lambda>s w. w\<lparr>wo_db := s\<rparr>)"

abbreviation on_permits :: "(mem_permits, 'a) eff \<Rightarrow> (world, 'a) eff" where
  "on_permits \<equiv> on_part wo_permits (\<lambda>s w. w\<lparr>wo_permits := s\<rparr>)"

abbreviation on_ledger :: "(ledger, 'a) eff \<Rightarrow> (world, 'a) eff" where
  "on_ledger \<equiv> on_part wo_ledger (\<lambda>s w. w\<lparr>wo_ledger := s\<rparr>)"

text \<open>An operation that does not throw, one that returns nothing, and a pure read.\<close>

definition total :: "('s \<Rightarrow> 'a \<times> 's) \<Rightarrow> ('s, 'a) eff" where
  "total m s = (case m s of (x, s') \<Rightarrow> (Inr x, s'))"

definition update :: "('s \<Rightarrow> 's) \<Rightarrow> ('s, unit) eff" where
  "update f s = (Inr (), f s)"

definition read_only :: "('s \<Rightarrow> 'a) \<Rightarrow> ('s, 'a) eff" where
  "read_only f s = (Inr (f s), s)"

definition venue_place :: "run_env \<Rightarrow> signed_order \<Rightarrow> (world, submit_outcome) eff" where
  "venue_place e ord w = (Inr (en_place e ord), w\<lparr>wo_placed := wo_placed w @ [ord]\<rparr>)"

section \<open>The in-memory wiring\<close>

definition mem_deps :: "run_env \<Rightarrow> world deps" where
  "mem_deps e = \<lparr>d_mode = en_mode e, d_now = en_now e, d_sha256 = en_sha256 e, d_leaseEpoch = en_epoch e,
     d_acquire = on_leases (mem_acquireExecutorLease () (en_now e) (en_wallet e) (en_holder e) (en_epoch e) 30),
     d_releaseLease = on_leases (mem_releaseExecutorLease () (en_wallet e) (en_holder e)),
     d_seen_get = (\<lambda>oid w. wo_seen w oid),
     d_seen_add = (\<lambda>oid st w. w\<lparr>wo_seen := (wo_seen w)(oid \<mapsto> st)\<rparr>),
     d_isClaimed = (\<lambda>pid. on_permits (read_only (mem_isClaimed pid))),
     d_save = (\<lambda>p. on_permits (update (mem_save p))),
     d_validatePermit = (\<lambda>pid n. on_permits (read_only (mem_validatePermit pid n))),
     d_claim = (\<lambda>pid oid h. on_permits (total (mem_claimAndRecord (en_now e) pid oid))),
     d_getPermit = (\<lambda>pid. on_permits (read_only (\<lambda>s. map_option p_reservation_ids (mem_get pid s)))),
     d_addSubmittedUnknown = (\<lambda>oid pid. on_ledger (update
       (mem_addSubmittedUnknown (en_now e) oid None (Some pid)))),
     d_updateState = (\<lambda>oid st v. on_ledger (update (mem_updateState (en_now e) oid st v))),
     d_resolve = (\<lambda>oid res. on_ledger (update (mem_resolve (en_now e) oid True (Some res)))),
     d_recordCancel = (\<lambda>oid. on_ledger (update (mem_recordCancelRequested (en_now e) oid))),
     d_needsReconcile = (\<lambda>oid. on_ledger (read_only (mem_needsReconcile oid))),
     d_ledgerPermit = (\<lambda>oid. on_ledger (read_only (\<lambda>s. Option.bind (row_of rc_order_id oid s) rc_permit_id))),
     d_consumeFill = (\<lambda>oid sh c. on_ledger (total (mem_consumeFill (en_now e) oid sh c))),
     d_hasReservations = en_manager e,
     d_rmRelease = (\<lambda>rid reason. on_db (total (release True (en_fault e rid) (en_now e) rid reason))),
     d_rmConsume = (\<lambda>rid n. on_db (total (consume True (en_fault e rid) (en_now e) (en_now e) rid n))),
     d_placeOrder = venue_place e,
     d_cancelOrder = (\<lambda>oid. read_only (\<lambda>_. en_cancel e oid)),
     d_getOrderStatus = (\<lambda>oid. read_only (\<lambda>_. en_status e oid))\<rparr>"

section \<open>The PostgreSQL wiring\<close>

definition lease_env_of :: "run_env \<Rightarrow> lease_env" where
  "lease_env_of e = \<lparr>le_fault = en_fault e ''lease'', le_wallet_known = en_wallet_known e\<rparr>"

definition ledger_env_of :: "run_env \<Rightarrow> string \<Rightarrow> ledger_env" where
  "ledger_env_of e op = \<lparr>lg_fault = en_fault e op, lg_order_known = en_order_known e\<rparr>"

definition pg_deps :: "(int \<Rightarrow> js_value) \<Rightarrow> run_env \<Rightarrow> world deps" where
  "pg_deps read_int8 e =
    \<lparr>d_mode = en_mode e, d_now = en_now e, d_sha256 = en_sha256 e, d_leaseEpoch = en_epoch e,
     d_acquire = on_leases (pg_acquireExecutorLease (lease_env_of e) (en_now e) (en_wallet e) (en_holder e)
       (en_epoch e) 30),
     d_releaseLease = on_leases (pg_releaseExecutorLease (lease_env_of e) (en_wallet e) (en_holder e)),
     d_seen_get = (\<lambda>oid w. wo_seen w oid),
     d_seen_add = (\<lambda>oid st w. w\<lparr>wo_seen := (wo_seen w)(oid \<mapsto> st)\<rparr>),
     d_isClaimed = (\<lambda>pid. on_db (read_only (pg_isClaimed pid))),
     d_save = (\<lambda>p. on_db (pg_save (en_fault e ''save'') p)),
     d_validatePermit = (\<lambda>pid n. on_db (read_only (pg_validatePermit read_int8 pid n))),
     d_claim = (\<lambda>pid oid h. on_db (total (pg_claimAndRecord (ledger_env_of e ''claim'') (en_now e) pid oid
       None (Some h)))),
     d_getPermit = (\<lambda>pid. on_db (read_only (\<lambda>d. map_option pr_reservation_ids
       (row_of pr_permit_id pid (permits d))))),
     d_addSubmittedUnknown = (\<lambda>oid pid. on_db (pg_addSubmittedUnknown (ledger_env_of e ''add'') (en_now e)
       oid None (Some pid))),
     d_updateState = (\<lambda>oid st v. on_db (pg_updateState (ledger_env_of e ''state'') (en_now e) oid st v)),
     d_resolve = (\<lambda>oid res. on_db (pg_resolve (ledger_env_of e ''resolve'') (en_now e) oid True (Some res))),
     d_recordCancel = (\<lambda>oid. on_db (pg_recordCancelRequested (ledger_env_of e ''cancel'') (en_now e) oid)),
     d_needsReconcile = (\<lambda>oid. on_db (read_only (pg_needsReconcile oid))),
     d_ledgerPermit = (\<lambda>oid. on_db (read_only (\<lambda>d. Option.bind (row_of rc_order_id oid (recovery d)) rc_permit_id))),
     d_consumeFill = (\<lambda>oid sh c. on_db (total (pg_consumeFill (ledger_env_of e ''fill'') (en_now e) oid sh c))),
     d_hasReservations = en_manager e,
     d_rmRelease = (\<lambda>rid reason. on_db (total (release True (en_fault e rid) (en_now e) rid reason))),
     d_rmConsume = (\<lambda>rid n. on_db (total (consume True (en_fault e rid) (en_now e) (en_now e) rid n))),
     d_placeOrder = venue_place e,
     d_cancelOrder = (\<lambda>oid. read_only (\<lambda>_. en_cancel e oid)),
     d_getOrderStatus = (\<lambda>oid. read_only (\<lambda>_. en_status e oid))\<rparr>"

section \<open>Both wirings are what the executor relies on\<close>

definition mem_claimed :: "uuid \<Rightarrow> world \<Rightarrow> bool" where
  "mem_claimed pid w = mem_isClaimed pid (wo_permits w)"

definition pg_claimed :: "uuid \<Rightarrow> world \<Rightarrow> bool" where
  "pg_claimed pid w = pg_isClaimed pid (wo_db w)"

lemma on_part_quiet:
  assumes "\<And>s w. placed (put s w) = placed w" and "\<And>w x s. m (get w) = (x, s) \<Longrightarrow> claimed q w \<Longrightarrow> claimed q (put s w)"
  shows "placed (snd (on_part get put m w)) = placed w"
    and "claimed q w \<Longrightarrow> claimed q (snd (on_part get put m w))"
  using assms by (auto simp: on_part_def split: prod.split)

lemma mem_save_claimed: "mem_isClaimed q s \<Longrightarrow> mem_isClaimed q (mem_save p s)"
  by (auto simp: mem_isClaimed_def mem_save_def split: option.splits)

lemmas mem_deps_simps = mem_deps_def on_part_def total_def update_def read_only_def mem_claimed_def

interpretation mem: executor_ops "mem_deps e" wo_placed mem_claimed for e
proof unfold_locales
  fix pid oid h w x w'
  assume "d_claim (mem_deps e) pid oid h w = (Inr (Ok x), w')"
  then show "\<not> mem_claimed pid w \<and> mem_claimed pid w'"
    by (auto simp: mem_deps_simps dest: mem_permits.marks split: prod.splits)
qed (auto simp: steps_eff_def quiet_step_def mem_deps_simps venue_place_def mem_save_claimed
    dest: mem_permits.stays split: prod.splits)

text \<open>In PostgreSQL: an operation that leaves the permits table alone is quiet.\<close>

lemma pg_isClaimed_same: "permits d' = permits d \<Longrightarrow> pg_isClaimed q d' = pg_isClaimed q d"
  by (simp add: pg_isClaimed_def)

lemma upd_recovery_permits: "upd_recovery oid f d = Inr (u, d') \<Longrightarrow> permits d' = permits d"
  by (auto simp: upd_recovery_def Let_def split: if_splits)

lemma pg_stmt_permits:
  assumes "\<And>x d'. body d = Inr (x, d') \<Longrightarrow> permits d' = permits d"
  shows "permits (snd (pg_stmt fault body d)) = permits d"
proof (cases "pg_stmt fault body d")
  case (Pair x d')
  then have "permits d' = permits d" by (cases rule: pg_stmt_cases) (auto dest: assms)
  with Pair show ?thesis by simp
qed

lemma pg_consumeFill_permits: "permits (snd (pg_consumeFill e now oid sh c d)) = permits d"
  unfolding pg_consumeFill_def
  by (rule with_txn_invariant [where P = "\<lambda>d'. permits d' = permits d"])
    (auto dest: upd_recovery_permits split: option.splits sum.splits)

lemma pg_ledger_permits:
  "permits (snd (pg_addSubmittedUnknown e now oid v p d)) = permits d"
  "permits (snd (pg_updateState e now oid st v d)) = permits d"
  "permits (snd (pg_resolve e now oid b res d)) = permits d"
  "permits (snd (pg_recordCancelRequested e now oid d)) = permits d"
  by (auto simp: pg_addSubmittedUnknown_def pg_updateState_def pg_resolve_def return_eff_def
      pg_recordCancelRequested_def Let_def intro!: pg_stmt_permits
      dest: upd_recovery_permits upsert_submitting_permits split: sum.splits)

lemma manager_permits:
  "permits (snd (release pl fault now rid reason d)) = permits d"
  "permits (snd (consume pl fault an dn rid n d)) = permits d"
  using release_advance [of d pl fault now rid reason] consume_advance [of d pl fault an dn rid n]
  by (simp_all add: rows_advance_def)

lemma pg_save_claimed: "pg_isClaimed q d \<Longrightarrow> pg_isClaimed q (snd (pg_save fault p d))"
proof (cases "pg_save fault p d")
  case (Pair x d')
  assume c: "pg_isClaimed q d"
  from Pair have "pg_isClaimed q d'"
    unfolding pg_save_def
    by (cases rule: pg_stmt_cases)
      (use c in \<open>auto simp: pg_isClaimed_def row_of_append split: sum.splits if_splits option.splits\<close>)
  with Pair show ?thesis by simp
qed

lemma on_db_quiet:
  assumes "\<And>q d. pg_isClaimed q d \<Longrightarrow> pg_isClaimed q (snd (m d))"
  shows "steps_eff (quiet_step wo_placed pg_claimed) (on_db m)"
proof -
  have "quiet_step wo_placed pg_claimed w (snd (on_db m w))" for w
  proof (cases "m (wo_db w)")
    case (Pair x d')
    with assms [of _ "wo_db w"] show ?thesis by (simp add: on_part_def quiet_step_def pg_claimed_def)
  qed
  then show ?thesis by (simp add: steps_eff_def)
qed

lemma same_permits_claimed:
  "permits (snd (m d)) = permits d \<Longrightarrow> pg_isClaimed q d \<Longrightarrow> pg_isClaimed q (snd (m d))"
  by (simp add: pg_isClaimed_def)

lemma pg_claim_claimed:
  "pg_isClaimed q d \<Longrightarrow> pg_isClaimed q (snd (pg_claimAndRecord e now pid oid v h d))"
  by (cases "pg_claimAndRecord e now pid oid v h d")
    (auto simp: pg_claimAndRecord_def dest: claim_txn_laws(2))

lemma on_leases_quiet: "steps_eff (quiet_step wo_placed pg_claimed) (on_leases m)"
  by (auto simp: steps_eff_def quiet_step_def on_part_def pg_claimed_def split: prod.splits)

lemma total_snd: "snd (total m d) = snd (m d)"
  by (simp add: total_def split: prod.split)

lemma read_only_snd: "snd (read_only f d) = d"
  by (simp add: read_only_def)

interpretation pg: executor_ops "pg_deps read_int8 e" wo_placed pg_claimed for read_int8 e
proof unfold_locales
  fix pid oid h w x w'
  assume "d_claim (pg_deps read_int8 e) pid oid h w = (Inr (Ok x), w')"
  then obtain d' where "pg_claimAndRecord (ledger_env_of e ''claim'') (en_now e) pid oid None (Some h) (wo_db w)
      = (Ok x, d')" and "w' = w\<lparr>wo_db := d'\<rparr>"
    by (auto simp: pg_deps_def on_part_def total_def split: prod.splits)
  then show "\<not> pg_claimed pid w \<and> pg_claimed pid w'"
    unfolding pg_claimAndRecord_def pg_claimed_def by (auto dest: claim_txn_laws)
qed (auto simp: pg_deps_def on_leases_quiet total_snd read_only_snd pg_ledger_permits
    pg_consumeFill_permits manager_permits quiet_step_def steps_eff_def [of _ "read_only _"] pg_claimed_def
    venue_place_def read_only_def
    intro!: on_db_quiet intro: same_permits_claimed pg_save_claimed pg_claim_claimed)

section \<open>What a submission that reaches the venue has passed\<close>

lemma submit_placed:
  assumes "executor_ops D wo_placed claimed" and "wo_placed (snd (submit is_uuid D ord permit w)) \<noteq> wo_placed w"
  shows "submit_allowed is_uuid D ord permit \<and> \<not> claimed (permit_id permit) w \<and>
    wo_placed (snd (submit is_uuid D ord permit w)) = wo_placed w @ [ord]"
  using assms(2) executor_ops.quiet_unless_allowed [OF assms(1), of is_uuid ord permit]
    executor_ops.submit_places_once [OF assms(1), of permit ord is_uuid]
  by (auto simp: steps_eff_def quiet_step_def submit_step_def)

lemma wired: "D \<in> {mem_deps e, pg_deps read_int8 e} \<Longrightarrow> \<exists>claimed. executor_ops D wo_placed claimed"
  using mem.executor_ops_axioms pg.executor_ops_axioms by auto

section \<open>The seen log\<close>

text \<open>An order is log_held back while the log has it in any state but a definitive rejection.\<close>

definition log_held :: "uuid \<Rightarrow> world \<Rightarrow> bool" where
  "log_held oid w \<longleftrightarrow> (case wo_seen w oid of None \<Rightarrow> False | Some st \<Rightarrow> st \<noteq> DEFINITIVE_REJECT)"

definition same_log :: "world \<Rightarrow> world \<Rightarrow> bool" where
  "same_log u v \<longleftrightarrow> wo_seen v = wo_seen u \<and> wo_placed v = wo_placed u"

text \<open>The venue's answer proves that no order exists.\<close>

definition clearly_rejected :: "submit_outcome \<Rightarrow> bool" where
  "clearly_rejected answer =
     (case answer of
        Sub_Fail code reason \<Rightarrow> code = ''DEFINITELY_NOT_SENT'' \<and> provedNothingSent (Some reason)
      | Sub_Ok res \<Rightarrow> res_submit_status res = Some Submit_DEFINITIVE_REJECT)"

lemma same_log_preorder: "preorder_on_states same_log"
  by (auto simp: preorder_on_states_def same_log_def)

locale seen_log = executor_ops D wo_placed claimed for D :: "world deps" and claimed +
  fixes e :: run_env
  assumes log: "d_seen_get D = (\<lambda>oid w. wo_seen w oid)"
      "d_seen_add D = (\<lambda>oid st w. w\<lparr>wo_seen := (wo_seen w)(oid \<mapsto> st)\<rparr>)"
    and venue: "d_placeOrder D = venue_place e"
    and ops: "steps_eff same_log (d_acquire D)" "steps_eff same_log (d_releaseLease D)"
      "steps_eff same_log (d_isClaimed D pid)" "steps_eff same_log (d_save D p)"
      "steps_eff same_log (d_validatePermit D pid n)" "steps_eff same_log (d_claim D pid oid h)"
      "steps_eff same_log (d_addSubmittedUnknown D oid pid)" "steps_eff same_log (d_updateState D oid st v)"
      "steps_eff same_log (d_resolve D oid res)" "steps_eff same_log (d_consumeFill D oid sh c)"
      "steps_eff same_log (d_rmRelease D rid reason)" "steps_eff same_log (d_rmConsume D rid k)"
begin

lemma log_frame: "submit_frame same_log D"
  using ops by (simp add: submit_frame_def same_log_preorder)

text \<open>From the mark on, the order stays log_held unless the answer is a clear rejection.\<close>

definition holds :: "uuid \<Rightarrow> world \<Rightarrow> world \<Rightarrow> bool" where
  "holds oid u v \<longleftrightarrow> log_held oid u \<longrightarrow> log_held oid v"

lemma holds_preorder: "preorder_on_states (holds oid)"
  by (auto simp: preorder_on_states_def holds_def)

lemma holds_log: "steps_eff same_log m \<Longrightarrow> steps_eff (holds oid) m"
  by (simp add: steps_eff_def same_log_def holds_def log_held_def)

lemma holds_mark: "st \<noteq> DEFINITIVE_REJECT \<Longrightarrow> steps_eff (holds oid) (mark_seen D oid' st)"
  by (simp add: steps_eff_def mark_seen_def log holds_def log_held_def)

lemma holds_venue: "steps_eff (holds oid) (d_placeOrder D ord)"
  by (simp add: steps_eff_def venue venue_place_def holds_def log_held_def)

lemmas holds_rules = steps_return [OF holds_preorder] steps_throw [OF holds_preorder]
  steps_bind [OF holds_preorder] steps_attempt [OF holds_preorder] steps_each [OF holds_preorder]
  ops [THEN holds_log] holds_mark holds_venue

lemma holds_leave: "steps_eff (holds oid) (leave D x)"
  unfolding leave_def by (intro holds_rules)

lemma holds_release_all: "steps_eff (holds oid) (release_all D ids reason)"
  unfolding release_all_def by (intro steps_if holds_rules)

lemma holds_lift: "steps_eff (holds oid) (lift_js r)"
  by (cases r) (simp_all add: lift_js_def holds_rules)

lemma holds_after_failure:
  assumes "\<not> clearly_rejected (Sub_Fail code reason)"
  shows "steps_eff (holds oid) (after_failure D ord permit code reason)"
  using assms unfolding after_failure_def Let_def clearly_rejected_def
  by (auto intro!: steps_if holds_rules holds_leave holds_release_all)

lemma holds_after_ack:
  assumes "\<not> clearly_rejected (Sub_Ok res)"
  shows "steps_eff (holds oid) (after_ack D ord permit res)"
proof -
  let ?st = "fst (orderLifecycleNext SUBMITTING
      (case res_submit_status res of Some x \<Rightarrow> x | None \<Rightarrow> Submit_SUBMITTING))"
  have st: "?st \<noteq> DEFINITIVE_REJECT"
  proof (cases "res_submit_status res")
    case (Some x)
    with assms show ?thesis by (cases x) (simp_all add: clearly_rejected_def)
  qed simp
  have fill: "steps_eff (holds oid) (settle_fill D ord permit res)"
    unfolding settle_fill_def fill_cost_def
    by (auto intro!: holds_rules holds_lift split: option.split prod.split)
  show ?thesis
    unfolding after_ack_def Let_def by (intro holds_rules st holds_leave fill)
qed

definition log_settled :: "uuid \<Rightarrow> world \<Rightarrow> world \<Rightarrow> bool" where
  "log_settled oid u v \<longleftrightarrow> same_log u v \<or> log_held oid v"

lemma log_settled_framed: "framed_by same_log (log_settled oid)"
  by (auto simp: framed_by_def same_log_def log_settled_def log_held_def)

lemma place_settles:
  assumes "\<not> clearly_rejected (en_place e ord)"
  shows "steps_eff (log_settled (order_id ord)) (place D ord permit)"
proof -
  let ?oid = "order_id ord"
  have answer: "steps_eff (holds ?oid) (bind_eff (d_placeOrder D ord) (\<lambda>res. case res of
      Sub_Fail code reason \<Rightarrow> after_failure D ord permit code reason
    | Sub_Ok result \<Rightarrow> after_ack D ord permit result))" (is "steps_eff _ (bind_eff _ ?f)")
  proof -
    have "steps_eff (holds ?oid) (?f (en_place e ord))"
      using assms by (cases "en_place e ord") (simp_all add: holds_after_failure holds_after_ack)
    then show ?thesis
      by (simp add: steps_eff_def venue venue_place_def bind_eff_def holds_def log_held_def)
  qed
  have "steps_eff (holds ?oid) (bind_eff (d_addSubmittedUnknown D ?oid (permit_id permit))
      (\<lambda>_. bind_eff (d_placeOrder D ord) (\<lambda>res. case res of
      Sub_Fail code reason \<Rightarrow> after_failure D ord permit code reason
    | Sub_Ok result \<Rightarrow> after_ack D ord permit result)))"
    by (rule steps_bind [OF holds_preorder ops(7) [THEN holds_log] answer])
  then have rest: "log_held ?oid u \<Longrightarrow> log_held ?oid (snd (bind_eff (d_addSubmittedUnknown D ?oid (permit_id permit))
      (\<lambda>_. bind_eff (d_placeOrder D ord) (\<lambda>res. case res of
      Sub_Fail code reason \<Rightarrow> after_failure D ord permit code reason
    | Sub_Ok result \<Rightarrow> after_ack D ord permit result)) u))" for u
    by (simp add: steps_eff_def holds_def)
  show ?thesis
    by (simp add: place_def bind_eff_def [of "mark_seen _ _ _"] mark_seen_def log steps_eff_def log_settled_def)
      (simp add: rest log_held_def [of _ "_\<lparr>wo_seen := _\<rparr>"])
qed

lemma submit_settles:
  assumes "\<not> clearly_rejected (en_place e ord)"
  shows "steps_eff (log_settled (order_id ord)) (submit is_uuid D ord permit)"
proof (rule submit_lift [OF log_frame log_settled_framed])
  have "steps_eff (log_settled (order_id ord)) (case c of Refused code \<Rightarrow> leave D (Permit_Invalid code)
      | Ok _ \<Rightarrow> place D ord permit)" for c
    by (cases c) (simp_all add: place_settles [OF assms] framed_leave [OF log_frame log_settled_framed])
  then show "steps_eff (log_settled (order_id ord)) (claim_and_place D ord permit)"
    unfolding claim_and_place_def by (intro framed_before [OF log_settled_framed] ops)
qed

text \<open>An order that is log_held is not placed again.\<close>

lemma held_is_duplicate:
  assumes "log_held (order_id ord) w"
  shows "same_log w (snd (submit is_uuid D ord permit w))"
proof -
  have dup: "same_log u (snd (finally_eff (leave D x) (d_releaseLease D) u))" for x :: try_submit and u
  proof -
    have "steps_eff same_log (leave D x)"
      by (rule framed_leave [OF log_frame framed_by_self [OF same_log_preorder]])
    then have "steps_eff same_log (finally_eff (leave D x) (d_releaseLease D))"
      by (rule steps_finally [OF _ ops(2)]) (auto simp: same_log_def)
    then show ?thesis by (simp add: steps_eff_def)
  qed
  show ?thesis
  proof (cases "d_acquire D w")
    case (Pair r w1)
    have same: "same_log w w1" using ops(1) Pair by (rule steps_effD)
    with assms have "log_held (order_id ord) w1" by (simp add: same_log_def log_held_def)
    then have "finally_eff (submitInner is_uuid D ord permit) (d_releaseLease D) w1
        = finally_eff (leave D (Duplicate ''ALREADY_SEEN'')) (d_releaseLease D) w1"
      by (auto simp: submitInner_def log log_held_def finally_eff_def split: option.splits)
    with dup same Pair show ?thesis
      by (cases r) (auto simp: submit_def bind_eff_def return_eff_def same_log_def)
  qed
qed

text \<open>A submission of another order neither marks nor places this one.\<close>

definition apart :: "uuid \<Rightarrow> world \<Rightarrow> world \<Rightarrow> bool" where
  "apart q u v \<longleftrightarrow> wo_seen v q = wo_seen u q \<and> placed_count q v = placed_count q u"

lemma apart_preorder: "preorder_on_states (apart q)"
  by (auto simp: preorder_on_states_def apart_def)

lemma apart_log: "steps_eff same_log m \<Longrightarrow> steps_eff (apart q) m"
  by (simp add: steps_eff_def same_log_def apart_def placed_count_def)

lemmas apart_rules = steps_return [OF apart_preorder] steps_throw [OF apart_preorder]
  steps_bind [OF apart_preorder] steps_attempt [OF apart_preorder] steps_each [OF apart_preorder]
  ops [THEN apart_log]

lemma apart_other:
  assumes "q \<noteq> order_id ord"
  shows "steps_eff (apart q) (submit is_uuid D ord permit)"
proof -
  have mark: "steps_eff (apart q) (mark_seen D (order_id ord) st)" for st
    using assms by (simp add: steps_eff_def mark_seen_def log apart_def placed_count_def)
  have send: "steps_eff (apart q) (d_placeOrder D ord)"
    using assms by (simp add: steps_eff_def venue venue_place_def apart_def placed_count_def)
  have leave1: "steps_eff (apart q) (leave D x)" for x :: unit unfolding leave_def by (intro apart_rules)
  have lift1: "steps_eff (apart q) (lift_js r)" for r :: "js_error + int"
    by (cases r) (simp_all add: lift_js_def apart_rules)
  have rel: "steps_eff (apart q) (release_all D ids reason)" for ids reason
    unfolding release_all_def by (intro steps_if apart_rules)
  have leave2: "steps_eff (apart q) (leave D x)" for x :: try_submit unfolding leave_def by (intro apart_rules)
  have "steps_eff (apart q) (claim_and_place D ord permit)"
    unfolding claim_and_place_def place_def after_failure_def after_ack_def settle_fill_def fill_cost_def Let_def
    by (auto intro!: apart_rules mark send leave1 leave2 lift1 rel steps_if
        split: outcome.split submit_outcome.split option.split prod.split)
  then show ?thesis
    using log_frame
    by (intro submit_lift [OF _ framed_by_self [OF apart_preorder]])
      (auto simp: submit_frame_def apart_preorder apart_log)
qed

text \<open>What one submission does to the count of an order.\<close>

lemma submit_count:
  assumes "q = order_id ord \<longrightarrow> \<not> clearly_rejected (en_place e ord)"
    and "w' = snd (submit is_uuid D ord permit w)"
  shows "if log_held q w then log_held q w' \<and> placed_count q w' = placed_count q w
    else placed_count q w' = placed_count q w
      \<or> log_held q w' \<and> placed_count q w' = placed_count q w + 1"
proof (cases "q = order_id ord")
  case False
  from apart_other [OF this, of is_uuid permit] have "apart q w w'" by (simp add: steps_eff_def assms(2))
  then show ?thesis by (simp add: apart_def log_held_def)
next
  case True
  with assms submit_settles have s: "log_settled q w w'" by (simp add: steps_eff_def)
  have p: "submit_step wo_placed claimed (permit_id permit) ord w w'"
    using submit_places_once by (simp add: steps_eff_def assms(2) True)
  have d: "log_held q w \<Longrightarrow> same_log w w'" using held_is_duplicate by (simp add: assms(2) True)
  show ?thesis
    using s p d by (auto simp: log_settled_def submit_step_def quiet_step_def same_log_def log_held_def placed_count_def True)
qed

end

lemma on_db_log: "steps_eff same_log (on_db m)"
  by (simp add: steps_eff_def on_part_def same_log_def split: prod.split)

lemma on_other_log:
  "steps_eff same_log (on_leases l)" "steps_eff same_log (on_permits p)" "steps_eff same_log (on_ledger g)"
  by (simp_all add: steps_eff_def on_part_def same_log_def split: prod.split)

interpretation mem_log: seen_log "mem_deps e" mem_claimed e for e
  by unfold_locales (simp_all add: mem_deps_def on_db_log on_other_log)

interpretation pg_log: seen_log "pg_deps read_int8 e" pg_claimed e for read_int8 e
  by unfold_locales (simp_all add: pg_deps_def on_db_log on_other_log)

section \<open>Runs\<close>

text \<open>An order id is placed at most once more in a run whose answers for it leave it possible that it exists.\<close>

lemma placements_count:
  assumes log: "\<And>e. seen_log (deps_of e) claimed e"
    and "\<forall>(e, ord, permit) \<in> set calls. order_id ord = q \<longrightarrow> \<not> clearly_rejected (en_place e ord)"
    and "placements is_uuid deps_of wo_placed calls w = (ps, w')"
  shows "(if log_held q w then log_held q w' \<and> placed_count q w' = placed_count q w
    else placed_count q w' = placed_count q w
      \<or> log_held q w' \<and> placed_count q w' = placed_count q w + 1)"
  using assms(2,3)
proof (induction calls arbitrary: w ps)
  case Nil
  then show ?case by simp
next
  case (Cons call calls)
  obtain e ord permit where call: "call = (e, ord, permit)" by (cases call)
  define w1 where "w1 = snd (submit is_uuid (deps_of e) ord permit w)"
  obtain qs where rest: "placements is_uuid deps_of wo_placed calls w1 = (qs, w')"
    using Cons.prems(2) by (auto simp: call w1_def Let_def split: prod.splits)
  have "q = order_id ord \<longrightarrow> \<not> clearly_rejected (en_place e ord)"
    using Cons.prems(1) by (auto simp: call)
  note one = seen_log.submit_count [OF log this w1_def]
  have two: "\<forall>(e, ord, permit) \<in> set calls. order_id ord = q \<longrightarrow> \<not> clearly_rejected (en_place e ord)"
    using Cons.prems(1) by simp
  show ?case using one Cons.IH [OF two rest] by (auto split: if_splits)
qed

section \<open>Unknown outcomes\<close>

text \<open>The venue's answer leaves it open whether the order exists.\<close>

definition outcome_unknown :: "submit_outcome \<Rightarrow> bool" where
  "outcome_unknown answer =
     (case answer of
        Sub_Fail code reason \<Rightarrow> code = ''SUBMISSION_UNKNOWN'' \<or>
          code = ''DEFINITELY_NOT_SENT'' \<and> \<not> provedNothingSent (Some reason)
      | Sub_Ok res \<Rightarrow> False)"

text \<open>The funds are untouched; once the order is recorded, reconciliation still has it to do.\<close>

definition untouched :: "world \<Rightarrow> world \<Rightarrow> bool" where
  "untouched u v \<longleftrightarrow> wo_db v = wo_db u \<and> wo_placed v = wo_placed u \<and> wo_ledger v = wo_ledger u"

definition pending :: "uuid \<Rightarrow> world \<Rightarrow> world \<Rightarrow> bool" where
  "pending oid u v \<longleftrightarrow> wo_db v = wo_db u \<and>
     (mem_needsReconcile oid (wo_ledger u) \<longrightarrow> mem_needsReconcile oid (wo_ledger v))"

definition reconcilable :: "uuid \<Rightarrow> world \<Rightarrow> world \<Rightarrow> bool" where
  "reconcilable oid u v \<longleftrightarrow> untouched u v \<or> wo_db v = wo_db u \<and> mem_needsReconcile oid (wo_ledger v)"

lemma untouched_preorder: "preorder_on_states untouched"
  by (auto simp: preorder_on_states_def untouched_def)

lemma pending_preorder: "preorder_on_states (pending oid)"
  by (auto simp: preorder_on_states_def pending_def)

lemma reconcilable_framed: "framed_by untouched (reconcilable oid)"
  by (auto simp: framed_by_def untouched_def reconcilable_def)

lemma on_untouched: "steps_eff untouched (on_leases l)" "steps_eff untouched (on_permits p)"
  by (simp_all add: steps_eff_def on_part_def untouched_def split: prod.split)

lemma mem_untouched: "submit_frame untouched (mem_deps e)"
  by (simp add: submit_frame_def untouched_preorder mem_deps_def on_untouched)

lemma mem_updateState_pending:
  "mem_needsReconcile oid g \<Longrightarrow> mem_needsReconcile oid (mem_updateState now q st v g)"
  unfolding mem_updateState_def mem_needsReconcile_def
  by (subst row_of_upd_row) (auto split: option.splits)

lemma mem_pending:
  "steps_eff (pending oid) (mark_seen (mem_deps e) q st)"
  "steps_eff (pending oid) (d_updateState (mem_deps e) q st v)"
  "steps_eff (pending oid) (leave (mem_deps e) x)"
  by (simp_all add: steps_eff_def mark_seen_def leave_def mem_deps_def pending_def on_part_def update_def
      mem_updateState_pending bind_eff_def return_eff_def split: prod.split sum.split)

lemma mem_place_pending:
  assumes "outcome_unknown (en_place e ord)"
  shows "steps_eff (reconcilable (order_id ord)) (place (mem_deps e) ord permit)"
proof -
  obtain code reason where ans: "en_place e ord = Sub_Fail code reason"
    and unk: "code = ''SUBMISSION_UNKNOWN'' \<or> code = ''DEFINITELY_NOT_SENT'' \<and> \<not> provedNothingSent (Some reason)"
    using assms by (auto simp: outcome_unknown_def split: submit_outcome.splits)
  have "steps_eff (pending (order_id ord)) (after_failure (mem_deps e) ord permit code reason)"
    using unk unfolding after_failure_def Let_def
    by (auto intro!: steps_bind [OF pending_preorder] mem_pending)
  then have after: "pending (order_id ord) w (snd (after_failure (mem_deps e) ord permit code reason w))" for w
    by (simp add: steps_eff_def)
  have "reconcilable (order_id ord) w (snd (place (mem_deps e) ord permit w))" for w
    using after [of "w\<lparr>wo_seen := (wo_seen w)(order_id ord \<mapsto> SUBMITTING),
      wo_ledger := mem_addSubmittedUnknown (en_now e) (order_id ord) None (Some (permit_id permit)) (wo_ledger w),
      wo_placed := wo_placed w @ [ord]\<rparr>"]
    by (simp add: place_def mark_seen_def mem_deps_def bind_eff_def on_part_def update_def venue_place_def
        ans reconcilable_def pending_def mem_needsReconcile_def mem_addSubmittedUnknown_def row_of_put_row
        submitting_row_def)
  then show ?thesis by (simp add: steps_eff_def)
qed

lemma mem_submit_pending:
  assumes "outcome_unknown (en_place e ord)"
  shows "steps_eff (reconcilable (order_id ord)) (submit is_uuid (mem_deps e) ord permit)"
proof (rule submit_lift [OF mem_untouched reconcilable_framed])
  have "steps_eff (reconcilable (order_id ord)) (case c of
      Refused code \<Rightarrow> leave (mem_deps e) (Permit_Invalid code) | Ok _ \<Rightarrow> place (mem_deps e) ord permit)" for c
    by (cases c) (simp_all add: mem_place_pending [OF assms] framed_leave [OF mem_untouched reconcilable_framed])
  then show "steps_eff (reconcilable (order_id ord)) (claim_and_place (mem_deps e) ord permit)"
    unfolding claim_and_place_def
    by (intro framed_before [OF reconcilable_framed]) (simp_all add: mem_deps_def on_untouched)
qed

text \<open>On the PostgreSQL stores: balances and reservations stay; an order the ledger has not closed stays open there.\<close>

definition funds_open :: "uuid \<Rightarrow> db \<Rightarrow> db \<Rightarrow> bool" where
  "funds_open oid d d' \<longleftrightarrow> balances d' = balances d \<and> reservations d' = reservations d \<and>
     (resolved_in oid d' \<longrightarrow> resolved_in oid d) \<and> (pg_needsReconcile oid d \<longrightarrow> pg_needsReconcile oid d')"

definition pg_open :: "uuid \<Rightarrow> world \<Rightarrow> world \<Rightarrow> bool" where
  "pg_open oid u v \<longleftrightarrow> funds_open oid (wo_db u) (wo_db v)"

definition pg_untouched :: "uuid \<Rightarrow> world \<Rightarrow> world \<Rightarrow> bool" where
  "pg_untouched oid u v \<longleftrightarrow> pg_open oid u v \<and> wo_placed v = wo_placed u"

definition pg_reconcilable :: "uuid \<Rightarrow> world \<Rightarrow> world \<Rightarrow> bool" where
  "pg_reconcilable oid u v \<longleftrightarrow> pg_untouched oid u v \<or> pg_open oid u v \<and>
     (resolved_in oid (wo_db u) \<or> pg_needsReconcile oid (wo_db v))"

lemma funds_open_refl [simp]: "funds_open oid d d"
  by (simp add: funds_open_def)

lemma pg_open_preorder: "preorder_on_states (pg_open oid)" "preorder_on_states (pg_untouched oid)"
  by (auto simp: preorder_on_states_def pg_open_def pg_untouched_def funds_open_def)

lemma pg_reconcilable_framed: "framed_by (pg_untouched oid) (pg_reconcilable oid)"
  by (auto simp: framed_by_def pg_reconcilable_def pg_untouched_def pg_open_def funds_open_def)

lemma funds_open_stmt:
  assumes "\<And>x d'. body d = Inr (x, d') \<Longrightarrow> funds_open oid d d'"
  shows "funds_open oid d (snd (pg_stmt fault body d))"
proof (cases "pg_stmt fault body d")
  case (Pair x d')
  then have "funds_open oid d d'" by (cases rule: pg_stmt_cases) (auto dest: assms)
  with Pair show ?thesis by simp
qed

lemma funds_open_recovery:
  assumes "upd_recovery k f d = Inr (u, d')" and "\<And>x. rc_order_id (f x) = rc_order_id x"
    and "\<And>x. rc_resolved (f x) = rc_resolved x"
  shows "funds_open oid d d'"
  using assms by (auto simp: upd_recovery_def Let_def funds_open_def resolved_in_def pg_needsReconcile_def row_of_upd_row
      split: if_splits option.splits)

lemma upsert_open:
  assumes "upsert_submitting known now k v p d = Inr d'"
  shows "funds_open oid d d'" and "\<not> resolved_in k d \<Longrightarrow> pg_needsReconcile k d'"
  using assms
  by (auto simp: upsert_submitting_def funds_open_def resolved_in_def pg_needsReconcile_def row_of_append row_of_upd_row
      submitting_row_def split: if_splits option.splits)

lemma pg_updateState_open: "funds_open oid d (snd (pg_updateState e now k st v d))"
  unfolding pg_updateState_def by (rule funds_open_stmt) (auto elim: funds_open_recovery)

lemma pg_save_open: "funds_open oid d (snd (pg_save fault p d))"
  unfolding pg_save_def
  by (rule funds_open_stmt) (auto simp: funds_open_def resolved_in_def pg_needsReconcile_def split: sum.splits if_splits)

lemma claim_body_open:
  assumes "claim_body code known now pid k v h d = Inr (x, d')"
  shows "funds_open oid d d'"
proof -
  have "funds_open oid (d\<lparr>permits := ps\<rparr>) d'' \<Longrightarrow> funds_open oid d d''" for ps d''
    by (simp add: funds_open_def resolved_in_def pg_needsReconcile_def)
  with assms show ?thesis
    by (auto simp: claim_body_def Let_def split: if_splits sum.splits dest: upsert_open(1) [of _ _ _ _ _ _ _ oid])
qed

lemma pg_claim_open: "funds_open oid d (snd (pg_claimAndRecord e now pid k v h d))"
  unfolding pg_claimAndRecord_def by (rule with_txn_invariant) (auto elim: claim_body_open)

lemma pg_addSubmittedUnknown_open:
  assumes "pg_addSubmittedUnknown le now oid v p d = (r, d')"
  shows "funds_open oid d d'" and "r = Inr x \<Longrightarrow> \<not> resolved_in oid d \<Longrightarrow> pg_needsReconcile oid d'"
  using assms unfolding pg_addSubmittedUnknown_def
  by (auto elim!: pg_stmt_cases dest: upsert_open split: sum.splits)

lemma on_db_open:
  assumes "\<And>d. funds_open oid d (snd (m d))"
  shows "steps_eff (pg_untouched oid) (on_db m)" "steps_eff (pg_open oid) (on_db m)"
  using assms
  by (auto simp: steps_eff_def on_part_def pg_untouched_def pg_open_def split: prod.split)
    (metis snd_conv)+

lemma on_leases_open: "steps_eff (pg_untouched oid) (on_leases l)" "steps_eff (pg_open oid) (on_leases l)"
  by (simp_all add: steps_eff_def on_part_def pg_untouched_def pg_open_def split: prod.split)

lemma pg_frame: "submit_frame (pg_untouched oid) (pg_deps read_int8 e)"
  by (auto simp: submit_frame_def pg_open_preorder pg_deps_def on_leases_open read_only_snd pg_save_open intro!: on_db_open)

lemma pg_pending:
  "steps_eff (pg_open oid) (mark_seen (pg_deps read_int8 e) q st)"
  "steps_eff (pg_open oid) (d_updateState (pg_deps read_int8 e) q st v)"
  "steps_eff (pg_open oid) (leave (pg_deps read_int8 e) x)"
proof -
  show "steps_eff (pg_open oid) (mark_seen (pg_deps read_int8 e) q st)"
    by (simp add: steps_eff_def mark_seen_def pg_deps_def pg_open_def)
  show "steps_eff (pg_open oid) (d_updateState (pg_deps read_int8 e) q st v)"
    by (simp add: pg_deps_def on_db_open pg_updateState_open)
  show "steps_eff (pg_open oid) (leave (pg_deps read_int8 e) x)"
    unfolding leave_def by (intro steps_bind [OF pg_open_preorder(1)] steps_return [OF pg_open_preorder(1)])
      (simp add: pg_deps_def on_leases_open)
qed

lemma pg_place_pending:
  assumes "outcome_unknown (en_place e ord)"
  shows "steps_eff (pg_reconcilable (order_id ord)) (place (pg_deps read_int8 e) ord permit)"
proof -
  let ?oid = "order_id ord" and ?D = "pg_deps read_int8 e"
  obtain code reason where ans: "en_place e ord = Sub_Fail code reason"
    and unk: "code = ''SUBMISSION_UNKNOWN'' \<or> code = ''DEFINITELY_NOT_SENT'' \<and> \<not> provedNothingSent (Some reason)"
    using assms by (auto simp: outcome_unknown_def split: submit_outcome.splits)
  have "steps_eff (pg_open ?oid) (after_failure ?D ord permit code reason)"
    using unk unfolding after_failure_def Let_def
    by (auto intro!: steps_bind [OF pg_open_preorder(1)] pg_pending)
  then have after: "funds_open ?oid (wo_db u) (wo_db (snd (after_failure ?D ord permit code reason u)))" for u
    by (simp add: steps_eff_def pg_open_def)
  have "pg_reconcilable ?oid w (snd (place ?D ord permit w))" for w
  proof -
    obtain r d where add: "pg_addSubmittedUnknown (ledger_env_of e ''add'') (en_now e) ?oid None (Some (permit_id permit))
        (wo_db w) = (r, d)" by fastforce
    note laws = pg_addSubmittedUnknown_open [OF add]
    let ?u = "w\<lparr>wo_seen := (wo_seen w)(?oid \<mapsto> SUBMITTING), wo_db := d\<rparr>"
    show ?thesis
    proof (cases r)
      case (Inl err)
      with add laws show ?thesis
        by (simp add: place_def mark_seen_def pg_deps_def bind_eff_def on_part_def pg_reconcilable_def pg_untouched_def pg_open_def)
    next
      case (Inr x)
      then have out: "snd (place ?D ord permit w)
          = snd (after_failure ?D ord permit code reason (?u\<lparr>wo_placed := wo_placed w @ [ord]\<rparr>))"
        using add by (simp add: place_def mark_seen_def pg_deps_def bind_eff_def on_part_def venue_place_def ans)
      show ?thesis
        unfolding out using after [of "?u\<lparr>wo_placed := wo_placed w @ [ord]\<rparr>"] laws Inr
        by (auto simp: pg_reconcilable_def pg_open_def funds_open_def)
    qed
  qed
  then show ?thesis by (simp add: steps_eff_def)
qed

lemma pg_submit_pending:
  assumes "outcome_unknown (en_place e ord)"
  shows "steps_eff (pg_reconcilable (order_id ord)) (submit is_uuid (pg_deps read_int8 e) ord permit)"
proof (rule submit_lift [OF pg_frame pg_reconcilable_framed])
  have "steps_eff (pg_reconcilable (order_id ord)) (case c of
      Refused code \<Rightarrow> leave (pg_deps read_int8 e) (Permit_Invalid code) | Ok _ \<Rightarrow> place (pg_deps read_int8 e) ord permit)" for c
    by (cases c) (simp_all add: pg_place_pending [OF assms] framed_leave [OF pg_frame pg_reconcilable_framed])
  then show "steps_eff (pg_reconcilable (order_id ord)) (claim_and_place (pg_deps read_int8 e) ord permit)"
    unfolding claim_and_place_def
    by (intro framed_before [OF pg_reconcilable_framed])
      (simp_all add: pg_deps_def on_db_open total_snd pg_claim_open)
qed

section \<open>A run\<close>

definition sample_world :: world where
  "sample_world = \<lparr>wo_leases = (\<lambda>_. None), wo_permits = (\<lambda>_. None), wo_ledger = [],
     wo_seen = (\<lambda>_. None), wo_db = empty_db, wo_placed = []\<rparr>"

definition sample_permit :: execution_permit where
  "sample_permit = \<lparr>permit_id = ''p1'', p_decision_id = ''d1'', p_intent_id = ''i1'',
     p_ledger_version = ''1'', p_policy_version = ''1'', p_policy_hash = ''h'', p_quote_id = ''q'',
     p_lease_epoch = Fin 1, p_reservation_ids = [''r1''], max_qty = Fin 1, max_cash = Fin 1,
     max_qty_base = None, max_cash_base = None, p_market_id = Some ''m1'', p_side = Some BUY,
     price_min_base = None, price_max_base = Some 600000, allowed_order_style = [''LIMIT''],
     p_venue_mode = Venue_NORMAL, issued_at = 0, expires_at = 5000, single_use = True, used_at = None\<rparr>"

definition sample_order :: signed_order where
  "sample_order = \<lparr>order_id = ''o1'', o_market_id = ''m1'', o_side = BUY, o_price = Fin (1 / 2),
     o_size = Fin 1, o_permit_id = Some ''p1'', o_order_type = Some Style_LIMIT\<rparr>"

definition sample_env :: "submit_outcome \<Rightarrow> run_env" where
  "sample_env answer = \<lparr>en_mode = Venue_NORMAL, en_now = 1000, en_wallet = ''w1'', en_holder = ''h1'',
     en_epoch = Fin 1, en_sha256 = (\<lambda>_. ''hash''), en_place = (\<lambda>_. answer),
     en_cancel = (\<lambda>_. Sub_Fail [] []), en_status = (\<lambda>_. None), en_manager = True,
     en_fault = (\<lambda>_. NoFault), en_order_known = (\<lambda>_. True), en_wallet_known = (\<lambda>_. True)\<rparr>"

lemma sample_accepted: "order_refusal sample_order sample_permit = Inr None"
  by (simp add: order_refusal_def sample_order_def sample_permit_def permitCoversOrder_def toBase6_one
      decimalToBase_half price_bound_def cashNeededFor_def)

lemma sample_fields:
  "order_id sample_order = ''o1''" "o_permit_id sample_order = Some ''p1''" "permit_id sample_permit = ''p1''"
  "single_use sample_permit" "expires_at sample_permit = 5000" "p_lease_epoch sample_permit = Fin 1"
  by (simp_all add: sample_order_def sample_permit_def)

lemma sample_schema: "ExecutionPermitSchema (\<lambda>_. True) sample_permit"
  by (simp add: ExecutionPermitSchema_def sample_permit_def z_min1_def z_nonneg_def num_eval)

lemmas run_defs = submit_def finally_eff_def submitInner_def fresh_submit_def unless_reused_def
  checked_submit_def lift_js_def claim_and_place_def place_def mark_seen_def leave_def eff_defs
  mem_deps_simps mem_acquireExecutorLease_def mem_releaseExecutorLease_def mem_isClaimed_def mem_save_def
  mem_validatePermit_def mem_claimAndRecord_def venue_place_def venueActionGate_def sample_world_def
  sample_env_def sample_fields sample_schema sample_accepted

lemma sample_unknown:
  "wo_placed (snd (submit (\<lambda>_. True) (mem_deps (sample_env (Sub_Fail ''SUBMISSION_UNKNOWN'' ''timeout'')))
     sample_order sample_permit sample_world)) = [sample_order]"
  by (simp add: run_defs after_failure_def Let_def)

text \<open>The same run on PostgreSQL, whose permits table has the permit, over a driver that delivers BIGINT columns as numbers.\<close>

definition number_int8 :: "int \<Rightarrow> js_value" where
  "number_int8 n = JsNumber (Fin (of_int n))"

definition pg_sample_world :: world where
  "pg_sample_world = sample_world\<lparr>wo_db := empty_db\<lparr>permits :=
     (case permit_row_of sample_permit of Inl _ \<Rightarrow> [] | Inr row \<Rightarrow> [row])\<rparr>\<rparr>"

lemma sample_row: "permit_row_of sample_permit = Inr \<lparr>pr_permit_id = ''p1'', pr_decision_id = ''d1'', pr_intent_id = ''i1'',
    pr_ledger_version = ''1'', pr_policy_version = ''1'', pr_policy_hash = ''h'', pr_quote_id = ''q'', pr_lease_epoch = 1,
    pr_reservation_ids = [''r1''], pr_max_qty = 1, pr_max_cash = 1, pr_allowed_order_style = [''LIMIT''],
    pr_venue_mode = venue_name Venue_NORMAL, pr_expires_at = 5000, pr_single_use = True, pr_used_at = None,
    pr_claimed_order_id = None, pr_payload_hash = None\<rparr>"
  by (simp add: permit_row_of_def sample_permit_def rat_is_int_def)

lemmas pg_run_defs = submit_def finally_eff_def submitInner_def fresh_submit_def unless_reused_def
  checked_submit_def lift_js_def claim_and_place_def place_def mark_seen_def leave_def eff_defs
  pg_deps_def on_part_def total_def update_def read_only_def lease_env_of_def ledger_env_of_def pg_stmt_def
  pg_acquireExecutorLease_def acquire_executor_lease_def pg_releaseExecutorLease_def release_executor_lease_def
  pg_isClaimed_def pg_save_def pg_validatePermit_def pg_claimAndRecord_def claim_body_def claimable_def
  upsert_submitting_def permit_known_def pg_addSubmittedUnknown_def pg_updateState_def upd_recovery_def state_check_def
  venue_place_def venueActionGate_def pg_sample_world_def sample_world_def sample_env_def sample_fields sample_schema
  sample_accepted sample_row number_int8_def

lemma pg_sample_unknown:
  "wo_placed (snd (submit (\<lambda>_. True) (pg_deps number_int8 (sample_env (Sub_Fail ''SUBMISSION_UNKNOWN'' ''timeout'')))
     sample_order sample_permit pg_sample_world)) = [sample_order]"
  by (simp add: pg_run_defs after_failure_def Let_def submitting_row_def empty_db_def rat_is_int_def)


section \<open>Properties\<close>

text \<open>C1. Over any sequence of submissions, whatever the venue answers and whatever faults the stores
  meet, no two orders go out on the same permit, none goes out on a permit that was claimed before,
  and the venue has received exactly one more order for each permit used. This holds on the in-memory
  and on the PostgreSQL stores.\<close>

theorem one_order_per_permit:
  "(case placements is_uuid mem_deps wo_placed calls w of (ps, w') \<Rightarrow>
      distinct ps \<and> set ps \<inter> {p. mem_claimed p w} = {} \<and>
      length (wo_placed w') = length (wo_placed w) + length ps) \<and>
   (case placements is_uuid (pg_deps read_int8) wo_placed calls w of (ps, w') \<Rightarrow>
      distinct ps \<and> set ps \<inter> {p. pg_claimed p w} = {} \<and>
      length (wo_placed w') = length (wo_placed w) + length ps)"
  using placements_distinct [where deps_of = mem_deps, OF mem.executor_ops_axioms, of is_uuid calls w]
    placements_distinct [where deps_of = "pg_deps read_int8", OF pg.executor_ops_axioms, of is_uuid calls w]
  by (auto split: prod.split)

text \<open>C5. An order that reaches the venue was allowed by every check of the executor, on the in-memory
  and on the PostgreSQL wiring: exactly the submitted order was handed over, and its permit is well-formed,
  unexpired and was unclaimed, names the order's market, side and (where it lists any) style, covers its size
  and cash and its price bounds, and the venue mode allows submission.\<close>

theorem placed_order_is_covered:
  assumes "D \<in> {mem_deps e, pg_deps read_int8 e}" and "wo_placed (snd (submit is_uuid D ord permit w)) \<noteq> wo_placed w"
  shows "wo_placed (snd (submit is_uuid D ord permit w)) = wo_placed w @ [ord] \<and>
    ExecutionPermitSchema is_uuid permit \<and> en_now e \<le> expires_at permit \<and>
    (D = mem_deps e \<longrightarrow> \<not> mem_claimed (permit_id permit) w) \<and>
    (D = pg_deps read_int8 e \<longrightarrow> \<not> pg_claimed (permit_id permit) w) \<and>
    en_mode e \<in> {Venue_NORMAL, Venue_POST_ONLY} \<and>
    (\<not> truthy (o_permit_id ord) \<or> o_permit_id ord = Some (permit_id permit)) \<and>
    p_side permit \<in> {None, Some (o_side ord)} \<and>
    (\<not> truthy (p_market_id permit) \<or> p_market_id permit = Some (o_market_id ord)) \<and>
    (\<forall>ty. o_order_type ord = Some ty \<longrightarrow> allowed_order_style permit \<noteq> [] \<longrightarrow>
      style_name ty \<in> set (allowed_order_style permit)) \<and>
    (\<exists>shares qty price cash. toBase6 (o_size ord) = Inr shares \<and> toBase6 (max_qty permit) = Inr qty \<and>
      toBase6 (o_price ord) = Inr price \<and> toBase6 (max_cash permit) = Inr cash \<and>
      shares \<le> qty \<and> cashNeededFor shares price \<le> cash \<and>
      price_min_base permit \<in> {None} \<union> Some ` {..price} \<and> price_max_base permit \<in> {None} \<union> Some ` {price..})"
proof -
  have D: "d_mode D = en_mode e" "d_now D = en_now e" using assms(1) by (auto simp: mem_deps_def pg_deps_def)
  have unclaimed: "D = mem_deps e \<longrightarrow> \<not> mem_claimed (permit_id permit) w"
    "D = pg_deps read_int8 e \<longrightarrow> \<not> pg_claimed (permit_id permit) w"
    using submit_placed [OF mem.executor_ops_axioms] submit_placed [OF pg.executor_ops_axioms] assms(2) by blast+
  from assms(1) obtain claimed where "executor_ops D wo_placed claimed" using wired by blast
  from submit_placed [OF this assms(2)] have allowed: "submit_allowed is_uuid D ord permit"
    and placed: "wo_placed (snd (submit is_uuid D ord permit w)) = wo_placed w @ [ord]" by simp_all
  from allowed have mode: "en_mode e \<in> {Venue_NORMAL, Venue_POST_ONLY}"
    by (cases "en_mode e") (simp_all add: submit_allowed_def D venueActionGate_def)
  have "order_refusal ord permit = Inr None" using allowed by (simp add: submit_allowed_def)
  note covered = order_refusal_none [OF this]
  show ?thesis using allowed placed unclaimed mode covered by (simp add: submit_allowed_def D)
qed

theorem placed_order_is_covered_witness:
  "\<not> mem_claimed ''p1'' sample_world \<and> \<not> pg_claimed ''p1'' pg_sample_world"
proof -
  let ?e = "sample_env (Sub_Fail ''SUBMISSION_UNKNOWN'' ''timeout'')"
  have none: "wo_placed sample_world = []" "wo_placed pg_sample_world = []"
    by (simp_all add: pg_sample_world_def sample_world_def)
  have "wo_placed (snd (submit (\<lambda>_. True) (mem_deps ?e) sample_order sample_permit sample_world)) \<noteq> wo_placed sample_world"
    by (simp only: sample_unknown none) simp
  from placed_order_is_covered [OF _ this, of ?e number_int8]
  have mem: "\<not> mem_claimed (permit_id sample_permit) sample_world" by blast
  have "wo_placed (snd (submit (\<lambda>_. True) (pg_deps number_int8 ?e) sample_order sample_permit pg_sample_world))
      \<noteq> wo_placed pg_sample_world"
    by (simp only: pg_sample_unknown none) simp
  from placed_order_is_covered [OF _ this, of ?e number_int8]
  have "\<not> pg_claimed (permit_id sample_permit) pg_sample_world" by blast
  with mem show ?thesis by (simp add: sample_fields)
qed

text \<open>C2. No blind resubmission: while the venue's answers for an order id leave it possible that
  the order exists (no proof that nothing was sent, no definitive rejection), the id is placed at most
  once over any sequence of submissions, whatever permits they carry; and not at all if the seen log
  already holds it. This holds on both wirings.\<close>

theorem no_resubmission_of_live_orders:
  assumes "\<forall>(e, ord, permit) \<in> set calls. order_id ord = q \<longrightarrow> \<not> clearly_rejected (en_place e ord)"
  shows "placed_count q (snd (placements is_uuid mem_deps wo_placed calls w))
      \<le> placed_count q w + (if log_held q w then 0 else 1) \<and>
    placed_count q (snd (placements is_uuid (pg_deps read_int8) wo_placed calls w))
      \<le> placed_count q w + (if log_held q w then 0 else 1)"
  using placements_count [where deps_of = mem_deps, OF mem_log.seen_log_axioms assms, of is_uuid w]
    placements_count [where deps_of = "pg_deps read_int8", OF pg_log.seen_log_axioms assms, of is_uuid w]
  by (cases "placements is_uuid mem_deps wo_placed calls w";
      cases "placements is_uuid (pg_deps read_int8) wo_placed calls w") (auto split: if_splits)

theorem no_resubmission_of_live_orders_witness:
  "placed_count ''o1'' (snd (placements (\<lambda>_. True) mem_deps wo_placed
     (replicate 2 (sample_env (Sub_Fail ''SUBMISSION_UNKNOWN'' ''timeout''), sample_order, sample_permit))
     sample_world)) \<le> 1"
proof -
  have "\<forall>(e, ord, permit) \<in> set (replicate 2 (sample_env (Sub_Fail ''SUBMISSION_UNKNOWN'' ''timeout''),
      sample_order, sample_permit)). order_id ord = ''o1'' \<longrightarrow> \<not> clearly_rejected (en_place e ord)"
    by (simp add: sample_env_def clearly_rejected_def)
  from no_resubmission_of_live_orders [OF this, of "\<lambda>_. True" sample_world] show ?thesis
    by (simp add: sample_world_def log_held_def placed_count_def)
qed

text \<open>C6. An unknown outcome costs nothing and is not forgotten: when the venue answers with an
  unknown submission, or with a failure that does not prove that nothing was sent, no reservation and
  no balance changes, on either wiring. An order that was placed is on the ledger as unresolved, where
  reconciliation finds it: always on the in-memory ledger; on the PostgreSQL ledger unless a row of the
  same order id was already resolved before the call, which its upsert leaves resolved.\<close>

theorem unknown_outcome_keeps_funds:
  assumes "outcome_unknown (en_place e ord)"
    and "u = snd (submit is_uuid (mem_deps e) ord permit w)"
    and "v = snd (submit is_uuid (pg_deps read_int8 e) ord permit w)"
  shows "wo_db u = wo_db w \<and> balances (wo_db v) = balances (wo_db w) \<and>
    reservations (wo_db v) = reservations (wo_db w) \<and>
    (wo_placed u \<noteq> wo_placed w \<longrightarrow> mem_needsReconcile (order_id ord) (wo_ledger u)) \<and>
    (wo_placed v \<noteq> wo_placed w \<longrightarrow>
      resolved_in (order_id ord) (wo_db w) \<or> pg_needsReconcile (order_id ord) (wo_db v))"
  using mem_submit_pending [OF assms(1), of is_uuid permit] pg_submit_pending [OF assms(1), of is_uuid read_int8 permit]
  by (auto simp: steps_eff_def assms(2,3) reconcilable_def untouched_def pg_reconcilable_def pg_untouched_def
      pg_open_def funds_open_def)

theorem unknown_outcome_keeps_funds_witness:
  "let e = sample_env (Sub_Fail ''SUBMISSION_UNKNOWN'' ''timeout'')
   in mem_needsReconcile ''o1'' (wo_ledger (snd (submit (\<lambda>_. True) (mem_deps e) sample_order sample_permit sample_world))) \<and>
     pg_needsReconcile ''o1'' (wo_db (snd (submit (\<lambda>_. True) (pg_deps number_int8 e) sample_order sample_permit
       pg_sample_world)))"
proof -
  have unknown: "outcome_unknown (en_place (sample_env (Sub_Fail ''SUBMISSION_UNKNOWN'' ''timeout'')) sample_order)"
    by (simp add: sample_env_def outcome_unknown_def)
  have fresh: "wo_placed pg_sample_world = []" "\<not> resolved_in ''o1'' (wo_db pg_sample_world)"
    by (simp_all add: pg_sample_world_def sample_world_def resolved_in_def empty_db_def)
  show ?thesis
    using unknown_outcome_keeps_funds [OF unknown refl refl, of "\<lambda>_. True" sample_permit sample_world number_int8]
      unknown_outcome_keeps_funds [OF unknown refl refl, of "\<lambda>_. True" sample_permit pg_sample_world number_int8]
      sample_unknown pg_sample_unknown fresh
    by (simp add: Let_def sample_world_def sample_fields)
qed

text \<open>On the PostgreSQL wiring with a driver that delivers BIGINT columns as strings, the
  executor places no order at all.\<close>

theorem pg_wiring_places_nothing:
  assumes "\<And>n. \<exists>s. read_int8 n = JsString s"
  shows "wo_placed (snd (submit is_uuid (pg_deps read_int8 e) ord permit w)) = wo_placed w"
proof -
  have never: "\<not> pg_validatePermit read_int8 pid n d" for pid n d
    using assms by (rule pg_refuses)
  have "quiet_step wo_placed pg_claimed w (snd (submit is_uuid (pg_deps read_int8 e) ord permit w))"
    using pg.quiet_unless_valid [of read_int8 e permit is_uuid ord]
    by (simp add: steps_eff_def pg_deps_def on_part_def read_only_def never)
  then show ?thesis by (simp add: quiet_step_def)
qed

theorem pg_wiring_places_nothing_witness:
  "wo_placed (snd (submit (\<lambda>_. True) (pg_deps (\<lambda>n. JsString (int_str n)) (sample_env (Sub_Fail [] [])))
     sample_order sample_permit sample_world)) = []"
  by (subst pg_wiring_places_nothing) (auto simp: sample_world_def)

text \<open>Cancelling and reconciling never send an order, on either wiring, and they forget no claim.\<close>

theorem cancel_and_reconcile_place_nothing:
  "wo_placed (snd (cancel (mem_deps e) oid w)) = wo_placed w \<and>
   wo_placed (snd (reconcile (mem_deps e) oid w)) = wo_placed w \<and>
   wo_placed (snd (cancel (pg_deps read_int8 e) oid w)) = wo_placed w \<and>
   wo_placed (snd (reconcile (pg_deps read_int8 e) oid w)) = wo_placed w \<and>
   {q. mem_claimed q w} \<subseteq> {q. mem_claimed q (snd (cancel (mem_deps e) oid w))} \<and>
   {q. mem_claimed q w} \<subseteq> {q. mem_claimed q (snd (reconcile (mem_deps e) oid w))}"
  using mem.quiet_cancel [of e oid] mem.quiet_reconcile [of e oid]
    pg.quiet_cancel [of read_int8 e oid] pg.quiet_reconcile [of read_int8 e oid]
  by (auto simp: steps_eff_def quiet_step_def)

end
