(* ===== verification/BaseUnits.thy ===== *)
theory BaseUnits
  imports DecimalBase MoneyAuthority
begin

text \<open>
  Base units through a double and back: an amount of fewer than \<open>10 ^ 15\<close> base units, divided by the scale
  into a JavaScript number as permits and orders carry it (\<open>units\<close>), converts back by \<open>decimalToBase\<close> to exactly
  that amount. The argument bounds the rounding error of binary64 and shows that the shortest digits of
  such a number end at the sixth decimal place.
\<close>

section \<open>The error of rounding\<close>

lemma pow2_pos [simp]: "0 < pow2 e"
  by (simp add: pow2_def)

lemma pow2_nonzero [simp]: "pow2 e \<noteq> 0"
  by (simp add: pow2_def)

lemma pow2_powi: "pow2 e = 2 powi e"
  by (simp add: pow2_def power_int_def power_one_over)

lemma round_half_even_error: "\<bar>of_int (round_half_even x) - x\<bar> \<le> 1 / 2"
proof -
  have "of_int \<lfloor>x\<rfloor> \<le> x" "x < of_int \<lfloor>x\<rfloor> + 1"
    using floor_correct [of x] by simp_all
  then show ?thesis
    unfolding round_half_even_def Let_def by (cases "x - of_int \<lfloor>x\<rfloor>" "1 / 2 :: rat" rule: linorder_cases) auto
qed

lemma round_half_even_int: "round_half_even (of_int m) = m"
  by (simp add: round_half_even_def)

lemma ilog2_lower:
  assumes "0 < q"
  shows "pow2 (ilog2 q) \<le> q"
proof (cases "1 \<le> q")
  case True
  then have m: "1 \<le> \<lfloor>q\<rfloor>" by (simp add: le_floor_iff)
  note b = dlen_bounds [of 2 "\<lfloor>q\<rfloor>", OF _ m]
  have "(2 :: rat) ^ nat (dlen 2 \<lfloor>q\<rfloor> - 1) \<le> of_int \<lfloor>q\<rfloor>"
    using of_int_le_iff [of "2 ^ nat (dlen 2 \<lfloor>q\<rfloor> - 1)" "\<lfloor>q\<rfloor>", where ?'a = rat] b(2) by simp
  also have "\<dots> \<le> q" by simp
  finally show ?thesis using True b(1) by (simp add: ilog2_def pow2_def)
next
  case False
  define m where "m = \<lceil>1 / q\<rceil> - 1"
  have i: "1 < 1 / q" using False assms by simp
  have m: "1 \<le> m" "1 / q \<le> of_int m + 1" using i by (simp_all add: m_def)
  note b = dlen_bounds [of 2 m, OF _ m(1)]
  have "(of_int m :: rat) + 1 \<le> 2 ^ nat (dlen 2 m)"
    using of_int_le_iff [of "m + 1" "2 ^ nat (dlen 2 m)", where ?'a = rat] b(3) by simp
  with m(2) have "1 / q \<le> 2 ^ nat (dlen 2 m)" by linarith
  then show ?thesis
    using False assms b(1) by (simp add: ilog2_def pow2_def m_def [symmetric] field_simps)
qed

lemma ilog2_int:
  assumes "1 \<le> n" and "n < 2 ^ k"
  shows "ilog2 (of_int n) < int k"
proof -
  note b = dlen_bounds [of 2 n, OF _ assms(1)]
  have "(2 :: int) ^ nat (dlen 2 n - 1) < 2 ^ k" using b(2) assms(2) by (rule le_less_trans) simp
  then have "nat (dlen 2 n - 1) < k" by simp
  with assms(1) b(1) show ?thesis by (simp add: ilog2_def)
qed

text \<open>A normal number is rounded to within a relative \<open>2^-53\<close>.\<close>

definition normal :: "rat \<Rightarrow> bool" where
  "normal q \<longleftrightarrow> 1 / 2 ^ 1022 \<le> q \<and> q \<le> 2 ^ 1000"

lemma fl_normal:
  assumes "normal q"
  obtains r where "fl q = Fin r" and "\<bar>r - q\<bar> \<le> q / 2 ^ 53"
proof -
  have lo: "1 / 2 ^ 1022 \<le> q" and hi: "q \<le> 2 ^ 1000" using assms by (simp_all only: normal_def)
  have q: "0 < q" by (rule less_le_trans [OF _ lo]) (simp only: zero_less_divide_iff zero_less_power; simp)
  define e where "e = max (ilog2 \<bar>q\<bar> - 52) (-1074)"
  define r where "r = of_int (round_half_even (q / pow2 e)) * pow2 e"
  have e: "pow2 e \<le> q / 2 ^ 52"
  proof (cases "e = -1074")
    case True
    have "pow2 e = (1 / 2 ^ 1022) / 2 ^ 52" by (simp add: True pow2_def)
    also have "\<dots> \<le> q / 2 ^ 52" by (rule divide_right_mono [OF lo]) simp
    finally show ?thesis .
  next
    case False
    then have "e = ilog2 q - 52" using q by (simp add: e_def max_def split: if_splits)
    then have "pow2 e = pow2 (ilog2 q) / 2 ^ 52" by (simp add: pow2_powi power_int_diff)
    then show ?thesis using ilog2_lower [OF q] by (simp add: divide_right_mono)
  qed
  have "r - q = (of_int (round_half_even (q / pow2 e)) - q / pow2 e) * pow2 e"
    by (simp add: r_def left_diff_distrib)
  then have "\<bar>r - q\<bar> = \<bar>of_int (round_half_even (q / pow2 e)) - q / pow2 e\<bar> * pow2 e"
    by (simp only: abs_mult abs_of_pos [OF pow2_pos])
  also have "\<dots> \<le> (1 / 2) * pow2 e" by (rule mult_right_mono [OF round_half_even_error less_imp_le [OF pow2_pos]])
  also have "\<dots> \<le> q / 2 ^ 53" using e by simp
  finally have err: "\<bar>r - q\<bar> \<le> q / 2 ^ 53" .
  have "\<bar>r\<bar> \<le> q + q / 2 ^ 53" using err q by linarith
  also have "\<dots> \<le> 2 ^ 1000 + 2 ^ 1000 / 2 ^ 53" by (intro add_mono divide_right_mono hi) simp
  also have "\<dots> < (2 ^ 1024 :: rat)" by simp
  finally have "\<not> pow2 1024 \<le> \<bar>r\<bar>" by (simp add: pow2_def not_le)
  then have "fl q = Fin r"
    using q unfolding fl_def Let_def e_def [symmetric] r_def [symmetric] by simp
  with err show thesis by (rule that [rotated])
qed

lemma num_of_bigint_exact:
  assumes "0 \<le> n" and "n < 2 ^ 53"
  shows "num_of_bigint n = Fin (of_int n)"
proof (cases "n = 0")
  case True
  then show ?thesis by (simp add: num_of_bigint_def fl_def)
next
  case False
  with assms(1) have n: "1 \<le> n" by simp
  define e where "e = max (ilog2 \<bar>of_int n\<bar> - 52) (-1074)"
  have "e \<le> 0" using ilog2_int [OF n assms(2)] n by (simp add: e_def)
  then obtain j where j: "e = - int j" by (metis int_eq_iff minus_minus neg_0_le_iff_le nonneg_int_cases)
  have p: "pow2 e = 1 / 2 ^ j" by (simp add: j pow2_def)
  have "of_int n / pow2 e = (of_int (n * 2 ^ j) :: rat)" by (simp add: p)
  then have "of_int (round_half_even (of_int n / pow2 e)) * pow2 e = (of_int n :: rat)"
    by (simp only: round_half_even_int p) simp
  moreover have "\<not> pow2 1024 \<le> (of_int n :: rat)"
  proof -
    have "(of_int n :: rat) < of_int (2 ^ 53)" using assms(2) by (simp only: of_int_less_iff)
    also have "\<dots> < pow2 1024" by (simp add: pow2_def)
    finally show ?thesis by simp
  qed
  ultimately show ?thesis
    using n unfolding num_of_bigint_def fl_def Let_def e_def [symmetric] by simp
qed


section \<open>Conversions that succeed\<close>

text \<open>A number whose shortest digits end within the scale converts, and to those digits.\<close>

lemma decimalToBase_accepts:
  assumes q: "0 < q" and sh: "shortest q = Some (s, k, n)" and n: "-6 < n" "n \<le> 21" and d: "int k - n \<le> int d"
  shows "decimalToBase (Fin q) d = Inr (s * 10 ^ nat (n - int k + int d))"
proof -
  define t where "t = layout_digits s k n"
  have str: "num_to_string (Fin q) = t" using q by (simp add: pos_to_string_def sh t_def)
  have "digits_of q s k n" using sh q by (auto simp: shortest_def intro: shortest_from_digits)
  then have dg: "1 \<le> k" "10 ^ (k - 1) \<le> s" "s < 10 ^ k" by (simp_all add: digits_of_def)
  have s0: "0 \<le> s" using dg(2) order_trans [of 0 "10 ^ (k - 1) :: int" s] by simp
  note lay = layout_joined [OF dg t_def n]
  have dd: "nat (int k - n) \<le> d" using d by simp
  then obtain z where "joined t d =
      replicate z CHR ''0'' @ digits_str s @ replicate (nat (n - int k + int d)) CHR ''0''"
    using lay(2) by blast
  then have "parse_bigint (joined t d) = Some (s * 10 ^ nat (n - int k + int d))"
    using parse_digits_then_zeros(2) [OF s0] by simp
  moreover have "take 1 (int_part t) \<noteq> ''-''" using layout_head [OF s0 t_def] by simp
  ultimately show ?thesis
    using q dd lay(1) str by (simp add: decimalToBase_def Let_def joined_def not_less del: num_to_string.simps)
qed


section \<open>Base units survive the trip through a double\<close>

lemma base_normal:
  assumes "1 \<le> n" and "n \<le> 10 ^ 20"
  shows "normal (of_int n / 10 ^ 6)"
proof -
  have "(1 :: rat) \<le> of_int n" "(of_int n :: rat) \<le> 10 ^ 20"
    using assms(1) of_int_le_iff [of n "10 ^ 20", where ?'a = rat] assms(2) by simp_all
  then have "1 / 10 ^ 6 \<le> (of_int n :: rat) / 10 ^ 6" "(of_int n :: rat) / 10 ^ 6 \<le> 10 ^ 20 / 10 ^ 6"
    by (simp_all add: divide_right_mono)
  moreover have "(1 :: rat) / 2 ^ 1022 \<le> 1 / 10 ^ 6" "(10 :: rat) ^ 20 / 10 ^ 6 \<le> 2 ^ 1000" by simp_all
  ultimately show ?thesis unfolding normal_def by (blast intro: order_trans)
qed

lemma base_error:
  assumes "1 \<le> n" and "n \<le> 10 ^ 20"
  obtains r where "fl (of_int n / 10 ^ 6) = Fin r" and "\<bar>r * 10 ^ 6 - of_int n\<bar> \<le> of_int n / 2 ^ 53"
proof -
  obtain r where r: "fl (of_int n / 10 ^ 6) = Fin r" "\<bar>r - of_int n / 10 ^ 6\<bar> \<le> of_int n / 10 ^ 6 / 2 ^ 53"
    by (rule fl_normal [OF base_normal [OF assms]])
  have "\<bar>r * 10 ^ 6 - of_int n\<bar> = \<bar>r - of_int n / 10 ^ 6\<bar> * 10 ^ 6"
    using abs_mult [of "r - of_int n / 10 ^ 6" "10 ^ 6"] by (simp add: left_diff_distrib)
  also have "\<dots> \<le> of_int n / 10 ^ 6 / 2 ^ 53 * 10 ^ 6" by (rule mult_right_mono [OF r(2)]) simp
  also have "\<dots> = of_int n / 2 ^ 53" by simp
  finally show thesis by (rule that [OF r(1)])
qed

text \<open>Two different amounts of base units are two different doubles.\<close>

lemma base_units_inj:
  assumes "1 \<le> i" "1 \<le> j" "i + j < 2 ^ 53" and eq: "fl (of_int i / 10 ^ 6) = fl (of_int j / 10 ^ 6)"
  shows "i = j"
proof -
  have b: "i \<le> 10 ^ 20" "j \<le> 10 ^ 20" using assms(1-3) by simp_all
  obtain r where r: "fl (of_int i / 10 ^ 6) = Fin r" "\<bar>r * 10 ^ 6 - of_int i\<bar> \<le> of_int i / 2 ^ 53"
    by (rule base_error [OF assms(1) b(1)])
  obtain r' where r': "fl (of_int j / 10 ^ 6) = Fin r'" "\<bar>r' * 10 ^ 6 - of_int j\<bar> \<le> of_int j / 2 ^ 53"
    by (rule base_error [OF assms(2) b(2)])
  have "r' = r" using eq r(1) r'(1) by simp
  moreover have "(of_int (i + j) :: rat) < 2 ^ 53"
    using of_int_less_iff [of "i + j" "2 ^ 53", where ?'a = rat] assms(3) by simp
  then have "(of_int i :: rat) / 2 ^ 53 + of_int j / 2 ^ 53 < 1" by simp
  moreover have "\<bar>a - b\<bar> < 1" if "\<bar>c - a\<bar> \<le> a / 2 ^ 53" "\<bar>c - b\<bar> \<le> b / 2 ^ 53" "a / 2 ^ 53 + b / 2 ^ 53 < 1"
    for a b c :: rat using that by linarith
  ultimately have "\<bar>of_int i - of_int j :: rat\<bar> < 1" using r(2) r'(2) by blast
  then have "\<bar>of_int (i - j) :: rat\<bar> < 1" by simp
  then have "\<bar>i - j\<bar> < 1" by (simp only: of_int_abs [symmetric] of_int_less_1_iff)
  then show ?thesis by simp
qed

lemma round_half_even_near:
  assumes "\<bar>x - of_int m\<bar> < 1 / 2"
  shows "round_half_even x = m"
proof -
  have "\<bar>of_int (round_half_even x) - of_int m :: rat\<bar> < 1"
    using assms round_half_even_error [of x] by linarith
  then have "\<bar>of_int (round_half_even x - m) :: rat\<bar> < 1" by simp
  then have "\<bar>round_half_even x - m\<bar> < 1" by (simp only: of_int_abs [symmetric] of_int_less_1_iff)
  then show ?thesis by simp
qed

lemma shortest_from_finds:
  "1 \<le> k \<Longrightarrow> k \<le> K \<Longrightarrow> K < k + fuel \<Longrightarrow>
     reads_back q (round_half_even (q / pow10 (dec_exp q - int K))) (dec_exp q - int K) \<Longrightarrow>
     \<exists>s k' n. shortest_from fuel k q = Some (s, k', n) \<and> k' \<le> K \<and> n \<in> {dec_exp q, dec_exp q + 1}"
proof (induction fuel arbitrary: k)
  case 0
  then show ?case by simp
next
  case (Suc fuel)
  define x where "x = q / pow10 (dec_exp q - int k)"
  define near where "near = round_half_even x"
  define other where "other = (if near = \<lfloor>x\<rfloor> then near + 1 else \<lfloor>x\<rfloor>)"
  define pick where "pick = (if reads_back q near (dec_exp q - int k) then near
      else if reads_back q other (dec_exp q - int k) then other else 0)"
  have run: "shortest_from (Suc fuel) k q = (if pick = 0 then shortest_from fuel (Suc k) q
      else if pick = 10 ^ k then Some (pick div 10, k, dec_exp q + 1) else Some (pick, k, dec_exp q))"
    by (simp only: shortest_from.simps Let_def x_def near_def other_def pick_def)
  show ?case
  proof (cases "pick = 0")
    case True
    have "k \<noteq> K"
    proof
      assume "k = K"
      then have "reads_back q near (dec_exp q - int k)" using Suc.prems(4) by (simp add: near_def x_def)
      moreover from this have "0 < near" by (simp add: reads_back_def)
      ultimately show False using True by (simp add: pick_def)
    qed
    then show ?thesis using Suc.IH [of "Suc k"] Suc.prems True run by simp
  next
    case False
    with run Suc.prems(2) show ?thesis by simp
  qed
qed


text \<open>The shortest digits of \<open>n\<close> base units, up to fifteen decimals, end at the sixth decimal place or before.\<close>

lemma shortest_base_units:
  assumes n: "1 \<le> n" "n < 10 ^ 15" and q: "fl (of_int n / 10 ^ 6) = Fin q"
  obtains s k m where "shortest q = Some (s, k, m)" and "int k - m \<le> 6" and "-6 < m" and "m \<le> 10"
proof -
  define K where "K = nat (dlen 10 n)"
  have K: "1 \<le> K" "10 ^ (K - 1) \<le> n" "n < 10 ^ K"
    using dlen_bounds [of 10 n, OF _ n(1)] by (simp_all add: K_def nat_diff_distrib)
  have "(10 :: int) ^ (K - 1) < 10 ^ 15" using K(2) n(2) by (rule le_less_trans)
  then have "K - 1 < 15" by (rule power_less_imp_less_exp [rotated]) simp
  then have K15: "K \<le> 15" by simp
  have err: "\<bar>q * 10 ^ 6 - of_int n\<bar> \<le> of_int n / 2 ^ 53"
    by (rule base_error [of n]) (use n q in simp_all)
  have n15: "(of_int n :: rat) \<le> 10 ^ 15" using of_int_le_iff [of n "10 ^ 15", where ?'a = rat] n(2) by simp
  then have small: "\<bar>q * 10 ^ 6 - of_int n\<bar> < 1 / 2" using err by simp
  have n1: "(1 :: rat) \<le> of_int n" using n(1) by simp
  have "0 < q * 10 ^ 6" using small n1 by linarith
  then have q0: "0 < q" by simp
  define D where "D = dec_exp q"
  have D: "pow10 (D - 1) \<le> q" "q < pow10 D" using dec_exp_bounds [OF q0] by (simp_all add: D_def)
  have shift: "pow10 e * 10 ^ 6 = pow10 (e + 6)" for e
    using pow10_add [of e 6] by (simp add: pow10_def [of 6])
  have mono: "pow10 a < pow10 b \<longleftrightarrow> a < b" for a b
    using power_int_strict_increasing [of a b "10 :: rat"] power_int_increasing [of b a "10 :: rat"]
    by (auto simp: pow10_powi not_less) (meson not_less)
  have "D \<le> int K - 6"
  proof -
    have "of_int n + 1 \<le> (10 :: rat) ^ K" using int_pow10_less [OF K(3)] .
    moreover have "q * 10 ^ 6 < of_int n + 1" using small by linarith
    ultimately have "q * 10 ^ 6 < pow10 (int K)" unfolding pow10_nat by (rule less_le_trans [rotated])
    moreover have "pow10 (D - 1) * 10 ^ 6 \<le> q * 10 ^ 6" using D(1) by simp
    ultimately have "pow10 (D + 5) < pow10 (int K)" unfolding shift by (simp add: algebra_simps)
    then show ?thesis by (simp add: mono)
  qed
  show thesis
  proof (cases "D = int K - 6")
    case True
    have e: "D - int K = -6" using True by simp
    have p6: "q / pow10 (- 6) = q * 10 ^ 6" by (simp add: pow10_def)
    have "round_half_even (q / pow10 (D - int K)) = n"
      unfolding e p6 by (rule round_half_even_near [OF small])
    moreover have "reads_back q n (- 6)" using n(1) q by (simp add: reads_back_def pow10_def)
    ultimately have "reads_back q (round_half_even (q / pow10 (dec_exp q - int K))) (dec_exp q - int K)"
      by (simp add: D_def [symmetric] e)
    from shortest_from_finds [OF _ _ _ this, of 1 17] K(1) K15 obtain s k m where
      "shortest q = Some (s, k, m)" "k \<le> K" "m \<in> {D, D + 1}"
      by (auto simp: shortest_def D_def)
    then show thesis using True K(1) K15 by (intro that [of s k m]) auto
  next
    case False
    with \<open>D \<le> int K - 6\<close> have lo: "D \<le> int K - 7" by simp
    have "q * 10 ^ 6 < pow10 D * 10 ^ 6" using D(2) by simp
    also have "\<dots> \<le> pow10 (int K - 1)" unfolding shift using lo mono [of "int K - 1" "D + 6"] by (simp add: not_less [symmetric])
    also have "\<dots> = of_int (10 ^ (K - 1))" using K(1) by (simp add: pow10_def nat_diff_distrib)
    finally have below: "q * 10 ^ 6 < of_int (10 ^ (K - 1))" .
    then have "(of_int n :: rat) < of_int (10 ^ (K - 1)) + 1" using small by linarith
    then have "(of_int n :: rat) < of_int (10 ^ (K - 1) + 1)" by simp
    then have "n < 10 ^ (K - 1) + 1" by (simp only: of_int_less_iff)
    then have nK: "n = 10 ^ (K - 1)" using K(2) by simp
    have pK: "pow10 (int K - 1) = (of_int n :: rat)" using K(1) by (simp add: nK pow10_def nat_diff_distrib)
    have ten: "pow10 (e + 1) = pow10 e * 10" for e using pow10_add [of e 1] by (simp add: pow10_def [of 1])
    have tenth: "pow10 (int K - 2) * 10 = of_int n" using ten [of "int K - 2"] pK by simp
    have err1: "of_int n / 10 < q * 10 ^ 6"
    proof -
      have "\<bar>q * 10 ^ 6 - of_int n\<bar> \<le> of_int n / 4"
        by (rule order_trans [OF err]) (use n1 in \<open>simp add: field_simps\<close>)
      with n1 show ?thesis by linarith
    qed
    have "pow10 (int K - 2) < q * 10 ^ 6" using err1 tenth by linarith
    also have "\<dots> < pow10 D * 10 ^ 6" using D(2) by simp
    finally have "pow10 (int K - 2) < pow10 (D + 6)" unfolding shift .
    then have DK: "D = int K - 7" using lo by (simp add: mono)
    define p where "p = pow10 (D - 1)"
    have p: "0 < p" "p * 10 ^ 7 = of_int n"
      using shift [of "D - 1"] tenth by (simp_all add: p_def DK algebra_simps)
    have "q / p - 10 = (q * 10 ^ 6 - of_int n) / (p * 10 ^ 6)"
      using p by (simp add: p(2) [symmetric] field_simps)
    then have "\<bar>q / p - 10\<bar> = \<bar>q * 10 ^ 6 - of_int n\<bar> / (p * 10 ^ 6)" using p(1) by (simp add: abs_divide abs_of_pos)
    also have "\<dots> \<le> (of_int n / 2 ^ 53) / (p * 10 ^ 6)" by (rule divide_right_mono [OF err]) (use p(1) in simp)
    also have "\<dots> = 10 / 2 ^ 53" using p(1) by (simp add: p(2) [symmetric])
    also have "\<dots> < 1 / 2" by simp
    finally have "round_half_even (q / p) = 10" using round_half_even_near [of "q / p" 10] by simp
    moreover have "p * 10 = of_int n / 10 ^ 6" using p(2) by simp
    then have "of_int 10 * pow10 (D - 1) = of_int n / (10 :: rat) ^ 6" by (simp add: p_def mult.commute)
    then have "reads_back q 10 (D - 1)" using q by (simp only: reads_back_def) simp
    ultimately have "shortest q = Some (1, 1, D + 1)"
      by (simp add: shortest_def numeral_eq_Suc shortest_from.simps(2) Let_def D_def [symmetric] p_def [symmetric])
    then show thesis using DK K(1) K15 by (intro that [of 1 1 "D + 1"]) auto
  qed
qed

lemma toBase6_units:
  assumes "0 \<le> n" and "n < 10 ^ 15"
  shows "toBase6 (units n) = Inr n"
proof (cases "n = 0")
  case True
  then show ?thesis by (simp add: units_def num_of_bigint_def fl_def toBase6_0)
next
  case False
  with assms have n: "1 \<le> n" "n < 10 ^ 15" "n \<le> 10 ^ 20" "n < 2 ^ 53" by simp_all
  obtain q where q: "fl (of_int n / 10 ^ 6) = Fin q" and qn: "\<bar>q * 10 ^ 6 - of_int n\<bar> \<le> of_int n / 2 ^ 53"
    by (rule base_error [OF n(1,3)])
  have u: "units n = Fin q" using n q by (simp add: units_def num_of_bigint_exact)
  have n1: "(1 :: rat) \<le> of_int n" using n(1) by simp
  have bounds: "0 < q * 10 ^ 6" "q * 10 ^ 6 \<le> 2 * of_int n"
  proof -
    have "\<bar>q * 10 ^ 6 - of_int n\<bar> \<le> of_int n / 4"
      by (rule order_trans [OF qn]) (use n1 in \<open>simp add: field_simps\<close>)
    with n1 show "0 < q * 10 ^ 6" "q * 10 ^ 6 \<le> 2 * of_int n" by linarith+
  qed
  then have q0: "0 < q" by simp
  obtain s k m where sh: "shortest q = Some (s, k, m)" and km: "int k - m \<le> 6" "-6 < m" "m \<le> 10"
    by (rule shortest_base_units [OF n(1,2) q])
  have dg: "digits_of q s k m" using sh q0 by (auto simp: shortest_def intro: shortest_from_digits)
  define b where "b = s * 10 ^ nat (m - int k + 6)"
  have conv: "toBase6 (Fin q) = Inr b"
    using decimalToBase_accepts [OF q0 sh km(2), of 6] km by (simp add: b_def)
  have "of_int b / 10 ^ 6 = of_int s * pow10 (m - int k)"
  proof -
    have "pow10 (m - int k + 6) = 10 ^ nat (m - int k + 6)" using km(1) by (simp add: pow10_def)
    then have "(of_int b :: rat) = of_int s * pow10 (m - int k + 6)" by (simp add: b_def)
    then show ?thesis using pow10_add [of "m - int k" 6] by (simp add: pow10_def [of 6])
  qed
  then have same: "fl (of_int b / 10 ^ 6) = Fin q" using dg by (simp add: digits_of_def)
  have b1: "1 \<le> b"
  proof -
    have "1 \<le> s" using dg order_trans [of 1 "10 ^ (k - 1) :: int" s] by (simp add: digits_of_def)
    then show ?thesis unfolding b_def by (smt (verit) mult_le_cancel_left1 one_le_power)
  qed
  have b20: "b \<le> 10 ^ 20"
  proof -
    have "b \<le> 10 ^ k * 10 ^ nat (m - int k + 6)"
      using dg unfolding b_def digits_of_def by (intro mult_right_mono) simp_all
    also have "\<dots> = 10 ^ (k + nat (m - int k + 6))" by (simp add: power_add)
    also have "\<dots> \<le> 10 ^ 20" using km by (intro power_increasing) simp_all
    finally show ?thesis .
  qed
  obtain r where r: "fl (of_int b / 10 ^ 6) = Fin r" "\<bar>r * 10 ^ 6 - of_int b\<bar> \<le> of_int b / 2 ^ 53"
    by (rule base_error [OF b1 b20])
  have "(of_int b :: rat) \<le> 4 * of_int n"
  proof -
    have "\<bar>q * 10 ^ 6 - of_int b\<bar> \<le> of_int b / 2 ^ 53" using r same by simp
    also have "\<dots> \<le> of_int b / 4" using b1 by (simp add: field_simps)
    finally show ?thesis using bounds(2) by linarith
  qed
  then have "b \<le> 4 * n" using of_int_le_iff [of b "4 * n", where ?'a = rat] by simp
  then have "b + n < 2 ^ 53" using n(2) by simp
  with base_units_inj [OF b1 n(1)] q same have "b = n" by simp
  with conv u show ?thesis by simp
qed

section \<open>Properties\<close>

text \<open>C24. Every amount of fewer than \<open>10 ^ 15\<close> base units survives the trip through a JavaScript number: the number
  that permits and orders carry for it converts back to exactly that amount, neither refused for its precision
  nor off by one.\<close>

theorem base_units_roundtrip:
  assumes "0 \<le> n" and "n < 10 ^ 15"
  shows "toBase6 (units n) = Inr n"
  using assms by (rule toBase6_units)

theorem base_units_roundtrip_witness: "toBase6 (units 123456789) = Inr 123456789"
  by (rule base_units_roundtrip) simp_all

end
