(* ===== verification/Orchestrator.thy ===== *)
theory Orchestrator
  imports OrderBuilder Signal ExecutorWiring BaseUnits
begin

text \<open>
  The end-to-end pipeline: edge, risk gate with reservation, order builder, executor. \<open>orchestrate\<close> is
  the one of \<open>src/pm/control/src/orchestrator.ts\<close>, \<open>orchestrate_pg\<close> the one inside
  \<open>createOrchestratorPg\<close> (\<open>orchestrator-pg.ts\<close>), which skips the checks that bind the intent to the
  edge. Both run over the executor's world: the kernel reserves in its database.
\<close>

section \<open>The pipeline\<close>

record pipeline =
  pl_wallet :: wallet_identity
  pl_verified_at :: ms
  pl_policy :: risk_policy
  pl_policy_hash :: string
  pl_kernel :: kernel_opts
  pl_vault :: vault
  pl_crypto :: "sign_request \<Rightarrow> string + string"
  pl_sha256 :: "string \<Rightarrow> string"

text \<open>What one call draws from its environment.\<close>

record call_env =
  ce_mode :: venue_mode
  ce_epoch :: jsnum
  ce_now :: ms
  ce_attempts :: "nat \<Rightarrow> attempt"
  ce_quote :: string
  ce_decision :: uuid
  ce_order :: uuid

record pipeline_input =
  pi_forecast :: forecast
  pi_book :: book_prices
  pi_intent :: trade_intent
  pi_market_exposure :: "jsnum option"
  pi_portfolio_exposure :: "jsnum option"

datatype stage = Stage_EDGE | Stage_RISK | Stage_BUILD | Stage_SUBMIT

datatype pipeline_result = Live lifecycle signed_order execution_permit
  | Reconcile signed_order execution_permit | Blocked stage string

definition edge_of :: "pipeline \<Rightarrow> pipeline_input \<Rightarrow> edge_result" where
  "edge_of P inp = evaluateEdge (pi_forecast inp) (pi_book inp)
     \<lparr>so_minEdge = min_edge_after_cost (pl_policy P), so_takerFeeBps = None, so_feeTheta = None\<rparr>"

fun outcome_of_side :: "intent_side \<Rightarrow> outcome_side" where
  "outcome_of_side (Direction BUY) = YES"
| "outcome_of_side (Direction SELL) = NO"
| "outcome_of_side (Outcome s) = s"

definition gate_of :: "pipeline \<Rightarrow> call_env \<Rightarrow> trade_intent \<Rightarrow> pipeline_input \<Rightarrow> gate_input" where
  "gate_of P ce i inp = \<lparr>g_intent = i, g_policy = pl_policy P, g_wallet = pl_wallet P, g_venue_mode = ce_mode ce,
     g_lease_epoch = ce_epoch ce, g_now = ce_now ce, g_policy_hash = pl_policy_hash P,
     g_market_exposure = pi_market_exposure inp, g_portfolio_exposure = pi_portfolio_exposure inp,
     g_capital_basis = None\<rparr>"

definition build_of :: "pipeline \<Rightarrow> call_env \<Rightarrow> trade_intent \<Rightarrow> execution_permit \<Rightarrow> build_input" where
  "build_of P ce i p = \<lparr>b_intent = i, b_permit = p, b_wallet = pl_wallet P, b_verified_at = pl_verified_at P,
     b_venue_mode = ce_mode ce, b_now = ce_now ce\<rparr>"

text \<open>The stages RISK, BUILD and SUBMIT for an intent; a throw of any of them is \<open>Inl\<close>.\<close>

definition gate_build_submit ::
  "(string \<Rightarrow> bool) \<Rightarrow> pipeline \<Rightarrow> world deps \<Rightarrow> call_env \<Rightarrow> pipeline_input \<Rightarrow> trade_intent \<Rightarrow>
     (world, pipeline_result) eff" where
  "gate_build_submit is_uuid P D ce inp i w =
     (case validateAndReserve is_uuid (pl_kernel P) (\<lambda>n. pg_authority (ce_attempts ce n)) (ce_quote ce) (ce_decision ce)
             (gate_of P ce i inp) (wo_db w) of
        (Inl e, d) \<Rightarrow> (Inl e, w\<lparr>wo_db := d\<rparr>)
      | (Inr (Refused c), d) \<Rightarrow> (Inr (Blocked Stage_RISK c), w\<lparr>wo_db := d\<rparr>)
      | (Inr (Ok (_, permit)), d) \<Rightarrow>
          (case buildSignedOrder (pl_sha256 P) is_uuid (pl_crypto P) (pl_vault P) (build_of P ce i permit) (ce_order ce) of
             Inl e \<Rightarrow> (Inl (js_message e), w\<lparr>wo_db := d\<rparr>)
           | Inr (Refused c) \<Rightarrow> (Inr (Blocked Stage_BUILD c), w\<lparr>wo_db := d\<rparr>)
           | Inr (Ok (ord, _)) \<Rightarrow>
               (case submit is_uuid D ord permit (w\<lparr>wo_db := d\<rparr>) of
                  (Inl e, w') \<Rightarrow> (Inl e, w')
                | (Inr (Submitted _ st), w') \<Rightarrow> (Inr (Live st ord permit), w')
                | (Inr (Needs_Reconciliation _ _), w') \<Rightarrow> (Inr (Reconcile ord permit), w')
                | (Inr (Duplicate c), w') \<Rightarrow> (Inr (Blocked Stage_SUBMIT c), w')
                | (Inr (Permit_Invalid c), w') \<Rightarrow> (Inr (Blocked Stage_SUBMIT c), w')
                | (Inr (Mode_Forbids c), w') \<Rightarrow> (Inr (Blocked Stage_SUBMIT c), w'))))"

text \<open>The intent bound to the edge: its price is the reference price unless it carries one.\<close>

definition bound_intent :: "trade_intent \<Rightarrow> edge_result \<Rightarrow> trade_intent" where
  "bound_intent i edge = i\<lparr>ti_limit_price := coalesce (ti_limit_price i) (er_price edge)\<rparr>"

definition orchestrate ::
  "(string \<Rightarrow> bool) \<Rightarrow> pipeline \<Rightarrow> world deps \<Rightarrow> call_env \<Rightarrow> pipeline_input \<Rightarrow> (world, pipeline_result) eff" where
  "orchestrate is_uuid P D ce inp w =
     (let edge = edge_of P inp; i = pi_intent inp in
      if \<not> er_trade edge then (Inr (Blocked Stage_EDGE (er_code edge)), w)
      else if Some (outcome_of_side (ti_side i)) \<noteq> er_side edge then (Inr (Blocked Stage_EDGE ''SIDE_MISMATCH''), w)
      else if (case (ti_limit_price i, er_price edge) of (Some x, Some y) \<Rightarrow> \<not> num_eq x y | _ \<Rightarrow> False)
        then (Inr (Blocked Stage_EDGE ''PRICE_MISMATCH''), w)
      else gate_build_submit is_uuid P D ce inp (bound_intent i edge) w)"

definition orchestrate_pg ::
  "(string \<Rightarrow> bool) \<Rightarrow> pipeline \<Rightarrow> world deps \<Rightarrow> call_env \<Rightarrow> pipeline_input \<Rightarrow> (world, pipeline_result) eff" where
  "orchestrate_pg is_uuid P D ce inp w =
     (if \<not> er_trade (edge_of P inp) then (Inr (Blocked Stage_EDGE ''MIN_EDGE_UNMET''), w)
      else gate_build_submit is_uuid P D ce inp (pi_intent inp) w)"

section \<open>Nothing reaches the venue that a stage refused\<close>

lemma gate_build_submit_stages:
  assumes run: "gate_build_submit is_uuid P D ce inp i w = (r, w')" and placed: "wo_placed w' \<noteq> wo_placed w"
  obtains decision permit d ord signature where
    "validateAndReserve is_uuid (pl_kernel P) (\<lambda>n. pg_authority (ce_attempts ce n)) (ce_quote ce) (ce_decision ce)
       (gate_of P ce i inp) (wo_db w) = (Inr (Ok (decision, permit)), d)"
    and "buildSignedOrder (pl_sha256 P) is_uuid (pl_crypto P) (pl_vault P) (build_of P ce i permit) (ce_order ce)
       = Inr (Ok (ord, signature))"
    and "w' = snd (submit is_uuid D ord permit (w\<lparr>wo_db := d\<rparr>))"
    and "wo_placed (snd (submit is_uuid D ord permit (w\<lparr>wo_db := d\<rparr>))) \<noteq> wo_placed (w\<lparr>wo_db := d\<rparr>)"
  using assms
  by (auto simp: gate_build_submit_def split: prod.splits sum.splits outcome.splits try_submit.splits)

lemma orchestrate_placed:
  assumes "orchestrate is_uuid P D ce inp w = (r, w')" and "wo_placed w' \<noteq> wo_placed w"
  shows "er_trade (edge_of P inp) \<and> er_side (edge_of P inp) = Some (outcome_of_side (ti_side (pi_intent inp))) \<and>
    (\<forall>x y. ti_limit_price (pi_intent inp) = Some x \<and> er_price (edge_of P inp) = Some y \<longrightarrow> num_eq x y) \<and>
    gate_build_submit is_uuid P D ce inp (bound_intent (pi_intent inp) (edge_of P inp)) w = (r, w')"
  using assms by (auto simp: orchestrate_def Let_def split: if_splits option.splits)

lemma gate_build_submit_placed:
  assumes sound: "sound (wo_db w)" and D: "D \<in> {mem_deps e, pg_deps read_int8 e}"
    and run: "gate_build_submit is_uuid P D ce inp i w = (r, w')" and placed: "wo_placed w' \<noteq> wo_placed w"
  shows "\<exists>decision p d ord signature shares price style.
    validateAndReserve is_uuid (pl_kernel P) (\<lambda>n. pg_authority (ce_attempts ce n)) (ce_quote ce) (ce_decision ce)
      (gate_of P ce i inp) (wo_db w) = (Inr (Ok (decision, p)), d) \<and>
    buildSignedOrder (pl_sha256 P) is_uuid (pl_crypto P) (pl_vault P) (build_of P ce i p) (ce_order ce)
      = Inr (Ok (ord, signature)) \<and>
    w' = snd (submit is_uuid D ord p (w\<lparr>wo_db := d\<rparr>)) \<and> wo_placed w' = wo_placed w @ [ord] \<and>
    ord = built_order (build_of P ce i p) (ce_order ce) shares price style \<and> inside_permit p shares price \<and>
    caps_respected (gate_of P ce i inp) (the (max_cash_base p)) \<and>
    permit_backed (gate_of P ce i inp) p (the (max_cash_base p)) d \<and> sound d \<and> keeps_books (wo_db w) d \<and>
    submit_allowed is_uuid D ord p"
proof -
  let ?g = "gate_of P ce i inp"
  from gate_build_submit_stages [OF run placed] obtain decision p d ord signature where
    gate: "validateAndReserve is_uuid (pl_kernel P) (\<lambda>n. pg_authority (ce_attempts ce n)) (ce_quote ce) (ce_decision ce)
        ?g (wo_db w) = (Inr (Ok (decision, p)), d)"
    and build: "buildSignedOrder (pl_sha256 P) is_uuid (pl_crypto P) (pl_vault P) (build_of P ce i p) (ce_order ce)
        = Inr (Ok (ord, signature))"
    and w': "w' = snd (submit is_uuid D ord p (w\<lparr>wo_db := d\<rparr>))"
    and sent: "wo_placed (snd (submit is_uuid D ord p (w\<lparr>wo_db := d\<rparr>))) \<noteq> wo_placed (w\<lparr>wo_db := d\<rparr>)" .
  obtain s c where order: "gate_order is_uuid ?g = Inr (Ok (s, c))"
    and grant: "kernel_reserve is_uuid (pl_kernel P) (\<lambda>n. pg_authority (ce_attempts ce n)) (ce_quote ce)
        (gate_request ?g (ce_decision ce) s c) (wo_db w) = (Inr (Ok p), d)"
    by (rule validateAndReserve_ok [OF gate])
  obtain shares price style signed where built: "build_order (build_of P ce i p) = Inr (Ok (shares, price, style))"
    and ord: "ord = built_order (build_of P ce i p) (ce_order ce) shares price style"
    by (rule buildSignedOrder_ok [OF build])
  obtain claimed where "executor_ops D wo_placed claimed" using wired [OF D] by blast
  note out = submit_placed [OF this sent]
  have inside: "inside_permit p shares price" using build_order_inside [OF built] by (simp add: build_of_def)
  have sent_ord: "wo_placed w' = wo_placed w @ [ord]" using out w' by simp
  note facts = gate build w' sent_ord ord inside grant_backed [OF grant] gate_order_caps [OF order]
    pg.kernel_reserve_keeps [OF sound grant] out
  show ?thesis
    by (rule exI [of _ decision], rule exI [of _ p], rule exI [of _ d], rule exI [of _ ord], rule exI [of _ signature],
        rule exI [of _ shares], rule exI [of _ price], rule exI [of _ style]) (use facts in simp)
qed

section \<open>What the builder builds, the executor accepts\<close>

lemma build_order_accepted:
  assumes built: "build_order b = Inr (Ok (shares, price, style))" and small: "shares < 10 ^ 15" "price < 10 ^ 15"
  shows "order_refusal (built_order b oid shares price style) (b_permit b) = Inr None"
proof -
  note facts = build_order_ok [OF built]
  have inside: "inside_permit (b_permit b) shares price" using build_order_inside [OF built] by simp
  then have "0 < shares" by (auto simp: inside_permit_def)
  moreover have "0 \<le> price" using facts decimalToBase_nonneg by blast
  ultimately have "toBase6 (units shares) = Inr shares" "toBase6 (units price) = Inr price"
    using small by (simp_all add: toBase6_units)
  with inside facts show ?thesis
    by (auto simp: order_refusal_def built_order_def permitCoversOrder_def price_bound_def inside_permit_def
        not_less split: option.splits)
qed

section \<open>A run\<close>

definition sample_pipeline :: pipeline where
  "sample_pipeline = \<lparr>pl_wallet = g_wallet sample_gate, pl_verified_at = 0, pl_policy = sample_policy, pl_policy_hash = ''ph'',
     pl_kernel = mk_kernel None None None None, pl_vault = mk_vault None (Fin 137), pl_crypto = (\<lambda>_. Inr ''sig''),
     pl_sha256 = id\<rparr>"

definition sample_call :: call_env where
  "sample_call = \<lparr>ce_mode = Venue_NORMAL, ce_epoch = Fin 1, ce_now = 1000, ce_attempts = (\<lambda>_. sample_attempt),
     ce_quote = ''q1'', ce_decision = ''d1'', ce_order = ''o1''\<rparr>"

definition sample_input :: pipeline_input where
  "sample_input = \<lparr>pi_forecast = \<lparr>f_calibrated = Some (Fin (3 / 4)), f_raw = None, f_yes = None\<rparr>,
     pi_book = \<lparr>bk_yes = Some (Fin (1 / 2)), bk_no = None, bk_fee_bps = None\<rparr>,
     pi_intent = sample_intent, pi_market_exposure = None, pi_portfolio_exposure = None\<rparr>"

lemma sample_edge: "er_trade (edge_of sample_pipeline sample_input)" "er_side (edge_of sample_pipeline sample_input) = Some YES"
    "er_price (edge_of sample_pipeline sample_input) = Some (Fin (1 / 2))"
  by (simp_all add: edge_of_def sample_pipeline_def sample_input_def sample_policy_def evaluateEdge_def candidates_def Let_def
      num_eval)

lemma sample_gate_of: "gate_of sample_pipeline sample_call (bound_intent sample_intent (edge_of sample_pipeline sample_input)) sample_input = sample_gate"
  by (simp add: gate_of_def bound_intent_def sample_pipeline_def sample_call_def sample_input_def sample_gate_def sample_intent_def)

definition pipeline_order :: signed_order where
  "pipeline_order = \<lparr>order_id = ''o1'', o_market_id = ''m1'', o_side = BUY, o_price = Fin (1 / 2),
     o_size = Fin 1, o_permit_id = Some ''p1'', o_order_type = Some Style_LIMIT\<rparr>"

lemma units_samples: "units 1000000 = Fin 1" "units 500000 = Fin (1 / 2)"
  by (simp_all add: units_def num_eval)

lemmas gate_permit_simps = gate_permit_def permit_for_def gate_request_def sample_gate_def sample_intent_def Let_def
  mk_kernel_def units_samples sample_policy_def cashNeededFor_def signed_divide_int_def

lemma sample_build_run:
  "buildSignedOrder id (\<lambda>_. True) (\<lambda>_. Inr ''sig'') (mk_vault None (Fin 137))
     (build_of sample_pipeline sample_call (bound_intent sample_intent (edge_of sample_pipeline sample_input)) gate_permit) ''o1''
   = Inr (Ok (pipeline_order, ''sig''))" (is "buildSignedOrder _ _ _ _ ?b _ = _")
proof -
  have b: "?b = \<lparr>b_intent = sample_intent, b_permit = gate_permit, b_wallet = g_wallet sample_gate, b_verified_at = 0,
      b_venue_mode = Venue_NORMAL, b_now = 1000\<rparr>"
    by (simp add: build_of_def bound_intent_def sample_pipeline_def sample_call_def sample_input_def sample_intent_def)
  have order: "build_order ?b = Inr (Ok (1000000, 500000, Style_LIMIT))"
    unfolding b by (simp add: build_order_def gate_permit_simps order_size_def
        intent_order_side_def decimalToBase_half toBase6_one clamp_size_def cashNeededFor_def signed_divide_int_def)
  have "checkAllowed (\<lambda>_. True) (mk_vault None (Fin 137)) (build_request id ?b ''o1'' 1000000 500000) = Inr (Ok ())"
    unfolding b by (simp add: checkAllowed_def build_request_def gate_permit_simps
        mk_vault_def ExecutionPermitSchema_def z_min1_def z_nonneg_def SIGNER_ALLOWED_ACTIONS_def
        decimalToBase_half toBase6_one signed_divide_int_def num_eval)
  then have "vault_sign id (\<lambda>_. True) (\<lambda>_. Inr ''sig'') (mk_vault None (Fin 137))
      (build_request id ?b ''o1'' 1000000 500000) = Inr (Ok (''sig'', 1000))"
    unfolding b by (simp add: vault_sign_def) (simp add: build_request_def Let_def computePayloadHash_def payload_fields_def)
  with order show ?thesis
    unfolding b by (simp add: buildSignedOrder_def SignedOrderSchema_def built_order_def pipeline_order_def gate_permit_simps
        intent_order_side_def z_min1_def z_unit_def z_positive_def num_eval)
qed

lemma pipeline_accepted: "order_refusal pipeline_order gate_permit = Inr None" "ExecutionPermitSchema (\<lambda>_. True) gate_permit"
  by (simp_all add: order_refusal_def pipeline_order_def gate_permit_simps permitCoversOrder_def toBase6_one
      decimalToBase_half price_bound_def cashNeededFor_def signed_divide_int_def ExecutionPermitSchema_def z_min1_def z_nonneg_def num_eval)

lemma pipeline_fields:
  "order_id pipeline_order = ''o1''" "o_permit_id pipeline_order = Some ''p1''" "permit_id gate_permit = ''p1''"
  "single_use gate_permit" "expires_at gate_permit = 61000" "p_lease_epoch gate_permit = Fin 1"
  by (simp_all add: pipeline_order_def gate_permit_simps)

lemma pipeline_submits:
  "wo_placed (snd (submit (\<lambda>_. True) (mem_deps (sample_env (Sub_Fail ''SUBMISSION_UNKNOWN'' ''timeout'')))
     pipeline_order gate_permit (sample_world\<lparr>wo_db := d\<rparr>))) = [pipeline_order]"
  by (simp add: run_defs pipeline_accepted pipeline_fields after_failure_def Let_def)

lemma sample_pipeline_run:
  "wo_placed (snd (orchestrate (\<lambda>_. True) sample_pipeline (mem_deps (sample_env (Sub_Fail ''SUBMISSION_UNKNOWN'' ''timeout'')))
     sample_call sample_input (sample_world\<lparr>wo_db := funded_db\<rparr>))) = [pipeline_order]" (is "wo_placed (snd (orchestrate _ _ ?D _ _ ?w)) = _")
proof -
  from sample_gate_run obtain d' where run: "validateAndReserve (\<lambda>_. True) (mk_kernel None None None None)
      (\<lambda>_. pg_authority sample_attempt) ''q1'' ''d1'' sample_gate funded_db
      = (Inr (Ok (decision_for sample_gate ''d1'' gate_permit, gate_permit)), d')" by blast
  have i: "pi_intent sample_input = sample_intent" by (simp add: sample_input_def)
  have s: "pl_kernel sample_pipeline = mk_kernel None None None None" "pl_sha256 sample_pipeline = id"
    "pl_crypto sample_pipeline = (\<lambda>_. Inr ''sig'')" "pl_vault sample_pipeline = mk_vault None (Fin 137)"
    "ce_attempts sample_call = (\<lambda>_. sample_attempt)" "ce_quote sample_call = ''q1''" "ce_decision sample_call = ''d1''"
    "ce_order sample_call = ''o1''"
    by (simp_all add: sample_pipeline_def sample_call_def)
  have "wo_placed (snd (gate_build_submit (\<lambda>_. True) sample_pipeline ?D sample_call sample_input
      (bound_intent sample_intent (edge_of sample_pipeline sample_input)) ?w)) = [pipeline_order]"
    using pipeline_submits [of d']
    by (auto simp: gate_build_submit_def sample_gate_of s run sample_build_run split: prod.splits sum.splits try_submit.splits)
  then show ?thesis
    by (simp add: orchestrate_def Let_def sample_edge i) (simp add: sample_intent_def num_eval)
qed

section \<open>Properties\<close>

text \<open>C7. Nothing gets past a stage of the pipeline. If a run of the orchestrator puts an order in front of the
  venue, on either wiring of the executor, then the forecast had an edge on the intent's side at the
  intent's price; the risk gate, called on that intent, granted a permit and left a database \<open>d\<close>; the builder
  built the order from that permit; the run is the executor's submission of that order under that permit on \<open>d\<close>;
  and the venue received exactly that one order. The permit's cash ceiling respects the commissioned caps, \<open>d\<close> holds an
  ACTIVE reservation of exactly that cash for the intent on sound books, the order's shares and price are inside the
  permit, and it passed every pure check of the executor.\<close>

theorem no_order_past_any_stage:
  assumes "sound (wo_db w)" and "D \<in> {mem_deps e, pg_deps read_int8 e}"
    and run: "orchestrate is_uuid P D ce inp w = (r, w')" and placed: "wo_placed w' \<noteq> wo_placed w"
  shows "er_trade (edge_of P inp) \<and> er_side (edge_of P inp) = Some (outcome_of_side (ti_side (pi_intent inp))) \<and>
    (\<forall>x y. ti_limit_price (pi_intent inp) = Some x \<and> er_price (edge_of P inp) = Some y \<longrightarrow> num_eq x y) \<and>
    (let i = bound_intent (pi_intent inp) (edge_of P inp); g = gate_of P ce i inp
     in \<exists>decision p d ord signature shares price style.
        validateAndReserve is_uuid (pl_kernel P) (\<lambda>n. pg_authority (ce_attempts ce n)) (ce_quote ce) (ce_decision ce)
          g (wo_db w) = (Inr (Ok (decision, p)), d) \<and>
        buildSignedOrder (pl_sha256 P) is_uuid (pl_crypto P) (pl_vault P) (build_of P ce i p) (ce_order ce)
          = Inr (Ok (ord, signature)) \<and>
        w' = snd (submit is_uuid D ord p (w\<lparr>wo_db := d\<rparr>)) \<and> wo_placed w' = wo_placed w @ [ord] \<and>
        ord = built_order (build_of P ce i p) (ce_order ce) shares price style \<and> inside_permit p shares price \<and>
        caps_respected g (the (max_cash_base p)) \<and> permit_backed g p (the (max_cash_base p)) d \<and>
        sound d \<and> keeps_books (wo_db w) d \<and> submit_allowed is_uuid D ord p)"
proof -
  note edge = orchestrate_placed [OF run placed]
  from edge have "gate_build_submit is_uuid P D ce inp (bound_intent (pi_intent inp) (edge_of P inp)) w = (r, w')" by blast
  from gate_build_submit_placed [OF assms(1,2) this placed] edge show ?thesis unfolding Let_def by blast
qed

theorem no_order_past_any_stage_witness:
  "let D = mem_deps (sample_env (Sub_Fail ''SUBMISSION_UNKNOWN'' ''timeout''));
       i = bound_intent sample_intent (edge_of sample_pipeline sample_input)
   in \<exists>decision p d shares price style.
     validateAndReserve (\<lambda>_. True) (pl_kernel sample_pipeline) (\<lambda>n. pg_authority (ce_attempts sample_call n)) ''q1'' ''d1''
       (gate_of sample_pipeline sample_call i sample_input) funded_db = (Inr (Ok (decision, p)), d) \<and>
     pipeline_order = built_order (build_of sample_pipeline sample_call i p) ''o1'' shares price style \<and>
     inside_permit p shares price \<and> submit_allowed (\<lambda>_. True) D pipeline_order p"
proof -
  let ?e = "sample_env (Sub_Fail ''SUBMISSION_UNKNOWN'' ''timeout'')" and ?w = "sample_world\<lparr>wo_db := funded_db\<rparr>"
  have sound: "sound (wo_db ?w)" by (simp add: sample_sound)
  have fields: "pi_intent sample_input = sample_intent" "ce_quote sample_call = ''q1''" "ce_decision sample_call = ''d1''"
    "ce_order sample_call = ''o1''" "wo_db ?w = funded_db" "wo_placed ?w = []"
    by (simp_all add: sample_input_def sample_call_def sample_world_def)
  have sent: "wo_placed (snd (orchestrate (\<lambda>_. True) sample_pipeline (mem_deps ?e) sample_call sample_input ?w)) \<noteq> wo_placed ?w"
    by (simp only: sample_pipeline_run fields) simp
  from no_order_past_any_stage [OF sound _ surjective_pairing sent, of ?e undefined, unfolded sample_pipeline_run fields Let_def]
  show ?thesis unfolding Let_def by simp blast
qed

text \<open>The PostgreSQL orchestrator does not bind the intent to the edge: with an edge on YES an intent that sells is gated like any other.\<close>

lemma orchestrate_pg_unbound:
  "er_trade (edge_of P inp) \<Longrightarrow>
     orchestrate_pg is_uuid P D ce inp w = gate_build_submit is_uuid P D ce inp (pi_intent inp) w"
  by (simp add: orchestrate_pg_def)

lemma orchestrate_binds_side:
  "er_trade (edge_of P inp) \<Longrightarrow> er_side (edge_of P inp) \<noteq> Some (outcome_of_side (ti_side (pi_intent inp))) \<Longrightarrow>
     orchestrate is_uuid P D ce inp w = (Inr (Blocked Stage_EDGE ''SIDE_MISMATCH''), w)"
  by (auto simp: orchestrate_def Let_def)

text \<open>C8. Builder and executor agree on the arithmetic: let an order be built under a permit the kernel granted for
  fewer than \<open>10 ^ 15\<close> base units of shares, that is for less than \<open>10 ^ 9\<close> shares. Then the permit is well-formed, the
  order names it, and it passes every comparison of the executor with its permit (side, market, style, size, cash and
  price bounds), although the permit's quotas and the order's size and price travel as JavaScript numbers in between.
  So of the pure checks of the executor, over any dependencies, only the permit's expiry and the venue mode can still refuse it.\<close>

theorem executor_accepts_built_orders:
  assumes grant: "kernel_reserve is_uuid k (\<lambda>i. pg_authority (env i)) quote rq d = (Inr (Ok p), d')"
    and small: "rq_shares rq < 10 ^ 15"
    and build: "buildSignedOrder sha256 is_uuid crypto v b oid = Inr (Ok (ord, signature))" and p: "b_permit b = p"
  shows "order_refusal ord p = Inr None \<and> o_permit_id ord = Some (permit_id p) \<and> ExecutionPermitSchema is_uuid p \<and>
    (submit_allowed is_uuid D ord p \<longleftrightarrow> d_now D \<le> expires_at p \<and> venueActionGate (d_mode D) ORDER_SUBMIT = Ok ())"
proof -
  obtain shares price style signed where built: "build_order b = Inr (Ok (shares, price, style))"
    and ord: "ord = built_order b oid shares price style"
    by (rule buildSignedOrder_ok [OF build])
  from pg.kernel_reserve_grants [OF grant] obtain vm ids
    where g: "kernel_guard k rq d = Inr (Ok ())" and pf: "p = permit_for k rq quote vm ids" by blast
  note caps = kernel_guard_ok [OF g]
  have "toBase6 (max_qty p) = Inr (rq_shares rq)"
    using caps small by (simp add: pf permit_for_def toBase6_units)
  then have "shares < 10 ^ 15" using build_order_inside [OF built] small by (auto simp: inside_permit_def p)
  moreover have "price < 10 ^ 15"
    using build_order_inside [OF built] caps by (auto simp: inside_permit_def p pf permit_for_def)
  ultimately have "order_refusal ord p = Inr None" unfolding ord p [symmetric] by (rule build_order_accepted [OF built])
  with kernel_reserve_schema [OF grant] show ?thesis by (auto simp: ord built_order_def p submit_allowed_def)
qed

theorem executor_accepts_built_orders_witness:
  "order_refusal pipeline_order gate_permit = Inr None \<and>
    submit_allowed (\<lambda>_. True) (mem_deps (sample_env (Sub_Fail [] []))) pipeline_order gate_permit"
proof -
  from sample_gate_grant obtain d' where grant: "kernel_reserve (\<lambda>_. True) (mk_kernel None None None None)
      (\<lambda>i. pg_authority ((\<lambda>_. sample_attempt) i)) ''q1'' (gate_request sample_gate ''d1'' 1000000 500000) funded_db
      = (Inr (Ok gate_permit), d')" by blast
  have "rq_shares (gate_request sample_gate ''d1'' 1000000 500000) < 10 ^ 15" by (simp add: gate_request_def Let_def)
  from executor_accepts_built_orders [OF grant this sample_build_run, of "mem_deps (sample_env (Sub_Fail [] []))"]
  show ?thesis by (simp add: build_of_def) (simp add: mem_deps_def sample_env_def venueActionGate_def pipeline_fields)
qed

end
