(* ===== verification/LossGuard.thy ===== *)
theory LossGuard
  imports KillSwitch JsOrder
begin

text \<open>
  The loss-cap latch of live trading: \<open>src/pm/runtime/src/micro-live-guard.ts\<close> (the latch and the G4 readiness
  gate), \<open>reality-gap.ts\<close> (the verdict on simulated against observed fills), the latch row of
  \<open>live-guard-store.ts\<close> and its three writers: the entry check of \<open>g4-core.ts\<close>, the owner reset of
  \<open>cli.ts\<close> and the halt request of \<open>observability/halt-manager.ts\<close>. \<open>NUMERIC\<close> holds every double
  exactly, so a finite loss is read back as it was written.
\<close>

section \<open>The latch\<close>

datatype loss_code = LOSS_WITHIN_CAP | LOSS_CAP_BREACHED | LOSS_CAP_LATCHED | LOSS_CAP_UNCONFIGURED

record loss_state =
  gs_halted :: bool
  gs_halted_at :: "ms option"
  gs_loss :: jsnum

record loss_input =
  li_loss :: jsnum
  li_cap :: jsnum
  li_reset :: bool
  li_previous :: "loss_state option"
  li_now :: ms

record loss_result =
  gr_halted :: bool
  gr_level :: kill_level
  gr_code :: loss_code
  gr_state :: loss_state

definition isFiniteNonNegative :: "jsnum \<Rightarrow> bool" where
  "isFiniteNonNegative n \<longleftrightarrow> is_finite_num n \<and> num_le (Fin 0) n"

text \<open>\<open>previous?.halted\<close> and \<open>previous?.haltedAt\<close>.\<close>

definition was_halted :: "loss_state option \<Rightarrow> bool" where
  "was_halted p = (case p of None \<Rightarrow> False | Some s \<Rightarrow> gs_halted s)"

definition evaluateLossGuard :: "loss_input \<Rightarrow> loss_result" where
  "evaluateLossGuard i =
     (let halt = (\<lambda>code at'. \<lparr>gr_halted = True, gr_level = PAUSE_ENTRIES, gr_code = code,
            gr_state = \<lparr>gs_halted = True, gs_halted_at = at', gs_loss = li_loss i\<rparr>\<rparr>);
          since = Option.bind (li_previous i) gs_halted_at
      in if \<not> isFiniteNonNegative (li_cap i) \<or> num_le (li_cap i) (Fin 0) \<or> \<not> isFiniteNonNegative (li_loss i)
           then halt LOSS_CAP_UNCONFIGURED (Some (li_now i))
         else if was_halted (li_previous i) \<and> \<not> li_reset i then halt LOSS_CAP_LATCHED since
         else if num_le (li_cap i) (li_loss i)
           then halt (if li_reset i then LOSS_CAP_LATCHED else LOSS_CAP_BREACHED)
                  (case since of None \<Rightarrow> Some (li_now i) | Some t \<Rightarrow> Some t)
         else \<lparr>gr_halted = False, gr_level = Kill_NONE, gr_code = LOSS_WITHIN_CAP,
                gr_state = \<lparr>gs_halted = False, gs_halted_at = None, gs_loss = li_loss i\<rparr>\<rparr>)"

definition microLiveEntriesBlocked :: "kill_level \<Rightarrow> bool" where
  "microLiveEntriesBlocked level = levelAtLeast level PAUSE_ENTRIES"

section \<open>The durable row\<close>

text \<open>The row keyed \<open>micro-live\<close>, if it is there; its columns are those of the state.\<close>

type_synonym guard_row = "loss_state option"

definition toNumber :: "jsnum \<Rightarrow> jsnum" where
  "toNumber n = (if is_finite_num n then n else Fin 0)"

definition guard_load :: "guard_row \<Rightarrow> loss_state option" where
  "guard_load row = map_option (\<lambda>r. r\<lparr>gs_loss := toNumber (gs_loss r)\<rparr>) row"

definition guard_save :: "loss_state \<Rightarrow> guard_row \<Rightarrow> guard_row" where
  "guard_save s row = Some s"

definition decideGuardReset :: "loss_state option \<Rightarrow> jsnum \<Rightarrow> jsnum \<Rightarrow> unit outcome" where
  "decideGuardReset s loss cap =
     (if \<not> was_halted s then Ok ()
      else if \<not> is_finite_num loss \<or> \<not> is_finite_num cap \<or> num_le cap (Fin 0) then Refused ''GUARD_RESET_INVALID''
      else if num_le cap loss then Refused ''GUARD_RESET_REFUSED''
      else Ok ())"

text \<open>The three writers: the check before a live entry, the owner's reset, the halt request.\<close>

definition entry_check :: "jsnum \<Rightarrow> jsnum \<Rightarrow> ms \<Rightarrow> guard_row \<Rightarrow> bool \<times> guard_row" where
  "entry_check loss cap now row =
     (let r = evaluateLossGuard \<lparr>li_loss = loss, li_cap = cap, li_reset = False, li_previous = guard_load row, li_now = now\<rparr>
      in (\<not> gr_halted r, guard_save (gr_state r) row))"

definition runGuardReset :: "jsnum \<Rightarrow> jsnum \<Rightarrow> guard_row \<Rightarrow> bool \<times> guard_row" where
  "runGuardReset loss cap row =
     (case decideGuardReset (guard_load row) loss cap of
        Refused _ \<Rightarrow> (False, row)
      | Ok _ \<Rightarrow> (True, if was_halted (guard_load row)
                      then guard_save \<lparr>gs_halted = False, gs_halted_at = None, gs_loss = loss\<rparr> row else row))"

definition halt_latch :: "ms \<Rightarrow> guard_row \<Rightarrow> guard_row" where
  "halt_latch now row = guard_save \<lparr>gs_halted = True, gs_halted_at = Some now,
     gs_loss = (case guard_load row of None \<Rightarrow> Fin 0 | Some p \<Rightarrow> gs_loss p)\<rparr> row"

section \<open>Histories of the row\<close>

datatype guard_event = Entry_Check jsnum jsnum ms | Owner_Reset jsnum jsnum | Halt_Request ms

fun guard_step :: "guard_event \<Rightarrow> guard_row \<Rightarrow> guard_row" where
  "guard_step (Entry_Check loss cap now) row = snd (entry_check loss cap now row)"
| "guard_step (Owner_Reset loss cap) row = snd (runGuardReset loss cap row)"
| "guard_step (Halt_Request now) row = halt_latch now row"

definition guard_run :: "guard_event list \<Rightarrow> guard_row \<Rightarrow> guard_row" where
  "guard_run es row = fold guard_step es row"

text \<open>A loss measured below a usable cap; the events that must engage the latch; a reset that may clear it.\<close>

definition within_loss_cap :: "jsnum \<Rightarrow> jsnum \<Rightarrow> bool" where
  "within_loss_cap loss cap \<longleftrightarrow> isFiniteNonNegative loss \<and> is_finite_num cap \<and> num_lt loss cap"

fun halting :: "guard_event \<Rightarrow> bool" where
  "halting (Entry_Check loss cap now) \<longleftrightarrow> \<not> within_loss_cap loss cap"
| "halting (Owner_Reset loss cap) \<longleftrightarrow> False"
| "halting (Halt_Request now) \<longleftrightarrow> True"

fun clearing :: "guard_event \<Rightarrow> bool" where
  "clearing (Owner_Reset loss cap) \<longleftrightarrow> is_finite_num loss \<and> is_finite_num cap \<and> num_lt (Fin 0) cap \<and> num_lt loss cap"
| "clearing _ \<longleftrightarrow> False"

lemma was_halted_load [simp]: "was_halted (guard_load row) = was_halted row"
  by (cases row) (simp_all add: guard_load_def was_halted_def)

text \<open>What the evaluation decides.\<close>

lemma evaluateLossGuard_halts:
  "gr_halted (evaluateLossGuard i) \<longleftrightarrow>
     \<not> within_loss_cap (li_loss i) (li_cap i) \<or> was_halted (li_previous i) \<and> \<not> li_reset i"
  by (auto simp: evaluateLossGuard_def Let_def within_loss_cap_def isFiniteNonNegative_def num_le_not_lt
      intro: num_le_lt_trans num_lt_trans)

lemma evaluateLossGuard_state: "gs_halted (gr_state (evaluateLossGuard i)) = gr_halted (evaluateLossGuard i)"
  by (simp add: evaluateLossGuard_def Let_def)

lemma entry_check_allowed:
  "fst (entry_check loss cap now row) \<longleftrightarrow> within_loss_cap loss cap \<and> \<not> was_halted row"
  by (simp add: entry_check_def Let_def evaluateLossGuard_halts)

lemma halting_halts: "halting e \<Longrightarrow> was_halted (guard_step e row)"
  by (cases e) (simp_all add: entry_check_def Let_def guard_save_def was_halted_def evaluateLossGuard_state
      evaluateLossGuard_halts halt_latch_def)

lemma halted_stays:
  "was_halted row \<Longrightarrow> \<not> clearing e \<Longrightarrow> was_halted (guard_step e row)"
  by (cases e) (auto simp: entry_check_def Let_def guard_save_def was_halted_def evaluateLossGuard_state
      evaluateLossGuard_halts halt_latch_def runGuardReset_def decideGuardReset_def guard_load_def num_le_not_lt
      split: option.splits if_splits)

lemma halted_until_cleared:
  "was_halted row \<Longrightarrow> \<forall>e \<in> set es. \<not> clearing e \<Longrightarrow> was_halted (guard_run es row)"
  by (induction es arbitrary: row) (simp_all add: guard_run_def halted_stays)

lemma guard_run_append: "guard_run (xs @ ys) row = guard_run ys (guard_run xs row)"
  by (simp add: guard_run_def)

lemma guard_run_Cons: "guard_run (e # es) row = guard_run es (guard_step e row)"
  by (simp add: guard_run_def)

section \<open>The reality gap\<close>

datatype gap_verdict = Gap_PASS | Gap_FAIL | Gap_INCONCLUSIVE

record gap_input =
  gi_paper :: jsnum
  gi_observed :: jsnum
  gi_slippage :: jsnum
  gi_overfill :: jsnum
  gi_violations :: jsnum
  gi_attempts :: jsnum

record gap_tolerances =
  tol_gap_pp :: jsnum
  tol_slippage :: jsnum
  tol_attempts :: jsnum

text \<open>The defaults 10, 0.005 and 100; the decimals are the doubles they are read as.\<close>

definition DEFAULT_TOLERANCES :: gap_tolerances where
  "DEFAULT_TOLERANCES = \<lparr>tol_gap_pp = Fin 10, tol_slippage = fl (5 / 1000), tol_attempts = Fin 100\<rparr>"

definition fillRateGapPp :: "gap_input \<Rightarrow> jsnum" where
  "fillRateGapPp i = num_mul (num_abs (num_sub (gi_paper i) (gi_observed i))) (Fin 100)"

definition gap_epsilon :: jsnum where
  "gap_epsilon = fl (1 / 10 ^ 9)"

text \<open>The reasons against a pass: overfills, violations, fill-rate gap, slippage.\<close>

definition gap_reasons :: "gap_input \<Rightarrow> gap_tolerances \<Rightarrow> string list" where
  "gap_reasons i tol =
     (if num_lt (Fin 0) (gi_overfill i) then [''cancel overfill''] else []) @
     (if num_lt (Fin 0) (gi_violations i) then [''invariant violations''] else []) @
     (if num_lt (num_add (tol_gap_pp tol) gap_epsilon) (fillRateGapPp i) then [''fill-rate gap''] else []) @
     (if num_lt (num_add (tol_slippage tol) gap_epsilon) (num_abs (gi_slippage i)) then [''slippage bias''] else [])"

definition evaluateRealityGap :: "gap_input \<Rightarrow> gap_tolerances \<Rightarrow> gap_verdict" where
  "evaluateRealityGap i tol =
     (if \<exists>x \<in> set [gi_paper i, gi_observed i, gi_slippage i, gi_overfill i, gi_violations i, gi_attempts i].
           \<not> is_finite_num x then Gap_INCONCLUSIVE
      else if num_lt (gi_paper i) (Fin 0) \<or> num_lt (Fin 1) (gi_paper i) \<or>
              num_lt (gi_observed i) (Fin 0) \<or> num_lt (Fin 1) (gi_observed i) then Gap_INCONCLUSIVE
      else if num_lt (gi_attempts i) (Fin 0) \<or> num_lt (gi_overfill i) (Fin 0) \<or> num_lt (gi_violations i) (Fin 0)
        then Gap_INCONCLUSIVE
      else if num_lt (gi_attempts i) (tol_attempts tol) then Gap_INCONCLUSIVE
      else if gap_reasons i tol \<noteq> [] then Gap_FAIL else Gap_PASS)"

section \<open>Readiness for live trading\<close>

record readiness_input =
  ri_days :: jsnum
  ri_clusters :: jsnum
  ri_min_days :: jsnum
  ri_min_clusters :: jsnum
  ri_gap :: gap_input
  ri_tolerances :: gap_tolerances
  ri_loss :: loss_input

datatype readiness = PROMOTE | HOLD | BLOCKED

definition evaluateShadowCandidate :: "jsnum \<Rightarrow> jsnum \<Rightarrow> jsnum \<Rightarrow> jsnum \<Rightarrow> bool" where
  "evaluateShadowCandidate days clusters min_days min_clusters =
     (if num_lt days min_days then False else if num_lt clusters min_clusters then False else True)"

definition evaluateG4Readiness :: "readiness_input \<Rightarrow> readiness" where
  "evaluateG4Readiness i =
     (if \<not> evaluateShadowCandidate (ri_days i) (ri_clusters i) (ri_min_days i) (ri_min_clusters i) then HOLD
      else case evaluateRealityGap (ri_gap i) (ri_tolerances i) of
        Gap_INCONCLUSIVE \<Rightarrow> HOLD
      | Gap_FAIL \<Rightarrow> BLOCKED
      | Gap_PASS \<Rightarrow> if gr_halted (evaluateLossGuard (ri_loss i)) then BLOCKED else PROMOTE)"

text \<open>What a passed gap says of the measurements.\<close>

lemma evaluateRealityGap_pass:
  assumes "evaluateRealityGap i tol = Gap_PASS"
  shows "\<forall>x \<in> set [gi_paper i, gi_observed i, gi_slippage i, gi_overfill i, gi_violations i, gi_attempts i]. is_finite_num x"
    and "gi_overfill i = Fin 0" and "gi_violations i = Fin 0"
    and "\<not> num_lt (gi_attempts i) (tol_attempts tol)"
    and "\<not> num_lt (num_add (tol_gap_pp tol) gap_epsilon) (fillRateGapPp i)"
    and "\<not> num_lt (num_add (tol_slippage tol) gap_epsilon) (num_abs (gi_slippage i))"
proof -
  note d = assms [unfolded evaluateRealityGap_def gap_reasons_def]
  show fin: "\<forall>x \<in> set [gi_paper i, gi_observed i, gi_slippage i, gi_overfill i, gi_violations i, gi_attempts i]. is_finite_num x"
    using d by (auto split: if_splits)
  have zero: "x = Fin 0" if "is_finite_num x" "\<not> num_lt x (Fin 0)" "\<not> num_lt (Fin 0) x" for x
    using that by (cases x) simp_all
  show "gi_overfill i = Fin 0" "gi_violations i = Fin 0"
    using d fin by (auto intro!: zero split: if_splits)
  show "\<not> num_lt (gi_attempts i) (tol_attempts tol)"
    "\<not> num_lt (num_add (tol_gap_pp tol) gap_epsilon) (fillRateGapPp i)"
    "\<not> num_lt (num_add (tol_slippage tol) gap_epsilon) (num_abs (gi_slippage i))"
    using d by (auto split: if_splits)
qed

lemma evaluateG4Readiness_promotes:
  "evaluateG4Readiness i = PROMOTE \<longleftrightarrow>
     evaluateShadowCandidate (ri_days i) (ri_clusters i) (ri_min_days i) (ri_min_clusters i) \<and>
     evaluateRealityGap (ri_gap i) (ri_tolerances i) = Gap_PASS \<and>
     \<not> gr_halted (evaluateLossGuard (ri_loss i))"
  by (simp add: evaluateG4Readiness_def split: gap_verdict.split)

text \<open>A baseline that is not a number counts as met.\<close>

lemma nan_baseline_passes: "evaluateShadowCandidate NaN NaN (Fin 30) (Fin 100)"
  by (simp add: evaluateShadowCandidate_def)

section \<open>Properties\<close>

text \<open>C28. The loss latch holds. Whatever entry checks, owner resets and halt requests the latch row has been
  through, an entry is let through only if the realized loss is a non-negative number below a finite cap and if
  every event before it that had to engage the latch (a halt request, or a check with the loss not below
  the cap) was followed by an owner reset with a finite loss measured below its positive cap.\<close>

theorem loss_latch_holds:
  assumes "fst (entry_check loss cap now (guard_run es row))"
  shows "within_loss_cap loss cap \<and>
    (\<forall>before e after. es = before @ e # after \<and> halting e \<longrightarrow> (\<exists>r \<in> set after. clearing r))"
proof -
  have c: "within_loss_cap loss cap" and open': "\<not> was_halted (guard_run es row)"
    using assms by (simp_all add: entry_check_allowed)
  have "\<exists>r \<in> set after. clearing r" if "es = before @ e # after" "halting e" for before e after
  proof (rule ccontr)
    assume "\<not> (\<exists>r \<in> set after. clearing r)"
    then have "was_halted (guard_run es row)"
      using that halted_until_cleared [OF halting_halts [OF that(2)]] by (simp add: guard_run_append guard_run_Cons)
    with open' show False ..
  qed
  with c show ?thesis by blast
qed

theorem loss_latch_holds_witness:
  "\<exists>r \<in> set [Owner_Reset (Fin 1) (Fin 5)]. clearing r"
proof -
  have "fst (entry_check (Fin 1) (Fin 5) 3000 (guard_run [Halt_Request 1000, Owner_Reset (Fin 1) (Fin 5)] None))"
    by (simp add: entry_check_allowed guard_run_def within_loss_cap_def isFiniteNonNegative_def num_le_def runGuardReset_def
        decideGuardReset_def halt_latch_def guard_save_def was_halted_def guard_load_def)
  from loss_latch_holds [OF this] show ?thesis by (metis append_Nil halting.simps(3))
qed

text \<open>
  A check reads the row, waits for the realized loss and then writes the row. A halt request in between is
  overwritten: the write carries the state evaluated from the row before the halt.
\<close>

lemma inflight_check_undoes_halt:
  "let row = Some \<lparr>gs_halted = False, gs_halted_at = None, gs_loss = Fin 0\<rparr>; loaded = guard_load row;
       halted = halt_latch 1000 row;
       r = evaluateLossGuard \<lparr>li_loss = Fin 0, li_cap = Fin 5, li_reset = False, li_previous = loaded, li_now = 1001\<rparr>
   in was_halted halted \<and> \<not> gr_halted r \<and> \<not> was_halted (guard_save (gr_state r) halted)"
  by (simp add: Let_def guard_load_def halt_latch_def guard_save_def was_halted_def evaluateLossGuard_def
      isFiniteNonNegative_def num_le_def toNumber_def)

text \<open>A halted row whose timestamp is missing keeps no time: a latched evaluation passes it on.\<close>

lemma latched_keeps_time:
  assumes "was_halted (li_previous i)" and "\<not> li_reset i" and "within_loss_cap (li_loss i) (li_cap i)"
  shows "gs_halted_at (gr_state (evaluateLossGuard i)) = Option.bind (li_previous i) gs_halted_at"
  using assms
  by (auto simp: evaluateLossGuard_def Let_def within_loss_cap_def isFiniteNonNegative_def num_le_not_lt
      dest: num_le_lt_trans num_lt_trans)

end
