(* ===== verification/Calibration.thy ===== *)
theory Calibration
  imports BaseUnits JsOrder "HOL-Library.While_Combinator" "HOL-Library.Product_Lexorder" "HOL-Library.Multiset"
begin

text \<open>
  Isotonic calibration of forecasts, \<open>src/pm/intelligence/src/calibration.ts\<close>: the pool-adjacent-violators fit,
  its evaluation, and training and reading of the stored maps. The inner loop of the fit is a \<open>while_option\<close>, so
  that its termination is a theorem. The rows of \<open>calibration_models\<close> are a map from the key
  (model, category, horizon, regime); the provider column is always \<open>openai\<close>, and a JSON column returns the
  finite numbers that were written. \<open>Array.prototype.sort\<close> is stable, and the comparator \<open>a.p - b.p\<close> orders
  numbers by value, the infinities at the ends (their difference with themselves, NaN, counts as equal). With a NaN among the
  predictions the comparator is inconsistent and the language leaves the order open; the facts for every order are
  stated over \<open>fit_sorted\<close>, the fit of a list in whatever order the sort left it.
\<close>

section \<open>The fit\<close>

record sample =
  sm_p :: jsnum
  sm_y :: jsnum

record point =
  pt_p :: jsnum
  pt_cal :: jsnum

record block =
  bk_ps :: "jsnum list"
  bk_sum :: jsnum
  bk_n :: nat

fun num_rat :: "jsnum \<Rightarrow> rat" where
  "num_rat (Fin q) = q"
| "num_rat _ = 0"

text \<open>The place of a number in the order of its values.\<close>

fun num_key :: "jsnum \<Rightarrow> int \<times> rat" where
  "num_key NegInf = (0, 0)"
| "num_key (Fin q) = (1, q)"
| "num_key PosInf = (2, 0)"
| "num_key NaN = (3, 0)"

definition bk_mean :: "block \<Rightarrow> jsnum" where
  "bk_mean b = num_div (bk_sum b) (Fin (of_nat (bk_n b)))"

text \<open>The array of blocks, newest first; the loop pools the two newest while they are out of order.\<close>

fun violates :: "block list \<Rightarrow> bool" where
  "violates (b # a # rest) \<longleftrightarrow> \<not> num_le (bk_mean a) (bk_mean b)"
| "violates _ \<longleftrightarrow> False"

fun pool :: "block list \<Rightarrow> block list" where
  "pool (b # a # rest) =
     \<lparr>bk_ps = bk_ps a @ bk_ps b, bk_sum = num_add (bk_sum a) (bk_sum b), bk_n = bk_n a + bk_n b\<rparr> # rest"
| "pool bs = bs"

definition settle :: "block list \<Rightarrow> block list option" where
  "settle bs = while_option violates pool bs"

definition add_sample :: "sample \<Rightarrow> block list option \<Rightarrow> block list option" where
  "add_sample q bs = Option.bind bs (\<lambda>bs. settle (\<lparr>bk_ps = [sm_p q], bk_sum = sm_y q, bk_n = 1\<rparr> # bs))"

definition point_of :: "block \<Rightarrow> point" where
  "point_of b = \<lparr>pt_p = last (bk_ps b), pt_cal = num_clamp01 (bk_mean b)\<rparr>"

definition fit_sorted :: "sample list \<Rightarrow> point list option" where
  "fit_sorted ys = map_option (\<lambda>bs. map point_of (rev bs)) (fold add_sample ys (Some []))"

definition fitIsotonic :: "sample list \<Rightarrow> point list option" where
  "fitIsotonic pairs = fit_sorted (sort_key (\<lambda>s. num_key (sm_p s)) pairs)"

section \<open>Evaluation\<close>

fun scan_points :: "jsnum \<Rightarrow> point list \<Rightarrow> jsnum \<Rightarrow> jsnum" where
  "scan_points lo [] p = lo"
| "scan_points lo (q # qs) p = (if num_le (pt_p q) p then scan_points (pt_cal q) qs p else lo)"

definition applyIsotonic :: "point list \<Rightarrow> jsnum \<Rightarrow> jsnum" where
  "applyIsotonic points p =
     (if points = [] then p
      else let s = sort_key (\<lambda>q. num_key (pt_p q)) points
        in if num_le p (pt_p (hd s)) then pt_cal (hd s)
           else if num_le (pt_p (last s)) p then pt_cal (last s)
           else scan_points (pt_cal (hd s)) s p)"

section \<open>Training and reading\<close>

definition MIN_CALIBRATION_SAMPLES :: nat where
  "MIN_CALIBRATION_SAMPLES = 20"

record cal_key =
  ck_model :: string
  ck_category :: string
  ck_horizon :: int
  ck_regime :: string

type_synonym cal_models = "cal_key \<rightharpoonup> point list"

definition in_unit :: "jsnum \<Rightarrow> bool" where
  "in_unit x \<longleftrightarrow> is_finite_num x \<and> num_le (Fin 0) x \<and> num_le x (Fin 1)"

definition zip_samples :: "jsnum list \<Rightarrow> jsnum list \<Rightarrow> sample list" where
  "zip_samples ps ys =
     map (\<lambda>i. \<lparr>sm_p = ps ! i, sm_y = (if i < length ys then ys ! i else NaN)\<rparr>) [0..<length ps]"

text \<open>The outer \<open>None\<close> is a fit that does not return.\<close>

definition train :: "cal_key \<Rightarrow> jsnum list \<Rightarrow> jsnum list \<Rightarrow> cal_models \<Rightarrow> (unit outcome \<times> cal_models) option" where
  "train key ps ys st =
     (let clean = filter (\<lambda>q. in_unit (sm_p q) \<and> in_unit (sm_y q)) (zip_samples ps ys)
      in if length clean < MIN_CALIBRATION_SAMPLES then Some (Refused ''insufficient resolved samples'', st)
         else map_option (\<lambda>points. (Ok (), st(key \<mapsto> points))) (fitIsotonic clean))"

definition calibrate :: "cal_key \<Rightarrow> jsnum \<Rightarrow> cal_models \<Rightarrow> jsnum" where
  "calibrate key p st =
     (if \<not> in_unit p then p
      else case st key of
        None \<Rightarrow> p
      | Some stored \<Rightarrow>
          (let points = sort_key (\<lambda>q. num_key (pt_p q)) (filter (\<lambda>q. is_finite_num (pt_p q) \<and> is_finite_num (pt_cal q)) stored)
           in if points = [] then p else applyIsotonic points p))"

section \<open>Training from resolved clusters\<close>

text \<open>The rows of the join; groups keep the order in which they are first met. The key \<open>model|horizon\<close> is read
  as the pair, since a number prints without a bar.\<close>

record cluster_row =
  cr_p :: jsnum
  cr_model :: string
  cr_horizon :: "int option"
  cr_y :: jsnum

type_synonym groups = "((string \<times> int) \<times> (jsnum \<times> jsnum) list) list"

fun push_group :: "string \<times> int \<Rightarrow> jsnum \<times> jsnum \<Rightarrow> groups \<Rightarrow> groups" where
  "push_group k x [] = [(k, [x])]"
| "push_group k x ((k', xs) # gs) = (if k = k' then (k', xs @ [x]) # gs else (k', xs) # push_group k x gs)"

definition group_row :: "cluster_row \<Rightarrow> groups \<Rightarrow> groups" where
  "group_row r gs =
     (case cr_horizon r of
        None \<Rightarrow> gs
      | Some h \<Rightarrow>
          if cr_model r = [] \<or> \<not> is_finite_num (cr_p r) \<or> \<not> (cr_y r = Fin 0 \<or> cr_y r = Fin 1) then gs
          else push_group (cr_model r, h) (cr_p r, cr_y r) gs)"

definition train_group :: "(string \<times> int) \<times> (jsnum \<times> jsnum) list \<Rightarrow> (nat \<times> nat) \<times> cal_models
    \<Rightarrow> ((nat \<times> nat) \<times> cal_models) option" where
  "train_group g acc =
     (case (g, acc) of (((model, h), xs), ((n, total'), st)) \<Rightarrow>
        Option.bind (train \<lparr>ck_model = model, ck_category = ''general'', ck_horizon = h, ck_regime = ''default''\<rparr>
            (map fst xs) (map snd xs) st)
          (\<lambda>(r, st'). Some (case r of Ok _ \<Rightarrow> ((n + 1, total' + length xs), st') | Refused _ \<Rightarrow> ((n, total'), st'))))"

definition trainFromResolvedClusters :: "cluster_row list \<Rightarrow> cal_models \<Rightarrow> ((nat \<times> nat) \<times> cal_models) option" where
  "trainFromResolvedClusters rows st =
     fold (\<lambda>g acc. Option.bind acc (train_group g)) (fold group_row rows []) (Some ((0, 0), st))"

section \<open>The loop ends\<close>

text \<open>Each round pools two blocks into one, so the loop ends, and every pooled stack keeps what each round keeps.\<close>

lemma settle_returns: "\<exists>bs'. settle bs = Some bs'"
  unfolding settle_def
proof (rule measure_while_option_Some [where P = "\<lambda>_. True" and f = length])
  show "True \<and> length (pool s) < length s" if "violates s" for s
    using that by (cases s rule: violates.cases) simp_all
qed simp

lemma settle_exit: "settle bs = Some bs' \<Longrightarrow> \<not> violates bs'"
  unfolding settle_def by (rule while_option_stop)

lemma settle_invariant:
  assumes "settle bs = Some bs'" and "I bs" and "\<And>s. I s \<Longrightarrow> violates s \<Longrightarrow> I (pool s)"
  shows "I bs'"
  using assms while_option_rule [where P = I and b = violates and c = pool and s = bs and t = bs']
  by (simp add: settle_def)

section \<open>The blocks stand for runs of the sorted samples\<close>

text \<open>The blocks with 0/1 outcomes are exact: each is the frequency of its run of samples.\<close>

definition wins :: "sample list \<Rightarrow> nat" where
  "wins g = length (filter (\<lambda>s. sm_y s = Fin 1) g)"

definition block_of :: "sample list \<Rightarrow> block" where
  "block_of g = \<lparr>bk_ps = map sm_p g, bk_sum = Fin (of_nat (wins g)), bk_n = length g\<rparr>"

definition binary :: "sample \<Rightarrow> bool" where
  "binary s \<longleftrightarrow> is_finite_num (sm_p s) \<and> (sm_y s = Fin 0 \<or> sm_y s = Fin 1)"

lemma wins_append [simp]: "wins (xs @ ys) = wins xs + wins ys"
  by (simp add: wins_def)

lemma wins_le: "wins g \<le> length g"
  by (simp add: wins_def)

lemma fl_nat: "n < 2 ^ 53 \<Longrightarrow> fl (of_nat n) = Fin (of_nat n)"
  using num_of_bigint_exact [of "int n"] by (simp add: num_of_bigint_def)

lemma pool_block_of:
  assumes "length a + length b < 2 ^ 53"
  shows "pool (block_of b # block_of a # rest) = block_of (a @ b) # rest"
proof -
  have "wins a + wins b < 2 ^ 53" using assms wins_le [of a] wins_le [of b] by linarith
  from fl_nat [OF this] show ?thesis by (simp add: block_of_def)
qed

text \<open>A stack of runs: newest first, all but the newest pair in order.\<close>

definition in_order :: "block list \<Rightarrow> bool" where
  "in_order bs \<longleftrightarrow> sorted_wrt (\<lambda>b a. num_le (bk_mean a) (bk_mean b)) bs"

definition stack_of :: "sample list \<Rightarrow> block list \<Rightarrow> bool" where
  "stack_of xs bs \<longleftrightarrow> (\<exists>gs. bs = map block_of gs \<and> concat (rev gs) = xs \<and> (\<forall>g \<in> set gs. g \<noteq> []) \<and> in_order (tl bs))"

lemma in_order_Cons:
  "in_order (a # bs) \<Longrightarrow> num_le (bk_mean a) (bk_mean b) \<Longrightarrow> in_order (b # a # bs)"
  by (auto simp: in_order_def intro: num_le_trans)

lemma pool_stack:
  assumes "stack_of xs bs" and "violates bs" and "length xs < 2 ^ 53"
  shows "stack_of xs (pool bs)"
proof -
  from assms(1) obtain gs where gs: "bs = map block_of gs" "concat (rev gs) = xs" "\<forall>g \<in> set gs. g \<noteq> []" "in_order (tl bs)"
    unfolding stack_of_def by blast
  from assms(2) gs(1) obtain b a rest where eq: "gs = b # a # rest"
    by (cases bs rule: violates.cases) auto
  have "length a + length b < 2 ^ 53" using assms(3) gs(2) eq by auto
  then have "pool bs = map block_of ((a @ b) # rest)" using gs(1) eq pool_block_of [of a b] by (simp del: pool.simps)
  moreover have "in_order (map block_of rest)" using gs(1,4) eq by (simp add: in_order_def)
  ultimately show ?thesis using gs(2,3) eq unfolding stack_of_def
    by (intro exI [of _ "(a @ b) # rest"]) simp
qed

lemma settled_in_order: "in_order (tl bs) \<Longrightarrow> \<not> violates bs \<Longrightarrow> in_order bs"
  by (cases bs rule: violates.cases) (auto simp: in_order_def intro: num_le_trans)

lemma block_of_single: "binary s \<Longrightarrow> \<lparr>bk_ps = [sm_p s], bk_sum = sm_y s, bk_n = 1\<rparr> = block_of [s]"
  by (auto simp: binary_def block_of_def wins_def)

lemma add_sample_stack:
  assumes "stack_of xs bs" and "in_order bs" and "binary s" and "length xs + 1 < 2 ^ 53"
  shows "\<exists>bs'. add_sample s (Some bs) = Some bs' \<and> stack_of (xs @ [s]) bs' \<and> in_order bs'"
proof -
  let ?bs = "\<lparr>bk_ps = [sm_p s], bk_sum = sm_y s, bk_n = 1\<rparr> # bs"
  obtain bs' where settle: "settle ?bs = Some bs'" using settle_returns by blast
  from assms(1) obtain gs where gs: "bs = map block_of gs" "concat (rev gs) = xs" "\<forall>g \<in> set gs. g \<noteq> []"
    unfolding stack_of_def by blast
  have "stack_of (xs @ [s]) ?bs"
    unfolding stack_of_def using gs assms(2) block_of_single [OF assms(3)]
    by (intro exI [of _ "[s] # gs"]) simp
  from settle_invariant [where I = "stack_of (xs @ [s])", OF settle this] have "stack_of (xs @ [s]) bs'" using pool_stack assms(4) by simp
  moreover from this have "in_order bs'" using settle_exit [OF settle] settled_in_order unfolding stack_of_def by blast
  ultimately show ?thesis using settle by (simp add: add_sample_def)
qed

lemma fold_add_sample:
  assumes "\<forall>s \<in> set ys. binary s" and "length xs + length ys < 2 ^ 53" and "stack_of xs bs" and "in_order bs"
  shows "\<exists>bs'. fold add_sample ys (Some bs) = Some bs' \<and> stack_of (xs @ ys) bs' \<and> in_order bs'"
  using assms
proof (induction ys arbitrary: xs bs)
  case (Cons y ys)
  then obtain bs' where bs': "add_sample y (Some bs) = Some bs'" "stack_of (xs @ [y]) bs'" "in_order bs'"
    using add_sample_stack [of xs bs y] by auto
  then show ?case using Cons.IH [of "xs @ [y]" bs'] Cons.prems by simp
qed auto

text \<open>The fit: the sorted samples are split into runs, each valued at its frequency, and the values do not decrease.\<close>

definition run_point :: "sample list \<Rightarrow> point" where
  "run_point g = \<lparr>pt_p = sm_p (last g), pt_cal = num_clamp01 (num_div (Fin (of_nat (wins g))) (Fin (of_nat (length g))))\<rparr>"

lemma point_of_block_of: "g \<noteq> [] \<Longrightarrow> point_of (block_of g) = run_point g"
  by (simp add: point_of_def block_of_def run_point_def bk_mean_def last_map)

lemma fit_runs:
  assumes "\<forall>s \<in> set pairs. binary s" and "length pairs < 2 ^ 53"
  shows "\<exists>gs. fitIsotonic pairs = Some (map run_point gs) \<and> concat gs = sort_key (\<lambda>s. num_key (sm_p s)) pairs
     \<and> (\<forall>g \<in> set gs. g \<noteq> []) \<and> sorted_wrt num_le (map (pt_cal \<circ> run_point) gs)"
proof -
  let ?ys = "sort_key (\<lambda>s. num_key (sm_p s)) pairs"
  have "stack_of [] []" "in_order []" by (simp_all add: stack_of_def in_order_def)
  with fold_add_sample [of ?ys "[]" "[]"] assms obtain bs where
    bs: "fold add_sample ?ys (Some []) = Some bs" "stack_of ?ys bs" "in_order bs" by auto
  from bs(2) obtain gs where gs: "bs = map block_of gs" "concat (rev gs) = ?ys" "\<forall>g \<in> set gs. g \<noteq> []"
    unfolding stack_of_def by blast
  have "map point_of (rev bs) = map run_point (rev gs)"
    using gs(1,3) by (simp add: rev_map point_of_block_of)
  then have fit: "fitIsotonic pairs = Some (map run_point (rev gs))" using bs(1) by (simp add: fitIsotonic_def fit_sorted_def)
  have "sorted_wrt num_le (map (pt_cal \<circ> point_of) (rev bs))"
    using bs(3) by (simp add: in_order_def sorted_wrt_map sorted_wrt_rev point_of_def)
      (auto intro: num_clamp01_mono elim: sorted_wrt_mono_rel [rotated])
  moreover have "map (pt_cal \<circ> point_of) (rev bs) = map (pt_cal \<circ> run_point) (rev gs)"
    using gs(1,3) by (simp add: rev_map point_of_block_of)
  ultimately show ?thesis using fit gs(2,3) by (intro exI [of _ "rev gs"]) simp
qed

text \<open>The breakpoints are in ascending order, because each is the largest prediction of its run.\<close>

lemma sorted_lasts: "sorted (map f (concat gs)) \<Longrightarrow> \<forall>g \<in> set gs. g \<noteq> [] \<Longrightarrow> sorted (map (\<lambda>g. f (last g)) gs)"
proof (induction gs)
  case (Cons g gs)
  have "f (last g) \<le> f (last h)" if "h \<in> set gs" for h
  proof -
    have "last g \<in> set g" "last h \<in> set (concat gs)"
      using Cons.prems(2) that by (auto intro!: bexI [of _ h])
    then show ?thesis using Cons.prems(1) by (auto simp: sorted_append)
  qed
  then show ?case using Cons by (auto simp: sorted_append)
qed simp

lemma sort_key_sorted: "sorted (map f xs) \<Longrightarrow> sort_key f xs = xs"
proof (induction xs)
  case (Cons x xs)
  then show ?case by (cases xs) auto
qed simp

lemma frequency_range:
  "g \<noteq> [] \<Longrightarrow> num_le (Fin 0) (pt_cal (run_point g)) \<and> num_le (pt_cal (run_point g)) (Fin 1)"
proof -
  assume "g \<noteq> []"
  then have "num_le (Fin 0) (num_div (Fin (of_nat (wins g))) (Fin (of_nat (length g))))"
    by (intro num_div_nonneg) simp_all
  then have "num_div (Fin (of_nat (wins g))) (Fin (of_nat (length g))) \<noteq> NaN" by auto
  from num_clamp01_range [OF this] show ?thesis by (simp add: run_point_def)
qed

section \<open>A fitted map is monotone\<close>

definition fitted :: "point list \<Rightarrow> bool" where
  "fitted pts \<longleftrightarrow> pts \<noteq> [] \<and> sorted (map (num_key \<circ> pt_p) pts) \<and> sorted_wrt num_le (map pt_cal pts)
     \<and> (\<forall>q \<in> set pts. is_finite_num (pt_p q) \<and> in_unit (pt_cal q))"

lemma fit_fitted:
  assumes "\<forall>s \<in> set pairs. binary s" and "length pairs < 2 ^ 53" and "pairs \<noteq> []"
  shows "\<exists>pts. fitIsotonic pairs = Some pts \<and> fitted pts"
proof -
  from fit_runs [OF assms(1,2)] obtain gs where gs: "fitIsotonic pairs = Some (map run_point gs)"
    "concat gs = sort_key (\<lambda>s. num_key (sm_p s)) pairs" "\<forall>g \<in> set gs. g \<noteq> []"
    "sorted_wrt num_le (map (pt_cal \<circ> run_point) gs)" by blast
  have ne: "gs \<noteq> []" using gs(2) assms(3) by (metis concat.simps(1) length_0_conv length_sort)
  have "sorted (map (\<lambda>s. num_key (sm_p s)) (concat gs))" by (simp add: gs(2))
  from sorted_lasts [OF this gs(3)] have "sorted (map (num_key \<circ> pt_p) (map run_point gs))"
    by (simp add: run_point_def comp_def)
  moreover have "is_finite_num (sm_p (last g))" if "g \<in> set gs" for g
  proof -
    have "last g \<in> set (concat gs)" using gs(3) that by (auto intro!: bexI [of _ g])
    then show ?thesis using assms(1) gs(2) by (auto simp: binary_def)
  qed
  moreover have "in_unit (pt_cal (run_point g))" if "g \<in> set gs" for g
    using frequency_range [of g] gs(3) that by (cases "pt_cal (run_point g)") (auto simp: in_unit_def)
  ultimately show ?thesis using gs(1,4) ne
    by (intro exI [of _ "map run_point gs"]) (auto simp: fitted_def run_point_def)
qed

lemma scan_points_mem: "scan_points lo qs p \<in> insert lo (pt_cal ` set qs)"
  by (induction qs arbitrary: lo) auto

lemma scan_points_mono:
  assumes "num_le p q" and "sorted_wrt num_le (map pt_cal qs)" and "\<forall>x \<in> set qs. num_le lo (pt_cal x)" and "lo \<noteq> NaN"
  shows "num_le (scan_points lo qs p) (scan_points lo qs q)"
  using assms
proof (induction qs arbitrary: lo)
  case (Cons x qs)
  have "pt_cal x \<noteq> NaN" using Cons.prems(3) by auto
  then have "num_le lo (scan_points (pt_cal x) qs q)"
    using scan_points_mem [of "pt_cal x" qs q] Cons.prems(3) by auto
  with Cons \<open>pt_cal x \<noteq> NaN\<close> show ?case by (auto simp: num_le_refl intro: num_le_trans)
qed (simp add: num_le_refl)

lemma fitted_applyIsotonic:
  "fitted pts \<Longrightarrow> applyIsotonic pts p =
     (if num_le p (pt_p (hd pts)) then pt_cal (hd pts)
      else if num_le (pt_p (last pts)) p then pt_cal (last pts) else scan_points (pt_cal (hd pts)) pts p)"
  using sort_key_sorted [of "\<lambda>q. num_key (pt_p q)" pts] by (simp add: applyIsotonic_def fitted_def Let_def comp_def)

lemma fitted_ends:
  assumes "fitted pts" and "x \<in> set pts"
  shows "num_le (pt_cal (hd pts)) (pt_cal x)" and "num_le (pt_cal x) (pt_cal (last pts))"
proof -
  have unit: "\<forall>x \<in> set pts. pt_cal x \<noteq> NaN" using assms(1) by (auto simp: fitted_def in_unit_def)
  have sorted: "sorted_wrt num_le (map pt_cal pts)" using assms(1) by (simp add: fitted_def)
  show "num_le (pt_cal (hd pts)) (pt_cal x)" using assms(2) unit sorted by (cases pts) (auto simp: num_le_refl)
  show "num_le (pt_cal x) (pt_cal (last pts))" using assms(2) unit sorted
    by (cases pts rule: rev_cases) (auto simp: num_le_refl sorted_wrt_append)
qed

lemma applyIsotonic_mem: "fitted pts \<Longrightarrow> applyIsotonic pts p \<in> pt_cal ` set pts"
  using scan_points_mem [of "pt_cal (hd pts)" pts p] by (auto simp: fitted_applyIsotonic fitted_def)

lemma applyIsotonic_mono:
  assumes "fitted pts" and "num_le p q"
  shows "num_le (applyIsotonic pts p) (applyIsotonic pts q)"
proof -
  have ne: "pts \<noteq> []" "hd pts \<in> set pts" "last pts \<in> set pts" using assms(1) by (auto simp: fitted_def)
  obtain x y where x: "x \<in> set pts" "applyIsotonic pts p = pt_cal x" and y: "y \<in> set pts" "applyIsotonic pts q = pt_cal y"
    using applyIsotonic_mem [OF assms(1)] by (metis imageE)
  consider (first) "num_le p (pt_p (hd pts))" | (at_end) "\<not> num_le p (pt_p (hd pts))" "num_le (pt_p (last pts)) q"
    | (inner) "\<not> num_le p (pt_p (hd pts))" "\<not> num_le (pt_p (last pts)) q" by blast
  then show ?thesis
  proof cases
    case first
    then show ?thesis using fitted_ends(1) [OF assms(1) y(1)] y(2) assms(1) by (simp add: fitted_applyIsotonic)
  next
    case at_end
    have "\<not> num_le q (pt_p (hd pts))" using at_end(1) assms(2) num_le_trans by blast
    then show ?thesis using fitted_ends(2) [OF assms(1) x(1)] x(2) assms(1) at_end(2) by (simp add: fitted_applyIsotonic)
  next
    case inner
    have "\<not> num_le q (pt_p (hd pts))" "\<not> num_le (pt_p (last pts)) p" using inner assms(2) num_le_trans by blast+
    moreover have "pt_cal (hd pts) \<noteq> NaN" using assms(1) ne(2) by (metis fitted_def in_unit_def is_finite_num.simps(2))
    ultimately show ?thesis using inner assms fitted_ends(1) [OF assms(1)]
      by (simp add: fitted_applyIsotonic scan_points_mono fitted_def)
  qed
qed

section \<open>Training\<close>

lemma fitted_filter: "fitted pts \<Longrightarrow> filter (\<lambda>q. is_finite_num (pt_p q) \<and> is_finite_num (pt_cal q)) pts = pts"
  by (auto simp: fitted_def in_unit_def filter_id_conv)

lemma calibrate_fitted:
  assumes "st key = Some pts" and "fitted pts" and "in_unit p"
  shows "calibrate key p st = applyIsotonic pts p"
  using assms sort_key_sorted [of "\<lambda>q. num_key (pt_p q)" pts]
  by (simp add: calibrate_def fitted_filter Let_def fitted_def comp_def)

text \<open>The samples that are kept, and what training leaves behind.\<close>

definition clean_samples :: "jsnum list \<Rightarrow> jsnum list \<Rightarrow> sample list" where
  "clean_samples ps ys = filter (\<lambda>q. in_unit (sm_p q) \<and> in_unit (sm_y q)) (zip_samples ps ys)"

definition binary_outcomes :: "jsnum list \<Rightarrow> bool" where
  "binary_outcomes ys \<longleftrightarrow> (\<forall>y \<in> set ys. y = Fin 0 \<or> y = Fin 1)"

lemma clean_binary: "binary_outcomes ys \<Longrightarrow> s \<in> set (clean_samples ps ys) \<Longrightarrow> binary s"
  by (auto simp: clean_samples_def zip_samples_def binary_def binary_outcomes_def in_unit_def split: if_splits)

lemma length_clean: "length (clean_samples ps ys) \<le> length ps"
  unfolding clean_samples_def by (rule order.trans [OF length_filter_le]) (simp add: zip_samples_def)

lemma train_result:
  assumes "binary_outcomes ys" and "length ps < 2 ^ 53"
  shows "if length (clean_samples ps ys) < MIN_CALIBRATION_SAMPLES
    then train key ps ys st = Some (Refused ''insufficient resolved samples'', st)
    else \<exists>pts. train key ps ys st = Some (Ok (), st(key \<mapsto> pts)) \<and> fitted pts"
proof (cases "length (clean_samples ps ys) < MIN_CALIBRATION_SAMPLES")
  case False
  then have "clean_samples ps ys \<noteq> []" by (auto simp: MIN_CALIBRATION_SAMPLES_def)
  with fit_fitted [of "clean_samples ps ys"] clean_binary [OF assms(1)] length_clean [of ps ys] assms(2) obtain pts
    where "fitIsotonic (clean_samples ps ys) = Some pts" "fitted pts" by auto
  with False show ?thesis by (auto simp: train_def Let_def simp flip: clean_samples_def)
qed (simp add: train_def Let_def clean_samples_def)

section \<open>Properties\<close>

lemma settle_points:
  assumes "settle bs = Some bs'"
  shows "length bs' \<le> length bs \<and> concat (map bk_ps (rev bs')) = concat (map bk_ps (rev bs))"
proof -
  have "length (pool s) \<le> length s \<and> concat (map bk_ps (rev (pool s))) = concat (map bk_ps (rev s))" for s
    by (cases s rule: pool.cases) simp_all
  with settle_invariant [where I = "\<lambda>s. length s \<le> length bs \<and> concat (map bk_ps (rev s)) = concat (map bk_ps (rev bs))", OF assms]
  show ?thesis by (metis (lifting) order.trans order.refl)
qed

lemma fold_add_sample_returns:
  "\<exists>bs'. fold add_sample ys (Some bs) = Some bs' \<and> length bs' \<le> length bs + length ys
     \<and> concat (map bk_ps (rev bs')) = concat (map bk_ps (rev bs)) @ map sm_p ys"
proof (induction ys arbitrary: bs)
  case (Cons y ys)
  obtain bs1 where b1: "settle (\<lparr>bk_ps = [sm_p y], bk_sum = sm_y y, bk_n = 1\<rparr> # bs) = Some bs1" using settle_returns by blast
  from Cons.IH [of bs1] obtain bs' where "fold add_sample ys (Some bs1) = Some bs'" "length bs' \<le> length bs1 + length ys"
    "concat (map bk_ps (rev bs')) = concat (map bk_ps (rev bs1)) @ map sm_p ys" by blast
  moreover have "add_sample y (Some bs) = Some bs1" using b1 by (simp add: add_sample_def)
  ultimately show ?case using settle_points [OF b1] by (intro exI [of _ bs']) simp
qed simp

lemma fitIsotonic_returns: "\<exists>points. fitIsotonic pairs = Some points"
  using fold_add_sample_returns [of "sort_key (\<lambda>s. num_key (sm_p s)) pairs" "[]"] by (auto simp: fitIsotonic_def fit_sorted_def)

lemma num_key_le: "num_key x \<le> num_key y \<Longrightarrow> x \<noteq> NaN \<Longrightarrow> y \<noteq> NaN \<Longrightarrow> num_le x y"
  by (cases x; cases y) (auto simp: num_le_def less_eq_prod_def)

lemma fit_sorted_returns:
  "\<exists>bs. fit_sorted ys = Some (map point_of bs) \<and> length bs \<le> length ys \<and> concat (map bk_ps bs) = map sm_p ys"
proof -
  obtain bs where "fold add_sample ys (Some []) = Some bs" "length bs \<le> length ys" "concat (map bk_ps (rev bs)) = map sm_p ys"
    using fold_add_sample_returns [of ys "[]"] by auto
  then show ?thesis by (intro exI [of _ "rev bs"]) (simp add: fit_sorted_def)
qed

text \<open>C30. The pool-adjacent-violators loop ends on every input, NaN included and in whatever order the sort left it: the fit
  returns, with at most one point per sample, and the runs it pooled are the predictions, none lost and none repeated. Without a NaN
  among the predictions the runs are in the order of their values, infinities included.
\<close>

theorem fitIsotonic_terminates:
  "(\<exists>bs. fit_sorted ys = Some (map point_of bs) \<and> length bs \<le> length ys \<and> concat (map bk_ps bs) = map sm_p ys) \<and>
   (\<exists>bs. fitIsotonic pairs = Some (map point_of bs) \<and> length bs \<le> length pairs \<and>
     mset (concat (map bk_ps bs)) = mset (map sm_p pairs) \<and>
     (NaN \<notin> sm_p ` set pairs \<longrightarrow> sorted_wrt num_le (concat (map bk_ps bs))))"
proof -
  let ?ys = "sort_key (\<lambda>s. num_key (sm_p s)) pairs"
  obtain bs where bs: "fitIsotonic pairs = Some (map point_of bs)" "length bs \<le> length pairs" "concat (map bk_ps bs) = map sm_p ?ys"
    using fit_sorted_returns [of ?ys] by (auto simp: fitIsotonic_def)
  have "sorted_wrt num_le (map sm_p ?ys)" if "NaN \<notin> sm_p ` set pairs"
  proof -
    have "sorted_wrt (\<lambda>x y. num_key (sm_p x) \<le> num_key (sm_p y)) ?ys"
      using sorted_sort_key [of "\<lambda>s. num_key (sm_p s)" pairs] by (simp add: sorted_wrt_map)
    then show ?thesis unfolding sorted_wrt_map
      by (rule sorted_wrt_mono_rel [rotated]) (use that num_key_le in force)
  qed
  moreover have "mset (map sm_p ?ys) = mset (map sm_p pairs)" by simp
  ultimately show ?thesis using bs fit_sorted_returns [of ys] by metis
qed

theorem fitIsotonic_terminates_witness:
  "\<exists>bs. fitIsotonic [\<lparr>sm_p = PosInf, sm_y = Fin 1\<rparr>, \<lparr>sm_p = Fin (1 / 2), sm_y = Fin 0\<rparr>, \<lparr>sm_p = NegInf, sm_y = Fin 0\<rparr>] = Some (map point_of bs) \<and>
     sorted_wrt num_le (concat (map bk_ps bs))"
  using fitIsotonic_terminates [of "[]"
      "[\<lparr>sm_p = PosInf, sm_y = Fin 1\<rparr>, \<lparr>sm_p = Fin (1 / 2), sm_y = Fin 0\<rparr>, \<lparr>sm_p = NegInf, sm_y = Fin 0\<rparr>]"]
  by auto

text \<open>C31. Training on outcomes that are 0 or 1 either refuses, below 20 usable samples, and keeps the previous map,
  or stores a map under which calibration is monotone and maps probabilities to probabilities.
\<close>

theorem trained_calibration_monotone:
  assumes "binary_outcomes ys" and "length ps < 2 ^ 53" and "in_unit p" and "in_unit q" and "num_le p q"
  shows "case train key ps ys st of None \<Rightarrow> False
     | Some (Refused _, st') \<Rightarrow> st' = st
     | Some (Ok _, st') \<Rightarrow> num_le (calibrate key p st') (calibrate key q st')
         \<and> in_unit (calibrate key p st') \<and> (\<forall>key'. key' \<noteq> key \<longrightarrow> st' key' = st key')"
proof (cases "length (clean_samples ps ys) < MIN_CALIBRATION_SAMPLES")
  case False
  with train_result [OF assms(1,2), of key st] obtain pts where
    pts: "train key ps ys st = Some (Ok (), st(key \<mapsto> pts))" "fitted pts" by auto
  have "in_unit (applyIsotonic pts p)" using applyIsotonic_mem [OF pts(2), of p] pts(2) by (auto simp: fitted_def)
  with pts applyIsotonic_mono [OF pts(2) assms(5)] show ?thesis
    by (simp add: calibrate_fitted [OF _ pts(2)] assms(3,4))
qed (use train_result [OF assms(1,2), of key st] in simp)

theorem trained_calibration_monotone_witness:
  "case train \<lparr>ck_model = ''m'', ck_category = ''general'', ck_horizon = 3600, ck_regime = ''default''\<rparr>
       (replicate 20 (Fin (1 / 2))) (replicate 20 (Fin 1)) (\<lambda>_. None) of
     None \<Rightarrow> False
   | Some (Refused _, st') \<Rightarrow> st' = (\<lambda>_. None)
   | Some (Ok _, st') \<Rightarrow> num_le
       (calibrate \<lparr>ck_model = ''m'', ck_category = ''general'', ck_horizon = 3600, ck_regime = ''default''\<rparr> (Fin (1 / 4)) st')
       (calibrate \<lparr>ck_model = ''m'', ck_category = ''general'', ck_horizon = 3600, ck_regime = ''default''\<rparr> (Fin (1 / 2)) st')"
  (is "case train ?key ?ps ?ys ?st of None \<Rightarrow> False | Some (Refused _, st') \<Rightarrow> st' = ?st | Some (Ok _, st') \<Rightarrow> ?goal st'")
proof -
  have "binary_outcomes ?ys" "length ?ps < 2 ^ 53" "in_unit (Fin (1 / 4))" "in_unit (Fin (1 / 2))" "num_le (Fin (1 / 4)) (Fin (1 / 2))"
    by (simp_all add: binary_outcomes_def in_unit_def)
  from trained_calibration_monotone [OF this, of ?key ?st] show ?thesis
    by (auto split: option.splits prod.splits outcome.splits)
qed

text \<open>Ties: samples with the same prediction are pooled only when they arrive in descending order of their
  outcomes, so the fitted value at a tied prediction depends on the order of the samples.\<close>

lemma ties_depend_on_order:
  "map_option (\<lambda>pts. applyIsotonic pts (Fin (1 / 2))) (fitIsotonic [\<lparr>sm_p = Fin (1 / 2), sm_y = Fin 0\<rparr>, \<lparr>sm_p = Fin (1 / 2), sm_y = Fin 1\<rparr>])
     = Some (Fin 0)"
  "map_option (\<lambda>pts. applyIsotonic pts (Fin (1 / 2))) (fitIsotonic [\<lparr>sm_p = Fin (1 / 2), sm_y = Fin 1\<rparr>, \<lparr>sm_p = Fin (1 / 2), sm_y = Fin 0\<rparr>])
     = Some (Fin (1 / 2))"
  by (simp_all add: fitIsotonic_def fit_sorted_def add_sample_def settle_def while_option_unfold bk_mean_def point_of_def
      num_clamp01_def num_max_def num_min_def applyIsotonic_def Let_def num_eval)

text \<open>Grouping the resolved rows: a group holds exactly the usable rows of its model and horizon, in order.\<close>

definition usable_row :: "string \<times> int \<Rightarrow> cluster_row \<Rightarrow> bool" where
  "usable_row k r \<longleftrightarrow> cr_model r = fst k \<and> cr_horizon r = Some (snd k) \<and> cr_model r \<noteq> [] \<and> is_finite_num (cr_p r)
     \<and> (cr_y r = Fin 0 \<or> cr_y r = Fin 1)"

definition group_at :: "groups \<Rightarrow> string \<times> int \<Rightarrow> (jsnum \<times> jsnum) list" where
  "group_at gs k = (case map_of gs k of None \<Rightarrow> [] | Some xs \<Rightarrow> xs)"

lemma group_at_push: "group_at (push_group k x gs) k' = (if k = k' then group_at gs k' @ [x] else group_at gs k')"
  by (induction gs) (auto simp: group_at_def)

lemma group_at_row:
  "group_at (group_row r gs) k = group_at gs k @ (if usable_row k r then [(cr_p r, cr_y r)] else [])"
  by (cases k) (auto simp: group_row_def usable_row_def group_at_push split: option.splits)

lemma grouped_rows:
  "group_at (fold group_row rows gs) k = group_at gs k @ map (\<lambda>r. (cr_p r, cr_y r)) (filter (usable_row k) rows)"
  by (induction rows arbitrary: gs) (simp_all add: group_at_row)

lemma train_returns: "\<exists>r. train key ps ys st = Some r"
  using fitIsotonic_returns by (auto simp: train_def Let_def)

lemma train_group_returns: "\<exists>acc'. train_group g acc = Some acc'"
proof -
  obtain model h xs n m st where eq: "g = ((model, h), xs)" "acc = ((n, m), st)" by (metis prod.exhaust)
  show ?thesis
    using train_returns [of "\<lparr>ck_model = model, ck_category = ''general'', ck_horizon = h, ck_regime = ''default''\<rparr>"
        "map fst xs" "map snd xs" st]
    by (auto simp: train_group_def eq split: outcome.splits)
qed

lemma fold_train_group: "\<exists>r. fold (\<lambda>g acc. Option.bind acc (train_group g)) gs (Some acc) = Some r"
proof (induction gs arbitrary: acc)
  case (Cons g gs)
  obtain acc' where "train_group g acc = Some acc'" using train_group_returns by blast
  with Cons.IH [of acc'] show ?case by simp
qed simp

lemma trainFromResolvedClusters_returns: "\<exists>r. trainFromResolvedClusters rows st = Some r"
  using fold_train_group by (simp add: trainFromResolvedClusters_def)

end
