(* ===== verification/FunderCash.thy ===== *)
theory FunderCash
  imports MoneyAuthority JsString
begin

text \<open>
  The funder's cash, \<open>src/pm/risk/src/funder-cash.ts\<close>: when a balance counts as funded, and the credit an owner
  attests, which runs inside the caller's transaction over the tables of \<open>Database\<close>. The balance row, if there
  is one, is locked by \<open>FOR UPDATE\<close>; while there is none another transaction may insert it between the reading
  and the insertion, which is the parameter \<open>other\<close> of \<open>applyAttestedCredit\<close>.
\<close>

section \<open>Reading a balance\<close>

datatype raw_value = Raw_Bigint int | Raw_String string | Raw_Other

definition parseBaseUnits :: "raw_value \<Rightarrow> int option" where
  "parseBaseUnits raw =
     (case raw of
        Raw_Bigint n \<Rightarrow> Some n
      | Raw_String s \<Rightarrow> if int_literal (trim_str s) then parse_bigint (trim_str s) else None
      | Raw_Other \<Rightarrow> None)"

definition balancesFromRow :: "(raw_value \<times> raw_value) option \<Rightarrow> bal option" where
  "balancesFromRow row =
     (case row of
        None \<Rightarrow> None
      | Some (a, c) \<Rightarrow> (case (parseBaseUnits a, parseBaseUnits c) of
            (Some a', Some c') \<Rightarrow> Some \<lparr>available_base = a', committed_base = c'\<rparr>
          | _ \<Rightarrow> None))"

definition assessFunderCash :: "bal option \<Rightarrow> int outcome" where
  "assessFunderCash entry =
     (case entry of
        None \<Rightarrow> Refused ''FUNDER_CASH_MISSING''
      | Some b \<Rightarrow> let total' = available_base b + committed_base b
          in if total' \<le> 0 then Refused ''FUNDER_CASH_UNFUNDED'' else Ok total')"

section \<open>Amounts\<close>

text \<open>\<open>\d+(\.\d{1,6})?\<close> over the trimmed string, at most 18 digits before the point.\<close>

definition usdToBase :: "string \<Rightarrow> int option" where
  "usdToBase usd =
     (let s = trim_str usd; whole = takeWhile is_digit s; rest = dropWhile is_digit s;
          frac = (if rest = [] then [] else tl rest)
      in if whole = [] \<or> (rest \<noteq> [] \<and> (hd rest \<noteq> CHR ''.'' \<or> frac = [] \<or> 6 < length frac \<or> \<not> list_all is_digit frac)) then None
         else if 18 < length whole then None
         else (case (parse_bigint whole, parse_bigint (frac @ replicate (6 - length frac) CHR ''0'')) of
                 (Some w, Some f) \<Rightarrow> Some (w * 1000000 + f)
               | _ \<Rightarrow> None))"

section \<open>The credit\<close>

datatype credit_action = Credit_insert | Credit_increase | Credit_noop

record credit_plan =
  cp_amount :: int
  cp_source :: string
  cp_action :: credit_action

definition planAttestedCredit :: "string \<Rightarrow> string \<Rightarrow> bal option \<Rightarrow> credit_plan outcome" where
  "planAttestedCredit amountUsd src existing =
     (let source = trim_str src in
      if length source < 8 then Refused ''CREDIT_SOURCE_REQUIRED''
      else if 500 < length source then Refused ''CREDIT_SOURCE_REQUIRED''
      else case usdToBase amountUsd of
        None \<Rightarrow> Refused ''CREDIT_AMOUNT_INVALID''
      | Some amount \<Rightarrow>
          if amount \<le> 0 then Refused ''CREDIT_AMOUNT_INVALID''
          else case existing of
            None \<Rightarrow> Ok \<lparr>cp_amount = amount, cp_source = source, cp_action = Credit_insert\<rparr>
          | Some b \<Rightarrow>
              let total' = available_base b + committed_base b
              in if amount < total' then Refused ''CREDIT_WOULD_DECREASE''
                 else if amount = total' then Ok \<lparr>cp_amount = amount, cp_source = source, cp_action = Credit_noop\<rparr>
                 else if amount - committed_base b < 0 then Refused ''CREDIT_WOULD_DECREASE''
                 else Ok \<lparr>cp_amount = amount, cp_source = source, cp_action = Credit_increase\<rparr>)"

record credit_result =
  cr_action :: credit_action
  cr_amount :: int
  cr_total :: int

definition appear :: "string \<times> string \<Rightarrow> bal option \<Rightarrow> db \<Rightarrow> db" where
  "appear k other d = (case (balances d k, other) of
      (None, Some b) \<Rightarrow> d\<lparr>balances := (balances d)(k \<mapsto> b)\<rparr> | _ \<Rightarrow> d)"

text \<open>The columns as the driver returns them: \<open>NUMERIC\<close> comes back as its decimal string.\<close>

definition raw_row :: "bal \<Rightarrow> raw_value \<times> raw_value" where
  "raw_row b = (Raw_String (int_str (available_base b)), Raw_String (int_str (committed_base b)))"

definition applyAttestedCredit ::
  "string \<Rightarrow> string \<Rightarrow> string \<Rightarrow> bal option \<Rightarrow> uuid \<Rightarrow> db \<Rightarrow> credit_result outcome \<times> db" where
  "applyAttestedCredit acct amountUsd source other eid d =
     (let account = trim_str acct; k = (account, ''pUSD'') in
      if account = [] then (Refused ''CREDIT_ACCOUNT_MISSING'', d)
      else let row = map_option raw_row (balances d k); existing = balancesFromRow row in
        if row \<noteq> None \<and> existing = None then (Refused ''CREDIT_BALANCE_UNREADABLE'', d)
        else case planAttestedCredit amountUsd source existing of
          Refused code \<Rightarrow> (Refused code, d)
        | Ok plan \<Rightarrow>
            let amount = cp_amount plan; committed = (case existing of None \<Rightarrow> 0 | Some b \<Rightarrow> committed_base b);
                ret = (\<lambda>total' d'. (Ok \<lparr>cr_action = cp_action plan, cr_amount = amount, cr_total = total'\<rparr>,
                          append_event ''FUNDER_CASH_ATTESTED'' eid amount d'))
            in (case cp_action plan of
                  Credit_insert \<Rightarrow>
                    (let d1 = appear k other d in
                     if balances d1 k \<noteq> None then (Refused ''CREDIT_CONFLICT'', d1)
                     else ret amount (d1\<lparr>balances := (balances d1)(k \<mapsto> \<lparr>available_base = amount, committed_base = 0\<rparr>)\<rparr>))
                | Credit_increase \<Rightarrow>
                    (let same = (\<lambda>b. committed_base b = committed) in
                     if \<not> balance_hit k same d then (Refused ''CREDIT_CONFLICT'', d)
                     else ret amount (upd_balance k same (\<lambda>b. b\<lparr>available_base := amount - committed\<rparr>) d))
                | Credit_noop \<Rightarrow>
                    ret (case existing of None \<Rightarrow> 0 | Some b \<Rightarrow> available_base b + committed_base b) d))"

section \<open>Round trips\<close>

lemma balancesFromRow_raw [simp]: "balancesFromRow (map_option raw_row b) = b"
  by (cases b) (simp_all add: balancesFromRow_def raw_row_def parseBaseUnits_def int_literal_int_str)

section \<open>What a credit does\<close>

lemma parse_digits_digits: "list_all is_digit s \<Longrightarrow> 0 \<le> acc \<Longrightarrow> \<exists>n. parse_digits 10 acc s = Some n \<and> 0 \<le> n"
proof (induction s arbitrary: acc)
  case (Cons c s)
  then obtain v where "digit_val 10 c = Some v" "0 \<le> v" using is_digit_val by fastforce
  with Cons show ?case by simp
qed simp

text \<open>An amount written with a point and up to six decimals is read exactly.\<close>

lemma usdToBase_exact:
  assumes "0 \<le> w" and "w < 10 ^ 18" and "0 \<le> f" and "f < 1000000" and "length fs = 6" and "list_all is_digit fs"
    and "parse_digits 10 0 fs = Some f"
  shows "usdToBase (digits_str w @ ''.'' @ fs) = Some (w * 1000000 + f)"
proof -
  have digits: "\<forall>c \<in> set (digits_str w). is_digit c" using assms(1) by (rule digits_str_digits)
  have dot: "\<not> is_digit CHR ''.''" by (simp add: is_digit_def)
  have "last fs \<in> set fs" "hd (digits_str w) \<in> set (digits_str w)" using assms(5) by (cases fs; simp)+
  then have "trim_str (digits_str w @ ''.'' @ fs) = digits_str w @ ''.'' @ fs"
    using digits assms(5,6) is_digit_not_space by (intro trim_str_ends) (auto simp: list_all_iff)
  moreover have "takeWhile is_digit (digits_str w @ CHR ''.'' # fs) = digits_str w"
    "dropWhile is_digit (digits_str w @ CHR ''.'' # fs) = CHR ''.'' # fs"
    using digits dot by (simp_all add: takeWhile_append2 dropWhile_append2)
  moreover have "length (digits_str w) \<le> 18" using assms(1,2) by (intro length_digits_str_le) simp_all
  moreover have "parse_bigint fs = Some f" using assms(5-7) by (subst parse_bigint_digits) (auto simp: list_all_iff)
  ultimately show ?thesis using assms by (auto simp: usdToBase_def Let_def)
qed

text \<open>What a plan has checked, and what applying it leaves behind.\<close>

lemma plan_cases:
  assumes "planAttestedCredit usd src existing = Ok plan"
  obtains "existing = None" "cp_action plan = Credit_insert" "0 < cp_amount plan"
    | b where "existing = Some b" "cp_action plan = Credit_noop" "0 < cp_amount plan"
        "cp_amount plan = available_base b + committed_base b"
    | b where "existing = Some b" "cp_action plan = Credit_increase" "0 < cp_amount plan"
        "available_base b + committed_base b < cp_amount plan" "committed_base b \<le> cp_amount plan"
  using assms by (auto simp: planAttestedCredit_def Let_def split: if_splits option.splits)

lemma plan_amount: "planAttestedCredit usd src existing = Ok plan \<Longrightarrow> usdToBase usd = Some (cp_amount plan)"
  by (auto simp: planAttestedCredit_def Let_def split: if_splits option.splits)

lemma balancesFromRow_simps [simp]: "balancesFromRow None = None" "balancesFromRow (Some (raw_row b)) = Some b"
  using balancesFromRow_raw [of None] balancesFromRow_raw [of "Some b"] by simp_all

lemma applyAttestedCredit_ok:
  assumes "applyAttestedCredit acct usd src other eid d = (Ok r, d')"
  obtains b where "balances d (trim_str acct, ''pUSD'') = b" and "usdToBase usd = Some (cr_amount r)" and "0 < cr_amount r"
    and "cr_total r = cr_amount r"
    and "(case b of None \<Rightarrow> 0 | Some b \<Rightarrow> available_base b + committed_base b) \<le> cr_amount r"
    and "balances d' = (balances d)((trim_str acct, ''pUSD'') \<mapsto>
           \<lparr>available_base = cr_amount r - (case b of None \<Rightarrow> 0 | Some b \<Rightarrow> committed_base b),
            committed_base = (case b of None \<Rightarrow> 0 | Some b \<Rightarrow> committed_base b)\<rparr>)"
    and "reservations d' = reservations d" and "kernel_events d' = kernel_events d @
           [\<lparr>ev_topic = ''FUNDER_CASH_ATTESTED'', ev_aggregate_id = eid, ev_cash = cr_amount r\<rparr>]"
proof -
  let ?k = "(trim_str acct, ''pUSD'')"
  from assms obtain plan where plan: "planAttestedCredit usd src (balances d ?k) = Ok plan"
    by (auto simp: applyAttestedCredit_def Let_def split: if_splits outcome.splits)
  note usd = plan_amount [OF plan]
  from plan show ?thesis
  proof (cases rule: plan_cases)
    case 1
    with assms plan usd show ?thesis
      by (intro that [of None])
        (auto simp: applyAttestedCredit_def Let_def appear_def append_event_def split: if_splits option.splits)
  next
    case (2 b)
    with assms plan usd show ?thesis
      by (intro that [of "Some b"])
        (auto simp: applyAttestedCredit_def Let_def append_event_def fun_upd_idem split: if_splits)
  next
    case (3 b)
    with assms plan usd show ?thesis
      by (intro that [of "Some b"])
        (auto simp: applyAttestedCredit_def Let_def append_event_def balance_hit_def upd_balance_def split: if_splits)
  qed
qed

lemma applyAttestedCredit_refused:
  "applyAttestedCredit acct usd src other eid d = (Refused c, d') \<Longrightarrow>
     d' = d \<or> d' = appear (trim_str acct, ''pUSD'') other d"
  by (auto simp: applyAttestedCredit_def Let_def split: if_splits outcome.splits credit_action.splits)

section \<open>The credit and the books\<close>

lemma balance_ok_credit:
  assumes "money_inv d" and "0 \<le> n" and "reservations d' = reservations d"
    and "balances d' = (balances d)(k \<mapsto> \<lparr>available_base = n,
           committed_base = (case balances d k of None \<Rightarrow> 0 | Some b \<Rightarrow> committed_base b)\<rparr>)"
  shows "money_inv d'"
proof -
  have "balance_ok k' d'" for k'
  proof (cases "k' = k")
    case True
    have "held_sum k d = (case balances d k of None \<Rightarrow> 0 | Some b \<Rightarrow> committed_base b)"
      using money_inv_balance [OF assms(1), of k]
      by (auto simp: balance_ok_def held_sum_def sum_list_0 cong: map_cong split: option.splits)
    with True assms(2-4) show ?thesis by (simp add: balance_ok_def held_sum_def)
  qed (use money_inv_balance [OF assms(1), of k'] assms(3,4) in \<open>auto simp: balance_ok_def held_sum_def split: option.splits\<close>)
  with assms(1,3) show ?thesis by (simp add: money_inv_def)
qed

text \<open>C32. An attested credit keeps the books. From any accounted state, a credit that succeeds makes the funder's
  cash, free and committed together, exactly the positive amount that was attested, never less than it was;
  it leaves what is committed and every other account alone, moves no reservation, keeps the accounting invariant
  and records one event. A credit that is refused writes nothing.\<close>

theorem attested_credit_keeps_books:
  assumes "money_inv d"
  shows "case applyAttestedCredit acct usd src other eid d of
      (Ok r, d') \<Rightarrow> money_inv d' \<and> usdToBase usd = Some (cr_amount r) \<and> 0 < cr_amount r
        \<and> (case balances d' (trim_str acct, ''pUSD'') of None \<Rightarrow> False
             | Some b \<Rightarrow> available_base b + committed_base b = cr_amount r
                 \<and> committed_base b = (case balances d (trim_str acct, ''pUSD'') of None \<Rightarrow> 0 | Some b \<Rightarrow> committed_base b))
        \<and> funds (trim_str acct, ''pUSD'') d \<le> funds (trim_str acct, ''pUSD'') d'
        \<and> balances d' |` (- {(trim_str acct, ''pUSD'')}) = balances d |` (- {(trim_str acct, ''pUSD'')})
        \<and> reservations d' = reservations d
        \<and> kernel_events d' = kernel_events d @ [\<lparr>ev_topic = ''FUNDER_CASH_ATTESTED'', ev_aggregate_id = eid, ev_cash = cr_amount r\<rparr>]
    | (Refused _, d') \<Rightarrow> d' = d \<or> d' = appear (trim_str acct, ''pUSD'') other d"
proof (cases "applyAttestedCredit acct usd src other eid d")
  case (Pair x d')
  show ?thesis
  proof (cases x)
    case (Ok r)
    let ?k = "(trim_str acct, ''pUSD'')"
    from Pair Ok have run: "applyAttestedCredit acct usd src other eid d = (Ok r, d')" by simp
    from run show ?thesis
    proof (rule applyAttestedCredit_ok)
      fix b
      assume b: "balances d ?k = b" "usdToBase usd = Some (cr_amount r)" "0 < cr_amount r" "cr_total r = cr_amount r"
        "(case b of None \<Rightarrow> 0 | Some b \<Rightarrow> available_base b + committed_base b) \<le> cr_amount r"
        "balances d' = (balances d)(?k \<mapsto> \<lparr>available_base = cr_amount r - (case b of None \<Rightarrow> 0 | Some b \<Rightarrow> committed_base b),
            committed_base = (case b of None \<Rightarrow> 0 | Some b \<Rightarrow> committed_base b)\<rparr>)"
        "reservations d' = reservations d" "kernel_events d' = kernel_events d @
           [\<lparr>ev_topic = ''FUNDER_CASH_ATTESTED'', ev_aggregate_id = eid, ev_cash = cr_amount r\<rparr>]"
      have "0 \<le> cr_amount r - (case balances d ?k of None \<Rightarrow> 0 | Some b \<Rightarrow> committed_base b)"
        using b money_inv_balance [OF assms, of ?k] by (auto simp: balance_ok_def split: option.splits)
      from balance_ok_credit [where k = ?k, OF assms this b(7)] b(1,6) have "money_inv d'" by simp
      moreover have "funds ?k d \<le> funds ?k d'"
        using b(1,5,6,7) by (auto simp: funds_def consumed_sum_def split: option.splits)
      ultimately show ?thesis using Pair Ok b
        by simp
    qed
  qed (use Pair applyAttestedCredit_refused in fastforce)
qed

theorem attested_credit_keeps_books_witness:
  "case applyAttestedCredit ''owner'' ''12.5'' ''the statement page'' None ''e1'' empty_db of
     (Ok r, d') \<Rightarrow> money_inv d' \<and> 0 < cr_amount r | (Refused _, _) \<Rightarrow> True"
proof -
  have "money_inv empty_db" by (simp add: money_inv_def empty_db_def keys_ok_def balance_ok_def)
  from attested_credit_keeps_books [OF this, where acct = "''owner''" and usd = "''12.5''" and src = "''the statement page''"
      and other = None and eid = "''e1''"]
  show ?thesis by (auto split: prod.splits outcome.splits)
qed

text \<open>The credit of the witness succeeds, and LIVE then finds the account funded.\<close>

lemma credit_then_funded:
  "usdToBase '' 12.5 '' = Some 12500000" "usdToBase ''1e3'' = None" "usdToBase ''0.0000001'' = None"
  "fst (applyAttestedCredit ''owner'' ''12.5'' ''the statement page'' None ''e1'' empty_db)
     = Ok \<lparr>cr_action = Credit_insert, cr_amount = 12500000, cr_total = 12500000\<rparr>"
  "assessFunderCash (balances (snd (applyAttestedCredit ''owner'' ''12.5'' ''the statement page'' None ''e1'' empty_db)) (''owner'', ''pUSD''))
     = Ok 12500000"
  by code_simp+

end
