(* ===== verification/LiveAdmission.thy ===== *)
theory LiveAdmission
  imports LossGuard MoneyAuthority JsString
begin

text \<open>
  Admission to LIVE: \<open>src/pm/control/src/live-promotion.ts\<close> (the policy gates of a promotion),
  \<open>control/src/live-admission.ts\<close> (the owner's signature) and the promotion store and startup check of
  \<open>runtime/src/live-guard-store.ts\<close>. The curve arithmetic and keccak of the signature are the parameter
  \<open>recover\<close> (message, r, s and recovery bit to the signer's address, \<open>None\<close> where the library throws), \<open>Date.parse\<close>,
  which is implementation-defined outside the ISO format, is the parameter \<open>parse_date\<close>. JSON objects of the
  table are lists of their entries; a member that is missing is \<open>None\<close>.
\<close>

section \<open>Policy gates of a promotion\<close>

datatype gate_id = G0 | G1 | G2 | G3 | G4

type_synonym gates = "gate_id \<Rightarrow> bool"

definition all_gates :: "gate_id list" where
  "all_gates = [G0, G1, G2, G3, G4]"

record promotion =
  cp_from :: jsnum
  cp_to :: jsnum
  cp_auth :: string
  cp_expires :: "ms option"

record rollback_plan =
  rb_triggers :: "string list option"
  rb_steps :: "string list option"

type_synonym monitoring = "(string \<times> bool) list"

definition REQUIRED_TRIGGERS :: "string list" where
  "REQUIRED_TRIGGERS = [''drawdown-latch'', ''kill-switch'', ''mandate-expiry'']"

datatype promotion_verdict = PROMOTE_TO_LIVE | Promotion_HOLD string | Promotion_BLOCKED string | Promotion_throws

definition evaluateLivePromotion ::
  "gates \<Rightarrow> promotion \<Rightarrow> monitoring \<Rightarrow> rollback_plan \<Rightarrow> ms \<Rightarrow> promotion_verdict" where
  "evaluateLivePromotion gs promo mon rb now =
     (if filter (\<lambda>g. \<not> gs g) all_gates \<noteq> [] then Promotion_HOLD ''GATES_PENDING''
      else if cp_auth promo = [] then Promotion_BLOCKED ''PROMOTION_UNSIGNED''
      else if \<not> is_finite_num (cp_from promo) \<or> \<not> is_finite_num (cp_to promo) \<or> num_le (cp_to promo) (cp_from promo)
        then Promotion_BLOCKED ''PROMOTION_INVALID''
      else if (case cp_expires promo of None \<Rightarrow> True | Some e \<Rightarrow> e \<le> now) then Promotion_BLOCKED ''PROMOTION_EXPIRED''
      else if filter (\<lambda>k. \<not> snd k) mon \<noteq> [] then Promotion_BLOCKED ''MONITORING_GAP''
      else case rb_triggers rb of
        None \<Rightarrow> Promotion_throws
      | Some ts \<Rightarrow>
          if filter (\<lambda>t. t \<notin> set ts) REQUIRED_TRIGGERS \<noteq> [] then Promotion_BLOCKED ''ROLLBACK_INCOMPLETE''
          else case rb_steps rb of
            None \<Rightarrow> Promotion_throws
          | Some steps \<Rightarrow> if steps = [] then Promotion_BLOCKED ''ROLLBACK_INCOMPLETE'' else PROMOTE_TO_LIVE)"

section \<open>The owner's signature\<close>

record promotion_tuple =
  tp_strategy :: string
  tp_profile :: string
  tp_from :: jsnum
  tp_to :: jsnum
  tp_expires :: string

definition canonicalPromotionMessage :: "promotion_tuple \<Rightarrow> string" where
  "canonicalPromotionMessage t = join_with ''|''
     [''POLYROOT_LIVE_PROMOTION'', tp_strategy t, tp_profile t, num_to_string (tp_from t), num_to_string (tp_to t), tp_expires t]"

type_synonym recover = "string \<Rightarrow> string \<Rightarrow> string \<Rightarrow> int \<Rightarrow> string option"

definition recoverPromotionSigner :: "recover \<Rightarrow> promotion_tuple \<Rightarrow> string \<Rightarrow> string option" where
  "recoverPromotionSigner rec t signatureHex =
     (let sig = map lower (if take 2 signatureHex = ''0x'' then drop 2 signatureHex else signatureHex)
      in if length sig \<noteq> 130 \<or> \<not> list_all (\<lambda>c. digit_val 16 c \<noteq> None) sig then None
         else case parse_nonempty 16 (drop 128 sig) of
           None \<Rightarrow> None
         | Some v \<Rightarrow>
             if v \<noteq> 27 \<and> v \<noteq> 28 then None
             else rec (canonicalPromotionMessage t) (take 64 sig) (take 64 (drop 64 sig)) (v - 27))"

record admission_input =
  ai_tuple :: promotion_tuple
  ai_signature :: string
  ai_owner :: string
  ai_gates :: gates
  ai_monitoring :: monitoring
  ai_rollback :: rollback_plan

datatype admission = Admitted | Not_Admitted string | Admission_throws

definition resolveLiveAdmission ::
  "recover \<Rightarrow> (string \<Rightarrow> ms option) \<Rightarrow> admission_input \<Rightarrow> ms \<Rightarrow> admission" where
  "resolveLiveAdmission rec parse_date i now =
     (case recoverPromotionSigner rec (ai_tuple i) (ai_signature i) of
        None \<Rightarrow> Not_Admitted ''PROMOTION_SIG_INVALID''
      | Some signer \<Rightarrow>
          if map lower signer \<noteq> map lower (ai_owner i) then Not_Admitted ''PROMOTION_WRONG_SIGNER''
          else let expiry = parse_date (tp_expires (ai_tuple i)) in
          if (case expiry of None \<Rightarrow> True | Some e \<Rightarrow> e \<le> now) then Not_Admitted ''PROMOTION_EXPIRED''
          else case evaluateLivePromotion (ai_gates i)
              \<lparr>cp_from = tp_from (ai_tuple i), cp_to = tp_to (ai_tuple i), cp_auth = ai_signature i, cp_expires = expiry\<rparr>
              (ai_monitoring i) (ai_rollback i) now of
            PROMOTE_TO_LIVE \<Rightarrow> Admitted
          | Promotion_HOLD code \<Rightarrow> Not_Admitted code
          | Promotion_BLOCKED code \<Rightarrow> Not_Admitted code
          | Promotion_throws \<Rightarrow> Admission_throws)"

section \<open>The promotion store\<close>

text \<open>\<open>expires_at\<close> is a timestamp; the code reads it as its ISO string.\<close>

record promotion_row =
  pm_id :: uuid
  pm_strategy :: string
  pm_profile :: string
  pm_from :: jsnum
  pm_to :: jsnum
  pm_expires :: ms
  pm_owner :: string
  pm_signature :: string
  pm_monitoring :: monitoring
  pm_rollback :: rollback_plan
  pm_created_at :: ms
  pm_revoked_at :: "ms option"

text \<open>\<open>ORDER BY created_at DESC LIMIT 1\<close>.\<close>

fun newest :: "promotion_row list \<Rightarrow> promotion_row option" where
  "newest [] = None"
| "newest (r # rs) = (case newest rs of
      None \<Rightarrow> Some r
    | Some r' \<Rightarrow> Some (if pm_created_at r' \<le> pm_created_at r then r else r'))"

definition latest_promotion :: "string \<Rightarrow> string \<Rightarrow> ms \<Rightarrow> promotion_row list \<Rightarrow> promotion_row option" where
  "latest_promotion strategy profile now rows = newest (filter (\<lambda>r. pm_strategy r = strategy \<and> pm_profile r = profile
     \<and> pm_revoked_at r = None \<and> now < pm_expires r) rows)"

text \<open>The table checks \<open>from_cap_usd >= 0\<close> and \<open>to_cap_usd > from_cap_usd\<close>; PostgreSQL orders NaN above all numbers.\<close>

definition caps_check :: "jsnum \<Rightarrow> jsnum \<Rightarrow> bool" where
  "caps_check from' to' \<longleftrightarrow> (from' = NaN \<or> num_le (Fin 0) from') \<and> (to' = NaN \<and> from' \<noteq> NaN \<or> num_lt from' to')"

definition insert_promotion :: "promotion_row \<Rightarrow> promotion_row list \<Rightarrow> pg_error + promotion_row list" where
  "insert_promotion r rows =
     (if \<not> caps_check (pm_from r) (pm_to r) then Inl check_violation
      else if row_of pm_id (pm_id r) rows \<noteq> None then Inl unique_violation
      else Inr (rows @ [r\<lparr>pm_revoked_at := None\<rparr>]))"

definition revoke_promotion :: "uuid \<Rightarrow> ms \<Rightarrow> promotion_row list \<Rightarrow> bool \<times> promotion_row list" where
  "revoke_promotion pid now rows =
     (list_ex (\<lambda>r. pm_id r = pid \<and> pm_revoked_at r = None) rows,
      upd_row pm_id pid (\<lambda>r. if pm_revoked_at r = None then r\<lparr>pm_revoked_at := Some now\<rparr> else r) rows)"

section \<open>Startup\<close>

definition SHADOW_BASELINE_MIN_DAYS :: rat where
  "SHADOW_BASELINE_MIN_DAYS = 30"

definition SHADOW_BASELINE_MIN_CLUSTERS :: rat where
  "SHADOW_BASELINE_MIN_CLUSTERS = 100"

text \<open>The two columns as numbers; a column that is no finite number is \<open>undefined\<close>.\<close>

definition toFiniteNumber :: "jsnum \<Rightarrow> jsnum option" where
  "toFiniteNumber n = (if is_finite_num n then Some n else None)"

definition checkShadowBaselineRow :: "(jsnum \<times> jsnum) option \<Rightarrow> unit outcome" where
  "checkShadowBaselineRow row =
     (case (Option.bind row (\<lambda>r. toFiniteNumber (fst r)), Option.bind row (\<lambda>r. toFiniteNumber (snd r))) of
        (Some days, Some clusters) \<Rightarrow>
          if num_lt days (Fin SHADOW_BASELINE_MIN_DAYS) \<or> num_lt clusters (Fin SHADOW_BASELINE_MIN_CLUSTERS)
          then Refused ''BASELINE_NOT_MET'' else Ok ()
      | _ \<Rightarrow> Refused ''BASELINE_NOT_MET'')"

text \<open>A query that throws is \<open>None\<close>.\<close>

record startup =
  su_owner :: string
  su_strategy :: string
  su_profile :: string
  su_applied :: "string list"
  su_shipped :: "string list"
  su_manifest_sha :: "string option"
  su_running_sha :: "string option"
  su_wallet_ok :: bool
  su_creds_ok :: bool
  su_stale_minutes :: int
  su_now :: ms
  su_db_now :: ms
  su_promotions :: "promotion_row list option"
  su_latch :: "guard_row option"
  su_recovery :: "recovery_row list option"
  su_baseline :: "(jsnum \<times> jsnum) option option"

definition stale_unknown :: "startup \<Rightarrow> recovery_row \<Rightarrow> bool" where
  "stale_unknown s r \<longleftrightarrow> \<not> rc_resolved r \<and> (rc_state r = SUBMISSION_UNKNOWN \<or> rc_state r = CANCEL_UNKNOWN)
     \<and> rc_updated_at r < su_db_now s - su_stale_minutes s * 60000"

definition startup_gates :: "startup \<Rightarrow> gates" where
  "startup_gates s g =
     (case g of
        G0 \<Rightarrow> filter (\<lambda>f. f \<notin> set (su_applied s)) (su_shipped s) = []
      | G1 \<Rightarrow> truthy (su_manifest_sha s) \<and> truthy (su_running_sha s) \<and> su_manifest_sha s = su_running_sha s
      | G2 \<Rightarrow> (case su_latch s of
            None \<Rightarrow> False
          | Some row \<Rightarrow> \<not> was_halted (guard_load row) \<and>
              (case su_recovery s of None \<Rightarrow> False | Some led \<Rightarrow> filter (stale_unknown s) led = []))
      | G3 \<Rightarrow> su_wallet_ok s \<and> su_creds_ok s
      | G4 \<Rightarrow> (case su_baseline s of None \<Rightarrow> False | Some row \<Rightarrow> is_ok (checkShadowBaselineRow row)))"

definition resolveStartupAdmission ::
  "recover \<Rightarrow> (string \<Rightarrow> ms option) \<Rightarrow> startup \<Rightarrow> admission \<times> uuid option" where
  "resolveStartupAdmission rec parse_date s =
     (case Option.bind (su_promotions s) (latest_promotion (su_strategy s) (su_profile s) (su_now s)) of
        None \<Rightarrow> (Not_Admitted ''PROMOTION_ABSENT'', None)
      | Some p \<Rightarrow>
          let a = resolveLiveAdmission rec parse_date
                \<lparr>ai_tuple = \<lparr>tp_strategy = pm_strategy p, tp_profile = pm_profile p, tp_from = pm_from p, tp_to = pm_to p,
                   tp_expires = toISOString (pm_expires p)\<rparr>, ai_signature = pm_signature p, ai_owner = su_owner s,
                 ai_gates = startup_gates s, ai_monitoring = pm_monitoring p, ai_rollback = pm_rollback p\<rparr> (su_now s)
          in (a, if a = Admitted then Some (pm_id p) else None))"

section \<open>What admission means\<close>

lemma filter_none: "filter P xs = [] \<longleftrightarrow> \<not> list_ex P xs"
  by (simp add: filter_empty_conv list_ex_iff)

lemma promote_iff:
  "evaluateLivePromotion gs promo mon rb now = PROMOTE_TO_LIVE \<longleftrightarrow>
     list_all gs all_gates \<and> cp_auth promo \<noteq> [] \<and> is_finite_num (cp_from promo) \<and> is_finite_num (cp_to promo)
     \<and> num_lt (cp_from promo) (cp_to promo) \<and> (\<exists>e. cp_expires promo = Some e \<and> now < e) \<and> list_all snd mon
     \<and> (\<exists>ts. rb_triggers rb = Some ts \<and> set REQUIRED_TRIGGERS \<subseteq> set ts) \<and> (\<exists>steps. rb_steps rb = Some steps \<and> steps \<noteq> [])"
  by (auto simp: evaluateLivePromotion_def filter_none list_ex_iff list_all_iff num_le_not_lt split: option.splits if_splits)

lemma recovered_nonempty: "recoverPromotionSigner rec t sig = Some a \<Longrightarrow> sig \<noteq> []"
  by (auto simp: recoverPromotionSigner_def Let_def split: if_splits)

lemma verdict_case:
  "(case v of PROMOTE_TO_LIVE \<Rightarrow> Admitted | Promotion_HOLD c \<Rightarrow> Not_Admitted c | Promotion_BLOCKED c \<Rightarrow> Not_Admitted c
     | Promotion_throws \<Rightarrow> Admission_throws) = Admitted \<longleftrightarrow> v = PROMOTE_TO_LIVE"
  by (cases v) simp_all

lemma admitted_iff:
  "resolveLiveAdmission rec parse_date i now = Admitted \<longleftrightarrow>
     (\<exists>signer e. recoverPromotionSigner rec (ai_tuple i) (ai_signature i) = Some signer
        \<and> map lower signer = map lower (ai_owner i) \<and> parse_date (tp_expires (ai_tuple i)) = Some e \<and> now < e)
     \<and> list_all (ai_gates i) all_gates \<and> is_finite_num (tp_from (ai_tuple i)) \<and> is_finite_num (tp_to (ai_tuple i))
     \<and> num_lt (tp_from (ai_tuple i)) (tp_to (ai_tuple i)) \<and> list_all snd (ai_monitoring i)
     \<and> (\<exists>ts. rb_triggers (ai_rollback i) = Some ts \<and> set REQUIRED_TRIGGERS \<subseteq> set ts)
     \<and> (\<exists>steps. rb_steps (ai_rollback i) = Some steps \<and> steps \<noteq> [])"
  by (auto simp: resolveLiveAdmission_def Let_def verdict_case promote_iff not_le dest: recovered_nonempty
      split: option.splits if_splits)

text \<open>The five gates over the state they read, and the conditions on the stored promotion.\<close>

definition operational :: "startup \<Rightarrow> bool" where
  "operational s \<longleftrightarrow> set (su_shipped s) \<subseteq> set (su_applied s)
     \<and> truthy (su_manifest_sha s) \<and> su_manifest_sha s = su_running_sha s
     \<and> (\<exists>row. su_latch s = Some row \<and> \<not> was_halted row)
     \<and> (\<exists>led. su_recovery s = Some led \<and> \<not> list_ex (stale_unknown s) led)
     \<and> su_wallet_ok s \<and> su_creds_ok s
     \<and> (\<exists>days clusters. su_baseline s = Some (Some (Fin days, Fin clusters)) \<and> 30 \<le> days \<and> 100 \<le> clusters)"

definition owner_signed :: "recover \<Rightarrow> string \<Rightarrow> promotion_row \<Rightarrow> bool" where
  "owner_signed rec owner p \<longleftrightarrow>
     (\<exists>signer. recoverPromotionSigner rec \<lparr>tp_strategy = pm_strategy p, tp_profile = pm_profile p, tp_from = pm_from p,
          tp_to = pm_to p, tp_expires = toISOString (pm_expires p)\<rparr> (pm_signature p) = Some signer
        \<and> map lower signer = map lower owner)"

definition complete_plan :: "promotion_row \<Rightarrow> bool" where
  "complete_plan p \<longleftrightarrow> is_finite_num (pm_from p) \<and> is_finite_num (pm_to p) \<and> num_lt (pm_from p) (pm_to p)
     \<and> list_all snd (pm_monitoring p)
     \<and> (\<exists>ts. rb_triggers (pm_rollback p) = Some ts \<and> set REQUIRED_TRIGGERS \<subseteq> set ts)
     \<and> (\<exists>steps. rb_steps (pm_rollback p) = Some steps \<and> steps \<noteq> [])"

lemma baseline_ok:
  "is_ok (checkShadowBaselineRow row) \<longleftrightarrow> (\<exists>days clusters. row = Some (Fin days, Fin clusters) \<and> 30 \<le> days \<and> 100 \<le> clusters)"
proof (cases row)
  case (Some r)
  then show ?thesis
    by (cases "fst r"; cases "snd r"; cases r)
      (auto simp: checkShadowBaselineRow_def toFiniteNumber_def SHADOW_BASELINE_MIN_DAYS_def SHADOW_BASELINE_MIN_CLUSTERS_def)
qed (simp add: checkShadowBaselineRow_def)

lemma gates_operational: "list_all (startup_gates s) all_gates \<longleftrightarrow> operational s"
  by (auto simp: all_gates_def startup_gates_def operational_def filter_empty_conv list_ex_iff baseline_ok split: option.splits)

lemma newest_mem: "newest rows = Some r \<Longrightarrow> r \<in> set rows"
  by (induction rows arbitrary: r) (auto split: option.splits if_splits)

lemma newest_newest: "newest rows = Some r \<Longrightarrow> \<forall>x \<in> set rows. pm_created_at x \<le> pm_created_at r"
proof (induction rows arbitrary: r)
  case (Cons a rows)
  show ?case
  proof (cases "newest rows")
    case None
    with Cons.prems show ?thesis by (cases rows) (auto split: option.splits)
  next
    case (Some r')
    with Cons.IH [OF Some] Cons.prems show ?thesis by (auto split: if_splits)
  qed
qed simp

lemma newest_None: "newest rows = None \<longleftrightarrow> rows = []"
  by (cases rows) (auto split: option.splits)

lemma startup_admitted:
  "resolveStartupAdmission rec parse_date s = (Admitted, Some pid) \<longleftrightarrow>
     (case Option.bind (su_promotions s) (latest_promotion (su_strategy s) (su_profile s) (su_now s)) of
        None \<Rightarrow> False
      | Some p \<Rightarrow> pid = pm_id p \<and> owner_signed rec (su_owner s) p \<and> complete_plan p \<and> operational s
          \<and> (case parse_date (toISOString (pm_expires p)) of None \<Rightarrow> False | Some e \<Rightarrow> su_now s < e))"
proof (cases "Option.bind (su_promotions s) (latest_promotion (su_strategy s) (su_profile s) (su_now s))")
  case (Some p)
  then show ?thesis
    by (auto simp: resolveStartupAdmission_def Let_def admitted_iff gates_operational owner_signed_def complete_plan_def
        split: option.splits)
qed (simp add: resolveStartupAdmission_def)

text \<open>The observation baseline is required by the code. The comments of \<open>live-guard-store.ts\<close> and \<open>cli.ts\<close> and the documents
  \<open>PUBLIC_API.md\<close> and \<open>RUNBOOK_LIVE_GO_LIVE.md\<close> call it advisory evidence that blocks nothing.\<close>

lemma baseline_is_required:
  assumes "su_baseline s = Some (Some (Fin days, Fin clusters))" and "days < 30 \<or> clusters < 100"
  shows "fst (resolveStartupAdmission rec parse_date s) \<noteq> Admitted"
proof -
  have "\<not> operational s" using assms by (auto simp: operational_def)
  then show ?thesis by (auto simp: resolveStartupAdmission_def Let_def admitted_iff gates_operational split: option.splits)
qed

text \<open>C33. LIVE is admitted exactly when the newest unrevoked, unexpired promotion of the strategy and profile is
  signed by the owner over its caps and expiry, raises a finite cap, declares no monitoring stream as absent and
  carries the required rollback plan, and every operational gate holds: all migrations applied, the running tree is the
  released one, the loss latch is clear, no unknown order is stale, wallet and credentials are there, and the
  observation baseline of 30 days and 100 clusters is reached - which this code requires, although the repository's
  documents call the baseline advisory. Anything unreadable blocks.\<close>

theorem startup_admission_iff:
  "resolveStartupAdmission rec parse_date s = (Admitted, Some pid) \<longleftrightarrow>
     (case Option.bind (su_promotions s) (latest_promotion (su_strategy s) (su_profile s) (su_now s)) of
        None \<Rightarrow> False
      | Some p \<Rightarrow> pid = pm_id p \<and> owner_signed rec (su_owner s) p \<and> complete_plan p \<and> operational s
          \<and> (case parse_date (toISOString (pm_expires p)) of None \<Rightarrow> False | Some e \<Rightarrow> su_now s < e))"
  by (rule startup_admitted)

section \<open>Histories of the promotion table\<close>

datatype promo_event = Grant promotion_row | Revoke uuid ms

fun promo_step :: "promo_event \<Rightarrow> promotion_row list \<Rightarrow> promotion_row list" where
  "promo_step (Grant r) rows = (case insert_promotion r rows of Inl _ \<Rightarrow> rows | Inr rows' \<Rightarrow> rows')"
| "promo_step (Revoke pid now) rows = snd (revoke_promotion pid now rows)"

definition promo_run :: "promo_event list \<Rightarrow> promotion_row list" where
  "promo_run es = fold promo_step es []"

fun revokes :: "uuid \<Rightarrow> promo_event \<Rightarrow> bool" where
  "revokes pid (Revoke pid' _) \<longleftrightarrow> pid' = pid"
| "revokes pid (Grant _) \<longleftrightarrow> False"

lemma promo_run_snoc: "promo_run (es @ [e]) = promo_step e (promo_run es)"
  by (simp add: promo_run_def)

lemma promo_run_keys: "keys_ok pm_id (promo_run es)"
proof (induction es rule: rev_induct)
  case (snoc e es)
  then show ?case
    by (cases e) (auto simp: promo_run_snoc insert_promotion_def revoke_promotion_def keys_ok_def keys_upd_row row_of_None
        split: sum.splits if_splits)
qed (simp add: promo_run_def keys_ok_def)

lemma standing_promotion_granted:
  "p \<in> set (promo_run es) \<Longrightarrow> pm_revoked_at p = None \<Longrightarrow>
     \<exists>pre r post. es = pre @ Grant r # post \<and> p = r\<lparr>pm_revoked_at := None\<rparr> \<and> list_all (\<lambda>e. \<not> revokes (pm_id p) e) post"
proof (induction es rule: rev_induct)
  case (snoc e es)
  let ?goal = ?case
  have old: ?goal if "p \<in> set (promo_run es)" and "\<not> revokes (pm_id p) e"
  proof -
    from snoc.IH [OF that(1) snoc.prems(2)] obtain pre r post where
      "es = pre @ Grant r # post" "p = r\<lparr>pm_revoked_at := None\<rparr>" "list_all (\<lambda>e. \<not> revokes (pm_id p) e) post" by blast
    with that(2) show ?thesis by (intro exI [of _ pre] exI [of _ r] exI [of _ "post @ [e]"]) simp
  qed
  show ?case
  proof (cases e)
    case (Grant r)
    with snoc.prems have "p \<in> set (promo_run es) \<or> p = r\<lparr>pm_revoked_at := None\<rparr>"
      by (auto simp: promo_run_snoc insert_promotion_def split: sum.splits if_splits)
    moreover have ?goal if "p = r\<lparr>pm_revoked_at := None\<rparr>"
      using that Grant by (intro exI [of _ es] exI [of _ r] exI [of _ "[]"]) simp
    ultimately show ?thesis using old Grant by auto
  next
    case (Revoke pid now)
    let ?f = "\<lambda>r. if pm_revoked_at r = None then r\<lparr>pm_revoked_at := Some now\<rparr> else r"
    have p: "p \<in> set (upd_row pm_id pid ?f (promo_run es))"
      using snoc.prems(1) Revoke by (simp add: promo_run_snoc revoke_promotion_def)
    have "p \<in> set (promo_run es) \<and> pm_id p \<noteq> pid"
    proof (cases "row_of pm_id pid (promo_run es)")
      case None
      with p have "p \<in> set (promo_run es)" by (simp add: upd_row_fresh row_of_None)
      with None show ?thesis by (auto simp: row_of_None)
    next
      case (Some r0)
      have "p \<in> insert (?f r0) (set (promo_run es) - {r0})"
        using p set_upd_row [OF promo_run_keys Some, of ?f] by blast
      moreover have "p \<noteq> ?f r0"
      proof
        assume "p = ?f r0"
        then have "pm_revoked_at p = pm_revoked_at (?f r0)" by (rule arg_cong)
        with snoc.prems(2) show False by (simp split: if_splits)
      qed
      ultimately have mem: "p \<in> set (promo_run es)" "p \<noteq> r0" using snoc.prems(2) by auto
      with keys_ok_row_of [OF promo_run_keys, of p es] Some show ?thesis by auto
    qed
    with old Revoke show ?thesis by auto
  qed
qed (simp add: promo_run_def)

text \<open>C34. Only the owner's standing grant opens LIVE: whatever grants and revocations came before, a promotion that is
  admitted was granted, was not revoked since, has not expired, is for the strategy and profile that start, raises a
  finite cap, and its signature over exactly these caps and this expiry recovers to the owner.\<close>

theorem only_standing_grants_admit:
  assumes "resolveStartupAdmission rec parse_date (s\<lparr>su_promotions := Some (promo_run es)\<rparr>) = (Admitted, Some pid)"
  shows "\<exists>pre r post. es = pre @ Grant r # post \<and> pm_id r = pid \<and> list_all (\<lambda>e. \<not> revokes pid e) post
     \<and> pm_strategy r = su_strategy s \<and> pm_profile r = su_profile s \<and> su_now s < pm_expires r
     \<and> num_lt (pm_from r) (pm_to r) \<and> owner_signed rec (su_owner s) r"
proof -
  from assms obtain p where p: "latest_promotion (su_strategy s) (su_profile s) (su_now s) (promo_run es) = Some p"
    "pid = pm_id p" "owner_signed rec (su_owner s) p" "complete_plan p"
    by (auto simp: startup_admitted split: option.splits)
  from p(1) have mem: "p \<in> set (promo_run es)" "pm_strategy p = su_strategy s" "pm_profile p = su_profile s"
    "pm_revoked_at p = None" "su_now s < pm_expires p"
    by (auto simp: latest_promotion_def dest!: newest_mem)
  from standing_promotion_granted [OF mem(1,4)] obtain pre r post where
    "es = pre @ Grant r # post" "p = r\<lparr>pm_revoked_at := None\<rparr>" "list_all (\<lambda>e. \<not> revokes (pm_id p) e) post" by blast
  with p mem show ?thesis
    by (intro exI [of _ pre] exI [of _ r] exI [of _ post]) (simp add: complete_plan_def owner_signed_def)
qed

text \<open>A grant of the owner whose signature the curve recovers, at a start with every gate open.\<close>

definition sample_grant :: promotion_row where
  "sample_grant = \<lparr>pm_id = ''p1'', pm_strategy = ''default'', pm_profile = ''live'', pm_from = Fin 10, pm_to = Fin 50,
     pm_expires = 1000000, pm_owner = ''0xab'', pm_signature = replicate 128 CHR ''1'' @ ''1b'',
     pm_monitoring = [(''systemHealth'', True), (''venueMode'', True), (''accountMode'', True)],
     pm_rollback = \<lparr>rb_triggers = Some REQUIRED_TRIGGERS, rb_steps = Some [''reduce'', ''flatten'']\<rparr>,
     pm_created_at = 0, pm_revoked_at = None\<rparr>"

definition sample_startup :: startup where
  "sample_startup = \<lparr>su_owner = ''0xAB'', su_strategy = ''default'', su_profile = ''live'', su_applied = [''0001''],
     su_shipped = [''0001''], su_manifest_sha = Some ''s'', su_running_sha = Some ''s'', su_wallet_ok = True,
     su_creds_ok = True, su_stale_minutes = 30, su_now = 1000, su_db_now = 1000, su_promotions = None,
     su_latch = Some None, su_recovery = Some [], su_baseline = Some (Some (Fin 30, Fin 100))\<rparr>"

definition recover_any :: recover where
  "recover_any msg r s v = Some ''0xaB''"

lemma sample_admitted:
  "resolveStartupAdmission recover_any (\<lambda>_. Some 1000000) (sample_startup\<lparr>su_promotions := Some (promo_run [Grant sample_grant])\<rparr>)
     = (Admitted, Some ''p1'')"
proof -
  have run: "promo_run [Grant sample_grant] = [sample_grant]"
    by (simp add: promo_run_def insert_promotion_def caps_check_def sample_grant_def)
  have sig: "recoverPromotionSigner recover_any t (replicate 128 CHR ''1'' @ ''1b'') = Some ''0xaB''" for t
  proof -
    let ?s = "replicate 128 CHR ''1'' @ ''1b''"
    have "take 2 ?s \<noteq> ''0x''" "map lower ?s = ?s" "list_all (\<lambda>c. digit_val 16 c \<noteq> None) ?s"
      "parse_nonempty 16 (drop 128 ?s) = Some 27"
      by code_simp+
    then show ?thesis by (simp add: recoverPromotionSigner_def Let_def recover_any_def)
  qed
  have low: "lower CHR ''a'' = lower CHR ''A''" by code_simp
  show ?thesis unfolding startup_admitted
    by (simp add: run latest_promotion_def)
      (simp add: sample_grant_def sample_startup_def owner_signed_def sig low complete_plan_def operational_def
         was_halted_def REQUIRED_TRIGGERS_def)
qed

theorem only_standing_grants_admit_witness:
  "\<exists>pre r post. [Grant sample_grant] = pre @ Grant r # post \<and> num_lt (pm_from r) (pm_to r)
     \<and> owner_signed recover_any ''0xAB'' r"
  using only_standing_grants_admit [OF sample_admitted] by (auto simp: sample_startup_def)

text \<open>The same start after a revocation, or with an order that was left unknown an hour ago, does not open.\<close>

lemma revoked_grant_refused:
  "fst (resolveStartupAdmission recover_any (\<lambda>_. Some 1000000)
     (sample_startup\<lparr>su_promotions := Some (promo_run [Grant sample_grant, Revoke ''p1'' 500])\<rparr>)) = Not_Admitted ''PROMOTION_ABSENT''"
  by (simp add: promo_run_def insert_promotion_def caps_check_def revoke_promotion_def sample_grant_def
      resolveStartupAdmission_def latest_promotion_def)

text \<open>The gate counts the states \<open>SUBMISSION_UNKNOWN\<close> and \<open>CANCEL_UNKNOWN\<close> only: an order that was left
  \<open>SUBMITTING\<close> by a crash between claim and answer never blocks, however old it is.\<close>

lemma submitting_orders_overlooked: "rc_state r = SUBMITTING \<Longrightarrow> \<not> stale_unknown s r"
  by (simp add: stale_unknown_def)

text \<open>An object without entries declares no stream as absent, so a promotion without any monitoring passes; a plan without
  triggers makes the check throw instead of refusing.\<close>

lemma undeclared_monitoring_passes:
  "complete_plan p \<Longrightarrow> complete_plan (p\<lparr>pm_monitoring := []\<rparr>)"
  by (simp add: complete_plan_def)

lemma missing_triggers_throw:
  "operational s \<Longrightarrow> resolveLiveAdmission recover_any (\<lambda>_. Some 1000000) \<lparr>ai_tuple = \<lparr>tp_strategy = ''default'', tp_profile = ''live'',
       tp_from = Fin 10, tp_to = Fin 50, tp_expires = []\<rparr>, ai_signature = replicate 128 CHR ''1'' @ ''1b'', ai_owner = ''0xab'',
     ai_gates = startup_gates s, ai_monitoring = [], ai_rollback = \<lparr>rb_triggers = None, rb_steps = None\<rparr>\<rparr> 0 = Admission_throws"
proof -
  assume "operational s"
  then have gates: "filter (\<lambda>g. \<not> startup_gates s g) all_gates = []"
    by (simp add: filter_empty_conv list_all_iff flip: gates_operational)
  let ?s = "replicate 128 CHR ''1'' @ ''1b''"
  have "take 2 ?s \<noteq> ''0x''" "map lower ?s = ?s" "list_all (\<lambda>c. digit_val 16 c \<noteq> None) ?s" "parse_nonempty 16 (drop 128 ?s) = Some 27"
    "map lower ''0xaB'' = map lower ''0xab''"
    by code_simp+
  with gates show ?thesis
    by (simp add: resolveLiveAdmission_def evaluateLivePromotion_def recoverPromotionSigner_def Let_def recover_any_def num_le_def)
qed

text \<open>The signed message: what it binds when no field contains the separator, and a collision when one does.\<close>

lemma canonical_message_binds:
  assumes "canonicalPromotionMessage t = canonicalPromotionMessage u"
    and "CHR ''|'' \<notin> set (tp_strategy t @ tp_profile t @ num_to_string (tp_from t) @ num_to_string (tp_to t) @ tp_expires t)"
    and "CHR ''|'' \<notin> set (tp_strategy u @ tp_profile u @ num_to_string (tp_from u) @ num_to_string (tp_to u) @ tp_expires u)"
  shows "tp_strategy t = tp_strategy u \<and> tp_profile t = tp_profile u \<and> num_to_string (tp_from t) = num_to_string (tp_from u)
     \<and> num_to_string (tp_to t) = num_to_string (tp_to u) \<and> tp_expires t = tp_expires u"
proof -
  let ?xs = "\<lambda>t. [''POLYROOT_LIVE_PROMOTION'', tp_strategy t, tp_profile t, num_to_string (tp_from t), num_to_string (tp_to t), tp_expires t]"
  have "\<forall>f \<in> set (?xs t) \<union> set (?xs u). CHR ''|'' \<notin> set f" using assms(2,3) by auto
  then have "?xs t = ?xs u"
    using assms(1) by (intro join_with_inj [of "?xs t" "?xs u" "CHR ''|''"]) (simp_all add: canonicalPromotionMessage_def)
  then show ?thesis by simp
qed

lemma canonical_message_collides:
  "canonicalPromotionMessage (t\<lparr>tp_strategy := ''a|b'', tp_profile := ''c''\<rparr>)
     = canonicalPromotionMessage (t\<lparr>tp_strategy := ''a'', tp_profile := ''b|c''\<rparr>)"
  by (simp add: canonicalPromotionMessage_def)

end
