(* ===== verification/Rounding.thy ===== *)
theory Rounding
  imports BaseUnits JsOrder
begin

text \<open>
  Rounding to binary64 is monotone, odd and exact on the numbers a double can hold. With these facts bounds proved over
  the rationals carry over to the rounded arithmetic of the code.
\<close>

lemma pow2_less [simp]: "pow2 a < pow2 b \<longleftrightarrow> a < b"
  using power_int_strict_increasing [of a b "2 :: rat"] power_int_increasing [of b a "2 :: rat"]
  by (cases "a < b") (simp_all add: pow2_powi not_less)

lemma pow2_le [simp]: "pow2 a \<le> pow2 b \<longleftrightarrow> a \<le> b"
  by (simp add: not_less [symmetric])

lemma pow2_add: "pow2 (a + b) = pow2 a * pow2 b"
  by (simp add: pow2_powi power_int_add)

lemma pow2_diff: "pow2 (a - b) = pow2 a / pow2 b"
  by (simp add: pow2_powi power_int_diff)

lemma pow2_nat: "0 \<le> a \<Longrightarrow> pow2 a = of_int (2 ^ nat a)"
  by (simp add: pow2_def)

lemma ilog2_upper:
  assumes "0 < q"
  shows "q < pow2 (ilog2 q + 1)"
proof (cases "1 \<le> q")
  case True
  then have m: "1 \<le> \<lfloor>q\<rfloor>" by (simp add: le_floor_iff)
  note b = dlen_bounds [of 2 "\<lfloor>q\<rfloor>", OF _ m]
  have "\<lfloor>q\<rfloor> + 1 \<le> 2 ^ nat (dlen 2 \<lfloor>q\<rfloor>)" using b(3) by simp
  then have "(of_int (\<lfloor>q\<rfloor> + 1) :: rat) \<le> of_int (2 ^ nat (dlen 2 \<lfloor>q\<rfloor>))" by (simp only: of_int_le_iff)
  moreover have "q < of_int (\<lfloor>q\<rfloor> + 1)" by linarith
  ultimately show ?thesis using True b(1) by (simp add: ilog2_def pow2_def)
next
  case False
  define m where "m = \<lceil>1 / q\<rceil> - 1"
  have i: "1 < 1 / q" using False assms by simp
  have m: "1 \<le> m" "of_int m < 1 / q" using i unfolding m_def by (simp, linarith)
  note b = dlen_bounds [of 2 m, OF _ m(1)]
  have "(2 :: rat) ^ nat (dlen 2 m - 1) \<le> of_int m"
    using of_int_le_iff [of "2 ^ nat (dlen 2 m - 1)" m, where ?'a = rat] b(2) by simp
  with m(2) have "(2 :: rat) ^ nat (dlen 2 m - 1) < 1 / q" by linarith
  then have "q < 1 / 2 ^ nat (dlen 2 m - 1)" using assms by (simp add: field_simps)
  also have "\<dots> = pow2 (ilog2 q + 1)" using False b(1) by (simp add: ilog2_def pow2_def flip: m_def)
  finally show ?thesis .
qed

lemma ilog2_mono: "0 < a \<Longrightarrow> a \<le> b \<Longrightarrow> ilog2 a \<le> ilog2 b"
proof -
  assume "0 < a" "a \<le> b"
  then have "pow2 (ilog2 a) < pow2 (ilog2 b + 1)"
    using ilog2_lower [of a] ilog2_upper [of b] by (meson le_less_trans less_le_trans order.trans)
  then show ?thesis by simp
qed

lemma ilog2_less: "0 < q \<Longrightarrow> q < pow2 k \<Longrightarrow> ilog2 q < k"
  using ilog2_lower [of q] pow2_less [of "ilog2 q" k] by (meson le_less_trans)

section \<open>The rounded value\<close>

definition rnd :: "rat \<Rightarrow> rat" where
  "rnd q = (let e = max (ilog2 \<bar>q\<bar> - 52) (-1074) in of_int (round_half_even (q / pow2 e)) * pow2 e)"

lemma rnd_0 [simp]: "rnd 0 = 0"
  by (simp add: rnd_def round_half_even_def Let_def)

lemma fl_rnd: "fl q = (if pow2 1024 \<le> \<bar>rnd q\<bar> then (if 0 < q then PosInf else NegInf) else Fin (rnd q))"
proof (cases "q = 0")
  case True
  then show ?thesis by (simp add: fl_def not_le [THEN iffD2, OF pow2_pos])
qed (simp add: fl_def rnd_def Let_def)

lemma round_half_even_mono: "x \<le> y \<Longrightarrow> round_half_even x \<le> round_half_even y"
proof -
  assume xy: "x \<le> y"
  show ?thesis
  proof (cases "\<lfloor>x\<rfloor> = \<lfloor>y\<rfloor>")
    case True
    with xy show ?thesis by (auto simp: round_half_even_def Let_def)
  next
    case False
    then have "\<lfloor>x\<rfloor> + 1 \<le> \<lfloor>y\<rfloor>" using floor_mono [OF xy] by linarith
    then show ?thesis using round_half_even_range [of x] round_half_even_range [of y] by linarith
  qed
qed

lemma round_half_even_le_int: "x \<le> of_int m \<Longrightarrow> round_half_even x \<le> m"
  using round_half_even_mono [of x "of_int m"] by (simp add: round_half_even_int)

lemma round_half_even_ge_int: "of_int m \<le> x \<Longrightarrow> m \<le> round_half_even x"
  using round_half_even_mono [of "of_int m" x] by (simp add: round_half_even_int)

lemma rnd_mono_pos:
  assumes "0 < a" and "a \<le> b"
  shows "rnd a \<le> rnd b"
proof -
  define ea where "ea = max (ilog2 a - 52) (-1074)"
  define eb where "eb = max (ilog2 b - 52) (-1074)"
  have b: "0 < b" using assms by simp
  have ra: "rnd a = of_int (round_half_even (a / pow2 ea)) * pow2 ea"
    and rb: "rnd b = of_int (round_half_even (b / pow2 eb)) * pow2 eb"
    using assms b by (simp_all add: rnd_def ea_def eb_def Let_def)
  show ?thesis
  proof (cases "ilog2 a = ilog2 b \<or> ea = eb")
    case True
    then have eq: "ea = eb" by (auto simp: ea_def eb_def)
    have "round_half_even (a / pow2 eb) \<le> round_half_even (b / pow2 eb)"
      using assms by (intro round_half_even_mono divide_right_mono) simp_all
    then show ?thesis unfolding ra rb eq by (intro mult_right_mono) simp_all
  next
    case False
    with ilog2_mono [OF assms] have lt: "ilog2 a < ilog2 b" and e: "eb = ilog2 b - 52" and ge: "ea \<le> ilog2 b"
      by (auto simp: ea_def eb_def max_def split: if_splits)
    let ?c = "pow2 (ilog2 b)"
    have "a < pow2 (ilog2 a + 1)" by (rule ilog2_upper [OF assms(1)])
    also have "\<dots> \<le> ?c" using lt by simp
    finally have "a / pow2 ea \<le> ?c / pow2 ea" by (intro divide_right_mono) simp_all
    also have "\<dots> = of_int (2 ^ nat (ilog2 b - ea))" using ge by (simp only: pow2_diff [symmetric] pow2_nat diff_ge_0_iff_ge)
    finally have "round_half_even (a / pow2 ea) \<le> 2 ^ nat (ilog2 b - ea)" by (rule round_half_even_le_int)
    then have "(of_int (round_half_even (a / pow2 ea)) :: rat) \<le> of_int (2 ^ nat (ilog2 b - ea))" by (simp only: of_int_le_iff)
    then have "rnd a \<le> of_int (2 ^ nat (ilog2 b - ea)) * pow2 ea" unfolding ra by (intro mult_right_mono) simp_all
    also have "\<dots> = pow2 (ilog2 b - ea) * pow2 ea" using ge by (simp only: pow2_nat diff_ge_0_iff_ge)
    also have "\<dots> = ?c" by (simp only: pow2_add [symmetric]) simp
    finally have below: "rnd a \<le> ?c" .
    have "of_int (2 ^ 52) = ?c / pow2 eb" unfolding e by (simp add: pow2_nat [of 52, simplified] flip: pow2_diff)
    also have "\<dots> \<le> b / pow2 eb" using ilog2_lower [OF b] by (intro divide_right_mono) simp_all
    finally have "2 ^ 52 \<le> round_half_even (b / pow2 eb)" by (rule round_half_even_ge_int)
    then have "(of_int (2 ^ 52) :: rat) \<le> of_int (round_half_even (b / pow2 eb))" by (simp only: of_int_le_iff)
    then have "of_int (2 ^ 52) * pow2 eb \<le> rnd b" unfolding rb by (intro mult_right_mono) simp_all
    moreover have "of_int (2 ^ 52) * pow2 eb = ?c" unfolding e by (simp add: pow2_diff pow2_def [of 52])
    ultimately show ?thesis using below by simp
  qed
qed

lemma round_half_even_neg: "round_half_even (- x) = - round_half_even x"
proof -
  define f where "f = \<lfloor>x\<rfloor>"
  have f: "of_int f \<le> x" "x < of_int f + 1" unfolding f_def by linarith+
  show ?thesis
  proof (cases "x = of_int f")
    case True
    then show ?thesis using round_half_even_int [of f] round_half_even_int [of "- f"] by simp
  next
    case False
    then have "\<lfloor>- x\<rfloor> = - f - 1" using f by (intro floor_unique) auto
    with f False show ?thesis by (auto simp: round_half_even_def Let_def simp flip: f_def)
  qed
qed

lemma rnd_neg: "rnd (- q) = - rnd q"
  by (simp add: rnd_def Let_def round_half_even_neg)

lemma rnd_nonneg: "0 \<le> q \<Longrightarrow> 0 \<le> rnd q"
  by (simp add: rnd_def Let_def round_half_even_nonneg)

lemma rnd_mono: "a \<le> b \<Longrightarrow> rnd a \<le> rnd b"
proof -
  assume ab: "a \<le> b"
  consider "0 < a" | "a \<le> 0" "0 \<le> b" | "b < 0" by linarith
  then show ?thesis
  proof cases
    case 1
    then show ?thesis using ab by (rule rnd_mono_pos)
  next
    case 2
    then have "0 \<le> rnd (- a)" "0 \<le> rnd b" by (simp_all add: rnd_nonneg)
    then show ?thesis by (simp add: rnd_neg)
  next
    case 3
    with ab have "rnd (- b) \<le> rnd (- a)" by (intro rnd_mono_pos) simp_all
    then show ?thesis by (simp add: rnd_neg)
  qed
qed

text \<open>Rounding keeps the order.\<close>

lemma fl_not_NaN [simp]: "fl q \<noteq> NaN"
  by (simp add: fl_rnd)

lemma fl_mono: "a \<le> b \<Longrightarrow> num_le (fl a) (fl b)"
proof -
  assume ab: "a \<le> b"
  note m = rnd_mono [OF ab]
  have small: "0 < pow2 1024" by simp
  have pos: "0 < q" if "pow2 1024 \<le> rnd q" for q
    using that rnd_mono [of q 0] small by (cases "0 < q") auto
  have neg: "q < 0" if "rnd q \<le> - pow2 1024" for q
    using that rnd_nonneg [of q] small by (cases "q < 0") auto
  show ?thesis
    using m pos [of a] pos [of b] neg [of a] neg [of b]
    by (auto simp: fl_rnd abs_if split: if_splits)
qed

section \<open>Numbers a double holds\<close>

definition representable :: "rat \<Rightarrow> bool" where
  "representable q \<longleftrightarrow> fl q = Fin q"

lemma representable_intro:
  assumes "q = of_int m * pow2 e" and "\<bar>m\<bar> \<le> 2 ^ 53" and "-1074 \<le> e" and "\<bar>q\<bar> < pow2 1024"
  shows "representable q"
proof (cases "q = 0")
  case True
  then show ?thesis by (simp add: representable_def fl_rnd not_le [THEN iffD2, OF pow2_pos])
next
  case False
  define k where "k = max (ilog2 \<bar>q\<bar> - 52) (-1074)"
  have "\<exists>n. q = of_int n * pow2 k"
  proof (cases "k \<le> e")
    case True
    have "q = of_int m * (pow2 (e - k) * pow2 k)" by (simp add: assms(1) flip: pow2_add)
    also have "\<dots> = of_int (m * 2 ^ nat (e - k)) * pow2 k" using True by (simp add: pow2_nat)
    finally show ?thesis by blast
  next
    case False
    with assms(3) have k: "k = ilog2 \<bar>q\<bar> - 52" by (auto simp: k_def max_def split: if_splits)
    have "\<bar>m\<bar> = 2 ^ 53"
    proof (rule ccontr)
      assume "\<bar>m\<bar> \<noteq> 2 ^ 53"
      then have "(of_int \<bar>m\<bar> :: rat) < of_int (2 ^ 53)" using assms(2) by (simp only: of_int_less_iff)
      then have "\<bar>q\<bar> < of_int (2 ^ 53) * pow2 e"
        unfolding assms(1) abs_mult abs_of_pos [OF pow2_pos] by (intro mult_strict_right_mono) simp_all
      also have "\<dots> = pow2 (53 + e)" by (simp only: pow2_add) (simp add: pow2_def [of 53])
      finally have "ilog2 \<bar>q\<bar> < 53 + e" using \<open>q \<noteq> 0\<close> by (intro ilog2_less) simp_all
      with False k show False by simp
    qed
    then have m: "m = sgn m * 2 ^ 53" by (metis abs_mult_sgn mult.commute)
    have "\<bar>q\<bar> = pow2 (53 + e)"
      unfolding assms(1) abs_mult using \<open>\<bar>m\<bar> = 2 ^ 53\<close>
      by (simp only: of_int_abs [symmetric] abs_of_pos [OF pow2_pos] pow2_add) (simp add: pow2_def [of 53])
    then have "ilog2 \<bar>q\<bar> < 54 + e" using \<open>q \<noteq> 0\<close> by (intro ilog2_less) simp_all
    with False k have "k = e + 1" by simp
    then have "q = of_int (sgn m * 2 ^ 52) * pow2 k"
      unfolding assms(1) by (subst m) (simp add: pow2_add pow2_def [of 1])
    then show ?thesis by blast
  qed
  then obtain n where n: "q = of_int n * pow2 k" ..
  have "rnd q = of_int (round_half_even (q / pow2 k)) * pow2 k" by (simp add: rnd_def Let_def k_def)
  also have "q / pow2 k = of_int n" by (simp add: n)
  finally have "rnd q = q" by (simp add: round_half_even_int flip: n)
  with assms(4) show ?thesis by (simp add: representable_def fl_rnd)
qed

lemma fl_representable:
  assumes "fl q = Fin r"
  shows "representable r"
proof -
  define e where "e = max (ilog2 \<bar>q\<bar> - 52) (-1074)"
  define m where "m = round_half_even (q / pow2 e)"
  have r: "r = of_int m * pow2 e" and small: "\<bar>r\<bar> < pow2 1024"
    using assms by (auto simp: fl_rnd rnd_def Let_def e_def m_def split: if_splits)
  have bound: "\<bar>q / pow2 e\<bar> \<le> of_int (2 ^ 53)"
  proof (cases "q = 0")
    case False
    then have "\<bar>q\<bar> < pow2 (ilog2 \<bar>q\<bar> + 1)" by (intro ilog2_upper) simp
    also have "\<dots> \<le> pow2 (53 + e)" by (simp add: e_def)
    also have "\<dots> = of_int (2 ^ 53) * pow2 e" by (simp only: pow2_add) (simp add: pow2_def [of 53])
    finally show ?thesis by (simp add: field_simps)
  qed simp
  have "q / pow2 e \<le> of_int (2 ^ 53)" "of_int (- (2 ^ 53)) \<le> q / pow2 e"
    using abs_le_D1 [OF bound] abs_le_D2 [OF bound] by simp_all
  then have "\<bar>m\<bar> \<le> 2 ^ 53"
    unfolding m_def using round_half_even_le_int [of "q / pow2 e" "2 ^ 53"] round_half_even_ge_int [of "- (2 ^ 53)" "q / pow2 e"]
    by simp
  from representable_intro [OF r this _ small] show ?thesis by (simp add: e_def)
qed

text \<open>A value of the arithmetic: not a number, infinite, or a number that a double holds.\<close>

fun is_double :: "jsnum \<Rightarrow> bool" where
  "is_double (Fin q) = representable q"
| "is_double _ = True"

lemma is_double_fl [simp]: "is_double (fl q)"
  using fl_representable [of q] by (cases "fl q") simp_all

lemma is_double_0 [simp]: "is_double (Fin 0)"
  by (simp add: representable_def fl_def)

lemma is_double_add [simp]: "is_double x \<Longrightarrow> is_double y \<Longrightarrow> is_double (num_add x y)"
  by (cases x; cases y) simp_all

text \<open>Adding a non-negative amount to a double does not lower it.\<close>

lemma num_add_ge:
  assumes "is_double x" and "num_le (Fin 0) x" and "num_le (Fin 0) y"
  shows "num_le x (num_add x y)"
proof (cases "is_finite_num x \<and> is_finite_num y")
  case True
  then obtain a b where ab: "x = Fin a" "y = Fin b" by (metis is_finite_num.elims(2))
  with assms fl_mono [of a "a + b"] show ?thesis by (simp add: representable_def)
qed (use assms in \<open>cases x; cases y; simp\<close>)

lemma num_add_mono: "num_le x y \<Longrightarrow> num_le (Fin 0) x \<Longrightarrow> num_le (Fin 0) z \<Longrightarrow> num_le (num_add x z) (num_add y z)"
  by (cases x; cases y; cases z) (simp_all add: fl_mono)

lemma num_add_commute: "num_add x y = num_add y x"
  by (cases x; cases y) (simp_all add: add.commute)

lemma num_mul_mono:
  "num_le x y \<Longrightarrow> num_le (Fin 0) x \<Longrightarrow> num_lt (Fin 0) z \<Longrightarrow> is_finite_num z \<Longrightarrow> num_le (num_mul x z) (num_mul y z)"
  by (cases x; cases y; cases z) (auto simp: fl_mono inf_of_sign_def mult_right_mono)

lemma num_mul_nonneg: "num_le (Fin 0) x \<Longrightarrow> num_le (Fin 0) y \<Longrightarrow> is_finite_num x \<Longrightarrow> is_finite_num y \<Longrightarrow> num_le (Fin 0) (num_mul x y)"
  by (cases x; cases y) (simp_all add: fl_nonneg)

end
