(* ===== verification/Portfolio.thy ===== *)
theory Portfolio
  imports Signal JsString Database Rounding "HOL-Library.Multiset"
begin

text \<open>
  What the live loop knows about its open risk. The allocator and the exposure tracker of
  \<open>src/pm/strategy/src/portfolio-allocator.ts\<close>, Kelly sizing (\<open>strategy/src/sizing.ts\<close>), the submit-time accounting of
  \<open>runtime/src/live-accounting.ts\<close> and the durable snapshot of \<open>runtime/src/exposure-sync.ts\<close>. A \<open>Map\<close> is the list of its
  entries in insertion order.
\<close>

section \<open>Which markets to look at\<close>

text \<open>A number, or \<open>undefined\<close>.\<close>

definition finite_opt :: "jsnum option \<Rightarrow> bool" where
  "finite_opt x = (case x of None \<Rightarrow> False | Some n \<Rightarrow> is_finite_num n)"

definition scoreOpportunity :: "jsnum option \<Rightarrow> jsnum option \<Rightarrow> jsnum" where
  "scoreOpportunity edgeAfterFees p =
     (if \<not> finite_opt edgeAfterFees then NegInf
      else let conviction = (if finite_opt p
             then num_min (num_max (num_mul (num_abs (num_sub (the p) (Fin (1 / 2)))) (Fin 2)) (Fin 0)) (Fin 1) else Fin (1 / 2))
        in num_mul (the edgeAfterFees) conviction)"

record ranked_market =
  rm_score :: jsnum
  rm_at :: ms

text \<open>The stable descending sort by \<open>b.score - a.score\<close>: a difference that is not positive keeps the order.\<close>

fun insert_desc :: "('a \<Rightarrow> jsnum) \<Rightarrow> 'a \<Rightarrow> 'a list \<Rightarrow> 'a list" where
  "insert_desc f x [] = [x]"
| "insert_desc f x (y # ys) = (if num_lt (f x) (f y) then y # insert_desc f x ys else x # y # ys)"

definition sort_desc :: "('a \<Rightarrow> jsnum) \<Rightarrow> 'a list \<Rightarrow> 'a list" where
  "sort_desc f xs = foldr (insert_desc f) xs []"

definition pass_score :: "(string \<Rightarrow> ranked_market option) \<Rightarrow> ms \<Rightarrow> ms \<Rightarrow> string \<Rightarrow> jsnum" where
  "pass_score memory now staleAfter mid =
     (case memory mid of
        None \<Rightarrow> Fin 0
      | Some m \<Rightarrow> if now - rm_at m \<le> staleAfter then rm_score m else NegInf)"

definition pass_limit :: "jsnum \<Rightarrow> nat \<Rightarrow> nat" where
  "pass_limit k n = (case k of Fin q \<Rightarrow> if q \<le> 0 then n else nat \<lfloor>q\<rfloor> | _ \<Rightarrow> n)"

definition selectMarketsForPass ::
  "(string \<Rightarrow> ranked_market option) \<Rightarrow> string list \<Rightarrow> jsnum \<Rightarrow> ms \<Rightarrow> ms \<Rightarrow> string list \<times> string list" where
  "selectMarketsForPass memory inputIds k now staleAfter =
     (let limit = pass_limit k (length inputIds) in
      if memory = Map.empty \<or> length inputIds \<le> limit then (inputIds, [])
      else let ranked = sort_desc (pass_score memory now staleAfter) inputIds in (take limit ranked, drop limit ranked))"

section \<open>How much to trade\<close>

definition equityBankroll :: "jsnum \<Rightarrow> jsnum \<Rightarrow> jsnum" where
  "equityBankroll cap pnl =
     (if \<not> is_finite_num cap \<or> num_le cap (Fin 0) then Fin 0
      else num_max (num_add cap (if is_finite_num pnl then pnl else Fin 0)) (Fin 0))"

definition kellyFraction :: "jsnum \<Rightarrow> jsnum \<Rightarrow> jsnum \<Rightarrow> jsnum" where
  "kellyFraction p price fraction =
     (if \<not> is_finite_num p \<or> \<not> is_finite_num price \<or> \<not> is_finite_num fraction then Fin 0
      else if num_le p price \<or> num_le price (Fin 0) \<or> num_le (Fin 1) price \<or> num_le fraction (Fin 0) then Fin 0
      else let full' = num_div (num_sub p price) (num_sub (Fin 1) price)
        in if num_le full' (Fin 0) then Fin 0 else num_mul full' fraction)"

record kelly_input =
  ky_p :: jsnum
  ky_price :: jsnum
  ky_bankroll :: jsnum
  ky_fraction :: jsnum
  ky_min :: jsnum
  ky_max :: jsnum

definition kellyShares :: "kelly_input \<Rightarrow> jsnum" where
  "kellyShares i =
     (if \<not> is_finite_num (ky_bankroll i) \<or> num_le (ky_bankroll i) (Fin 0) then Fin 0
      else if \<not> is_finite_num (ky_price i) \<or> num_le (ky_price i) (Fin 0) \<or> num_le (Fin 1) (ky_price i) then Fin 0
      else let f = kellyFraction (ky_p i) (ky_price i) (ky_fraction i)
        in if num_le f (Fin 0) then Fin 0
           else let shares = math_floor (num_div (num_mul f (ky_bankroll i)) (ky_price i))
             in if num_lt shares (ky_min i) then Fin 0 else num_min shares (num_max (ky_max i) (ky_min i)))"

section \<open>The exposure tracker\<close>

type_synonym tracker = "(string \<times> jsnum) list"

definition notional_ok :: "string \<Rightarrow> jsnum \<Rightarrow> bool" where
  "notional_ok tok n \<longleftrightarrow> tok \<noteq> [] \<and> is_finite_num n \<and> \<not> num_le n (Fin 0)"

definition exposureOf :: "string \<Rightarrow> tracker \<Rightarrow> jsnum" where
  "exposureOf tok t = (case map_of t tok of None \<Rightarrow> Fin 0 | Some v \<Rightarrow> v)"

definition tracker_add :: "string \<Rightarrow> jsnum \<Rightarrow> tracker \<Rightarrow> tracker" where
  "tracker_add tok n t = (if notional_ok tok n then map_set tok (num_add (exposureOf tok t) n) t else t)"

definition replaceAll :: "(string \<times> jsnum) list \<Rightarrow> tracker" where
  "replaceAll entries = fold (\<lambda>(tok, n) t. if notional_ok tok n then map_set tok n t else t) entries []"

fun tracker_resolve :: "string list \<Rightarrow> tracker \<Rightarrow> (jsnum \<times> nat) \<times> tracker" where
  "tracker_resolve [] t = ((Fin 0, 0), t)"
| "tracker_resolve (tok # toks) t =
     (case map_of t tok of
        None \<Rightarrow> tracker_resolve toks t
      | Some v \<Rightarrow> (case tracker_resolve toks (filter (\<lambda>e. fst e \<noteq> tok) t) of
            ((usd, n), t') \<Rightarrow> ((num_add v usd, n + 1), t')))"

definition num_sum :: "jsnum list \<Rightarrow> jsnum" where
  "num_sum xs = fold (\<lambda>v s. num_add s v) xs (Fin 0)"

definition tracker_total :: "tracker \<Rightarrow> jsnum" where
  "tracker_total t = num_sum (map snd t)"

section \<open>Accounting at submission\<close>

definition LIVE_TAKER_FEE_THETA :: jsnum where
  "LIVE_TAKER_FEE_THETA = fl (5 / 100)"

datatype maker_taker = MAKER | TAKER | MT_UNKNOWN

record fill_ack =
  fa_filled :: "jsnum option"
  fa_average :: "jsnum option"
  fa_fee :: "jsnum option"
  fa_role :: "maker_taker option"

datatype fill_status = FILLED | PARTIAL | CANCELLED

datatype fee_model = Fee_venue | Fee_theta

record live_fill =
  lf_status :: fill_status
  lf_size :: jsnum
  lf_price :: jsnum
  lf_maker :: jsnum
  lf_taker :: jsnum
  lf_model :: fee_model

definition price_ok :: "jsnum \<Rightarrow> bool" where
  "price_ok x \<longleftrightarrow> is_finite_num x \<and> num_lt (Fin 0) x \<and> num_le x (Fin 1)"

definition positiveFinite :: "jsnum option \<Rightarrow> jsnum" where
  "positiveFinite x = (case x of Some n \<Rightarrow> if is_finite_num n \<and> num_lt (Fin 0) n then n else Fin 0 | None \<Rightarrow> Fin 0)"

definition deriveLiveFill :: "jsnum \<Rightarrow> jsnum \<Rightarrow> fill_ack \<Rightarrow> live_fill option" where
  "deriveLiveFill size' price ack =
     (case fa_filled ack of
        None \<Rightarrow> None
      | Some filled \<Rightarrow>
          if \<not> is_finite_num filled \<or> num_le filled (Fin 0) then None
          else let average = (case fa_average ack of Some a \<Rightarrow> if price_ok a then Some a else None | None \<Rightarrow> None);
                   limit = (if price_ok price then Some price else None);
                   orderSize = (if is_finite_num size' then size' else filled);
                   status = (if num_lt (num_add filled (fl (1 / 10 ^ 9))) orderSize then PARTIAL else FILLED)
            in (case first_some [average, limit] of
                  None \<Rightarrow> None
                | Some fillPrice \<Rightarrow>
                    Some (case fa_fee ack of
                      Some fee \<Rightarrow>
                        if is_finite_num fee \<and> num_le (Fin 0) fee
                        then \<lparr>lf_status = status, lf_size = filled, lf_price = fillPrice,
                               lf_maker = (if fa_role ack = Some MAKER then fee else Fin 0),
                               lf_taker = (if fa_role ack = Some MAKER then Fin 0 else fee), lf_model = Fee_venue\<rparr>
                        else \<lparr>lf_status = status, lf_size = filled, lf_price = fillPrice, lf_maker = Fin 0,
                               lf_taker = num_mul filled (clobTakerFeePerShare fillPrice LIVE_TAKER_FEE_THETA), lf_model = Fee_theta\<rparr>
                    | None \<Rightarrow> \<lparr>lf_status = status, lf_size = filled, lf_price = fillPrice, lf_maker = Fin 0,
                               lf_taker = num_mul filled (clobTakerFeePerShare fillPrice LIVE_TAKER_FEE_THETA), lf_model = Fee_theta\<rparr>)))"

definition executed :: "live_fill \<Rightarrow> bool" where
  "executed f \<longleftrightarrow> lf_status f = FILLED \<or> lf_status f = PARTIAL"

definition submitExposureUsd :: "jsnum \<Rightarrow> jsnum \<Rightarrow> live_fill option \<Rightarrow> jsnum" where
  "submitExposureUsd orderSize limitPrice fill =
     (if \<not> is_finite_num orderSize \<or> num_le orderSize (Fin 0) then Fin 0
      else if \<not> price_ok limitPrice then Fin 0
      else case fill of
        None \<Rightarrow> num_mul limitPrice orderSize
      | Some f \<Rightarrow>
          if \<not> executed f then num_mul limitPrice orderSize
          else let filledSize = positiveFinite (Some (lf_size f));
                   fillPrice = (if price_ok (lf_price f) then lf_price f else limitPrice);
                   remainder = num_max (Fin 0) (num_sub orderSize filledSize)
            in num_add (num_mul fillPrice filledSize) (num_mul limitPrice remainder))"

definition sessionPnlFromFill :: "jsnum \<Rightarrow> outcome_side \<Rightarrow> live_fill \<Rightarrow> jsnum" where
  "sessionPnlFromFill p quotedSide f =
     (if \<not> executed f then Fin 0
      else if \<not> is_finite_num p \<or> \<not> is_finite_num (lf_size f) \<or> num_le (lf_size f) (Fin 0) then Fin 0
      else if \<not> is_finite_num (lf_price f) then Fin 0
      else let fairDiff = (if quotedSide = NO then num_sub (num_sub (Fin 1) p) (lf_price f) else num_sub p (lf_price f));
               gross = num_mul (lf_size f) fairDiff
        in if \<not> is_finite_num (lf_maker f) \<or> \<not> is_finite_num (lf_taker f) \<or> num_lt (lf_maker f) (Fin 0) \<or> num_lt (lf_taker f) (Fin 0)
           then (if num_lt gross (Fin 0) then gross else Fin 0)
           else num_sub (num_sub gross (lf_maker f)) (lf_taker f))"

definition combineExposure :: "jsnum option \<Rightarrow> jsnum \<Rightarrow> jsnum" where
  "combineExposure supplied tracked = num_max (positiveFinite supplied) (positiveFinite (Some tracked))"

definition exposureForStep :: "tracker \<Rightarrow> string \<Rightarrow> jsnum option \<Rightarrow> jsnum option \<Rightarrow> jsnum \<times> jsnum" where
  "exposureForStep t mid suppliedPortfolio suppliedMarket =
     (combineExposure suppliedPortfolio (tracker_total t), combineExposure suppliedMarket (exposureOf mid t))"

record step_metrics =
  sm_orders :: int
  sm_filled :: int
  sm_pnl :: jsnum
  sm_fees :: jsnum
  sm_fill_ratio :: jsnum
  sm_exposure :: jsnum
  sm_max_exposure :: jsnum

definition publish_exposure :: "tracker \<Rightarrow> step_metrics \<Rightarrow> step_metrics" where
  "publish_exposure t m =
     (let cur = tracker_total t
      in m\<lparr>sm_exposure := cur, sm_max_exposure := (if num_lt (sm_max_exposure m) cur then cur else sm_max_exposure m)\<rparr>)"

text \<open>The result of a step as far as the accounting reads it.\<close>

record step_booking =
  sb_fill :: "live_fill option"
  sb_pnl :: "jsnum option"
  sb_exposure :: "jsnum option"

definition add_fee :: "jsnum \<Rightarrow> jsnum \<Rightarrow> jsnum" where
  "add_fee fee acc = (if is_finite_num fee \<and> num_le (Fin 0) fee then num_add acc fee else acc)"

definition accountAfterStep :: "string \<Rightarrow> step_booking \<Rightarrow> tracker \<times> step_metrics \<Rightarrow> tracker \<times> step_metrics" where
  "accountAfterStep mid b s =
     (case s of (t, m) \<Rightarrow>
        let t' = (case sb_exposure b of
                    Some x \<Rightarrow> if is_finite_num x \<and> num_lt (Fin 0) x then tracker_add mid x t else t | None \<Rightarrow> t);
            orders' = sm_orders m + 1;
            filled' = (case sb_fill b of Some f \<Rightarrow> if executed f then sm_filled m + 1 else sm_filled m | None \<Rightarrow> sm_filled m);
            pnl' = (if finite_opt (sb_pnl b) then num_add (sm_pnl m) (the (sb_pnl b)) else sm_pnl m);
            fees' = (case sb_fill b of Some f \<Rightarrow> add_fee (lf_taker f) (add_fee (lf_maker f) (sm_fees m)) | None \<Rightarrow> sm_fees m);
            m1 = publish_exposure t' (m\<lparr>sm_orders := orders', sm_filled := filled', sm_pnl := pnl', sm_fees := fees'\<rparr>)
        in (t', m1\<lparr>sm_fill_ratio := (if 0 < orders' then num_div (num_of_bigint filled') (num_of_bigint orders') else Fin 0)\<rparr>))"

section \<open>The durable snapshot\<close>

text \<open>A row of the join; the columns are read as text. A side that is neither YES nor NO is \<open>None\<close>.\<close>

record durable_row =
  du_market :: "string option"
  du_side :: "outcome_side option"
  du_price :: "string option"
  du_size :: "string option"
  du_order :: "string option"
  du_resolved :: bool
  du_resolved_state :: "lifecycle option"
  du_fill_shares :: "string option"
  du_fill_cash :: "string option"
  du_status :: "reservation_status option"
  du_reserved :: "string option"
  du_consumed :: "string option"
  du_released :: "string option"
  du_p :: "string option"

record durable_order =
  dor_market :: string
  dor_order :: string
  dor_price :: jsnum
  dor_size :: jsnum
  dor_shares :: jsnum
  dor_cash :: jsnum
  dor_remaining :: jsnum
  dor_known :: bool
  dor_terminal :: bool
  dor_p :: "jsnum option"
  dor_side :: "outcome_side option"

text \<open>\<open>Number(text)\<close> on the notation a \<open>NUMERIC\<close> column prints: a sign, digits, and digits after a point.\<close>

definition num_of_text :: "string \<Rightarrow> jsnum" where
  "num_of_text s =
     (let t = trim_str s; neg = (t \<noteq> [] \<and> hd t = CHR ''-''); u = (if neg then tl t else t);
          whole = takeWhile is_digit u; rest = dropWhile is_digit u; frac = (if rest = [] then [] else tl rest)
      in if t = [] then Fin 0
         else if whole = [] \<or> (rest \<noteq> [] \<and> (hd rest \<noteq> CHR ''.'' \<or> \<not> list_all is_digit frac)) then NaN
         else case parse_digits 10 0 (whole @ frac) of
             None \<Rightarrow> NaN
           | Some n \<Rightarrow> fl ((if neg then -1 else 1) * of_int n / 10 ^ length frac))"

definition baseToUnits :: "string option \<Rightarrow> jsnum" where
  "baseToUnits raw =
     (case raw of
        None \<Rightarrow> Fin 0
      | Some s \<Rightarrow>
          let whole = takeWhile (\<lambda>c. c \<noteq> CHR ''.'') (trim_str s)
          in if \<not> int_literal whole then Fin 0
             else case parse_bigint whole of
                 None \<Rightarrow> Fin 0
               | Some n \<Rightarrow>
                   num_mul (Fin (if n < 0 then -1 else 1))
                     (num_add (num_of_bigint (\<bar>n\<bar> div 1000000)) (num_div (num_of_bigint (\<bar>n\<bar> mod 1000000)) (Fin 1000000))))"

definition finiteNumber :: "string option \<Rightarrow> jsnum" where
  "finiteNumber raw =
     (case raw of
        None \<Rightarrow> Fin 0
      | Some s \<Rightarrow> if trim_str s = [] then Fin 0 else if is_finite_num (num_of_text s) then num_of_text s else Fin 0)"

definition durableOrderFromRow :: "durable_row \<Rightarrow> durable_order option" where
  "durableOrderFromRow r =
     (case (du_market r, du_order r) of
        (Some mid, Some oid) \<Rightarrow>
          if mid = [] \<or> oid = [] then None
          else let known = (du_reserved r \<noteq> None);
                   amount = (if known then baseToUnits (du_reserved r) else Fin 0);
                   pNum = (case du_p r of Some s \<Rightarrow> if s = [] then None else Some (num_of_text s) | None \<Rightarrow> None)
            in Some \<lparr>dor_market = mid, dor_order = oid, dor_price = finiteNumber (du_price r), dor_size = finiteNumber (du_size r),
                 dor_shares = baseToUnits (du_fill_shares r), dor_cash = baseToUnits (du_fill_cash r),
                 dor_remaining = num_max (Fin 0) (num_sub (num_sub amount (baseToUnits (du_consumed r))) (baseToUnits (du_released r))),
                 dor_known = known,
                 dor_terminal = (du_resolved r \<and> du_resolved_state r = Some DEFINITIVE_REJECT
                    \<or> du_status r \<in> {Some R_RELEASED, Some R_EXPIRED, Some R_CONSUMED}),
                 dor_p = (if finite_opt pNum then pNum else None), dor_side = du_side r\<rparr>
      | _ \<Rightarrow> None)"

definition merge_order :: "durable_order \<Rightarrow> durable_order \<Rightarrow> durable_order" where
  "merge_order prev new' = prev\<lparr>dor_remaining := num_add (dor_remaining prev) (dor_remaining new'),
     dor_known := (dor_known prev \<or> dor_known new'),
     dor_shares := (if num_lt (dor_shares prev) (dor_shares new') then dor_shares new' else dor_shares prev),
     dor_cash := (if num_lt (dor_cash prev) (dor_cash new') then dor_cash new' else dor_cash prev),
     dor_terminal := (dor_terminal prev \<or> dor_terminal new')\<rparr>"

definition collapse_row :: "durable_row \<Rightarrow> (string \<times> durable_order) list \<Rightarrow> (string \<times> durable_order) list" where
  "collapse_row r byId =
     (case durableOrderFromRow r of
        None \<Rightarrow> byId
      | Some parsed \<Rightarrow> map_set (dor_order parsed)
          (case map_of byId (dor_order parsed) of None \<Rightarrow> parsed | Some prev \<Rightarrow> merge_order prev parsed) byId)"

definition collapseDurableOrders :: "durable_row list \<Rightarrow> durable_order list" where
  "collapseDurableOrders rows = map snd (fold collapse_row rows [])"

definition filledNotionalUsd :: "durable_order \<Rightarrow> jsnum" where
  "filledNotionalUsd ord =
     (if is_finite_num (dor_cash ord) \<and> num_lt (Fin 0) (dor_cash ord) then dor_cash ord
      else if is_finite_num (dor_shares ord) \<and> num_lt (Fin 0) (dor_shares ord) \<and> price_ok (dor_price ord)
        then num_mul (dor_shares ord) (dor_price ord)
      else Fin 0)"

definition orderExposureUsd :: "durable_order \<Rightarrow> jsnum" where
  "orderExposureUsd ord =
     (let filled = filledNotionalUsd ord; reserved = positiveFinite (Some (dor_remaining ord)) in
      if dor_terminal ord then num_max (Fin 0) (num_add filled reserved)
      else if num_lt (Fin 0) reserved \<or> num_lt (Fin 0) filled then num_add filled reserved
      else if \<not> dor_known ord \<and> num_lt (Fin 0) (dor_size ord) \<and> num_lt (Fin 0) (dor_price ord) \<and> num_le (dor_price ord) (Fin 1)
        then num_mul (dor_price ord) (dor_size ord)
      else Fin 0)"

definition add_market :: "durable_order \<Rightarrow> tracker \<Rightarrow> tracker" where
  "add_market ord out =
     (let usd = orderExposureUsd ord in
      if dor_market ord = [] \<or> \<not> is_finite_num usd \<or> num_le usd (Fin 0) then out
      else map_set (dor_market ord) (num_add (exposureOf (dor_market ord) out) usd) out)"

definition exposureByMarket :: "durable_order list \<Rightarrow> tracker" where
  "exposureByMarket orders = fold add_market orders []"

definition incrementalFillPnl :: "jsnum \<Rightarrow> durable_order \<Rightarrow> jsnum" where
  "incrementalFillPnl previous ord =
     (let prev = positiveFinite (Some previous); now = positiveFinite (Some (dor_shares ord)); delta = num_sub now prev in
      if num_le delta (Fin 0) then Fin 0
      else case (dor_p ord, dor_side ord) of
        (Some p, Some side) \<Rightarrow>
          if \<not> is_finite_num p \<or> num_le p (Fin 0) \<or> num_le (Fin 1) p then Fin 0
          else let price = (if num_lt (Fin 0) now \<and> num_lt (Fin 0) (dor_cash ord) then Some (num_div (dor_cash ord) now)
                            else if num_lt (Fin 0) (dor_price ord) \<and> num_le (dor_price ord) (Fin 1) then Some (dor_price ord) else None)
            in (case price of
                  None \<Rightarrow> Fin 0
                | Some fillPrice \<Rightarrow>
                    if \<not> price_ok fillPrice then Fin 0
                    else sessionPnlFromFill p side \<lparr>lf_status = PARTIAL, lf_size = delta, lf_price = fillPrice, lf_maker = Fin 0,
                           lf_taker = num_mul delta (clobTakerFeePerShare fillPrice LIVE_TAKER_FEE_THETA), lf_model = Fee_theta\<rparr>)
      | _ \<Rightarrow> Fin 0)"

record exposure_book =
  eb_shares :: "(string \<times> jsnum) list"
  eb_baselined :: bool
  eb_stepped :: bool

definition booked :: "string \<Rightarrow> (string \<times> jsnum) list \<Rightarrow> jsnum" where
  "booked oid b = (case map_of b oid of None \<Rightarrow> Fin 0 | Some n \<Rightarrow> n)"

definition book_fill :: "durable_order \<Rightarrow> (string \<times> jsnum) list \<times> jsnum \<Rightarrow> (string \<times> jsnum) list \<times> jsnum" where
  "book_fill ord acc =
     (case acc of (b, pnl) \<Rightarrow>
        let prev = booked (dor_order ord) b; delta = incrementalFillPnl prev ord
        in ((if num_lt prev (dor_shares ord) then map_set (dor_order ord) (dor_shares ord) b else b),
            (if is_finite_num delta \<and> delta \<noteq> Fin 0 then num_add pnl delta else pnl)))"

definition cold_fill :: "durable_order \<Rightarrow> (string \<times> jsnum) list \<Rightarrow> (string \<times> jsnum) list" where
  "cold_fill ord b = (if num_lt (Fin 0) (dor_shares ord) then map_set (dor_order ord) (dor_shares ord) b else b)"

type_synonym exposure_state = "exposure_book \<times> tracker \<times> step_metrics"

definition applyDurableExposure :: "durable_order list \<Rightarrow> exposure_state \<Rightarrow> exposure_state" where
  "applyDurableExposure orders s =
     (case s of (book, t, m) \<Rightarrow>
        let cold = \<not> eb_baselined book \<and> \<not> eb_stepped book;
            res = (if cold then (fold cold_fill orders (eb_shares book), Fin 0)
                   else fold book_fill orders (eb_shares book, Fin 0));
            t' = replaceAll (exposureByMarket orders);
            m1 = (if \<not> cold \<and> snd res \<noteq> Fin 0 then m\<lparr>sm_pnl := num_add (sm_pnl m) (snd res)\<rparr> else m)
        in (book\<lparr>eb_shares := fst res, eb_baselined := True\<rparr>, t', publish_exposure t' m1))"

text \<open>The load: not wired, a throw or \<open>null\<close> is \<open>None\<close>. The reconciliation before it is a call to the executor and
  changes neither book nor tracker.\<close>

definition syncDurableExposure :: "durable_row list option \<Rightarrow> exposure_state \<Rightarrow> exposure_state" where
  "syncDurableExposure rows s =
     (case rows of None \<Rightarrow> s | Some rs \<Rightarrow> applyDurableExposure (collapseDurableOrders rs) s)"

section \<open>Selection\<close>

lemma mset_insert_desc: "mset (insert_desc f x ys) = add_mset x (mset ys)"
  by (induction ys) auto

lemma mset_sort_desc: "mset (sort_desc f xs) = mset xs"
  by (induction xs) (simp_all add: sort_desc_def mset_insert_desc)

lemma set_insert_desc: "set (insert_desc f x ys) = insert x (set ys)"
  by (induction ys) auto

definition descending :: "('a \<Rightarrow> jsnum) \<Rightarrow> 'a list \<Rightarrow> bool" where
  "descending f xs \<longleftrightarrow> sorted_wrt (\<lambda>x y. num_le (f y) (f x)) xs"

lemma insert_desc_sorted:
  "descending f ys \<Longrightarrow> f x \<noteq> NaN \<Longrightarrow> \<forall>y \<in> set ys. f y \<noteq> NaN \<Longrightarrow> descending f (insert_desc f x ys)"
proof (induction ys)
  case (Cons y ys)
  show ?case
  proof (cases "num_lt (f x) (f y)")
    case True
    with Cons show ?thesis by (auto simp: descending_def set_insert_desc intro: num_lt_imp_le)
  next
    case False
    with Cons.prems num_le_linear [of "f y" "f x"] have "num_le (f y) (f x)" by auto
    with Cons.prems False show ?thesis by (auto simp: descending_def intro: num_le_trans)
  qed
qed (simp add: descending_def)

lemma sort_desc_sorted: "\<forall>x \<in> set xs. f x \<noteq> NaN \<Longrightarrow> descending f (sort_desc f xs)"
proof (induction xs)
  case (Cons x xs)
  have "set (sort_desc f xs) = set xs" by (metis mset_sort_desc set_mset_mset)
  with Cons show ?case by (simp add: sort_desc_def insert_desc_sorted)
qed (simp add: sort_desc_def descending_def)

text \<open>Scores are never NaN, so the order of a pass is total.\<close>

lemma finite_opt_Some: "finite_opt x \<longleftrightarrow> (\<exists>q. x = Some (Fin q))"
  by (cases x) (auto simp: finite_opt_def elim: is_finite_num.elims)

lemma scoreOpportunity_not_NaN: "scoreOpportunity e p \<noteq> NaN"
proof (cases "finite_opt e")
  case True
  then obtain a where a: "e = Some (Fin a)" by (auto simp: finite_opt_Some)
  have clamp: "is_finite_num (num_min (num_max x (Fin 0)) (Fin 1))" if "x \<noteq> NaN" for x
    using that by (cases x) (auto simp: num_min_def num_max_def)
  have "num_mul (num_abs (num_sub (Fin q) (Fin (1 / 2)))) (Fin 2) \<noteq> NaN" for q
  proof -
    have "num_abs (num_sub (Fin q) (Fin (1 / 2))) \<noteq> NaN" by (simp add: num_abs_def num_sub_def)
      (metis fl_not_NaN jsnum.distinct(1,3,5) num_neg.elims)
    then show ?thesis by (cases "num_abs (num_sub (Fin q) (Fin (1 / 2)))") (simp_all add: inf_of_sign_def)
  qed
  note fin = clamp [OF this]
  show ?thesis
  proof (cases "finite_opt p")
    case True
    then obtain q where "p = Some (Fin q)" by (auto simp: finite_opt_Some)
    with a fin [of q] show ?thesis
      by (auto simp: scoreOpportunity_def finite_opt_def elim!: is_finite_num.elims)
  qed (simp add: scoreOpportunity_def a finite_opt_def)
qed (simp add: scoreOpportunity_def)

lemma select_cases:
  assumes "\<forall>m r. memory m = Some r \<longrightarrow> rm_score r \<noteq> NaN"
    and "selectMarketsForPass memory ids k now stale = (sel, deferred)"
  shows "mset (sel @ deferred) = mset ids"
    and "memory \<noteq> Map.empty \<Longrightarrow> length sel = min (pass_limit k (length ids)) (length ids)"
    and "\<forall>x \<in> set sel. \<forall>y \<in> set deferred. num_le (pass_score memory now stale y) (pass_score memory now stale x)"
proof -
  let ?f = "pass_score memory now stale" and ?l = "pass_limit k (length ids)"
  let ?r = "sort_desc ?f ids"
  have nn: "?f x \<noteq> NaN" for x using assms(1) by (auto simp: pass_score_def split: option.splits)
  have len: "length ?r = length ids" by (metis mset_sort_desc size_mset)
  have desc: "descending ?f (take ?l ?r @ drop ?l ?r)" using sort_desc_sorted [of ids ?f] nn by simp
  then have apart: "\<forall>x \<in> set (take ?l ?r). \<forall>y \<in> set (drop ?l ?r). num_le (?f y) (?f x)"
    unfolding descending_def sorted_wrt_append by blast
  show "mset (sel @ deferred) = mset ids"
    using assms(2) mset_sort_desc [of ?f ids] by (auto simp: selectMarketsForPass_def Let_def simp flip: mset_append split: if_splits)
  show "memory \<noteq> Map.empty \<Longrightarrow> length sel = min ?l (length ids)"
    using assms(2) len by (auto simp: selectMarketsForPass_def Let_def split: if_splits)
  show "\<forall>x \<in> set sel. \<forall>y \<in> set deferred. num_le (?f y) (?f x)"
    using assms(2) apart by (auto simp: selectMarketsForPass_def Let_def split: if_splits)
qed

section \<open>The tracker\<close>

lemma all_map_set: "\<forall>x \<in> set es. P (snd x) \<Longrightarrow> P v \<Longrightarrow> \<forall>x \<in> set (map_set k v es). P (snd x)"
proof (induction es)
  case (Cons e es)
  then show ?case by (cases e) simp
qed simp

definition amount_ok :: "jsnum \<Rightarrow> bool" where
  "amount_ok v \<longleftrightarrow> is_double v \<and> num_lt (Fin 0) v"

definition tracker_ok :: "tracker \<Rightarrow> bool" where
  "tracker_ok t \<longleftrightarrow> distinct (map fst t) \<and> (\<forall>x \<in> set t. amount_ok (snd x))"

lemma tracker_ok_map_set: "tracker_ok t \<Longrightarrow> amount_ok v \<Longrightarrow> tracker_ok (map_set k v t)"
  using all_map_set [of t amount_ok v k] by (simp add: tracker_ok_def keys_map_set)

lemma exposureOf_cases:
  assumes "tracker_ok t"
  obtains "map_of t tok = None" "exposureOf tok t = Fin 0"
    | v where "map_of t tok = Some v" "exposureOf tok t = v" "amount_ok v" "v \<in> set (map snd t)"
  using assms by (cases "map_of t tok") (force simp: exposureOf_def tracker_ok_def dest: map_of_SomeD)+

lemma exposureOf_ok: "tracker_ok t \<Longrightarrow> is_double (exposureOf tok t) \<and> num_le (Fin 0) (exposureOf tok t)"
  by (erule exposureOf_cases [of t tok]) (simp_all add: amount_ok_def num_lt_imp_le representable_def fl_def)

lemma exposureOf_set [simp]: "exposureOf tok (map_set k v t) = (if tok = k then v else exposureOf tok t)"
  by (simp add: exposureOf_def map_of_map_set)

lemma amount_ok_add:
  assumes "tracker_ok t" and "amount_ok n"
  shows "amount_ok (num_add (exposureOf tok t) n)" and "num_le (exposureOf tok t) (num_add (exposureOf tok t) n)"
    and "num_le n (num_add (exposureOf tok t) n)"
proof -
  note e = exposureOf_ok [OF assms(1), of tok]
  have n: "is_double n" "num_le (Fin 0) n" "num_lt (Fin 0) n" using assms(2) by (auto simp: amount_ok_def num_lt_imp_le)
  show "num_le (exposureOf tok t) (num_add (exposureOf tok t) n)" using e n by (intro num_add_ge) simp_all
  show ge: "num_le n (num_add (exposureOf tok t) n)" using e n num_add_ge [of n "exposureOf tok t"] by (simp add: num_add_commute)
  show "amount_ok (num_add (exposureOf tok t) n)" using e n num_lt_le_trans [OF n(3) ge] by (simp add: amount_ok_def)
qed

lemma notional_ok_amount: "notional_ok tok n \<Longrightarrow> is_double n \<Longrightarrow> amount_ok n"
  by (cases n) (auto simp: notional_ok_def amount_ok_def num_le_def)

lemma tracker_ok_add: "tracker_ok t \<Longrightarrow> is_double n \<Longrightarrow> tracker_ok (tracker_add tok n t)"
  by (simp add: tracker_add_def tracker_ok_map_set amount_ok_add notional_ok_amount)

lemma tracker_ok_filter: "tracker_ok t \<Longrightarrow> tracker_ok (filter P t)"
  by (auto simp: tracker_ok_def distinct_map_filter)

text \<open>Settled tokens leave, the others keep what they have.\<close>

lemma map_of_None_filter: "map_of t tok = None \<Longrightarrow> filter (\<lambda>e. fst e \<noteq> tok) t = t"
  by (induction t) (auto split: if_splits)

lemma tracker_resolve_snd: "snd (tracker_resolve toks t) = filter (\<lambda>e. fst e \<notin> set toks) t"
proof (induction toks arbitrary: t)
  case (Cons tok toks)
  have "snd (tracker_resolve (tok # toks) t) = snd (tracker_resolve toks (filter (\<lambda>e. fst e \<noteq> tok) t))"
    by (auto simp: map_of_None_filter split: option.splits prod.splits)
  with Cons.IH show ?case by (simp add: conj_commute)
qed simp

lemma tracker_ok_resolve: "tracker_ok t \<Longrightarrow> tracker_ok (snd (tracker_resolve toks t))"
  by (simp add: tracker_resolve_snd tracker_ok_filter)

lemma exposureOf_resolve:
  "exposureOf tok (snd (tracker_resolve toks t)) = (if tok \<in> set toks then Fin 0 else exposureOf tok t)"
proof -
  have "map_of (filter (\<lambda>e. fst e \<notin> set toks) t) tok = (if tok \<in> set toks then None else map_of t tok)"
    by (induction t) auto
  then show ?thesis by (simp add: exposureOf_def tracker_resolve_snd)
qed

text \<open>The sum of non-negative doubles is at least each of them.\<close>

lemma num_sum_ge:
  "is_double acc \<Longrightarrow> num_le (Fin 0) acc \<Longrightarrow> \<forall>v \<in> set xs. is_double v \<and> num_le (Fin 0) v \<Longrightarrow>
     is_double (fold (\<lambda>v s. num_add s v) xs acc) \<and> num_le acc (fold (\<lambda>v s. num_add s v) xs acc)
     \<and> (\<forall>v \<in> set xs. num_le v (fold (\<lambda>v s. num_add s v) xs acc))"
proof (induction xs arbitrary: acc)
  case (Cons x xs)
  have x: "is_double x" "num_le (Fin 0) x" using Cons.prems(3) by simp_all
  have acc: "num_le acc (num_add acc x)" "num_le x (num_add acc x)"
    using Cons.prems x num_add_ge [of acc x] num_add_ge [of x acc] by (simp_all add: num_add_commute)
  have "num_le (Fin 0) (num_add acc x)" using Cons.prems(2) acc(1) by (rule num_le_trans)
  with Cons.IH [of "num_add acc x"] Cons.prems x have ih:
    "is_double (fold (\<lambda>v s. num_add s v) xs (num_add acc x))"
    "num_le (num_add acc x) (fold (\<lambda>v s. num_add s v) xs (num_add acc x))"
    "\<forall>v \<in> set xs. num_le v (fold (\<lambda>v s. num_add s v) xs (num_add acc x))" by auto
  then show ?case using acc num_le_trans by auto
next
  case Nil
  then show ?case by (cases acc) simp_all
qed

lemma tracker_total_ge: "tracker_ok t \<Longrightarrow> num_le (exposureOf tok t) (tracker_total t) \<and> is_double (tracker_total t)"
proof -
  assume ok: "tracker_ok t"
  have all: "\<forall>v \<in> set (map snd t). is_double v \<and> num_le (Fin 0) v"
    using ok by (auto simp: tracker_ok_def amount_ok_def num_lt_imp_le)
  have "num_le (Fin 0) (Fin 0)" by simp
  note sum = num_sum_ge [OF is_double_0 this all]
  from ok show ?thesis
    by (cases rule: exposureOf_cases [of t tok]) (use sum in \<open>auto simp: tracker_total_def num_sum_def\<close>)
qed

section \<open>What a booked order does to the next cap check\<close>

lemma positiveFinite_of: "is_finite_num n \<Longrightarrow> num_le (Fin 0) n \<Longrightarrow> positiveFinite (Some n) = n"
  by (cases n) (auto simp: positiveFinite_def)

lemma positiveFinite_not_NaN [simp]: "positiveFinite x \<noteq> NaN"
  by (auto simp: positiveFinite_def split: option.splits)

lemma combineExposure_ge:
  assumes "is_finite_num n" and "num_le (Fin 0) n"
  shows "num_le n (combineExposure supplied n)"
proof -
  have "n \<noteq> NaN" using assms(1) by auto
  with num_max_ge [of "positiveFinite supplied" n] show ?thesis by (simp add: combineExposure_def positiveFinite_of [OF assms])
qed

lemma num_le_finite: "num_le (Fin 0) x \<Longrightarrow> num_le x y \<Longrightarrow> is_finite_num y \<Longrightarrow> is_finite_num x"
  by (cases x; cases y) simp_all

lemma exposureForStep_ge:
  assumes "tracker_ok t" and "is_finite_num (tracker_total t)"
  shows "num_le (exposureOf mid t) (fst (exposureForStep t mid sp sm)) \<and> num_le (exposureOf mid t) (snd (exposureForStep t mid sp sm))
     \<and> num_le (tracker_total t) (fst (exposureForStep t mid sp sm))"
proof -
  note e = exposureOf_ok [OF assms(1), of mid] and total = tracker_total_ge [OF assms(1), of mid]
  have tot0: "num_le (Fin 0) (tracker_total t)" using e total num_le_trans by blast
  have fin: "is_finite_num (exposureOf mid t)" using e total assms(2) num_le_finite by blast
  have "num_le (tracker_total t) (combineExposure sp (tracker_total t))" using assms(2) tot0 by (rule combineExposure_ge)
  moreover have "num_le (exposureOf mid t) (combineExposure sm (exposureOf mid t))"
    using fin e by (intro combineExposure_ge) simp_all
  ultimately show ?thesis using total num_le_trans by (auto simp: exposureForStep_def)
qed

text \<open>A submitted order counts against the caps of every later step: once a step has booked an exposure, the portfolio and
  the market exposure that the next step is given are at least that exposure, whatever the caller supplies, every other
  market keeps what it had, and the books stay in order. Nothing but settlement takes it out again.\<close>

theorem booked_exposure_counts:
  assumes "tracker_ok t" and "amount_ok x" and "is_finite_num x" and "sb_exposure b = Some x"
    and "accountAfterStep mid b (t, m) = (t', m')" and "mid \<noteq> []" and "is_finite_num (tracker_total t')"
  shows "tracker_ok t' \<and> num_le x (fst (exposureForStep t' mid sp sm)) \<and> num_le x (snd (exposureForStep t' mid sp sm))
     \<and> (\<forall>mid'. num_le (exposureOf mid' t) (exposureOf mid' t')) \<and> sm_exposure m' = tracker_total t'
     \<and> (\<forall>toks. exposureOf mid (snd (tracker_resolve toks t')) = (if mid \<in> set toks then Fin 0 else exposureOf mid t'))"
proof -
  have pos: "num_lt (Fin 0) x" "is_double x" using assms(2) by (simp_all add: amount_ok_def)
  then have ok: "notional_ok mid x" using assms(3,6) by (simp add: notional_ok_def num_le_not_lt)
  have t': "t' = tracker_add mid x t" and m': "sm_exposure m' = tracker_total t'"
    using assms(3-5) pos by (auto simp: accountAfterStep_def Let_def publish_exposure_def)
  have t'2: "t' = map_set mid (num_add (exposureOf mid t) x) t" using ok by (simp add: t' tracker_add_def)
  have inv: "tracker_ok t'" unfolding t' using assms(1) pos(2) by (rule tracker_ok_add)
  have x: "num_le x (exposureOf mid t')" using amount_ok_add(3) [OF assms(1,2), of mid] by (simp add: t'2)
  have keep: "num_le (exposureOf mid' t) (exposureOf mid' t')" for mid'
    using amount_ok_add(2) [OF assms(1,2), of mid] exposureOf_ok [OF assms(1), of mid']
    by (cases "exposureOf mid' t") (auto simp: t'2)
  show ?thesis
    using inv keep m' exposureForStep_ge [OF inv assms(7), of mid sp sm] num_le_trans [OF x] by (auto simp: exposureOf_resolve)
qed

theorem booked_exposure_counts_witness:
  "num_le (Fin 5) (fst (exposureForStep (tracker_add ''m1'' (Fin 5) []) ''m1'' None None))"
proof -
  define m where "m = \<lparr>sm_orders = 0, sm_filled = 0, sm_pnl = Fin 0, sm_fees = Fin 0, sm_fill_ratio = Fin 0, sm_exposure = Fin 0,
    sm_max_exposure = Fin 0\<rparr>"
  define b where "b = \<lparr>sb_fill = None, sb_pnl = None, sb_exposure = Some (Fin 5)\<rparr>"
  have five: "fl 5 = Fin 5" by (simp add: num_eval)
  have "tracker_ok []" "amount_ok (Fin 5)" "is_finite_num (Fin 5)" "sb_exposure b = Some (Fin 5)"
    by (simp_all add: tracker_ok_def amount_ok_def representable_def five b_def)
  moreover obtain m' where "accountAfterStep ''m1'' b ([], m) = (tracker_add ''m1'' (Fin 5) [], m')"
    by (simp add: accountAfterStep_def Let_def b_def)
  moreover have "is_finite_num (tracker_total (tracker_add ''m1'' (Fin 5) []))"
    by (simp add: tracker_add_def notional_ok_def exposureOf_def tracker_total_def num_sum_def five)
  ultimately show ?thesis using booked_exposure_counts [of "[]" "Fin 5" b "''m1''" m _ m'] by blast
qed

text \<open>The allocator stays within the owner's ceiling and wastes none of it: selected and deferred markets are exactly the
  inputs, the number evaluated is the ceiling (all of them only on the first pass or when they fit), and no deferred market
  has a better score than a selected one.\<close>

theorem selection_takes_the_best:
  assumes "\<forall>m r. memory m = Some r \<longrightarrow> rm_score r \<noteq> NaN"
    and "selectMarketsForPass memory ids k now stale = (sel, deferred)"
  shows "mset (sel @ deferred) = mset ids \<and> length sel = (if memory = Map.empty then length ids else min (pass_limit k (length ids)) (length ids))
     \<and> (\<forall>x \<in> set sel. \<forall>y \<in> set deferred. num_le (pass_score memory now stale y) (pass_score memory now stale x))"
proof (intro conjI)
  show "length sel = (if memory = Map.empty then length ids else min (pass_limit k (length ids)) (length ids))"
    using select_cases(2) [OF assms] assms(2) by (auto simp: selectMarketsForPass_def Let_def)
qed (rule select_cases [OF assms])+

theorem selection_takes_the_best_witness:
  "mset [''b'', ''a''] = mset [''a'', ''b''] \<and> length [''b''] = (1::nat)"
proof -
  let ?memory = "[''a'' \<mapsto> \<lparr>rm_score = NegInf, rm_at = 0\<rparr>]"
  have "\<forall>m r. ?memory m = Some r \<longrightarrow> rm_score r \<noteq> NaN" by (simp split: if_splits)
  moreover have "selectMarketsForPass ?memory [''a'', ''b''] (Fin 1) 0 600000 = ([''b''], [''a''])"
    by (simp add: selectMarketsForPass_def Let_def pass_limit_def sort_desc_def pass_score_def)
  ultimately show ?thesis using selection_takes_the_best by force
qed

text \<open>The first pass has no scores and evaluates every market, whatever the ceiling.\<close>

lemma warmup_ignores_ceiling: "selectMarketsForPass Map.empty ids k now stale = (ids, [])"
  by (simp add: selectMarketsForPass_def)

section \<open>The durable snapshot\<close>

text \<open>What the snapshot says of a market: the sum of its orders that count.\<close>

definition counted :: "string \<Rightarrow> durable_order \<Rightarrow> bool" where
  "counted mid ord \<longleftrightarrow> dor_market ord = mid \<and> mid \<noteq> [] \<and> is_finite_num (orderExposureUsd ord) \<and> num_lt (Fin 0) (orderExposureUsd ord)"

lemma not_le_0: "is_finite_num x \<Longrightarrow> num_le x (Fin 0) \<longleftrightarrow> \<not> num_lt (Fin 0) x"
  by (cases x) (auto simp: num_le_def)

lemma exposureOf_add_market:
  "exposureOf mid (add_market ord t) = (if counted mid ord then num_add (exposureOf mid t) (orderExposureUsd ord) else exposureOf mid t)"
  by (auto simp: add_market_def Let_def counted_def not_le_0)

lemma exposureOf_fold_market:
  "exposureOf mid (fold add_market orders t)
     = fold (\<lambda>v s. num_add s v) (map orderExposureUsd (filter (counted mid) orders)) (exposureOf mid t)"
  by (induction orders arbitrary: t) (simp_all add: exposureOf_add_market)

lemma exposureByMarket_sum: "exposureOf mid (exposureByMarket orders) = num_sum (map orderExposureUsd (filter (counted mid) orders))"
  unfolding exposureByMarket_def exposureOf_fold_market num_sum_def by (simp add: exposureOf_def)

lemma distinct_add_market: "distinct (map fst t) \<Longrightarrow> distinct (map fst (add_market ord t))"
  by (simp add: add_market_def Let_def keys_map_set)

lemma distinct_exposureByMarket: "distinct (map fst (exposureByMarket orders))"
proof -
  have "distinct (map fst (fold add_market orders t))" if "distinct (map fst t)" for t
    using that by (induction orders arbitrary: t) (simp_all add: distinct_add_market)
  then show ?thesis by (simp add: exposureByMarket_def)
qed

lemma replaceAll_distinct: "distinct (map fst es) \<Longrightarrow> replaceAll es = filter (\<lambda>e. notional_ok (fst e) (snd e)) es"
proof -
  have "fold (\<lambda>(tok, n) t. if notional_ok tok n then map_set tok n t else t) es t
      = t @ filter (\<lambda>e. notional_ok (fst e) (snd e)) es"
    if "distinct (map fst (t @ es))" for t
    using that
  proof (induction es arbitrary: t)
    case (Cons e es)
    show ?case
    proof (cases "notional_ok (fst e) (snd e)")
      case True
      then have "fold (\<lambda>(tok, n) t. if notional_ok tok n then map_set tok n t else t) (e # es) t
          = fold (\<lambda>(tok, n) t. if notional_ok tok n then map_set tok n t else t) es (t @ [e])"
        using Cons.prems by (cases e) (simp add: map_set_fresh)
      with Cons.IH [of "t @ [e]"] Cons.prems True show ?thesis by simp
    next
      case False
      with Cons.IH [of t] Cons.prems show ?thesis by (cases e) simp
    qed
  qed simp
  then show "distinct (map fst es) \<Longrightarrow> ?thesis" by (simp add: replaceAll_def)
qed

lemma exposureOf_filter:
  "distinct (map fst es) \<Longrightarrow> exposureOf k (filter (\<lambda>e. notional_ok (fst e) (snd e)) es)
     = (if notional_ok k (exposureOf k es) then exposureOf k es else Fin 0)"
proof (induction es)
  case (Cons e es)
  have "map_of es (fst e) = None" "map_of (filter (\<lambda>e. notional_ok (fst e) (snd e)) es) (fst e) = None"
    using Cons.prems by (auto simp: map_of_eq_None_iff image_iff)
  with Cons show ?case by (cases e) (auto simp: exposureOf_def)
qed (simp add: exposureOf_def)

lemma replaced_exposure:
  "exposureOf mid (replaceAll (exposureByMarket orders))
     = (let s = num_sum (map orderExposureUsd (filter (counted mid) orders)) in if notional_ok mid s then s else Fin 0)"
  by (simp add: replaceAll_distinct [OF distinct_exposureByMarket] exposureOf_filter [OF distinct_exposureByMarket] exposureByMarket_sum Let_def)

text \<open>C35. After a restart or a reconciliation the tracker is the durable state and nothing else: a snapshot that can be read gives
  every market the sum of the exposures of its orders that are still at risk, whatever the tracker held before, and
  one that cannot be read leaves the books as they are. A cold start moves no session profit.\<close>

theorem snapshot_restores_exposure:
  "case (syncDurableExposure rows (book, t, m), rows) of
     (s', None) \<Rightarrow> s' = (book, t, m)
   | ((book', t', m'), Some rs) \<Rightarrow>
       (\<forall>mid. exposureOf mid t' = (let s = num_sum (map orderExposureUsd (filter (counted mid) (collapseDurableOrders rs)))
                                   in if notional_ok mid s then s else Fin 0))
       \<and> sm_exposure m' = tracker_total t'
       \<and> (if eb_baselined book \<or> eb_stepped book then eb_baselined book' else sm_pnl m' = sm_pnl m)"
  by (auto simp: syncDurableExposure_def applyDurableExposure_def Let_def replaced_exposure publish_exposure_def
      split: option.splits prod.splits)

text \<open>A fill that is already booked moves no session profit again.\<close>

lemma fl_le_0: "q \<le> 0 \<Longrightarrow> num_le (fl q) (Fin 0)"
  using fl_mono [of q 0] by (simp add: fl_def)

lemma booked_fill_no_pnl:
  "is_finite_num prev \<Longrightarrow> is_finite_num (dor_shares ord) \<Longrightarrow> \<not> num_lt prev (dor_shares ord) \<Longrightarrow> incrementalFillPnl prev ord = Fin 0"
  by (cases prev; cases "dor_shares ord") (auto simp: incrementalFillPnl_def Let_def positiveFinite_def num_sub_def fl_le_0)

lemma book_fill_booked:
  "is_finite_num (booked (dor_order ord) b) \<Longrightarrow> is_finite_num (dor_shares ord) \<Longrightarrow> \<not> num_lt (booked (dor_order ord) b) (dor_shares ord) \<Longrightarrow>
     book_fill ord (b, pnl) = (b, pnl)"
  by (simp add: book_fill_def Let_def booked_fill_no_pnl)

text \<open>Kelly sizing stays at or below the largest size and buys nothing without an edge.\<close>

lemma kellyShares_bounds:
  assumes "kellyShares i \<noteq> Fin 0" and "kellyShares i \<noteq> NaN"
  shows "num_le (kellyShares i) (num_max (ky_max i) (ky_min i)) \<and> num_lt (ky_price i) (ky_p i)"
proof -
  let ?f = "kellyFraction (ky_p i) (ky_price i) (ky_fraction i)"
  let ?s = "math_floor (num_div (num_mul ?f (ky_bankroll i)) (ky_price i))"
  have f: "\<not> num_le ?f (Fin 0)" and k: "kellyShares i = num_min ?s (num_max (ky_max i) (ky_min i))"
    using assms(1) by (auto simp: kellyShares_def Let_def split: if_splits)
  have "?f \<noteq> Fin 0" using f by auto
  then have edge: "num_lt (ky_price i) (ky_p i)"
    by (auto simp: kellyFraction_def Let_def num_le_not_lt split: if_splits)
  have "?s \<noteq> NaN" "num_max (ky_max i) (ky_min i) \<noteq> NaN" using assms(2) k by (auto simp only: num_min_not_NaN)
  then have "num_le (num_min ?s (num_max (ky_max i) (ky_min i))) (num_max (ky_max i) (ky_min i))" using num_min_le by blast
  with k edge show ?thesis by simp
qed

end
