(* ===== verification/LiveStep.thy ===== *)
theory LiveStep
  imports Orchestrator LossGuard Portfolio MoneySystem
begin

text \<open>
  One step of the live loop: \<open>executeG4Step\<close> and the guards it uses (\<open>src/pm/runtime/src/g4-core.ts\<close>), the release of a
  reservation that was not submitted (\<open>live-accounting.ts\<close>) and the sizing that \<open>main.ts\<close> wires in. It runs over
  the executor's world and the row of the loss latch; risk gate, builder, executor and accounting are the
  models of their own theories. The only mode of the loop is LIVE. The venue mode is read several times in
  a step and is taken as constant during it.
\<close>

section \<open>The guards on the book\<close>

datatype market_regime = DUST | TIGHT_CONSENSUS | CONTESTED | Regime_NORMAL

definition classifyRegime :: "jsnum \<Rightarrow> jsnum \<Rightarrow> market_regime" where
  "classifyRegime bid ask =
     (let mid = num_div (num_add bid ask) (Fin 2);
          spread = num_div (math_round (num_mul (num_abs (num_sub ask bid)) (Fin 10000))) (Fin 10000)
      in if num_le mid (fl (2 / 100)) \<or> num_le (fl (98 / 100)) mid then DUST
         else if num_le spread (fl (1 / 100)) then TIGHT_CONSENSUS
         else if num_lt (num_abs (num_sub mid (Fin (1 / 2)))) (fl (1 / 10)) then CONTESTED
         else Regime_NORMAL)"

definition resolveEdgeFloor :: "jsnum \<Rightarrow> jsnum \<Rightarrow> jsnum \<Rightarrow> jsnum" where
  "resolveEdgeFloor baseMinEdge spread guardPremium =
     (let base = (if is_finite_num baseMinEdge \<and> num_lt (Fin 0) baseMinEdge then baseMinEdge else fl (3 / 100));
          addon = num_min (num_mul (num_max spread (Fin 0)) (Fin (1 / 2))) (fl (5 / 100));
          guard = (if is_finite_num guardPremium \<and> num_lt (Fin 0) guardPremium then guardPremium else Fin 0)
      in num_div (math_round (num_mul (num_add (num_add base addon) guard) (Fin 10000))) (Fin 10000))"

definition flbExtremePremium :: "jsnum \<Rightarrow> jsnum" where
  "flbExtremePremium touchPrice =
     (if \<not> is_finite_num touchPrice then Fin 0
      else if num_lt touchPrice (fl (1 / 10)) \<or> num_lt (fl (9 / 10)) touchPrice then fl (2 / 100) else Fin 0)"

definition expiryEdgePremium :: "jsnum option \<Rightarrow> jsnum" where
  "expiryEdgePremium days =
     (case days of
        None \<Rightarrow> Fin 0
      | Some d \<Rightarrow>
          if \<not> is_finite_num d \<or> num_lt d (Fin 0) then Fin 0
          else if num_lt (Fin 30) d then fl (1 / 100)
          else if num_le (Fin 7) d then fl (5 / 1000) else Fin 0)"

record smart_flow =
  sf_net :: jsnum
  sf_wallets :: jsnum
  sf_updated :: jsnum

text \<open>The premium; the note that goes with it is for display.\<close>

definition smartMoneyGuardPremium :: "smart_flow option \<Rightarrow> jsnum \<Rightarrow> jsnum" where
  "smartMoneyGuardPremium flow nowMs =
     (case flow of
        None \<Rightarrow> Fin 0
      | Some f \<Rightarrow>
          if \<not> is_finite_num (sf_net f) \<or> num_le (Fin 0) (sf_net f) then Fin 0
          else if \<not> is_finite_num (sf_wallets f) \<or> num_lt (sf_wallets f) (Fin 2) then Fin 0
          else if \<not> is_finite_num (sf_updated f) \<or> num_lt (Fin 1800000) (num_sub nowMs (sf_updated f)) then Fin 0
          else if num_lt (num_abs (sf_net f)) (Fin 1000) then Fin 0
          else fl (2 / 100))"

section \<open>The financial gate\<close>

datatype fin_gate = Fin_ALLOW | ENTRY_BLOCKED | FINANCIAL_BLOCKED

definition computeFinancialGate :: "venue_mode \<Rightarrow> jsnum option \<Rightarrow> bool \<Rightarrow> fin_gate" where
  "computeFinancialGate venue minEdgeAfterCost adm =
     (if \<not> adm then FINANCIAL_BLOCKED
      else if venue \<in> {Venue_UNAVAILABLE, Venue_UNKNOWN, Venue_READ_ONLY} then ENTRY_BLOCKED
      else if (case minEdgeAfterCost of None \<Rightarrow> False | Some m \<Rightarrow> num_lt (Fin (1 / 2)) m) then FINANCIAL_BLOCKED
      else Fin_ALLOW)"

section \<open>Giving a reservation back\<close>

definition permitCashBase :: "execution_permit \<Rightarrow> js_error + int option" where
  "permitCashBase p =
     (case max_cash_base p of
        Some c \<Rightarrow> if 0 < c then Inr (Some c)
          else if is_finite_num (max_cash p) \<and> num_lt (Fin 0) (max_cash p)
            then map_sum id Some (decimalToBase (max_cash p) 6) else Inr None
      | None \<Rightarrow> if is_finite_num (max_cash p) \<and> num_lt (Fin 0) (max_cash p)
            then map_sum id Some (decimalToBase (max_cash p) 6) else Inr None)"

text \<open>
  A failed release is logged and skipped. \<open>wired\<close>: \<open>deps.releaseReservation\<close> is there, as \<open>main.ts\<close> has it, the
  release of the reservation manager as CANCELLED.
\<close>

definition releaseUnsubmittedReservation ::
  "bool \<Rightarrow> string \<Rightarrow> world deps \<Rightarrow> execution_permit \<Rightarrow> (world, unit) eff" where
  "releaseUnsubmittedReservation wired funder D permit w =
     (let ids = filter (\<lambda>rid. rid \<noteq> '''') (p_reservation_ids permit) in
      if wired \<and> ids \<noteq> [] then each_caught (\<lambda>rid. d_rmRelease D rid Rel_CANCELLED) ids w
      else case permitCashBase permit of
        Inl e \<Rightarrow> (Inl (js_message e), w)
      | Inr None \<Rightarrow> (Inr (), w)
      | Inr (Some cash) \<Rightarrow> (Inr (), w\<lparr>wo_db := snd (kernel_release (funder, ''pUSD'') cash (wo_db w))\<rparr>))"

section \<open>The step\<close>

record step_config =
  sc_min_edge :: "jsnum option"
  sc_admitted :: bool
  sc_cap :: "jsnum option"
  sc_loss_cap :: "jsnum option"
  sc_size :: "jsnum \<Rightarrow> jsnum \<Rightarrow> jsnum \<Rightarrow> jsnum"
  sc_guard_wired :: bool
  sc_release_wired :: bool

record step_input =
  si_market :: string
  si_bid :: jsnum
  si_ask :: jsnum
  si_override :: "jsnum option option"
  si_side_no :: bool
  si_market_exposure :: "jsnum option"
  si_portfolio_exposure :: "jsnum option"
  si_days :: "jsnum option"

text \<open>What a step draws from its environment; a read or write of the guard store may throw, as may the forecast.\<close>

record step_env =
  se_call :: call_env
  se_forecast :: "string + jsnum option"
  se_flow :: "smart_flow option"
  se_gate_intent :: uuid
  se_build_intent :: uuid
  se_dedupe :: string
  se_loss :: "string + jsnum"
  se_save :: "string option"
  se_ack :: "order_result \<Rightarrow> jsnum option \<times> maker_taker option"

record live_world =
  lw_exec :: world
  lw_guard :: guard_row

datatype step_stage = At_Gate | At_Forecast | At_Regime | At_Edge | At_Size | At_Risk | At_Sign | At_Cap
  | At_Loss_Cap | At_Guard | At_Latch | At_Executor

datatype step_outcome = Step_SUBMITTED | Step_NEEDS_RECONCILIATION

record step_done =
  sd_outcome :: step_outcome
  sd_order :: uuid
  sd_permit :: uuid
  sd_fill :: "live_fill option"
  sd_pnl :: jsnum
  sd_exposure :: "jsnum option"
  sd_p :: jsnum
  sd_size :: jsnum

datatype step_result = No_Trade step_stage string | Bought step_done

definition uncertain :: "jsnum \<Rightarrow> bool" where
  "uncertain p \<longleftrightarrow> num_le p (fl (2 / 100)) \<or> num_le (fl (98 / 100)) p \<or>
     num_lt (num_abs (num_sub p (Fin (1 / 2)))) (fl (2 / 100))"

definition quoted_side :: "step_input \<Rightarrow> outcome_side" where
  "quoted_side inp = (if si_side_no inp then NO else YES)"

definition edge_floor :: "step_config \<Rightarrow> step_env \<Rightarrow> step_input \<Rightarrow> jsnum" where
  "edge_floor C E inp =
     resolveEdgeFloor (case sc_min_edge C of Some m \<Rightarrow> m | None \<Rightarrow> fl (3 / 100))
       (num_abs (num_sub (si_ask inp) (si_bid inp)))
       (num_add (num_add (flbExtremePremium (si_ask inp)) (expiryEdgePremium (si_days inp)))
          (smartMoneyGuardPremium (se_flow E) (Fin (of_int (ce_now (se_call E))))))"

definition step_edge :: "step_config \<Rightarrow> step_env \<Rightarrow> step_input \<Rightarrow> jsnum \<Rightarrow> edge_result" where
  "step_edge C E inp p =
     evaluateEdge \<lparr>f_calibrated = Some p, f_raw = None, f_yes = None\<rparr>
       \<lparr>bk_yes = (if si_side_no inp then None else Some (si_ask inp)),
        bk_no = (if si_side_no inp then Some (si_ask inp) else None), bk_fee_bps = Some (Fin 200)\<rparr>
       \<lparr>so_minEdge = edge_floor C E inp, so_takerFeeBps = None, so_feeTheta = Some (fl (5 / 100))\<rparr>"

definition step_intent :: "uuid \<Rightarrow> string \<Rightarrow> step_input \<Rightarrow> jsnum \<Rightarrow> edge_result \<Rightarrow> trade_intent" where
  "step_intent iid dedupe inp sz edge =
     \<lparr>ti_intent_id = iid, ti_dedupe_key = dedupe, ti_purpose = Purpose_ENTRY, ti_market_id = si_market inp,
      ti_side = Direction BUY, ti_desired_qty = Some sz, ti_desired_notional = None,
      ti_limit_price = Some (case er_price edge of Some r \<Rightarrow> r | None \<Rightarrow> si_ask inp), ti_price = None,
      ti_expiration_sec = Some (Fin 300), ti_order_type = None, ti_status = Intent_CREATED\<rparr>"

definition step_gate :: "pipeline \<Rightarrow> step_env \<Rightarrow> step_input \<Rightarrow> trade_intent \<Rightarrow> gate_input" where
  "step_gate P E inp i =
     \<lparr>g_intent = i, g_policy = pl_policy P, g_wallet = pl_wallet P, g_venue_mode = ce_mode (se_call E),
      g_lease_epoch = ce_epoch (se_call E), g_now = ce_now (se_call E), g_policy_hash = pl_policy_hash P,
      g_market_exposure = Some (case si_market_exposure inp of Some x \<Rightarrow> x | None \<Rightarrow> Fin 0),
      g_portfolio_exposure = Some (case si_portfolio_exposure inp of Some x \<Rightarrow> x | None \<Rightarrow> Fin 0),
      g_capital_basis = None\<rparr>"

text \<open>The checks between signing and submission, the reservation held: the refusal, a throw, or the latch's new row.\<close>

definition usable_cap :: "jsnum option \<Rightarrow> bool" where
  "usable_cap c = (case c of None \<Rightarrow> False | Some x \<Rightarrow> is_finite_num x \<and> \<not> num_le x (Fin 0))"

definition before_submit ::
  "step_config \<Rightarrow> step_env \<Rightarrow> step_input \<Rightarrow> jsnum \<Rightarrow> signed_order \<Rightarrow> guard_row \<Rightarrow>
     (string + (step_stage \<times> string) option) \<times> guard_row" where
  "before_submit C E inp sz ord g =
     (if \<not> usable_cap (sc_cap C) then (Inr (Some (At_Cap, ''LIVE_CAP_UNCONFIGURED'')), g)
      else if num_lt (the (sc_cap C)) (num_add (case si_portfolio_exposure inp of Some x \<Rightarrow> x | None \<Rightarrow> Fin 0) (num_mul sz (o_price ord)))
        then (Inr (Some (At_Cap, ''EXPOSURE_CAP_EXCEEDED'')), g)
      else if \<not> usable_cap (sc_loss_cap C) then (Inr (Some (At_Loss_Cap, ''LOSS_CAP_UNCONFIGURED'')), g)
      else if \<not> sc_guard_wired C then (Inr (Some (At_Guard, ''LIVE_GUARD_UNWIRED'')), g)
      else case se_loss E of
        Inl e \<Rightarrow> (Inl e, g)
      | Inr loss \<Rightarrow>
          let check = entry_check loss (the (sc_loss_cap C)) (ce_now (se_call E)) g
          in case se_save E of
               Some e \<Rightarrow> (Inl e, g)
             | None \<Rightarrow> (Inr (if fst check then None else Some (At_Latch, ''LOSS_GUARD'')), snd check))"

text \<open>\<open>abortReserved\<close>: the reservation is given back, then the refusal is returned.\<close>

definition abort_reserved ::
  "pipeline \<Rightarrow> step_config \<Rightarrow> world deps \<Rightarrow> execution_permit \<Rightarrow> step_stage \<Rightarrow> string \<Rightarrow> (live_world, step_result) eff" where
  "abort_reserved P C D permit stage reason w =
     (case releaseUnsubmittedReservation (sc_release_wired C) (w_funder (pl_wallet P)) D permit (lw_exec w) of
        (Inl e, x) \<Rightarrow> (Inl e, w\<lparr>lw_exec := x\<rparr>)
      | (Inr _, x) \<Rightarrow> (Inr (No_Trade stage reason), w\<lparr>lw_exec := x\<rparr>))"

definition booked_exposure :: "signed_order \<Rightarrow> live_fill option \<Rightarrow> jsnum option" where
  "booked_exposure ord fill =
     (let x = submitExposureUsd (o_size ord) (o_price ord) fill in if num_lt (Fin 0) x then Some x else None)"

text \<open>What the step reports of an order that went to the venue.\<close>

definition step_report ::
  "step_env \<Rightarrow> step_input \<Rightarrow> jsnum \<Rightarrow> jsnum \<Rightarrow> signed_order \<Rightarrow> execution_permit \<Rightarrow> order_result option \<Rightarrow> step_done" where
  "step_report E inp p sz ord permit result =
     (let fill = (case result of None \<Rightarrow> None
            | Some r \<Rightarrow> deriveLiveFill (o_size ord) (o_price ord)
                \<lparr>fa_filled = res_filled_size r, fa_average = res_average_price r, fa_fee = fst (se_ack E r), fa_role = snd (se_ack E r)\<rparr>)
      in \<lparr>sd_outcome = (case result of None \<Rightarrow> Step_NEEDS_RECONCILIATION | Some _ \<Rightarrow> Step_SUBMITTED),
          sd_order = order_id ord, sd_permit = permit_id permit, sd_fill = fill,
          sd_pnl = (case fill of None \<Rightarrow> Fin 0 | Some f \<Rightarrow> sessionPnlFromFill p (quoted_side inp) f),
          sd_exposure = booked_exposure ord fill, sd_p = p, sd_size = sz\<rparr>)"

text \<open>From the signed order on.\<close>

definition step_submit ::
  "(string \<Rightarrow> bool) \<Rightarrow> pipeline \<Rightarrow> step_config \<Rightarrow> world deps \<Rightarrow> step_env \<Rightarrow> step_input \<Rightarrow> jsnum \<Rightarrow> jsnum \<Rightarrow> signed_order \<Rightarrow>
     execution_permit \<Rightarrow> (live_world, step_result) eff" where
  "step_submit is_uuid P C D E inp p sz ord permit w =
     (case before_submit C E inp sz ord (lw_guard w) of
        (Inl e, g) \<Rightarrow> (Inl e, w\<lparr>lw_guard := g\<rparr>)
      | (Inr (Some (stage, reason)), g) \<Rightarrow> abort_reserved P C D permit stage reason (w\<lparr>lw_guard := g\<rparr>)
      | (Inr None, g) \<Rightarrow>
          (case submit is_uuid D ord permit (lw_exec w) of
             (Inl e, x) \<Rightarrow> (Inl e, w\<lparr>lw_guard := g, lw_exec := x\<rparr>)
           | (Inr (Submitted r st), x) \<Rightarrow> (Inr (Bought (step_report E inp p sz ord permit (Some r))), w\<lparr>lw_guard := g, lw_exec := x\<rparr>)
           | (Inr (Needs_Reconciliation _ _), x) \<Rightarrow>
               (Inr (Bought (step_report E inp p sz ord permit None)), w\<lparr>lw_guard := g, lw_exec := x\<rparr>)
           | (Inr (Duplicate c), x) \<Rightarrow> abort_reserved P C D permit At_Executor c (w\<lparr>lw_guard := g, lw_exec := x\<rparr>)
           | (Inr (Permit_Invalid c), x) \<Rightarrow> abort_reserved P C D permit At_Executor c (w\<lparr>lw_guard := g, lw_exec := x\<rparr>)
           | (Inr (Mode_Forbids c), x) \<Rightarrow> abort_reserved P C D permit At_Executor c (w\<lparr>lw_guard := g, lw_exec := x\<rparr>)))"

text \<open>Risk gate with reservation, and the order built inside the permit.\<close>

definition step_trade ::
  "(string \<Rightarrow> bool) \<Rightarrow> pipeline \<Rightarrow> step_config \<Rightarrow> world deps \<Rightarrow> step_env \<Rightarrow> step_input \<Rightarrow> jsnum \<Rightarrow> jsnum \<Rightarrow>
     (live_world, step_result) eff" where
  "step_trade is_uuid P C D E inp p sz w =
     (let ce = se_call E; edge = step_edge C E inp p;
          intent = (\<lambda>iid. step_intent iid (se_dedupe E) inp sz edge)
      in case validateAndReserve is_uuid (pl_kernel P) (\<lambda>n. pg_authority (ce_attempts ce n)) (ce_quote ce) (ce_decision ce)
             (step_gate P E inp (intent (se_gate_intent E))) (wo_db (lw_exec w)) of
        (Inl e, d) \<Rightarrow> (Inl e, w\<lparr>lw_exec := (lw_exec w)\<lparr>wo_db := d\<rparr>\<rparr>)
      | (Inr (Refused c), d) \<Rightarrow> (Inr (No_Trade At_Risk c), w\<lparr>lw_exec := (lw_exec w)\<lparr>wo_db := d\<rparr>\<rparr>)
      | (Inr (Ok (_, permit)), d) \<Rightarrow>
          (let w1 = w\<lparr>lw_exec := (lw_exec w)\<lparr>wo_db := d\<rparr>\<rparr> in
           case buildSignedOrder (pl_sha256 P) is_uuid (pl_crypto P) (pl_vault P) (build_of P ce (intent (se_build_intent E)) permit) (ce_order ce) of
             Inl e \<Rightarrow> abort_reserved P C D permit At_Sign (''SIGN_FAILED: '' @ js_message e) w1
           | Inr (Refused c) \<Rightarrow> abort_reserved P C D permit At_Sign c w1
           | Inr (Ok (ord, _)) \<Rightarrow> step_submit is_uuid P C D E inp p sz ord permit w1))"

definition executeG4Step ::
  "(string \<Rightarrow> bool) \<Rightarrow> pipeline \<Rightarrow> step_config \<Rightarrow> world deps \<Rightarrow> step_env \<Rightarrow> step_input \<Rightarrow> (live_world, step_result) eff" where
  "executeG4Step is_uuid P C D E inp w =
     (case computeFinancialGate (ce_mode (se_call E)) (sc_min_edge C) (sc_admitted C) of
        ENTRY_BLOCKED \<Rightarrow> (Inr (No_Trade At_Gate ''ENTRY_BLOCKED''), w)
      | FINANCIAL_BLOCKED \<Rightarrow> (Inr (No_Trade At_Gate ''FINANCIAL_BLOCKED''), w)
      | Fin_ALLOW \<Rightarrow>
          (case (case si_override inp of Some q \<Rightarrow> Inr q | None \<Rightarrow> se_forecast E) of
             Inl e \<Rightarrow> (Inl e, w)
           | Inr None \<Rightarrow> (Inr (No_Trade At_Forecast ''forecast uncertain or unavailable''), w)
           | Inr (Some p) \<Rightarrow>
               if uncertain p then (Inr (No_Trade At_Forecast ''forecast uncertain or unavailable''), w)
               else if classifyRegime (si_bid inp) (si_ask inp) \<in> {DUST, TIGHT_CONSENSUS} then (Inr (No_Trade At_Regime ''book regime''), w)
               else if \<not> er_trade (step_edge C E inp p) then (Inr (No_Trade At_Edge (er_code (step_edge C E inp p))), w)
               else let sz = sc_size C (si_bid inp) (si_ask inp) p in
                 if num_le sz (Fin 0) then (Inr (No_Trade At_Size ''sizing returned zero''), w)
                 else step_trade is_uuid P C D E inp p sz w))"

text \<open>The size \<open>main.ts\<close> wires in: quarter Kelly on the live equity.\<close>

definition main_sizeIntent :: "jsnum \<Rightarrow> jsnum \<Rightarrow> jsnum \<Rightarrow> jsnum \<Rightarrow> jsnum \<Rightarrow> jsnum" where
  "main_sizeIntent cap pnl bid ask p =
     kellyShares \<lparr>ky_p = p, ky_price = ask, ky_bankroll = equityBankroll cap pnl, ky_fraction = Fin (1 / 4),
       ky_min = Fin 1, ky_max = Fin 100\<rparr>"

section \<open>What passes the checks of a step\<close>

lemma wired_release:
  "D \<in> {mem_deps e, pg_deps read_int8 e} \<Longrightarrow>
     d_rmRelease D rid reason = on_db (total (release True (en_fault e rid) (en_now e) rid reason))"
  by (auto simp: mem_deps_def pg_deps_def)

lemma each_release_placed:
  "D \<in> {mem_deps e, pg_deps read_int8 e} \<Longrightarrow>
     wo_placed (snd (each_caught (\<lambda>rid. d_rmRelease D rid Rel_CANCELLED) ids w)) = wo_placed w"
  by (induction ids arbitrary: w) (simp_all add: wired_release on_part_def total_def split: prod.splits)

lemma abort_reserved_placed:
  assumes "D \<in> {mem_deps e, pg_deps read_int8 e}"
  shows "wo_placed (lw_exec (snd (abort_reserved P C D permit stage reason w))) = wo_placed (lw_exec w)"
proof -
  have "wo_placed (snd (releaseUnsubmittedReservation wrd fnd D permit u)) = wo_placed u" for wrd fnd u
    using each_release_placed [OF assms, of _ u]
    by (auto simp: releaseUnsubmittedReservation_def Let_def split: sum.splits option.splits)
  from this [of "sc_release_wired C" "w_funder (pl_wallet P)" "lw_exec w"] show ?thesis
    by (auto simp: abort_reserved_def split: prod.splits sum.splits)
qed

definition live_caps_hold :: "step_config \<Rightarrow> step_env \<Rightarrow> step_input \<Rightarrow> jsnum \<Rightarrow> signed_order \<Rightarrow> guard_row \<Rightarrow> bool" where
  "live_caps_hold C E inp sz ord g \<longleftrightarrow>
     (\<exists>cap lossCap loss. sc_cap C = Some cap \<and> is_finite_num cap \<and>
        \<not> num_lt cap (num_add (case si_portfolio_exposure inp of Some x \<Rightarrow> x | None \<Rightarrow> Fin 0) (num_mul sz (o_price ord))) \<and>
        sc_loss_cap C = Some lossCap \<and> se_loss E = Inr loss \<and> within_loss_cap loss lossCap \<and> \<not> was_halted g)"

lemma before_submit_passes:
  "before_submit C E inp sz ord g = (Inr None, g') \<Longrightarrow> live_caps_hold C E inp sz ord g \<and> sc_guard_wired C"
  by (auto simp: before_submit_def usable_cap_def Let_def entry_check_allowed live_caps_hold_def
      split: if_splits option.splits sum.splits)

lemma step_submit_placed:
  assumes D: "D \<in> {mem_deps e, pg_deps read_int8 e}"
    and placed: "wo_placed (lw_exec (snd (step_submit is_uuid P C D E inp p sz ord permit w))) \<noteq> wo_placed (lw_exec w)"
  shows "live_caps_hold C E inp sz ord (lw_guard w) \<and> submit_allowed is_uuid D ord permit \<and>
    wo_placed (snd (submit is_uuid D ord permit (lw_exec w))) = wo_placed (lw_exec w) @ [ord] \<and>
    wo_placed (lw_exec (snd (step_submit is_uuid P C D E inp p sz ord permit w))) = wo_placed (lw_exec w) @ [ord]"
proof -
  obtain claimed where ops: "executor_ops D wo_placed claimed" using wired [OF D] by blast
  obtain x g where b: "before_submit C E inp sz ord (lw_guard w) = (x, g)" by fastforce
  have pass: "x = Inr None"
    using placed abort_reserved_placed [OF D] unfolding step_submit_def b
    by (auto split: sum.splits option.splits)
  have same: "wo_placed (lw_exec (snd (step_submit is_uuid P C D E inp p sz ord permit w)))
      = wo_placed (snd (submit is_uuid D ord permit (lw_exec w)))"
    using abort_reserved_placed [OF D] unfolding step_submit_def b pass
    by (auto split: prod.splits sum.splits try_submit.splits)
  with placed submit_placed [OF ops, of is_uuid ord permit "lw_exec w"] before_submit_passes [of C E inp sz ord "lw_guard w" g] b pass
  show ?thesis by auto
qed

lemma step_trade_placed:
  assumes sound: "sound (wo_db (lw_exec w))" and D: "D \<in> {mem_deps e, pg_deps read_int8 e}"
    and placed: "wo_placed (lw_exec (snd (step_trade is_uuid P C D E inp p sz w))) \<noteq> wo_placed (lw_exec w)"
  defines "i \<equiv> \<lambda>iid. step_intent iid (se_dedupe E) inp sz (step_edge C E inp p)"
  defines "g \<equiv> step_gate P E inp (i (se_gate_intent E))"
  shows "\<exists>decision permit d ord signature shares price style wanted.
    validateAndReserve is_uuid (pl_kernel P) (\<lambda>n. pg_authority (ce_attempts (se_call E) n)) (ce_quote (se_call E))
      (ce_decision (se_call E)) g (wo_db (lw_exec w)) = (Inr (Ok (decision, permit)), d) \<and>
    buildSignedOrder (pl_sha256 P) is_uuid (pl_crypto P) (pl_vault P) (build_of P (se_call E) (i (se_build_intent E)) permit)
      (ce_order (se_call E)) = Inr (Ok (ord, signature)) \<and>
    ord = built_order (build_of P (se_call E) (i (se_build_intent E)) permit) (ce_order (se_call E)) shares price style \<and>
    toBase6 sz = Inr wanted \<and> shares \<le> wanted \<and> inside_permit permit shares price \<and>
    caps_respected g (the (max_cash_base permit)) \<and> permit_backed g permit (the (max_cash_base permit)) d \<and>
    sound d \<and> keeps_books (wo_db (lw_exec w)) d \<and>
    live_caps_hold C E inp sz ord (lw_guard w) \<and> submit_allowed is_uuid D ord permit \<and>
    wo_placed (snd (submit is_uuid D ord permit ((lw_exec w)\<lparr>wo_db := d\<rparr>))) = wo_placed (lw_exec w) @ [ord] \<and>
    wo_placed (lw_exec (snd (step_trade is_uuid P C D E inp p sz w))) = wo_placed (lw_exec w) @ [ord]"
proof -
  let ?run = "step_trade is_uuid P C D E inp p sz w"
  obtain v d where v: "validateAndReserve is_uuid (pl_kernel P) (\<lambda>n. pg_authority (ce_attempts (se_call E) n))
      (ce_quote (se_call E)) (ce_decision (se_call E)) g (wo_db (lw_exec w)) = (v, d)" by fastforce
  let ?w = "w\<lparr>lw_exec := (lw_exec w)\<lparr>wo_db := d\<rparr>\<rparr>"
  obtain decision permit where ok: "v = Inr (Ok (decision, permit))"
    using placed v by (auto simp: step_trade_def i_def g_def Let_def split: sum.splits outcome.splits)
  let ?b = "build_of P (se_call E) (i (se_build_intent E)) permit"
  obtain ord signature where build: "buildSignedOrder (pl_sha256 P) is_uuid (pl_crypto P) (pl_vault P) ?b (ce_order (se_call E))
      = Inr (Ok (ord, signature))"
    using placed v abort_reserved_placed [OF D, of P C permit _ _ ?w]
    by (auto simp: step_trade_def i_def g_def ok Let_def split: sum.splits outcome.splits)
  have run: "?run = step_submit is_uuid P C D E inp p sz ord permit ?w"
    using v build by (simp add: step_trade_def i_def g_def ok Let_def)
  have "wo_placed (lw_exec (snd (step_submit is_uuid P C D E inp p sz ord permit ?w))) \<noteq> wo_placed (lw_exec ?w)"
    using placed by (simp add: run)
  note out = step_submit_placed [OF D this, folded run, simplified]
  from v have gate: "validateAndReserve is_uuid (pl_kernel P) (\<lambda>n. pg_authority (ce_attempts (se_call E) n))
      (ce_quote (se_call E)) (ce_decision (se_call E)) g (wo_db (lw_exec w)) = (Inr (Ok (decision, permit)), d)"
    by (simp add: ok)
  obtain s c where order: "gate_order is_uuid g = Inr (Ok (s, c))"
    and grant: "kernel_reserve is_uuid (pl_kernel P) (\<lambda>n. pg_authority (ce_attempts (se_call E) n)) (ce_quote (se_call E))
        (gate_request g (ce_decision (se_call E)) s c) (wo_db (lw_exec w)) = (Inr (Ok permit), d)"
    by (rule validateAndReserve_ok [OF gate])
  obtain shares price style signed where built: "build_order ?b = Inr (Ok (shares, price, style))"
    and ord: "ord = built_order ?b (ce_order (se_call E)) shares price style"
    by (rule buildSignedOrder_ok [OF build])
  from build_order_inside [OF built] obtain wanted where inside: "inside_permit permit shares price"
    and wanted: "toBase6 sz = Inr wanted" "shares \<le> wanted"
    by (auto simp: build_of_def i_def step_intent_def order_size_def)
  note facts = gate build ord wanted inside grant_backed [OF grant] gate_order_caps [OF order]
    pg.kernel_reserve_keeps [OF sound grant] out
  show ?thesis
    by (rule exI [of _ decision], rule exI [of _ permit], rule exI [of _ d], rule exI [of _ ord], rule exI [of _ signature],
        rule exI [of _ shares], rule exI [of _ price], rule exI [of _ style], rule exI [of _ wanted]) (use facts in simp)
qed

lemma executeG4Step_placed:
  assumes "wo_placed (lw_exec (snd (executeG4Step is_uuid P C D E inp w))) \<noteq> wo_placed (lw_exec w)"
  shows "sc_admitted C \<and> ce_mode (se_call E) \<notin> {Venue_UNAVAILABLE, Venue_UNKNOWN, Venue_READ_ONLY} \<and>
    (\<exists>p. (case si_override inp of Some q \<Rightarrow> Inr q | None \<Rightarrow> se_forecast E) = Inr (Some p) \<and> \<not> uncertain p \<and>
       classifyRegime (si_bid inp) (si_ask inp) \<in> {CONTESTED, Regime_NORMAL} \<and> er_trade (step_edge C E inp p) \<and>
       \<not> num_le (sc_size C (si_bid inp) (si_ask inp) p) (Fin 0) \<and>
       executeG4Step is_uuid P C D E inp w = step_trade is_uuid P C D E inp p (sc_size C (si_bid inp) (si_ask inp) p) w)"
  using assms
  by (cases "classifyRegime (si_bid inp) (si_ask inp)")
     (auto simp: executeG4Step_def computeFinancialGate_def Let_def split: if_splits sum.splits option.splits)

section \<open>A refusal gives the reservation back\<close>

lemma wired_release_run:
  "D \<in> {mem_deps e, pg_deps read_int8 e} \<Longrightarrow>
     snd (each_caught (\<lambda>rid. d_rmRelease D rid Rel_CANCELLED) [rid] w)
       = w\<lparr>wo_db := snd (release True (en_fault e rid) (en_now e) rid Rel_CANCELLED (wo_db w))\<rparr>"
  by (simp add: wired_release on_part_def total_def split: prod.splits)

lemma released_reservation:
  fixes db_now :: ms
  assumes sound: "sound d" and backed: "permit_backed g p cash d" and rid: "p_reservation_ids p = [rid]"
  defines "d' \<equiv> snd (release True NoFault db_now rid Rel_CANCELLED d)"
  shows "keeps_books d d' \<and>
    (\<exists>r \<in> set (reservations d'). r_intent_id r = ti_intent_id (g_intent g) \<and> r_status r = R_RELEASED) \<and>
    (\<forall>r \<in> set (reservations d'). r_intent_id r = ti_intent_id (g_intent g) \<longrightarrow> r_status r \<noteq> R_ACTIVE)"
proof -
  let ?i = "ti_intent_id (g_intent g)"
  from backed rid obtain r where r: "r \<in> set (reservations d)" "r_id r = rid" "r_status r = R_ACTIVE" "r_intent_id r = ?i"
    by (auto simp: permit_backed_def)
  have inv: "money_inv d" and keys: "keys_ok r_id (reservations d)" and uniq: "active_unique d"
    using sound by (simp_all add: sound_def money_inv_def)
  have row: "row_of r_id rid (reservations d) = Some r" using keys_ok_row_of [OF keys r(1)] by (simp add: r)
  have lv: "live r" using r by (simp add: live_def)
  have run: "release True NoFault db_now rid Rel_CANCELLED d = (Ok (), d')"
    using release_live_ok [OF inv row lv, of db_now Rel_CANCELLED] by (simp add: d'_def prod_eq_iff)
  have books: "keeps_books d d'" using release_books [OF inv, of True NoFault db_now rid Rel_CANCELLED] by (simp add: d'_def)
  have adv: "list_all2 row_advance (reservations d) (reservations d')"
    using release_advance [of d True NoFault db_now rid Rel_CANCELLED] by (simp add: d'_def rows_advance_def)
  have st: "map_option r_status (row_of r_id rid (reservations d')) = Some R_RELEASED"
    by (rule release_effect [OF inv run]) simp
  have keys': "keys_ok r_id (reservations d')" using books by (simp add: keeps_books_def money_inv_def)
  from st obtain r' where r': "r' \<in> set (reservations d')" "r_id r' = rid" "r_status r' = R_RELEASED"
    by (auto dest: row_of_Some)
  from list_all2_origin [OF adv r'(1)] obtain x where x: "x \<in> set (reservations d)" "row_advance x r'" by blast
  then have "x = r" using keys_ok_row_of [OF keys x(1)] row r'(2) by (simp add: row_advance_def)
  with x r have i': "r_intent_id r' = ?i" by (simp add: row_advance_def)
  have "r_status y \<noteq> R_ACTIVE" if y: "y \<in> set (reservations d')" and i: "r_intent_id y = ?i" for y
  proof
    assume act: "r_status y = R_ACTIVE"
    from list_all2_origin [OF adv y] obtain z where z: "z \<in> set (reservations d)" "row_advance z y" by blast
    with act i have "r_status z = R_ACTIVE" "r_intent_id z = ?i" by (simp_all add: row_advance_def)
    with uniq z(1) r have "z = r" by (auto simp: active_unique_def distinct_map inj_on_def)
    with z(2) r(2) have "r_id y = rid" by (simp add: row_advance_def)
    with keys_ok_row_of [OF keys' y] st act show False by simp
  qed
  with books r' i' show ?thesis by blast
qed

text \<open>A reservation that was granted and then released: every balance is what it was before.\<close>

lemma duplicate_never_granted:
  "duplicate_intent a d \<Longrightarrow> fst (try_reserve n i (\<lambda>j. pg_authority (env j) a) d) \<noteq> Ok ids"
proof (induction n arbitrary: i)
  case 0
  obtain y d1 where 1: "pg_authority (env i) a d = (y, d1)" by fastforce
  from 1 [unfolded pg_authority_def] have "y \<noteq> Ok ids" by (rule authority_reserve_cases) (use 0 in auto)
  with 1 show ?case by simp
next
  case (Suc n)
  obtain y d1 where 1: "pg_authority (env i) a d = (y, d1)" by fastforce
  from 1 [unfolded pg_authority_def] have "y \<noteq> Ok ids \<and> d1 = d" by (rule authority_reserve_cases) (use Suc.prems in auto)
  with 1 Suc show ?case by simp
qed

lemma try_reserve_writes:
  "try_reserve n i (\<lambda>j. pg_authority (env j) a) d = (Ok ids, d') \<Longrightarrow>
     \<exists>b now rid pid. balances d (a_key a) = Some b \<and> a_cash a \<le> available_base b \<and>
       authority_writes a now rid pid d = Inr (Ok ids, d')"
proof (induction n arbitrary: i)
  case 0
  then have "pg_authority (env i) a d = (Ok ids, d')" by simp
  from this [unfolded pg_authority_def] show ?case
  proof (cases rule: authority_reserve_cases)
    case (committed b)
    then show ?thesis by (auto simp: catch_reserve_refuses dest: sym [of "Ok _"])
  qed blast
next
  case (Suc n)
  obtain y d1 where 1: "pg_authority (env i) a d = (y, d1)" by fastforce
  from 1 [unfolded pg_authority_def] show ?case
  proof (cases rule: authority_reserve_cases)
    case unchanged
    with Suc 1 show ?thesis by (auto split: if_splits)
  next
    case (committed b)
    have "fst (try_reserve n (Suc i) (\<lambda>j. pg_authority (env j) a) d1) \<noteq> Ok ids"
      by (rule duplicate_never_granted) (rule committed_duplicate [OF committed(1,2,4)])
    with Suc.prems 1 have "y = Ok ids \<and> d' = d1" by (auto split: if_splits)
    with committed show ?thesis by (auto simp: catch_reserve_refuses dest: sym [of "Ok _"])
  qed
qed

lemma granted_then_released:
  assumes sound: "sound d" and grant: "kernel_reserve is_uuid k (\<lambda>n. pg_authority (env n)) quote q d = (Inr (Ok p), d')"
    and rid: "p_reservation_ids p = [rid]"
  shows "balances (snd (release True NoFault t rid Rel_CANCELLED d')) = balances d"
proof -
  let ?a = "args_of q quote"
  from grant obtain vm ids where t: "try_reserve MAX_SERIALIZATION_RETRIES 0 (\<lambda>i. pg_authority (env i) ?a) d = (Ok ids, d')"
    and p: "p = permit_for k q quote vm ids"
    by (auto simp: kernel_reserve_def Let_def split: sum.splits outcome.splits prod.splits option.splits if_splits)
  from try_reserve_writes [OF t] obtain b now rd pid where b: "balances d (a_key ?a) = Some b" "a_cash ?a \<le> available_base b"
    and writes: "authority_writes ?a now rd pid d = Inr (Ok ids, d')" by blast
  note e = authority_writes_effect [OF writes b]
  have rd: "rd = rid" using e(1) rid by (simp add: p permit_for_def)
  let ?r = "reservation_of ?a now rid pid"
  have row: "row_of r_id rid (reservations d') = Some ?r"
    using e(9) by (simp add: e(3) row_of_append row_of_None [THEN iffD2] rd reservation_of_def)
  have held: "held ?r = a_cash ?a" "live ?r" "res_key ?r = a_key ?a"
    by (simp_all add: held_def live_def reservation_of_def res_key_def)
  have inv: "money_inv d'" using pg.kernel_reserve_keeps [OF sound grant] by (simp add: sound_def)
  obtain d'' where run: "release True NoFault t rid Rel_CANCELLED d' = (Ok (), d'')"
    using release_live_ok [OF inv row held(2), of t Rel_CANCELLED] by (metis prod.collapse)
  from release_effect [OF inv run] obtain r b' where r: "row_of r_id rid (reservations d') = Some r"
      "balances d' (res_key r) = Some b'" "balances d'' = (balances d')(res_key r \<mapsto>
        b'\<lparr>available_base := available_base b' + held r, committed_base := committed_base b' - held r\<rparr>)" by blast
  have same: "r = ?r" using r row by simp
  have b': "b' = b\<lparr>available_base := available_base b - a_cash ?a, committed_base := committed_base b + a_cash ?a\<rparr>"
    using r(2) by (simp add: same held e(2))
  have "balances d'' = (balances d)(a_key ?a \<mapsto> b)" by (simp add: r(3) same held e(2) b')
  with b run show ?thesis by (simp add: fun_upd_idem)
qed

lemma abort_reserved_releases:
  assumes D: "D \<in> {mem_deps e, pg_deps read_int8 e}" and calm: "en_fault e = (\<lambda>_. NoFault)" and wrd: "sc_release_wired C"
    and sound: "sound (wo_db (lw_exec w))" and backed: "permit_backed g p cash (wo_db (lw_exec w))"
    and ids: "row_of r_id '''' (reservations (wo_db (lw_exec w))) = None"
    and run: "abort_reserved P C D p stage reason w = (res, w')"
  shows "res = Inr (No_Trade stage reason) \<and> wo_placed (lw_exec w') = wo_placed (lw_exec w) \<and>
    keeps_books (wo_db (lw_exec w)) (wo_db (lw_exec w')) \<and>
    (\<exists>r \<in> set (reservations (wo_db (lw_exec w'))). r_intent_id r = ti_intent_id (g_intent g) \<and> r_status r = R_RELEASED) \<and>
    (\<forall>r \<in> set (reservations (wo_db (lw_exec w'))). r_intent_id r = ti_intent_id (g_intent g) \<longrightarrow> r_status r \<noteq> R_ACTIVE) \<and>
    (\<exists>rid. p_reservation_ids p = [rid] \<and>
      wo_db (lw_exec w') = snd (release True NoFault (en_now e) rid Rel_CANCELLED (wo_db (lw_exec w))))"
proof -
  from backed obtain r where r: "r \<in> set (reservations (wo_db (lw_exec w)))" "p_reservation_ids p = [r_id r]"
    by (auto simp: permit_backed_def)
  with ids have "r_id r \<noteq> ''''" by (metis imageI row_of_None)
  with r wrd have "releaseUnsubmittedReservation (sc_release_wired C) fnd D p u
      = (Inr (), u\<lparr>wo_db := snd (release True NoFault (en_now e) (r_id r) Rel_CANCELLED (wo_db u))\<rparr>)" for fnd u
    using wired_release_run [OF D, of "r_id r" u] calm
    by (simp add: releaseUnsubmittedReservation_def)
  with run have "res = Inr (No_Trade stage reason)"
    and "w' = w\<lparr>lw_exec := (lw_exec w)\<lparr>wo_db := snd (release True NoFault (en_now e) (r_id r) Rel_CANCELLED (wo_db (lw_exec w)))\<rparr>\<rparr>"
    by (auto simp: abort_reserved_def)
  with released_reservation [OF sound backed r(2), of "en_now e"] r(2) show ?thesis by simp
qed


lemma abort_reserved_stage:
  "abort_reserved P C D q st rs v = (Inr (No_Trade stage reason), w') \<Longrightarrow> st = stage \<and> rs = reason"
  by (auto simp: abort_reserved_def split: prod.splits sum.splits)

lemma step_submit_refused:
  assumes run: "step_submit is_uuid P C D E inp p sz ord permit w = (Inr (No_Trade stage reason), w')" and "stage \<noteq> At_Executor"
  shows "\<exists>g. abort_reserved P C D permit stage reason (w\<lparr>lw_guard := g\<rparr>) = (Inr (No_Trade stage reason), w')"
proof -
  obtain b g where b: "before_submit C E inp sz ord (lw_guard w) = (b, g)" by fastforce
  show ?thesis
  proof (cases b)
    case (Inl e)
    with run b show ?thesis by (simp add: step_submit_def)
  next
    case (Inr refusal)
    show ?thesis
    proof (cases refusal)
      case None
      with run b Inr assms(2) show ?thesis
        by (auto simp: step_submit_def dest: abort_reserved_stage split: prod.splits sum.splits try_submit.splits)
    next
      case (Some sr)
      with run b Inr have "abort_reserved P C D permit (fst sr) (snd sr) (w\<lparr>lw_guard := g\<rparr>) = (Inr (No_Trade stage reason), w')"
        by (simp add: step_submit_def split: prod.splits)
      with abort_reserved_stage [OF this] show ?thesis by auto
    qed
  qed
qed

lemma step_refused:
  assumes run: "executeG4Step is_uuid P C D E inp w = (Inr (No_Trade stage reason), w')"
    and late: "stage \<in> {At_Sign, At_Cap, At_Loss_Cap, At_Guard, At_Latch}"
  obtains p permit decision d g where
    "validateAndReserve is_uuid (pl_kernel P) (\<lambda>n. pg_authority (ce_attempts (se_call E) n)) (ce_quote (se_call E))
       (ce_decision (se_call E)) (step_gate P E inp (step_intent (se_gate_intent E) (se_dedupe E) inp
         (sc_size C (si_bid inp) (si_ask inp) p) (step_edge C E inp p))) (wo_db (lw_exec w)) = (Inr (Ok (decision, permit)), d)"
    and "abort_reserved P C D permit stage reason (w\<lparr>lw_exec := (lw_exec w)\<lparr>wo_db := d\<rparr>, lw_guard := g\<rparr>)
       = (Inr (No_Trade stage reason), w')"
proof -
  let ?sz = "\<lambda>p. sc_size C (si_bid inp) (si_ask inp) p"
  from run late obtain p where trade: "step_trade is_uuid P C D E inp p (?sz p) w = (Inr (No_Trade stage reason), w')"
    by (auto simp: executeG4Step_def Let_def split: fin_gate.splits if_splits sum.splits option.splits)
  let ?g = "step_gate P E inp (step_intent (se_gate_intent E) (se_dedupe E) inp (?sz p) (step_edge C E inp p))"
  obtain v d where v: "validateAndReserve is_uuid (pl_kernel P) (\<lambda>n. pg_authority (ce_attempts (se_call E) n))
      (ce_quote (se_call E)) (ce_decision (se_call E)) ?g (wo_db (lw_exec w)) = (v, d)" by fastforce
  obtain decision permit where ok: "v = Inr (Ok (decision, permit))"
    using trade late v by (auto simp: step_trade_def Let_def split: sum.splits outcome.splits)
  let ?w = "w\<lparr>lw_exec := (lw_exec w)\<lparr>wo_db := d\<rparr>\<rparr>"
  note trade' = trade [unfolded step_trade_def Let_def, simplified v ok, simplified]
  have guard: "?w = w\<lparr>lw_exec := (lw_exec w)\<lparr>wo_db := d\<rparr>, lw_guard := lw_guard w\<rparr>" by simp
  have "\<exists>g. abort_reserved P C D permit stage reason (w\<lparr>lw_exec := (lw_exec w)\<lparr>wo_db := d\<rparr>, lw_guard := g\<rparr>)
       = (Inr (No_Trade stage reason), w')"
  proof (cases "buildSignedOrder (pl_sha256 P) is_uuid (pl_crypto P) (pl_vault P)
      (build_of P (se_call E) (step_intent (se_build_intent E) (se_dedupe E) inp (?sz p) (step_edge C E inp p)) permit) (ce_order (se_call E))")
    case (Inl e)
    with trade' have run: "abort_reserved P C D permit At_Sign (''SIGN_FAILED: '' @ js_message e) ?w = (Inr (No_Trade stage reason), w')" by simp
    from abort_reserved_stage [OF run] run guard show ?thesis by metis
  next
    case (Inr built)
    show ?thesis
    proof (cases built)
      case (Refused c)
      with Inr trade' have run: "abort_reserved P C D permit At_Sign c ?w = (Inr (No_Trade stage reason), w')" by simp
      from abort_reserved_stage [OF run] run guard show ?thesis by metis
    next
      case (Ok os)
      with Inr trade' have "step_submit is_uuid P C D E inp p (?sz p) (fst os) permit ?w = (Inr (No_Trade stage reason), w')"
        by (simp split: prod.splits)
      from step_submit_refused [OF this] late show ?thesis by auto
    qed
  qed
  with v ok that show thesis by blast
qed

section \<open>A run\<close>

definition live_config :: "jsnum option \<Rightarrow> step_config" where
  "live_config cap = \<lparr>sc_min_edge = None, sc_admitted = True, sc_cap = cap, sc_loss_cap = Some (Fin 1),
     sc_size = (\<lambda>_ _ _. Fin 1), sc_guard_wired = True, sc_release_wired = True\<rparr>"

definition live_input :: step_input where
  "live_input = \<lparr>si_market = ''m1'', si_bid = Fin (1 / 4), si_ask = Fin (1 / 2), si_override = Some (Some (Fin (3 / 4))),
     si_side_no = False, si_market_exposure = None, si_portfolio_exposure = None, si_days = None\<rparr>"

definition live_env :: step_env where
  "live_env = \<lparr>se_call = sample_call, se_forecast = Inr None, se_flow = None, se_gate_intent = ''i1'',
     se_build_intent = ''i2'', se_dedupe = ''k1'', se_loss = Inr (Fin 0), se_save = None, se_ack = (\<lambda>_. (None, None))\<rparr>"

lemma num_consts: "num_abs (Fin (1 / 4)) = Fin (1 / 4)" "num_abs (Fin (- (1 / 8))) = Fin (1 / 8)"
    "num_max (Fin (1 / 4)) (Fin 0) = Fin (1 / 4)" "num_min (Fin (1 / 8)) (fl (1 / 20)) = fl (1 / 20)"
  by (simp_all add: num_abs_def num_max_def num_min_def num_eval)

lemma live_regime: "classifyRegime (Fin (1 / 4)) (Fin (1 / 2)) = Regime_NORMAL"
  by (simp add: classifyRegime_def Let_def num_eval num_le_def num_consts)

lemma live_floor_value: "resolveEdgeFloor (fl (3 / 100)) (Fin (1 / 4)) (Fin 0) = fl (8 / 100)"
proof -
  have "num_mul (num_max (Fin (1 / 4)) (Fin 0)) (Fin (1 / 2)) = Fin (1 / 8)" by (simp add: num_consts num_eval)
  moreover have "is_finite_num (fl (3 / 100)) \<and> num_lt (Fin 0) (fl (3 / 100))" by (simp add: num_eval)
  moreover have "num_div (math_round (num_mul (num_add (num_add (fl (3 / 100)) (fl (5 / 100))) (Fin 0)) (Fin 10000))) (Fin 10000) = fl (8 / 100)"
    by (simp add: num_eval)
  ultimately show ?thesis by (simp add: resolveEdgeFloor_def Let_def num_consts)
qed

lemma live_premiums: "num_add (num_add (flbExtremePremium (Fin (1 / 2))) (expiryEdgePremium None)) (smartMoneyGuardPremium None t) = Fin 0"
  by (simp add: flbExtremePremium_def expiryEdgePremium_def smartMoneyGuardPremium_def num_eval)

lemma live_input_fields: "si_market live_input = ''m1''" "si_bid live_input = Fin (1 / 4)" "si_ask live_input = Fin (1 / 2)"
    "si_override live_input = Some (Some (Fin (3 / 4)))" "si_side_no live_input = False" "si_market_exposure live_input = None"
    "si_portfolio_exposure live_input = None" "si_days live_input = None"
  by (simp_all add: live_input_def)

lemma live_fee: "num_sub (Fin (1 / 4)) (clobTakerFeePerShare (Fin (1 / 2)) (fl (1 / 20))) = fl (19 / 80)"
proof -
  have "clobTakerFeePerShare (Fin (1 / 2)) (fl (1 / 20)) = num_mul (num_mul (fl (1 / 20)) (Fin (1 / 2))) (Fin (1 / 2))"
    by (simp add: clobTakerFeePerShare_def num_max_def num_min_def Let_def num_eval)
  then show ?thesis by (simp add: num_eval)
qed

lemma live_edge:
  "er_trade (step_edge (live_config c) live_env live_input (Fin (3 / 4)))"
  "er_price (step_edge (live_config c) live_env live_input (Fin (3 / 4))) = Some (Fin (1 / 2))"
proof -
  have spread: "num_abs (num_sub (Fin (1 / 2)) (Fin (1 / 4))) = Fin (1 / 4)" by (simp add: num_abs_def num_eval)
  have flo: "edge_floor (live_config c) live_env live_input = fl (2 / 25)"
    using live_floor_value by (simp add: edge_floor_def live_config_def live_env_def live_input_fields live_premiums spread)
  have gross: "num_sub (Fin (3 / 4)) (Fin (1 / 2)) = Fin (1 / 4)" by (simp add: num_eval)
  have pass: "\<not> num_le (fl (19 / 80)) (Fin 0)" "\<not> num_lt (fl (19 / 80)) (fl (2 / 25))" by (simp_all add: num_le_def num_eval)
  show "er_trade (step_edge (live_config c) live_env live_input (Fin (3 / 4)))"
    "er_price (step_edge (live_config c) live_env live_input (Fin (3 / 4))) = Some (Fin (1 / 2))"
    unfolding step_edge_def flo
    by (simp_all add: live_input_fields evaluateEdge_def candidates_def Let_def gross live_fee pass)
qed

lemma live_intent: "step_intent iid ''k1'' live_input (Fin 1) (step_edge (live_config c) live_env live_input (Fin (3 / 4)))
    = sample_intent\<lparr>ti_intent_id := iid, ti_expiration_sec := Some (Fin 300), ti_status := Intent_CREATED\<rparr>"
  by (simp add: step_intent_def live_edge live_input_fields sample_intent_def)

definition live_gate :: gate_input where
  "live_gate = sample_gate\<lparr>g_intent := sample_intent\<lparr>ti_expiration_sec := Some (Fin 300), ti_status := Intent_CREATED\<rparr>,
    g_market_exposure := Some (Fin 0), g_portfolio_exposure := Some (Fin 0)\<rparr>"

lemma live_gate_eq: "step_gate sample_pipeline live_env live_input (step_intent ''i1'' ''k1'' live_input (Fin 1)
    (step_edge (live_config c) live_env live_input (Fin (3 / 4)))) = live_gate"
  by (simp add: live_intent step_gate_def live_input_fields live_gate_def) (simp add: live_env_def sample_gate_def sample_intent_def sample_pipeline_def
      sample_call_def)

lemma live_gate_order: "gate_order (\<lambda>_. True) live_gate = Inr (Ok (1000000, 500000))"
  by (simp add: live_gate_def gate_order_def Let_def sample_gate_def sample_policy_def sample_intent_def RiskPolicySchema_def TradeIntentSchema_def
     z_min1_def z_unit_def z_nonneg_def z_positive_def order_size_def toBase6_zero decimalToBase_half toBase6_one pct_bps_def exceeds_cap_def
     cap_of_def cashNeededFor_def num_eval signed_divide_int_def)

definition live_permit :: execution_permit where
  "live_permit = permit_for (mk_kernel None None None None) (gate_request live_gate ''d1'' 1000000 500000) ''q1'' Venue_NORMAL
     \<lparr>ri_reservation = ''r1'', ri_permit = ''p1''\<rparr>"

lemma live_grant:
  "\<exists>d'. kernel_reserve (\<lambda>_. True) (mk_kernel None None None None) (\<lambda>_. pg_authority sample_attempt)
    ''q1'' (gate_request live_gate ''d1'' 1000000 500000) funded_db = (Inr (Ok live_permit), d') \<and>
    row_of r_id '''' (reservations d') = None"
  by (simp add: live_permit_def kernel_reserve_def kernel_guard_def mk_kernel_def MAX_SAFE_INTEGER_def gate_request_def live_gate_def sample_gate_def sample_intent_def
     sample_policy_def rq_cash_def cashNeededFor_def signed_divide_int_def funded_db_def empty_db_def getOpenCount_def
     MAX_SERIALIZATION_RETRIES_def numeral_2_eq_2 pg_authority_def sample_attempt_def authority_reserve_def args_of_def num_eval
     authority_body_def authority_writes_def duplicate_intent_def maxOpenReservations_def insert_intent_def move_to_committed_def
     upd_balance_def insert_decision_def numeric_18_8_def insert_reservation_def insert_permit_def append_event_def
     decision_of_def permit_of_def reservation_of_def max_qty_of_def intent_row_of_def units_def gate_expiration_def
     ExecutionPermitSchema_def permit_for_def z_min1_def z_nonneg_def Let_def VenueModeSchema_def all_venue_modes_def)

lemmas live_permit_simps = live_permit_def permit_for_def gate_request_def live_gate_def sample_gate_def sample_intent_def Let_def
  mk_kernel_def units_samples sample_policy_def cashNeededFor_def signed_divide_int_def

abbreviation "live_build \<equiv> build_of sample_pipeline sample_call
  (sample_intent\<lparr>ti_intent_id := ''i2'', ti_expiration_sec := Some (Fin 300), ti_status := Intent_CREATED\<rparr>) live_permit"

lemma live_build_run:
  "buildSignedOrder id (\<lambda>_. True) (\<lambda>_. Inr ''sig'') (mk_vault None (Fin 137)) live_build ''o1'' = Inr (Ok (pipeline_order, ''sig''))"
proof -
  let ?i = "sample_intent\<lparr>ti_intent_id := ''i2'', ti_expiration_sec := Some (Fin 300), ti_status := Intent_CREATED\<rparr>"
  have b: "live_build = \<lparr>b_intent = ?i, b_permit = live_permit, b_wallet = g_wallet sample_gate, b_verified_at = 0,
      b_venue_mode = Venue_NORMAL, b_now = 1000\<rparr>"
    by (simp add: build_of_def sample_pipeline_def sample_call_def)
  have order: "build_order live_build = Inr (Ok (1000000, 500000, Style_LIMIT))"
    unfolding b by (simp add: build_order_def live_permit_simps order_size_def
        intent_order_side_def decimalToBase_half toBase6_one clamp_size_def cashNeededFor_def signed_divide_int_def)
  have "checkAllowed (\<lambda>_. True) (mk_vault None (Fin 137)) (build_request id live_build ''o1'' 1000000 500000) = Inr (Ok ())"
    unfolding b by (simp add: checkAllowed_def build_request_def live_permit_simps
        mk_vault_def ExecutionPermitSchema_def z_min1_def z_nonneg_def SIGNER_ALLOWED_ACTIONS_def
        decimalToBase_half toBase6_one signed_divide_int_def num_eval)
  then have "vault_sign id (\<lambda>_. True) (\<lambda>_. Inr ''sig'') (mk_vault None (Fin 137))
      (build_request id live_build ''o1'' 1000000 500000) = Inr (Ok (''sig'', 1000))"
    unfolding b by (simp add: vault_sign_def) (simp add: build_request_def Let_def computePayloadHash_def payload_fields_def)
  with order show ?thesis
    unfolding b by (simp add: buildSignedOrder_def SignedOrderSchema_def built_order_def pipeline_order_def live_permit_simps
        intent_order_side_def z_min1_def z_unit_def z_positive_def num_eval)
qed

lemma live_accepted: "order_refusal pipeline_order live_permit = Inr None" "ExecutionPermitSchema (\<lambda>_. True) live_permit"
  by (simp_all add: order_refusal_def pipeline_order_def live_permit_simps permitCoversOrder_def toBase6_one
      decimalToBase_half price_bound_def cashNeededFor_def signed_divide_int_def ExecutionPermitSchema_def z_min1_def z_nonneg_def num_eval)

lemma live_fields: "permit_id live_permit = ''p1''" "single_use live_permit" "expires_at live_permit = 61000" "p_lease_epoch live_permit = Fin 1"
  by (simp_all add: live_permit_simps)

lemma live_submits:
  "wo_placed (snd (submit (\<lambda>_. True) (mem_deps (sample_env (Sub_Fail ''SUBMISSION_UNKNOWN'' ''timeout'')))
     pipeline_order live_permit (sample_world\<lparr>wo_db := d\<rparr>))) = [pipeline_order]"
  by (simp add: run_defs live_accepted live_fields pipeline_fields after_failure_def Let_def)

lemma live_gate_run:
  "\<exists>d'. validateAndReserve (\<lambda>_. True) (mk_kernel None None None None) (\<lambda>_. pg_authority sample_attempt)
      ''q1'' ''d1'' live_gate funded_db = (Inr (Ok (decision_for live_gate ''d1'' live_permit, live_permit)), d') \<and>
    row_of r_id '''' (reservations d') = None"
proof -
  from live_grant obtain d' where grant: "kernel_reserve (\<lambda>_. True) (mk_kernel None None None None)
      (\<lambda>_. pg_authority sample_attempt) ''q1'' (gate_request live_gate ''d1'' 1000000 500000) funded_db
      = (Inr (Ok live_permit), d')" and ids: "row_of r_id '''' (reservations d') = None" by blast
  from grant ids show ?thesis
    using granted_decision_valid [OF live_gate_order grant] by (simp add: validateAndReserve_def live_gate_order)
qed

definition live_start :: live_world where
  "live_start = \<lparr>lw_exec = sample_world\<lparr>wo_db := funded_db\<rparr>, lw_guard = None\<rparr>"

lemma live_decided:
  "executeG4Step is_uuid sample_pipeline (live_config cap) D live_env live_input w
     = step_trade is_uuid sample_pipeline (live_config cap) D live_env live_input (Fin (3 / 4)) (Fin 1) w"
proof -
  have "computeFinancialGate (ce_mode (se_call live_env)) (sc_min_edge (live_config cap)) (sc_admitted (live_config cap)) = Fin_ALLOW"
    by (simp add: computeFinancialGate_def live_env_def live_config_def sample_call_def)
  moreover have "\<not> uncertain (Fin (3 / 4))"
    by (simp add: uncertain_def num_le_def num_abs_def num_eval)
  moreover have "sc_size (live_config cap) b a p = Fin 1" for b a p by (simp add: live_config_def)
  moreover have "\<not> num_le (Fin 1) (Fin 0)" by (simp add: num_le_def)
  ultimately show ?thesis
    by (simp add: executeG4Step_def live_input_fields live_regime live_edge)
qed

lemma live_traded:
  "\<exists>d. step_trade (\<lambda>_. True) sample_pipeline (live_config cap) D live_env live_input (Fin (3 / 4)) (Fin 1) live_start
     = step_submit (\<lambda>_. True) sample_pipeline (live_config cap) D live_env live_input (Fin (3 / 4)) (Fin 1) pipeline_order live_permit
         (live_start\<lparr>lw_exec := sample_world\<lparr>wo_db := d\<rparr>\<rparr>) \<and> row_of r_id '''' (reservations d) = None"
proof -
  from live_gate_run obtain d' where run: "validateAndReserve (\<lambda>_. True) (mk_kernel None None None None)
      (\<lambda>_. pg_authority sample_attempt) ''q1'' ''d1'' live_gate funded_db
      = (Inr (Ok (decision_for live_gate ''d1'' live_permit, live_permit)), d')" and ids: "row_of r_id '''' (reservations d') = None" by blast
  have s: "pl_kernel sample_pipeline = mk_kernel None None None None" "pl_sha256 sample_pipeline = id"
    "pl_crypto sample_pipeline = (\<lambda>_. Inr ''sig'')" "pl_vault sample_pipeline = mk_vault None (Fin 137)"
    "ce_attempts (se_call live_env) = (\<lambda>_. sample_attempt)" "ce_quote (se_call live_env) = ''q1''" "ce_decision (se_call live_env) = ''d1''"
    "ce_order (se_call live_env) = ''o1''" "se_gate_intent live_env = ''i1''" "se_build_intent live_env = ''i2''" "se_dedupe live_env = ''k1''"
    "se_call live_env = sample_call"
    by (simp_all add: sample_pipeline_def sample_call_def live_env_def)
  show ?thesis
    by (rule exI [of _ d'])
      (simp add: step_trade_def s live_gate_eq [unfolded live_intent] run live_start_def ids live_build_run live_intent Let_def
         s(5) [simplified s(12)] s(6) [simplified s(12)] s(7) [simplified s(12)] s(8) [simplified s(12)])
qed

lemma live_passes:
  "before_submit (live_config (Some (Fin 1))) live_env live_input (Fin 1) pipeline_order None
     = (Inr None, snd (entry_check (Fin 0) (Fin 1) 1000 None))"
  by (simp add: before_submit_def live_config_def live_env_def live_input_fields usable_cap_def pipeline_order_def sample_call_def
      entry_check_allowed within_loss_cap_def isFiniteNonNegative_def was_halted_def num_le_def num_eval Let_def)

lemma live_placed:
  "wo_placed (lw_exec (snd (executeG4Step (\<lambda>_. True) sample_pipeline (live_config (Some (Fin 1)))
     (mem_deps (sample_env (Sub_Fail ''SUBMISSION_UNKNOWN'' ''timeout''))) live_env live_input live_start))) = [pipeline_order]"
    (is "wo_placed (lw_exec (snd (executeG4Step _ _ ?C ?D _ _ _))) = _")
proof -
  obtain d where t: "step_trade (\<lambda>_. True) sample_pipeline ?C ?D live_env live_input (Fin (3 / 4)) (Fin 1) live_start
     = step_submit (\<lambda>_. True) sample_pipeline ?C ?D live_env live_input (Fin (3 / 4)) (Fin 1) pipeline_order live_permit
         (live_start\<lparr>lw_exec := sample_world\<lparr>wo_db := d\<rparr>\<rparr>)"
    using live_traded by blast
  have sent: "wo_placed (snd (submit (\<lambda>_. True) ?D pipeline_order live_permit (sample_world\<lparr>wo_db := d\<rparr>))) = [pipeline_order]"
    by (rule live_submits)
  have "?D \<in> {mem_deps (sample_env (Sub_Fail ''SUBMISSION_UNKNOWN'' ''timeout'')), pg_deps undefined (sample_env (Sub_Fail ''SUBMISSION_UNKNOWN'' ''timeout''))}"
    by simp
  from abort_reserved_placed [OF this] sent show ?thesis
    unfolding live_decided t step_submit_def
    by (auto simp: live_start_def live_passes split: prod.splits sum.splits try_submit.splits)
qed

lemma release_same_ids: "map r_id (reservations (snd (release pl f n rid reason d))) = map r_id (reservations d)"
proof -
  have "list_all2 row_advance (reservations d) (reservations (snd (release pl f n rid reason d)))"
    using release_advance [of d pl f n rid reason] by (simp add: rows_advance_def)
  then show ?thesis by (induction rule: list_all2_induct) (simp_all add: row_advance_def)
qed

lemma row_of_None_ids: "map r_id (reservations d) = map r_id (reservations d') \<Longrightarrow>
    row_of r_id k (reservations d) = None \<longleftrightarrow> row_of r_id k (reservations d') = None"
  by (metis list.set_map row_of_None)

lemma kernel_release_same_ids: "reservations (snd (kernel_release k cash d)) = reservations d"
  by (auto simp: kernel_release_def releaseFunds_def upd_balance_def append_event_def Let_def split: option.splits prod.splits outcome.splits if_splits)

lemma abort_same_ids:
  assumes "D \<in> {mem_deps e, pg_deps read_int8 e}"
  shows "map r_id (reservations (wo_db (lw_exec (snd (abort_reserved P C D permit stage reason w))))) = map r_id (reservations (wo_db (lw_exec w)))"
proof -
  have each: "map r_id (reservations (wo_db (snd (each_caught (\<lambda>rid. d_rmRelease D rid Rel_CANCELLED) rids u)))) = map r_id (reservations (wo_db u))" for rids u
  proof (induction rids arbitrary: u)
    case (Cons rid rids)
    then show ?case
      using release_same_ids [of True "en_fault e rid" "en_now e" rid Rel_CANCELLED "wo_db u"]
      by (cases "release True (en_fault e rid) (en_now e) rid Rel_CANCELLED (wo_db u)") (simp add: wired_release [OF assms] on_part_def total_def)
  qed simp
  have "map r_id (reservations (wo_db (snd (releaseUnsubmittedReservation wrd fnd D permit u)))) = map r_id (reservations (wo_db u))" for wrd fnd u
    using each [of _ u] by (auto simp: releaseUnsubmittedReservation_def Let_def kernel_release_same_ids split: sum.splits option.splits)
  from this [of "sc_release_wired C" "w_funder (pl_wallet P)" "lw_exec w"] show ?thesis
    by (auto simp: abort_reserved_def split: prod.splits sum.splits)
qed

lemma live_refused:
  "\<exists>w'. executeG4Step (\<lambda>_. True) sample_pipeline (live_config None)
     (mem_deps (sample_env (Sub_Fail ''SUBMISSION_UNKNOWN'' ''timeout''))) live_env live_input live_start
     = (Inr (No_Trade At_Cap ''LIVE_CAP_UNCONFIGURED''), w') \<and> row_of r_id '''' (reservations (wo_db (lw_exec w'))) = None"
    (is "\<exists>w'. executeG4Step _ _ ?C ?D _ _ _ = _ \<and> _")
proof -
  obtain d where t: "step_trade (\<lambda>_. True) sample_pipeline ?C ?D live_env live_input (Fin (3 / 4)) (Fin 1) live_start
     = step_submit (\<lambda>_. True) sample_pipeline ?C ?D live_env live_input (Fin (3 / 4)) (Fin 1) pipeline_order live_permit
         (live_start\<lparr>lw_exec := sample_world\<lparr>wo_db := d\<rparr>\<rparr>)" and ids: "row_of r_id '''' (reservations d) = None"
    using live_traded by blast
  have b: "before_submit ?C live_env live_input (Fin 1) pipeline_order None = (Inr (Some (At_Cap, ''LIVE_CAP_UNCONFIGURED'')), None)"
    by (simp add: before_submit_def live_config_def usable_cap_def)
  have ids': "filter (\<lambda>rid. rid \<noteq> '''') (p_reservation_ids live_permit) = [''r1'']" by (simp add: live_permit_simps)
  have rel: "sc_release_wired ?C" by (simp add: live_config_def)
  let ?w = "live_start\<lparr>lw_exec := sample_world\<lparr>wo_db := d\<rparr>\<rparr>"
  let ?stop = "abort_reserved sample_pipeline ?C ?D live_permit At_Cap ''LIVE_CAP_UNCONFIGURED'' ?w"
  have run: "executeG4Step (\<lambda>_. True) sample_pipeline ?C ?D live_env live_input live_start = ?stop"
    unfolding live_decided t step_submit_def by (simp add: live_start_def b)
  have "fst ?stop = Inr (No_Trade At_Cap ''LIVE_CAP_UNCONFIGURED'')"
    by (simp add: abort_reserved_def releaseUnsubmittedReservation_def ids' rel split: prod.splits)
  moreover have "row_of r_id '''' (reservations (wo_db (lw_exec (snd ?stop)))) = None"
    using ids row_of_None_ids [OF abort_same_ids [where D = ?D and e = "sample_env (Sub_Fail ''SUBMISSION_UNKNOWN'' ''timeout'')" and C = ?C
        and permit = live_permit and P = sample_pipeline and stage = At_Cap and reason = "''LIVE_CAP_UNCONFIGURED''" and w = ?w]] by simp
  ultimately show ?thesis unfolding run by (metis prod.collapse)
qed

section \<open>Properties\<close>

text \<open>C9. Nothing reaches the venue past the guards of a live step. If a step places an order, on either wiring of the
  executor and from sound books, then live trading was admitted, the venue was open, there was a forecast that is
  not uncertain on a book that is neither dust nor in tight consensus, and the edge passed its floor. The risk gate, called
  on the step's intent, granted a permit and left books \<open>d\<close>; the builder built the order from that permit; the executor,
  given that order, that permit and \<open>d\<close>, placed it; and it is the one order the venue received. Of this order: its size is at
  most the sized one, and the sized notional at the order's price stays under the capital cap with the exposure already there;
  the measured loss is under the loss cap with the latch clear; the permit's cash respects the commissioned caps and is held on \<open>d\<close> by an ACTIVE
  reservation; its shares and price are inside the permit; and every pure check of the executor passed.\<close>

theorem live_step_past_all_guards:
  assumes sound: "sound (wo_db (lw_exec w))" and D: "D \<in> {mem_deps e, pg_deps read_int8 e}"
    and run: "executeG4Step is_uuid P C D E inp w = (r, w')" and placed: "wo_placed (lw_exec w') \<noteq> wo_placed (lw_exec w)"
  shows "sc_admitted C \<and> ce_mode (se_call E) \<notin> {Venue_UNAVAILABLE, Venue_UNKNOWN, Venue_READ_ONLY} \<and>
    (\<exists>p. (case si_override inp of Some q \<Rightarrow> Inr q | None \<Rightarrow> se_forecast E) = Inr (Some p) \<and> \<not> uncertain p \<and>
      classifyRegime (si_bid inp) (si_ask inp) \<in> {CONTESTED, Regime_NORMAL} \<and> er_trade (step_edge C E inp p) \<and>
      (let sz = sc_size C (si_bid inp) (si_ask inp) p;
           i = (\<lambda>iid. step_intent iid (se_dedupe E) inp sz (step_edge C E inp p));
           g = step_gate P E inp (i (se_gate_intent E))
       in \<exists>decision permit d ord signature shares price style wanted.
         validateAndReserve is_uuid (pl_kernel P) (\<lambda>n. pg_authority (ce_attempts (se_call E) n)) (ce_quote (se_call E))
           (ce_decision (se_call E)) g (wo_db (lw_exec w)) = (Inr (Ok (decision, permit)), d) \<and>
         buildSignedOrder (pl_sha256 P) is_uuid (pl_crypto P) (pl_vault P) (build_of P (se_call E) (i (se_build_intent E)) permit)
           (ce_order (se_call E)) = Inr (Ok (ord, signature)) \<and>
         ord = built_order (build_of P (se_call E) (i (se_build_intent E)) permit) (ce_order (se_call E)) shares price style \<and>
         toBase6 sz = Inr wanted \<and> shares \<le> wanted \<and> inside_permit permit shares price \<and>
         caps_respected g (the (max_cash_base permit)) \<and> permit_backed g permit (the (max_cash_base permit)) d \<and>
         sound d \<and> keeps_books (wo_db (lw_exec w)) d \<and>
         live_caps_hold C E inp sz ord (lw_guard w) \<and> submit_allowed is_uuid D ord permit \<and>
         wo_placed (snd (submit is_uuid D ord permit ((lw_exec w)\<lparr>wo_db := d\<rparr>))) = wo_placed (lw_exec w) @ [ord] \<and>
         wo_placed (lw_exec w') = wo_placed (lw_exec w) @ [ord]))"
proof -
  have "wo_placed (lw_exec (snd (executeG4Step is_uuid P C D E inp w))) \<noteq> wo_placed (lw_exec w)" using run placed by simp
  note decided = executeG4Step_placed [OF this]
  then obtain p where p: "(case si_override inp of Some q \<Rightarrow> Inr q | None \<Rightarrow> se_forecast E) = Inr (Some p)" "\<not> uncertain p"
      "classifyRegime (si_bid inp) (si_ask inp) \<in> {CONTESTED, Regime_NORMAL}" "er_trade (step_edge C E inp p)"
    and same: "executeG4Step is_uuid P C D E inp w = step_trade is_uuid P C D E inp p (sc_size C (si_bid inp) (si_ask inp) p) w"
    by blast
  have trade: "snd (step_trade is_uuid P C D E inp p (sc_size C (si_bid inp) (si_ask inp) p) w) = w'" using run same by simp
  have "wo_placed (lw_exec (snd (step_trade is_uuid P C D E inp p (sc_size C (si_bid inp) (si_ask inp) p) w))) \<noteq> wo_placed (lw_exec w)"
    using placed trade by simp
  note stages = step_trade_placed [OF sound D this, unfolded trade]
  show ?thesis unfolding Let_def by (intro conjI exI [of _ p] p stages) (use decided in simp_all)
qed

theorem live_step_past_all_guards_witness:
  "\<exists>p decision permit d shares price style. \<not> uncertain p \<and>
     validateAndReserve (\<lambda>_. True) (pl_kernel sample_pipeline) (\<lambda>n. pg_authority (ce_attempts (se_call live_env) n)) ''q1'' ''d1''
       (step_gate sample_pipeline live_env live_input (step_intent ''i1'' ''k1'' live_input (Fin 1)
         (step_edge (live_config (Some (Fin 1))) live_env live_input p))) funded_db = (Inr (Ok (decision, permit)), d) \<and>
     pipeline_order = built_order (build_of sample_pipeline (se_call live_env)
       (step_intent ''i2'' ''k1'' live_input (Fin 1) (step_edge (live_config (Some (Fin 1))) live_env live_input p)) permit) ''o1'' shares price style \<and>
     inside_permit permit shares price \<and> live_caps_hold (live_config (Some (Fin 1))) live_env live_input (Fin 1) pipeline_order None"
proof -
  let ?e = "sample_env (Sub_Fail ''SUBMISSION_UNKNOWN'' ''timeout'')"
  have sound: "sound (wo_db (lw_exec live_start))" by (simp add: live_start_def sample_sound)
  have s: "sc_size (live_config (Some (Fin 1))) b a p = Fin 1" "se_gate_intent live_env = ''i1''" "se_build_intent live_env = ''i2''"
    "se_dedupe live_env = ''k1''" "ce_order (se_call live_env) = ''o1''" "ce_quote (se_call live_env) = ''q1''"
    "ce_decision (se_call live_env) = ''d1''" "lw_guard live_start = None" "wo_db (lw_exec live_start) = funded_db"
    "wo_placed (lw_exec live_start) = []" for b a p
    by (simp_all add: live_config_def live_env_def live_start_def sample_call_def sample_world_def)
  have placed: "wo_placed (lw_exec (snd (executeG4Step (\<lambda>_. True) sample_pipeline (live_config (Some (Fin 1))) (mem_deps ?e) live_env live_input live_start)))
      \<noteq> wo_placed (lw_exec live_start)"
    unfolding live_placed s by simp
  from live_step_past_all_guards [OF sound insertI1 surjective_pairing placed, unfolded live_placed s Let_def append_Nil list.inject]
  show ?thesis by (elim conjE exE, hypsubst) (intro exI conjI, (assumption | simp only:)+)
qed

text \<open>C10. A live step that is refused after its cash was reserved gives the cash back. Let the books be sound, the release
  of reservations be wired in and the database be without faults, on either wiring of the executor. Then a refusal at signing, at the
  capital or loss cap, at the guard or at the latch (not a refusal by the executor, the last stage) leaves every balance exactly what it was,
  the books sound in the sense of the accounting invariant, the reservation of the step's intent RELEASED and none ACTIVE for it, and
  no order placed. (The last hypothesis: no id in the table's uuid column is the empty string.)\<close>

theorem refused_step_returns_cash:
  assumes sound: "sound (wo_db (lw_exec w))" and D: "D \<in> {mem_deps e, pg_deps read_int8 e}"
    and calm: "en_fault e = (\<lambda>_. NoFault)" and wrd: "sc_release_wired C"
    and run: "executeG4Step is_uuid P C D E inp w = (Inr (No_Trade stage reason), w')"
    and late: "stage \<in> {At_Sign, At_Cap, At_Loss_Cap, At_Guard, At_Latch}"
    and ids: "row_of r_id '''' (reservations (wo_db (lw_exec w'))) = None"
  shows "balances (wo_db (lw_exec w')) = balances (wo_db (lw_exec w)) \<and>
    wo_placed (lw_exec w') = wo_placed (lw_exec w) \<and> keeps_books (wo_db (lw_exec w)) (wo_db (lw_exec w')) \<and>
    (\<exists>r \<in> set (reservations (wo_db (lw_exec w'))). r_intent_id r = se_gate_intent E \<and> r_status r = R_RELEASED) \<and>
    (\<forall>r \<in> set (reservations (wo_db (lw_exec w'))). r_intent_id r = se_gate_intent E \<longrightarrow> r_status r \<noteq> R_ACTIVE)"
proof -
  from step_refused [OF run late] obtain p permit decision d gd where
    gate: "validateAndReserve is_uuid (pl_kernel P) (\<lambda>n. pg_authority (ce_attempts (se_call E) n)) (ce_quote (se_call E))
       (ce_decision (se_call E)) (step_gate P E inp (step_intent (se_gate_intent E) (se_dedupe E) inp
         (sc_size C (si_bid inp) (si_ask inp) p) (step_edge C E inp p))) (wo_db (lw_exec w)) = (Inr (Ok (decision, permit)), d)"
    and stop: "abort_reserved P C D permit stage reason (w\<lparr>lw_exec := (lw_exec w)\<lparr>wo_db := d\<rparr>, lw_guard := gd\<rparr>)
       = (Inr (No_Trade stage reason), w')" (is "abort_reserved _ _ _ _ _ _ ?u = _") .
  let ?g = "step_gate P E inp (step_intent (se_gate_intent E) (se_dedupe E) inp (sc_size C (si_bid inp) (si_ask inp) p) (step_edge C E inp p))"
  obtain s c where grant: "kernel_reserve is_uuid (pl_kernel P) (\<lambda>n. pg_authority (ce_attempts (se_call E) n)) (ce_quote (se_call E))
        (gate_request ?g (ce_decision (se_call E)) s c) (wo_db (lw_exec w)) = (Inr (Ok permit), d)"
    by (rule validateAndReserve_ok [OF gate])
  have backed: "permit_backed ?g permit (cashNeededFor s c) d" using grant_backed [OF grant] by simp
  have sd: "sound d" and books: "keeps_books (wo_db (lw_exec w)) d" using pg.kernel_reserve_keeps [OF sound grant] by simp_all
  have intent: "ti_intent_id (g_intent ?g) = se_gate_intent E" by (simp add: step_gate_def step_intent_def)
  have "row_of r_id '''' (reservations d) = None"
    using ids stop row_of_None_ids [OF abort_same_ids [OF D, of P C permit stage reason ?u]] by simp
  then have ids': "row_of r_id '''' (reservations (wo_db (lw_exec ?u))) = None" by simp
  have "sound (wo_db (lw_exec ?u))" "permit_backed ?g permit (cashNeededFor s c) (wo_db (lw_exec ?u))" using sd backed by simp_all
  note released = abort_reserved_releases [OF D calm wrd this ids' stop]
  then obtain rid where rid: "p_reservation_ids permit = [rid]"
    and freed: "wo_db (lw_exec w') = snd (release True NoFault (en_now e) rid Rel_CANCELLED d)" by auto
  have "balances (wo_db (lw_exec w')) = balances (wo_db (lw_exec w))"
    unfolding freed by (rule granted_then_released [OF sound grant rid])
  with released books show ?thesis by (simp add: intent) (meson keeps_books_trans)
qed

theorem refused_step_returns_cash_witness:
  "\<exists>w'. executeG4Step (\<lambda>_. True) sample_pipeline (live_config None)
     (mem_deps (sample_env (Sub_Fail ''SUBMISSION_UNKNOWN'' ''timeout''))) live_env live_input live_start
     = (Inr (No_Trade At_Cap ''LIVE_CAP_UNCONFIGURED''), w') \<and>
   balances (wo_db (lw_exec w')) = balances funded_db \<and>
   (\<exists>r \<in> set (reservations (wo_db (lw_exec w'))). r_intent_id r = ''i1'' \<and> r_status r = R_RELEASED)"
proof -
  let ?e = "sample_env (Sub_Fail ''SUBMISSION_UNKNOWN'' ''timeout'')"
  from live_refused obtain w' where run: "executeG4Step (\<lambda>_. True) sample_pipeline (live_config None) (mem_deps ?e) live_env live_input live_start
     = (Inr (No_Trade At_Cap ''LIVE_CAP_UNCONFIGURED''), w')" and ids: "row_of r_id '''' (reservations (wo_db (lw_exec w'))) = None" by blast
  have sound: "sound (wo_db (lw_exec live_start))" by (simp add: live_start_def sample_sound)
  have calm: "en_fault ?e = (\<lambda>_. NoFault)" and wrd: "sc_release_wired (live_config None)" and i: "se_gate_intent live_env = ''i1''"
    by (simp_all add: sample_env_def live_config_def live_env_def)
  have start: "wo_db (lw_exec live_start) = funded_db" by (simp add: live_start_def)
  from refused_step_returns_cash [OF sound, of "mem_deps ?e" ?e undefined, OF _ calm wrd run _ ids] run show ?thesis
    by (auto simp: i start)
qed

text \<open>
  A throw of the guard store leaves the step with the reservation still held: only refusals give it back.
\<close>

lemma guard_failure_keeps_reservation:
  assumes "usable_cap (sc_cap C)" and "usable_cap (sc_loss_cap C)" and "sc_guard_wired C" and "se_loss E = Inl failure"
    and "\<not> num_lt (the (sc_cap C)) (num_add (case si_portfolio_exposure inp of Some x \<Rightarrow> x | None \<Rightarrow> Fin 0) (num_mul sz (o_price ord)))"
  shows "step_submit is_uuid P C D E inp p sz ord permit w = (Inl failure, w)"
  using assms by (simp add: step_submit_def before_submit_def)

text \<open>The final rounding to four decimals can lower the floor below the configured one.\<close>

lemma rounding_lowers_floor: "num_lt (resolveEdgeFloor (fl (3004 / 100000)) (Fin 0) (Fin 0)) (fl (3004 / 100000))"
  by (simp add: resolveEdgeFloor_def Let_def num_max_def num_min_def num_le_def num_eval)

text \<open>A forecast that is not a number passes the test for uncertainty.\<close>

lemma nan_forecast_is_certain: "\<not> uncertain NaN"
  by (simp add: uncertain_def num_le_def num_abs_def num_eval)

text \<open>The size is computed from the probability of YES also when the NO token is quoted: a NO ask of 1/2 against a YES probability of 1/4 is an
  edge of 1/4, sized zero.\<close>

lemma no_side_sized_zero: "main_sizeIntent cap pnl bid (Fin (1 / 2)) (Fin (1 / 4)) = Fin 0"
  by (simp add: main_sizeIntent_def kellyShares_def kellyFraction_def num_le_def)

end
