(* ===== verification/Governance.thy ===== *)
theory Governance
  imports Domain JsString BaseUnits JsOrder
begin

text \<open>
  The control plane's decisions without a state of their own: the financial gate (\<open>src/pm/control/src/state.ts\<close>), the
  access states (\<open>access-state.ts\<close>), the autonomy charter (\<open>charter.ts\<close>), blue-green deployment (\<open>deployment.ts\<close>), the
  dependency dispositions of a release manifest (\<open>release.ts\<close>) and the release verdict (\<open>release-verdict.ts\<close>).
\<close>

section \<open>Gates\<close>

datatype gate_venue = GV_NORMAL | GV_POST_ONLY | GV_CANCEL_ONLY | GV_READ_ONLY | GV_RESTARTING | GV_UNAVAILABLE | GV_UNKNOWN

datatype financial_gate = Gate_ALLOW | Gate_ENTRY_BLOCKED | Gate_FINANCIAL_BLOCKED

definition computeGate :: "operation_mode \<Rightarrow> runtime_state \<Rightarrow> gate_venue \<Rightarrow> financial_gate" where
  "computeGate mode health venue =
     (if mode \<noteq> Mode_LIVE then Gate_FINANCIAL_BLOCKED
      else if health \<in> {Run_STOPPED, Run_RECOVERING, Run_ACCESS_BLOCKED, Run_EMERGENCY_HALT} \<or> venue \<in> {GV_UNAVAILABLE, GV_UNKNOWN}
        then Gate_FINANCIAL_BLOCKED
      else if health \<in> {Run_BOOTSTRAPPING, Run_DEGRADED, Run_PROTECTIVE_PAUSE} \<or>
          venue \<in> {GV_POST_ONLY, GV_CANCEL_ONLY, GV_RESTARTING}
        then Gate_ENTRY_BLOCKED
      else Gate_ALLOW)"

datatype access_state = Acc_NORMAL | Acc_GEO_BLOCKED | Acc_BLOCKED | Acc_CLOSE_ONLY | Acc_UNKNOWN

datatype access_action = ORDER_SUBMIT | ORDER_CANCEL | REDUCE_ONLY | READ

fun accessAllows :: "access_state \<Rightarrow> access_action \<Rightarrow> unit outcome" where
  "accessAllows Acc_NORMAL act = Ok ()"
| "accessAllows Acc_GEO_BLOCKED act = (if act = READ then Ok () else Refused ''ACCESS_BLOCKED'')"
| "accessAllows Acc_BLOCKED act = (if act = READ then Ok () else Refused ''ACCESS_BLOCKED'')"
| "accessAllows Acc_CLOSE_ONLY act = (if act = ORDER_CANCEL \<or> act = REDUCE_ONLY then Ok () else Refused ''ACCESS_CLOSE_ONLY'')"
| "accessAllows Acc_UNKNOWN act = Refused ''ACCESS_UNKNOWN''"

fun computeAccessGate :: "access_state \<Rightarrow> financial_gate" where
  "computeAccessGate Acc_NORMAL = Gate_ALLOW"
| "computeAccessGate Acc_CLOSE_ONLY = Gate_ENTRY_BLOCKED"
| "computeAccessGate _ = Gate_FINANCIAL_BLOCKED"

section \<open>The charter\<close>

record charter =
  ch_wallet :: string
  ch_cap :: jsnum
  ch_loss_stop :: jsnum
  ch_strategies :: "string list"
  ch_classes :: "string list"
  ch_expires :: ms
  ch_release :: string

datatype charter_action = Ch_SUBMIT | Ch_CANCEL | Ch_REDUCE | Ch_EXIT | Ch_REDEEM
  | PROMOTE_STRATEGY | INCREASE_CAPITAL | CHANGE_SIGNER | EXTEND_CHARTER | Other_Action string

record charter_request =
  cq_action :: charter_action
  cq_strategy :: "string option"
  cq_exposure :: "jsnum option"
  cq_class :: "string option"

text \<open>The schema of a charter.\<close>

definition CharterSchema :: "charter \<Rightarrow> bool" where
  "CharterSchema c \<longleftrightarrow> z_min1 (ch_wallet c) \<and> z_positive (ch_cap c) \<and> z_unit (ch_loss_stop c) \<and>
     ch_strategies c \<noteq> [] \<and> ch_classes c \<noteq> [] \<and> z_min1 (ch_release c)"

definition commissionCharter :: "charter \<Rightarrow> charter option" where
  "commissionCharter input = (if CharterSchema input then Some input else None)"

definition ROUTINE_ACTIONS :: "charter_action list" where
  "ROUTINE_ACTIONS = [Ch_SUBMIT, Ch_CANCEL, Ch_REDUCE, Ch_EXIT, Ch_REDEEM]"

definition GOVERNANCE_ACTIONS :: "charter_action list" where
  "GOVERNANCE_ACTIONS = [PROMOTE_STRATEGY, INCREASE_CAPITAL, CHANGE_SIGNER, EXTEND_CHARTER]"

text \<open>An optional string that is given and not empty must be on the list.\<close>

definition listed_if_given :: "string option \<Rightarrow> string list \<Rightarrow> bool" where
  "listed_if_given x allowed \<longleftrightarrow> (case x of None \<Rightarrow> True | Some s \<Rightarrow> s = [] \<or> s \<in> set allowed)"

definition charterAllows :: "charter \<Rightarrow> ms \<Rightarrow> charter_request \<Rightarrow> unit outcome" where
  "charterAllows c now q =
     (if ch_expires c < now then Refused ''CHARTER_EXPIRED''
      else if cq_action q \<in> set GOVERNANCE_ACTIONS then Refused ''GOVERNANCE_ONLY''
      else if cq_action q \<notin> set ROUTINE_ACTIONS then Refused ''UNKNOWN_ACTION''
      else if \<not> listed_if_given (cq_strategy q) (ch_strategies c) then Refused ''STRATEGY_NOT_QUALIFIED''
      else if \<not> listed_if_given (cq_class q) (ch_classes c) then Refused ''MARKET_CLASS_FORBIDDEN''
      else if (case cq_exposure q of None \<Rightarrow> False | Some x \<Rightarrow> num_lt (ch_cap c) x) then Refused ''CAPITAL_CAP_EXCEEDED''
      else Ok ())"

section \<open>Schema versions\<close>

text \<open>\<open>s.split(c)\<close>, for a single character.\<close>

fun split_char :: "char \<Rightarrow> string \<Rightarrow> string list" where
  "split_char c [] = [[]]"
| "split_char c (x # xs) = (if x = c then [] # split_char c xs
     else case split_char c xs of [] \<Rightarrow> [[x]] | p # ps \<Rightarrow> (x # p) # ps)"

text \<open>\<open>Number.parseInt(s, 10)\<close>: white space, a sign, the longest run of digits.\<close>

definition parseInt :: "string \<Rightarrow> jsnum" where
  "parseInt s =
     (let t = dropWhile is_space s;
          neg = (t \<noteq> [] \<and> hd t = CHR ''-'');
          u = (if t \<noteq> [] \<and> hd t \<in> {CHR ''-'', CHR ''+''} then tl t else t);
          ds = takeWhile is_digit u
      in case parse_nonempty 10 ds of
           None \<Rightarrow> NaN
         | Some n \<Rightarrow> if neg then num_neg (num_of_bigint n) else num_of_bigint n)"

datatype ordering = Less_Than | Same | Greater_Than

definition order_nums :: "jsnum \<Rightarrow> jsnum \<Rightarrow> ordering \<Rightarrow> ordering" where
  "order_nums a b rest = (if num_lt a b then Less_Than else if num_lt b a then Greater_Than else rest)"

fun compare_parts :: "jsnum list \<Rightarrow> jsnum list \<Rightarrow> ordering" where
  "compare_parts [] [] = Same"
| "compare_parts (a # as) [] = order_nums a (Fin 0) (compare_parts as [])"
| "compare_parts [] (b # bs) = order_nums (Fin 0) b (compare_parts [] bs)"
| "compare_parts (a # as) (b # bs) = order_nums a b (compare_parts as bs)"

definition version_parts :: "string \<Rightarrow> jsnum list" where
  "version_parts v = map parseInt (split_char (CHR ''.'') v)"

definition compareSchemaVersions :: "string \<Rightarrow> string \<Rightarrow> ordering" where
  "compareSchemaVersions l r = compare_parts (version_parts l) (version_parts r)"

text \<open>Whether the schema may be used, and whether a migration is needed.\<close>

definition validateSchemaCompatibility :: "string \<Rightarrow> string \<Rightarrow> bool outcome" where
  "validateSchemaCompatibility current candidate' =
     (case compareSchemaVersions candidate' current of
        Less_Than \<Rightarrow> Refused ''INCOMPATIBLE_SCHEMA_ROLLBACK''
      | Same \<Rightarrow> Ok False
      | Greater_Than \<Rightarrow> Ok True)"

section \<open>Deployment\<close>

datatype slot = BLUE | GREEN

record deployment_candidate =
  dc_release :: string
  dc_digest :: string
  dc_schema :: string
  dc_migration :: string
  dc_slot :: slot
  dc_owner_approved :: bool

record deployment_state =
  ds_slot :: slot
  ds_release :: string
  ds_schema :: string
  ds_migration :: string

text \<open>The pattern \<open>sha256:\<close> and 64 hexadecimal digits, in any case.\<close>

definition is_hex :: "char \<Rightarrow> bool" where
  "is_hex c \<longleftrightarrow> digit_val 16 c \<noteq> None"

definition lower_char :: "char \<Rightarrow> char" where
  "lower_char c = (if 65 \<le> (of_char c :: int) \<and> (of_char c :: int) \<le> 90 then char_of (of_char c + 32 :: nat) else c)"

definition digest_ok :: "string \<Rightarrow> bool" where
  "digest_ok s \<longleftrightarrow> map lower_char (take 7 s) = ''sha256:'' \<and> length (drop 7 s) = 64 \<and> list_all is_hex (drop 7 s)"

text \<open>The mode of a deployment is always LIVE. A success carries its code and the slot.\<close>

definition validateDeploymentCandidate :: "deployment_candidate \<Rightarrow> deployment_state \<Rightarrow> (string \<times> slot) outcome" where
  "validateDeploymentCandidate c s =
     (if dc_release c = [] then Refused ''RELEASE_ID_REQUIRED''
      else if \<not> digest_ok (dc_digest c) then Refused ''IMAGE_DIGEST_INVALID''
      else if dc_migration c = [] then Refused ''MIGRATION_HASH_REQUIRED''
      else if dc_slot c = ds_slot s then Refused ''TARGET_SLOT_INVALID''
      else case validateSchemaCompatibility (ds_schema s) (dc_schema c) of
        Refused code \<Rightarrow> Refused code
      | Ok _ \<Rightarrow> if \<not> dc_owner_approved c then Refused ''LIVE_PROMOTION_REQUIRES_OWNER_APPROVAL''
          else Refused ''ALREADY_LIVE'')"

definition selectBlueGreenSlot :: "deployment_state \<Rightarrow> slot" where
  "selectBlueGreenSlot s = (if ds_slot s = BLUE then GREEN else BLUE)"

definition planBlueGreenDeployment :: "deployment_state \<Rightarrow> deployment_candidate \<Rightarrow> (string \<times> slot) outcome" where
  "planBlueGreenDeployment s c =
     (if dc_slot c \<noteq> selectBlueGreenSlot s then Refused ''TARGET_SLOT_MISMATCH'' else validateDeploymentCandidate c s)"

definition rollbackDeployment :: "deployment_state \<Rightarrow> deployment_candidate \<Rightarrow> (string \<times> slot) outcome" where
  "rollbackDeployment s c =
     (if dc_schema c \<noteq> ds_schema s then Refused ''INCOMPATIBLE_SCHEMA_ROLLBACK''
      else if dc_slot c = ds_slot s then Refused ''ROLLBACK_SLOT_INVALID''
      else Ok (''ROLLBACK_ALLOWED'', dc_slot c))"

section \<open>Release\<close>

datatype disposition = KEEP | ADAPT | REWRITE | REMOVE | QUARANTINE

record dependency =
  dp_version :: string
  dp_resolved :: bool
  dp_disposition :: disposition

type_synonym dependencies = "(string \<times> dependency) list"

definition assertDependencyResolved :: "dependencies \<Rightarrow> string \<Rightarrow> bool" where
  "assertDependencyResolved deps nm =
     (case map_of deps nm of
        None \<Rightarrow> False
      | Some d \<Rightarrow> dp_resolved d \<and> dp_disposition d \<noteq> REMOVE)"

definition allDependenciesResolved :: "dependencies \<Rightarrow> bool" where
  "allDependenciesResolved deps \<longleftrightarrow> list_all (assertDependencyResolved deps) (map fst deps)"

record release_evidence =
  ev_fault :: "jsnum \<times> jsnum"
  ev_sdk :: "jsnum \<times> jsnum"
  ev_trace :: "jsnum \<times> jsnum"
  ev_ci_green :: bool
  ev_shadow :: bool
  ev_days :: jsnum
  ev_fills :: jsnum
  ev_keystore :: bool
  ev_wrapper :: bool

definition unit_blockers :: "release_evidence \<Rightarrow> string list" where
  "unit_blockers ev =
     (if num_lt (fst (ev_fault ev)) (snd (ev_fault ev)) then [''fault contracts''] else []) @
     (if num_lt (fst (ev_sdk ev)) (snd (ev_sdk ev)) then [''SDK offline contracts''] else []) @
     (if num_lt (fst (ev_trace ev)) (snd (ev_trace ev)) then [''traceability''] else []) @
     (if \<not> ev_ci_green ev then [''CI gate red''] else [])"

definition live_open :: "release_evidence \<Rightarrow> string list" where
  "live_open ev =
     (if num_lt (ev_days ev) (Fin 30) then [''prospective observation''] else []) @
     (if num_le (ev_fills ev) (Fin 0) then [''no authenticated live fills''] else []) @
     (if \<not> ev_keystore ev then [''Keystore signing path not wired''] else []) @
     (if \<not> ev_wrapper ev then [''POLY_1271 wrapper absent''] else [])"

datatype release_tier = GO_LIVE | NO_GO

definition releaseVerdict :: "release_evidence \<Rightarrow> release_tier \<times> string list" where
  "releaseVerdict ev =
     (if unit_blockers ev \<noteq> [] then (NO_GO, unit_blockers ev)
      else if ev_shadow ev \<and> live_open ev \<noteq> [] then (GO_LIVE, ''unit gates green; live evidence pending'' # live_open ev)
      else if live_open ev = [] \<and> ev_shadow ev then (GO_LIVE, [''live evidence present''])
      else (GO_LIVE, ''unit gates green'' # live_open ev))"

section \<open>What the gates let through\<close>

lemma computeGate_allow:
  "computeGate mode health venue = Gate_ALLOW \<longleftrightarrow> mode = Mode_LIVE \<and> health = Run_ACTIVE \<and> venue \<in> {GV_NORMAL, GV_READ_ONLY}"
  by (cases mode; cases health; cases venue) (simp_all add: computeGate_def)

lemma accessAllows_submit: "accessAllows st ORDER_SUBMIT = Ok () \<longleftrightarrow> computeAccessGate st = Gate_ALLOW"
  by (cases st) simp_all

text \<open>Reading is refused while only closing is allowed, although the comment allows reads there too.\<close>

lemma close_only_refuses_reads: "accessAllows Acc_CLOSE_ONLY READ = Refused ''ACCESS_CLOSE_ONLY''"
  by simp

text \<open>
  A charter lets exactly the routine actions through, before its expiry, for its strategies and market classes, up to its cap. An
  empty name counts as not given, and an exposure that is not a number passes the cap.
\<close>

lemma charterAllows_iff:
  "charterAllows c now q = Ok () \<longleftrightarrow> now \<le> ch_expires c \<and> cq_action q \<in> set ROUTINE_ACTIONS \<and>
     cq_strategy q \<in> {None, Some []} \<union> Some ` set (ch_strategies c) \<and> cq_class q \<in> {None, Some []} \<union> Some ` set (ch_classes c) \<and>
     (case cq_exposure q of None \<Rightarrow> True | Some x \<Rightarrow> \<not> num_lt (ch_cap c) x)"
  by (auto simp: charterAllows_def listed_if_given_def ROUTINE_ACTIONS_def GOVERNANCE_ACTIONS_def split: option.splits)

lemma nan_exposure_passes_cap: "cq_exposure q = Some NaN \<Longrightarrow> charterAllows c now q = charterAllows c now (q\<lparr>cq_exposure := None\<rparr>)"
  by (simp add: charterAllows_def)

text \<open>The promotion path is closed: the active deployment is always LIVE, so no candidate is ever accepted.\<close>

lemma blue_green_never_promotes: "planBlueGreenDeployment s c \<noteq> Ok x"
  by (auto simp: planBlueGreenDeployment_def validateDeploymentCandidate_def split: outcome.splits if_splits)

text \<open>The verdict is GO_LIVE on unit evidence alone, which its comment excludes.\<close>

lemma go_live_on_unit_evidence:
  "fst (releaseVerdict ev) = GO_LIVE \<longleftrightarrow> unit_blockers ev = []"
  by (simp add: releaseVerdict_def)

lemma allDependenciesResolved_iff:
  "distinct (map fst deps) \<Longrightarrow> allDependenciesResolved deps \<longleftrightarrow> (\<forall>(nm, d) \<in> set deps. dp_resolved d \<and> dp_disposition d \<noteq> REMOVE)"
  by (auto simp: allDependenciesResolved_def assertDependencyResolved_def list_all_iff split: option.splits)

section \<open>Schema versions are compared as dotted numbers\<close>

definition version_str :: "int list \<Rightarrow> string" where
  "version_str ns = join_with ''.'' (map digits_str ns)"

text \<open>The reference order: numbers by position, a missing one counts as zero.\<close>

definition part_at :: "int list \<Rightarrow> nat \<Rightarrow> int" where
  "part_at ns i = (if i < length ns then ns ! i else 0)"

definition older_than :: "int list \<Rightarrow> int list \<Rightarrow> bool" where
  "older_than as bs \<longleftrightarrow> (\<exists>i. part_at as i < part_at bs i \<and> (\<forall>j < i. part_at as j = part_at bs j))"

lemma split_char_plain: "c \<notin> set x \<Longrightarrow> split_char c x = [x]"
  by (induction x) auto

lemma split_char_append: "c \<notin> set x \<Longrightarrow> split_char c (x @ c # r) = x # split_char c r"
  by (induction x) auto

lemma split_char_join: "ns \<noteq> [] \<Longrightarrow> \<forall>x \<in> set ns. c \<notin> set x \<Longrightarrow> split_char c (join_with [c] ns) = ns"
  by (induction "[c]" ns rule: join_with.induct) (simp_all add: split_char_plain split_char_append)

lemma takeWhile_all: "\<forall>x \<in> set xs. P x \<Longrightarrow> takeWhile P xs = xs"
  by (induction xs) auto

lemma parseInt_digits_str:
  assumes "0 \<le> n" and "n < 2 ^ 53"
  shows "parseInt (digits_str n) = Fin (of_int n)"
proof -
  obtain s where s: "s = digits_str n" by blast
  have d: "\<forall>c \<in> set s. is_digit c" and ne: "s \<noteq> []" using digits_str_digits [OF assms(1)] by (simp_all add: s)
  have hd: "is_digit (hd s)" using d ne by simp
  have sp: "dropWhile is_space s = s" using is_digit_not_space [OF hd] ne by (cases s) simp_all
  have sg: "hd s \<noteq> CHR ''-''" "hd s \<noteq> CHR ''+''" using hd by (auto simp: is_digit_def)
  have val: "parse_nonempty 10 s = Some n" using parse_digits_str [OF assms(1), of 0] ne by (simp add: parse_nonempty_def s)
  have "parseInt s = num_of_bigint n"
    unfolding parseInt_def Let_def sp using sg by (simp add: takeWhile_all [OF d] val)
  with assms show ?thesis by (simp add: num_of_bigint_exact s)
qed

lemma version_parts_str:
  assumes "ns \<noteq> []" and "\<forall>n \<in> set ns. 0 \<le> n \<and> n < 2 ^ 53"
  shows "version_parts (version_str ns) = map (\<lambda>n. Fin (of_int n)) ns"
proof -
  have dot: "\<not> is_digit (CHR ''.'')" by (simp add: is_digit_def)
  have "CHR ''.'' \<notin> set (digits_str n)" if "n \<in> set ns" for n
    using digits_str_digits [of n] assms(2) that dot by blast
  then have "split_char (CHR ''.'') (version_str ns) = map digits_str ns"
    using split_char_join [of "map digits_str ns" "CHR ''.''"] assms(1) by (simp add: version_str_def)
  with assms(2) show ?thesis by (simp add: version_parts_def parseInt_digits_str)
qed

lemma part_at_simps: "part_at [] i = 0" "part_at (n # ns) 0 = n" "part_at (n # ns) (Suc i) = part_at ns i"
  by (simp_all add: part_at_def)

lemma older_than_step:
  assumes "part_at as 0 = a" and "part_at bs 0 = b" and "\<And>i. part_at as (Suc i) = part_at as' i" and "\<And>i. part_at bs (Suc i) = part_at bs' i"
  shows "older_than as bs \<longleftrightarrow> a < b \<or> a = b \<and> older_than as' bs'"
proof
  assume "older_than as bs"
  then obtain i where i: "part_at as i < part_at bs i" "\<forall>j < i. part_at as j = part_at bs j" by (auto simp: older_than_def)
  then show "a < b \<or> a = b \<and> older_than as' bs'"
  proof (cases i)
    case (Suc k)
    have "part_at as' k < part_at bs' k" using i(1) assms(3,4) by (simp add: Suc)
    moreover have "part_at as' j = part_at bs' j" if "j < k" for j using i(2) that assms(3,4) by (metis Suc Suc_less_eq)
    moreover have "a = b" using i(2) assms(1,2) by (auto simp: Suc)
    ultimately have "part_at as' k < part_at bs' k" "\<forall>j < k. part_at as' j = part_at bs' j" "a = b" by blast+
    then show ?thesis by (auto simp: older_than_def)
  qed (use i assms in auto)
next
  assume "a < b \<or> a = b \<and> older_than as' bs'"
  then show "older_than as bs"
  proof
    assume "a < b"
    with assms show ?thesis by (auto simp: older_than_def intro!: exI [of _ 0])
  next
    assume r: "a = b \<and> older_than as' bs'"
    then obtain i where "part_at as' i < part_at bs' i" "\<forall>j < i. part_at as' j = part_at bs' j" by (auto simp: older_than_def)
    with r assms show ?thesis by (auto simp: older_than_def less_Suc_eq_0_disj intro!: exI [of _ "Suc i"])
  qed
qed

lemma older_than_Nil: "\<not> older_than [] []"
  by (simp add: older_than_def part_at_def)

lemmas older_than_simps =
  older_than_Nil
  older_than_step [of "a # as" a "[]" 0 as "[]" for a as, OF part_at_simps(2) part_at_simps(1) part_at_simps(3), simplified part_at_simps, simplified]
  older_than_step [of "[]" 0 "b # bs" b "[]" bs for b bs, OF part_at_simps(1) part_at_simps(2) _ part_at_simps(3), simplified part_at_simps, simplified]
  older_than_step [of "a # as" a "b # bs" b as bs for a as b bs, OF part_at_simps(2) part_at_simps(2) part_at_simps(3) part_at_simps(3)]

definition order_ints :: "int list \<Rightarrow> int list \<Rightarrow> ordering" where
  "order_ints as bs = (if older_than as bs then Less_Than else if older_than bs as then Greater_Than else Same)"

abbreviation "doubles \<equiv> map (\<lambda>n :: int. Fin (of_int n))"

lemma compare_parts_Nil:
  "(compare_parts (doubles as) [] = Less_Than \<longleftrightarrow> older_than as []) \<and> (compare_parts (doubles as) [] = Greater_Than \<longleftrightarrow> older_than [] as) \<and>
   (compare_parts [] (doubles as) = Less_Than \<longleftrightarrow> older_than [] as) \<and> (compare_parts [] (doubles as) = Greater_Than \<longleftrightarrow> older_than as [])"
  by (induction as) (auto simp: older_than_simps order_nums_def)

lemma compare_parts_nums:
  "(compare_parts (doubles as) (doubles bs) = Less_Than \<longleftrightarrow> older_than as bs) \<and>
   (compare_parts (doubles as) (doubles bs) = Greater_Than \<longleftrightarrow> older_than bs as)"
proof (induction as bs rule: list_induct2')
  case (4 a as b bs)
  then show ?case by (auto simp: older_than_simps order_nums_def)
next
  case (2 a as)
  show ?case using compare_parts_Nil [of "a # as"] by simp
next
  case (3 b bs)
  show ?case using compare_parts_Nil [of "b # bs"] by simp
qed (simp add: older_than_Nil)

section \<open>Properties\<close>

text \<open>Schema migrations are forward only. For versions written as dotted decimal numbers below \<open>2 ^ 53\<close>, a candidate is
  refused exactly when its version is older than the active one, comparing the numbers by position with missing ones as zero,
  and is asked to migrate exactly when it is newer; the text of the versions does not matter beyond that.\<close>

theorem schema_forward_only:
  assumes "as \<noteq> []" and "bs \<noteq> []" and "\<forall>n \<in> set as \<union> set bs. 0 \<le> n \<and> n < 2 ^ 53"
  shows "validateSchemaCompatibility (version_str bs) (version_str as) =
    (if older_than as bs then Refused ''INCOMPATIBLE_SCHEMA_ROLLBACK'' else Ok (older_than bs as))"
proof -
  have "version_parts (version_str as) = doubles as" "version_parts (version_str bs) = doubles bs"
    using assms by (simp_all add: version_parts_str)
  with compare_parts_nums [of as bs] show ?thesis
    by (cases "compare_parts (doubles as) (doubles bs)") (auto simp: validateSchemaCompatibility_def compareSchemaVersions_def)
qed

theorem schema_forward_only_witness:
  "validateSchemaCompatibility (version_str [1, 10]) (version_str [1, 9, 5]) = Refused ''INCOMPATIBLE_SCHEMA_ROLLBACK'' \<and> older_than [1, 9, 5] [1, 10]"
proof -
  have "older_than [1, 9, 5] [1, 10]" by (simp add: older_than_simps)
  with schema_forward_only [of "[1, 9, 5]" "[1, 10]"] show ?thesis by simp
qed

text \<open>A part that does not start with a number compares equal to everything, so a version with a prefix is never older.\<close>

lemma prefixed_version_never_older: "validateSchemaCompatibility ''v2'' ''v1'' = Ok False"
  by (simp add: validateSchemaCompatibility_def compareSchemaVersions_def version_parts_def parseInt_def parse_nonempty_def
      is_space_def is_digit_def order_nums_def)

end
