(* ===== verification/ControlStore.thy ===== *)
theory ControlStore
  imports Orchestrator
begin

text \<open>
  The control plane's stores and loops: the order persistence, the reconciler and the supervisor of
  \<open>src/pm/control/src/persistence.ts\<close>, \<open>reconciler.ts\<close> and \<open>supervisor.ts\<close>, and their PostgreSQL versions
  (\<open>persistence-pg.ts\<close>) over \<open>recovery_ledger\<close> and the singleton row of \<open>supervisor_state\<close>. Reconciliation calls the
  executor's \<open>reconcile\<close>. The timers that start a periodic run are input; a run that fails is a step.
\<close>

section \<open>In memory\<close>

record control =
  co_store :: "(string \<times> lifecycle) list"
  co_counters :: "(uuid \<times> int) list"

definition persistence_get :: "string \<Rightarrow> control \<Rightarrow> lifecycle option" where
  "persistence_get oid c = map_of (co_store c) oid"

definition persistence_set :: "string \<Rightarrow> lifecycle \<Rightarrow> control \<Rightarrow> control" where
  "persistence_set oid st c = c\<lparr>co_store := map_set oid st (co_store c)\<rparr>"

definition listUnknown :: "control \<Rightarrow> string list" where
  "listUnknown c = map fst (filter (\<lambda>e. snd e = SUBMISSION_UNKNOWN) (co_store c))"

text \<open>The first error ends the loop; what was stored before it stays.\<close>

fun reconcile_ids :: "('w deps) \<Rightarrow> string list \<Rightarrow> ('w \<times> control, unit) eff" where
  "reconcile_ids D [] s = (Inr (), s)"
| "reconcile_ids D (oid # oids) (w, c) =
     (case reconcile D oid w of
        (Inl e, w') \<Rightarrow> (Inl e, (w', c))
      | (Inr st, w') \<Rightarrow> reconcile_ids D oids (w', persistence_set oid st c))"

definition reconcileAll :: "'w deps \<Rightarrow> ('w \<times> control, unit) eff" where
  "reconcileAll D s = reconcile_ids D (listUnknown (snd s)) s"

text \<open>The state of an orchestration that went through.\<close>

fun onOrchestrateResult :: "pipeline_result \<Rightarrow> control \<Rightarrow> control" where
  "onOrchestrateResult (Live st ord _) c =
     (let c1 = persistence_set (order_id ord) st c;
          k = (case map_of (co_counters c) (order_id ord) of None \<Rightarrow> 0 | Some n \<Rightarrow> n)
      in c1\<lparr>co_counters := map_set (order_id ord) (k + 1) (co_counters c1)\<rparr>)"
| "onOrchestrateResult _ c = c"

text \<open>One tick of the periodic reconciliation: a failure is recorded under a key of its own and the loop goes on.\<close>

definition reconcile_tick :: "'w deps \<Rightarrow> string \<Rightarrow> 'w \<times> control \<Rightarrow> 'w \<times> control" where
  "reconcile_tick D error_key s =
     (case reconcileAll D s of
        (Inr _, s') \<Rightarrow> s'
      | (Inl _, (w, c)) \<Rightarrow> (w, persistence_set error_key DEFINITIVE_REJECT c))"

definition getHealthReport :: "control \<Rightarrow> nat \<times> int \<times> nat" where
  "getHealthReport c =
     (let unknown = length (listUnknown c) in (unknown, sum_list (map snd (co_counters c)), unknown))"

section \<open>PostgreSQL\<close>

record supervisor_row =
  sv_total :: int
  sv_unknown :: int
  sv_unresolved :: int
  sv_runs :: int

definition pg_listUnknown :: "db \<Rightarrow> uuid list" where
  "pg_listUnknown d = map rc_order_id (filter (\<lambda>x. rc_state x = SUBMISSION_UNKNOWN) (recovery d))"

definition pg_persistence_get :: "uuid \<Rightarrow> db \<Rightarrow> lifecycle option" where
  "pg_persistence_get oid d = map_option rc_state (row_of rc_order_id oid (recovery d))"

text \<open>The row a plain INSERT makes, with the defaults of the columns.\<close>

definition default_recovery :: "ms \<Rightarrow> uuid \<Rightarrow> lifecycle \<Rightarrow> recovery_row" where
  "default_recovery now oid st = \<lparr>rc_order_id = oid, rc_venue_order_id = None, rc_permit_id = None, rc_state = st,
     rc_submitted_at = None, rc_acknowledged_at = None, rc_resolved = False, rc_resolved_at = None,
     rc_resolved_state = None, rc_fill_shares = ''0'', rc_fill_cash = ''0'', rc_created_at = now, rc_updated_at = now\<rparr>"

definition pg_persistence_set :: "ledger_env \<Rightarrow> ms \<Rightarrow> uuid \<Rightarrow> lifecycle \<Rightarrow> (db, unit) eff" where
  "pg_persistence_set e now oid st = pg_stmt (lg_fault e) (\<lambda>d.
     case row_of rc_order_id oid (recovery d) of
       Some _ \<Rightarrow> upd_recovery oid (\<lambda>x :: recovery_row. x\<lparr>rc_state := st, rc_updated_at := now\<rparr>) d
     | None \<Rightarrow>
         if \<not> lg_order_known e oid then Inl fk_violation
         else let t = recovery d @ [default_recovery now oid st]
           in if list_all state_check t then Inr ((), d\<lparr>recovery := t\<rparr>) else Inl check_violation)"

text \<open>One order of \<open>PgReconciler.reconcileAll\<close>: the executor's answer is written to the row, and a definitive one resolves it.\<close>

definition pg_reconcile_order :: "ledger_env \<Rightarrow> ms \<Rightarrow> world deps \<Rightarrow> uuid \<Rightarrow> (world, lifecycle) eff" where
  "pg_reconcile_order e now D oid =
     bind_eff (reconcile D oid) (\<lambda>st.
     bind_eff (on_db (pg_stmt (lg_fault e) (upd_recovery oid (\<lambda>x :: recovery_row. x\<lparr>rc_state := st, rc_updated_at := now\<rparr>)))) (\<lambda>_.
     bind_eff (if st = ACKNOWLEDGED \<or> st = DEFINITIVE_REJECT
        then on_db (pg_stmt (lg_fault e) (upd_recovery oid
          (\<lambda>x :: recovery_row. x\<lparr>rc_resolved := True, rc_resolved_at := Some now, rc_resolved_state := Some st\<rparr>)))
        else return_eff ()) (\<lambda>_. return_eff st)))"

fun pg_reconcile_orders :: "ledger_env \<Rightarrow> ms \<Rightarrow> world deps \<Rightarrow> uuid list \<Rightarrow> (world, unit) eff" where
  "pg_reconcile_orders e now D [] w = (Inr (), w)"
| "pg_reconcile_orders e now D (oid # oids) w =
     bind_eff (pg_reconcile_order e now D oid) (\<lambda>_. pg_reconcile_orders e now D oids) w"

definition pg_reconcileAll :: "ledger_env \<Rightarrow> ms \<Rightarrow> world deps \<Rightarrow> (world, unit) eff" where
  "pg_reconcileAll e now D w = pg_reconcile_orders e now D (pg_listUnknown (wo_db w)) w"

text \<open>The counters: \<open>count\<close> is added to the orders, the unknown ones are counted anew.\<close>

definition count_order :: "db \<Rightarrow> supervisor_row \<Rightarrow> supervisor_row" where
  "count_order d s =
     (let unknown = int (length (pg_listUnknown d))
      in s\<lparr>sv_total := sv_total s + 1, sv_unknown := unknown, sv_unresolved := unknown\<rparr>)"

fun pg_onOrchestrateResult :: "pipeline_result \<Rightarrow> db \<Rightarrow> supervisor_row \<Rightarrow> supervisor_row" where
  "pg_onOrchestrateResult (Live _ _ _) d s = count_order d s"
| "pg_onOrchestrateResult _ d s = s"

text \<open>A tick: a run that goes through is counted as a run, one that fails by the statement that counts an order.\<close>

definition pg_reconcile_tick :: "ledger_env \<Rightarrow> ms \<Rightarrow> world deps \<Rightarrow> world \<times> supervisor_row \<Rightarrow> world \<times> supervisor_row" where
  "pg_reconcile_tick e now D ws =
     (case ws of (w, s) \<Rightarrow>
       (case pg_reconcileAll e now D w of
          (Inr _, w') \<Rightarrow> (w', s\<lparr>sv_runs := sv_runs s + 1\<rparr>)
        | (Inl _, w') \<Rightarrow> (w', count_order (wo_db w') s)))"

section \<open>Reconciliation\<close>

lemma reconcile_ids_settles:
  assumes "reconcile_ids D ids (w, c) = (Inr (), (w', c'))"
  shows "\<forall>k. k \<notin> set ids \<longrightarrow> persistence_get k c' = persistence_get k c"
    and "\<forall>k \<in> set ids. persistence_get k c' \<noteq> None" and "co_counters c' = co_counters c"
  using assms
proof (induction ids arbitrary: w c)
  case (Cons oid ids)
  {
    case 1
    with Cons.IH show ?case
      by (fastforce simp: persistence_set_def persistence_get_def map_of_map_set split: prod.splits sum.splits)
  next
    case 2
    from 2 obtain st w1 where r: "reconcile_ids D ids (w1, persistence_set oid st c) = (Inr (), (w', c'))"
      by (auto split: prod.splits sum.splits)
    have "persistence_get oid c' \<noteq> None"
      using Cons.IH(1,2) [OF r] by (cases "oid \<in> set ids") (auto simp: persistence_set_def persistence_get_def map_of_map_set)
    with Cons.IH(2) [OF r] show ?case by simp
  next
    case 3
    with Cons.IH(3) show ?case by (fastforce simp: persistence_set_def split: prod.splits sum.splits)
  }
qed simp_all

text \<open>No loop places an order or forgets a claim, on either wiring and whatever fails.\<close>

lemma quiet_reconcile_ids:
  assumes "executor_ops D wo_placed claimed"
  shows "quiet_step wo_placed claimed w (fst (snd (reconcile_ids D ids (w, c))))"
proof (induction ids arbitrary: w c)
  case Nil
  then show ?case using quiet_preorder [of wo_placed claimed] by (simp add: preorder_on_states_def)
next
  case (Cons oid ids)
  obtain r w1 where r: "reconcile D oid w = (r, w1)" by fastforce
  have "quiet_step wo_placed claimed w w1"
    using executor_ops.quiet_reconcile [OF assms, of oid] r by (rule steps_effD)
  with Cons.IH [of w1] quiet_preorder [of wo_placed claimed] r show ?case
    by (cases r) (auto simp: preorder_on_states_def)
qed

lemma quiet_pg_orders:
  assumes "executor_ops D wo_placed claimed" and "\<And>f. steps_eff (quiet_step wo_placed claimed) (on_db (pg_stmt (lg_fault e) (upd_recovery oid f)))"
  shows "steps_eff (quiet_step wo_placed claimed) (pg_reconcile_order e now D oid)"
  unfolding pg_reconcile_order_def
  by (intro steps_bind quiet_preorder executor_ops.quiet_reconcile [OF assms(1)] assms(2) steps_return)
     (auto intro!: assms(2) steps_return quiet_preorder)

text \<open>A failed run is counted as an order.\<close>

lemma failed_run_counts_an_order:
  "pg_reconcileAll e now D w = (Inl err, w') \<Longrightarrow> sv_total (snd (pg_reconcile_tick e now D (w, s))) = sv_total s + 1"
  by (simp add: pg_reconcile_tick_def count_order_def Let_def)

text \<open>
  The executor keeps a resting order on the ledger, unresolved, until it is filled or cancelled. The PostgreSQL
  reconciler marks it resolved, and no later reconciliation looks at it.
\<close>

definition resting_row :: recovery_row where
  "resting_row = default_recovery 0 ''o1'' SUBMISSION_UNKNOWN"

definition resting_world :: world where
  "resting_world = sample_world\<lparr>wo_seen := [''o1'' \<mapsto> SUBMISSION_UNKNOWN], wo_db := empty_db\<lparr>recovery := [resting_row]\<rparr>\<rparr>"

definition resting_env :: run_env where
  "resting_env = (sample_env (Sub_Fail [] []))\<lparr>en_status := (\<lambda>_. Some \<lparr>res_success = True, res_submit_status = Some Submit_ACKNOWLEDGED,
     res_order_status = Some Order_LIVE, res_order_id = Some ''o1'', res_filled_size = None, res_average_price = None\<rparr>)\<rparr>"

lemmas reconcile_simps = reconcile_def reconcile_result_def leave_if_def leave_def mark_seen_def account_fills_def positive_finite_def
  eff_defs pg_deps_def on_part_def total_def update_def read_only_def pg_stmt_def upd_recovery_def state_check_def pg_resolve_def resting_def
  pg_acquireExecutorLease_def acquire_executor_lease_def pg_releaseExecutorLease_def release_executor_lease_def lease_env_of_def ledger_env_of_def
  pg_needsReconcile_def sample_env_def sample_world_def resting_world_def resting_env_def resting_row_def default_recovery_def empty_db_def
  rat_is_int_def Let_def

lemma executor_keeps_resting_order:
  "fst (reconcile (pg_deps read_int8 resting_env) ''o1'' resting_world) = Inr ACKNOWLEDGED \<and>
   map rc_resolved (recovery (wo_db (snd (reconcile (pg_deps read_int8 resting_env) ''o1'' resting_world)))) = [False]"
  by (simp add: reconcile_simps)

lemma reconciler_drops_resting_order:
  "map rc_resolved (recovery (wo_db (snd (pg_reconcileAll \<lparr>lg_fault = NoFault, lg_order_known = (\<lambda>_. True)\<rparr> 5
     (pg_deps read_int8 resting_env) resting_world)))) = [True]"
  by (simp add: pg_reconcileAll_def pg_listUnknown_def pg_reconcile_order_def reconcile_simps)

end
