(* ===== verification/Sizing.thy ===== *)
theory Sizing
  imports Domain JsOrder
begin

text \<open>
  Expected value and position size in base units (\<open>src/pm/risk/src/ev-calculator.ts\<close>, \<open>sizing-engine.ts\<close>), the loss
  limits (\<open>loss-floor.ts\<close>) and the in-memory policy store (\<open>policy-store.ts\<close>). A \<open>bigint\<close> is an \<open>int\<close>; its
  division \<open>sdiv\<close> truncates.
\<close>

section \<open>Expected value\<close>

text \<open>\<open>fee\<close> is \<open>BigInt(feeBps)\<close>, which throws unless the number is integral.\<close>

definition EV_calculate :: "int \<Rightarrow> int \<Rightarrow> outcome_side \<Rightarrow> jsnum \<Rightarrow> js_error + int" where
  "EV_calculate probabilityYes price side feeBps =
     (case bigint_of_num feeBps of
        Inl e \<Rightarrow> Inl e
      | Inr bps \<Rightarrow>
          let fee = (price * bps) sdiv 10000;
              pWin = (if side = YES then probabilityYes else 1000000 - probabilityYes);
              pLose = (if side = YES then 1000000 - probabilityYes else probabilityYes);
              winPayoff = 1000000 - price; losePayoff = price
          in Inr ((pWin * winPayoff - pLose * losePayoff) sdiv 1000000 - fee))"

definition EV_isPositive :: "int \<Rightarrow> int \<Rightarrow> outcome_side \<Rightarrow> jsnum \<Rightarrow> js_error + bool" where
  "EV_isPositive p price side feeBps = map_sum id (\<lambda>ev. 0 < ev) (EV_calculate p price side feeBps)"

section \<open>Size\<close>

definition mulScale :: "int \<Rightarrow> int \<Rightarrow> int" where
  "mulScale a b = (a * b) sdiv 1000000"

definition divScale :: "int \<Rightarrow> int \<Rightarrow> int" where
  "divScale a b = (if b = 0 then 0 else (a * 1000000) sdiv b)"

definition pctToBps :: "jsnum \<Rightarrow> js_error + int" where
  "pctToBps pct = bigint_of_num (math_round (num_mul pct (Fin 10000)))"

record sizing_policy =
  sp_order_pct :: jsnum
  sp_market_pct :: jsnum
  sp_portfolio_pct :: jsnum
  sp_min_edge :: jsnum
  sp_min_edge_per_share :: "jsnum option"
  sp_kelly :: "jsnum option"

record sizing_input =
  zi_ev :: int
  zi_price :: int
  zi_side :: outcome_side
  zi_value :: int
  zi_market_exposure :: int
  zi_portfolio_exposure :: int
  zi_policy :: sizing_policy

datatype cap_reason = Cap_ORDER_PCT | Cap_MARKET_PCT | Cap_PORTFOLIO_PCT | Cap_MIN_EDGE | Cap_ZERO_SIZE

record sizing_result =
  zr_size :: int
  zr_kelly :: int
  zr_edge_bps :: int
  zr_capped :: bool
  zr_reason :: "cap_reason option"

definition sized_zero :: "int \<Rightarrow> cap_reason \<Rightarrow> sizing_result" where
  "sized_zero evBps reason = \<lparr>zr_size = 0, zr_kelly = 0, zr_edge_bps = evBps, zr_capped = True, zr_reason = Some reason\<rparr>"

definition ev_bps :: "sizing_input \<Rightarrow> int" where
  "ev_bps i = (if 0 < zi_price i then divScale (zi_ev i * 10000) (zi_price i) else 0)"

definition kelly_fraction :: "sizing_input \<Rightarrow> int" where
  "kelly_fraction i =
     (let edgeDen = (if zi_side i = YES then zi_price i else 1000000 - zi_price i);
          edge = (if 0 < edgeDen then divScale (zi_ev i) edgeDen else 0);
          oddsNum = (if zi_side i = YES then 1000000 - zi_price i else zi_price i);
          oddsDen = (if zi_side i = YES then zi_price i else 1000000 - zi_price i);
          odds = (if 0 < oddsDen then divScale oddsNum oddsDen else 0)
      in if 0 < odds then divScale edge odds else 0)"

text \<open>A cap on the cash: the smaller of the two, and the reason when it bites.\<close>

fun clamp_cash :: "int \<Rightarrow> cap_reason \<Rightarrow> int \<times> cap_reason option \<Rightarrow> int \<times> cap_reason option" where
  "clamp_cash cap reason (cash, r) = (if cap < cash then (cap, Some reason) else (cash, r))"

definition remaining_cap :: "int \<Rightarrow> int \<Rightarrow> int" where
  "remaining_cap cap exposure = (if exposure < cap then cap - exposure else 0)"

definition size_from :: "sizing_input \<Rightarrow> int \<Rightarrow> int \<Rightarrow> int \<Rightarrow> int \<Rightarrow> sizing_result" where
  "size_from i fraction orderBps marketBps portfolioBps =
     (let fractionalKelly = (kelly_fraction i * fraction) sdiv 10000;
          maxOrder = mulScale (zi_value i) orderBps;
          market = remaining_cap (mulScale (zi_value i) marketBps) (zi_market_exposure i);
          portfolio' = remaining_cap (mulScale (zi_value i) portfolioBps) (zi_portfolio_exposure i)
      in case clamp_cash portfolio' Cap_PORTFOLIO_PCT (clamp_cash market Cap_MARKET_PCT
             (clamp_cash maxOrder Cap_ORDER_PCT (mulScale (zi_value i) fractionalKelly, None))) of
           (cash, reason) \<Rightarrow>
             let sz = (if 0 < zi_price i then (cash * 1000000) sdiv zi_price i else 0)
             in if sz \<le> 0 then sized_zero (ev_bps i) Cap_ZERO_SIZE
                else \<lparr>zr_size = sz, zr_kelly = fractionalKelly, zr_edge_bps = ev_bps i, zr_capped = (reason \<noteq> None), zr_reason = reason\<rparr>)"

definition engine_size :: "sizing_input \<Rightarrow> js_error + sizing_result" where
  "engine_size i =
     (let p = zi_policy i in
      case pctToBps (case sp_min_edge_per_share p of Some x \<Rightarrow> x | None \<Rightarrow> sp_min_edge p) of Inl e \<Rightarrow> Inl e | Inr minEdge \<Rightarrow>
      if ev_bps i \<le> minEdge then Inr (sized_zero (ev_bps i) Cap_MIN_EDGE)
      else (case pctToBps (case sp_kelly p of Some x \<Rightarrow> x | None \<Rightarrow> Fin (1 / 4)) of Inl e \<Rightarrow> Inl e | Inr fraction \<Rightarrow>
           (case pctToBps (sp_order_pct p) of Inl e \<Rightarrow> Inl e | Inr orderBps \<Rightarrow>
           (case pctToBps (sp_market_pct p) of Inl e \<Rightarrow> Inl e | Inr marketBps \<Rightarrow>
           (case pctToBps (sp_portfolio_pct p) of Inl e \<Rightarrow> Inl e | Inr portfolioBps \<Rightarrow>
              Inr (size_from i fraction orderBps marketBps portfolioBps))))))"

section \<open>Loss limits\<close>

record floor_input =
  fi_daily_stop :: jsnum
  fi_drawdown_stop :: jsnum
  fi_equity :: jsnum
  fi_sealed :: bool
  fi_pnl :: jsnum

definition loss_pct :: "floor_input \<Rightarrow> jsnum" where
  "loss_pct i = num_div (num_neg (num_min (Fin 0) (fi_pnl i))) (num_max (fi_equity i) (fl (1 / 10 ^ 9)))"

text \<open>Blocked and sealed, with the reasons; the formatted ratios of a reason are left out.\<close>

definition floor_reasons :: "floor_input \<Rightarrow> string list" where
  "floor_reasons i =
     (if num_le (fi_daily_stop i) (loss_pct i) then [''daily loss''] else []) @
     (if num_le (fi_drawdown_stop i) (loss_pct i) then [''drawdown''] else [])"

definition lossFloor :: "floor_input \<Rightarrow> bool \<times> bool \<times> string list" where
  "lossFloor i =
     (if fi_sealed i then (True, True, [''sealed breach persists until owner resume (PM-RISK-03)''])
      else if floor_reasons i \<noteq> [] then (True, True, floor_reasons i) else (False, False, []))"

section \<open>The policy store\<close>

text \<open>A policy is versioned by the millisecond of its update; a patch changes fields of the current one.\<close>

record policy_store =
  ps_policy :: risk_policy
  ps_versions :: "(string \<times> risk_policy) list"

definition version_at :: "ms \<Rightarrow> string" where
  "version_at now = ''v'' @ int_str now"

definition default_policy :: "ms \<Rightarrow> risk_policy" where
  "default_policy now = \<lparr>policy_version = version_at now, execution_mode = Mode_LIVE, capital_usd_cap = Some (Fin 10000),
     max_order_pct = fl (5 / 1000), max_market_pct = fl (2 / 100), max_event_group_pct = fl (1 / 100),
     max_portfolio_pct = fl (1 / 10), daily_loss_stop_pct = fl (5 / 100), drawdown_stop_pct = fl (1 / 10),
     max_open_orders = Fin 100, min_edge_after_cost = fl (5 / 100), book_max_age_ms = Fin 60000, metadata_max_age_s = Fin 300,
     forecast_max_age_s = Fin 300, clock_skew_max_ms = Fin 5000, max_slippage_abs = fl (2 / 100), intent_ttl_s = Fin 60,
     risk_permit_ttl_ms = Fin 60000, reconcile_interval_s = Fin 30, min_edge_per_share = None\<rparr>"

definition policy_store_new :: "ms \<Rightarrow> (risk_policy \<Rightarrow> risk_policy) \<Rightarrow> policy_store" where
  "policy_store_new now initial =
     (let p = initial (default_policy now) in \<lparr>ps_policy = p, ps_versions = [(policy_version p, p)]\<rparr>)"

definition policy_update :: "ms \<Rightarrow> (risk_policy \<Rightarrow> risk_policy) \<Rightarrow> policy_store \<Rightarrow> policy_store" where
  "policy_update now patch s =
     (let p = (patch (ps_policy s))\<lparr>policy_version := version_at now\<rparr>
      in s\<lparr>ps_policy := p, ps_versions := map_set (policy_version p) p (ps_versions s)\<rparr>)"

section \<open>What the expected value is\<close>

text \<open>The products cancel and the division is exact: the value of a share is its probability less price and fee.\<close>

lemma sdiv_exact: "(1000000 * a) sdiv 1000000 = (a :: int)"
proof -
  have "\<bar>1000000 * a\<bar> div 1000000 = \<bar>a\<bar>" by (simp add: abs_mult)
  then show ?thesis by (simp add: signed_divide_int_def sgn_mult) (simp add: sgn_mult_abs)
qed

lemma EV_calculate_eq:
  "EV_calculate p price side feeBps =
     map_sum id (\<lambda>bps. (if side = YES then p else 1000000 - p) - price - (price * bps) sdiv 10000) (bigint_of_num feeBps)"
proof -
  have *: "(w * (1000000 - price) - (1000000 - w) * price) sdiv 1000000 = w - price" for w :: int
  proof -
    have "w * (1000000 - price) - (1000000 - w) * price = 1000000 * (w - price)" by (simp add: algebra_simps)
    then show ?thesis by (simp only: sdiv_exact)
  qed
  from * [of p] * [of "1000000 - p"] show ?thesis
    by (cases "side = YES"; cases "bigint_of_num feeBps") (simp_all add: EV_calculate_def)
qed

section \<open>A size stays within its caps\<close>

lemma clamp_cash_le: "fst (clamp_cash cap reason x) \<le> cap \<and> fst (clamp_cash cap reason x) \<le> fst x"
  by (cases x) simp

lemma size_from_within:
  assumes nz: "zr_size (size_from i fraction orderBps marketBps portfolioBps) \<noteq> 0"
  shows "0 < zr_size (size_from i fraction orderBps marketBps portfolioBps) \<and> 0 < zi_price i \<and>
    (\<exists>cash. cash \<le> mulScale (zi_value i) orderBps \<and> cash \<le> remaining_cap (mulScale (zi_value i) marketBps) (zi_market_exposure i) \<and>
       cash \<le> remaining_cap (mulScale (zi_value i) portfolioBps) (zi_portfolio_exposure i) \<and>
       cash \<le> mulScale (zi_value i) (zr_kelly (size_from i fraction orderBps marketBps portfolioBps)) \<and> 0 < cash \<and>
       zr_size (size_from i fraction orderBps marketBps portfolioBps) * zi_price i \<le> cash * 1000000)"
proof -
  let ?k = "(kelly_fraction i * fraction) sdiv 10000"
  let ?start = "(mulScale (zi_value i) ?k, None)"
  let ?one = "clamp_cash (mulScale (zi_value i) orderBps) Cap_ORDER_PCT ?start"
  let ?two = "clamp_cash (remaining_cap (mulScale (zi_value i) marketBps) (zi_market_exposure i)) Cap_MARKET_PCT ?one"
  let ?three = "clamp_cash (remaining_cap (mulScale (zi_value i) portfolioBps) (zi_portfolio_exposure i)) Cap_PORTFOLIO_PCT ?two"
  obtain cash reason where c: "?three = (cash, reason)" by fastforce
  have le: "cash \<le> remaining_cap (mulScale (zi_value i) portfolioBps) (zi_portfolio_exposure i)" "cash \<le> fst ?two"
    using clamp_cash_le [of "remaining_cap (mulScale (zi_value i) portfolioBps) (zi_portfolio_exposure i)" Cap_PORTFOLIO_PCT ?two] c by simp_all
  have le2: "fst ?two \<le> remaining_cap (mulScale (zi_value i) marketBps) (zi_market_exposure i)" "fst ?two \<le> fst ?one"
    using clamp_cash_le [of "remaining_cap (mulScale (zi_value i) marketBps) (zi_market_exposure i)" Cap_MARKET_PCT ?one] by simp_all
  have le1: "fst ?one \<le> mulScale (zi_value i) orderBps" "fst ?one \<le> mulScale (zi_value i) ?k"
    using clamp_cash_le [of "mulScale (zi_value i) orderBps" Cap_ORDER_PCT ?start] by simp_all
  let ?sz = "if 0 < zi_price i then (cash * 1000000) sdiv zi_price i else 0"
  have r: "size_from i fraction orderBps marketBps portfolioBps = (if ?sz \<le> 0 then sized_zero (ev_bps i) Cap_ZERO_SIZE
      else \<lparr>zr_size = ?sz, zr_kelly = ?k, zr_edge_bps = ev_bps i, zr_capped = (reason \<noteq> None), zr_reason = reason\<rparr>)"
    unfolding size_from_def Let_def c by simp
  with nz have pos: "0 < ?sz" by (auto simp: sized_zero_def split: if_splits)
  then have price: "0 < zi_price i" by (simp split: if_splits)
  have cash: "0 < cash"
  proof (rule ccontr)
    assume "\<not> 0 < cash"
    then have "sgn (cash * 1000000) \<le> 0" by (simp add: sgn_if)
    then have "(cash * 1000000) sdiv zi_price i \<le> 0"
      using price by (simp add: signed_divide_int_def mult_nonpos_nonneg pos_imp_zdiv_nonneg_iff)
    with pos price show False by simp
  qed
  have "(cash * 1000000) sdiv zi_price i * zi_price i \<le> cash * 1000000"
    using cash price by (intro sdiv_le_self) simp_all
  with r pos price cash le le1 le2 show ?thesis by (auto intro!: exI [of _ cash])
qed

section \<open>Properties\<close>

text \<open>The sizing engine never sizes past a cap. Whenever it returns shares, the price is positive and the shares cost, in
  exact base units, at most a positive amount of cash that is within the order cap, within what the market cap and the
  portfolio cap leave beside the exposure already there, and within the Kelly fraction it reports; otherwise it returns
  no shares or an error of a conversion.\<close>

theorem sizing_respects_caps:
  assumes "engine_size i = Inr z"
  shows "zr_size z = 0 \<or> 0 < zr_size z \<and> 0 < zi_price i \<and>
    (\<exists>orderBps marketBps portfolioBps cash. pctToBps (sp_order_pct (zi_policy i)) = Inr orderBps \<and>
       pctToBps (sp_market_pct (zi_policy i)) = Inr marketBps \<and> pctToBps (sp_portfolio_pct (zi_policy i)) = Inr portfolioBps \<and>
       0 < cash \<and> zr_size z * zi_price i \<le> cash * 1000000 \<and> cash \<le> mulScale (zi_value i) orderBps \<and>
       zi_market_exposure i + cash \<le> mulScale (zi_value i) marketBps \<and>
       zi_portfolio_exposure i + cash \<le> mulScale (zi_value i) portfolioBps \<and> cash \<le> mulScale (zi_value i) (zr_kelly z))"
proof (cases "zr_size z = 0")
  case False
  with assms obtain fraction orderBps marketBps portfolioBps where
    z: "z = size_from i fraction orderBps marketBps portfolioBps"
    and bps: "pctToBps (sp_order_pct (zi_policy i)) = Inr orderBps" "pctToBps (sp_market_pct (zi_policy i)) = Inr marketBps"
      "pctToBps (sp_portfolio_pct (zi_policy i)) = Inr portfolioBps"
    by (auto simp: engine_size_def sized_zero_def Let_def split: sum.splits if_splits)
  from size_from_within [of i fraction orderBps marketBps portfolioBps] False z bps show ?thesis
    by (force simp: remaining_cap_def split: if_splits)
qed simp

definition sample_sizing :: sizing_input where
  "sample_sizing = \<lparr>zi_ev = 100000, zi_price = 500000, zi_side = YES, zi_value = 1000000000, zi_market_exposure = 0, zi_portfolio_exposure = 0,
     zi_policy = \<lparr>sp_order_pct = Fin 1, sp_market_pct = Fin 1, sp_portfolio_pct = Fin 1, sp_min_edge = Fin 0,
       sp_min_edge_per_share = None, sp_kelly = None\<rparr>\<rparr>"

lemma sample_sized: "engine_size sample_sizing = Inr \<lparr>zr_size = 20000000, zr_kelly = 50000, zr_edge_bps = 2000000000, zr_capped = True,
    zr_reason = Some Cap_ORDER_PCT\<rparr>"
  by (simp add: engine_size_def size_from_def sample_sizing_def pctToBps_def ev_bps_def kelly_fraction_def divScale_def mulScale_def remaining_cap_def
      num_eval rat_is_int_def signed_divide_int_def)

theorem sizing_respects_caps_witness:
  "\<exists>cash orderBps. pctToBps (Fin 1) = Inr orderBps \<and> 0 < cash \<and> (20000000 :: int) * 500000 \<le> cash * 1000000 \<and> cash \<le> mulScale 1000000000 orderBps"
  using sizing_respects_caps [OF sample_sized] by (simp add: sample_sizing_def) blast

text \<open>
  The caps are a hundred times tighter than their percentages: basis points are divided by \<open>SCALE\<close>, not by ten thousand. An order
  cap of 100 percent of 1000 dollars is 10 dollars.
\<close>

lemma caps_hundred_times_tight: "zr_size (size_from sample_sizing 2500 10000 10000 10000) * 500000 = 10000000 * 1000000"
  by (simp add: size_from_def sample_sizing_def kelly_fraction_def ev_bps_def divScale_def mulScale_def remaining_cap_def signed_divide_int_def)

text \<open>The edge in basis points is scaled by a million once too often, so a threshold of 500 basis points lets an edge of one base unit through.\<close>

lemma tiny_edge_passes_threshold: "500 < ev_bps (sample_sizing\<lparr>zi_ev := 1\<rparr>)"
  by (simp add: ev_bps_def sample_sizing_def divScale_def signed_divide_int_def)

text \<open>Kelly on the NO side divides by the price and not by its complement: at a price of 1/4 it bets three times the fraction of the YES side.\<close>

lemma no_side_kelly:
  "kelly_fraction (sample_sizing\<lparr>zi_price := 250000, zi_side := NO\<rparr>) = 399999 \<and> kelly_fraction (sample_sizing\<lparr>zi_price := 250000\<rparr>) = 133333"
  by (simp add: kelly_fraction_def sample_sizing_def divScale_def signed_divide_int_def)

text \<open>Entries stop exactly on a sealed breach or a loss of at least one of the limits, and what stopped them is sealed.\<close>

lemma lossFloor_iff:
  "lossFloor i = (b, s, rs) \<Longrightarrow> b = s \<and> (b \<longleftrightarrow> fi_sealed i \<or> num_le (fi_daily_stop i) (loss_pct i) \<or> num_le (fi_drawdown_stop i) (loss_pct i))"
  by (auto simp: lossFloor_def floor_reasons_def split: if_splits)

text \<open>A loss that is not a number blocks nothing.\<close>

lemma nan_loss_passes: "lossFloor \<lparr>fi_daily_stop = Fin (1 / 20), fi_drawdown_stop = Fin (1 / 10), fi_equity = Fin 1000, fi_sealed = False, fi_pnl = NaN\<rparr>
    = (False, False, [])"
  by (simp add: lossFloor_def floor_reasons_def loss_pct_def num_min_def num_eval num_le_def)

text \<open>Two updates in one millisecond have one version: the history keeps only the second.\<close>

lemma versions_collide:
  "map_of (ps_versions (policy_update now g (policy_update now f s))) (version_at now)
     = Some ((g (ps_policy (policy_update now f s)))\<lparr>policy_version := version_at now\<rparr>)"
  by (simp add: policy_update_def Let_def map_of_map_set)

end
