(* ===== verification/LiveLoop.thy ===== *)
theory LiveLoop
  imports LiveStep
begin

text \<open>
  The live loop around the step: the pipeline of \<open>src/pm/runtime/src/g4-pipeline.ts\<close> (the loop of \<open>g4-loop.ts\<close> takes the
  same step), the mode watcher it obeys (\<open>mode-watcher.ts\<close>) and the market inputs it reads
  (\<open>venue/src/market-universe.ts\<close>). One pass of the endless loop is a function; the waits between passes are left out.
  A throw ends the pass and leaves what was done.
\<close>

section \<open>The mode watcher\<close>

text \<open>The mode is whatever text the row holds; the code casts it.\<close>

record watcher =
  wt_mode :: string
  wt_failures :: nat
  wt_degraded :: bool
  wt_before :: "string option"

definition new_watcher :: "string option \<Rightarrow> watcher" where
  "new_watcher initial = \<lparr>wt_mode = (case initial of Some m \<Rightarrow> m | None \<Rightarrow> ''READ_ONLY''), wt_failures = 0,
     wt_degraded = False, wt_before = None\<rparr>"

text \<open>A poll fails, or reads the \<open>runtime_mode\<close> of the row: no row and \<open>NULL\<close> are \<open>None\<close>.\<close>

definition pollOnce :: "nat \<Rightarrow> string + string option \<Rightarrow> watcher \<Rightarrow> watcher" where
  "pollOnce maxFailures answer w =
     (case answer of
        Inl _ \<Rightarrow>
          let w1 = w\<lparr>wt_failures := wt_failures w + 1\<rparr>
          in if \<not> wt_degraded w \<and> maxFailures \<le> wt_failures w1
             then w1\<lparr>wt_degraded := True, wt_before := Some (wt_mode w), wt_mode := ''READ_ONLY''\<rparr> else w1
      | Inr col \<Rightarrow>
          let w1 = w\<lparr>wt_failures := 0\<rparr>
          in if wt_degraded w
             then w1\<lparr>wt_degraded := False, wt_before := None,
                     wt_mode := (case first_some [col, wt_before w] of Some m \<Rightarrow> m | None \<Rightarrow> ''READ_ONLY'')\<rparr>
             else (case col of Some m \<Rightarrow> w1\<lparr>wt_mode := m\<rparr> | None \<Rightarrow> w1))"

definition polls :: "nat \<Rightarrow> (string + string option) list \<Rightarrow> watcher \<Rightarrow> watcher" where
  "polls maxFailures answers w = fold (pollOnce maxFailures) answers w"

text \<open>The row: halted and mode. A change to LIVE is refused while the latch is engaged; a missing row is updated by nothing.\<close>

type_synonym mode_row = "(bool \<times> string option) option"

record change_faults =
  cf_read :: "string option"
  cf_update :: "string option"
  cf_poll :: "string option"

definition answer_of :: "string option \<Rightarrow> mode_row \<Rightarrow> string + string option" where
  "answer_of fault row = (case fault of Some e \<Rightarrow> Inl e | None \<Rightarrow> Inr (Option.bind row snd))"

definition requestModeChange ::
  "nat \<Rightarrow> change_faults \<Rightarrow> string \<Rightarrow> mode_row \<times> watcher \<Rightarrow> (string + string outcome) \<times> mode_row \<times> watcher" where
  "requestModeChange maxFailures f newMode s =
     (case s of (row, w) \<Rightarrow>
        if newMode = ''LIVE'' \<and> cf_read f \<noteq> None then (Inl (the (cf_read f)), row, w)
        else if newMode = ''LIVE'' \<and> (case row of Some (halted, _) \<Rightarrow> halted | None \<Rightarrow> False)
          then (Inr (Refused ''LOSS_LATCH_ENGAGED''), row, w)
        else if cf_update f \<noteq> None then (Inr (Refused ''DB_UPDATE_FAILED''), row, w)
        else let row' = map_option (\<lambda>(halted, _). (halted, Some newMode)) row;
                 w' = pollOnce maxFailures (answer_of (cf_poll f) row') w
          in (Inr (Ok (wt_mode w')), row', w'))"

section \<open>One market\<close>

record pipe =
  pp_world :: live_world
  pp_book :: exposure_book
  pp_tracker :: tracker
  pp_metrics :: step_metrics
  pp_scores :: "string \<Rightarrow> ranked_market option"

text \<open>What a market's step meets: the executor's environment and the step's own. Sizing reads the session profit.\<close>

record pass_env =
  pe_run :: "string \<Rightarrow> run_env"
  pe_step :: "string \<Rightarrow> step_env"
  pe_at :: "string \<Rightarrow> ms"

definition step_exposures :: "tracker \<Rightarrow> step_input \<Rightarrow> step_input" where
  "step_exposures t inp =
     (case exposureForStep t (si_market inp) (si_portfolio_exposure inp) (si_market_exposure inp) of
        (portfolio, market) \<Rightarrow> inp\<lparr>si_portfolio_exposure := Some portfolio, si_market_exposure := Some market\<rparr>)"

definition booking_of :: "step_result \<Rightarrow> step_booking" where
  "booking_of res =
     (case res of
        No_Trade _ _ \<Rightarrow> \<lparr>sb_fill = None, sb_pnl = None, sb_exposure = None\<rparr>
      | Bought d \<Rightarrow> \<lparr>sb_fill = sd_fill d, sb_pnl = Some (sd_pnl d), sb_exposure = sd_exposure d\<rparr>)"

definition book_step_fill :: "step_result \<Rightarrow> exposure_book \<Rightarrow> exposure_book" where
  "book_step_fill res b =
     (let b' = (case res of
           Bought d \<Rightarrow>
             (case sd_fill d of
                Some f \<Rightarrow>
                  if sd_order d \<noteq> '''' \<and> is_finite_num (lf_size f) \<and> num_lt (Fin 0) (lf_size f) \<and>
                     num_lt (booked (sd_order d) (eb_shares b)) (lf_size f)
                  then b\<lparr>eb_shares := map_set (sd_order d) (lf_size f) (eb_shares b)\<rparr> else b
              | None \<Rightarrow> b)
         | No_Trade _ _ \<Rightarrow> b)
      in b'\<lparr>eb_stepped := True\<rparr>)"

definition processMarket ::
  "(string \<Rightarrow> bool) \<Rightarrow> pipeline \<Rightarrow> (jsnum \<Rightarrow> step_config) \<Rightarrow> (run_env \<Rightarrow> world deps) \<Rightarrow> pass_env \<Rightarrow> step_input \<Rightarrow>
     (pipe, step_result) eff" where
  "processMarket is_uuid P cfg mk V inp s =
     (case executeG4Step is_uuid P (cfg (sm_pnl (pp_metrics s))) (mk (pe_run V (si_market inp))) (pe_step V (si_market inp))
             (step_exposures (pp_tracker s) inp) (pp_world s) of
        (Inl e, w) \<Rightarrow> (Inl e, s\<lparr>pp_world := w\<rparr>)
      | (Inr res, w) \<Rightarrow>
          (case accountAfterStep (si_market inp) (booking_of res) (pp_tracker s, pp_metrics s) of
             (t, m) \<Rightarrow> (Inr res, s\<lparr>pp_world := w, pp_tracker := t, pp_metrics := m, pp_book := book_step_fill res (pp_book s)\<rparr>)))"

fun processMarkets ::
  "(string \<Rightarrow> bool) \<Rightarrow> pipeline \<Rightarrow> (jsnum \<Rightarrow> step_config) \<Rightarrow> (run_env \<Rightarrow> world deps) \<Rightarrow> pass_env \<Rightarrow> step_input list \<Rightarrow>
     (pipe, step_result list) eff" where
  "processMarkets is_uuid P cfg mk V [] s = (Inr [], s)"
| "processMarkets is_uuid P cfg mk V (inp # inps) s =
     bind_eff (processMarket is_uuid P cfg mk V inp) (\<lambda>r. bind_eff (processMarkets is_uuid P cfg mk V inps) (\<lambda>rs. return_eff (r # rs))) s"

section \<open>One pass\<close>

definition MAX_CONCURRENT_ORDERS :: jsnum where
  "MAX_CONCURRENT_ORDERS = Fin 3"

definition CAPITAL_CAP_USD :: jsnum where
  "CAPITAL_CAP_USD = Fin 1000"

definition maxConcurrentMarkets :: "jsnum option \<Rightarrow> jsnum" where
  "maxConcurrentMarkets k =
     (case k of Some x \<Rightarrow> if is_finite_num x \<and> num_lt (Fin 0) x then math_floor x else MAX_CONCURRENT_ORDERS
      | None \<Rightarrow> MAX_CONCURRENT_ORDERS)"

definition portfolioCapUsd :: "jsnum option \<Rightarrow> jsnum" where
  "portfolioCapUsd cap = (case cap of Some c \<Rightarrow> c | None \<Rightarrow> CAPITAL_CAP_USD)"

text \<open>\<open>None\<close> for no feed, a failure or an answer that is not a list.\<close>

definition syncSettlements :: "string list option \<Rightarrow> pipe \<Rightarrow> pipe" where
  "syncSettlements feed s =
     (case feed of None \<Rightarrow> s | Some toks \<Rightarrow> s\<lparr>pp_tracker := snd (tracker_resolve toks (pp_tracker s))\<rparr>)"

definition syncOpenExposure :: "durable_row list option \<Rightarrow> pipe \<Rightarrow> pipe" where
  "syncOpenExposure rows s =
     (case syncDurableExposure rows (pp_book s, pp_tracker s, pp_metrics s) of
        (b, t, m) \<Rightarrow> s\<lparr>pp_book := b, pp_tracker := t, pp_metrics := m\<rparr>)"

text \<open>
  Whether the pass may go on. LIVE is the only mode and has no transition, so another mode in the row is
  refused and the loop stays LIVE. Without a watcher it always goes on.
\<close>

definition syncModeFromWatcher :: "watcher option \<Rightarrow> bool" where
  "syncModeFromWatcher w = (case w of None \<Rightarrow> True | Some w \<Rightarrow> \<not> (wt_degraded w \<or> wt_mode w = ''READ_ONLY''))"

record price_snap =
  sn_bid :: jsnum
  sn_ask :: jsnum
  sn_no :: bool

definition collectLiveInputs :: "(string \<Rightarrow> price_snap option) \<Rightarrow> string list \<Rightarrow> step_input list" where
  "collectLiveInputs snapshot universe =
     List.map_filter (\<lambda>mid. case snapshot mid of
        Some s \<Rightarrow> if is_finite_num (sn_bid s) \<and> is_finite_num (sn_ask s)
          then Some \<lparr>si_market = mid, si_bid = sn_bid s, si_ask = sn_ask s, si_override = None, si_side_no = sn_no s,
                     si_market_exposure = None, si_portfolio_exposure = None, si_days = None\<rparr> else None
      | None \<Rightarrow> None) universe"

text \<open>The edge and the forecast a result carries: which of them are there depends on how far the step came.\<close>

definition result_numbers :: "step_config \<Rightarrow> step_env \<Rightarrow> step_input \<Rightarrow> step_result \<Rightarrow> jsnum option \<times> jsnum option" where
  "result_numbers C E inp res =
     (let forecast = (case (case si_override inp of Some q \<Rightarrow> Inr q | None \<Rightarrow> se_forecast E) of Inr q \<Rightarrow> q | Inl _ \<Rightarrow> None);
          edge = map_option (\<lambda>p. er_after (step_edge C E inp p)) forecast
      in case res of
           Bought _ \<Rightarrow> (edge, forecast)
         | No_Trade stage _ \<Rightarrow>
             (if stage \<in> {At_Edge, At_Size, At_Risk, At_Executor} then edge else None,
              if stage \<in> {At_Forecast, At_Regime, At_Edge, At_Size, At_Risk, At_Executor} then forecast else None))"

definition result_score :: "step_config \<Rightarrow> step_env \<Rightarrow> step_input \<Rightarrow> step_result \<Rightarrow> jsnum" where
  "result_score C E inp res = (case result_numbers C E inp res of (edge, p) \<Rightarrow> scoreOpportunity edge p)"

text \<open>The selected markets in order; each is scored for the next pass. The last input of an id stands for it.\<close>

fun run_selected ::
  "(string \<Rightarrow> bool) \<Rightarrow> pipeline \<Rightarrow> (jsnum \<Rightarrow> step_config) \<Rightarrow> (run_env \<Rightarrow> world deps) \<Rightarrow> pass_env \<Rightarrow>
     (string \<Rightarrow> step_input option) \<Rightarrow> string list \<Rightarrow> pipe \<Rightarrow> pipe" where
  "run_selected is_uuid P cfg mk V byId [] s = s"
| "run_selected is_uuid P cfg mk V byId (mid # mids) s =
     (case byId mid of
        None \<Rightarrow> run_selected is_uuid P cfg mk V byId mids s
      | Some inp \<Rightarrow>
          (case processMarket is_uuid P cfg mk V inp s of
             (Inl e, s') \<Rightarrow> s'
           | (Inr res, s') \<Rightarrow>
               run_selected is_uuid P cfg mk V byId mids
                 (s'\<lparr>pp_scores := (pp_scores s')(si_market inp \<mapsto> \<lparr>rm_score = result_score (cfg (sm_pnl (pp_metrics s))) (pe_step V (si_market inp)) inp res, rm_at = pe_at V mid\<rparr>)\<rparr>)))"

record pass_input =
  pa_watcher :: "watcher option"
  pa_rows :: "durable_row list option"
  pa_settled :: "string list option"
  pa_cap :: "jsnum option"
  pa_concurrent :: "jsnum option"
  pa_inputs :: "string + step_input list"
  pa_now :: ms
  pa_stale :: ms

definition run_pass ::
  "(string \<Rightarrow> bool) \<Rightarrow> pipeline \<Rightarrow> (jsnum \<Rightarrow> step_config) \<Rightarrow> (run_env \<Rightarrow> world deps) \<Rightarrow> pass_env \<Rightarrow>
     pass_input \<Rightarrow> pipe \<Rightarrow> pipe" where
  "run_pass is_uuid P cfg mk V A s =
     (if \<not> syncModeFromWatcher (pa_watcher A) then s
      else let s1 = syncSettlements (pa_settled A) (syncOpenExposure (pa_rows A) s) in
        if num_le (portfolioCapUsd (pa_cap A)) (tracker_total (pp_tracker s1)) then s1
        else case pa_inputs A of
          Inl e \<Rightarrow> s1
        | Inr inputs \<Rightarrow>
            if inputs = [] then s1
            else let sel = fst (selectMarketsForPass (pp_scores s1) (map si_market inputs) (maxConcurrentMarkets (pa_concurrent A)) (pa_now A) (pa_stale A));
                     byId = map_of (rev (map (\<lambda>i. (si_market i, i)) inputs))
              in run_selected is_uuid P cfg mk V byId sel s1)"

section \<open>The watcher fails closed\<close>

lemma pollOnce_fail:
  "pollOnce k (Inl e) w = (let w1 = w\<lparr>wt_failures := wt_failures w + 1\<rparr>
     in if \<not> wt_degraded w \<and> k \<le> wt_failures w1
        then w1\<lparr>wt_degraded := True, wt_before := Some (wt_mode w), wt_mode := ''READ_ONLY''\<rparr> else w1)"
  by (simp add: pollOnce_def)

text \<open>A degraded watcher is read-only, whatever it has been told before.\<close>

definition watcher_ok :: "watcher \<Rightarrow> bool" where
  "watcher_ok w \<longleftrightarrow> (wt_degraded w \<longrightarrow> wt_mode w = ''READ_ONLY'')"

lemma watcher_ok_poll: "watcher_ok w \<Longrightarrow> watcher_ok (pollOnce k a w)"
  by (auto simp: watcher_ok_def pollOnce_def Let_def split: sum.splits option.splits)

lemma watcher_ok_polls: "watcher_ok w \<Longrightarrow> watcher_ok (polls k as w)"
  by (induction as arbitrary: w) (simp_all add: polls_def watcher_ok_poll)

lemma polls_append: "polls k (as @ bs) w = polls k bs (polls k as w)"
  by (simp add: polls_def)

lemma degraded_stays: "wt_degraded w \<Longrightarrow> \<forall>a \<in> set as. \<exists>e. a = Inl e \<Longrightarrow> wt_degraded (polls k as w)"
proof (induction as arbitrary: w)
  case (Cons a as)
  then obtain e where "a = Inl e" by auto
  with Cons show ?case by (simp add: polls_def pollOnce_fail Let_def)
qed (simp add: polls_def)

lemma failures_degrade:
  assumes "\<forall>a \<in> set as. \<exists>e. a = Inl e" and "k \<le> wt_failures w + length as" and "as \<noteq> []"
  shows "wt_degraded (polls k as w)"
  using assms
proof (induction as arbitrary: w)
  case (Cons a as)
  then obtain e where a: "a = Inl e" by auto
  let ?w = "pollOnce k a w"
  have step: "polls k (a # as) w = polls k as ?w" by (simp add: polls_def)
  show ?case
  proof (cases "wt_degraded ?w")
    case True
    with Cons.prems(1) step show ?thesis by (simp add: degraded_stays)
  next
    case False
    then have "wt_failures ?w = wt_failures w + 1" "\<not> k \<le> wt_failures w + 1"
      by (auto simp: a pollOnce_fail Let_def split: if_splits)
    with Cons step show ?thesis by (cases as) auto
  qed
qed simp

section \<open>The tracker through the loop\<close>

lemma is_double_mul [simp]: "is_double (num_mul x y)"
  by (cases x; cases y) (simp_all add: inf_of_sign_def)

lemma is_double_add' [simp]: "is_double (num_add x y)"
  by (cases x; cases y) simp_all

lemma submitExposureUsd_double: "is_double (submitExposureUsd sz price fill)"
  using is_double_0 [simplified] by (simp add: submitExposureUsd_def Let_def split: option.splits)

lemma is_double_max: "is_double x \<Longrightarrow> is_double y \<Longrightarrow> is_double (num_max x y)"
  by (simp add: num_max_def)

lemma orderExposureUsd_double: "is_double (orderExposureUsd ord)"
  unfolding orderExposureUsd_def Let_def using is_double_max [OF is_double_0 is_double_add'] is_double_0 [simplified] by simp

lemma abort_reserved_buys_nothing: "abort_reserved P C D p stage reason w \<noteq> (Inr (Bought d), w')"
  by (auto simp: abort_reserved_def split: prod.splits sum.splits)

lemma step_submit_exposure:
  assumes "step_submit is_uuid P C D E inp p sz ord permit w = (Inr (Bought d), w')"
  shows "\<exists>result. d = step_report E inp p sz ord permit result"
proof -
  obtain b g where b: "before_submit C E inp sz ord (lw_guard w) = (b, g)" by fastforce
  have pass: "b = Inr None"
    using assms abort_reserved_buys_nothing by (auto simp: step_submit_def b split: sum.splits option.splits)
  obtain y x where y: "submit is_uuid D ord permit (lw_exec w) = (y, x)" by fastforce
  show ?thesis
  proof (cases y)
    case (Inl e)
    with assms show ?thesis by (simp add: step_submit_def b pass y)
  next
    case (Inr t)
    with assms abort_reserved_buys_nothing show ?thesis by (cases t) (auto simp: step_submit_def b pass y)
  qed
qed

lemma step_trade_exposure:
  assumes "step_trade is_uuid P C D E inp p sz w = (Inr (Bought d), w')"
  shows "\<exists>ord permit result. d = step_report E inp p sz ord permit result"
  using assms abort_reserved_buys_nothing
  by (simp add: step_trade_def Let_def split: prod.splits sum.splits outcome.splits) (blast dest: step_submit_exposure)+

lemma executeG4Step_bought:
  assumes "executeG4Step is_uuid P C D E inp w = (Inr (Bought d), w')"
  shows "\<exists>p sz ord permit result. d = step_report E inp p sz ord permit result"
  using assms step_trade_exposure
  by (fastforce simp: executeG4Step_def Let_def split: fin_gate.splits if_splits sum.splits option.splits)

lemma step_exposure_double:
  assumes "executeG4Step is_uuid P C D E inp w = (Inr (Bought d), w')" and "sd_exposure d = Some x"
  shows "is_double x"
proof -
  from executeG4Step_bought [OF assms(1)] obtain ord fill where "sd_exposure d = booked_exposure ord fill"
    by (auto simp: step_report_def Let_def)
  with assms(2) submitExposureUsd_double show ?thesis by (auto simp: booked_exposure_def Let_def split: if_splits)
qed

lemma accountAfterStep_tracker:
  assumes "tracker_ok t" and "\<And>x. sb_exposure b = Some x \<Longrightarrow> is_double x"
  shows "tracker_ok (fst (accountAfterStep mid b (t, m)))"
  using assms by (auto simp: accountAfterStep_def Let_def tracker_ok_add split: option.splits)

lemma processMarket_tracker:
  assumes "tracker_ok (pp_tracker s)"
  shows "tracker_ok (pp_tracker (snd (processMarket is_uuid P cfg mk V inp s)))"
proof -
  let ?C = "cfg (sm_pnl (pp_metrics s))"
  let ?D = "mk (pe_run V (si_market inp))"
  obtain r w where r: "executeG4Step is_uuid P ?C ?D (pe_step V (si_market inp)) (step_exposures (pp_tracker s) inp) (pp_world s) = (r, w)"
    by fastforce
  show ?thesis
  proof (cases r)
    case (Inl e)
    with r assms show ?thesis by (simp add: processMarket_def)
  next
    case (Inr res)
    have "is_double x" if "sb_exposure (booking_of res) = Some x" for x
      using that r Inr step_exposure_double [of is_uuid P ?C ?D "pe_step V (si_market inp)" "step_exposures (pp_tracker s) inp" "pp_world s" _ w x]
      by (cases res) (auto simp: booking_of_def)
    with accountAfterStep_tracker [OF assms, of "booking_of res" "si_market inp" "pp_metrics s"] r Inr show ?thesis
      by (cases "accountAfterStep (si_market inp) (booking_of res) (pp_tracker s, pp_metrics s)") (simp add: processMarket_def)
  qed
qed

lemma add_market_ok: "tracker_ok t \<Longrightarrow> tracker_ok (add_market ord t)"
proof -
  assume t: "tracker_ok t"
  have "amount_ok (num_add (exposureOf (dor_market ord) t) (orderExposureUsd ord))" if "\<not> num_le (orderExposureUsd ord) (Fin 0)" "is_finite_num (orderExposureUsd ord)"
    using that amount_ok_add(1) [OF t, of "orderExposureUsd ord"] orderExposureUsd_double [of ord]
    by (cases "orderExposureUsd ord") (simp_all add: amount_ok_def num_le_def)
  with t show ?thesis by (simp add: add_market_def Let_def tracker_ok_map_set)
qed

lemma exposureByMarket_ok: "tracker_ok (exposureByMarket orders)"
proof -
  have "tracker_ok (fold add_market orders t)" if "tracker_ok t" for t
    using that by (induction orders arbitrary: t) (simp_all add: add_market_ok)
  from this [of "[]"] show ?thesis by (simp add: exposureByMarket_def tracker_ok_def)
qed

lemma syncOpenExposure_ok: "tracker_ok (pp_tracker s) \<Longrightarrow> tracker_ok (pp_tracker (syncOpenExposure rows s))"
proof -
  assume s: "tracker_ok (pp_tracker s)"
  have "tracker_ok (replaceAll (exposureByMarket orders))" for orders
    using exposureByMarket_ok [of orders] tracker_ok_filter by (simp add: replaceAll_distinct [OF distinct_exposureByMarket])
  with s show ?thesis
    by (auto simp: syncOpenExposure_def syncDurableExposure_def applyDurableExposure_def Let_def split: option.splits prod.splits if_splits)
qed

lemma run_selected_tracker:
  "tracker_ok (pp_tracker s) \<Longrightarrow> tracker_ok (pp_tracker (run_selected is_uuid P cfg mk V byId mids s))"
proof (induction mids arbitrary: s)
  case (Cons mid mids)
  show ?case
  proof (cases "byId mid")
    case None
    with Cons show ?thesis by simp
  next
    case (Some inp)
    obtain r s' where r: "processMarket is_uuid P cfg mk V inp s = (r, s')" by fastforce
    have "tracker_ok (pp_tracker s')" using processMarket_tracker [OF Cons.prems, of is_uuid P cfg mk V inp] r by simp
    with Cons.IH Some r show ?thesis by (cases r) simp_all
  qed
qed simp

lemma run_pass_tracker: "tracker_ok (pp_tracker s) \<Longrightarrow> tracker_ok (pp_tracker (run_pass is_uuid P cfg mk V A s))"
  using syncOpenExposure_ok [of s "pa_rows A"]
  by (auto simp: run_pass_def Let_def syncSettlements_def tracker_ok_resolve intro!: run_selected_tracker split: option.splits sum.splits)

section \<open>The cap on what is open\<close>

lemma order_size_positive:
  assumes "build_order b = Inr (Ok (shares, price, style))" and "ti_desired_qty (b_intent b) = Some sz"
  shows "is_finite_num sz \<and> num_lt (Fin 0) sz \<and> 0 \<le> price"
proof -
  from build_order_inside [OF assms(1)] assms(2) obtain p wanted where
    w: "toBase6 sz = Inr wanted" "0 < wanted" and p: "toBase6 p = Inr price"
    by (auto simp: inside_permit_def order_size_def)
  have "is_finite_num sz \<and> \<not> num_lt sz (Fin 0) \<and> sz \<noteq> Fin 0"
    using w toBase6_0 [of 6] by (auto simp: decimalToBase_def split: if_splits)
  then have "is_finite_num sz" "num_lt (Fin 0) sz" by (cases sz; simp)+
  with decimalToBase_nonneg [OF p] show ?thesis by simp
qed

lemma step_trade_capped:
  assumes D: "D \<in> {mem_deps e, pg_deps read_int8 e}"
    and placed: "wo_placed (lw_exec (snd (step_trade is_uuid P C D E inp p sz w))) \<noteq> wo_placed (lw_exec w)"
  shows "\<exists>ord shares price wanted. wo_placed (lw_exec (snd (step_trade is_uuid P C D E inp p sz w))) = wo_placed (lw_exec w) @ [ord] \<and>
    o_price ord = units price \<and> 0 \<le> price \<and> o_size ord = units shares \<and> toBase6 sz = Inr wanted \<and> 0 < shares \<and> shares \<le> wanted \<and>
    is_finite_num sz \<and> num_lt (Fin 0) sz \<and> live_caps_hold C E inp sz ord (lw_guard w)"
proof -
  let ?i = "\<lambda>iid. step_intent iid (se_dedupe E) inp sz (step_edge C E inp p)"
  obtain v d where v: "validateAndReserve is_uuid (pl_kernel P) (\<lambda>n. pg_authority (ce_attempts (se_call E) n))
      (ce_quote (se_call E)) (ce_decision (se_call E)) (step_gate P E inp (?i (se_gate_intent E))) (wo_db (lw_exec w)) = (v, d)" by fastforce
  let ?w = "w\<lparr>lw_exec := (lw_exec w)\<lparr>wo_db := d\<rparr>\<rparr>"
  obtain decision permit where ok: "v = Inr (Ok (decision, permit))"
    using placed v by (auto simp: step_trade_def Let_def split: sum.splits outcome.splits)
  let ?b = "build_of P (se_call E) (?i (se_build_intent E)) permit"
  obtain ord signature where build: "buildSignedOrder (pl_sha256 P) is_uuid (pl_crypto P) (pl_vault P) ?b (ce_order (se_call E))
      = Inr (Ok (ord, signature))"
    using placed v abort_reserved_placed [OF D, of P C permit _ _ ?w]
    by (auto simp: step_trade_def ok Let_def split: sum.splits outcome.splits)
  have run: "step_trade is_uuid P C D E inp p sz w = step_submit is_uuid P C D E inp p sz ord permit ?w"
    using v build by (simp add: step_trade_def ok Let_def)
  have "wo_placed (lw_exec (snd (step_submit is_uuid P C D E inp p sz ord permit ?w))) \<noteq> wo_placed (lw_exec ?w)"
    using placed by (simp add: run)
  note sent = step_submit_placed [OF D this, folded run, simplified]
  obtain shares price style signed where built: "build_order ?b = Inr (Ok (shares, price, style))"
    and ord: "ord = built_order ?b (ce_order (se_call E)) shares price style"
    by (rule buildSignedOrder_ok [OF build])
  have qty: "ti_desired_qty (b_intent ?b) = Some sz" by (simp add: build_of_def step_intent_def)
  from build_order_inside [OF built] qty obtain wanted where wanted: "toBase6 sz = Inr wanted" "0 < shares" "shares \<le> wanted"
    by (auto simp: inside_permit_def order_size_def)
  have fields: "o_price ord = units price" "o_size ord = units shares" by (simp_all add: ord built_order_def)
  note facts = sent order_size_positive [OF built qty] wanted fields
  show ?thesis
    by (rule exI [of _ ord], rule exI [of _ shares], rule exI [of _ price], rule exI [of _ wanted]) (use facts in simp)
qed

lemma num_not_lt: "x \<noteq> NaN \<Longrightarrow> y \<noteq> NaN \<Longrightarrow> \<not> num_lt x y \<Longrightarrow> num_le y x"
  by (cases x; cases y) (auto simp: num_le_def)

lemma units_nonneg: "0 \<le> price \<Longrightarrow> num_le (Fin 0) (units price)"
proof -
  assume "0 \<le> price"
  then have "num_le (Fin 0) (num_of_bigint price)" using fl_mono [of 0 "of_int price"] is_double_0 by (simp add: num_of_bigint_def representable_def)
  then show ?thesis by (cases "num_of_bigint price") (simp_all add: units_def inf_of_sign_def fl_nonneg)
qed

lemma notional_ok_mul: "is_finite_num sz \<Longrightarrow> num_lt (Fin 0) sz \<Longrightarrow> num_le (Fin 0) x \<Longrightarrow> num_le (Fin 0) (num_mul sz x)"
  by (cases sz; cases x) (simp_all add: inf_of_sign_def fl_nonneg)

lemma num_add_not_NaN: "num_le (Fin 0) x \<Longrightarrow> num_le (Fin 0) y \<Longrightarrow> num_add x y \<noteq> NaN"
  by (cases x; cases y) (simp_all add: num_le_def)

lemma capped_total:
  assumes t: "tracker_ok t" "is_finite_num (tracker_total t)"
    and cap: "is_finite_num cap" "\<not> num_lt cap (num_add (fst (exposureForStep t mid sp sm)) n)"
    and n: "num_le (Fin 0) n"
  shows "num_le (num_add (tracker_total t) n) cap"
proof -
  have tot: "num_le (Fin 0) (tracker_total t)"
    using exposureOf_ok [OF t(1), of mid] tracker_total_ge [OF t(1), of mid] num_le_trans by blast
  have ge: "num_le (tracker_total t) (fst (exposureForStep t mid sp sm))" using exposureForStep_ge [OF t] by blast
  then have "num_le (Fin 0) (fst (exposureForStep t mid sp sm))" using tot num_le_trans by blast
  from num_add_not_NaN [OF this n] have "num_le (num_add (fst (exposureForStep t mid sp sm)) n) cap"
    using cap num_not_lt [of cap] by fastforce
  with num_add_mono [OF ge tot n] num_le_trans show ?thesis by blast
qed

text \<open>What the loop does to its state between two moments: a settlement sync, a durable snapshot, one market, one score.\<close>

inductive loop_step ::
  "(string \<Rightarrow> bool) \<Rightarrow> pipeline \<Rightarrow> (jsnum \<Rightarrow> step_config) \<Rightarrow> (run_env \<Rightarrow> world deps) \<Rightarrow> pipe \<Rightarrow> pipe \<Rightarrow> bool"
  for is_uuid P cfg mk where
  settle: "loop_step is_uuid P cfg mk s (syncSettlements feed s)"
| sync: "loop_step is_uuid P cfg mk s (syncOpenExposure rows s)"
| market: "loop_step is_uuid P cfg mk s (snd (processMarket is_uuid P cfg mk V inp s))"
| score: "loop_step is_uuid P cfg mk s (s\<lparr>pp_scores := sc\<rparr>)"

inductive loop_reach ::
  "(string \<Rightarrow> bool) \<Rightarrow> pipeline \<Rightarrow> (jsnum \<Rightarrow> step_config) \<Rightarrow> (run_env \<Rightarrow> world deps) \<Rightarrow> pipe \<Rightarrow> pipe \<Rightarrow> bool"
  for is_uuid P cfg mk s0 where
  start: "loop_reach is_uuid P cfg mk s0 s0"
| step: "loop_reach is_uuid P cfg mk s0 s \<Longrightarrow> loop_step is_uuid P cfg mk s s' \<Longrightarrow> loop_reach is_uuid P cfg mk s0 s'"

inductive_cases loop_stepE: "loop_step is_uuid P cfg mk s s'"

lemma loop_step_tracker: "loop_step is_uuid P cfg mk s s' \<Longrightarrow> tracker_ok (pp_tracker s) \<Longrightarrow> tracker_ok (pp_tracker s')"
  by (erule loop_stepE)
     (simp_all add: syncSettlements_def tracker_ok_resolve syncOpenExposure_ok processMarket_tracker split: option.split)

lemma loop_reach_tracker:
  "loop_reach is_uuid P cfg mk s0 s \<Longrightarrow> tracker_ok (pp_tracker s0) \<Longrightarrow> tracker_ok (pp_tracker s)"
  by (induction rule: loop_reach.induct) (auto intro: loop_step_tracker)

text \<open>Every pass is made of such steps.\<close>

lemma run_selected_reach:
  "loop_reach is_uuid P cfg mk s0 s \<Longrightarrow> loop_reach is_uuid P cfg mk s0 (run_selected is_uuid P cfg mk V byId mids s)"
proof (induction mids arbitrary: s)
  case (Cons mid mids)
  show ?case
  proof (cases "byId mid")
    case (Some inp)
    obtain r s' where r: "processMarket is_uuid P cfg mk V inp s = (r, s')" by fastforce
    have "loop_reach is_uuid P cfg mk s0 s'"
      using loop_reach.step [OF Cons.prems loop_step.market, of V inp] r by simp
    with Cons.IH [OF loop_reach.step [OF this loop_step.score]] Some r show ?thesis by (cases r) simp_all
  qed (use Cons in simp)
qed simp

lemma run_pass_reach: "loop_reach is_uuid P cfg mk s0 s \<Longrightarrow> loop_reach is_uuid P cfg mk s0 (run_pass is_uuid P cfg mk V A s)"
  using loop_reach.step [OF loop_reach.step [OF _ loop_step.sync] loop_step.settle, of is_uuid P cfg mk s0 s "pa_settled A" "pa_rows A"]
  by (auto simp: run_pass_def Let_def intro: run_selected_reach split: sum.splits)

lemma executeG4Step_capped:
  assumes D: "D \<in> {mem_deps e, pg_deps read_int8 e}"
    and placed: "wo_placed (lw_exec (snd (executeG4Step is_uuid P C D E inp w))) \<noteq> wo_placed (lw_exec w)"
  obtains p ord shares price wanted where
    "(case si_override inp of Some q \<Rightarrow> Inr q | None \<Rightarrow> se_forecast E) = Inr (Some p)"
    and "wo_placed (lw_exec (snd (executeG4Step is_uuid P C D E inp w))) = wo_placed (lw_exec w) @ [ord]"
    and "o_price ord = units price" "0 \<le> price" and "o_size ord = units shares"
    and "toBase6 (sc_size C (si_bid inp) (si_ask inp) p) = Inr wanted" "0 < shares" "shares \<le> wanted"
    and "is_finite_num (sc_size C (si_bid inp) (si_ask inp) p)" "num_lt (Fin 0) (sc_size C (si_bid inp) (si_ask inp) p)"
    and "live_caps_hold C E inp (sc_size C (si_bid inp) (si_ask inp) p) ord (lw_guard w)"
proof -
  from executeG4Step_placed [OF placed] obtain p where
    p: "(case si_override inp of Some q \<Rightarrow> Inr q | None \<Rightarrow> se_forecast E) = Inr (Some p)" and
    same: "executeG4Step is_uuid P C D E inp w = step_trade is_uuid P C D E inp p (sc_size C (si_bid inp) (si_ask inp) p) w" by blast
  from step_trade_capped [OF D placed [unfolded same]] p that show thesis unfolding same by blast
qed

lemma processMarket_world:
  "pp_world (snd (processMarket is_uuid P cfg mk V inp s))
     = snd (executeG4Step is_uuid P (cfg (sm_pnl (pp_metrics s))) (mk (pe_run V (si_market inp))) (pe_step V (si_market inp))
         (step_exposures (pp_tracker s) inp) (pp_world s))"
  by (auto simp: processMarket_def split: prod.splits sum.splits)

lemma step_exposures_fields:
  "si_bid (step_exposures t inp) = si_bid inp" "si_ask (step_exposures t inp) = si_ask inp"
  "si_override (step_exposures t inp) = si_override inp"
  "si_portfolio_exposure (step_exposures t inp) = Some (fst (exposureForStep t (si_market inp) (si_portfolio_exposure inp) (si_market_exposure inp)))"
  by (simp_all add: step_exposures_def split: prod.split)

section \<open>Properties\<close>

text \<open>C11. The capital cap counts everything still open. Along any run of the loop from an empty tracker - settlement syncs,
  durable snapshots and market steps in any order - while the total of the tracked exposures is a finite number: when a market's step
  places an order, on either wiring, it places exactly one, and the total plus that order's notional, its sized quantity times the price
  it carries, is within the finite capital cap, whatever exposure the caller supplied. The quantity the order itself carries
  is positive and at most the sized one.\<close>

theorem open_exposure_capped:
  assumes start: "pp_tracker s0 = []" and run: "loop_reach is_uuid P cfg mk s0 s"
    and finite: "is_finite_num (tracker_total (pp_tracker s))"
    and D: "mk (pe_run V (si_market inp)) \<in> {mem_deps e, pg_deps read_int8 e}"
    and placed: "wo_placed (lw_exec (pp_world (snd (processMarket is_uuid P cfg mk V inp s)))) \<noteq> wo_placed (lw_exec (pp_world s))"
  shows "\<exists>ord shares price wanted p cap.
    wo_placed (lw_exec (pp_world (snd (processMarket is_uuid P cfg mk V inp s)))) = wo_placed (lw_exec (pp_world s)) @ [ord] \<and>
    (case si_override inp of Some q \<Rightarrow> Inr q | None \<Rightarrow> se_forecast (pe_step V (si_market inp))) = Inr (Some p) \<and>
    (let C = cfg (sm_pnl (pp_metrics s)); sz = sc_size C (si_bid inp) (si_ask inp) p
     in sc_cap C = Some cap \<and> is_finite_num cap \<and>
       o_size ord = units shares \<and> o_price ord = units price \<and> 0 < shares \<and> shares \<le> wanted \<and> toBase6 sz = Inr wanted \<and>
       num_le (num_add (tracker_total (pp_tracker s)) (num_mul sz (o_price ord))) cap)"
proof -
  let ?C = "cfg (sm_pnl (pp_metrics s))" and ?i = "step_exposures (pp_tracker s) inp"
  have t: "tracker_ok (pp_tracker s)" using loop_reach_tracker [OF run] start by (simp add: tracker_ok_def)
  let ?E = "pe_step V (si_market inp)"
  obtain p ord shares price wanted where
    p: "(case si_override ?i of Some q \<Rightarrow> Inr q | None \<Rightarrow> se_forecast (pe_step V (si_market inp))) = Inr (Some p)"
    and sent: "wo_placed (lw_exec (snd (executeG4Step is_uuid P ?C (mk (pe_run V (si_market inp))) ?E ?i (pp_world s))))
      = wo_placed (lw_exec (pp_world s)) @ [ord]"
    and price: "o_price ord = units price" "0 \<le> price" and size: "o_size ord = units shares"
    and wanted: "toBase6 (sc_size ?C (si_bid ?i) (si_ask ?i) p) = Inr wanted" "0 < shares" "shares \<le> wanted"
    and sz: "is_finite_num (sc_size ?C (si_bid ?i) (si_ask ?i) p)" "num_lt (Fin 0) (sc_size ?C (si_bid ?i) (si_ask ?i) p)"
    and caps: "live_caps_hold ?C (pe_step V (si_market inp)) ?i (sc_size ?C (si_bid ?i) (si_ask ?i) p) ord (lw_guard (pp_world s))"
    by (rule executeG4Step_capped [OF D placed [unfolded processMarket_world]])
  note sz = sz [unfolded step_exposures_fields]
  from caps obtain cap where cap: "sc_cap ?C = Some cap" "is_finite_num cap"
    "\<not> num_lt cap (num_add (fst (exposureForStep (pp_tracker s) (si_market inp) (si_portfolio_exposure inp) (si_market_exposure inp)))
       (num_mul (sc_size ?C (si_bid inp) (si_ask inp) p) (units price)))"
    by (auto simp: live_caps_hold_def step_exposures_fields price)
  note capped = capped_total [OF t finite cap(2,3) notional_ok_mul [OF sz units_nonneg [OF price(2)]]]
  note facts = sent p wanted size price(1) cap(1,2) capped
  show ?thesis unfolding Let_def processMarket_world
    by (rule exI [of _ ord], rule exI [of _ shares], rule exI [of _ price], rule exI [of _ wanted], rule exI [of _ p], rule exI [of _ cap])
      (use facts in \<open>simp add: step_exposures_fields\<close>)
qed

text \<open>The run of the witness: the sample market, with the exposures an empty tracker gives.\<close>

definition loop_start :: pipe where
  "loop_start = \<lparr>pp_world = live_start, pp_book = \<lparr>eb_shares = [], eb_baselined = False, eb_stepped = False\<rparr>, pp_tracker = [],
     pp_metrics = \<lparr>sm_orders = 0, sm_filled = 0, sm_pnl = Fin 0, sm_fees = Fin 0, sm_fill_ratio = Fin 0, sm_exposure = Fin 0, sm_max_exposure = Fin 0\<rparr>,
     pp_scores = Map.empty\<rparr>"

lemma no_exposure: "step_exposures [] live_input = live_input\<lparr>si_portfolio_exposure := Some (Fin 0), si_market_exposure := Some (Fin 0)\<rparr>"
  by (simp add: step_exposures_def exposureForStep_def live_input_def combineExposure_def positiveFinite_def tracker_total_def
      num_sum_def exposureOf_def num_max_def)

lemma default_exposures:
  "executeG4Step is_uuid P C D E (live_input\<lparr>si_portfolio_exposure := Some (Fin 0), si_market_exposure := Some (Fin 0)\<rparr>) w
     = executeG4Step is_uuid P C D E live_input w" (is "executeG4Step _ _ _ _ _ ?i _ = _")
proof -
  have f: "si_bid ?i = si_bid live_input" "si_ask ?i = si_ask live_input" "si_override ?i = si_override live_input"
    "quoted_side ?i = quoted_side live_input" "si_market ?i = si_market live_input" "step_edge C E ?i p = step_edge C E live_input p"
    for p by (simp_all add: live_input_def quoted_side_def step_edge_def edge_floor_def)
  have b: "before_submit C E ?i sz ord g = before_submit C E live_input sz ord g" for sz ord g
    by (simp add: before_submit_def live_input_def)
  have i: "step_intent iid dk ?i sz edge = step_intent iid dk live_input sz edge" for iid dk sz edge
    by (simp add: step_intent_def f split: option.split)
  have g: "step_gate P E ?i x = step_gate P E live_input x" for x by (simp add: step_gate_def live_input_def)
  have r: "step_report E ?i p sz ord permit res = step_report E live_input p sz ord permit res" for p sz ord permit res
    by (simp add: step_report_def f Let_def split: option.split)
  have "step_submit is_uuid P C D E ?i p sz ord permit u = step_submit is_uuid P C D E live_input p sz ord permit u" for p sz ord permit u
    by (simp only: step_submit_def b r)
  then have "step_trade is_uuid P C D E ?i p sz w = step_trade is_uuid P C D E live_input p sz w" for p sz
    by (simp only: step_trade_def f i g)
  then show ?thesis by (simp only: executeG4Step_def f)
qed

theorem open_exposure_capped_witness:
  "num_le (num_add (tracker_total (pp_tracker loop_start)) (num_mul (Fin 1) (o_price pipeline_order))) (Fin 1)"
proof -
  let ?e = "sample_env (Sub_Fail ''SUBMISSION_UNKNOWN'' ''timeout'')"
  let ?V = "\<lparr>pe_run = (\<lambda>_. ?e), pe_step = (\<lambda>_. live_env), pe_at = (\<lambda>_. 0)\<rparr>"
  let ?cfg = "\<lambda>_. live_config (Some (Fin 1))"
  let ?after = "snd (processMarket (\<lambda>_. True) sample_pipeline ?cfg mem_deps ?V live_input loop_start)"
  have sent: "wo_placed (lw_exec (pp_world ?after)) = [pipeline_order]"
    using live_placed unfolding processMarket_world by (simp add: loop_start_def no_exposure default_exposures)
  have none: "wo_placed (lw_exec (pp_world loop_start)) = []" by (simp add: loop_start_def live_start_def sample_world_def)
  have placed: "wo_placed (lw_exec (pp_world ?after)) \<noteq> wo_placed (lw_exec (pp_world loop_start))" by (simp only: sent none) simp
  have empty: "pp_tracker loop_start = []" and total: "is_finite_num (tracker_total (pp_tracker loop_start))"
    by (simp_all add: loop_start_def tracker_total_def num_sum_def)
  have c: "sc_cap (live_config (Some (Fin 1))) = Some (Fin 1)" "sc_size (live_config (Some (Fin 1))) b a p = Fin 1" for b a p
    by (simp_all add: live_config_def)
  from open_exposure_capped [OF empty loop_reach.start total _ placed, where e = ?e, unfolded sent none append_Nil list.inject Let_def c]
  show ?thesis by auto
qed

text \<open>C29. The mode watcher fails closed: whatever it read before, after at least as many failed polls in a row as it
  tolerates it is degraded and READ_ONLY, and while it is the loop does nothing - no market is stepped, no state moves,
  nothing reaches the venue.\<close>

theorem watcher_fails_closed:
  assumes "0 < k" and "k \<le> length fails" and "\<forall>a \<in> set fails. \<exists>e. a = Inl e"
    and w: "w = polls k (as @ fails) (new_watcher initial)"
  shows "wt_degraded w \<and> wt_mode w = ''READ_ONLY'' \<and> run_pass is_uuid P cfg mk V (A\<lparr>pa_watcher := Some w\<rparr>) s = s"
proof -
  have "watcher_ok (polls k as (new_watcher initial))" by (rule watcher_ok_polls) (simp add: watcher_ok_def new_watcher_def)
  then have "watcher_ok w" unfolding w polls_append by (rule watcher_ok_polls)
  moreover have "wt_degraded w" unfolding w polls_append using assms(1-3) by (intro failures_degrade) auto
  ultimately show ?thesis by (simp add: watcher_ok_def run_pass_def syncModeFromWatcher_def)
qed

theorem watcher_fails_closed_witness:
  "wt_mode (polls 2 [Inr (Some ''LIVE''), Inl ''down'', Inl ''down''] (new_watcher None)) = ''READ_ONLY''"
  using watcher_fails_closed [of 2 "[Inl ''down'', Inl ''down'']" _ "[Inr (Some ''LIVE'')]" None, OF _ _ _ refl] by simp

section \<open>Where the loop stays open\<close>

text \<open>A row with a mode the code does not know leaves the loop trading.\<close>

lemma unknown_mode_trades:
  "syncModeFromWatcher (Some (polls 3 [Inr (Some ''HALTED'')] (new_watcher None)))"
  by (simp add: syncModeFromWatcher_def polls_def pollOnce_def new_watcher_def)

text \<open>A change of mode is acknowledged although there was no row to update.\<close>

lemma change_without_row:
  "requestModeChange k \<lparr>cf_read = None, cf_update = None, cf_poll = None\<rparr> m (None, new_watcher (Some ''LIVE''))
     = (Inr (Ok ''LIVE''), None, new_watcher (Some ''LIVE''))"
  by (simp add: requestModeChange_def answer_of_def pollOnce_def new_watcher_def)

end
