(* ===== verification/VenueAdapter.thy ===== *)
theory VenueAdapter
  imports ExecutorWiring Signal
begin

text \<open>
  The venue adapter (\<open>src/pm/venue/src/polymarket-adapter.ts\<close>), the translation of a domain order to a limit order
  (\<open>order-translation.ts\<close>) and what the executor makes of the adapter's answers. The SDK client is a record of
  functions, each missing, throwing a message or resolving; \<open>None\<close> inside is a resolved \<open>undefined\<close>. Where the
  adapter stamps a result with the time, the model has no field.
\<close>

section \<open>Numbers from text\<close>

text \<open>\<open>Number(text)\<close>: trimmed, empty is zero; a prefixed integer, a signed infinity or a signed decimal; else NaN.\<close>

definition cut_at :: "(char \<Rightarrow> bool) \<Rightarrow> string \<Rightarrow> string \<times> string option" where
  "cut_at P s = (takeWhile (\<lambda>c. \<not> P c) s, case dropWhile (\<lambda>c. \<not> P c) s of [] \<Rightarrow> None | _ # r \<Rightarrow> Some r)"

definition signed_digits :: "string \<Rightarrow> int option" where
  "signed_digits s =
     (case s of
        [] \<Rightarrow> None
      | c # r \<Rightarrow> if c = CHR ''-'' then map_option uminus (parse_nonempty 10 r)
                else if c = CHR ''+'' then parse_nonempty 10 r else parse_nonempty 10 s)"

definition unsigned_decimal :: "string \<Rightarrow> jsnum" where
  "unsigned_decimal s =
     (case cut_at (\<lambda>c. c \<in> {CHR ''e'', CHR ''E''}) s of (mantissa, ex) \<Rightarrow>
      case cut_at (\<lambda>c. c = CHR ''.'') mantissa of (whole, fraction) \<Rightarrow>
        let f = (case fraction of Some f \<Rightarrow> f | None \<Rightarrow> []) in
        case (parse_nonempty 10 (whole @ f), case ex of None \<Rightarrow> Some 0 | Some e \<Rightarrow> signed_digits e) of
          (Some m, Some k) \<Rightarrow> if list_all is_digit (whole @ f) then fl (of_int m * pow10 (k - int (length f))) else NaN
        | _ \<Rightarrow> NaN)"

definition radix_literal :: "string \<Rightarrow> int option option" where
  "radix_literal t =
     (case t of
        CHR ''0'' # c # r \<Rightarrow>
          if c \<in> {CHR ''x'', CHR ''X''} then Some (parse_nonempty 16 r)
          else if c \<in> {CHR ''o'', CHR ''O''} then Some (parse_nonempty 8 r)
          else if c \<in> {CHR ''b'', CHR ''B''} then Some (parse_nonempty 2 r) else None
      | _ \<Rightarrow> None)"

definition js_number :: "string \<Rightarrow> jsnum" where
  "js_number s =
     (let t = trim_str s;
          unsigned = (\<lambda>u. if u = ''Infinity'' then PosInf else unsigned_decimal u)
      in case radix_literal t of
           Some n \<Rightarrow> (case n of Some b \<Rightarrow> num_of_bigint b | None \<Rightarrow> NaN)
         | None \<Rightarrow>
             (case t of
                [] \<Rightarrow> Fin 0
              | c # r \<Rightarrow> if c = CHR ''-'' then num_neg (unsigned r) else if c = CHR ''+'' then unsigned r else unsigned t))"

section \<open>Translation\<close>

record limit_request =
  lr_asset :: string
  lr_price :: jsnum
  lr_size :: jsnum
  lr_side :: order_side
  lr_post_only :: bool

definition is_hex :: "char \<Rightarrow> bool" where
  "is_hex c = (digit_val 16 c \<noteq> None)"

definition isClobAssetId :: "string \<Rightarrow> bool" where
  "isClobAssetId s =
     (s \<noteq> [] \<and> list_all is_digit s \<or> take 2 s = ''0x'' \<and> drop 2 s \<noteq> [] \<and> list_all is_hex (drop 2 s))"

definition translateDomainOrderToLimit :: "jsnum option \<Rightarrow> signed_order \<Rightarrow> limit_request outcome" where
  "translateDomainOrderToLimit expiration order =
     (let style = (case o_order_type order of Some s \<Rightarrow> s | None \<Rightarrow> Style_LIMIT) in
      if \<not> isClobAssetId (o_market_id order) then Refused ''VENUE_MARKET_UNRESOLVED''
      else if style \<notin> {Style_LIMIT, Style_POST_ONLY} then Refused ''VENUE_ORDER_TYPE_UNSUPPORTED''
      else if expiration \<noteq> None then Refused ''VENUE_EXPIRATION_UNSUPPORTED''
      else if \<not> is_finite_num (o_price order) \<or> num_le (o_price order) (Fin 0) \<or> num_le (Fin 1) (o_price order)
        then Refused ''VENUE_PRICE_INVALID''
      else if \<not> is_finite_num (o_size order) \<or> num_le (o_size order) (Fin 0) then Refused ''VENUE_SIZE_INVALID''
      else Ok \<lparr>lr_asset = o_market_id order, lr_price = o_price order, lr_size = o_size order, lr_side = o_side order,
               lr_post_only = (style = Style_POST_ONLY)\<rparr>)"

section \<open>The client\<close>

record sdk_answer =
  an_ok :: "bool option"
  an_success :: "bool option"
  an_cancelled :: "bool option"
  an_orderId :: "string option"
  an_orderID :: "string option"
  an_code :: "string option"
  an_message :: "string option"
  an_errorMsg :: "string option"

record sdk_status =
  sr_venue_status :: "string option"
  sr_error :: "string option"
  sr_filled :: "jsnum option"
  sr_average :: "jsnum option"

text \<open>A book: the price texts of its levels, and the market's metadata, absent or partly there.\<close>

record sdk_market =
  mk_question :: "string option"
  mk_rules :: "string option"
  mk_neg_risk :: "bool option"
  mk_fee_bps :: "jsnum option"
  mk_min_size :: "jsnum option"
  mk_tick :: "jsnum option"
  mk_status :: "string option"

record sdk_book =
  bo_bids :: "string list"
  bo_asks :: "string list"
  bo_market :: "sdk_market option"

text \<open>An order object: the names of its fields that are defined beside those of a domain order.\<close>

datatype place_input = Not_An_Object | Order_Object "string list" "jsnum option" signed_order

record venue_client =
  vc_limit :: "(limit_request \<Rightarrow> string + sdk_answer option) option"
  vc_post :: "(place_input \<Rightarrow> string + sdk_answer option) option"
  vc_cancel :: "(string \<Rightarrow> string + sdk_answer option) option"
  vc_order :: "(string \<Rightarrow> string + sdk_status option) option"
  vc_book :: "(string \<Rightarrow> string + sdk_book option) option"

record venue_adapter =
  ad_mode :: venue_mode
  ad_client :: venue_client
  ad_chain :: jsnum
  ad_collateral :: string

section \<open>Placing\<close>

text \<open>The two readings of a thrown error, for a placement and for a cancellation.\<close>

definition network_error :: "string \<Rightarrow> bool" where
  "network_error msg = mentions [''fetch failed'', ''ENOTFOUND'', ''ECONNREFUSED'', ''ECONNRESET'', ''ETIMEDOUT'', ''network''] msg"

definition thrown :: "string \<Rightarrow> string \<Rightarrow> string \<Rightarrow> submit_outcome" where
  "thrown before_send after_call msg =
     (if network_error msg then Sub_Fail ''DEFINITELY_NOT_SENT'' (before_send @ msg)
      else Sub_Fail ''SUBMISSION_UNKNOWN'' (after_call @ msg))"

definition thrown_place :: "string \<Rightarrow> submit_outcome" where
  "thrown_place = thrown ''network error before send: '' ''venue call error (may have been accepted): ''"

definition thrown_cancel :: "string \<Rightarrow> submit_outcome" where
  "thrown_cancel = thrown ''network error before cancel send: '' ''cancel call error (may have been accepted): ''"

definition accepted :: "string option \<Rightarrow> submit_outcome" where
  "accepted oid = Sub_Ok \<lparr>res_success = True, res_submit_status = None, res_order_status = None, res_order_id = oid,
     res_filled_size = None, res_average_price = None\<rparr>"

text \<open>The older shape of an answer: its id, and \<open>Boolean(success ?? id)\<close>.\<close>

definition legacy_id :: "sdk_answer option \<Rightarrow> string option" where
  "legacy_id a = Option.bind a (\<lambda>r. first_some [an_orderID r, an_orderId r])"

definition legacy_ok :: "sdk_answer option \<Rightarrow> bool" where
  "legacy_ok a = (case Option.bind a an_success of Some b \<Rightarrow> b | None \<Rightarrow> truthy (legacy_id a))"

definition legacy_outcome :: "sdk_answer option \<Rightarrow> submit_outcome" where
  "legacy_outcome a =
     (if legacy_ok a then accepted (legacy_id a)
      else Sub_Fail ''VENUE_REJECTED'' (case Option.bind a an_errorMsg of Some m \<Rightarrow> m | None \<Rightarrow> ''venue rejected order''))"

definition limit_outcome :: "string + sdk_answer option \<Rightarrow> submit_outcome" where
  "limit_outcome a =
     (case a of
        Inl msg \<Rightarrow> thrown_place msg
      | Inr r \<Rightarrow>
          (case Option.bind r an_ok of
             Some True \<Rightarrow> accepted (Option.bind r an_orderId)
           | Some False \<Rightarrow> Sub_Fail ''VENUE_REJECTED''
               (case first_some [Option.bind r an_message, Option.bind r an_code] of Some m \<Rightarrow> m | None \<Rightarrow> ''venue rejected order'')
           | None \<Rightarrow> legacy_outcome r))"

definition submitTranslatedOrder :: "venue_client \<Rightarrow> place_input \<Rightarrow> submit_outcome" where
  "submitTranslatedOrder client inp =
     (case inp of
        Not_An_Object \<Rightarrow> Sub_Fail ''VENUE_ORDER_SHAPE_UNSUPPORTED'' ''order is not an object; nothing translatable to submit''
      | Order_Object _ expiration order \<Rightarrow>
          (case translateDomainOrderToLimit expiration order of
             Refused code \<Rightarrow> Sub_Fail code ''order not translatable''
           | Ok req \<Rightarrow>
               (case vc_limit client of
                  None \<Rightarrow> Sub_Fail ''VENUE_ORDER_SHAPE_UNSUPPORTED''
                    ''translated CLOB limit order has nowhere to go: injected client lacks placeLimitOrder''
                | Some f \<Rightarrow> limit_outcome (f req))))"

definition CLOB_ORDER_FIELDS :: "string list" where
  "CLOB_ORDER_FIELDS = [''tokenId'', ''maker'', ''takerAmount'', ''salt'', ''signatureType'', ''signature'']"

text \<open>Every domain order carries a signature.\<close>

definition isClobSignedOrder :: "place_input \<Rightarrow> bool" where
  "isClobSignedOrder inp =
     (case inp of Not_An_Object \<Rightarrow> False
      | Order_Object names _ _ \<Rightarrow> list_all (\<lambda>f. f = ''signature'' \<or> f \<in> set names) CLOB_ORDER_FIELDS)"

definition placeOrder :: "venue_adapter \<Rightarrow> place_input \<Rightarrow> submit_outcome" where
  "placeOrder A inp =
     (case venueActionGate (ad_mode A) ORDER_SUBMIT of
        Refused code \<Rightarrow> Sub_Fail code ''venue mode forbids submit''
      | Ok _ \<Rightarrow>
          if \<not> isClobSignedOrder inp then submitTranslatedOrder (ad_client A) inp
          else (case vc_post (ad_client A) of
                  None \<Rightarrow> legacy_outcome None
                | Some f \<Rightarrow> (case f inp of Inl msg \<Rightarrow> thrown_place msg | Inr a \<Rightarrow> legacy_outcome a)))"

section \<open>Cancelling and asking\<close>

definition cancelOrder :: "venue_adapter \<Rightarrow> string \<Rightarrow> submit_outcome" where
  "cancelOrder A oid =
     (case venueActionGate (ad_mode A) ORDER_CANCEL of
        Refused code \<Rightarrow> Sub_Fail code ''venue mode forbids cancel''
      | Ok _ \<Rightarrow>
          (case (case vc_cancel (ad_client A) of None \<Rightarrow> Inr None | Some f \<Rightarrow> f oid) of
             Inl msg \<Rightarrow> thrown_cancel msg
           | Inr a \<Rightarrow>
               if first_some [Option.bind a an_success, Option.bind a an_cancelled] = Some True then accepted (Some oid)
               else Sub_Fail ''VENUE_REJECTED'' (case Option.bind a an_errorMsg of Some m \<Rightarrow> m | None \<Rightarrow> ''venue rejected cancel'')))"

definition upper :: "char \<Rightarrow> char" where
  "upper c = (let k = (of_char c :: nat) in if 97 \<le> k \<and> k \<le> 122 then char_of (k - 32) else c)"

definition order_status_of :: "string \<Rightarrow> order_status" where
  "order_status_of s =
     (if s \<in> {''LIVE'', ''NEW''} then Order_LIVE else if s = ''PARTIAL'' then Order_PARTIAL
      else if s \<in> {''MATCHED'', ''FILLED''} then Order_MATCHED else if s = ''CANCELED'' then Order_CANCELED
      else if s = ''EXPIRED'' then Order_EXPIRED else if s \<in> {''REJECTED'', ''FAILED''} then Order_REJECTED else Order_UNKNOWN)"

definition getOrderStatus :: "venue_adapter \<Rightarrow> string \<Rightarrow> string + order_result option" where
  "getOrderStatus A oid =
     (case (case vc_order (ad_client A) of None \<Rightarrow> Inr None | Some f \<Rightarrow> f oid) of
        Inl msg \<Rightarrow> Inl msg
      | Inr None \<Rightarrow> Inr None
      | Inr (Some raw) \<Rightarrow>
          let st = order_status_of (map upper (case sr_venue_status raw of Some s \<Rightarrow> s | None \<Rightarrow> ''UNKNOWN''))
          in Inr (Some \<lparr>res_success = (st \<notin> {Order_REJECTED, Order_UNKNOWN}), res_submit_status = None,
               res_order_status = Some st, res_order_id = Some oid, res_filled_size = sr_filled raw,
               res_average_price = sr_average raw\<rparr>))"

section \<open>The order book\<close>

record market_snapshot =
  ms_market :: string
  ms_question :: string
  ms_chain :: jsnum
  ms_collateral :: string
  ms_rules :: string
  ms_maker_bps :: jsnum
  ms_taker_bps :: jsnum
  ms_tick :: jsnum
  ms_min_size :: jsnum
  ms_status :: string
  ms_neg_risk :: bool
  ms_mode :: venue_mode
  ms_yes_price :: "jsnum option"
  ms_no_price :: "jsnum option"
  ms_best_bid :: "jsnum option"
  ms_best_ask :: "jsnum option"
  ms_quote_token :: string

definition valid_price :: "jsnum \<Rightarrow> bool" where
  "valid_price p \<longleftrightarrow> is_finite_num p \<and> num_le (Fin 0) p \<and> num_le p (Fin 1)"

datatype book_side = Bid_Side | Ask_Side

definition bestLevel :: "string list \<Rightarrow> book_side \<Rightarrow> jsnum option" where
  "bestLevel levels side =
     (let prices = filter valid_price (map js_number levels) in
      if prices = [] then None
      else Some (case side of Bid_Side \<Rightarrow> foldl num_max NegInf prices | Ask_Side \<Rightarrow> foldl num_min PosInf prices))"

definition getOrderBook :: "venue_adapter \<Rightarrow> string \<Rightarrow> string + market_snapshot" where
  "getOrderBook A mid =
     (case (case vc_book (ad_client A) of None \<Rightarrow> Inr None | Some f \<Rightarrow> f mid) of
        Inl msg \<Rightarrow> Inl msg
      | Inr raw \<Rightarrow>
          let mk = Option.bind raw bo_market;
              text = (\<lambda>f d. case Option.bind mk f of Some x \<Rightarrow> x | None \<Rightarrow> d);
              bid = (case raw of None \<Rightarrow> None | Some b \<Rightarrow> bestLevel (bo_bids b) Bid_Side);
              ask = (case raw of None \<Rightarrow> None | Some b \<Rightarrow> bestLevel (bo_asks b) Ask_Side)
          in Inr \<lparr>ms_market = mid,
               ms_question = (if truthy (Option.bind mk mk_question) then text mk_question mid else mid),
               ms_chain = ad_chain A, ms_collateral = ad_collateral A, ms_rules = text mk_rules ''UNKNOWN'',
               ms_maker_bps = Fin 0,
               ms_taker_bps = (case Option.bind mk mk_fee_bps of Some x \<Rightarrow> x | None \<Rightarrow> Fin 0),
               ms_tick = (case Option.bind mk mk_tick of Some x \<Rightarrow> x | None \<Rightarrow> Fin 0),
               ms_min_size = (case Option.bind mk mk_min_size of Some x \<Rightarrow> x | None \<Rightarrow> Fin 0),
               ms_status = (if (bid \<noteq> None \<or> ask \<noteq> None) \<and> mk \<noteq> None then text mk_status ''UNKNOWN'' else ''UNKNOWN''),
               ms_neg_risk = (Option.bind mk mk_neg_risk = Some True), ms_mode = ad_mode A,
               ms_yes_price = bid, ms_no_price = ask, ms_best_bid = bid, ms_best_ask = ask, ms_quote_token = mid\<rparr>)"

text \<open>\<open>runVenueCheck\<close>: one read of a book.\<close>

definition runVenueCheck :: "venue_adapter \<Rightarrow> string \<Rightarrow> bool \<times> jsnum option \<times> jsnum option" where
  "runVenueCheck A asset =
     (case getOrderBook A asset of
        Inl msg \<Rightarrow> (False, None, None)
      | Inr snap \<Rightarrow> if ms_yes_price snap = None \<and> ms_no_price snap = None then (False, None, None)
                   else (True, ms_yes_price snap, ms_no_price snap))"

section \<open>The executor over the adapter\<close>

text \<open>The adapter as the venue of a wiring: \<open>sent\<close> notes that the adapter was called.\<close>

definition domain_input :: "signed_order \<Rightarrow> place_input" where
  "domain_input order = Order_Object [] None order"

definition on_adapter :: "venue_adapter \<Rightarrow> (signed_order \<Rightarrow> 'w \<Rightarrow> 'w) \<Rightarrow> 'w deps \<Rightarrow> 'w deps" where
  "on_adapter A sent D = D\<lparr>d_placeOrder := (\<lambda>order w. (Inr (placeOrder A (domain_input order)), sent order w)),
     d_cancelOrder := (\<lambda>oid w. (Inr (cancelOrder A oid), w)), d_getOrderStatus := (\<lambda>oid w. (getOrderStatus A oid, w))\<rparr>"

definition over_adapter :: "venue_adapter \<Rightarrow> run_env \<Rightarrow> run_env" where
  "over_adapter A e = e\<lparr>en_place := (\<lambda>order. placeOrder A (domain_input order)), en_cancel := cancelOrder A\<rparr>"

section \<open>What a thrown error proves\<close>

lemma starts_with_iff: "starts_with p s \<longleftrightarrow> (\<exists>v. s = p @ v)"
  unfolding starts_with_def by (metis append_eq_conv_conj append_take_drop_id)

lemma occurs_in_iff: "occurs_in p s \<longleftrightarrow> (\<exists>u v. s = u @ p @ v)"
proof (induction s)
  case (Cons c s)
  have "(\<exists>u v. c # s = u @ p @ v) \<longleftrightarrow> (\<exists>v. c # s = p @ v) \<or> (\<exists>u v. s = u @ p @ v)"
  proof
    assume "\<exists>u v. c # s = u @ p @ v"
    then obtain u v where uv: "c # s = u @ p @ v" by blast
    then show "(\<exists>v. c # s = p @ v) \<or> (\<exists>u v. s = u @ p @ v)" by (cases u) auto
  qed (metis append_Cons append_Nil)
  with Cons show ?case by (simp add: starts_with_iff)
qed simp

lemma occurs_in_across:
  assumes "x \<notin> set p"
  shows "p \<noteq> [] \<Longrightarrow> occurs_in p (a @ x # b) \<longleftrightarrow> occurs_in p a \<or> occurs_in p b"
proof
  assume "p \<noteq> []" and "occurs_in p (a @ x # b)"
  then obtain u v where uv: "a @ x # b = u @ p @ v" by (auto simp: occurs_in_iff)
  then consider us where "u = a @ us" "x # b = us @ p @ v" | us where "a = u @ us" "us @ x # b = p @ v"
    by (auto simp: append_eq_append_conv2)
  then show "occurs_in p a \<or> occurs_in p b"
  proof cases
    case 1
    with assms \<open>p \<noteq> []\<close> obtain us' where "us = x # us'" "b = us' @ p @ v" by (cases us; cases p) auto
    then show ?thesis by (auto simp: occurs_in_iff)
  next
    case 2
    then consider (inside) ws where "us = p @ ws" | (across) ws where "p = us @ ws" "x # b = ws @ v"
      by (auto simp: append_eq_append_conv2)
    then show ?thesis
    proof cases
      case inside
      with 2 show ?thesis by (auto simp: occurs_in_iff)
    next
      case across
      with assms have "ws = []" by (cases ws) auto
      with across 2(1) show ?thesis by (auto simp: occurs_in_iff intro: exI [of _ "[]"])
    qed
  qed
next
  assume "occurs_in p a \<or> occurs_in p b"
  then show "occurs_in p (a @ x # b)" unfolding occurs_in_iff by (metis append.assoc append_Cons)
qed

lemma mentions_after:
  assumes "\<forall>w \<in> set words. w \<noteq> [] \<and> CHR '' '' \<notin> set (map lower w)" and "\<not> mentions words a"
  shows "mentions words (a @ '' '' @ b) = mentions words b"
proof -
  have "occurs_in (map lower w) (map lower (a @ '' '' @ b)) = (occurs_in (map lower w) (map lower a) \<or> occurs_in (map lower w) (map lower b))"
    if "w \<in> set words" for w
    using occurs_in_across [of "CHR '' ''" "map lower w" "map lower a" "map lower b"] that assms(1) by (simp add: lower_def)
  with assms(2) show ?thesis by (auto simp: mentions_def list_ex_iff)
qed

lemma provedNothingSent_iff:
  "provedNothingSent (Some r) \<longleftrightarrow> \<not> mentions [''ETIMEDOUT'', ''ECONNRESET'', ''timeout''] r \<and> mentions [''ENOTFOUND'', ''ECONNREFUSED''] r"
  by (cases r) (simp_all add: provedNothingSent_def mentions_def)

lemma prefix_silent:
  "\<not> mentions [''ETIMEDOUT'', ''ECONNRESET'', ''timeout''] ''network error before send:''"
  "\<not> mentions [''ENOTFOUND'', ''ECONNREFUSED''] ''network error before send:''"
  by (simp_all add: mentions_def lower_def char_of_def starts_with_def)

lemma words_plain:
  "\<forall>w \<in> set [''ETIMEDOUT'', ''ECONNRESET'', ''timeout'']. w \<noteq> [] \<and> CHR '' '' \<notin> set (map lower w)"
  "\<forall>w \<in> set [''ENOTFOUND'', ''ECONNREFUSED'']. w \<noteq> [] \<and> CHR '' '' \<notin> set (map lower w)"
  by (simp_all add: lower_def char_of_def)

lemma proof_of_prefixed:
  "provedNothingSent (Some (''network error before send:'' @ '' '' @ msg)) = provedNothingSent (Some msg)"
  unfolding provedNothingSent_iff
  by (simp only: mentions_after [OF words_plain(1) prefix_silent(1)] mentions_after [OF words_plain(2) prefix_silent(2)])

lemma proof_is_network: "provedNothingSent (Some msg) \<Longrightarrow> network_error msg"
  by (auto simp: provedNothingSent_def network_error_def mentions_def split: if_splits)

text \<open>The client threw a message that proves the connection never opened.\<close>

definition unsent :: "venue_adapter \<Rightarrow> signed_order \<Rightarrow> bool" where
  "unsent A order =
     (case (venueActionGate (ad_mode A) ORDER_SUBMIT, translateDomainOrderToLimit None order, vc_limit (ad_client A)) of
        (Ok _, Ok req, Some f) \<Rightarrow> (case f req of Inl msg \<Rightarrow> provedNothingSent (Some msg) | Inr _ \<Rightarrow> False)
      | _ \<Rightarrow> False)"

lemma legacy_not_rejected: "\<not> clearly_rejected (legacy_outcome a)"
  by (simp add: legacy_outcome_def clearly_rejected_def accepted_def)

lemma thrown_rejected: "clearly_rejected (thrown_place msg) \<longleftrightarrow> provedNothingSent (Some msg)"
proof (cases "network_error msg")
  case True
  have "thrown_place msg = Sub_Fail ''DEFINITELY_NOT_SENT'' (''network error before send:'' @ '' '' @ msg)"
    using True by (simp add: thrown_place_def thrown_def)
  then show ?thesis unfolding clearly_rejected_def by (simp only: submit_outcome.case proof_of_prefixed simp_thms)
next
  case False
  with proof_is_network show ?thesis by (auto simp: thrown_place_def thrown_def clearly_rejected_def)
qed

lemma limit_rejected: "clearly_rejected (limit_outcome a) \<longleftrightarrow> (\<exists>msg. a = Inl msg \<and> provedNothingSent (Some msg))"
proof (cases a)
  case (Inr r)
  have "\<not> clearly_rejected (accepted x)" "\<not> clearly_rejected (Sub_Fail ''VENUE_REJECTED'' y)" for x y
    by (simp_all add: clearly_rejected_def accepted_def)
  with Inr legacy_not_rejected show ?thesis by (auto simp: limit_outcome_def split: option.splits bool.splits)
qed (simp add: limit_outcome_def thrown_rejected)

lemma translation_codes:
  "translateDomainOrderToLimit x order = Refused c \<Longrightarrow> c \<noteq> ''DEFINITELY_NOT_SENT''"
  by (auto simp: translateDomainOrderToLimit_def Let_def split: if_splits)

lemma gate_codes: "venueActionGate m a = Refused c \<Longrightarrow> c \<noteq> ''DEFINITELY_NOT_SENT''"
  by (auto simp: venueActionGate_def split: if_splits)

lemma domain_not_clob: "\<not> isClobSignedOrder (Order_Object [] None order)"
  by (simp add: isClobSignedOrder_def CLOB_ORDER_FIELDS_def)

lemma placed_rejected: "clearly_rejected (placeOrder A (domain_input order)) \<longleftrightarrow> unsent A order"
  using translation_codes gate_codes
  by (auto simp: placeOrder_def domain_not_clob submitTranslatedOrder_def unsent_def limit_rejected domain_input_def
      split: outcome.splits option.splits sum.splits) (auto simp: clearly_rejected_def)

section \<open>The levels of a book\<close>

lemma foldl_max:
  assumes "m \<noteq> NaN" and "\<forall>p \<in> set ps. p \<noteq> NaN"
  shows "num_le m (foldl num_max m ps) \<and> (\<forall>p \<in> set ps. num_le p (foldl num_max m ps)) \<and> foldl num_max m ps \<in> insert m (set ps)"
  using assms
proof (induction ps arbitrary: m)
  case (Cons p ps)
  let ?x = "num_max m p" and ?r = "foldl num_max (num_max m p) ps"
  have x: "?x \<noteq> NaN" "num_le m ?x" "num_le p ?x" and mem: "?x = m \<or> ?x = p"
    using Cons.prems num_max_ge [of m p] by (auto simp: num_max_def)
  have ih: "num_le ?x ?r" "\<forall>q \<in> set ps. num_le q ?r" "?r \<in> insert ?x (set ps)"
    using Cons.IH [OF x(1)] Cons.prems(2) by auto
  have "num_le m ?r" "num_le p ?r" using num_le_trans [OF x(2) ih(1)] num_le_trans [OF x(3) ih(1)] by auto
  with ih(2,3) mem show ?case by auto
qed (simp add: num_le_refl)

lemma foldl_min:
  assumes "m \<noteq> NaN" and "\<forall>p \<in> set ps. p \<noteq> NaN"
  shows "num_le (foldl num_min m ps) m \<and> (\<forall>p \<in> set ps. num_le (foldl num_min m ps) p) \<and> foldl num_min m ps \<in> insert m (set ps)"
  using assms
proof (induction ps arbitrary: m)
  case (Cons p ps)
  let ?x = "num_min m p" and ?r = "foldl num_min (num_min m p) ps"
  have x: "?x \<noteq> NaN" "num_le ?x m" "num_le ?x p" and mem: "?x = m \<or> ?x = p"
    using Cons.prems num_min_le [of m p] by (auto simp: num_min_def)
  have ih: "num_le ?r ?x" "\<forall>q \<in> set ps. num_le ?r q" "?r \<in> insert ?x (set ps)"
    using Cons.IH [OF x(1)] Cons.prems(2) by auto
  have "num_le ?r m" "num_le ?r p" using num_le_trans [OF ih(1) x(2)] num_le_trans [OF ih(1) x(3)] by auto
  with ih(2,3) mem show ?case by auto
qed (simp add: num_le_refl)

definition valid_levels :: "string list \<Rightarrow> jsnum set" where
  "valid_levels levels = {p \<in> js_number ` set levels. valid_price p}"

lemma bestLevel_best:
  "case bestLevel levels side of
     None \<Rightarrow> valid_levels levels = {}
   | Some b \<Rightarrow> b \<in> valid_levels levels \<and>
       (\<forall>p \<in> valid_levels levels. case side of Bid_Side \<Rightarrow> num_le p b | Ask_Side \<Rightarrow> num_le b p)"
proof -
  let ?ps = "filter valid_price (map js_number levels)"
  have ps: "set ?ps = valid_levels levels" by (auto simp: valid_levels_def)
  show ?thesis
  proof (cases "?ps = []")
    case True
    then have "bestLevel levels side = None" by (simp add: bestLevel_def Let_def)
    with True ps show ?thesis by (simp del: set_filter)
  next
    case False
    then obtain p where p: "p \<in> set ?ps" by (metis list.set_intros(1) neq_Nil_conv)
    then have fin: "is_finite_num p" by (auto simp: valid_price_def)
    have nan: "\<forall>p \<in> set ?ps. p \<noteq> NaN" by (auto simp: valid_price_def)
    note hi = foldl_max [of NegInf ?ps, OF _ nan] and lo = foldl_min [of PosInf ?ps, OF _ nan]
    have "foldl num_max NegInf ?ps \<noteq> NegInf" using hi p fin by (cases p) (auto simp del: set_filter)
    moreover have "foldl num_min PosInf ?ps \<noteq> PosInf" using lo p fin by (cases p) (auto simp del: set_filter)
    ultimately have "foldl num_max NegInf ?ps \<in> set ?ps" "foldl num_min PosInf ?ps \<in> set ?ps" using hi lo by auto
    moreover have "bestLevel levels side = Some (case side of Bid_Side \<Rightarrow> foldl num_max NegInf ?ps | Ask_Side \<Rightarrow> foldl num_min PosInf ?ps)"
      using False by (simp add: bestLevel_def Let_def)
    ultimately show ?thesis using hi lo unfolding ps [symmetric] by (cases side) (simp_all del: set_filter)
  qed
qed

section \<open>Fills behind the adapter\<close>

text \<open>An answer of the adapter carries no submit status, and no fill where it accepts an order.\<close>

definition silent :: "submit_outcome \<Rightarrow> bool" where
  "silent x = (case x of Sub_Ok res \<Rightarrow> res_submit_status res = None \<and> res_filled_size res = None | Sub_Fail _ _ \<Rightarrow> True)"

lemma silent_answers [simp]:
  "silent (Sub_Fail c m)" "silent (accepted x)" "silent (legacy_outcome a)" "silent (thrown_place msg)"
  by (simp_all add: silent_def accepted_def legacy_outcome_def thrown_place_def thrown_def)

lemma limit_silent [simp]: "silent (limit_outcome a)"
  by (simp add: limit_outcome_def split: sum.split option.split bool.split)

lemma placed_silent: "silent (placeOrder A inp)"
  by (simp add: placeOrder_def submitTranslatedOrder_def split: outcome.split place_input.split option.split sum.split)

lemma status_silent: "getOrderStatus A oid = Inr (Some res) \<Longrightarrow> res_submit_status res = None"
  by (auto simp: getOrderStatus_def Let_def split: sum.splits option.splits)

lemma settle_fill_silent:
  "res_filled_size res = None \<Longrightarrow> settle_fill D ord permit res = return_eff ()"
  by (simp add: settle_fill_def)

text \<open>The same executor with other operations for settling fills.\<close>

definition refit :: "(uuid \<Rightarrow> string \<Rightarrow> string \<Rightarrow> ('w, string) eff) \<Rightarrow> (uuid \<Rightarrow> int \<Rightarrow> ('w, unit outcome) eff) \<Rightarrow> 'w deps \<Rightarrow> 'w deps" where
  "refit f g D = D\<lparr>d_consumeFill := f, d_rmConsume := g\<rparr>"

lemma refit_fields [simp]:
  "d_mode (refit f g D) = d_mode D" "d_now (refit f g D) = d_now D" "d_sha256 (refit f g D) = d_sha256 D"
  "d_leaseEpoch (refit f g D) = d_leaseEpoch D" "d_acquire (refit f g D) = d_acquire D"
  "d_releaseLease (refit f g D) = d_releaseLease D" "d_seen_get (refit f g D) = d_seen_get D"
  "d_seen_add (refit f g D) = d_seen_add D" "d_isClaimed (refit f g D) = d_isClaimed D" "d_save (refit f g D) = d_save D"
  "d_validatePermit (refit f g D) = d_validatePermit D" "d_claim (refit f g D) = d_claim D" "d_getPermit (refit f g D) = d_getPermit D"
  "d_addSubmittedUnknown (refit f g D) = d_addSubmittedUnknown D" "d_updateState (refit f g D) = d_updateState D"
  "d_resolve (refit f g D) = d_resolve D" "d_recordCancel (refit f g D) = d_recordCancel D"
  "d_needsReconcile (refit f g D) = d_needsReconcile D" "d_ledgerPermit (refit f g D) = d_ledgerPermit D"
  "d_hasReservations (refit f g D) = d_hasReservations D" "d_rmRelease (refit f g D) = d_rmRelease D"
  "d_placeOrder (refit f g D) = d_placeOrder D" "d_cancelOrder (refit f g D) = d_cancelOrder D"
  "d_getOrderStatus (refit f g D) = d_getOrderStatus D"
  by (simp_all add: refit_def)

lemma refit_leave [simp]: "mark_seen (refit f g D) = mark_seen D" "leave (refit f g D) = leave D"
  by (simp_all add: fun_eq_iff mark_seen_def leave_def)

lemma refit_steps [simp]:
  "leave_if (refit f g D) = leave_if D" "release_all (refit f g D) = release_all D"
  "with_bound_reservations (refit f g D) = with_bound_reservations D" "unless_reused (refit f g D) = unless_reused D"
  by (simp_all add: fun_eq_iff leave_if_def release_all_def with_bound_reservations_def unless_reused_def cong: if_cong)

lemma refit_later [simp]: "release_bound (refit f g D) = release_bound D" "after_failure (refit f g D) = after_failure D"
  by (simp_all add: fun_eq_iff release_bound_def after_failure_def Let_def cong: if_cong)

lemma after_ack_refit: "res_filled_size res = None \<Longrightarrow> after_ack (refit f g D) ord permit res = after_ack D ord permit res"
  by (simp add: after_ack_def settle_fill_silent Let_def)

lemma placed_on_adapter: "d_placeOrder (on_adapter A sent D) ord w = (Inr (placeOrder A (domain_input ord)), sent ord w)"
  by (simp add: on_adapter_def)

lemma place_refit: "place (refit f g (on_adapter A sent D)) ord permit = place (on_adapter A sent D) ord permit"
proof -
  let ?D = "on_adapter A sent D"
  have "bind_eff (d_placeOrder ?D ord) (\<lambda>res. case res of
      Sub_Fail code reason \<Rightarrow> after_failure ?D ord permit code reason | Sub_Ok result \<Rightarrow> after_ack (refit f g ?D) ord permit result)
    = bind_eff (d_placeOrder ?D ord) (\<lambda>res. case res of
      Sub_Fail code reason \<Rightarrow> after_failure ?D ord permit code reason | Sub_Ok result \<Rightarrow> after_ack ?D ord permit result)"
    using placed_silent [of A "domain_input ord"]
    by (auto simp: fun_eq_iff bind_eff_def placed_on_adapter silent_def after_ack_refit split: submit_outcome.split)
  then show ?thesis unfolding place_def by (simp cong: submit_outcome.case_cong)
qed

lemma submit_refit: "submit is_uuid (refit f g (on_adapter A sent D)) ord permit = submit is_uuid (on_adapter A sent D) ord permit"
  by (simp add: submit_def submitInner_def [abs_def] fresh_submit_def checked_submit_def claim_and_place_def place_refit
      cong: if_cong option.case_cong outcome.case_cong)

lemma reconcile_result_refit:
  "(\<And>res. answer = Some res \<Longrightarrow> res_submit_status res = None) \<Longrightarrow>
     reconcile_result (refit f g D) got current oid answer = reconcile_result D got current oid answer"
  by (cases answer) (simp_all add: reconcile_result_def)

lemma reconcile_refit: "reconcile (refit f g (on_adapter A sent D)) oid = reconcile (on_adapter A sent D) oid"
proof -
  let ?D = "on_adapter A sent D"
  have "bind_eff (d_getOrderStatus ?D oid) (reconcile_result (refit f g ?D) got current oid)
      = bind_eff (d_getOrderStatus ?D oid) (reconcile_result ?D got current oid)" for got current
    using status_silent [of A oid] reconcile_result_refit [of _ f g ?D got current oid]
    by (cases "getOrderStatus A oid") (auto simp: fun_eq_iff bind_eff_def on_adapter_def)
  then show ?thesis by (simp add: reconcile_def Let_def cong: if_cong)
qed

lemma matched_stays_unknown:
  assumes "getOrderStatus A oid = Inr (Some res)" and "res_order_status res \<notin> {Some Order_CANCELED, Some Order_REJECTED, Some Order_EXPIRED}"
  shows "reconcile_result D got current oid (Some res) = leave_if D got SUBMISSION_UNKNOWN"
  using assms(2) status_silent [OF assms(1)] by (simp add: reconcile_result_def)

section \<open>Properties\<close>

text \<open>C12. No blind resubmission through the adapter: whatever the SDK client resolves or throws, an order id is handed to the
  venue at most once over any sequence of submissions, and not at all if the seen log already holds it, unless the client
  threw an error that proves the connection never opened (a name that does not resolve or a refused connection, with no mention of a
  timeout or a reset). This holds on both wirings, for any clients.\<close>

theorem adapter_places_at_most_once:
  assumes "\<forall>(A, e, ord, permit) \<in> set calls. order_id ord = q \<longrightarrow> \<not> unsent A ord"
    and runs: "runs = map (\<lambda>(A, e, ord, permit). (over_adapter A e, ord, permit)) calls"
  shows "placed_count q (snd (placements is_uuid mem_deps wo_placed runs w))
      \<le> placed_count q w + (if log_held q w then 0 else 1) \<and>
    placed_count q (snd (placements is_uuid (pg_deps read_int8) wo_placed runs w))
      \<le> placed_count q w + (if log_held q w then 0 else 1)"
proof -
  have "\<forall>(e, ord, permit) \<in> set runs. order_id ord = q \<longrightarrow> \<not> clearly_rejected (en_place e ord)"
    using assms(1) by (auto simp: runs over_adapter_def placed_rejected)
  note mem = placements_count [where deps_of = mem_deps, OF mem_log.seen_log_axioms this, of is_uuid w]
    and pg = placements_count [where deps_of = "pg_deps read_int8", OF pg_log.seen_log_axioms this, of is_uuid w]
  obtain ps u where m: "placements is_uuid mem_deps wo_placed runs w = (ps, u)" by fastforce
  obtain qs v where p: "placements is_uuid (pg_deps read_int8) wo_placed runs w = (qs, v)" by fastforce
  show ?thesis using mem [OF m] pg [OF p] by (auto simp: m p split: if_splits)
qed

text \<open>A client that is cut off while it places an order.\<close>

definition cut_client :: venue_client where
  "cut_client = \<lparr>vc_limit = Some (\<lambda>_. Inl ''read ECONNRESET''), vc_post = None, vc_cancel = None, vc_order = None, vc_book = None\<rparr>"

definition cut_adapter :: venue_adapter where
  "cut_adapter = \<lparr>ad_mode = Venue_NORMAL, ad_client = cut_client, ad_chain = Fin 137, ad_collateral = ''pUSD''\<rparr>"

lemma cut_not_unsent: "\<not> unsent cut_adapter ord"
proof -
  have "\<not> provedNothingSent (Some ''read ECONNRESET'')"
    by (simp add: provedNothingSent_iff mentions_def lower_def char_of_def starts_with_def)
  then show ?thesis by (auto simp: unsent_def cut_adapter_def cut_client_def split: outcome.splits)
qed

theorem adapter_places_at_most_once_witness:
  "placed_count ''o1'' (snd (placements (\<lambda>_. True) mem_deps wo_placed
     (map (\<lambda>(A, e, ord, permit). (over_adapter A e, ord, permit)) (replicate 2 (cut_adapter, sample_env (Sub_Fail [] []), sample_order, sample_permit)))
     sample_world)) \<le> 1"
  using adapter_places_at_most_once [OF _ refl, of "replicate 2 (cut_adapter, sample_env (Sub_Fail [] []), sample_order, sample_permit)" "''o1''"
      "\<lambda>_. True" sample_world] cut_not_unsent
  by (simp add: sample_world_def log_held_def placed_count_def)

text \<open>Fills are never settled behind the adapter: what submitting and reconciling do over the adapter, for any client
  and any wiring, does not depend on the operations that consume a reservation or record a fill at all. The adapter reports
  neither a submit status nor a filled size where the executor looks for them, so an order that is matched at the venue
  stays an unknown submission and its cash stays reserved.\<close>

theorem fills_unsettled_over_adapter:
  "submit is_uuid (refit f g (on_adapter A sent D)) ord permit = submit is_uuid (on_adapter A sent D) ord permit \<and>
   reconcile (refit f g (on_adapter A sent D)) oid = reconcile (on_adapter A sent D) oid"
  by (simp add: submit_refit reconcile_refit)

text \<open>The snapshot quotes the best valid levels of the book the client returned, in whatever order it lists them: the
  best bid is the greatest, the best ask the least of the prices that are numbers from 0 to 1, and a side without such a price has none;
  a book without any valid price, or without metadata of its market, has status UNKNOWN.\<close>

theorem snapshot_quotes_best:
  assumes "vc_book (ad_client A) = Some f" and "f mid = Inr (Some b)"
  shows "\<exists>snap. getOrderBook A mid = Inr snap \<and>
    (case ms_best_bid snap of None \<Rightarrow> valid_levels (bo_bids b) = {}
     | Some p \<Rightarrow> p \<in> valid_levels (bo_bids b) \<and> (\<forall>x \<in> valid_levels (bo_bids b). num_le x p)) \<and>
    (case ms_best_ask snap of None \<Rightarrow> valid_levels (bo_asks b) = {}
     | Some p \<Rightarrow> p \<in> valid_levels (bo_asks b) \<and> (\<forall>x \<in> valid_levels (bo_asks b). num_le p x)) \<and>
    (valid_levels (bo_bids b) = {} \<and> valid_levels (bo_asks b) = {} \<or> bo_market b = None \<longrightarrow> ms_status snap = ''UNKNOWN'')"
  using bestLevel_best [of "bo_bids b" Bid_Side] bestLevel_best [of "bo_asks b" Ask_Side] assms
  by (auto simp: getOrderBook_def Let_def split: option.splits)

lemma js_number_samples: "js_number ''0.5'' = Fin (1 / 2)" "js_number '' 0.25 '' = Fin (1 / 4)" "js_number ''1e3'' = Fin 1000" "js_number ''0.5c'' = NaN"
    "js_number ''-Infinity'' = NegInf" "js_number '''' = Fin 0"
  by (simp_all add: js_number_def radix_literal_def unsigned_decimal_def cut_at_def signed_digits_def parse_nonempty_def trim_str_def is_space_def
      digit_val_def is_digit_def pow10_def num_eval)

text \<open>Sending an order has no trace of its id: the venue knows the order only by the id it answers with.\<close>

lemma request_without_id: "translateDomainOrderToLimit x (ord\<lparr>order_id := oid\<rparr>) = translateDomainOrderToLimit x ord"
  by (simp add: translateDomainOrderToLimit_def Let_def cong: if_cong)

text \<open>An answer that resolves to nothing is read as a rejection, and the executor gives the cash back.\<close>

lemma undefined_answer_rejects: "limit_outcome (Inr None) = Sub_Fail ''VENUE_REJECTED'' ''venue rejected order''"
  by (simp add: limit_outcome_def legacy_outcome_def legacy_ok_def legacy_id_def)

lemma cancelled_unknown: "order_status_of ''CANCELLED'' = Order_UNKNOWN"
  by (simp add: order_status_of_def)

definition book_adapter :: venue_adapter where
  "book_adapter = \<lparr>ad_mode = Venue_NORMAL, ad_client = cut_client\<lparr>vc_book := Some (\<lambda>_. Inr (Some
     \<lparr>bo_bids = [''0.25'', ''0.5'', ''2'', ''x''], bo_asks = [], bo_market = None\<rparr>))\<rparr>, ad_chain = Fin 137, ad_collateral = ''pUSD''\<rparr>"

theorem snapshot_quotes_best_witness:
  "\<exists>snap p. getOrderBook book_adapter ''t1'' = Inr snap \<and> ms_best_bid snap = Some p \<and> num_le (Fin (1 / 2)) p \<and>
     ms_best_ask snap = None \<and> ms_status snap = ''UNKNOWN''"
proof -
  have half: "Fin (1 / 2) \<in> valid_levels [''0.25'', ''0.5'', ''2'', ''x'']" by (simp add: valid_levels_def valid_price_def js_number_samples(1))
  obtain snap where snap: "getOrderBook book_adapter ''t1'' = Inr snap"
    and best: "case ms_best_bid snap of None \<Rightarrow> valid_levels [''0.25'', ''0.5'', ''2'', ''x''] = {}
       | Some p \<Rightarrow> p \<in> valid_levels [''0.25'', ''0.5'', ''2'', ''x''] \<and> (\<forall>x \<in> valid_levels [''0.25'', ''0.5'', ''2'', ''x'']. num_le x p)"
    and none: "case ms_best_ask snap of None \<Rightarrow> True | Some p \<Rightarrow> p \<in> valid_levels []" and st: "ms_status snap = ''UNKNOWN''"
    using snapshot_quotes_best [of book_adapter _ "''t1''" "\<lparr>bo_bids = [''0.25'', ''0.5'', ''2'', ''x''], bo_asks = [], bo_market = None\<rparr>"]
    by (auto simp: book_adapter_def split: option.splits)
  have "ms_best_ask snap = None" using none by (auto simp: valid_levels_def split: option.splits)
  with snap best half st show ?thesis by (cases "ms_best_bid snap") auto
qed

end
