(* ===== verification/MarketData.thy ===== *)
theory MarketData
  imports Portfolio JsString
begin

text \<open>
  The market data plane: book primitives (\<open>src/pm/data/src/book-primitives.ts\<close>), stream frames and their freshness
  (\<open>stream-frames.ts\<close>, \<open>frame-freshness.ts\<close>), asset and evidence checks (\<open>index.ts\<close>) and the market graph
  (\<open>graph.ts\<close>). Times are whole milliseconds, a JavaScript \<open>Map\<close> is an association list in insertion order.
\<close>

section \<open>Settlement rules and fees\<close>

record settlement_rule =
  sl_market :: string
  sl_version :: string
  sl_source :: string
  sl_resolves :: jsnum
  sl_text_hash :: string
  sl_text :: string
  sl_active_from :: ms

type_synonym rules_registry = "string \<Rightarrow> settlement_rule option"

definition rules_upsert :: "settlement_rule \<Rightarrow> rules_registry \<Rightarrow> rules_registry" where
  "rules_upsert rule reg = reg(sl_market rule \<mapsto> rule)"

text \<open>The rule, or the expected and the current version.\<close>

definition rules_check :: "rules_registry \<Rightarrow> string \<Rightarrow> string \<Rightarrow> (string \<times> string) + settlement_rule" where
  "rules_check reg market pinned =
     (case reg market of
        None \<Rightarrow> Inl (pinned, ''UNKNOWN'')
      | Some cur \<Rightarrow> if sl_version cur \<noteq> pinned then Inl (pinned, sl_version cur) else Inr cur)"

datatype trade_mode = TM_BINARY | TM_MULTI_OUTCOME | TM_NEG_RISK | TM_UNKNOWN

record fee_settings =
  fs_market :: string
  fs_maker_bps :: jsnum
  fs_taker_bps :: jsnum
  fs_currency :: string
  fs_tick :: jsnum
  fs_min_size :: jsnum
  fs_mode :: trade_mode
  fs_observed :: ms

type_synonym fee_gate = "string \<Rightarrow> fee_settings option"

definition fee_observe :: "fee_settings \<Rightarrow> fee_gate \<Rightarrow> fee_gate" where
  "fee_observe s g = g(fs_market s \<mapsto> s)"

definition requireCurrent :: "fee_gate \<Rightarrow> string \<Rightarrow> string option \<Rightarrow> fee_settings outcome" where
  "requireCurrent g market hint =
     (case g market of
        None \<Rightarrow> Refused ''FEE_UNKNOWN''
      | Some s \<Rightarrow>
          if hint \<noteq> None \<and> fs_mode s = TM_UNKNOWN then Refused ''FEE_UNKNOWN''
          else if num_lt (Fin 0) (fs_taker_bps s) \<and> fs_currency s = '''' then Refused ''FEE_UNKNOWN''
          else Ok s)"

section \<open>The order book\<close>

type_synonym levels = "(jsnum \<times> jsnum) list"

record level_book =
  lb_bids :: levels
  lb_asks :: levels
  lb_snapshot :: "ms option"
  lb_connected :: bool

definition new_book :: level_book where
  "new_book = \<lparr>lb_bids = [], lb_asks = [], lb_snapshot = None, lb_connected = False\<rparr>"

record book_frame =
  bf_bids :: "levels option"
  bf_asks :: "levels option"
  bf_received :: ms
  bf_delta :: bool
  bf_resync :: bool

definition levels_of :: "levels option \<Rightarrow> levels" where
  "levels_of ls = (case ls of None \<Rightarrow> [] | Some xs \<Rightarrow> xs)"

text \<open>\<open>new Map(pairs)\<close>, and the update of one level: a quantity of zero deletes it.\<close>

definition snapshot_levels :: "levels \<Rightarrow> levels" where
  "snapshot_levels xs = fold (\<lambda>(p, q) m. map_set p q m) xs []"

definition set_level :: "jsnum \<times> jsnum \<Rightarrow> levels \<Rightarrow> levels" where
  "set_level l m = (case l of (p, q) \<Rightarrow> if num_eq q (Fin 0) then filter (\<lambda>x. fst x \<noteq> p) m else map_set p q m)"

definition apply_frame :: "book_frame \<Rightarrow> level_book \<Rightarrow> string + level_book" where
  "apply_frame f b =
     (if bf_delta f \<and> \<not> lb_connected b then Inl ''DELTA_WITHOUT_SNAPSHOT''
      else if bf_resync f \<or> \<not> lb_connected b then
        Inr \<lparr>lb_bids = snapshot_levels (levels_of (bf_bids f)), lb_asks = snapshot_levels (levels_of (bf_asks f)),
             lb_snapshot = Some (bf_received f), lb_connected = True\<rparr>
      else if bf_delta f then
        (if lb_snapshot b = None then Inl ''DELTA_WITHOUT_SNAPSHOT''
         else Inr (b\<lparr>lb_bids := fold set_level (levels_of (bf_bids f)) (lb_bids b),
                      lb_asks := fold set_level (levels_of (bf_asks f)) (lb_asks b)\<rparr>))
      else Inr b)"

definition disconnect_book :: "level_book \<Rightarrow> level_book" where
  "disconnect_book b = b\<lparr>lb_connected := False, lb_snapshot := None\<rparr>"

definition first_of :: "'a list \<Rightarrow> 'a option" where
  "first_of xs = (case xs of [] \<Rightarrow> None | x # _ \<Rightarrow> Some x)"

definition bestBid :: "level_book \<Rightarrow> jsnum option" where
  "bestBid b = first_of (sort_desc id (map fst (lb_bids b)))"

definition bestAsk :: "level_book \<Rightarrow> jsnum option" where
  "bestAsk b = first_of (sort_desc num_neg (map fst (lb_asks b)))"

section \<open>Stream frames\<close>

record stream_frame =
  sf_last :: "jsnum option"
  sf_gap :: bool

text \<open>Refused as stale, or whether the delta was applied with the sequence the frame then has.\<close>

definition applyStreamDelta :: "stream_frame \<Rightarrow> jsnum \<Rightarrow> (bool \<times> jsnum) outcome" where
  "applyStreamDelta f n =
     (if \<not> is_integer_num n \<or> num_lt n (Fin 0) then Refused ''invalid delta sequence''
      else if sf_gap f then Refused ''gap open: deltas refused until snapshot recovery''
      else case sf_last f of
        None \<Rightarrow> Refused ''no baseline snapshot yet''
      | Some have \<Rightarrow>
          if num_le n have then Ok (False, have)
          else if num_lt (num_add have (Fin 1)) n then Refused ''missing sequence'' else Ok (True, n))"

definition reconnectFrame :: "jsnum option \<Rightarrow> (bool \<times> jsnum) outcome" where
  "reconnectFrame snapshot =
     (case snapshot of None \<Rightarrow> Refused ''reconnect without snapshot: frame stays stale'' | Some n \<Rightarrow> Ok (True, n))"

datatype freshness = FRESH | STALE_GAP | STALE_AGE

definition frameFreshness :: "jsnum \<Rightarrow> jsnum option \<Rightarrow> jsnum \<Rightarrow> jsnum \<Rightarrow> freshness" where
  "frameFreshness snapshotAt gapAt now maxAge =
     (if list_ex (\<lambda>v. \<not> is_finite_num v \<or> num_lt v (Fin 0)) [snapshotAt, now, maxAge] then STALE_AGE
      else if (case gapAt of None \<Rightarrow> False
               | Some g \<Rightarrow> \<not> is_finite_num g \<or> num_lt g (Fin 0) \<or> \<not> num_lt g snapshotAt) then STALE_GAP
      else if num_lt maxAge (num_sub now snapshotAt) then STALE_AGE else FRESH)"

section \<open>Assets, evidence and quality\<close>

datatype parsed_asset = Asset_CTF string jsnum | Asset_POLY_V2 string jsnum | Asset_UNKNOWN string

definition hex_char :: "char \<Rightarrow> bool" where
  "hex_char c = (digit_val 16 c \<noteq> None)"

definition parseAssetIdentity :: "string \<Rightarrow> jsnum \<Rightarrow> parsed_asset" where
  "parseAssetIdentity raw chain =
     (if raw \<noteq> [] \<and> list_all is_digit raw then Asset_CTF raw chain
      else if length raw = 64 \<and> list_all hex_char raw \<or>
              map lower (take 9 raw) = ''position:'' \<and> drop 9 raw \<noteq> [] \<and>
              list_all (\<lambda>c. hex_char c \<or> c \<in> {CHR ''x'', CHR ''X'', CHR '':''}) (drop 9 raw) then Asset_POLY_V2 raw chain
      else Asset_UNKNOWN raw)"

text \<open>The registry of protocol profiles: a profile by its id, or the error \<open>UNKNOWN_PROTOCOL_PROFILE\<close>.\<close>

definition requireKnown :: "(string \<Rightarrow> 'a option) \<Rightarrow> string \<Rightarrow> string + 'a" where
  "requireKnown known pid = (case known pid of Some p \<Rightarrow> Inr p | None \<Rightarrow> Inl (''UNKNOWN_PROTOCOL_PROFILE: '' @ pid))"

definition provenByCutoff :: "ms option \<Rightarrow> ms \<Rightarrow> ms \<Rightarrow> bool" where
  "provenByCutoff available fetched cutoff = ((case available of Some a \<Rightarrow> a | None \<Rightarrow> fetched) \<le> cutoff)"

definition STALE_AFTER_MS :: ms where
  "STALE_AFTER_MS = 15 * 60 * 1000"

definition strip :: "string \<Rightarrow> string \<Rightarrow> string" where
  "strip p s = (if take (length p) s = p then drop (length p) s else s)"

text \<open>The scheme, a leading \<open>www.\<close> and the query are taken off.\<close>

definition family_key :: "string \<Rightarrow> string" where
  "family_key url = takeWhile (\<lambda>c. c \<noteq> CHR ''?'')
     (strip ''www.'' (if take 7 url = ''http://'' then drop 7 url else strip ''https://'' url))"

record quality_input =
  qi_price :: "jsnum option"
  qi_observed :: ms
  qi_now :: ms
  qi_canonical :: "string option"
  qi_url :: "string option"
  qi_budget_ok :: bool
  qi_contradiction :: "bool option"

record quality_flags =
  qf_stale :: bool
  qf_contradiction :: bool
  qf_family :: "string option"
  qf_duplicate_of :: "string option"
  qf_budget_exhausted :: bool
  qf_missing :: bool
  qf_zero :: bool

definition assessQuality :: "quality_input \<Rightarrow> (string \<times> string) list \<Rightarrow> quality_flags \<times> (string \<times> string) list" where
  "assessQuality i seen =
     (let key = family_key (case qi_canonical i of Some u \<Rightarrow> u | None \<Rightarrow> (case qi_url i of Some u \<Rightarrow> u | None \<Rightarrow> ''''));
          hit = (if key = '''' then None else (case map_of seen key of Some f \<Rightarrow> if f = '''' then None else Some f | None \<Rightarrow> None));
          fresh = key \<noteq> '''' \<and> hit = None
      in (\<lparr>qf_stale = (STALE_AFTER_MS < qi_now i - qi_observed i \<and> qi_price i \<noteq> None),
           qf_contradiction = (qi_contradiction i = Some True),
           qf_family = (if fresh then Some key else hit), qf_duplicate_of = hit,
           qf_budget_exhausted = (\<not> qi_budget_ok i), qf_missing = (qi_price i = None),
           qf_zero = (case qi_price i of Some p \<Rightarrow> num_eq p (Fin 0) | None \<Rightarrow> False)\<rparr>,
          if fresh then map_set key key seen else seen))"

definition contradicts :: "jsnum list \<Rightarrow> bool" where
  "contradicts prices =
     (case prices of p # q # rest \<Rightarrow> list_ex (\<lambda>x. num_lt (fl (1 / 10 ^ 9)) (num_abs (num_sub x p))) prices | _ \<Rightarrow> False)"

section \<open>The universe\<close>

record market_decision =
  md_id :: string
  md_eligible :: bool
  md_reason :: "string option"
  md_at :: ms

definition decide :: "ms \<Rightarrow> string \<Rightarrow> bool \<Rightarrow> bool \<Rightarrow> bool option \<Rightarrow> market_decision" where
  "decide now mid metadataOk liquidityOk rulesOk =
     (let reject = (\<lambda>r. \<lparr>md_id = mid, md_eligible = False, md_reason = Some r, md_at = now\<rparr>) in
      if \<not> metadataOk then reject ''metadata_missing''
      else if rulesOk \<noteq> Some True then reject ''rules_unclear''
      else if \<not> liquidityOk then reject ''no_depth''
      else \<lparr>md_id = mid, md_eligible = True, md_reason = None, md_at = now\<rparr>)"

type_synonym universe_log = "market_decision list"

definition record_decision :: "market_decision \<Rightarrow> universe_log \<Rightarrow> universe_log" where
  "record_decision d us = us @ [d]"

definition universe_get :: "string \<Rightarrow> universe_log \<Rightarrow> market_decision option" where
  "universe_get mid us = List.find (\<lambda>d. md_id d = mid) us"

definition traded :: "universe_log \<Rightarrow> market_decision list" where
  "traded us = filter md_eligible us"

definition rejected :: "universe_log \<Rightarrow> market_decision list" where
  "rejected us = filter (\<lambda>d. \<not> md_eligible d) us"

definition utc_date :: "ms \<Rightarrow> int \<times> int \<times> int" where
  "utc_date t = civil_of_days (t div 86400000)"

definition replayDay :: "ms \<Rightarrow> universe_log \<Rightarrow> market_decision list" where
  "replayDay day us = filter (\<lambda>d. utc_date (md_at d) = utc_date day) us"

section \<open>The market graph\<close>

datatype relation_type = NATIVE_NEG_RISK | NATIVE_EVENT_MEMBER | COMPLEMENT | MUTUALLY_EXCLUSIVE | SUBSET | SUPERSET
  | CONDITIONAL | TEMPORAL_DEPENDENCY | SHARED_RESOLUTION_SOURCE | CORRELATED

datatype trust_level = VERIFIED_PLATFORM | VERIFIED_RULES | INFERRED

record graph_edge =
  ge_from :: string
  ge_to :: string
  ge_relation :: relation_type
  ge_trust :: trust_level
  ge_confidence :: "jsnum option"
  ge_provenance :: string

definition edge_key :: "graph_edge \<Rightarrow> string \<times> string \<times> relation_type" where
  "edge_key e = (ge_from e, ge_to e, ge_relation e)"

text \<open>The table \<open>graph_edges\<close>: one row per pair and relation, overwritten by a later one.\<close>

definition graph_upsert :: "graph_edge \<Rightarrow> graph_edge list \<Rightarrow> graph_edge list" where
  "graph_upsert e rows =
     (if edge_key e \<in> edge_key ` set rows then map (\<lambda>r. if edge_key r = edge_key e then e else r) rows else rows @ [e])"

definition getEdgesByMarket :: "string \<Rightarrow> graph_edge list \<Rightarrow> graph_edge list" where
  "getEdgesByMarket m rows = filter (\<lambda>r. ge_from r = m \<or> ge_to r = m) rows"

definition getEdgesByType :: "relation_type \<Rightarrow> graph_edge list \<Rightarrow> graph_edge list" where
  "getEdgesByType t rows = filter (\<lambda>r. ge_relation r = t) rows"

definition deleteMarketEdges :: "string \<Rightarrow> graph_edge list \<Rightarrow> graph_edge list" where
  "deleteMarketEdges m rows = filter (\<lambda>r. \<not> (ge_from r = m \<or> ge_to r = m)) rows"

record graph_market =
  gm_market :: string
  gm_event :: string
  gm_condition :: "string option"
  gm_neg_risk :: bool

definition add_to_group :: "string \<Rightarrow> 'a \<Rightarrow> (string \<times> 'a list) list \<Rightarrow> (string \<times> 'a list) list" where
  "add_to_group k x gs = map_set k ((case map_of gs k of Some g \<Rightarrow> g | None \<Rightarrow> []) @ [x]) gs"

definition condition_text :: "graph_market \<Rightarrow> string" where
  "condition_text m = (case gm_condition m of Some c \<Rightarrow> c | None \<Rightarrow> '''')"

definition neg_risk_key :: "graph_market \<Rightarrow> string" where
  "neg_risk_key m = gm_event m @ '':'' @ condition_text m"

definition negRiskGroups :: "graph_market list \<Rightarrow> (string \<times> graph_market list) list" where
  "negRiskGroups ms = fold (\<lambda>m gs. if gm_neg_risk m then add_to_group (neg_risk_key m) m gs else gs) ms []"

definition eventGroups :: "graph_market list \<Rightarrow> (string \<times> graph_market list) list" where
  "eventGroups ms = fold (\<lambda>m gs. add_to_group (gm_event m) m gs) ms []"

text \<open>The pairs of a group, earlier market first, and the two edges of a pair.\<close>

fun pairs_of :: "'a list \<Rightarrow> ('a \<times> 'a) list" where
  "pairs_of [] = []"
| "pairs_of (x # xs) = map (Pair x) xs @ pairs_of xs"

definition both_ways :: "relation_type \<Rightarrow> string \<Rightarrow> string \<times> string \<Rightarrow> graph_edge list" where
  "both_ways rel prov p =
     (case p of (a, b) \<Rightarrow>
        map (\<lambda>(x, y). \<lparr>ge_from = x, ge_to = y, ge_relation = rel, ge_trust = VERIFIED_PLATFORM, ge_confidence = None, ge_provenance = prov\<rparr>)
          [(a, b), (b, a)])"

definition neg_risk_edges :: "graph_market list \<Rightarrow> graph_edge list" where
  "neg_risk_edges g = concat (map (\<lambda>(m1, m2). both_ways NATIVE_NEG_RISK
     (''polymarket:event:'' @ gm_event m1 @ '':condition:'' @ condition_text m1) (gm_market m1, gm_market m2)) (pairs_of g))"

definition event_edges :: "string \<Rightarrow> graph_market list \<Rightarrow> graph_edge list" where
  "event_edges ev g = concat (map (\<lambda>(m1, m2). both_ways NATIVE_EVENT_MEMBER
     (''polymarket:event:'' @ ev) (gm_market m1, gm_market m2)) (pairs_of g))"

definition native_edges :: "graph_market list \<Rightarrow> graph_edge list" where
  "native_edges ms = concat (map (\<lambda>(_, g). neg_risk_edges g) (negRiskGroups ms)) @
     concat (map (\<lambda>(ev, g). event_edges ev g) (eventGroups ms))"

definition buildNativeEdges :: "graph_market list \<Rightarrow> graph_edge list \<Rightarrow> graph_edge list" where
  "buildNativeEdges ms rows = fold graph_upsert (native_edges ms) rows"

section \<open>What the book is\<close>

text \<open>The book as maps from price to quantity; \<open>None\<close> while no snapshot is current.\<close>

definition book_abs :: "level_book \<Rightarrow> ((jsnum \<rightharpoonup> jsnum) \<times> (jsnum \<rightharpoonup> jsnum)) option" where
  "book_abs b = (if lb_connected b then Some (map_of (lb_bids b), map_of (lb_asks b)) else None)"

definition level_update :: "jsnum \<times> jsnum \<Rightarrow> (jsnum \<rightharpoonup> jsnum) \<Rightarrow> jsnum \<rightharpoonup> jsnum" where
  "level_update l m = (case l of (p, q) \<Rightarrow> m(p := (if num_eq q (Fin 0) then None else Some q)))"

text \<open>What a frame means: a snapshot replaces the book, a delta changes its levels, anything else is skipped.\<close>

definition book_spec :: "book_frame \<Rightarrow> ((jsnum \<rightharpoonup> jsnum) \<times> (jsnum \<rightharpoonup> jsnum)) option \<Rightarrow>
    ((jsnum \<rightharpoonup> jsnum) \<times> (jsnum \<rightharpoonup> jsnum)) option option" where
  "book_spec f s =
     (if bf_delta f \<and> s = None then None
      else if bf_resync f \<or> s = None then Some (Some (map_of (rev (levels_of (bf_bids f))), map_of (rev (levels_of (bf_asks f)))))
      else if bf_delta f then Some (map_option (\<lambda>(b, a). (fold level_update (levels_of (bf_bids f)) b, fold level_update (levels_of (bf_asks f)) a)) s)
      else Some s)"

definition book_ok :: "level_book \<Rightarrow> bool" where
  "book_ok b \<longleftrightarrow> distinct (map fst (lb_bids b)) \<and> distinct (map fst (lb_asks b)) \<and> (lb_connected b \<longrightarrow> lb_snapshot b \<noteq> None)"

lemma map_of_filter_key: "map_of (filter (\<lambda>x. fst x \<noteq> p) m) = (map_of m)(p := None)"
  by (induction m) (auto simp: fun_eq_iff)

lemma map_of_set_level: "map_of (set_level l m) = level_update l (map_of m)"
  by (cases l) (auto simp: set_level_def level_update_def map_of_filter_key map_of_map_set fun_eq_iff)

lemma map_of_fold_level: "map_of (fold set_level ls m) = fold level_update ls (map_of m)"
  by (induction ls arbitrary: m) (simp_all add: map_of_set_level)

lemma map_of_snapshot: "map_of (snapshot_levels xs) = map_of (rev xs)"
proof -
  have "map_of (fold (\<lambda>(p, q) m. map_set p q m) xs m) = map_of (rev xs @ m)" for m
    by (induction xs arbitrary: m) (auto simp: map_of_map_set map_add_def fun_eq_iff split: option.split)
  from this [of "[]"] show ?thesis by (simp add: snapshot_levels_def)
qed

lemma distinct_set_level: "distinct (map fst m) \<Longrightarrow> distinct (map fst (set_level l m))"
  by (auto simp: set_level_def distinct_map_set distinct_map_filter split: prod.split)

lemma distinct_fold_level: "distinct (map fst m) \<Longrightarrow> distinct (map fst (fold set_level ls m))"
  by (induction ls arbitrary: m) (simp_all add: distinct_set_level)

lemma distinct_snapshot: "distinct (map fst (snapshot_levels xs))"
proof -
  have "distinct (map fst m) \<Longrightarrow> distinct (map fst (fold (\<lambda>(p, q) m. map_set p q m) xs m))" for m :: levels
    by (induction xs arbitrary: m) (auto simp: distinct_map_set)
  from this [of "[]"] show ?thesis by (simp add: snapshot_levels_def)
qed

text \<open>The code does exactly that, with \<open>DELTA_WITHOUT_SNAPSHOT\<close> where the specification has no answer.\<close>

lemma apply_frame_refines:
  assumes "book_ok b"
  shows "case apply_frame f b of
      Inl e \<Rightarrow> book_spec f (book_abs b) = None
    | Inr b' \<Rightarrow> book_ok b' \<and> book_spec f (book_abs b) = Some (book_abs b')"
  using assms
  by (auto simp: apply_frame_def book_spec_def book_abs_def book_ok_def map_of_fold_level map_of_snapshot distinct_fold_level distinct_snapshot)

lemma num_neg_NaN: "num_neg x = NaN \<longleftrightarrow> x = NaN"
  by (cases x) simp_all

lemma num_neg_le: "num_le (num_neg x) (num_neg y) \<longleftrightarrow> num_le y x"
  by (cases x; cases y) (auto simp: num_le_def)

section \<open>Properties\<close>

datatype book_event = Frame book_frame | Disconnected

text \<open>A frame that throws leaves the book as it was.\<close>

fun book_step :: "book_event \<Rightarrow> level_book \<Rightarrow> level_book" where
  "book_step (Frame f) b = (case apply_frame f b of Inl _ \<Rightarrow> b | Inr b' \<Rightarrow> b')"
| "book_step Disconnected b = disconnect_book b"

fun book_means :: "book_event \<Rightarrow> ((jsnum \<rightharpoonup> jsnum) \<times> (jsnum \<rightharpoonup> jsnum)) option \<Rightarrow> ((jsnum \<rightharpoonup> jsnum) \<times> (jsnum \<rightharpoonup> jsnum)) option" where
  "book_means (Frame f) s = (case book_spec f s of None \<Rightarrow> s | Some s' \<Rightarrow> s')"
| "book_means Disconnected s = None"

lemma book_step_refines: "book_ok b \<Longrightarrow> book_ok (book_step ev b) \<and> book_abs (book_step ev b) = book_means ev (book_abs b)"
proof (cases ev)
  case (Frame f)
  assume "book_ok b"
  from apply_frame_refines [OF this, of f] \<open>book_ok b\<close> Frame show ?thesis by (auto split: sum.splits)
qed (auto simp: book_ok_def book_abs_def disconnect_book_def)

lemma book_run_refines:
  "book_ok b \<Longrightarrow> book_ok (fold book_step evs b) \<and> book_abs (fold book_step evs b) = fold book_means evs (book_abs b)"
  by (induction evs arbitrary: b) (simp_all add: book_step_refines)

lemma first_sorted:
  assumes "\<forall>x \<in> set xs. f x \<noteq> NaN"
  shows "case first_of (sort_desc f xs) of None \<Rightarrow> xs = [] | Some y \<Rightarrow> y \<in> set xs \<and> (\<forall>x \<in> set xs. num_le (f x) (f y))"
proof (cases "sort_desc f xs")
  case Nil
  then show ?thesis using mset_sort_desc [of f xs] by (simp add: first_of_def)
next
  case (Cons y ys)
  have "set (sort_desc f xs) = set xs" using mset_sort_desc [of f xs] by (metis set_mset_mset)
  with Cons have xs: "set xs = insert y (set ys)" by simp
  have "\<forall>x \<in> set ys. num_le (f x) (f y)" using sort_desc_sorted [OF assms] Cons by (simp add: descending_def)
  with xs assms num_le_refl show ?thesis unfolding xs by (auto simp: first_of_def Cons)
qed

text \<open>C36. The book refines its specification. Along any run of frames and disconnects the level maps of the book are what
  the frames mean: nothing without a snapshot, the levels of the last snapshot with every later delta applied, a zero
  quantity deleting its level, and a delta without a snapshot changing nothing; and while a snapshot is current the best bid and ask are the
  greatest and the least price of those maps.\<close>

theorem book_refines_frames:
  assumes b: "b = fold book_step evs new_book" and nan: "\<forall>l \<in> set (lb_bids b) \<union> set (lb_asks b). fst l \<noteq> NaN"
  shows "book_abs b = fold book_means evs None \<and>
    (lb_connected b \<longrightarrow> (\<exists>bids asks. book_abs b = Some (bids, asks) \<and>
       (case bestBid b of None \<Rightarrow> dom bids = {} | Some p \<Rightarrow> p \<in> dom bids \<and> (\<forall>x \<in> dom bids. num_le x p)) \<and>
       (case bestAsk b of None \<Rightarrow> dom asks = {} | Some p \<Rightarrow> p \<in> dom asks \<and> (\<forall>x \<in> dom asks. num_le p x))))"
proof (intro conjI impI)
  have "book_ok new_book" "book_abs new_book = None" by (simp_all add: new_book_def book_ok_def book_abs_def)
  with book_run_refines [of new_book evs] b show "book_abs b = fold book_means evs None" by simp
  assume "lb_connected b"
  moreover have "case bestBid b of None \<Rightarrow> fst ` set (lb_bids b) = {}
      | Some p \<Rightarrow> p \<in> fst ` set (lb_bids b) \<and> (\<forall>x \<in> fst ` set (lb_bids b). num_le x p)"
    using first_sorted [of "map fst (lb_bids b)" id] nan by (auto simp: bestBid_def split: option.splits)
  moreover have "case bestAsk b of None \<Rightarrow> fst ` set (lb_asks b) = {}
      | Some p \<Rightarrow> p \<in> fst ` set (lb_asks b) \<and> (\<forall>x \<in> fst ` set (lb_asks b). num_le (num_neg x) (num_neg p))"
    using first_sorted [of "map fst (lb_asks b)" num_neg] nan num_neg_NaN by (auto simp: bestAsk_def split: option.splits)
  ultimately show "\<exists>bids asks. book_abs b = Some (bids, asks) \<and>
       (case bestBid b of None \<Rightarrow> dom bids = {} | Some p \<Rightarrow> p \<in> dom bids \<and> (\<forall>x \<in> dom bids. num_le x p)) \<and>
       (case bestAsk b of None \<Rightarrow> dom asks = {} | Some p \<Rightarrow> p \<in> dom asks \<and> (\<forall>x \<in> dom asks. num_le p x))"
    by (simp add: book_abs_def dom_map_of_conv_image_fst num_neg_le split: option.splits)
qed

definition sample_frames :: "book_event list" where
  "sample_frames =
     [Frame \<lparr>bf_bids = Some [(Fin (1 / 4), Fin 10), (Fin (1 / 2), Fin 5)], bf_asks = None, bf_received = 1, bf_delta = False, bf_resync = True\<rparr>,
      Frame \<lparr>bf_bids = Some [(Fin (1 / 2), Fin 0)], bf_asks = Some [(Fin (3 / 4), Fin 1)], bf_received = 2, bf_delta = True, bf_resync = False\<rparr>]"

lemma sample_book: "fold book_step sample_frames new_book =
    \<lparr>lb_bids = [(Fin (1 / 4), Fin 10)], lb_asks = [(Fin (3 / 4), Fin 1)], lb_snapshot = Some 1, lb_connected = True\<rparr>"
  by (simp add: sample_frames_def apply_frame_def new_book_def snapshot_levels_def levels_of_def set_level_def)

theorem book_refines_frames_witness:
  "\<exists>bids asks. fold book_means sample_frames None = Some (bids, asks) \<and> dom bids = {Fin (1 / 4)} \<and>
     (case bestBid (fold book_step sample_frames new_book) of None \<Rightarrow> False | Some p \<Rightarrow> p \<in> dom bids)"
proof -
  let ?b = "fold book_step sample_frames new_book"
  have nan: "\<forall>l \<in> set (lb_bids ?b) \<union> set (lb_asks ?b). fst l \<noteq> NaN" by (simp add: sample_book)
  from book_refines_frames [OF refl nan] have r: "fold book_means sample_frames None = book_abs ?b"
    "\<exists>bids asks. book_abs ?b = Some (bids, asks) \<and> (case bestBid ?b of None \<Rightarrow> dom bids = {} | Some p \<Rightarrow> p \<in> dom bids)"
    by (auto simp: sample_book split: option.splits)
  have "book_abs ?b = Some ([Fin (1 / 4) \<mapsto> Fin 10], [Fin (3 / 4) \<mapsto> Fin 1])" by (simp add: sample_book book_abs_def)
  with r show ?thesis by (auto split: option.splits)
qed

section \<open>Frames and the graph\<close>

text \<open>A level of quantity zero in a snapshot stays in the book and can be its best price.\<close>

lemma zero_level_kept:
  "apply_frame \<lparr>bf_bids = Some [(Fin (1 / 2), Fin 0)], bf_asks = None, bf_received = 1, bf_delta = False, bf_resync = True\<rparr> new_book = Inr b \<Longrightarrow>
     bestBid b = Some (Fin (1 / 2))"
  by (auto simp: apply_frame_def new_book_def snapshot_levels_def levels_of_def bestBid_def sort_desc_def first_of_def)

text \<open>A full frame without the resync flag is dropped once the book has a snapshot.\<close>

lemma unflagged_snapshot_dropped: "lb_connected b \<Longrightarrow> \<not> bf_delta f \<Longrightarrow> \<not> bf_resync f \<Longrightarrow> apply_frame f b = Inr b"
  by (simp add: apply_frame_def)

text \<open>The sequence of a frame never goes back, and moves only to the next number.\<close>

lemma stream_delta_in_order:
  assumes "applyStreamDelta f n = Ok (applied, m)" and "sf_last f = Some h" and "h \<noteq> NaN"
  shows "if applied then num_lt h n \<and> num_le n (num_add h (Fin 1)) \<and> m = n else m = h \<and> num_le n h"
  using assms num_le_linear [of n h] num_le_linear [of n "num_add h (Fin 1)"]
  by (cases h; cases n) (auto simp: applyStreamDelta_def Let_def num_le_def split: if_splits)

lemma fresh_frame:
  assumes "frameFreshness snapshotAt gapAt now maxAge = FRESH"
  shows "num_le (num_sub now snapshotAt) maxAge \<and> (\<forall>g. gapAt = Some g \<longrightarrow> num_lt g snapshotAt)"
proof -
  have fin: "is_finite_num snapshotAt" "is_finite_num now" "is_finite_num maxAge" and old: "\<not> num_lt maxAge (num_sub now snapshotAt)"
    and gap: "gapAt = Some g \<Longrightarrow> num_lt g snapshotAt" for g
    using assms by (auto simp: frameFreshness_def split: if_splits option.splits)
  have "num_sub now snapshotAt \<noteq> NaN" using fin fl_not_NaN by (cases now; cases snapshotAt) (simp_all add: num_sub_def)
  with fin(3) old num_le_linear [of "num_sub now snapshotAt" maxAge] gap show ?thesis by (cases maxAge) auto
qed

lemma upsert_keys: "edge_key ` set (graph_upsert e rows) = insert (edge_key e) (edge_key ` set rows)"
proof (cases "edge_key e \<in> edge_key ` set rows")
  case True
  have "edge_key ` (\<lambda>r. if edge_key r = edge_key e then e else r) ` set rows = edge_key ` set rows"
    unfolding image_image by (rule image_cong) auto
  with True show ?thesis by (simp only: graph_upsert_def if_True set_map insert_absorb)
qed (simp add: graph_upsert_def)

lemma upsert_all_keys: "edge_key ` set (fold graph_upsert es rows) = edge_key ` set es \<union> edge_key ` set rows"
  by (induction es arbitrary: rows) (auto simp: upsert_keys)

lemma both_ways_symmetric: "(a, b, rel) \<in> edge_key ` set (both_ways r prov p) \<Longrightarrow> (b, a, rel) \<in> edge_key ` set (both_ways r prov p)"
  by (cases p) (auto simp: both_ways_def edge_key_def)

lemma native_edges_symmetric: "(a, b, rel) \<in> edge_key ` set (native_edges ms) \<Longrightarrow> (b, a, rel) \<in> edge_key ` set (native_edges ms)"
  using both_ways_symmetric
  by (fastforce simp: native_edges_def neg_risk_edges_def event_edges_def image_Un image_UN)

text \<open>The native edges go both ways.\<close>

lemma native_rows_symmetric:
  "(a, b, rel) \<in> edge_key ` set (buildNativeEdges ms []) \<Longrightarrow> (b, a, rel) \<in> edge_key ` set (buildNativeEdges ms [])"
  using native_edges_symmetric by (simp add: buildNativeEdges_def upsert_all_keys)

end
