(* ===== verification/LiveFeed.thy ===== *)
theory LiveFeed
  imports MarketData
begin

text \<open>
  The live market feed (\<open>src/pm/data/src/live-feed.ts\<close>): what a message and a metadata poll do to the books and the gates, and the
  connection as a state machine over the events of sockets and timers. JSON parsing, the callbacks and \<open>fetch\<close> are
  left out; a value parsed from JSON is a record of the fields the code reads, absent ones \<open>None\<close>.
\<close>

section \<open>Books and metadata\<close>

record feed_data =
  fd_books :: "string \<Rightarrow> level_book option"
  fd_fees :: fee_gate
  fd_rules :: rules_registry
  fd_seen :: "string set"

definition empty_feed :: feed_data where
  "empty_feed = \<lparr>fd_books = Map.empty, fd_fees = Map.empty, fd_rules = Map.empty, fd_seen = {}\<rparr>"

record raw_book =
  rb_market :: "string option"
  rb_asset :: "string option"
  rb_delta :: "bool option"
  rb_bids :: "levels option"
  rb_asks :: "levels option"

definition first_truthy_id :: "string option list \<Rightarrow> string option" where
  "first_truthy_id ids = (case first_some ids of Some s \<Rightarrow> if s = '''' then None else Some s | None \<Rightarrow> None)"

text \<open>What an update reports: the frame was applied, whether a snapshot follows, or the error of \<open>apply\<close>.\<close>

definition raw_frame :: "ms \<Rightarrow> raw_book \<Rightarrow> book_frame" where
  "raw_frame now r =
     (let isDelta = (rb_delta r = Some True); given = (levels_of (rb_bids r) \<noteq> [] \<or> levels_of (rb_asks r) \<noteq> []) in
      \<lparr>bf_bids = Some (levels_of (rb_bids r)), bf_asks = Some (levels_of (rb_asks r)), bf_received = now,
       bf_delta = isDelta, bf_resync = (\<not> isDelta \<and> given)\<rparr>)"

definition handleBookUpdate :: "ms \<Rightarrow> raw_book \<Rightarrow> feed_data \<Rightarrow> (string + bool) option \<times> feed_data" where
  "handleBookUpdate now r s =
     (case first_truthy_id [rb_market r, rb_asset r] of
        None \<Rightarrow> (None, s)
      | Some mid \<Rightarrow>
          let book = (case fd_books s mid of Some b \<Rightarrow> b | None \<Rightarrow> new_book);
              frame = raw_frame now r
          in case apply_frame frame book of
               Inl e \<Rightarrow> (Some (Inl e), s\<lparr>fd_books := (fd_books s)(mid \<mapsto> book)\<rparr>)
             | Inr b \<Rightarrow> (Some (Inr (bf_resync frame \<or> bestBid b \<noteq> None \<and> bestAsk b \<noteq> None)),
                          s\<lparr>fd_books := (fd_books s)(mid \<mapsto> b)\<rparr>))"

text \<open>\<open>getSnapshot\<close>: the two quotes of a book that has a snapshot.\<close>

definition getSnapshot :: "feed_data \<Rightarrow> string \<Rightarrow> (jsnum option \<times> jsnum option) option" where
  "getSnapshot s mid =
     (case fd_books s mid of None \<Rightarrow> None | Some b \<Rightarrow> if lb_connected b then Some (bestBid b, bestAsk b) else None)"

record raw_market =
  rm_condition :: "string option"
  rm_market :: "string option"
  rm_id :: "string option"
  rm_question :: "string option"
  rm_rules :: "string option"
  rm_neg_risk :: "bool option"
  rm_fee_bps :: "jsnum option"
  rm_min_size :: "jsnum option"
  rm_tick :: "jsnum option"
  rm_end_date :: "string option"

definition mapMarketTypeToTradeMode :: "bool \<Rightarrow> trade_mode" where
  "mapMarketTypeToTradeMode negRisk = (if negRisk then TM_NEG_RISK else TM_BINARY)"

definition or_else :: "'a option \<Rightarrow> 'a \<Rightarrow> 'a" where
  "or_else x d = (case x of Some v \<Rightarrow> v | None \<Rightarrow> d)"

text \<open>\<open>date_of\<close> is \<open>new Date(text)\<close> as a time value.\<close>

definition processMarketMetadata :: "(string \<Rightarrow> jsnum) \<Rightarrow> ms \<Rightarrow> raw_market \<Rightarrow> feed_data \<Rightarrow> feed_data" where
  "processMarketMetadata date_of now r s =
     (case first_truthy_id [rm_condition r, rm_market r, rm_id r] of
        None \<Rightarrow> s
      | Some mid \<Rightarrow>
          s\<lparr>fd_seen := insert mid (fd_seen s),
            fd_fees := fee_observe \<lparr>fs_market = mid, fs_maker_bps = Fin 0, fs_taker_bps = or_else (rm_fee_bps r) (Fin 0), fs_currency = ''pUSD'',
               fs_tick = or_else (rm_tick r) (Fin 0), fs_min_size = or_else (rm_min_size r) (Fin 1),
               fs_mode = mapMarketTypeToTradeMode (or_else (rm_neg_risk r) False), fs_observed = now\<rparr> (fd_fees s),
            fd_rules := rules_upsert \<lparr>sl_market = mid, sl_version = or_else (rm_rules r) '''', sl_source = ''POLYMARKET'',
               sl_resolves = (if truthy (rm_end_date r) then date_of (the (rm_end_date r)) else Fin (of_int now)),
               sl_text_hash = or_else (rm_rules r) '''', sl_text = or_else (rm_question r) mid, sl_active_from = now\<rparr> (fd_rules s)\<rparr>)"

definition pollMetadata :: "(string \<Rightarrow> jsnum) \<Rightarrow> ms \<Rightarrow> (string + raw_market list) \<Rightarrow> feed_data \<Rightarrow> feed_data" where
  "pollMetadata date_of now answer s =
     (case answer of Inl e \<Rightarrow> s | Inr ms \<Rightarrow> fold (processMarketMetadata date_of now) ms s)"

definition message_kind :: "string option \<Rightarrow> string option \<Rightarrow> string" where
  "message_kind type channel = or_else (first_some [type, channel]) ''''"

definition handleMessage :: "(string \<Rightarrow> jsnum) \<Rightarrow> ms \<Rightarrow> string \<Rightarrow> raw_book \<Rightarrow> raw_market \<Rightarrow> feed_data \<Rightarrow> feed_data" where
  "handleMessage date_of now kind b m s =
     (if kind \<in> {''book'', ''orderbook'', ''book_update''} then snd (handleBookUpdate now b s)
      else if kind \<in> {''market'', ''market_update''} then processMarketMetadata date_of now m s
      else s)"

section \<open>The connection\<close>

definition MAX_RECONNECT_ATTEMPTS :: nat where
  "MAX_RECONNECT_ATTEMPTS = 5"

definition MAX_RECONNECT_DELAY_MS :: jsnum where
  "MAX_RECONNECT_DELAY_MS = Fin 60000"

definition reconnect_delay :: "jsnum \<Rightarrow> nat \<Rightarrow> jsnum" where
  "reconnect_delay interval attempts = num_min (num_mul interval (fl (2 ^ attempts))) MAX_RECONNECT_DELAY_MS"

text \<open>
  The sockets opened so far are counted; \<open>cn_waiting\<close> says that the ten second timeout of the connection that
  \<open>start\<close> awaits has not fired. The promise of \<open>connectWebSocket\<close> is never resolved: its \<open>resolvePromise\<close> is only
  reassigned. So no event continues \<open>start\<close> after its \<open>await\<close>, where metadata polling would start.
\<close>

record connection =
  cn_connecting :: bool
  cn_connected :: bool
  cn_sockets :: nat
  cn_waiting :: bool
  cn_timer :: bool
  cn_attempts :: nat
  cn_polling :: bool

definition idle_connection :: connection where
  "idle_connection = \<lparr>cn_connecting = False, cn_connected = False, cn_sockets = 0, cn_waiting = False, cn_timer = False,
     cn_attempts = 0, cn_polling = False\<rparr>"

datatype feed_event = Call_Start | Socket_Open | Socket_Closed | Start_Timeout | Reconnect_Due | Call_Stop

definition feed_start :: "connection \<Rightarrow> connection" where
  "feed_start c =
     (if cn_connecting c \<or> cn_connected c then c
      else c\<lparr>cn_connecting := True, cn_sockets := cn_sockets c + 1, cn_waiting := True\<rparr>)"

definition on_open :: "connection \<Rightarrow> connection" where
  "on_open c = c\<lparr>cn_connected := True, cn_attempts := 0\<rparr>"

definition scheduleReconnect :: "connection \<Rightarrow> connection" where
  "scheduleReconnect c =
     (if cn_timer c \<or> MAX_RECONNECT_ATTEMPTS \<le> cn_attempts c then c
      else c\<lparr>cn_timer := True, cn_attempts := cn_attempts c + 1\<rparr>)"

definition on_close :: "connection \<Rightarrow> connection" where
  "on_close c = scheduleReconnect (c\<lparr>cn_connected := False\<rparr>)"

text \<open>The timeout rejects only while there is no connection; the rejection ends \<open>start\<close> and clears its flag.\<close>

definition on_start_timeout :: "connection \<Rightarrow> connection" where
  "on_start_timeout c =
     (if \<not> cn_waiting c then c
      else if \<not> cn_connected c then c\<lparr>cn_waiting := False, cn_connecting := False\<rparr> else c\<lparr>cn_waiting := False\<rparr>)"

definition on_reconnect :: "connection \<Rightarrow> connection" where
  "on_reconnect c =
     (if \<not> cn_timer c then c
      else if \<not> cn_connected c \<and> \<not> cn_connecting c then c\<lparr>cn_timer := False, cn_sockets := cn_sockets c + 1\<rparr>
      else c\<lparr>cn_timer := False\<rparr>)"

definition feed_stop :: "connection \<Rightarrow> connection" where
  "feed_stop c = c\<lparr>cn_connected := False, cn_timer := False, cn_polling := False\<rparr>"

fun feed_step :: "feed_event \<Rightarrow> connection \<Rightarrow> connection" where
  "feed_step Call_Start c = feed_start c"
| "feed_step Socket_Open c = on_open c"
| "feed_step Socket_Closed c = on_close c"
| "feed_step Start_Timeout c = on_start_timeout c"
| "feed_step Reconnect_Due c = on_reconnect c"
| "feed_step Call_Stop c = feed_stop c"

section \<open>A feed that was up does not come back\<close>

text \<open>Once the timeout of \<open>start\<close> has passed on a connection, no later event opens a socket.\<close>

definition stuck :: "connection \<Rightarrow> bool" where
  "stuck c \<longleftrightarrow> cn_connecting c \<and> \<not> cn_waiting c"

lemma stuck_step: "stuck c \<Longrightarrow> stuck (feed_step ev c) \<and> cn_sockets (feed_step ev c) = cn_sockets c"
  by (cases ev) (auto simp: stuck_def feed_start_def on_open_def on_close_def scheduleReconnect_def on_start_timeout_def on_reconnect_def feed_stop_def)

lemma stuck_run: "stuck c \<Longrightarrow> stuck (fold feed_step evs c) \<and> cn_sockets (fold feed_step evs c) = cn_sockets c"
  by (induction evs arbitrary: c) (simp_all add: stuck_step)

lemma no_polling_step: "\<not> cn_polling c \<Longrightarrow> \<not> cn_polling (feed_step ev c)"
  by (cases ev) (auto simp: feed_start_def on_open_def on_close_def scheduleReconnect_def on_start_timeout_def on_reconnect_def feed_stop_def)

lemma no_polling_run: "\<not> cn_polling c \<Longrightarrow> \<not> cn_polling (fold feed_step evs c)"
  by (induction evs arbitrary: c) (simp_all add: no_polling_step)

text \<open>Whatever happens after a connection that survived the timeout of \<open>start\<close>, closing, reconnect timers, stopping and starting again, no
  second socket is opened, and metadata is never polled.\<close>

lemma feed_never_reconnects:
  assumes "c = fold feed_step (Call_Start # Socket_Open # Start_Timeout # evs) idle_connection"
  shows "cn_sockets c = 1 \<and> \<not> cn_polling c"
proof -
  let ?c = "on_start_timeout (on_open (feed_start idle_connection))"
  have "stuck ?c" "cn_sockets ?c = 1" "\<not> cn_polling ?c"
    by (simp_all add: stuck_def idle_connection_def feed_start_def on_open_def on_start_timeout_def)
  with stuck_run [of ?c evs] no_polling_run [of ?c evs] assms show ?thesis by simp
qed

text \<open>The books keep their quotes through a disconnect: nothing in the feed disconnects them.\<close>

lemma snapshot_survives: "getSnapshot s mid = Some q \<Longrightarrow> rb_market r = Some other \<Longrightarrow> other \<noteq> mid \<Longrightarrow>
    getSnapshot (snd (handleBookUpdate now r s)) mid = Some q"
  by (auto simp: getSnapshot_def handleBookUpdate_def first_truthy_id_def Let_def split: option.splits sum.splits if_splits)

text \<open>A market without a rules hash has the empty version, not \<open>1.0.0\<close>.\<close>

lemma empty_rule_version:
  "rm_condition r = Some mid \<Longrightarrow> mid \<noteq> '''' \<Longrightarrow> rm_rules r = None \<Longrightarrow>
     rules_check (fd_rules (processMarketMetadata date_of now r s)) mid ''1.0.0'' = Inl (''1.0.0'', '''')"
  by (simp add: processMarketMetadata_def first_truthy_id_def rules_check_def rules_upsert_def or_else_def)

end
