(* ===== verification/Quoting.thy ===== *)
theory Quoting
  imports Portfolio
begin

text \<open>
  The pricing primitives of the strategy package: the exit engine (\<open>src/pm/strategy/src/exit-engine.ts\<close>), the quote engine
  (\<open>quote-engine.ts\<close>), the intent primitives of \<open>index.ts\<close>, the multi-outcome basket (\<open>multi-outcome-arb.ts\<close>) and the
  structural safety contracts (\<open>structural-safety.ts\<close>). Identifiers drawn from the clock and from random numbers are
  arguments; the human-readable reasons are left out where no caller branches on them.
\<close>

section \<open>Intents of strategies\<close>

text \<open>The fields of a trade intent that only strategies fill in.\<close>

record strategy_intent = trade_intent +
  sx_token :: "string option"
  sx_size :: "jsnum option"
  sx_strategy :: "string option"
  sx_forecast_refs :: "string list"
  sx_evidence_ids :: "string list"

record full_forecast = forecast +
  ff_conservative :: "jsnum option"
  ff_id :: string
  ff_market :: string
  ff_evidence_ids :: "string list"

definition or_num :: "jsnum option \<Rightarrow> jsnum \<Rightarrow> jsnum" where
  "or_num x d = (case x of Some v \<Rightarrow> v | None \<Rightarrow> d)"

definition generateIntent :: "full_forecast \<Rightarrow> string \<Rightarrow> jsnum \<Rightarrow> strategy_intent" where
  "generateIntent f asset sizingFactor =
     (let p = or_num (first_some [ff_conservative f, f_calibrated f, f_raw f]) (Fin (1 / 2));
          rawSize = num_mul (num_mul (num_abs (num_sub p (Fin (1 / 2)))) (Fin 2)) sizingFactor
      in \<lparr>ti_intent_id = ''int_'' @ ff_id f, ti_dedupe_key = ''int_'' @ ff_id f, ti_purpose = Purpose_ENTRY, ti_market_id = ff_market f,
          ti_side = Direction (if num_lt (Fin (1 / 2)) p then BUY else SELL), ti_desired_qty = Some rawSize, ti_desired_notional = None,
          ti_limit_price = Some p, ti_price = Some p, ti_expiration_sec = None, ti_order_type = None, ti_status = Intent_CREATED,
          sx_token = Some asset, sx_size = Some rawSize, sx_strategy = None, sx_forecast_refs = [ff_id f], sx_evidence_ids = ff_evidence_ids f\<rparr>)"

type_synonym levels = "(jsnum \<times> jsnum) list option"

definition touch :: "levels \<Rightarrow> jsnum option" where
  "touch ls = (case ls of Some ((p, _) # _) \<Rightarrow> Some p | _ \<Rightarrow> None)"

definition adjust_intent_quote :: "strategy_intent \<Rightarrow> levels \<Rightarrow> levels \<Rightarrow> jsnum \<Rightarrow> strategy_intent" where
  "adjust_intent_quote i bids asks minEdge =
     (let bestBid = or_num (touch bids) (Fin 0); bestAsk = or_num (touch asks) (Fin 1); own = or_num (ti_price i) (Fin 0)
      in if ti_side i = Direction BUY
         then (if num_lt (num_sub own bestAsk) minEdge then i\<lparr>ti_price := Some bestAsk\<rparr> else i)
         else (if num_lt (num_sub bestBid own) minEdge then i\<lparr>ti_price := Some bestBid\<rparr> else i))"

definition scaleIntent :: "strategy_intent \<Rightarrow> jsnum \<Rightarrow> strategy_intent" where
  "scaleIntent i scale = i\<lparr>sx_size := Some (num_mul (or_num (sx_size i) (Fin 0)) (num_max (Fin 0) (num_min (Fin 1) scale)))\<rparr>"

section \<open>Holding or leaving a position\<close>

record exit_config =
  xc_min_hold :: jsnum
  xc_buffer :: "jsnum option"
  xc_min_size :: "jsnum option"

record held_position =
  hp_market :: string
  hp_side :: outcome_side
  hp_size :: jsnum

datatype exit_decision = Exit_HOLD | Exit_EXIT | Exit_REDUCE

record exit_output =
  xo_intent :: "strategy_intent option"
  xo_hold :: jsnum
  xo_decision :: exit_decision

definition getConservativeProbability :: "full_forecast \<Rightarrow> outcome_side \<Rightarrow> jsnum" where
  "getConservativeProbability f side =
     (let p = or_num (first_some [ff_conservative f, f_calibrated f, f_raw f, f_yes f]) (Fin (1 / 2))
      in if side = YES then p else num_sub (Fin 1) p)"

definition getCurrentPrice :: "levels \<Rightarrow> levels \<Rightarrow> outcome_side \<Rightarrow> jsnum" where
  "getCurrentPrice bids asks side =
     (if side = YES then or_num (first_some [touch bids, touch asks]) (Fin (1 / 2))
      else num_sub (Fin 1) (or_num (touch asks) (Fin 1)))"

definition hold_value :: "exit_config \<Rightarrow> held_position \<Rightarrow> levels \<Rightarrow> levels \<Rightarrow> full_forecast \<Rightarrow> jsnum \<Rightarrow> jsnum option \<Rightarrow> jsnum" where
  "hold_value c p bids asks f seconds takerBps =
     (let payoff = num_sub (getConservativeProbability f (hp_side p)) (getCurrentPrice bids asks (hp_side p));
          fee = num_div (or_num takerBps (Fin 0)) (Fin 10000);
          spread = num_sub (or_num (touch asks) (Fin 1)) (or_num (touch bids) (Fin 0));
          adverse = num_mul (or_num (xc_buffer c) (Fin (1 / 2))) spread;
          decay = num_max (fl (1 / 10)) (num_sub (Fin 1) (num_div seconds (Fin 2592000)))
      in num_mul (num_mul (num_sub (num_sub payoff fee) adverse) (num_abs (hp_size p))) decay)"

definition exit_evaluate ::
  "exit_config \<Rightarrow> held_position \<Rightarrow> levels \<Rightarrow> levels \<Rightarrow> full_forecast \<Rightarrow> jsnum \<Rightarrow> jsnum option \<Rightarrow> string \<Rightarrow> string \<Rightarrow> exit_output" where
  "exit_evaluate c p bids asks f seconds takerBps intentId dedupe =
     (let hold = hold_value c p bids asks f seconds takerBps; size = num_abs (hp_size p);
          price = getCurrentPrice bids asks (hp_side p)
      in if num_lt hold (xc_min_hold c)
         then let exitSize = num_max (or_num (xc_min_size c) (Fin 1)) size;
                  deep = num_lt hold (num_mul (num_neg size) (fl (1 / 100)))
           in \<lparr>xo_intent = Some \<lparr>ti_intent_id = intentId, ti_dedupe_key = dedupe, ti_purpose = (if deep then Purpose_EXIT else Purpose_REDUCE),
                  ti_market_id = hp_market p, ti_side = Direction SELL, ti_desired_qty = Some exitSize, ti_desired_notional = None,
                  ti_limit_price = Some price, ti_price = Some price, ti_expiration_sec = None, ti_order_type = None,
                  ti_status = Intent_CREATED, sx_token = None, sx_size = Some exitSize, sx_strategy = None,
                  sx_forecast_refs = [ff_id f], sx_evidence_ids = ff_evidence_ids f\<rparr>,
               xo_hold = hold, xo_decision = (if deep then Exit_EXIT else Exit_REDUCE)\<rparr>
         else \<lparr>xo_intent = None, xo_hold = hold, xo_decision = Exit_HOLD\<rparr>)"

section \<open>The quote engine\<close>

record quote_config =
  qc_min_edge :: jsnum
  qc_max_slippage :: jsnum
  qc_maker_bps :: jsnum
  qc_taker_bps :: jsnum

datatype quote_reason = SIDE_AMBIGUOUS | NO_BOOK_PRICE | MIN_EDGE_UNMET | MIN_EDGE_AFTER_CLAMP | DEPTH_SCALED | SLIPPAGE_CLAMPED

record adjusted_quote =
  aq_price :: jsnum
  aq_size :: jsnum
  aq_edge :: jsnum
  aq_valid :: bool
  aq_reason :: "quote_reason option"

datatype maker_reason = IMPROVE_BID | JOIN_BID | IMPROVE_ASK | JOIN_ASK | CROSSED_BOOK | BAD_INPUT

record maker_quote =
  mq_price :: jsnum
  mq_valid :: bool
  mq_reason :: maker_reason

definition bad_quote :: "maker_reason \<Rightarrow> maker_quote" where
  "bad_quote r = \<lparr>mq_price = NaN, mq_valid = False, mq_reason = r\<rparr>"

text \<open>The side is a word of the caller's: \<open>None\<close> is any other value.\<close>

definition makerQuote :: "order_side option \<Rightarrow> jsnum option \<Rightarrow> jsnum option \<Rightarrow> jsnum \<Rightarrow> maker_quote" where
  "makerQuote side bid ask tick =
     (case (side, bid, ask) of
        (Some s, Some b, Some a) \<Rightarrow>
          if \<not> is_finite_num b \<or> \<not> is_finite_num a \<or> num_le b (Fin 0) \<or> num_le (Fin 1) a \<or> \<not> is_finite_num tick \<or> num_le tick (Fin 0)
          then bad_quote BAD_INPUT
          else if num_le a b then bad_quote CROSSED_BOOK
          else (case s of
              BUY \<Rightarrow> let improved = num_add b tick in
                if num_lt improved a then \<lparr>mq_price = improved, mq_valid = True, mq_reason = IMPROVE_BID\<rparr>
                else \<lparr>mq_price = b, mq_valid = True, mq_reason = JOIN_BID\<rparr>
            | SELL \<Rightarrow> let improved = num_sub a tick in
                if num_lt b improved then \<lparr>mq_price = improved, mq_valid = True, mq_reason = IMPROVE_ASK\<rparr>
                else \<lparr>mq_price = a, mq_valid = True, mq_reason = JOIN_ASK\<rparr>)
      | _ \<Rightarrow> bad_quote BAD_INPUT)"

definition adjustQuote ::
  "quote_config \<Rightarrow> strategy_intent \<Rightarrow> jsnum option \<Rightarrow> jsnum option \<Rightarrow> jsnum option \<Rightarrow> adjusted_quote" where
  "adjustQuote c i yes no depth_opt =
     (let price = or_num (ti_price i) (Fin 0); size = or_num (sx_size i) (Fin 0);
          refuse = (\<lambda>edge r. \<lparr>aq_price = price, aq_size = size, aq_edge = edge, aq_valid = False, aq_reason = Some r\<rparr>)
      in case ti_side i of
           Direction _ \<Rightarrow> refuse (Fin (-1)) SIDE_AMBIGUOUS
         | Outcome s \<Rightarrow>
             let bookPrice = or_num (if s = YES then yes else no) (Fin 0) in
             if bookPrice = NaN \<or> num_le bookPrice (Fin 0) then refuse (Fin (-1)) NO_BOOK_PRICE
             else let taker = num_div (qc_taker_bps c) (Fin 10000);
                      edge = num_sub (num_sub price bookPrice) taker
               in if num_lt edge (qc_min_edge c) then refuse edge MIN_EDGE_UNMET
                  else let depth = or_num depth_opt (Fin 0);
                           scaled = (num_lt (Fin 0) depth \<and> num_lt depth size);
                           finalSize = (if scaled then depth else size)
                    in if num_lt (qc_max_slippage c) (num_abs (num_sub price bookPrice))
                       then let clamped = num_min price (num_add bookPrice (qc_max_slippage c));
                                clampedEdge = num_sub (num_sub clamped bookPrice) taker;
                                enough = num_le (qc_min_edge c) clampedEdge
                         in \<lparr>aq_price = clamped, aq_size = finalSize, aq_edge = clampedEdge, aq_valid = enough,
                             aq_reason = Some (if enough then if scaled then DEPTH_SCALED else SLIPPAGE_CLAMPED else MIN_EDGE_AFTER_CLAMP)\<rparr>
                       else \<lparr>aq_price = price, aq_size = finalSize, aq_edge = edge, aq_valid = True,
                             aq_reason = (if scaled then Some DEPTH_SCALED else None)\<rparr>)"

section \<open>Baskets over all outcomes\<close>

record arb_leg =
  al_token :: string
  al_yes :: jsnum

datatype arb_direction = BUY_ALL_YES | BUY_ALL_NO

datatype arb_reason = OK_YES_SUM_UNDER_ONE | OK_NO_SUM_OVER_ONE | NO_EDGE | ARB_BAD_INPUT

record arb_verdict =
  av_direction :: "arb_direction option"
  av_cost :: jsnum
  av_payout :: jsnum
  av_edge :: jsnum
  av_valid :: bool
  av_reason :: arb_reason

definition thetaFeePerShare :: "jsnum \<Rightarrow> jsnum \<Rightarrow> jsnum" where
  "thetaFeePerShare price theta =
     (if \<not> is_finite_num price \<or> num_le price (Fin 0) \<or> num_le (Fin 1) price then Fin 0
      else if \<not> is_finite_num theta \<or> num_lt theta (Fin 0) then Fin 0
      else num_mul (num_mul theta price) (num_sub (Fin 1) price))"

definition leg_bad :: "arb_leg \<Rightarrow> bool" where
  "leg_bad l \<longleftrightarrow> al_token l = [] \<or> \<not> is_finite_num (al_yes l) \<or> num_le (al_yes l) (Fin 0) \<or> num_le (Fin 1) (al_yes l)"

text \<open>The reduction over the legs, left to right: \<open>s + price + fee\<close>.\<close>

definition basket_cost :: "jsnum \<Rightarrow> jsnum list \<Rightarrow> jsnum" where
  "basket_cost theta prices = fold (\<lambda>p s. num_add (num_add s p) (thetaFeePerShare p theta)) prices (Fin 0)"

definition evaluateMultiOutcomeArb :: "arb_leg list \<Rightarrow> jsnum option \<Rightarrow> jsnum option \<Rightarrow> arb_verdict" where
  "evaluateMultiOutcomeArb legs minEdge_opt theta_opt =
     (let minEdge = or_num minEdge_opt (fl (3 / 100)); theta = or_num theta_opt (fl (5 / 100));
          bad = \<lparr>av_direction = None, av_cost = NaN, av_payout = NaN, av_edge = NegInf, av_valid = False, av_reason = ARB_BAD_INPUT\<rparr>
      in if length legs < 2 \<or> list_ex leg_bad legs \<or> \<not> num_lt (Fin 0) minEdge then bad
         else let yesCost = basket_cost theta (map al_yes legs); yesEdge = num_sub (Fin 1) yesCost in
           if num_le minEdge yesEdge
           then \<lparr>av_direction = Some BUY_ALL_YES, av_cost = yesCost, av_payout = Fin 1, av_edge = yesEdge, av_valid = True,
                 av_reason = OK_YES_SUM_UNDER_ONE\<rparr>
           else let noCost = basket_cost theta (map (\<lambda>l. num_sub (Fin 1) (al_yes l)) legs);
                    payout = num_of_bigint (int (length legs) - 1); noEdge = num_sub payout noCost in
             if num_le minEdge noEdge
             then \<lparr>av_direction = Some BUY_ALL_NO, av_cost = noCost, av_payout = payout, av_edge = noEdge, av_valid = True,
                   av_reason = OK_NO_SUM_OVER_ONE\<rparr>
             else \<lparr>av_direction = None, av_cost = num_min yesCost noCost, av_payout = NaN, av_edge = num_max yesEdge noEdge,
                   av_valid = False, av_reason = NO_EDGE\<rparr>)"

section \<open>Structural safety\<close>

record exclusivity_claim =
  ec_outcomes :: "string list"
  ec_covered :: "string list"
  ec_all :: "string list"
  ec_payout :: jsnum

definition proveGuaranteedPayout :: "exclusivity_claim \<Rightarrow> unit outcome" where
  "proveGuaranteedPayout c =
     (if ec_all c = [] \<or> list_ex (\<lambda>s. s \<notin> set (ec_covered c)) (ec_all c) \<or> \<not> distinct (ec_covered c)
        \<or> \<not> num_lt (Fin 0) (ec_payout c) then Refused ''INCOMPLETE_EXCLUSIVITY'' else Ok ())"

datatype residual_action = Residual_HOLD | HEDGE_UNWIND_ONLY

definition measurement_bad :: "jsnum \<Rightarrow> bool" where
  "measurement_bad v \<longleftrightarrow> \<not> is_finite_num v \<or> num_lt v (Fin 0)"

definition boundResidualExposure :: "jsnum \<Rightarrow> jsnum \<Rightarrow> jsnum \<Rightarrow> (jsnum \<times> residual_action) outcome" where
  "boundResidualExposure filled intended maxUnhedged =
     (if measurement_bad filled \<or> measurement_bad intended \<or> measurement_bad maxUnhedged then Refused ''RESIDUAL_OVER_CAP''
      else if num_lt intended filled then Refused ''RESIDUAL_OVER_CAP''
      else let residual = num_sub intended filled in
        if num_lt maxUnhedged residual then Refused ''RESIDUAL_OVER_CAP''
        else Ok (residual, if residual = Fin 0 then Residual_HOLD else HEDGE_UNWIND_ONLY))"

text \<open>The verdict and the cap to apply, which a refusal carries too.\<close>

definition cap_bad :: "jsnum \<Rightarrow> bool" where
  "cap_bad cap \<longleftrightarrow> \<not> num_lt (Fin 0) cap \<or> \<not> is_finite_num cap"

definition groupCapWithFallback :: "jsnum list \<Rightarrow> bool \<Rightarrow> jsnum \<Rightarrow> bool \<times> jsnum" where
  "groupCapWithFallback caps unknown conservative =
     (if cap_bad conservative then (False, Fin 0)
      else if list_ex cap_bad caps then (False, conservative)
      else if unknown then (True, conservative)
      else (True, fold num_min caps conservative))"

section \<open>What the primitives guarantee\<close>

text \<open>A maker quote stays strictly on its own side of the book and is never worse than the touch it joins.\<close>

lemma makerQuote_valid:
  assumes "mq_valid (makerQuote side bid ask tick)"
  obtains s b a where "side = Some s" and "bid = Some (Fin b)" and "ask = Some (Fin a)" and "0 < b" and "b < a" and "a < 1"
    and "\<exists>t. tick = Fin t \<and> 0 < t"
  using assms unfolding makerQuote_def bad_quote_def
  by (auto split: option.splits if_splits order_side.splits elim!: is_finite_num.elims simp: Let_def not_le)

text \<open>The quote of the market graph's basket pays only with a positive computed edge.\<close>

lemma arb_edge_positive:
  assumes "av_valid (evaluateMultiOutcomeArb legs minEdge theta)"
  shows "num_lt (Fin 0) (av_edge (evaluateMultiOutcomeArb legs minEdge theta)) \<and> 2 \<le> length legs"
  using assms unfolding evaluateMultiOutcomeArb_def Let_def
  by (auto split: if_splits intro: num_lt_le_trans)

text \<open>An exit sells at least the configured minimum, one share by default: more than a smaller position holds.\<close>

lemma small_position_oversold:
  assumes "xo_intent (exit_evaluate c p bids asks f seconds takerBps iid dk) = Some i" and "xc_min_size c = None"
    and "num_lt (num_abs (hp_size p)) (Fin 1)"
  shows "ti_side i = Direction SELL \<and> sx_size i = Some (Fin 1)"
proof -
  have "num_max (Fin 1) v = Fin 1" if "num_lt v (Fin 1)" for v using that by (cases v) (auto simp: num_max_def)
  with assms show ?thesis by (auto simp: exit_evaluate_def Let_def or_num_def split: if_splits)
qed

text \<open>Time to resolution weighs the other way round than the comment says: the nearer the resolution, the more a loss counts.\<close>

lemma decay_grows_near_resolution:
  "let v = (\<lambda>seconds. hold_value \<lparr>xc_min_hold = Fin 0, xc_buffer = Some (Fin 0), xc_min_size = None\<rparr>
       \<lparr>hp_market = m, hp_side = YES, hp_size = Fin 8\<rparr> (Some [(Fin (1 / 4), Fin 10)]) None
       \<lparr>f_calibrated = None, f_raw = None, f_yes = Some (Fin (1 / 2)), ff_conservative = None, ff_id = fid, ff_market = m,
        ff_evidence_ids = []\<rparr> seconds None)
   in v (Fin 0) = Fin 2 \<and> v (Fin 1296000) = Fin 1"
  by (simp add: hold_value_def getConservativeProbability_def getCurrentPrice_def or_num_def touch_def num_max_def num_abs_def num_eval)

text \<open>The free function raises a buy that is below the ask up to the ask, whatever the edge asked for.\<close>

lemma adjust_crosses_the_spread:
  "ti_side i = Direction BUY \<Longrightarrow> num_lt (num_sub (or_num (ti_price i) (Fin 0)) p) minEdge \<Longrightarrow>
     ti_price (adjust_intent_quote i bids (Some ((p, q) # rest)) minEdge) = Some p"
  by (simp add: adjust_intent_quote_def touch_def or_num_def)

text \<open>The proof of a guaranteed payout never looks at the outcomes it is about.\<close>

lemma exclusivity_ignores_outcomes: "proveGuaranteedPayout (c\<lparr>ec_outcomes := os\<rparr>) = proveGuaranteedPayout c"
  by (simp add: proveGuaranteedPayout_def)

text \<open>With every relation known the cap is below each group's; an unknown relation drops the groups' caps altogether.\<close>

lemma fold_num_min_le:
  "start \<noteq> NaN \<Longrightarrow> NaN \<notin> set caps \<Longrightarrow> num_le (fold num_min caps start) start \<and> (\<forall>cap \<in> set caps. num_le (fold num_min caps start) cap)"
proof (induction caps arbitrary: start)
  case (Cons c caps)
  from Cons.prems have nn: "c \<noteq> NaN" "start \<noteq> NaN" "NaN \<notin> set caps" by auto
  then have rest: "num_le (fold num_min caps (num_min c start)) (num_min c start)"
      "\<forall>cap \<in> set caps. num_le (fold num_min caps (num_min c start)) cap"
    using Cons.IH [of "num_min c start"] by auto
  with num_min_le [OF nn(1,2)] show ?case by (auto intro: num_le_trans [OF rest(1)])
qed (simp add: num_le_refl)

lemma known_relations_consume_all_caps:
  assumes "fst (groupCapWithFallback caps False conservative)" and "cap \<in> set caps"
  shows "num_le (snd (groupCapWithFallback caps False conservative)) cap"
proof -
  have "conservative \<noteq> NaN" "NaN \<notin> set caps"
    using assms(1) by (auto simp: groupCapWithFallback_def cap_bad_def list_ex_iff split: if_splits)
  with assms fold_num_min_le [of conservative caps] show ?thesis by (auto simp: groupCapWithFallback_def split: if_splits)
qed

lemma unknown_relation_raises_cap:
  "groupCapWithFallback [Fin 1] False (Fin 10) = (True, Fin 1)" "groupCapWithFallback [Fin 1] True (Fin 10) = (True, Fin 10)"
  by (simp_all add: groupCapWithFallback_def cap_bad_def num_min_def)

section \<open>Properties\<close>

text \<open>A maker quote never crosses. Whenever the quote engine returns a valid maker quote on a book of doubles, the quote's
  price lies between the touch prices: a buy is at least the best bid and strictly below the best ask, a sale at most the
  best ask and strictly above the best bid, so neither can execute as a taker.\<close>

theorem maker_quote_never_crosses:
  assumes valid: "mq_valid (makerQuote (Some side) (Some bid) (Some ask) tick)" and dbl: "is_double bid" "is_double ask"
  shows "case side of
      BUY \<Rightarrow> num_le bid (mq_price (makerQuote (Some side) (Some bid) (Some ask) tick)) \<and>
             num_lt (mq_price (makerQuote (Some side) (Some bid) (Some ask) tick)) ask
    | SELL \<Rightarrow> num_lt bid (mq_price (makerQuote (Some side) (Some bid) (Some ask) tick)) \<and>
              num_le (mq_price (makerQuote (Some side) (Some bid) (Some ask) tick)) ask"
proof -
  obtain b a t where f: "bid = Fin b" "ask = Fin a" "tick = Fin t" "0 < b" "b < a" "a < 1" "0 < t"
    using valid by (elim makerQuote_valid) auto
  have up: "num_le (Fin b) (fl (b + t))" using dbl f fl_mono [of b "b + t"] by (simp add: representable_def)
  have down: "num_le (fl (a - t)) (Fin a)" using dbl f fl_mono [of "a - t" a] by (simp add: representable_def)
  show ?thesis
    using up down f by (cases side) (auto simp: makerQuote_def Let_def num_sub_def)
qed

text \<open>A tick of one cent inside a spread of one eighth improves the bid.\<close>

lemma maker_quote_never_crosses_witness:
  "num_le (Fin (1 / 2)) (mq_price (makerQuote (Some BUY) (Some (Fin (1 / 2))) (Some (Fin (5 / 8))) (Fin (1 / 16)))) \<and>
   num_lt (mq_price (makerQuote (Some BUY) (Some (Fin (1 / 2))) (Some (Fin (5 / 8))) (Fin (1 / 16)))) (Fin (5 / 8))"
  using maker_quote_never_crosses [of BUY "Fin (1 / 2)" "Fin (5 / 8)" "Fin (1 / 16)"]
  by (simp add: makerQuote_def representable_def num_eval)

text \<open>A valid adjusted quote is priced on the token the intent names, keeps the minimal edge after the taker fee, never pays more
  than the intent's own valuation and never asks for more shares than rest at a known depth.\<close>

lemma adjusted_quote_keeps_edge:
  assumes "aq_valid (adjustQuote c i yes no depth)"
  shows "\<exists>s book. ti_side i = Outcome s \<and> (if s = YES then yes else no) = Some book \<and> num_lt (Fin 0) book \<and>
    \<not> num_lt (aq_edge (adjustQuote c i yes no depth)) (qc_min_edge c) \<and>
    aq_edge (adjustQuote c i yes no depth) = num_sub (num_sub (aq_price (adjustQuote c i yes no depth)) book) (num_div (qc_taker_bps c) (Fin 10000)) \<and>
    (case depth of Some d \<Rightarrow> num_lt (Fin 0) d \<longrightarrow> \<not> num_lt d (aq_size (adjustQuote c i yes no depth)) | None \<Rightarrow> True)"
proof -
  have irr: "\<not> num_lt d d" for d by (cases d) simp_all
  have asym: "num_le a b \<Longrightarrow> \<not> num_lt b a" for a b by (cases a; cases b) (auto simp: num_le_def)
  have pos: "\<not> num_le x (Fin 0) \<Longrightarrow> x \<noteq> NaN \<Longrightarrow> num_lt (Fin 0) x" for x by (cases x) (auto simp: num_le_def)
  obtain s where s: "ti_side i = Outcome s"
    using assms by (cases "ti_side i") (auto simp: adjustQuote_def Let_def)
  obtain book where b: "(if s = YES then yes else no) = Some book" "book \<noteq> NaN" "\<not> num_le book (Fin 0)"
    using assms s by (cases "if s = YES then yes else no") (auto simp: adjustQuote_def Let_def or_num_def split: if_splits)
  show ?thesis
    using assms s b pos [of book] irr
    by (auto simp: adjustQuote_def Let_def or_num_def dest: asym split: if_splits option.splits cong: if_cong)
qed

end
