(* ===== verification/Arbiter.thy ===== *)
theory Arbiter
  imports Quoting MarketData Sizing
begin

text \<open>
  The strategy arbiter (\<open>src/pm/strategy/src/arbiter.ts\<close>): proposals of several strategies are filtered, grouped by market,
  netted over the market graph, bounded by the policy and emitted as intents. The graph store answers with the edges of
  \<open>MarketData\<close>; random identifiers are arguments.
\<close>

section \<open>Proposals\<close>

text \<open>The fields of \<open>strategy_params\<close> the arbiter reads: \<open>pp_market\<close> is \<open>None\<close> when the key is absent. \<open>sp_params\<close> is \<open>None\<close> when the
  parameters are missing or no object. The side is whatever word the strategy wrote.\<close>

record proposal_params =
  pp_market :: "string option"
  pp_side :: "intent_side option"
  pp_qty :: "jsnum option"
  pp_purpose :: "intent_purpose option"

record strategy_proposal =
  spr_id :: string
  spr_strategy :: string
  spr_params :: "proposal_params option"
  spr_forecast_refs :: "string list"
  spr_graph_refs :: "string list"
  spr_expires :: "ms option"

record normalized_proposal =
  np_proposal :: strategy_proposal
  np_market :: string
  np_side :: intent_side
  np_qty :: jsnum
  np_purpose :: intent_purpose

record market_exposure =
  mx_market :: string
  mx_net :: jsnum
  mx_proposals :: "normalized_proposal list"

text \<open>A proposal whose expiry is no valid date is not expired: the comparison with NaN is false.\<close>

definition filterValidProposals :: "ms \<Rightarrow> strategy_proposal list \<Rightarrow> strategy_proposal list" where
  "filterValidProposals now ps =
     filter (\<lambda>p. \<not> (case spr_expires p of Some t \<Rightarrow> t \<le> now | None \<Rightarrow> False) \<and>
                 (case spr_params p of Some q \<Rightarrow> pp_market q \<noteq> None | None \<Rightarrow> False)) ps"

definition normalize_one :: "strategy_proposal \<Rightarrow> normalized_proposal option" where
  "normalize_one p =
     (case spr_params p of
        None \<Rightarrow> None
      | Some q \<Rightarrow>
          let qty = or_num (pp_qty q) (Fin 0) in
          if truthy (pp_market q) \<and> num_lt (Fin 0) qty
          then Some \<lparr>np_proposal = p, np_market = the (pp_market q), np_side = (case pp_side q of Some s \<Rightarrow> s | None \<Rightarrow> Direction BUY), np_qty = qty,
                     np_purpose = (case pp_purpose q of Some u \<Rightarrow> u | None \<Rightarrow> Purpose_ENTRY)\<rparr>
          else None)"

definition normalizeProposals :: "strategy_proposal list \<Rightarrow> normalized_proposal list" where
  "normalizeProposals ps = List.map_filter normalize_one ps"

section \<open>Netting over the market graph\<close>

definition byMarket :: "normalized_proposal list \<Rightarrow> (string \<times> normalized_proposal list) list" where
  "byMarket ns = fold (\<lambda>np g. add_to_group (np_market np) np g) ns []"

definition signed_sum :: "normalized_proposal list \<Rightarrow> jsnum" where
  "signed_sum ns = fold (\<lambda>p s. if np_side p = Direction BUY then num_add s (np_qty p) else num_sub s (np_qty p)) ns (Fin 0)"

definition exposures_of :: "normalized_proposal list \<Rightarrow> market_exposure list" where
  "exposures_of ns = map (\<lambda>(m, g). \<lparr>mx_market = m, mx_net = signed_sum g, mx_proposals = g\<rparr>) (byMarket ns)"

definition other_end :: "string \<Rightarrow> graph_edge \<Rightarrow> string" where
  "other_end m e = (if ge_from e = m then ge_to e else ge_from e)"

text \<open>One loop over related edges: the net quantity, the last market netted and the markets processed.\<close>

fun net_related ::
  "market_exposure list \<Rightarrow> string \<Rightarrow> graph_edge list \<Rightarrow> jsnum \<times> string option \<times> string list \<Rightarrow> jsnum \<times> string option \<times> string list" where
  "net_related es m [] acc = acc"
| "net_related es m (e # edges) (net, related, processed) =
     (let other = other_end m e in
      case row_of mx_market other es of
        Some x \<Rightarrow> if other \<notin> set processed then net_related es m edges (num_add net (mx_net x), Some other, other # processed)
                  else net_related es m edges (net, related, processed)
      | None \<Rightarrow> net_related es m edges (net, related, processed))"

definition correlation_discount :: "graph_edge list \<Rightarrow> jsnum" where
  "correlation_discount edges =
     fold (\<lambda>e d. case ge_confidence e of Some c \<Rightarrow> num_min d (num_sub (Fin 1) (num_mul c (Fin (1 / 2)))) | None \<Rightarrow> d) edges (Fin 1)"

text \<open>One market: the paired markets of verified negative-risk edges and the complements are netted in, then discounted. The
  quantity is recorded under the last negative-risk partner where there is one.\<close>

definition net_market ::
  "(string \<Rightarrow> graph_edge list) \<Rightarrow> market_exposure list \<Rightarrow> market_exposure \<Rightarrow> string list \<Rightarrow> market_exposure option \<times> string list" where
  "net_market store es x processed =
     (let m = mx_market x; edges = store m;
          neg = filter (\<lambda>e. ge_relation e = NATIVE_NEG_RISK \<and> ge_trust e = VERIFIED_PLATFORM) edges;
          comp = filter (\<lambda>e. ge_relation e = COMPLEMENT) edges; corr = filter (\<lambda>e. ge_relation e = CORRELATED) edges
      in case net_related es m neg (mx_net x, None, processed) of
           (net1, related, processed1) \<Rightarrow>
             (case net_related es m comp (net1, None, processed1) of
                (net2, _, processed2) \<Rightarrow>
                  let net = math_round (num_mul net2 (correlation_discount corr))
                  in (if net \<noteq> Fin 0
                      then Some \<lparr>mx_market = (case related of Some r \<Rightarrow> r | None \<Rightarrow> m), mx_net = net, mx_proposals = mx_proposals x\<rparr>
                      else None, m # processed2)))"

fun net_all ::
  "(string \<Rightarrow> graph_edge list) \<Rightarrow> market_exposure list \<Rightarrow> market_exposure list \<Rightarrow> string list \<Rightarrow> market_exposure list" where
  "net_all store es [] processed = []"
| "net_all store es (x # xs) processed =
     (if mx_market x \<in> set processed then net_all store es xs processed
      else case net_market store es x processed of
             (r, processed') \<Rightarrow> (case r of Some y \<Rightarrow> [y] | None \<Rightarrow> []) @ net_all store es xs processed')"

definition deduplicateViaGraph :: "(string \<Rightarrow> graph_edge list) \<Rightarrow> normalized_proposal list \<Rightarrow> market_exposure list" where
  "deduplicateViaGraph store ns = (let es = exposures_of ns in net_all store es es [])"

section \<open>Budgets and intents\<close>

definition budget_cap :: "risk_policy \<Rightarrow> jsnum \<Rightarrow> jsnum" where
  "budget_cap pol pct = math_floor (num_mul (or_num (capital_usd_cap pol) (Fin 10000)) pct)"

definition cap_quantity :: "jsnum \<Rightarrow> jsnum \<Rightarrow> jsnum" where
  "cap_quantity cap n = (if num_lt cap (num_abs n) then if num_lt (Fin 0) n then cap else num_neg cap else n)"

definition applyBudgets :: "risk_policy \<Rightarrow> market_exposure list \<Rightarrow> market_exposure list" where
  "applyBudgets pol xs =
     map (\<lambda>x. x\<lparr>mx_net := cap_quantity (budget_cap pol (max_market_pct pol)) (cap_quantity (budget_cap pol (max_order_pct pol)) (mx_net x))\<rparr>) xs"

text \<open>\<open>ids\<close> are the two random identifiers drawn for an intent; the proposal's own identifier is preferred for the key.\<close>

definition side_name :: "order_side \<Rightarrow> string" where
  "side_name s = (case s of BUY \<Rightarrow> ''BUY'' | SELL \<Rightarrow> ''SELL'')"

definition intent_of_exposure :: "(string \<Rightarrow> string \<times> string) \<Rightarrow> market_exposure \<Rightarrow> strategy_intent" where
  "intent_of_exposure ids x =
     (let side = (if num_lt (Fin 0) (mx_net x) then BUY else SELL); qty = num_abs (mx_net x);
          lead = (case mx_proposals x of p # _ \<Rightarrow> Some p | [] \<Rightarrow> None);
          key = (case lead of Some p \<Rightarrow> spr_id (np_proposal p) | None \<Rightarrow> snd (ids (mx_market x)))
      in \<lparr>ti_intent_id = fst (ids (mx_market x)), ti_dedupe_key = ''arb_'' @ key @ ''_'' @ mx_market x @ ''_'' @ side_name side,
          ti_purpose = (case lead of Some p \<Rightarrow> np_purpose p | None \<Rightarrow> Purpose_ENTRY), ti_market_id = mx_market x, ti_side = Direction side,
          ti_desired_qty = Some qty, ti_desired_notional = None, ti_limit_price = None, ti_price = None, ti_expiration_sec = None,
          ti_order_type = None, ti_status = Intent_CREATED, sx_token = None, sx_size = None,
          sx_strategy = Some (case lead of Some p \<Rightarrow> spr_strategy (np_proposal p) | None \<Rightarrow> ''arbitrated''),
          sx_forecast_refs = concat (map (\<lambda>p. spr_forecast_refs (np_proposal p)) (mx_proposals x)),
          sx_evidence_ids = concat (map (\<lambda>p. spr_graph_refs (np_proposal p)) (mx_proposals x))\<rparr>)"

definition emitIntents :: "(string \<Rightarrow> string \<times> string) \<Rightarrow> market_exposure list \<Rightarrow> strategy_intent list" where
  "emitIntents ids xs = map (intent_of_exposure ids) (filter (\<lambda>x. mx_net x \<noteq> Fin 0) xs)"

definition arbitrate ::
  "(string \<Rightarrow> graph_edge list) \<Rightarrow> risk_policy \<Rightarrow> ms \<Rightarrow> (string \<Rightarrow> string \<times> string) \<Rightarrow> strategy_proposal list \<Rightarrow> strategy_intent list" where
  "arbitrate store pol now ids ps =
     emitIntents ids (applyBudgets pol (deduplicateViaGraph store (normalizeProposals (filterValidProposals now ps))))"

section \<open>Every market is decided once\<close>

lemma net_related_grows:
  assumes "net_related es m edges (net, related, processed) = (net', related', processed')"
  shows "set processed \<subseteq> set processed' \<and> (related' = related \<or> (\<exists>r. related' = Some r \<and> r \<notin> set processed \<and> r \<in> set processed'))"
  using assms
proof (induction edges arbitrary: net related processed)
  case (Cons e edges)
  let ?other = "other_end m e"
  consider (kept) "net_related es m edges (net, related, processed) = (net', related', processed')"
    | (netted) n where "?other \<notin> set processed"
        "net_related es m edges (n, Some ?other, ?other # processed) = (net', related', processed')"
    using Cons.prems by (simp add: Let_def split: option.splits if_splits)
  then show ?case
  proof cases
    case kept
    then show ?thesis by (rule Cons.IH)
  next
    case netted
    from Cons.IH [OF netted(2)] netted(1) show ?thesis
      by (cases "related' = Some ?other") (auto split: if_splits)
  qed
qed simp

lemma net_market_fresh:
  assumes "net_market store es x processed = (r, processed')" and "mx_market x \<notin> set processed"
  shows "set processed \<subseteq> set processed' \<and>
    (case r of Some y \<Rightarrow> mx_market y \<notin> set processed \<and> mx_market y \<in> set processed' | None \<Rightarrow> True)"
proof -
  let ?m = "mx_market x"
  let ?neg = "filter (\<lambda>e. ge_relation e = NATIVE_NEG_RISK \<and> ge_trust e = VERIFIED_PLATFORM) (store ?m)"
  let ?comp = "filter (\<lambda>e. ge_relation e = COMPLEMENT) (store ?m)"
  obtain net1 related p1 where one: "net_related es ?m ?neg (mx_net x, None, processed) = (net1, related, p1)" by (metis prod_cases3)
  obtain net2 related2 p2 where two: "net_related es ?m ?comp (net1, None, p1) = (net2, related2, p2)" by (metis prod_cases3)
  from net_related_grows [OF one] net_related_grows [OF two] assms show ?thesis
    by (auto simp: net_market_def one two Let_def split: if_splits)
qed

lemma net_all_distinct:
  "distinct (map mx_market (net_all store es xs processed)) \<and> set (map mx_market (net_all store es xs processed)) \<inter> set processed = {}"
proof (induction xs arbitrary: processed)
  case (Cons x xs)
  show ?case
  proof (cases "mx_market x \<in> set processed")
    case False
    obtain r processed' where r: "net_market store es x processed = (r, processed')" by fastforce
    from net_market_fresh [OF r False] Cons.IH [of processed'] False r show ?thesis by (auto split: option.splits)
  qed (use Cons in simp)
qed simp

section \<open>Quirks\<close>

text \<open>Two buys of a negative-risk pair add up, and the sum is bought on the partner, not where it was proposed.\<close>

definition sample_proposal :: "string \<Rightarrow> jsnum \<Rightarrow> strategy_proposal" where
  "sample_proposal m q = \<lparr>spr_id = m, spr_strategy = ''s'',
     spr_params = Some \<lparr>pp_market = Some m, pp_side = Some (Direction BUY), pp_qty = Some q, pp_purpose = None\<rparr>, spr_forecast_refs = [],
     spr_graph_refs = [], spr_expires = None\<rparr>"

definition sample_pair :: "string \<Rightarrow> graph_edge list" where
  "sample_pair m = [\<lparr>ge_from = ''a'', ge_to = ''b'', ge_relation = NATIVE_NEG_RISK, ge_trust = VERIFIED_PLATFORM, ge_confidence = None,
     ge_provenance = ''p''\<rparr>]"

lemma pair_adds_on_partner:
  "map (\<lambda>x. (mx_market x, mx_net x)) (deduplicateViaGraph sample_pair (normalizeProposals (filterValidProposals 0
     [sample_proposal ''a'' (Fin 8), sample_proposal ''b'' (Fin 4)]))) = [(''b'', Fin 12)]"
  by (simp add: deduplicateViaGraph_def normalizeProposals_def filterValidProposals_def normalize_one_def sample_proposal_def
      sample_pair_def exposures_of_def byMarket_def add_to_group_def signed_sum_def net_market_def other_end_def
      correlation_discount_def or_num_def map_filter_simps num_eval)

text \<open>A limit that is not a number limits nothing.\<close>

lemma nan_budget_caps_nothing: "cap_quantity NaN n = n"
  by (simp add: cap_quantity_def)

section \<open>Properties\<close>

lemma cap_quantity_le:
  assumes "0 \<le> a"
  shows "\<not> num_lt (Fin a) (num_abs (cap_quantity (Fin a) n))"
  using assms by (cases n) (auto simp: cap_quantity_def num_abs_def)

lemma cap_quantity_shrinks:
  assumes "0 \<le> b" and "\<not> num_lt (Fin a) (num_abs n)"
  shows "\<not> num_lt (Fin a) (num_abs (cap_quantity (Fin b) n))"
  using assms by (cases n) (auto simp: cap_quantity_def num_abs_def)

lemma one_intent_per_market: "distinct (map ti_market_id (arbitrate store pol now ids ps))"
proof -
  have "map ti_market_id (emitIntents ids xs) = map mx_market (filter (\<lambda>x. mx_net x \<noteq> Fin 0) xs)" for xs
    by (induction xs) (simp_all add: emitIntents_def intent_of_exposure_def Let_def)
  moreover have "map mx_market (applyBudgets pol xs) = map mx_market xs" for xs by (simp add: applyBudgets_def)
  ultimately show ?thesis
    using net_all_distinct unfolding arbitrate_def deduplicateViaGraph_def Let_def by (metis distinct_map_filter)
qed

text \<open>C37. What the arbiter emits is bounded. However the proposals and the market graph look, there is at most one intent per
  market, and when the order and the market budget of the policy come out as finite and non-negative, no intent asks for more
  shares than either of them, and none asks for nothing.\<close>

theorem arbiter_intents_bounded:
  assumes caps: "budget_cap pol (max_order_pct pol) = Fin a" "budget_cap pol (max_market_pct pol) = Fin b" "0 \<le> a" "0 \<le> b"
  shows "distinct (map ti_market_id (arbitrate store pol now ids ps)) \<and>
    list_all (\<lambda>i. \<exists>q. ti_desired_qty i = Some q \<and> q \<noteq> Fin 0 \<and> \<not> num_lt (Fin a) q \<and> \<not> num_lt (Fin b) q)
      (arbitrate store pol now ids ps)"
proof -
  have nz: "num_abs v = Fin 0 \<Longrightarrow> v = Fin 0" for v by (cases v) (auto simp: num_abs_def split: if_splits)
  have "\<exists>q. ti_desired_qty i = Some q \<and> q \<noteq> Fin 0 \<and> \<not> num_lt (Fin a) q \<and> \<not> num_lt (Fin b) q"
    if i: "i \<in> set (arbitrate store pol now ids ps)" for i
  proof -
    from i obtain x where x: "i = intent_of_exposure ids (x\<lparr>mx_net := cap_quantity (Fin b) (cap_quantity (Fin a) (mx_net x))\<rparr>)"
      and "cap_quantity (Fin b) (cap_quantity (Fin a) (mx_net x)) \<noteq> Fin 0"
      by (auto simp: arbitrate_def emitIntents_def applyBudgets_def caps)
    with nz cap_quantity_le [OF caps(4)] cap_quantity_shrinks [OF caps(4) cap_quantity_le [OF caps(3)]] show ?thesis
      by (auto simp: x intent_of_exposure_def Let_def)
  qed
  with one_intent_per_market show ?thesis by (simp add: list_all_iff)
qed

definition sample_budget :: risk_policy where
  "sample_budget = (default_policy 0)\<lparr>capital_usd_cap := Some (Fin 64), max_order_pct := Fin (1 / 8), max_market_pct := Fin (1 / 4)\<rparr>"

text \<open>The pair's twelve shares are cut to the order budget of eight.\<close>

lemma arbiter_intents_bounded_witness:
  "\<exists>i. i \<in> set (arbitrate sample_pair sample_budget 0 (\<lambda>m. (m, m)) [sample_proposal ''a'' (Fin 8), sample_proposal ''b'' (Fin 4)]) \<and>
     ti_desired_qty i = Some (Fin 8) \<and> (\<exists>q. ti_desired_qty i = Some q \<and> q \<noteq> Fin 0 \<and> \<not> num_lt (Fin 8) q \<and> \<not> num_lt (Fin 16) q)"
proof -
  let ?l = "arbitrate sample_pair sample_budget 0 (\<lambda>m. (m, m)) [sample_proposal ''a'' (Fin 8), sample_proposal ''b'' (Fin 4)]"
  have caps: "budget_cap sample_budget (max_order_pct sample_budget) = Fin 8" "budget_cap sample_budget (max_market_pct sample_budget) = Fin 16"
    by (simp_all add: budget_cap_def sample_budget_def default_policy_def or_num_def num_eval)
  have "\<exists>i. i \<in> set ?l \<and> ti_desired_qty i = Some (Fin 8)"
    using pair_adds_on_partner
    by (auto simp: arbitrate_def emitIntents_def applyBudgets_def caps cap_quantity_def num_abs_def intent_of_exposure_def Let_def
        map_eq_Cons_conv)
  with arbiter_intents_bounded [OF caps, of sample_pair 0 "\<lambda>m. (m, m)" "[sample_proposal ''a'' (Fin 8), sample_proposal ''b'' (Fin 4)]"]
  show ?thesis by (auto simp: list_all_iff)
qed

end
