(* ===== verification/Strategies.thy ===== *)
theory Strategies
  imports Arbiter
begin

text \<open>
  The strategies whose proposals the arbiter receives: \<open>src/pm/strategy/src/evidence-directional-v1.ts\<close>,
  \<open>evidence-directional-v2.ts\<close>, \<open>market-graph-relative-value-v1.ts\<close> and their registry \<open>strategy-registry.ts\<close>. Identifiers and
  the expiry one hour from now are arguments; theses are text for people and are left out.
\<close>

section \<open>Evidence directional\<close>

text \<open>A proposal and what only its reader, not the arbiter, looks at.\<close>

record directional_proposal = strategy_proposal +
  dp_limit :: "jsnum option"
  dp_edge :: "jsnum option"
  dp_no_trade :: "string option"

definition no_params :: proposal_params where
  "no_params = \<lparr>pp_market = None, pp_side = None, pp_qty = None, pp_purpose = None\<rparr>"

definition v2_no_trade :: "string \<Rightarrow> ms \<Rightarrow> string \<Rightarrow> full_forecast \<Rightarrow> directional_proposal" where
  "v2_no_trade pid expires code f =
     \<lparr>spr_id = pid, spr_strategy = ''evidence_directional_v2'', spr_params = Some no_params, spr_forecast_refs = [ff_id f], spr_graph_refs = [],
      spr_expires = Some expires, dp_limit = None, dp_edge = None, dp_no_trade = Some code\<rparr>"

definition directional_v2 ::
  "jsnum \<Rightarrow> string \<Rightarrow> ms \<Rightarrow> full_forecast \<Rightarrow> jsnum \<Rightarrow> jsnum \<Rightarrow> jsnum \<Rightarrow> directional_proposal" where
  "directional_v2 minEdge pid expires f yes no takerBps =
     (case ff_conservative f of
        None \<Rightarrow> v2_no_trade pid expires ''MISSING_CONSERVATIVE_PROB'' f
      | Some p \<Rightarrow>
          if ff_evidence_ids f = [] then v2_no_trade pid expires ''NO_EVIDENCE'' f
          else let takerFee = num_div takerBps (Fin 10000); side = (if num_lt (Fin (1 / 2)) p then YES else NO);
                   price = (if side = YES then yes else no)
            in if num_le price (Fin 0) \<or> num_le (Fin 1) price then v2_no_trade pid expires ''INVALID_BOOK_PRICE'' f
               else let edge = num_sub (num_sub (if side = YES then p else num_sub (Fin 1) p) price) takerFee in
                 if num_lt edge minEdge then v2_no_trade pid expires ''MIN_EDGE_UNMET'' f
                 else \<lparr>spr_id = pid, spr_strategy = ''evidence_directional_v2'',
                       spr_params = Some \<lparr>pp_market = Some (ff_market f), pp_side = Some (Outcome side),
                         pp_qty = Some (num_max (fl (1 / 100)) (num_mul (num_abs (num_sub p (Fin (1 / 2)))) (Fin 2))),
                         pp_purpose = Some Purpose_ENTRY\<rparr>,
                       spr_forecast_refs = [ff_id f], spr_graph_refs = [], spr_expires = Some expires, dp_limit = Some price,
                       dp_edge = Some edge, dp_no_trade = None\<rparr>)"

text \<open>The first version answers with an intent, of no shares when it does not trade.\<close>

definition directional_v1 :: "jsnum \<Rightarrow> full_forecast \<Rightarrow> jsnum \<Rightarrow> jsnum \<Rightarrow> jsnum \<Rightarrow> strategy_intent \<times> string option" where
  "directional_v1 minEdge f yes no takerBps =
     (let p = or_num (first_some [ff_conservative f, f_calibrated f, f_raw f]) (Fin (1 / 2));
          side = (if num_lt (Fin (1 / 2)) p then YES else NO); price = (if side = YES then yes else no);
          edge = num_sub (num_abs (num_sub p price)) (num_div takerBps (Fin 10000));
          intent = (\<lambda>size. \<lparr>ti_intent_id = ''int_'' @ ff_id f, ti_dedupe_key = ''int_'' @ ff_id f, ti_purpose = Purpose_ENTRY,
            ti_market_id = ff_market f, ti_side = Outcome side, ti_desired_qty = Some size, ti_desired_notional = None,
            ti_limit_price = Some price, ti_price = Some price, ti_expiration_sec = None, ti_order_type = None, ti_status = Intent_CREATED,
            sx_token = Some '''', sx_size = Some size, sx_strategy = None, sx_forecast_refs = [ff_id f], sx_evidence_ids = ff_evidence_ids f\<rparr>)
      in if num_lt edge minEdge then (intent (Fin 0), Some ''MIN_EDGE_UNMET'') else (intent (num_mul edge (Fin 100)), None))"

section \<open>Relative value over the market graph\<close>

record market_snapshot =
  sn_market :: string
  sn_condition :: "string option"
  sn_event :: "string option"
  sn_neg_risk :: bool
  sn_yes :: "jsnum option"
  sn_no :: "jsnum option"

record proposal_leg =
  pl_side :: outcome_side
  pl_limit :: jsnum
  pl_market :: string

record paired_proposal = strategy_proposal +
  pa_leg_a :: proposal_leg
  pa_leg_b :: proposal_leg
  pa_edge :: jsnum

definition createProposal ::
  "string \<Rightarrow> ms \<Rightarrow> market_snapshot \<Rightarrow> market_snapshot \<Rightarrow> bool \<Rightarrow> jsnum \<Rightarrow> graph_edge \<Rightarrow> paired_proposal" where
  "createProposal pid expires a b a_no edge e =
     \<lparr>spr_id = pid, spr_strategy = ''market_graph_relative_value_v1'', spr_params = Some no_params, spr_forecast_refs = [],
      spr_graph_refs = [ge_from e, ge_to e], spr_expires = Some expires,
      pa_leg_a = \<lparr>pl_side = (if a_no then NO else YES), pl_limit = or_num (if a_no then sn_no a else sn_yes a) (Fin 0), pl_market = sn_market a\<rparr>,
      pa_leg_b = \<lparr>pl_side = (if a_no then YES else NO), pl_limit = or_num (if a_no then sn_yes b else sn_no b) (Fin 0), pl_market = sn_market b\<rparr>,
      pa_edge = edge\<rparr>"

definition pair_proposal ::
  "jsnum \<Rightarrow> (string \<Rightarrow> market_snapshot option) \<Rightarrow> jsnum option \<Rightarrow> (graph_edge \<Rightarrow> string) \<Rightarrow> ms \<Rightarrow> graph_edge \<Rightarrow> paired_proposal option" where
  "pair_proposal minEdge snapshots takerBps ids expires e =
     (case (snapshots (ge_from e), snapshots (ge_to e)) of
        (Some a, Some b) \<Rightarrow>
          if \<not> sn_neg_risk a \<or> \<not> sn_neg_risk b \<or> sn_condition a \<noteq> sn_condition b \<or> sn_event a \<noteq> sn_event b then None
          else let price = (\<lambda>x. or_num x (Fin 0)); fee = num_div (or_num takerBps (Fin 200)) (Fin 10000);
                   edge1 = num_sub (Fin 1) (num_add (num_add (price (sn_no a)) (price (sn_yes b))) fee);
                   edge2 = num_sub (Fin 1) (num_add (num_add (price (sn_no b)) (price (sn_yes a))) fee); best = num_max edge1 edge2
            in if num_lt best minEdge then None else Some (createProposal (ids e) expires a b (num_lt edge2 edge1) best e)
      | _ \<Rightarrow> None)"

definition relative_value_run ::
  "jsnum \<Rightarrow> (string \<Rightarrow> market_snapshot option) \<Rightarrow> jsnum option \<Rightarrow> (graph_edge \<Rightarrow> string) \<Rightarrow> ms \<Rightarrow> graph_edge list \<Rightarrow> paired_proposal list option" where
  "relative_value_run minEdge snapshots takerBps ids expires edges =
     (let ps = List.map_filter (pair_proposal minEdge snapshots takerBps ids expires)
        (filter (\<lambda>e. ge_relation e = NATIVE_NEG_RISK \<and> ge_trust e = VERIFIED_PLATFORM) edges)
      in if ps = [] then None else Some ps)"

section \<open>The registry\<close>

text \<open>Strategies by \<open>name@version\<close>; the run function is the strategy's own.\<close>

record 'f strategy_definition =
  sd_name :: string
  sd_version :: string
  sd_modes :: "string list"
  sd_run :: 'f

definition strategy_key :: "string \<Rightarrow> string \<Rightarrow> string" where
  "strategy_key name version = name @ ''@'' @ version"

definition strategy_register :: "'f strategy_definition \<Rightarrow> (string \<times> 'f strategy_definition) list \<Rightarrow> (string \<times> 'f strategy_definition) list" where
  "strategy_register d reg = map_set (strategy_key (sd_name d) (sd_version d)) d reg"

definition strategy_get :: "string \<Rightarrow> string \<Rightarrow> (string \<times> 'f strategy_definition) list \<Rightarrow> 'f strategy_definition option" where
  "strategy_get name version reg = map_of reg (strategy_key name version)"

definition listQualified :: "string \<Rightarrow> (string \<times> 'f strategy_definition) list \<Rightarrow> 'f strategy_definition list" where
  "listQualified mode reg = filter (\<lambda>d. mode \<in> set (sd_modes d)) (map snd reg)"

section \<open>What a proposal means\<close>

text \<open>A proposal of the second version that trades has a conservative probability, evidence, a price strictly between nought
  and one (or one that is no number) and an edge after the fee that is not below the minimum.\<close>

lemma v2_trades:
  assumes "dp_no_trade (directional_v2 minEdge pid expires f yes no takerBps) = None"
  shows "\<exists>p price edge. ff_conservative f = Some p \<and> ff_evidence_ids f \<noteq> [] \<and> price = (if num_lt (Fin (1 / 2)) p then yes else no) \<and>
    \<not> num_le price (Fin 0) \<and> \<not> num_le (Fin 1) price \<and> dp_limit (directional_v2 minEdge pid expires f yes no takerBps) = Some price \<and>
    dp_edge (directional_v2 minEdge pid expires f yes no takerBps) = Some edge \<and> \<not> num_lt edge minEdge"
  using assms by (auto simp: directional_v2_def v2_no_trade_def Let_def split: option.splits if_splits)

text \<open>What does not trade, and every pair of the relative value strategy, names no market: the arbiter drops it.\<close>

lemma untraded_are_dropped:
  assumes "dp_no_trade (directional_v2 minEdge pid expires f yes no takerBps) \<noteq> None"
  shows "filterValidProposals now [strategy_proposal.truncate (directional_v2 minEdge pid expires f yes no takerBps)] = []"
  using assms
  by (auto simp: directional_v2_def v2_no_trade_def no_params_def filterValidProposals_def strategy_proposal.truncate_def Let_def
      split: option.splits if_splits)

lemma pairs_are_dropped:
  assumes "relative_value_run minEdge snapshots takerBps ids expires edges = Some ps"
  shows "filterValidProposals now (map strategy_proposal.truncate ps) = []"
proof -
  have "spr_params (strategy_proposal.truncate p) = Some no_params" if p: "p \<in> set ps" for p
  proof -
    from assms p obtain e where "pair_proposal minEdge snapshots takerBps ids expires e = Some p"
      by (auto simp: relative_value_run_def List.map_filter_def Let_def split: if_splits)
    then show ?thesis
      by (auto simp: pair_proposal_def createProposal_def Let_def strategy_proposal.truncate_def split: option.splits if_splits)
  qed
  then show ?thesis by (auto simp: filterValidProposals_def no_params_def filter_empty_conv)
qed

text \<open>A pair spans two markets of one negative-risk event, on opposite outcomes, with the better of the two edges.\<close>

lemma pair_is_opposite:
  assumes "pair_proposal minEdge snapshots takerBps ids expires e = Some p"
  shows "\<exists>a b. snapshots (ge_from e) = Some a \<and> snapshots (ge_to e) = Some b \<and> sn_neg_risk a \<and> sn_neg_risk b \<and>
    sn_event a = sn_event b \<and> pl_side (pa_leg_a p) \<noteq> pl_side (pa_leg_b p) \<and> pl_market (pa_leg_a p) = sn_market a \<and>
    pl_market (pa_leg_b p) = sn_market b \<and> \<not> num_lt (pa_edge p) minEdge"
  using assms by (auto simp: pair_proposal_def createProposal_def Let_def split: option.splits if_splits)

text \<open>The registry's keys are ambiguous: a name or version may contain the separator.\<close>

lemma registry_get_registered: "strategy_get (sd_name d) (sd_version d) (strategy_register d reg) = Some d"
  by (simp add: strategy_get_def strategy_register_def map_of_map_set)

lemma registry_keys_collide: "strategy_key ''a@1'' ''2'' = strategy_key ''a'' ''1@2''"
  by (simp add: strategy_key_def)

section \<open>Properties\<close>

text \<open>The sign of a quantity: rounding a quantity that is at most nought leaves it so.\<close>

lemma round_nonpos: "num_le n (Fin 0) \<Longrightarrow> num_le (math_round n) (Fin 0)"
  by (cases n) (auto simp: num_le_def, linarith)

lemma fl_nonpos: "q \<le> 0 \<Longrightarrow> num_le (fl q) (Fin 0)"
  using fl_mono [of q 0] by (simp add: fl_def)

lemma cap_nonpos: "num_le n (Fin 0) \<Longrightarrow> 0 \<le> c \<Longrightarrow> num_le (cap_quantity (Fin c) n) (Fin 0)"
  by (cases n) (auto simp: cap_quantity_def num_le_def)

text \<open>A directional entry that buys YES leaves the arbiter as a sale. The strategy writes the outcome YES or NO as its side,
  the arbiter compares the side with BUY only: whatever the second directional strategy proposes on its own, with no related
  markets and budgets that are finite and not negative, every intent that comes out has the side SELL.\<close>

theorem directional_entry_becomes_sale:
  assumes caps: "budget_cap pol (max_order_pct pol) = Fin a" "budget_cap pol (max_market_pct pol) = Fin b" "0 \<le> a" "0 \<le> b"
    and i: "i \<in> set (arbitrate (\<lambda>_. []) pol now ids [strategy_proposal.truncate (directional_v2 minEdge pid expires f yes no takerBps)])"
  shows "ti_side i = Direction SELL"
proof -
  let ?p = "strategy_proposal.truncate (directional_v2 minEdge pid expires f yes no takerBps)"
  let ?ns = "normalizeProposals (filterValidProposals now [?p])"
  from i have "?ns \<noteq> []" by (auto simp: arbitrate_def deduplicateViaGraph_def exposures_of_def byMarket_def emitIntents_def applyBudgets_def)
  then obtain np where np: "?ns = [np]" "normalize_one ?p = Some np"
    by (auto simp: normalizeProposals_def filterValidProposals_def map_filter_def split: if_splits)
  then have side: "np_side np \<noteq> Direction BUY" and qty: "num_lt (Fin 0) (np_qty np)"
    by (auto simp: normalize_one_def directional_v2_def v2_no_trade_def no_params_def strategy_proposal.truncate_def Let_def
        split: option.splits if_splits)
  define net where "net = num_sub (Fin 0) (np_qty np)"
  have net: "num_le net (Fin 0)" using qty by (cases "np_qty np") (auto simp: net_def num_sub_def fl_nonpos)
  have ded: "deduplicateViaGraph (\<lambda>_. []) ?ns = (let n = math_round (num_mul net (Fin 1)) in
      if n \<noteq> Fin 0 then [\<lparr>mx_market = np_market np, mx_net = n, mx_proposals = [np]\<rparr>] else [])"
    using side by (simp add: np(1) deduplicateViaGraph_def exposures_of_def byMarket_def add_to_group_def signed_sum_def net_market_def
        correlation_discount_def net_def Let_def)
  have "num_le (num_mul net (Fin 1)) (Fin 0)"
    using net by (cases net) (auto simp: fl_nonpos inf_of_sign_def)
  then have rounded: "num_le (math_round (num_mul net (Fin 1))) (Fin 0)" by (rule round_nonpos)
  from i obtain x where x: "i = intent_of_exposure ids (x\<lparr>mx_net := cap_quantity (Fin b) (cap_quantity (Fin a) (mx_net x))\<rparr>)"
    and mem: "x \<in> set (deduplicateViaGraph (\<lambda>_. []) ?ns)"
    by (auto simp: arbitrate_def emitIntents_def applyBudgets_def caps)
  from mem rounded have "num_le (mx_net x) (Fin 0)" by (auto simp: ded Let_def split: if_splits)
  with caps(3,4) have "num_le (cap_quantity (Fin b) (cap_quantity (Fin a) (mx_net x))) (Fin 0)" by (intro cap_nonpos)
  then have "\<not> num_lt (Fin 0) (cap_quantity (Fin b) (cap_quantity (Fin a) (mx_net x)))"
    by (cases "cap_quantity (Fin b) (cap_quantity (Fin a) (mx_net x))") (auto simp: num_le_def)
  then show ?thesis by (simp add: x intent_of_exposure_def Let_def)
qed

text \<open>At 7/8 against one half the strategy proposes three quarters of a YES share; one share is sold.\<close>

definition sample_conviction :: full_forecast where
  "sample_conviction = \<lparr>f_calibrated = None, f_raw = None, f_yes = None, ff_conservative = Some (Fin (7 / 8)), ff_id = ''f'', ff_market = ''m'',
     ff_evidence_ids = [''e'']\<rparr>"

definition sample_directional :: strategy_proposal where
  "sample_directional = strategy_proposal.truncate (directional_v2 (Fin 0) ''p'' 1 sample_conviction (Fin (1 / 2)) (Fin (1 / 2)) (Fin 0))"

lemma sample_directional_eq:
  "sample_directional = \<lparr>spr_id = ''p'', spr_strategy = ''evidence_directional_v2'',
     spr_params = Some \<lparr>pp_market = Some ''m'', pp_side = Some (Outcome YES), pp_qty = Some (Fin (3 / 4)), pp_purpose = Some Purpose_ENTRY\<rparr>,
     spr_forecast_refs = [''f''], spr_graph_refs = [], spr_expires = Some 1\<rparr>"
  by (simp add: sample_directional_def directional_v2_def sample_conviction_def strategy_proposal.truncate_def num_max_def num_abs_def num_eval)

definition sample_normalized :: normalized_proposal where
  "sample_normalized = \<lparr>np_proposal = sample_directional, np_market = ''m'', np_side = Outcome YES, np_qty = Fin (3 / 4), np_purpose = Purpose_ENTRY\<rparr>"

lemma sample_nets_to_sale:
  "deduplicateViaGraph (\<lambda>_. []) (normalizeProposals (filterValidProposals 0 [sample_directional])) =
     [\<lparr>mx_market = ''m'', mx_net = Fin (-1), mx_proposals = [sample_normalized]\<rparr>]"
proof -
  have "normalizeProposals (filterValidProposals 0 [sample_directional]) = [sample_normalized]"
    by (simp add: normalizeProposals_def filterValidProposals_def normalize_one_def map_filter_simps or_num_def sample_normalized_def
        sample_directional_eq Let_def)
  moreover have "math_round (num_mul (num_sub (Fin 0) (Fin (3 / 4))) (Fin 1)) = Fin (-1)" by (simp add: num_eval)
  ultimately show ?thesis
    by (simp add: deduplicateViaGraph_def exposures_of_def byMarket_def add_to_group_def signed_sum_def net_market_def
        correlation_discount_def sample_normalized_def Let_def)
qed

lemma directional_entry_becomes_sale_witness:
  "\<exists>i. i \<in> set (arbitrate (\<lambda>_. []) sample_budget 0 (\<lambda>m. (m, m)) [sample_directional]) \<and>
     ti_desired_qty i = Some (Fin 1) \<and> ti_side i = Direction SELL"
proof -
  have caps: "budget_cap sample_budget (max_order_pct sample_budget) = Fin 8" "budget_cap sample_budget (max_market_pct sample_budget) = Fin 16"
    by (simp_all add: budget_cap_def sample_budget_def default_policy_def or_num_def num_eval)
  have "\<exists>i. i \<in> set (arbitrate (\<lambda>_. []) sample_budget 0 (\<lambda>m. (m, m)) [sample_directional]) \<and> ti_desired_qty i = Some (Fin 1)"
    by (simp add: arbitrate_def sample_nets_to_sale emitIntents_def applyBudgets_def caps cap_quantity_def num_abs_def
        intent_of_exposure_def Let_def)
  with directional_entry_becomes_sale [OF caps, of _ 0 "\<lambda>m. (m, m)" "Fin 0" "''p''" 1 sample_conviction "Fin (1 / 2)" "Fin (1 / 2)" "Fin 0"]
  show ?thesis by (auto simp: sample_directional_def)
qed

end
