(* ===== verification/Experiments.thy ===== *)
theory Experiments
  imports Quoting Sizing "HOL-Library.Word"
begin

text \<open>
  What keeps research honest: the integrity contracts (\<open>src/pm/strategy/src/research-integrity.ts\<close>), the adaptive tuner
  (\<open>adaptive-tuner.ts\<close>) and the experiment registry on PostgreSQL (\<open>experiment-registry.ts\<close>). Random identifiers are arguments;
  an object with numeric fields is the list of its entries. Each SQL statement of the registry is one step, so that every
  interleaving of its operations is a sequence of steps.
\<close>

section \<open>Integrity contracts\<close>

definition auditDenominator :: "string list \<Rightarrow> string list \<Rightarrow> unit outcome" where
  "auditDenominator reported universe =
     (if universe = [] then Refused ''DENOMINATOR_MISMATCH''
      else if list_ex (\<lambda>i. i \<notin> set universe) reported then Refused ''SURVIVORSHIP_BIAS'' else Ok ())"

text \<open>Whether the proposal passes, and the exposure to keep with it.\<close>

definition checkHoldoutReuse :: "string list \<Rightarrow> string list \<Rightarrow> bool \<Rightarrow> bool \<times> string list" where
  "checkHoldoutReuse peeked holdouts tweaked = (\<not> (tweaked \<and> filter (\<lambda>i. i \<in> set peeked) holdouts \<noteq> []), peeked)"

datatype lineage_segment = Segment_SAME | Segment_NEW

datatype calibration_state = Calibration_VALID | Calibration_UNKNOWN

definition segmentOnLineageDrift :: "string option \<Rightarrow> string option \<Rightarrow> lineage_segment \<times> calibration_state" where
  "segmentOnLineageDrift previous current =
     (let known = (\<lambda>x. case x of Some s \<Rightarrow> s | None \<Rightarrow> ''UNKNOWN''); prev = known previous; curr = known current
      in if prev = ''UNKNOWN'' \<or> curr = ''UNKNOWN'' then (Segment_NEW, Calibration_UNKNOWN)
         else if prev \<noteq> curr then (Segment_NEW, Calibration_VALID) else (Segment_SAME, Calibration_VALID))"

type_synonym pins = "(string \<times> int) list"

definition pin_count :: "string \<Rightarrow> pins \<Rightarrow> int" where
  "pin_count i c = (case map_of c i of Some n \<Rightarrow> n | None \<Rightarrow> 0)"

definition pin_acquire :: "string \<Rightarrow> pins \<Rightarrow> pins" where
  "pin_acquire i c = map_set i (pin_count i c + 1) c"

definition pin_release :: "string \<Rightarrow> pins \<Rightarrow> pins" where
  "pin_release i c = (let n = pin_count i c - 1 in if n \<le> 0 then filter (\<lambda>e. fst e \<noteq> i) c else map_set i n c)"

definition pinned :: "string \<Rightarrow> pins \<Rightarrow> bool" where
  "pinned i c \<longleftrightarrow> 0 < pin_count i c"

definition pin_cleanup :: "string list \<Rightarrow> pins \<Rightarrow> string list \<times> string list" where
  "pin_cleanup ids c = (filter (\<lambda>i. \<not> pinned i c) ids, filter (\<lambda>i. pinned i c) ids)"

definition verifyReplayHashes :: "(string \<times> string) list \<Rightarrow> (string \<Rightarrow> string option) \<Rightarrow> unit outcome" where
  "verifyReplayHashes records expected =
     (if list_all (\<lambda>(i, h). expected i = Some h) records then Ok () else Refused ''REPLAY_HASH_MISMATCH'')"

section \<open>The adaptive tuner\<close>

record parameter_envelope =
  en_id :: string
  en_version :: string
  en_ranges :: "(string \<times> jsnum \<times> jsnum) list"
  en_step :: jsnum
  en_pinned :: "string list"
  en_min_points :: jsnum

datatype state_author = AUTO_TUNER | OWNER_OVERRIDE | SYSTEM_BOOTSTRAP

record parameter_state =
  pst_id :: string
  pst_envelope :: string
  pst_version :: string
  pst_values :: "(string \<times> jsnum) list"
  pst_by :: state_author
  pst_provenance :: "string option"

datatype proposal_status = Proposal_PENDING | Proposal_ACCEPTED | Proposal_REJECTED | Proposal_SUPERSEDED

record adaptation_proposal =
  ap_id :: string
  ap_state :: string
  ap_envelope :: string
  ap_version :: string
  ap_current :: "(string \<times> jsnum) list"
  ap_proposed :: "(string \<times> jsnum) list"
  ap_status :: proposal_status

record tuner_config =
  tc_max_pending :: jsnum
  tc_significance :: bool
  tc_threshold :: jsnum
  tc_max_entries :: "jsnum option"

record observation =
  ob_name :: string
  ob_mean :: jsnum
  ob_count :: jsnum
  ob_p_value :: jsnum

definition clamp_between :: "jsnum \<Rightarrow> jsnum \<Rightarrow> jsnum \<Rightarrow> jsnum" where
  "clamp_between lo hi x = num_max lo (num_min hi x)"

text \<open>The value proposed for one observation, with the one it replaces.\<close>

definition propose_one :: "parameter_state \<Rightarrow> parameter_envelope \<Rightarrow> tuner_config \<Rightarrow> observation \<Rightarrow> (string \<times> jsnum \<times> jsnum) option" where
  "propose_one st env cfg ob =
     (case map_of (pst_values st) (ob_name ob) of
        None \<Rightarrow> None
      | Some current \<Rightarrow>
          if ob_name ob \<in> set (en_pinned env) \<or> num_lt (ob_count ob) (en_min_points env)
             \<or> tc_significance cfg \<and> num_lt (tc_threshold cfg) (ob_p_value ob) then None
          else (case map_of (en_ranges env) (ob_name ob) of
              None \<Rightarrow> None
            | Some (lo, hi) \<Rightarrow>
                let target = clamp_between lo hi (ob_mean ob); step = num_mul current (en_step env);
                    delta = clamp_between (num_neg step) step (num_sub target current)
                in if num_lt (num_abs delta) (fl (1 / 10 ^ 6)) then None
                   else Some (ob_name ob, current, clamp_between lo hi (num_add current delta))))"

definition merge_values :: "(string \<times> jsnum) list \<Rightarrow> (string \<times> jsnum) list \<Rightarrow> (string \<times> jsnum) list" where
  "merge_values old new = fold (\<lambda>(k, v) m. map_set k v m) new old"

definition proposeAdaptation ::
  "parameter_state \<Rightarrow> parameter_envelope \<Rightarrow> observation list \<Rightarrow> tuner_config \<Rightarrow> nat \<Rightarrow> string \<Rightarrow> string \<Rightarrow>
     (adaptation_proposal \<times> parameter_state) outcome" where
  "proposeAdaptation st env obs cfg pending pid sid =
     (if num_le (tc_max_pending cfg) (num_of_bigint (int pending)) then Refused ''TOO_MANY_PENDING''
      else if (case tc_max_entries cfg of Some m \<Rightarrow> num_lt m (num_of_bigint (int (length (pst_values st)))) | None \<Rightarrow> False)
        then Refused ''TOO_MANY_ENTRIES''
      else (case List.map_filter (propose_one st env cfg) obs of
          [] \<Rightarrow> Refused ''NO_VALID_PROPOSALS''
        | (name, current, proposed) # _ \<Rightarrow>
            Ok (\<lparr>ap_id = pid, ap_state = pst_id st, ap_envelope = en_id env, ap_version = en_version env, ap_current = [(name, current)],
                 ap_proposed = [(name, proposed)], ap_status = Proposal_PENDING\<rparr>,
                \<lparr>pst_id = sid, pst_envelope = en_id env, pst_version = en_version env,
                 pst_values = merge_values (pst_values st) [(name, proposed)], pst_by = AUTO_TUNER, pst_provenance = Some pid\<rparr>)))"

record audit_entry =
  ae_proposal :: string
  ae_name :: string
  ae_old :: jsnum
  ae_new :: jsnum
  ae_change :: jsnum

definition audit_of :: "adaptation_proposal \<Rightarrow> parameter_state \<Rightarrow> string \<times> jsnum \<Rightarrow> audit_entry" where
  "audit_of p st e = (case e of (name, new) \<Rightarrow>
     let old = or_num (first_some [map_of (ap_current p) name, map_of (pst_values st) name]) (Fin 0)
     in \<lparr>ae_proposal = ap_id p, ae_name = name, ae_old = old, ae_new = new,
         ae_change = (if old \<noteq> Fin 0 then num_div (num_sub new old) old else Fin 0)\<rparr>)"

definition applyAdaptation :: "adaptation_proposal \<Rightarrow> parameter_state \<Rightarrow> string \<Rightarrow> string + (parameter_state \<times> audit_entry list)" where
  "applyAdaptation p st sid =
     (if ap_status p \<noteq> Proposal_ACCEPTED then Inl ''cannot apply non-accepted proposal''
      else Inr (\<lparr>pst_id = sid, pst_envelope = pst_envelope st, pst_version = pst_version st,
                 pst_values = merge_values (pst_values st) (ap_proposed p), pst_by = AUTO_TUNER, pst_provenance = Some (ap_id p)\<rparr>,
                map (audit_of p st) (ap_proposed p)))"

definition bootstrapParameterState :: "parameter_envelope \<Rightarrow> string \<Rightarrow> parameter_state" where
  "bootstrapParameterState env sid =
     \<lparr>pst_id = sid, pst_envelope = en_id env, pst_version = en_version env,
      pst_values = map (\<lambda>(name, lo, hi). (name, num_div (num_add lo hi) (Fin 2))) (en_ranges env), pst_by = SYSTEM_BOOTSTRAP,
      pst_provenance = None\<rparr>"

definition createStandardEnvelope :: "risk_policy \<Rightarrow> parameter_envelope" where
  "createStandardEnvelope pol =
     \<lparr>en_id = ''env_'' @ policy_version pol, en_version = ''1.0.0'',
      en_ranges = [(''max_order_pct'', fl (1 / 1000), fl (1 / 100)), (''max_market_pct'', fl (5 / 1000), fl (5 / 100)),
        (''max_portfolio_pct'', fl (2 / 100), fl (2 / 10)), (''daily_loss_stop_pct'', fl (5 / 1000), fl (5 / 100)),
        (''drawdown_stop_pct'', fl (1 / 100), fl (15 / 100)), (''min_edge_after_cost'', fl (5 / 1000), fl (5 / 100)),
        (''book_max_age_ms'', Fin 500, Fin 5000), (''forecast_max_age_s'', Fin 300, Fin 3600), (''intent_ttl_s'', Fin 10, Fin 120),
        (''risk_permit_ttl_ms'', Fin 1000, Fin 10000), (''reconcile_interval_s'', Fin 5, Fin 60)],
      en_step = fl (1 / 10),
      en_pinned = [''capital_usd_cap'', ''max_open_orders'', ''max_slippage_abs'', ''clock_skew_max_ms'', ''metadata_max_age_s''],
      en_min_points = Fin 100\<rparr>"

section \<open>The experiment registry\<close>

text \<open>\<open>hashSpec\<close> of the normalized specification: 32-bit arithmetic, then the absolute value in hexadecimal.\<close>

definition hash_step :: "char \<Rightarrow> 32 word \<Rightarrow> 32 word" where
  "hash_step c h = push_bit 5 h - h + of_int (of_char c)"

function hex_str :: "int \<Rightarrow> string" where
  "hex_str n = (let d = ''0123456789abcdef'' ! nat (n mod 16) in if n < 16 then [d] else hex_str (n div 16) @ [d])"
  by pat_completeness auto
termination
  by (relation "measure nat") auto

declare hex_str.simps [simp del]

definition hashSpec :: "string \<Rightarrow> string" where
  "hashSpec normalized = ''sha_'' @ hex_str \<bar>sint (fold hash_step normalized 0)\<bar>"

datatype experiment_status = PREREGISTERED | LIVE_QUALIFIED | Experiment_REJECTED | ARCHIVED

record gate_result =
  gr_name :: string
  gr_passed :: bool
  gr_score :: jsnum
  gr_threshold :: jsnum

record gate_report =
  gp_all_passed :: bool
  gp_gates :: "gate_result list"

text \<open>What is registered, as the serialised texts the row keeps, and the row.\<close>

record experiment_spec =
  es_strategy :: string
  es_version :: string
  es_params :: string
  es_envelope :: string

record experiment_row =
  ex_id :: string
  ex_hash :: string
  ex_spec :: experiment_spec
  ex_status :: experiment_status
  ex_report :: "gate_report option"
  ex_created :: ms
  ex_updated :: ms

type_synonym experiments = "experiment_row list"

definition experiment_get :: "string \<Rightarrow> experiments \<Rightarrow> experiment_row option" where
  "experiment_get i t = row_of ex_id i t"

text \<open>\<open>INSERT\<close>: both the primary key and the specification hash are unique.\<close>

definition insert_experiment :: "experiment_row \<Rightarrow> experiments \<Rightarrow> string + experiments" where
  "insert_experiment r t =
     (if ex_id r \<in> ex_id ` set t \<or> ex_hash r \<in> ex_hash ` set t then Inl ''23505'' else Inr (t @ [r]))"

definition experiment_register :: "(experiment_spec \<Rightarrow> string) \<Rightarrow> string \<Rightarrow> ms \<Rightarrow> experiment_spec \<Rightarrow> (experiments, string) eff" where
  "experiment_register norm_of i now spec t =
     (if list_ex (\<lambda>r. ex_hash r = hashSpec (norm_of spec) \<and> ex_status r \<noteq> ARCHIVED) t
      then (Inl ''Experiment with same spec already exists'', t)
      else case insert_experiment \<lparr>ex_id = ''exp_'' @ i, ex_hash = hashSpec (norm_of spec), ex_spec = spec, ex_status = PREREGISTERED,
                 ex_report = None, ex_created = now, ex_updated = now\<rparr> t of
             Inl e \<Rightarrow> (Inl e, t) | Inr t' \<Rightarrow> (Inr (''exp_'' @ i), t'))"

definition verdict_of :: "gate_report \<Rightarrow> experiment_status" where
  "verdict_of g = (if gp_all_passed g then LIVE_QUALIFIED else Experiment_REJECTED)"

definition promote_stmt :: "string \<Rightarrow> gate_report \<Rightarrow> ms \<Rightarrow> experiments \<Rightarrow> experiments" where
  "promote_stmt i g now t =
     map (\<lambda>r. if ex_id r = i \<and> ex_status r = PREREGISTERED then r\<lparr>ex_status := verdict_of g, ex_report := Some g, ex_updated := now\<rparr> else r) t"

definition experiment_promote :: "string \<Rightarrow> gate_report \<Rightarrow> ms \<Rightarrow> (experiments, unit) eff" where
  "experiment_promote i g now t =
     (case experiment_get i t of
        None \<Rightarrow> (Inl ''Experiment not found'', t)
      | Some r \<Rightarrow>
          if ex_status r \<in> {LIVE_QUALIFIED, Experiment_REJECTED} then (Inl ''Cannot promote experiment in terminal state'', t)
          else let t' = promote_stmt i g now t in
            if list_ex (\<lambda>r. ex_id r = i \<and> ex_status r = verdict_of g) t' then (Inr (), t') else (Inl ''Failed to promote experiment'', t'))"

definition archive_stmt :: "string \<Rightarrow> ms \<Rightarrow> experiments \<Rightarrow> experiments" where
  "archive_stmt i now t = map (\<lambda>r. if ex_id r = i then r\<lparr>ex_status := ARCHIVED, ex_updated := now\<rparr> else r) t"

definition experiment_archive :: "string \<Rightarrow> ms \<Rightarrow> (experiments, unit) eff" where
  "experiment_archive i now t =
     (if experiment_get i t = None then (Inl ''Experiment not found'', t) else (Inr (), archive_stmt i now t))"

text \<open>What the statements of any number of concurrent operations do to the table, one at a time.\<close>

inductive experiment_step :: "experiments \<Rightarrow> experiments \<Rightarrow> bool" where
  inserted: "insert_experiment r t = Inr t' \<Longrightarrow> ex_status r = PREREGISTERED \<Longrightarrow> ex_report r = None \<Longrightarrow> experiment_step t t'"
| promoted: "experiment_step t (promote_stmt i g now t)"
| archived: "experiment_step t (archive_stmt i now t)"

inductive_cases experiment_stepE: "experiment_step t t'"

section \<open>Facts\<close>

text \<open>A pin counts: of \<open>n\<close> acquisitions and \<open>m < n\<close> releases the object stays pinned, and a cleanup keeps it.\<close>

lemma pin_count_acquire [simp]: "pin_count j (pin_acquire i c) = (if j = i then pin_count i c + 1 else pin_count j c)"
  by (simp add: pin_count_def pin_acquire_def map_of_map_set)

lemma map_of_filter_ne: "map_of (filter (\<lambda>e. fst e \<noteq> i) c) j = (if j = i then None else map_of c j)"
  by (induction c) auto

lemma pin_count_release [simp]: "pin_count j (pin_release i c) = (if j = i then max 0 (pin_count i c - 1) else pin_count j c)"
  by (auto simp: pin_count_def pin_release_def map_of_map_set map_of_filter_ne Let_def split: option.splits)

lemma pinned_while_held: "0 \<le> pin_count i c \<Longrightarrow> m < n \<Longrightarrow> pinned i ((pin_release i ^^ m) ((pin_acquire i ^^ n) c))"
proof -
  assume "0 \<le> pin_count i c" "m < n"
  have acq: "pin_count i ((pin_acquire i ^^ n) c) = pin_count i c + int n" by (induction n) simp_all
  have "pin_count i ((pin_release i ^^ m) d) = max 0 (pin_count i d - int m)" if "0 \<le> pin_count i d" for d
    using that by (induction m) auto
  with acq \<open>0 \<le> pin_count i c\<close> \<open>m < n\<close> show ?thesis by (simp add: pinned_def)
qed

lemma cleanup_deletes_unpinned: "i \<in> set (fst (pin_cleanup ids c)) \<longleftrightarrow> i \<in> set ids \<and> \<not> pinned i c"
  by (auto simp: pin_cleanup_def)

text \<open>A report that names only winners passes the denominator audit: ids left out are never missed.\<close>

lemma winners_only_passes: "universe \<noteq> [] \<Longrightarrow> set winners \<subseteq> set universe \<Longrightarrow> auditDenominator winners universe = Ok ()"
  by (auto simp: auditDenominator_def list_ex_iff)

text \<open>A hidden fingerprint never counts as the same backend.\<close>

lemma same_segment_iff:
  "fst (segmentOnLineageDrift a b) = Segment_SAME \<longleftrightarrow> (\<exists>s. a = Some s \<and> b = Some s \<and> s \<noteq> ''UNKNOWN'')"
  by (cases a; cases b) (auto simp: segmentOnLineageDrift_def Let_def)

text \<open>The tuner: a clamped value is within its bounds unless it is no number.\<close>

lemma clamp_between_range:
  assumes "num_le lo hi" and "x \<noteq> NaN"
  shows "num_le lo (clamp_between lo hi x) \<and> num_le (clamp_between lo hi x) hi"
  using assms by (cases lo; cases hi; cases x) (auto simp: clamp_between_def num_max_def num_min_def num_le_def)

lemma propose_one_spec:
  assumes "propose_one st env cfg ob = Some (name, current, proposed)"
  shows "name \<notin> set (en_pinned env) \<and> map_of (pst_values st) name = Some current \<and> (\<exists>lo hi x. map_of (en_ranges env) name = Some (lo, hi) \<and>
    proposed = clamp_between lo hi x)"
  using assms by (auto simp: propose_one_def Let_def split: option.splits if_splits)

text \<open>The step of a negative parameter points away from its target.\<close>

lemma negative_value_moves_away:
  "propose_one \<lparr>pst_id = s, pst_envelope = e, pst_version = v, pst_values = [(''x'', Fin (-1))], pst_by = SYSTEM_BOOTSTRAP, pst_provenance = None\<rparr>
     \<lparr>en_id = e, en_version = v, en_ranges = [(''x'', Fin (-2), Fin 2)], en_step = Fin (1 / 8), en_pinned = [], en_min_points = Fin 0\<rparr>
     \<lparr>tc_max_pending = Fin 1, tc_significance = False, tc_threshold = Fin 0, tc_max_entries = None\<rparr>
     \<lparr>ob_name = ''x'', ob_mean = Fin (-2), ob_count = Fin 1, ob_p_value = Fin 0\<rparr> = Some (''x'', Fin (-1), Fin (- 7 / 8))"
  by (simp add: propose_one_def clamp_between_def num_max_def num_min_def num_abs_def num_eval)

text \<open>Applying a proposal does not look at the state it was made for.\<close>

lemma apply_overwrites_newer_value:
  "ap_status p = Proposal_ACCEPTED \<Longrightarrow> ap_proposed p = [(name, v)] \<Longrightarrow>
     \<exists>st' es. applyAdaptation p st sid = Inr (st', es) \<and> map_of (pst_values st') name = Some v"
  by (simp add: applyAdaptation_def merge_values_def map_of_map_set)

text \<open>The hash is that of Java's strings: swapping \<open>Aa\<close> for \<open>BB\<close> anywhere keeps it.\<close>

lemma hash_collides: "hashSpec (pre @ ''Aa'' @ post) = hashSpec (pre @ ''BB'' @ post)"
proof -
  have "hash_step CHR ''a'' (hash_step CHR ''A'' h) = hash_step CHR ''B'' (hash_step CHR ''B'' h)" for h
    by (simp add: hash_step_def push_bit_eq_mult algebra_simps)
  then show ?thesis by (simp add: hashSpec_def)
qed

text \<open>The search for duplicates passes over archived rows, the unique column does not: an archived specification never returns.\<close>

lemma archived_spec_cannot_return:
  assumes "r \<in> set t" and "ex_hash r = hashSpec (norm_of spec)"
  shows "\<exists>e. experiment_register norm_of i now spec t = (Inl e, t)"
proof -
  have "hashSpec (norm_of spec) \<in> ex_hash ` set t" using assms by (metis imageI)
  then show ?thesis by (simp add: experiment_register_def insert_experiment_def)
qed

text \<open>The registry believes the summary of a report over its gates.\<close>

lemma failed_gate_promoted:
  "experiment_get i t = Some r \<Longrightarrow> ex_status r = PREREGISTERED \<Longrightarrow>
     \<exists>t'. experiment_promote i \<lparr>gp_all_passed = True, gp_gates = [\<lparr>gr_name = g, gr_passed = False, gr_score = x, gr_threshold = y\<rparr>]\<rparr> now t = (Inr (), t') \<and>
       (\<exists>r' \<in> set t'. ex_id r' = i \<and> ex_status r' = LIVE_QUALIFIED)"
proof -
  assume get: "experiment_get i t = Some r" and pre: "ex_status r = PREREGISTERED"
  let ?g = "\<lparr>gp_all_passed = True, gp_gates = [\<lparr>gr_name = g, gr_passed = False, gr_score = x, gr_threshold = y\<rparr>]\<rparr>"
  have "r \<in> set t" "ex_id r = i" using get row_of_Some [of ex_id i t r] by (auto simp: experiment_get_def)
  then have "r\<lparr>ex_status := LIVE_QUALIFIED, ex_report := Some ?g, ex_updated := now\<rparr> \<in> set (promote_stmt i ?g now t)"
    using pre by (force simp: promote_stmt_def verdict_of_def)
  then have "\<exists>r' \<in> set (promote_stmt i ?g now t). ex_id r' = i \<and> ex_status r' = LIVE_QUALIFIED"
    by (rule bexI [rotated]) (simp add: \<open>ex_id r = i\<close>)
  with get pre show ?thesis by (auto simp: experiment_promote_def verdict_of_def Let_def list_ex_iff)
qed

section \<open>The life of an experiment\<close>

definition same_experiment :: "experiment_row \<Rightarrow> experiment_row \<Rightarrow> bool" where
  "same_experiment r r' \<longleftrightarrow> ex_id r' = ex_id r \<and> ex_hash r' = ex_hash r \<and> ex_spec r' = ex_spec r \<and> ex_created r' = ex_created r \<and>
     (ex_status r \<noteq> PREREGISTERED \<longrightarrow> ex_report r' = ex_report r \<and> ex_status r' \<in> {ex_status r, ARCHIVED})"

lemma same_experiment_refl: "same_experiment r r"
  by (simp add: same_experiment_def)

lemma same_experiment_trans: "same_experiment a b \<Longrightarrow> same_experiment b c \<Longrightarrow> same_experiment a c"
  by (auto simp: same_experiment_def)

lemma step_keeps_rows: "experiment_step t t' \<Longrightarrow> r \<in> set t \<Longrightarrow> \<exists>r' \<in> set t'. same_experiment r r'"
proof -
  have mapped: "\<exists>r' \<in> set (map f t). same_experiment r r'" if "r \<in> set t" "same_experiment r (f r)" for f using that by auto
  assume "experiment_step t t'" and r: "r \<in> set t"
  then show ?thesis
    by (cases rule: experiment_step.cases)
      (auto simp: insert_experiment_def same_experiment_refl promote_stmt_def archive_stmt_def simp del: set_map split: if_splits
        intro!: mapped, auto simp: same_experiment_def)
qed

definition experiments_sound :: "experiments \<Rightarrow> bool" where
  "experiments_sound t \<longleftrightarrow> distinct (map ex_id t) \<and> distinct (map ex_hash t) \<and>
     (\<forall>r \<in> set t. ex_status r = LIVE_QUALIFIED \<longrightarrow> (\<exists>g. ex_report r = Some g \<and> gp_all_passed g))"

lemma step_keeps_sound: "experiment_step t t' \<Longrightarrow> experiments_sound t \<Longrightarrow> experiments_sound t'"
proof (elim experiment_stepE)
  fix i g now assume "t' = promote_stmt i g now t" and s: "experiments_sound t"
  moreover have "map ex_id (promote_stmt i g now t) = map ex_id t" "map ex_hash (promote_stmt i g now t) = map ex_hash t"
    by (simp_all add: promote_stmt_def)
  moreover have "\<forall>r \<in> set (promote_stmt i g now t). ex_status r = LIVE_QUALIFIED \<longrightarrow> (\<exists>g. ex_report r = Some g \<and> gp_all_passed g)"
    using s by (auto simp: experiments_sound_def promote_stmt_def verdict_of_def split: if_splits)
  ultimately show "experiments_sound t'" unfolding experiments_sound_def by metis
next
  fix i now assume "t' = archive_stmt i now t" and s: "experiments_sound t"
  moreover have "map ex_id (archive_stmt i now t) = map ex_id t" "map ex_hash (archive_stmt i now t) = map ex_hash t"
    by (simp_all add: archive_stmt_def)
  moreover have "\<forall>r \<in> set (archive_stmt i now t). ex_status r = LIVE_QUALIFIED \<longrightarrow> (\<exists>g. ex_report r = Some g \<and> gp_all_passed g)"
    using s by (auto simp: experiments_sound_def archive_stmt_def split: if_splits)
  ultimately show "experiments_sound t'" unfolding experiments_sound_def by metis
qed (auto simp: experiments_sound_def insert_experiment_def split: if_splits)

text \<open>The operations are sequences of such steps.\<close>

lemma operations_are_steps:
  "experiment_step\<^sup>*\<^sup>* t (snd (experiment_register norm_of i now spec t))"
  "experiment_step\<^sup>*\<^sup>* t (snd (experiment_promote i g now t))"
  "experiment_step\<^sup>*\<^sup>* t (snd (experiment_archive i now t))"
  by (auto simp: experiment_register_def experiment_promote_def experiment_archive_def Let_def split: sum.splits option.splits
      intro!: r_into_rtranclp experiment_step.intros)

section \<open>Properties\<close>

text \<open>C38. Preregistration is binding. From any table the registry can reach, after any further statements of concurrent operations,
  every experiment is still there with its identifier, hash, specification and creation time unchanged; once a verdict is
  recorded the report never changes and the status can only become archived; identifiers and hashes stay unique, and an
  experiment is qualified for live trading only with a report that says all gates passed.\<close>

theorem experiment_verdict_is_final:
  assumes start: "experiment_step\<^sup>*\<^sup>* [] t" and steps: "experiment_step\<^sup>*\<^sup>* t t'"
  shows "experiments_sound t' \<and> list_all (\<lambda>r. list_ex (same_experiment r) t') t"
proof
  have "experiment_step\<^sup>*\<^sup>* [] t'" using start steps by simp
  then show "experiments_sound t'" by (induction) (simp add: experiments_sound_def, blast intro: step_keeps_sound)
  have "\<exists>r' \<in> set t'. same_experiment r r'" if "r \<in> set t" for r
    using steps by (induction) (use that same_experiment_refl in blast, meson step_keeps_rows same_experiment_trans)
  then show "list_all (\<lambda>r. list_ex (same_experiment r) t') t" by (auto simp: list_all_iff list_ex_iff)
qed

definition sample_spec :: experiment_spec where
  "sample_spec = \<lparr>es_strategy = ''s'', es_version = ''1'', es_params = ''p'', es_envelope = ''e''\<rparr>"

definition sample_report :: gate_report where
  "sample_report = \<lparr>gp_all_passed = True, gp_gates = []\<rparr>"

definition sample_registered :: experiments where
  "sample_registered = snd (experiment_register es_params ''a'' 0 sample_spec [])"

text \<open>An experiment is registered, qualified and archived; its report stays.\<close>

lemma experiment_verdict_is_final_witness:
  "map ex_status (snd (experiment_promote ''exp_a'' sample_report 1 sample_registered)) = [LIVE_QUALIFIED] \<and>
   list_all (\<lambda>r. list_ex (same_experiment r) (snd (experiment_archive ''exp_a'' 2 (snd (experiment_promote ''exp_a'' sample_report 1 sample_registered)))))
     (snd (experiment_promote ''exp_a'' sample_report 1 sample_registered))"
proof -
  have reg: "experiment_step\<^sup>*\<^sup>* [] sample_registered" unfolding sample_registered_def by (rule operations_are_steps)
  have "experiment_step\<^sup>*\<^sup>* sample_registered (snd (experiment_promote ''exp_a'' sample_report 1 sample_registered))"
    by (rule operations_are_steps)
  with reg have start: "experiment_step\<^sup>*\<^sup>* [] (snd (experiment_promote ''exp_a'' sample_report 1 sample_registered))" by simp
  have "map ex_status (snd (experiment_promote ''exp_a'' sample_report 1 sample_registered)) = [LIVE_QUALIFIED]"
    by (simp add: sample_registered_def experiment_register_def experiment_promote_def experiment_get_def promote_stmt_def verdict_of_def
        insert_experiment_def sample_report_def)
  with experiment_verdict_is_final [OF start operations_are_steps(3) [of _ "''exp_a''" 2]] show ?thesis by simp
qed

text \<open>Whatever the tuner proposes stays in its envelope. A proposal changes one parameter that the state has, that is not
  pinned and that the envelope lists; the new value is within the envelope's range unless it is no number, the new state
  differs from the old in that parameter only, and the proposal is pending, never applied.\<close>

theorem adaptation_stays_in_envelope:
  assumes ok: "proposeAdaptation st env obs cfg pending pid sid = Ok (p, st')"
    and ranges: "list_all (\<lambda>(n, lo, hi). num_le lo hi) (en_ranges env)"
  shows "\<exists>name current v lo hi. ap_current p = [(name, current)] \<and> ap_proposed p = [(name, v)] \<and> ap_status p = Proposal_PENDING \<and>
    map_of (pst_values st) name = Some current \<and> name \<notin> set (en_pinned env) \<and> map_of (en_ranges env) name = Some (lo, hi) \<and>
    (v = NaN \<or> num_le lo v \<and> num_le v hi) \<and> map_of (pst_values st') = (map_of (pst_values st))(name \<mapsto> v)"
proof -
  obtain name current v rest where c: "List.map_filter (propose_one st env cfg) obs = (name, current, v) # rest"
    and p: "ap_current p = [(name, current)]" "ap_proposed p = [(name, v)]" "ap_status p = Proposal_PENDING"
    and s: "pst_values st' = merge_values (pst_values st) [(name, v)]"
    using ok by (auto simp: proposeAdaptation_def split: if_splits list.splits prod.splits)
  from c have "(name, current, v) \<in> set (List.map_filter (propose_one st env cfg) obs)" by simp
  then obtain ob where "propose_one st env cfg ob = Some (name, current, v)" by (auto simp: List.map_filter_def)
  from propose_one_spec [OF this] obtain lo hi x where o: "name \<notin> set (en_pinned env)" "map_of (pst_values st) name = Some current"
    "map_of (en_ranges env) name = Some (lo, hi)" "v = clamp_between lo hi x" by blast
  from o(3) ranges have "num_le lo hi" by (auto simp: list_all_iff dest: map_of_SomeD)
  with o(4) have "v = NaN \<or> num_le lo v \<and> num_le v hi"
    using clamp_between_range [of lo hi x] by (cases "x = NaN") (auto simp: clamp_between_def)
  with p s o show ?thesis by (auto simp: merge_values_def map_of_map_set)
qed

definition sample_tuned :: parameter_state where
  "sample_tuned = \<lparr>pst_id = ''s'', pst_envelope = ''e'', pst_version = ''1'', pst_values = [(''x'', Fin 1)], pst_by = SYSTEM_BOOTSTRAP,
     pst_provenance = None\<rparr>"

definition sample_envelope :: parameter_envelope where
  "sample_envelope = \<lparr>en_id = ''e'', en_version = ''1'', en_ranges = [(''x'', Fin 0, Fin 2)], en_step = Fin (1 / 8), en_pinned = [],
     en_min_points = Fin 0\<rparr>"

definition sample_tuner :: tuner_config where
  "sample_tuner = \<lparr>tc_max_pending = Fin 1, tc_significance = False, tc_threshold = Fin 0, tc_max_entries = None\<rparr>"

definition sample_mean :: observation where
  "sample_mean = \<lparr>ob_name = ''x'', ob_mean = Fin 4, ob_count = Fin 1, ob_p_value = Fin 0\<rparr>"

text \<open>An observed mean of four moves the value from one by one step.\<close>

lemma adaptation_stays_in_envelope_witness:
  "\<exists>p st'. proposeAdaptation sample_tuned sample_envelope [sample_mean] sample_tuner 0 ''p'' ''t'' = Ok (p, st') \<and>
     ap_proposed p = [(''x'', Fin (9 / 8))] \<and> map_of (pst_values st') = (map_of (pst_values sample_tuned))(''x'' \<mapsto> Fin (9 / 8))"
proof -
  have "propose_one sample_tuned sample_envelope sample_tuner sample_mean = Some (''x'', Fin 1, Fin (9 / 8))"
    by (simp add: propose_one_def sample_tuned_def sample_envelope_def sample_tuner_def sample_mean_def clamp_between_def num_max_def num_min_def
        num_abs_def num_eval)
  then obtain p st' where r: "proposeAdaptation sample_tuned sample_envelope [sample_mean] sample_tuner 0 ''p'' ''t'' = Ok (p, st')"
    and p: "ap_proposed p = [(''x'', Fin (9 / 8))]"
    by (simp add: proposeAdaptation_def sample_tuner_def map_filter_simps num_eval)
  from adaptation_stays_in_envelope [OF r] p r show ?thesis by (fastforce simp: sample_envelope_def)
qed

end
