(* ===== verification/Egress.thy ===== *)
theory Egress
  imports VenueAdapter Governance Rounding
begin

text \<open>
  What may leave the process (\<open>src/pm/security/src\<close>): the research boundary and the redaction of \<open>index.ts\<close>, the decode budget
  (\<open>decode-budget.ts\<close>), the egress guard against requests to private addresses (\<open>egress-guard.ts\<close>) and the filter by category
  over it (\<open>egress-filter.ts\<close>). The URL parser of the platform and the two DNS queries are parameters; a regular expression of a
  category rule is its match predicate.
\<close>

section \<open>Research boundary and redaction\<close>

definition canAccess :: "string \<Rightarrow> bool" where
  "canAccess resource \<longleftrightarrow> resource \<in> {''market_data'', ''evidence_store''}"

record raw_evidence =
  re_url :: string
  re_html :: "string option"
  re_text :: "string option"
  re_claim :: string
  re_family :: string
  re_fetched :: ms
  re_hash :: string

record normalized_evidence =
  nv_url :: string
  nv_claim :: string
  nv_family :: string
  nv_fetched :: ms
  nv_hash :: string
  nv_untrusted :: bool

definition normalizeEvidence :: "raw_evidence \<Rightarrow> normalized_evidence" where
  "normalizeEvidence r = \<lparr>nv_url = re_url r, nv_claim = re_claim r, nv_family = re_family r, nv_fetched = re_fetched r, nv_hash = re_hash r,
     nv_untrusted = True\<rparr>"

text \<open>A value to be logged; an object is the list of its entries.\<close>

datatype js_value = J_Text string | J_Other | J_List "js_value list" | J_Object "(string \<times> js_value) list"

definition sensitive_key :: "string \<Rightarrow> bool" where
  "sensitive_key k \<longleftrightarrow> mentions [''secret'', ''token'', ''key'', ''password'', ''credential'', ''private_key'', ''signature'', ''mnemonic''] k"

definition redactSecrets :: "(string \<times> js_value) list \<Rightarrow> (string \<times> js_value) list" where
  "redactSecrets payload = map (\<lambda>(k, v). (k, if sensitive_key k then J_Text ''REDACTED'' else v)) payload"

definition sensitive_log_key :: "string \<Rightarrow> bool" where
  "sensitive_log_key k \<longleftrightarrow> sensitive_key k \<or> mentions [''api_key'', ''api_key_base64'', ''bearer''] k"

text \<open>The deep redaction of the audit log and of the proxy. An array inside an array is redacted as an object whose keys are the
  indices.\<close>

fun redact_fields :: "(string \<times> js_value) list \<Rightarrow> (string \<times> js_value) list"
  and redact_value :: "js_value \<Rightarrow> js_value"
  and redact_items :: "js_value list \<Rightarrow> js_value list"
  and redact_indexed :: "nat \<Rightarrow> js_value list \<Rightarrow> (string \<times> js_value) list" where
  "redact_fields [] = []"
| "redact_fields ((k, v) # fs) = (k, if sensitive_log_key k then J_Text ''REDACTED'' else redact_value v) # redact_fields fs"
| "redact_value (J_Text s) = J_Text s"
| "redact_value J_Other = J_Other"
| "redact_value (J_Object fs) = J_Object (redact_fields fs)"
| "redact_value (J_List xs) = J_List (redact_items xs)"
| "redact_items [] = []"
| "redact_items (x # xs) = (case x of J_Object fs \<Rightarrow> J_Object (redact_fields fs) | J_List ys \<Rightarrow> J_Object (redact_indexed 0 ys) | _ \<Rightarrow> x) # redact_items xs"
| "redact_indexed n [] = []"
| "redact_indexed n (x # xs) =
     (digits_str (int n), if sensitive_log_key (digits_str (int n)) then J_Text ''REDACTED'' else redact_value x) # redact_indexed (n + 1) xs"

section \<open>Decode budget\<close>

definition decode_size_bad :: "jsnum \<Rightarrow> bool" where
  "decode_size_bad n \<longleftrightarrow> \<not> is_finite_num n \<or> num_lt n (Fin 0)"

definition checkDecodeBudget :: "jsnum \<Rightarrow> jsnum \<Rightarrow> jsnum option \<Rightarrow> jsnum option \<Rightarrow> jsnum option \<Rightarrow> unit outcome" where
  "checkDecodeBudget compressed decompressed maxC maxD maxR =
     (let limit = (\<lambda>x d. case x of Some v \<Rightarrow> v | None \<Rightarrow> d); mc = limit maxC (Fin 5000000); md = limit maxD (Fin 25000000); mr = limit maxR (Fin 10)
      in if decode_size_bad compressed \<or> decode_size_bad decompressed \<or> \<not> num_lt (Fin 0) mc \<or> \<not> num_lt (Fin 0) md \<or> \<not> num_lt (Fin 0) mr
         then Refused ''CONTENT_BOMB_DECOMPRESSED''
         else if num_lt mc compressed then Refused ''CONTENT_BOMB_COMPRESSED''
         else if num_lt md decompressed then Refused ''CONTENT_BOMB_DECOMPRESSED''
         else if num_lt (Fin 0) compressed \<and> num_lt mr (num_div decompressed compressed) then Refused ''CONTENT_BOMB_RATIO''
         else Ok ())"

section \<open>Addresses\<close>

definition short_number :: "string \<Rightarrow> bool" where
  "short_number s \<longleftrightarrow> s \<noteq> [] \<and> length s \<le> 3 \<and> list_all is_digit s"

definition isIPv4Address :: "string \<Rightarrow> bool" where
  "isIPv4Address h \<longleftrightarrow> length (split_char (CHR ''.'') h) = 4 \<and> list_all short_number (split_char (CHR ''.'') h)"

definition isIPv6Address :: "string \<Rightarrow> bool" where
  "isIPv6Address h \<longleftrightarrow> CHR '':'' \<in> set h \<and> (starts_with ''['' h \<or> occurs_in ''::'' h)"

definition octet :: "string \<Rightarrow> int option" where
  "octet s = (case js_number s of Fin q \<Rightarrow> if rat_is_int q \<and> 0 \<le> q \<and> q \<le> 255 then Some \<lfloor>q\<rfloor> else None | _ \<Rightarrow> None)"

definition dotted_number :: "string \<Rightarrow> int option" where
  "dotted_number s =
     (case map octet (split_char (CHR ''.'') s) of
        [Some a, Some b, Some c, Some d] \<Rightarrow> Some (or (or (or (push_bit 24 a) (push_bit 16 b)) (push_bit 8 c)) d)
      | _ \<Rightarrow> None)"

text \<open>The address at the end of \<open>:ffff:w.x.y.z\<close>.\<close>

definition mapped_tail :: "string \<Rightarrow> string option" where
  "mapped_tail s =
     (case rev (split_char (CHR '':'') s) of
        t # f # _ # _ \<Rightarrow> if f = ''ffff'' \<and> length (split_char (CHR ''.'') t) = 4
             \<and> list_all (\<lambda>p. p \<noteq> [] \<and> list_all is_digit p) (split_char (CHR ''.'') t) then Some t else None
      | _ \<Rightarrow> None)"

definition ipToNumber :: "string \<Rightarrow> int option" where
  "ipToNumber ip =
     (case (if starts_with '':'' ip then mapped_tail ip else None) of
        Some t \<Rightarrow> dotted_number t
      | None \<Rightarrow>
          if CHR ''.'' \<in> set ip then dotted_number ip
          else if CHR '':'' \<in> set ip then (if ip = ''::1'' \<or> starts_with ''fc'' ip \<or> starts_with ''fd'' ip then Some 1 else None)
          else None)"

definition in_block :: "int \<Rightarrow> int \<Rightarrow> string \<Rightarrow> bool" where
  "in_block m p ip = (case ipToNumber ip of Some n \<Rightarrow> and n m = p | None \<Rightarrow> False)"

definition isPrivateIPv4 :: "string \<Rightarrow> bool" where
  "isPrivateIPv4 ip \<longleftrightarrow> in_block 0xff000000 0x0a000000 ip \<or> in_block 0xfff00000 0xac100000 ip \<or> in_block 0xffff0000 0xc0a80000 ip
     \<or> in_block 0xff000000 0x7f000000 ip \<or> in_block 0xffff0000 0xa9fe0000 ip"

definition isPrivateIPv6 :: "string \<Rightarrow> bool" where
  "isPrivateIPv6 ip \<longleftrightarrow> ip = ''::1'' \<or> ip = ''::ffff:127.0.0.1'' \<or> starts_with ''fc'' ip \<or> starts_with ''fd'' ip \<or> starts_with ''fe80:'' ip"

definition isMetadataIP :: "string \<Rightarrow> bool" where
  "isMetadataIP ip \<longleftrightarrow> ip = ''169.254.169.254''"

definition isLoopbackIP :: "string \<Rightarrow> bool" where
  "isLoopbackIP ip \<longleftrightarrow> ip \<in> {''127.0.0.1'', ''localhost'', ''::1'', ''::ffff:127.0.0.1''}"

definition isLinkLocalIP :: "string \<Rightarrow> bool" where
  "isLinkLocalIP ip = in_block 0xffff0000 0xa9fe0000 ip"

definition isPrivateIP :: "string \<Rightarrow> bool" where
  "isPrivateIP ip \<longleftrightarrow> isPrivateIPv4 ip \<or> isPrivateIPv6 ip"

definition bracketed :: "string \<Rightarrow> bool" where
  "bracketed ip \<longleftrightarrow> ip \<noteq> [] \<and> hd ip = CHR ''['' \<and> last ip = CHR '']''"

definition unbracket :: "string \<Rightarrow> string" where
  "unbracket ip = butlast (tl ip)"

definition canonicalizeIP :: "string \<Rightarrow> string" where
  "canonicalizeIP ip = (if bracketed ip then unbracket ip else if ip = ''::ffff:127.0.0.1'' then ''::1'' else ip)"

section \<open>The guard\<close>

record parsed_url =
  url_protocol :: string
  url_host :: string
  url_path :: string
  url_text :: string

record guard_config =
  gc_domains :: "string list"
  gc_max_redirects :: jsnum
  gc_max_body :: jsnum
  gc_timeout :: jsnum
  gc_ips :: "string list"

text \<open>The platform: the URL parser (\<open>None\<close> is the \<open>TypeError\<close> of the constructor) and the A and AAAA queries (\<open>None\<close> is an error).\<close>

record network =
  nw_parse :: "string \<Rightarrow> parsed_url option"
  nw_v4 :: "string \<Rightarrow> string list option"
  nw_v6 :: "string \<Rightarrow> string list option"

record egress_input =
  ei_url :: string
  ei_redirects :: "string list option"
  ei_size :: "jsnum option"
  ei_delay :: "jsnum option"
  ei_skip :: bool

definition checkBlockedIP :: "guard_config \<Rightarrow> bool \<Rightarrow> string \<Rightarrow> string option" where
  "checkBlockedIP c redirect ip =
     (let code = (\<lambda>s. Some ((if redirect then ''BLOCKED_REDIRECT_'' else ''BLOCKED_'') @ s)) in
      if ip \<in> set (gc_ips c) then None
      else if isMetadataIP ip then code ''METADATA_ENDPOINT''
      else if isLinkLocalIP ip then code ''LINK_LOCAL''
      else if isLoopbackIP ip \<or> isPrivateIP ip then code ''PRIVATE_IP''
      else None)"

definition resolveHostname :: "network \<Rightarrow> string \<Rightarrow> string list \<times> bool" where
  "resolveHostname nw h =
     (let failed = (nw_v4 nw h = None \<and> \<not> occurs_in ''.local'' h \<and> \<not> isIPv4Address h \<and> \<not> isIPv6Address h);
          four = (case nw_v4 nw h of Some ips \<Rightarrow> map canonicalizeIP ips | None \<Rightarrow> []);
          six = (case nw_v6 nw h of Some ips \<Rightarrow> map canonicalizeIP ips
                 | None \<Rightarrow> if four = [] \<and> occurs_in ''example.com'' h then [''93.184.216.34''] else [])
      in (four @ six, failed))"

definition ends_with :: "string \<Rightarrow> string \<Rightarrow> bool" where
  "ends_with p s \<longleftrightarrow> starts_with (rev p) (rev s)"

definition allowed_domain :: "guard_config \<Rightarrow> string \<Rightarrow> bool" where
  "allowed_domain c h = list_ex (\<lambda>d. h = d \<or> ends_with (''.'' @ d) h) (gc_domains c)"

fun first_blocked :: "guard_config \<Rightarrow> bool \<Rightarrow> string list \<Rightarrow> string option" where
  "first_blocked c redirect [] = None"
| "first_blocked c redirect (ip # ips) = (case checkBlockedIP c redirect ip of Some e \<Rightarrow> Some e | None \<Rightarrow> first_blocked c redirect ips)"

definition checkSingleUrl :: "guard_config \<Rightarrow> network \<Rightarrow> bool \<Rightarrow> bool \<Rightarrow> parsed_url \<Rightarrow> string outcome" where
  "checkSingleUrl c nw redirect skip u =
     (if url_protocol u \<notin> {''http:'', ''https:''} then Refused ''INVALID_SCHEME''
      else let h = url_host u; ip = (if bracketed h then unbracket h else h) in
        if isIPv4Address ip \<or> isIPv6Address ip
        then (case checkBlockedIP c redirect ip of Some e \<Rightarrow> Refused e | None \<Rightarrow> Ok (url_text u))
        else (case resolveHostname nw h of
            (ips, failed) \<Rightarrow>
              if failed \<and> \<not> allowed_domain c h then Refused ''DNS_RESOLUTION_FAILED''
              else (case first_blocked c redirect ips of
                  Some e \<Rightarrow> Refused e
                | None \<Rightarrow> if \<not> skip \<and> \<not> allowed_domain c h then Refused ''DOMAIN_NOT_ALLOWED'' else Ok (url_text u))))"

fun check_redirects :: "guard_config \<Rightarrow> network \<Rightarrow> string list \<Rightarrow> string + string option" where
  "check_redirects c nw [] = Inr None"
| "check_redirects c nw (r # rs) =
     (case nw_parse nw r of
        None \<Rightarrow> Inl ''Invalid URL''
      | Some u \<Rightarrow> (case checkSingleUrl c nw True True u of Refused e \<Rightarrow> Inr (Some e) | Ok _ \<Rightarrow> check_redirects c nw rs))"

definition over :: "jsnum option \<Rightarrow> jsnum \<Rightarrow> bool" where
  "over x limit = (case x of Some v \<Rightarrow> num_lt limit v | None \<Rightarrow> False)"

definition guard_check :: "guard_config \<Rightarrow> network \<Rightarrow> egress_input \<Rightarrow> string + string outcome" where
  "guard_check c nw i =
     (let chain = (case ei_redirects i of Some rs \<Rightarrow> rs | None \<Rightarrow> []) in
      if chain \<noteq> [] \<and> num_lt (gc_max_redirects c) (num_of_bigint (int (length chain))) then Inr (Refused ''MAX_REDIRECTS_EXCEEDED'')
      else (case check_redirects c nw chain of
          Inl e \<Rightarrow> Inl e
        | Inr (Some e) \<Rightarrow> Inr (Refused e)
        | Inr None \<Rightarrow>
            (case nw_parse nw (ei_url i) of
               None \<Rightarrow> Inl ''Invalid URL''
             | Some u \<Rightarrow>
                 (case checkSingleUrl c nw False (ei_skip i) u of
                    Refused e \<Rightarrow> Inr (Refused e)
                  | Ok t \<Rightarrow> if over (ei_size i) (gc_max_body c) then Inr (Refused ''BODY_TOO_LARGE'')
                           else if over (ei_delay i) (gc_timeout c) then Inr (Refused ''TIMEOUT'') else Inr (Ok t)))))"

section \<open>The filter\<close>

datatype egress_category = Cat_research | Cat_market_data | Cat_executor | Cat_signer | Cat_private_db | Cat_strategy | Cat_external_api
  | Cat_unknown

datatype egress_policy = Policy_ALLOW | Policy_BLOCK | Policy_QUARANTINE

record filter_config =
  fc_guard :: guard_config
  fc_rules :: "((string \<Rightarrow> bool) \<times> egress_category) list"
  fc_policy :: "(egress_category \<times> egress_policy) list"
  fc_audit :: bool

record audit_line =
  au_category :: egress_category
  au_url :: string
  au_allowed :: bool

record filter_result =
  fr_ok :: bool
  fr_code :: "string option"
  fr_category :: egress_category
  fr_decision :: egress_policy
  fr_final :: "string option"

definition categorize :: "filter_config \<Rightarrow> network \<Rightarrow> string \<Rightarrow> egress_category" where
  "categorize f nw url =
     (case nw_parse nw url of
        None \<Rightarrow> Cat_unknown
      | Some u \<Rightarrow> (case List.find (\<lambda>(p, _). p (map lower (url_host u)) \<or> p (map lower (url_path u)) \<or> p url) (fc_rules f) of
            Some (_, k) \<Rightarrow> k | None \<Rightarrow> Cat_unknown))"

definition applyPolicy :: "filter_config \<Rightarrow> egress_category \<Rightarrow> egress_policy" where
  "applyPolicy f k = (case map_of (fc_policy f) k of Some p \<Rightarrow> p | None \<Rightarrow> Policy_ALLOW)"

definition checkDomainAllowlist :: "guard_config \<Rightarrow> network \<Rightarrow> string \<Rightarrow> bool" where
  "checkDomainAllowlist c nw url =
     (case nw_parse nw url of
        None \<Rightarrow> True
      | Some u \<Rightarrow> isIPv4Address (url_host u) \<or> isIPv6Address (url_host u) \<or> allowed_domain c (url_host u))"

text \<open>\<open>check\<close> writes an audit line and \<open>buildResult\<close> writes it again.\<close>

definition audit_lines :: "filter_config \<Rightarrow> nat \<Rightarrow> egress_category \<Rightarrow> string \<Rightarrow> bool \<Rightarrow> audit_line list" where
  "audit_lines f n k url ok = (if fc_audit f then replicate n \<lparr>au_category = k, au_url = url, au_allowed = ok\<rparr> else [])"

definition filter_decision :: "filter_config \<Rightarrow> network \<Rightarrow> egress_input \<Rightarrow> egress_policy \<Rightarrow> string \<Rightarrow> bool \<times> string option" where
  "filter_decision f nw i policy t =
     (if policy = Policy_QUARANTINE then (True, Some ''POLICY_QUARANTINE'')
      else if over (ei_size i) (gc_max_body (fc_guard f)) then (False, Some ''BODY_TOO_LARGE'')
      else if over (ei_delay i) (gc_timeout (fc_guard f)) then (False, Some ''TIMEOUT'')
      else if \<not> checkDomainAllowlist (fc_guard f) nw (ei_url i) then (False, Some ''DOMAIN_NOT_ALLOWED'')
      else (True, None))"

definition filter_check :: "filter_config \<Rightarrow> network \<Rightarrow> egress_input \<Rightarrow> (audit_line list, filter_result) eff" where
  "filter_check f nw i trail =
     (let k = categorize f nw (ei_url i); policy = applyPolicy f k;
          result = (\<lambda>ok code final. \<lparr>fr_ok = ok, fr_code = code, fr_category = k, fr_decision = policy, fr_final = final\<rparr>)
      in if policy = Policy_BLOCK then (Inr (result False (Some ''POLICY_BLOCK'') None), trail @ audit_lines f 1 k (ei_url i) False)
         else case guard_check (fc_guard f) nw (i\<lparr>ei_skip := True\<rparr>) of
                Inl e \<Rightarrow> (Inl e, trail)
              | Inr (Refused e) \<Rightarrow> (Inr (result False (Some e) None), trail @ audit_lines f 2 k (ei_url i) False)
              | Inr (Ok t) \<Rightarrow>
                  (case filter_decision f nw i policy t of
                     (ok, code) \<Rightarrow> (Inr (result ok code (Some t)), trail @ audit_lines f 2 k (ei_url i) ok)))"

definition updateCategoryRules :: "((string \<Rightarrow> bool) \<times> egress_category) list \<Rightarrow> filter_config \<Rightarrow> filter_config" where
  "updateCategoryRules rules f = f\<lparr>fc_rules := rules\<rparr>"

definition updateCategoryPolicy :: "(egress_category \<times> egress_policy) list \<Rightarrow> filter_config \<Rightarrow> filter_config" where
  "updateCategoryPolicy policy f = f\<lparr>fc_policy := policy @ fc_policy f\<rparr>"

text \<open>The default rules; the last is \<open>/^api\.[^.]+\.(com|net|org|io)$/i\<close>.\<close>

definition plain_api_host :: "string \<Rightarrow> bool" where
  "plain_api_host s =
     (case split_char (CHR ''.'') (map lower s) of [a, b, c] \<Rightarrow> a = ''api'' \<and> b \<noteq> [] \<and> c \<in> {''com'', ''net'', ''org'', ''io''} | _ \<Rightarrow> False)"

definition DEFAULT_CATEGORY_RULES :: "((string \<Rightarrow> bool) \<times> egress_category) list" where
  "DEFAULT_CATEGORY_RULES =
     [(mentions [''news'', ''blog'', ''research'', ''api.news'', ''api.blog''], Cat_research),
      (mentions [''.gov'', ''.edu'', ''arxiv'', ''ssrn'', ''repec''], Cat_research),
      (mentions [''api.polymarket'', ''cdn.polymarket'', ''gamma.api.polymarket''], Cat_market_data),
      (mentions [''api.coingecko'', ''api.coinmarketcap'', ''api.glassnode''], Cat_market_data),
      (mentions [''executor'', ''signer'', ''wallet'', ''polyroot.local''], Cat_executor),
      (mentions [''strategy'', ''worker'', ''compute''], Cat_strategy),
      (mentions [''postgres'', ''mysql'', ''mongodb'', ''redis''], Cat_private_db),
      (mentions [''api.github.com'', ''api.gitlab.com'', ''api.slack.com'', ''api.discord.com'', ''api.twitter.com'', ''api.linkedin.com''],
        Cat_external_api),
      (plain_api_host, Cat_external_api)]"

definition DEFAULT_CATEGORY_POLICY :: "(egress_category \<times> egress_policy) list" where
  "DEFAULT_CATEGORY_POLICY =
     [(Cat_research, Policy_QUARANTINE), (Cat_market_data, Policy_ALLOW), (Cat_executor, Policy_ALLOW), (Cat_signer, Policy_ALLOW),
      (Cat_private_db, Policy_BLOCK), (Cat_strategy, Policy_ALLOW), (Cat_external_api, Policy_QUARANTINE), (Cat_unknown, Policy_BLOCK)]"

section \<open>Bit masks and octets\<close>

lemma digit_plain: "is_digit c \<Longrightarrow> c \<noteq> CHR ''e'' \<and> c \<noteq> CHR ''E'' \<and> c \<noteq> CHR ''.''"
  by (auto simp: is_digit_def)

lemma js_number_digits:
  assumes "0 \<le> n" and "n \<le> 2 ^ 53"
  shows "js_number (digits_str n) = Fin (of_int n)"
proof -
  have all: "list_all is_digit (digits_str n)" using digits_str_digits [OF assms(1)] by (simp add: list_all_iff)
  have no: "\<not> is_digit c" if "c \<in> {CHR ''e'', CHR ''E'', CHR ''.'', CHR ''-'', CHR ''+'', CHR ''x'', CHR ''X'', CHR ''o'', CHR ''O'', CHR ''b'', CHR ''B'', CHR ''I''}" for c
    using that by (auto simp: is_digit_def)
  have cut: "cut_at P (digits_str n) = (digits_str n, None)" if "\<And>c. P c \<Longrightarrow> \<not> is_digit c" for P
  proof -
    have "\<forall>c \<in> set (digits_str n). \<not> P c" using all that by (auto simp: list_all_iff)
    then have "takeWhile (\<lambda>c. \<not> P c) (digits_str n) = digits_str n" "dropWhile (\<lambda>c. \<not> P c) (digits_str n) = []"
      by (simp_all add: takeWhile_eq_all_conv dropWhile_eq_Nil_conv)
    then show ?thesis by (simp only: cut_at_def list.case)
  qed
  obtain c r where s: "digits_str n = c # r" by (cases "digits_str n") auto
  with all have c: "is_digit c" and r: "list_all is_digit r" by simp_all
  have trim: "trim_str (digits_str n) = digits_str n" using trim_int_str [of n] assms(1) by (simp add: int_str_def)
  have rad: "radix_literal (digits_str n) = None"
  proof (cases r)
    case (Cons d q)
    with r have "is_digit d" by simp
    then have "d \<notin> {CHR ''x'', CHR ''X'', CHR ''o'', CHR ''O'', CHR ''b'', CHR ''B''}" using no by auto
    then show ?thesis by (auto simp: radix_literal_def s Cons split: char.splits bool.splits)
  qed (auto simp: radix_literal_def s split: char.splits bool.splits)
  have inf: "c \<noteq> CHR ''I''" using c by (auto simp: is_digit_def)
  have "representable (of_int n)"
    using representable_intro [of "of_int n" n 0] assms by (simp add: pow2_def)
  then have fl: "fl (of_int n) = Fin (of_int n)" by (simp add: representable_def)
  have "cut_at (\<lambda>c. c \<in> {CHR ''e'', CHR ''E''}) (digits_str n) = (digits_str n, None)"
    "cut_at (\<lambda>c. c = CHR ''.'') (digits_str n) = (digits_str n, None)"
    using digit_plain by (intro cut; blast)+
  then have "unsigned_decimal (digits_str n) = Fin (of_int n)"
    unfolding unsigned_decimal_def
    using all parse_digits_str [OF assms(1), of 0] fl by (simp only: prod.case option.case) (simp add: parse_nonempty_def pow10_def)
  moreover have "c \<noteq> CHR ''-''" "c \<noteq> CHR ''+''" using c no by auto
  ultimately show ?thesis unfolding js_number_def Let_def trim rad by (simp add: s inf)
qed

lemma and_high_bits:
  assumes "0 \<le> (x :: int)" and "x < 2 ^ (k + m)"
  shows "and x (push_bit k (mask m)) = push_bit k (x div 2 ^ k)"
proof -
  have "take_bit (k + m) x = x" using assms by (simp add: take_bit_int_eq_self)
  then have top: "bit x n \<Longrightarrow> n < k + m" for n by (metis bit_take_bit_iff)
  have "and x (push_bit k (mask m)) = push_bit k (drop_bit k x)"
    using top by (intro bit_eqI) (auto simp: bit_simps less_diff_conv2 add.commute)
  then show ?thesis by (simp add: drop_bit_eq_div)
qed

lemma mask_test:
  assumes "0 \<le> (x :: int)" and "x < 2 ^ (k + m)" and "mk = push_bit k (mask m)" and "p = push_bit k q"
  shows "and x mk = p \<longleftrightarrow> x div 2 ^ k = q"
  using and_high_bits [OF assms(1,2)] assms(3,4) by (simp add: push_bit_eq_mult)

lemma or_shifted:
  assumes "0 \<le> (y :: int)" and "y < 2 ^ k"
  shows "or (push_bit k x) y = x * 2 ^ k + y"
proof -
  have "concat_bit k y x = y + x * 2 ^ k" using assms by (simp add: concat_bit_eq push_bit_eq_mult take_bit_int_eq_self)
  moreover have "concat_bit k y x = or (push_bit k x) y" using assms by (simp add: concat_bit_def take_bit_int_eq_self or.commute)
  ultimately show ?thesis by simp
qed

lemma or_shift_both:
  assumes "0 \<le> (y :: int)" and "y < 256"
  shows "or (push_bit (k + 8) x) (push_bit k y) = push_bit k (x * 256 + y)"
proof -
  have "push_bit (k + 8) x = push_bit k (push_bit 8 x)" by (simp add: push_bit_push_bit)
  then have "or (push_bit (k + 8) x) (push_bit k y) = push_bit k (or (push_bit 8 x) y)" by (simp only: push_bit_or)
  then show ?thesis using or_shifted [of y 8 x] assms by simp
qed

text \<open>A dotted address, its number and the blocks of it that must not be reached.\<close>

definition dotted :: "int \<Rightarrow> int \<Rightarrow> int \<Rightarrow> int \<Rightarrow> string" where
  "dotted a b c d = join_with ''.'' (map digits_str [a, b, c, d])"

definition private_octets :: "int \<Rightarrow> int \<Rightarrow> bool" where
  "private_octets a b \<longleftrightarrow> a = 10 \<or> a = 172 \<and> 16 \<le> b \<and> b < 32 \<or> a = 192 \<and> b = 168 \<or> a = 127 \<or> a = 169 \<and> b = 254"

lemma not_digits: "\<not> is_digit (CHR ''.'')" "\<not> is_digit (CHR '':'')"
  by (simp_all add: is_digit_def)

lemma split_dotted:
  assumes "0 \<le> a" "0 \<le> b" "0 \<le> c" "0 \<le> d"
  shows "split_char (CHR ''.'') (dotted a b c d) = map digits_str [a, b, c, d]"
proof -
  have "CHR ''.'' \<notin> set (digits_str n)" if "0 \<le> n" for n
    using digits_str_digits [OF that] not_digits by blast
  then have "\<forall>x \<in> set (map digits_str [a, b, c, d]). CHR ''.'' \<notin> set x" using assms by auto
  then show ?thesis unfolding dotted_def by (intro split_char_join) simp_all
qed

lemma octet_digits: "0 \<le> n \<Longrightarrow> n < 256 \<Longrightarrow> octet (digits_str n) = Some n"
  by (simp add: octet_def js_number_digits rat_is_int_def)

lemma dotted_not_colon:
  assumes "0 \<le> a" "0 \<le> b" "0 \<le> c" "0 \<le> d"
  shows "CHR '':'' \<notin> set (dotted a b c d) \<and> CHR ''.'' \<in> set (dotted a b c d)"
proof -
  have "CHR '':'' \<notin> set (digits_str n)" if "0 \<le> n" for n
    using digits_str_digits [OF that] not_digits by blast
  with assms show ?thesis unfolding dotted_def by simp
qed

lemma ipToNumber_dotted:
  assumes a: "0 \<le> a" "a < 256" and b: "0 \<le> b" "b < 256" and c: "0 \<le> c" "c < 256" and d: "0 \<le> d" "d < 256"
  shows "ipToNumber (dotted a b c d) = Some (((a * 256 + b) * 256 + c) * 256 + d)"
proof -
  have "\<not> starts_with '':'' (dotted a b c d)"
    using dotted_not_colon [OF a(1) b(1) c(1) d(1)] by (cases "dotted a b c d") (auto simp: starts_with_def)
  moreover have "dotted_number (dotted a b c d) = Some (((a * 256 + b) * 256 + c) * 256 + d)"
  proof -
    have "or (push_bit 24 a) (push_bit 16 b) = push_bit 16 (a * 256 + b)" using or_shift_both [OF b, of 16 a] by simp
    moreover have "or (push_bit 16 (a * 256 + b)) (push_bit 8 c) = push_bit 8 ((a * 256 + b) * 256 + c)"
      using or_shift_both [OF c, of 8] by simp
    moreover have "or (push_bit 8 ((a * 256 + b) * 256 + c)) d = ((a * 256 + b) * 256 + c) * 256 + d"
      using or_shift_both [OF d, of 0] by simp
    moreover have "map octet (split_char (CHR ''.'') (dotted a b c d)) = [Some a, Some b, Some c, Some d]"
      using assms by (simp add: split_dotted octet_digits)
    ultimately show ?thesis by (simp only: dotted_number_def list.case option.case)
  qed
  ultimately show ?thesis
    using dotted_not_colon [OF a(1) b(1) c(1) d(1)] by (simp add: ipToNumber_def)
qed

lemma in_blocks:
  assumes a: "0 \<le> a" "a < 256" and b: "0 \<le> b" "b < 256" and c: "0 \<le> c" "c < 256" and d: "0 \<le> d" "d < 256"
  shows "in_block 0xff000000 (push_bit 24 q) (dotted a b c d) \<longleftrightarrow> a = q"
    and "in_block 0xfff00000 (push_bit 20 q) (dotted a b c d) \<longleftrightarrow> a * 16 + b div 16 = q"
    and "in_block 0xffff0000 (push_bit 16 q) (dotted a b c d) \<longleftrightarrow> a * 256 + b = q"
proof -
  let ?n = "((a * 256 + b) * 256 + c) * 256 + d"
  have n: "ipToNumber (dotted a b c d) = Some ?n" using assms by (rule ipToNumber_dotted)
  have range: "0 \<le> ?n" "?n < 2 ^ 32" using assms by simp_all
  have "?n div 2 ^ 24 = a" "?n div 2 ^ 20 = a * 16 + b div 16" "?n div 2 ^ 16 = a * 256 + b" using assms by simp_all
  with mask_test [where x = ?n and k = 24 and m = 8 and mk = "0xff000000" and q = q, OF _ _ _ refl]
    mask_test [where x = ?n and k = 20 and m = 12 and mk = "0xfff00000" and q = q, OF _ _ _ refl]
    mask_test [where x = ?n and k = 16 and m = 16 and mk = "0xffff0000" and q = q, OF _ _ _ refl] range
  show "in_block 0xff000000 (push_bit 24 q) (dotted a b c d) \<longleftrightarrow> a = q"
    "in_block 0xfff00000 (push_bit 20 q) (dotted a b c d) \<longleftrightarrow> a * 16 + b div 16 = q"
    "in_block 0xffff0000 (push_bit 16 q) (dotted a b c d) \<longleftrightarrow> a * 256 + b = q"
    by (simp_all add: in_block_def n mask_eq_exp_minus_1 push_bit_eq_mult)
qed

lemma isPrivateIPv4_iff:
  assumes "0 \<le> a" "a < 256" "0 \<le> b" "b < 256" "0 \<le> c" "c < 256" "0 \<le> d" "d < 256"
  shows "isPrivateIPv4 (dotted a b c d) \<longleftrightarrow> private_octets a b"
    and "isLinkLocalIP (dotted a b c d) \<longleftrightarrow> a = 169 \<and> b = 254"
proof -
  note blk = in_blocks [OF assms]
  have "0 \<le> b div 16" "b div 16 < 16" "b div 16 = 1 \<longleftrightarrow> 16 \<le> b \<and> b < 32" using assms(3,4) by auto
  moreover have "a * 16 + r = 2753 \<longleftrightarrow> a = 172 \<and> r = 1" if "0 \<le> r" "r < 16" for r using that by presburger
  ultimately have "a * 16 + b div 16 = 2753 \<longleftrightarrow> a = 172 \<and> 16 \<le> b \<and> b < 32" by metis
  moreover have sixteen: "a * 256 + b = N \<longleftrightarrow> a = N div 256 \<and> b = N mod 256" for N
  proof -
    have "(a * 256 + b) div 256 = a" "(a * 256 + b) mod 256 = b" using assms(3,4) by simp_all
    then show ?thesis by (metis div_mult_mod_eq)
  qed
  moreover have "a * 256 + b = 49320 \<longleftrightarrow> a = 192 \<and> b = 168" "a * 256 + b = 43518 \<longleftrightarrow> a = 169 \<and> b = 254"
    by (simp_all add: sixteen)
  ultimately have "a * 16 + b div 16 = 2753 \<longleftrightarrow> a = 172 \<and> 16 \<le> b \<and> b < 32" "a * 256 + b = 49320 \<longleftrightarrow> a = 192 \<and> b = 168"
    "a * 256 + b = 43518 \<longleftrightarrow> a = 169 \<and> b = 254" by blast+
  with blk(1) [of 10] blk(1) [of 127] blk(2) [of 2753] blk(3) [of 49320] blk(3) [of 43518]
  show "isPrivateIPv4 (dotted a b c d) \<longleftrightarrow> private_octets a b" "isLinkLocalIP (dotted a b c d) \<longleftrightarrow> a = 169 \<and> b = 254"
    by (simp_all add: isPrivateIPv4_def isLinkLocalIP_def private_octets_def push_bit_eq_mult) blast?
qed

section \<open>Redaction leaves no secret\<close>

fun clean_fields :: "(string \<times> js_value) list \<Rightarrow> bool"
  and clean_value :: "js_value \<Rightarrow> bool"
  and clean_items :: "js_value list \<Rightarrow> bool" where
  "clean_fields [] = True"
| "clean_fields ((k, v) # fs) = ((\<not> sensitive_log_key k \<or> v = J_Text ''REDACTED'') \<and> clean_value v \<and> clean_fields fs)"
| "clean_value (J_Object fs) = clean_fields fs"
| "clean_value (J_List xs) = clean_items xs"
| "clean_value _ = True"
| "clean_items [] = True"
| "clean_items (x # xs) = (clean_value x \<and> clean_items xs)"

lemma redaction_is_clean:
  "clean_fields (redact_fields fs)" "clean_value (redact_value v)" "clean_items (redact_items xs)" "clean_fields (redact_indexed n xs)"
  by (induction fs and v and xs and n xs rule: redact_fields_redact_value_redact_items_redact_indexed.induct)
    (auto split: js_value.splits)

text \<open>The redaction of \<open>index.ts\<close> is shallow: a secret one level down is kept.\<close>

lemma shallow_redaction_leaks: "redactSecrets [(''o'', J_Object [(''password'', v)])] = [(''o'', J_Object [(''password'', v)])]"
  by (simp add: redactSecrets_def sensitive_key_def mentions_def lower_def char_of_def starts_with_def)

section \<open>What the guard lets through\<close>

text \<open>The addresses the guard looks at for a URL.\<close>

definition consulted :: "network \<Rightarrow> parsed_url \<Rightarrow> string list" where
  "consulted nw u =
     (let h = url_host u; ip = (if bracketed h then unbracket h else h)
      in if isIPv4Address ip \<or> isIPv6Address ip then [ip] else fst (resolveHostname nw h))"

lemma first_blocked_None: "first_blocked c r ips = None \<longleftrightarrow> (\<forall>ip \<in> set ips. checkBlockedIP c r ip = None)"
  by (induction ips) (auto split: option.splits)

lemma checkSingleUrl_Ok:
  assumes "checkSingleUrl c nw r skip u = Ok t"
  shows "url_protocol u \<in> {''http:'', ''https:''} \<and> (\<forall>ip \<in> set (consulted nw u). checkBlockedIP c r ip = None)"
  using assms first_blocked_None [of c r]
  by (auto simp: checkSingleUrl_def consulted_def Let_def split: if_splits option.splits prod.splits)

lemma check_redirects_Ok:
  "check_redirects c nw rs = Inr None \<Longrightarrow> r \<in> set rs \<Longrightarrow> \<exists>u t. nw_parse nw r = Some u \<and> checkSingleUrl c nw True True u = Ok t"
  by (induction rs) (auto split: option.splits outcome.splits)

lemma guard_check_Ok:
  assumes "guard_check c nw i = Inr (Ok t)" and "url \<in> set (ei_url i # (case ei_redirects i of Some rs \<Rightarrow> rs | None \<Rightarrow> []))"
  shows "\<exists>u r skip t. nw_parse nw url = Some u \<and> checkSingleUrl c nw r skip u = Ok t"
  using assms check_redirects_Ok [of c nw]
  by (fastforce simp: guard_check_def Let_def split: if_splits option.splits sum.splits outcome.splits)

lemma unblocked_address:
  assumes "checkBlockedIP c r ip = None" and "ip \<notin> set (gc_ips c)"
  shows "\<not> isMetadataIP ip \<and> \<not> isLinkLocalIP ip \<and> \<not> isLoopbackIP ip \<and> \<not> isPrivateIPv4 ip \<and> \<not> isPrivateIPv6 ip"
  using assms by (auto simp: checkBlockedIP_def isPrivateIP_def Let_def split: if_splits)

text \<open>Under ALLOW the host is an address literal or on the list, within size and time.\<close>

lemma allowed_by_filter:
  assumes "filter_check f nw i trail = (Inr z, trail')" and "fr_ok z" and "fr_decision z = Policy_ALLOW"
  shows "checkDomainAllowlist (fc_guard f) nw (ei_url i) \<and> \<not> over (ei_size i) (gc_max_body (fc_guard f)) \<and>
    \<not> over (ei_delay i) (gc_timeout (fc_guard f)) \<and> (\<exists>t. guard_check (fc_guard f) nw (i\<lparr>ei_skip := True\<rparr>) = Inr (Ok t))"
  using assms by (auto simp: filter_check_def filter_decision_def Let_def split: if_splits sum.splits outcome.splits)

text \<open>Quarantine passes whatever the guard passes, on any domain; a path with the word news is research.\<close>

lemma quarantine_skips_allowlist:
  assumes "applyPolicy f (categorize f nw (ei_url i)) = Policy_QUARANTINE" and "guard_check (fc_guard f) nw (i\<lparr>ei_skip := True\<rparr>) = Inr (Ok t)"
  shows "\<exists>z trail'. filter_check f nw i trail = (Inr z, trail') \<and> fr_ok z"
  using assms by (simp add: filter_check_def filter_decision_def Let_def)

lemma news_path_is_research:
  assumes "fc_rules f = DEFAULT_CATEGORY_RULES" and "nw_parse nw url = Some u" and "url_path u = ''/news''"
  shows "categorize f nw url = Cat_research"
proof -
  have low: "map lower ''/news'' = ''/news''" "map lower ''news'' = ''news''" by (simp_all add: lower_def char_of_def)
  have "occurs_in ''news'' ''/news''" by (simp add: starts_with_def)
  then have "mentions [''news'', ''blog'', ''research'', ''api.news'', ''api.blog''] (map lower ''/news'')"
    unfolding mentions_def low list_ex_iff using low(2) by (intro bexI [of _ "''news''"]) simp_all
  with assms show ?thesis by (simp add: categorize_def DEFAULT_CATEGORY_RULES_def)
qed

text \<open>Every request that reaches the guard is audited twice.\<close>

lemma audited_twice:
  assumes "filter_check f nw i trail = (Inr z, trail')" and "fr_decision z \<noteq> Policy_BLOCK" and "fc_audit f"
  shows "trail' = trail @ replicate 2 \<lparr>au_category = fr_category z, au_url = ei_url i, au_allowed = fr_ok z\<rparr>"
proof -
  let ?k = "categorize f nw (ei_url i)"
  have nb: "applyPolicy f ?k \<noteq> Policy_BLOCK" using assms(1,2) by (auto simp: filter_check_def Let_def split: if_splits)
  show ?thesis
  proof (cases "guard_check (fc_guard f) nw (i\<lparr>ei_skip := True\<rparr>)")
    case (Inr v)
    with assms(1,3) nb show ?thesis
      by (cases v; cases "filter_decision f nw i (applyPolicy f ?k) (ei_url i)")
        (auto simp: filter_check_def audit_lines_def Let_def split: prod.splits)
  qed (use assms(1) nb in \<open>simp add: filter_check_def Let_def\<close>)
qed

text \<open>The address 10.0.0.1 written as the URL parser writes an IPv4-mapped address is not recognised, and a unique local address
  without two adjacent colons is not even taken for an address.\<close>

lemma mapped_private_address_passes: "checkBlockedIP c r ''::ffff:a00:1'' = None"
proof -
  have "split_char (CHR '':'') ''::ffff:a00:1'' = [[], [], ''ffff'', ''a00'', ''1'']" by simp
  then have "mapped_tail ''::ffff:a00:1'' = None" unfolding mapped_tail_def by simp
  then have "ipToNumber ''::ffff:a00:1'' = None" by (simp add: ipToNumber_def starts_with_def)
  then show ?thesis
    by (simp add: checkBlockedIP_def isMetadataIP_def isLinkLocalIP_def isLoopbackIP_def isPrivateIP_def isPrivateIPv4_def
        isPrivateIPv6_def in_block_def starts_with_def)
qed

lemma full_form_local_address_passes:
  assumes "url_protocol u = ''http:''" and "url_host u = ''[fd00:1:2:3:4:5:6:7]''" and "nw_v4 nw (url_host u) = None" and "nw_v6 nw (url_host u) = None"
  shows "checkSingleUrl c nw r True u = Ok (url_text u)"
  using assms
  by (simp add: checkSingleUrl_def bracketed_def unbracket_def isIPv4Address_def isIPv6Address_def starts_with_def resolveHostname_def Let_def)

section \<open>Properties\<close>

text \<open>C40. The egress guard reaches no private IPv4 address. When it lets a request pass, the request's URL and every redirect
  parse and are http or https; and no address looked at for any of them, the literal or a resolved one, is a loopback name, the
  metadata service or, in dotted form, in 10/8, 172.16/12, 192.168/16, 127/8 or 169.254/16, unless the configuration lists it.\<close>

theorem egress_avoids_private_addresses:
  assumes ok: "guard_check c nw i = Inr (Ok t)"
    and url: "url \<in> set (ei_url i # (case ei_redirects i of Some rs \<Rightarrow> rs | None \<Rightarrow> []))"
  shows "\<exists>u. nw_parse nw url = Some u \<and> url_protocol u \<in> {''http:'', ''https:''} \<and>
    (\<forall>ip \<in> set (consulted nw u) - set (gc_ips c). \<not> isMetadataIP ip \<and> \<not> isLoopbackIP ip \<and>
      (\<forall>a \<in> {0..255}. \<forall>b \<in> {0..255}. \<forall>x \<in> {0..255}. \<forall>y \<in> {0..255}. ip = dotted a b x y \<longrightarrow> \<not> private_octets a b))"
proof -
  from guard_check_Ok [OF ok url] obtain u r skip t' where u: "nw_parse nw url = Some u" and single: "checkSingleUrl c nw r skip u = Ok t'"
    by blast
  have p: "url_protocol u \<in> {''http:'', ''https:''}" using checkSingleUrl_Ok [OF single] by blast
  have "\<not> isMetadataIP ip \<and> \<not> isLoopbackIP ip \<and>
      (\<forall>a \<in> {0..255}. \<forall>b \<in> {0..255}. \<forall>x \<in> {0..255}. \<forall>y \<in> {0..255}. ip = dotted a b x y \<longrightarrow> \<not> private_octets a b)"
    if "ip \<in> set (consulted nw u) - set (gc_ips c)" for ip
  proof -
    from that checkSingleUrl_Ok [OF single] have "checkBlockedIP c r ip = None" and "ip \<notin> set (gc_ips c)" by auto
    from unblocked_address [OF this] show ?thesis using isPrivateIPv4_iff(1) by auto
  qed
  with u p show ?thesis by blast
qed

definition sample_guard :: guard_config where
  "sample_guard = \<lparr>gc_domains = [], gc_max_redirects = Fin 5, gc_max_body = Fin 100, gc_timeout = Fin 100, gc_ips = []\<rparr>"

definition sample_network :: network where
  "sample_network = \<lparr>nw_parse = (\<lambda>s. Some \<lparr>url_protocol = ''https:'', url_host = ''8.8.8.8'', url_path = ''/'', url_text = s\<rparr>),
     nw_v4 = (\<lambda>_. None), nw_v6 = (\<lambda>_. None)\<rparr>"

definition sample_egress :: egress_input where
  "sample_egress = \<lparr>ei_url = ''u'', ei_redirects = None, ei_size = None, ei_delay = None, ei_skip = False\<rparr>"

text \<open>A public address passes and is none of the forbidden ones.\<close>

lemma egress_avoids_private_addresses_witness:
  "guard_check sample_guard sample_network sample_egress = Inr (Ok ''u'') \<and> consulted sample_network (the (nw_parse sample_network ''u'')) = [''8.8.8.8''] \<and>
   \<not> isMetadataIP ''8.8.8.8'' \<and> \<not> isLoopbackIP ''8.8.8.8'' \<and> \<not> private_octets 8 8"
proof -
  have d: "''8.8.8.8'' = dotted 8 8 8 8" by (simp add: dotted_def digits_str.simps digit_char_def)
  have lit: "isIPv4Address ''8.8.8.8''" by (simp add: isIPv4Address_def short_number_def is_digit_def)
  have "checkBlockedIP sample_guard False ''8.8.8.8'' = None"
    using isPrivateIPv4_iff [of 8 8 8 8]
    by (simp add: checkBlockedIP_def isMetadataIP_def isLoopbackIP_def isPrivateIP_def isPrivateIPv6_def starts_with_def private_octets_def Let_def
        flip: d)
  then have ok: "guard_check sample_guard sample_network sample_egress = Inr (Ok ''u'')"
    using lit by (simp add: guard_check_def sample_egress_def sample_network_def checkSingleUrl_def bracketed_def over_def Let_def)
  have consulted: "consulted sample_network (the (nw_parse sample_network ''u'')) = [''8.8.8.8'']"
    using lit by (simp add: consulted_def sample_network_def bracketed_def Let_def)
  have "\<not> isMetadataIP ''8.8.8.8'' \<and> \<not> isLoopbackIP ''8.8.8.8'' \<and>
     (\<forall>a \<in> {0..255}. \<forall>b \<in> {0..255}. \<forall>x \<in> {0..255}. \<forall>y \<in> {0..255}. ''8.8.8.8'' = dotted a b x y \<longrightarrow> \<not> private_octets a b)"
    using egress_avoids_private_addresses [OF ok, of "''u''"] consulted
    by (simp add: sample_egress_def sample_network_def sample_guard_def)
  with d have "\<not> isMetadataIP ''8.8.8.8'' \<and> \<not> isLoopbackIP ''8.8.8.8'' \<and> \<not> private_octets 8 8"
    using atLeastAtMost_iff by fastforce
  with ok consulted show ?thesis by simp
qed

end
