(* ===== verification/Ingress.thy ===== *)
theory Ingress
  imports Egress
begin

text \<open>
  What may enter: the security proxy (\<open>src/pm/security/src/security-proxy.ts\<close>) with its sessions, CSRF tokens and rate limits as
  state, and the order of its checks. The URL parser and the base64 decoder of the platform are parameters, random identifiers and
  the clock are arguments.
\<close>

section \<open>State and requests\<close>

record session_info =
  se_created :: ms
  se_expires :: ms
  se_csrf :: string
  se_ip :: string
  se_agent :: string

record proxy_config =
  pc_owner_key :: string
  pc_services :: "string list"
  pc_session_ttl :: ms
  pc_csrf_ttl :: ms
  pc_rate_max :: int
  pc_rate_window :: ms
  pc_protected :: "string list"
  pc_public :: "string list"

text \<open>A rate limit entry is the count and the start of its window; a CSRF entry is the expiry of its token.\<close>

record proxy =
  px_sessions :: "(string \<times> session_info) list"
  px_rates :: "(string \<times> int \<times> ms) list"
  px_csrf :: "(string \<times> ms) list"

record ingress_request =
  ir_url :: string
  ir_method :: "string option"
  ir_headers :: "string \<Rightarrow> string option"
  ir_ip :: string
  ir_cert :: "string option"

datatype identity = Id_public | Id_service string | Id_owner

text \<open>\<open>parse\<close> gives the path of a URL against the base, or throws; \<open>decode\<close> is \<open>Buffer.from(text, "base64")\<close>.\<close>

record platform =
  pf_path :: "string \<Rightarrow> string option"
  pf_decode :: "string \<Rightarrow> int list"

definition new_proxy :: proxy where
  "new_proxy = \<lparr>px_sessions = [], px_rates = [], px_csrf = []\<rparr>"

definition map_delete :: "'k \<Rightarrow> ('k \<times> 'v) list \<Rightarrow> ('k \<times> 'v) list" where
  "map_delete k m = filter (\<lambda>e. fst e \<noteq> k) m"

section \<open>Credentials\<close>

definition header_or :: "ingress_request \<Rightarrow> string \<Rightarrow> string \<Rightarrow> string option" where
  "header_or r a b = (if truthy (ir_headers r a) then ir_headers r a else if truthy (ir_headers r b) then ir_headers r b else None)"

text \<open>\<open>/subject=([^\n]+)/i\<close>: the first occurrence with something behind it.\<close>

fun subject_match :: "string \<Rightarrow> string option" where
  "subject_match [] = None"
| "subject_match (c # cs) =
     (let value = takeWhile (\<lambda>x. x \<noteq> CHR 0x0A) (drop 7 cs) in
      if starts_with ''subject='' (map lower (c # cs)) \<and> value \<noteq> [] then Some value else subject_match cs)"

definition verifyMtls :: "proxy_config \<Rightarrow> string \<Rightarrow> identity outcome" where
  "verifyMtls c cert =
     (case map_option trim_str (subject_match cert) of
        None \<Rightarrow> Refused ''INVALID_MTLS_CERT''
      | Some s \<Rightarrow> if s = [] then Refused ''INVALID_MTLS_CERT''
                  else if list_ex (\<lambda>a. occurs_in a s \<or> s = a) (pc_services c) then Ok (Id_service s) else Refused ''UNAUTHORIZED_SERVICE'')"

text \<open>\<open>/^Bearer\s+(.+)$/i\<close> on a header without line breaks: of a run of spaces only, the last is the key.\<close>

definition extractApiKey :: "ingress_request \<Rightarrow> string option" where
  "extractApiKey r =
     (case header_or r ''authorization'' ''Authorization'' of
        None \<Rightarrow> None
      | Some a \<Rightarrow>
          let rest = drop 6 a; spaces = takeWhile is_space rest; key = dropWhile is_space rest in
          if \<not> starts_with ''bearer'' (map lower a) \<or> spaces = [] then None
          else if key \<noteq> [] then Some key else if 2 \<le> length spaces then Some [last spaces] else None)"

definition verifyApiKey :: "proxy_config \<Rightarrow> platform \<Rightarrow> string \<Rightarrow> identity outcome" where
  "verifyApiKey c pf key = (if pf_decode pf (pc_owner_key c) = pf_decode pf key then Ok Id_owner else Refused ''INVALID_API_KEY'')"

text \<open>The cookies of a header; a later cookie of the same name wins.\<close>

definition cookie_of :: "string \<Rightarrow> (string \<times> string) option" where
  "cookie_of part = (case split_char (CHR ''='') (trim_str part) of n # v # vs \<Rightarrow> if n \<noteq> [] then Some (n, join_with ''='' (v # vs)) else None | _ \<Rightarrow> None)"

definition parseCookies :: "string \<Rightarrow> string \<Rightarrow> string option" where
  "parseCookies h name = map_of (rev (List.map_filter cookie_of (split_char (CHR '';'') h))) name"

definition request_cookie :: "ingress_request \<Rightarrow> string \<Rightarrow> string option" where
  "request_cookie r name = (case header_or r ''cookie'' ''Cookie'' of Some h \<Rightarrow> parseCookies h name | None \<Rightarrow> None)"

definition upper :: "char \<Rightarrow> char" where
  "upper c = (let k = (of_char c :: nat) in if 97 \<le> k \<and> k \<le> 122 then char_of (k - 32) else c)"

definition mutating :: "ingress_request \<Rightarrow> bool" where
  "mutating r \<longleftrightarrow> (case ir_method r of Some m \<Rightarrow> map upper m \<in> {''POST'', ''PUT'', ''PATCH'', ''DELETE''} | None \<Rightarrow> False)"

definition checkSession :: "proxy_config \<Rightarrow> ingress_request \<Rightarrow> ms \<Rightarrow> proxy \<Rightarrow> identity outcome \<times> proxy" where
  "checkSession c r now px =
     (if \<not> truthy (request_cookie r ''polyroot_sid'') then (Refused ''NO_SESSION'', px)
      else let sid = the (request_cookie r ''polyroot_sid''); csrf = request_cookie r ''polyroot_csrf'' in
        case map_of (px_sessions px) sid of
          None \<Rightarrow> (Refused ''INVALID_SESSION'', px)
        | Some s \<Rightarrow>
            if se_expires s < now then (Refused ''SESSION_EXPIRED'', px\<lparr>px_sessions := map_delete sid (px_sessions px)\<rparr>)
            else if mutating r \<and> (\<not> truthy csrf \<or> csrf \<noteq> Some (se_csrf s)) then (Refused ''CSRF_INVALID'', px)
            else if mutating r \<and> (case map_of (px_csrf px) (the csrf) of Some e \<Rightarrow> e < now | None \<Rightarrow> False) then (Refused ''CSRF_EXPIRED'', px)
            else (Ok Id_owner, px\<lparr>px_sessions := map_set sid (s\<lparr>se_expires := now + pc_session_ttl c\<rparr>) (px_sessions px)\<rparr>))"

definition checkRateLimit :: "proxy_config \<Rightarrow> string \<Rightarrow> ms \<Rightarrow> proxy \<Rightarrow> bool \<times> proxy" where
  "checkRateLimit c ip now px =
     (case map_of (px_rates px) ip of
        Some (n, start) \<Rightarrow>
          if pc_rate_window c < now - start then (True, px\<lparr>px_rates := map_set ip (1, now) (px_rates px)\<rparr>)
          else if pc_rate_max c \<le> n then (False, px)
          else (True, px\<lparr>px_rates := map_set ip (n + 1, start) (px_rates px)\<rparr>)
      | None \<Rightarrow> (True, px\<lparr>px_rates := map_set ip (1, now) (px_rates px)\<rparr>))"

section \<open>The proxy\<close>

definition on_path :: "string list \<Rightarrow> string \<Rightarrow> bool" where
  "on_path prefixes path \<longleftrightarrow> list_ex (\<lambda>p. starts_with p path) prefixes"

definition after_session :: "proxy_config \<Rightarrow> string \<Rightarrow> identity outcome \<times> proxy \<Rightarrow> identity outcome \<times> proxy" where
  "after_session c path x =
     (case x of
        (Ok i, px) \<Rightarrow> (Ok i, px)
      | (Refused e, px) \<Rightarrow>
          if e \<noteq> ''NO_SESSION'' then (Refused e, px)
          else if on_path (pc_protected c) path then (Refused ''UNAUTHENTICATED'', px) else (Ok Id_public, px))"

definition proxy_check :: "proxy_config \<Rightarrow> platform \<Rightarrow> ingress_request \<Rightarrow> ms \<Rightarrow> (proxy, identity outcome) eff" where
  "proxy_check c pf r now px =
     (case pf_path pf (ir_url r) of
        None \<Rightarrow> (Inl ''Invalid URL'', px)
      | Some path \<Rightarrow>
          if on_path (pc_public c) path then (Inr (Ok Id_public), px)
          else (case checkRateLimit c (ir_ip r) now px of
              (False, px1) \<Rightarrow> (Inr (Refused ''RATE_LIMITED''), px1)
            | (True, px1) \<Rightarrow>
                if truthy (ir_cert r) then (Inr (verifyMtls c (the (ir_cert r))), px1)
                else if header_or r ''authorization'' ''Authorization'' \<noteq> None
                then (Inr (case extractApiKey r of
                        Some key \<Rightarrow> if key \<noteq> [] then verifyApiKey c pf key else Refused ''INVALID_API_KEY''
                      | None \<Rightarrow> Refused ''INVALID_API_KEY''), px1)
                else (case after_session c path (checkSession c r now px1) of (x, px2) \<Rightarrow> (Inr x, px2))))"

definition createSession :: "proxy_config \<Rightarrow> string \<Rightarrow> string \<Rightarrow> string \<Rightarrow> string \<Rightarrow> ms \<Rightarrow> proxy \<Rightarrow> proxy" where
  "createSession c sid csrf ip agent now px =
     px\<lparr>px_sessions := map_set sid \<lparr>se_created = now, se_expires = now + pc_session_ttl c, se_csrf = csrf, se_ip = ip, se_agent = agent\<rparr>
          (px_sessions px), px_csrf := map_set csrf (now + pc_csrf_ttl c) (px_csrf px)\<rparr>"

definition invalidateSession :: "string \<Rightarrow> proxy \<Rightarrow> bool \<times> proxy" where
  "invalidateSession sid px =
     (case map_of (px_sessions px) sid of
        Some s \<Rightarrow> (True, px\<lparr>px_csrf := map_delete (se_csrf s) (px_csrf px), px_sessions := map_delete sid (px_sessions px)\<rparr>)
      | None \<Rightarrow> (False, px))"

definition validateCsrf :: "string \<Rightarrow> ms \<Rightarrow> proxy \<Rightarrow> bool \<times> proxy" where
  "validateCsrf tok now px =
     (case map_of (px_csrf px) tok of
        None \<Rightarrow> (False, px)
      | Some e \<Rightarrow> if e < now then (False, px\<lparr>px_csrf := map_delete tok (px_csrf px)\<rparr>) else (True, px))"

definition proxy_cleanup :: "proxy_config \<Rightarrow> ms \<Rightarrow> proxy \<Rightarrow> proxy" where
  "proxy_cleanup c now px =
     (let gone = filter (\<lambda>(_, s). se_expires s < now) (px_sessions px);
          csrf1 = fold (\<lambda>(_, s) m. map_delete (se_csrf s) m) gone (px_csrf px)
      in px\<lparr>px_sessions := filter (\<lambda>(_, s). \<not> se_expires s < now) (px_sessions px),
            px_rates := filter (\<lambda>(_, _, start). \<not> pc_rate_window c < now - start) (px_rates px),
            px_csrf := filter (\<lambda>(_, e). \<not> e < now) csrf1\<rparr>)"

text \<open>A history of the proxy, and the sessions that were issued and not invalidated since, with their tokens.\<close>

datatype proxy_op = Op_create string string string string ms | Op_invalidate string | Op_csrf string ms | Op_check ingress_request ms
  | Op_cleanup ms

fun proxy_step :: "proxy_config \<Rightarrow> platform \<Rightarrow> proxy_op \<Rightarrow> proxy \<Rightarrow> proxy" where
  "proxy_step c pf (Op_create sid csrf ip agent now) px = createSession c sid csrf ip agent now px"
| "proxy_step c pf (Op_invalidate sid) px = snd (invalidateSession sid px)"
| "proxy_step c pf (Op_csrf tok now) px = snd (validateCsrf tok now px)"
| "proxy_step c pf (Op_check r now) px = snd (proxy_check c pf r now px)"
| "proxy_step c pf (Op_cleanup now) px = proxy_cleanup c now px"

fun issue_step :: "proxy_op \<Rightarrow> (string \<Rightarrow> string option) \<Rightarrow> (string \<Rightarrow> string option)" where
  "issue_step (Op_create sid csrf ip agent now) m = m(sid \<mapsto> csrf)"
| "issue_step (Op_invalidate sid) m = m(sid := None)"
| "issue_step _ m = m"

definition issued :: "proxy_op list \<Rightarrow> string \<Rightarrow> string option" where
  "issued ops = fold issue_step ops Map.empty"

definition run_proxy :: "proxy_config \<Rightarrow> platform \<Rightarrow> proxy_op list \<Rightarrow> proxy" where
  "run_proxy c pf ops = fold (proxy_step c pf) ops new_proxy"

section \<open>Sessions are the issued ones\<close>

definition sessions_issued :: "(string \<Rightarrow> string option) \<Rightarrow> proxy \<Rightarrow> bool" where
  "sessions_issued m px \<longleftrightarrow> distinct (map fst (px_sessions px)) \<and> (\<forall>(sid, s) \<in> set (px_sessions px). m sid = Some (se_csrf s))"

lemma map_set_mem: "e \<in> set (map_set k v m) \<Longrightarrow> distinct (map fst m) \<Longrightarrow> e = (k, v) \<or> e \<in> set m \<and> fst e \<noteq> k"
  by (induction m) (auto split: if_splits)

lemma distinct_filter_keys: "distinct (map fst m) \<Longrightarrow> distinct (map fst (filter P m))"
  by (rule distinct_map_filter)

lemma checkSession_keeps:
  assumes "sessions_issued m px"
  shows "sessions_issued m (snd (checkSession c r now px))"
  using assms
  by (auto simp: checkSession_def sessions_issued_def map_delete_def Let_def distinct_map_set distinct_filter_keys
      dest!: map_set_mem map_of_SomeD split: option.splits if_splits)

lemma checkRateLimit_sessions: "px_sessions (snd (checkRateLimit c ip now px)) = px_sessions px"
  by (auto simp: checkRateLimit_def split: option.splits)

lemma proxy_check_keeps: "sessions_issued m px \<Longrightarrow> sessions_issued m (snd (proxy_check c pf r now px))"
proof -
  assume "sessions_issued m px"
  then have one: "sessions_issued m (snd (checkRateLimit c (ir_ip r) now px))"
    by (simp add: sessions_issued_def checkRateLimit_sessions)
  have after: "snd (after_session c path x) = snd x" for path x
    by (auto simp: after_session_def split: prod.splits outcome.splits)
  have "snd (proxy_check c pf r now px) \<in> {px, snd (checkRateLimit c (ir_ip r) now px),
      snd (checkSession c r now (snd (checkRateLimit c (ir_ip r) now px)))}"
  proof (cases "pf_path pf (ir_url r)")
    case (Some path)
    obtain b px1 where rate: "checkRateLimit c (ir_ip r) now px = (b, px1)" by fastforce
    obtain x px2 where sess: "after_session c path (checkSession c r now px1) = (x, px2)" by fastforce
    with after [of path "checkSession c r now px1"] have "px2 = snd (checkSession c r now px1)" by simp
    with Some rate sess show ?thesis by (cases b) (simp_all add: proxy_check_def)
  qed (simp add: proxy_check_def)
  with checkSession_keeps [OF one] one \<open>sessions_issued m px\<close> show ?thesis by auto
qed

lemma proxy_step_issued: "sessions_issued m px \<Longrightarrow> sessions_issued (issue_step x m) (proxy_step c pf x px)"
proof (cases x)
  case (Op_create sid csrf ip agent now)
  assume "sessions_issued m px"
  with Op_create show ?thesis
    by (auto simp: sessions_issued_def createSession_def distinct_map_set dest!: map_set_mem)
next
  case (Op_invalidate sid)
  assume inv: "sessions_issued m px"
  have "sid \<notin> fst ` set (px_sessions (snd (invalidateSession sid px)))"
    by (auto simp: invalidateSession_def map_delete_def map_of_eq_None_iff image_iff split: option.splits)
  moreover have "set (px_sessions (snd (invalidateSession sid px))) \<subseteq> set (px_sessions px)"
    "distinct (map fst (px_sessions (snd (invalidateSession sid px))))"
    using inv by (auto simp: sessions_issued_def invalidateSession_def map_delete_def distinct_filter_keys split: option.splits)
  moreover have "m k = Some (se_csrf v)" if "(k, v) \<in> set (px_sessions px)" for k v
    using inv that by (auto simp: sessions_issued_def)
  ultimately have "sessions_issued (m(sid := None)) (snd (invalidateSession sid px))"
    unfolding sessions_issued_def by (force simp: image_iff)
  with Op_invalidate show ?thesis by simp
next
  case (Op_csrf tok now)
  assume "sessions_issued m px"
  with Op_csrf show ?thesis by (auto simp: sessions_issued_def validateCsrf_def split: option.splits)
next
  case (Op_check r now)
  assume "sessions_issued m px"
  with Op_check show ?thesis by (simp add: proxy_check_keeps)
next
  case (Op_cleanup now)
  assume "sessions_issued m px"
  with Op_cleanup show ?thesis by (auto simp: sessions_issued_def proxy_cleanup_def Let_def distinct_filter_keys)
qed

lemma run_proxy_issued: "sessions_issued (issued ops) (run_proxy c pf ops)"
proof -
  have "sessions_issued m px \<Longrightarrow> sessions_issued (fold issue_step ops m) (fold (proxy_step c pf) ops px)" for m px
    by (induction ops arbitrary: m px) (simp_all add: proxy_step_issued)
  moreover have "sessions_issued Map.empty new_proxy" by (simp add: sessions_issued_def new_proxy_def)
  ultimately show ?thesis by (simp add: issued_def run_proxy_def)
qed

section \<open>Who gets in\<close>

lemma session_owner:
  assumes "checkSession c r now px = (Ok i, px')"
  shows "i = Id_owner \<and> (\<exists>sid s. request_cookie r ''polyroot_sid'' = Some sid \<and> map_of (px_sessions px) sid = Some s \<and> now \<le> se_expires s \<and>
    (mutating r \<longrightarrow> request_cookie r ''polyroot_csrf'' = Some (se_csrf s)))"
  using assms
  by (cases "request_cookie r ''polyroot_sid''") (auto simp: checkSession_def Let_def split: option.splits if_splits)

text \<open>The identity a check grants, for what, when no public path is asked for.\<close>

definition entitled :: "proxy_config \<Rightarrow> platform \<Rightarrow> ingress_request \<Rightarrow> (string \<Rightarrow> string option) \<Rightarrow> string \<Rightarrow> identity \<Rightarrow> bool" where
  "entitled c pf r m path i =
     (case i of
        Id_owner \<Rightarrow> (case extractApiKey r of Some key \<Rightarrow> pf_decode pf key = pf_decode pf (pc_owner_key c) | None \<Rightarrow> False) \<or>
          (case request_cookie r ''polyroot_sid'' of
             Some sid \<Rightarrow> m sid \<noteq> None \<and> (\<not> mutating r \<or> request_cookie r ''polyroot_csrf'' = m sid) | None \<Rightarrow> False)
      | Id_service s \<Rightarrow> (case ir_cert r of
            Some cert \<Rightarrow> map_option trim_str (subject_match cert) = Some s \<and> list_ex (\<lambda>a. occurs_in a s) (pc_services c)
          | None \<Rightarrow> False)
      | Id_public \<Rightarrow> \<not> on_path (pc_protected c) path)"

lemma named_service: "s \<in> set names \<Longrightarrow> \<exists>a \<in> set names. occurs_in a s"
  by (rule bexI [of _ s]) (cases s, simp_all add: starts_with_def)

lemma check_entitled:
  assumes ok: "proxy_check c pf r now px = (Inr (Ok i), px')" and path: "pf_path pf (ir_url r) = Some path" "\<not> on_path (pc_public c) path"
    and inv: "sessions_issued m px"
  shows "entitled c pf r m path i"
proof -
  obtain b px1 where rate: "checkRateLimit c (ir_ip r) now px = (b, px1)" by fastforce
  with inv have inv1: "sessions_issued m px1"
    using checkRateLimit_sessions [of c "ir_ip r" now px] by (simp add: sessions_issued_def)
  have b: "b" using ok path rate by (cases b) (simp_all add: proxy_check_def)
  consider (cert) cert where "ir_cert r = Some cert" "verifyMtls c cert = Ok i"
    | (key) key where "extractApiKey r = Some key" "verifyApiKey c pf key = Ok i"
    | (session) "fst (after_session c path (checkSession c r now px1)) = Ok i"
    using ok path rate b
    by (cases "ir_cert r") (auto simp: proxy_check_def split: if_splits option.splits prod.splits)
  then show ?thesis
  proof cases
    case cert
    then show ?thesis by (auto simp: verifyMtls_def entitled_def list_ex_iff intro: named_service split: option.splits if_splits)
  next
    case key
    then show ?thesis by (auto simp: verifyApiKey_def entitled_def split: if_splits)
  next
    case session
    obtain v px2 where s: "checkSession c r now px1 = (v, px2)" by fastforce
    show ?thesis
    proof (cases v)
      case (Ok j)
      with session s have "j = i" by (simp add: after_session_def)
      with session_owner [of c r now px1 j px2] s Ok inv1 show ?thesis
        by (fastforce simp: entitled_def sessions_issued_def dest: map_of_SomeD)
    next
      case (Refused e)
      with session s show ?thesis by (auto simp: after_session_def entitled_def split: if_splits)
    qed
  qed
qed

section \<open>Quirks\<close>

section \<open>Quirks\<close>

text \<open>An expired CSRF token is accepted again once a cleanup has forgotten it, while its session lives on.\<close>

definition stale_token_proxy :: proxy where
  "stale_token_proxy = \<lparr>px_sessions = [(''s'', \<lparr>se_created = 0, se_expires = 100, se_csrf = ''t'', se_ip = [], se_agent = []\<rparr>)],
     px_rates = [], px_csrf = [(''t'', 10)]\<rparr>"

lemma cleanup_revives_csrf:
  assumes "mutating r" and "request_cookie r ''polyroot_sid'' = Some ''s''" and "request_cookie r ''polyroot_csrf'' = Some ''t''"
  shows "fst (checkSession c r 20 stale_token_proxy) = Refused ''CSRF_EXPIRED''"
    and "fst (checkSession c r 20 (proxy_cleanup c 20 stale_token_proxy)) = Ok Id_owner"
  using assms by (simp_all add: checkSession_def stale_token_proxy_def proxy_cleanup_def)

text \<open>The certificate is text: whoever writes the name of a service behind \<open>subject=\<close> is the service.\<close>

lemma takeWhile_until: "c \<notin> set s \<Longrightarrow> takeWhile (\<lambda>x. x \<noteq> c) s = s"
  by (induction s) auto

lemma any_text_is_a_certificate:
  assumes "s \<noteq> []" and "trim_str s = s" and "CHR 0x0A \<notin> set s" and "a \<in> set (pc_services c)" and "occurs_in a s"
  shows "verifyMtls c (''subject='' @ s) = Ok (Id_service s)"
proof -
  have "map lower ''subject='' = ''subject=''" by (simp add: lower_def char_of_def)
  then have "starts_with ''subject='' (map lower (''subject='' @ s))" by (simp add: starts_with_def)
  then have "subject_match (''subject='' @ s) = Some s" using assms(1,3) by (simp add: Let_def takeWhile_until)
  with assms show ?thesis by (auto simp: verifyMtls_def list_ex_iff)
qed

text \<open>With an empty owner key every text that decodes to nothing is the owner's key.\<close>

lemma empty_owner_key: "pf_decode pf (pc_owner_key c) = [] \<Longrightarrow> pf_decode pf key = [] \<Longrightarrow> verifyApiKey c pf key = Ok Id_owner"
  by (simp add: verifyApiKey_def)

section \<open>Properties\<close>

text \<open>C39. Nobody enters without a credential. After any history of logins, logouts, checks and cleanups, a request for a path that is
  not public is admitted as the owner only with a key that decodes to the owner's, or with the cookie of a session that was issued
  and not invalidated since; a request by that cookie also needs the token issued with the session when its method is a mutating one, and
  needs none otherwise. It is admitted as a service only when it carries a certificate text whose subject is that service and
  contains one of the listed names as a substring; and anonymously only where the path is not protected.\<close>

theorem ingress_needs_credentials:
  assumes ok: "proxy_check c pf r now (run_proxy c pf ops) = (Inr (Ok i), px')"
    and path: "pf_path pf (ir_url r) = Some path" "\<not> on_path (pc_public c) path"
  shows "entitled c pf r (issued ops) path i"
  using check_entitled [OF ok path run_proxy_issued] .

definition sample_proxy :: proxy_config where
  "sample_proxy = \<lparr>pc_owner_key = ''k'', pc_services = [], pc_session_ttl = 100, pc_csrf_ttl = 100, pc_rate_max = 5, pc_rate_window = 10,
     pc_protected = [''/p''], pc_public = [''/h'']\<rparr>"

definition sample_platform :: platform where
  "sample_platform = \<lparr>pf_path = Some, pf_decode = map of_char\<rparr>"

definition sample_request :: ingress_request where
  "sample_request = \<lparr>ir_url = ''/p'', ir_method = None, ir_headers = (\<lambda>h. if h = ''cookie'' then Some ''polyroot_sid=s'' else None), ir_ip = ''i'',
     ir_cert = None\<rparr>"

text \<open>A login, and the session's cookie opens the protected path; after the logout it does not.\<close>

lemma ingress_needs_credentials_witness:
  "(\<exists>px'. proxy_check sample_proxy sample_platform sample_request 1 (run_proxy sample_proxy sample_platform [Op_create ''s'' ''t'' ''i'' ''a'' 0])
      = (Inr (Ok Id_owner), px')) \<and>
   entitled sample_proxy sample_platform sample_request (issued [Op_create ''s'' ''t'' ''i'' ''a'' 0]) ''/p'' Id_owner"
proof -
  have cookie: "request_cookie sample_request ''polyroot_sid'' = Some ''s''"
    by (simp add: request_cookie_def header_or_def sample_request_def parseCookies_def cookie_of_def map_filter_simps trim_str_def is_space_def)
  have plain: "\<not> mutating sample_request" "header_or sample_request ''authorization'' ''Authorization'' = None" "ir_cert sample_request = None"
    by (simp_all add: mutating_def header_or_def sample_request_def)
  have "\<exists>px'. proxy_check sample_proxy sample_platform sample_request 1 (run_proxy sample_proxy sample_platform [Op_create ''s'' ''t'' ''i'' ''a'' 0])
      = (Inr (Ok Id_owner), px')"
    using cookie plain
    by (simp add: proxy_check_def run_proxy_def new_proxy_def createSession_def checkRateLimit_def checkSession_def after_session_def
        on_path_def starts_with_def sample_platform_def sample_proxy_def Let_def) (simp add: sample_request_def)
  then obtain px' where ok: "proxy_check sample_proxy sample_platform sample_request 1
      (run_proxy sample_proxy sample_platform [Op_create ''s'' ''t'' ''i'' ''a'' 0]) = (Inr (Ok Id_owner), px')" by blast
  have "pf_path sample_platform (ir_url sample_request) = Some ''/p''" "\<not> on_path (pc_public sample_proxy) ''/p''"
    by (simp_all add: sample_platform_def sample_request_def sample_proxy_def on_path_def starts_with_def)
  from ingress_needs_credentials [OF ok this] ok show ?thesis by blast
qed

end
