(* ===== verification/Intelligence.thy ===== *)
theory Intelligence
  imports Portfolio Governance
begin

text \<open>
  The intelligence plane (\<open>src/pm/intelligence/src/index.ts\<close>) in memory and on PostgreSQL: source registry, evidence weights,
  catalyst bus, forecast ensemble and gate, untrusted content, research budget; the catalyst gate (\<open>catalyst-gate.ts\<close>), the URL
  helpers (\<open>api-url.ts\<close>) and the family count of stored ensembles (\<open>ensemble-pg.ts\<close>). \<open>Math.expf\<close> and the collation of text
  columns are parameters.
\<close>

section \<open>Source registry\<close>

datatype epistemic_class = PRIMARY | SECONDARY | AGGREGATOR | Class_UNKNOWN

record source_record =
  sr_url :: string
  sr_class :: epistemic_class
  sr_score :: jsnum
  sr_parent :: "string option"

text \<open>\<open>/^\w+:\/\//\<close> and \<open>/^www\./\<close> removed, then everything before the question mark.\<close>

definition is_word_char :: "char \<Rightarrow> bool" where
  "is_word_char c = (let k = (of_char c :: nat) in 48 \<le> k \<and> k \<le> 57 \<or> 65 \<le> k \<and> k \<le> 90 \<or> 97 \<le> k \<and> k \<le> 122 \<or> k = 95)"

definition strip_scheme :: "string \<Rightarrow> string" where
  "strip_scheme u =
     (let w = takeWhile is_word_char u; r = dropWhile is_word_char u
      in if w \<noteq> [] \<and> starts_with ''://'' r then drop 3 r else u)"

definition strip_www :: "string \<Rightarrow> string" where
  "strip_www u = (if starts_with ''www.'' u then drop 4 u else u)"

definition url_key :: "string \<Rightarrow> string" where
  "url_key u = takeWhile (\<lambda>c. c \<noteq> CHR ''?'') (strip_www (strip_scheme u))"

definition source_key :: "source_record \<Rightarrow> string" where
  "source_key r = (case sr_parent r of Some p \<Rightarrow> p | None \<Rightarrow> url_key (sr_url r))"

record source_registry =
  rg_records :: "(string \<times> source_record) list"
  rg_family :: "(string \<times> string) list"

definition source_register :: "source_record \<Rightarrow> source_registry \<Rightarrow> string \<times> source_registry" where
  "source_register r g =
     (let key = source_key r; g1 = g\<lparr>rg_records := map_set (sr_url r) r (rg_records g)\<rparr>;
          known = map_of (rg_family g1) key;
          g2 = (if truthy known then g1 else g1\<lparr>rg_family := map_set key key (rg_family g1)\<rparr>);
          g3 = (if truthy (sr_parent r) then g2\<lparr>rg_family := map_set (sr_url r) (the (sr_parent r)) (rg_family g2)\<rparr> else g2)
      in (if truthy known then the known else key, g3))"

definition source_family :: "string \<Rightarrow> source_registry \<Rightarrow> string option" where
  "source_family u g = map_of (rg_family g) u"

definition family_of_url :: "source_registry \<Rightarrow> string \<Rightarrow> string" where
  "family_of_url g u =
     (case first_some [Option.bind (map_of (rg_records g) u) sr_parent, map_of (rg_family g) u] of Some f \<Rightarrow> f | None \<Rightarrow> u)"

definition independentFamilies :: "string list \<Rightarrow> source_registry \<Rightarrow> string set" where
  "independentFamilies urls g = set (map (family_of_url g) urls)"

text \<open>The table \<open>source_records\<close>, unique by URL.\<close>

definition pg_source_register :: "source_record \<Rightarrow> source_record list \<Rightarrow> string \<times> source_record list" where
  "pg_source_register r t = (if truthy (sr_parent r) then the (sr_parent r) else source_key r, put_row sr_url r t)"

definition pg_source_family :: "string \<Rightarrow> source_record list \<Rightarrow> string option" where
  "pg_source_family u t =
     (case row_of sr_url u t of
        None \<Rightarrow> None
      | Some r \<Rightarrow> Some (if truthy (sr_parent r) then the (sr_parent r) else url_key (sr_url r)))"

definition pg_family_of_url :: "source_record list \<Rightarrow> string \<Rightarrow> string" where
  "pg_family_of_url t u = (case pg_source_family u t of Some f \<Rightarrow> f | None \<Rightarrow> u)"

definition pg_independentFamilies :: "string list \<Rightarrow> source_record list \<Rightarrow> string set" where
  "pg_independentFamilies urls t = set (map (pg_family_of_url t) urls)"

section \<open>Evidence and features\<close>

definition LN2 :: jsnum where
  "LN2 = fl (693147180559945309417232 / 10 ^ 24)"

definition temporalRecencyWeight :: "(jsnum \<Rightarrow> jsnum) \<Rightarrow> ms \<Rightarrow> ms \<Rightarrow> jsnum" where
  "temporalRecencyWeight expf published now =
     expf (num_div (num_mul (num_neg (num_of_bigint (max 0 (now - published)))) LN2) (Fin 604800000))"

definition weightEvidence ::
  "(jsnum \<Rightarrow> jsnum) \<Rightarrow> jsnum option \<Rightarrow> ms option \<Rightarrow> source_record \<Rightarrow> ms \<Rightarrow> jsnum \<Rightarrow> bool \<Rightarrow> jsnum \<Rightarrow> jsnum" where
  "weightEvidence expf relevance published source now families contradicted late =
     (let primary = (case sr_class source of PRIMARY \<Rightarrow> Fin 1 | SECONDARY \<Rightarrow> fl (6 / 10) | _ \<Rightarrow> fl (4 / 10));
          recency = (case published of Some t \<Rightarrow> temporalRecencyWeight expf t now | None \<Rightarrow> Fin (1 / 2));
          latePenalty = (if num_lt (Fin 0) late then num_max (Fin (1 / 2)) (num_sub (Fin 1) (num_div late (Fin 3600))) else Fin 1);
          independence = (if num_le (Fin 1) families then num_min (Fin 1) (num_div families (Fin 2)) else fl (2 / 10));
          contradiction = (if contradicted then fl (3 / 10) else Fin 1);
          trust = num_mul (case relevance of Some r \<Rightarrow> r | None \<Rightarrow> Fin (1 / 2)) (sr_score source)
      in num_min (Fin 1)
           (num_mul (num_mul (num_mul (num_mul (num_mul primary recency) independence) contradiction) latePenalty)
              (num_add (Fin (1 / 2)) (num_mul (Fin (1 / 2)) trust))))"

definition featureValue :: "string \<times> jsnum option \<Rightarrow> string \<Rightarrow> jsnum option" where
  "featureValue frame key = (if fst frame = key then snd frame else None)"

definition conservativeOf :: "jsnum \<Rightarrow> jsnum option \<Rightarrow> jsnum" where
  "conservativeOf raw calibrated =
     (case calibrated of
        Some c \<Rightarrow> c
      | None \<Rightarrow> num_add (Fin (1 / 2)) (num_mul (num_sub raw (Fin (1 / 2))) (Fin (1 / 2))))"

section \<open>Catalyst bus\<close>

record catalyst_event =
  ce_id :: string
  ce_dedupe :: string
  ce_category :: string
  ce_subject :: string

record catalyst_bus =
  cb_outbox :: "catalyst_event list"
  cb_watermark :: "(string \<times> string) list"

text \<open>The map \<open>seen\<close> holds the events of the outbox.\<close>

definition bus_enqueue :: "catalyst_event \<Rightarrow> catalyst_bus \<Rightarrow> unit outcome \<times> catalyst_bus" where
  "bus_enqueue e b =
     (if ce_id e \<in> ce_id ` set (cb_outbox b) then (Refused ''DUPLICATE_EVENT'', b) else (Ok (), b\<lparr>cb_outbox := cb_outbox b @ [e]\<rparr>))"

definition events_from :: "string \<Rightarrow> catalyst_event list \<Rightarrow> catalyst_event list" where
  "events_from i es = dropWhile (\<lambda>e. ce_id e \<noteq> i) es"

definition bus_replay :: "string \<Rightarrow> string \<Rightarrow> catalyst_bus \<Rightarrow> catalyst_event list \<times> catalyst_bus" where
  "bus_replay consumer from b =
     (case map_of (cb_watermark b) consumer of
        None \<Rightarrow>
          let fresh = events_from from (cb_outbox b)
          in (fresh, if fresh = [] then b else b\<lparr>cb_watermark := map_set consumer (ce_id (last fresh)) (cb_watermark b)\<rparr>)
      | Some w \<Rightarrow> (tl (events_from w (cb_outbox b)), b))"

definition bus_advance :: "string \<Rightarrow> string \<Rightarrow> catalyst_bus \<Rightarrow> catalyst_bus" where
  "bus_advance consumer i b = b\<lparr>cb_watermark := map_set consumer i (cb_watermark b)\<rparr>"

definition pendingCount :: "catalyst_bus \<Rightarrow> nat" where
  "pendingCount b = length (cb_outbox b)"

text \<open>On PostgreSQL the outbox is unique by identifier and by dedupe key, only the second conflict is handled, and the replay is in
  the order of the identifiers, by the collation \<open>le\<close>.\<close>

definition pg_bus_enqueue :: "catalyst_event \<Rightarrow> catalyst_bus \<Rightarrow> (string + unit outcome) \<times> catalyst_bus" where
  "pg_bus_enqueue e b =
     (if ce_dedupe e \<in> ce_dedupe ` set (cb_outbox b) then (Inr (Refused ''DUPLICATE_EVENT''), b)
      else if ce_id e \<in> ce_id ` set (cb_outbox b) then (Inl ''23505'', b) else (Inr (Ok ()), b\<lparr>cb_outbox := cb_outbox b @ [e]\<rparr>))"

fun insert_event_by :: "(string \<Rightarrow> string \<Rightarrow> bool) \<Rightarrow> catalyst_event \<Rightarrow> catalyst_event list \<Rightarrow> catalyst_event list" where
  "insert_event_by le e [] = [e]"
| "insert_event_by le e (x # xs) = (if le (ce_id e) (ce_id x) then e # x # xs else x # insert_event_by le e xs)"

definition pg_bus_replay :: "(string \<Rightarrow> string \<Rightarrow> bool) \<Rightarrow> string \<Rightarrow> string \<Rightarrow> catalyst_bus \<Rightarrow> catalyst_event list" where
  "pg_bus_replay le consumer from b =
     (let sorted' = foldr (insert_event_by le) (cb_outbox b) [] in
      case map_of (cb_watermark b) consumer of
        Some (c # cs) \<Rightarrow> filter (\<lambda>e. le (c # cs) (ce_id e) \<and> ce_id e \<noteq> c # cs) sorted'
      | _ \<Rightarrow> filter (\<lambda>e. le from (ce_id e)) sorted')"

text \<open>The gate before acting: the invalidating events and the code when a decision is not fresh.\<close>

definition checkCatalystFreshness :: "string option \<Rightarrow> catalyst_event list \<Rightarrow> (string \<times> catalyst_event list) option" where
  "checkCatalystFreshness watermark outbox =
     (if \<not> truthy watermark then Some (''WATERMARK_MISSING'', outbox)
      else if the watermark \<notin> ce_id ` set outbox then Some (''WATERMARK_MISMATCH'', outbox)
      else let after = tl (events_from (the watermark) outbox)
        in if after \<noteq> [] then Some (''WATERMARK_MISMATCH'', after) else None)"

definition checkInferenceBudget :: "jsnum \<Rightarrow> jsnum \<Rightarrow> jsnum outcome" where
  "checkInferenceBudget spent cap =
     (if \<not> is_finite_num spent \<or> \<not> is_finite_num cap \<or> num_lt spent (Fin 0) \<or> \<not> num_lt (Fin 0) cap then Refused ''BUDGET_EXHAUSTED''
      else let remaining = num_sub cap spent in if num_le remaining (Fin 0) then Refused ''BUDGET_EXHAUSTED'' else Ok remaining)"

section \<open>Ensemble, lineage and gate\<close>

record ensemble_component =
  ec_p_yes :: jsnum
  ec_family :: string
  ec_weight :: "jsnum option"

definition component_weight :: "(string \<Rightarrow> jsnum option) option \<Rightarrow> nat \<Rightarrow> ensemble_component \<Rightarrow> jsnum" where
  "component_weight pinned n c =
     (case first_some [Option.bind pinned (\<lambda>b. b (ec_family c)), ec_weight c] of Some w \<Rightarrow> w | None \<Rightarrow> num_div (Fin 1) (num_of_bigint (int n)))"

definition ensembleForecast ::
  "ensemble_component list \<Rightarrow> (string \<Rightarrow> jsnum option) option \<Rightarrow> string \<Rightarrow> (jsnum \<times> string \<times> nat) outcome" where
  "ensembleForecast cs pinned version =
     (if cs = [] then Refused ''NO_VALID_COMPONENT''
      else case fold (\<lambda>c (num, den). let w = component_weight pinned (length cs) c in (num_add num (num_mul (ec_p_yes c) w), num_add den w)) cs
             (Fin 0, Fin 0) of
             (num, den) \<Rightarrow>
               if num_le den (Fin 0) then Refused ''NO_VALID_COMPONENT''
               else Ok (num_div num den, version, card (set (map ec_family cs))))"

text \<open>What \<open>saveEnsemble\<close> stores of a component, and the count that reads it back: a stored component is the list of its text fields.\<close>

definition stored_component :: "ensemble_component \<Rightarrow> (string \<times> string) list" where
  "stored_component c = [(''familyId'', ec_family c)]"

definition countComponentFamilies :: "(string \<times> string) list list option \<Rightarrow> nat" where
  "countComponentFamilies raw =
     (case raw of
        None \<Rightarrow> 1
      | Some cs \<Rightarrow> max (card (set (filter (\<lambda>s. s \<noteq> []) (List.map_filter (\<lambda>c. map_of c ''component'') cs)))) 1)"

record model_lineage =
  ml_provider :: string
  ml_model :: string
  ml_fingerprint :: "string option"
  ml_source :: string

definition lineageSummary :: "model_lineage \<Rightarrow> string" where
  "lineageSummary l =
     ml_provider l @ ''@'' @ ml_model l @ '' (fp:'' @ (case ml_fingerprint l of Some f \<Rightarrow> f | None \<Rightarrow> ''UNKNOWN'') @ '', src:'' @ ml_source l @ '')''"

definition isSavedResponseReplay :: "model_lineage \<Rightarrow> bool" where
  "isSavedResponseReplay l \<longleftrightarrow> ml_source l = ''SAVED_RESPONSE_REPLAY''"

record gated_forecast =
  gf_distribution :: "jsnum list option"
  gf_p_raw :: "jsnum option"
  gf_p_calibrated :: "jsnum option"
  gf_p_conservative :: "jsnum option"
  gf_valid_until :: "ms option"
  gf_created :: ms
  gf_abstain :: "string option"
  gf_evidence :: "string list"
  gf_counter :: "string list"

definition gateForecast :: "gated_forecast \<Rightarrow> string list" where
  "gateForecast f =
     (case gf_distribution f of
        Some ps \<Rightarrow> if num_lt (fl (1 / 10 ^ 6)) (num_abs (num_sub (num_sum ps) (Fin 1))) then [''distribution_not_normalized''] else []
      | None \<Rightarrow> []) @
     (if gf_p_raw f = None \<and> gf_p_calibrated f = None \<and> gf_p_conservative f = None \<and> gf_distribution f = None
      then [''no_probability_shape''] else []) @
     (if gf_valid_until f = None then [''missing_valid_until''] else []) @
     (if (case gf_valid_until f of Some t \<Rightarrow> t \<le> gf_created f | None \<Rightarrow> True) then [''valid_until_not_after_created''] else []) @
     (if \<not> truthy (gf_abstain f) \<and> gf_evidence f = [] \<and> gf_counter f = [] then [''no_evidence_trace''] else [])"

section \<open>Untrusted content\<close>

datatype privileged_action = Act_SIGN | Act_SHELL | Act_SECRET_READ | Act_POLICY_WRITE | Act_MANDATE_WRITE

definition PRIVILEGED_ACTIONS :: "privileged_action list" where
  "PRIVILEGED_ACTIONS = [Act_SIGN, Act_SHELL, Act_SECRET_READ, Act_POLICY_WRITE, Act_MANDATE_WRITE]"

definition canPerform :: "bool \<Rightarrow> privileged_action \<Rightarrow> bool" where
  "canPerform untrusted action \<longleftrightarrow> (if action \<in> set PRIVILEGED_ACTIONS then \<not> untrusted else True)"

definition boundary_enforce :: "bool \<Rightarrow> privileged_action \<Rightarrow> ('w, unit) eff" where
  "boundary_enforce untrusted action =
     (if untrusted \<and> action \<in> set PRIVILEGED_ACTIONS then throw_eff ''UNTRUSTED_ACTION_BLOCKED'' else return_eff ())"

definition wrapTool :: "('w, 'a) eff \<Rightarrow> ('w \<Rightarrow> bool) \<Rightarrow> privileged_action \<Rightarrow> ('w, 'a) eff" where
  "wrapTool tool evidence action w = bind_eff (boundary_enforce (evidence w) action) (\<lambda>_. tool) w"

section \<open>Research budget\<close>

record research_used =
  ru_tokens :: int
  ru_cost :: int

definition quota_tokens :: "jsnum \<Rightarrow> js_error + int" where
  "quota_tokens maxTokens = (case parse_bigint (num_to_string maxTokens) of Some n \<Rightarrow> Inr n | None \<Rightarrow> Inl SyntaxError)"

text \<open>A charge whose cost is no number throws after the tokens were added.\<close>

definition budget_charge :: "jsnum \<Rightarrow> jsnum \<Rightarrow> research_used \<Rightarrow> (js_error + unit) \<times> research_used" where
  "budget_charge tokens cost u =
     (case bigint_of_num (math_round tokens) of
        Inl e \<Rightarrow> (Inl e, u)
      | Inr n \<Rightarrow>
          let u1 = u\<lparr>ru_tokens := ru_tokens u + n\<rparr> in
          (case bigint_of_num (math_round (num_mul cost (Fin 1000000))) of
             Inl e \<Rightarrow> (Inl e, u1) | Inr c \<Rightarrow> (Inr (), u1\<lparr>ru_cost := ru_cost u1 + c\<rparr>)))"

definition budget_check :: "jsnum \<Rightarrow> jsnum \<Rightarrow> research_used \<Rightarrow> js_error + int outcome" where
  "budget_check maxTokens needed u =
     (case bigint_of_num (math_round needed) of
        Inl e \<Rightarrow> Inl e
      | Inr n \<Rightarrow>
          (case quota_tokens maxTokens of
             Inl e \<Rightarrow> Inl e
           | Inr q \<Rightarrow> Inr (if q < ru_tokens u + n then Refused ''BUDGET_EXHAUSTED'' else Ok (q - ru_tokens u))))"

text \<open>The table \<open>research_budget\<close>; the column is a bigint, so only integral charges are accepted.\<close>

definition pg_budget_charge :: "int \<Rightarrow> int \<Rightarrow> research_used list \<Rightarrow> research_used list" where
  "pg_budget_charge tokens cost t = map (\<lambda>u. u\<lparr>ru_tokens := ru_tokens u + tokens, ru_cost := ru_cost u + cost\<rparr>) t"

definition pg_budget_check :: "jsnum \<Rightarrow> jsnum \<Rightarrow> research_used list \<Rightarrow> js_error + int outcome" where
  "pg_budget_check maxTokens needed t =
     (let used = (case t of u # _ \<Rightarrow> ru_tokens u | [] \<Rightarrow> 0) in
      case quota_tokens maxTokens of
        Inl e \<Rightarrow> Inl e
      | Inr q \<Rightarrow> (case bigint_of_num (math_round needed) of
            Inl e \<Rightarrow> Inl e | Inr n \<Rightarrow> Inr (if q < used + n then Refused ''BUDGET_EXHAUSTED'' else Ok (q - used))))"

definition pg_budget_reset :: "research_used list \<Rightarrow> research_used list" where
  "pg_budget_reset t = map (\<lambda>u. \<lparr>ru_tokens = 0, ru_cost = 0\<rparr>) t"

section \<open>URL helpers\<close>

definition strip_slashes :: "string \<Rightarrow> string" where
  "strip_slashes s = rev (dropWhile (\<lambda>c. c = CHR ''/'') (rev s))"

definition joinApiPath :: "string \<Rightarrow> string \<Rightarrow> string" where
  "joinApiPath baseUrl path =
     (let base = strip_slashes baseUrl; p = dropWhile (\<lambda>c. c = CHR ''/'') path
      in if starts_with (rev ''/v1'') (rev base) \<and> starts_with ''v1/'' p then base @ ''/'' @ drop 3 p else base @ ''/'' @ p)"

definition normalizeOpenAICompatible :: "string option \<Rightarrow> string \<Rightarrow> string" where
  "normalizeOpenAICompatible baseUrl fallback = (if truthy baseUrl then strip_slashes (the baseUrl) else fallback)"

section \<open>Facts and quirks\<close>

text \<open>Two schemes of one article: one family on PostgreSQL, two in memory, where the family is kept under its own name only.\<close>

definition article :: "string \<Rightarrow> source_record" where
  "article u = \<lparr>sr_url = u, sr_class = SECONDARY, sr_score = Fin 1, sr_parent = None\<rparr>"

lemma wire_copies_counted_twice:
  "independentFamilies [''http://x/a'', ''https://x/a'']
     (snd (source_register (article ''https://x/a'') (snd (source_register (article ''http://x/a'') \<lparr>rg_records = [], rg_family = []\<rparr>))))
     = {''http://x/a'', ''https://x/a''}"
  "pg_independentFamilies [''http://x/a'', ''https://x/a'']
     (snd (pg_source_register (article ''https://x/a'') (snd (pg_source_register (article ''http://x/a'') [])))) = {''x/a''}"
  by (simp_all add: source_register_def article_def source_key_def url_key_def strip_scheme_def strip_www_def is_word_char_def starts_with_def
      independentFamilies_def family_of_url_def pg_source_register_def put_row_def pg_independentFamilies_def pg_family_of_url_def
      pg_source_family_def Let_def)

lemma weight_at_most_one:
  "weightEvidence expf rel pub source now families contradicted late = NaN \<or>
   num_le (weightEvidence expf rel pub source now families contradicted late) (Fin 1)"
proof -
  have "num_min (Fin 1) x = NaN \<or> num_le (num_min (Fin 1) x) (Fin 1)" for x
    using num_min_le [of "Fin 1" x] by (cases "x = NaN") simp_all
  then show ?thesis by (simp add: weightEvidence_def Let_def)
qed

text \<open>A distribution that does not add up to a number counts as normalised.\<close>

lemma nan_distribution_passes: "gateForecast \<lparr>gf_distribution = Some [NaN], gf_p_raw = None, gf_p_calibrated = None, gf_p_conservative = None,
    gf_valid_until = Some 1, gf_created = 0, gf_abstain = None, gf_evidence = [''e''], gf_counter = []\<rparr> = []"
  by (simp add: gateForecast_def num_sum_def num_sub_def num_abs_def)

lemma untrusted_tool_never_runs:
  "evidence w \<Longrightarrow> wrapTool tool evidence action w = (Inl ''UNTRUSTED_ACTION_BLOCKED'', w)"
  by (cases action) (simp_all add: wrapTool_def boundary_enforce_def PRIVILEGED_ACTIONS_def eff_defs)

text \<open>The component names the count looks for are never stored: every stored ensemble has one family.\<close>

lemma stored_families_are_one: "countComponentFamilies (Some (map stored_component cs)) = 1"
proof -
  have "List.map_filter (\<lambda>c. map_of c ''component'') (map stored_component cs) = []"
    by (induction cs) (simp_all add: stored_component_def List.map_filter_def)
  then show ?thesis by (simp add: countComponentFamilies_def)
qed

text \<open>Nothing inserts a row into \<open>research_budget\<close>: charges change nothing and the check sees nothing used. The cost is never
  checked at all.\<close>

lemma pg_budget_never_charges:
  assumes "quota_tokens maxTokens = Inr q" and "bigint_of_num (math_round needed) = Inr n" and "n \<le> q"
  shows "pg_budget_check maxTokens needed (fold (\<lambda>(t, c). pg_budget_charge t c) charges []) = Inr (Ok q)"
proof -
  have "fold (\<lambda>(t, c). pg_budget_charge t c) charges [] = []"
    by (induction charges) (auto simp: pg_budget_charge_def)
  with assms show ?thesis by (simp add: pg_budget_check_def)
qed

lemma cost_is_never_checked: "budget_check maxTokens needed (u\<lparr>ru_cost := c\<rparr>) = budget_check maxTokens needed u"
  by (simp add: budget_check_def split: sum.split)

text \<open>An event that arrives with a smaller identifier than the watermark is never replayed from PostgreSQL.\<close>

lemma insert_event_by_set [simp]: "set (insert_event_by le e xs) = insert e (set xs)"
  by (induction xs) auto

lemma late_small_id_never_replayed:
  assumes "map_of (cb_watermark b) consumer = Some w" and "w \<noteq> []" and "\<not> le w (ce_id e)"
  shows "e \<notin> set (pg_bus_replay le consumer from b)"
  using assms by (cases w) (auto simp: pg_bus_replay_def Let_def)

section \<open>Delivery of the catalyst bus\<close>

text \<open>A consumer that advances its watermark to the last event of every replay.\<close>

datatype bus_op = Bus_Enqueue catalyst_event | Bus_Consume

definition consume_events :: "string \<Rightarrow> string \<Rightarrow> catalyst_bus \<times> catalyst_event list \<Rightarrow> catalyst_bus \<times> catalyst_event list" where
  "consume_events consumer from s =
     (case bus_replay consumer from (fst s) of
        (fresh, b) \<Rightarrow> (if fresh = [] then b else bus_advance consumer (ce_id (last fresh)) b, snd s @ fresh))"

fun bus_op_step :: "string \<Rightarrow> string \<Rightarrow> bus_op \<Rightarrow> catalyst_bus \<times> catalyst_event list \<Rightarrow> catalyst_bus \<times> catalyst_event list" where
  "bus_op_step consumer from (Bus_Enqueue e) s = (snd (bus_enqueue e (fst s)), snd s)"
| "bus_op_step consumer from Bus_Consume s = consume_events consumer from s"

definition run_bus :: "string \<Rightarrow> string \<Rightarrow> bus_op list \<Rightarrow> catalyst_bus \<times> catalyst_event list" where
  "run_bus consumer from ops = fold (bus_op_step consumer from) ops (\<lparr>cb_outbox = [], cb_watermark = []\<rparr>, [])"

definition bus_inv :: "string \<Rightarrow> string \<Rightarrow> catalyst_bus \<times> catalyst_event list \<Rightarrow> bool" where
  "bus_inv consumer from s \<longleftrightarrow> distinct (map ce_id (cb_outbox (fst s))) \<and>
     (\<exists>rest. events_from from (cb_outbox (fst s)) = snd s @ rest) \<and>
     (case map_of (cb_watermark (fst s)) consumer of None \<Rightarrow> snd s = [] | Some w \<Rightarrow> snd s \<noteq> [] \<and> w = ce_id (last (snd s)))"

lemma events_from_split:
  assumes "distinct (map ce_id es)" and "es = xs @ e # ys"
  shows "events_from (ce_id e) es = e # ys"
proof -
  have "ce_id e \<notin> ce_id ` set xs" using assms by auto
  then have "\<forall>x \<in> set xs. ce_id x \<noteq> ce_id e" by (metis imageI)
  then show ?thesis by (simp add: assms(2) events_from_def dropWhile_append2)
qed

lemma events_from_suffix: "\<exists>pre. es = pre @ events_from i es"
  unfolding events_from_def by (metis takeWhile_dropWhile_id)

lemma events_from_append: "events_from i (es @ [e]) = (if events_from i es = [] then events_from i [e] else events_from i es @ [e])"
  unfolding events_from_def by (induction es) auto

lemma bus_consume_all:
  assumes inv: "bus_inv consumer from s"
  shows "bus_inv consumer from (consume_events consumer from s) \<and>
    snd (consume_events consumer from s) = events_from from (cb_outbox (fst (consume_events consumer from s)))"
proof -
  let ?b = "fst s" and ?d = "snd s"
  let ?all = "events_from from (cb_outbox ?b)"
  have dis: "distinct (map ce_id (cb_outbox ?b))" using inv by (simp add: bus_inv_def)
  obtain rest where rest: "?all = ?d @ rest" using inv by (auto simp: bus_inv_def)
  obtain pre where pre: "cb_outbox ?b = pre @ ?all" using events_from_suffix by blast
  show ?thesis
  proof (cases "map_of (cb_watermark ?b) consumer")
    case None
    then have "?d = []" using inv by (simp add: bus_inv_def)
    with None rest dis show ?thesis
      by (auto simp: consume_events_def bus_replay_def bus_advance_def bus_inv_def map_of_map_set Let_def)
  next
    case (Some w)
    then have d: "?d \<noteq> []" and w: "w = ce_id (last ?d)" using inv by (simp_all add: bus_inv_def)
    have "cb_outbox ?b = (pre @ butlast ?d) @ last ?d # rest"
      using pre rest d by (metis append.assoc append_butlast_last_id append_Cons append_Nil)
    from events_from_split [OF dis this] w have "tl (events_from w (cb_outbox ?b)) = rest" by simp
    with Some rest dis d w show ?thesis
      by (auto simp: consume_events_def bus_replay_def bus_advance_def bus_inv_def map_of_map_set Let_def)
  qed
qed

lemma bus_enqueue_inv: "bus_inv consumer from s \<Longrightarrow> bus_inv consumer from (snd (bus_enqueue e (fst s)), snd s)"
  by (auto simp: bus_inv_def bus_enqueue_def events_from_append split: if_splits option.splits)

lemma run_bus_inv: "bus_inv consumer from (run_bus consumer from ops)"
proof -
  have "bus_inv consumer from s \<Longrightarrow> bus_inv consumer from (fold (bus_op_step consumer from) ops s)" for s
  proof (induction ops arbitrary: s)
    case (Cons x ops)
    have "bus_inv consumer from (bus_op_step consumer from x s)"
      using Cons.prems bus_enqueue_inv bus_consume_all by (cases x) simp_all
    then show ?case using Cons.IH by simp
  qed simp
  then show ?thesis by (simp add: run_bus_def bus_inv_def events_from_def)
qed

text \<open>Without the advance every replay after the first repeats what followed the first.\<close>

lemma replay_alone_repeats:
  "map_of (cb_watermark b) consumer = Some w \<Longrightarrow> snd (bus_replay consumer from b) = b"
  by (simp add: bus_replay_def)

section \<open>Properties\<close>

text \<open>The catalyst bus delivers in order and exactly once to a consumer that advances its watermark. However enqueues, repeated ones
  included, and replays interleave, what the consumer has been given is a prefix of the events from its starting event on,
  without repetition, and right after a replay it is all of them.\<close>

theorem catalyst_delivery:
  "(\<exists>rest. events_from from (cb_outbox (fst (run_bus consumer from ops))) = snd (run_bus consumer from ops) @ rest) \<and>
   distinct (map ce_id (snd (run_bus consumer from ops))) \<and>
   snd (run_bus consumer from (ops @ [Bus_Consume])) = events_from from (cb_outbox (fst (run_bus consumer from (ops @ [Bus_Consume]))))"
proof -
  have inv: "bus_inv consumer from (run_bus consumer from ops)" by (rule run_bus_inv)
  then obtain rest where rest: "events_from from (cb_outbox (fst (run_bus consumer from ops))) = snd (run_bus consumer from ops) @ rest"
    and dis: "distinct (map ce_id (cb_outbox (fst (run_bus consumer from ops))))" by (auto simp: bus_inv_def)
  obtain pre where "cb_outbox (fst (run_bus consumer from ops)) = pre @ events_from from (cb_outbox (fst (run_bus consumer from ops)))"
    using events_from_suffix by blast
  with dis rest have "distinct (map ce_id (snd (run_bus consumer from ops)))" by (metis distinct_append map_append)
  moreover have "run_bus consumer from (ops @ [Bus_Consume]) = consume_events consumer from (run_bus consumer from ops)"
    by (simp add: run_bus_def)
  ultimately show ?thesis using rest bus_consume_all [OF inv] by auto
qed

end
