(* ===== verification/Validation.thy ===== *)
theory Validation
  imports Portfolio Governance Rounding
begin

text \<open>
  The paper simulator (\<open>src/pm/runtime/src/paper-engine.ts\<close>): simulated fills, probability quality, economic metrics, the registry
  of simulated experiments and both paper loops, the second of which sends every admitted decision through the money path. The
  random numbers are drawn from a state, \<open>Math.log\<close> is a parameter; \<open>x ** 2\<close> is the rounded square.
\<close>

section \<open>Simulated fills\<close>

datatype sim_status = Sim_FILLED | Sim_PARTIAL | Sim_CANCELLED

record sim_fill =
  sf_status :: sim_status
  sf_filled :: jsnum
  sf_price :: jsnum
  sf_maker_fee :: jsnum
  sf_taker_fee :: jsnum
  sf_latency :: jsnum

record fill_input =
  fi_depth :: jsnum
  fi_taker :: bool
  fi_maker_bps :: jsnum
  fi_taker_bps :: jsnum
  fi_latency :: jsnum
  fi_cancel :: jsnum
  fi_fraction :: jsnum

definition cancelled_fill :: "fill_input \<Rightarrow> sim_fill" where
  "cancelled_fill I = \<lparr>sf_status = Sim_CANCELLED, sf_filled = Fin 0, sf_price = Fin 0, sf_maker_fee = Fin 0, sf_taker_fee = Fin 0,
     sf_latency = fi_latency I\<rparr>"

definition filled_size :: "fill_input \<Rightarrow> jsnum \<Rightarrow> jsnum" where
  "filled_size I size' = (if num_le size' (fi_depth I) then size' else math_floor (num_mul size' (fi_fraction I)))"

definition bps_fee :: "jsnum \<Rightarrow> jsnum \<Rightarrow> jsnum" where
  "bps_fee notional bps = math_round (num_div (num_mul notional bps) (Fin 10000))"

text \<open>\<open>draw\<close> is the number the random source returned.\<close>

definition simulateFill :: "fill_input \<Rightarrow> jsnum \<Rightarrow> jsnum \<Rightarrow> jsnum \<Rightarrow> jsnum \<Rightarrow> sim_fill" where
  "simulateFill I size' bid ask draw =
     (let price = (if fi_taker I then ask else bid) in
      if num_lt draw (fi_cancel I) then cancelled_fill I
      else let filled = filled_size I size' in
        if num_le filled (Fin 0) then cancelled_fill I
        else let notional = num_mul filled price
          in \<lparr>sf_status = (if num_lt filled size' then Sim_PARTIAL else Sim_FILLED), sf_filled = filled, sf_price = price,
              sf_maker_fee = (if fi_taker I then Fin 0 else bps_fee notional (fi_maker_bps I)),
              sf_taker_fee = (if fi_taker I then bps_fee notional (fi_taker_bps I) else Fin 0), sf_latency = fi_latency I\<rparr>)"

definition evaluateShadowCandidate :: "jsnum \<Rightarrow> jsnum \<Rightarrow> jsnum \<Rightarrow> jsnum \<Rightarrow> bool" where
  "evaluateShadowCandidate observedDays resolvedClusters minDays minClusters \<longleftrightarrow>
     \<not> num_lt observedDays minDays \<and> \<not> num_lt resolvedClusters minClusters"

section \<open>Probability quality\<close>

definition num_count :: "nat \<Rightarrow> jsnum" where
  "num_count n = num_of_bigint (int n)"

definition per_item :: "jsnum \<Rightarrow> jsnum list \<Rightarrow> jsnum" where
  "per_item s xs = num_div s (num_count (length xs))"

definition paired :: "jsnum list \<Rightarrow> jsnum list \<Rightarrow> ((jsnum \<times> jsnum) list \<Rightarrow> jsnum) \<Rightarrow> string + jsnum" where
  "paired ps ys f = (if length ps \<noteq> length ys then Inl ''length mismatch'' else Inr (f (zip ps ys)))"

definition brierScore :: "jsnum list \<Rightarrow> jsnum list \<Rightarrow> string + jsnum" where
  "brierScore ps ys =
     paired ps ys (\<lambda>pys. per_item (num_sum (map (\<lambda>(p, y). let d = num_sub p y in num_mul d d) pys)) ps)"

definition log_term :: "(jsnum \<Rightarrow> jsnum) \<Rightarrow> jsnum \<times> jsnum \<Rightarrow> jsnum" where
  "log_term logf py =
     (case py of (pRaw, y) \<Rightarrow>
        let eps = fl (1 / 10 ^ 9); p = num_min (num_sub (Fin 1) eps) (num_max eps pRaw)
        in num_neg (num_add (num_mul y (logf p)) (num_mul (num_sub (Fin 1) y) (logf (num_sub (Fin 1) p)))))"

definition logLoss :: "(jsnum \<Rightarrow> jsnum) \<Rightarrow> jsnum list \<Rightarrow> jsnum list \<Rightarrow> string + jsnum" where
  "logLoss logf ps ys = paired ps ys (\<lambda>pys. per_item (num_sum (map (log_term logf) pys)) ps)"

definition in_bin :: "nat \<Rightarrow> nat \<Rightarrow> jsnum \<Rightarrow> bool" where
  "in_bin bins b p \<longleftrightarrow> num_le (num_div (num_count b) (num_count bins)) p \<and> num_lt p (num_div (num_count (b + 1)) (num_count bins))"

definition bin_error :: "nat \<Rightarrow> (jsnum \<times> jsnum) list \<Rightarrow> nat \<Rightarrow> jsnum option" where
  "bin_error bins pys b =
     (let hits = filter (\<lambda>(p, _). in_bin bins b p) pys; n = num_count (length hits)
      in if hits = [] then None
         else Some (num_abs (num_sub (num_div (num_sum (map snd hits)) n) (num_div (num_sum (map fst hits)) n))))"

definition calibrationError :: "jsnum list \<Rightarrow> jsnum list \<Rightarrow> nat \<Rightarrow> string + jsnum" where
  "calibrationError ps ys bins =
     paired ps ys (\<lambda>pys. let errs = List.map_filter (bin_error bins pys) [0..<bins]
       in if errs = [] then Fin 0 else num_div (num_sum errs) (num_count (length errs)))"

definition sharpness :: "jsnum list \<Rightarrow> jsnum" where
  "sharpness ps = (if ps = [] then NaN else per_item (num_sum (map (\<lambda>p. num_abs (num_sub p (Fin (1 / 2)))) ps)) ps)"

definition coverage :: "jsnum list \<Rightarrow> jsnum list \<Rightarrow> jsnum \<Rightarrow> string + jsnum" where
  "coverage ps ys band =
     paired ps ys (\<lambda>pys. if ps = [] then NaN
       else per_item (num_count (length (filter (\<lambda>(p, y). num_le (num_abs (num_sub p y)) band) pys))) ps)"

definition abstentionRate :: "jsnum list \<Rightarrow> jsnum \<Rightarrow> jsnum" where
  "abstentionRate ps threshold =
     (if ps = [] then NaN
      else per_item (num_count (length (filter (\<lambda>p. num_lt (num_abs (num_sub p (Fin (1 / 2)))) threshold) ps))) ps)"

record prob_quality =
  pq_brier :: jsnum
  pq_log_loss :: jsnum
  pq_calibration :: jsnum
  pq_sharpness :: jsnum
  pq_coverage :: jsnum
  pq_abstention :: jsnum
  pq_n :: nat

definition computeProbQuality :: "(jsnum \<Rightarrow> jsnum) \<Rightarrow> jsnum list \<Rightarrow> jsnum list \<Rightarrow> string + prob_quality" where
  "computeProbQuality logf ps ys =
     (case brierScore ps ys of Inl e \<Rightarrow> Inl e | Inr brier \<Rightarrow>
      (case logLoss logf ps ys of Inl e \<Rightarrow> Inl e | Inr ll \<Rightarrow>
       (case calibrationError ps ys 10 of Inl e \<Rightarrow> Inl e | Inr ce \<Rightarrow>
        (case coverage ps ys (Fin (1 / 4)) of Inl e \<Rightarrow> Inl e | Inr cov \<Rightarrow>
           Inr \<lparr>pq_brier = brier, pq_log_loss = ll, pq_calibration = ce, pq_sharpness = sharpness ps, pq_coverage = cov,
                pq_abstention = abstentionRate ps (fl (2 / 100)), pq_n = length ps\<rparr>))))"

definition no_quality :: prob_quality where
  "no_quality = \<lparr>pq_brier = NaN, pq_log_loss = NaN, pq_calibration = NaN, pq_sharpness = NaN, pq_coverage = NaN, pq_abstention = NaN, pq_n = 0\<rparr>"

section \<open>Economic metrics\<close>

definition drawdown_step :: "jsnum \<Rightarrow> jsnum \<times> jsnum \<Rightarrow> jsnum \<times> jsnum" where
  "drawdown_step v s =
     (case s of (peak, dd) \<Rightarrow>
        let peak' = (if num_lt peak v then v else peak);
            d = (if num_lt (Fin 0) peak' then num_div (num_sub peak' v) peak' else Fin 0)
        in (peak', if num_lt dd d then d else dd))"

definition maxDrawdown :: "jsnum list \<Rightarrow> jsnum" where
  "maxDrawdown curve = (case curve of [] \<Rightarrow> Fin 0 | v # _ \<Rightarrow> snd (fold drawdown_step curve (v, Fin 0)))"

definition concentrationIndex :: "jsnum list \<Rightarrow> jsnum" where
  "concentrationIndex pnls =
     (let total = num_sum pnls in
      if num_eq total (Fin 0) then Fin 0 else num_sum (map (\<lambda>v. let share = num_div v total in num_mul share share) pnls))"

record economic_input =
  ei_curve :: "jsnum list"
  ei_fees :: jsnum
  ei_gross :: jsnum
  ei_turnover :: jsnum
  ei_capacity :: jsnum
  ei_pnls :: "jsnum list"
  ei_submitted :: jsnum
  ei_filled :: jsnum

record economic_metrics =
  em_net :: jsnum
  em_drawdown :: jsnum
  em_fill_ratio :: jsnum
  em_turnover :: jsnum
  em_capacity :: jsnum
  em_concentration :: jsnum

definition computeEconomicMetrics :: "economic_input \<Rightarrow> economic_metrics" where
  "computeEconomicMetrics I =
     \<lparr>em_net = num_sub (ei_gross I) (ei_fees I), em_drawdown = maxDrawdown (ei_curve I),
      em_fill_ratio = (if num_lt (Fin 0) (ei_submitted I) then num_div (ei_filled I) (ei_submitted I) else Fin 0),
      em_turnover = ei_turnover I,
      em_capacity = (if num_lt (Fin 0) (ei_capacity I)
        then num_min (Fin 100) (num_mul (num_div (ei_turnover I) (ei_capacity I)) (Fin 100)) else Fin 0),
      em_concentration = concentrationIndex (ei_pnls I)\<rparr>"

section \<open>Simulated experiments\<close>

datatype sim_experiment_status = Exp_PREREGISTERED | Exp_RUNNING | Exp_CONCLUDED | Exp_WITHDRAWN

record sim_experiment =
  se_id :: uuid
  se_rule :: string
  se_at :: ms
  se_status :: sim_experiment_status
  se_result :: "prob_quality option"

definition preregister :: "uuid \<Rightarrow> ms \<Rightarrow> string \<Rightarrow> sim_experiment list \<Rightarrow> sim_experiment \<times> sim_experiment list" where
  "preregister i now rule specs =
     (let e = \<lparr>se_id = i, se_rule = rule, se_at = now, se_status = Exp_PREREGISTERED, se_result = None\<rparr> in (e, specs @ [e]))"

fun change_first :: "('a \<Rightarrow> bool) \<Rightarrow> ('a \<Rightarrow> 'a) \<Rightarrow> 'a list \<Rightarrow> 'a option \<times> 'a list" where
  "change_first P f [] = (None, [])"
| "change_first P f (x # xs) =
     (if P x then (Some (f x), f x # xs) else (case change_first P f xs of (r, ys) \<Rightarrow> (r, x # ys)))"

definition conclude :: "uuid \<Rightarrow> prob_quality \<Rightarrow> sim_experiment list \<Rightarrow> sim_experiment option \<times> sim_experiment list" where
  "conclude i r = change_first (\<lambda>e. se_id e = i) (\<lambda>e. e\<lparr>se_status := Exp_CONCLUDED, se_result := Some r\<rparr>)"

definition withdraw :: "uuid \<Rightarrow> sim_experiment list \<Rightarrow> sim_experiment option \<times> sim_experiment list" where
  "withdraw i = change_first (\<lambda>e. se_id e = i) (\<lambda>e. e\<lparr>se_status := Exp_WITHDRAWN\<rparr>)"

definition get_experiment :: "uuid \<Rightarrow> sim_experiment list \<Rightarrow> sim_experiment option" where
  "get_experiment i specs = find (\<lambda>e. se_id e = i) specs"

definition countByStatus :: "sim_experiment list \<Rightarrow> sim_experiment_status \<Rightarrow> nat" where
  "countByStatus specs st = length (filter (\<lambda>e. se_status e = st) specs)"

section \<open>Paper loops\<close>

record sim_market =
  sk_id :: string
  sk_bid :: jsnum
  sk_ask :: jsnum

record sim_trade =
  tr_market :: string
  tr_buy :: bool
  tr_p :: jsnum
  tr_size :: jsnum
  tr_fill :: sim_fill
  tr_pnl :: jsnum

datatype paper_decision = Sim_No_Trade string | Sim_Trade sim_trade

record paper_books =
  pb_pnls :: "jsnum list"
  pb_curve :: "jsnum list"
  pb_fees :: jsnum
  pb_gross :: jsnum
  pb_turnover :: jsnum
  pb_submitted :: jsnum
  pb_filled :: jsnum

definition empty_paper_books :: paper_books where
  "empty_paper_books = \<lparr>pb_pnls = [], pb_curve = [Fin 1000], pb_fees = Fin 0, pb_gross = Fin 0, pb_turnover = Fin 0,
     pb_submitted = Fin 0, pb_filled = Fin 0\<rparr>"

definition uncertain :: "jsnum \<Rightarrow> bool" where
  "uncertain p \<longleftrightarrow> num_le p (fl (2 / 100)) \<or> num_le (fl (98 / 100)) p \<or> num_lt (num_abs (num_sub p (Fin (1 / 2)))) (fl (2 / 100))"

definition sim_fees :: "sim_fill \<Rightarrow> jsnum" where
  "sim_fees f = num_add (sf_maker_fee f) (sf_taker_fee f)"

definition sim_pnl :: "jsnum \<Rightarrow> sim_fill \<Rightarrow> jsnum" where
  "sim_pnl p f = (if sf_status f = Sim_CANCELLED then Fin 0 else num_sub (num_mul (num_sub p (Fin (1 / 2))) (sf_filled f)) (sim_fees f))"

definition trade_of :: "sim_market \<Rightarrow> jsnum \<Rightarrow> jsnum \<Rightarrow> sim_fill \<Rightarrow> sim_trade" where
  "trade_of m p size' f =
     \<lparr>tr_market = sk_id m, tr_buy = num_lt (Fin (1 / 2)) p, tr_p = p, tr_size = size', tr_fill = f, tr_pnl = sim_pnl p f\<rparr>"

definition book_trade :: "sim_trade \<Rightarrow> paper_books \<Rightarrow> paper_books" where
  "book_trade t b =
     (let f = tr_fill t; pnl = tr_pnl t
      in b\<lparr>pb_filled := num_add (pb_filled b) (sf_filled f), pb_pnls := pb_pnls b @ [pnl], pb_gross := num_add (pb_gross b) (num_add pnl (sim_fees f)),
           pb_turnover := num_add (pb_turnover b) (num_mul (sf_filled f) (sf_price f)),
           pb_fees := num_add (pb_fees b) (sim_fees f), pb_curve := pb_curve b @ [num_add (last (pb_curve b)) pnl]\<rparr>)"

definition paper_economics :: "paper_books \<Rightarrow> economic_metrics" where
  "paper_economics b = computeEconomicMetrics
     \<lparr>ei_curve = pb_curve b, ei_fees = pb_fees b, ei_gross = pb_gross b, ei_turnover = pb_turnover b, ei_capacity = Fin 10000,
      ei_pnls = pb_pnls b, ei_submitted = pb_submitted b, ei_filled = pb_filled b\<rparr>"

record 'r paper_run =
  pr_rng :: 'r
  pr_books :: paper_books
  pr_decisions :: "paper_decision list"
  pr_probs :: "jsnum list"
  pr_outcomes :: "jsnum list"

record paper_model =
  pm_forecast :: "sim_market \<Rightarrow> jsnum option"
  pm_size :: "sim_market \<Rightarrow> jsnum \<Rightarrow> jsnum"
  pm_fill :: fill_input
  pm_resolved :: "string \<Rightarrow> jsnum option"

definition certain_forecast :: "paper_model \<Rightarrow> sim_market \<Rightarrow> jsnum option" where
  "certain_forecast M m = (case pm_forecast M m of None \<Rightarrow> None | Some p \<Rightarrow> if uncertain p then None else Some p)"

definition simulate :: "('r \<Rightarrow> jsnum \<times> 'r) \<Rightarrow> paper_model \<Rightarrow> sim_market \<Rightarrow> jsnum \<Rightarrow> 'r \<Rightarrow> sim_trade \<times> 'r" where
  "simulate rng M m p r = (case rng r of (draw, r') \<Rightarrow>
     let size' = pm_size M m p in (trade_of m p size' (simulateFill (pm_fill M) size' (sk_bid m) (sk_ask m) draw), r'))"

definition submit_size :: "jsnum \<Rightarrow> paper_books \<Rightarrow> paper_books" where
  "submit_size size' b = b\<lparr>pb_submitted := num_add (pb_submitted b) size'\<rparr>"

definition paper_market :: "('r \<Rightarrow> jsnum \<times> 'r) \<Rightarrow> paper_model \<Rightarrow> sim_market \<Rightarrow> 'r paper_run \<Rightarrow> 'r paper_run" where
  "paper_market rng M m s =
     (case certain_forecast M m of
        None \<Rightarrow> s\<lparr>pr_decisions := pr_decisions s @ [Sim_No_Trade (sk_id m)]\<rparr>
      | Some p \<Rightarrow>
          (case simulate rng M m p (pr_rng s) of (t, r) \<Rightarrow>
             s\<lparr>pr_rng := r, pr_books := book_trade t (submit_size (tr_size t) (pr_books s)),
               pr_decisions := pr_decisions s @ [Sim_Trade t], pr_probs := pr_probs s @ [p],
               pr_outcomes := pr_outcomes s @ (case pm_resolved M (sk_id m) of Some y \<Rightarrow> [y] | None \<Rightarrow> [])\<rparr>))"

record paper_result =
  pl_decisions :: "paper_decision list"
  pl_probs :: "jsnum list"
  pl_outcomes :: "jsnum list"
  pl_economic :: economic_metrics
  pl_quality :: prob_quality

definition paper_start :: "'r \<Rightarrow> 'r paper_run" where
  "paper_start r = \<lparr>pr_rng = r, pr_books = empty_paper_books, pr_decisions = [], pr_probs = [], pr_outcomes = []\<rparr>"

definition runPaperLoop ::
  "(jsnum \<Rightarrow> jsnum) \<Rightarrow> ('r \<Rightarrow> jsnum \<times> 'r) \<Rightarrow> paper_model \<Rightarrow> sim_market list \<Rightarrow> 'r \<Rightarrow> string + paper_result" where
  "runPaperLoop logf rng M ms r =
     (let s = fold (paper_market rng M) ms (paper_start r) in
      case (if pr_outcomes s = [] then Inr no_quality else computeProbQuality logf (pr_probs s) (pr_outcomes s)) of
        Inl e \<Rightarrow> Inl e
      | Inr q \<Rightarrow> Inr \<lparr>pl_decisions = pr_decisions s, pl_probs = pr_probs s, pl_outcomes = pr_outcomes s,
                     pl_economic = paper_economics (pr_books s), pl_quality = q\<rparr>)"

text \<open>The loop through the money path: the entry hook and the orchestration act on the world.\<close>

record 'w paper_hooks =
  ph_gate :: "sim_market \<Rightarrow> financial_gate"
  ph_entry :: "sim_market \<Rightarrow> ('w, unit) eff"
  ph_orchestrate :: "sim_market \<Rightarrow> jsnum \<Rightarrow> jsnum \<Rightarrow> ('w, unit) eff"

type_synonym 'r orch_run = "'r \<times> paper_books \<times> sim_trade list"

definition orch_market ::
  "('r \<Rightarrow> jsnum \<times> 'r) \<Rightarrow> paper_model \<Rightarrow> 'w paper_hooks \<Rightarrow> sim_market \<Rightarrow> 'r orch_run \<Rightarrow> ('w, 'r orch_run) eff" where
  "orch_market rng M H m s w =
     (case s of (r, b, ts) \<Rightarrow>
      case certain_forecast M m of
        None \<Rightarrow> (Inr s, w)
      | Some p \<Rightarrow>
          (case ph_entry H m w of
             (Inl e, w1) \<Rightarrow> (Inl e, w1)
           | (Inr _, w1) \<Rightarrow>
               if ph_gate H m \<noteq> Gate_ALLOW then (Inr s, w1)
               else let size' = pm_size M m p; b1 = submit_size size' b in
                 (case ph_orchestrate H m p size' w1 of
                    (Inl _, w2) \<Rightarrow> (Inr (r, b1, ts), w2)
                  | (Inr _, w2) \<Rightarrow> (case simulate rng M m p r of (t, r') \<Rightarrow> (Inr (r', book_trade t b1, ts @ [t]), w2)))))"

fun orch_markets ::
  "('r \<Rightarrow> jsnum \<times> 'r) \<Rightarrow> paper_model \<Rightarrow> 'w paper_hooks \<Rightarrow> sim_market list \<Rightarrow> 'r orch_run \<Rightarrow> ('w, 'r orch_run) eff" where
  "orch_markets rng M H [] s w = (Inr s, w)"
| "orch_markets rng M H (m # ms) s w = bind_eff (orch_market rng M H m s) (orch_markets rng M H ms) w"

definition runPaperLoopWithOrchestrator ::
  "('r \<Rightarrow> jsnum \<times> 'r) \<Rightarrow> paper_model \<Rightarrow> 'w paper_hooks \<Rightarrow> sim_market list \<Rightarrow> 'r \<Rightarrow> ('w, sim_trade list \<times> economic_metrics) eff" where
  "runPaperLoopWithOrchestrator rng M H ms r w =
     (case orch_markets rng M H ms (r, empty_paper_books, []) w of
        (Inl e, w') \<Rightarrow> (Inl e, w')
      | (Inr (_, b, ts), w') \<Rightarrow> (Inr (ts, paper_economics b), w'))"

section \<open>Fills\<close>

lemma num_floor_le: "is_finite_num x \<Longrightarrow> num_le (math_floor x) x"
  by (cases x) simp_all

text \<open>A simulated fill never exceeds its order, and is partial exactly when it is smaller.\<close>

lemma simulated_fill_bounded:
  assumes "size' = Fin s" and "is_double size'" and "0 \<le> s" and "fi_fraction I = Fin c" and "0 \<le> c" and "c \<le> 1"
  shows "num_le (sf_filled (simulateFill I size' bid ask draw)) size'"
    and "num_le (Fin 0) (sf_filled (simulateFill I size' bid ask draw))"
    and "sf_status (simulateFill I size' bid ask draw) = Sim_PARTIAL \<longleftrightarrow>
         num_lt (Fin 0) (sf_filled (simulateFill I size' bid ask draw)) \<and> num_lt (sf_filled (simulateFill I size' bid ask draw)) size'"
proof -
  have "s * c \<le> s" using assms(3-6) by (simp add: mult_left_le)
  then have "num_le (fl (s * c)) (fl s)" by (rule fl_mono)
  then have up: "num_le (fl (s * c)) (Fin s)" using assms(1,2) by (simp add: representable_def)
  have fin: "is_finite_num (fl (s * c))"
    using up fl_nonneg [of "s * c"] assms(3,5) by (cases "fl (s * c)") simp_all
  have le: "num_le (filled_size I size') size'"
    using up fin num_le_trans [OF num_floor_le [OF fin] up] by (simp add: filled_size_def assms(1,4))
  show "num_le (sf_filled (simulateFill I size' bid ask draw)) size'"
    using le assms(1,3) by (simp add: simulateFill_def cancelled_fill_def Let_def)
  have lin: "\<not> num_le (filled_size I size') (Fin 0) \<Longrightarrow> num_lt (Fin 0) (filled_size I size')"
    using le by (intro num_le_linear) auto
  show "num_le (Fin 0) (sf_filled (simulateFill I size' bid ask draw))"
    using lin by (auto simp: simulateFill_def cancelled_fill_def Let_def intro: num_lt_imp_le)
  show "sf_status (simulateFill I size' bid ask draw) = Sim_PARTIAL \<longleftrightarrow>
         num_lt (Fin 0) (sf_filled (simulateFill I size' bid ask draw)) \<and> num_lt (sf_filled (simulateFill I size' bid ask draw)) size'"
    using lin by (auto simp: simulateFill_def cancelled_fill_def Let_def)
qed

text \<open>A sale is booked as if the shares had been bought: without fees it never earns anything.\<close>

lemma fl_int: "\<bar>m\<bar> \<le> 2 ^ 53 \<Longrightarrow> fl (of_int m) = Fin (of_int m)"
  using representable_intro [of "of_int m" m 0] by (simp add: representable_def pow2_def)

lemma fl_zero: "fl 0 = Fin 0"
  using fl_int [of 0] by simp

lemma fl_at_most_zero: "q \<le> 0 \<Longrightarrow> num_le (fl q) (Fin 0)"
  using fl_mono [of q 0] by (simp add: fl_zero)

lemma a_sale_never_earns:
  assumes "p = Fin q" and "q \<le> 1 / 2" and "sf_filled f = Fin s" and "0 \<le> s"
    and "sf_maker_fee f = Fin 0" and "sf_taker_fee f = Fin 0" and "is_finite_num (num_sub p (Fin (1 / 2)))"
  shows "num_le (sim_pnl p f) (Fin 0)"
proof -
  obtain d where d: "num_sub p (Fin (1 / 2)) = Fin d" using assms(7) by (cases "num_sub p (Fin (1 / 2))") simp_all
  then have "d \<le> 0" using assms(1,2) fl_at_most_zero [of "q - 1 / 2"] by (simp add: num_sub_def)
  then have "d * s \<le> 0" using assms(4) by (rule mult_nonpos_nonneg)
  then have *: "num_le (fl (d * s)) (Fin 0)" by (rule fl_at_most_zero)
  note z = fl_zero
  have "sim_pnl p f = (if sf_status f = Sim_CANCELLED then Fin 0 else num_sub (fl (d * s)) (Fin 0))"
    by (simp add: sim_pnl_def sim_fees_def d assms(3,5,6) z)
  moreover have "num_le (num_sub (fl (d * s)) (Fin 0)) (Fin 0)"
    using * fl_at_most_zero by (cases "fl (d * s)") (simp_all add: num_sub_def)
  ultimately show ?thesis by simp
qed

section \<open>The loops\<close>

lemma paper_market_lengths:
  "pr_probs (paper_market rng M m s) = pr_probs s @ (case certain_forecast M m of Some p \<Rightarrow> [p] | None \<Rightarrow> [])"
  "pr_outcomes (paper_market rng M m s) =
     pr_outcomes s @ (case certain_forecast M m of Some p \<Rightarrow> (case pm_resolved M (sk_id m) of Some y \<Rightarrow> [y] | None \<Rightarrow> []) | None \<Rightarrow> [])"
  by (simp_all add: paper_market_def split: option.split prod.split)

lemma paper_fold_lengths:
  "pr_probs (fold (paper_market rng M) ms s) = pr_probs s @ List.map_filter (certain_forecast M) ms"
  "pr_outcomes (fold (paper_market rng M) ms s) =
     pr_outcomes s @ List.map_filter (\<lambda>m. pm_resolved M (sk_id m)) (filter (\<lambda>m. certain_forecast M m \<noteq> None) ms)"
  by (induction ms arbitrary: s) (auto simp: paper_market_lengths List.map_filter_def split: option.split)

text \<open>One traded market without an outcome, next to one with, and the whole run is lost to the length check.\<close>

lemma partially_resolved_run_is_lost:
  assumes "m1 \<in> set ms" "certain_forecast M m1 \<noteq> None" "pm_resolved M (sk_id m1) \<noteq> None"
    and "m2 \<in> set ms" "certain_forecast M m2 \<noteq> None" "pm_resolved M (sk_id m2) = None"
  shows "runPaperLoop logf rng M ms r = Inl ''length mismatch''"
proof -
  let ?s = "fold (paper_market rng M) ms (paper_start r)"
  let ?c = "filter (\<lambda>m. certain_forecast M m \<noteq> None) ms"
  have outs: "pr_outcomes ?s = List.map_filter (\<lambda>m. pm_resolved M (sk_id m)) ?c"
    by (simp add: paper_fold_lengths paper_start_def)
  have ps: "length (pr_probs ?s) = length ?c"
    by (simp add: paper_fold_lengths paper_start_def List.map_filter_def comp_def)
  have ne: "pr_outcomes ?s \<noteq> []"
    using assms(1-3) by (auto simp: outs List.map_filter_def filter_empty_conv)
  have "length (filter (\<lambda>m. pm_resolved M (sk_id m) \<noteq> None) ?c) < length ?c"
    using assms(4-6) by (intro length_filter_less [of m2]) simp_all
  then have "length (pr_probs ?s) \<noteq> length (pr_outcomes ?s)"
    using ps by (simp add: outs List.map_filter_def comp_def)
  with ne show ?thesis
    by (simp add: runPaperLoop_def computeProbQuality_def brierScore_def paired_def Let_def)
qed

text \<open>Only a market whose gate is open reaches the orchestration: where every gate is closed it can be any function.\<close>

lemma closed_gate_never_orchestrates:
  assumes "\<forall>m \<in> set ms. ph_gate H m \<noteq> Gate_ALLOW"
  shows "runPaperLoopWithOrchestrator rng M (H\<lparr>ph_orchestrate := f\<rparr>) ms r w = runPaperLoopWithOrchestrator rng M H ms r w"
proof -
  have "orch_markets rng M (H\<lparr>ph_orchestrate := f\<rparr>) ms s w = orch_markets rng M H ms s w" for s
    using assms
  proof (induction ms arbitrary: s w)
    case (Cons m ms)
    have "orch_market rng M (H\<lparr>ph_orchestrate := f\<rparr>) m s w = orch_market rng M H m s w"
      using Cons.prems by (simp add: orch_market_def split: prod.split option.split sum.split)
    with Cons show ?case by (simp add: eff_defs split: prod.split sum.split)
  qed simp
  then show ?thesis by (simp add: runPaperLoopWithOrchestrator_def)
qed

text \<open>An order that was sent counts as submitted even when the orchestration threw, and is never booked.\<close>

lemma failed_orchestration_books_nothing:
  assumes "certain_forecast M m = Some p" and "ph_entry H m w = (Inr u, w1)" and "ph_gate H m = Gate_ALLOW"
    and "ph_orchestrate H m p (pm_size M m p) w1 = (Inl e, w2)"
  shows "orch_market rng M H m (r, b, ts) w = (Inr (r, submit_size (pm_size M m p) b, ts), w2)"
  using assms by (simp add: orch_market_def Let_def)

section \<open>Metrics\<close>

text \<open>The books: the equity curve starts at 1000 and has one point per booked trade.\<close>

definition books_sound :: "paper_books \<Rightarrow> bool" where
  "books_sound b \<longleftrightarrow> length (pb_curve b) = Suc (length (pb_pnls b)) \<and> hd (pb_curve b) = Fin 1000 \<and>
     (\<forall>i < length (pb_pnls b). pb_curve b ! Suc i = num_add (pb_curve b ! i) (pb_pnls b ! i))"

lemma books_sound_start: "books_sound empty_paper_books"
  by (simp add: books_sound_def empty_paper_books_def)

lemma books_sound_submit: "books_sound b \<Longrightarrow> books_sound (submit_size size' b)"
  by (simp add: books_sound_def submit_size_def)

lemma books_sound_trade: "books_sound b \<Longrightarrow> books_sound (book_trade t b)"
  by (cases "pb_curve b") (auto simp: books_sound_def book_trade_def Let_def nth_append last_conv_nth less_Suc_eq nth_Cons')

lemma books_sound_paper_market: "books_sound (pr_books s) \<Longrightarrow> books_sound (pr_books (paper_market rng M m s))"
  by (simp add: paper_market_def books_sound_trade books_sound_submit split: option.split prod.split)

lemma paper_books_sound: "books_sound (pr_books (fold (paper_market rng M) ms (paper_start r)))"
proof -
  have "books_sound (pr_books s) \<Longrightarrow> books_sound (pr_books (fold (paper_market rng M) ms s))" for s
    by (induction ms arbitrary: s) (simp_all add: books_sound_paper_market)
  then show ?thesis by (simp add: paper_start_def books_sound_start)
qed

text \<open>The drawdown of a curve that stays non-negative is a fraction.\<close>

definition equity :: "jsnum \<Rightarrow> bool" where
  "equity v \<longleftrightarrow> is_finite_num v \<and> is_double v \<and> num_le (Fin 0) v"

lemma drawdown_range:
  assumes "equity peak" and "equity v" and "num_le v peak" and "num_lt (Fin 0) peak"
  shows "num_le (Fin 0) (num_div (num_sub peak v) peak) \<and> num_le (num_div (num_sub peak v) peak) (Fin 1)"
proof -
  obtain a b where ab: "peak = Fin a" "v = Fin b" using assms(1,2) by (cases peak; cases v) (auto simp: equity_def)
  then have r: "0 \<le> b" "b \<le> a" "0 < a" and rep: "fl a = Fin a" using assms by (auto simp: equity_def representable_def)
  have "num_le (fl (a - b)) (fl a)" using r by (intro fl_mono) simp
  moreover have "num_le (Fin 0) (fl (a - b))" using r by (intro fl_nonneg) simp
  ultimately obtain d where d: "fl (a - b) = Fin d" "0 \<le> d" "d \<le> a" using rep by (cases "fl (a - b)") auto
  have one: "fl 1 = Fin 1" by code_simp
  have "num_le (fl (d / a)) (fl 1)" using d r by (intro fl_mono) simp
  moreover have "num_le (Fin 0) (fl (d / a))" using d r by (intro fl_nonneg) simp
  ultimately show ?thesis using d r by (simp add: ab num_sub_def one)
qed

lemma maxDrawdown_range:
  assumes "\<forall>v \<in> set curve. equity v"
  shows "num_le (Fin 0) (maxDrawdown curve) \<and> num_le (maxDrawdown curve) (Fin 1)"
proof (cases curve)
  case (Cons v vs)
  have step: "equity (fst s) \<and> num_le (Fin 0) (snd s) \<and> num_le (snd s) (Fin 1) \<Longrightarrow> equity x \<Longrightarrow>
      equity (fst (drawdown_step x s)) \<and> num_le (Fin 0) (snd (drawdown_step x s)) \<and> num_le (snd (drawdown_step x s)) (Fin 1)" for x s
  proof -
    assume s: "equity (fst s) \<and> num_le (Fin 0) (snd s) \<and> num_le (snd s) (Fin 1)" and x: "equity x"
    let ?peak = "if num_lt (fst s) x then x else fst s"
    have p: "equity ?peak" using s x by simp
    have le: "num_le x ?peak"
      using s x by (cases x; cases "fst s") (auto simp: equity_def)
    show ?thesis
      using drawdown_range [OF p x le] s p by (cases s) (auto simp: drawdown_step_def Let_def)
  qed
  have "\<forall>x \<in> set xs. equity x \<Longrightarrow> equity (fst s) \<and> num_le (Fin 0) (snd s) \<and> num_le (snd s) (Fin 1) \<Longrightarrow>
      num_le (Fin 0) (snd (fold drawdown_step xs s)) \<and> num_le (snd (fold drawdown_step xs s)) (Fin 1)" for xs s
  proof (induction xs arbitrary: s)
    case (Cons y ys)
    then show ?case using step [of s y] by simp
  qed simp
  from this [of curve "(v, Fin 0)"] show ?thesis using assms Cons by (simp add: maxDrawdown_def)
qed (simp add: maxDrawdown_def)

text \<open>The shares of markets with profits and losses add up to more than one.\<close>

lemma concentration_above_one: "concentrationIndex [Fin 3, Fin (- 2)] = Fin 13"
  using fl_int [of 1] fl_int [of 3] fl_int [of "- 2"] fl_int [of 9] fl_int [of 4] fl_int [of 13]
  by (simp add: concentrationIndex_def num_sum_def Let_def)

text \<open>The last bin is open: a forecast of certainty that turns out wrong has no calibration error.\<close>

lemma certainty_has_no_bin: "calibrationError [Fin 1] [Fin 0] 10 = Inr (Fin 0)"
proof -
  have "\<not> in_bin 10 b (Fin 1)" if "b < 10" for b
  proof -
    have n: "num_count k = Fin (of_nat k)" if "k \<le> 10" for k
      using fl_int [of "int k"] that by (simp add: num_count_def num_of_bigint_def)
    have "num_le (fl (of_nat (b + 1) / 10)) (fl 1)" using that by (intro fl_mono) simp
    then have "num_le (num_div (num_count (b + 1)) (num_count 10)) (Fin 1)"
      using that fl_int [of 1] by (simp add: n)
    then show ?thesis by (cases "num_div (num_count (b + 1)) (num_count 10)") (simp_all add: in_bin_def)
  qed
  then have "List.map_filter (bin_error 10 [(Fin 1, Fin 0)]) [0..<10] = []"
    by (auto simp: bin_error_def Let_def List.map_filter_def filter_empty_conv)
  then show ?thesis by (simp add: calibrationError_def paired_def)
qed

text \<open>A withdrawn experiment can be concluded, and a concluded one again.\<close>

lemma withdrawn_is_concluded:
  "snd (conclude i r (snd (withdraw i (snd (preregister i now rule []))))) =
     [\<lparr>se_id = i, se_rule = rule, se_at = now, se_status = Exp_CONCLUDED, se_result = Some r\<rparr>]"
  by (simp add: conclude_def withdraw_def preregister_def Let_def)

end
