(* ===== verification/Consensus.thy ===== *)
theory Consensus
  imports Arbiter Rounding
begin

text \<open>
  The smart-money signal of \<open>src/pm/strategy/src/smart-money-consensus.ts\<close>: wallets are selected, scored and aggregated, and the
  consensus becomes an intent. \<open>Math.pow(0.5, x)\<close>, \<open>Math.tanh\<close> and \<open>Math.sqrt\<close> are parameters; identifiers and the time of the
  signal are arguments.
\<close>

section \<open>Wallets\<close>

datatype wallet_outcome = Wallet_WIN | Wallet_LOSS | Wallet_UNKNOWN

record wallet_activity =
  wa_wallet :: string
  wa_buy :: bool
  wa_size :: int
  wa_at :: ms
  wa_outcome :: "wallet_outcome option"
  wa_edge :: "jsnum option"

record scoring_params =
  sp_version :: string
  sp_lookback :: jsnum
  sp_min_trades :: jsnum
  sp_win_weight :: jsnum
  sp_edge_weight :: jsnum
  sp_turnover_bps :: jsnum
  sp_half_life :: jsnum

record wallet_score =
  ws_wallet :: string
  ws_score :: jsnum
  ws_trades :: nat
  ws_win_rate :: jsnum
  ws_edge :: jsnum
  ws_lookback :: jsnum
  ws_version :: string

record selection_criteria =
  sc_min_trades :: jsnum
  sc_min_age :: jsnum
  sc_min_volume :: int
  sc_consistency :: jsnum
  sc_lookback :: jsnum

definition DEFAULT_SELECTION_CRITERIA :: selection_criteria where
  "DEFAULT_SELECTION_CRITERIA = \<lparr>sc_min_trades = Fin 50, sc_min_age = Fin 90, sc_min_volume = 1000000000, sc_consistency = fl (55 / 100),
     sc_lookback = Fin 180\<rparr>"

definition DEFAULT_SCORING_PARAMS :: scoring_params where
  "DEFAULT_SCORING_PARAMS = \<lparr>sp_version = ''1.0.0'', sp_lookback = Fin 90, sp_min_trades = Fin 20, sp_win_weight = fl (4 / 10),
     sp_edge_weight = fl (6 / 10), sp_turnover_bps = Fin 5, sp_half_life = Fin 30\<rparr>"

definition nat_num :: "nat \<Rightarrow> jsnum" where
  "nat_num n = num_of_bigint (int n)"

definition day_ms :: jsnum where
  "day_ms = Fin 86400000"

text \<open>\<open>act.executed_at < cutoff\<close>: the date made of a number of milliseconds is cut towards zero and is invalid beyond 8.64e15.\<close>

definition new_date :: "jsnum \<Rightarrow> jsnum" where
  "new_date n = (case n of Fin q \<Rightarrow> if \<bar>q\<bar> \<le> 8640000000000000 then Fin (of_int (sgn \<lfloor>q\<rfloor> * \<lfloor>\<bar>q\<bar>\<rfloor>)) else NaN | _ \<Rightarrow> NaN)"

definition by_wallet :: "wallet_activity list \<Rightarrow> (string \<times> wallet_activity list) list" where
  "by_wallet acts =
     fold (\<lambda>a g. map_set (wa_wallet a) ((case map_of g (wa_wallet a) of Some old \<Rightarrow> old | None \<Rightarrow> []) @ [a]) g) acts []"

definition first_activity :: "wallet_activity list \<Rightarrow> wallet_activity" where
  "first_activity acts = fold (\<lambda>b a. if wa_at a < wa_at b then a else b) (tl acts) (hd acts)"

definition wallet_qualifies :: "selection_criteria \<Rightarrow> ms \<Rightarrow> wallet_activity list \<Rightarrow> bool" where
  "wallet_qualifies K now acts \<longleftrightarrow>
     \<not> num_lt (nat_num (length acts)) (sc_min_trades K) \<and>
     \<not> num_lt (num_div (num_of_bigint (now - wa_at (first_activity acts))) day_ms) (sc_min_age K) \<and>
     sc_min_volume K \<le> sum_list (map wa_size acts) \<and>
     \<not> num_lt (num_div (num_max (nat_num (length (filter wa_buy acts))) (nat_num (length (filter (\<lambda>a. \<not> wa_buy a) acts)))) (nat_num (length acts)))
         (sc_consistency K)"

definition selectQualifyingWallets :: "selection_criteria \<Rightarrow> ms \<Rightarrow> wallet_activity list \<Rightarrow> (string \<times> wallet_activity list) list" where
  "selectQualifyingWallets K now acts =
     (let cutoff = new_date (num_sub (num_of_bigint now) (num_mul (sc_lookback K) day_ms))
      in filter (\<lambda>(w, as). wallet_qualifies K now as) (by_wallet (filter (\<lambda>a. \<not> num_lt (num_of_bigint (wa_at a)) cutoff) acts)))"

section \<open>Scores\<close>

record math_fns =
  mf_pow :: "jsnum \<Rightarrow> jsnum"
  mf_tanh :: "jsnum \<Rightarrow> jsnum"
  mf_sqrt :: "jsnum \<Rightarrow> jsnum"

definition edge_total :: "wallet_activity list \<Rightarrow> jsnum" where
  "edge_total acts =
     fold (\<lambda>a s. if wa_outcome a = Some Wallet_UNKNOWN then s else num_add s (case wa_edge a of Some e \<Rightarrow> e | None \<Rightarrow> Fin 0)) acts (Fin 0)"

definition trade_score :: "wallet_activity \<Rightarrow> jsnum" where
  "trade_score a = (case wa_outcome a of Some Wallet_WIN \<Rightarrow> Fin 1 | Some Wallet_LOSS \<Rightarrow> Fin (- 1) | _ \<Rightarrow> Fin 0)"

definition recency_score :: "math_fns \<Rightarrow> scoring_params \<Rightarrow> ms \<Rightarrow> wallet_activity list \<Rightarrow> jsnum" where
  "recency_score F P now acts =
     (case fold (\<lambda>a (s, t). let w = mf_pow F (num_div (num_div (num_of_bigint (now - wa_at a)) day_ms) (sp_half_life P))
             in (num_add s (num_mul (trade_score a) w), num_add t w)) acts (Fin 0, Fin 0) of
        (s, t) \<Rightarrow> if num_lt (Fin 0) t then num_div s t else Fin 0)"

definition scoreWallet :: "math_fns \<Rightarrow> scoring_params \<Rightarrow> ms \<Rightarrow> string \<Rightarrow> wallet_activity list \<Rightarrow> wallet_score" where
  "scoreWallet F P now w acts =
     (let n = nat_num (length acts) in
      if num_lt n (sp_min_trades P)
      then \<lparr>ws_wallet = w, ws_score = Fin 0, ws_trades = length acts, ws_win_rate = Fin 0, ws_edge = Fin 0, ws_lookback = sp_lookback P,
            ws_version = ''wallet_scorer_'' @ sp_version P\<rparr>
      else let win_rate = num_div (nat_num (length (filter (\<lambda>a. wa_outcome a = Some Wallet_WIN) acts))) n;
               edge = (if acts \<noteq> [] then num_div (edge_total acts) n else Fin 0);
               penalty = num_min (Fin 1) (num_div (num_mul (num_div n (sp_lookback P)) (sp_turnover_bps P)) (Fin 10000));
               raw = num_mul
                 (num_add
                   (num_add (num_mul (sp_win_weight P) (num_sub (num_mul win_rate (Fin 2)) (Fin 1)))
                      (num_mul (sp_edge_weight P) (mf_tanh F (num_div edge (Fin 100)))))
                   (num_mul (recency_score F P now acts) (fl (2 / 10))))
                 (num_sub (Fin 1) penalty)
        in \<lparr>ws_wallet = w, ws_score = num_max (Fin (- 1)) (num_min (Fin 1) raw), ws_trades = length acts, ws_win_rate = win_rate, ws_edge = edge,
            ws_lookback = sp_lookback P, ws_version = ''smart_money_v'' @ sp_version P\<rparr>)"

section \<open>Consensus and intent\<close>

record smart_signal =
  sg_id :: uuid
  sg_market :: string
  sg_consensus :: jsnum
  sg_wallets :: nat
  sg_avg :: jsnum
  sg_dissent :: jsnum
  sg_lookback :: jsnum
  sg_scores :: "wallet_score list"
  sg_version :: string
  sg_at :: ms

definition generateConsensus :: "math_fns \<Rightarrow> uuid \<Rightarrow> ms \<Rightarrow> string \<Rightarrow> wallet_score list \<Rightarrow> nat \<Rightarrow> smart_signal option" where
  "generateConsensus F i t0 market ws minWallets =
     (if length ws < minWallets then None
      else case fold (\<lambda>s (acc, weight, plain). let w = num_mul (num_abs (ws_score s)) (nat_num (ws_trades s))
               in (num_add acc (num_mul (ws_score s) w), num_add weight w, num_add plain (ws_score s))) ws (Fin 0, Fin 0, Fin 0) of
        (acc, weight, plain) \<Rightarrow>
          let n = nat_num (length ws); avg = num_div plain n;
              variance = num_div (num_sum (map (\<lambda>s. let d = num_sub (ws_score s) avg in num_mul d d) ws)) n
          in Some \<lparr>sg_id = i, sg_market = market, sg_consensus = (if num_lt (Fin 0) weight then num_div acc weight else Fin 0),
                   sg_wallets = length ws, sg_avg = avg, sg_dissent = mf_sqrt F variance,
                   sg_lookback = (case ws of s # _ \<Rightarrow> ws_lookback s | [] \<Rightarrow> Fin 90), sg_scores = ws,
                   sg_version = (case ws of s # _ \<Rightarrow> ws_version s | [] \<Rightarrow> ''unknown''), sg_at = t0\<rparr>)"

definition signalToIntent :: "uuid \<Rightarrow> string \<Rightarrow> jsnum \<Rightarrow> jsnum \<Rightarrow> nat \<Rightarrow> smart_signal \<Rightarrow> strategy_intent option" where
  "signalToIntent i asset base minConsensus minWallets g =
     (if sg_wallets g < minWallets then None
      else if num_lt (num_abs (sg_consensus g)) minConsensus then None
      else if num_lt (Fin (1 / 2)) (sg_dissent g) then None
      else let buy = num_lt (Fin 0) (sg_consensus g);
               conviction = num_min (Fin 1) (num_add (num_abs (sg_consensus g)) (sg_avg g)); size' = num_mul base conviction
        in Some \<lparr>ti_intent_id = i, ti_dedupe_key = ''smart_money_'' @ sg_market g @ ''_'' @ sg_id g, ti_purpose = Purpose_ENTRY,
             ti_market_id = sg_market g, ti_side = Direction (if buy then BUY else SELL), ti_desired_qty = Some size', ti_desired_notional = None,
             ti_limit_price = Some (Fin (1 / 2)), ti_price = Some (Fin (1 / 2)), ti_expiration_sec = None, ti_order_type = None,
             ti_status = Intent_CREATED, sx_token = Some asset, sx_size = Some size', sx_strategy = None, sx_forecast_refs = [sg_id g],
             sx_evidence_ids = map ws_wallet (sg_scores g)\<rparr>)"

record smart_money_result =
  sr_intent :: "strategy_intent option"
  sr_signal :: "smart_signal option"
  sr_qualifying :: nat

definition runSmartMoneyPipeline ::
  "math_fns \<Rightarrow> selection_criteria \<Rightarrow> scoring_params \<Rightarrow> uuid \<times> uuid \<Rightarrow> ms \<Rightarrow> string \<Rightarrow> string \<Rightarrow> jsnum \<Rightarrow> ms \<Rightarrow> wallet_activity list \<Rightarrow>
     smart_money_result" where
  "runSmartMoneyPipeline F K P ids t0 market asset base now acts =
     (let q = selectQualifyingWallets K now acts; ws = map (\<lambda>(w, as). scoreWallet F P now w as) q;
          signal = (if ws \<noteq> [] then generateConsensus F (fst ids) t0 market ws 5 else None)
      in \<lparr>sr_intent = Option.bind signal (signalToIntent (snd ids) asset base (fl (3 / 10)) 5), sr_signal = signal, sr_qualifying = length q\<rparr>)"

section \<open>Selection\<close>

lemma by_wallet_snoc:
  "by_wallet (acts @ [a]) =
     map_set (wa_wallet a) ((case map_of (by_wallet acts) (wa_wallet a) of Some old \<Rightarrow> old | None \<Rightarrow> []) @ [a]) (by_wallet acts)"
  by (simp add: by_wallet_def)

text \<open>A wallet's group is what it did, in order.\<close>

lemma by_wallet_groups:
  "map_of (by_wallet acts) w =
     (let mine = filter (\<lambda>a. wa_wallet a = w) acts in if mine = [] then None else Some mine)"
proof (induction acts rule: rev_induct)
  case (snoc a acts)
  then show ?case by (auto simp: by_wallet_snoc map_of_map_set Let_def split: option.split if_splits)
qed (simp add: by_wallet_def)

lemma by_wallet_distinct: "distinct (map fst (by_wallet acts))"
proof (induction acts rule: rev_induct)
  case (snoc a acts)
  then show ?case by (simp add: by_wallet_snoc distinct_map_set)
qed (simp add: by_wallet_def)

text \<open>The selected wallets: pairwise distinct, each with exactly its own actions inside the window, and qualifying on them.\<close>

definition in_window :: "selection_criteria \<Rightarrow> ms \<Rightarrow> wallet_activity \<Rightarrow> bool" where
  "in_window K now a \<longleftrightarrow> \<not> num_lt (num_of_bigint (wa_at a)) (new_date (num_sub (num_of_bigint now) (num_mul (sc_lookback K) day_ms)))"

lemma selected_wallets:
  "distinct (map fst (selectQualifyingWallets K now acts))"
  "(w, as) \<in> set (selectQualifyingWallets K now acts) \<longleftrightarrow>
     as = filter (\<lambda>a. in_window K now a \<and> wa_wallet a = w) acts \<and> as \<noteq> [] \<and> wallet_qualifies K now as"
proof -
  let ?g = "by_wallet (filter (in_window K now) acts)"
  have sel: "selectQualifyingWallets K now acts = filter (\<lambda>(w, as). wallet_qualifies K now as) ?g"
    by (simp add: selectQualifyingWallets_def in_window_def [abs_def] Let_def)
  show "distinct (map fst (selectQualifyingWallets K now acts))"
    unfolding sel by (rule distinct_map_filter [OF by_wallet_distinct])
  have "(w, as) \<in> set ?g \<longleftrightarrow> map_of ?g w = Some as"
    by (metis by_wallet_distinct map_of_eq_Some_iff)
  then show "(w, as) \<in> set (selectQualifyingWallets K now acts) \<longleftrightarrow>
      as = filter (\<lambda>a. in_window K now a \<and> wa_wallet a = w) acts \<and> as \<noteq> [] \<and> wallet_qualifies K now as"
    by (auto simp: sel by_wallet_groups Let_def split: if_splits)
qed

text \<open>The window has no upper end: an action after \<open>now\<close> is selected and scored like any other.\<close>

lemma future_actions_count:
  assumes "a \<in> set acts" and "in_window K now a" and "now < wa_at a" and "(wa_wallet a, as) \<in> set (selectQualifyingWallets K now acts)"
  shows "a \<in> set as"
  using assms by (simp add: selected_wallets(2))

section \<open>Scores and signals\<close>

lemma score_in_range:
  "ws_score (scoreWallet F P now w as) = NaN \<or>
     num_le (Fin (- 1)) (ws_score (scoreWallet F P now w as)) \<and> num_le (ws_score (scoreWallet F P now w as)) (Fin 1)"
proof -
  have "num_max (Fin (- 1)) (num_min (Fin 1) x) = NaN \<or>
      num_le (Fin (- 1)) (num_max (Fin (- 1)) (num_min (Fin 1) x)) \<and> num_le (num_max (Fin (- 1)) (num_min (Fin 1) x)) (Fin 1)" for x
    by (cases x) (auto simp: num_max_def num_min_def)
  then show ?thesis by (simp add: scoreWallet_def Let_def)
qed

lemma consensus_Some:
  assumes "generateConsensus F i t0 market ws k = Some g"
  shows "k \<le> length ws" "sg_scores g = ws" "sg_wallets g = length ws" "sg_market g = market"
  using assms by (auto simp: generateConsensus_def Let_def split: if_splits prod.splits)

lemma signal_intent_Some:
  assumes "signalToIntent i asset base c k g = Some t"
  shows "k \<le> sg_wallets g" "\<not> num_lt (num_abs (sg_consensus g)) c" "\<not> num_lt (Fin (1 / 2)) (sg_dissent g)"
    "ti_side t = Direction (if num_lt (Fin 0) (sg_consensus g) then BUY else SELL)" "sx_evidence_ids t = map ws_wallet (sg_scores g)"
    "ti_market_id t = sg_market g"
  using assms by (auto simp: signalToIntent_def Let_def split: if_splits)

lemma scoreWallet_wallet [simp]: "ws_wallet (scoreWallet F P now w as) = w"
  by (simp add: scoreWallet_def Let_def)

text \<open>An intent names as its evidence at least five different wallets, each of which qualifies on its own actions.\<close>

theorem smart_money_intent_backed:
  assumes "sr_intent (runSmartMoneyPipeline F K P ids t0 market asset base now acts) = Some t"
  shows "5 \<le> length (sx_evidence_ids t) \<and> distinct (sx_evidence_ids t) \<and> ti_market_id t = market \<and>
    (\<forall>w \<in> set (sx_evidence_ids t). wallet_qualifies K now (filter (\<lambda>a. in_window K now a \<and> wa_wallet a = w) acts))"
proof -
  let ?q = "selectQualifyingWallets K now acts"
  let ?ws = "map (\<lambda>(w, as). scoreWallet F P now w as) ?q"
  obtain g where g: "generateConsensus F (fst ids) t0 market ?ws 5 = Some g" "signalToIntent (snd ids) asset base (fl (3 / 10)) 5 g = Some t"
    using assms by (auto simp: runSmartMoneyPipeline_def Let_def bind_eq_Some_conv split: if_splits)
  have ev: "sx_evidence_ids t = map fst ?q"
    using consensus_Some(2) [OF g(1)] signal_intent_Some(5) [OF g(2)] by (simp add: comp_def case_prod_unfold)
  have "wallet_qualifies K now (filter (\<lambda>a. in_window K now a \<and> wa_wallet a = w) acts)" if "w \<in> set (map fst ?q)" for w
    using that selected_wallets(2) [of w _ K now acts] by force
  moreover have "5 \<le> length ?q" using consensus_Some(1) [OF g(1)] by simp
  ultimately show ?thesis
    using consensus_Some(4) [OF g(1)] signal_intent_Some(6) [OF g(2)] by (simp add: ev selected_wallets(1))
qed

text \<open>The conviction adds the signed average to the size of the consensus: five wallets that agree on a fall sell nothing.\<close>

definition bear :: "string \<Rightarrow> wallet_score" where
  "bear w = \<lparr>ws_wallet = w, ws_score = Fin (- (1 / 2)), ws_trades = 8, ws_win_rate = Fin 0, ws_edge = Fin 0, ws_lookback = Fin 90, ws_version = []\<rparr>"

lemma fl_halves: "\<bar>m\<bar> \<le> 2 ^ 53 \<Longrightarrow> fl (of_int m / 2) = Fin (of_int m / 2)"
proof -
  assume m: "\<bar>m\<bar> \<le> 2 ^ 53"
  have "(of_int \<bar>m\<bar> :: rat) \<le> of_int (2 ^ 53)" using m by (simp only: of_int_le_iff)
  then have "\<bar>of_int m / 2 :: rat\<bar> \<le> 2 ^ 53" by simp
  also have "\<dots> < pow2 1024" by (simp add: pow2_def)
  finally show ?thesis
    using representable_intro [of "of_int m / 2" m "- 1"] m by (simp add: representable_def pow2_def)
qed

lemma unanimous_sellers_sell_nothing:
  assumes "mf_sqrt F (Fin 0) = Fin 0"
    and "generateConsensus F i t0 market (map bear [''a'', ''b'', ''c'', ''d'', ''e'']) 5 = Some g"
    and "signalToIntent j asset (Fin 10) (fl (3 / 10)) 5 g = Some t"
  shows "sg_consensus g = Fin (- (1 / 2)) \<and> ti_side t = Direction SELL \<and> sx_size t = Some (Fin 0)"
proof -
  have v: "fl 8 = Fin 8" "fl 4 = Fin 4" "fl (- 2) = Fin (- 2)" "fl (- 4) = Fin (- 4)" "fl (- 6) = Fin (- 6)" "fl (- 8) = Fin (- 8)"
    "fl (- 10) = Fin (- 10)" "fl 12 = Fin 12" "fl 16 = Fin 16" "fl 20 = Fin 20" "fl 5 = Fin 5" "fl 0 = Fin 0" "fl (- 1) = Fin (- 1)"
    "fl (- (1 / 2)) = Fin (- (1 / 2))" "fl (- (3 / 2)) = Fin (- (3 / 2))" "fl (- (5 / 2)) = Fin (- (5 / 2))"
    using fl_halves [of 16] fl_halves [of 8] fl_halves [of "- 4"] fl_halves [of "- 8"] fl_halves [of "- 12"] fl_halves [of "- 16"]
      fl_halves [of "- 20"] fl_halves [of 24] fl_halves [of 32] fl_halves [of 40] fl_halves [of 10] fl_halves [of 0] fl_halves [of "- 2"]
      fl_halves [of "- 1"] fl_halves [of "- 3"] fl_halves [of "- 5"] by simp_all
  have "sg_consensus g = Fin (- (1 / 2)) \<and> sg_avg g = Fin (- (1 / 2))"
    using assms(2) by (auto simp: generateConsensus_def bear_def nat_num_def num_of_bigint_def num_abs_def Let_def v)
  then show ?thesis
    using assms(3) by (auto simp: signalToIntent_def Let_def num_abs_def num_min_def v split: if_splits)
qed

end
