(* ===== verification/Resolution.thy ===== *)
theory Resolution
  imports Calibration JsString Signal
begin

text \<open>
  From decided markets to training data: the resolution recorder (\<open>src/pm/venue/src/resolution-recorder.ts\<close>), the baseline row
  (\<open>runtime/src/baseline-sync.ts\<close>) and the sync that runs both and retrains (\<open>runtime/src/resolution-sync.ts\<close>), with the join the
  training reads (\<open>intelligence/src/calibration.ts\<close>). \<open>JSON.parse\<close>, \<open>Number\<close> of a value, \<open>Date.parse\<close> and SHA-256 are parameters; a
  payload is the value it parses to.
\<close>

section \<open>Payloads\<close>

datatype json = J_Null | J_Bool bool | J_Num jsnum | J_Str string | J_Arr "json list" | J_Obj "(string \<times> json) list"

record js_library =
  jl_json :: "string \<Rightarrow> json option"
  jl_number :: "json \<Rightarrow> jsnum"
  jl_date :: "string \<Rightarrow> ms option"
  jl_sha256 :: "string \<Rightarrow> string"

definition field_of :: "(string \<times> json) list \<Rightarrow> string \<Rightarrow> json option" where
  "field_of obj k = (case map_of obj k of Some J_Null \<Rightarrow> None | v \<Rightarrow> v)"

fun id_text :: "json option \<Rightarrow> string" where
  "id_text (Some (J_Str s)) = s"
| "id_text (Some (J_Num n)) = num_to_string n"
| "id_text _ = ''''"

definition strings_of :: "json list \<Rightarrow> string list" where
  "strings_of xs = List.map_filter (\<lambda>v. case v of J_Str s \<Rightarrow> Some s | _ \<Rightarrow> None) xs"

definition toTokenIds :: "js_library \<Rightarrow> json option \<Rightarrow> string list" where
  "toTokenIds L raw =
     (case raw of
        Some (J_Arr xs) \<Rightarrow> strings_of xs
      | Some (J_Str s) \<Rightarrow> (case jl_json L s of Some (J_Arr xs) \<Rightarrow> strings_of xs | _ \<Rightarrow> [])
      | _ \<Rightarrow> [])"

definition toPrices :: "js_library \<Rightarrow> json option \<Rightarrow> jsnum list option" where
  "toPrices L raw =
     (case (case raw of Some (J_Str s) \<Rightarrow> jl_json L s | v \<Rightarrow> v) of
        Some (J_Arr xs) \<Rightarrow>
          (let ps = map (jl_number L) xs in if length ps < 2 \<or> \<not> list_all is_finite_num ps then None else Some ps)
      | _ \<Rightarrow> None)"

definition toMs :: "js_library \<Rightarrow> json option \<Rightarrow> ms option \<Rightarrow> ms option" where
  "toMs L raw fallback =
     (case raw of
        Some (J_Str s) \<Rightarrow> (if s \<noteq> [] then (case jl_date L s of Some t \<Rightarrow> Some t | None \<Rightarrow> fallback) else fallback)
      | _ \<Rightarrow> fallback)"

section \<open>Decided markets\<close>

record resolved_market =
  rv_market :: string
  rv_event :: string
  rv_question :: string
  rv_yes :: string
  rv_no :: string
  rv_winner :: string
  rv_final_yes :: jsnum
  rv_at :: ms

definition winners :: "jsnum list \<Rightarrow> nat list" where
  "winners ps = filter (\<lambda>i. num_lt (Fin (1 / 2)) (ps ! i)) [0..<length ps]"

definition closed_at :: "js_library \<Rightarrow> (string \<times> json) list \<Rightarrow> ms option \<Rightarrow> ms option" where
  "closed_at L obj = toMs L (case field_of obj ''closedTime'' of Some v \<Rightarrow> Some v | None \<Rightarrow> field_of obj ''endDate'')"

definition parse_market :: "js_library \<Rightarrow> ms \<Rightarrow> string \<Rightarrow> (string \<times> json) list \<Rightarrow> (string \<times> json) list \<Rightarrow> resolved_market option" where
  "parse_market L now eventId event m =
     (if field_of m ''closed'' \<noteq> Some (J_Bool True) then None
      else let ids = toTokenIds L (field_of m ''clobTokenIds'') in
        (case toPrices L (field_of m ''outcomePrices'') of
           None \<Rightarrow> None
         | Some ps \<Rightarrow>
             if length ids < 2 then None
             else (case winners ps of
                [w] \<Rightarrow>
                  let winner = (if w < length ids then ids ! w else []); question = (case field_of m ''question'' of Some (J_Str s) \<Rightarrow> s | _ \<Rightarrow> []);
                      marketId = id_text (field_of m ''id'')
                  in if winner = [] \<or> question = [] \<or> marketId = [] then None
                     else Some \<lparr>rv_market = marketId, rv_event = eventId, rv_question = question, rv_yes = ids ! 0, rv_no = ids ! 1,
                       rv_winner = winner, rv_final_yes = ps ! 0,
                       rv_at = (case closed_at L m (closed_at L event (Some now)) of Some t \<Rightarrow> t | None \<Rightarrow> now)\<rparr>
              | _ \<Rightarrow> None)))"

definition parse_event :: "js_library \<Rightarrow> ms \<Rightarrow> json \<Rightarrow> resolved_market list" where
  "parse_event L now e =
     (case e of
        J_Obj event \<Rightarrow>
          (let eventId = id_text (field_of event ''id'') in
           case field_of event ''markets'' of
             Some (J_Arr ms) \<Rightarrow>
               if eventId = [] then []
               else List.map_filter (\<lambda>m. case m of J_Obj obj \<Rightarrow> parse_market L now eventId event obj | _ \<Rightarrow> None) ms
           | _ \<Rightarrow> [])
      | _ \<Rightarrow> [])"

definition parseResolvedMarkets :: "js_library \<Rightarrow> ms \<Rightarrow> json \<Rightarrow> resolved_market list" where
  "parseResolvedMarkets L now data = (case data of J_Arr es \<Rightarrow> concat (map (parse_event L now) es) | _ \<Rightarrow> [])"

text \<open>The recency filter of the fetch; a payload that is no array becomes the empty one.\<close>

definition recent_event :: "js_library \<Rightarrow> jsnum \<Rightarrow> json \<Rightarrow> bool" where
  "recent_event L cutoff e =
     (case e of
        J_Obj obj \<Rightarrow>
          (case first_some [toMs L (field_of obj ''closedTime'') None, toMs L (field_of obj ''endDate'') None, toMs L (field_of obj ''updatedAt'') None] of
             Some t \<Rightarrow> num_le cutoff (num_of_bigint t) | None \<Rightarrow> False)
      | _ \<Rightarrow> False)"

definition closed_events :: "js_library \<Rightarrow> ms \<Rightarrow> jsnum \<Rightarrow> json \<Rightarrow> json" where
  "closed_events L now maxAgeDays data =
     (case data of
        J_Arr es \<Rightarrow>
          if \<not> num_lt (Fin 0) maxAgeDays then data
          else J_Arr (filter (recent_event L (num_sub (num_of_bigint now) (num_mul (num_mul maxAgeDays (Fin 24)) (Fin 3600000)))) es)
      | _ \<Rightarrow> J_Arr [])"

section \<open>Clusters\<close>

record resolved_cluster =
  rc_cluster :: string
  rc_event :: string
  rc_markets :: "string list"
  rc_outcome :: string
  rc_at :: ms
  rc_independent :: bool
  rc_hash :: string

definition toResolvedCluster :: "js_library \<Rightarrow> resolved_market \<Rightarrow> resolved_cluster" where
  "toResolvedCluster L m =
     (let cid = ''market:'' @ rv_market m
      in \<lparr>rc_cluster = cid, rc_event = rv_event m, rc_markets = [rv_yes m, rv_no m], rc_outcome = rv_winner m, rc_at = rv_at m,
          rc_independent = True, rc_hash = jl_sha256 L (''polyroot-resolution-v1|'' @ cid @ ''|'' @ rv_winner m)\<rparr>)"

text \<open>The table, unique by hash; the statement of a row may fail and ends the loop, what was inserted stays.\<close>

definition insert_cluster :: "resolved_cluster \<Rightarrow> resolved_cluster list \<Rightarrow> nat \<times> resolved_cluster list" where
  "insert_cluster c t = (if rc_hash c \<in> rc_hash ` set t then (0, t) else (1, t @ [c]))"

fun recordResolvedClusters ::
  "(nat \<Rightarrow> string option) \<Rightarrow> resolved_cluster list \<Rightarrow> nat \<Rightarrow> resolved_cluster list \<Rightarrow> (string + nat) \<times> resolved_cluster list" where
  "recordResolvedClusters fault [] n t = (Inr n, t)"
| "recordResolvedClusters fault (c # cs) n t =
     (case fault (length cs) of
        Some e \<Rightarrow> (Inl e, t)
      | None \<Rightarrow> (case insert_cluster c t of (k, t') \<Rightarrow> recordResolvedClusters fault cs (n + k) t'))"

section \<open>Training rows\<close>

record stored_forecast =
  fc_market :: string
  fc_p :: jsnum
  fc_model :: string
  fc_horizon :: "int option"
  fc_created :: ms

definition training_row :: "stored_forecast \<Rightarrow> resolved_cluster \<Rightarrow> cluster_row" where
  "training_row f c = \<lparr>cr_p = fc_p f, cr_model = fc_model f, cr_horizon = fc_horizon f,
     cr_y = (if rc_outcome c = fc_market f then Fin 1 else Fin 0)\<rparr>"

definition joins :: "stored_forecast \<Rightarrow> resolved_cluster \<Rightarrow> bool" where
  "joins f c \<longleftrightarrow> fc_market f \<in> set (rc_markets c) \<and> rc_independent c \<and> fc_created f < rc_at c"

text \<open>The order among clusters decided at the same time is the database's: \<open>ord\<close> sorts by time, latest first.\<close>

definition training_rows ::
  "((stored_forecast \<times> resolved_cluster) list \<Rightarrow> (stored_forecast \<times> resolved_cluster) list) \<Rightarrow> nat \<Rightarrow> stored_forecast list \<Rightarrow>
     resolved_cluster list \<Rightarrow> cluster_row list" where
  "training_rows ord limit fs cs = map (\<lambda>(f, c). training_row f c) (take limit (ord (filter (\<lambda>(f, c). joins f c) (List.product fs cs))))"

section \<open>The sync\<close>

text \<open>The row keeps its days in hundredths, the column's scale.\<close>

record baseline =
  bl_started :: ms
  bl_hundredths :: int
  bl_clusters :: nat

definition refresh_baseline :: "ms \<Rightarrow> resolved_cluster list \<Rightarrow> baseline \<Rightarrow> baseline" where
  "refresh_baseline now cs b = b\<lparr>bl_hundredths := (now - bl_started b + 432000) div 864000, bl_clusters := length cs\<rparr>"

definition syncBaselineRow :: "ms \<Rightarrow> resolved_cluster list \<Rightarrow> baseline option \<Rightarrow> (jsnum \<times> nat) option \<times> baseline option" where
  "syncBaselineRow now cs row =
     (let row' = map_option (refresh_baseline now cs) row
      in (map_option (\<lambda>b. (fl (of_int (bl_hundredths b) / 100), bl_clusters b)) row', row'))"

record learning =
  le_clusters :: "resolved_cluster list"
  le_models :: cal_models
  le_baseline :: "baseline option"

record sync_summary =
  sy_decided :: nat
  sy_recorded :: nat
  sy_groups :: nat
  sy_samples :: nat
  sy_days :: jsnum
  sy_clusters :: nat

record tick_env =
  te_now :: ms
  te_fetch :: "string + json"
  te_insert :: "nat \<Rightarrow> string option"
  te_train :: "string option"
  te_base :: "string option"
  te_order :: "(stored_forecast \<times> resolved_cluster) list \<Rightarrow> (stored_forecast \<times> resolved_cluster) list"
  te_forecasts :: "stored_forecast list"

definition empty_summary :: sync_summary where
  "empty_summary = \<lparr>sy_decided = 0, sy_recorded = 0, sy_groups = 0, sy_samples = 0, sy_days = Fin 0, sy_clusters = 0\<rparr>"

definition train_stage :: "tick_env \<Rightarrow> sync_summary \<times> learning \<Rightarrow> sync_summary \<times> learning" where
  "train_stage E s =
     (case te_train E of
        Some _ \<Rightarrow> s
      | None \<Rightarrow>
          (case trainFromResolvedClusters (training_rows (te_order E) 500 (te_forecasts E) (le_clusters (snd s))) (le_models (snd s)) of
             None \<Rightarrow> s
           | Some ((g, n), st) \<Rightarrow> ((fst s)\<lparr>sy_groups := g, sy_samples := n\<rparr>, (snd s)\<lparr>le_models := st\<rparr>)))"

definition baseline_stage :: "tick_env \<Rightarrow> sync_summary \<times> learning \<Rightarrow> sync_summary \<times> learning" where
  "baseline_stage E s =
     (case te_base E of
        Some _ \<Rightarrow> s
      | None \<Rightarrow>
          (case syncBaselineRow (te_now E) (le_clusters (snd s)) (le_baseline (snd s)) of
             (r, row) \<Rightarrow>
               ((fst s)\<lparr>sy_days := (case r of Some (d, _) \<Rightarrow> d | None \<Rightarrow> Fin 0), sy_clusters := (case r of Some (_, n) \<Rightarrow> n | None \<Rightarrow> 0)\<rparr>,
                (snd s)\<lparr>le_baseline := row\<rparr>)))"

text \<open>A tick returns its summary, and the error it reported when it stopped early.\<close>

definition tick :: "js_library \<Rightarrow> tick_env \<Rightarrow> learning \<Rightarrow> (string option \<times> sync_summary) \<times> learning" where
  "tick L E s =
     (case te_fetch E of
        Inl e \<Rightarrow> ((Some e, empty_summary), s)
      | Inr data \<Rightarrow>
          (let decided = parseResolvedMarkets L (te_now E) data; sum1 = empty_summary\<lparr>sy_decided := length decided\<rparr> in
           case (if decided = [] then (Inr 0, le_clusters s)
                 else recordResolvedClusters (te_insert E) (map (toResolvedCluster L) decided) 0 (le_clusters s)) of
             (Inl e, t) \<Rightarrow> ((Some e, sum1), s\<lparr>le_clusters := t\<rparr>)
           | (Inr n, t) \<Rightarrow>
               (case baseline_stage E (train_stage E (sum1\<lparr>sy_recorded := n\<rparr>, s\<lparr>le_clusters := t\<rparr>)) of
                  (sum2, s2) \<Rightarrow> ((None, sum2), s2))))"

section \<open>The table\<close>

definition clusters_ok :: "resolved_cluster list \<Rightarrow> bool" where
  "clusters_ok t \<longleftrightarrow> distinct (map rc_hash t)"

lemma insert_cluster_ok: "clusters_ok t \<Longrightarrow> clusters_ok (snd (insert_cluster c t))"
  by (auto simp: clusters_ok_def insert_cluster_def)

lemma insert_cluster_grows: "\<exists>new. snd (insert_cluster c t) = t @ new"
  by (simp add: insert_cluster_def)

lemma insert_cluster_count: "insert_cluster c t = (k, t') \<Longrightarrow> length t' = length t + k \<and> rc_hash ` set t' = insert (rc_hash c) (rc_hash ` set t)"
  by (auto simp: insert_cluster_def split: if_splits)

text \<open>Whatever fails, the table keeps its rows and stays unique; the rows it gains are among those given.\<close>

lemma record_grows:
  "clusters_ok t \<Longrightarrow> \<exists>new. snd (recordResolvedClusters fault cs n t) = t @ new \<and> set new \<subseteq> set cs \<and>
     clusters_ok (snd (recordResolvedClusters fault cs n t))"
proof (induction cs arbitrary: n t)
  case (Cons c cs)
  obtain k t' where k: "insert_cluster c t = (k, t')" by fastforce
  then obtain new where new: "t' = t @ new" "set new \<subseteq> {c}" and ok: "clusters_ok t'"
    using insert_cluster_ok [OF Cons.prems, of c] by (cases "rc_hash c \<in> rc_hash ` set t") (auto simp: insert_cluster_def)
  from Cons.IH [OF ok] obtain new' where "snd (recordResolvedClusters fault cs (n + k) t') = t' @ new'" "set new' \<subseteq> set cs"
    "clusters_ok (snd (recordResolvedClusters fault cs (n + k) t'))" by blast
  with new Cons.prems k show ?case by (auto split: option.split)
qed simp

lemma record_Inr:
  assumes "recordResolvedClusters fault cs n t = (Inr m, t')"
  shows "rc_hash ` set t' = rc_hash ` set t \<union> rc_hash ` set cs \<and> length t' + n = length t + m"
  using assms
proof (induction cs arbitrary: n t)
  case (Cons c cs)
  obtain k t1 where k: "insert_cluster c t = (k, t1)" by fastforce
  with Cons.prems have "recordResolvedClusters fault cs (n + k) t1 = (Inr m, t')" by (auto split: option.splits)
  from Cons.IH [OF this] insert_cluster_count [OF k] show ?case by auto
qed simp

lemma record_known: "rc_hash ` set cs \<subseteq> rc_hash ` set t \<Longrightarrow> recordResolvedClusters (\<lambda>_. None) cs n t = (Inr n, t)"
  by (induction cs arbitrary: n t) (simp_all add: insert_cluster_def)

text \<open>Recording is idempotent: what a run recorded, another run does not record again.\<close>

lemma record_again:
  assumes "recordResolvedClusters fault cs 0 t = (Inr n, t')"
  shows "recordResolvedClusters (\<lambda>_. None) cs 0 t' = (Inr 0, t')"
  using record_Inr [OF assms] by (intro record_known) auto

section \<open>Labels\<close>

lemma winners_single:
  assumes "winners ps = [w]"
  shows "w < length ps" "i < length ps \<Longrightarrow> num_lt (Fin (1 / 2)) (ps ! i) \<longleftrightarrow> i = w"
proof -
  have *: "set (winners ps) = {w}" using assms by simp
  show "w < length ps" using * by (auto simp: winners_def)
  show "i < length ps \<Longrightarrow> num_lt (Fin (1 / 2)) (ps ! i) \<longleftrightarrow> i = w" using * by (auto simp: winners_def)
qed

text \<open>What a parsed market says of its payload.\<close>

lemma parse_market_Some:
  assumes "parse_market L now ev event m = Some r"
  obtains ids ps w where "field_of m ''closed'' = Some (J_Bool True)" "toTokenIds L (field_of m ''clobTokenIds'') = ids"
    "toPrices L (field_of m ''outcomePrices'') = Some ps" "2 \<le> length ids" "2 \<le> length ps" "winners ps = [w]" "w < length ids"
    "rv_winner r = ids ! w" "rv_yes r = ids ! 0" "rv_no r = ids ! 1" "rv_event r = ev" "rv_winner r \<noteq> []" "rv_final_yes r = ps ! 0"
proof -
  obtain ps where ps: "toPrices L (field_of m ''outcomePrices'') = Some ps"
    using assms by (auto simp: parse_market_def Let_def split: if_splits option.splits)
  then have len: "2 \<le> length ps"
    by (auto simp: toPrices_def Let_def split: option.splits json.splits if_splits)
  obtain w where w: "winners ps = [w]"
    using assms ps by (auto simp: parse_market_def Let_def split: if_splits list.splits)
  show thesis
    by (rule that [OF _ refl ps _ len w])
      (use assms ps w in \<open>auto simp: parse_market_def Let_def split: if_splits option.splits\<close>)
qed

text \<open>The training labels are the market's outcome: of the two tokens of a decided market with two prices exactly one is labelled
  1, the one whose price is above a half.\<close>

theorem labels_match_outcome:
  assumes "parse_market L now ev event m = Some r" and "toPrices L (field_of m ''outcomePrices'') = Some [yes, no]" and "rv_yes r \<noteq> rv_no r"
  shows "cr_y (training_row (f\<lparr>fc_market := rv_yes r\<rparr>) (toResolvedCluster L r)) = (if num_lt (Fin (1 / 2)) yes then Fin 1 else Fin 0) \<and>
    cr_y (training_row (f\<lparr>fc_market := rv_no r\<rparr>) (toResolvedCluster L r)) = (if num_lt (Fin (1 / 2)) yes then Fin 0 else Fin 1) \<and>
    (num_lt (Fin (1 / 2)) no \<longleftrightarrow> \<not> num_lt (Fin (1 / 2)) yes)"
proof -
  from assms(1) obtain ids w where w: "winners [yes, no] = [w]" "rv_winner r = ids ! w" "rv_yes r = ids ! 0" "rv_no r = ids ! 1"
    by (rule parse_market_Some) (use assms(2) in auto)
  have "w < 2" using winners_single(1) [OF w(1)] by simp
  then have "w = 0 \<or> w = 1" by auto
  moreover have "num_lt (Fin (1 / 2)) yes \<longleftrightarrow> w = 0" "num_lt (Fin (1 / 2)) no \<longleftrightarrow> w = 1"
    using winners_single(2) [OF w(1), of 0] winners_single(2) [OF w(1), of 1] by auto
  ultimately show ?thesis using w assms(3) by (auto simp: training_row_def toResolvedCluster_def Let_def)
qed

text \<open>Every market is a cluster of its own and is called independent, also when all belong to one event.\<close>

lemma every_market_is_independent:
  "rc_independent (toResolvedCluster L m)"
  "rv_market m \<noteq> rv_market m' \<Longrightarrow> rc_cluster (toResolvedCluster L m) \<noteq> rc_cluster (toResolvedCluster L m')"
  by (simp_all add: toResolvedCluster_def Let_def)

text \<open>A corrected outcome is a second row for the same market, and its forecasts are labelled 0 and 1.\<close>

lemma corrected_outcome_counts_twice:
  assumes "inj (jl_sha256 L)" and "rv_winner m \<noteq> rv_winner m'" and "rv_market m = rv_market m'"
  shows "fst (insert_cluster (toResolvedCluster L m') [toResolvedCluster L m]) = 1"
  using assms by (simp add: insert_cluster_def toResolvedCluster_def Let_def inj_eq)

section \<open>The tick\<close>

lemma train_stage_clusters [simp]: "le_clusters (snd (train_stage E s)) = le_clusters (snd s)"
  by (simp add: train_stage_def split: option.split prod.split)

lemma baseline_stage_clusters [simp]: "le_clusters (snd (baseline_stage E s)) = le_clusters (snd s)"
  by (simp add: baseline_stage_def split: option.split prod.split)

lemma tick_clusters:
  "le_clusters (snd (tick L E s)) =
     (case te_fetch E of
        Inl e \<Rightarrow> le_clusters s
      | Inr data \<Rightarrow> (let decided = parseResolvedMarkets L (te_now E) data in
          if decided = [] then le_clusters s
          else snd (recordResolvedClusters (te_insert E) (map (toResolvedCluster L) decided) 0 (le_clusters s))))"
proof (cases "te_fetch E")
  case (Inr data)
  have p: "le_clusters (snd (case baseline_stage E (train_stage E (a, b)) of (x, y) \<Rightarrow> ((None, x), y))) = le_clusters b" for a b
    using baseline_stage_clusters [of E "train_stage E (a, b)"] by (cases "baseline_stage E (train_stage E (a, b))") simp
  obtain r t where rt: "(if parseResolvedMarkets L (te_now E) data = [] then (Inr 0, le_clusters s)
      else recordResolvedClusters (te_insert E) (map (toResolvedCluster L) (parseResolvedMarkets L (te_now E) data)) 0 (le_clusters s)) = (r, t)"
    by fastforce
  then have "le_clusters (snd (tick L E s)) = t"
    by (cases r) (simp_all add: tick_def Inr p Let_def)
  with rt show ?thesis by (auto simp: Inr Let_def split: if_splits)
qed (simp add: tick_def)

text \<open>Whatever fails in a series of ticks, no recorded outcome is lost or duplicated.\<close>

theorem ticks_keep_outcomes:
  assumes "clusters_ok (le_clusters s)"
  shows "\<exists>new. le_clusters (fold (\<lambda>E st. snd (tick L E st)) Es s) = le_clusters s @ new \<and>
    clusters_ok (le_clusters (fold (\<lambda>E st. snd (tick L E st)) Es s))"
  using assms
proof (induction Es arbitrary: s)
  case (Cons E Es)
  have "\<exists>new. le_clusters (snd (tick L E s)) = le_clusters s @ new \<and> clusters_ok (le_clusters (snd (tick L E s)))"
  proof (cases "te_fetch E")
    case (Inr data)
    show ?thesis
      using record_grows [OF Cons.prems, of "te_insert E" "map (toResolvedCluster L) (parseResolvedMarkets L (te_now E) data)" 0] Cons.prems
      unfolding tick_clusters by (auto simp: Inr Let_def)
  qed (simp add: tick_clusters Cons.prems)
  then obtain new where "le_clusters (snd (tick L E s)) = le_clusters s @ new" and ok: "clusters_ok (le_clusters (snd (tick L E s)))" by blast
  with Cons.IH [OF ok] show ?case by auto
qed simp

end
