(* ===== verification/ArbScan.thy ===== *)
theory ArbScan
  imports Resolution Quoting
begin

text \<open>
  The scanner for baskets over all outcomes of an event (\<open>src/pm/venue/src/arb-scan.ts\<close>): it groups the events of a payload,
  reads the touch of every token within a budget, evaluates the baskets it could read completely and stores what it finds, at most
  once an hour per event and direction. HTTP requests are answers of the environment.
\<close>

section \<open>Grouping\<close>

record arb_event =
  ae_id :: string
  ae_tokens :: "string list"
  ae_end :: "ms option"

definition open_market :: "js_library \<Rightarrow> json \<Rightarrow> (string \<times> json option) option" where
  "open_market L m =
     (case m of
        J_Obj obj \<Rightarrow>
          (let ids = toTokenIds L (field_of obj ''clobTokenIds'') in
           if field_of obj ''closed'' = Some (J_Bool True) \<or> length ids < 2 \<or> ids ! 0 = [] then None
           else Some (ids ! 0, field_of obj ''endDate''))
      | _ \<Rightarrow> None)"

definition group_event :: "js_library \<Rightarrow> json \<Rightarrow> arb_event option" where
  "group_event L e =
     (case e of
        J_Obj event \<Rightarrow>
          (case field_of event ''markets'' of
             Some (J_Arr ms) \<Rightarrow>
               (let eventId = id_text (field_of event ''id''); opens = List.map_filter (open_market L) ms
                in if eventId = [] \<or> length opens < 2 then None
                   else Some \<lparr>ae_id = eventId, ae_tokens = map fst opens, ae_end = fold (\<lambda>(_, d) last'. toMs L d last') opens None\<rparr>)
           | _ \<Rightarrow> None)
      | _ \<Rightarrow> None)"

definition groupArbEvents :: "js_library \<Rightarrow> json \<Rightarrow> arb_event list" where
  "groupArbEvents L data = (case data of J_Arr es \<Rightarrow> List.map_filter (group_event L) es | _ \<Rightarrow> [])"

text \<open>The touch is the lowest ask strictly between 0 and 1; \<open>None\<close> is a failed read.\<close>

definition lowest_ask :: "jsnum list option \<Rightarrow> jsnum option" where
  "lowest_ask answer =
     (case answer of
        None \<Rightarrow> None
      | Some prices \<Rightarrow>
          (case filter (\<lambda>p. is_finite_num p \<and> num_lt (Fin 0) p \<and> num_lt p (Fin 1)) prices of
             [] \<Rightarrow> None | p # ps \<Rightarrow> Some (fold (\<lambda>q m. num_min m q) ps p)))"

section \<open>The scan\<close>

record arb_observation =
  ob_event :: string
  ob_direction :: arb_direction
  ob_legs :: "arb_leg list"
  ob_cost :: jsnum
  ob_payout :: jsnum
  ob_edge :: jsnum
  ob_at :: ms

record scan_env =
  sv_events :: "string + json"
  sv_touch :: "string \<Rightarrow> jsnum option"
  sv_limit :: nat
  sv_min_edge :: jsnum
  sv_recent_fault :: "nat \<Rightarrow> string option"
  sv_insert_fault :: "nat \<Rightarrow> string option"
  sv_asked :: "nat \<Rightarrow> ms"
  sv_inserted :: "nat \<Rightarrow> ms"

record scan_summary =
  sn_scanned :: nat
  sn_read :: nat
  sn_observed :: nat

fun read_legs :: "(string \<Rightarrow> jsnum option) \<Rightarrow> string list \<Rightarrow> int \<Rightarrow> arb_leg list \<Rightarrow> int \<times> arb_leg list" where
  "read_legs ask [] budget legs = (budget, legs)"
| "read_legs ask (t # ts) budget legs =
     (if budget \<le> 0 then (budget, legs)
      else read_legs ask ts (budget - 1) (case ask t of Some p \<Rightarrow> legs @ [\<lparr>al_token = t, al_yes = p\<rparr>] | None \<Rightarrow> legs))"

definition HOUR_MS :: ms where
  "HOUR_MS = 3600000"

definition seen_recently :: "string \<Rightarrow> arb_direction \<Rightarrow> ms \<Rightarrow> arb_observation list \<Rightarrow> bool" where
  "seen_recently event d now t \<longleftrightarrow> list_ex (\<lambda>r. ob_event r = event \<and> ob_direction r = d \<and> now - HOUR_MS < ob_at r) t"

definition observation_of :: "string \<Rightarrow> arb_leg list \<Rightarrow> arb_direction \<Rightarrow> arb_verdict \<Rightarrow> ms \<Rightarrow> arb_observation" where
  "observation_of event legs d v now = \<lparr>ob_event = event, ob_direction = d, ob_legs = legs, ob_cost = av_cost v, ob_payout = av_payout v,
     ob_edge = av_edge v, ob_at = now\<rparr>"

fun scan_events ::
  "scan_env \<Rightarrow> arb_event list \<Rightarrow> int \<Rightarrow> scan_summary \<Rightarrow> arb_observation list \<Rightarrow> (string option \<times> scan_summary) \<times> arb_observation list" where
  "scan_events E [] budget s t = ((None, s), t)"
| "scan_events E (ev # evs) budget s t =
     (if budget \<le> 0 then ((None, s), t)
      else case read_legs (sv_touch E) (ae_tokens ev) budget [] of
        (budget', legs) \<Rightarrow>
          let s1 = s\<lparr>sn_scanned := sn_scanned s + 1, sn_read := sn_read s + nat (budget - budget')\<rparr>;
              v = evaluateMultiOutcomeArb legs (Some (sv_min_edge E)) None
          in if length legs \<noteq> length (ae_tokens ev) \<or> \<not> av_valid v then scan_events E evs budget' s1 t
             else (case av_direction v of
                None \<Rightarrow> scan_events E evs budget' s1 t
              | Some d \<Rightarrow>
                  (case sv_recent_fault E (length evs) of
                     Some e \<Rightarrow> ((Some e, s1), t)
                   | None \<Rightarrow>
                       if seen_recently (ae_id ev) d (sv_asked E (length evs)) t then scan_events E evs budget' s1 t
                       else (case sv_insert_fault E (length evs) of
                          Some e \<Rightarrow> ((Some e, s1), t)
                        | None \<Rightarrow> scan_events E evs budget' (s1\<lparr>sn_observed := sn_observed s1 + 1\<rparr>)
                            (t @ [observation_of (ae_id ev) legs d v (sv_inserted E (length evs))])))))"

definition scan_tick :: "js_library \<Rightarrow> scan_env \<Rightarrow> int \<Rightarrow> arb_observation list \<Rightarrow> (string option \<times> scan_summary) \<times> arb_observation list" where
  "scan_tick L E maxTokens t =
     (case sv_events E of
        Inl e \<Rightarrow> ((Some e, \<lparr>sn_scanned = 0, sn_read = 0, sn_observed = 0\<rparr>), t)
      | Inr data \<Rightarrow> scan_events E (take (sv_limit E) (groupArbEvents L data)) maxTokens \<lparr>sn_scanned = 0, sn_read = 0, sn_observed = 0\<rparr> t)"

section \<open>What is stored\<close>

lemma read_legs_tokens:
  "read_legs ask ts b legs = (b', legs') \<Longrightarrow> length legs' = length legs + length ts \<Longrightarrow> map al_token legs' = map al_token legs @ ts"
proof (induction ts arbitrary: b legs)
  case (Cons t ts)
  have bound: "length (snd (read_legs ask us c ls)) \<le> length ls + length us" for us c ls
  proof (induction us arbitrary: c ls)
    case (Cons u us)
    show ?case
      using Cons.IH [of "c - 1" ls] Cons.IH [of "c - 1" "ls @ [\<lparr>al_token = u, al_yes = p\<rparr>]" for p]
      by (auto split: option.split intro: le_SucI)
  qed simp
  show ?case
  proof (cases "ask t")
    case None
    with Cons.prems bound [of ts "b - 1" legs] show ?thesis by (auto split: if_splits)
  next
    case (Some p)
    with Cons.prems Cons.IH [of "b - 1" "legs @ [\<lparr>al_token = t, al_yes = p\<rparr>]"] show ?thesis by (auto split: if_splits)
  qed
qed simp

text \<open>A stored observation is a complete basket of some event with a valid verdict.\<close>

definition complete_basket :: "jsnum \<Rightarrow> arb_event list \<Rightarrow> arb_observation \<Rightarrow> bool" where
  "complete_basket minEdge evs r \<longleftrightarrow> (\<exists>ev \<in> set evs. ob_event r = ae_id ev \<and> map al_token (ob_legs r) = ae_tokens ev) \<and>
     av_valid (evaluateMultiOutcomeArb (ob_legs r) (Some minEdge) None) \<and>
     av_direction (evaluateMultiOutcomeArb (ob_legs r) (Some minEdge) None) = Some (ob_direction r)"

definition spaced :: "arb_observation list \<Rightarrow> bool" where
  "spaced t \<longleftrightarrow> (\<forall>j < length t. \<forall>i < j. ob_event (t ! i) = ob_event (t ! j) \<and> ob_direction (t ! i) = ob_direction (t ! j) \<longrightarrow>
     ob_at (t ! i) + HOUR_MS \<le> ob_at (t ! j))"

lemma spaced_snoc:
  assumes "spaced t" and "\<not> seen_recently (ob_event r) (ob_direction r) q t" and "q \<le> ob_at r"
  shows "spaced (t @ [r])"
proof -
  have "ob_at (t ! i) + HOUR_MS \<le> ob_at r" if "i < length t" "ob_event (t ! i) = ob_event r" "ob_direction (t ! i) = ob_direction r" for i
  proof -
    have "\<not> q - HOUR_MS < ob_at (t ! i)" using assms(2) that by (auto simp: seen_recently_def list_ex_iff)
    then show ?thesis using assms(3) by simp
  qed
  with assms(1) show ?thesis by (auto simp: spaced_def nth_append less_Suc_eq)
qed

lemma scan_events_sound:
  assumes "\<And>n. sv_asked E n \<le> sv_inserted E n"
  shows "spaced t \<Longrightarrow> spaced (snd (scan_events E evs b s t)) \<and>
    (\<exists>new. snd (scan_events E evs b s t) = t @ new \<and> (\<forall>r \<in> set new. complete_basket (sv_min_edge E) evs r))"
proof (induction evs arbitrary: b s t)
  case (Cons ev evs)
  have weaken: "complete_basket (sv_min_edge E) evs r \<Longrightarrow> complete_basket (sv_min_edge E) (ev # evs) r" for r
    by (auto simp: complete_basket_def)
  let ?n = "length evs"
  obtain b' legs where legs: "read_legs (sv_touch E) (ae_tokens ev) b [] = (b', legs)" by fastforce
  define s1 where "s1 = s\<lparr>sn_scanned := sn_scanned s + 1, sn_read := sn_read s + nat (b - b')\<rparr>"
  define v where "v = evaluateMultiOutcomeArb legs (Some (sv_min_edge E)) None"
  have IH: "spaced u \<Longrightarrow> spaced (snd (scan_events E evs b' s' u)) \<and>
      (\<exists>new. snd (scan_events E evs b' s' u) = u @ new \<and> (\<forall>r \<in> set new. complete_basket (sv_min_edge E) (ev # evs) r))" for s' u
    using Cons.IH [of u b' s'] weaken by blast
  show ?case
  proof (cases "0 < b \<and> length legs = length (ae_tokens ev) \<and> av_valid v \<and> av_direction v \<noteq> None \<and> sv_recent_fault E ?n = None \<and>
      \<not> seen_recently (ae_id ev) (the (av_direction v)) (sv_asked E ?n) t \<and> sv_insert_fault E ?n = None")
    case True
    then obtain d where d: "av_direction v = Some d" by auto
    define r where "r = observation_of (ae_id ev) legs d v (sv_inserted E ?n)"
    have sp: "spaced (t @ [r])"
      using Cons.prems True d assms [of ?n] by (intro spaced_snoc [of _ _ "sv_asked E ?n"]) (simp_all add: r_def observation_of_def)
    have "map al_token legs = ae_tokens ev" using read_legs_tokens [OF legs] True by simp
    then have "complete_basket (sv_min_edge E) (ev # evs) r"
      using True d by (simp add: complete_basket_def r_def observation_of_def flip: v_def)
    moreover have "scan_events E (ev # evs) b s t = scan_events E evs b' (s1\<lparr>sn_observed := sn_observed s1 + 1\<rparr>) (t @ [r])"
      using True d by (simp add: legs Let_def r_def s1_def flip: v_def)
    ultimately show ?thesis using IH [OF sp] by fastforce
  next
    case False
    then have "snd (scan_events E (ev # evs) b s t) \<in> {t, snd (scan_events E evs b' s1 t)}"
      by (auto simp: legs Let_def s1_def simp flip: v_def split: option.split)
    then show ?thesis using IH [OF Cons.prems] Cons.prems by fastforce
  qed
qed simp

text \<open>Over any series of scans the table keeps its rows, and one event is observed in one direction at most once an hour.\<close>

theorem observations_hourly:
  assumes "\<And>E n. E \<in> set Es \<Longrightarrow> sv_asked E n \<le> sv_inserted E n"
  shows "spaced (fold (\<lambda>E t. snd (scan_tick L E maxTokens t)) Es [])"
proof -
  have "spaced t \<Longrightarrow> spaced (fold (\<lambda>E t. snd (scan_tick L E maxTokens t)) Es t)" for t
    using assms
  proof (induction Es arbitrary: t)
    case (Cons E Es)
    have "spaced (snd (scan_tick L E maxTokens t))"
    proof (cases "sv_events E")
      case (Inr data)
      show ?thesis using scan_events_sound [of E t] Cons.prems by (simp add: scan_tick_def Inr)
    qed (simp add: scan_tick_def Cons.prems(1))
    then show ?case using Cons by simp
  qed simp
  then show ?thesis by (simp add: spaced_def)
qed

text \<open>A decided outcome leaves the basket: what is left of the event counts as all of its outcomes.\<close>

definition outcome_market :: "bool \<Rightarrow> string \<Rightarrow> json" where
  "outcome_market decided yes = J_Obj [(''closed'', J_Bool decided), (''clobTokenIds'', J_Arr [J_Str yes, J_Str ''n''])]"

lemma decided_outcome_leaves_basket:
  "map ae_tokens (groupArbEvents L (J_Arr [J_Obj [(''id'', J_Str ''e''),
     (''markets'', J_Arr [outcome_market True ''won'', outcome_market False ''a'', outcome_market False ''b''])]])) = [[''a'', ''b'']]"
  by (simp add: groupArbEvents_def group_event_def open_market_def outcome_market_def field_of_def toTokenIds_def strings_of_def
      List.map_filter_def Let_def)

end
