(* ===== verification/Operations.thy ===== *)
theory Operations
  imports LiveLoop FunderCash
begin

text \<open>
  Operation of the agent (\<open>src/pm/runtime/src\<close>): the preflight before LIVE (\<open>live-preflight.ts\<close>), the emergency halt
  (\<open>observability/halt-manager.ts\<close>), the health probes (\<open>observability/health-monitor.ts\<close>), the single-instance guard
  (\<open>instance-guard.ts\<close>), the platform contracts (\<open>platform-safety.ts\<close>) and the autonomous loop (\<open>g4-loop.ts\<close>); and the heartbeat
  route (\<open>venue/src/heartbeat-route.ts\<close>). Answers of the outside are arguments, \<open>Inl\<close> where the call throws; texts are left out.
\<close>

section \<open>Preflight\<close>

definition REQUIRED_TABLES :: "string list" where
  "REQUIRED_TABLES = [''execution_permits'', ''reservations'', ''recovery_ledger'', ''seen_orders'', ''live_guard_state'', ''balance_entries'']"

definition STALE_UNKNOWN_MINUTES :: int where
  "STALE_UNKNOWN_MINUTES = 30"

record ledger_probe =
  lp_state :: string
  lp_resolved :: bool
  lp_updated :: ms

definition stale_unknown :: "ms \<Rightarrow> ledger_probe \<Rightarrow> bool" where
  "stale_unknown now r \<longleftrightarrow> \<not> lp_resolved r \<and> lp_state r \<in> {''SUBMISSION_UNKNOWN'', ''CANCEL_UNKNOWN''} \<and>
     lp_updated r < now - STALE_UNKNOWN_MINUTES * 60000"

record preflight_deps =
  pd_connect :: "string option"
  pd_tables :: "string + string list"
  pd_bounds :: "string + jsnum option \<times> jsnum option"
  pd_universe :: "string + string list"
  pd_wallet :: "string + bool"
  pd_creds :: "string + bool"
  pd_book :: "string \<Rightarrow> string + (jsnum \<times> jsnum) option"
  pd_metrics_key :: "string + bool"
  pd_latch :: "string + guard_row"
  pd_ledger :: "string + ledger_probe list"
  pd_now :: ms
  pd_cash :: "(string + bal option) option"

type_synonym preflight_check = "string \<times> bool"

definition probe :: "string \<Rightarrow> ('a \<Rightarrow> bool) \<Rightarrow> string + 'a \<Rightarrow> preflight_check" where
  "probe name good answer = (name, case answer of Inl _ \<Rightarrow> False | Inr x \<Rightarrow> good x)"

definition tables_present :: "string list \<Rightarrow> bool" where
  "tables_present ts \<longleftrightarrow> list_all (\<lambda>t. t \<in> set ts) REQUIRED_TABLES"

definition bounds_set :: "jsnum option \<times> jsnum option \<Rightarrow> bool" where
  "bounds_set b \<longleftrightarrow> fst b \<noteq> None \<and> snd b \<noteq> None"

definition book_readable :: "(jsnum \<times> jsnum) option \<Rightarrow> bool" where
  "book_readable b \<longleftrightarrow> (case b of Some (bid, ask) \<Rightarrow> is_finite_num bid \<and> is_finite_num ask | None \<Rightarrow> False)"

definition universe_of :: "preflight_deps \<Rightarrow> string list" where
  "universe_of D = (case pd_universe D of Inl _ \<Rightarrow> [] | Inr u \<Rightarrow> u)"

definition venue_read :: "preflight_deps \<Rightarrow> preflight_check" where
  "venue_read D = (''venue-read'', case universe_of D of [] \<Rightarrow> False | m # _ \<Rightarrow> snd (probe ''venue-read'' book_readable (pd_book D m)))"

definition runLivePreflight :: "preflight_deps \<Rightarrow> bool \<times> preflight_check list" where
  "runLivePreflight D =
     (if pd_connect D \<noteq> None then (False, [(''db-connect'', False)])
      else let checks = [(''db-connect'', True), probe ''db-schema'' tables_present (pd_tables D), probe ''bounds'' bounds_set (pd_bounds D),
               probe ''universe'' (\<lambda>u. u \<noteq> []) (pd_universe D), probe ''wallet'' (\<lambda>ok. ok) (pd_wallet D), probe ''venue-creds'' (\<lambda>ok. ok) (pd_creds D),
               venue_read D, probe ''metrics-key'' (\<lambda>ok. ok) (pd_metrics_key D),
               probe ''loss-latch'' (\<lambda>row. \<not> was_halted row) (pd_latch D),
               probe ''stale-unknowns'' (\<lambda>rows. \<not> list_ex (stale_unknown (pd_now D)) rows) (pd_ledger D)] @
             (case pd_cash D of None \<Rightarrow> [] | Some answer \<Rightarrow> [probe ''funder-cash'' (\<lambda>b. is_ok (assessFunderCash b)) answer])
        in (list_all snd checks, checks))"

section \<open>Emergency halt\<close>

record venue_order_row =
  vr_venue_id :: "string option"
  vr_status :: string

definition TERMINAL_ORDER_STATUSES :: "string list" where
  "TERMINAL_ORDER_STATUSES = [''FILLED'', ''CANCELED'', ''CANCELLED'', ''FAILED'', ''EXPIRED'', ''REJECTED'']"

record halt_world =
  hw_row :: guard_row
  hw_cancel_calls :: "string list"
  hw_killed :: bool
  hw_exited :: bool

record halt_env =
  he_load_fault :: "string option"
  he_save_fault :: "string option"
  he_orders :: "string + venue_order_row list"
  he_cancel :: "(string \<Rightarrow> string + bool) option"
  he_kill :: "string option option"
  he_now :: ms
  he_cancel_orders :: bool

definition open_venue_ids :: "venue_order_row list \<Rightarrow> string list" where
  "open_venue_ids rows =
     List.map_filter (\<lambda>r. if vr_status r \<notin> set TERMINAL_ORDER_STATUSES \<and> truthy (vr_venue_id r) then vr_venue_id r else None) rows"

definition count_cancelled :: "(string \<Rightarrow> string + bool) \<Rightarrow> string list \<Rightarrow> nat" where
  "count_cancelled cxl ids = length (filter (\<lambda>i. cxl i = Inr True) ids)"

text \<open>The cancels, best effort: how many orders were open and how many cancels were confirmed.\<close>

definition halt_cancels :: "halt_env \<Rightarrow> (halt_world, nat \<times> nat) eff" where
  "halt_cancels E w =
     (if \<not> he_cancel_orders E then (Inr (0, 0), w)
      else case he_orders E of
        Inl e \<Rightarrow> (Inl e, w)
      | Inr rows \<Rightarrow>
          (let ids = open_venue_ids rows in
           case he_cancel E of
             None \<Rightarrow> (Inr (length ids, 0), w)
           | Some cxl \<Rightarrow> (Inr (length ids, count_cancelled cxl ids), w\<lparr>hw_cancel_calls := hw_cancel_calls w @ ids\<rparr>)))"

definition halt_kill :: "halt_env \<Rightarrow> (halt_world, unit) eff" where
  "halt_kill E w =
     (case he_kill E of
        None \<Rightarrow> (Inr (), w)
      | Some (Some e) \<Rightarrow> (Inl e, w)
      | Some None \<Rightarrow> (Inr (), w\<lparr>hw_killed := True\<rparr>))"

definition requestHalt :: "halt_env \<Rightarrow> (halt_world, nat \<times> nat) eff" where
  "requestHalt E w =
     (case (he_load_fault E, he_save_fault E) of
        (Some e, _) \<Rightarrow> (Inl e, w)
      | (None, Some e) \<Rightarrow> (Inl e, w)
      | (None, None) \<Rightarrow>
          bind_eff (halt_cancels E) (\<lambda>counts. bind_eff (halt_kill E) (\<lambda>_ w'. (Inr counts, w'\<lparr>hw_exited := True\<rparr>)))
            (w\<lparr>hw_row := halt_latch (he_now E) (hw_row w)\<rparr>))"

section \<open>Health\<close>

datatype probe_status = Probe_ok | Probe_degraded | Probe_down

datatype health = HEALTHY | Health_DEGRADED | Health_DOWN

record health_env =
  hv_db :: "string + ms"
  hv_db_slow :: ms
  hv_paper :: "string + ms option"
  hv_shadow :: "ms option"
  hv_now :: ms
  hv_rpc_url :: "string option"
  hv_rpc :: "string + bool \<times> ms \<times> bool"
  hv_rpc_slow :: ms
  hv_venue :: "string + nat"
  hv_guard :: "string + guard_row"

definition probeDatabase :: "health_env \<Rightarrow> probe_status" where
  "probeDatabase E = (case hv_db E of Inl _ \<Rightarrow> Probe_down | Inr t \<Rightarrow> if hv_db_slow E < t then Probe_degraded else Probe_ok)"

text \<open>Both columns come from one query; the age is in rounded seconds.\<close>

definition probePipeline :: "health_env \<Rightarrow> probe_status" where
  "probePipeline E =
     (case hv_paper E of
        Inl _ \<Rightarrow> Probe_degraded
      | Inr paper \<Rightarrow>
          (case first_some [paper, hv_shadow E] of
             None \<Rightarrow> Probe_ok
           | Some latest \<Rightarrow> if 1800 < max 0 ((hv_now E - latest + 500) div 1000) then Probe_degraded else Probe_ok))"

text \<open>The answer of the RPC: whether its status is a success, its time and whether its body is JSON.\<close>

definition probeRpc :: "health_env \<Rightarrow> probe_status" where
  "probeRpc E =
     (if \<not> truthy (hv_rpc_url E) then Probe_degraded
      else case hv_rpc E of
        Inl _ \<Rightarrow> Probe_down
      | Inr (ok, t, json_ok) \<Rightarrow>
          if \<not> ok then Probe_degraded else if \<not> json_ok then Probe_down else if hv_rpc_slow E < t then Probe_degraded else Probe_ok)"

definition probeVenue :: "health_env \<Rightarrow> probe_status" where
  "probeVenue E = (case hv_venue E of Inl _ \<Rightarrow> Probe_down | Inr _ \<Rightarrow> Probe_ok)"

definition probeLiveGuard :: "health_env \<Rightarrow> probe_status" where
  "probeLiveGuard E = (case hv_guard E of Inl _ \<Rightarrow> Probe_degraded | Inr row \<Rightarrow> if was_halted row then Probe_down else Probe_ok)"

definition health_probes :: "health_env \<Rightarrow> probe_status list" where
  "health_probes E = [probeDatabase E, probePipeline E, probeRpc E, probeVenue E, probeLiveGuard E, Probe_ok]"

definition collectHealth :: "health_env \<Rightarrow> health" where
  "collectHealth E =
     (if Probe_down \<in> set (health_probes E) then Health_DOWN
      else if Probe_degraded \<in> set (health_probes E) then Health_DEGRADED else HEALTHY)"

section \<open>One instance\<close>

function unit_lines :: "string \<Rightarrow> string list" where
  "unit_lines s =
     (let l = takeWhile (\<lambda>c. c \<noteq> CHR 0x0A \<and> c \<noteq> CHR 0x0D) s; r = drop (length l) s
      in if r = [] then [l] else l # unit_lines (tl r))"
  by pat_completeness auto
termination by (relation "measure length") (auto simp: Let_def)

definition parseUnitProp :: "string \<Rightarrow> string \<Rightarrow> string" where
  "parseUnitProp show' key =
     (case find (\<lambda>l. take (length key + 1) l = key @ ''='') (unit_lines show') of
        Some l \<Rightarrow> trim_str (drop (length key + 1) l) | None \<Rightarrow> [])"

record instance_env =
  ie_skip_unit :: bool
  ie_unit :: "string option"
  ie_pid :: int
  ie_port :: jsnum
  ie_in_use :: "jsnum \<Rightarrow> bool"

definition foreign_unit :: "instance_env \<Rightarrow> bool" where
  "foreign_unit E \<longleftrightarrow> \<not> ie_skip_unit E \<and> truthy (ie_unit E) \<and>
     parseUnitProp (the (ie_unit E)) ''LoadState'' = ''loaded'' \<and> parseUnitProp (the (ie_unit E)) ''ActiveState'' = ''active'' \<and>
     (let pid = parseUnitProp (the (ie_unit E)) ''MainPID'' in pid \<noteq> [] \<and> pid \<noteq> ''0'' \<and> pid \<noteq> int_str (ie_pid E))"

definition assertSingleInstance :: "instance_env \<Rightarrow> unit outcome" where
  "assertSingleInstance E =
     (if foreign_unit E then Refused ''AgentAlreadyRunningError''
      else if ie_in_use E (if is_finite_num (ie_port E) then ie_port E else Fin 9090) then Refused ''AgentAlreadyRunningError''
      else Ok ())"

definition isAddrInUse :: "string option \<Rightarrow> bool" where
  "isAddrInUse code \<longleftrightarrow> code = Some ''EADDRINUSE''"

section \<open>Platform\<close>

datatype platform_mode = Platform_NORMAL | Platform_DB_UNREACHABLE

definition degradedMode :: "bool \<Rightarrow> platform_mode" where
  "degradedMode up = (if up then Platform_NORMAL else Platform_DB_UNREACHABLE)"

definition recoveryGate :: "bool \<Rightarrow> bool \<Rightarrow> bool \<Rightarrow> string list" where
  "recoveryGate ledger epochs venue =
     (if ledger then [] else [''ledger catch-up'']) @ (if epochs then [] else [''epoch sync'']) @ (if venue then [] else [''venue reconciliation''])"

definition verifySupplyChainPin :: "(string \<times> string) list \<Rightarrow> (string \<Rightarrow> string option) \<Rightarrow> string list" where
  "verifySupplyChainPin locked observed = map fst (filter (\<lambda>(name, d). observed name \<noteq> Some d) locked)"

section \<open>Heartbeat route\<close>

record heartbeat_request =
  hq_auth :: string
  hq_id :: "string option"
  hq_accounts :: "string list"
  hq_orders :: "string list"

definition buildHeartbeatRequest :: "string \<Rightarrow> string option \<Rightarrow> string list \<Rightarrow> string list \<Rightarrow> heartbeat_request outcome" where
  "buildHeartbeatRequest auth previous accounts orders =
     (if auth = [] \<or> previous = Some [] then Refused ''HEARTBEAT_INVALID''
      else Ok \<lparr>hq_auth = auth, hq_id = previous, hq_accounts = accounts, hq_orders = orders\<rparr>)"

definition checkHeartbeatScope :: "ms option \<Rightarrow> jsnum \<Rightarrow> string \<Rightarrow> string \<Rightarrow> jsnum \<Rightarrow> jsnum \<Rightarrow> ms \<Rightarrow> unit outcome" where
  "checkHeartbeatScope issued ttl writer expected accounts orders now =
     (case issued of
        None \<Rightarrow> Refused ''HEARTBEAT_EXPIRED''
      | Some t \<Rightarrow>
          if \<not> num_lt (Fin 0) ttl \<or> num_lt ttl (num_of_bigint (now - t)) then Refused ''HEARTBEAT_EXPIRED''
          else if writer \<noteq> expected then Refused ''HEARTBEAT_WRITER_CONFLICT''
          else if num_le accounts (Fin 0) \<and> num_le orders (Fin 0) then Refused ''HEARTBEAT_SCOPE_EMPTY''
          else Ok ())"

section \<open>The autonomous loop\<close>

text \<open>LIVE is the only mode and has no transition, so every request for a mode throws.\<close>

definition auto_setMode :: "string \<Rightarrow> unit outcome" where
  "auto_setMode target = (let transitions = ([] :: string list) in if target \<notin> set transitions then Refused ''Invalid mode transition'' else Ok ())"

text \<open>It takes the same step as the pipeline. A pass is one turn of \<open>runContinuous\<close>: a throw ends it.\<close>

definition auto_pass ::
  "(string \<Rightarrow> bool) \<Rightarrow> pipeline \<Rightarrow> (jsnum \<Rightarrow> step_config) \<Rightarrow> (run_env \<Rightarrow> world deps) \<Rightarrow> pass_env \<Rightarrow> durable_row list option \<Rightarrow>
     string + step_input list \<Rightarrow> pipe \<Rightarrow> pipe" where
  "auto_pass is_uuid P cfg mk V rows inputs s =
     (let s1 = syncOpenExposure rows s in
      case inputs of Inl _ \<Rightarrow> s1 | Inr inps \<Rightarrow> snd (processMarkets is_uuid P cfg mk V inps s1))"

fun auto_passes ::
  "(string \<Rightarrow> bool) \<Rightarrow> pipeline \<Rightarrow> (jsnum \<Rightarrow> step_config) \<Rightarrow> (run_env \<Rightarrow> world deps) \<Rightarrow>
     (pass_env \<times> durable_row list option \<times> (string + step_input list)) list \<Rightarrow> pipe \<Rightarrow> pipe" where
  "auto_passes is_uuid P cfg mk [] s = s"
| "auto_passes is_uuid P cfg mk ((V, rows, inputs) # ps) s = auto_passes is_uuid P cfg mk ps (auto_pass is_uuid P cfg mk V rows inputs s)"

section \<open>Facts\<close>

text \<open>The preflight passes exactly when every probe answers well; the checks and their order are fixed.\<close>

definition answered :: "string + 'a \<Rightarrow> ('a \<Rightarrow> bool) \<Rightarrow> bool" where
  "answered answer good \<longleftrightarrow> (\<exists>x. answer = Inr x \<and> good x)"

lemma probe_ok [simp]: "snd (probe name good answer) \<longleftrightarrow> answered answer good"
  by (simp add: probe_def answered_def split: sum.split)

theorem preflight_iff:
  "fst (runLivePreflight D) \<longleftrightarrow>
     pd_connect D = None \<and> answered (pd_tables D) (\<lambda>ts. set REQUIRED_TABLES \<subseteq> set ts) \<and>
     (\<exists>cap loss. pd_bounds D = Inr (Some cap, Some loss)) \<and>
     (\<exists>m ms bid ask. pd_universe D = Inr (m # ms) \<and> pd_book D m = Inr (Some (bid, ask)) \<and> is_finite_num bid \<and> is_finite_num ask) \<and>
     pd_wallet D = Inr True \<and> pd_creds D = Inr True \<and> pd_metrics_key D = Inr True \<and>
     answered (pd_latch D) (\<lambda>row. \<not> was_halted row) \<and> answered (pd_ledger D) (\<lambda>rows. \<forall>r \<in> set rows. \<not> stale_unknown (pd_now D) r) \<and>
     (pd_cash D \<noteq> None \<longrightarrow> answered (the (pd_cash D)) (\<lambda>b. \<exists>n. assessFunderCash b = Ok n))"
proof -
  have v: "snd (venue_read D) \<and> answered (pd_universe D) (\<lambda>u. u \<noteq> []) \<longleftrightarrow>
      (\<exists>m ms bid ask. pd_universe D = Inr (m # ms) \<and> pd_book D m = Inr (Some (bid, ask)) \<and> is_finite_num bid \<and> is_finite_num ask)"
    by (auto simp: venue_read_def universe_of_def answered_def book_readable_def split: sum.split list.split option.splits)
  have b: "answered (pd_bounds D) bounds_set \<longleftrightarrow> (\<exists>cap loss. pd_bounds D = Inr (Some cap, Some loss))"
    by (auto simp: answered_def bounds_set_def)
  have t: "tables_present = (\<lambda>ts. set REQUIRED_TABLES \<subseteq> set ts)"
    by (auto simp: tables_present_def list_all_iff fun_eq_iff)
  have k: "is_ok x \<longleftrightarrow> (\<exists>n. x = Ok n)" for x :: "int outcome" by (cases x) simp_all
  have c: "list_all snd (case pd_cash D of None \<Rightarrow> [] | Some answer \<Rightarrow> [probe ''funder-cash'' (\<lambda>b. is_ok (assessFunderCash b)) answer]) \<longleftrightarrow>
      (pd_cash D \<noteq> None \<longrightarrow> answered (the (pd_cash D)) (\<lambda>b. \<exists>n. assessFunderCash b = Ok n))"
    by (simp add: k split: option.split)
  have w: "answered (x :: string + bool) (\<lambda>ok. ok) \<longleftrightarrow> x = Inr True" for x by (auto simp: answered_def)
  have "fst (runLivePreflight D) \<longleftrightarrow> pd_connect D = None \<and> answered (pd_tables D) tables_present \<and> answered (pd_bounds D) bounds_set \<and>
      (snd (venue_read D) \<and> answered (pd_universe D) (\<lambda>u. u \<noteq> [])) \<and> pd_wallet D = Inr True \<and> pd_creds D = Inr True \<and>
      pd_metrics_key D = Inr True \<and> answered (pd_latch D) (\<lambda>row. \<not> was_halted row) \<and>
      answered (pd_ledger D) (\<lambda>rows. \<not> list_ex (stale_unknown (pd_now D)) rows) \<and>
      list_all snd (case pd_cash D of None \<Rightarrow> [] | Some answer \<Rightarrow> [probe ''funder-cash'' (\<lambda>b. is_ok (assessFunderCash b)) answer])"
    by (auto simp: runLivePreflight_def Let_def w)
  then show ?thesis unfolding v b t c by (simp add: list_ex_iff)
qed

text \<open>A latch row that is missing counts as clear, and a crossed book as readable.\<close>

lemma missing_latch_passes: "snd (probe ''loss-latch'' (\<lambda>row. \<not> was_halted row) (Inr None))"
  by (simp add: answered_def was_halted_def)

lemma crossed_book_is_readable: "book_readable (Some (Fin (9 / 10), Fin (1 / 10)))"
  by (simp add: book_readable_def)

text \<open>Nothing is cancelled, killed or exited unless the latch is engaged.\<close>

lemma was_halted_latch [simp]: "was_halted (halt_latch now row)"
  by (simp add: halt_latch_def guard_save_def was_halted_def)

theorem halt_engages_latch_first:
  assumes "requestHalt E w = (r, w')"
  shows "w' = w \<or> was_halted (hw_row w')"
    and "r = Inr counts \<Longrightarrow> was_halted (hw_row w') \<and> hw_exited w'"
proof -
  have k: "hw_row (snd (halt_kill E v)) = hw_row v" for v by (simp add: halt_kill_def split: option.split)
  have c: "hw_row (snd (halt_cancels E v)) = hw_row v" for v by (simp add: halt_cancels_def Let_def split: option.split sum.split)
  have "hw_row w' = halt_latch (he_now E) (hw_row w) \<and> (\<forall>x. r = Inr x \<longrightarrow> hw_exited w')"
    if "he_load_fault E = None" "he_save_fault E = None"
    using assms that c [of "w\<lparr>hw_row := halt_latch (he_now E) (hw_row w)\<rparr>"]
      k [of "snd (halt_cancels E (w\<lparr>hw_row := halt_latch (he_now E) (hw_row w)\<rparr>))"]
    by (auto simp: requestHalt_def eff_defs split: prod.splits sum.splits)
  then show "w' = w \<or> was_halted (hw_row w')" "r = Inr counts \<Longrightarrow> was_halted (hw_row w') \<and> hw_exited w'"
    using assms by (auto simp: requestHalt_def split: option.splits)
qed

text \<open>The cancels are best effort, the query that finds them is not: when it throws no agent is stopped.\<close>

lemma halt_query_failure_leaves_agents:
  assumes "he_load_fault E = None" and "he_save_fault E = None" and "he_cancel_orders E" and "he_orders E = Inl e"
  shows "requestHalt E w = (Inl e, w\<lparr>hw_row := halt_latch (he_now E) (hw_row w)\<rparr>)"
  using assms by (simp add: requestHalt_def halt_cancels_def eff_defs)

lemma halted_is_down: "hv_guard E = Inr row \<Longrightarrow> was_halted row \<Longrightarrow> collectHealth E = Health_DOWN"
  by (simp add: collectHealth_def health_probes_def probeLiveGuard_def)

text \<open>A venue that answers with an error is healthy; a recent shadow cycle is not looked at behind an old paper cycle.\<close>

lemma failing_venue_is_ok: "hv_venue E = Inr status \<Longrightarrow> probeVenue E = Probe_ok"
  by (simp add: probeVenue_def)

lemma fresh_shadow_is_ignored:
  "hv_paper E = Inr (Some (hv_now E - 2000000)) \<Longrightarrow> probePipeline E = Probe_degraded"
  by (simp add: probePipeline_def)

lemma own_unit_may_start:
  assumes "parseUnitProp (the (ie_unit E)) ''MainPID'' = int_str (ie_pid E)" and "\<not> ie_in_use E (Fin 9090)" and "ie_port E = Fin 9090"
  shows "assertSingleInstance E = Ok ()"
  using assms by (simp add: assertSingleInstance_def foreign_unit_def Let_def)

lemma recovered_iff: "recoveryGate ledger epochs venue = [] \<longleftrightarrow> ledger \<and> epochs \<and> venue"
  by (simp add: recoveryGate_def)

lemma pinned_iff: "verifySupplyChainPin locked observed = [] \<longleftrightarrow> (\<forall>(name, d) \<in> set locked. observed name = Some d)"
  by (auto simp: verifySupplyChainPin_def filter_empty_conv)

text \<open>A heartbeat issued in the future does not expire.\<close>

lemma future_heartbeat_lives:
  assumes "now < t" and "num_lt (Fin 0) ttl" and "is_finite_num (num_of_bigint (now - t))"
  shows "checkHeartbeatScope (Some t) ttl wr wr (Fin 1) orders now = Ok ()"
proof -
  have "fl (of_int (now - t)) \<noteq> NaN" by simp
  have "num_le (fl (of_int (now - t))) (fl 0)" using assms(1) by (intro fl_mono) simp
  moreover have "fl 0 = Fin 0" using is_double_0 by (simp add: representable_def)
  ultimately have "num_lt (num_of_bigint (now - t)) ttl"
    using assms(2) num_le_lt_trans by (simp add: num_of_bigint_def)
  then have "\<not> num_lt ttl (num_of_bigint (now - t))"
    by (cases ttl; cases "num_of_bigint (now - t)") simp_all
  with assms(2) show ?thesis by (simp add: checkHeartbeatScope_def)
qed

text \<open>Every pass of the autonomous loop is made of the steps of the pipeline, so what holds along its runs holds here too.\<close>

lemma processMarkets_reach:
  "loop_reach is_uuid P cfg mk s0 s \<Longrightarrow> loop_reach is_uuid P cfg mk s0 (snd (processMarkets is_uuid P cfg mk V inps s))"
proof (induction inps arbitrary: s)
  case (Cons inp inps)
  obtain r s' where r: "processMarket is_uuid P cfg mk V inp s = (r, s')" by fastforce
  have reach: "loop_reach is_uuid P cfg mk s0 s'"
    using loop_reach.step [OF Cons.prems loop_step.market, of V inp] r by simp
  show ?case
  proof (cases r)
    case (Inr res)
    obtain r2 s2 where r2: "processMarkets is_uuid P cfg mk V inps s' = (r2, s2)" by fastforce
    have "loop_reach is_uuid P cfg mk s0 s2" using Cons.IH [OF reach] r2 by simp
    then show ?thesis by (cases r2) (simp_all add: eff_defs r Inr r2)
  qed (simp add: eff_defs r reach)
qed simp

theorem auto_passes_reach: "loop_reach is_uuid P cfg mk s (auto_passes is_uuid P cfg mk ps s)"
proof -
  have "loop_reach is_uuid P cfg mk s t \<Longrightarrow> loop_reach is_uuid P cfg mk s (auto_passes is_uuid P cfg mk ps t)" for t
  proof (induction ps arbitrary: t)
    case (Cons p ps)
    obtain V rows inputs where p: "p = (V, rows, inputs)" by (cases p) auto
    have "loop_reach is_uuid P cfg mk s (syncOpenExposure rows t)"
      using loop_reach.step [OF Cons.prems loop_step.sync] .
    then have "loop_reach is_uuid P cfg mk s (auto_pass is_uuid P cfg mk V rows inputs t)"
      using processMarkets_reach by (auto simp: auto_pass_def Let_def split: sum.split)
    from Cons.IH [OF this] show ?case by (simp add: p)
  qed simp
  then show ?thesis using loop_reach.start by blast
qed

text \<open>The autonomous loop knows no mode watcher: what makes the pipeline skip a pass does not stop it.\<close>

lemma watcher_stops_only_the_pipeline:
  assumes "wt_degraded w \<or> wt_mode w = ''READ_ONLY''"
  shows "run_pass is_uuid P cfg mk V (A\<lparr>pa_watcher := Some w\<rparr>) s = s"
  using assms by (simp add: run_pass_def syncModeFromWatcher_def)

end
