(* ===== verification/Discovery.thy ===== *)
theory Discovery
  imports Resolution VenueAdapter LiveStep Governance
begin

text \<open>
  How the live loop finds its markets and what watched wallets do there: market discovery
  (\<open>src/pm/venue/src/market-discovery.ts\<close>), the explicit universe (\<open>market-universe.ts\<close>) and the smart-money flow feed
  (\<open>smart-money-feed.ts\<close>). Payloads are values, HTTP requests are answers of the environment; parallel reads finish in any order.
\<close>

section \<open>Markets of a payload\<close>

record discovered_market =
  dm_question :: string
  dm_slug :: string
  dm_yes :: string
  dm_no :: string
  dm_volume :: jsnum
  dm_end :: "ms option"

fun json_number :: "js_library \<Rightarrow> json option \<Rightarrow> jsnum option" where
  "json_number L (Some (J_Str s)) = Some (jl_number L (J_Str s))"
| "json_number L (Some (J_Num n)) = Some n"
| "json_number L _ = None"

definition finite_number :: "js_library \<Rightarrow> json option \<Rightarrow> jsnum option" where
  "finite_number L raw = (case json_number L raw of Some n \<Rightarrow> if is_finite_num n then Some n else None | None \<Rightarrow> None)"

definition text_field :: "(string \<times> json) list \<Rightarrow> string \<Rightarrow> string" where
  "text_field obj k = (case field_of obj k of Some (J_Str s) \<Rightarrow> s | _ \<Rightarrow> [])"

definition toEndDateMs :: "js_library \<Rightarrow> json option \<Rightarrow> ms option" where
  "toEndDateMs L raw = toMs L raw None"

definition gamma_market :: "js_library \<Rightarrow> (string \<times> json) list \<Rightarrow> json \<Rightarrow> discovered_market option" where
  "gamma_market L event m =
     (case m of
        J_Obj obj \<Rightarrow>
          (let ids = toTokenIds L (field_of obj ''clobTokenIds''); question = text_field obj ''question'' in
           if length ids < 2 \<or> question = [] then None
           else Some \<lparr>dm_question = question, dm_slug = text_field obj ''slug'', dm_yes = ids ! 0, dm_no = ids ! 1,
             dm_volume = (case finite_number L (field_of obj ''volume24hr'') of Some v \<Rightarrow> v | None \<Rightarrow> Fin 0),
             dm_end = first_some [toEndDateMs L (field_of obj ''endDate''), toEndDateMs L (field_of event ''endDate'')]\<rparr>)
      | _ \<Rightarrow> None)"

definition gamma_event :: "js_library \<Rightarrow> json \<Rightarrow> discovered_market list" where
  "gamma_event L e =
     (case e of
        J_Obj event \<Rightarrow> (case field_of event ''markets'' of Some (J_Arr ms) \<Rightarrow> List.map_filter (gamma_market L event) ms | _ \<Rightarrow> [])
      | _ \<Rightarrow> [])"

definition parseGammaEvents :: "js_library \<Rightarrow> json \<Rightarrow> discovered_market list" where
  "parseGammaEvents L data = (case data of J_Arr es \<Rightarrow> concat (map (gamma_event L) es) | _ \<Rightarrow> [])"

definition by_volume :: "discovered_market list \<Rightarrow> discovered_market list" where
  "by_volume ms = sort_key (\<lambda>m. - num_rat (dm_volume m)) ms"

definition fetchActiveMarkets :: "js_library \<Rightarrow> nat \<Rightarrow> string + json \<Rightarrow> string + discovered_market list" where
  "fetchActiveMarkets L limit answer =
     (case answer of Inl e \<Rightarrow> Inl e | Inr data \<Rightarrow> Inr (take limit (by_volume (parseGammaEvents L data))))"

section \<open>A person's pick\<close>

function split_seps :: "(char \<Rightarrow> bool) \<Rightarrow> string \<Rightarrow> string list" where
  "split_seps sep s =
     (let w = takeWhile (\<lambda>c. \<not> sep c) s; r = drop (length w) s
      in if r = [] then [w] else w # split_seps sep (dropWhile sep (tl r)))"
  by pat_completeness auto

lemma shorter_rest: "drop n s \<noteq> [] \<Longrightarrow> length (dropWhile p (tl (drop n s))) < length s"
  using length_dropWhile_le [of p "tl (drop n s)"] by simp

termination split_seps
  by (relation "measure (\<lambda>(_, s). length s)") (simp_all add: shorter_rest)

definition pick_number :: "nat \<Rightarrow> jsnum \<Rightarrow> nat option" where
  "pick_number k n =
     (case n of
        Fin q \<Rightarrow> if is_integer_num n \<and> 1 \<le> q \<and> q \<le> of_nat k then Some (nat \<lfloor>q\<rfloor> - 1) else None
      | _ \<Rightarrow> None)"

fun collect_picks :: "('a \<Rightarrow> nat option) \<Rightarrow> 'a list \<Rightarrow> nat list \<Rightarrow> nat list option" where
  "collect_picks f [] acc = Some acc"
| "collect_picks f (p # ps) acc =
     (case f p of None \<Rightarrow> None | Some i \<Rightarrow> collect_picks f ps (if i \<in> set acc then acc else acc @ [i]))"

definition parseMarketPick :: "js_library \<Rightarrow> string \<Rightarrow> discovered_market list \<Rightarrow> discovered_market list option" where
  "parseMarketPick L raw ms =
     (let t = map lower_char (trim_str raw) in
      if t = [] then Some []
      else if t = ''all'' \<or> t = ''semua'' then Some ms
      else map_option (map (\<lambda>i. ms ! i))
        (collect_picks (\<lambda>part. pick_number (length ms) (jl_number L (J_Str part))) (split_seps (\<lambda>c. c = CHR '','' \<or> is_space c) t) []))"

section \<open>Bounds\<close>

record discovery_env =
  dv_mode :: "string option"
  dv_ids :: "string option"
  dv_min_volume :: "string option"
  dv_max_markets :: "string option"
  dv_max_spread :: "string option"
  dv_min_hours :: "string option"
  dv_min_depth :: "string option"
  dv_max_churn :: "string option"

record discovery_bounds =
  db_min_volume :: jsnum
  db_max_markets :: jsnum
  db_max_spread :: jsnum
  db_min_hours :: jsnum
  db_min_depth :: jsnum
  db_max_churn :: jsnum

definition env_number :: "js_library \<Rightarrow> string option \<Rightarrow> jsnum" where
  "env_number L v = (case v of None \<Rightarrow> NaN | Some s \<Rightarrow> jl_number L (J_Str s))"

definition positive_number :: "jsnum \<Rightarrow> bool" where
  "positive_number n \<longleftrightarrow> is_finite_num n \<and> num_lt (Fin 0) n"

definition non_negative_or :: "jsnum \<Rightarrow> string option \<Rightarrow> js_library \<Rightarrow> jsnum" where
  "non_negative_or d v L = (let n = env_number L v in if is_finite_num n \<and> num_le (Fin 0) n then n else d)"

definition parseDiscoveryBounds :: "js_library \<Rightarrow> discovery_env \<Rightarrow> discovery_bounds" where
  "parseDiscoveryBounds L V =
     (let minRaw = env_number L (dv_min_volume V); maxRaw = env_number L (dv_max_markets V); spread = env_number L (dv_max_spread V)
      in \<lparr>db_min_volume = (if positive_number minRaw then math_floor minRaw else Fin 10000),
          db_max_markets = (if positive_number maxRaw then num_min (math_floor maxRaw) (Fin 20) else Fin 5),
          db_max_spread = (if positive_number spread then num_min (num_max spread (fl (1 / 100))) (Fin (1 / 2)) else fl (1 / 10)),
          db_min_hours = non_negative_or (Fin 2) (dv_min_hours V) L, db_min_depth = non_negative_or (Fin 25) (dv_min_depth V) L,
          db_max_churn = non_negative_or (Fin 2000) (dv_max_churn V) L\<rparr>)"

definition liquid :: "jsnum \<Rightarrow> discovered_market list \<Rightarrow> discovered_market list" where
  "liquid minVolume ms = by_volume (filter (\<lambda>m. num_le minVolume (dm_volume m)) ms)"

text \<open>\<open>slice(0, n)\<close> of an integral number.\<close>

definition num_nat :: "jsnum \<Rightarrow> nat" where
  "num_nat n = nat \<lfloor>num_rat n\<rfloor>"

definition selectLiquidMarkets :: "discovery_bounds \<Rightarrow> discovered_market list \<Rightarrow> discovered_market list" where
  "selectLiquidMarkets B ms = take (num_nat (db_max_markets B)) (liquid (db_min_volume B) ms)"

section \<open>Touches\<close>

record token_touch =
  tt_token :: string
  tt_bid :: "jsnum option"
  tt_ask :: "jsnum option"
  tt_bid_size :: "jsnum option"
  tt_ask_size :: "jsnum option"

definition finite_or_zero :: "jsnum option \<Rightarrow> jsnum" where
  "finite_or_zero v = (case v of Some n \<Rightarrow> if is_finite_num n then n else Fin 0 | None \<Rightarrow> Fin 0)"

definition touchDepthNotionalUsd :: "token_touch \<Rightarrow> jsnum option" where
  "touchDepthNotionalUsd t =
     (case (tt_bid_size t, tt_ask_size t) of
        (Some bs, Some as) \<Rightarrow>
          (let depth = num_add (num_mul (finite_or_zero (tt_bid t)) (num_max bs (Fin 0))) (num_mul (finite_or_zero (tt_ask t)) (num_max as (Fin 0)))
           in if is_finite_num depth then Some depth else None)
      | _ \<Rightarrow> None)"

definition usable_level :: "jsnum \<times> jsnum \<Rightarrow> bool" where
  "usable_level l \<longleftrightarrow> is_finite_num (fst l) \<and> num_le (Fin 0) (fst l) \<and> num_le (fst l) (Fin 1) \<and> is_finite_num (snd l) \<and> num_lt (Fin 0) (snd l)"

text \<open>The levels of an answer as pairs of price and size; \<open>None\<close> is a failed request.\<close>

definition fetchTokenTouch :: "string \<Rightarrow> ((jsnum \<times> jsnum) list \<times> (jsnum \<times> jsnum) list) option \<Rightarrow> token_touch option" where
  "fetchTokenTouch tok answer =
     (case answer of
        None \<Rightarrow> None
      | Some (bids, asks) \<Rightarrow>
          (let bs = sort_key (\<lambda>l. - num_rat (fst l)) (filter usable_level bids); as = sort_key (\<lambda>l. num_rat (fst l)) (filter usable_level asks);
               best = (\<lambda>ls. case ls of [] \<Rightarrow> None | l # _ \<Rightarrow> Some l)
           in if bs = [] \<and> as = [] then None
              else Some \<lparr>tt_token = tok, tt_bid = map_option fst (best bs), tt_ask = map_option fst (best as),
                tt_bid_size = map_option snd (best bs), tt_ask_size = map_option snd (best as)\<rparr>))"

record touch_guards =
  tg_min_depth :: jsnum
  tg_max_churn :: jsnum
  tg_min_hours :: jsnum
  tg_now :: ms
  tg_strict :: bool

definition expiry_ok :: "touch_guards \<Rightarrow> discovered_market \<Rightarrow> bool" where
  "expiry_ok G m =
     (let minExp = num_mul (tg_min_hours G) (Fin 3600000) in
      if num_lt (Fin 0) minExp
      then (case dm_end m of None \<Rightarrow> \<not> tg_strict G | Some t \<Rightarrow> \<not> num_lt (num_of_bigint (t - tg_now G)) minExp)
      else True)"

definition spread_ok :: "jsnum \<Rightarrow> token_touch \<Rightarrow> bool" where
  "spread_ok maxSpread t =
     (case (tt_bid t, tt_ask t) of
        (Some bid, Some ask) \<Rightarrow> \<not> num_lt bid (fl (2 / 100)) \<and> \<not> num_lt (fl (98 / 100)) ask \<and> \<not> num_lt maxSpread (num_sub ask bid)
      | _ \<Rightarrow> False)"

definition depth_ok :: "touch_guards \<Rightarrow> discovered_market \<Rightarrow> token_touch \<Rightarrow> bool" where
  "depth_ok G m t =
     (case touchDepthNotionalUsd t of
        None \<Rightarrow> \<not> tg_strict G
      | Some d \<Rightarrow> \<not> (num_lt (Fin 0) (tg_min_depth G) \<and> num_lt d (tg_min_depth G)) \<and>
          \<not> (num_lt (Fin 0) (tg_max_churn G) \<and> num_lt (tg_max_churn G) (num_div (dm_volume m) (num_max d (fl (1 / 10 ^ 9))))))"

definition token_ok :: "jsnum \<Rightarrow> touch_guards \<Rightarrow> discovered_market \<Rightarrow> token_touch option \<Rightarrow> string option" where
  "token_ok maxSpread G m t =
     (case t of None \<Rightarrow> None | Some t \<Rightarrow> if spread_ok maxSpread t \<and> depth_ok G m t then Some (tt_token t) else None)"

definition checked_market ::
  "jsnum \<Rightarrow> (string \<Rightarrow> token_touch option) \<Rightarrow> touch_guards \<Rightarrow> discovered_market \<Rightarrow> (discovered_market \<times> string list) option" where
  "checked_market maxSpread rd G m =
     (if \<not> expiry_ok G m then None
      else let toks = List.map_filter (token_ok maxSpread G m) [rd (dm_yes m), rd (dm_no m)] in if toks = [] then None else Some (m, toks))"

text \<open>The rank of a question is that of its last market; \<open>arrive\<close> is the order in which the reads finished.\<close>

definition question_rank :: "discovered_market list \<Rightarrow> string \<Rightarrow> nat" where
  "question_rank ms q = (case map_of (rev (zip (map dm_question ms) [0..<length ms])) q of Some i \<Rightarrow> i | None \<Rightarrow> 0)"

definition filterTightSpreadTokens ::
  "(discovered_market list \<Rightarrow> discovered_market list) \<Rightarrow> jsnum \<Rightarrow> (string \<Rightarrow> token_touch option) \<Rightarrow> touch_guards \<Rightarrow> discovered_market list \<Rightarrow>
     (discovered_market \<times> string list) list" where
  "filterTightSpreadTokens arrive maxSpread rd G ms =
     sort_key (\<lambda>(m, _). question_rank ms (dm_question m)) (List.map_filter (checked_market maxSpread rd G) (arrive ms))"

section \<open>The universe\<close>

definition readMarketUniverse :: "string \<Rightarrow> string list outcome" where
  "readMarketUniverse raw =
     (let ids = filter (\<lambda>s. s \<noteq> []) (map trim_str (split_char CHR '','' raw)) in
      if ids = [] then Refused ''MARKET_UNIVERSE_MISSING''
      else if \<not> list_all isClobAssetId ids then Refused ''MARKET_UNIVERSE_INVALID''
      else Ok (rev (remdups (rev ids))))"

definition resolveDiscoveryMode :: "discovery_env \<Rightarrow> bool" where
  "resolveDiscoveryMode V =
     (let raw = map lower_char (trim_str (case dv_mode V of Some s \<Rightarrow> s | None \<Rightarrow> [])) in
      if raw = ''auto'' then True
      else if raw = ''manual'' then False
      else trim_str (case dv_ids V of Some s \<Rightarrow> s | None \<Rightarrow> []) = [])"

definition discovery_guards :: "discovery_bounds \<Rightarrow> ms \<Rightarrow> touch_guards" where
  "discovery_guards B now = \<lparr>tg_min_depth = db_min_depth B, tg_max_churn = db_max_churn B, tg_min_hours = db_min_hours B, tg_now = now, tg_strict = False\<rparr>"

definition token_side :: "discovered_market list \<Rightarrow> string \<Rightarrow> outcome_side option" where
  "token_side ms i = fold (\<lambda>m s. if dm_yes m = i then Some YES else if dm_no m = i then Some NO else s) ms None"

definition resolveMarketUniverseWithSides ::
  "js_library \<Rightarrow> (discovered_market list \<Rightarrow> discovered_market list) \<Rightarrow> discovery_env \<Rightarrow> string + json \<Rightarrow> (string \<Rightarrow> token_touch option) \<Rightarrow> ms \<Rightarrow>
     (string list \<times> (string \<Rightarrow> outcome_side option)) outcome" where
  "resolveMarketUniverseWithSides L arrive V answer rd now =
     (if \<not> resolveDiscoveryMode V
      then (case readMarketUniverse (case dv_ids V of Some s \<Rightarrow> s | None \<Rightarrow> []) of Refused e \<Rightarrow> Refused e | Ok ids \<Rightarrow> Ok (ids, \<lambda>_. None))
      else (case fetchActiveMarkets L 50 answer of
         Inl e \<Rightarrow> Refused e
       | Inr active \<Rightarrow>
           (let B = parseDiscoveryBounds L V; volOk = liquid (db_min_volume B) active;
                checked = filterTightSpreadTokens arrive (db_max_spread B) rd (discovery_guards B now) (take 15 volOk);
                ids = concat (map snd (take (num_nat (db_max_markets B)) checked))
            in if ids = [] then Refused ''MARKET_UNIVERSE_MISSING''
               else (case readMarketUniverse (join_with '','' ids) of
                 Refused e \<Rightarrow> Refused e
               | Ok us \<Rightarrow> Ok (us, \<lambda>i. if i \<in> set ids then token_side volOk i else None)))))"

section \<open>Smart-money flows\<close>

record wallet_trade =
  wt_token :: string
  wt_buy :: bool
  wt_price :: jsnum
  wt_shares :: jsnum
  wt_usdc :: jsnum
  wt_at :: jsnum
  wt_tx :: string

definition upper_char :: "char \<Rightarrow> char" where
  "upper_char c = (if 97 \<le> (of_char c :: int) \<and> (of_char c :: int) \<le> 122 then char_of (of_char c - 32 :: nat) else c)"

definition activity_trade :: "js_library \<Rightarrow> string \<Rightarrow> json \<Rightarrow> wallet_trade option" where
  "activity_trade L wallet r =
     (case r of
        J_Obj rec \<Rightarrow>
          (let tok = text_field rec ''asset''; side = map upper_char (text_field rec ''side'') in
           if field_of rec ''type'' \<noteq> Some (J_Str ''TRADE'') then None
           else (case field_of rec ''proxyWallet'' of
             Some (J_Str p) \<Rightarrow>
               if map lower_char p \<noteq> map lower_char wallet \<or> tok = [] \<or> side \<notin> {''BUY'', ''SELL''} then None
               else (case (finite_number L (field_of rec ''price''), finite_number L (field_of rec ''size''), finite_number L (field_of rec ''usdcSize''),
                       finite_number L (field_of rec ''timestamp'')) of
                 (Some price, Some shares, Some usdc, Some ts) \<Rightarrow>
                   if num_le price (Fin 0) \<or> num_le (Fin 1) price \<or> num_le shares (Fin 0) \<or> num_lt usdc (Fin 0) \<or> num_le ts (Fin 0)
                      \<or> text_field rec ''transactionHash'' = [] then None
                   else Some \<lparr>wt_token = tok, wt_buy = (side = ''BUY''), wt_price = price, wt_shares = shares, wt_usdc = usdc,
                     wt_at = math_floor (num_mul ts (Fin 1000)), wt_tx = text_field rec ''transactionHash''\<rparr>
               | _ \<Rightarrow> None)
           | _ \<Rightarrow> None))
      | _ \<Rightarrow> None)"

text \<open>Of the trades of one transaction the first is kept.\<close>

definition first_by_tx :: "wallet_trade list \<Rightarrow> wallet_trade list" where
  "first_by_tx ts = fold (\<lambda>t acc. if wt_tx t \<in> wt_tx ` set acc then acc else acc @ [t]) ts []"

definition parseActivityTrades :: "js_library \<Rightarrow> string \<Rightarrow> json \<Rightarrow> wallet_trade list" where
  "parseActivityTrades L wallet data =
     (case data of J_Arr rs \<Rightarrow> first_by_tx (List.map_filter (activity_trade L wallet) rs) | _ \<Rightarrow> [])"

record token_flow =
  tf_net :: jsnum
  tf_buy :: jsnum
  tf_sell :: jsnum
  tf_wallets :: nat
  tf_trades :: nat
  tf_updated :: jsnum

definition no_flow :: token_flow where
  "no_flow = \<lparr>tf_net = Fin 0, tf_buy = Fin 0, tf_sell = Fin 0, tf_wallets = 0, tf_trades = 0, tf_updated = Fin 0\<rparr>"

definition add_flow :: "wallet_trade \<Rightarrow> token_flow \<Rightarrow> token_flow" where
  "add_flow t f =
     (let f1 = (if wt_buy t then f\<lparr>tf_buy := num_add (tf_buy f) (wt_usdc t), tf_net := num_add (tf_net f) (wt_usdc t)\<rparr>
                else f\<lparr>tf_sell := num_add (tf_sell f) (wt_usdc t), tf_net := num_sub (tf_net f) (wt_usdc t)\<rparr>)
      in f1\<lparr>tf_trades := tf_trades f + 1, tf_updated := num_max (tf_updated f) (wt_at t)\<rparr>)"

definition in_lookback :: "jsnum \<Rightarrow> ms \<Rightarrow> wallet_trade \<Rightarrow> bool" where
  "in_lookback lookback now t \<longleftrightarrow> \<not> num_lt (wt_at t) (num_sub (num_of_bigint now) (num_max lookback (Fin 0)))"

definition buildTokenFlows :: "jsnum \<Rightarrow> ms \<Rightarrow> wallet_trade list \<Rightarrow> (string \<times> token_flow) list" where
  "buildTokenFlows lookback now ts =
     fold (\<lambda>t fs. map_set (wt_token t) (add_flow t (case map_of fs (wt_token t) of Some f \<Rightarrow> f | None \<Rightarrow> no_flow)) fs)
       (filter (in_lookback lookback now) ts) []"

definition wallet_address :: "string \<Rightarrow> bool" where
  "wallet_address w \<longleftrightarrow> take 2 w = ''0x'' \<and> length w = 42 \<and> list_all (\<lambda>c. is_digit c \<or> c \<in> set ''abcdef'') (drop 2 w)"

definition add_wallet :: "string \<Rightarrow> string list \<Rightarrow> string list" where
  "add_wallet part acc =
     (let w = map lower_char (trim_str part) in if length acc \<ge> 20 \<or> \<not> wallet_address w \<or> w \<in> set acc then acc else acc @ [w])"

definition parseWatchlist :: "string option \<Rightarrow> string list" where
  "parseWatchlist raw = (if \<not> truthy raw then [] else fold add_wallet (split_char CHR '','' (the raw)) [])"

text \<open>One refresh of the cache: every wallet's answer is its trades or a failure, which is skipped. The wallets of a token are counted
  before the window is applied.\<close>

record token_entry =
  te_trades :: "wallet_trade list"
  te_wallets :: "string list"

definition add_entry :: "string \<Rightarrow> wallet_trade \<Rightarrow> (string \<times> token_entry) list \<Rightarrow> (string \<times> token_entry) list" where
  "add_entry w t es =
     (let e = (case map_of es (wt_token t) of Some e \<Rightarrow> e | None \<Rightarrow> \<lparr>te_trades = [], te_wallets = []\<rparr>)
      in map_set (wt_token t) \<lparr>te_trades = te_trades e @ [t], te_wallets = (if w \<in> set (te_wallets e) then te_wallets e else te_wallets e @ [w])\<rparr> es)"

definition gather :: "(string \<times> (string + wallet_trade list)) list \<Rightarrow> (string \<times> token_entry) list" where
  "gather answers = fold (\<lambda>(w, a) es. case a of Inl _ \<Rightarrow> es | Inr ts \<Rightarrow> fold (add_entry w) ts es) answers []"

definition flow_of_entry :: "jsnum \<Rightarrow> ms \<Rightarrow> string \<times> token_entry \<Rightarrow> (string \<times> token_flow) option" where
  "flow_of_entry lookback now e =
     map_option (\<lambda>f. (fst e, f\<lparr>tf_wallets := length (te_wallets (snd e))\<rparr>)) (map_of (buildTokenFlows lookback now (te_trades (snd e))) (fst e))"

definition smart_tick :: "jsnum \<Rightarrow> ms \<Rightarrow> (string \<times> (string + wallet_trade list)) list \<Rightarrow> (string \<times> token_flow) list" where
  "smart_tick lookback now answers = List.map_filter (flow_of_entry lookback now) (gather answers)"

definition getFlow :: "(string \<times> token_flow) list \<Rightarrow> string \<Rightarrow> smart_flow option" where
  "getFlow cache tok = map_option (\<lambda>f. \<lparr>sf_net = tf_net f, sf_wallets = num_of_bigint (int (tf_wallets f)), sf_updated = tf_updated f\<rparr>) (map_of cache tok)"

section \<open>The universe is what was checked\<close>

definition word_code :: "int \<Rightarrow> bool" where
  "word_code k \<longleftrightarrow> 48 \<le> k \<and> k \<le> 57 \<or> 65 \<le> k \<and> k \<le> 90 \<or> 97 \<le> k \<and> k \<le> 122"

lemma is_hex_code: "VenueAdapter.is_hex c \<Longrightarrow> word_code (of_char c)"
  unfolding VenueAdapter.is_hex_def digit_val_def Let_def word_code_def by (simp split: if_splits)

lemma is_digit_code: "is_digit c \<Longrightarrow> word_code (of_char c)"
  by (auto simp: is_digit_def word_code_def)

lemma isClobAssetId_chars: "isClobAssetId s \<Longrightarrow> c \<in> set s \<Longrightarrow> c \<noteq> CHR '','' \<and> \<not> is_space c"
proof -
  assume s: "isClobAssetId s" and c: "c \<in> set s"
  have "is_digit c \<or> VenueAdapter.is_hex c \<or> c = CHR ''0'' \<or> c = CHR ''x''"
  proof (cases "list_all is_digit s")
    case False
    then have h: "take 2 s = ''0x''" "list_all VenueAdapter.is_hex (drop 2 s)" using s by (simp_all add: isClobAssetId_def)
    have "c \<in> set (take 2 s @ drop 2 s)" using c by simp
    then show ?thesis using h by (auto simp: list_all_iff)
  qed (use c in \<open>simp add: list_all_iff\<close>)
  then have "word_code (of_char c)" using is_hex_code is_digit_code by (auto simp: word_code_def)
  then show ?thesis by (auto simp: word_code_def is_space_def)
qed

lemma trim_no_space: "(\<And>c. c \<in> set s \<Longrightarrow> \<not> is_space c) \<Longrightarrow> trim_str s = s"
proof -
  assume s: "\<And>c. c \<in> set s \<Longrightarrow> \<not> is_space c"
  have "dropWhile is_space t = t" if "set t \<subseteq> set s" for t using that s by (cases t) auto
  from this [of s] this [of "rev s"] show ?thesis by (simp add: trim_str_def)
qed

text \<open>Asset identifiers written with commas are read back.\<close>

theorem universe_roundtrip:
  assumes "ids \<noteq> []" and "list_all isClobAssetId ids"
  shows "readMarketUniverse (join_with '','' ids) = Ok (rev (remdups (rev ids)))"
proof -
  have c: "\<forall>x \<in> set ids. CHR '','' \<notin> set x" using assms(2) isClobAssetId_chars by (fastforce simp: list_all_iff)
  have t: "map trim_str ids = ids"
    using assms(2) isClobAssetId_chars trim_no_space by (intro map_idI) (metis list_all_iff)
  have ne: "filter (\<lambda>s. s \<noteq> []) ids = ids"
    using assms(2) by (intro filter_True) (auto simp: list_all_iff isClobAssetId_def)
  show ?thesis using assms by (simp add: readMarketUniverse_def split_char_join [OF assms(1) c] t ne Let_def)
qed

lemma question_rank_nth:
  assumes "distinct (map dm_question ms)" and "i < length ms"
  shows "question_rank ms (dm_question (ms ! i)) = i"
proof -
  have "distinct (map fst (zip (map dm_question ms) [0..<length ms]))" using assms(1) by simp
  then have d: "distinct (map fst (rev (zip (map dm_question ms) [0..<length ms])))" by (simp add: rev_map [symmetric] del: map_fst_zip)
  have "(dm_question (ms ! i), i) \<in> set (rev (zip (map dm_question ms) [0..<length ms]))"
    using assms(2) by (auto simp: set_zip intro!: exI [of _ i])
  then have "map_of (rev (zip (map dm_question ms) [0..<length ms])) (dm_question (ms ! i)) = Some i"
    using map_of_is_SomeI [OF d] by blast
  then show ?thesis by (simp add: question_rank_def)
qed

lemma sorted_ranks:
  assumes "distinct (map dm_question ms)"
  shows "map (\<lambda>m. question_rank ms (dm_question m)) ms = [0..<length ms]"
  using question_rank_nth [OF assms] by (intro nth_equalityI) simp_all

lemma checked_market_fst: "checked_market s rd G m = Some p \<Longrightarrow> fst p = m"
  by (auto simp: checked_market_def Let_def split: if_splits)

lemma sorted_map_filter:
  assumes "sorted (map k xs)" and "\<And>x y. f x = Some y \<Longrightarrow> k' y = k x"
  shows "sorted (map k' (List.map_filter f xs))"
  using assms(1)
proof (induction xs)
  case (Cons x xs)
  then have IH: "sorted (map k' (List.map_filter f xs))" by simp
  show ?case
  proof (cases "f x")
    case (Some y)
    have "k' y \<le> k' z" if "z \<in> set (List.map_filter f xs)" for z
    proof -
      from that obtain u where "u \<in> set xs" "f u = Some z" by (auto simp: List.map_filter_def)
      with Cons.prems assms(2) [OF Some] assms(2) [of u z] show ?thesis by auto
    qed
    with IH Some show ?thesis by (simp add: List.map_filter_simps)
  qed (simp add: List.map_filter_simps IH)
qed (simp add: List.map_filter_simps)

lemma mset_map_filter: "mset xs = mset ys \<Longrightarrow> mset (List.map_filter f xs) = mset (List.map_filter f ys)"
  by (simp add: List.map_filter_def)

text \<open>In whatever order the parallel reads finish, the checked markets come out in the order of their volume, as long as no two
  markets ask the same question.\<close>

theorem discovery_order_deterministic:
  assumes "mset (arrive ms) = mset ms" and "distinct (map dm_question ms)"
  shows "filterTightSpreadTokens arrive maxSpread rd G ms = List.map_filter (checked_market maxSpread rd G) ms"
  unfolding filterTightSpreadTokens_def
proof (rule sort_key_inj_key_eq)
  let ?f = "checked_market maxSpread rd G"
  let ?k = "\<lambda>(m, toks). question_rank ms (dm_question m)"
  show "mset (List.map_filter ?f (arrive ms)) = mset (List.map_filter ?f ms)" by (rule mset_map_filter [OF assms(1)])
  have k: "?k y = question_rank ms (dm_question x)" if "?f x = Some y" for x y
    using checked_market_fst [OF that] by (cases y) simp
  show "sorted (map ?k (List.map_filter ?f ms))"
    using k by (intro sorted_map_filter [where k = "\<lambda>m. question_rank ms (dm_question m)"]) (simp_all add: sorted_ranks [OF assms(2)])
  have "set (arrive ms) = set ms" using assms(1) by (rule mset_eq_setD)
  then have elem: "\<exists>m \<in> set ms. ?f m = Some y" if "y \<in> set (List.map_filter ?f (arrive ms))" for y
    using that by (auto simp: List.map_filter_def)
  show "inj_on ?k (set (List.map_filter ?f (arrive ms)))"
  proof (rule inj_onI)
    fix y z
    assume y: "y \<in> set (List.map_filter ?f (arrive ms))" and z: "z \<in> set (List.map_filter ?f (arrive ms))" and eq: "?k y = ?k z"
    from elem [OF y] elem [OF z] obtain m n where m: "m \<in> set ms" "?f m = Some y" and n: "n \<in> set ms" "?f n = Some z" by blast
    then obtain i j where "i < length ms" "m = ms ! i" "j < length ms" "n = ms ! j" by (auto simp: in_set_conv_nth)
    with eq k [OF m(2)] k [OF n(2)] question_rank_nth [OF assms(2)] have "m = n" by simp
    with m(2) n(2) show "y = z" by simp
  qed
qed

text \<open>An automatic universe names only tokens of the payload whose market and touch passed the checks.\<close>

lemma token_ok_Some:
  "token_ok s G m t = Some x \<longleftrightarrow> (\<exists>tt. t = Some tt \<and> spread_ok s tt \<and> depth_ok G m tt \<and> tt_token tt = x)"
  by (auto simp: token_ok_def split: option.split)

lemma checked_market_tokens:
  assumes "checked_market s rd G m = Some p" and "x \<in> set (snd p)"
  shows "expiry_ok G m \<and> (\<exists>t \<in> {dm_yes m, dm_no m}. token_ok s G m (rd t) = Some x)"
proof -
  have e: "expiry_ok G m" and p: "snd p = List.map_filter (token_ok s G m) [rd (dm_yes m), rd (dm_no m)]"
    using assms(1) by (auto simp: checked_market_def Let_def split: if_splits)
  from assms(2) obtain r where "r \<in> {rd (dm_yes m), rd (dm_no m)}" "token_ok s G m r = Some x"
    unfolding p by (auto simp: List.map_filter_simps split: option.splits)
  with e show ?thesis by auto
qed

lemma in_map_filter: "y \<in> set (List.map_filter f xs) \<longleftrightarrow> (\<exists>x \<in> set xs. f x = Some y)"
  by (induction xs) (auto simp: List.map_filter_simps split: option.split)

lemma take_set: "x \<in> set (take n xs) \<Longrightarrow> x \<in> set xs"
  by (rule in_set_takeD)

theorem auto_universe_checked:
  assumes auto: "resolveDiscoveryMode V" and arrive: "\<And>ms. set (arrive ms) \<subseteq> set ms"
    and ok: "resolveMarketUniverseWithSides L arrive V (Inr data) rd now = Ok (us, side)" and i: "i \<in> set us"
    and ids: "\<And>t tt. rd t = Some tt \<Longrightarrow> isClobAssetId (tt_token tt)"
  shows "\<exists>m t tt. m \<in> set (parseGammaEvents L data) \<and> num_le (db_min_volume (parseDiscoveryBounds L V)) (dm_volume m) \<and>
    t \<in> {dm_yes m, dm_no m} \<and> rd t = Some tt \<and> tt_token tt = i \<and> spread_ok (db_max_spread (parseDiscoveryBounds L V)) tt \<and>
    depth_ok (discovery_guards (parseDiscoveryBounds L V) now) m tt \<and> expiry_ok (discovery_guards (parseDiscoveryBounds L V) now) m"
proof -
  let ?B = "parseDiscoveryBounds L V"
  let ?G = "discovery_guards ?B now"
  define vol where "vol = liquid (db_min_volume ?B) (take 50 (by_volume (parseGammaEvents L data)))"
  define checked where "checked = filterTightSpreadTokens arrive (db_max_spread ?B) rd ?G (take 15 vol)"
  define toks where "toks = concat (map snd (take (num_nat (db_max_markets ?B)) checked))"
  have tok: "\<exists>m t tt. m \<in> set vol \<and> t \<in> {dm_yes m, dm_no m} \<and> rd t = Some tt \<and> tt_token tt = x \<and> spread_ok (db_max_spread ?B) tt \<and>
      depth_ok ?G m tt \<and> expiry_ok ?G m" if "x \<in> set toks" for x
  proof -
    from that obtain p where "p \<in> set (take (num_nat (db_max_markets ?B)) checked)" and x: "x \<in> set (snd p)"
      unfolding toks_def by auto
    then have p: "p \<in> set checked" "x \<in> set (snd p)" using take_set by fastforce+
    from p(1) obtain m where am: "m \<in> set (arrive (take 15 vol))" and m: "checked_market (db_max_spread ?B) rd ?G m = Some p"
      unfolding checked_def filterTightSpreadTokens_def set_sort in_map_filter by (rule bexE)
    have "m \<in> set vol" using take_set [OF subsetD [OF arrive am]] .
    moreover from checked_market_tokens [OF m p(2)] obtain t where
      "t \<in> {dm_yes m, dm_no m}" "token_ok (db_max_spread ?B) ?G m (rd t) = Some x" "expiry_ok ?G m" by blast
    ultimately show ?thesis by (auto simp: token_ok_Some)
  qed
  have valid: "list_all isClobAssetId toks" using tok ids by (metis list_all_iff)
  have res: "toks \<noteq> [] \<and> readMarketUniverse (join_with '','' toks) = Ok us"
    using ok auto by (auto simp: resolveMarketUniverseWithSides_def fetchActiveMarkets_def Let_def vol_def checked_def toks_def
        split: if_splits outcome.splits)
  with universe_roundtrip [of toks] valid i have "i \<in> set toks" by auto
  from tok [OF this] obtain m t tt where m: "m \<in> set vol" and t: "t \<in> {dm_yes m, dm_no m}" "rd t = Some tt" "tt_token tt = i"
    "spread_ok (db_max_spread ?B) tt" "depth_ok ?G m tt" "expiry_ok ?G m" by blast
  from m have "num_le (db_min_volume ?B) (dm_volume m)" "m \<in> set (parseGammaEvents L data)"
    by (auto simp: vol_def liquid_def by_volume_def dest: take_set)
  with t show ?thesis by blast
qed

text \<open>The strict policy for LIVE is never requested: a market whose end is unknown passes the expiry gate.\<close>

lemma unknown_expiry_passes: "dm_end m = None \<Longrightarrow> expiry_ok (discovery_guards B now) m"
  by (simp add: expiry_ok_def discovery_guards_def Let_def)

text \<open>A fractional maximum is rounded down to no market at all.\<close>

lemma fraction_means_no_market:
  assumes "jl_number L (J_Str s) = Fin (1 / 2)" and "dv_max_markets V = Some s"
  shows "selectLiquidMarkets (parseDiscoveryBounds L V) ms = []"
  using assms by (simp add: selectLiquidMarkets_def parseDiscoveryBounds_def env_number_def positive_number_def num_nat_def num_min_def Let_def)

section \<open>Flows\<close>

lemma add_wallet_ok:
  "distinct acc \<Longrightarrow> length acc \<le> 20 \<Longrightarrow> list_all wallet_address acc \<Longrightarrow>
     distinct (add_wallet p acc) \<and> length (add_wallet p acc) \<le> 20 \<and> list_all wallet_address (add_wallet p acc)"
  by (simp add: add_wallet_def Let_def)

lemma watchlist_bounded:
  "distinct (parseWatchlist raw) \<and> length (parseWatchlist raw) \<le> 20 \<and> list_all wallet_address (parseWatchlist raw)"
proof -
  have "distinct acc \<Longrightarrow> length acc \<le> 20 \<Longrightarrow> list_all wallet_address acc \<Longrightarrow>
      distinct (fold add_wallet ps acc) \<and> length (fold add_wallet ps acc) \<le> 20 \<and> list_all wallet_address (fold add_wallet ps acc)" for ps acc
  proof (induction ps arbitrary: acc)
    case (Cons p ps)
    show ?case using Cons.IH [of "add_wallet p acc"] add_wallet_ok [OF Cons.prems, of p] by simp
  qed simp
  from this [of "[]"] show ?thesis by (simp add: parseWatchlist_def)
qed

lemma one_trade_per_transaction: "distinct (map wt_tx (parseActivityTrades L wallet data))"
proof -
  have "distinct (map wt_tx acc) \<Longrightarrow> distinct (map wt_tx (fold (\<lambda>t acc. if wt_tx t \<in> wt_tx ` set acc then acc else acc @ [t]) ts acc))" for ts acc
    by (induction ts arbitrary: acc) auto
  from this [of "[]"] have "distinct (map wt_tx (first_by_tx ts))" for ts by (simp add: first_by_tx_def)
  then show ?thesis by (cases data) (simp_all add: parseActivityTrades_def)
qed

text \<open>A wallet whose only sale is older than the window corroborates the sale of another: with two wallets counted the guard
  raises the edge floor on the word of one.\<close>

definition old_sale :: "jsnum \<Rightarrow> string \<Rightarrow> wallet_trade" where
  "old_sale t tx = \<lparr>wt_token = ''t'', wt_buy = False, wt_price = Fin (1 / 2), wt_shares = Fin 4000, wt_usdc = Fin 2000, wt_at = t, wt_tx = tx\<rparr>"

lemma stale_wallet_corroborates:
  assumes "in_lookback lookback now (old_sale new ''n'')" and "\<not> in_lookback lookback now (old_sale old ''o'')"
    and "getFlow (smart_tick lookback now [(''a'', Inr [old_sale new ''n'']), (''b'', Inr [old_sale old ''o''])]) ''t'' = Some f"
  shows "sf_wallets f = num_of_bigint 2"
  using assms by (auto simp: getFlow_def smart_tick_def gather_def add_entry_def flow_of_entry_def buildTokenFlows_def List.map_filter_simps Let_def old_sale_def
      split: if_splits)

end
