(* ===== verification/LedgerEntries.thy ===== *)
theory LedgerEntries
  imports Quoting
begin

text \<open>
  The ledger primitives of \<open>src/pm/ledger/src/index.ts\<close>: the entries of an intent, the projection that sums them, the event that
  carries them and the in-memory outbox.
\<close>

section \<open>Entries\<close>

datatype ledger_side = Ledger_DEBIT | Ledger_CREDIT

record ledger_entry =
  le_account :: string
  le_side :: ledger_side
  le_amount :: int
  le_asset :: string

definition intent_amount :: "strategy_intent \<Rightarrow> js_error + int" where
  "intent_amount t =
     bigint_of_num (math_round (num_mul (case first_some [sx_size t, ti_desired_qty t] of Some n \<Rightarrow> n | None \<Rightarrow> Fin 0) (Fin 1000000)))"

definition generateEntriesForIntent :: "strategy_intent \<Rightarrow> string \<Rightarrow> string \<Rightarrow> string \<Rightarrow> js_error + ledger_entry list" where
  "generateEntriesForIntent t wallet asset order =
     map_sum id (\<lambda>n. [\<lparr>le_account = ''available:'' @ wallet, le_side = Ledger_CREDIT, le_amount = n, le_asset = asset\<rparr>,
       \<lparr>le_account = ''reserved:'' @ wallet @ '':'' @ order, le_side = Ledger_DEBIT, le_amount = n, le_asset = asset\<rparr>]) (intent_amount t)"

section \<open>Projection\<close>

definition entry_key :: "ledger_entry \<Rightarrow> string" where
  "entry_key e = le_account e @ '':'' @ le_asset e"

definition signed_amount :: "ledger_entry \<Rightarrow> int" where
  "signed_amount e = (if le_side e = Ledger_CREDIT then le_amount e else - le_amount e)"

definition project_entry :: "ledger_entry \<Rightarrow> (string \<times> int) list \<Rightarrow> (string \<times> int) list" where
  "project_entry e b = map_set (entry_key e) ((case map_of b (entry_key e) of Some n \<Rightarrow> n | None \<Rightarrow> 0) + signed_amount e) b"

definition projectBalance :: "ledger_entry list \<Rightarrow> (string \<times> int) list" where
  "projectBalance es = fold project_entry es []"

section \<open>Event and outbox\<close>

record entries_event =
  ee_id :: uuid
  ee_aggregate :: string
  ee_intent :: strategy_intent
  ee_entries :: "(string \<times> ledger_side \<times> string \<times> string) list"
  ee_at :: ms

definition mapEntriesToEvent :: "uuid \<Rightarrow> strategy_intent \<Rightarrow> ledger_entry list \<Rightarrow> ms \<Rightarrow> entries_event" where
  "mapEntriesToEvent i t es now =
     \<lparr>ee_id = i, ee_aggregate = ti_intent_id t, ee_intent = t,
      ee_entries = map (\<lambda>e. (le_account e, le_side e, int_str (le_amount e), le_asset e)) es, ee_at = now\<rparr>"

definition outbox_stage :: "entries_event \<Rightarrow> entries_event list \<Rightarrow> entries_event list" where
  "outbox_stage e staged = staged @ [e]"

definition outbox_flush :: "entries_event list \<Rightarrow> entries_event list \<times> entries_event list" where
  "outbox_flush staged = (staged, [])"

section \<open>Sums\<close>

text \<open>The balance of a key is the sum of its signed entries.\<close>

lemma projected_balance:
  "map_of (projectBalance es) k =
     (let mine = filter (\<lambda>e. entry_key e = k) es in if mine = [] then None else Some (sum_list (map signed_amount mine)))"
proof (induction es rule: rev_induct)
  case (snoc e es)
  have "projectBalance (es @ [e]) = project_entry e (projectBalance es)" by (simp add: projectBalance_def)
  with snoc show ?case by (auto simp: project_entry_def map_of_map_set Let_def split: option.split if_splits)
qed (simp add: projectBalance_def)

lemma sum_map_set: "sum_list (map snd (map_set k (v :: int) b)) = sum_list (map snd b) + v - (case map_of b k of Some n \<Rightarrow> n | None \<Rightarrow> 0)"
  by (induction b) (auto split: option.split)

text \<open>What an intent moves between accounts cancels out: the projected balances of any intents' entries add up to nothing.\<close>

lemma projected_total: "distinct (map fst (projectBalance es)) \<and> sum_list (map snd (projectBalance es)) = sum_list (map signed_amount es)"
proof (induction es rule: rev_induct)
  case (snoc e es)
  have "projectBalance (es @ [e]) = project_entry e (projectBalance es)" by (simp add: projectBalance_def)
  with snoc show ?case by (auto simp: project_entry_def distinct_map_set sum_map_set split: option.split)
qed (simp add: projectBalance_def)

lemma intent_entries_cancel: "generateEntriesForIntent t wallet asset order = Inr es \<Longrightarrow> sum_list (map signed_amount es) = 0"
  by (cases "intent_amount t") (auto simp: generateEntriesForIntent_def signed_amount_def)

theorem double_entry:
  assumes "\<And>es. es \<in> set ess \<Longrightarrow> \<exists>t wallet asset order. generateEntriesForIntent t wallet asset order = Inr es"
  shows "sum_list (map snd (projectBalance (concat ess))) = 0"
proof -
  have one: "sum_list (map signed_amount es) = 0" if "es \<in> set ess" for es
    using assms [OF that] intent_entries_cancel by blast
  then have "sum_list (map signed_amount (concat ess)) = 0" by (induction ess) simp_all
  then show ?thesis by (simp add: projected_total)
qed

text \<open>The entry named a credit to the available balance raises it: what an order is to reserve is added to what is free.\<close>

lemma submitting_raises_available:
  assumes "generateEntriesForIntent t wallet asset order = Inr es" and "intent_amount t = Inr n"
  shows "map_of (projectBalance es) (''available:'' @ wallet @ '':'' @ asset) = Some n"
  using assms
  by (auto simp: generateEntriesForIntent_def projected_balance entry_key_def signed_amount_def Let_def)

lemma flushed_once: "snd (outbox_flush (snd (outbox_flush staged))) = [] \<and> fst (outbox_flush (snd (outbox_flush staged))) = []"
  by (simp add: outbox_flush_def)

end
