(* ===== verification/Telemetry.thy ===== *)
theory Telemetry
  imports Resolution Governance
begin

text \<open>
  Metrics, the redacting logger, alerts and the health check of \<open>src/pm/observability/src/index.ts\<close>. Metadata are values of any
  depth; listeners are named, and what they do with an alert is theirs.
\<close>

section \<open>Metrics\<close>

record metrics =
  mt_counters :: "(string \<times> jsnum) list"
  mt_gauges :: "(string \<times> jsnum) list"
  mt_histograms :: "(string \<times> jsnum list) list"

definition getCounter :: "string \<Rightarrow> metrics \<Rightarrow> jsnum" where
  "getCounter name m = (case map_of (mt_counters m) name of Some n \<Rightarrow> n | None \<Rightarrow> Fin 0)"

definition setCounter :: "string \<Rightarrow> jsnum \<Rightarrow> metrics \<Rightarrow> metrics" where
  "setCounter name v m = m\<lparr>mt_counters := map_set name v (mt_counters m)\<rparr>"

definition increment :: "string \<Rightarrow> jsnum \<Rightarrow> metrics \<Rightarrow> metrics" where
  "increment name amount m = setCounter name (num_add (getCounter name m) amount) m"

definition set_gauge :: "string \<Rightarrow> jsnum \<Rightarrow> metrics \<Rightarrow> metrics" where
  "set_gauge name v m = m\<lparr>mt_gauges := map_set name v (mt_gauges m)\<rparr>"

definition getGauge :: "string \<Rightarrow> metrics \<Rightarrow> jsnum option" where
  "getGauge name m = map_of (mt_gauges m) name"

definition getHistogram :: "string \<Rightarrow> metrics \<Rightarrow> jsnum list" where
  "getHistogram name m = (case map_of (mt_histograms m) name of Some xs \<Rightarrow> xs | None \<Rightarrow> [])"

definition histogram :: "string \<Rightarrow> jsnum \<Rightarrow> metrics \<Rightarrow> metrics" where
  "histogram name v m = m\<lparr>mt_histograms := map_set name (getHistogram name m @ [v]) (mt_histograms m)\<rparr>"

text \<open>The index is computed as a number; one that is no position gives nothing..\<close>

definition getHistogramPercentile :: "string \<Rightarrow> jsnum \<Rightarrow> metrics \<Rightarrow> jsnum option" where
  "getHistogramPercentile name p m =
     (let xs = getHistogram name m in
      if xs = [] then None
      else let sorted' = sort_key num_key xs; n = num_of_bigint (int (length xs));
               idx = num_min (num_sub n (Fin 1)) (math_floor (num_mul p n))
        in case idx of Fin q \<Rightarrow> if 0 \<le> q \<and> nat \<lfloor>q\<rfloor> < length xs then Some (sorted' ! nat \<lfloor>q\<rfloor>) else None | _ \<Rightarrow> None)"

section \<open>Redaction\<close>

definition REDACT_KEYS :: "string list" where
  "REDACT_KEYS = [''secret'', ''token'', ''key'', ''password'', ''credential'', ''private_key'', ''api_key'', ''signature'', ''mnemonic'', ''privatekey'']"

definition mask_text :: "string \<Rightarrow> string" where
  "mask_text s = (if 10 < length s then take 4 s @ ''****'' @ drop (length s - 4) s else ''****'')"

fun redactValue :: "json \<Rightarrow> json" where
  "redactValue (J_Str s) = J_Str (mask_text s)"
| "redactValue (J_Arr xs) = J_Arr (map redactValue xs)"
| "redactValue (J_Obj fs) = J_Obj (map (\<lambda>(k, v). (k, redactValue v)) fs)"
| "redactValue v = v"

definition sensitive_key :: "string \<Rightarrow> bool" where
  "sensitive_key k \<longleftrightarrow> map lower_char k \<in> set REDACT_KEYS"

fun deepRedactValue :: "json \<Rightarrow> json" where
  "deepRedactValue (J_Arr xs) = J_Arr (map deepRedactValue xs)"
| "deepRedactValue (J_Obj fs) = J_Obj (map (\<lambda>(k, v). (k, if sensitive_key k then redactValue v else deepRedactValue v)) fs)"
| "deepRedactValue v = v"

definition deepRedact :: "(string \<times> json) list \<Rightarrow> (string \<times> json) list" where
  "deepRedact meta = map (\<lambda>(k, v). (k, if sensitive_key k then redactValue v else deepRedactValue v)) meta"

datatype log_level = Log_debug | Log_info | Log_warn | Log_error

record log_entry =
  lg_level :: log_level
  lg_msg :: string
  lg_meta :: "(string \<times> json) list"
  lg_at :: ms

definition write_log :: "log_level \<Rightarrow> string \<Rightarrow> (string \<times> json) list \<Rightarrow> ms \<Rightarrow> log_entry list \<Rightarrow> log_entry list" where
  "write_log level msg meta now ls = ls @ [\<lparr>lg_level = level, lg_msg = msg, lg_meta = deepRedact meta, lg_at = now\<rparr>]"

definition getLogs :: "log_level option \<Rightarrow> log_entry list \<Rightarrow> log_entry list" where
  "getLogs level ls = (case level of None \<Rightarrow> ls | Some l \<Rightarrow> filter (\<lambda>e. lg_level e = l) ls)"

section \<open>Alerts\<close>

record alerts =
  al_listeners :: "(string \<times> string) list"
  al_last :: "(string \<times> jsnum) list"

definition alert_on :: "string \<Rightarrow> string \<Rightarrow> alerts \<Rightarrow> alerts" where
  "alert_on metric cb a = a\<lparr>al_listeners := map_set metric cb (al_listeners a)\<rparr>"

text \<open>The listener that is called, if any.\<close>

definition alert_check :: "string \<Rightarrow> jsnum \<Rightarrow> jsnum \<Rightarrow> alerts \<Rightarrow> string option \<times> alerts" where
  "alert_check metric v threshold a =
     (if num_lt threshold v then map_of (al_listeners a) metric else None, a\<lparr>al_last := map_set metric v (al_last a)\<rparr>)"

definition alert_reset :: "string \<Rightarrow> alerts \<Rightarrow> alerts" where
  "alert_reset metric a = a\<lparr>al_last := map_set metric (Fin 0) (al_last a)\<rparr>"

definition getLastValue :: "string \<Rightarrow> alerts \<Rightarrow> jsnum" where
  "getLastValue metric a = (case map_of (al_last a) metric of Some n \<Rightarrow> n | None \<Rightarrow> Fin 0)"

section \<open>Health check\<close>

record health_deps =
  hd_metrics :: "metrics option"
  hd_db :: "bool option"
  hd_venue :: "bool option"
  hd_forecast :: "(bool \<times> jsnum option) option"
  hd_signer :: "bool option"
  hd_reconciliation :: "(bool \<times> jsnum option) option"
  hd_lease :: "bool option"
  hd_clock :: "(bool \<times> jsnum option) option"
  hd_guard :: "bool option"
  hd_latch :: "bool option"

definition checks_of :: "health_deps \<Rightarrow> bool option list" where
  "checks_of d = [hd_db d, hd_venue d, map_option fst (hd_forecast d), hd_signer d, map_option fst (hd_reconciliation d), hd_lease d,
     map_option fst (hd_clock d), hd_guard d, hd_latch d]"

definition exceeds :: "(bool \<times> jsnum option) option \<Rightarrow> jsnum \<Rightarrow> bool" where
  "exceeds c limit \<longleftrightarrow> (case Option.bind c snd of Some n \<Rightarrow> num_lt limit n | None \<Rightarrow> False)"

definition isHealthy :: "health_deps option \<Rightarrow> bool" where
  "isHealthy deps =
     (case Option.bind deps hd_metrics of
        None \<Rightarrow> False
      | Some m \<Rightarrow>
          if num_lt (Fin 0) (getCounter ''errors'' m) \<or> num_lt (Fin 0) (getCounter ''jobs.failed'' m) then False
          else let d = the deps in
            if list_all (\<lambda>c. c = None) (checks_of d) then True
            else list_all (\<lambda>c. c = Some True) (checks_of d) \<and> \<not> exceeds (hd_forecast d) (Fin 300) \<and> \<not> exceeds (hd_clock d) (Fin 500) \<and>
              \<not> exceeds (hd_reconciliation d) (Fin 10))"

section \<open>Facts\<close>

lemma counters_add_up: "getCounter name (increment name b (increment name a m)) = num_add (num_add (getCounter name m) a) b"
  by (simp add: increment_def getCounter_def setCounter_def map_of_map_set)

lemma other_counter_kept: "name \<noteq> name' \<Longrightarrow> getCounter name' (increment name a m) = getCounter name' m"
  by (simp add: increment_def getCounter_def setCounter_def map_of_map_set)

text \<open>Every text below a sensitive key is masked, at any depth: at most eight characters of it are left.\<close>

fun texts_of :: "json \<Rightarrow> string list" where
  "texts_of (J_Str s) = [s]"
| "texts_of (J_Arr xs) = concat (map texts_of xs)"
| "texts_of (J_Obj fs) = concat (map (\<lambda>(k, v). texts_of v) fs)"
| "texts_of _ = []"

lemma redacted_texts: "texts_of (redactValue v) = map mask_text (texts_of v)"
proof (induction v rule: texts_of.induct)
  case (2 xs)
  then show ?case by (induction xs) simp_all
next
  case (3 fs)
  then have "\<forall>p \<in> set fs. texts_of (redactValue (snd p)) = map mask_text (texts_of (snd p))" by auto
  then show ?case by (induction fs) (simp_all add: case_prod_unfold)
qed simp_all

lemma mask_keeps_ends: "\<exists>p q. mask_text s = p @ ''****'' @ q \<and> length p + length q \<le> 8"
  by (cases "10 < length s") (auto simp: mask_text_def intro: exI [of _ "take 4 s"] exI [of _ "[]"])

text \<open>What is logged under a sensitive key is masked.\<close>

lemma log_masks_sensitive:
  assumes "(k, v) \<in> set meta" and "sensitive_key k"
  shows "(k, redactValue v) \<in> set (lg_meta (last (write_log level msg meta now ls)))"
  using assms by (force simp: write_log_def deepRedact_def)

text \<open>The key has to be spelled as in the list, and a number is kept.\<close>

lemma camel_case_key_leaks: "deepRedact [(''apiKey'', J_Str s)] = [(''apiKey'', J_Str s)]"
  by (simp add: deepRedact_def sensitive_key_def REDACT_KEYS_def lower_char_def)

lemma numeric_secret_leaks: "deepRedact [(''secret'', J_Num n)] = [(''secret'', J_Num n)]"
  by (simp add: deepRedact_def)

text \<open>With metrics and any one dependency the check asks for all of them; with metrics alone it asks for none.\<close>

theorem healthy_iff:
  "isHealthy (Some d) \<longleftrightarrow>
     (\<exists>m. hd_metrics d = Some m \<and> \<not> num_lt (Fin 0) (getCounter ''errors'' m) \<and> \<not> num_lt (Fin 0) (getCounter ''jobs.failed'' m)) \<and>
     (set (checks_of d) = {None} \<or> set (checks_of d) = {Some True} \<and> \<not> exceeds (hd_forecast d) (Fin 300) \<and> \<not> exceeds (hd_clock d) (Fin 500) \<and>
        \<not> exceeds (hd_reconciliation d) (Fin 10))"
proof -
  have all: "list_all (\<lambda>c. c = x) (checks_of d) \<longleftrightarrow> set (checks_of d) = {x}" for x
    by (auto simp: checks_of_def)
  show ?thesis by (cases "hd_metrics d") (auto simp: isHealthy_def all Let_def)
qed

lemma metrics_alone_are_healthy:
  "isHealthy (Some \<lparr>hd_metrics = Some \<lparr>mt_counters = [], mt_gauges = [], mt_histograms = []\<rparr>, hd_db = None, hd_venue = None, hd_forecast = None,
     hd_signer = None, hd_reconciliation = None, hd_lease = None, hd_clock = None, hd_guard = None, hd_latch = None\<rparr>)"
  by (simp add: isHealthy_def getCounter_def checks_of_def)

end
