(* ===== verification/VenueContracts.thy ===== *)
theory VenueContracts
  imports Discovery
begin

text \<open>
  The contracts of the venue package: the protocol profile of an asset (\<open>src/pm/venue/src/protocol-profile.ts\<close>), the target of a
  redemption (\<open>redeem-target.ts\<close>) and the freeze of the adapter against its pinned package (\<open>adapter-freeze.ts\<close>). A refusal
  carries its code and leaves out the text of the reason.
\<close>

section \<open>Protocol profile\<close>

datatype protocol_profile = Profile_CTF | Profile_POLY_V2

record asset_profile =
  ap_version :: "string option"
  ap_kind :: "string option"
  ap_asset :: "string option"

definition norm_text :: "string option \<Rightarrow> string" where
  "norm_text v = map upper_char (trim_str (case v of Some s \<Rightarrow> s | None \<Rightarrow> []))"

definition resolveProtocolProfile :: "asset_profile \<Rightarrow> protocol_profile outcome" where
  "resolveProtocolProfile i =
     (let version = norm_text (ap_version i); kind = norm_text (ap_kind i) in
      if version = ''V1'' \<or> kind = ''V1'' \<or> kind = ''LEGACY'' then Refused ''PROFILE_BLOCKED''
      else if kind = ''POLY_V2'' \<or> take 7 (case ap_asset i of Some s \<Rightarrow> s | None \<Rightarrow> []) = ''polyv2:'' then Ok Profile_POLY_V2
      else if kind = ''CTF'' \<or> kind = ''ERC1155'' then Ok Profile_CTF
      else Refused ''PROFILE_BLOCKED'')"

section \<open>Redemption\<close>

record redeem_input =
  rm_final :: bool
  rm_disputed :: bool
  rm_asset :: asset_profile
  rm_receipt :: bool

definition validateRedeemTarget :: "redeem_input \<Rightarrow> protocol_profile outcome" where
  "validateRedeemTarget i =
     (if \<not> rm_final i then Refused ''REDEEM_NOT_FINAL''
      else if rm_disputed i then Refused ''REDEEM_DISPUTED''
      else (case resolveProtocolProfile (rm_asset i) of
         Refused _ \<Rightarrow> Refused ''REDEEM_PROFILE_BLOCKED''
       | Ok p \<Rightarrow> if \<not> rm_receipt i then Refused ''REDEEM_NO_RECEIPT'' else Ok p))"

section \<open>Freeze of the adapter\<close>

record freeze_pin =
  fz_package :: string
  fz_version :: string
  fz_integrity :: string
  fz_surface :: "string list"
  fz_suite :: string

datatype freeze_mismatch = Mis_package | Mis_version | Mis_integrity | Mis_surface "string list" | Mis_suite | Mis_suite_red

definition freeze_mismatches :: "freeze_pin \<Rightarrow> freeze_pin \<Rightarrow> bool \<Rightarrow> freeze_mismatch list" where
  "freeze_mismatches expected observed suitePass =
     (let missing = filter (\<lambda>m. m \<notin> set (fz_surface observed)) (fz_surface expected) in
      (if fz_package observed \<noteq> fz_package expected then [Mis_package] else []) @
      (if fz_version observed \<noteq> fz_version expected then [Mis_version] else []) @
      (if fz_integrity observed \<noteq> fz_integrity expected then [Mis_integrity] else []) @
      (if missing \<noteq> [] then [Mis_surface missing] else []) @
      (if fz_suite observed \<noteq> fz_suite expected then [Mis_suite] else []) @
      (if \<not> suitePass then [Mis_suite_red] else []))"

definition checkAdapterFreeze :: "freeze_pin \<Rightarrow> freeze_pin \<Rightarrow> bool \<Rightarrow> freeze_mismatch list + unit" where
  "checkAdapterFreeze expected observed suitePass =
     (let ms = freeze_mismatches expected observed suitePass in if ms \<noteq> [] then Inl ms else Inr ())"

section \<open>Facts\<close>

text \<open>A redemption goes ahead exactly for a final, undisputed market with a resolved profile and a receipt.\<close>

theorem redeem_iff:
  "validateRedeemTarget i = Ok p \<longleftrightarrow> rm_final i \<and> \<not> rm_disputed i \<and> resolveProtocolProfile (rm_asset i) = Ok p \<and> rm_receipt i"
  by (auto simp: validateRedeemTarget_def split: outcome.split)

text \<open>An adapter is frozen exactly when pin and suite agree and its surface has every method of the pinned one; more methods are
  allowed.\<close>

theorem frozen_iff:
  "checkAdapterFreeze expected observed suitePass = Inr () \<longleftrightarrow>
     fz_package observed = fz_package expected \<and> fz_version observed = fz_version expected \<and> fz_integrity observed = fz_integrity expected \<and>
     set (fz_surface expected) \<subseteq> set (fz_surface observed) \<and> fz_suite observed = fz_suite expected \<and> suitePass"
  by (auto simp: checkAdapterFreeze_def freeze_mismatches_def Let_def filter_empty_conv)

lemma wider_surface_is_frozen: "checkAdapterFreeze e (e\<lparr>fz_surface := ms @ fz_surface e\<rparr>) True = Inr ()"
  by (simp add: frozen_iff)

text \<open>A legacy label blocks whatever else is known of the asset; behind another label a structured identifier decides.\<close>

lemma legacy_never_resolves:
  "norm_text (ap_version i) = ''V1'' \<or> norm_text (ap_kind i) \<in> {''V1'', ''LEGACY''} \<Longrightarrow> resolveProtocolProfile i = Refused ''PROFILE_BLOCKED''"
  by (auto simp: resolveProtocolProfile_def Let_def)

lemma structured_id_overrides_kind:
  "resolveProtocolProfile \<lparr>ap_version = None, ap_kind = Some ''CTF'', ap_asset = Some ''polyv2:1''\<rparr> = Ok Profile_POLY_V2"
  by code_simp

end
