(* ===== verification/Spec2Isabelle.thy ===== *)
theory Spec2Isabelle
  imports MoneySystem ExecutionSafety Settlement KillSwitch Outbox Projection Orchestrator LossGuard Calibration FunderCash LiveAdmission LiveStep Governance ControlStore Sizing LiveLoop VenueAdapter LiveFeed Strategies Experiments Ingress Intelligence Validation Consensus ArbScan Operations Discovery LedgerEntries Telemetry Forecast VenueContracts
begin

text \<open>
  Verification library of the PolyRoot trading agent: the path of money and orders, from the market data and the
  forecast over the strategies and the live loop to the order in front of the venue, the events that record it and what
  is learned from the outcome, with the guards around it (packages under \<open>src/pm\<close>: domain, control, risk, signer,
  executor, venue, ledger, strategy, intelligence, runtime, data, security, observability).

  \<^bold>\<open>How the parts interact.\<close> The orchestrator (\<open>control/src/orchestrator.ts\<close>) asks the signal for an edge,
  then the risk gate, which checks the commissioned caps and has the money kernel reserve the cash. The
  kernel (\<open>risk/src/money-kernel.ts\<close>) guards the request and calls the money authority
  (\<open>money-kernel-pg.ts\<close>), one serializable transaction over the tables of the database, retried a bounded
  number of times. The granted permit goes to the order builder, which clamps the order inside it and has the
  signer vault sign it; the executor takes a lease, checks order against permit, claims the permit, places the
  order and settles what the venue answers on the recovery ledger and the reservations. What happened is
  read back from the event log by the outbox and the balance projection.

  The live loop (\<open>runtime/src/g4-pipeline.ts\<close>, \<open>g4-core.ts\<close>) is the second way to an order: for every market of the discovered
  universe it takes prices and a forecast, passes admission, the loss latch, the exposure and entry guards and the same
  risk gate, and places the order through the same permits and executor; the venue adapter translates it for the
  SDK. The mode watcher, the promotion to LIVE, the preflight and the halt decide whether the loop may run; the resolution
  recorder turns decided markets into the training rows from which the calibration of forecasts is fitted. The strategies
  propose to the arbiter, which turns proposals into intents; the live loop does not call them.

  \<^bold>\<open>Theories\<close>, bottom up; the code each of them models is named in its own first paragraph.
  \<^item> \<open>Prelude\<close>: effects (state passing with exceptions), rows of a table, the connection with its faults, decimal
    and ISO strings, and the rules the component proofs share.
  \<^item> \<open>JsNumber\<close>: ECMAScript numbers (IEEE doubles as rationals with NaN and the infinities), rounding, comparison and the
    digits that Number.toString prints. \<open>DecimalBase\<close>: the conversion decimalToBase over them.
  \<^item> \<open>Domain\<close>: enumerations, permits, orders, intents, decisions, policies and their schemas. \<open>Database\<close>: the tables as
    a record, with the constraints of the migrations.
  \<^item> \<open>Reservations\<close>, \<open>MoneyAuthority\<close>, \<open>MoneyKernel\<close>, \<open>MoneySystem\<close>: the money path. Operations are transaction bodies
    over the record \<open>db\<close>, run by a connection that may fail before, at or after the commit. \<open>money_inv\<close> is the
    accounting invariant: balances are non-negative and the committed balance is exactly what the open
    reservations hold; \<open>MoneySystem\<close> closes it over all operations as a step relation.
  \<^item> \<open>LeaseStore\<close>, \<open>PermitStore\<close>, \<open>RecoveryLedger\<close>: the stores of the executor, in memory and in PostgreSQL, each pair
    as interpretations of one locale.
  \<^item> \<open>VenuePolicy\<close>, \<open>ExecutionSafety\<close>: mode gate, capability intersection, error taxonomy, rate governor,
    heartbeat reconciliation and order revalidation.
  \<^item> \<open>Executor\<close>: submit, cancel and reconcile over a record of operations (\<open>deps\<close>); the locale \<open>executor_ops\<close> states what they
    rely on. \<open>ExecutorWiring\<close> interprets it on the in-memory and the PostgreSQL stores and runs sequences of calls.
  \<^item> \<open>RiskGate\<close>, \<open>SignerVault\<close>, \<open>OrderBuilder\<close>, \<open>Signal\<close>, \<open>Orchestrator\<close>: the pipeline in front of the executor.
  \<^item> \<open>EventLog\<close>, \<open>Outbox\<close>, \<open>Projection\<close>, \<open>Settlement\<close>, \<open>KillSwitch\<close>: the event stores, what reads them, the settlement
    state machine, and the emergency plans. \<open>LedgerEntries\<close>: the entries of an intent and their sums.
  \<^item> \<open>JsOrder\<close>, \<open>JsString\<close>, \<open>Rounding\<close>, \<open>BaseUnits\<close>: order of numbers, built strings, monotone and exact rounding, and base units
    through a double and back; the facts the components below share.
  \<^item> \<open>LossGuard\<close>, \<open>FunderCash\<close>, \<open>LiveAdmission\<close>, \<open>Governance\<close>, \<open>ControlStore\<close>: who may trade: the loss latch with its durable row, the
    owner's cash, the promotion to LIVE, the control plane's decisions, and its order store, reconciler and supervisor.
  \<^item> \<open>Portfolio\<close>, \<open>Sizing\<close>, \<open>LiveStep\<close>, \<open>LiveLoop\<close>: allocation, exposure and Kelly sizing, position size in base units, one step
    of the live loop as a whole and the loop of passes around it with mode changes in between.
  \<^item> \<open>VenueAdapter\<close>: translation, placement, cancellation and status over any SDK client, and its composition
    with the executor. \<open>VenueContracts\<close>: protocol profile, redemption target and adapter freeze, which nothing calls yet.
  \<^item> \<open>MarketData\<close>, \<open>LiveFeed\<close>, \<open>Discovery\<close>: books, frames and freshness, the feed as a state machine over its sockets and timers,
    and how the universe of markets is found and checked.
  \<^item> \<open>Quoting\<close>, \<open>Arbiter\<close>, \<open>Strategies\<close>, \<open>Consensus\<close>, \<open>ArbScan\<close>, \<open>Experiments\<close>: pricing primitives, the arbiter over proposals, the
    strategies and their registry, the consensus of watched wallets, the scanner of outcome baskets, and the contracts of
    research with the adaptive tuner.
  \<^item> \<open>Intelligence\<close>, \<open>Calibration\<close>, \<open>Forecast\<close>, \<open>Resolution\<close>, \<open>Validation\<close>: sources, evidence and ensembles, isotonic calibration, the
    model-backed forecast provider, the recorder of outcomes, and the paper simulator with its metrics.
  \<^item> \<open>Egress\<close>, \<open>Ingress\<close>: what may leave the process and what may enter it. \<open>Operations\<close>, \<open>Telemetry\<close>: preflight, halt,
    health, instance guard and the autonomous loop; metrics, redacting log and health check.

  \<^bold>\<open>What the lemmas show.\<close> Safety of the order path: one order per permit, no resubmission of an order that may be
  live, no order past a failed check, an unknown outcome keeps its funds and stays on the ledger (in PostgreSQL unless its
  id was resolved there before). The record of what reached the venue, \<open>wo_placed\<close>, holds the orders themselves, so these
  facts are about the order that went out and the run that placed it. Accounting: the
  books balance in every reachable state, nothing is overspent, every transition of a reservation moves exactly
  its amounts and each operation is all or nothing under every fault of the connection. Conversions are exact.
  Exactly-once facts of the log: the projection equals the fold of the effects up to its checkpoint, the outbox
  delivers a prefix and finally everything.

  Live trading: an order of a live step passed admission, venue, forecast, regime, edge, the caps, the latch, its
  reservation, its permit and the executor; a step refused after its reservation gives the cash back; what is open stays
  within the capital cap along every run of the loop; the loss latch holds until the owner resets it with a measured loss
  below the cap; after its tolerated failures the mode watcher is READ_ONLY. Markets: the order book refines the frames it is
  fed, an automatic universe names only tokens whose market and touch passed the checks, in an order that does not depend
  on that of the parallel reads as long as the questions differ. Strategies: one intent per market within the budgets; a
  verdict of the experiment registry is final. Forecasts: a forecast is a probability or an abstention whatever a provider
  answers, venue text reaches the prompt without control characters, training stores only monotone maps into
  probabilities. Security: the proxy admits no protected path without credentials, the egress guard reaches no unlisted private
  IPv4 address. The entries of intents cancel out, and the health check is equivalent to its list of conditions. Where code and
  documentation disagree, a lemma states what the code does.

  \<^bold>\<open>Bounds.\<close> The kernel retries a serialization conflict \<open>MAX_SERIALIZATION_RETRIES = 2\<close> times, as the code does, so no fuel is
  needed there. Loops over lists are structural. The search for the shortest digits of a number in
  \<open>JsNumber\<close> is bounded by 17 digits, which are always enough for a double.

  \<^bold>\<open>What is not modelled.\<close> Concurrency between transactions is represented by their outcomes: a statement or a
  commit may fail, a commit's answer may get lost, and other operations may run between any two
  transactions of a sequence, but a transaction itself is atomic, which is what SERIALIZABLE and the row locks
  give; sequence numbers committed out of order by concurrent appends are therefore not covered.
  SHA-256, HMAC, UUIDs, elliptic curves and the signature are parameters, and so are the parsers and functions of the
  platform: \<open>JSON.parse\<close>, \<open>Date.parse\<close>, \<open>Number\<close> of a text, URLs, DNS, base64 and the transcendental functions of \<open>Math\<close>. An HTTP
  request is the answer it gets or a failure; waits and intervals, callbacks of observers, texts of log lines and
  alerts are left out, except where a component's state machine depends on a timer.
  Not modelled at all: the command line, the menus, the Telegram and console front ends and the process start, which are
  input and output around the modelled components; the construction of the venue's SDK client and of its signer, key
  storage and wallet setup, which call third-party cryptography; the worker processes of the strategy sandbox; the
  credential flow of the Codex login; backups, the metrics server and the tools that only display what is stored.
\<close>

end
